(* ===== verification/Bib_Prelude.thy ===== *)
theory Bib_Prelude
  imports Main "HOL-Library.Word" "HOL-Library.Sublist" "HOL-Library.AList"
begin

unbundle bit_operations_syntax

text \<open>
  Shared vocabulary of the development: the Go types the components use (byte slices,
  instants, durations, errors), the few functions of the Go standard library that several
  components call (hexadecimal encoding, splitting and trimming of strings, 64-bit
  wrap-around), the chain of guarded early returns every \<open>Validate\<close> method is made of,
  and the generic lemmas on them.

  Conventions: a Go \<open>string\<close> is a byte string, here \<^typ>\<open>string\<close>; a typed string
  constant (\<open>type TopicStatus string\<close>) stays a string, so that values outside the
  declared constants exist, as they do in Go. A pointer that may be \<open>nil\<close> is an
  \<^typ>\<open>'a option\<close>. An \<open>error\<close> result is \<^typ>\<open>'e option\<close> (\<open>None\<close> is \<open>nil\<close>), a pair of
  value and error is \<^typ>\<open>'e + 'a\<close>. A reading of the clock is an argument: a function
  that calls \<open>time.Now()\<close> twice takes two instants.
\<close>

named_theorems validate_defs \<open>unfolding rules of the validation methods\<close>
named_theorems op_defs \<open>unfolding rules of the operations that change state\<close>

type_synonym byte = "8 word"
type_synonym bytes = "byte list"
type_synonym instant = int
type_synonym duration = int

text \<open>Two's complement wrap-around of Go's 64-bit \<open>int\<close>.\<close>

definition wrap64 :: "int \<Rightarrow> int" where
  "wrap64 x = (x + 2 ^ 63) mod 2 ^ 64 - 2 ^ 63"

text \<open>\<open>Time.Sub\<close>: the difference of two instants, saturated at the range of a duration.\<close>

definition time_Sub :: "instant \<Rightarrow> instant \<Rightarrow> duration" where
  "time_Sub t u = max (- (2 ^ 63)) (min (2 ^ 63 - 1) (t - u))"

text \<open>
  A chain of guarded early returns: each entry says whether the guard fires and which
  error it returns.
\<close>

fun first_error :: "(bool \<times> 'e) list \<Rightarrow> 'e option" where
  "first_error [] = None"
| "first_error ((b, e) # cs) = (if b then Some e else first_error cs)"

text \<open>The first error a list of items produces, in order (a loop that returns on error).\<close>

fun first_some :: "('a \<Rightarrow> 'e option) \<Rightarrow> 'a list \<Rightarrow> 'e option" where
  "first_some f [] = None"
| "first_some f (x # xs) = (case f x of None \<Rightarrow> first_some f xs | Some e \<Rightarrow> Some e)"

text \<open>\<open>encoding/hex\<close>: two lower-case digits per byte.\<close>

definition hex_digit :: "nat \<Rightarrow> char" where
  "hex_digit n = (if n < 10 then char_of (48 + n) else char_of (87 + n))"

definition hex_byte :: "byte \<Rightarrow> string" where
  "hex_byte b = [hex_digit (unat b div 16), hex_digit (unat b mod 16)]"

definition hex_EncodeToString :: "bytes \<Rightarrow> string" where
  "hex_EncodeToString bs = concat (map hex_byte bs)"

text \<open>The decimal digits \<open>fmt\<close> prints for an \<open>int\<close>.\<close>

fun show_nat :: "nat \<Rightarrow> string" where
  "show_nat n = (if n < 10 then [char_of (48 + n)] else show_nat (n div 10) @ [char_of (48 + n mod 10)])"

declare show_nat.simps [simp del]

definition show_int :: "int \<Rightarrow> string" where
  "show_int i = (if i < 0 then CHR ''-'' # show_nat (nat (- i)) else show_nat (nat i))"

text \<open>
  \<open>strings.Split\<close> with a one-byte separator, \<open>strings.Trim\<close> with a one-byte cutset.
\<close>

fun strings_Split :: "char \<Rightarrow> string \<Rightarrow> string list" where
  "strings_Split c [] = [[]]"
| "strings_Split c (x # xs) =
     (if x = c then [] # strings_Split c xs
      else (case strings_Split c xs of [] \<Rightarrow> [[x]] | p # ps \<Rightarrow> (x # p) # ps))"

definition strings_Trim :: "char \<Rightarrow> string \<Rightarrow> string" where
  "strings_Trim c s = rev (dropWhile (\<lambda>x. x = c) (rev (dropWhile (\<lambda>x. x = c) s)))"

fun strings_Join :: "string list \<Rightarrow> string \<Rightarrow> string" where
  "strings_Join [] sep = []"
| "strings_Join [p] sep = p"
| "strings_Join (p # q # ps) sep = p @ sep @ strings_Join (q # ps) sep"

section \<open>Generic lemmas\<close>

lemma wrap64_id: "- (2 ^ 63) \<le> x \<Longrightarrow> x < 2 ^ 63 \<Longrightarrow> wrap64 x = x"
  by (simp add: wrap64_def)

lemma wrap64_range: "- (2 ^ 63) \<le> wrap64 x \<and> wrap64 x < 2 ^ 63"
  by (simp add: wrap64_def)

lemma first_error_None: "first_error cs = None \<longleftrightarrow> (\<forall>c \<in> set cs. \<not> fst c)"
  by (induction cs rule: first_error.induct) auto

lemma first_error_Some:
  "first_error cs = Some e \<longleftrightarrow>
     (\<exists>pre post. cs = pre @ (True, e) # post \<and> (\<forall>c \<in> set pre. \<not> fst c))"
proof (induction cs rule: first_error.induct)
  case 1
  then show ?case by simp
next
  case (2 b e' cs)
  show ?case
  proof (cases b)
    case True
    then show ?thesis by (auto simp: Cons_eq_append_conv)
  next
    case False
    have "(\<exists>pre post. (b, e') # cs = pre @ (True, e) # post \<and> (\<forall>c \<in> set pre. \<not> fst c))
        \<longleftrightarrow> (\<exists>pre post. cs = pre @ (True, e) # post \<and> (\<forall>c \<in> set pre. \<not> fst c))"
      (is "?L \<longleftrightarrow> ?R")
    proof
      assume ?L
      then obtain pre post where *: "(b, e') # cs = pre @ (True, e) # post"
        and **: "\<forall>c \<in> set pre. \<not> fst c" by blast
      from * False obtain pre' where "pre = (b, e') # pre'" by (cases pre) auto
      with * ** show ?R by auto
    next
      assume ?R
      then obtain pre post where "cs = pre @ (True, e) # post" "\<forall>c \<in> set pre. \<not> fst c"
        by blast
      then have "(b, e') # cs = ((b, e') # pre) @ (True, e) # post
          \<and> (\<forall>c \<in> set ((b, e') # pre). \<not> fst c)" using False by simp
      then show ?L by blast
    qed
    then show ?thesis using 2 False by simp
  qed
qed

lemma first_some_None [simp]: "first_some f xs = None \<longleftrightarrow> (\<forall>x \<in> set xs. f x = None)"
  by (induction xs) (auto split: option.splits)

lemma first_some_Some:
  "first_some f xs = Some e \<Longrightarrow> \<exists>x \<in> set xs. f x = Some e"
  by (induction xs) (auto split: option.splits)

lemma strings_Split_nonempty [simp]: "strings_Split c s \<noteq> []"
  by (induction s) (auto split: list.splits)

lemma strings_Join_Cons:
  "ps \<noteq> [] \<Longrightarrow> strings_Join (p # ps) sep = p @ sep @ strings_Join ps sep"
  by (cases ps) auto

lemma strings_Join_Split: "strings_Join (strings_Split c s) [c] = s"
proof (induction s)
  case Nil
  then show ?case by simp
next
  case (Cons x xs)
  obtain p ps where sp: "strings_Split c xs = p # ps"
    by (cases "strings_Split c xs") auto
  show ?case
  proof (cases "x = c")
    case True
    then show ?thesis using Cons by (simp add: strings_Join_Cons)
  next
    case False
    then show ?thesis using Cons sp by (cases ps) auto
  qed
qed

lemma strings_Split_no_sep: "p \<in> set (strings_Split c s) \<Longrightarrow> c \<notin> set p"
  by (induction s arbitrary: p) (auto split: if_splits list.splits)

lemma strings_Split_append:
  "c \<notin> set p \<Longrightarrow> strings_Split c (p @ c # s) = p # strings_Split c s"
  by (induction p) auto

lemma strings_Split_single: "c \<notin> set p \<Longrightarrow> strings_Split c p = [p]"
  by (induction p) auto

lemma strings_Split_Join:
  assumes "ps \<noteq> []" and "\<forall>p \<in> set ps. c \<notin> set p"
  shows "strings_Split c (strings_Join ps [c]) = ps"
  using assms
  by (induction ps "[c]" rule: strings_Join.induct)
     (auto simp: strings_Split_append strings_Split_single)

lemma strings_Trim_ends:
  assumes "strings_Trim c s \<noteq> []"
  shows "hd (strings_Trim c s) \<noteq> c" and "last (strings_Trim c s) \<noteq> c"
proof -
  let ?P = "\<lambda>x. x = c"
  let ?d = "dropWhile ?P s"
  let ?r = "dropWhile ?P (rev ?d)"
  have r: "?r \<noteq> []" using assms by (simp add: strings_Trim_def)
  then show "last (strings_Trim c s) \<noteq> c"
    using hd_dropWhile [of ?P "rev ?d"] by (simp add: strings_Trim_def last_rev)
  have d: "?d \<noteq> []" using r by (metis dropWhile.simps(1) rev.simps(1))
  have "rev ?d = takeWhile ?P (rev ?d) @ ?r" by simp
  then have "?d = rev ?r @ rev (takeWhile ?P (rev ?d))"
    by (metis rev_append rev_rev_ident)
  then have "hd ?d = hd (rev ?r)" using r by (metis hd_append rev_is_Nil_conv)
  then show "hd (strings_Trim c s) \<noteq> c"
    using hd_dropWhile [of ?P s] d by (simp add: strings_Trim_def)
qed

lemma length_hex: "length (hex_EncodeToString bs) = 2 * length bs"
  by (induction bs) (auto simp: hex_EncodeToString_def hex_byte_def)

lemma hex_append: "hex_EncodeToString (xs @ ys) = hex_EncodeToString xs @ hex_EncodeToString ys"
  by (simp add: hex_EncodeToString_def)

lemma hex_take: "take (2 * n) (hex_EncodeToString bs) = hex_EncodeToString (take n bs)"
proof -
  have "hex_EncodeToString bs
      = hex_EncodeToString (take n bs) @ hex_EncodeToString (drop n bs)"
    by (metis append_take_drop_id hex_append)
  moreover have "n \<le> length bs \<Longrightarrow> length (hex_EncodeToString (take n bs)) = 2 * n"
    by (simp add: length_hex)
  ultimately show ?thesis
    by (cases "n \<le> length bs") (simp_all add: length_hex)
qed

lemma hex_digit_inj: "m < 16 \<Longrightarrow> n < 16 \<Longrightarrow> hex_digit m = hex_digit n \<Longrightarrow> m = n"
proof -
  assume "m < 16" "n < 16" "hex_digit m = hex_digit n"
  then have "of_char (hex_digit m) = (of_char (hex_digit n) :: nat)" by simp
  with \<open>m < 16\<close> \<open>n < 16\<close> show "m = n"
    by (auto simp: hex_digit_def of_char_of split: if_splits)
qed

lemma hex_byte_inj: "hex_byte a = hex_byte b \<Longrightarrow> a = b"
proof -
  assume h: "hex_byte a = hex_byte b"
  have ba: "unat a < 256" and bb: "unat b < 256"
    using unsigned_less [of a] unsigned_less [of b] by simp_all
  have "unat a div 16 = unat b div 16"
    using h ba bb by (intro hex_digit_inj) (auto simp: hex_byte_def)
  moreover have "unat a mod 16 = unat b mod 16"
    using h by (intro hex_digit_inj) (auto simp: hex_byte_def)
  ultimately have "unat a = unat b" by (metis div_mult_mod_eq)
  then show "a = b" by (simp add: word_unat_eq_iff)
qed

lemma hex_inj: "hex_EncodeToString xs = hex_EncodeToString ys \<Longrightarrow> xs = ys"
proof (induction xs arbitrary: ys)
  case Nil
  then show ?case by (cases ys) (auto simp: hex_EncodeToString_def hex_byte_def)
next
  case (Cons x xs)
  then obtain y ys' where ys: "ys = y # ys'"
    by (cases ys) (auto simp: hex_EncodeToString_def hex_byte_def)
  have eq: "hex_byte x @ hex_EncodeToString xs = hex_byte y @ hex_EncodeToString ys'"
    using Cons.prems ys by (simp add: hex_EncodeToString_def)
  have len: "length (hex_byte x) = length (hex_byte y)" by (simp add: hex_byte_def)
  from eq len have "hex_byte x = hex_byte y"
    and "hex_EncodeToString xs = hex_EncodeToString ys'" by auto
  then show ?case using Cons.IH hex_byte_inj ys by blast
qed

lemma and_mask_bit: "(b::byte) AND push_bit n 1 \<noteq> 0 \<longleftrightarrow> bit b n"
proof -
  have "b AND push_bit n 1 = of_bool (bit b n) * push_bit n 1"
    by (rule bit_eqI) (auto simp: bit_simps)
  then show ?thesis
    using bit_imp_le_length [of b n] by (auto simp: push_bit_eq_0_iff bit_simps)
qed

lemma and_power_bit: "(b::byte) AND 2 ^ n = 0 \<longleftrightarrow> \<not> bit b n"
  using and_mask_bit [of b n] by auto

section \<open>Interfaces shared by several components\<close>

text \<open>
  The contract of a \<open>Validate\<close> method: it returns the error of the first guard of a
  chain that fires, and \<open>nil\<close> when none does.
\<close>

locale validator =
  fixes validate :: "'a \<Rightarrow> 'e option"
    and checks :: "'a \<Rightarrow> (bool \<times> 'e) list"
  assumes validate_checks: "validate x = first_error (checks x)"
begin

lemma accepts_iff: "validate x = None \<longleftrightarrow> (\<forall>c \<in> set (checks x). \<not> fst c)"
  by (simp add: validate_checks first_error_None)

lemma rejects_iff:
  "validate x = Some e \<longleftrightarrow>
     (\<exists>pre post. checks x = pre @ (True, e) # post \<and> (\<forall>c \<in> set pre. \<not> fst c))"
  by (simp add: validate_checks first_error_Some)

lemma rejects_fires: "validate x = Some e \<Longrightarrow> (True, e) \<in> set (checks x)"
  by (auto simp: rejects_iff)

lemma rejects_only_listed: "validate x = Some e \<Longrightarrow> e \<in> snd ` set (checks x)"
  using rejects_fires by force

end

text \<open>The contract of a resource that keeps a list of owners.\<close>

locale owned =
  fixes owners :: "'r \<Rightarrow> 'u list"
    and is_owner :: "'r \<Rightarrow> 'u \<Rightarrow> bool"
  assumes is_owner_iff: "is_owner r u \<longleftrightarrow> u \<in> set (owners r)"
begin

lemma some_owner_iff: "(\<exists>u. is_owner r u) \<longleftrightarrow> owners r \<noteq> []"
  by (auto simp: is_owner_iff) (meson last_in_set)

end

text \<open>The contract of a step relation with an invariant.\<close>

locale preserved =
  fixes step :: "'s \<Rightarrow> 's \<Rightarrow> bool" and inv :: "'s \<Rightarrow> bool"
  assumes step_inv: "step s t \<Longrightarrow> inv s \<Longrightarrow> inv t"
begin

lemma reachable_inv: "step\<^sup>*\<^sup>* s t \<Longrightarrow> inv s \<Longrightarrow> inv t"
  by (induction rule: rtranclp_induct) (auto intro: step_inv)

end

end
