(* ===== verification/Domain_Errors.thy ===== *)
theory Domain_Errors
  imports Bib_Prelude
begin

text \<open>
  The sentinel errors of the domain package (\<open>internal/domain/errors.go\<close>). Go compares
  them by identity (each is a distinct \<open>errors.New\<close> value), so they are the distinct
  constructors of one datatype.
\<close>

datatype (plugins only: size) domain_error =
    ErrInvalidTopicID
  | ErrInvalidTopicName
  | ErrInvalidTopicStatus
  | ErrTopicNotFound
  | ErrTopicArchived
  | ErrCannotRemoveLastOwner
  | ErrOwnerNotFound
  | ErrInvalidDatasetID
  | ErrInvalidDatasetName
  | ErrInvalidDatasetStatus
  | ErrDatasetNotFound
  | ErrInvalidHash
  | ErrHashMismatch
  | ErrInvalidSize
  | ErrInvalidChunkCount
  | ErrNoOwners
  | ErrInvalidVersionID
  | ErrInvalidVersionString
  | ErrVersionNotFound
  | ErrEmptyVersion
  | ErrInvalidChunkIndex
  | ErrChunkNotFound
  | ErrInvalidUserID
  | ErrInvalidUserName
  | ErrInvalidPublicKey
  | ErrInvalidKeyType
  | ErrInvalidUserStatus
  | ErrInvalidUserRole
  | ErrUserNotFound
  | ErrUserExists
  | ErrUserSuspended
  | ErrUserPending
  | ErrInvalidSignature
  | ErrInvalidOperation
  | ErrUnauthorized
  | ErrAutoRegDisabled
  | ErrSessionNotFound
  | ErrSessionExpired
  | ErrInvalidResourceType
  | ErrInvalidResourceID
  | ErrInvalidOwnershipRole
  | ErrOwnershipDenied
  | ErrSelfTransfer
  | ErrNotOwner
  | ErrInvalidInstruction
  | ErrNoInstructions
  | ErrInvalidTaskID
  | ErrInvalidTaskName
  | ErrTaskNotFound
  | ErrEmptyTask
  | ErrInvalidScheduleType
  | ErrInvalidCronExpr
  | ErrInvalidRepeatCount
  | ErrInvalidInterval
  | ErrInvalidTimeRange
  | ErrInvalidJobID
  | ErrInvalidJobType
  | ErrJobNotFound
  | ErrNoTaskOrInstructions
  | ErrInvalidExecutionMode
  | ErrCyclicDependency
  | ErrInvalidPipelineID
  | ErrInvalidPipelineName
  | ErrEmptyPipeline
  | ErrInvalidQueryID
  | ErrInvalidQueryType
  | ErrEmptySQLQuery
  | ErrNonSelectQuery
  | ErrNoTargetDatasets
  | ErrInvalidLimit
  | ErrInvalidOffset
  | ErrQueryTimeout
  | ErrDownloadNotFound
  | ErrDownloadFailed
  | ErrCatalogNotFound
  | ErrEntryNotFound
  | ErrUnsupportedProtocol
  | ErrInvalidMessage
  | ErrTimeout

type_synonym TopicID = string
type_synonym DatasetID = string
type_synonym DatasetVersionID = string
type_synonym ChunkID = string
type_synonym UserID = string
type_synonym TaskID = string
type_synonym JobID = string

end
