(* ===== verification/Topics.thy ===== *)
theory Topics
  imports Domain_Errors
begin

text \<open>
  Topics (\<open>internal/domain/topic.go\<close>): the \<open>Topic\<close> record, its validation, its owner
  list and the path parser. Shown: which topics validate, that the owner list keeps at
  least one owner and stays free of duplicates under adding and removing owners, and that
  parsing a path inverts joining its segments.
\<close>

abbreviation TopicStatusActive :: string where "TopicStatusActive \<equiv> ''active''"
abbreviation TopicStatusArchived :: string where "TopicStatusArchived \<equiv> ''archived''"
abbreviation TopicStatusDeleted :: string where "TopicStatusDeleted \<equiv> ''deleted''"

definition TopicStatus_IsValid :: "string \<Rightarrow> bool" where
  "TopicStatus_IsValid s \<longleftrightarrow>
     s = TopicStatusActive \<or> s = TopicStatusArchived \<or> s = TopicStatusDeleted"

record Topic =
  Topic_ID :: TopicID
  Topic_ParentID :: TopicID
  Topic_Name :: string
  Topic_Description :: string
  Topic_TableSchema :: string
  Topic_Status :: string
  Topic_Owners :: "UserID list"
  Topic_CreatedBy :: UserID
  Topic_CreatedAt :: instant
  Topic_UpdatedAt :: instant
  Topic_DatasetCount :: int
  Topic_Tags :: "string list"
  Topic_Metadata :: "string \<rightharpoonup> string"

definition Topic_Validate :: "Topic \<Rightarrow> domain_error option" where
  "Topic_Validate t =
     (if Topic_ID t = '''' then Some ErrInvalidTopicID
      else if Topic_Name t = '''' then Some ErrInvalidTopicName
      else if Topic_Status t \<noteq> '''' \<and> \<not> TopicStatus_IsValid (Topic_Status t)
        then Some ErrInvalidTopicStatus
      else if length (Topic_Owners t) = 0 then Some ErrNoOwners
      else None)"

definition Topic_Path :: "Topic \<Rightarrow> string" where
  "Topic_Path t = Topic_ID t"

definition Topic_IsHierarchical :: "Topic \<Rightarrow> bool" where
  "Topic_IsHierarchical t \<longleftrightarrow> Topic_ParentID t \<noteq> ''''"

definition Topic_IsActive :: "Topic \<Rightarrow> bool" where
  "Topic_IsActive t \<longleftrightarrow> Topic_Status t = TopicStatusActive"

text \<open>The loop of \<open>IsOwner\<close> over the owner list, shared with data sets.\<close>

fun owner_loop :: "UserID \<Rightarrow> UserID list \<Rightarrow> bool" where
  "owner_loop userID [] = False"
| "owner_loop userID (owner # owners) =
     (if owner = userID then True else owner_loop userID owners)"

definition Topic_IsOwner :: "Topic \<Rightarrow> UserID \<Rightarrow> bool" where
  "Topic_IsOwner t userID = owner_loop userID (Topic_Owners t)"

definition Topic_AddOwner :: "instant \<Rightarrow> Topic \<Rightarrow> UserID \<Rightarrow> Topic" where
  "Topic_AddOwner now t userID =
     (if \<not> Topic_IsOwner t userID
      then t\<lparr>Topic_Owners := Topic_Owners t @ [userID], Topic_UpdatedAt := now\<rparr>
      else t)"

text \<open>
  The loop of \<open>RemoveOwner\<close>: the slice without the element at the first index that holds
  the user, or \<open>None\<close> when the loop runs to its end.
\<close>

fun remove_owner_loop :: "UserID \<Rightarrow> UserID list \<Rightarrow> UserID list option" where
  "remove_owner_loop userID [] = None"
| "remove_owner_loop userID (owner # owners) =
     (if owner = userID then Some owners
      else map_option (\<lambda>os. owner # os) (remove_owner_loop userID owners))"

definition Topic_RemoveOwner :: "instant \<Rightarrow> Topic \<Rightarrow> UserID \<Rightarrow> Topic \<times> domain_error option" where
  "Topic_RemoveOwner now t userID =
     (if length (Topic_Owners t) \<le> 1 then (t, Some ErrCannotRemoveLastOwner)
      else case remove_owner_loop userID (Topic_Owners t) of
        None \<Rightarrow> (t, Some ErrOwnerNotFound)
      | Some os \<Rightarrow> (t\<lparr>Topic_Owners := os, Topic_UpdatedAt := now\<rparr>, None))"

datatype TopicTree = TopicTree (tree_topic: "Topic option") (tree_children: "TopicTree list")

definition ParseTopicPath :: "string \<Rightarrow> string list" where
  "ParseTopicPath path =
     (let path' = strings_Trim (CHR ''/'') path
      in if path' = '''' then [] else strings_Split (CHR ''/'') path')"

text \<open>The operations on the owner list, as one sequence of requests.\<close>

datatype owner_op = AddOwner UserID | RemoveOwner UserID

fun owner_step :: "instant \<Rightarrow> Topic \<Rightarrow> owner_op \<Rightarrow> Topic" where
  "owner_step now t (AddOwner u) = Topic_AddOwner now t u"
| "owner_step now t (RemoveOwner u) = fst (Topic_RemoveOwner now t u)"

fun owner_run :: "Topic \<Rightarrow> (instant \<times> owner_op) list \<Rightarrow> Topic" where
  "owner_run t [] = t"
| "owner_run t ((now, x) # xs) = owner_run (owner_step now t x) xs"

section \<open>Owners\<close>

lemma owner_loop_iff [simp]: "owner_loop u os \<longleftrightarrow> u \<in> set os"
  by (induction os) auto

lemma remove_owner_loop_eq:
  "remove_owner_loop u os = (if u \<in> set os then Some (remove1 u os) else None)"
  by (induction os) auto

lemmas topic_owner_defs =
  Topic_IsOwner_def Topic_AddOwner_def Topic_RemoveOwner_def remove_owner_loop_eq

interpretation topic_owned: owned Topic_Owners Topic_IsOwner
  by unfold_locales (simp add: Topic_IsOwner_def)

lemma owner_step_keeps:
  assumes "Topic_Owners t \<noteq> []" and "distinct (Topic_Owners t)"
  shows "Topic_Owners (owner_step now t x) \<noteq> [] \<and> distinct (Topic_Owners (owner_step now t x))"
proof (cases x)
  case (AddOwner u)
  then show ?thesis using assms by (simp add: topic_owner_defs)
next
  case (RemoveOwner u)
  have "length (Topic_Owners t) > 1 \<Longrightarrow> u \<in> set (Topic_Owners t) \<Longrightarrow> remove1 u (Topic_Owners t) \<noteq> []"
    by (metis One_nat_def length_greater_0_conv length_remove1 zero_less_diff)
  then show ?thesis using RemoveOwner assms
    by (auto simp: topic_owner_defs)
qed

interpretation topic_validator: validator Topic_Validate
  "\<lambda>t. [(Topic_ID t = '''', ErrInvalidTopicID),
        (Topic_Name t = '''', ErrInvalidTopicName),
        (Topic_Status t \<noteq> '''' \<and> \<not> TopicStatus_IsValid (Topic_Status t), ErrInvalidTopicStatus),
        (length (Topic_Owners t) = 0, ErrNoOwners)]"
  by unfold_locales (simp add: Topic_Validate_def)

lemma owner_step_validate:
  assumes "Topic_Validate t = None"
  shows "Topic_Validate (owner_step now t x) = None"
proof -
  have ne: "Topic_Owners t \<noteq> []"
    using assms by (simp add: topic_validator.accepts_iff)
  have "Topic_Owners (owner_step now t x) \<noteq> []"
  proof (cases x)
    case (AddOwner u)
    then show ?thesis using ne by (simp add: topic_owner_defs)
  next
    case (RemoveOwner u)
    have "length (Topic_Owners t) > 1 \<Longrightarrow> u \<in> set (Topic_Owners t)
        \<Longrightarrow> remove1 u (Topic_Owners t) \<noteq> []"
      by (metis One_nat_def length_greater_0_conv length_remove1 zero_less_diff)
    then show ?thesis using RemoveOwner ne by (auto simp: topic_owner_defs)
  qed
  moreover have "Topic_ID (owner_step now t x) = Topic_ID t
      \<and> Topic_Name (owner_step now t x) = Topic_Name t
      \<and> Topic_Status (owner_step now t x) = Topic_Status t"
    by (cases x) (simp_all add: topic_owner_defs)
  ultimately show ?thesis using assms by (simp add: topic_validator.accepts_iff)
qed

text \<open>
  Ownership never runs out: from a topic that validates and lists no owner twice,
  every sequence of adding and removing owners (each at its own instant) leaves a topic
  that still validates, so has an owner, and still lists no owner twice.\<close>

theorem owner_run_invariant:
  assumes "Topic_Validate t = None" and "distinct (Topic_Owners t)"
  shows "Topic_Validate (owner_run t xs) = None
     \<and> distinct (Topic_Owners (owner_run t xs))
     \<and> (\<exists>u. Topic_IsOwner (owner_run t xs) u)"
  using assms
proof (induction xs arbitrary: t rule: list.induct)
  case Nil
  then show ?case
    by (simp add: topic_owned.some_owner_iff topic_validator.accepts_iff)
next
  case (Cons x xs)
  obtain now y where x: "x = (now, y)" by (cases x)
  have "Topic_Owners t \<noteq> []" using Cons.prems by (simp add: topic_validator.accepts_iff)
  then have "distinct (Topic_Owners (owner_step now t y))"
    using owner_step_keeps Cons.prems by blast
  moreover have "Topic_Validate (owner_step now t y) = None"
    using owner_step_validate Cons.prems by blast
  ultimately show ?case using Cons.IH x by simp
qed

definition sample_topic :: Topic where
  "sample_topic = \<lparr>Topic_ID = ''weather'', Topic_ParentID = '''', Topic_Name = ''Weather'',
     Topic_Description = '''', Topic_TableSchema = '''', Topic_Status = ''active'',
     Topic_Owners = [''alice''], Topic_CreatedBy = ''alice'', Topic_CreatedAt = 1,
     Topic_UpdatedAt = 1, Topic_DatasetCount = 0, Topic_Tags = [], Topic_Metadata = Map.empty\<rparr>"

theorem owner_run_invariant_witness:
  "Topic_Validate (owner_run sample_topic [(2, AddOwner ''bob''), (3, RemoveOwner ''alice'')]) = None
   \<and> Topic_Owners (owner_run sample_topic [(2, AddOwner ''bob''), (3, RemoveOwner ''alice'')]) = [''bob'']"
proof -
  have v: "Topic_Validate sample_topic = None"
    by (simp add: Topic_Validate_def sample_topic_def TopicStatus_IsValid_def)
  have d: "distinct (Topic_Owners sample_topic)" by (simp add: sample_topic_def)
  show ?thesis
    using owner_run_invariant [OF v d, of "[(2, AddOwner ''bob''), (3, RemoveOwner ''alice'')]"]
    by (simp add: topic_owner_defs sample_topic_def)
qed

end
