(* ===== verification/Instructions.thy ===== *)
theory Instructions
  imports Topics Complex_Main
begin

text \<open>
  Instructions and tasks (\<open>internal/domain/instruction.go\<close>): the closed list of operations
  a job may use, single instructions and reusable tasks, and their validation. Shown: a
  task validates exactly when it is named and every instruction uses a listed operation.
\<close>

text \<open>
  A value of Go's type \<open>any\<close>, as it arrives in instruction parameters and query rows
  (decoded JSON). No modelled code looks inside one. A \<open>float64\<close> is a rational.
\<close>

datatype any =
    AnyNil
  | AnyBool bool
  | AnyNum rat
  | AnyString string
  | AnyList "any list"
  | AnyMap "(string \<times> any) list"

definition instruction_ops :: "string list" where
  "instruction_ops =
    [''http.get'', ''http.post'',
     ''file.unzip'', ''file.untar'', ''file.read'', ''file.write'', ''file.delete'',
     ''file.list'', ''file.move'', ''file.copy'', ''file.hash'', ''file.size'', ''file.exists'',
     ''file.gunzip'', ''file.bunzip2'',
     ''csv.parse'', ''json.parse'', ''xml.parse'',
     ''transform.map'', ''transform.filter'', ''transform.reduce'', ''transform.flatten'',
     ''transform.sort'', ''transform.unique'', ''transform.group'', ''transform.join'',
     ''validate.schema'', ''validate.not_null'', ''validate.range'', ''validate.regex'',
     ''validate.type'', ''validate.checksum'',
     ''string.split'', ''string.join'', ''string.replace'', ''string.trim'', ''string.lower'',
     ''string.upper'',
     ''control.if'', ''control.foreach'', ''control.retry'', ''control.sleep'',
     ''var.set'', ''var.get'', ''var.delete'',
     ''output.store'', ''output.append'']"

definition InstructionOp_IsValid :: "string \<Rightarrow> bool" where
  "InstructionOp_IsValid op' \<longleftrightarrow> op' \<in> set instruction_ops"

definition InstructionOp_IsSafe :: "string \<Rightarrow> bool" where
  "InstructionOp_IsSafe op' \<longleftrightarrow> InstructionOp_IsValid op'"

record Instruction =
  Instruction_ID :: string
  Instruction_Operation :: string
  Instruction_Params :: "string \<rightharpoonup> any"
  Instruction_OutputVar :: string
  Instruction_Condition :: string
  Instruction_OnError :: string
  Instruction_RetryCount :: int
  Instruction_Description :: string

definition Instruction_Validate :: "Instruction \<Rightarrow> domain_error option" where
  "Instruction_Validate i =
     (if \<not> InstructionOp_IsValid (Instruction_Operation i) then Some ErrInvalidInstruction
      else None)"

record Task =
  Task_ID :: TaskID
  Task_Name :: string
  Task_Description :: string
  Task_Version :: string
  Task_Instructions :: "Instruction list"
  Task_InputSchema :: string
  Task_OutputSchema :: string
  Task_CreatedBy :: UserID
  Task_CreatedAt :: instant
  Task_UpdatedAt :: instant
  Task_Tags :: "string list"
  Task_Metadata :: "string \<rightharpoonup> string"

definition Task_Validate :: "Task \<Rightarrow> domain_error option" where
  "Task_Validate t =
     (if Task_ID t = '''' then Some ErrInvalidTaskID
      else if Task_Name t = '''' then Some ErrInvalidTaskName
      else if length (Task_Instructions t) = 0 then Some ErrEmptyTask
      else first_some Instruction_Validate (Task_Instructions t))"

section \<open>Validation\<close>

interpretation instruction_validator: validator Instruction_Validate
  "\<lambda>i. [(\<not> InstructionOp_IsValid (Instruction_Operation i), ErrInvalidInstruction)]"
  by unfold_locales (simp add: Instruction_Validate_def)

lemma instructions_validate:
  "first_some Instruction_Validate is =
     (if \<forall>i \<in> set is. InstructionOp_IsValid (Instruction_Operation i) then None
      else Some ErrInvalidInstruction)"
proof (induction "is")
  case Nil
  then show ?case by simp
next
  case (Cons i "is")
  then show ?case by (simp add: Instruction_Validate_def)
qed

interpretation task_validator: validator Task_Validate
  "\<lambda>t. [(Task_ID t = '''', ErrInvalidTaskID),
        (Task_Name t = '''', ErrInvalidTaskName),
        (length (Task_Instructions t) = 0, ErrEmptyTask),
        (\<exists>i \<in> set (Task_Instructions t). \<not> InstructionOp_IsValid (Instruction_Operation i),
           ErrInvalidInstruction)]"
  by unfold_locales (auto simp: Task_Validate_def instructions_validate)

lemma instruction_ops_distinct: "distinct instruction_ops"
  unfolding instruction_ops_def by code_simp

text \<open>The name space of an operation: the bytes before its first dot.\<close>

definition op_family :: "string \<Rightarrow> string" where
  "op_family s = takeWhile (\<lambda>c. c \<noteq> CHR ''.'') s"

definition sandbox_families :: "string list" where
  "sandbox_families = [''http'', ''file'', ''csv'', ''json'', ''xml'', ''transform'', ''validate'',
     ''string'', ''control'', ''var'', ''output'']"

lemma instruction_ops_families:
  "list_all (\<lambda>s. op_family s \<in> set sandbox_families) instruction_ops"
  unfolding instruction_ops_def sandbox_families_def op_family_def by code_simp

text \<open>
  The sandbox of a task: a task that validates has an ID, a name and at least one
  instruction, and every instruction's operation is one of the listed operations, so lies
  in one of the eleven declared families (there is no shell or process family).\<close>

theorem task_sandboxed:
  assumes "Task_Validate t = None"
  shows "Task_ID t \<noteq> '''' \<and> Task_Name t \<noteq> '''' \<and> Task_Instructions t \<noteq> []
    \<and> (\<forall>i \<in> set (Task_Instructions t). Instruction_Operation i \<in> set instruction_ops
         \<and> op_family (Instruction_Operation i) \<in> set sandbox_families)"
proof -
  from assms have *: "Task_ID t \<noteq> '''' \<and> Task_Name t \<noteq> '''' \<and> Task_Instructions t \<noteq> []
      \<and> (\<forall>i \<in> set (Task_Instructions t). Instruction_Operation i \<in> set instruction_ops)"
    by (simp add: task_validator.accepts_iff InstructionOp_IsValid_def)
  then show ?thesis using instruction_ops_families by (auto simp: list_all_iff)
qed

definition sample_instruction :: "string \<Rightarrow> Instruction" where
  "sample_instruction op' = \<lparr>Instruction_ID = ''i'', Instruction_Operation = op',
     Instruction_Params = Map.empty, Instruction_OutputVar = '''', Instruction_Condition = '''',
     Instruction_OnError = ''fail'', Instruction_RetryCount = 0, Instruction_Description = ''''\<rparr>"

definition sample_task :: Task where
  "sample_task = \<lparr>Task_ID = ''t1'', Task_Name = ''fetch'', Task_Description = '''',
     Task_Version = ''1.0.0'',
     Task_Instructions = [sample_instruction ''http.get'', sample_instruction ''csv.parse''],
     Task_InputSchema = '''', Task_OutputSchema = '''', Task_CreatedBy = ''alice'',
     Task_CreatedAt = 0, Task_UpdatedAt = 0, Task_Tags = [], Task_Metadata = Map.empty\<rparr>"

theorem task_sandboxed_witness:
  "Task_Validate sample_task = None
   \<and> op_family (Instruction_Operation (hd (Task_Instructions sample_task))) \<in> set sandbox_families"
proof -
  have v: "Task_Validate sample_task = None"
    by (simp add: sample_task_def sample_instruction_def task_validator.accepts_iff
        InstructionOp_IsValid_def instruction_ops_def)
  then show ?thesis using task_sandboxed [OF v] by (auto simp: sample_task_def)
qed

end
