(* ===== verification/Datasets.thy ===== *)
theory Datasets
  imports Instructions Schedules
begin

text \<open>
  Data sets, versions, content, chunks and catalogs (\<open>internal/domain/dataset.go\<close>,
  \<open>internal/domain/catalog.go\<close>). Shown: the validation contract of each entity and the
  behaviour of the catalog lookups.
\<close>

definition DatasetStatus_IsValid :: "string \<Rightarrow> bool" where
  "DatasetStatus_IsValid s \<longleftrightarrow>
     s \<in> set [''draft'', ''active'', ''archived'', ''deleted'', ''ingesting'', ''failed'']"

definition ChunkStatus_IsValid :: "string \<Rightarrow> bool" where
  "ChunkStatus_IsValid s \<longleftrightarrow>
     s \<in> set [''pending'', ''downloading'', ''downloaded'', ''verified'', ''failed'']"

record Dataset =
  Dataset_ID :: DatasetID
  Dataset_TopicID :: TopicID
  Dataset_Name :: string
  Dataset_Description :: string
  Dataset_Status :: string
  Dataset_LatestVersionID :: DatasetVersionID
  Dataset_VersionCount :: int
  Dataset_HasContent :: bool
  Dataset_HasInstructions :: bool
  Dataset_Owners :: "UserID list"
  Dataset_CreatedBy :: UserID
  Dataset_CreatedAt :: instant
  Dataset_UpdatedAt :: instant
  Dataset_Tags :: "string list"
  Dataset_Metadata :: "string \<rightharpoonup> string"

definition Dataset_Validate :: "Dataset \<Rightarrow> domain_error option" where
  "Dataset_Validate d =
     (if Dataset_ID d = '''' then Some ErrInvalidDatasetID
      else if Dataset_TopicID d = '''' then Some ErrInvalidTopicID
      else if Dataset_Name d = '''' then Some ErrInvalidDatasetName
      else if Dataset_Status d \<noteq> '''' \<and> \<not> DatasetStatus_IsValid (Dataset_Status d)
        then Some ErrInvalidDatasetStatus
      else if length (Dataset_Owners d) = 0 then Some ErrNoOwners
      else None)"

definition Dataset_IsOwner :: "Dataset \<Rightarrow> UserID \<Rightarrow> bool" where
  "Dataset_IsOwner d userID = owner_loop userID (Dataset_Owners d)"

record DatasetContent =
  Content_Hash :: string
  Content_Size :: int
  Content_RowCount :: int
  Content_ChunkCount :: int
  Content_ChunkSize :: int
  Content_Format :: string
  Content_Checksum :: string
  Content_StoragePath :: string

definition DatasetContent_Validate :: "DatasetContent \<Rightarrow> domain_error option" where
  "DatasetContent_Validate c =
     (if Content_Hash c = '''' then Some ErrInvalidHash
      else if Content_Size c < 0 then Some ErrInvalidSize
      else if Content_ChunkCount c < 0 then Some ErrInvalidChunkCount
      else None)"

record SourceMetadata =
  Source_Type :: string
  Source_URL :: string
  Source_Description :: string
  Source_License :: string
  Source_Attribution :: string
  Source_LastChecked :: "instant option"
  Source_OriginalFormat :: string
  Source_Metadata :: "string \<rightharpoonup> string"

record DatasetInstructions =
  DI_TaskID :: TaskID
  DI_Instructions :: "Instruction list"
  DI_InputVariables :: "string \<rightharpoonup> string"
  DI_SourceMetadata :: "SourceMetadata option"
  DI_LastExecutedAt :: "instant option"
  DI_LastExecutionStatus :: string
  DI_Schedule :: "Schedule option"

definition DatasetInstructions_Validate :: "DatasetInstructions \<Rightarrow> domain_error option" where
  "DatasetInstructions_Validate i =
     (if DI_TaskID i = '''' \<and> length (DI_Instructions i) = 0 then Some ErrNoInstructions
      else first_some Instruction_Validate (DI_Instructions i))"

record DatasetVersion =
  Version_ID :: DatasetVersionID
  Version_DatasetID :: DatasetID
  Version_Version :: string
  Version_PreviousVersionID :: DatasetVersionID
  Version_Content :: "DatasetContent option"
  Version_Instructions :: "DatasetInstructions option"
  Version_TableSchema :: string
  Version_CreatedBy :: UserID
  Version_CreatedAt :: instant
  Version_Message :: string
  Version_Metadata :: "string \<rightharpoonup> string"

definition DatasetVersion_Validate :: "DatasetVersion \<Rightarrow> domain_error option" where
  "DatasetVersion_Validate v =
     (if Version_ID v = '''' then Some ErrInvalidVersionID
      else if Version_DatasetID v = '''' then Some ErrInvalidDatasetID
      else if Version_Version v = '''' then Some ErrInvalidVersionString
      else if Version_Content v = None \<and> Version_Instructions v = None then Some ErrEmptyVersion
      else None)"

definition DatasetVersion_HasContent :: "DatasetVersion \<Rightarrow> bool" where
  "DatasetVersion_HasContent v \<longleftrightarrow> Version_Content v \<noteq> None"

definition DatasetVersion_HasInstructions :: "DatasetVersion \<Rightarrow> bool" where
  "DatasetVersion_HasInstructions v \<longleftrightarrow> Version_Instructions v \<noteq> None"

record Chunk =
  Chunk_ID :: ChunkID
  Chunk_DatasetID :: DatasetID
  Chunk_VersionID :: DatasetVersionID
  Chunk_Index :: int
  Chunk_Hash :: string
  Chunk_Size :: int
  Chunk_Status :: string
  Chunk_StoragePath :: string
  Chunk_Data :: bytes

definition Chunk_Validate :: "Chunk \<Rightarrow> domain_error option" where
  "Chunk_Validate c =
     (if Chunk_DatasetID c = '''' then Some ErrInvalidDatasetID
      else if Chunk_Index c < 0 then Some ErrInvalidChunkIndex
      else if Chunk_Hash c = '''' then Some ErrInvalidHash
      else None)"

record CatalogEntry =
  Entry_TopicID :: TopicID
  Entry_TopicName :: string
  Entry_DatasetID :: DatasetID
  Entry_DatasetName :: string
  Entry_VersionID :: DatasetVersionID
  Entry_Version :: string
  Entry_Hash :: string
  Entry_Size :: int
  Entry_ChunkCount :: int
  Entry_HasContent :: bool
  Entry_HasInstructions :: bool
  Entry_Owners :: "UserID list"
  Entry_UpdatedAt :: instant

record Catalog =
  Catalog_PeerID :: string
  Catalog_Entries :: "CatalogEntry list"
  Catalog_LastUpdated :: instant
  Catalog_Version :: "64 word"

fun hash_loop :: "string \<Rightarrow> CatalogEntry list \<Rightarrow> bool" where
  "hash_loop h [] = False"
| "hash_loop h (e # es) = (if Entry_Hash e = h then True else hash_loop h es)"

definition Catalog_HasEntry :: "Catalog \<Rightarrow> string \<Rightarrow> bool" where
  "Catalog_HasEntry c h = hash_loop h (Catalog_Entries c)"

fun entry_loop :: "DatasetID \<Rightarrow> CatalogEntry list \<Rightarrow> CatalogEntry option" where
  "entry_loop d [] = None"
| "entry_loop d (e # es) = (if Entry_DatasetID e = d then Some e else entry_loop d es)"

definition Catalog_GetEntry :: "Catalog \<Rightarrow> DatasetID \<Rightarrow> CatalogEntry option" where
  "Catalog_GetEntry c d = entry_loop d (Catalog_Entries c)"

section \<open>Validation\<close>

interpretation dataset_owned: owned Dataset_Owners Dataset_IsOwner
  by unfold_locales (simp add: Dataset_IsOwner_def)

interpretation dataset_validator: validator Dataset_Validate
  "\<lambda>d. [(Dataset_ID d = '''', ErrInvalidDatasetID),
        (Dataset_TopicID d = '''', ErrInvalidTopicID),
        (Dataset_Name d = '''', ErrInvalidDatasetName),
        (Dataset_Status d \<noteq> '''' \<and> \<not> DatasetStatus_IsValid (Dataset_Status d),
           ErrInvalidDatasetStatus),
        (length (Dataset_Owners d) = 0, ErrNoOwners)]"
  by unfold_locales (simp add: Dataset_Validate_def)

interpretation content_validator: validator DatasetContent_Validate
  "\<lambda>c. [(Content_Hash c = '''', ErrInvalidHash), (Content_Size c < 0, ErrInvalidSize),
        (Content_ChunkCount c < 0, ErrInvalidChunkCount)]"
  by unfold_locales (simp add: DatasetContent_Validate_def)

interpretation version_validator: validator DatasetVersion_Validate
  "\<lambda>v. [(Version_ID v = '''', ErrInvalidVersionID),
        (Version_DatasetID v = '''', ErrInvalidDatasetID),
        (Version_Version v = '''', ErrInvalidVersionString),
        (Version_Content v = None \<and> Version_Instructions v = None, ErrEmptyVersion)]"
  by unfold_locales (simp add: DatasetVersion_Validate_def)

interpretation di_validator: validator DatasetInstructions_Validate
  "\<lambda>i. [(DI_TaskID i = '''' \<and> length (DI_Instructions i) = 0, ErrNoInstructions),
        (\<exists>x \<in> set (DI_Instructions i). \<not> InstructionOp_IsValid (Instruction_Operation x),
           ErrInvalidInstruction)]"
  by unfold_locales (auto simp: DatasetInstructions_Validate_def instructions_validate)

interpretation chunk_validator: validator Chunk_Validate
  "\<lambda>c. [(Chunk_DatasetID c = '''', ErrInvalidDatasetID), (Chunk_Index c < 0, ErrInvalidChunkIndex),
        (Chunk_Hash c = '''', ErrInvalidHash)]"
  by unfold_locales (simp add: Chunk_Validate_def)

lemma version_has_payload:
  "DatasetVersion_Validate v = None
     \<Longrightarrow> DatasetVersion_HasContent v \<or> DatasetVersion_HasInstructions v"
  by (auto simp: version_validator.accepts_iff DatasetVersion_HasContent_def
      DatasetVersion_HasInstructions_def)

lemma dataset_has_owner: "Dataset_Validate d = None \<Longrightarrow> \<exists>u. Dataset_IsOwner d u"
  by (simp add: dataset_owned.some_owner_iff dataset_validator.accepts_iff)

section \<open>Catalogs\<close>

lemma hash_loop_iff: "hash_loop h es \<longleftrightarrow> (\<exists>e \<in> set es. Entry_Hash e = h)"
  by (induction es) auto

lemma entry_loop_find: "entry_loop d es = find (\<lambda>e. Entry_DatasetID e = d) es"
  by (induction es) auto

lemma Catalog_HasEntry_iff:
  "Catalog_HasEntry c h \<longleftrightarrow> (\<exists>e \<in> set (Catalog_Entries c). Entry_Hash e = h)"
  by (simp add: Catalog_HasEntry_def hash_loop_iff)

lemma Catalog_GetEntry_Some:
  "Catalog_GetEntry c d = Some e \<longleftrightarrow>
     (\<exists>i < length (Catalog_Entries c). Catalog_Entries c ! i = e \<and> Entry_DatasetID e = d
        \<and> (\<forall>j < i. Entry_DatasetID (Catalog_Entries c ! j) \<noteq> d))"
  by (auto simp: Catalog_GetEntry_def entry_loop_find find_Some_iff)

end
