(* ===== verification/Users.thy ===== *)
theory Users
  imports Topics
begin

text \<open>
  Users and ownership grants (\<open>internal/domain/user.go\<close>, \<open>internal/domain/ownership.go\<close>).
  The digest \<open>sha256.Sum256\<close> and the signature check \<open>ed25519.Verify\<close> are arguments of the
  operations that call them. Shown: how identifiers derive from keys, when a newly created
  user validates, the capability order of the ownership roles, and the validation contracts.
\<close>

abbreviation UserStatusActive :: string where "UserStatusActive \<equiv> ''active''"
abbreviation UserStatusPending :: string where "UserStatusPending \<equiv> ''pending''"
abbreviation UserStatusSuspended :: string where "UserStatusSuspended \<equiv> ''suspended''"
abbreviation UserStatusDeleted :: string where "UserStatusDeleted \<equiv> ''deleted''"

definition UserStatus_IsValid :: "string \<Rightarrow> bool" where
  "UserStatus_IsValid s \<longleftrightarrow>
     s \<in> set [UserStatusActive, UserStatusPending, UserStatusSuspended, UserStatusDeleted]"

abbreviation UserRoleAdmin :: string where "UserRoleAdmin \<equiv> ''admin''"
abbreviation UserRoleUser :: string where "UserRoleUser \<equiv> ''user''"
abbreviation UserRoleReadonly :: string where "UserRoleReadonly \<equiv> ''readonly''"

definition UserRole_IsValid :: "string \<Rightarrow> bool" where
  "UserRole_IsValid r \<longleftrightarrow> r \<in> set [UserRoleAdmin, UserRoleUser, UserRoleReadonly]"

abbreviation KeyTypeEd25519 :: string where "KeyTypeEd25519 \<equiv> ''ed25519''"
abbreviation KeyTypeRSA :: string where "KeyTypeRSA \<equiv> ''rsa''"

text \<open>\<open>ed25519.PublicKeySize\<close> and \<open>ed25519.SignatureSize\<close>.\<close>

definition ed25519_PublicKeySize :: nat where "ed25519_PublicKeySize = 32"
definition ed25519_SignatureSize :: nat where "ed25519_SignatureSize = 64"

record User =
  User_ID :: UserID
  User_PublicKey :: bytes
  User_KeyType :: string
  User_PublicKeyFingerprint :: string
  User_Name :: string
  User_Email :: string
  User_Status :: string
  User_Role :: string
  User_Locale :: string
  User_CreatedAt :: instant
  User_UpdatedAt :: instant
  User_LastLoginAt :: "instant option"
  User_Metadata :: "string \<rightharpoonup> string"

definition User_Validate :: "User \<Rightarrow> domain_error option" where
  "User_Validate u =
     (if User_ID u = '''' then Some ErrInvalidUserID
      else if length (User_PublicKey u) = 0 then Some ErrInvalidPublicKey
      else if User_KeyType u = KeyTypeEd25519 \<and> length (User_PublicKey u) \<noteq> ed25519_PublicKeySize
        then Some ErrInvalidPublicKey
      else if User_KeyType u = KeyTypeRSA \<and> length (User_PublicKey u) < 64
        then Some ErrInvalidPublicKey
      else if User_KeyType u \<noteq> KeyTypeEd25519 \<and> User_KeyType u \<noteq> KeyTypeRSA
        then Some ErrInvalidKeyType
      else if User_Name u = '''' then Some ErrInvalidUserName
      else if \<not> UserStatus_IsValid (User_Status u) then Some ErrInvalidUserStatus
      else if \<not> UserRole_IsValid (User_Role u) then Some ErrInvalidUserRole
      else None)"

definition User_VerifySignature ::
    "(bytes \<Rightarrow> bytes \<Rightarrow> bytes \<Rightarrow> bool) \<Rightarrow> User \<Rightarrow> bytes \<Rightarrow> bytes \<Rightarrow> bool" where
  "User_VerifySignature ed25519_Verify u message signature =
     (if User_KeyType u \<noteq> KeyTypeEd25519 then False
      else if length (User_PublicKey u) \<noteq> ed25519_PublicKeySize then False
      else ed25519_Verify (User_PublicKey u) message signature)"

definition User_IsAdmin :: "User \<Rightarrow> bool" where
  "User_IsAdmin u \<longleftrightarrow> User_Role u = UserRoleAdmin"

definition User_CanWrite :: "User \<Rightarrow> bool" where
  "User_CanWrite u \<longleftrightarrow> User_Role u = UserRoleAdmin \<or> User_Role u = UserRoleUser"

definition User_IsActive :: "User \<Rightarrow> bool" where
  "User_IsActive u \<longleftrightarrow> User_Status u = UserStatusActive"

definition UserIDFromPublicKey :: "(bytes \<Rightarrow> bytes) \<Rightarrow> bytes \<Rightarrow> UserID" where
  "UserIDFromPublicKey sha256 pubKey =
     (if length pubKey = 0 then '''' else hex_EncodeToString (take 20 (sha256 pubKey)))"

definition PublicKeyFingerprint :: "(bytes \<Rightarrow> bytes) \<Rightarrow> bytes \<Rightarrow> string" where
  "PublicKeyFingerprint sha256 pubKey =
     (if length pubKey = 0 then '''' else hex_EncodeToString (sha256 pubKey))"

definition NewUser ::
    "(bytes \<Rightarrow> bytes) \<Rightarrow> instant \<Rightarrow> bytes \<Rightarrow> string \<Rightarrow> string \<Rightarrow> string \<Rightarrow> bool \<Rightarrow> User" where
  "NewUser sha256 now publicKey keyType name email isFirstUser =
     \<lparr>User_ID = UserIDFromPublicKey sha256 publicKey,
      User_PublicKey = publicKey,
      User_KeyType = keyType,
      User_PublicKeyFingerprint = PublicKeyFingerprint sha256 publicKey,
      User_Name = name,
      User_Email = email,
      User_Status = UserStatusActive,
      User_Role = (if isFirstUser then UserRoleAdmin else UserRoleUser),
      User_Locale = '''',
      User_CreatedAt = now,
      User_UpdatedAt = now,
      User_LastLoginAt = None,
      User_Metadata = Map.empty\<rparr>"

record SignedOperation =
  SO_UserID :: UserID
  SO_Operation :: string
  SO_Payload :: bytes
  SO_Timestamp :: instant
  SO_Signature :: bytes

definition SignedOperation_Validate :: "SignedOperation \<Rightarrow> domain_error option" where
  "SignedOperation_Validate s =
     (if SO_UserID s = '''' then Some ErrInvalidUserID
      else if SO_Operation s = '''' then Some ErrInvalidOperation
      else if length (SO_Signature s) \<noteq> ed25519_SignatureSize then Some ErrInvalidSignature
      else None)"

abbreviation RoleOwner :: string where "RoleOwner \<equiv> ''owner''"
abbreviation RoleAdmin :: string where "RoleAdmin \<equiv> ''admin''"
abbreviation RoleContributor :: string where "RoleContributor \<equiv> ''contributor''"
abbreviation RoleReader :: string where "RoleReader \<equiv> ''reader''"

record Ownership =
  Ownership_ResourceType :: string
  Ownership_ResourceID :: string
  Ownership_UserID :: UserID
  Ownership_Role :: string
  Ownership_GrantedAt :: instant
  Ownership_GrantedBy :: UserID
  Ownership_ExpiresAt :: "instant option"

definition OwnershipRole_IsValid :: "string \<Rightarrow> bool" where
  "OwnershipRole_IsValid r \<longleftrightarrow> r \<in> set [RoleOwner, RoleAdmin, RoleContributor, RoleReader]"

definition Ownership_Validate :: "Ownership \<Rightarrow> domain_error option" where
  "Ownership_Validate o' =
     (if Ownership_ResourceType o' = '''' then Some ErrInvalidResourceType
      else if Ownership_ResourceID o' = '''' then Some ErrInvalidResourceID
      else if Ownership_UserID o' = '''' then Some ErrInvalidUserID
      else if \<not> OwnershipRole_IsValid (Ownership_Role o') then Some ErrInvalidOwnershipRole
      else None)"

definition Ownership_IsExpired :: "instant \<Rightarrow> Ownership \<Rightarrow> bool" where
  "Ownership_IsExpired now o' =
     (case Ownership_ExpiresAt o' of None \<Rightarrow> False | Some e \<Rightarrow> e < now)"

definition OwnershipRole_CanModify :: "string \<Rightarrow> bool" where
  "OwnershipRole_CanModify r \<longleftrightarrow> r = RoleOwner \<or> r = RoleAdmin"

definition OwnershipRole_CanContribute :: "string \<Rightarrow> bool" where
  "OwnershipRole_CanContribute r \<longleftrightarrow> r = RoleOwner \<or> r = RoleAdmin \<or> r = RoleContributor"

definition OwnershipRole_CanTransferOwnership :: "string \<Rightarrow> bool" where
  "OwnershipRole_CanTransferOwnership r \<longleftrightarrow> r = RoleOwner"

definition OwnershipRole_CanDelete :: "string \<Rightarrow> bool" where
  "OwnershipRole_CanDelete r \<longleftrightarrow> r = RoleOwner"

record OwnershipTransfer =
  Transfer_ResourceType :: string
  Transfer_ResourceID :: string
  Transfer_FromUserID :: UserID
  Transfer_ToUserID :: UserID
  Transfer_RequestedAt :: instant
  Transfer_Signature :: bytes

definition OwnershipTransfer_Validate :: "OwnershipTransfer \<Rightarrow> domain_error option" where
  "OwnershipTransfer_Validate t =
     (if Transfer_ResourceType t = '''' then Some ErrInvalidResourceType
      else if Transfer_ResourceID t = '''' then Some ErrInvalidResourceID
      else if Transfer_FromUserID t = '''' \<or> Transfer_ToUserID t = '''' then Some ErrInvalidUserID
      else if Transfer_FromUserID t = Transfer_ToUserID t then Some ErrSelfTransfer
      else None)"

section \<open>Validation\<close>

text \<open>The size rule a public key has to meet, by key type.\<close>

definition key_ok :: "string \<Rightarrow> bytes \<Rightarrow> bool" where
  "key_ok kt k \<longleftrightarrow> kt = KeyTypeEd25519 \<and> length k = 32 \<or> kt = KeyTypeRSA \<and> 64 \<le> length k"

interpretation user_validator: validator User_Validate
  "\<lambda>u. [(User_ID u = '''', ErrInvalidUserID),
        (length (User_PublicKey u) = 0, ErrInvalidPublicKey),
        (User_KeyType u = KeyTypeEd25519 \<and> length (User_PublicKey u) \<noteq> 32, ErrInvalidPublicKey),
        (User_KeyType u = KeyTypeRSA \<and> length (User_PublicKey u) < 64, ErrInvalidPublicKey),
        (User_KeyType u \<noteq> KeyTypeEd25519 \<and> User_KeyType u \<noteq> KeyTypeRSA, ErrInvalidKeyType),
        (User_Name u = '''', ErrInvalidUserName),
        (\<not> UserStatus_IsValid (User_Status u), ErrInvalidUserStatus),
        (\<not> UserRole_IsValid (User_Role u), ErrInvalidUserRole)]"
  by unfold_locales (simp add: User_Validate_def ed25519_PublicKeySize_def)

interpretation signed_validator: validator SignedOperation_Validate
  "\<lambda>s. [(SO_UserID s = '''', ErrInvalidUserID), (SO_Operation s = '''', ErrInvalidOperation),
        (length (SO_Signature s) \<noteq> 64, ErrInvalidSignature)]"
  by unfold_locales (simp add: SignedOperation_Validate_def ed25519_SignatureSize_def)

interpretation ownership_validator: validator Ownership_Validate
  "\<lambda>x. [(Ownership_ResourceType x = '''', ErrInvalidResourceType),
        (Ownership_ResourceID x = '''', ErrInvalidResourceID),
        (Ownership_UserID x = '''', ErrInvalidUserID),
        (\<not> OwnershipRole_IsValid (Ownership_Role x), ErrInvalidOwnershipRole)]"
  by unfold_locales (simp add: Ownership_Validate_def)

interpretation transfer_validator: validator OwnershipTransfer_Validate
  "\<lambda>t. [(Transfer_ResourceType t = '''', ErrInvalidResourceType),
        (Transfer_ResourceID t = '''', ErrInvalidResourceID),
        (Transfer_FromUserID t = '''' \<or> Transfer_ToUserID t = '''', ErrInvalidUserID),
        (Transfer_FromUserID t = Transfer_ToUserID t, ErrSelfTransfer)]"
  by unfold_locales (simp add: OwnershipTransfer_Validate_def)

section \<open>Identity\<close>

lemma user_id_prefix:
  "UserIDFromPublicKey sha256 k = take 40 (PublicKeyFingerprint sha256 k)"
  using hex_take [of 20 "sha256 k"]
  by (simp add: UserIDFromPublicKey_def PublicKeyFingerprint_def)

lemma user_id_empty:
  assumes "\<And>k. length (sha256 k) = 32"
  shows "UserIDFromPublicKey sha256 k = '''' \<longleftrightarrow> k = []"
proof -
  have "k \<noteq> [] \<Longrightarrow> length (UserIDFromPublicKey sha256 k) = 40"
    by (simp add: UserIDFromPublicKey_def length_hex assms)
  then show ?thesis by (auto simp: UserIDFromPublicKey_def)
qed

lemma fingerprint_eq:
  assumes "k1 \<noteq> []" and "k2 \<noteq> []"
    and "PublicKeyFingerprint sha256 k1 = PublicKeyFingerprint sha256 k2"
  shows "sha256 k1 = sha256 k2"
  using assms by (auto simp: PublicKeyFingerprint_def dest: hex_inj)

text \<open>
  Creating a user is sound: with a digest of 32 bytes, the user \<open>NewUser\<close> makes
  validates exactly when the key has the size its type asks for and the name is not empty;
  it is always active, is an administrator exactly when it is the first user, may always
  write, and its ID is the first forty characters of its fingerprint.\<close>

theorem new_user_valid:
  assumes "\<And>k. length (sha256 k) = 32"
  shows "(User_Validate (NewUser sha256 now key kt name email first) = None
            \<longleftrightarrow> key_ok kt key \<and> name \<noteq> '''')
    \<and> User_IsActive (NewUser sha256 now key kt name email first)
    \<and> (User_IsAdmin (NewUser sha256 now key kt name email first) \<longleftrightarrow> first)
    \<and> User_CanWrite (NewUser sha256 now key kt name email first)
    \<and> User_ID (NewUser sha256 now key kt name email first)
        = take 40 (User_PublicKeyFingerprint (NewUser sha256 now key kt name email first))"
proof -
  have "User_Validate (NewUser sha256 now key kt name email first) = None
            \<longleftrightarrow> key_ok kt key \<and> name \<noteq> ''''"
    using user_id_empty [of sha256 key, OF assms]
    by (auto simp: user_validator.accepts_iff NewUser_def key_ok_def UserStatus_IsValid_def
        UserRole_IsValid_def)
  then show ?thesis
    by (simp add: NewUser_def User_IsActive_def User_IsAdmin_def User_CanWrite_def user_id_prefix)
qed

theorem new_user_valid_witness:
  "User_Validate (NewUser (\<lambda>_. replicate 32 7) 5 (replicate 32 1) ''ed25519'' ''ann'' '''' True) = None"
proof -
  have h: "\<And>k::bytes. length ((\<lambda>_. replicate 32 (7::byte)) k) = 32" by simp
  have "key_ok ''ed25519'' (replicate 32 1) \<and> ''ann'' \<noteq> ''''" by (simp add: key_ok_def)
  then show ?thesis
    using new_user_valid [of "\<lambda>_. replicate 32 7", OF h] by blast
qed

section \<open>Roles\<close>

lemmas ownership_role_defs =
  OwnershipRole_CanDelete_def OwnershipRole_CanTransferOwnership_def OwnershipRole_CanModify_def
  OwnershipRole_CanContribute_def OwnershipRole_IsValid_def

lemma strict_by: "x \<notin> A \<Longrightarrow> x \<in> B \<Longrightarrow> A \<noteq> B"
  by blast

text \<open>
  The ownership roles form a ladder: whoever may delete or transfer may modify,
  whoever may modify may contribute, every role with a capability is a valid role, and each
  step of the ladder is strict.\<close>

theorem ownership_role_ladder:
  "OwnershipRole_CanDelete r = OwnershipRole_CanTransferOwnership r
   \<and> {r. OwnershipRole_CanDelete r} \<subset> {r. OwnershipRole_CanModify r}
   \<and> {r. OwnershipRole_CanModify r} \<subset> {r. OwnershipRole_CanContribute r}
   \<and> {r. OwnershipRole_CanContribute r} \<subset> {r. OwnershipRole_IsValid r}"
proof -
  have "{r. OwnershipRole_CanDelete r} \<subset> {r. OwnershipRole_CanModify r}"
    by (rule psubsetI, fastforce simp: ownership_role_defs, rule strict_by [of "''admin''"])
       (simp_all add: ownership_role_defs)
  moreover have "{r. OwnershipRole_CanModify r} \<subset> {r. OwnershipRole_CanContribute r}"
    by (rule psubsetI, fastforce simp: ownership_role_defs, rule strict_by [of "''contributor''"])
       (simp_all add: ownership_role_defs)
  moreover have "{r. OwnershipRole_CanContribute r} \<subset> {r. OwnershipRole_IsValid r}"
    by (rule psubsetI, fastforce simp: ownership_role_defs, rule strict_by [of "''reader''"])
       (simp_all add: ownership_role_defs)
  ultimately show ?thesis by (simp add: ownership_role_defs)
qed

end
