(* ===== verification/Jobs.thy ===== *)
theory Jobs
  imports Datasets
begin

text \<open>
  Jobs and pipelines (\<open>internal/domain/job.go\<close>): job records, their validation and
  readiness, and the pipeline validation with its depth-first search for dependency cycles.
  Shown: the search always ends; a pipeline of distinct job IDs it accepts has an acyclic
  dependency relation (with a duplicate ID the search misses the earlier job);
  where every dependency names a job of the pipeline, acceptance and acyclicity coincide;
  and an accepted pipeline of waiting jobs never deadlocks. A dependency on a job outside the
  pipeline stays marked on the recursion stack, so two jobs with such a dependency are
  reported as cyclic although nothing depends on itself.
\<close>

abbreviation JobStatusPending :: string where "JobStatusPending \<equiv> ''pending''"
abbreviation JobStatusQueued :: string where "JobStatusQueued \<equiv> ''queued''"
abbreviation JobStatusRunning :: string where "JobStatusRunning \<equiv> ''running''"
abbreviation JobStatusCompleted :: string where "JobStatusCompleted \<equiv> ''completed''"
abbreviation JobStatusFailed :: string where "JobStatusFailed \<equiv> ''failed''"
abbreviation JobStatusCancelled :: string where "JobStatusCancelled \<equiv> ''cancelled''"
abbreviation JobStatusWaiting :: string where "JobStatusWaiting \<equiv> ''waiting''"
abbreviation JobStatusRetrying :: string where "JobStatusRetrying \<equiv> ''retrying''"

definition JobType_IsValid :: "string \<Rightarrow> bool" where
  "JobType_IsValid t \<longleftrightarrow>
     t \<in> set [''scrape'', ''transform'', ''clean'', ''analyze'', ''ml'', ''etl'', ''ingest'',
              ''export'', ''custom'']"

definition JobStatus_IsTerminal :: "string \<Rightarrow> bool" where
  "JobStatus_IsTerminal s \<longleftrightarrow>
     s = JobStatusCompleted \<or> s = JobStatusFailed \<or> s = JobStatusCancelled"

definition ExecutionMode_IsValid :: "string \<Rightarrow> bool" where
  "ExecutionMode_IsValid m \<longleftrightarrow> m \<in> set [''goroutine'', ''container'', ''pod'']"

record ResourceLimits =
  Limits_MaxMemoryMB :: int
  Limits_MaxCPUCores :: rat
  Limits_TimeoutSeconds :: int
  Limits_MaxRetries :: int
  Limits_MaxOutputSizeMB :: int

record JobInput =
  Input_Name :: string
  Input_DatasetID :: DatasetID
  Input_VersionID :: DatasetVersionID
  Input_Value :: any

record JobOutput =
  Output_Name :: string
  Output_DatasetID :: DatasetID
  Output_CreateNewVersion :: bool
  Output_VersionMessage :: string

record Job =
  Job_ID :: JobID
  Job_Type :: string
  Job_Status :: string
  Job_TaskID :: TaskID
  Job_InlineInstructions :: "Instruction list"
  Job_ExecutionMode :: string
  Job_Schedule :: "Schedule option"
  Job_Inputs :: "JobInput list"
  Job_Outputs :: "JobOutput list"
  Job_Dependencies :: "JobID list"
  Job_TopicID :: TopicID
  Job_DatasetID :: DatasetID
  Job_Priority :: int
  Job_ResourceLimits :: "ResourceLimits option"
  Job_CreatedBy :: UserID
  Job_CreatedAt :: instant
  Job_StartedAt :: "instant option"
  Job_CompletedAt :: "instant option"
  Job_Error :: string
  Job_Result :: string
  Job_Progress :: int
  Job_CurrentInstruction :: int
  Job_NodeID :: string
  Job_RetryCount :: int
  Job_Metadata :: "string \<rightharpoonup> string"

definition Job_Validate :: "Job \<Rightarrow> domain_error option" where
  "Job_Validate j =
     (if Job_ID j = '''' then Some ErrInvalidJobID
      else if \<not> JobType_IsValid (Job_Type j) then Some ErrInvalidJobType
      else if Job_TaskID j = '''' \<and> length (Job_InlineInstructions j) = 0
        then Some ErrNoTaskOrInstructions
      else if Job_ExecutionMode j \<noteq> '''' \<and> \<not> ExecutionMode_IsValid (Job_ExecutionMode j)
        then Some ErrInvalidExecutionMode
      else None)"

definition Job_IsComplete :: "Job \<Rightarrow> bool" where
  "Job_IsComplete j = JobStatus_IsTerminal (Job_Status j)"

fun deps_completed :: "(JobID \<Rightarrow> bool) \<Rightarrow> JobID list \<Rightarrow> bool" where
  "deps_completed completed [] = True"
| "deps_completed completed (d # ds) =
     (if \<not> completed d then False else deps_completed completed ds)"

definition Job_CanRun :: "Job \<Rightarrow> (JobID \<Rightarrow> bool) \<Rightarrow> bool" where
  "Job_CanRun j completedJobs =
     (if Job_Status j \<noteq> JobStatusPending \<and> Job_Status j \<noteq> JobStatusQueued
         \<and> Job_Status j \<noteq> JobStatusWaiting then False
      else deps_completed completedJobs (Job_Dependencies j))"

definition Job_Duration :: "instant \<Rightarrow> Job \<Rightarrow> duration" where
  "Job_Duration now j =
     (case Job_StartedAt j of None \<Rightarrow> 0
      | Some s \<Rightarrow> (case Job_CompletedAt j of Some c \<Rightarrow> time_Sub c s | None \<Rightarrow> time_Sub now s))"

record JobRequest =
  JReq_Job :: "Job option"
  JReq_RequestID :: string
  JReq_RequesterPeerID :: string
  JReq_RequesterUserID :: UserID

record JobResponse =
  JResp_RequestID :: string
  JResp_Accepted :: bool
  JResp_JobID :: JobID
  JResp_Error :: string

record JobResult =
  JRes_ID :: string
  JRes_JobID :: JobID
  JRes_NodeID :: string
  JRes_Status :: string
  JRes_Result :: string
  JRes_Error :: string
  JRes_StartedAt :: "instant option"
  JRes_CompletedAt :: instant
  JRes_DurationMS :: int
  JRes_Metadata :: "string \<rightharpoonup> any"

record Pipeline =
  Pipeline_ID :: string
  Pipeline_Name :: string
  Pipeline_Description :: string
  Pipeline_Jobs :: "Job list"
  Pipeline_CreatedBy :: UserID
  Pipeline_CreatedAt :: instant
  Pipeline_Status :: string

text \<open>
  The job map: later jobs with the same ID replace earlier ones. The two maps the search
  shares between its calls are read with Go's default, so an absent key is \<open>False\<close>.
\<close>

definition jobMap :: "Job list \<Rightarrow> JobID \<rightharpoonup> Job" where
  "jobMap jobs = fold (\<lambda>j m. m(Job_ID j \<mapsto> j)) jobs Map.empty"

record dfs =
  visited :: "JobID \<Rightarrow> bool"
  recStack :: "JobID \<Rightarrow> bool"

lemma dom_jobMap_fold:
  "dom (fold (\<lambda>j m. m(Job_ID j \<mapsto> j)) jobs m) = Job_ID ` set jobs \<union> dom m"
  by (induction jobs arbitrary: m) auto

lemma dom_jobMap: "dom (jobMap jobs) = Job_ID ` set jobs"
  by (simp add: jobMap_def dom_jobMap_fold)

definition unvisited :: "Job list \<Rightarrow> dfs \<Rightarrow> nat" where
  "unvisited jobs st = card {x \<in> dom (jobMap jobs). \<not> visited st x}"

lemma unvisited_mono:
  assumes "\<And>x. visited st x \<Longrightarrow> visited st' x"
  shows "unvisited jobs st' \<le> unvisited jobs st"
  unfolding unvisited_def by (rule card_mono) (use assms in \<open>auto simp: dom_jobMap\<close>)

lemma unvisited_less:
  assumes "\<And>x. visited st x \<Longrightarrow> visited st' x" and "y \<in> dom (jobMap jobs)"
    and "\<not> visited st y" and "visited st' y"
  shows "unvisited jobs st' < unvisited jobs st"
  unfolding unvisited_def by (rule psubset_card_mono) (use assms in \<open>auto simp: dom_jobMap\<close>)

function hasCycle :: "Job list \<Rightarrow> JobID \<Rightarrow> dfs \<Rightarrow> bool \<times> dfs"
  and hasCycle_deps :: "Job list \<Rightarrow> JobID list \<Rightarrow> dfs \<Rightarrow> bool \<times> dfs"
where
  "hasCycle jobs jobID st =
     (let st1 = st\<lparr>visited := (visited st)(jobID := True), recStack := (recStack st)(jobID := True)\<rparr>
      in case jobMap jobs jobID of
           None \<Rightarrow> (False, st1)
         | Some job \<Rightarrow>
             (case hasCycle_deps jobs (Job_Dependencies job) st1 of
                (cyc, st2) \<Rightarrow>
                  if cyc then (True, st2)
                  else (False, st2\<lparr>recStack := (recStack st2)(jobID := False)\<rparr>)))"
| "hasCycle_deps jobs [] st = (False, st)"
| "hasCycle_deps jobs (depID # deps) st =
     (if \<not> visited st depID
      then (case hasCycle jobs depID st of
              (cyc, st1) \<Rightarrow> if cyc then (True, st1) else hasCycle_deps jobs deps st1)
      else if recStack st depID then (True, st)
      else hasCycle_deps jobs deps st)"
  by pat_completeness auto

lemma dfs_visited_dom:
  "hasCycle_hasCycle_deps_dom (Inl (jobs, i, st))
     \<Longrightarrow> visited st x \<Longrightarrow> visited (snd (hasCycle jobs i st)) x"
  "hasCycle_hasCycle_deps_dom (Inr (jobs, ds, st))
     \<Longrightarrow> visited st x \<Longrightarrow> visited (snd (hasCycle_deps jobs ds st)) x"
proof (induction jobs i st and jobs ds st rule: hasCycle_hasCycle_deps.pinduct)
  case (1 jobs i st)
  then show ?case
    by (simp add: hasCycle.psimps Let_def split: option.splits prod.splits) fastforce
next
  case (2 jobs st)
  then show ?case by (simp add: hasCycle_deps.psimps)
next
  case (3 jobs d ds st)
  then show ?case
    by (simp add: hasCycle_deps.psimps split: prod.splits) fastforce
qed

termination hasCycle
proof (relation "measures
    [\<lambda>a. case a of Inl (jobs, i, st) \<Rightarrow> unvisited jobs st + (if visited st i then 1 else 0)
               | Inr (jobs, ds, st) \<Rightarrow> unvisited jobs st,
     \<lambda>a. case a of Inl _ \<Rightarrow> 0 | Inr (jobs, ds, st) \<Rightarrow> length ds]", goal_cases)
  case 1
  show ?case by simp
next
  case (2 jobs i st st1 job)
  show ?case
  proof (cases "visited st i")
    case True
    have "unvisited jobs st1 \<le> unvisited jobs st"
      using 2 by (intro unvisited_mono) auto
    then show ?thesis using True by simp
  next
    case False
    have "unvisited jobs st1 < unvisited jobs st"
      using 2 False by (intro unvisited_less [where y = i]) auto
    then show ?thesis using False by simp
  qed
next
  case (3 jobs d ds st)
  then show ?case by simp
next
  case (4 jobs d ds st cyc st1)
  then have "unvisited jobs st1 \<le> unvisited jobs st"
    using dfs_visited_dom(1) [of jobs d st] by (intro unvisited_mono) (metis snd_conv)
  then show ?case by auto
next
  case (5 jobs d ds st)
  then show ?case by simp
qed

declare hasCycle.simps [simp del]

fun validateDAG_loop :: "Job list \<Rightarrow> Job list \<Rightarrow> dfs \<Rightarrow> domain_error option" where
  "validateDAG_loop jobs [] st = None"
| "validateDAG_loop jobs (job # js) st =
     (if \<not> visited st (Job_ID job)
      then (case hasCycle jobs (Job_ID job) st of
              (cyc, st1) \<Rightarrow> if cyc then Some ErrCyclicDependency
                           else validateDAG_loop jobs js st1)
      else validateDAG_loop jobs js st)"

definition Pipeline_validateDAG :: "Pipeline \<Rightarrow> domain_error option" where
  "Pipeline_validateDAG p =
     validateDAG_loop (Pipeline_Jobs p) (Pipeline_Jobs p)
       \<lparr>visited = (\<lambda>_. False), recStack = (\<lambda>_. False)\<rparr>"

definition Pipeline_Validate :: "Pipeline \<Rightarrow> domain_error option" where
  "Pipeline_Validate p =
     (if Pipeline_ID p = '''' then Some ErrInvalidPipelineID
      else if Pipeline_Name p = '''' then Some ErrInvalidPipelineName
      else if length (Pipeline_Jobs p) = 0 then Some ErrEmptyPipeline
      else case first_some Job_Validate (Pipeline_Jobs p) of
             Some e \<Rightarrow> Some e
           | None \<Rightarrow> (case Pipeline_validateDAG p of Some e \<Rightarrow> Some e | None \<Rightarrow> None))"

section \<open>The dependency relation\<close>

definition depends :: "Job list \<Rightarrow> (JobID \<times> JobID) set" where
  "depends jobs = {(a, b). \<exists>j. jobMap jobs a = Some j \<and> b \<in> set (Job_Dependencies j)}"

text \<open>
  The relation above follows the map the code builds, which keeps the last of several jobs
  with one ID. The relation below reads every job of the list.\<close>

definition needs :: "Job list \<Rightarrow> (JobID \<times> JobID) set" where
  "needs jobs = {(a, b). \<exists>j \<in> set jobs. Job_ID j = a \<and> b \<in> set (Job_Dependencies j)}"

text \<open>Every dependency names a job of the list.\<close>

definition closed_deps :: "Job list \<Rightarrow> bool" where
  "closed_deps jobs \<longleftrightarrow> (\<forall>j \<in> set jobs. \<forall>d \<in> set (Job_Dependencies j). d \<in> Job_ID ` set jobs)"

lemma jobMap_fold_Some:
  "fold (\<lambda>j m. m(Job_ID j \<mapsto> j)) jobs m i = Some j
     \<Longrightarrow> j \<in> set jobs \<and> Job_ID j = i \<or> m i = Some j"
  by (induction jobs arbitrary: m) (fastforce split: if_splits)+

lemma jobMap_Some: "jobMap jobs i = Some j \<Longrightarrow> j \<in> set jobs \<and> Job_ID j = i"
  using jobMap_fold_Some [of jobs Map.empty] by (auto simp: jobMap_def)

lemma jobMap_distinct:
  assumes "distinct (map Job_ID jobs)" and "j \<in> set jobs"
  shows "jobMap jobs (Job_ID j) = Some j"
proof -
  have "Job_ID j \<in> dom (jobMap jobs)" using assms(2) by (simp add: dom_jobMap)
  then obtain j' where j': "jobMap jobs (Job_ID j) = Some j'" by auto
  then have "j' \<in> set jobs" "Job_ID j' = Job_ID j" using jobMap_Some by auto
  then have "j' = j" using assms by (simp add: distinct_map inj_on_def)
  then show ?thesis using j' by simp
qed

lemma depends_eq_needs: "distinct (map Job_ID jobs) \<Longrightarrow> depends jobs = needs jobs"
  by (auto simp: depends_def needs_def jobMap_distinct dest: jobMap_Some)

lemma depends_dom: "(a, b) \<in> depends jobs \<Longrightarrow> a \<in> dom (jobMap jobs)"
  by (auto simp: depends_def)

lemma depends_closed: "closed_deps jobs \<Longrightarrow> (a, b) \<in> depends jobs \<Longrightarrow> b \<in> dom (jobMap jobs)"
  by (auto simp: depends_def closed_deps_def dom_jobMap dest: jobMap_Some)

lemma depends_out: "a \<notin> dom (jobMap jobs) \<Longrightarrow> (a, b) \<notin> depends jobs"
  using depends_dom by blast

lemma depends_deps: "jobMap jobs i = Some j \<Longrightarrow> (i, d) \<in> depends jobs \<longleftrightarrow> d \<in> set (Job_Dependencies j)"
  by (auto simp: depends_def)

text \<open>A source node added to an acyclic relation leaves it acyclic.\<close>

lemma trancl_avoiding_source:
  assumes "(x, y) \<in> (r \<union> {i} \<times> D)\<^sup>+" and "x \<noteq> i" and "i \<notin> D" and "i \<notin> Range r"
  shows "(x, y) \<in> r\<^sup>+ \<and> y \<noteq> i"
  using assms(1)
proof (induction rule: trancl_induct)
  case (base y)
  then show ?case using assms by auto
next
  case (step y z)
  then show ?case using assms by (auto intro: trancl_into_trancl)
qed

lemma acyclic_add_source:
  assumes "acyclic r" and "i \<notin> D" and "i \<notin> Range r"
  shows "acyclic (r \<union> {i} \<times> D)"
proof (rule acyclicI, intro allI notI)
  fix x assume c: "(x, x) \<in> (r \<union> {i} \<times> D)\<^sup>+"
  have "x \<in> Range (r \<union> {i} \<times> D)" using c by (metis Range.intros trancl_range)
  then have "x \<noteq> i" using assms by auto
  then have "(x, x) \<in> r\<^sup>+" using trancl_avoiding_source [OF c] assms by blast
  then show False using assms(1) by (simp add: acyclic_def)
qed

section \<open>Search: a completed search proves acyclicity\<close>

definition black :: "Job list \<Rightarrow> dfs \<Rightarrow> JobID set" where
  "black jobs st = {x. visited st x \<and> (\<not> recStack st x \<or> x \<notin> dom (jobMap jobs))}"

definition dfs_inv :: "Job list \<Rightarrow> dfs \<Rightarrow> bool" where
  "dfs_inv jobs st \<longleftrightarrow> (\<forall>x. recStack st x \<longrightarrow> visited st x)
     \<and> (\<forall>x y. x \<in> black jobs st \<and> (x, y) \<in> depends jobs \<longrightarrow> y \<in> black jobs st)
     \<and> acyclic (depends jobs \<inter> black jobs st \<times> black jobs st)"

text \<open>What a finished part of the search leaves behind, for the nodes \<open>X\<close> it covered.\<close>

definition finished :: "Job list \<Rightarrow> dfs \<Rightarrow> JobID set \<Rightarrow> dfs \<Rightarrow> bool" where
  "finished jobs st X st' \<longleftrightarrow> dfs_inv jobs st' \<and> black jobs st \<subseteq> black jobs st'
     \<and> X \<subseteq> black jobs st' \<and> (\<forall>x \<in> dom (jobMap jobs). recStack st' x = recStack st x)"

abbreviation enter :: "dfs \<Rightarrow> JobID \<Rightarrow> dfs" where
  "enter st i \<equiv> st\<lparr>visited := (visited st)(i := True), recStack := (recStack st)(i := True)\<rparr>"

abbreviation leave :: "dfs \<Rightarrow> JobID \<Rightarrow> dfs" where
  "leave st i \<equiv> st\<lparr>recStack := (recStack st)(i := False)\<rparr>"

lemma black_enter_job:
  "\<not> visited st i \<Longrightarrow> i \<in> dom (jobMap jobs) \<Longrightarrow> black jobs (enter st i) = black jobs st"
  by (auto simp: black_def)

lemma black_enter_missing:
  "i \<notin> dom (jobMap jobs) \<Longrightarrow> black jobs (enter st i) = insert i (black jobs st)"
  by (auto simp: black_def)

lemma black_leave:
  "visited st i \<Longrightarrow> black jobs (leave st i) = insert i (black jobs st)"
  by (auto simp: black_def)

lemma enter_missing_inv:
  assumes "dfs_inv jobs st" and "\<not> visited st i" and "i \<notin> dom (jobMap jobs)"
  shows "finished jobs st {i} (enter st i)"
proof -
  let ?B = "black jobs st"
  have out: "\<And>y. (i, y) \<notin> depends jobs" using assms(3) depends_out by blast
  have "i \<notin> ?B" using assms(2) by (simp add: black_def)
  then have eq: "depends jobs \<inter> insert i ?B \<times> insert i ?B = depends jobs \<inter> ?B \<times> ?B"
    using assms(1) out unfolding dfs_inv_def by blast
  have "dfs_inv jobs (enter st i)"
    using assms(1) out unfolding dfs_inv_def black_enter_missing [OF assms(3)] eq by auto
  then show ?thesis
    using assms(3) by (auto simp: finished_def black_enter_missing)
qed

lemma leave_inv:
  assumes inv: "dfs_inv jobs st" and v: "visited st i" and r: "recStack st i"
    and j: "jobMap jobs i = Some j" and D: "set (Job_Dependencies j) \<subseteq> black jobs st"
  shows "dfs_inv jobs (leave st i)"
proof -
  let ?B = "black jobs st"
  let ?D = "set (Job_Dependencies j)"
  have iB: "i \<notin> ?B" using r j by (auto simp: black_def)
  have closed: "\<And>x y. x \<in> ?B \<Longrightarrow> (x, y) \<in> depends jobs \<Longrightarrow> y \<in> ?B"
    using inv unfolding dfs_inv_def by blast
  have eq: "depends jobs \<inter> insert i ?B \<times> insert i ?B = depends jobs \<inter> ?B \<times> ?B \<union> {i} \<times> ?D"
    using D iB closed depends_deps [OF j] by auto
  have "acyclic (depends jobs \<inter> ?B \<times> ?B \<union> {i} \<times> ?D)"
    by (rule acyclic_add_source) (use inv D iB in \<open>auto simp: dfs_inv_def\<close>)
  moreover have "\<And>x y. x \<in> insert i ?B \<Longrightarrow> (x, y) \<in> depends jobs \<Longrightarrow> y \<in> insert i ?B"
    using closed D depends_deps [OF j] by auto
  ultimately show ?thesis
    using inv unfolding dfs_inv_def black_leave [OF v] eq by auto
qed

lemma finished_trans:
  "finished jobs st X st1 \<Longrightarrow> finished jobs st1 Y st2 \<Longrightarrow> finished jobs st (X \<union> Y) st2"
  by (auto simp: finished_def)

lemma search_finished:
  "hasCycle jobs i st = (False, st') \<Longrightarrow> dfs_inv jobs st \<Longrightarrow> \<not> visited st i
     \<Longrightarrow> finished jobs st {i} st'"
  "hasCycle_deps jobs ds st = (False, st') \<Longrightarrow> dfs_inv jobs st
     \<Longrightarrow> finished jobs st (set ds) st'"
proof (induction jobs i st and jobs ds st arbitrary: st' and st' rule: hasCycle_hasCycle_deps.induct)
  case (1 jobs i st)
  show ?case
  proof (cases "jobMap jobs i")
    case None
    then show ?thesis using enter_missing_inv "1.prems" by (auto simp: hasCycle.simps)
  next
    case (Some j)
    then have dom: "i \<in> dom (jobMap jobs)" by auto
    note B = black_enter_job [OF "1.prems"(3) dom]
    from Some "1.prems"(1) obtain st2 where
      d: "hasCycle_deps jobs (Job_Dependencies j) (enter st i) = (False, st2)"
      and st': "st' = leave st2 i"
      by (auto simp: hasCycle.simps Let_def split: prod.splits if_splits)
    have "dfs_inv jobs (enter st i)" using "1.prems"(2) unfolding dfs_inv_def B by auto
    then have f: "finished jobs (enter st i) (set (Job_Dependencies j)) st2"
      using "1.IH" [OF refl Some d] by simp
    then have r: "recStack st2 i" using dom by (auto simp: finished_def)
    then have v: "visited st2 i" using f by (auto simp: finished_def dfs_inv_def)
    have "dfs_inv jobs st'"
      unfolding st' by (rule leave_inv [OF _ v r Some]) (use f in \<open>auto simp: finished_def\<close>)
    moreover have "\<not> recStack st i" using "1.prems"(2,3) by (auto simp: dfs_inv_def)
    ultimately show ?thesis
      using f B unfolding finished_def st' black_leave [OF v] by auto
  qed
next
  case (2 jobs st)
  then show ?case by (simp add: finished_def)
next
  case (3 jobs d ds st)
  show ?case
  proof (cases "visited st d")
    case False
    from False "3.prems"(1) obtain st1 where
      h: "hasCycle jobs d st = (False, st1)" and r: "hasCycle_deps jobs ds st1 = (False, st')"
      by (auto split: prod.splits if_splits)
    have f: "finished jobs st {d} st1" using "3.IH"(1) False h "3.prems"(2) by blast
    then have "dfs_inv jobs st1" by (simp add: finished_def)
    then have "finished jobs st1 (set ds) st'"
      using "3.IH"(2) [OF False h [symmetric]] r by simp
    then show ?thesis using finished_trans [OF f] by simp
  next
    case True
    then have nr: "\<not> recStack st d" and r: "hasCycle_deps jobs ds st = (False, st')"
      using "3.prems"(1) by (auto split: if_splits)
    have "finished jobs st (set ds) st'" using "3.IH"(3) True nr r "3.prems"(2) by blast
    moreover have "d \<in> black jobs st" using True nr by (simp add: black_def)
    ultimately show ?thesis by (auto simp: finished_def)
  qed
qed

abbreviation dfs_start :: dfs where
  "dfs_start \<equiv> \<lparr>visited = (\<lambda>_. False), recStack = (\<lambda>_. False)\<rparr>"

lemma dfs_start_inv: "dfs_inv jobs dfs_start"
  by (auto simp: dfs_inv_def black_def acyclic_def)

lemma loop_finished:
  assumes "validateDAG_loop jobs js st = None" and "dfs_inv jobs st"
    and "\<forall>x \<in> dom (jobMap jobs). \<not> recStack st x" and "set js \<subseteq> set jobs"
  shows "\<exists>st'. finished jobs st (Job_ID ` set js) st'"
  using assms
proof (induction js arbitrary: st)
  case Nil
  then show ?case by (auto simp: finished_def intro!: exI [of _ st])
next
  case (Cons job js)
  have dom: "Job_ID job \<in> dom (jobMap jobs)" using Cons.prems(4) by (simp add: dom_jobMap)
  show ?case
  proof (cases "visited st (Job_ID job)")
    case False
    with Cons.prems(1) obtain st1 where h: "hasCycle jobs (Job_ID job) st = (False, st1)"
      and r: "validateDAG_loop jobs js st1 = None"
      by (auto split: prod.splits if_splits)
    have f: "finished jobs st {Job_ID job} st1"
      using search_finished(1) [OF h Cons.prems(2) False] .
    then obtain st' where "finished jobs st1 (Job_ID ` set js) st'"
      using Cons.IH [OF r] Cons.prems(3,4) by (auto simp: finished_def)
    then show ?thesis using finished_trans [OF f] by force
  next
    case True
    then obtain st' where "finished jobs st (Job_ID ` set js) st'"
      using Cons by fastforce
    moreover have "Job_ID job \<in> black jobs st"
      using True Cons.prems(3) dom by (simp add: black_def)
    ultimately show ?thesis by (auto simp: finished_def)
  qed
qed

lemma accepted_acyclic:
  assumes "validateDAG_loop jobs jobs dfs_start = None"
  shows "acyclic (depends jobs)"
proof -
  obtain st where st: "finished jobs dfs_start (Job_ID ` set jobs) st"
    using loop_finished [OF assms dfs_start_inv] by auto
  have "depends jobs \<subseteq> black jobs st \<times> black jobs st"
  proof (rule subrelI)
    fix x y assume e: "(x, y) \<in> depends jobs"
    have "x \<in> Job_ID ` set jobs" using depends_dom [OF e] by (simp add: dom_jobMap)
    then have "x \<in> black jobs st" using st unfolding finished_def by blast
    then show "(x, y) \<in> black jobs st \<times> black jobs st"
      using st e unfolding finished_def dfs_inv_def by blast
  qed
  then have "depends jobs \<inter> black jobs st \<times> black jobs st = depends jobs" by blast
  then show ?thesis using st by (auto simp: finished_def dfs_inv_def)
qed

section \<open>Search: a reported cycle is a cycle\<close>

lemma search_reports:
  "hasCycle jobs i st = (b, st') \<Longrightarrow> closed_deps jobs \<Longrightarrow> i \<in> dom (jobMap jobs)
     \<Longrightarrow> \<forall>r. recStack st r \<longrightarrow> visited st r \<and> (r, i) \<in> (depends jobs)\<^sup>*
     \<Longrightarrow> \<not> visited st i
     \<Longrightarrow> (if b then \<not> acyclic (depends jobs)
          else recStack st' = recStack st \<and> (\<forall>x. visited st x \<longrightarrow> visited st' x))"
  "hasCycle_deps jobs ds st = (b, st') \<Longrightarrow> closed_deps jobs
     \<Longrightarrow> \<forall>d \<in> set ds. (n, d) \<in> depends jobs
     \<Longrightarrow> \<forall>r. recStack st r \<longrightarrow> visited st r \<and> (r, n) \<in> (depends jobs)\<^sup>*
     \<Longrightarrow> (if b then \<not> acyclic (depends jobs)
          else recStack st' = recStack st \<and> (\<forall>x. visited st x \<longrightarrow> visited st' x))"
proof (induction jobs i st and jobs ds st arbitrary: b st' and b st' n
    rule: hasCycle_hasCycle_deps.induct)
  case (1 jobs i st)
  from "1.prems"(3) obtain j where j: "jobMap jobs i = Some j" by auto
  obtain c st2 where d: "hasCycle_deps jobs (Job_Dependencies j) (enter st i) = (c, st2)"
    by (cases "hasCycle_deps jobs (Job_Dependencies j) (enter st i)")
  have res: "(b, st') = (if c then (True, st2) else (False, leave st2 i))"
    using "1.prems"(1) j d by (simp add: hasCycle.simps Let_def)
  have "if c then \<not> acyclic (depends jobs)
        else recStack st2 = recStack (enter st i)
             \<and> (\<forall>x. visited (enter st i) x \<longrightarrow> visited st2 x)"
    using "1.IH" [OF refl j d "1.prems"(2), of i] "1.prems"(4) depends_deps [OF j] by auto
  moreover have "\<not> recStack st i" using "1.prems"(4,5) by blast
  ultimately show ?case using res by (auto simp: fun_eq_iff split: if_splits)
next
  case (2 jobs st)
  then show ?case by simp
next
  case (3 jobs d ds st)
  have e: "(n, d) \<in> depends jobs" using "3.prems"(3) by simp
  have d: "d \<in> dom (jobMap jobs)" using depends_closed [OF "3.prems"(2) e] .
  show ?case
  proof (cases "visited st d")
    case False
    obtain c st1 where h: "hasCycle jobs d st = (c, st1)" by (cases "hasCycle jobs d st")
    have "\<forall>r. recStack st r \<longrightarrow> visited st r \<and> (r, d) \<in> (depends jobs)\<^sup>*"
      using "3.prems"(4) e by (meson rtrancl.rtrancl_into_rtrancl)
    then have spec: "if c then \<not> acyclic (depends jobs)
        else recStack st1 = recStack st \<and> (\<forall>x. visited st x \<longrightarrow> visited st1 x)"
      using "3.IH"(1) [OF False h "3.prems"(2) d] False by blast
    show ?thesis
    proof (cases c)
      case True
      then show ?thesis using spec "3.prems"(1) False h by simp
    next
      case nc: False
      then have r: "hasCycle_deps jobs ds st1 = (b, st')"
        using "3.prems"(1) False h by simp
      have "if b then \<not> acyclic (depends jobs)
          else recStack st' = recStack st1 \<and> (\<forall>x. visited st1 x \<longrightarrow> visited st' x)"
        using "3.IH"(2) [OF False h [symmetric] nc r "3.prems"(2), of n] "3.prems"(3,4) spec nc
        by simp
      then show ?thesis using spec nc by auto
    qed
  next
    case True
    show ?thesis
    proof (cases "recStack st d")
      case rec: True
      then have "(d, n) \<in> (depends jobs)\<^sup>*" using "3.prems"(4) by blast
      then have "(n, n) \<in> (depends jobs)\<^sup>+" using e by (meson rtrancl_into_trancl2)
      then show ?thesis using True rec "3.prems"(1) by (auto simp: acyclic_def)
    next
      case False
      then show ?thesis using "3.IH"(3) [of b st' n] True "3.prems" by simp
    qed
  qed
qed

lemma loop_reports:
  assumes "validateDAG_loop jobs js st = Some e" and "closed_deps jobs" and "set js \<subseteq> set jobs"
    and "recStack st = (\<lambda>_. False)"
  shows "e = ErrCyclicDependency \<and> \<not> acyclic (depends jobs)"
  using assms
proof (induction js arbitrary: st)
  case Nil
  then show ?case by simp
next
  case (Cons job js)
  show ?case
  proof (cases "visited st (Job_ID job)")
    case True
    then show ?thesis using Cons by simp
  next
    case False
    obtain c st1 where h: "hasCycle jobs (Job_ID job) st = (c, st1)"
      by (cases "hasCycle jobs (Job_ID job) st")
    have "if c then \<not> acyclic (depends jobs) else recStack st1 = recStack st"
      using search_reports(1) [OF h Cons.prems(2)] Cons.prems(3,4) False
      by (auto simp: dom_jobMap split: if_splits)
    then show ?thesis using Cons False h by (auto split: if_splits)
  qed
qed

section \<open>Pipelines\<close>

lemma Pipeline_Validate_None:
  "Pipeline_Validate p = None \<longleftrightarrow>
     Pipeline_ID p \<noteq> '''' \<and> Pipeline_Name p \<noteq> '''' \<and> Pipeline_Jobs p \<noteq> []
     \<and> (\<forall>j \<in> set (Pipeline_Jobs p). Job_Validate j = None) \<and> Pipeline_validateDAG p = None"
proof (cases "first_some Job_Validate (Pipeline_Jobs p)")
  case None
  moreover from None have "\<forall>j \<in> set (Pipeline_Jobs p). Job_Validate j = None" by simp
  ultimately show ?thesis
    by (simp add: Pipeline_Validate_def del: first_some_None split: option.splits)
next
  case (Some e)
  from first_some_Some [OF Some]
  obtain j where "j \<in> set (Pipeline_Jobs p)" "Job_Validate j = Some e" ..
  then have "\<not> (\<forall>j \<in> set (Pipeline_Jobs p). Job_Validate j = None)" by fastforce
  moreover have "Pipeline_Validate p \<noteq> None" by (simp add: Pipeline_Validate_def Some)
  ultimately show ?thesis by blast
qed

text \<open>
  C1. An accepted pipeline has no dependency cycle: if the depth-first search of
  \<open>validateDAG\<close> returns \<open>nil\<close> and no two jobs of the pipeline share an ID, then no job
  needs itself, directly or through other jobs, where a job needs every ID in its own list of
  dependencies. The dependencies may name jobs outside the pipeline. Without the condition on
  the IDs the statement fails: see \<open>duplicate_id_hides_cycle\<close>.\<close>

theorem pipeline_accepted_acyclic:
  assumes "Pipeline_validateDAG p = None" and "distinct (map Job_ID (Pipeline_Jobs p))"
  shows "acyclic (needs (Pipeline_Jobs p))"
  using accepted_acyclic [of "Pipeline_Jobs p"] assms(1)
  by (simp add: Pipeline_validateDAG_def depends_eq_needs [OF assms(2)])

text \<open>
  C2. The cycle search is exact on closed pipelines: when every dependency names a job
  of the pipeline, \<open>validateDAG\<close> returns \<open>nil\<close> if and only if the dependency relation is
  acyclic, and otherwise returns \<open>ErrCyclicDependency\<close>.\<close>

theorem validateDAG_exact:
  assumes "closed_deps (Pipeline_Jobs p)"
  shows "Pipeline_validateDAG p =
    (if acyclic (depends (Pipeline_Jobs p)) then None else Some ErrCyclicDependency)"
proof (cases "Pipeline_validateDAG p")
  case None
  then show ?thesis using accepted_acyclic by (simp add: Pipeline_validateDAG_def)
next
  case (Some e)
  then have "e = ErrCyclicDependency \<and> \<not> acyclic (depends (Pipeline_Jobs p))"
    using loop_reports [OF _ assms] by (simp add: Pipeline_validateDAG_def)
  then show ?thesis using Some by simp
qed

lemma deps_completed_iff: "deps_completed c ds \<longleftrightarrow> (\<forall>d \<in> set ds. c d)"
  by (induction ds) auto

lemma Job_CanRun_iff:
  "Job_CanRun j c \<longleftrightarrow> Job_Status j \<in> {JobStatusPending, JobStatusQueued, JobStatusWaiting}
     \<and> (\<forall>d \<in> set (Job_Dependencies j). c d)"
  by (auto simp: Job_CanRun_def deps_completed_iff)

lemma depends_finite: "finite (depends jobs)"
proof -
  have "depends jobs \<subseteq> (\<Union>j \<in> set jobs. {Job_ID j} \<times> set (Job_Dependencies j))"
    by (auto simp: depends_def dest: jobMap_Some)
  then show ?thesis by (rule finite_subset) auto
qed

text \<open>
  C3. An accepted pipeline never deadlocks: if every dependency names a job of the
  pipeline and every job is pending, queued or waiting, then as long as some job of the
  pipeline is not in the completed set, some job that is not completed can run.\<close>

theorem pipeline_no_deadlock:
  assumes "Pipeline_Validate p = None" and "closed_deps (Pipeline_Jobs p)"
    and "\<forall>j \<in> set (Pipeline_Jobs p).
           Job_Status j \<in> {JobStatusPending, JobStatusQueued, JobStatusWaiting}"
    and "\<exists>j \<in> set (Pipeline_Jobs p). \<not> completed (Job_ID j)"
  shows "\<exists>j \<in> set (Pipeline_Jobs p). \<not> completed (Job_ID j) \<and> Job_CanRun j completed"
proof -
  let ?jobs = "Pipeline_Jobs p"
  let ?Q = "{i \<in> dom (jobMap ?jobs). \<not> completed i}"
  have "acyclic (depends ?jobs)"
    using assms(1) accepted_acyclic by (simp add: Pipeline_Validate_None Pipeline_validateDAG_def)
  then have wf: "wf ((depends ?jobs)\<inverse>)" using depends_finite finite_acyclic_wf_converse by blast
  obtain i0 where "i0 \<in> ?Q" using assms(4) by (auto simp: dom_jobMap)
  then obtain m where m: "m \<in> ?Q" and min: "\<And>y. (y, m) \<in> (depends ?jobs)\<inverse> \<Longrightarrow> y \<notin> ?Q"
    by (rule wfE_min [OF wf]) blast
  from m obtain j where j: "jobMap ?jobs m = Some j" by auto
  then have jm: "j \<in> set ?jobs" "Job_ID j = m" using jobMap_Some by auto
  have "\<forall>d \<in> set (Job_Dependencies j). completed d"
    using min depends_closed [OF assms(2)] depends_deps [OF j] by (auto simp: depends_def)
  then have "Job_CanRun j completed" using assms(3) jm by (simp add: Job_CanRun_iff)
  then show ?thesis using jm m by auto
qed

section \<open>Concrete pipelines\<close>

interpretation job_validator: validator Job_Validate
  "\<lambda>j. [(Job_ID j = '''', ErrInvalidJobID),
        (\<not> JobType_IsValid (Job_Type j), ErrInvalidJobType),
        (Job_TaskID j = '''' \<and> length (Job_InlineInstructions j) = 0, ErrNoTaskOrInstructions),
        (Job_ExecutionMode j \<noteq> '''' \<and> \<not> ExecutionMode_IsValid (Job_ExecutionMode j),
           ErrInvalidExecutionMode)]"
  by unfold_locales (simp add: Job_Validate_def)

definition sample_job :: "JobID \<Rightarrow> JobID list \<Rightarrow> Job" where
  "sample_job i deps = \<lparr>Job_ID = i, Job_Type = ''etl'', Job_Status = ''pending'',
     Job_TaskID = ''t1'', Job_InlineInstructions = [], Job_ExecutionMode = '''',
     Job_Schedule = None, Job_Inputs = [], Job_Outputs = [], Job_Dependencies = deps,
     Job_TopicID = '''', Job_DatasetID = '''', Job_Priority = 0, Job_ResourceLimits = None,
     Job_CreatedBy = ''alice'', Job_CreatedAt = 0, Job_StartedAt = None, Job_CompletedAt = None,
     Job_Error = '''', Job_Result = '''', Job_Progress = 0, Job_CurrentInstruction = 0,
     Job_NodeID = '''', Job_RetryCount = 0, Job_Metadata = Map.empty\<rparr>"

definition sample_pipeline :: "Job list \<Rightarrow> Pipeline" where
  "sample_pipeline js = \<lparr>Pipeline_ID = ''p'', Pipeline_Name = ''pipe'', Pipeline_Description = '''',
     Pipeline_Jobs = js, Pipeline_CreatedBy = ''alice'', Pipeline_CreatedAt = 0,
     Pipeline_Status = ''pending''\<rparr>"

definition diamond :: Pipeline where
  "diamond = sample_pipeline
     [sample_job ''d'' [''b'', ''c''], sample_job ''b'' [''a''], sample_job ''c'' [''a''],
      sample_job ''a'' []]"

definition loop2 :: Pipeline where
  "loop2 = sample_pipeline [sample_job ''a'' [''b''], sample_job ''b'' [''a'']]"

text \<open>Two jobs that both wait for a job of another pipeline.\<close>

definition external :: Pipeline where
  "external = sample_pipeline [sample_job ''a'' [''x''], sample_job ''b'' [''x'']]"

lemmas pipeline_eval =
  sample_pipeline_def sample_job_def Pipeline_validateDAG_def hasCycle.simps jobMap_def Let_def

lemma diamond_valid: "Pipeline_Validate diamond = None"
  by (simp add: Pipeline_Validate_None diamond_def pipeline_eval Job_Validate_def JobType_IsValid_def)

lemma diamond_closed: "closed_deps (Pipeline_Jobs diamond)"
  by (simp add: closed_deps_def diamond_def pipeline_eval)

theorem pipeline_accepted_acyclic_witness:
  "Pipeline_validateDAG diamond = None \<and> acyclic (needs (Pipeline_Jobs diamond))
   \<and> (''d'', ''b'') \<in> needs (Pipeline_Jobs diamond)"
proof -
  have v: "Pipeline_validateDAG diamond = None" by (simp add: diamond_def pipeline_eval)
  have d: "distinct (map Job_ID (Pipeline_Jobs diamond))" by (simp add: diamond_def pipeline_eval)
  show ?thesis using pipeline_accepted_acyclic [OF v d] v
    by (simp add: needs_def) (simp add: diamond_def pipeline_eval)
qed

theorem validateDAG_exact_witness:
  "Pipeline_validateDAG loop2 = Some ErrCyclicDependency
   \<and> \<not> acyclic (depends (Pipeline_Jobs loop2))"
proof -
  have c: "closed_deps (Pipeline_Jobs loop2)" by (simp add: closed_deps_def loop2_def pipeline_eval)
  have "Pipeline_validateDAG loop2 = Some ErrCyclicDependency" by (simp add: loop2_def pipeline_eval)
  then show ?thesis using validateDAG_exact [OF c] by (simp split: if_splits)
qed

theorem pipeline_no_deadlock_witness:
  "\<exists>j \<in> set (Pipeline_Jobs diamond). \<not> (Job_ID j = ''a'') \<and> Job_CanRun j (\<lambda>i. i = ''a'')"
proof -
  have s: "\<forall>j \<in> set (Pipeline_Jobs diamond).
      Job_Status j \<in> {JobStatusPending, JobStatusQueued, JobStatusWaiting}"
    by (simp add: diamond_def pipeline_eval)
  have i: "\<exists>j \<in> set (Pipeline_Jobs diamond). \<not> (\<lambda>i. i = ''a'') (Job_ID j)"
    by (simp add: diamond_def pipeline_eval)
  show ?thesis using pipeline_no_deadlock [OF diamond_valid diamond_closed s i] by simp
qed

text \<open>
  The closure condition of the exactness theorem is needed: a pipeline of two jobs
  that share one dependency on a job outside the pipeline is acyclic, yet the search
  reports a cycle, because the call for the missing job returns without clearing its mark on
  the recursion stack; with one such job alone the pipeline is accepted.\<close>

theorem shared_external_dependency_rejected:
  "acyclic (depends (Pipeline_Jobs external))
   \<and> Pipeline_Validate external = Some ErrCyclicDependency
   \<and> Pipeline_Validate (sample_pipeline [sample_job ''a'' [''x'']]) = None"
proof -
  have "depends (Pipeline_Jobs external) = {(''a'', ''x''), (''b'', ''x'')}"
    by (auto simp: depends_def external_def sample_pipeline_def sample_job_def jobMap_def
        split: if_splits)
  moreover have "acyclic {(''a'', ''x''), (''b'', ''x'')}"
    by (simp add: acyclic_insert rtrancl_insert wf_acyclic)
  moreover have "Pipeline_Validate external = Some ErrCyclicDependency"
    by (simp add: Pipeline_Validate_def external_def pipeline_eval Job_Validate_def JobType_IsValid_def)
  moreover have "Pipeline_Validate (sample_pipeline [sample_job ''a'' [''x'']]) = None"
    by (simp add: Pipeline_Validate_def pipeline_eval Job_Validate_def JobType_IsValid_def)
  ultimately show ?thesis by simp
qed

text \<open>
  \<open>Validate\<close> does not ask for distinct job IDs. The map of the search keeps the last job of
  an ID, so a job that lists itself as its dependency is accepted when a later job of the
  same ID has no dependencies.\<close>

theorem duplicate_id_hides_cycle:
  "Pipeline_Validate (sample_pipeline [sample_job ''a'' [''a''], sample_job ''a'' []]) = None
   \<and> (''a'', ''a'') \<in> needs [sample_job ''a'' [''a''], sample_job ''a'' []]
   \<and> Pipeline_Validate (sample_pipeline [sample_job ''a'' [''a'']]) = Some ErrCyclicDependency"
  by (simp add: Pipeline_Validate_def needs_def pipeline_eval Job_Validate_def JobType_IsValid_def)

end
