(* ===== verification/Downloads.thy ===== *)
theory Downloads
  imports Datasets
begin

unbundle bit_operations_syntax

text \<open>
  Synchronisation records and chunked downloads (\<open>internal/domain/sync.go\<close>): the chunk
  bitmap of a download, its counter and the list of missing chunks. Shown: the bitmap
  behaves as a set of chunk numbers, the counter is the number of marked chunks, the missing
  list is exactly the complement, and completion means that nothing is missing as long as no
  chunk number beyond the total is marked.
\<close>

record SyncStatus =
  Sync_InProgress :: bool
  Sync_LastSyncTime :: instant
  Sync_LastSyncError :: string
  Sync_PendingEntries :: int
  Sync_SyncedEntries :: int

record Subscription =
  Sub_TopicPattern :: string
  Sub_CreatedAt :: instant
  Sub_LastSync :: instant

abbreviation DownloadStatusActive :: string where "DownloadStatusActive \<equiv> ''active''"
abbreviation DownloadStatusPaused :: string where "DownloadStatusPaused \<equiv> ''paused''"
abbreviation DownloadStatusCompleted :: string where "DownloadStatusCompleted \<equiv> ''completed''"
abbreviation DownloadStatusFailed :: string where "DownloadStatusFailed \<equiv> ''failed''"

record Download =
  Download_ID :: string
  Download_DatasetID :: DatasetID
  Download_DatasetHash :: string
  Download_PeerID :: string
  Download_TotalChunks :: int
  Download_CompletedChunks :: int
  Download_ChunkBitmap :: bytes
  Download_Status :: string
  Download_StartedAt :: instant
  Download_UpdatedAt :: instant
  Download_Error :: string

definition IsChunkCompleted :: "Download \<Rightarrow> int \<Rightarrow> bool" where
  "IsChunkCompleted d index =
     (if index < 0 \<or> Download_ChunkBitmap d = [] then False
      else let byteIndex = nat (index div 8); bitIndex = nat (index mod 8)
           in if length (Download_ChunkBitmap d) \<le> byteIndex then False
              else Download_ChunkBitmap d ! byteIndex AND push_bit bitIndex 1 \<noteq> 0)"

function expand_bitmap :: "nat \<Rightarrow> bytes \<Rightarrow> bytes" where
  "expand_bitmap byteIndex bm =
     (if length bm \<le> byteIndex then expand_bitmap byteIndex (bm @ [0]) else bm)"
  by pat_completeness auto
termination
  by (relation "measure (\<lambda>(byteIndex, bm). Suc byteIndex - length bm)") auto

declare expand_bitmap.simps [simp del]

fun count_bits :: "nat \<Rightarrow> byte \<Rightarrow> nat" where
  "count_bits 0 b = 0"
| "count_bits (Suc i) b = count_bits i b + (if b AND push_bit i 1 \<noteq> 0 then 1 else 0)"

definition countCompletedChunks :: "Download \<Rightarrow> int" where
  "countCompletedChunks d =
     (let count = int (foldl (\<lambda>n b. n + count_bits 8 b) 0 (Download_ChunkBitmap d))
      in if count > Download_TotalChunks d then Download_TotalChunks d else count)"

definition SetChunkCompleted :: "Download \<Rightarrow> int \<Rightarrow> Download" where
  "SetChunkCompleted d index =
     (if index < 0 then d
      else let byteIndex = nat (index div 8); bitIndex = nat (index mod 8);
               bm = expand_bitmap byteIndex (Download_ChunkBitmap d);
               d' = d\<lparr>Download_ChunkBitmap := bm[byteIndex := bm ! byteIndex OR push_bit bitIndex 1]\<rparr>
           in d'\<lparr>Download_CompletedChunks := countCompletedChunks d'\<rparr>)"

definition Download_Progress :: "Download \<Rightarrow> rat" where
  "Download_Progress d =
     (if Download_TotalChunks d = 0 then 0
      else of_int (Download_CompletedChunks d) / of_int (Download_TotalChunks d) * 100)"

definition Download_IsComplete :: "Download \<Rightarrow> bool" where
  "Download_IsComplete d \<longleftrightarrow>
     Download_CompletedChunks d \<ge> Download_TotalChunks d \<and> Download_TotalChunks d > 0"

fun missing_loop :: "Download \<Rightarrow> nat \<Rightarrow> int list" where
  "missing_loop d 0 = []"
| "missing_loop d (Suc n) =
     (if \<not> IsChunkCompleted d (int n) then missing_loop d n @ [int n] else missing_loop d n)"

definition MissingChunks :: "Download \<Rightarrow> int list" where
  "MissingChunks d = missing_loop d (nat (Download_TotalChunks d))"

section \<open>Interface to the transfer manager\<close>

text \<open>
  What the transfer manager relies on: marking adds one chunk to the completed ones and
  takes it off the missing list.
\<close>

locale chunk_set =
  fixes completed :: "'d \<Rightarrow> int \<Rightarrow> bool"
    and mark :: "'d \<Rightarrow> int \<Rightarrow> 'd"
    and missing :: "'d \<Rightarrow> int list"
  assumes completed_mark: "0 \<le> i \<Longrightarrow> completed (mark d i) k \<longleftrightarrow> k = i \<or> completed d k"
    and missing_mark: "0 \<le> i \<Longrightarrow> missing (mark d i) = filter (\<lambda>k. k \<noteq> i) (missing d)"
    and missing_nonneg: "i \<in> set (missing d) \<Longrightarrow> 0 \<le> i"
begin

lemma completed_marks:
  "\<forall>i \<in> set is. 0 \<le> i \<Longrightarrow> completed (foldl mark d is) k \<longleftrightarrow> k \<in> set is \<or> completed d k"
  by (induction "is" arbitrary: d) (auto simp: completed_mark)

lemma missing_marks:
  "\<forall>i \<in> set is. 0 \<le> i \<Longrightarrow> missing (foldl mark d is) = filter (\<lambda>k. k \<notin> set is) (missing d)"
  by (induction "is" arbitrary: d) (auto simp: missing_mark intro!: filter_cong)

lemma marks_order_irrelevant:
  assumes "set is = set js" and "\<forall>i \<in> set is. 0 \<le> i"
  shows "completed (foldl mark d is) k = completed (foldl mark d js) k"
    and "missing (foldl mark d is) = missing (foldl mark d js)"
  using assms by (simp_all add: completed_marks missing_marks)

end

section \<open>The bitmap as a set of chunk numbers\<close>

lemma expand_bitmap_eq:
  "expand_bitmap n bm = bm @ replicate (Suc n - length bm) 0"
proof (induction n bm rule: expand_bitmap.induct)
  case (1 n bm)
  show ?case
  proof (cases "length bm \<le> n")
    case True
    then have "Suc n - length bm = Suc (n - length bm)" by simp
    then show ?thesis using 1 True by (subst expand_bitmap.simps) simp
  next
    case False
    then show ?thesis by (subst expand_bitmap.simps) simp
  qed
qed

text \<open>The set of marked chunks.\<close>

definition marked :: "bytes \<Rightarrow> nat set" where
  "marked bm = {i. i div 8 < length bm \<and> bit (bm ! (i div 8)) (i mod 8)}"

lemma IsChunkCompleted_marked:
  "IsChunkCompleted d i \<longleftrightarrow> 0 \<le> i \<and> nat i \<in> marked (Download_ChunkBitmap d)"
  by (auto simp: IsChunkCompleted_def marked_def and_power_bit nat_div_distrib nat_mod_distrib Let_def)

lemma marked_expand: "marked (expand_bitmap n bm) = marked bm"
proof (rule set_eqI)
  fix k
  have "\<not> k div 8 < length bm \<Longrightarrow> k div 8 < length bm + (Suc n - length bm)
      \<Longrightarrow> replicate (Suc n - length bm) (0::byte) ! (k div 8 - length bm) = 0"
    by (rule nth_replicate) arith
  then show "k \<in> marked (expand_bitmap n bm) \<longleftrightarrow> k \<in> marked bm"
    by (auto simp: marked_def expand_bitmap_eq nth_append split: if_splits)
qed

lemma marked_update:
  assumes "i div 8 < length bm"
  shows "marked (bm[i div 8 := bm ! (i div 8) OR push_bit (i mod 8) 1]) = insert i (marked bm)"
proof (rule set_eqI)
  fix k
  have "bit (push_bit (i mod 8) 1 :: byte) (k mod 8) \<longleftrightarrow> k mod 8 = i mod 8"
    by (auto simp: bit_simps)
  moreover have "k div 8 = i div 8 \<Longrightarrow> k mod 8 = i mod 8 \<longleftrightarrow> k = i"
    by (metis div_mult_mod_eq)
  ultimately show "k \<in> marked (bm[i div 8 := bm ! (i div 8) OR push_bit (i mod 8) 1])
      \<longleftrightarrow> k \<in> insert i (marked bm)"
    using assms by (auto simp: marked_def nth_list_update bit_or_iff)
qed

lemma marked_SetChunkCompleted:
  assumes "0 \<le> i"
  shows "marked (Download_ChunkBitmap (SetChunkCompleted d i))
    = insert (nat i) (marked (Download_ChunkBitmap d))"
proof -
  let ?bm = "expand_bitmap (nat i div 8) (Download_ChunkBitmap d)"
  have "nat i div 8 < length ?bm" by (simp add: expand_bitmap_eq)
  from marked_update [OF this] show ?thesis
    using assms
    by (simp add: SetChunkCompleted_def Let_def nat_div_distrib nat_mod_distrib marked_expand)
qed

lemma SetChunkCompleted_frame:
  "Download_TotalChunks (SetChunkCompleted d i) = Download_TotalChunks d"
  "Download_Status (SetChunkCompleted d i) = Download_Status d"
  "Download_ID (SetChunkCompleted d i) = Download_ID d"
  "Download_DatasetID (SetChunkCompleted d i) = Download_DatasetID d"
  "Download_DatasetHash (SetChunkCompleted d i) = Download_DatasetHash d"
  "Download_Error (SetChunkCompleted d i) = Download_Error d"
  by (simp_all add: SetChunkCompleted_def Let_def)

section \<open>Counting\<close>

lemma count_bits_card: "count_bits n b = card {i. i < n \<and> bit b i}"
proof (induction n)
  case 0
  then show ?case by simp
next
  case (Suc n)
  have "{i. i < Suc n \<and> bit b i} = {i. i < n \<and> bit b i} \<union> (if bit b n then {n} else {})"
    by (auto simp: less_Suc_eq)
  then show ?case using Suc by (simp add: and_power_bit)
qed

lemma marked_Cons: "marked (b # bm) = {i. i < 8 \<and> bit b i} \<union> (\<lambda>i. i + 8) ` marked bm"
proof (rule set_eqI)
  fix k
  show "k \<in> marked (b # bm) \<longleftrightarrow> k \<in> {i. i < 8 \<and> bit b i} \<union> (\<lambda>i. i + 8) ` marked bm"
  proof (cases "k < 8")
    case True
    then show ?thesis by (auto simp: marked_def)
  next
    case False
    then obtain m where "k = m + 8" by (metis add.commute le_Suc_ex not_less)
    then show ?thesis by (auto simp: marked_def)
  qed
qed

lemma finite_marked: "finite (marked bm)"
  by (induction bm) (simp_all add: marked_Cons, simp add: marked_def)

lemma card_marked: "card (marked bm) = sum_list (map (count_bits 8) bm)"
proof (induction bm)
  case Nil
  then show ?case by (simp add: marked_def)
next
  case (Cons b bm)
  have "card (marked (b # bm)) = card {i. i < 8 \<and> bit b i} + card ((\<lambda>i. i + 8) ` marked bm)"
    unfolding marked_Cons by (rule card_Un_disjoint) (auto simp: finite_marked)
  also have "card ((\<lambda>i. i + 8) ` marked bm) = card (marked bm)"
    by (rule card_image) (simp add: inj_on_def)
  finally show ?case using Cons by (simp add: count_bits_card del: count_bits.simps)
qed

lemma foldl_count: "foldl (\<lambda>n b. n + f b) a bm = a + sum_list (map f bm)" for a :: nat
  by (induction bm arbitrary: a) auto

lemma countCompletedChunks_card:
  "countCompletedChunks d = min (int (card (marked (Download_ChunkBitmap d)))) (Download_TotalChunks d)"
  by (simp add: countCompletedChunks_def foldl_count card_marked Let_def)

section \<open>Missing chunks\<close>

lemma missing_loop_eq:
  "missing_loop d n = filter (\<lambda>i. \<not> IsChunkCompleted d i) (map int [0..<n])"
  by (induction n) auto

lemma MissingChunks_eq:
  "MissingChunks d
    = filter (\<lambda>i. \<not> IsChunkCompleted d i) (map int [0..<nat (Download_TotalChunks d)])"
  by (simp add: MissingChunks_def missing_loop_eq)

lemma set_MissingChunks:
  "set (MissingChunks d) = {i. 0 \<le> i \<and> i < Download_TotalChunks d \<and> \<not> IsChunkCompleted d i}"
proof -
  have "int ` {0..<nat n} = {i. 0 \<le> i \<and> i < n}" for n :: int
  proof (rule set_eqI)
    fix i :: int
    show "i \<in> int ` {0..<nat n} \<longleftrightarrow> i \<in> {i. 0 \<le> i \<and> i < n}"
      by (cases "0 \<le> i") (auto simp: image_iff intro!: bexI [of _ "nat i"])
  qed
  then show ?thesis by (auto simp: MissingChunks_eq)
qed

lemma distinct_MissingChunks: "distinct (MissingChunks d)"
  by (simp add: MissingChunks_eq distinct_map)

text \<open>
  A consistent download: the counter is what \<open>countCompletedChunks\<close> says and no chunk number
  beyond the total is marked.
\<close>

definition download_ok :: "Download \<Rightarrow> bool" where
  "download_ok d \<longleftrightarrow> Download_CompletedChunks d = countCompletedChunks d
     \<and> (\<forall>i \<in> marked (Download_ChunkBitmap d). int i < Download_TotalChunks d)"

lemma download_ok_set:
  assumes "download_ok d" and "i < Download_TotalChunks d"
  shows "download_ok (SetChunkCompleted d i)"
proof (cases "0 \<le> i")
  case True
  have c: "Download_CompletedChunks (SetChunkCompleted d i) = countCompletedChunks (SetChunkCompleted d i)"
    using True by (simp add: SetChunkCompleted_def countCompletedChunks_def Let_def)
  have m: "marked (Download_ChunkBitmap (SetChunkCompleted d i))
      = insert (nat i) (marked (Download_ChunkBitmap d))"
    using True by (rule marked_SetChunkCompleted)
  show ?thesis using assms True by (auto simp: download_ok_def c m SetChunkCompleted_frame)
next
  case False
  then show ?thesis using assms by (simp add: SetChunkCompleted_def)
qed

lemma complete_iff_none_missing:
  assumes "download_ok d" and "0 < Download_TotalChunks d"
  shows "Download_IsComplete d \<longleftrightarrow> MissingChunks d = []"
proof -
  let ?n = "nat (Download_TotalChunks d)"
  let ?M = "marked (Download_ChunkBitmap d)"
  have sub: "?M \<subseteq> {..<?n}" using assms by (auto simp: download_ok_def)
  have "Download_IsComplete d \<longleftrightarrow> ?n \<le> card ?M"
    using assms by (auto simp: Download_IsComplete_def download_ok_def countCompletedChunks_card)
  also have "\<dots> \<longleftrightarrow> ?M = {..<?n}"
    using card_seteq [OF finite_lessThan sub] by (metis card_lessThan order_refl)
  also have "\<dots> \<longleftrightarrow> (\<forall>k < ?n. k \<in> ?M)" using sub by auto
  also have "\<dots> \<longleftrightarrow> (\<forall>i. 0 \<le> i \<and> i < Download_TotalChunks d \<longrightarrow> nat i \<in> ?M)"
  proof (intro iffI allI impI)
    fix i assume all: "\<forall>k < ?n. k \<in> ?M" and i: "0 \<le> i \<and> i < Download_TotalChunks d"
    have "nat i < ?n" using i by linarith
    then show "nat i \<in> ?M" using all by blast
  next
    fix k assume all: "\<forall>i. 0 \<le> i \<and> i < Download_TotalChunks d \<longrightarrow> nat i \<in> ?M" and k: "k < ?n"
    have "0 \<le> int k \<and> int k < Download_TotalChunks d" using k by linarith
    then show "k \<in> ?M" using all by (metis nat_int)
  qed
  also have "\<dots> \<longleftrightarrow> set (MissingChunks d) = {}"
    by (auto simp: set_MissingChunks IsChunkCompleted_marked)
  finally show ?thesis by simp
qed

lemma completed_after_set:
  assumes "0 \<le> i"
  shows "IsChunkCompleted (SetChunkCompleted d i) k \<longleftrightarrow> k = i \<or> IsChunkCompleted d k"
  using assms by (auto simp: IsChunkCompleted_marked marked_SetChunkCompleted)

lemma counter_after_set:
  assumes "0 \<le> i"
  shows "Download_CompletedChunks (SetChunkCompleted d i)
    = min (int (card {k. IsChunkCompleted (SetChunkCompleted d i) (int k)})) (Download_TotalChunks d)"
proof -
  have "{k. IsChunkCompleted (SetChunkCompleted d i) (int k)}
      = marked (Download_ChunkBitmap (SetChunkCompleted d i))"
    by (simp add: IsChunkCompleted_marked)
  moreover have "Download_CompletedChunks (SetChunkCompleted d i)
      = countCompletedChunks (SetChunkCompleted d i)"
    using assms by (simp add: SetChunkCompleted_def countCompletedChunks_def Let_def)
  ultimately show ?thesis by (simp add: countCompletedChunks_card SetChunkCompleted_frame)
qed

lemma missing_after_set:
  assumes "0 \<le> i"
  shows "MissingChunks (SetChunkCompleted d i) = filter (\<lambda>k. k \<noteq> i) (MissingChunks d)"
  by (auto simp: MissingChunks_eq SetChunkCompleted_frame completed_after_set [OF assms]
      intro: filter_cong)

interpretation download_chunks: chunk_set IsChunkCompleted SetChunkCompleted MissingChunks
  by unfold_locales (auto simp: completed_after_set missing_after_set set_MissingChunks)

text \<open>
  The chunk bitmap is a set: after marking chunk \<open>i\<close>, the completed chunks are
  exactly those completed before and \<open>i\<close> (for every index, out of range included), the
  counter is the number of marked chunks capped at the total, and the list of missing chunks
  loses exactly \<open>i\<close>, keeping its increasing order.\<close>

theorem set_chunk_completed:
  assumes "0 \<le> i"
  shows "(\<forall>k. IsChunkCompleted (SetChunkCompleted d i) k \<longleftrightarrow> k = i \<or> IsChunkCompleted d k)
    \<and> Download_CompletedChunks (SetChunkCompleted d i)
        = min (int (card {k. IsChunkCompleted (SetChunkCompleted d i) (int k)})) (Download_TotalChunks d)
    \<and> MissingChunks (SetChunkCompleted d i) = filter (\<lambda>k. k \<noteq> i) (MissingChunks d)"
  using completed_after_set [OF assms] counter_after_set [OF assms] missing_after_set [OF assms]
  by blast

definition sample_download :: "int \<Rightarrow> bytes \<Rightarrow> int \<Rightarrow> Download" where
  "sample_download n bm c = \<lparr>Download_ID = ''dl'', Download_DatasetID = ''ds'',
     Download_DatasetHash = ''h'', Download_PeerID = ''p'', Download_TotalChunks = n,
     Download_CompletedChunks = c, Download_ChunkBitmap = bm, Download_Status = ''active'',
     Download_StartedAt = 0, Download_UpdatedAt = 0, Download_Error = ''''\<rparr>"

theorem set_chunk_completed_witness:
  "MissingChunks (SetChunkCompleted (sample_download 3 [] 0) 1) = [0, 2]"
proof -
  have "MissingChunks (sample_download 3 [] 0) = [0, 1, 2]"
    by (simp add: MissingChunks_eq IsChunkCompleted_def sample_download_def upt_rec)
  then show ?thesis using set_chunk_completed [of 1 "sample_download 3 [] 0"] by simp
qed

text \<open>
  Completion is exact on consistent downloads: if the counter is up to date and no
  chunk beyond the total is marked, then marking any chunk below the total keeps both, and
  the download counts as complete if and only if no chunk is missing.\<close>

theorem download_complete_exact:
  assumes "download_ok d" and "i < Download_TotalChunks d"
  shows "download_ok (SetChunkCompleted d i)
    \<and> (0 < Download_TotalChunks d
        \<longrightarrow> (Download_IsComplete (SetChunkCompleted d i) \<longleftrightarrow> MissingChunks (SetChunkCompleted d i) = []))"
  using complete_iff_none_missing download_ok_set [OF assms] by (simp add: SetChunkCompleted_frame)

theorem download_complete_exact_witness:
  "Download_IsComplete (SetChunkCompleted (sample_download 2 [1] 1) 1)
   \<and> MissingChunks (SetChunkCompleted (sample_download 2 [1] 1) 1) = []"
proof -
  let ?d = "sample_download 2 [1] 1"
  have c: "countCompletedChunks ?d = 1" by (simp add: sample_download_def countCompletedChunks_def) code_simp
  have m: "\<forall>i \<in> marked [1]. i = 0" by (auto simp: marked_def bit_simps less_Suc_eq)
  have ok: "download_ok ?d" using c m by (auto simp: download_ok_def sample_download_def)
  have "MissingChunks ?d = [1]"
    by (simp add: MissingChunks_eq IsChunkCompleted_def sample_download_def upt_rec)
  then have "MissingChunks (SetChunkCompleted ?d 1) = []" by (simp add: missing_after_set)
  then show ?thesis
    using download_complete_exact [OF ok, of 1] by (simp add: sample_download_def)
qed

text \<open>
  The range condition is needed: marking chunk 9 of a download of two chunks and
  then chunk 0 makes the download count as complete while chunk 1 is still missing.\<close>

theorem out_of_range_mark_completes:
  "Download_IsComplete (SetChunkCompleted (SetChunkCompleted (sample_download 2 [] 0) 9) 0)
   \<and> MissingChunks (SetChunkCompleted (SetChunkCompleted (sample_download 2 [] 0) 9) 0) = [1]"
proof -
  let ?d = "SetChunkCompleted (SetChunkCompleted (sample_download 2 [] 0) 9) 0"
  have "MissingChunks (sample_download 2 [] 0) = [0, 1]"
    by (simp add: MissingChunks_eq IsChunkCompleted_def sample_download_def upt_rec)
  then have "MissingChunks ?d = [1]" by (simp add: missing_after_set)
  moreover have "{k. IsChunkCompleted ?d (int k)} = {0, 9}"
    by (auto simp: completed_after_set) (simp_all add: IsChunkCompleted_def sample_download_def)
  then have "Download_CompletedChunks ?d = 2"
    by (simp add: counter_after_set SetChunkCompleted_frame) (simp add: sample_download_def)
  ultimately show ?thesis
    by (simp add: Download_IsComplete_def SetChunkCompleted_frame) (simp add: sample_download_def)
qed

end
