(* ===== verification/Transfers.thy ===== *)
theory Transfers
  imports Downloads
begin

unbundle bit_operations_syntax

text \<open>
  The transfer manager (\<open>internal/p2p/transfer.go\<close>): starting, resuming, pausing and
  cancelling downloads, and the run of one download by a pool of workers that fetch, verify
  and mark chunks. The network is an argument: \<open>fetch peer dataset chunk attempt\<close> is what the
  protocol client returns on that attempt, an error text or a chunk (\<open>None\<close> for a nil
  pointer). The digest \<open>sha256\<close> is an argument. The workers of a run are interleaved by a
  schedule, a list of turns; in a turn a worker does one access to the shared download: the
  load and the store of the bitmap byte, each byte read by the count and the store of the
  counter are turns of their own, since \<open>SetChunkCompleted\<close> runs without a lock.

  Shown: whatever the schedule, only verified chunks are marked; every worker that keeps
  getting turns ends; with one worker a run marks exactly the chunks it took that had a good
  attempt, completes the download when these are all the missing ones, and takes it off the
  map of active downloads; with two workers a mark can be lost, so that a run in which every
  chunk was verified is reported as failed; a resumed download with nothing missing stays in
  the map; and with chunks decoded from JSON, whose data field is not serialised, no chunk is
  ever marked.
\<close>

record TransferConfig =
  TC_ChunkSize :: int
  TC_MaxConcurrentChunks :: int
  TC_ChunkTimeout :: duration
  TC_MaxRetries :: int
  TC_ParallelPeers :: bool

definition DefaultTransferConfig :: TransferConfig where
  "DefaultTransferConfig = \<lparr>TC_ChunkSize = 1024 * 1024, TC_MaxConcurrentChunks = 4,
     TC_ChunkTimeout = 30 * 1000000000, TC_MaxRetries = 3, TC_ParallelPeers = True\<rparr>"

definition TransferConfigFromP2PConfig :: "'cfg \<Rightarrow> TransferConfig" where
  "TransferConfigFromP2PConfig cfg = DefaultTransferConfig"

record activeDownload =
  ad_download :: Download
  ad_peers :: "string list"
  ad_cancelled :: bool
  ad_chunkErrors :: "(int \<times> string) list"

record TransferManager =
  tm_cfg :: TransferConfig
  tm_downloads :: "(string \<times> activeDownload) list"

definition NewTransferManager :: "TransferConfig \<Rightarrow> TransferManager" where
  "NewTransferManager cfg = \<lparr>tm_cfg = cfg, tm_downloads = []\<rparr>"

text \<open>
  \<open>make([]byte, (totalChunks+7)/8)\<close>: Go's division truncates, and a negative length panics.
\<close>

definition bitmap_length :: "int \<Rightarrow> int" where
  "bitmap_length totalChunks =
     (if totalChunks + 7 < 0 then - ((- (totalChunks + 7)) div 8) else (totalChunks + 7) div 8)"

text \<open>\<open>StartDownload\<close>: \<open>None\<close> is the panic; \<open>now1\<close>, \<open>now2\<close> are its two clock readings.\<close>

definition StartDownload ::
    "string \<Rightarrow> instant \<Rightarrow> instant \<Rightarrow> TransferManager \<Rightarrow> DatasetID \<Rightarrow> string \<Rightarrow> int \<Rightarrow> string list
     \<Rightarrow> (TransferManager \<times> Download) option" where
  "StartDownload uuid now1 now2 tm datasetID hash totalChunks peers =
     (case find (\<lambda>(i, ad). Download_DatasetHash (ad_download ad) = hash) (tm_downloads tm) of
        Some (i, ad) \<Rightarrow> Some (tm, ad_download ad)
      | None \<Rightarrow>
          if bitmap_length totalChunks < 0 then None
          else
            let download = \<lparr>Download_ID = uuid, Download_DatasetID = datasetID,
                  Download_DatasetHash = hash,
                  Download_PeerID = (case peers of [] \<Rightarrow> '''' | p # _ \<Rightarrow> p),
                  Download_TotalChunks = totalChunks, Download_CompletedChunks = 0,
                  Download_ChunkBitmap = replicate (nat (bitmap_length totalChunks)) 0,
                  Download_Status = DownloadStatusActive, Download_StartedAt = now1,
                  Download_UpdatedAt = now2, Download_Error = ''''\<rparr>;
                ad = \<lparr>ad_download = download, ad_peers = peers, ad_cancelled = False,
                      ad_chunkErrors = []\<rparr>
            in Some (tm\<lparr>tm_downloads := AList.update uuid ad (tm_downloads tm)\<rparr>, download))"

definition ResumeDownload ::
    "instant \<Rightarrow> TransferManager \<Rightarrow> Download \<Rightarrow> string list \<Rightarrow> TransferManager \<times> Download" where
  "ResumeDownload now tm download peers =
     (case map_of (tm_downloads tm) (Download_ID download) of
        Some _ \<Rightarrow> (tm, download)
      | None \<Rightarrow>
          let download' = download\<lparr>Download_Status := DownloadStatusActive,
                Download_UpdatedAt := now, Download_Error := ''''\<rparr>;
              ad = \<lparr>ad_download = download', ad_peers = peers, ad_cancelled = False,
                    ad_chunkErrors = []\<rparr>
          in (tm\<lparr>tm_downloads := AList.update (Download_ID download') ad (tm_downloads tm)\<rparr>,
              download'))"

definition PauseDownload ::
    "instant \<Rightarrow> TransferManager \<Rightarrow> string \<Rightarrow> domain_error + TransferManager" where
  "PauseDownload now tm downloadID =
     (case map_of (tm_downloads tm) downloadID of
        None \<Rightarrow> Inl ErrDownloadNotFound
      | Some ad \<Rightarrow>
          let ad' = ad\<lparr>ad_cancelled := True,
                ad_download := (ad_download ad)\<lparr>Download_Status := DownloadStatusPaused,
                                               Download_UpdatedAt := now\<rparr>\<rparr>
          in Inr (tm\<lparr>tm_downloads := AList.update downloadID ad' (tm_downloads tm)\<rparr>))"

definition CancelDownload :: "TransferManager \<Rightarrow> string \<Rightarrow> TransferManager" where
  "CancelDownload tm downloadID =
     (case map_of (tm_downloads tm) downloadID of
        None \<Rightarrow> tm
      | Some ad \<Rightarrow> tm\<lparr>tm_downloads := AList.delete downloadID (tm_downloads tm)\<rparr>)"

definition GetDownload :: "TransferManager \<Rightarrow> string \<Rightarrow> Download option" where
  "GetDownload tm downloadID = map_option ad_download (map_of (tm_downloads tm) downloadID)"

definition ListDownloads :: "TransferManager \<Rightarrow> Download list" where
  "ListDownloads tm = map (\<lambda>(i, ad). ad_download ad) (tm_downloads tm)"

definition DownloadDataset ::
    "string \<Rightarrow> instant \<Rightarrow> instant \<Rightarrow> TransferManager \<Rightarrow> CatalogEntry option \<Rightarrow> string list
     \<Rightarrow> (string + TransferManager \<times> Download) option" where
  "DownloadDataset uuid now1 now2 tm entry peers =
     (case entry of
        None \<Rightarrow> Some (Inl ''nil catalog entry'')
      | Some e \<Rightarrow>
          if length peers = 0 then Some (Inl ''no peers provided'')
          else map_option Inr
            (StartDownload uuid now1 now2 tm (Entry_DatasetID e) (Entry_Hash e)
               (Entry_ChunkCount e) peers))"

type_synonym fetcher = "string \<Rightarrow> DatasetID \<Rightarrow> int \<Rightarrow> nat \<Rightarrow> string + Chunk option"

definition selectPeer :: "TransferConfig \<Rightarrow> string list \<Rightarrow> int \<Rightarrow> string" where
  "selectPeer cfg peers chunkIndex =
     (if length peers = 0 then ''''
      else if TC_ParallelPeers cfg \<and> length peers > 1
        then peers ! nat (chunkIndex mod int (length peers))
      else peers ! 0)"

definition verifyChunk :: "(bytes \<Rightarrow> bytes) \<Rightarrow> Chunk option \<Rightarrow> bool" where
  "verifyChunk sha256 chunk =
     (case chunk of None \<Rightarrow> False
      | Some c \<Rightarrow> if length (Chunk_Data c) = 0 then False
                  else hex_EncodeToString (sha256 (Chunk_Data c)) = Chunk_Hash c)"

datatype transfer_event = ChunkReceived int "Chunk option" | Completed | Failed string

text \<open>
  The retry loop of \<open>downloadChunk\<close>: \<open>left'\<close> attempts remain, \<open>retry\<close> is the number of this
  one. The result is the error it returns (\<open>Inl None\<close> is nil) or the verified chunk, which the
  worker goes on to mark.
\<close>

fun downloadChunk_loop ::
    "TransferConfig \<Rightarrow> fetcher \<Rightarrow> (bytes \<Rightarrow> bytes) \<Rightarrow> string list \<Rightarrow> DatasetID \<Rightarrow> int
     \<Rightarrow> nat \<Rightarrow> nat \<Rightarrow> string option \<Rightarrow> string option + Chunk option"
where
  "downloadChunk_loop cfg fetch sha256 peers ds chunkIndex 0 retry lastErr = Inl lastErr"
| "downloadChunk_loop cfg fetch sha256 peers ds chunkIndex (Suc left') retry lastErr =
     (let peerID = selectPeer cfg peers chunkIndex
      in if peerID = '''' then Inl (Some ''no peers available'')
         else case fetch peerID ds chunkIndex retry of
           Inl err \<Rightarrow>
             downloadChunk_loop cfg fetch sha256 peers ds chunkIndex left' (Suc retry) (Some err)
         | Inr chunk \<Rightarrow>
             if \<not> verifyChunk sha256 chunk
             then downloadChunk_loop cfg fetch sha256 peers ds chunkIndex left' (Suc retry)
                    (Some ''hash mismatch'')
             else Inr chunk)"

definition downloadChunk ::
    "TransferConfig \<Rightarrow> fetcher \<Rightarrow> (bytes \<Rightarrow> bytes) \<Rightarrow> string list \<Rightarrow> DatasetID \<Rightarrow> int
     \<Rightarrow> string option + Chunk option" where
  "downloadChunk cfg fetch sha256 peers ds chunkIndex =
     downloadChunk_loop cfg fetch sha256 peers ds chunkIndex (nat (TC_MaxRetries cfg)) 0 None"

text \<open>
  What the workers of one run share: the channel, the download and, as an observation, the
  calls of the callbacks. A worker is at the channel, inside \<open>SetChunkCompleted\<close> (before the
  load of the byte, before the store of the value it computed, or counting: the sum so far
  and the next byte), about to write the time stamp, about to record an error, or gone.
\<close>

record shared =
  sh_work :: "int list"
  sh_ad :: activeDownload
  sh_events :: "transfer_event list"

datatype worker =
    Waiting
  | Loading int "Chunk option"
  | Storing int "Chunk option" byte
  | Counting int "Chunk option" nat nat
  | Stamping int "Chunk option"
  | Failing int string
  | Gone

abbreviation sh_download :: "shared \<Rightarrow> Download" where
  "sh_download s \<equiv> ad_download (sh_ad s)"

abbreviation set_download :: "Download \<Rightarrow> shared \<Rightarrow> shared" where
  "set_download d s \<equiv> s\<lparr>sh_ad := (sh_ad s)\<lparr>ad_download := d\<rparr>\<rparr>"

text \<open>
  One turn of \<open>chunkWorker\<close> and of the \<open>downloadChunk\<close> it calls; \<open>ctx_done\<close> is what it sees of
  the context when it takes a chunk. The fetches of a chunk touch nothing that is shared and
  are part of the turn that takes it; the padding of a short bitmap is part of the load
  (\<open>StartDownload\<close> makes the bitmap long enough). The errors are kept in the order of the
  chunks; the code ranges over a Go map, whose order is not specified.
\<close>

fun chunkWorker ::
    "TransferConfig \<Rightarrow> fetcher \<Rightarrow> (bytes \<Rightarrow> bytes) \<Rightarrow> (int \<Rightarrow> instant) \<Rightarrow> bool \<Rightarrow> worker \<Rightarrow> shared
     \<Rightarrow> worker \<times> shared" where
  "chunkWorker cfg fetch sha256 tick ctx_done Waiting s =
     (case sh_work s of
        [] \<Rightarrow> (Gone, s)
      | i # work \<Rightarrow>
          let s1 = s\<lparr>sh_work := work\<rparr>
          in if ctx_done then (Gone, s1)
             else case downloadChunk cfg fetch sha256 (ad_peers (sh_ad s))
                         (Download_DatasetID (sh_download s)) i of
                    Inl None \<Rightarrow> (Waiting, s1)
                  | Inl (Some e) \<Rightarrow> (Failing i e, s1)
                  | Inr c \<Rightarrow> (Loading i c, s1))"
| "chunkWorker cfg fetch sha256 tick ctx_done (Loading i c) s =
     (if i < 0 then (Stamping i c, s)
      else let byteIndex = nat (i div 8); bitIndex = nat (i mod 8);
               bm = expand_bitmap byteIndex (Download_ChunkBitmap (sh_download s))
           in (Storing i c (bm ! byteIndex OR push_bit bitIndex 1),
               set_download ((sh_download s)\<lparr>Download_ChunkBitmap := bm\<rparr>) s))"
| "chunkWorker cfg fetch sha256 tick ctx_done (Storing i c v) s =
     (Counting i c 0 0,
      set_download ((sh_download s)\<lparr>Download_ChunkBitmap :=
        (Download_ChunkBitmap (sh_download s))[nat (i div 8) := v]\<rparr>) s)"
| "chunkWorker cfg fetch sha256 tick ctx_done (Counting i c n pos) s =
     (let bm = Download_ChunkBitmap (sh_download s); total = Download_TotalChunks (sh_download s)
      in if pos < length bm then (Counting i c (n + count_bits 8 (bm ! pos)) (Suc pos), s)
         else (Stamping i c,
               set_download ((sh_download s)\<lparr>Download_CompletedChunks :=
                 (if int n > total then total else int n)\<rparr>) s))"
| "chunkWorker cfg fetch sha256 tick ctx_done (Stamping i c) s =
     (Waiting,
      (set_download ((sh_download s)\<lparr>Download_UpdatedAt := tick i\<rparr>) s)
        \<lparr>sh_events := sh_events s @ [ChunkReceived i c]\<rparr>)"
| "chunkWorker cfg fetch sha256 tick ctx_done (Failing i e) s =
     (Waiting,
      s\<lparr>sh_ad := (sh_ad s)\<lparr>ad_chunkErrors := AList.update i e (ad_chunkErrors (sh_ad s))\<rparr>\<rparr>)"
| "chunkWorker cfg fetch sha256 tick ctx_done Gone s = (Gone, s)"

text \<open>A schedule: which worker has the next turn, and whether it would find the context done.\<close>

type_synonym schedule = "(nat \<times> bool) list"

fun run_workers ::
    "TransferConfig \<Rightarrow> fetcher \<Rightarrow> (bytes \<Rightarrow> bytes) \<Rightarrow> (int \<Rightarrow> instant) \<Rightarrow> schedule
     \<Rightarrow> shared \<times> worker list \<Rightarrow> shared \<times> worker list" where
  "run_workers cfg fetch sha256 tick [] p = p"
| "run_workers cfg fetch sha256 tick ((k, ctx_done) # sched) (s, ws) =
     run_workers cfg fetch sha256 tick sched
       (if k < length ws
        then (case chunkWorker cfg fetch sha256 tick ctx_done (ws ! k) s of
                (w, s') \<Rightarrow> (s', ws[k := w]))
        else (s, ws))"

definition completeDownload :: "instant \<Rightarrow> activeDownload \<Rightarrow> activeDownload" where
  "completeDownload now ad =
     ad\<lparr>ad_download := (ad_download ad)\<lparr>Download_Status := DownloadStatusCompleted,
                                       Download_UpdatedAt := now\<rparr>\<rparr>"

text \<open>
  \<open>runDownload\<close> on the entry \<open>ad\<close> of the manager. \<open>None\<close> is the wait for the workers when the
  schedule does not bring all of them to their end; \<open>cancelled\<close> is whether the context was done
  after the wait. A download with nothing missing returns early: the shared record is
  completed in place and its entry stays in the map.
\<close>

definition runDownload ::
    "fetcher \<Rightarrow> (bytes \<Rightarrow> bytes) \<Rightarrow> (int \<Rightarrow> instant) \<Rightarrow> instant \<Rightarrow> schedule \<Rightarrow> bool
     \<Rightarrow> TransferManager \<Rightarrow> activeDownload
     \<Rightarrow> (TransferManager \<times> activeDownload \<times> transfer_event list) option" where
  "runDownload fetch sha256 tick now sched cancelled tm ad =
     (let missingChunks = MissingChunks (ad_download ad);
          downloadID = Download_ID (ad_download ad)
      in if length missingChunks = 0
         then Some (tm\<lparr>tm_downloads := AList.map_entry downloadID (\<lambda>_. completeDownload now ad)
                                        (tm_downloads tm)\<rparr>,
                    completeDownload now ad, [Completed])
         else
           let workerCount = min (TC_MaxConcurrentChunks (tm_cfg tm)) (int (length missingChunks));
               (s, ws) = run_workers (tm_cfg tm) fetch sha256 tick sched
                   (\<lparr>sh_work = missingChunks, sh_ad = ad, sh_events = []\<rparr>,
                    replicate (nat workerCount) Waiting);
               tm' = tm\<lparr>tm_downloads := AList.delete downloadID (tm_downloads tm)\<rparr>
           in if \<not> list_all (\<lambda>w. w = Gone) ws then None
              else if Download_IsComplete (sh_download s)
              then Some (tm', completeDownload now (sh_ad s), sh_events s @ [Completed])
              else if \<not> cancelled
              then let err = (case ad_chunkErrors (sh_ad s) of
                                [] \<Rightarrow> Download_Error (sh_download s)
                              | (i, e) # _ \<Rightarrow> ''chunk '' @ show_int i @ '': '' @ e)
                   in Some (tm', (sh_ad s)\<lparr>ad_download := (sh_download s)\<lparr>
                         Download_Status := DownloadStatusFailed, Download_UpdatedAt := now,
                         Download_Error := err\<rparr>\<rparr>, sh_events s @ [Failed err])
              else Some (tm', sh_ad s, sh_events s))"

text \<open>
  \<open>ProtocolClient.GetChunk\<close> as the transfer manager calls it: the response is a JSON encoding
  of the peer's chunk, and the field \<open>Data\<close> carries the tag \<open>json:"-"\<close>, so the decoded chunk
  has no data. \<open>send\<close> is the exchange with the peer: an error, or the chunk it encodes.
\<close>

definition chunk_json :: "Chunk \<Rightarrow> Chunk" where
  "chunk_json c = c\<lparr>Chunk_Data := []\<rparr>"

definition ProtocolClient_GetChunk ::
    "(string \<Rightarrow> DatasetID \<Rightarrow> int \<Rightarrow> nat \<Rightarrow> string + Chunk) \<Rightarrow> fetcher" where
  "ProtocolClient_GetChunk send peerID datasetID chunkIndex attempt =
     (case send peerID datasetID chunkIndex attempt of
        Inl err \<Rightarrow> Inl err
      | Inr chunk \<Rightarrow> Inr (Some (chunk_json chunk)))"

section \<open>One chunk\<close>

text \<open>A chunk has a good attempt: a peer is selected and some attempt within the limit verifies.\<close>

definition good_chunk ::
    "TransferConfig \<Rightarrow> fetcher \<Rightarrow> (bytes \<Rightarrow> bytes) \<Rightarrow> string list \<Rightarrow> DatasetID \<Rightarrow> int \<Rightarrow> bool" where
  "good_chunk cfg fetch sha256 peers ds i \<longleftrightarrow>
     selectPeer cfg peers i \<noteq> ''''
     \<and> (\<exists>k < nat (TC_MaxRetries cfg). \<exists>c. fetch (selectPeer cfg peers i) ds i k = Inr c \<and> verifyChunk sha256 c)"

lemma downloadChunk_loop_spec:
  "case downloadChunk_loop cfg fetch sha256 peers ds i n k le of
     Inr c \<Rightarrow> verifyChunk sha256 c
       \<and> selectPeer cfg peers i \<noteq> '''' \<and> (\<exists>j. k \<le> j \<and> j < k + n
           \<and> (\<exists>c. fetch (selectPeer cfg peers i) ds i j = Inr c \<and> verifyChunk sha256 c))
   | Inl e \<Rightarrow> \<not> (selectPeer cfg peers i \<noteq> '''' \<and> (\<exists>j. k \<le> j \<and> j < k + n
           \<and> (\<exists>c. fetch (selectPeer cfg peers i) ds i j = Inr c \<and> verifyChunk sha256 c)))"
proof (induction n arbitrary: k le)
  case 0
  then show ?case by simp
next
  case (Suc n)
  let ?p = "selectPeer cfg peers i"
  let ?good = "\<lambda>j. \<exists>c. fetch ?p ds i j = Inr c \<and> verifyChunk sha256 c"
  show ?case
  proof (cases "?p = '''' \<or> ?good k")
    case True
    then show ?thesis by (force simp: Let_def)
  next
    case False
    obtain le' where rec: "downloadChunk_loop cfg fetch sha256 peers ds i (Suc n) k le
        = downloadChunk_loop cfg fetch sha256 peers ds i n (Suc k) le'"
      using False by (cases "fetch ?p ds i k") (auto simp: Let_def)
    have "(\<exists>j. k \<le> j \<and> j < k + Suc n \<and> ?good j) \<longleftrightarrow> (\<exists>j. Suc k \<le> j \<and> j < Suc k + n \<and> ?good j)"
      using False by (metis Suc_leD add_Suc_right add_Suc_shift le_neq_implies_less not_less_eq_eq not_less_iff_gr_or_eq Suc_leI)
    then show ?thesis using Suc.IH [of "Suc k" le'] unfolding rec by presburger
  qed
qed

lemma downloadChunk_spec:
  "case downloadChunk cfg fetch sha256 peers ds i of
     Inr c \<Rightarrow> verifyChunk sha256 c \<and> good_chunk cfg fetch sha256 peers ds i
   | Inl e \<Rightarrow> \<not> good_chunk cfg fetch sha256 peers ds i"
  using downloadChunk_loop_spec [of cfg peers i 0 "nat (TC_MaxRetries cfg)" fetch ds sha256 None]
  by (simp add: downloadChunk_def good_chunk_def split: sum.splits)

section \<open>Any number of workers\<close>

text \<open>The bitmap queries do not depend on the status, the error text, the counter or the time stamp.\<close>

lemma download_frame [simp]:
  "IsChunkCompleted (d\<lparr>Download_UpdatedAt := t\<rparr>) = IsChunkCompleted d"
  "IsChunkCompleted (d\<lparr>Download_Status := st\<rparr>) = IsChunkCompleted d"
  "IsChunkCompleted (d\<lparr>Download_Error := e\<rparr>) = IsChunkCompleted d"
  "IsChunkCompleted (d\<lparr>Download_CompletedChunks := n\<rparr>) = IsChunkCompleted d"
  "countCompletedChunks (d\<lparr>Download_UpdatedAt := t\<rparr>) = countCompletedChunks d"
  by (simp_all add: fun_eq_iff IsChunkCompleted_def countCompletedChunks_def Let_def)

lemma missing_frame [simp]:
  "MissingChunks (d\<lparr>Download_UpdatedAt := t\<rparr>) = MissingChunks d"
  "MissingChunks (d\<lparr>Download_Status := st\<rparr>) = MissingChunks d"
  "MissingChunks (d\<lparr>Download_Error := e\<rparr>) = MissingChunks d"
  by (simp_all add: MissingChunks_eq)

abbreviation good_in ::
    "TransferConfig \<Rightarrow> fetcher \<Rightarrow> (bytes \<Rightarrow> bytes) \<Rightarrow> activeDownload \<Rightarrow> int \<Rightarrow> bool" where
  "good_in cfg fetch sha256 ad \<equiv>
     good_chunk cfg fetch sha256 (ad_peers ad) (Download_DatasetID (ad_download ad))"

definition verified_event :: "(bytes \<Rightarrow> bytes) \<Rightarrow> transfer_event \<Rightarrow> bool" where
  "verified_event sha256 ev \<longleftrightarrow> (\<forall>i c. ev = ChunkReceived i c \<longrightarrow> verifyChunk sha256 c)"

text \<open>
  \<open>A\<close> is the set of chunks that may be marked. What is shared has only bits of \<open>A\<close>, the good
  chunks still on the channel are in \<open>A\<close>, and the byte a worker is about to store has only bits of \<open>A\<close>.
\<close>

definition shared_ok ::
    "TransferConfig \<Rightarrow> fetcher \<Rightarrow> (bytes \<Rightarrow> bytes) \<Rightarrow> string list \<Rightarrow> DatasetID \<Rightarrow> int set \<Rightarrow> shared \<Rightarrow> bool" where
  "shared_ok cfg fetch sha256 peers ds A s \<longleftrightarrow>
     ad_peers (sh_ad s) = peers \<and> Download_DatasetID (sh_download s) = ds
     \<and> (\<forall>n \<in> marked (Download_ChunkBitmap (sh_download s)). int n \<in> A)
     \<and> (\<forall>i \<in> set (sh_work s). good_chunk cfg fetch sha256 peers ds i \<longrightarrow> i \<in> A)
     \<and> (\<forall>ev \<in> set (sh_events s). verified_event sha256 ev)"

fun worker_ok :: "(bytes \<Rightarrow> bytes) \<Rightarrow> int set \<Rightarrow> nat \<Rightarrow> worker \<Rightarrow> bool" where
  "worker_ok sha256 A len (Loading i c) \<longleftrightarrow> verifyChunk sha256 c \<and> i \<in> A"
| "worker_ok sha256 A len (Storing i c v) \<longleftrightarrow> verifyChunk sha256 c \<and> i \<in> A \<and> 0 \<le> i
     \<and> nat (i div 8) < len \<and> (\<forall>n < 8. bit v n \<longrightarrow> int (8 * nat (i div 8) + n) \<in> A)"
| "worker_ok sha256 A len (Counting i c n pos) \<longleftrightarrow> verifyChunk sha256 c"
| "worker_ok sha256 A len (Stamping i c) \<longleftrightarrow> verifyChunk sha256 c"
| "worker_ok sha256 A len w \<longleftrightarrow> True"

lemma worker_ok_mono: "worker_ok sha256 A len w \<Longrightarrow> len \<le> len' \<Longrightarrow> worker_ok sha256 A len' w"
  by (cases w) auto

abbreviation sh_len :: "shared \<Rightarrow> nat" where
  "sh_len s \<equiv> length (Download_ChunkBitmap (sh_download s))"

lemma length_expand: "length bm \<le> length (expand_bitmap n bm)" "n < length (expand_bitmap n bm)"
  by (simp_all add: expand_bitmap_eq)

lemma marked_store:
  assumes "n \<in> marked (bm[b := v])"
  shows "n \<in> marked bm \<or> n div 8 = b \<and> bit v (n mod 8)"
  using assms by (cases "n div 8 = b") (auto simp: marked_def)

lemma loaded_bits:
  assumes "0 \<le> i" and "i \<in> A" and "\<forall>n \<in> marked bm. int n \<in> A" and "m < 8"
    and "bit (expand_bitmap (nat (i div 8)) bm ! nat (i div 8) OR push_bit (nat (i mod 8)) 1) m"
  shows "int (8 * nat (i div 8) + m) \<in> A"
proof -
  let ?b = "nat (i div 8)"
  consider "bit (expand_bitmap ?b bm ! ?b) m" | "m = nat (i mod 8)"
    using assms(5) by (auto simp: bit_or_iff bit_exp_iff)
  then show ?thesis
  proof cases
    case 1
    have "8 * ?b + m \<in> marked (expand_bitmap ?b bm)"
      using 1 assms(4) length_expand(2) [of ?b bm] by (simp add: marked_def)
    then show ?thesis using assms(3) by (simp only: marked_expand)
  next
    case 2
    then have "int (8 * ?b + m) = i" using assms(1) by (simp add: pos_imp_zdiv_nonneg_iff)
    then show ?thesis using assms(2) by simp
  qed
qed

lemma chunkWorker_safe:
  assumes "shared_ok cfg fetch sha256 peers ds A s" and "worker_ok sha256 A (sh_len s) w"
    and "chunkWorker cfg fetch sha256 tick ctx_done w s = (w', s')"
  shows "shared_ok cfg fetch sha256 peers ds A s' \<and> worker_ok sha256 A (sh_len s') w'
    \<and> sh_len s \<le> sh_len s'"
proof (cases w)
  case Waiting
  show ?thesis
  proof (cases "sh_work s")
    case Nil
    then show ?thesis using assms Waiting by simp
  next
    case (Cons i work)
    then show ?thesis
      using assms Waiting downloadChunk_spec [of cfg fetch sha256 peers ds i]
      by (auto simp: shared_ok_def Let_def split: if_splits sum.splits option.splits)
  qed
next
  case (Loading i c)
  show ?thesis
  proof (cases "i < 0")
    case True
    then show ?thesis using assms Loading by auto
  next
    case False
    let ?b = "nat (i div 8)"
    let ?bm = "Download_ChunkBitmap (sh_download s)"
    have s': "s' = set_download ((sh_download s)\<lparr>Download_ChunkBitmap := expand_bitmap ?b ?bm\<rparr>) s"
      and w': "w' = Storing i c (expand_bitmap ?b ?bm ! ?b OR push_bit (nat (i mod 8)) 1)"
      using assms(3) Loading False by (simp_all add: Let_def)
    have "shared_ok cfg fetch sha256 peers ds A s'"
      using assms(1) by (simp add: s' shared_ok_def marked_expand)
    moreover have "worker_ok sha256 A (sh_len s') w'"
      using assms(1,2) Loading False loaded_bits [of i A ?bm]
      by (simp add: s' w' shared_ok_def length_expand)
    ultimately show ?thesis by (simp add: s' length_expand)
  qed
next
  case (Storing i c v)
  let ?bm = "Download_ChunkBitmap (sh_download s)"
  have s': "s' = set_download ((sh_download s)\<lparr>Download_ChunkBitmap := ?bm[nat (i div 8) := v]\<rparr>) s"
    and w': "w' = Counting i c 0 0" using assms(3) Storing by simp_all
  have "int n \<in> A" if "n \<in> marked (?bm[nat (i div 8) := v])" for n
  proof (cases "n \<in> marked ?bm")
    case True
    then show ?thesis using assms(1) by (simp add: shared_ok_def)
  next
    case False
    then have n: "n div 8 = nat (i div 8)" "bit v (n mod 8)" using marked_store [OF that] by auto
    have "int (8 * nat (i div 8) + n mod 8) \<in> A" using assms(2) Storing n by simp
    moreover have "8 * nat (i div 8) + n mod 8 = n" using n(1) by (metis mult_div_mod_eq)
    ultimately show ?thesis by simp
  qed
  then show ?thesis using assms(1,2) Storing by (simp add: s' w' shared_ok_def)
next
  case (Counting i c n pos)
  then show ?thesis using assms by (auto simp: shared_ok_def Let_def split: if_splits)
next
  case (Stamping i c)
  then show ?thesis using assms by (auto simp: shared_ok_def verified_event_def)
next
  case (Failing i e)
  then show ?thesis using assms by (auto simp: shared_ok_def)
next
  case Gone
  then show ?thesis using assms by simp
qed

lemma run_workers_safe:
  assumes "shared_ok cfg fetch sha256 peers ds A s"
    and "\<forall>w \<in> set ws. worker_ok sha256 A (sh_len s) w"
    and "run_workers cfg fetch sha256 tick sched (s, ws) = (s', ws')"
  shows "shared_ok cfg fetch sha256 peers ds A s' \<and> length ws' = length ws"
  using assms
proof (induction sched arbitrary: s ws)
  case Nil
  then show ?case by simp
next
  case (Cons turn sched)
  obtain k dn where turn: "turn = (k, dn)" by (cases turn)
  show ?case
  proof (cases "k < length ws")
    case True
    obtain w1 s1 where st: "chunkWorker cfg fetch sha256 tick dn (ws ! k) s = (w1, s1)" by force
    have safe: "shared_ok cfg fetch sha256 peers ds A s1" "worker_ok sha256 A (sh_len s1) w1"
        "sh_len s \<le> sh_len s1"
      using chunkWorker_safe [OF Cons.prems(1) _ st] Cons.prems(2) True by auto
    have "\<forall>w \<in> set (ws[k := w1]). worker_ok sha256 A (sh_len s1) w"
      using Cons.prems(2) safe(2,3) set_update_subset_insert [of ws k w1]
      by (blast intro: worker_ok_mono)
    then show ?thesis
      using Cons.IH [OF safe(1), of "ws[k := w1]"] Cons.prems(3) turn st True by simp
  next
    case False
    then show ?thesis using Cons turn by simp
  qed
qed

lemma workers_safe:
  assumes "runDownload fetch sha256 tick now sched cancelled tm ad = Some (tm', ad', evs)"
  shows "(\<forall>k. IsChunkCompleted (ad_download ad') k \<longrightarrow>
            IsChunkCompleted (ad_download ad) k
            \<or> k \<in> set (MissingChunks (ad_download ad))
              \<and> good_chunk (tm_cfg tm) fetch sha256 (ad_peers ad) (Download_DatasetID (ad_download ad)) k)
    \<and> (\<forall>i c. ChunkReceived i c \<in> set evs \<longrightarrow> verifyChunk sha256 c)"
proof (cases "MissingChunks (ad_download ad) = []")
  case True
  then show ?thesis using assms by (auto simp: runDownload_def completeDownload_def)
next
  case False
  let ?work = "MissingChunks (ad_download ad)"
  let ?ws = "replicate (nat (min (TC_MaxConcurrentChunks (tm_cfg tm)) (int (length ?work)))) Waiting"
  let ?s = "\<lparr>sh_work = ?work, sh_ad = ad, sh_events = []\<rparr> :: shared"
  define A where "A = {k. IsChunkCompleted (ad_download ad) k \<or> k \<in> set ?work \<and> good_in (tm_cfg tm) fetch sha256 ad k}"
  obtain s ws where run: "run_workers (tm_cfg tm) fetch sha256 tick sched (?s, ?ws) = (s, ws)" by force
  have "shared_ok (tm_cfg tm) fetch sha256 (ad_peers ad) (Download_DatasetID (ad_download ad)) A ?s"
    by (auto simp: shared_ok_def A_def IsChunkCompleted_marked)
  then have ok: "shared_ok (tm_cfg tm) fetch sha256 (ad_peers ad) (Download_DatasetID (ad_download ad)) A s"
    using run_workers_safe [OF _ _ run] by simp
  have "IsChunkCompleted (ad_download ad') = IsChunkCompleted (sh_download s)"
      and ev: "set evs \<subseteq> set (sh_events s) \<union> {Completed} \<union> range Failed"
    using assms False run
    by (auto simp: runDownload_def Let_def completeDownload_def split: if_splits)
  then have "IsChunkCompleted (ad_download ad') k \<Longrightarrow> k \<in> A" for k
    using ok by (auto simp: shared_ok_def IsChunkCompleted_marked)
  moreover have "ChunkReceived i c \<in> set evs \<Longrightarrow> verifyChunk sha256 c" for i c
    using ok ev by (fastforce simp: shared_ok_def verified_event_def)
  ultimately show ?thesis by (simp add: A_def)
qed

text \<open>
  C39. Only verified chunks are marked, whatever the number of workers and the interleaving of
  their loads and stores: after a run, a completed chunk was completed before it, or was
  missing and had a good attempt (a peer, and a fetch within the retry limit whose data
  matches its digest); and every chunk handed to the callback was verified.\<close>

theorem workers_mark_only_verified:
  assumes "runDownload fetch sha256 tick now sched cancelled tm ad = Some (tm', ad', evs)"
  shows "(\<forall>k. IsChunkCompleted (ad_download ad') k \<longrightarrow>
            IsChunkCompleted (ad_download ad) k
            \<or> k \<in> set (MissingChunks (ad_download ad))
              \<and> good_chunk (tm_cfg tm) fetch sha256 (ad_peers ad) (Download_DatasetID (ad_download ad)) k)
    \<and> (\<forall>i c. ChunkReceived i c \<in> set evs \<longrightarrow> verifyChunk sha256 c)"
  using assms by (rule workers_safe)

section \<open>Every run can end\<close>

fun worker_rank :: "worker \<Rightarrow> nat" where
  "worker_rank Gone = 0"
| "worker_rank Waiting = 1"
| "worker_rank (Stamping i c) = 2"
| "worker_rank (Failing i e) = 2"
| "worker_rank (Counting i c n pos) = 3"
| "worker_rank (Storing i c v) = 4"
| "worker_rank (Loading i c) = 5"

fun count_left :: "worker \<Rightarrow> nat \<Rightarrow> nat" where
  "count_left (Counting i c n pos) len = len - pos"
| "count_left w len = 0"

abbreviation worker_less :: "((worker \<times> shared) \<times> (worker \<times> shared)) set" where
  "worker_less \<equiv> measures [\<lambda>(w, s). length (sh_work s), \<lambda>(w, s). worker_rank w,
     \<lambda>(w, s). count_left w (sh_len s)]"

lemma chunkWorker_decreases:
  assumes "w \<noteq> Gone" and "chunkWorker cfg fetch sha256 tick dn w s = (w', s')"
  shows "((w', s'), (w, s)) \<in> worker_less"
  using assms
  by (cases w) (auto simp: Let_def split: list.splits if_splits sum.splits option.splits)

lemma run_workers_append:
  "run_workers cfg fetch sha256 tick (xs @ ys) p
     = run_workers cfg fetch sha256 tick ys (run_workers cfg fetch sha256 tick xs p)"
  by (induction cfg fetch sha256 tick xs p rule: run_workers.induct) simp_all

lemma worker_ends:
  assumes "k < length ws"
  shows "\<exists>n s'. run_workers cfg fetch sha256 tick (replicate n (k, dn)) (s, ws) = (s', ws[k := Gone])"
  using assms
proof (induction "(ws ! k, s)" arbitrary: s ws rule: wf_induct_rule [OF wf_measures
      [of "[\<lambda>(w, s). length (sh_work s), \<lambda>(w, s). worker_rank w, \<lambda>(w, s). count_left w (sh_len s)]"]])
  case (1 s ws)
  show ?case
  proof (cases "ws ! k = Gone")
    case True
    then have "run_workers cfg fetch sha256 tick (replicate 0 (k, dn)) (s, ws) = (s, ws[k := Gone])"
      by simp (metis list_update_id)
    then show ?thesis by blast
  next
    case False
    obtain w1 s1 where st: "chunkWorker cfg fetch sha256 tick dn (ws ! k) s = (w1, s1)" by force
    have "((ws[k := w1] ! k, s1), (ws ! k, s)) \<in> worker_less"
      using chunkWorker_decreases [OF False st] 1(2) by simp
    from 1(1) [OF this] 1(2) obtain n s'
      where "run_workers cfg fetch sha256 tick (replicate n (k, dn)) (s1, ws[k := w1]) = (s', ws[k := Gone])"
      by auto
    then have "run_workers cfg fetch sha256 tick (replicate (Suc n) (k, dn)) (s, ws) = (s', ws[k := Gone])"
      using st 1(2) by simp
    then show ?thesis by blast
  qed
qed

lemma all_workers_end:
  assumes "m \<le> length ws"
  shows "\<exists>sched s' ws'. run_workers cfg fetch sha256 tick sched (s, ws) = (s', ws')
    \<and> length ws' = length ws \<and> (\<forall>k < m. ws' ! k = Gone)"
  using assms
proof (induction m)
  case 0
  have "run_workers cfg fetch sha256 tick [] (s, ws) = (s, ws)" by simp
  then show ?case by blast
next
  case (Suc m)
  then obtain sched s1 ws1 where r1: "run_workers cfg fetch sha256 tick sched (s, ws) = (s1, ws1)"
    and l1: "length ws1 = length ws" and g1: "\<forall>k < m. ws1 ! k = Gone" by auto
  then obtain n s2 where r2: "run_workers cfg fetch sha256 tick (replicate n (m, False)) (s1, ws1)
      = (s2, ws1[m := Gone])"
    using worker_ends [of m ws1] Suc.prems by fastforce
  have "run_workers cfg fetch sha256 tick (sched @ replicate n (m, False)) (s, ws) = (s2, ws1[m := Gone])"
    by (simp add: run_workers_append r1 r2)
  moreover have "\<forall>k < Suc m. ws1[m := Gone] ! k = Gone"
    using g1 l1 Suc.prems by (simp add: nth_list_update less_Suc_eq)
  ultimately show ?case using l1 by (metis length_list_update)
qed

text \<open>
  A run never blocks for good: from wherever a schedule has brought the workers, further turns
  bring all of them to their end.\<close>

theorem run_can_end:
  "\<exists>more. runDownload fetch sha256 tick now (sched @ more) cancelled tm ad \<noteq> None"
proof -
  let ?work = "MissingChunks (ad_download ad)"
  let ?ws = "replicate (nat (min (TC_MaxConcurrentChunks (tm_cfg tm)) (int (length ?work)))) Waiting"
  let ?s = "\<lparr>sh_work = ?work, sh_ad = ad, sh_events = []\<rparr> :: shared"
  obtain s1 ws1 where r1: "run_workers (tm_cfg tm) fetch sha256 tick sched (?s, ?ws) = (s1, ws1)" by force
  obtain more s2 ws2 where r2: "run_workers (tm_cfg tm) fetch sha256 tick more (s1, ws1) = (s2, ws2)"
    and "length ws2 = length ws1" "\<forall>k < length ws1. ws2 ! k = Gone"
    using all_workers_end [OF order_refl] by metis
  then have g: "list_all (\<lambda>w. w = Gone) ws2" by (simp add: list_all_length)
  have "run_workers (tm_cfg tm) fetch sha256 tick (sched @ more) (?s, ?ws) = (s2, ws2)"
    by (simp add: run_workers_append r1 r2)
  then have "runDownload fetch sha256 tick now (sched @ more) cancelled tm ad \<noteq> None"
    using g by (auto simp: runDownload_def Let_def)
  then show ?thesis by blast
qed

section \<open>One worker\<close>

text \<open>Marking a chunk as the uninterrupted steps do it, with the clock reading taken after it.\<close>

definition mark_chunk :: "(int \<Rightarrow> instant) \<Rightarrow> Download \<Rightarrow> int \<Rightarrow> Download" where
  "mark_chunk tick d i = (SetChunkCompleted d i)\<lparr>Download_UpdatedAt := tick i\<rparr>"

lemma mark_chunk_frame:
  "Download_TotalChunks (mark_chunk tick d i) = Download_TotalChunks d"
  "Download_DatasetID (mark_chunk tick d i) = Download_DatasetID d"
  "Download_Status (mark_chunk tick d i) = Download_Status d"
  by (simp_all add: mark_chunk_def SetChunkCompleted_frame)

interpretation timed_chunks: chunk_set IsChunkCompleted "mark_chunk tick" MissingChunks for tick
  by unfold_locales
     (auto simp: mark_chunk_def completed_after_set missing_after_set set_MissingChunks)

lemma download_ok_mark:
  assumes "download_ok d" and "i < Download_TotalChunks d"
  shows "download_ok (mark_chunk tick d i)"
  using download_ok_set [OF assms] by (simp add: download_ok_def mark_chunk_def)

lemma marks_frame:
  "Download_TotalChunks (foldl (mark_chunk tick) d is) = Download_TotalChunks d"
  "Download_DatasetID (foldl (mark_chunk tick) d is) = Download_DatasetID d"
  "Download_Status (foldl (mark_chunk tick) d is) = Download_Status d"
  by (induction "is" arbitrary: d) (simp_all add: mark_chunk_frame)

lemma download_ok_marks:
  "download_ok d \<Longrightarrow> \<forall>i \<in> set is. i < Download_TotalChunks d \<Longrightarrow> download_ok (foldl (mark_chunk tick) d is)"
  by (induction "is" arbitrary: d) (simp_all add: download_ok_mark mark_chunk_frame)

text \<open>
  Where the worker is in its work: \<open>d\<close> is the download after the chunks it is done with, \<open>sd\<close>
  the shared one. Inside \<open>SetChunkCompleted\<close> the bitmap runs ahead of the counter.
\<close>

definition stored_byte :: "Download \<Rightarrow> int \<Rightarrow> byte" where
  "stored_byte d i = expand_bitmap (nat (i div 8)) (Download_ChunkBitmap d) ! nat (i div 8)
     OR push_bit (nat (i mod 8)) 1"

definition stored_bitmap :: "Download \<Rightarrow> int \<Rightarrow> bytes" where
  "stored_bitmap d i =
     (expand_bitmap (nat (i div 8)) (Download_ChunkBitmap d))[nat (i div 8) := stored_byte d i]"

fun worker_at :: "Download \<Rightarrow> Download \<Rightarrow> worker \<Rightarrow> bool" where
  "worker_at d sd (Storing i c v) \<longleftrightarrow> v = stored_byte d i
     \<and> sd = d\<lparr>Download_ChunkBitmap := expand_bitmap (nat (i div 8)) (Download_ChunkBitmap d)\<rparr>"
| "worker_at d sd (Counting i c n pos) \<longleftrightarrow> sd = d\<lparr>Download_ChunkBitmap := stored_bitmap d i\<rparr>
     \<and> pos \<le> length (stored_bitmap d i)
     \<and> n = sum_list (map (count_bits 8) (take pos (stored_bitmap d i)))"
| "worker_at d sd (Stamping i c) \<longleftrightarrow> sd = SetChunkCompleted d i"
| "worker_at d sd w \<longleftrightarrow> sd = d"

fun worker_chunk :: "worker \<Rightarrow> int list" where
  "worker_chunk (Loading i c) = [i]"
| "worker_chunk (Storing i c v) = [i]"
| "worker_chunk (Counting i c n pos) = [i]"
| "worker_chunk (Stamping i c) = [i]"
| "worker_chunk w = []"

text \<open>
  \<open>xs\<close> are the chunks the worker is done with. A chunk in work is a good one, unless it failed;
  a worker that is gone has dropped nothing when the context was never done.
\<close>

definition progress ::
    "(int \<Rightarrow> instant) \<Rightarrow> (int \<Rightarrow> bool) \<Rightarrow> Download \<Rightarrow> int list \<Rightarrow> bool \<Rightarrow> worker \<Rightarrow> shared \<Rightarrow> bool" where
  "progress tick good d0 work0 cancelled w s \<longleftrightarrow> (\<exists>xs.
     worker_at (foldl (mark_chunk tick) d0 (filter good xs)) (sh_download s) w
     \<and> (\<forall>i \<in> set (worker_chunk w). good i)
     \<and> (if w = Gone then xs = take (length xs) work0 \<and> (\<not> cancelled \<longrightarrow> xs = work0)
        else work0 = xs @ worker_chunk w @ sh_work s))"

lemma progressI:
  assumes "worker_at (foldl (mark_chunk tick) d0 (filter good xs)) (sh_download s) w"
    and "\<forall>i \<in> set (worker_chunk w). good i" and "w \<noteq> Gone"
    and "work0 = xs @ worker_chunk w @ sh_work s"
  shows "progress tick good d0 work0 cancelled w s"
  unfolding progress_def by (rule exI [of _ xs]) (use assms in simp)

lemma progress_start:
  "progress tick good d0 work0 cancelled Waiting \<lparr>sh_work = work0, sh_ad = ad, sh_events = evs\<rparr>"
  if "ad_download ad = d0"
  using that by (intro progressI [where xs = "[]"]) simp_all

lemma SetChunkCompleted_stored:
  "0 \<le> i \<Longrightarrow> SetChunkCompleted d i =
     (let n = int (sum_list (map (count_bits 8) (stored_bitmap d i))); t = Download_TotalChunks d
      in d\<lparr>Download_ChunkBitmap := stored_bitmap d i, Download_CompletedChunks := if n > t then t else n\<rparr>)"
  by (simp add: SetChunkCompleted_def stored_bitmap_def stored_byte_def countCompletedChunks_def
      foldl_count Let_def)

lemma progress_step:
  assumes "progress tick good d0 work0 cancelled w s"
    and "\<forall>i \<in> set work0. 0 \<le> i"
    and "good = good_chunk cfg fetch sha256 (ad_peers (sh_ad s)) (Download_DatasetID (sh_download s))"
    and "dn \<longrightarrow> cancelled"
    and "chunkWorker cfg fetch sha256 tick dn w s = (w', s')"
  shows "progress tick good d0 work0 cancelled w' s'"
proof -
  let ?D = "\<lambda>xs. foldl (mark_chunk tick) d0 (filter good xs)"
  obtain xs where at: "worker_at (?D xs) (sh_download s) w"
    and good: "\<forall>i \<in> set (worker_chunk w). good i"
    and split: "if w = Gone then xs = take (length xs) work0 \<and> (\<not> cancelled \<longrightarrow> xs = work0)
        else work0 = xs @ worker_chunk w @ sh_work s"
    using assms(1) by (auto simp: progress_def)
  show ?thesis
  proof (cases w)
    case Waiting
    then have sd: "sh_download s = ?D xs" and w0: "work0 = xs @ sh_work s" using at split by auto
    show ?thesis
    proof (cases "sh_work s")
      case Nil
      then have "w' = Gone" "s' = s" using assms(5) Waiting by auto
      then show ?thesis using sd w0 Nil by (auto simp: progress_def intro!: exI [of _ xs])
    next
      case (Cons i work)
      have spec: "case downloadChunk cfg fetch sha256 (ad_peers (sh_ad s)) (Download_DatasetID (sh_download s)) i of
          Inr c \<Rightarrow> verifyChunk sha256 c \<and> good i | Inl e \<Rightarrow> \<not> good i"
        unfolding assms(3) by (rule downloadChunk_spec)
      have s': "sh_download s' = ?D xs" "sh_work s' = work"
        using assms(5) Waiting Cons sd
        by (auto simp: Let_def split: if_splits sum.splits option.splits)
      consider "w' = Gone" "cancelled" | "w' = Waiting" "\<not> good i" | e where "w' = Failing i e" "\<not> good i"
        | c where "w' = Loading i c" "good i"
        using assms(4,5) Waiting Cons spec
        by (auto simp: Let_def split: if_splits sum.splits option.splits)
      then show ?thesis
      proof cases
        case 1
        then show ?thesis using s' w0 by (auto simp: progress_def intro!: exI [of _ xs])
      next
        case 2
        then show ?thesis using s' w0 Cons by (auto simp: progress_def intro!: exI [of _ "xs @ [i]"])
      next
        case 3
        then show ?thesis using s' w0 Cons by (auto simp: progress_def intro!: exI [of _ "xs @ [i]"])
      next
        case 4
        then show ?thesis using s' w0 Cons by (auto simp: progress_def intro!: exI [of _ xs])
      qed
    qed
  next
    case (Loading i c)
    then have i: "0 \<le> i" and sd: "sh_download s = ?D xs" using split assms(2) at by auto
    have "w' = Storing i c (stored_byte (?D xs) i)" "sh_work s' = sh_work s"
        "sh_download s' = (?D xs)\<lparr>Download_ChunkBitmap :=
           expand_bitmap (nat (i div 8)) (Download_ChunkBitmap (?D xs))\<rparr>"
      using assms(5) Loading i by (auto simp: stored_byte_def Let_def sd)
    then show ?thesis using good split Loading by (intro progressI [where xs = xs]) auto
  next
    case (Storing i c v)
    have "w' = Counting i c 0 0" "sh_work s' = sh_work s"
        "sh_download s' = (?D xs)\<lparr>Download_ChunkBitmap := stored_bitmap (?D xs) i\<rparr>"
      using assms(5) Storing at by (auto simp: stored_bitmap_def)
    then show ?thesis using good split Storing by (intro progressI [where xs = xs]) auto
  next
    case (Counting i c n pos)
    then have i: "0 \<le> i" using split assms(2) by auto
    let ?bm = "stored_bitmap (?D xs) i"
    have sd: "sh_download s = (?D xs)\<lparr>Download_ChunkBitmap := ?bm\<rparr>" "pos \<le> length ?bm"
      "n = sum_list (map (count_bits 8) (take pos ?bm))" using at Counting by auto
    show ?thesis
    proof (cases "pos < length ?bm")
      case True
      then have w': "w' = Counting i c (n + count_bits 8 (?bm ! pos)) (Suc pos)" "s' = s"
        using assms(5) Counting by (simp_all add: Let_def sd(1))
      have "worker_at (?D xs) (sh_download s') w'"
        using True sd(3) by (simp add: w' sd(1) take_Suc_conv_app_nth)
      then show ?thesis using good split Counting w' by (intro progressI [where xs = xs]) simp_all
    next
      case False
      then have "w' = Stamping i c" "sh_work s' = sh_work s"
          "sh_download s' = SetChunkCompleted (?D xs) i"
        using assms(5) Counting sd(2,3) by (auto simp: Let_def sd(1) SetChunkCompleted_stored [OF i])
      then show ?thesis using good split Counting by (intro progressI [where xs = xs]) auto
    qed
  next
    case (Stamping i c)
    have "w' = Waiting" "sh_work s' = sh_work s" "sh_download s' = mark_chunk tick (?D xs) i"
      using assms(5) Stamping at by (auto simp: mark_chunk_def)
    then show ?thesis using good split Stamping by (intro progressI [where xs = "xs @ [i]"]) auto
  next
    case (Failing i e)
    have "w' = Waiting" "sh_work s' = sh_work s" "sh_download s' = ?D xs"
      using assms(5) Failing at by auto
    then show ?thesis using split Failing by (intro progressI [where xs = xs]) auto
  next
    case Gone
    then show ?thesis using assms(1,5) by auto
  qed
qed

lemma chunkWorker_frame:
  assumes "chunkWorker cfg fetch sha256 tick dn w s = (w', s')"
  shows "ad_peers (sh_ad s') = ad_peers (sh_ad s)
    \<and> Download_DatasetID (sh_download s') = Download_DatasetID (sh_download s)"
  using assms by (cases w) (auto simp: Let_def split: list.splits if_splits sum.splits option.splits)

lemma progress_run:
  assumes "progress tick good d0 work0 cancelled w s" and "\<forall>i \<in> set work0. 0 \<le> i"
    and "good = good_chunk cfg fetch sha256 (ad_peers (sh_ad s)) (Download_DatasetID (sh_download s))"
    and "\<forall>(k, dn) \<in> set sched. dn \<longrightarrow> cancelled"
    and "run_workers cfg fetch sha256 tick sched (s, [w]) = (s', ws')"
  shows "\<exists>w'. ws' = [w'] \<and> progress tick good d0 work0 cancelled w' s'"
  using assms
proof (induction sched arbitrary: s w)
  case Nil
  then show ?case by auto
next
  case (Cons turn sched)
  obtain k dn where turn: "turn = (k, dn)" by (cases turn)
  obtain w1 s1 where st: "chunkWorker cfg fetch sha256 tick dn w s = (w1, s1)" by force
  have p: "progress tick good d0 work0 cancelled w1 s1"
    using progress_step [OF Cons.prems(1-3) _ st] Cons.prems(4) turn by auto
  show ?case
  proof (cases "k = 0")
    case True
    show ?thesis
      using Cons.IH [OF p Cons.prems(2)] Cons.prems(3-5) chunkWorker_frame [OF st] turn st True by simp
  next
    case False
    then show ?thesis using Cons.IH [OF Cons.prems(1-3)] Cons.prems(4,5) turn by simp
  qed
qed

text \<open>The state of a download after a run with one worker.\<close>

lemma run_download_state:
  assumes "MissingChunks (ad_download ad) \<noteq> []" and "TC_MaxConcurrentChunks (tm_cfg tm) = 1"
    and "\<forall>(k, dn) \<in> set sched. dn \<longrightarrow> cancelled"
    and "runDownload fetch sha256 tick now sched cancelled tm ad = Some (tm', ad', evs)"
  shows "\<exists>taken d1. (\<exists>n. taken = take n (MissingChunks (ad_download ad)))
      \<and> (\<not> cancelled \<longrightarrow> taken = MissingChunks (ad_download ad))
      \<and> IsChunkCompleted (ad_download ad') = IsChunkCompleted d1
      \<and> d1 = foldl (mark_chunk tick) (ad_download ad) (filter (good_in (tm_cfg tm) fetch sha256 ad) taken)
      \<and> Download_Status (ad_download ad') =
          (if Download_IsComplete d1 then DownloadStatusCompleted
           else if \<not> cancelled then DownloadStatusFailed else Download_Status (ad_download ad))
      \<and> tm' = tm\<lparr>tm_downloads := AList.delete (Download_ID (ad_download ad)) (tm_downloads tm)\<rparr>"
proof -
  let ?work = "MissingChunks (ad_download ad)"
  let ?good = "good_in (tm_cfg tm) fetch sha256 ad"
  let ?s = "\<lparr>sh_work = ?work, sh_ad = ad, sh_events = []\<rparr> :: shared"
  obtain s ws where run: "run_workers (tm_cfg tm) fetch sha256 tick sched (?s, [Waiting]) = (s, ws)" by force
  have "nat (min (TC_MaxConcurrentChunks (tm_cfg tm)) (int (length ?work))) = 1"
    using assms(1,2) by (cases ?work) auto
  then have res: "list_all (\<lambda>w. w = Gone) ws"
      "IsChunkCompleted (ad_download ad') = IsChunkCompleted (sh_download s)
      \<and> Download_Status (ad_download ad') =
          (if Download_IsComplete (sh_download s) then DownloadStatusCompleted
           else if \<not> cancelled then DownloadStatusFailed else Download_Status (sh_download s))
      \<and> tm' = tm\<lparr>tm_downloads := AList.delete (Download_ID (ad_download ad)) (tm_downloads tm)\<rparr>"
    using assms(1,4) run
    by (auto simp: runDownload_def Let_def completeDownload_def split: if_splits)
  have nn: "\<forall>i \<in> set ?work. 0 \<le> i" by (simp add: set_MissingChunks)
  have "\<exists>w'. ws = [w'] \<and> progress tick ?good (ad_download ad) ?work cancelled w' s"
    by (rule progress_run [OF progress_start nn _ assms(3) run]) simp_all
  then have "progress tick ?good (ad_download ad) ?work cancelled Gone s" using res(1) by auto
  then obtain xs where xs: "sh_download s = foldl (mark_chunk tick) (ad_download ad) (filter ?good xs)"
    "xs = take (length xs) ?work" "\<not> cancelled \<longrightarrow> xs = ?work"
    by (auto simp: progress_def)
  show ?thesis
    by (rule exI [of _ xs], rule exI [of _ "sh_download s"]) (use xs res(2) in \<open>auto simp: marks_frame\<close>)
qed

lemma run_download_outcome:
  assumes "download_ok (ad_download ad)" and "MissingChunks (ad_download ad) \<noteq> []"
    and "TC_MaxConcurrentChunks (tm_cfg tm) = 1" and "\<forall>(k, dn) \<in> set sched. dn \<longrightarrow> cancelled"
    and "runDownload fetch sha256 tick now sched cancelled tm ad = Some (tm', ad', evs)"
  shows "\<exists>taken. (\<exists>n. taken = take n (MissingChunks (ad_download ad)))
    \<and> (\<not> cancelled \<longrightarrow> taken = MissingChunks (ad_download ad))
    \<and> (\<forall>k. IsChunkCompleted (ad_download ad') k \<longleftrightarrow>
            IsChunkCompleted (ad_download ad) k
            \<or> k \<in> set taken \<and> good_in (tm_cfg tm) fetch sha256 ad k)
    \<and> Download_Status (ad_download ad') =
        (if \<forall>k \<in> set (MissingChunks (ad_download ad)). k \<in> set taken \<and> good_in (tm_cfg tm) fetch sha256 ad k
         then DownloadStatusCompleted
         else if \<not> cancelled then DownloadStatusFailed else Download_Status (ad_download ad))
    \<and> tm' = tm\<lparr>tm_downloads := AList.delete (Download_ID (ad_download ad)) (tm_downloads tm)\<rparr>"
proof -
  let ?d = "ad_download ad"
  let ?good = "good_in (tm_cfg tm) fetch sha256 ad"
  obtain taken d1 where t: "\<exists>n. taken = take n (MissingChunks ?d)"
      "\<not> cancelled \<longrightarrow> taken = MissingChunks ?d"
    and d1: "d1 = foldl (mark_chunk tick) ?d (filter ?good taken)"
    and st: "IsChunkCompleted (ad_download ad') = IsChunkCompleted d1"
      "Download_Status (ad_download ad') = (if Download_IsComplete d1 then DownloadStatusCompleted
           else if \<not> cancelled then DownloadStatusFailed else Download_Status ?d)"
      "tm' = tm\<lparr>tm_downloads := AList.delete (Download_ID ?d) (tm_downloads tm)\<rparr>"
    using run_download_state [OF assms(2-5)] by blast
  have "set taken \<subseteq> set (MissingChunks ?d)" using t(1) by (auto dest: in_set_takeD)
  then have nn: "\<forall>i \<in> set (filter ?good taken). 0 \<le> i"
    and rng: "\<forall>i \<in> set (filter ?good taken). i < Download_TotalChunks ?d"
    by (auto simp: set_MissingChunks)
  have ok: "download_ok d1" using download_ok_marks [OF assms(1) rng] d1 by simp
  have tot: "0 < Download_TotalChunks d1"
    using assms(2) set_MissingChunks [of ?d] by (cases "0 < Download_TotalChunks ?d")
      (auto simp: d1 marks_frame MissingChunks_eq)
  have "MissingChunks d1 = filter (\<lambda>k. k \<notin> set (filter ?good taken)) (MissingChunks ?d)"
    unfolding d1 by (rule timed_chunks.missing_marks [OF nn])
  then have all_good: "Download_IsComplete d1 \<longleftrightarrow> (\<forall>k \<in> set (MissingChunks ?d). k \<in> set taken \<and> ?good k)"
    using complete_iff_none_missing [OF ok tot] by (auto simp: filter_empty_conv)
  have compl: "IsChunkCompleted d1 k \<longleftrightarrow> k \<in> set (filter ?good taken) \<or> IsChunkCompleted ?d k" for k
    unfolding d1 by (rule timed_chunks.completed_marks [OF nn])
  show ?thesis
    by (rule exI [of _ taken]) (use t st compl all_good in auto)
qed

text \<open>
  C4. The outcome of a run with one worker (\<open>MaxConcurrentChunks\<close> is 1). On a download whose
  counter agrees with its bitmap and that has missing chunks, where a turn finds the context
  done only in a cancelled run: the chunks completed at the end are those completed before
  and those the worker took that had a good attempt (a peer, and a fetch within the retry
  limit whose data matches its digest), where it takes all missing chunks unless the run is
  cancelled, and then a first part of them; the status is completed exactly when every
  missing chunk was taken with a good attempt, else failed unless the run was cancelled; and
  the download is no longer in the manager's map, while the entries of the other downloads
  are unchanged. With several workers this fails: see \<open>unlocked_marks_can_be_lost\<close>.\<close>

theorem transfer_outcome:
  assumes "download_ok (ad_download ad)" and "MissingChunks (ad_download ad) \<noteq> []"
    and "TC_MaxConcurrentChunks (tm_cfg tm) = 1" and "\<forall>(k, dn) \<in> set sched. dn \<longrightarrow> cancelled"
    and "good = good_chunk (tm_cfg tm) fetch sha256 (ad_peers ad) (Download_DatasetID (ad_download ad))"
    and "runDownload fetch sha256 tick now sched cancelled tm ad = Some (tm', ad', evs)"
  shows "(\<exists>taken. (\<exists>n. taken = take n (MissingChunks (ad_download ad)))
      \<and> (\<not> cancelled \<longrightarrow> taken = MissingChunks (ad_download ad))
      \<and> (\<forall>k. IsChunkCompleted (ad_download ad') k \<longleftrightarrow>
              IsChunkCompleted (ad_download ad) k \<or> k \<in> set taken \<and> good k)
      \<and> Download_Status (ad_download ad') =
          (if \<forall>k \<in> set (MissingChunks (ad_download ad)). k \<in> set taken \<and> good k
           then DownloadStatusCompleted
           else if \<not> cancelled then DownloadStatusFailed else Download_Status (ad_download ad)))
    \<and> GetDownload tm' (Download_ID (ad_download ad)) = None
    \<and> (\<forall>i. i \<noteq> Download_ID (ad_download ad) \<longrightarrow>
          map_of (tm_downloads tm') i = map_of (tm_downloads tm) i)"
proof -
  note out = run_download_outcome [OF assms(1-4,6), folded assms(5)]
  then have tm': "tm' = tm\<lparr>tm_downloads := AList.delete (Download_ID (ad_download ad)) (tm_downloads tm)\<rparr>"
    by blast
  have "GetDownload tm' (Download_ID (ad_download ad)) = None
    \<and> (\<forall>i. i \<noteq> Download_ID (ad_download ad) \<longrightarrow>
          map_of (tm_downloads tm') i = map_of (tm_downloads tm) i)"
    by (simp add: tm' GetDownload_def AList.delete_conv')
  then show ?thesis using out by blast
qed

text \<open>
  A resumed download that misses nothing is completed, but \<open>runDownload\<close> returns before the
  statement that deletes its entry: the manager keeps it, and \<open>GetDownload\<close> still finds it.\<close>

theorem finished_download_stays_listed:
  assumes "MissingChunks d = []"
    and "map_of (tm_downloads tm) (Download_ID d) = None"
    and "ResumeDownload now1 tm d peers = (tm1, d1)"
    and "map_of (tm_downloads tm1) (Download_ID d) = Some ad"
    and "runDownload fetch sha256 tick now2 sched cancelled tm1 ad = Some (tm2, ad2, evs)"
  shows "GetDownload tm2 (Download_ID d) = Some (ad_download ad2)
    \<and> Download_Status (ad_download ad2) = DownloadStatusCompleted"
proof -
  have e: "map_of (AList.map_entry k f xs) k = map_option f (map_of xs k)" for k f
    and xs :: "(string \<times> activeDownload) list"
    by (induction xs) auto
  have "ad_download ad = d\<lparr>Download_Status := DownloadStatusActive, Download_UpdatedAt := now1,
      Download_Error := ''''\<rparr>"
    using assms(2-4) by (auto simp: ResumeDownload_def Let_def AList.update_conv')
  then show ?thesis using assms(1,4,5)
    by (auto simp: runDownload_def GetDownload_def completeDownload_def e)
qed

text \<open>A peer that serves one-byte chunks, and a digest that maps data to itself.\<close>

definition sample_chunk :: "int \<Rightarrow> Chunk" where
  "sample_chunk i = \<lparr>Chunk_ID = '''', Chunk_DatasetID = ''ds'', Chunk_VersionID = '''',
     Chunk_Index = i, Chunk_Hash = ''2a'', Chunk_Size = 1, Chunk_Status = '''',
     Chunk_StoragePath = '''', Chunk_Data = [42]\<rparr>"

abbreviation sample_peer :: fetcher where
  "sample_peer \<equiv> \<lambda>p ds i k. Inr (Some (sample_chunk i))"

definition sample_active :: activeDownload where
  "sample_active = \<lparr>ad_download = sample_download 2 [0] 0, ad_peers = [''p1'', ''p2''],
     ad_cancelled = False, ad_chunkErrors = []\<rparr>"

text \<open>A manager with two downloads in its map and the given number of workers.\<close>

definition sample_manager :: "int \<Rightarrow> TransferManager" where
  "sample_manager n = \<lparr>tm_cfg = DefaultTransferConfig\<lparr>TC_MaxConcurrentChunks := n\<rparr>,
     tm_downloads = [(Download_ID (ad_download sample_active), sample_active),
                     (''other'', sample_active)]\<rparr>"

lemma sample_active_ok: "download_ok (ad_download sample_active)"
proof -
  have "marked [0] = {}" by (auto simp: marked_def)
  then show ?thesis
    by (auto simp: download_ok_def sample_active_def sample_download_def countCompletedChunks_card)
qed

lemma sample_active_missing: "MissingChunks (ad_download sample_active) = [0, 1]"
  by (simp add: MissingChunks_eq IsChunkCompleted_def sample_active_def sample_download_def upt_rec)

lemma hex_42: "hex_EncodeToString [42] = ''2a''"
  by code_simp

lemma sample_verified: "verifyChunk (\<lambda>x. x) (Some (sample_chunk i))"
  by (simp add: verifyChunk_def sample_chunk_def hex_42)

lemma sample_good: "good_chunk (tm_cfg (sample_manager n)) sample_peer (\<lambda>x. x) [''p1''] ds i"
  by (auto simp: good_chunk_def selectPeer_def sample_manager_def DefaultTransferConfig_def
      sample_verified intro!: exI [of _ "0::nat"])

lemma sample_selects: "selectPeer (tm_cfg (sample_manager n)) (ad_peers sample_active) i \<noteq> ''''"
proof -
  have "i mod 2 = 0 \<or> i mod 2 = 1" by presburger
  then show ?thesis
    by (auto simp: selectPeer_def sample_active_def sample_manager_def DefaultTransferConfig_def)
qed

lemma sample_downloads:
  "downloadChunk (tm_cfg (sample_manager n)) sample_peer (\<lambda>x. x) (ad_peers sample_active) ds i
     = Inr (Some (sample_chunk i))"
proof -
  have "nat (TC_MaxRetries (tm_cfg (sample_manager n))) = 3"
    by (simp add: sample_manager_def DefaultTransferConfig_def)
  then show ?thesis
    by (simp add: downloadChunk_def sample_selects sample_verified Let_def numeral_3_eq_3)
qed

lemma sample_good_active:
  "good_chunk (tm_cfg (sample_manager n)) sample_peer (\<lambda>x. x) (ad_peers sample_active) ds i"
  using downloadChunk_spec [of "tm_cfg (sample_manager n)" sample_peer "\<lambda>x. x" "ad_peers sample_active" ds i]
  by (simp add: sample_downloads)

text \<open>The turns of one worker for two chunks, and the end.\<close>

abbreviation one_by_one :: schedule where
  "one_by_one \<equiv> replicate 13 (0, False)"

lemmas pool_eval = Let_def expand_bitmap_eq sample_downloads sample_active_missing

lemma sample_peers: "ad_peers sample_active = [''p1'', ''p2'']"
  by (simp add: sample_active_def)

lemma sample_bitmap: "Download_ChunkBitmap (ad_download sample_active) = [0]"
    "Download_TotalChunks (ad_download sample_active) = 2"
  by (simp_all add: sample_active_def sample_download_def)

lemma one_by_one_ends:
  "runDownload sample_peer (\<lambda>x. x) (\<lambda>i. 5) 6 one_by_one False (sample_manager 1) sample_active \<noteq> None"
proof -
  have "TC_MaxConcurrentChunks (tm_cfg (sample_manager 1)) = 1" by (simp add: sample_manager_def)
  then show ?thesis
    by (simp add: runDownload_def pool_eval sample_bitmap eval_nat_numeral)
qed

theorem transfer_outcome_witness:
  "\<exists>tm' ad' evs. runDownload sample_peer (\<lambda>x. x) (\<lambda>i. 5) 6 one_by_one False (sample_manager 1) sample_active
       = Some (tm', ad', evs)
     \<and> Download_Status (ad_download ad') = ''completed''
     \<and> GetDownload tm' (Download_ID (ad_download sample_active)) = None"
proof -
  obtain tm' ad' evs where run: "runDownload sample_peer (\<lambda>x. x) (\<lambda>i. 5) 6 one_by_one
      False (sample_manager 1) sample_active = Some (tm', ad', evs)" using one_by_one_ends by auto
  have ne: "MissingChunks (ad_download sample_active) \<noteq> []" by (simp add: sample_active_missing)
  have one: "TC_MaxConcurrentChunks (tm_cfg (sample_manager 1)) = 1" by (simp add: sample_manager_def)
  have nd: "\<forall>(k, dn) \<in> set one_by_one. dn \<longrightarrow> False" by simp
  have "Download_Status (ad_download ad') = ''completed''
     \<and> GetDownload tm' (Download_ID (ad_download sample_active)) = None"
    using transfer_outcome [OF sample_active_ok ne one nd refl run] by (auto simp: sample_good_active)
  then show ?thesis using run by blast
qed

text \<open>
  Two workers that take a chunk each and store their bytes after both have loaded; then each of
  them counts, reports its chunk and ends.\<close>

abbreviation overlapping :: schedule where
  "overlapping \<equiv> [(0, False), (1, False), (0, False), (1, False), (0, False), (1, False)]
     @ replicate 4 (0, False) @ replicate 4 (1, False)"

definition lost_download :: Download where
  "lost_download = (ad_download sample_active)\<lparr>Download_ChunkBitmap := [2],
     Download_CompletedChunks := 1, Download_Status := DownloadStatusFailed,
     Download_UpdatedAt := 6, Download_Error := []\<rparr>"

lemma overlapping_run:
  "runDownload sample_peer (\<lambda>x. x) (\<lambda>i. 5) 6 overlapping False (sample_manager 2) sample_active
   = Some ((sample_manager 2)\<lparr>tm_downloads := [(''other'', sample_active)]\<rparr>,
       sample_active\<lparr>ad_download := lost_download\<rparr>,
       [ChunkReceived 0 (Some (sample_chunk 0)), ChunkReceived 1 (Some (sample_chunk 1)), Failed []])"
proof -
  have "TC_MaxConcurrentChunks (tm_cfg (sample_manager 2)) = 2" by (simp add: sample_manager_def)
  then show ?thesis
    by (simp add: runDownload_def pool_eval sample_bitmap eval_nat_numeral)
       (simp add: sample_active_def sample_manager_def sample_download_def Download_IsComplete_def
          lost_download_def)
qed

theorem workers_mark_only_verified_witness:
  "\<not> IsChunkCompleted lost_download 7 \<and> verifyChunk (\<lambda>x. x) (Some (sample_chunk 1))"
proof -
  have "\<not> IsChunkCompleted (ad_download sample_active) 7"
    by (simp add: IsChunkCompleted_def sample_bitmap)
  then show ?thesis
    using workers_mark_only_verified [OF overlapping_run] by (auto simp: sample_active_missing)
qed

text \<open>
  Marking is not atomic. In the run above both workers verified and reported their chunk, yet
  chunk 0 is not marked at the end, because the second store overwrote the first; the download
  is reported as failed, with an empty error text. One worker with the same peer completes it.\<close>

theorem unlocked_marks_can_be_lost:
  "\<exists>tm' ad'. runDownload sample_peer (\<lambda>x. x) (\<lambda>i. 5) 6 overlapping False (sample_manager 2) sample_active
      = Some (tm', ad', [ChunkReceived 0 (Some (sample_chunk 0)),
                         ChunkReceived 1 (Some (sample_chunk 1)), Failed []])
    \<and> Download_Status (ad_download ad') = DownloadStatusFailed
    \<and> \<not> IsChunkCompleted (ad_download ad') 0 \<and> IsChunkCompleted (ad_download ad') 1"
proof -
  have "Download_Status lost_download = DownloadStatusFailed"
    "\<not> IsChunkCompleted lost_download 0" "IsChunkCompleted lost_download 1"
    by (simp_all add: lost_download_def IsChunkCompleted_def)
  then show ?thesis using overlapping_run by (intro exI conjI) auto
qed

section \<open>Chunks decoded from JSON\<close>

lemma json_never_verifies: "verifyChunk sha256 (Some (chunk_json c)) = False"
  by (simp add: verifyChunk_def chunk_json_def)

lemma json_no_good_chunk: "\<not> good_chunk cfg (ProtocolClient_GetChunk send) sha256 peers ds i"
  by (auto simp: good_chunk_def ProtocolClient_GetChunk_def json_never_verifies split: sum.splits)

text \<open>
  With the JSON protocol client no chunk is ever marked: because the data of a chunk is not
  part of its JSON encoding, every fetched chunk fails verification. With one worker a run over
  a consistent download with missing chunks ends as failed unless it is cancelled, whatever the
  peers answer and however often it retries.\<close>

theorem json_transfer_never_completes:
  assumes "runDownload (ProtocolClient_GetChunk send) sha256 tick now sched cancelled tm ad
         = Some (tm', ad', evs)"
  shows "(\<forall>k. IsChunkCompleted (ad_download ad') k \<longrightarrow> IsChunkCompleted (ad_download ad) k)
    \<and> (download_ok (ad_download ad) \<and> MissingChunks (ad_download ad) \<noteq> []
        \<and> TC_MaxConcurrentChunks (tm_cfg tm) = 1 \<and> \<not> cancelled \<and> (\<forall>(k, dn) \<in> set sched. \<not> dn)
       \<longrightarrow> Download_Status (ad_download ad') = DownloadStatusFailed)"
proof -
  have "Download_Status (ad_download ad') = DownloadStatusFailed"
    if "download_ok (ad_download ad)" and ne: "MissingChunks (ad_download ad) \<noteq> []"
      and "TC_MaxConcurrentChunks (tm_cfg tm) = 1" "\<not> cancelled" "\<forall>(k, dn) \<in> set sched. \<not> dn"
  proof -
    obtain m where "m \<in> set (MissingChunks (ad_download ad))" using ne by (meson last_in_set)
    then show ?thesis
      using run_download_outcome [OF that(1-3) _ assms] that(4,5) json_no_good_chunk by auto
  qed
  then show ?thesis
    using workers_safe [OF assms] by (simp add: json_no_good_chunk)
qed

end
