(* ===== verification/Shamir.thy ===== *)
theory Shamir
  imports Bib_Prelude
begin

unbundle bit_operations_syntax

text \<open>
  Secret sharing of the storage master key
  (\<open>internal/storage/postgres/encryption/shamir.go\<close>, \<open>keys.go\<close>): the arithmetic of the
  byte field, the table-driven product, polynomial evaluation, splitting and recovery. The
  random source is an argument. Share export and import (JSON, base64, secretbox) are not
  modelled.

  Shown: the bitwise product is the field product (commutative, distributive, linear); the
  table product agrees with it on the 51 powers of two and on zero, and is wrong as an
  operation on all bytes, because two does not generate the multiplicative group; splitting
  produces the announced shares; recovery rejects what it should; and splitting followed by
  recovery does not give back the key.
\<close>

section \<open>Definitions\<close>

record ShamirConfig =
  SC_TotalShares :: int
  SC_Threshold :: int
  SC_ShareholderIDs :: "string list"

record Share =
  Share_ID :: string
  Share_Index :: int
  Share_Data :: bytes
  Share_Created :: instant
  Share_Threshold :: int
  Share_TotalShares :: int

datatype shamir_error =
    TotalBelowThreshold int int
  | ThresholdTooSmall
  | CoefficientFailed
  | InsufficientShares int int
  | InvalidShare
  | Panic

text \<open>One round of the loop of \<open>gfMulNoTable\<close>: doubling in the field.\<close>

definition xtime :: "byte \<Rightarrow> byte" where
  "xtime a = (let high = a AND 0x80; a' = push_bit 1 a in if high \<noteq> 0 then a' XOR 0x1b else a')"

function gfMul_loop :: "byte \<Rightarrow> byte \<Rightarrow> byte \<Rightarrow> byte" where
  "gfMul_loop a b result =
     (if b > 0
      then gfMul_loop (xtime a) (drop_bit 1 b) (if b AND 1 \<noteq> 0 then result XOR a else result)
      else result)"
  by pat_completeness auto
termination
proof (relation "measure (\<lambda>(a, b, r). unat b)", goal_cases)
  case 1
  show ?case by simp
next
  case (2 a b r)
  then have "0 < unat b" by (simp add: word_less_nat_alt)
  then show ?case by (simp add: unat_div drop_bit_Suc)
qed

declare gfMul_loop.simps [simp del]

definition gfMulNoTable :: "byte \<Rightarrow> byte \<Rightarrow> byte" where
  "gfMulNoTable a b = gfMul_loop a b 0"

text \<open>
  The tables, as \<open>init\<close> fills them: zero-initialised arrays, a loop over 255 indices that
  writes both tables and doubles \<open>x\<close>, and a second loop that repeats the first 255 entries.
\<close>

record gf_tables =
  tab_exp :: "nat \<Rightarrow> byte"
  tab_log :: "byte \<Rightarrow> byte"
  tab_x :: byte

fun init_first :: "nat \<Rightarrow> gf_tables" where
  "init_first 0 = \<lparr>tab_exp = (\<lambda>_. 0), tab_log = (\<lambda>_. 0), tab_x = 1\<rparr>"
| "init_first (Suc i) =
     (let t = init_first i; x = tab_x t
      in \<lparr>tab_exp = (tab_exp t)(i := x), tab_log = (tab_log t)(x := of_nat i),
          tab_x = gfMulNoTable x 2\<rparr>)"

fun init_second :: "nat \<Rightarrow> (nat \<Rightarrow> byte) \<Rightarrow> (nat \<Rightarrow> byte)" where
  "init_second 0 e = e"
| "init_second (Suc n) e =
     (let e' = init_second n e; i = 255 + n in e'(i := e' (i - 255)))"

definition gfExp :: "nat \<Rightarrow> byte" where
  "gfExp = init_second 257 (tab_exp (init_first 255))"

definition gfLog :: "byte \<Rightarrow> byte" where
  "gfLog = tab_log (init_first 255)"

definition gfMul :: "byte \<Rightarrow> byte \<Rightarrow> byte" where
  "gfMul a b = (if a = 0 \<or> b = 0 then 0 else gfExp (unat (gfLog a) + unat (gfLog b)))"

text \<open>The loops \<open>for x < 0 { x += 256 }\<close> of \<open>gfDiv\<close>.\<close>

function add256 :: "int \<Rightarrow> int" where
  "add256 x = (if x < 0 then add256 (x + 256) else x)"
  by pat_completeness auto
termination
  by (relation "measure (\<lambda>x. nat (- x))") auto

declare add256.simps [simp del]

definition gfDiv :: "int \<Rightarrow> int \<Rightarrow> byte" where
  "gfDiv num denom =
     (let result = add256 num; denom' = add256 denom
      in if denom' = 0 then 0 else of_int (result mod 256))"

text \<open>Horner's rule on column \<open>k\<close> of the coefficient rows, from the last row down.\<close>

definition horner :: "bytes list \<Rightarrow> byte \<Rightarrow> nat \<Rightarrow> byte" where
  "horner coefficients x k =
     foldr (\<lambda>c value. gfMul value x XOR c ! k) coefficients 0"

definition evaluatePolynomial :: "bytes list \<Rightarrow> int \<Rightarrow> bytes" where
  "evaluatePolynomial coefficients x =
     map (horner coefficients (of_int x)) [0..<length (hd coefficients)]"

text \<open>
  The random coefficients: \<open>rand i n\<close> is what the \<open>i\<close>-th read of \<open>n\<close> random bytes returns, or
  \<open>None\<close> when it fails.
\<close>

fun read_coefficients :: "(nat \<Rightarrow> nat \<Rightarrow> bytes option) \<Rightarrow> nat \<Rightarrow> nat \<Rightarrow> bytes list option" where
  "read_coefficients rand n 0 = Some []"
| "read_coefficients rand n (Suc i) =
     (case read_coefficients rand n i of
        None \<Rightarrow> None
      | Some cs \<Rightarrow> (case rand (Suc i) n of None \<Rightarrow> None | Some c \<Rightarrow> Some (cs @ [c])))"

definition make_share :: "ShamirConfig \<Rightarrow> instant \<Rightarrow> bytes list \<Rightarrow> nat \<Rightarrow> Share" where
  "make_share cfg now coefficients i =
     (let x = int i + 1; y = evaluatePolynomial coefficients x;
          shareID = (if i < length (SC_ShareholderIDs cfg) then SC_ShareholderIDs cfg ! i
                     else ''share-'' @ show_int (int i + 1))
      in \<lparr>Share_ID = shareID, Share_Index = x, Share_Data = y, Share_Created = now,
          Share_Threshold = SC_Threshold cfg, Share_TotalShares = SC_TotalShares cfg\<rparr>)"

definition SplitKey ::
    "ShamirConfig \<Rightarrow> (nat \<Rightarrow> nat \<Rightarrow> bytes option) \<Rightarrow> instant \<Rightarrow> bytes \<Rightarrow> shamir_error + Share list" where
  "SplitKey cfg rand now key =
     (if SC_TotalShares cfg < SC_Threshold cfg
        then Inl (TotalBelowThreshold (SC_TotalShares cfg) (SC_Threshold cfg))
      else if SC_Threshold cfg < 2 then Inl ThresholdTooSmall
      else case read_coefficients rand (length key) (nat (SC_Threshold cfg) - 1) of
             None \<Rightarrow> Inl CoefficientFailed
           | Some cs \<Rightarrow> Inr (map (make_share cfg now (key # cs)) [0..<nat (SC_TotalShares cfg)]))"

text \<open>
  The Lagrange numerator and denominator of share \<open>i\<close>, accumulated over the other shares in
  Go's 64-bit integers.
\<close>

fun lagrange :: "Share list \<Rightarrow> nat \<Rightarrow> nat \<Rightarrow> int \<Rightarrow> int \<times> int \<Rightarrow> int \<times> int" where
  "lagrange [] i j xi nd = nd"
| "lagrange (s # ss) i j xi (num, den) =
     lagrange ss i (Suc j) xi
       (if i = j then (num, den)
        else (wrap64 (num * wrap64 (- Share_Index s)),
              wrap64 (den * wrap64 (xi - Share_Index s))))"

definition share_coefficient :: "Share list \<Rightarrow> nat \<Rightarrow> byte" where
  "share_coefficient shares i =
     (case lagrange shares i 0 (Share_Index (shares ! i)) (1, 1) of (num, den) \<Rightarrow> gfDiv num den)"

definition add_contribution :: "byte \<Rightarrow> bytes \<Rightarrow> bytes \<Rightarrow> bytes" where
  "add_contribution coefficient d secret = map2 (\<lambda>s y. s XOR gfMul y coefficient) secret d"

fun recover_loop :: "Share list \<Rightarrow> nat \<Rightarrow> Share list \<Rightarrow> bytes \<Rightarrow> bytes" where
  "recover_loop all i [] secret = secret"
| "recover_loop all i (s # ss) secret =
     recover_loop all (Suc i) ss (add_contribution (share_coefficient all i) (Share_Data s) secret)"

definition RecoverKey :: "ShamirConfig \<Rightarrow> Share list \<Rightarrow> shamir_error + bytes" where
  "RecoverKey cfg shares0 =
     (if int (length shares0) < SC_Threshold cfg
        then Inl (InsufficientShares (SC_Threshold cfg) (int (length shares0)))
      else if SC_Threshold cfg \<le> 0 then Inl Panic
      else let shares = take (nat (SC_Threshold cfg)) shares0;
               keyLen = length (Share_Data (hd shares))
           in if \<exists>s \<in> set shares. length (Share_Data s) \<noteq> keyLen then Inl InvalidShare
              else Inr (recover_loop shares 0 shares (replicate keyLen 0)))"

text \<open>
  The key manager. \<open>hkdf\<close> is the HKDF-SHA256 reader of \<open>golang.org/x/crypto\<close> (secret, salt,
  info, number of bytes), \<open>sha256\<close> the digest.
\<close>

record RecoveryConfig =
  RC_Method :: string
  RC_Shamir :: ShamirConfig

record KeyManager =
  KM_masterKey :: bytes
  KM_config :: RecoveryConfig
  KM_shamir :: "ShamirConfig option"

datatype key_error = InvalidKey | NotConfigured | ShamirFailed shamir_error

definition deriveKey :: "(bytes \<Rightarrow> string \<Rightarrow> string \<Rightarrow> int \<Rightarrow> bytes) \<Rightarrow> bytes \<Rightarrow> string \<Rightarrow> int \<Rightarrow> bytes" where
  "deriveKey hkdf secret info n = hkdf secret ''bibd-encryption-v1'' info n"

definition NewKeyManager ::
    "(bytes \<Rightarrow> string \<Rightarrow> string \<Rightarrow> int \<Rightarrow> bytes) \<Rightarrow> bytes \<Rightarrow> RecoveryConfig \<Rightarrow> key_error + KeyManager" where
  "NewKeyManager hkdf identityKey config =
     (if length identityKey < 32 then Inl InvalidKey
      else Inr \<lparr>KM_masterKey = deriveKey hkdf identityKey ''bibd-master-encryption-key'' 32,
                KM_config = config,
                KM_shamir = (if RC_Method config = ''shamir'' then Some (RC_Shamir config) else None)\<rparr>)"

definition GenerateRecoveryShares ::
    "(nat \<Rightarrow> nat \<Rightarrow> bytes option) \<Rightarrow> instant \<Rightarrow> KeyManager \<Rightarrow> key_error + Share list" where
  "GenerateRecoveryShares rand now km =
     (case KM_shamir km of
        None \<Rightarrow> Inl NotConfigured
      | Some sm \<Rightarrow> (case SplitKey sm rand now (KM_masterKey km) of
                      Inl e \<Rightarrow> Inl (ShamirFailed e)
                    | Inr shares \<Rightarrow> Inr shares))"

definition RecoverFromShares :: "Share list \<Rightarrow> KeyManager \<Rightarrow> key_error option \<times> KeyManager" where
  "RecoverFromShares shares km =
     (case KM_shamir km of
        None \<Rightarrow> (Some NotConfigured, km)
      | Some sm \<Rightarrow> (case RecoverKey sm shares of
                      Inl e \<Rightarrow> (Some (ShamirFailed e), km)
                    | Inr recoveredKey \<Rightarrow> (None, km\<lparr>KM_masterKey := recoveredKey\<rparr>)))"

definition RotateMasterKey ::
    "(bytes \<Rightarrow> string \<Rightarrow> string \<Rightarrow> int \<Rightarrow> bytes) \<Rightarrow> bytes \<Rightarrow> KeyManager \<Rightarrow> bytes \<times> KeyManager" where
  "RotateMasterKey hkdf newIdentityKey km =
     (let oldKey = KM_masterKey km; newKey = deriveKey hkdf newIdentityKey ''bibd-master-encryption-key'' 32
      in (oldKey, km\<lparr>KM_masterKey := newKey\<rparr>))"

definition KeyHash :: "(bytes \<Rightarrow> bytes) \<Rightarrow> KeyManager \<Rightarrow> bytes" where
  "KeyHash sha256 km = sha256 (KM_masterKey km)"

definition VerifyKey :: "(bytes \<Rightarrow> bytes) \<Rightarrow> KeyManager \<Rightarrow> bytes \<Rightarrow> bool" where
  "VerifyKey sha256 km knownHash =
     (let h = sha256 (KM_masterKey km)
      in if length knownHash \<noteq> length h then False else list_all (\<lambda>i. h ! i = knownHash ! i) [0..<length h])"

section \<open>The bitwise product\<close>

text \<open>The contract of an additive map on bytes, and what determines one.\<close>

locale xor_linear =
  fixes f :: "byte \<Rightarrow> byte"
  assumes map_xor: "f (a XOR b) = f a XOR f b"
begin

lemma map_zero: "f 0 = 0"
  using map_xor [of 0 0] by simp

lemma map_power: "(f ^^ n) (a XOR b) = (f ^^ n) a XOR (f ^^ n) b"
  by (induction n) (simp_all add: map_xor)

lemma map_power_zero: "(f ^^ n) 0 = 0"
  by (induction n) (simp_all add: map_zero)

end

text \<open>The sum of a family of bytes over the bits of a byte.\<close>

fun bit_sum :: "(nat \<Rightarrow> byte) \<Rightarrow> byte \<Rightarrow> nat \<Rightarrow> byte" where
  "bit_sum g b 0 = 0"
| "bit_sum g b (Suc n) = bit_sum g b n XOR (if bit b n then g n else 0)"

lemma bit_sum_xor: "bit_sum g (b XOR c) n = bit_sum g b n XOR bit_sum g c n"
  by (induction n) (auto simp: bit_xor_iff ac_simps xor.left_commute)

lemma bit_sum_cong: "(\<And>i. i < n \<Longrightarrow> g i = h i) \<Longrightarrow> bit_sum g b n = bit_sum h b n"
  by (induction n) auto

lemma bit_sum_add: "bit_sum (\<lambda>i. g i XOR h i) b n = bit_sum g b n XOR bit_sum h b n"
  by (induction n) (auto simp: ac_simps)

lemma bit_bit_sum_powers: "bit (bit_sum (\<lambda>i. 2 ^ i) b n) m \<longleftrightarrow> m < n \<and> m < 8 \<and> bit b m"
  by (induction n) (auto simp: bit_simps less_Suc_eq)

lemma bit_sum_powers: "bit_sum (\<lambda>i. 2 ^ i) b 8 = b"
  by (rule bit_eqI) (simp add: bit_bit_sum_powers)

context xor_linear
begin

lemma map_bit_sum: "f (bit_sum g b n) = bit_sum (\<lambda>i. f (g i)) b n"
  by (induction n) (simp_all add: map_xor map_zero)

lemma determined: "f b = bit_sum (\<lambda>i. f (2 ^ i)) b 8"
  using map_bit_sum [of "\<lambda>i. 2 ^ i" b 8] by (simp only: bit_sum_powers)

end

lemma xor_linear_eqI:
  assumes "xor_linear f" and "xor_linear g" and "\<And>i. i < 8 \<Longrightarrow> f (2 ^ i) = g (2 ^ i)"
  shows "f b = g b"
  using assms by (simp add: xor_linear.determined [OF assms(1), of b]
      xor_linear.determined [OF assms(2), of b] cong: bit_sum_cong)

interpretation xtime: xor_linear xtime
proof
  fix a b
  have high: "\<And>x::byte. x AND 0x80 = 0 \<longleftrightarrow> \<not> bit x 7" using and_power_bit [of _ 7] by simp
  show "xtime (a XOR b) = xtime a XOR xtime b"
    by (auto simp: xtime_def Let_def high bit_xor_iff push_bit_xor ac_simps xor.left_commute)
qed

lemma gfMul_loop_step:
  "gfMul_loop a b r = gfMul_loop (xtime a) (drop_bit 1 b) (r XOR (if bit b 0 then a else 0))"
proof (cases "b = 0")
  case True
  then show ?thesis by (simp add: gfMul_loop.simps)
next
  case False
  then have "0 < b" by (simp add: word_neq_0_conv)
  moreover have "b AND 1 \<noteq> 0 \<longleftrightarrow> bit b 0" using and_power_bit [of b 0] by simp
  ultimately show ?thesis by (subst gfMul_loop.simps) simp
qed

lemma gfMul_loop_steps:
  "gfMul_loop a b r
    = gfMul_loop ((xtime ^^ n) a) (drop_bit n b) (r XOR bit_sum (\<lambda>i. (xtime ^^ i) a) b n)"
proof (induction n)
  case 0
  then show ?case by simp
next
  case (Suc n)
  then show ?case
    by (simp add: gfMul_loop_step [of "(xtime ^^ n) a" "drop_bit n b"] bit_drop_bit_eq xor.assoc)
qed

lemma gfMulNoTable_sum: "gfMulNoTable a b = bit_sum (\<lambda>i. (xtime ^^ i) a) b 8"
proof -
  have "drop_bit 8 b = 0" by (rule bit_eqI) (simp add: bit_simps)
  then show ?thesis
    using gfMul_loop_steps [of a b 0 8] by (simp add: gfMulNoTable_def gfMul_loop.simps)
qed

interpretation mul_right: xor_linear "gfMulNoTable a" for a
  by unfold_locales (simp only: gfMulNoTable_sum bit_sum_xor)

interpretation mul_left: xor_linear "\<lambda>a. gfMulNoTable a b" for b
  by unfold_locales (simp only: gfMulNoTable_sum xtime.map_power bit_sum_add)

lemma mul_basis_commutes:
  "list_all (\<lambda>i. list_all (\<lambda>j. gfMulNoTable (2 ^ i) (2 ^ j) = gfMulNoTable (2 ^ j) (2 ^ i)) [0..<8]) [0..<8]"
  by code_simp

lemma mul_basis_commutes_at:
  assumes "i < 8" and "j < 8"
  shows "gfMulNoTable (2 ^ i) (2 ^ j) = gfMulNoTable (2 ^ j) (2 ^ i)"
proof -
  have "i \<in> set [0..<8]" and "j \<in> set [0..<8]" using assms by simp_all
  then show ?thesis using mul_basis_commutes unfolding list_all_iff by blast
qed

lemma gfMulNoTable_commute: "gfMulNoTable a b = gfMulNoTable b a"
proof (rule xor_linear_eqI [OF mul_right.xor_linear_axioms mul_left.xor_linear_axioms])
  fix j :: nat assume j: "j < 8"
  show "gfMulNoTable a (2 ^ j) = gfMulNoTable (2 ^ j) a"
    by (rule xor_linear_eqI [OF mul_left.xor_linear_axioms mul_right.xor_linear_axioms])
       (rule mul_basis_commutes_at [OF _ j])
qed

lemma gfMulNoTable_xtime: "gfMulNoTable (xtime a) b = xtime (gfMulNoTable a b)"
  by (simp add: gfMulNoTable_sum xtime.map_bit_sum funpow_swap1)

lemma gfMulNoTable_swap: "gfMulNoTable (gfMulNoTable a b) c = gfMulNoTable (gfMulNoTable a c) b"
proof -
  have pow: "gfMulNoTable ((xtime ^^ n) a) c = (xtime ^^ n) (gfMulNoTable a c)" for n
    by (induction n) (simp_all add: gfMulNoTable_xtime)
  show ?thesis
    unfolding gfMulNoTable_sum [of a b] gfMulNoTable_sum [of "gfMulNoTable a c" b]
    by (simp only: mul_left.map_bit_sum pow)
qed

lemma gfMulNoTable_assoc: "gfMulNoTable (gfMulNoTable a b) c = gfMulNoTable a (gfMulNoTable b c)"
  by (simp only: gfMulNoTable_commute [of a b] gfMulNoTable_swap [of b a c]
      gfMulNoTable_commute [of a "gfMulNoTable b c"])

lemma gfMulNoTable_zero [simp]: "gfMulNoTable 0 b = 0" "gfMulNoTable a 0 = 0"
  by (simp_all add: mul_left.map_zero mul_right.map_zero)

lemma gfMulNoTable_two: "gfMulNoTable a 2 = xtime a"
  by (simp add: gfMulNoTable_def gfMul_loop.simps)

section \<open>The tables\<close>

definition gpow :: "nat \<Rightarrow> byte" where
  "gpow i = (xtime ^^ i) 1"

lemma gpow_Suc: "gpow (Suc i) = xtime (gpow i)"
  by (simp add: gpow_def)

lemma gpow_basis: "list_all (\<lambda>i. gpow i = 2 ^ i) [0..<8]"
  by code_simp

lemma gfMulNoTable_one [simp]: "gfMulNoTable 1 b = b" "gfMulNoTable b 1 = b"
proof -
  have "gfMulNoTable 1 b = bit_sum (\<lambda>i. 2 ^ i) b 8"
    unfolding gfMulNoTable_sum
    by (rule bit_sum_cong) (use gpow_basis in \<open>simp add: list_all_iff gpow_def\<close>)
  then show "gfMulNoTable 1 b = b" by (simp only: bit_sum_powers)
  then show "gfMulNoTable b 1 = b" by (simp only: gfMulNoTable_commute [of b 1])
qed

lemma gpow_add: "gpow (i + j) = gfMulNoTable (gpow i) (gpow j)"
  by (induction i) (simp_all add: gpow_Suc gfMulNoTable_xtime, simp add: gpow_def)

fun doublings :: "nat \<Rightarrow> byte \<Rightarrow> byte list" where
  "doublings 0 x = []"
| "doublings (Suc n) x = x # doublings n (xtime x)"

lemma doublings_gpow: "doublings n (gpow k) = map gpow [k..<k + n]"
  by (induction n arbitrary: k) (simp_all add: gpow_Suc [symmetric] upt_rec del: upt_Suc)

lemma doublings_52: "doublings 52 1 ! 51 = 1" "distinct (doublings 51 1)"
  by code_simp+

lemma gpow_51: "gpow 51 = 1"
  using doublings_52(1) doublings_gpow [of 52 0] by (simp add: gpow_def)

lemma gpow_mult_51: "gpow (51 * k) = 1"
proof (induction k)
  case 0
  then show ?case by (simp add: gpow_def)
next
  case (Suc k)
  then show ?case using gpow_add [of 51 "51 * k"] by (simp add: gpow_51)
qed

lemma gpow_shift: "gpow (51 * k + i) = gpow i"
  by (simp add: gpow_add gpow_mult_51)

lemma gpow_mod: "gpow (i mod 51) = gpow i"
  using gpow_shift [of "i div 51" "i mod 51"] by simp

lemma gpow_distinct: "distinct (map gpow [0..<51])"
  using doublings_52(2) doublings_gpow [of 51 0] by (simp add: gpow_def)

lemma gpow_inj: "gpow i = gpow j \<Longrightarrow> i < 51 \<Longrightarrow> j < 51 \<Longrightarrow> i = j"
  using gpow_distinct by (auto simp: distinct_map inj_on_def)

text \<open>The elements the tables can represent: the powers of two in the field.\<close>

definition two_power :: "byte \<Rightarrow> bool" where
  "two_power a \<longleftrightarrow> a \<in> set (map gpow [0..<51])"

lemma two_power_iff: "two_power a \<longleftrightarrow> (\<exists>i. a = gpow i)"
proof
  assume "\<exists>i. a = gpow i"
  then obtain i where "a = gpow (i mod 51)" by (auto simp: gpow_mod)
  then show "two_power a" by (auto simp: two_power_def)
qed (auto simp: two_power_def)

lemma tab_x_init: "tab_x (init_first n) = gpow n"
  by (induction n) (simp_all add: Let_def gfMulNoTable_two gpow_Suc, simp add: gpow_def)

lemma tab_exp_init: "tab_exp (init_first n) i = (if i < n then gpow i else 0)"
  by (induction n) (auto simp: Let_def tab_x_init)

lemma tab_log_init_other: "(\<And>i. i < n \<Longrightarrow> gpow i \<noteq> b) \<Longrightarrow> tab_log (init_first n) b = 0"
  by (induction n) (auto simp: Let_def tab_x_init)

lemma tab_log_init_last:
  assumes "j < n" and "\<And>i. j < i \<Longrightarrow> i < n \<Longrightarrow> gpow i \<noteq> gpow j"
  shows "tab_log (init_first n) (gpow j) = of_nat j"
  using assms
proof (induction n)
  case (Suc n)
  show ?case
  proof (cases "j = n")
    case True
    then show ?thesis by (simp add: Let_def tab_x_init)
  next
    case False
    then have "gpow j \<noteq> gpow n" using Suc.prems(1) Suc.prems(2) [of n] by auto
    then show ?thesis using Suc False by (simp add: Let_def tab_x_init)
  qed
qed simp

lemma gfLog_power: "gfLog (gpow k) = of_nat (204 + k mod 51)"
proof -
  have shift: "gpow (204 + m) = gpow m" for m using gpow_shift [of 4 m] by simp
  have "tab_log (init_first 255) (gpow (204 + k mod 51)) = of_nat (204 + k mod 51)"
  proof (rule tab_log_init_last)
    fix i :: nat assume i: "204 + k mod 51 < i" "i < 255"
    define d where "d = i - 204"
    have d: "i = 204 + d" "k mod 51 < d" "d < 51" using i unfolding d_def by linarith+
    then show "gpow i \<noteq> gpow (204 + k mod 51)" using gpow_inj [of d "k mod 51"] by (auto simp: shift)
  qed simp
  then show ?thesis by (simp only: gfLog_def shift gpow_mod)
qed

lemma gfLog_other: "\<not> two_power b \<Longrightarrow> gfLog b = 0"
  unfolding gfLog_def by (rule tab_log_init_other) (auto simp: two_power_iff)

lemma init_second_at:
  "n \<le> 257 \<Longrightarrow> (\<And>i. i < 255 \<Longrightarrow> e i = gpow i) \<Longrightarrow> i < 255 + n \<Longrightarrow> init_second n e i = gpow i"
proof (induction n arbitrary: i)
  case (Suc n)
  show ?case
  proof (cases "i = 255 + n")
    case True
    have "gpow n = gpow i" using True gpow_shift [of 5 n] by simp
    then show ?thesis using Suc True by (simp add: Let_def)
  next
    case False
    then show ?thesis using Suc by (simp add: Let_def)
  qed
qed simp

lemma gfExp_at: "i < 512 \<Longrightarrow> gfExp i = gpow i"
  unfolding gfExp_def by (rule init_second_at) (simp_all add: tab_exp_init)

text \<open>What the tables make of a byte: itself when it is a power of two, one otherwise.\<close>

definition table_image :: "byte \<Rightarrow> byte" where
  "table_image a = (if two_power a then a else 1)"

lemma log_image: "\<exists>i. unat (gfLog a) = i \<and> i < 255 \<and> gpow i = table_image a"
proof (cases "two_power a")
  case True
  then obtain k where k: "a = gpow k" by (auto simp: two_power_iff)
  have small: "204 + k mod 51 < 255" by simp
  have "unat (gfLog a) = 204 + k mod 51"
    using small by (simp add: k gfLog_power unsigned_of_nat take_bit_nat_eq_self del: of_nat_add)
  moreover have "gpow (204 + k mod 51) = a" using gpow_shift [of 4 "k mod 51"] by (simp add: k gpow_mod)
  ultimately show ?thesis using small True by (simp add: table_image_def)
next
  case False
  then show ?thesis by (simp add: gfLog_other table_image_def gpow_def)
qed

lemma gfMul_image:
  "gfMul a b = (if a = 0 \<or> b = 0 then 0 else gfMulNoTable (table_image a) (table_image b))"
proof -
  obtain i j where "unat (gfLog a) = i" "i < 255" "gpow i = table_image a"
    and "unat (gfLog b) = j" "j < 255" "gpow j = table_image b"
    using log_image [of a] log_image [of b] by blast
  then show ?thesis
    by (auto simp: gfMul_def gfExp_at gpow_add)
qed

section \<open>Splitting and recovering\<close>

lemma length_evaluatePolynomial [simp]: "length (evaluatePolynomial (key # cs) x) = length key"
  by (simp add: evaluatePolynomial_def)

lemma read_coefficients_length:
  "read_coefficients rand n i = Some cs \<Longrightarrow> length cs = i"
  by (induction i arbitrary: cs) (auto split: option.splits)

lemma read_coefficients_rows:
  assumes "\<And>i c. rand i n = Some c \<Longrightarrow> length c = n" and "read_coefficients rand n i = Some cs"
    and "c \<in> set cs"
  shows "length c = n"
  using assms(2,3) by (induction i arbitrary: cs) (auto split: option.splits dest: assms(1))

lemma read_coefficients_constant:
  assumes "\<And>i. rand i n = Some c"
  shows "read_coefficients rand n i = Some (replicate i c)"
  by (induction i) (simp_all add: assms replicate_append_same)

lemma SplitKey_ok_iff:
  "SplitKey cfg rand now key = Inr shares \<longleftrightarrow>
     2 \<le> SC_Threshold cfg \<and> SC_Threshold cfg \<le> SC_TotalShares cfg \<and>
     (\<exists>cs. read_coefficients rand (length key) (nat (SC_Threshold cfg) - 1) = Some cs
        \<and> shares = map (make_share cfg now (key # cs)) [0..<nat (SC_TotalShares cfg)])"
  by (auto simp: SplitKey_def split: option.splits)

lemma horner_at_zero: "horner (c # cs) 0 k = c ! k"
  by (simp add: horner_def gfMul_def)

lemma evaluate_at_zero: "of_int x = (0::byte) \<Longrightarrow> evaluatePolynomial (key # cs) x = key"
  by (intro nth_equalityI) (simp_all add: evaluatePolynomial_def horner_at_zero)

lemma horner_zero_rows:
  "k < n \<Longrightarrow> horner (replicate m (replicate n 0)) x k = 0"
  by (induction m) (simp_all add: horner_def gfMul_def)

lemma evaluate_constant: "evaluatePolynomial (key # replicate m (replicate (length key) 0)) x = key"
proof -
  have "horner (key # replicate m (replicate (length key) 0)) y k = key ! k" if "k < length key" for k y
  proof -
    have "horner (key # replicate m (replicate (length key) 0)) y k
        = gfMul (horner (replicate m (replicate (length key) 0)) y k) y XOR key ! k"
      by (simp add: horner_def)
    then show ?thesis using that by (simp add: horner_zero_rows gfMul_def)
  qed
  then show ?thesis by (intro nth_equalityI) (simp_all add: evaluatePolynomial_def)
qed

lemma length_recover_loop:
  "(\<And>s. s \<in> set ss \<Longrightarrow> length (Share_Data s) = length secret) \<Longrightarrow>
     length (recover_loop all i ss secret) = length secret"
  by (induction ss arbitrary: i secret) (auto simp: add_contribution_def)

lemma doublings_miss: "3 \<notin> set (doublings 51 1)" "6 \<notin> set (doublings 51 1)" "2 \<in> set (doublings 51 1)"
  by code_simp+

lemma two_power_doublings: "two_power a \<longleftrightarrow> a \<in> set (doublings 51 1)"
  using doublings_gpow [of 51 0] by (simp add: two_power_def gpow_def)

lemma table_image_small: "table_image 3 = 1" "table_image 6 = 1" "table_image 2 = 2"
  by (simp_all add: table_image_def two_power_doublings doublings_miss)

lemma gfMul_3_6: "gfMul a 6 = gfMul a 3"
  by (simp add: gfMul_image table_image_small)

text \<open>The three coefficients recovery computes for the shares 1, 2 and 3.\<close>

lemma share_coefficients_123:
  assumes "map Share_Index ss = [1, 2, 3]"
  shows "share_coefficient ss 0 = 6" "share_coefficient ss 1 = 3" "share_coefficient ss 2 = 2"
proof -
  obtain a b c where ss: "ss = [a, b, c]" "Share_Index a = 1" "Share_Index b = 2" "Share_Index c = 3"
    using assms by (auto simp: map_eq_Cons_conv)
  then show "share_coefficient ss 0 = 6" "share_coefficient ss 1 = 3" "share_coefficient ss 2 = 2"
    by (simp_all add: share_coefficient_def wrap64_def gfDiv_def add256.simps Let_def)
qed

lemma gfMul_two_moves: "b \<noteq> 0 \<Longrightarrow> gfMul b 2 \<noteq> b"
proof (cases "two_power b")
  case True
  then obtain i where b: "b = gpow i" by (auto simp: two_power_iff)
  have inverse: "gfMulNoTable (gpow (50 * i)) (gpow i) = 1"
    by (simp add: gpow_add [symmetric]) (use gpow_mult_51 [of i] in simp)
  assume "b \<noteq> 0"
  then have g: "gfMul b 2 = xtime b"
    using True by (simp add: gfMul_image table_image_small(3)) (simp add: table_image_def gfMulNoTable_two)
  have "xtime (gfMulNoTable (gpow i) (gpow (50 * i))) \<noteq> gfMulNoTable (gpow i) (gpow (50 * i))"
    using inverse by (simp add: gfMulNoTable_commute [of "gpow i"] xtime_def)
  then show ?thesis using g b by (auto simp flip: gfMulNoTable_xtime)
next
  case False
  assume "b \<noteq> 0"
  moreover have "b \<noteq> 2" using False doublings_miss(3) by (auto simp: two_power_doublings)
  moreover have "table_image b = 1" using False by (simp add: table_image_def)
  ultimately show ?thesis by (simp add: gfMul_image table_image_small)
qed

lemma three_equal_shares:
  assumes "map Share_Index ss = [1, 2, 3]" and "\<And>s. s \<in> set ss \<Longrightarrow> Share_Data s = key"
    and "SC_Threshold cfg = 3" and "take 3 shares = ss"
  shows "RecoverKey cfg shares = Inr (map (\<lambda>b. gfMul b 2) key)"
proof -
  obtain a b c where ss: "ss = [a, b, c]"
    using assms(1) by (auto simp: map_eq_Cons_conv)
  then have d: "Share_Data a = key" "Share_Data b = key" "Share_Data c = key"
    using assms(2) by simp_all
  have len: "3 \<le> length shares" using assms(4) ss by (cases "3 \<le> length shares") auto
  note co = share_coefficients_123 [OF assms(1), unfolded ss]
  have "recover_loop ss 0 ss (replicate (length key) 0) = map (\<lambda>b. gfMul b 2) key"
    using co by (intro nth_equalityI) (simp_all add: ss d add_contribution_def gfMul_3_6 numeral_2_eq_2)
  then show ?thesis using assms(3,4) len ss d by (simp add: RecoverKey_def)
qed

section \<open>Properties\<close>

text \<open>
  The bitwise product \<open>gfMulNoTable\<close> is the multiplication of a commutative ring whose
  addition is exclusive or: it is commutative and associative, has unit 1, and distributes.
\<close>

theorem gfMulNoTable_ring:
  "gfMulNoTable a b = gfMulNoTable b a
   \<and> gfMulNoTable (gfMulNoTable a b) c = gfMulNoTable a (gfMulNoTable b c)
   \<and> gfMulNoTable a (b XOR c) = gfMulNoTable a b XOR gfMulNoTable a c
   \<and> gfMulNoTable a 1 = a"
  using gfMulNoTable_commute [of a b] gfMulNoTable_assoc [of a b c] by (simp add: mul_right.map_xor)

text \<open>
  What the log and exp tables compute: the table product of two non-zero bytes is the
  field product of their images, where a byte that is one of the 51 powers of two stands for
  itself and every other byte is taken for 1. So the table product with 1 returns its argument
  exactly for zero and those 51 bytes.
\<close>

theorem table_product:
  "gfMul a b = (if a = 0 \<or> b = 0 then 0
     else gfMulNoTable (if a \<in> set (doublings 51 1) then a else 1)
                       (if b \<in> set (doublings 51 1) then b else 1))
   \<and> (gfMul a 1 = a \<longleftrightarrow> a = 0 \<or> a \<in> set (doublings 51 1))
   \<and> card (set (doublings 51 1)) = 51"
proof -
  have "gfMul a b = (if a = 0 \<or> b = 0 then 0
     else gfMulNoTable (if a \<in> set (doublings 51 1) then a else 1)
                       (if b \<in> set (doublings 51 1) then b else 1))" for a b
    by (simp only: gfMul_image table_image_def two_power_doublings)
  moreover have "1 \<in> set (doublings 51 1)" by (simp flip: two_power_doublings) (auto simp: two_power_iff gpow_def intro: exI [of _ 0])
  moreover have "length (doublings 51 1) = 51" using doublings_gpow [of 51 0] by (simp add: gpow_def)
  then have "card (set (doublings 51 1)) = 51" using distinct_card [OF doublings_52(2)] by simp
  ultimately show ?thesis by auto
qed

text \<open>
  A successful split announces what it should: as many shares as configured, share
  \<open>i\<close> at coordinate \<open>i + 1\<close>, each as long as the key and carrying the threshold and the total;
  and any \<open>Threshold\<close> or more of them are accepted by recovery, which returns a key of the
  same length.
\<close>

theorem split_then_recover_accepts:
  assumes "SplitKey cfg rand now key = Inr shares"
    and "set sel \<subseteq> set shares" and "SC_Threshold cfg \<le> int (length sel)"
  shows "int (length shares) = SC_TotalShares cfg
    \<and> map Share_Index shares = map (\<lambda>i. int i + 1) [0..<length shares]
    \<and> (\<forall>s \<in> set shares. length (Share_Data s) = length key
         \<and> Share_Threshold s = SC_Threshold cfg \<and> Share_TotalShares s = SC_TotalShares cfg)
    \<and> (\<exists>k. RecoverKey cfg sel = Inr k \<and> length k = length key)"
proof -
  from assms(1) obtain cs where t: "2 \<le> SC_Threshold cfg" "SC_Threshold cfg \<le> SC_TotalShares cfg"
    and shares: "shares = map (make_share cfg now (key # cs)) [0..<nat (SC_TotalShares cfg)]"
    by (auto simp: SplitKey_ok_iff)
  have data: "length (Share_Data s) = length key" if "s \<in> set shares" for s
    using that by (auto simp: shares make_share_def Let_def)
  define used where "used = take (nat (SC_Threshold cfg)) sel"
  have used: "used \<noteq> []" "set used \<subseteq> set shares"
    using t assms(2,3) set_take_subset [of "nat (SC_Threshold cfg)" sel] by (auto simp: used_def)
  then have keylen: "length (Share_Data (hd used)) = length key" using data hd_in_set by blast
  have "RecoverKey cfg sel = Inr (recover_loop used 0 used (replicate (length key) 0))"
    using t assms(3) used data keylen by (auto simp: RecoverKey_def Let_def simp flip: used_def)
  moreover have "length (recover_loop used 0 used (replicate (length key) 0)) = length key"
    using used data by (subst length_recover_loop) auto
  ultimately show ?thesis
    using data t by (auto simp: shares make_share_def Let_def)
qed

theorem split_then_recover_accepts_witness:
  "\<exists>shares. SplitKey \<lparr>SC_TotalShares = 3, SC_Threshold = 2, SC_ShareholderIDs = [''ann'']\<rparr>
     (\<lambda>i n. Some (replicate n 5)) 7 [17, 99] = Inr shares \<and> length shares = 3
     \<and> (\<exists>k. RecoverKey \<lparr>SC_TotalShares = 3, SC_Threshold = 2, SC_ShareholderIDs = [''ann'']\<rparr> (rev shares) = Inr k
          \<and> length k = 2)"
proof -
  let ?cfg = "\<lparr>SC_TotalShares = 3, SC_Threshold = 2, SC_ShareholderIDs = [''ann'']\<rparr>"
  obtain shares where s: "SplitKey ?cfg (\<lambda>i n. Some (replicate n 5)) 7 [17, 99] = Inr shares"
    by (simp add: SplitKey_def numeral_2_eq_2)
  have l: "int (length shares) = 3" using split_then_recover_accepts [OF s, of "rev shares"] s by (auto simp: SplitKey_ok_iff)
  show ?thesis using split_then_recover_accepts [OF s, of "rev shares"] l s by auto
qed

text \<open>
  A configuration with 256 shares or more gives the key away: the coordinate is cut to a
  byte, so share number 256 is the polynomial at zero, that is the key itself, whatever the
  random coefficients are.
\<close>

theorem share_256_is_key:
  assumes "SplitKey cfg rand now key = Inr shares" and "256 \<le> SC_TotalShares cfg"
  shows "Share_Data (shares ! 255) = key"
proof -
  obtain cs where "shares = map (make_share cfg now (key # cs)) [0..<nat (SC_TotalShares cfg)]"
    using assms(1) by (auto simp: SplitKey_ok_iff)
  moreover have "255 < nat (SC_TotalShares cfg)" using assms(2) by simp
  ultimately have "shares ! 255 = make_share cfg now (key # cs) 255" by simp
  then show ?thesis by (simp add: make_share_def Let_def evaluate_at_zero)
qed

theorem share_256_is_key_witness:
  "\<exists>shares. SplitKey \<lparr>SC_TotalShares = 300, SC_Threshold = 2, SC_ShareholderIDs = []\<rparr>
     (\<lambda>i n. Some (replicate n 5)) 7 [17, 99] = Inr shares \<and> Share_Data (shares ! 255) = [17, 99]"
proof -
  let ?cfg = "\<lparr>SC_TotalShares = 300, SC_Threshold = 2, SC_ShareholderIDs = []\<rparr>"
  obtain shares where s: "SplitKey ?cfg (\<lambda>i n. Some (replicate n 5)) 7 [17, 99] = Inr shares"
    by (simp add: SplitKey_def numeral_2_eq_2)
  show ?thesis using share_256_is_key [OF s] s by auto
qed

text \<open>
  C38. Recovery does not recover: a key manager with the default threshold of three whose
  random coefficients happen to be zero produces shares from which its own recovery, run on
  the first three, succeeds and replaces the master key by every byte's table product with 2,
  a different key unless the key was all zero.
\<close>

theorem recovery_loses_the_key:
  assumes "KM_shamir km = Some cfg" and "SC_Threshold cfg = 3" and "3 \<le> SC_TotalShares cfg"
    and "\<And>i. rand i (length (KM_masterKey km)) = Some (replicate (length (KM_masterKey km)) 0)"
  shows "\<exists>shares. GenerateRecoveryShares rand now km = Inr shares
    \<and> RecoverFromShares (take 3 shares) km
        = (None, km\<lparr>KM_masterKey := map (\<lambda>b. gfMul b 2) (KM_masterKey km)\<rparr>)
    \<and> (map (\<lambda>b. gfMul b 2) (KM_masterKey km) = KM_masterKey km \<longleftrightarrow> (\<forall>b \<in> set (KM_masterKey km). b = 0))"
proof -
  let ?key = "KM_masterKey km"
  let ?cs = "replicate 2 (replicate (length ?key) (0::byte))"
  let ?shares = "map (make_share cfg now (?key # ?cs)) [0..<nat (SC_TotalShares cfg)]"
  have "SplitKey cfg rand now ?key = Inr ?shares"
    using assms by (simp add: SplitKey_ok_iff read_coefficients_constant)
  then have gen: "GenerateRecoveryShares rand now km = Inr ?shares"
    using assms(1) by (simp add: GenerateRecoveryShares_def)
  have first: "take 3 ?shares = map (make_share cfg now (?key # ?cs)) [0, 1, 2]"
    using assms(3) by (simp add: take_map upt_conv_Cons numeral_eq_Suc)
  have "RecoverKey cfg (take 3 ?shares) = Inr (map (\<lambda>b. gfMul b 2) ?key)"
    by (rule three_equal_shares [where ss = "take 3 ?shares"])
       (use assms(2) in \<open>auto simp: first make_share_def Let_def evaluate_constant\<close>)
  then have rec: "RecoverFromShares (take 3 ?shares) km = (None, km\<lparr>KM_masterKey := map (\<lambda>b. gfMul b 2) ?key\<rparr>)"
    using assms(1) by (simp add: RecoverFromShares_def)
  have "gfMul b 2 = b \<longleftrightarrow> b = 0" for b
    using gfMul_two_moves [of b] by (auto simp: gfMul_def)
  then have "map (\<lambda>b. gfMul b 2) ?key = ?key \<longleftrightarrow> (\<forall>b \<in> set ?key. b = 0)"
    by (simp add: map_eq_conv [where g = "\<lambda>b. b", simplified])
  with gen rec show ?thesis by blast
qed

theorem recovery_loses_the_key_witness:
  "\<exists>shares. GenerateRecoveryShares (\<lambda>i n. Some (replicate n 0)) 7
     \<lparr>KM_masterKey = [9, 0],
      KM_config = \<lparr>RC_Method = ''shamir'', RC_Shamir = \<lparr>SC_TotalShares = 5, SC_Threshold = 3, SC_ShareholderIDs = []\<rparr>\<rparr>,
      KM_shamir = Some \<lparr>SC_TotalShares = 5, SC_Threshold = 3, SC_ShareholderIDs = []\<rparr>\<rparr> = Inr shares
   \<and> map (\<lambda>b. gfMul b 2) [9, 0] \<noteq> [9, 0]"
  using recovery_loses_the_key [of "\<lparr>KM_masterKey = [9, 0],
      KM_config = \<lparr>RC_Method = ''shamir'', RC_Shamir = \<lparr>SC_TotalShares = 5, SC_Threshold = 3, SC_ShareholderIDs = []\<rparr>\<rparr>,
      KM_shamir = Some \<lparr>SC_TotalShares = 5, SC_Threshold = 3, SC_ShareholderIDs = []\<rparr>\<rparr>"
    "\<lparr>SC_TotalShares = 5, SC_Threshold = 3, SC_ShareholderIDs = []\<rparr>" "\<lambda>i n. Some (replicate n 0)" 7]
  by auto

end
