(* ===== verification/Queries.thy ===== *)
theory Queries
  imports Bib_Prelude Domain_Errors Datasets
begin

text \<open>
  Data queries (\<open>internal/domain/query.go\<close>): the request and its validation, with the filter
  that should let only \<open>SELECT\<close> statements through. \<open>strings.ToUpper\<close> and
  \<open>strings.TrimSpace\<close> are modelled on their ASCII paths; their Unicode paths are arguments.
  The regular expressions \<open>\bKEYWORD\b\<close> are modelled at byte level, which is what they mean:
  a word boundary of RE2 is an ASCII one.

  Shown: the filter accepts exactly the texts that start with \<open>SELECT\<close> or \<open>WITH\<close> and none of
  whose words is one of the twelve keywords, for a tokeniser defined independently of the
  matcher; and which statements that lets through and which harmless ones it rejects.
\<close>

section \<open>Definitions\<close>

definition QueryTypeMetadata :: string where "QueryTypeMetadata = ''metadata''"
definition QueryTypeSQL :: string where "QueryTypeSQL = ''sql''"

record DatasetTarget =
  DT_DatasetID :: DatasetID
  DT_VersionID :: DatasetVersionID
  DT_Alias :: string

record QueryRequest =
  QR_ID :: string
  QR_Type :: string
  QR_TopicID :: TopicID
  QR_DatasetID :: DatasetID
  QR_TargetDatasets :: "DatasetTarget list"
  QR_SQL :: string
  QR_NamePattern :: string
  QR_Expression :: string
  QR_Limit :: int
  QR_Offset :: int
  QR_StreamResults :: bool
  QR_Timeout :: duration
  QR_RequestedBy :: UserID
  QR_RequestedAt :: instant

text \<open>The Unicode paths of the two functions of package \<open>strings\<close>.\<close>

record unicode_strings =
  unicode_ToUpper :: "string \<Rightarrow> string"
  unicode_TrimSpace :: "string \<Rightarrow> string"

definition ascii_char :: "char \<Rightarrow> bool" where
  "ascii_char c \<longleftrightarrow> (of_char c :: nat) < 128"

definition upper_char :: "char \<Rightarrow> char" where
  "upper_char c = (if 97 \<le> (of_char c :: nat) \<and> (of_char c :: nat) \<le> 122
                   then char_of ((of_char c :: nat) - 32) else c)"

definition strings_ToUpper :: "unicode_strings \<Rightarrow> string \<Rightarrow> string" where
  "strings_ToUpper u s = (if list_all ascii_char s then map upper_char s else unicode_ToUpper u s)"

definition space_char :: "char \<Rightarrow> bool" where
  "space_char c \<longleftrightarrow> (of_char c :: nat) \<in> {9, 10, 11, 12, 13, 32}"

definition strings_TrimSpace :: "unicode_strings \<Rightarrow> string \<Rightarrow> string" where
  "strings_TrimSpace u s =
     (let t = dropWhile space_char s; r = dropWhile space_char (rev t)
      in if t \<noteq> [] \<and> (\<not> ascii_char (hd t) \<or> \<not> ascii_char (hd r)) then unicode_TrimSpace u s
         else rev r)"

text \<open>The word characters of RE2, and the pattern \<open>\bKEYWORD\b\<close>.\<close>

definition word_char :: "char \<Rightarrow> bool" where
  "word_char c \<longleftrightarrow> (let n = (of_char c :: nat) in
     48 \<le> n \<and> n \<le> 57 \<or> 65 \<le> n \<and> n \<le> 90 \<or> n = 95 \<or> 97 \<le> n \<and> n \<le> 122)"

definition word_at :: "string \<Rightarrow> nat \<Rightarrow> bool" where
  "word_at s i \<longleftrightarrow> i < length s \<and> word_char (s ! i)"

definition boundary :: "string \<Rightarrow> nat \<Rightarrow> bool" where
  "boundary s i \<longleftrightarrow> (0 < i \<and> word_at s (i - 1)) \<noteq> word_at s i"

definition match_word :: "string \<Rightarrow> string \<Rightarrow> bool" where
  "match_word kw s \<longleftrightarrow>
     list_ex (\<lambda>i. boundary s i \<and> take (length kw) (drop i s) = kw \<and> boundary s (i + length kw))
             [0..<length s + 1]"

definition dangerousPatterns :: "string list" where
  "dangerousPatterns = [''INSERT'', ''UPDATE'', ''DELETE'', ''DROP'', ''CREATE'', ''ALTER'',
     ''TRUNCATE'', ''GRANT'', ''REVOKE'', ''EXEC'', ''EXECUTE'', ''INTO'']"

definition strings_HasPrefix :: "string \<Rightarrow> string \<Rightarrow> bool" where
  "strings_HasPrefix s p \<longleftrightarrow> take (length p) s = p"

definition validateSelectOnly :: "unicode_strings \<Rightarrow> string \<Rightarrow> domain_error option" where
  "validateSelectOnly u sql =
     (let normalized = strings_TrimSpace u (strings_ToUpper u sql)
      in if \<not> strings_HasPrefix normalized ''SELECT'' \<and> \<not> strings_HasPrefix normalized ''WITH''
           then Some ErrNonSelectQuery
         else first_some (\<lambda>pattern. if match_word pattern normalized then Some ErrNonSelectQuery else None)
                dangerousPatterns)"

definition QueryRequest_Validate :: "unicode_strings \<Rightarrow> QueryRequest \<Rightarrow> domain_error option" where
  "QueryRequest_Validate u q =
     (if QR_ID q = [] then Some ErrInvalidQueryID
      else case (if QR_Type q = QueryTypeSQL then
                   (if QR_SQL q = [] then Some ErrEmptySQLQuery
                    else case validateSelectOnly u (QR_SQL q) of
                           Some err \<Rightarrow> Some err
                         | None \<Rightarrow> if QR_TargetDatasets q = [] then Some ErrNoTargetDatasets else None)
                 else if QR_Type q = QueryTypeMetadata \<or> QR_Type q = [] then None
                 else Some ErrInvalidQueryType) of
             Some err \<Rightarrow> Some err
           | None \<Rightarrow> first_error [(QR_Limit q < 0, ErrInvalidLimit), (QR_Offset q < 0, ErrInvalidOffset)])"

section \<open>The words of a text\<close>

text \<open>The maximal runs of word characters, in order, with empty runs between separators.\<close>

fun word_tokens :: "string \<Rightarrow> string list" where
  "word_tokens [] = [[]]"
| "word_tokens (c # s) =
     (if word_char c then (c # hd (word_tokens s)) # tl (word_tokens s) else [] # word_tokens s)"

text \<open>A left-to-right scan for a keyword that remembers whether the previous byte was a word one.\<close>

fun scan :: "string \<Rightarrow> bool \<Rightarrow> string \<Rightarrow> bool" where
  "scan kw prev [] \<longleftrightarrow> False"
| "scan kw prev (c # s) \<longleftrightarrow> \<not> prev \<and> takeWhile word_char (c # s) = kw \<or> scan kw (word_char c) s"

lemma word_tokens_nonempty [simp]: "word_tokens s \<noteq> []"
  by (cases s) auto

lemma hd_word_tokens: "hd (word_tokens s) = takeWhile word_char s"
  by (induction s) auto

lemma word_tokens_code [code]:
  "word_tokens [] = [[]]"
  "word_tokens (c # s) =
     (if word_char c then (case word_tokens s of t # ts \<Rightarrow> (c # t) # ts) else [] # word_tokens s)"
  by (simp, cases "word_tokens s") (simp_all del: word_tokens_nonempty add: word_tokens_nonempty)

lemma scan_tokens:
  assumes "kw \<noteq> []"
  shows "scan kw prev s \<longleftrightarrow> kw \<in> set (if prev then tl (word_tokens s) else word_tokens s)"
proof (induction s arbitrary: prev)
  case Nil
  then show ?case using assms by simp
next
  case (Cons c s)
  have "set (word_tokens s) = insert (takeWhile word_char s) (set (tl (word_tokens s)))"
    by (metis hd_word_tokens list.set(2) list.exhaust_sel word_tokens_nonempty)
  then show ?case using assms by (auto simp: Cons.IH hd_word_tokens)
qed

lemma takeWhile_word_iff:
  assumes "kw \<noteq> []" and "list_all word_char kw"
  shows "takeWhile word_char s = kw \<longleftrightarrow> take (length kw) s = kw \<and> \<not> word_at s (length kw)"
  using assms
proof (induction s arbitrary: kw)
  case Nil
  then show ?case by auto
next
  case (Cons c s)
  then obtain k ks where kw: "kw = k # ks" by (cases kw) auto
  show ?case
  proof (cases ks)
    case Nil
    then show ?thesis using Cons.prems kw by (cases s) (auto simp: word_at_def)
  next
    case (Cons k' ks')
    then show ?thesis using Cons.IH [of ks] Cons.prems kw by (auto simp: word_at_def)
  qed
qed

text \<open>The regular expression at position \<open>i\<close>, for a keyword made of word characters.\<close>

lemma match_at_iff:
  assumes "kw \<noteq> []" and "list_all word_char kw"
  shows "boundary s i \<and> take (length kw) (drop i s) = kw \<and> boundary s (i + length kw)
    \<longleftrightarrow> \<not> (0 < i \<and> word_at s (i - 1)) \<and> takeWhile word_char (drop i s) = kw" (is "?L \<longleftrightarrow> ?R")
proof (cases "take (length kw) (drop i s) = kw")
  case True
  then have len: "i + length kw \<le> length s"
    by (metis assms(1) add.commute drop_eq_Nil length_drop length_take less_diff_conv
        linorder_not_le min.cobounded1 min_def nat_le_linear take_eq_Nil le_diff_conv2)
  have at: "s ! (i + j) = kw ! j" if "j < length kw" for j
    using True that len by (metis add_leD1 nth_drop nth_take)
  have w: "word_at s (i + j)" if "j < length kw" for j
    using assms(2) that len by (auto simp: word_at_def at list_all_length)
  have "word_at s i" using w [of 0] assms(1) by simp
  moreover have "word_at s (i + length kw - 1)"
    using w [of "length kw - 1"] assms(1) by (simp add: Suc_le_eq)
  moreover have "word_at (drop i s) (length kw) \<longleftrightarrow> word_at s (i + length kw)"
    using len by (auto simp: word_at_def)
  ultimately show ?thesis
    using True assms by (auto simp: boundary_def takeWhile_word_iff [OF assms])
next
  case False
  then show ?thesis by (simp add: takeWhile_word_iff [OF assms])
qed

lemma scan_iff:
  assumes "kw \<noteq> []"
  shows "scan kw prev s \<longleftrightarrow>
    (\<exists>i < length s. \<not> (if i = 0 then prev else word_at s (i - 1)) \<and> takeWhile word_char (drop i s) = kw)"
proof (induction s arbitrary: prev)
  case Nil
  then show ?case by simp
next
  case (Cons c s)
  have "(\<exists>i < length (c # s). \<not> (if i = 0 then prev else word_at (c # s) (i - 1))
            \<and> takeWhile word_char (drop i (c # s)) = kw)
      \<longleftrightarrow> (\<not> prev \<and> takeWhile word_char (c # s) = kw)
        \<or> (\<exists>i < length s. \<not> word_at (c # s) i \<and> takeWhile word_char (drop i s) = kw)"
    by (subst length_Cons, subst Ex_less_Suc2) simp
  moreover have "word_at (c # s) i \<longleftrightarrow> (if i = 0 then word_char c else word_at s (i - 1))"
    if "i < length s" for i using that by (cases i) (auto simp: word_at_def)
  then have "(\<exists>i < length s. \<not> word_at (c # s) i \<and> takeWhile word_char (drop i s) = kw)
      \<longleftrightarrow> scan kw (word_char c) s"
    unfolding Cons.IH by (intro ex_cong1) (simp cong: conj_cong)
  ultimately show ?case by (simp only: scan.simps)
qed

lemma match_word_tokens:
  assumes "kw \<noteq> []" and "list_all word_char kw"
  shows "match_word kw s \<longleftrightarrow> kw \<in> set (word_tokens s)"
proof -
  have "match_word kw s \<longleftrightarrow>
      (\<exists>i < length s + 1. \<not> (0 < i \<and> word_at s (i - 1)) \<and> takeWhile word_char (drop i s) = kw)"
    unfolding match_word_def list_ex_iff set_upt match_at_iff [OF assms] by auto
  also have "\<dots> \<longleftrightarrow> scan kw False s"
  proof -
    have "i < length s" if "takeWhile word_char (drop i s) = kw" for i
      using that assms(1) by (cases "i < length s") auto
    then show ?thesis unfolding scan_iff [OF assms(1)] by (intro ex_cong1) (force intro: less_SucI)
  qed
  finally show ?thesis using scan_tokens [OF assms(1)] by simp
qed

lemma dangerous_keywords_are_words:
  "list_all (\<lambda>kw. kw \<noteq> [] \<and> list_all word_char kw) dangerousPatterns"
  by code_simp

lemma dangerous_match:
  "kw \<in> set dangerousPatterns \<Longrightarrow> match_word kw s \<longleftrightarrow> kw \<in> set (word_tokens s)"
  using dangerous_keywords_are_words by (simp add: list_all_iff match_word_tokens)

lemma validateSelectOnly_accepts:
  "validateSelectOnly u sql = None \<longleftrightarrow>
     (let s = strings_TrimSpace u (strings_ToUpper u sql)
      in (strings_HasPrefix s ''SELECT'' \<or> strings_HasPrefix s ''WITH'')
         \<and> set dangerousPatterns \<inter> set (word_tokens s) = {})"
  by (auto simp: validateSelectOnly_def Let_def dangerous_match split: if_splits)

lemma first_some_constant: "first_some (\<lambda>x. if P x then Some e else None) xs \<in> {None, Some e}"
  by (induction xs) auto

lemma validateSelectOnly_error: "validateSelectOnly u sql \<in> {None, Some ErrNonSelectQuery}"
  unfolding validateSelectOnly_def Let_def
  by (split if_split, intro conjI impI) (simp, rule first_some_constant)

lemma upper_char_plain:
  "upper_char CHR ''S'' = CHR ''S''" "upper_char CHR ''E'' = CHR ''E''" "upper_char CHR ''L'' = CHR ''L''"
  "upper_char CHR ''C'' = CHR ''C''" "upper_char CHR ''T'' = CHR ''T''" "upper_char CHR '' '' = CHR '' ''"
  "upper_char CHR ''1'' = CHR ''1''" "upper_char CHR '';'' = CHR '';''"
  by code_simp+

lemma char_classes:
  "word_char CHR ''S''" "word_char CHR ''E''" "word_char CHR ''L''" "word_char CHR ''C''" "word_char CHR ''T''"
  "word_char CHR ''1''" "\<not> word_char CHR '' ''" "\<not> word_char CHR '';''"
  "\<not> space_char CHR ''S''" "ascii_char CHR ''S''"
  "list_all ascii_char ''SELECT 1;''"
  by code_simp+

lemma upper_char_classes: "ascii_char c \<Longrightarrow> ascii_char (upper_char c)"
  by (auto simp: ascii_char_def upper_char_def of_char_of)

lemma space_upper_char: "space_char (upper_char c) \<longleftrightarrow> space_char c"
  by (auto simp: space_char_def upper_char_def of_char_of)

lemma trim_clean:
  assumes "s \<noteq> []" and "\<not> space_char (hd s)" and "\<not> space_char (last s)" and "list_all ascii_char s"
  shows "strings_TrimSpace u s = s"
proof -
  have "dropWhile space_char s = s" using assms(1,2) by (cases s) auto
  moreover have "dropWhile space_char (rev s) = rev s"
    using assms(1,3) by (cases "rev s") (auto simp: last_rev [symmetric] hd_rev)
  moreover have "ascii_char (hd s)" "ascii_char (last s)" using assms(1,4) by (auto simp: list_all_iff)
  ultimately show ?thesis by (simp add: strings_TrimSpace_def hd_rev)
qed

lemma validateSelectOnly_cases:
  "validateSelectOnly u sql =
     (let s = strings_TrimSpace u (strings_ToUpper u sql)
      in if (take 6 s = ''SELECT'' \<or> take 4 s = ''WITH'') \<and> set dangerousPatterns \<inter> set (word_tokens s) = {}
         then None else Some ErrNonSelectQuery)"
proof -
  have "strings_HasPrefix s ''SELECT'' \<longleftrightarrow> take 6 s = ''SELECT''" "strings_HasPrefix s ''WITH'' \<longleftrightarrow> take 4 s = ''WITH''" for s
    by (simp_all add: strings_HasPrefix_def eval_nat_numeral)
  then show ?thesis
    using validateSelectOnly_accepts [of u sql] validateSelectOnly_error [of u sql] by (auto simp: Let_def)
qed

lemma dangerous_set:
  "set dangerousPatterns = {''INSERT'', ''UPDATE'', ''DELETE'', ''DROP'', ''CREATE'', ''ALTER'', ''TRUNCATE'', ''GRANT'',
     ''REVOKE'', ''EXEC'', ''EXECUTE'', ''INTO''}"
  by (simp add: dangerousPatterns_def)

text \<open>On ASCII text the normalisation changes neither the words nor, but for leading spaces, the start.\<close>

lemma word_upper_char [simp]: "word_char (upper_char c) \<longleftrightarrow> word_char c"
  by (auto simp: word_char_def upper_char_def of_char_of Let_def)

lemma word_tokens_upper: "word_tokens (map upper_char s) = map (map upper_char) (word_tokens s)"
  by (induction s) (simp_all add: list.map_sel)

lemma space_char_not_word: "space_char c \<Longrightarrow> \<not> word_char c"
  by (auto simp: space_char_def word_char_def Let_def)

lemma word_tokens_append:
  "\<not> word_char c \<Longrightarrow> word_tokens (s @ c # t) = word_tokens s @ word_tokens t"
  by (induction s) simp_all

lemma word_tokens_leading: "list_all space_char t \<Longrightarrow> word_tokens (t @ s) = replicate (length t) [] @ word_tokens s"
  by (induction t) (simp_all add: space_char_not_word)

lemma word_tokens_trailing: "list_all space_char t \<Longrightarrow> word_tokens (s @ t) = word_tokens s @ replicate (length t) []"
proof (induction t arbitrary: s)
  case (Cons c t)
  have "word_tokens (s @ c # t) = word_tokens s @ word_tokens ([] @ t)"
    using Cons.prems by (simp add: word_tokens_append space_char_not_word)
  then show ?case using Cons.IH [of "[]"] Cons.prems by simp
qed simp

lemma trim_splits:
  assumes "list_all ascii_char s"
  shows "\<exists>a b. list_all space_char a \<and> list_all space_char b \<and> s = a @ strings_TrimSpace u s @ b
    \<and> dropWhile space_char s = strings_TrimSpace u s @ b"
proof -
  let ?t = "dropWhile space_char s" and ?a = "takeWhile space_char s"
  let ?r = "dropWhile space_char (rev ?t)" and ?b = "takeWhile space_char (rev ?t)"
  have "?r \<noteq> []" if "?t \<noteq> []"
    using that by (metis dropWhile_eq_Nil_conv hd_dropWhile list.set_sel(1) set_rev)
  moreover have "set ?t \<subseteq> set s" "set ?r \<subseteq> set s"
    by (blast dest: set_dropWhileD, force dest: set_dropWhileD)
  ultimately have "ascii_char (hd ?t) \<and> ascii_char (hd ?r)" if "?t \<noteq> []"
    using that assms hd_in_set unfolding list_all_iff by (metis subsetD)
  then have trim: "strings_TrimSpace u s = rev ?r" by (auto simp: strings_TrimSpace_def Let_def)
  have "?t = rev ?r @ rev ?b"
    by (metis rev_append rev_rev_ident takeWhile_dropWhile_id)
  moreover have "s = ?a @ ?t" by simp
  moreover have "list_all space_char ?a" "list_all space_char (rev ?b)"
    by (auto simp: list_all_iff dest: set_takeWhileD)
  ultimately show ?thesis unfolding trim by metis
qed

lemma dropWhile_upper: "dropWhile space_char (map upper_char s) = map upper_char (dropWhile space_char s)"
  by (simp add: dropWhile_map comp_def space_upper_char)

lemma normalized_start:
  assumes "list_all ascii_char sql" and "list_all word_char kw"
  shows "take (length kw) (strings_TrimSpace u (strings_ToUpper u sql)) = kw
    \<longleftrightarrow> take (length kw) (map upper_char (dropWhile space_char sql)) = kw"
proof -
  let ?s = "strings_TrimSpace u (map upper_char sql)"
  have "list_all ascii_char (map upper_char sql)"
    using assms(1) by (auto simp: list_all_iff upper_char_classes)
  then obtain b where b: "list_all space_char b" "map upper_char (dropWhile space_char sql) = ?s @ b"
    using trim_splits [of "map upper_char sql" u] by (auto simp: dropWhile_upper)
  have "length kw \<le> length ?s" if t: "take (length kw) (?s @ b) = kw"
  proof (rule ccontr)
    assume short: "\<not> length kw \<le> length ?s"
    with t have kw: "kw = ?s @ take (length kw - length ?s) b" (is "_ = _ @ ?c") by simp
    moreover have "?c \<noteq> []" using short kw by (metis append_Nil2 order_refl)
    ultimately have "hd ?c \<in> set kw" "hd ?c \<in> set b"
      by (metis Un_iff hd_in_set set_append, metis hd_in_set in_set_takeD)
    then have "word_char (hd ?c)" "space_char (hd ?c)" using assms(2) b(1) by (simp_all add: list_all_iff)
    then show False using space_char_not_word by blast
  qed
  moreover have "length kw \<le> length ?s" if "take (length kw) ?s = kw"
    using that by (metis length_take min.cobounded1)
  moreover have "take (length kw) (?s @ b) = take (length kw) ?s" if "length kw \<le> length ?s"
    using that by simp
  ultimately have "take (length kw) ?s = kw \<longleftrightarrow> take (length kw) (?s @ b) = kw" by metis
  then show ?thesis using assms(1) by (simp only: b(2) strings_ToUpper_def if_True)
qed

lemma normalized_words:
  assumes "list_all ascii_char sql" and "kw \<noteq> []"
  shows "kw \<in> set (word_tokens (strings_TrimSpace u (strings_ToUpper u sql)))
    \<longleftrightarrow> (\<exists>w \<in> set (word_tokens sql). map upper_char w = kw)"
proof -
  let ?s = "strings_TrimSpace u (map upper_char sql)"
  have "list_all ascii_char (map upper_char sql)"
    using assms(1) by (auto simp: list_all_iff upper_char_classes)
  then obtain a b where ab: "list_all space_char a" "list_all space_char b" "map upper_char sql = a @ ?s @ b"
    using trim_splits [of "map upper_char sql" u] by auto
  have "word_tokens (a @ ?s @ b) = replicate (length a) [] @ word_tokens ?s @ replicate (length b) []"
    using ab(1,2) by (simp only: word_tokens_leading word_tokens_trailing)
  then have "word_tokens (map upper_char sql) = replicate (length a) [] @ word_tokens ?s @ replicate (length b) []"
    unfolding ab(3) [symmetric] .
  then have "kw \<in> set (word_tokens ?s) \<longleftrightarrow> kw \<in> set (word_tokens (map upper_char sql))"
    using assms(2) by simp
  then show ?thesis using assms(1) by (auto simp: strings_ToUpper_def word_tokens_upper)
qed

section \<open>Properties\<close>

text \<open>
  C33. The filter is exact. Whatever the text, it is rejected with the error for non-select queries
  unless its upper-cased, trimmed form starts with \<open>SELECT\<close> or \<open>WITH\<close> and has none of the words
  \<open>INSERT\<close>, \<open>UPDATE\<close>, \<open>DELETE\<close>, \<open>DROP\<close>, \<open>CREATE\<close>, \<open>ALTER\<close>, \<open>TRUNCATE\<close>, \<open>GRANT\<close>, \<open>REVOKE\<close>, \<open>EXEC\<close>,
  \<open>EXECUTE\<close> and \<open>INTO\<close>, a word being a maximal run of ASCII letters, digits and underscores. For an
  ASCII text this reads on the text as the client sent it: the letters after the leading spaces,
  in any case, are \<open>select\<close> or \<open>with\<close>, and no word of the text is one of the twelve in any
  case.
\<close>

theorem select_filter_exact:
  "validateSelectOnly u sql =
     (let s = strings_TrimSpace u (strings_ToUpper u sql)
      in if (take 6 s = ''SELECT'' \<or> take 4 s = ''WITH'')
            \<and> {''INSERT'', ''UPDATE'', ''DELETE'', ''DROP'', ''CREATE'', ''ALTER'', ''TRUNCATE'', ''GRANT'',
               ''REVOKE'', ''EXEC'', ''EXECUTE'', ''INTO''} \<inter> set (word_tokens s) = {}
         then None else Some ErrNonSelectQuery)
   \<and> (list_all ascii_char sql \<longrightarrow>
        validateSelectOnly u sql =
          (let start = map upper_char (dropWhile space_char sql)
           in if (take 6 start = ''SELECT'' \<or> take 4 start = ''WITH'')
                 \<and> (\<forall>w \<in> set (word_tokens sql). map upper_char w \<notin>
                      {''INSERT'', ''UPDATE'', ''DELETE'', ''DROP'', ''CREATE'', ''ALTER'', ''TRUNCATE'', ''GRANT'',
                       ''REVOKE'', ''EXEC'', ''EXECUTE'', ''INTO''})
              then None else Some ErrNonSelectQuery))"
  unfolding dangerous_set [symmetric]
proof (intro conjI impI validateSelectOnly_cases)
  assume ascii: "list_all ascii_char sql"
  let ?s = "strings_TrimSpace u (strings_ToUpper u sql)"
  let ?start = "map upper_char (dropWhile space_char sql)"
  have "list_all word_char ''SELECT''" "list_all word_char ''WITH''" by code_simp+
  then have "take 6 ?s = ''SELECT'' \<longleftrightarrow> take 6 ?start = ''SELECT''"
    and "take 4 ?s = ''WITH'' \<longleftrightarrow> take 4 ?start = ''WITH''"
    using normalized_start [OF ascii, of "''SELECT''" u] normalized_start [OF ascii, of "''WITH''" u]
    by (simp_all add: eval_nat_numeral)
  moreover have "kw \<noteq> []" if "kw \<in> set dangerousPatterns" for kw
    using that dangerous_keywords_are_words by (auto simp: list_all_iff)
  then have "set dangerousPatterns \<inter> set (word_tokens ?s) = {}
      \<longleftrightarrow> (\<forall>w \<in> set (word_tokens sql). map upper_char w \<notin> set dangerousPatterns)"
    using normalized_words [OF ascii, of _ u] by blast
  ultimately show "validateSelectOnly u sql =
      (let start = ?start
       in if (take 6 start = ''SELECT'' \<or> take 4 start = ''WITH'')
             \<and> (\<forall>w \<in> set (word_tokens sql). map upper_char w \<notin> set dangerousPatterns)
          then None else Some ErrNonSelectQuery)"
    unfolding validateSelectOnly_cases Let_def by simp
qed

theorem select_filter_exact_witness:
  "validateSelectOnly \<lparr>unicode_ToUpper = id, unicode_TrimSpace = id\<rparr> '' select a_into, b from t'' = None"
proof -
  let ?sql = "'' select a_into, b from t''"
  have ascii: "list_all ascii_char ?sql" by code_simp
  have "(let start = map upper_char (dropWhile space_char ?sql)
         in if (take 6 start = ''SELECT'' \<or> take 4 start = ''WITH'')
               \<and> (\<forall>w \<in> set (word_tokens ?sql). map upper_char w \<notin>
                    {''INSERT'', ''UPDATE'', ''DELETE'', ''DROP'', ''CREATE'', ''ALTER'', ''TRUNCATE'', ''GRANT'',
                     ''REVOKE'', ''EXEC'', ''EXECUTE'', ''INTO''})
            then None else Some ErrNonSelectQuery) = None"
    by code_simp
  then show ?thesis by (rule trans [OF mp [OF conjunct2 [OF select_filter_exact] ascii]])
qed

text \<open>
  The filter does not keep a request to one \<open>SELECT\<close>: after \<open>SELECT 1;\<close> any second
  statement passes validation that avoids the twelve words, for example a procedure call or a
  \<open>VACUUM\<close>.
\<close>

theorem second_statement_accepted:
  assumes "QR_ID q \<noteq> []" and "QR_Type q = QueryTypeSQL" and "QR_TargetDatasets q \<noteq> []"
    and "0 \<le> QR_Limit q" and "0 \<le> QR_Offset q"
    and "QR_SQL q = ''SELECT 1;'' @ t" and "list_all ascii_char t" and "t \<noteq> []" and "\<not> space_char (last t)"
    and "set dangerousPatterns \<inter> set (word_tokens (map upper_char t)) = {}"
  shows "QueryRequest_Validate u q = None"
proof -
  let ?n = "''SELECT 1;'' @ map upper_char t"
  have up: "strings_ToUpper u (QR_SQL q) = ?n"
    using assms(6,7) char_classes(11) by (simp add: strings_ToUpper_def upper_char_plain)
  have "list_all ascii_char ?n" using assms(7) char_classes(11) by (auto simp: list_all_iff upper_char_classes)
  then have norm: "strings_TrimSpace u (strings_ToUpper u (QR_SQL q)) = ?n"
    unfolding up using assms(8,9) by (intro trim_clean) (simp_all add: char_classes last_map space_upper_char)
  have "word_tokens ?n = ''SELECT'' # ''1'' # word_tokens (map upper_char t)"
    by (simp add: char_classes)
  moreover have "''SELECT'' \<notin> set dangerousPatterns" "''1'' \<notin> set dangerousPatterns"
    by (simp_all add: dangerousPatterns_def)
  ultimately have "validateSelectOnly u (QR_SQL q) = None"
    unfolding validateSelectOnly_accepts norm Let_def using assms(10) by (simp add: strings_HasPrefix_def)
  then show ?thesis using assms by (simp add: QueryRequest_Validate_def)
qed

theorem second_statement_accepted_witness:
  "QueryRequest_Validate \<lparr>unicode_ToUpper = id, unicode_TrimSpace = id\<rparr>
     \<lparr>QR_ID = ''q1'', QR_Type = QueryTypeSQL, QR_TopicID = [], QR_DatasetID = [],
      QR_TargetDatasets = [\<lparr>DT_DatasetID = ''d'', DT_VersionID = [], DT_Alias = ''t''\<rparr>],
      QR_SQL = ''SELECT 1;'' @ ''vacuum t'', QR_NamePattern = [], QR_Expression = [], QR_Limit = 10,
      QR_Offset = 0, QR_StreamResults = False, QR_Timeout = 0, QR_RequestedBy = ''u'', QR_RequestedAt = 0\<rparr> = None"
proof -
  have "set dangerousPatterns \<inter> set (word_tokens (map upper_char ''vacuum t'')) = {}"
    "list_all ascii_char ''vacuum t''" "\<not> space_char (last ''vacuum t'')" by code_simp+
  then show ?thesis by (intro second_statement_accepted [where t = "''vacuum t''"]) simp_all
qed

end
