(* ===== verification/P2P_Wire.thy ===== *)
theory P2P_Wire
  imports Transfers Queries
begin

text \<open>
  The request and response protocol between nodes (\<open>internal/p2p/protocol.go\<close> and
  \<open>protocol_client.go\<close>): messages framed by a length of four bytes, the handlers of the serving
  node with their callbacks, and the methods of the calling node. A stream is the list of the
  segments in which its bytes arrive; a read returns bytes of one segment, and \<open>io.ReadFull\<close> joins
  them. The text of JSON documents is an argument, a pair of functions per type that is encoded.

  Shown: a frame is read back however it is split into segments, and refused above ten megabytes;
  a request answered by the handlers of another node returns what its callback returned; the
  client, which reads with a bare \<open>Read\<close>, sees a response that arrives in two segments with its end
  replaced by zero bytes; after an exchange of states two nodes know the same hashes.
\<close>

section \<open>Streams and frames\<close>

type_synonym segments = "bytes list"

definition stream_Read :: "nat \<Rightarrow> segments \<Rightarrow> (bytes \<times> segments) option" where
  "stream_Read n segs =
     (if n = 0 then Some ([], segs)
      else case segs of
             [] \<Rightarrow> None
           | s # rest \<Rightarrow> Some (take n s, if length s \<le> n then rest else drop n s # rest))"

fun io_ReadFull :: "nat \<Rightarrow> segments \<Rightarrow> (bytes \<times> segments) option" where
  "io_ReadFull 0 segs = Some ([], segs)"
| "io_ReadFull (Suc n) [] = None"
| "io_ReadFull (Suc n) (s # rest) =
     (if Suc n < length s then Some (take (Suc n) s, drop (Suc n) s # rest)
      else map_option (\<lambda>(b, r). (s @ b, r)) (io_ReadFull (Suc n - length s) rest))"

text \<open>The shifted bytes of a length do not overlap: their disjunction is their sum.\<close>

definition length_prefix :: "nat \<Rightarrow> bytes" where
  "length_prefix n = [of_nat (n div 2 ^ 24), of_nat (n div 2 ^ 16), of_nat (n div 2 ^ 8), of_nat n]"

definition prefix_length :: "bytes \<Rightarrow> nat" where
  "prefix_length b = unat (b ! 0) * 2 ^ 24 + unat (b ! 1) * 2 ^ 16 + unat (b ! 2) * 2 ^ 8 + unat (b ! 3)"

definition maxMessage :: nat where "maxMessage = 10 * 1024 * 1024"

datatype wire_error =
    StreamNotOpened | WriteFailed | ReadFailed | TooLarge nat | Malformed | NotEncoded | PeerError string | Refused string

record 'm codec =
  marshal :: "'m \<Rightarrow> bytes option"
  unmarshal :: "bytes \<Rightarrow> 'm option"

definition read_body :: "segments \<Rightarrow> wire_error + bytes" where
  "read_body segs =
     (case io_ReadFull 4 segs of
        None \<Rightarrow> Inl ReadFailed
      | Some (h, segs') \<Rightarrow>
          let n = prefix_length h
          in if n > maxMessage then Inl (TooLarge n)
             else case io_ReadFull n segs' of
                    None \<Rightarrow> Inl ReadFailed
                  | Some (b, r) \<Rightarrow> Inr b)"

definition readMessage :: "'m codec \<Rightarrow> segments \<Rightarrow> wire_error + 'm" where
  "readMessage c segs =
     (case read_body segs of
        Inl e \<Rightarrow> Inl e
      | Inr b \<Rightarrow> (case unmarshal c b of None \<Rightarrow> Inl Malformed | Some m \<Rightarrow> Inr m))"

definition writeMessage :: "'m codec \<Rightarrow> 'm \<Rightarrow> bytes option" where
  "writeMessage c m = map_option (\<lambda>b. length_prefix (length b) @ b) (marshal c m)"

section \<open>Messages\<close>

record ErrorPayload =
  EP_Code :: int
  EP_Message :: string
  EP_Details :: "(string \<times> string) list"

record Message =
  M_Type :: string
  M_RequestID :: string
  M_Payload :: string
  M_Error :: "ErrorPayload option"

record QueryColumn =
  QC_Name :: string
  QC_Type :: string
  QC_Nullable :: bool

record QueryResult =
  Res_QueryID :: string
  Res_Type :: string
  Res_Entries :: "CatalogEntry list"
  Res_Columns :: "QueryColumn list"
  Res_Rows :: "string list list"
  Res_TotalCount :: int
  Res_FromCache :: bool
  Res_SourcePeer :: string
  Res_ExecutionTimeMs :: int
  Res_Truncated :: bool
  Res_Error :: string

definition empty_result :: "string \<Rightarrow> QueryResult" where
  "empty_result qid =
     \<lparr>Res_QueryID = qid, Res_Type = '''', Res_Entries = [], Res_Columns = [], Res_Rows = [], Res_TotalCount = 0,
      Res_FromCache = False, Res_SourcePeer = '''', Res_ExecutionTimeMs = 0, Res_Truncated = False, Res_Error = ''''\<rparr>"

text \<open>
  Requests and replies whose type the source spells as an anonymous struct or a map: the tuple of
  their fields. The text of each type of document, and the reader of the type the peer expects.
\<close>

record ('a, 'b) text_codec =
  enc :: "'a \<Rightarrow> string"
  dec :: "string \<Rightarrow> 'b option"

record json_texts =
  J_message :: "Message codec"
  J_catalog :: "(Catalog option, Catalog) text_codec"
  J_query :: "(QueryRequest, QueryRequest) text_codec"
  J_result :: "(QueryResult, QueryResult) text_codec"
  J_peer_info :: "(string \<times> string list \<times> string list, string \<times> string list \<times> string list) text_codec"
  J_announce :: "(CatalogEntry list \<times> string list, CatalogEntry list \<times> string list) text_codec"
  J_entries_received :: "(nat, nat) text_codec"
  J_dataset_request :: "(DatasetID, DatasetID \<times> string) text_codec"
  J_dataset :: "(Dataset, Dataset) text_codec"
  J_chunk_request :: "(DatasetID \<times> int, DatasetID \<times> int) text_codec"
  J_chunk :: "(Chunk, Chunk) text_codec"
  J_chunks_request :: "(DatasetID \<times> int list, DatasetID \<times> int list) text_codec"
  J_chunks :: "(Chunk list, Chunk list) text_codec"
  J_sync_status :: "(SyncStatus, SyncStatus) text_codec"
  J_sync_request :: "(64 word \<times> string list, 64 word \<times> string list) text_codec"
  J_sync_response :: "(string list \<times> string list \<times> 64 word, string list \<times> string list \<times> 64 word) text_codec"
  J_job_reply :: "(bool \<times> string, bool \<times> string \<times> string) text_codec"
  J_syntax_error :: string
  J_error_text :: "wire_error \<Rightarrow> string"

definition reply :: "string \<Rightarrow> string \<Rightarrow> Message" where
  "reply t payload = \<lparr>M_Type = t, M_RequestID = '''', M_Payload = payload, M_Error = None\<rparr>"

definition error_message :: "int \<Rightarrow> string \<Rightarrow> Message" where
  "error_message code text =
     \<lparr>M_Type = ''error'', M_RequestID = '''', M_Payload = '''',
      M_Error = Some \<lparr>EP_Code = code, EP_Message = text, EP_Details = []\<rparr>\<rparr>"

section \<open>The serving node\<close>

text \<open>
  The callbacks of the node; the provider of the catalog is the value it returns, which may be nil.
\<close>

record ProtocolHandler =
  PH_id :: string
  PH_addrs :: "string list"
  PH_catalog :: Catalog
  PH_onGetCatalog :: "Catalog option option"
  PH_onQueryCatalog :: "(QueryRequest \<Rightarrow> string + QueryResult) option"
  PH_onGetDataset :: "(DatasetID \<Rightarrow> string + Dataset) option"
  PH_onGetChunk :: "(DatasetID \<Rightarrow> int \<Rightarrow> string + Chunk) option"

definition NewProtocolHandler :: "string \<Rightarrow> string list \<Rightarrow> instant \<Rightarrow> ProtocolHandler" where
  "NewProtocolHandler hid addrs now =
     \<lparr>PH_id = hid, PH_addrs = addrs,
      PH_catalog = \<lparr>Catalog_PeerID = hid, Catalog_Entries = [], Catalog_LastUpdated = now, Catalog_Version = 0\<rparr>,
      PH_onGetCatalog = None, PH_onQueryCatalog = None, PH_onGetDataset = None, PH_onGetChunk = None\<rparr>"

definition SupportedProtocols :: "string list" where
  "SupportedProtocols =
     [''/bib/discovery/1.0.0'', ''/bib/data/1.0.0'', ''/bib/jobs/1.0.0'', ''/bib/sync/1.0.0'', ''/bib/grpc/1.0.0'']"

definition current_catalog :: "ProtocolHandler \<Rightarrow> Catalog option" where
  "current_catalog ph = (case PH_onGetCatalog ph of None \<Rightarrow> Some (PH_catalog ph) | Some c \<Rightarrow> c)"

definition handleGetCatalog :: "json_texts \<Rightarrow> ProtocolHandler \<Rightarrow> Message \<Rightarrow> string + Message" where
  "handleGetCatalog j ph msg = Inr (reply ''catalog'' (enc (J_catalog j) (current_catalog ph)))"

definition handleQueryCatalog :: "json_texts \<Rightarrow> ProtocolHandler \<Rightarrow> Message \<Rightarrow> string + Message" where
  "handleQueryCatalog j ph msg =
     (case dec (J_query j) (M_Payload msg) of
        None \<Rightarrow> Inl (J_syntax_error j)
      | Some req \<Rightarrow>
          (case PH_onQueryCatalog ph of
             None \<Rightarrow> Inr (reply ''query_result'' (enc (J_result j) (empty_result (QR_ID req))))
           | Some query \<Rightarrow>
               (case query req of
                  Inl err \<Rightarrow> Inl err
                | Inr result \<Rightarrow> Inr (reply ''query_result'' (enc (J_result j) result)))))"

definition handleGetPeerInfo :: "json_texts \<Rightarrow> ProtocolHandler \<Rightarrow> Message \<Rightarrow> string + Message" where
  "handleGetPeerInfo j ph msg = Inr (reply ''peer_info'' (enc (J_peer_info j) (PH_id ph, PH_addrs ph, SupportedProtocols)))"

definition handleAnnounce :: "json_texts \<Rightarrow> ProtocolHandler \<Rightarrow> Message \<Rightarrow> string + Message" where
  "handleAnnounce j ph msg =
     (case dec (J_announce j) (M_Payload msg) of
        None \<Rightarrow> Inl (J_syntax_error j)
      | Some (new, removed) \<Rightarrow> Inr (reply ''announce_ack'' (enc (J_entries_received j) (length new))))"

definition handleGetDatasetInfo :: "json_texts \<Rightarrow> ProtocolHandler \<Rightarrow> Message \<Rightarrow> string + Message" where
  "handleGetDatasetInfo j ph msg =
     (case dec (J_dataset_request j) (M_Payload msg) of
        None \<Rightarrow> Inl (J_syntax_error j)
      | Some (datasetID, h) \<Rightarrow>
          (case PH_onGetDataset ph of
             None \<Rightarrow> Inl ''dataset not found''
           | Some get \<Rightarrow>
               (case get datasetID of
                  Inl err \<Rightarrow> Inl err
                | Inr d \<Rightarrow> Inr (reply ''dataset_info'' (enc (J_dataset j) d)))))"

definition handleGetChunk :: "json_texts \<Rightarrow> ProtocolHandler \<Rightarrow> Message \<Rightarrow> string + Message" where
  "handleGetChunk j ph msg =
     (case dec (J_chunk_request j) (M_Payload msg) of
        None \<Rightarrow> Inl (J_syntax_error j)
      | Some (datasetID, i) \<Rightarrow>
          (case PH_onGetChunk ph of
             None \<Rightarrow> Inl ''chunk not found''
           | Some get \<Rightarrow>
               (case get datasetID i of
                  Inl err \<Rightarrow> Inl err
                | Inr c \<Rightarrow> Inr (reply ''chunk'' (enc (J_chunk j) c)))))"

text \<open>Chunks that are missing are left out of the answer.\<close>

definition found_chunks :: "(DatasetID \<Rightarrow> int \<Rightarrow> string + Chunk) \<Rightarrow> DatasetID \<Rightarrow> int list \<Rightarrow> Chunk list" where
  "found_chunks get datasetID is =
     List.map_filter (\<lambda>i. case get datasetID i of Inl err \<Rightarrow> None | Inr c \<Rightarrow> Some c) is"

definition handleGetChunks :: "json_texts \<Rightarrow> ProtocolHandler \<Rightarrow> Message \<Rightarrow> string + Message" where
  "handleGetChunks j ph msg =
     (case dec (J_chunks_request j) (M_Payload msg) of
        None \<Rightarrow> Inl (J_syntax_error j)
      | Some (datasetID, is) \<Rightarrow>
          (case PH_onGetChunk ph of
             None \<Rightarrow> Inl ''chunk not found''
           | Some get \<Rightarrow> Inr (reply ''chunks'' (enc (J_chunks j) (found_chunks get datasetID is)))))"

definition handleGetSyncStatus :: "json_texts \<Rightarrow> instant \<Rightarrow> ProtocolHandler \<Rightarrow> Message \<Rightarrow> string + Message" where
  "handleGetSyncStatus j now ph msg =
     Inr (reply ''sync_status''
       (enc (J_sync_status j)
          \<lparr>Sync_InProgress = False, Sync_LastSyncTime = now, Sync_LastSyncError = '''',
           Sync_PendingEntries = 0, Sync_SyncedEntries = 0\<rparr>))"

text \<open>What the caller lacks, in the order of our catalog, and what we lack, in the order of its request.\<close>

definition missing_hashes :: "string list \<Rightarrow> CatalogEntry list \<Rightarrow> string list" where
  "missing_hashes theirs entries = filter (\<lambda>h. h \<notin> set theirs) (map Entry_Hash entries)"

definition wanted_hashes :: "string list \<Rightarrow> CatalogEntry list \<Rightarrow> string list" where
  "wanted_hashes theirs entries = filter (\<lambda>h. h \<notin> Entry_Hash ` set entries) theirs"

text \<open>A provider that returns a nil catalog makes this handler panic (\<open>None\<close>).\<close>

definition handleSyncState :: "json_texts \<Rightarrow> ProtocolHandler \<Rightarrow> Message \<Rightarrow> (string + Message) option" where
  "handleSyncState j ph msg =
     (case dec (J_sync_request j) (M_Payload msg) of
        None \<Rightarrow> Some (Inl (J_syntax_error j))
      | Some (version, hashes) \<Rightarrow>
          (case current_catalog ph of
             None \<Rightarrow> None
           | Some c \<Rightarrow> Some (Inr (reply ''sync_state_response''
               (enc (J_sync_response j)
                  (missing_hashes hashes (Catalog_Entries c), wanted_hashes hashes (Catalog_Entries c), Catalog_Version c))))))"

definition handleSubmitJob :: "json_texts \<Rightarrow> ProtocolHandler \<Rightarrow> Message \<Rightarrow> string + Message" where
  "handleSubmitJob j ph msg = Inr (reply ''job_accepted'' (enc (J_job_reply j) (False, ''job submission not yet implemented'')))"

definition handleGetJobStatus :: "json_texts \<Rightarrow> ProtocolHandler \<Rightarrow> Message \<Rightarrow> string + Message" where
  "handleGetJobStatus j ph msg = Inl ''job not found''"

text \<open>The table of handlers: \<open>None\<close> for a type that has none; inside, \<open>None\<close> for a panic.\<close>

definition handlers ::
    "json_texts \<Rightarrow> instant \<Rightarrow> ProtocolHandler \<Rightarrow> string \<Rightarrow> (Message \<Rightarrow> (string + Message) option) option" where
  "handlers j now ph =
     [''get_catalog'' \<mapsto> Some \<circ> handleGetCatalog j ph,
      ''query_catalog'' \<mapsto> Some \<circ> handleQueryCatalog j ph,
      ''get_peer_info'' \<mapsto> Some \<circ> handleGetPeerInfo j ph,
      ''announce'' \<mapsto> Some \<circ> handleAnnounce j ph,
      ''get_dataset_info'' \<mapsto> Some \<circ> handleGetDatasetInfo j ph,
      ''get_chunk'' \<mapsto> Some \<circ> handleGetChunk j ph,
      ''get_chunks'' \<mapsto> Some \<circ> handleGetChunks j ph,
      ''get_sync_status'' \<mapsto> Some \<circ> handleGetSyncStatus j now ph,
      ''sync_state'' \<mapsto> handleSyncState j ph,
      ''submit_job'' \<mapsto> Some \<circ> handleSubmitJob j ph,
      ''get_job_status'' \<mapsto> Some \<circ> handleGetJobStatus j ph]"

text \<open>The message a stream is answered with, and its bytes; \<open>None\<close> is a panic.\<close>

definition answer :: "json_texts \<Rightarrow> instant \<Rightarrow> ProtocolHandler \<Rightarrow> segments \<Rightarrow> Message option" where
  "answer j now ph segs =
     (case readMessage (J_message j) segs of
        Inl e \<Rightarrow> Some (error_message 400 (''failed to read message: '' @ J_error_text j e))
      | Inr msg \<Rightarrow>
          (case handlers j now ph (M_Type msg) of
             None \<Rightarrow> Some (error_message 404 (''unknown message type: '' @ M_Type msg))
           | Some handler \<Rightarrow>
               (case handler msg of
                  None \<Rightarrow> None
                | Some (Inl err) \<Rightarrow> Some (error_message 500 err)
                | Some (Inr resp) \<Rightarrow> Some (resp\<lparr>M_RequestID := M_RequestID msg\<rparr>))))"

definition handleStream :: "json_texts \<Rightarrow> instant \<Rightarrow> ProtocolHandler \<Rightarrow> segments \<Rightarrow> bytes option" where
  "handleStream j now ph segs =
     map_option (\<lambda>m. case writeMessage (J_message j) m of None \<Rightarrow> [] | Some bs \<Rightarrow> bs) (answer j now ph segs)"

section \<open>The calling node\<close>

text \<open>
  A stream to the peer: \<open>None\<close> when it could not be opened, otherwise the segments of the response
  to the bytes written, or \<open>None\<close> when writing failed. A bare read leaves the end of its buffer zero.
\<close>

type_synonym peer_stream = "(bytes \<Rightarrow> segments option) option"

definition read_buffer :: "nat \<Rightarrow> segments \<Rightarrow> (bytes \<times> segments) option" where
  "read_buffer n segs = map_option (\<lambda>(b, r). (b @ replicate (n - length b) 0, r)) (stream_Read n segs)"

definition read_response :: "segments \<Rightarrow> wire_error + bytes" where
  "read_response segs =
     (case read_buffer 4 segs of
        None \<Rightarrow> Inl ReadFailed
      | Some (h, segs') \<Rightarrow>
          let n = prefix_length h
          in if n > maxMessage then Inl (TooLarge n)
             else case read_buffer n segs' of
                    None \<Rightarrow> Inl ReadFailed
                  | Some (b, r) \<Rightarrow> Inr b)"

definition sendRequest :: "json_texts \<Rightarrow> string \<Rightarrow> peer_stream \<Rightarrow> Message \<Rightarrow> wire_error + Message" where
  "sendRequest j uuid stream msg =
     (case stream of
        None \<Rightarrow> Inl StreamNotOpened
      | Some exchange \<Rightarrow>
          let msg' = (if M_RequestID msg = '''' then msg\<lparr>M_RequestID := uuid\<rparr> else msg)
          in case writeMessage (J_message j) msg' of
               None \<Rightarrow> Inl NotEncoded
             | Some bs \<Rightarrow>
                 (case exchange bs of
                    None \<Rightarrow> Inl WriteFailed
                  | Some segs \<Rightarrow>
                      (case read_response segs of
                         Inl e \<Rightarrow> Inl e
                       | Inr body \<Rightarrow>
                           (case unmarshal (J_message j) body of
                              None \<Rightarrow> Inl Malformed
                            | Some resp \<Rightarrow>
                                (case M_Error resp of Some e \<Rightarrow> Inl (PeerError (EP_Message e)) | None \<Rightarrow> Inr resp)))))"

definition call ::
    "json_texts \<Rightarrow> string \<Rightarrow> peer_stream \<Rightarrow> string \<Rightarrow> string \<Rightarrow> (string \<Rightarrow> 'b option) \<Rightarrow> wire_error + 'b" where
  "call j uuid exchange t payload decode =
     (case sendRequest j uuid exchange (reply t payload) of
        Inl e \<Rightarrow> Inl e
      | Inr resp \<Rightarrow> (case decode (M_Payload resp) of None \<Rightarrow> Inl Malformed | Some v \<Rightarrow> Inr v))"

definition Client_GetCatalog :: "json_texts \<Rightarrow> string \<Rightarrow> peer_stream \<Rightarrow> wire_error + Catalog" where
  "Client_GetCatalog j uuid exchange = call j uuid exchange ''get_catalog'' ''{}'' (dec (J_catalog j))"

definition Client_QueryCatalog :: "json_texts \<Rightarrow> string \<Rightarrow> peer_stream \<Rightarrow> QueryRequest \<Rightarrow> wire_error + QueryResult" where
  "Client_QueryCatalog j uuid exchange req = call j uuid exchange ''query_catalog'' (enc (J_query j) req) (dec (J_result j))"

definition Client_GetPeerInfo :: "json_texts \<Rightarrow> string \<Rightarrow> peer_stream \<Rightarrow> wire_error + string \<times> string list \<times> string list" where
  "Client_GetPeerInfo j uuid exchange = call j uuid exchange ''get_peer_info'' ''{}'' (dec (J_peer_info j))"

definition Client_Announce ::
    "json_texts \<Rightarrow> string \<Rightarrow> peer_stream \<Rightarrow> CatalogEntry list \<Rightarrow> string list \<Rightarrow> wire_error option" where
  "Client_Announce j uuid exchange entries removed =
     (case sendRequest j uuid exchange (reply ''announce'' (enc (J_announce j) (entries, removed))) of
        Inl e \<Rightarrow> Some e | Inr _ \<Rightarrow> None)"

definition Client_GetDatasetInfo :: "json_texts \<Rightarrow> string \<Rightarrow> peer_stream \<Rightarrow> DatasetID \<Rightarrow> wire_error + Dataset" where
  "Client_GetDatasetInfo j uuid exchange datasetID =
     call j uuid exchange ''get_dataset_info'' (enc (J_dataset_request j) datasetID) (dec (J_dataset j))"

definition Client_GetChunk :: "json_texts \<Rightarrow> string \<Rightarrow> peer_stream \<Rightarrow> DatasetID \<Rightarrow> int \<Rightarrow> wire_error + Chunk" where
  "Client_GetChunk j uuid exchange datasetID i =
     call j uuid exchange ''get_chunk'' (enc (J_chunk_request j) (datasetID, i)) (dec (J_chunk j))"

definition Client_GetChunks :: "json_texts \<Rightarrow> string \<Rightarrow> peer_stream \<Rightarrow> DatasetID \<Rightarrow> int list \<Rightarrow> wire_error + Chunk list" where
  "Client_GetChunks j uuid exchange datasetID is =
     call j uuid exchange ''get_chunks'' (enc (J_chunks_request j) (datasetID, is)) (dec (J_chunks j))"

definition Client_GetSyncStatus :: "json_texts \<Rightarrow> string \<Rightarrow> peer_stream \<Rightarrow> wire_error + SyncStatus" where
  "Client_GetSyncStatus j uuid exchange = call j uuid exchange ''get_sync_status'' ''{}'' (dec (J_sync_status j))"

definition Client_SyncState ::
    "json_texts \<Rightarrow> string \<Rightarrow> peer_stream \<Rightarrow> 64 word \<Rightarrow> string list
       \<Rightarrow> wire_error + (string list \<times> string list \<times> 64 word)" where
  "Client_SyncState j uuid exchange version hashes =
     call j uuid exchange ''sync_state'' (enc (J_sync_request j) (version, hashes)) (dec (J_sync_response j))"

definition Client_SubmitJob ::
    "json_texts \<Rightarrow> string \<Rightarrow> peer_stream \<Rightarrow> string \<Rightarrow> wire_error + bool \<times> string" where
  "Client_SubmitJob j uuid exchange job =
     (case call j uuid exchange ''submit_job'' job (dec (J_job_reply j)) of
        Inl e \<Rightarrow> Inl e
      | Inr (accepted, jobID, err) \<Rightarrow> if err \<noteq> '''' then Inl (Refused err) else Inr (accepted, jobID))"

section \<open>Frames are read back\<close>

lemma ReadFull_exact:
  assumes "n \<le> length (concat segs)"
  shows "\<exists>r. io_ReadFull n segs = Some (take n (concat segs), r) \<and> concat r = drop n (concat segs)"
  using assms
proof (induction n segs rule: io_ReadFull.induct)
  case (3 n s rest)
  show ?case
  proof (cases "Suc n < length s")
    case False
    then have "Suc n - length s \<le> length (concat rest)" using 3(2) by simp
    from 3(1) [OF False this] obtain r where "io_ReadFull (Suc n - length s) rest = Some (take (Suc n - length s) (concat rest), r)"
      "concat r = drop (Suc n - length s) (concat rest)" by blast
    then show ?thesis using False by simp
  qed simp
qed simp_all

lemma ReadFull_short: "length (concat segs) < n \<Longrightarrow> io_ReadFull n segs = None"
proof (induction n segs rule: io_ReadFull.induct)
  case (3 n s rest)
  then have "\<not> Suc n < length s" "length (concat rest) < Suc n - length s" by auto
  then show ?case using 3(1) by simp
qed simp_all

lemma length_length_prefix [simp]: "length (length_prefix n) = 4"
  by (simp add: length_prefix_def)

lemma base_256:
  fixes n :: nat
  shows "(n div 16777216 mod 256) * 16777216 + (n div 65536 mod 256) * 65536 + (n div 256 mod 256) * 256 + n mod 256 = n mod 4294967296"
proof -
  have step: "n div k mod 256 * k + n mod k = n mod (k * 256)" for k
    by (simp add: mod_mult2_eq mult.commute add.commute)
  show ?thesis using step [of 16777216] step [of 65536] step [of 256] by simp
qed

lemma prefix_length_prefix [simp]: "prefix_length (length_prefix n @ b) = n mod 2 ^ 32"
proof -
  have "unat (of_nat k :: byte) = k mod 256" for k by (simp add: unat_of_nat)
  then show ?thesis using base_256 [of n] by (simp add: prefix_length_def length_prefix_def)
qed

lemma prefix_length_alone [simp]: "prefix_length (length_prefix n) = n mod 2 ^ 32"
  using prefix_length_prefix [of n "[]"] by simp

lemma read_frame:
  assumes "concat segs = length_prefix (length b) @ b @ rest" and "length b < 2 ^ 32"
  shows "read_body segs = (if length b \<le> maxMessage then Inr b else Inl (TooLarge (length b)))"
proof -
  have len: "length (concat segs) = 4 + length b + length rest" unfolding assms(1) by simp
  then obtain r where r: "io_ReadFull 4 segs = Some (take 4 (concat segs), r)" "concat r = drop 4 (concat segs)"
    using ReadFull_exact [of 4 segs] by auto
  have h: "take 4 (concat segs) = length_prefix (length b)" and rb: "concat r = b @ rest"
    unfolding r(2) assms(1) by simp_all
  have m: "prefix_length (length_prefix (length b)) = length b" using assms(2) by simp
  have "length b \<le> length (concat r)" unfolding rb by simp
  from ReadFull_exact [OF this] obtain r' where "io_ReadFull (length b) r = Some (b, r')" unfolding rb by auto
  then show ?thesis unfolding read_body_def r(1) h by (simp only: option.case prod.case Let_def m not_le [symmetric] if_not_P) simp
qed

lemma read_written:
  assumes "writeMessage c m = Some bs" and "marshal c m = Some b" and "unmarshal c b = Some m"
    and "length b \<le> maxMessage" and "concat segs = bs @ rest"
  shows "readMessage c segs = Inr m"
proof -
  have "concat segs = length_prefix (length b) @ b @ rest" using assms(1,2,5) by (simp add: writeMessage_def)
  moreover have "length b < 2 ^ 32" using assms(4) by (simp add: maxMessage_def)
  ultimately have "read_body segs = Inr b" using read_frame assms(4) by simp
  then show ?thesis using assms(3) by (simp add: readMessage_def)
qed

section \<open>A call and its answer\<close>

text \<open>
  A stream to a node that serves with these handlers, its response delivered in the segments
  \<open>deliver\<close> chooses; and a delivery that splits the response at most behind its length, which is
  where the server splits its writes.
\<close>

definition node_stream :: "json_texts \<Rightarrow> instant \<Rightarrow> ProtocolHandler \<Rightarrow> (bytes \<Rightarrow> segments) \<Rightarrow> peer_stream" where
  "node_stream j now ph deliver =
     Some (\<lambda>bs. Some (case handleStream j now ph [bs] of None \<Rightarrow> [] | Some r \<Rightarrow> deliver r))"

definition unsplit :: "bytes \<Rightarrow> segments \<Rightarrow> bool" where
  "unsplit r segs \<longleftrightarrow> segs = [r] \<or> segs = [take 4 r, drop 4 r]"

lemma read_unsplit:
  assumes "unsplit (length_prefix (length b) @ b) segs" and "length b \<le> maxMessage"
  shows "read_response segs = Inr b"
proof -
  have fits: "length b mod 2 ^ 32 = length b" using assms(2) by (simp add: maxMessage_def)
  have first: "\<exists>r. read_buffer 4 segs = Some (length_prefix (length b), r) \<and> (length b > 0 \<longrightarrow> r = [b])"
    using assms(1) by (auto simp: unsplit_def read_buffer_def stream_Read_def)
  then obtain r where r: "read_buffer 4 segs = Some (length_prefix (length b), r)" "length b > 0 \<longrightarrow> r = [b]" by blast
  have "\<exists>r'. read_buffer (length b) r = Some (b, r')" using r(2) by (cases "length b = 0") (auto simp: read_buffer_def stream_Read_def)
  then show ?thesis using r(1) fits assms(2) by (auto simp: read_response_def Let_def)
qed

text \<open>The request as it is sent: with the identifier generated for it.\<close>

definition sent :: "string \<Rightarrow> string \<Rightarrow> string \<Rightarrow> Message" where
  "sent uuid t payload = (reply t payload)\<lparr>M_RequestID := uuid\<rparr>"

text \<open>
  What the encoding of messages is relied on for: a message that was encoded is read back. A
  message that is carried is encoded, within the limit.
\<close>

definition lossless :: "json_texts \<Rightarrow> bool" where
  "lossless j \<longleftrightarrow> (\<forall>m b. marshal (J_message j) m = Some b \<longrightarrow> unmarshal (J_message j) b = Some m)"

definition carried :: "json_texts \<Rightarrow> Message \<Rightarrow> bool" where
  "carried j m \<longleftrightarrow> (case marshal (J_message j) m of None \<Rightarrow> False | Some b \<Rightarrow> length b \<le> maxMessage)"

lemma answer_received:
  assumes "lossless j" and "carried j m" and "writeMessage (J_message j) m = Some bs" and "concat segs = bs"
  shows "answer j now ph segs
    = (case handlers j now ph (M_Type m) of
         None \<Rightarrow> Some (error_message 404 (''unknown message type: '' @ M_Type m))
       | Some handler \<Rightarrow>
           (case handler m of
              None \<Rightarrow> None
            | Some (Inl err) \<Rightarrow> Some (error_message 500 err)
            | Some (Inr resp) \<Rightarrow> Some (resp\<lparr>M_RequestID := M_RequestID m\<rparr>)))"
proof -
  obtain b where b: "marshal (J_message j) m = Some b" "length b \<le> maxMessage"
    using assms(2) by (auto simp: carried_def split: option.splits)
  then have "unmarshal (J_message j) b = Some m" using assms(1) by (simp add: lossless_def)
  from read_written [OF assms(3) b(1) this b(2), of segs "[]"] show ?thesis using assms(4) by (simp add: answer_def)
qed

lemma request_answered:
  assumes "lossless j" and "carried j (sent uuid t payload)" and "\<And>r. unsplit r (deliver r)"
    and "handlers j now ph t = Some handler" and "handler (sent uuid t payload) = Some r"
    and "a = (case r of Inl err \<Rightarrow> error_message 500 err | Inr resp \<Rightarrow> resp\<lparr>M_RequestID := uuid\<rparr>)" and "carried j a"
  shows "sendRequest j uuid (node_stream j now ph deliver) (reply t payload)
    = (case M_Error a of Some e \<Rightarrow> Inl (PeerError (EP_Message e)) | None \<Rightarrow> Inr a)"
proof -
  let ?m = "sent uuid t payload"
  obtain q where q: "marshal (J_message j) ?m = Some q" using assms(2) by (auto simp: carried_def split: option.splits)
  then obtain bs where bs: "writeMessage (J_message j) ?m = Some bs" by (simp add: writeMessage_def)
  have t: "M_Type ?m = t" "M_RequestID ?m = uuid" by (simp_all add: sent_def reply_def)
  have ans: "answer j now ph [bs] = Some a"
    using answer_received [OF assms(1,2) bs, of "[bs]" now ph] t assms(4-6) by (auto split: sum.splits)
  obtain b where b: "marshal (J_message j) a = Some b" "length b \<le> maxMessage"
    using assms(7) by (auto simp: carried_def split: option.splits)
  then have un: "unmarshal (J_message j) b = Some a" using assms(1) by (simp add: lossless_def)
  have "handleStream j now ph [bs] = Some (length_prefix (length b) @ b)"
    using ans b(1) by (simp add: handleStream_def writeMessage_def)
  moreover have "read_response (deliver (length_prefix (length b) @ b)) = Inr b" by (rule read_unsplit [OF assms(3) b(2)])
  moreover have "(if M_RequestID (reply t payload) = '''' then (reply t payload)\<lparr>M_RequestID := uuid\<rparr> else reply t payload) = ?m"
    by (simp add: sent_def reply_def)
  ultimately show ?thesis using bs un by (simp add: sendRequest_def node_stream_def Let_def)
qed

text \<open>
  The method of the client that calls a handler, once for all of them: an error of the handler
  arrives as its text, a reply as its payload decoded.
\<close>

lemma call_answered:
  assumes "lossless j" and "carried j (sent uuid t payload)" and "\<And>r. unsplit r (deliver r)"
    and "handlers j now ph t = Some handler" and "handler (sent uuid t payload) = Some (Inr (reply t' p))"
    and "carried j (sent uuid t' p)" and "decode p = Some v"
  shows "call j uuid (node_stream j now ph deliver) t payload decode = Inr v"
  using request_answered [OF assms(1-5) refl] assms(6,7) by (simp add: call_def sent_def reply_def)

lemma call_failed:
  assumes "lossless j" and "carried j (sent uuid t payload)" and "\<And>r. unsplit r (deliver r)"
    and "handlers j now ph t = Some handler" and "handler (sent uuid t payload) = Some (Inl err)"
    and "carried j (error_message 500 err)"
  shows "call j uuid (node_stream j now ph deliver) t payload decode = Inl (PeerError err)"
  using request_answered [OF assms(1-5) refl] assms(6) by (simp add: call_def error_message_def)

lemma sent_simps [simp]: "M_Type (sent uuid t p) = t" "M_Payload (sent uuid t p) = p" "M_RequestID (sent uuid t p) = uuid"
  by (simp_all add: sent_def reply_def)

section \<open>What the methods return\<close>

lemma dispatched:
  "handlers j now ph ''get_catalog'' = Some (Some \<circ> handleGetCatalog j ph)"
  "handlers j now ph ''query_catalog'' = Some (Some \<circ> handleQueryCatalog j ph)"
  "handlers j now ph ''announce'' = Some (Some \<circ> handleAnnounce j ph)"
  "handlers j now ph ''get_dataset_info'' = Some (Some \<circ> handleGetDatasetInfo j ph)"
  "handlers j now ph ''get_chunk'' = Some (Some \<circ> handleGetChunk j ph)"
  "handlers j now ph ''get_chunks'' = Some (Some \<circ> handleGetChunks j ph)"
  "handlers j now ph ''sync_state'' = Some (handleSyncState j ph)"
  "handlers j now ph ''submit_job'' = Some (Some \<circ> handleSubmitJob j ph)"
  by (simp_all add: handlers_def)

text \<open>The catalog a node serves arrives as it is.\<close>

theorem remote_catalog:
  assumes "lossless j" and "\<And>r. unsplit r (deliver r)" and "carried j (sent uuid ''get_catalog'' ''{}'')"
    and "current_catalog ph = Some c" and "dec (J_catalog j) (enc (J_catalog j) (Some c)) = Some c"
    and "carried j (sent uuid ''catalog'' (enc (J_catalog j) (Some c)))"
  shows "Client_GetCatalog j uuid (node_stream j now ph deliver) = Inr c"
  unfolding Client_GetCatalog_def
  by (rule call_answered [OF assms(1,3,2) dispatched(1)], simp add: handleGetCatalog_def assms, rule assms(6), rule assms(5))

text \<open>
  Chunks: what is fetched is the chunk of the peer without its data, because the field is left out
  of the JSON text.
\<close>

theorem remote_chunk_without_data:
  assumes "lossless j" and "\<And>r. unsplit r (deliver r)"
    and "carried j (sent uuid ''get_chunk'' (enc (J_chunk_request j) (ds, i)))"
    and "dec (J_chunk_request j) (enc (J_chunk_request j) (ds, i)) = Some (ds, i)"
    and "PH_onGetChunk ph = Some get" and "get ds i = Inr c"
    and "dec (J_chunk j) (enc (J_chunk j) c) = Some (chunk_json c)" and "carried j (sent uuid ''chunk'' (enc (J_chunk j) c))"
  shows "\<exists>c'. Client_GetChunk j uuid (node_stream j now ph deliver) ds i = Inr c' \<and> Chunk_Data c' = []
    \<and> Chunk_Hash c' = Chunk_Hash c"
proof -
  have "Client_GetChunk j uuid (node_stream j now ph deliver) ds i = Inr (chunk_json c)"
    unfolding Client_GetChunk_def
    by (rule call_answered [OF assms(1,3,2) dispatched(5)], simp add: handleGetChunk_def assms, rule assms(8), rule assms(7))
  then show ?thesis by (simp add: chunk_json_def)
qed

text \<open>An announcement is acknowledged and changes nothing: the node serves the same catalog after it.\<close>

theorem announce_acknowledged:
  assumes "lossless j" and "\<And>r. unsplit r (deliver r)"
    and "carried j (sent uuid ''announce'' (enc (J_announce j) (new, removed)))"
    and "dec (J_announce j) (enc (J_announce j) (new, removed)) = Some (new, removed)"
    and "carried j (sent uuid ''announce_ack'' (enc (J_entries_received j) (length new)))"
  shows "Client_Announce j uuid (node_stream j now ph deliver) new removed = None"
proof -
  let ?p = "enc (J_announce j) (new, removed)"
  have h: "(Some \<circ> handleAnnounce j ph) (sent uuid ''announce'' ?p)
      = Some (Inr (reply ''announce_ack'' (enc (J_entries_received j) (length new))))"
    using assms(4) by (simp add: handleAnnounce_def)
  show ?thesis
    using request_answered [OF assms(1,3,2) dispatched(3) h refl] assms(5)
    by (simp add: Client_Announce_def sent_def reply_def)
qed

text \<open>No job is ever accepted.\<close>

theorem jobs_refused:
  assumes "lossless j" and "\<And>r. unsplit r (deliver r)" and "carried j (sent uuid ''submit_job'' job)"
    and "p = enc (J_job_reply j) (False, ''job submission not yet implemented'')"
    and "dec (J_job_reply j) p = Some (False, '''', ''job submission not yet implemented'')" and "carried j (sent uuid ''job_accepted'' p)"
  shows "Client_SubmitJob j uuid (node_stream j now ph deliver) job = Inl (Refused ''job submission not yet implemented'')"
proof -
  have "call j uuid (node_stream j now ph deliver) ''submit_job'' job (dec (J_job_reply j))
      = Inr (False, '''', ''job submission not yet implemented'')"
    by (rule call_answered [OF assms(1,3,2) dispatched(8)], simp add: handleSubmitJob_def assms(4), simp_all add: assms(4-6) flip: assms(4))
  then show ?thesis by (simp add: Client_SubmitJob_def)
qed

text \<open>A type without a handler is answered by an error that names it.\<close>

theorem unknown_type_refused:
  assumes "lossless j" and "carried j m" and "writeMessage (J_message j) m = Some bs" and "concat segs = bs"
    and "M_Type m \<notin> {''get_catalog'', ''query_catalog'', ''get_peer_info'', ''announce'', ''get_dataset_info'', ''get_chunk'',
      ''get_chunks'', ''get_sync_status'', ''sync_state'', ''submit_job'', ''get_job_status''}"
  shows "answer j now ph segs = Some (error_message 404 (''unknown message type: '' @ M_Type m))"
  using answer_received [OF assms(1-4), of now ph] assms(5) by (simp add: handlers_def)

text \<open>\<open>get_chunks\<close> returns the chunks that exist, in the order asked for.\<close>

lemma found_chunks_exact:
  "found_chunks get ds is = [c. i \<leftarrow> is, Inr c \<leftarrow> [get ds i]]"
  by (induction "is") (auto simp: found_chunks_def List.map_filter_def split: sum.splits)

section \<open>Properties\<close>

text \<open>
  A frame is read back by the serving node however the network splits it into segments, as long
  as it stays within ten megabytes; a longer one is refused with its length.
\<close>

theorem frame_read_back:
  assumes "writeMessage c m = Some bs" and "marshal c m = Some b" and "unmarshal c b = Some m"
    and "length b < 2 ^ 32" and "concat segs = bs @ rest"
  shows "readMessage c segs = (if length b \<le> maxMessage then Inr m else Inl (TooLarge (length b)))"
proof -
  have "concat segs = length_prefix (length b) @ b @ rest" using assms(1,2,5) by (simp add: writeMessage_def)
  from read_frame [OF this assms(4)] show ?thesis using assms(3) by (simp add: readMessage_def)
qed

text \<open>
  A query sent to a node that serves with a query callback returns exactly what the callback
  returns for that request, and its error as the text of the peer's error: for every node, callback
  and request, when the documents survive their encoding, fit, and the response is not split.
\<close>

theorem remote_query:
  assumes "lossless j" and "\<And>r. unsplit r (deliver r)"
    and "carried j (sent uuid ''query_catalog'' (enc (J_query j) req))"
    and "dec (J_query j) (enc (J_query j) req) = Some req" and "PH_onQueryCatalog ph = Some query"
    and "case query req of Inl err \<Rightarrow> carried j (error_message 500 err)
         | Inr result \<Rightarrow> carried j (sent uuid ''query_result'' (enc (J_result j) result)) \<and> dec (J_result j) (enc (J_result j) result) = Some result"
  shows "Client_QueryCatalog j uuid (node_stream j now ph deliver) req
    = (case query req of Inl err \<Rightarrow> Inl (PeerError err) | Inr result \<Rightarrow> Inr result)"
proof (cases "query req")
  case (Inl err)
  then have "Client_QueryCatalog j uuid (node_stream j now ph deliver) req = Inl (PeerError err)"
    unfolding Client_QueryCatalog_def
    using assms(6) by (intro call_failed [OF assms(1,3,2) dispatched(2)]) (simp_all add: handleQueryCatalog_def assms(4,5))
  then show ?thesis using Inl by simp
next
  case (Inr result)
  then have "Client_QueryCatalog j uuid (node_stream j now ph deliver) req = Inr result"
    unfolding Client_QueryCatalog_def
    using assms(6)
    by (intro call_answered [OF assms(1,3,2) dispatched(2), where t' = "''query_result''" and p = "enc (J_result j) result"])
      (simp_all add: handleQueryCatalog_def assms(4,5))
  then show ?thesis using Inr by simp
qed

text \<open>
  After an exchange of states with another node the caller knows what each side lacks: its own
  hashes with the missing ones are the hashes of the node with the wanted ones, none is listed that
  the receiver already has, and the version is the one of the node's catalog.
\<close>

theorem sync_reconciles:
  assumes "lossless j" and "\<And>r. unsplit r (deliver r)"
    and "carried j (sent uuid ''sync_state'' (enc (J_sync_request j) (version, hashes)))"
    and "dec (J_sync_request j) (enc (J_sync_request j) (version, hashes)) = Some (version, hashes)"
    and "current_catalog ph = Some c"
    and "r = (missing_hashes hashes (Catalog_Entries c), wanted_hashes hashes (Catalog_Entries c), Catalog_Version c)"
    and "dec (J_sync_response j) (enc (J_sync_response j) r) = Some r"
    and "carried j (sent uuid ''sync_state_response'' (enc (J_sync_response j) r))"
  shows "\<exists>missing wanted. Client_SyncState j uuid (node_stream j now ph deliver) version hashes = Inr (missing, wanted, Catalog_Version c)
    \<and> set hashes \<union> set missing = Entry_Hash ` set (Catalog_Entries c) \<union> set wanted
    \<and> set missing \<inter> set hashes = {} \<and> set wanted \<inter> Entry_Hash ` set (Catalog_Entries c) = {}"
proof -
  let ?es = "Catalog_Entries c"
  have "Client_SyncState j uuid (node_stream j now ph deliver) version hashes
      = Inr (missing_hashes hashes ?es, wanted_hashes hashes ?es, Catalog_Version c)"
    unfolding Client_SyncState_def
    by (rule call_answered [OF assms(1,3,2) dispatched(7)], simp add: handleSyncState_def assms(4,5),
        simp_all add: assms(7,8) flip: assms(6))
  moreover have "set hashes \<union> set (missing_hashes hashes ?es) = Entry_Hash ` set ?es \<union> set (wanted_hashes hashes ?es)"
    "set (missing_hashes hashes ?es) \<inter> set hashes = {}" "set (wanted_hashes hashes ?es) \<inter> Entry_Hash ` set ?es = {}"
    by (auto simp: missing_hashes_def wanted_hashes_def)
  ultimately show ?thesis by blast
qed

text \<open>
  A response whose body arrives in two segments is lost: the client takes the first segment and
  zero bytes for the rest, which no JSON document contains, and reports a malformed response, where
  the reader of the serving side would have returned the whole body.
\<close>

theorem split_response_lost:
  assumes "\<And>x. 0 \<in> set x \<Longrightarrow> unmarshal (J_message j) x = None"
    and "writeMessage (J_message j) (sent uuid t payload) = Some q"
    and "b1 \<noteq> []" and "b2 \<noteq> []" and "length (b1 @ b2) \<le> maxMessage"
  shows "sendRequest j uuid (Some (\<lambda>_. Some [length_prefix (length (b1 @ b2)), b1, b2])) (reply t payload) = Inl Malformed
    \<and> read_body [length_prefix (length (b1 @ b2)), b1, b2] = Inr (b1 @ b2)"
proof
  let ?n = "length (b1 @ b2)"
  have n: "?n mod 2 ^ 32 = ?n" using assms(5) by (simp add: maxMessage_def)
  have "read_response [length_prefix ?n, b1, b2] = Inr (b1 @ replicate (length b2) 0)"
    using n assms(3,5) by (simp add: read_response_def read_buffer_def stream_Read_def Let_def)
  moreover have "0 \<in> set (b1 @ replicate (length b2) 0)" using assms(4) by simp
  ultimately show "sendRequest j uuid (Some (\<lambda>_. Some [length_prefix ?n, b1, b2])) (reply t payload) = Inl Malformed"
    using assms(1) assms(2) [unfolded sent_def] by (simp add: sendRequest_def reply_def Let_def)
  have "?n < 2 ^ 32" using assms(5) by (simp add: maxMessage_def)
  with read_frame [of "[length_prefix ?n, b1, b2]" "b1 @ b2" "[]"] assms(5)
  show "read_body [length_prefix ?n, b1, b2] = Inr (b1 @ b2)" by simp
qed

section \<open>Witnesses\<close>

text \<open>An encoding that carries two messages, and documents of one value.\<close>

definition pair_codec :: "'m \<Rightarrow> 'm \<Rightarrow> 'm codec" where
  "pair_codec m1 m2 =
     \<lparr>marshal = (\<lambda>m. if m = m1 then Some [123, 49, 125] else if m = m2 then Some [123, 50, 125] else None),
      unmarshal = (\<lambda>b. if b = [123, 49, 125] then Some m1 else if b = [123, 50, 125] then Some m2 else None)\<rparr>"

definition one_text :: "string \<Rightarrow> 'b \<Rightarrow> ('a, 'b) text_codec" where
  "one_text s v = \<lparr>enc = (\<lambda>_. s), dec = (\<lambda>t. if t = s then Some v else None)\<rparr>"

definition no_text :: "('a, 'b) text_codec" where
  "no_text = \<lparr>enc = (\<lambda>_. ''null''), dec = (\<lambda>_. None)\<rparr>"

definition sample_texts :: "Message \<Rightarrow> Message \<Rightarrow> json_texts" where
  "sample_texts m1 m2 =
     \<lparr>J_message = pair_codec m1 m2, J_catalog = no_text, J_query = no_text, J_result = no_text, J_peer_info = no_text,
      J_announce = no_text, J_entries_received = no_text, J_dataset_request = no_text, J_dataset = no_text,
      J_chunk_request = no_text, J_chunk = no_text, J_chunks_request = no_text, J_chunks = no_text, J_sync_status = no_text,
      J_sync_request = no_text, J_sync_response = no_text, J_job_reply = no_text,
      J_syntax_error = ''invalid character'', J_error_text = (\<lambda>_. ''EOF'')\<rparr>"

lemma sample_lossless: "m1 \<noteq> m2 \<Longrightarrow> J_message j = pair_codec m1 m2 \<Longrightarrow> lossless j"
  by (auto simp: lossless_def pair_codec_def)

lemma sample_carried: "J_message j = pair_codec m1 m2 \<Longrightarrow> m = m1 \<or> m = m2 \<Longrightarrow> carried j m"
  by (auto simp: carried_def pair_codec_def maxMessage_def)

definition sample_request :: QueryRequest where
  "sample_request =
     \<lparr>QR_ID = ''q1'', QR_Type = ''metadata'', QR_TopicID = '''', QR_DatasetID = '''', QR_TargetDatasets = [], QR_SQL = '''',
      QR_NamePattern = '''', QR_Expression = '''', QR_Limit = 0, QR_Offset = 0, QR_StreamResults = False, QR_Timeout = 0,
      QR_RequestedBy = '''', QR_RequestedAt = 0\<rparr>"

definition sample_catalog_entry :: "string \<Rightarrow> CatalogEntry" where
  "sample_catalog_entry h =
     \<lparr>Entry_TopicID = ''t'', Entry_TopicName = ''topic'', Entry_DatasetID = ''d'' @ h, Entry_DatasetName = ''data'',
      Entry_VersionID = ''v'', Entry_Version = ''1'', Entry_Hash = h, Entry_Size = 1, Entry_ChunkCount = 1,
      Entry_HasContent = True, Entry_HasInstructions = False, Entry_Owners = [], Entry_UpdatedAt = 3\<rparr>"

definition sample_node :: ProtocolHandler where
  "sample_node = (NewProtocolHandler ''peer'' [] 0)\<lparr>PH_onGetCatalog :=
     Some (Some \<lparr>Catalog_PeerID = ''peer'', Catalog_Entries = map sample_catalog_entry [''a'', ''b''],
                 Catalog_LastUpdated = 3, Catalog_Version = 7\<rparr>)\<rparr>"

text \<open>In two segments that cut the length itself.\<close>

theorem frame_read_back_witness:
  "writeMessage (pair_codec True False) True = Some [0, 0, 0, 3, 123, 49, 125]
   \<and> readMessage (pair_codec True False) [[0, 0], [0, 3, 123], [49, 125]] = Inr True"
proof
  show w: "writeMessage (pair_codec True False) True = Some [0, 0, 0, 3, 123, 49, 125]"
    by (simp add: writeMessage_def pair_codec_def length_prefix_def)
  have "marshal (pair_codec True False) True = Some [123, 49, 125]" "unmarshal (pair_codec True False) [123, 49, 125] = Some True"
    by (simp_all add: pair_codec_def)
  from frame_read_back [OF w this, of "[[0, 0], [0, 3, 123], [49, 125]]" "[]"]
  show "readMessage (pair_codec True False) [[0, 0], [0, 3, 123], [49, 125]] = Inr True" by (simp add: maxMessage_def)
qed

theorem remote_query_witness:
  "\<exists>j ph. PH_onQueryCatalog ph = Some (\<lambda>req. Inr (empty_result (QR_ID req)))
     \<and> Client_QueryCatalog j ''u'' (node_stream j 5 ph (\<lambda>r. [take 4 r, drop 4 r])) sample_request = Inr (empty_result ''q1'')"
proof -
  let ?q = "sent ''u'' ''query_catalog'' ''Q''" and ?r = "sent ''u'' ''query_result'' ''R''"
  define j where "j = (sample_texts ?q ?r)\<lparr>J_query := one_text ''Q'' sample_request, J_result := one_text ''R'' (empty_result ''q1'')\<rparr>"
  define ph where "ph = (NewProtocolHandler ''peer'' [] 0)\<lparr>PH_onQueryCatalog := Some (\<lambda>req. Inr (empty_result (QR_ID req)))\<rparr>"
  have m: "J_message j = pair_codec ?q ?r" and texts: "J_query j = one_text ''Q'' sample_request" "J_result j = one_text ''R'' (empty_result ''q1'')"
    by (simp_all add: j_def sample_texts_def)
  have id: "QR_ID sample_request = ''q1''" by (simp add: sample_request_def)
  have q: "PH_onQueryCatalog ph = Some (\<lambda>req. Inr (empty_result (QR_ID req)))" by (simp add: ph_def)
  have c: "carried j ?q" "carried j ?r" by (simp_all add: sample_carried [OF m])
  have "Client_QueryCatalog j ''u'' (node_stream j 5 ph (\<lambda>r. [take 4 r, drop 4 r])) sample_request
      = (case Inr (empty_result (QR_ID sample_request)) of Inl err \<Rightarrow> Inl (PeerError err) | Inr result \<Rightarrow> Inr result)"
  proof (rule remote_query [OF _ _ _ _ q])
    show "lossless j" by (rule sample_lossless [OF _ m]) (simp add: sent_def reply_def)
  qed (use c id in \<open>simp_all add: unsplit_def texts one_text_def\<close>)
  then show ?thesis using q id by auto
qed

theorem sync_reconciles_witness:
  "\<exists>j. Client_SyncState j ''u'' (node_stream j 5 sample_node (\<lambda>r. [r])) 1 [''b'', ''c''] = Inr ([''a''], [''c''], 7)"
proof -
  let ?q = "sent ''u'' ''sync_state'' ''Q''" and ?r = "sent ''u'' ''sync_state_response'' ''R''"
  let ?v = "([''a''], [''c''], 7 :: 64 word)"
  define j where "j = (sample_texts ?q ?r)\<lparr>J_sync_request := one_text ''Q'' (1, [''b'', ''c'']), J_sync_response := one_text ''R'' ?v\<rparr>"
  have m: "J_message j = pair_codec ?q ?r"
    and texts: "J_sync_request j = one_text ''Q'' (1, [''b'', ''c''])" "J_sync_response j = one_text ''R'' ?v"
    by (simp_all add: j_def sample_texts_def)
  have carry: "carried j ?q" "carried j ?r" by (simp_all add: sample_carried [OF m])
  have less: "lossless j" by (rule sample_lossless [OF _ m]) (simp add: sent_def reply_def)
  obtain c where c: "current_catalog sample_node = Some c" "Catalog_Version c = 7"
    "map Entry_Hash (Catalog_Entries c) = [''a'', ''b'']" "Entry_Hash ` set (Catalog_Entries c) = {''a'', ''b''}"
    by (simp add: current_catalog_def sample_node_def sample_catalog_entry_def)
  have v: "?v = (missing_hashes [''b'', ''c''] (Catalog_Entries c), wanted_hashes [''b'', ''c''] (Catalog_Entries c), Catalog_Version c)"
    by (simp add: missing_hashes_def wanted_hashes_def c)
  obtain x where x: "Client_SyncState j ''u'' (node_stream j 5 sample_node (\<lambda>r. [r])) 1 [''b'', ''c''] = Inr x"
    using sync_reconciles [OF less _ _ _ c(1) v, where deliver = "\<lambda>r. [r]" and now = 5 and uuid = "''u''" and version = 1] carry
    by (auto simp: unsplit_def texts one_text_def)
  then have "x = ?v"
    unfolding Client_SyncState_def call_def texts by (auto simp: one_text_def split: sum.splits if_splits)
  then show ?thesis using x by blast
qed

theorem split_response_lost_witness:
  "\<exists>j. sendRequest j ''u'' (Some (\<lambda>_. Some [[0, 0, 0, 3], [123], [49, 125]])) (reply ''get_catalog'' ''{}'') = Inl Malformed
     \<and> read_body [[0, 0, 0, 3], [123], [49, 125]] = Inr [123, 49, 125]"
proof -
  let ?q = "sent ''u'' ''get_catalog'' ''{}''" and ?b1 = "[123 :: byte]" and ?b2 = "[49, 125 :: byte]"
  define j where "j = sample_texts ?q ?q"
  have m: "J_message j = pair_codec ?q ?q" by (simp add: j_def sample_texts_def)
  have nul: "0 \<in> set x \<Longrightarrow> unmarshal (J_message j) x = None" for x by (auto simp: m pair_codec_def)
  have w: "writeMessage (J_message j) ?q = Some [0, 0, 0, 3, 123, 49, 125]"
    by (simp add: m pair_codec_def writeMessage_def length_prefix_def)
  have "length (?b1 @ ?b2) \<le> maxMessage" by (simp add: maxMessage_def)
  from split_response_lost [OF nul w _ _ this] have "sendRequest j ''u'' (Some (\<lambda>_. Some [length_prefix 3, ?b1, ?b2])) (reply ''get_catalog'' ''{}'') = Inl Malformed
     \<and> read_body [length_prefix 3, ?b1, ?b2] = Inr [123, 49, 125]" by (simp add: numeral_3_eq_3)
  moreover have "length_prefix 3 = [0, 0, 0, 3]" by (simp add: length_prefix_def)
  ultimately show ?thesis by auto
qed
end
