(* ===== verification/P2P_Proto.thy ===== *)
theory P2P_Proto
  imports P2P_Wire
begin

text \<open>
  The second version of the protocol between nodes, with protocol buffers
  (\<open>internal/p2p/protocol_proto.go\<close>, \<open>proto_convert.go\<close>): the conversions between the types of the
  domain and the messages, the handlers of the serving node, and the methods of the calling node.
  The encoding of the messages and the timestamps of the protobuf runtime are arguments. Instants
  count from Go's zero time.

  Shown: what the conversions keep of a catalog entry, a data set and a chunk, and what they drop;
  a catalog, a chunk and a list of chunks fetched from another node are what its callbacks returned,
  up to the fields that are dropped, however the response is split into segments.
\<close>

section \<open>Messages and conversions\<close>

record 'ts timestamps =
  ts_New :: "instant \<Rightarrow> 'ts"
  ts_AsTime :: "'ts \<Rightarrow> instant"

record 'ts pb_entry =
  PE_TopicId :: string
  PE_TopicName :: string
  PE_DatasetId :: string
  PE_DatasetName :: string
  PE_Hash :: string
  PE_Size :: int
  PE_ChunkCount :: "32 word"
  PE_UpdatedAt :: "'ts option"

record 'ts pb_catalog =
  PC_PeerId :: string
  PC_Entries :: "'ts pb_entry list"
  PC_LastUpdated :: "'ts option"
  PC_Version :: "64 word"

record 'ts pb_dataset =
  PD_Id :: string
  PD_TopicId :: string
  PD_Name :: string
  PD_Size :: int
  PD_Hash :: string
  PD_ChunkCount :: "32 word"
  PD_ChunkSize :: int
  PD_CreatedAt :: "'ts option"
  PD_UpdatedAt :: "'ts option"
  PD_Metadata :: "string \<rightharpoonup> string"

record pb_chunk =
  PK_DatasetId :: string
  PK_Index :: "32 word"
  PK_Hash :: string
  PK_Size :: int
  PK_Data :: bytes

record 'ts pb_peer_info =
  PI_PeerId :: string
  PI_Addresses :: "string list"
  PI_NodeMode :: string
  PI_Version :: string
  PI_LastSeen :: "'ts option"

record pb_error =
  PX_Code :: "32 word"
  PX_Message :: string

definition CatalogEntryToProto :: "'ts timestamps \<Rightarrow> CatalogEntry \<Rightarrow> 'ts pb_entry" where
  "CatalogEntryToProto ts e =
     \<lparr>PE_TopicId = Entry_TopicID e, PE_TopicName = Entry_TopicName e, PE_DatasetId = Entry_DatasetID e,
      PE_DatasetName = Entry_DatasetName e, PE_Hash = Entry_Hash e, PE_Size = Entry_Size e,
      PE_ChunkCount = word_of_int (Entry_ChunkCount e), PE_UpdatedAt = Some (ts_New ts (Entry_UpdatedAt e))\<rparr>"

definition CatalogToProto :: "'ts timestamps \<Rightarrow> Catalog \<Rightarrow> 'ts pb_catalog" where
  "CatalogToProto ts c =
     \<lparr>PC_PeerId = Catalog_PeerID c, PC_Entries = map (CatalogEntryToProto ts) (Catalog_Entries c),
      PC_LastUpdated = Some (ts_New ts (Catalog_LastUpdated c)), PC_Version = Catalog_Version c\<rparr>"

definition DatasetInfoToProto :: "'ts timestamps \<Rightarrow> Dataset \<Rightarrow> 'ts pb_dataset" where
  "DatasetInfoToProto ts d =
     \<lparr>PD_Id = Dataset_ID d, PD_TopicId = Dataset_TopicID d, PD_Name = Dataset_Name d, PD_Size = 0, PD_Hash = '''',
      PD_ChunkCount = 0, PD_ChunkSize = 0, PD_CreatedAt = Some (ts_New ts (Dataset_CreatedAt d)),
      PD_UpdatedAt = Some (ts_New ts (Dataset_UpdatedAt d)), PD_Metadata = Dataset_Metadata d\<rparr>"

definition DatasetWithContentToProto :: "'ts timestamps \<Rightarrow> Dataset \<Rightarrow> DatasetContent option \<Rightarrow> 'ts pb_dataset" where
  "DatasetWithContentToProto ts d content =
     (let info = DatasetInfoToProto ts d
      in case content of
           None \<Rightarrow> info
         | Some c \<Rightarrow> info\<lparr>PD_Size := Content_Size c, PD_Hash := Content_Hash c,
                         PD_ChunkCount := word_of_int (Content_ChunkCount c), PD_ChunkSize := Content_ChunkSize c\<rparr>)"

definition ChunkDataToProto :: "Chunk \<Rightarrow> pb_chunk" where
  "ChunkDataToProto c =
     \<lparr>PK_DatasetId = Chunk_DatasetID c, PK_Index = word_of_int (Chunk_Index c), PK_Hash = Chunk_Hash c,
      PK_Size = Chunk_Size c, PK_Data = Chunk_Data c\<rparr>"

definition PeerInfoToProto :: "'ts timestamps \<Rightarrow> string \<Rightarrow> string list \<Rightarrow> string \<Rightarrow> string \<Rightarrow> instant \<Rightarrow> 'ts pb_peer_info" where
  "PeerInfoToProto ts pid addrs mode version lastSeen =
     \<lparr>PI_PeerId = pid, PI_Addresses = addrs, PI_NodeMode = mode, PI_Version = version, PI_LastSeen = Some (ts_New ts lastSeen)\<rparr>"

definition ErrorToProto :: "int \<Rightarrow> string \<Rightarrow> pb_error" where
  "ErrorToProto code message = \<lparr>PX_Code = word_of_int code, PX_Message = message\<rparr>"

definition as_time :: "'ts timestamps \<Rightarrow> 'ts option \<Rightarrow> instant" where
  "as_time ts t = (case t of None \<Rightarrow> 0 | Some t \<Rightarrow> ts_AsTime ts t)"

definition ProtoToCatalogEntry :: "'ts timestamps \<Rightarrow> 'ts pb_entry \<Rightarrow> CatalogEntry" where
  "ProtoToCatalogEntry ts e =
     \<lparr>Entry_TopicID = PE_TopicId e, Entry_TopicName = PE_TopicName e, Entry_DatasetID = PE_DatasetId e,
      Entry_DatasetName = PE_DatasetName e, Entry_VersionID = '''', Entry_Version = '''', Entry_Hash = PE_Hash e,
      Entry_Size = PE_Size e, Entry_ChunkCount = sint (PE_ChunkCount e), Entry_HasContent = False,
      Entry_HasInstructions = False, Entry_Owners = [], Entry_UpdatedAt = as_time ts (PE_UpdatedAt e)\<rparr>"

definition ProtoToCatalog :: "'ts timestamps \<Rightarrow> 'ts pb_catalog \<Rightarrow> Catalog" where
  "ProtoToCatalog ts c =
     \<lparr>Catalog_PeerID = PC_PeerId c, Catalog_Entries = map (ProtoToCatalogEntry ts) (PC_Entries c),
      Catalog_LastUpdated = as_time ts (PC_LastUpdated c), Catalog_Version = PC_Version c\<rparr>"

definition ProtoToDatasetInfo :: "'ts timestamps \<Rightarrow> 'ts pb_dataset \<Rightarrow> Dataset" where
  "ProtoToDatasetInfo ts d =
     \<lparr>Dataset_ID = PD_Id d, Dataset_TopicID = PD_TopicId d, Dataset_Name = PD_Name d, Dataset_Description = '''',
      Dataset_Status = '''', Dataset_LatestVersionID = '''', Dataset_VersionCount = 0, Dataset_HasContent = False,
      Dataset_HasInstructions = False, Dataset_Owners = [], Dataset_CreatedBy = '''',
      Dataset_CreatedAt = as_time ts (PD_CreatedAt d), Dataset_UpdatedAt = as_time ts (PD_UpdatedAt d),
      Dataset_Tags = [], Dataset_Metadata = PD_Metadata d\<rparr>"

definition ProtoToDatasetContent :: "'ts pb_dataset \<Rightarrow> DatasetContent" where
  "ProtoToDatasetContent d =
     \<lparr>Content_Hash = PD_Hash d, Content_Size = PD_Size d, Content_RowCount = 0, Content_ChunkCount = sint (PD_ChunkCount d),
      Content_ChunkSize = PD_ChunkSize d, Content_Format = '''', Content_Checksum = '''', Content_StoragePath = ''''\<rparr>"

definition ProtoToChunkData :: "pb_chunk \<Rightarrow> Chunk" where
  "ProtoToChunkData c =
     \<lparr>Chunk_ID = '''', Chunk_DatasetID = PK_DatasetId c, Chunk_VersionID = '''', Chunk_Index = sint (PK_Index c),
      Chunk_Hash = PK_Hash c, Chunk_Size = PK_Size c, Chunk_Status = '''', Chunk_StoragePath = '''', Chunk_Data = PK_Data c\<rparr>"

definition ProtoToError :: "pb_error option \<Rightarrow> int \<times> string" where
  "ProtoToError e = (case e of None \<Rightarrow> (0, '''') | Some e \<Rightarrow> (sint (PX_Code e), PX_Message e))"

section \<open>The serving node\<close>

record ProtoProtocolHandler =
  PP_id :: string
  PP_addrs :: "string list"
  PP_nodeMode :: string
  PP_version :: string
  PP_onGetCatalog :: "Catalog option option"
  PP_onQueryCatalog :: "(string \<Rightarrow> string \<Rightarrow> string \<Rightarrow> int \<Rightarrow> int \<Rightarrow> string + CatalogEntry list \<times> int) option"
  PP_onGetDataset :: "(DatasetID \<Rightarrow> string + Dataset) option"
  PP_onGetChunk :: "(DatasetID \<Rightarrow> int \<Rightarrow> string + Chunk) option"
  PP_onGetChunks :: "(DatasetID \<Rightarrow> int list \<Rightarrow> string + Chunk list) option"
  PP_onAnnounce :: "(CatalogEntry list \<Rightarrow> string list \<Rightarrow> string option) option"
  PP_onSyncState :: "(64 word \<Rightarrow> string list \<Rightarrow> string + string list \<times> string list \<times> 64 word) option"

datatype 'ts discovery_request =
    GetCatalogRequest "64 word"
  | QueryCatalogRequest string string string "32 word" "32 word"
  | GetPeerInfoRequest
  | AnnounceRequest "'ts pb_entry list" "string list"
  | UnknownDiscovery

datatype 'ts discovery_reply =
    GetCatalogResponse "'ts pb_catalog"
  | QueryCatalogResponse "'ts pb_entry list" "32 word"
  | GetPeerInfoResponse "'ts pb_peer_info" "string list"
  | AnnounceResponse "32 word"

datatype data_request =
    GetDatasetInfoRequest string string
  | GetChunkRequest string string "32 word"
  | GetChunksRequest string string "32 word list"
  | UnknownData

datatype 'ts data_reply =
    GetDatasetInfoResponse "'ts pb_dataset"
  | GetChunkResponse pb_chunk
  | GetChunksResponse "pb_chunk list"

datatype sync_request = GetSyncStatusRequest | SyncStateRequest "64 word" "string list" | UnknownSync

datatype sync_reply =
    GetSyncStatusResponse bool int int
  | SyncStateResponse "string list" "string list" "64 word"

record 'q pb_request =
  RQ_RequestId :: string
  RQ_Request :: 'q

record 'r pb_response =
  RS_RequestId :: string
  RS_Success :: bool
  RS_Error :: "pb_error option"
  RS_Response :: "'r option"

definition succeed :: "string \<Rightarrow> 'r \<Rightarrow> 'r pb_response" where
  "succeed rid r = \<lparr>RS_RequestId = rid, RS_Success = True, RS_Error = None, RS_Response = Some r\<rparr>"

definition fail :: "string \<Rightarrow> int \<Rightarrow> string \<Rightarrow> 'r pb_response" where
  "fail rid code text = \<lparr>RS_RequestId = rid, RS_Success = False, RS_Error = Some (ErrorToProto code text), RS_Response = None\<rparr>"

definition SupportedProtocolsV2 :: "string list" where
  "SupportedProtocolsV2 = [''/bib/discovery/2.0.0'', ''/bib/data/2.0.0'', ''/bib/jobs/2.0.0'', ''/bib/sync/2.0.0'']"

definition served_catalog :: "instant \<Rightarrow> ProtoProtocolHandler \<Rightarrow> Catalog" where
  "served_catalog now ph =
     (case PP_onGetCatalog ph of
        Some (Some c) \<Rightarrow> c
      | _ \<Rightarrow> \<lparr>Catalog_PeerID = PP_id ph, Catalog_Entries = [], Catalog_LastUpdated = now, Catalog_Version = 0\<rparr>)"

definition handleGetCatalogProto ::
    "'ts timestamps \<Rightarrow> instant \<Rightarrow> ProtoProtocolHandler \<Rightarrow> string \<Rightarrow> 64 word \<Rightarrow> 'ts discovery_reply pb_response" where
  "handleGetCatalogProto ts now ph rid since =
     (let c = served_catalog now ph
      in if since > 0 \<and> Catalog_Version c \<le> since
         then succeed rid (GetCatalogResponse
                \<lparr>PC_PeerId = Catalog_PeerID c, PC_Entries = [], PC_LastUpdated = None, PC_Version = Catalog_Version c\<rparr>)
         else succeed rid (GetCatalogResponse (CatalogToProto ts c)))"

definition handleQueryCatalogProto ::
    "'ts timestamps \<Rightarrow> ProtoProtocolHandler \<Rightarrow> string \<Rightarrow> string \<Rightarrow> string \<Rightarrow> string \<Rightarrow> 32 word \<Rightarrow> 32 word \<Rightarrow> 'ts discovery_reply pb_response" where
  "handleQueryCatalogProto ts ph rid topic dataset pat limit offset =
     (case PP_onQueryCatalog ph of
        None \<Rightarrow> fail rid 501 ''query not supported''
      | Some query \<Rightarrow>
          (case query topic dataset pat (sint limit) (sint offset) of
             Inl err \<Rightarrow> fail rid 500 err
           | Inr (entries, found) \<Rightarrow>
               succeed rid (QueryCatalogResponse (map (CatalogEntryToProto ts) entries) (word_of_int found))))"

definition handleGetPeerInfoProto ::
    "'ts timestamps \<Rightarrow> instant \<Rightarrow> ProtoProtocolHandler \<Rightarrow> string \<Rightarrow> 'ts discovery_reply pb_response" where
  "handleGetPeerInfoProto ts now ph rid =
     succeed rid (GetPeerInfoResponse (PeerInfoToProto ts (PP_id ph) (PP_addrs ph) (PP_nodeMode ph) (PP_version ph) now)
       [''/bib/discovery/2.0.0'', ''/bib/data/2.0.0'', ''/bib/sync/2.0.0'', ''/bib/jobs/2.0.0''])"

definition handleAnnounceProto ::
    "'ts timestamps \<Rightarrow> ProtoProtocolHandler \<Rightarrow> string \<Rightarrow> 'ts pb_entry list \<Rightarrow> string list \<Rightarrow> 'ts discovery_reply pb_response" where
  "handleAnnounceProto ts ph rid new removed =
     (case PP_onAnnounce ph of
        None \<Rightarrow> succeed rid (AnnounceResponse (word_of_int (int (length new))))
      | Some announce \<Rightarrow>
          (case announce (map (ProtoToCatalogEntry ts) new) removed of
             Some err \<Rightarrow> fail rid 500 err
           | None \<Rightarrow> succeed rid (AnnounceResponse (word_of_int (int (length new))))))"

definition handleDiscoveryRequest ::
    "'ts timestamps \<Rightarrow> instant \<Rightarrow> ProtoProtocolHandler \<Rightarrow> 'ts discovery_request pb_request \<Rightarrow> 'ts discovery_reply pb_response" where
  "handleDiscoveryRequest ts now ph req =
     (case RQ_Request req of
        GetCatalogRequest since \<Rightarrow> handleGetCatalogProto ts now ph (RQ_RequestId req) since
      | QueryCatalogRequest topic dataset pat limit offset \<Rightarrow>
          handleQueryCatalogProto ts ph (RQ_RequestId req) topic dataset pat limit offset
      | GetPeerInfoRequest \<Rightarrow> handleGetPeerInfoProto ts now ph (RQ_RequestId req)
      | AnnounceRequest new removed \<Rightarrow> handleAnnounceProto ts ph (RQ_RequestId req) new removed
      | UnknownDiscovery \<Rightarrow> fail (RQ_RequestId req) 400 ''unknown request type'')"

definition or_hash :: "string \<Rightarrow> string \<Rightarrow> string" where
  "or_hash datasetID h = (if datasetID = '''' then h else datasetID)"

definition handleGetDatasetInfoProto ::
    "'ts timestamps \<Rightarrow> ProtoProtocolHandler \<Rightarrow> string \<Rightarrow> string \<Rightarrow> string \<Rightarrow> 'ts data_reply pb_response" where
  "handleGetDatasetInfoProto ts ph rid datasetID h =
     (case PP_onGetDataset ph of
        None \<Rightarrow> fail rid 501 ''dataset info not supported''
      | Some get \<Rightarrow>
          (case get (or_hash datasetID h) of
             Inl err \<Rightarrow> fail rid 404 err
           | Inr d \<Rightarrow> succeed rid (GetDatasetInfoResponse (DatasetInfoToProto ts d))))"

definition handleGetChunkProto :: "ProtoProtocolHandler \<Rightarrow> string \<Rightarrow> string \<Rightarrow> string \<Rightarrow> 32 word \<Rightarrow> 'ts data_reply pb_response" where
  "handleGetChunkProto ph rid datasetID h i =
     (case PP_onGetChunk ph of
        None \<Rightarrow> fail rid 501 ''chunk retrieval not supported''
      | Some get \<Rightarrow>
          (case get (or_hash datasetID h) (sint i) of
             Inl err \<Rightarrow> fail rid 404 err
           | Inr c \<Rightarrow> succeed rid (GetChunkResponse (ChunkDataToProto c))))"

definition handleGetChunksProto :: "ProtoProtocolHandler \<Rightarrow> string \<Rightarrow> string \<Rightarrow> string \<Rightarrow> 32 word list \<Rightarrow> 'ts data_reply pb_response" where
  "handleGetChunksProto ph rid datasetID h is =
     (let indices = map sint is
      in case PP_onGetChunks ph of
           Some get \<Rightarrow>
             (case get (or_hash datasetID h) indices of
                Inl err \<Rightarrow> fail rid 404 err
              | Inr cs \<Rightarrow> succeed rid (GetChunksResponse (map ChunkDataToProto cs)))
         | None \<Rightarrow>
             (case PP_onGetChunk ph of
                Some get \<Rightarrow> succeed rid (GetChunksResponse (map ChunkDataToProto (found_chunks get (or_hash datasetID h) indices)))
              | None \<Rightarrow> fail rid 501 ''chunk retrieval not supported''))"

definition handleDataRequest ::
    "'ts timestamps \<Rightarrow> ProtoProtocolHandler \<Rightarrow> data_request pb_request \<Rightarrow> 'ts data_reply pb_response" where
  "handleDataRequest ts ph req =
     (case RQ_Request req of
        GetDatasetInfoRequest d h \<Rightarrow> handleGetDatasetInfoProto ts ph (RQ_RequestId req) d h
      | GetChunkRequest d h i \<Rightarrow> handleGetChunkProto ph (RQ_RequestId req) d h i
      | GetChunksRequest d h is \<Rightarrow> handleGetChunksProto ph (RQ_RequestId req) d h is
      | UnknownData \<Rightarrow> fail (RQ_RequestId req) 400 ''unknown request type'')"

definition handleJobRequest :: "'q pb_request \<Rightarrow> unit pb_response" where
  "handleJobRequest req = fail (RQ_RequestId req) 501 ''jobs not implemented''"

definition handleSyncStateProto :: "ProtoProtocolHandler \<Rightarrow> string \<Rightarrow> 64 word \<Rightarrow> string list \<Rightarrow> sync_reply pb_response" where
  "handleSyncStateProto ph rid version hashes =
     (case PP_onSyncState ph of
        None \<Rightarrow> succeed rid (SyncStateResponse [] [] 0)
      | Some sync \<Rightarrow>
          (case sync version hashes of
             Inl err \<Rightarrow> fail rid 500 err
           | Inr (missing, wanted, v) \<Rightarrow> succeed rid (SyncStateResponse missing wanted v)))"

definition handleSyncRequest :: "ProtoProtocolHandler \<Rightarrow> sync_request pb_request \<Rightarrow> sync_reply pb_response" where
  "handleSyncRequest ph req =
     (case RQ_Request req of
        GetSyncStatusRequest \<Rightarrow> succeed (RQ_RequestId req) (GetSyncStatusResponse False 0 0)
      | SyncStateRequest version hashes \<Rightarrow> handleSyncStateProto ph (RQ_RequestId req) version hashes
      | UnknownSync \<Rightarrow> fail (RQ_RequestId req) 400 ''unknown request type'')"

section \<open>Streams\<close>

definition readProto :: "'m codec \<Rightarrow> segments \<Rightarrow> wire_error + 'm" where
  "readProto c segs =
     (case read_body segs of
        Inl e \<Rightarrow> Inl e
      | Inr b \<Rightarrow> (case unmarshal c b of None \<Rightarrow> Inl Malformed | Some m \<Rightarrow> Inr m))"

definition writeProto :: "'m codec \<Rightarrow> 'm \<Rightarrow> bytes option" where
  "writeProto c m = map_option (\<lambda>b. length_prefix (length b) @ b) (marshal c m)"

text \<open>
  The four stream handlers differ in the type of their messages. A request that cannot be read is
  answered with the identifier it had been given so far.
\<close>

definition proto_stream ::
    "'q pb_request codec \<Rightarrow> 'r pb_response codec \<Rightarrow> (wire_error \<Rightarrow> string \<times> string) \<Rightarrow> ('q pb_request \<Rightarrow> 'r pb_response)
       \<Rightarrow> segments \<Rightarrow> bytes" where
  "proto_stream cq cr failed handle segs =
     (case writeProto cr
             (case readProto cq segs of
                Inl e \<Rightarrow> fail (fst (failed e)) 400 (''failed to read request: '' @ snd (failed e))
              | Inr req \<Rightarrow> handle req) of
        None \<Rightarrow> [] | Some bs \<Rightarrow> bs)"

section \<open>The calling node\<close>

definition proto_call ::
    "'q pb_request codec \<Rightarrow> 'r pb_response codec \<Rightarrow> string \<Rightarrow> peer_stream \<Rightarrow> 'q \<Rightarrow> ('r \<Rightarrow> 'v option) \<Rightarrow> wire_error + 'v" where
  "proto_call cq cr uuid stream q select =
     (case stream of
        None \<Rightarrow> Inl StreamNotOpened
      | Some exchange \<Rightarrow>
          (case writeProto cq \<lparr>RQ_RequestId = uuid, RQ_Request = q\<rparr> of
             None \<Rightarrow> Inl NotEncoded
           | Some bs \<Rightarrow>
               (case exchange bs of
                  None \<Rightarrow> Inl WriteFailed
                | Some segs \<Rightarrow>
                    (case readProto cr segs of
                       Inl e \<Rightarrow> Inl e
                     | Inr resp \<Rightarrow>
                         if \<not> RS_Success resp then Inl (PeerError (snd (ProtoToError (RS_Error resp))))
                         else case Option.bind (RS_Response resp) select of
                                None \<Rightarrow> Inl Malformed
                              | Some v \<Rightarrow> Inr v))))"

definition Proto_GetCatalog ::
    "'ts timestamps \<Rightarrow> 'ts discovery_request pb_request codec \<Rightarrow> 'ts discovery_reply pb_response codec \<Rightarrow> string
       \<Rightarrow> peer_stream \<Rightarrow> 64 word \<Rightarrow> wire_error + Catalog" where
  "Proto_GetCatalog ts cq cr uuid stream since =
     proto_call cq cr uuid stream (GetCatalogRequest since)
       (\<lambda>r. case r of GetCatalogResponse c \<Rightarrow> Some (ProtoToCatalog ts c) | _ \<Rightarrow> None)"

definition Proto_GetPeerInfo ::
    "'ts discovery_request pb_request codec \<Rightarrow> 'ts discovery_reply pb_response codec \<Rightarrow> string
       \<Rightarrow> peer_stream \<Rightarrow> wire_error + 'ts pb_peer_info \<times> string list" where
  "Proto_GetPeerInfo cq cr uuid stream =
     proto_call cq cr uuid stream GetPeerInfoRequest (\<lambda>r. case r of GetPeerInfoResponse i ps \<Rightarrow> Some (i, ps) | _ \<Rightarrow> None)"

definition Proto_GetDatasetInfo ::
    "'ts timestamps \<Rightarrow> data_request pb_request codec \<Rightarrow> 'ts data_reply pb_response codec \<Rightarrow> string
       \<Rightarrow> peer_stream \<Rightarrow> string \<Rightarrow> wire_error + Dataset" where
  "Proto_GetDatasetInfo ts cq cr uuid stream datasetID =
     proto_call cq cr uuid stream (GetDatasetInfoRequest datasetID '''')
       (\<lambda>r. case r of GetDatasetInfoResponse d \<Rightarrow> Some (ProtoToDatasetInfo ts d) | _ \<Rightarrow> None)"

definition Proto_GetChunk ::
    "data_request pb_request codec \<Rightarrow> 'ts data_reply pb_response codec \<Rightarrow> string \<Rightarrow> peer_stream \<Rightarrow> string \<Rightarrow> int
       \<Rightarrow> wire_error + Chunk" where
  "Proto_GetChunk cq cr uuid stream datasetID i =
     proto_call cq cr uuid stream (GetChunkRequest datasetID '''' (word_of_int i))
       (\<lambda>r. case r of GetChunkResponse c \<Rightarrow> Some (ProtoToChunkData c) | _ \<Rightarrow> None)"

definition Proto_GetChunks ::
    "data_request pb_request codec \<Rightarrow> 'ts data_reply pb_response codec \<Rightarrow> string \<Rightarrow> peer_stream \<Rightarrow> string \<Rightarrow> int list
       \<Rightarrow> wire_error + Chunk list" where
  "Proto_GetChunks cq cr uuid stream datasetID is =
     proto_call cq cr uuid stream (GetChunksRequest datasetID '''' (map word_of_int is))
       (\<lambda>r. case r of GetChunksResponse cs \<Rightarrow> Some (map ProtoToChunkData cs) | _ \<Rightarrow> None)"

section \<open>What the conversions keep\<close>

definition int32 :: "int \<Rightarrow> bool" where
  "int32 i \<longleftrightarrow> - (2 ^ 31) \<le> i \<and> i < 2 ^ 31"

lemma sint_int32 [simp]: "int32 i \<Longrightarrow> sint (word_of_int i :: 32 word) = i"
  by (simp add: int32_def signed_of_int signed_take_bit_int_eq_self)

text \<open>An entry as the other node sees it.\<close>

definition public_entry :: "CatalogEntry \<Rightarrow> CatalogEntry" where
  "public_entry e =
     e\<lparr>Entry_VersionID := '''', Entry_Version := '''', Entry_HasContent := False, Entry_HasInstructions := False, Entry_Owners := []\<rparr>"

definition public_catalog :: "Catalog \<Rightarrow> Catalog" where
  "public_catalog c = c\<lparr>Catalog_Entries := map public_entry (Catalog_Entries c)\<rparr>"

definition public_chunk :: "Chunk \<Rightarrow> Chunk" where
  "public_chunk c = c\<lparr>Chunk_ID := '''', Chunk_VersionID := '''', Chunk_Status := '''', Chunk_StoragePath := ''''\<rparr>"

lemma entry_converted:
  assumes "\<And>t. ts_AsTime ts (ts_New ts t) = t" and "int32 (Entry_ChunkCount e)"
  shows "ProtoToCatalogEntry ts (CatalogEntryToProto ts e) = public_entry e"
  using assms by (simp add: ProtoToCatalogEntry_def CatalogEntryToProto_def public_entry_def as_time_def)

lemma catalog_converted:
  assumes "\<And>t. ts_AsTime ts (ts_New ts t) = t" and "list_all (int32 \<circ> Entry_ChunkCount) (Catalog_Entries c)"
  shows "ProtoToCatalog ts (CatalogToProto ts c) = public_catalog c"
  using assms
  by (simp add: ProtoToCatalog_def CatalogToProto_def public_catalog_def as_time_def list_all_iff entry_converted)

lemma chunk_converted: "int32 (Chunk_Index c) \<Longrightarrow> ProtoToChunkData (ChunkDataToProto c) = public_chunk c"
  by (simp add: ProtoToChunkData_def ChunkDataToProto_def public_chunk_def)

text \<open>
  The metadata of a data set keeps its identity, name, times and labels; the content travels only
  with the conversion that takes it, which no handler calls.
\<close>

lemma dataset_converted:
  assumes "\<And>t. ts_AsTime ts (ts_New ts t) = t"
  shows "ProtoToDatasetInfo ts (DatasetInfoToProto ts d)
    = d\<lparr>Dataset_Description := '''', Dataset_Status := '''', Dataset_LatestVersionID := '''', Dataset_VersionCount := 0,
        Dataset_HasContent := False, Dataset_HasInstructions := False, Dataset_Owners := [], Dataset_CreatedBy := '''',
        Dataset_Tags := []\<rparr>"
  using assms by (simp add: ProtoToDatasetInfo_def DatasetInfoToProto_def as_time_def)

lemma content_converted:
  assumes "int32 (Content_ChunkCount c)"
  shows "ProtoToDatasetContent (DatasetWithContentToProto ts d (Some c))
    = c\<lparr>Content_RowCount := 0, Content_Format := '''', Content_Checksum := '''', Content_StoragePath := ''''\<rparr>"
  using assms by (simp add: ProtoToDatasetContent_def DatasetWithContentToProto_def DatasetInfoToProto_def Let_def)

text \<open>A chunk number of more than 31 bits reaches the callback as another one.\<close>

lemma chunk_number_wraps: "sint (word_of_int (2 ^ 32 + i) :: 32 word) = sint (word_of_int i :: 32 word)"
proof -
  have "(word_of_int (2 ^ 32) :: 32 word) = 0" by simp
  then show ?thesis by (simp only: of_int_add) simp
qed

section \<open>The contract of a service\<close>

text \<open>
  A handler answers every request under its identifier, with a reply when it reports success and
  with an error when it does not. What a caller gets follows from it alone.
\<close>

locale proto_service =
  fixes handle :: "'q pb_request \<Rightarrow> 'r pb_response"
  assumes same_id: "RS_RequestId (handle req) = RQ_RequestId req"
    and success_replies: "RS_Success (handle req) \<longleftrightarrow> RS_Response (handle req) \<noteq> None"
    and failure_says_why: "\<not> RS_Success (handle req) \<longleftrightarrow> RS_Error (handle req) \<noteq> None"
begin

lemma called:
  fixes cq cr
  assumes "marshal cq req = Some q" and "unmarshal cq q = Some req" and "length q \<le> maxMessage"
    and "marshal cr (handle req) = Some r" and "unmarshal cr r = Some (handle req)" and "length r \<le> maxMessage"
    and "\<And>b. concat (deliver b) = b" and "req = \<lparr>RQ_RequestId = uuid, RQ_Request = x\<rparr>"
  shows "proto_call cq cr uuid (Some (\<lambda>bs. Some (deliver (proto_stream cq cr failed handle [bs])))) x select
    = (case RS_Response (handle req) of
         None \<Rightarrow> Inl (PeerError (PX_Message (the (RS_Error (handle req)))))
       | Some v \<Rightarrow> (case select v of None \<Rightarrow> Inl Malformed | Some y \<Rightarrow> Inr y))"
proof -
  let ?q = "length_prefix (length q) @ q" and ?r = "length_prefix (length r) @ r"
  have w: "writeProto cq req = Some ?q" "writeProto cr (handle req) = Some ?r" using assms(1,4) by (simp_all add: writeProto_def)
  have small: "length q < 2 ^ 32" "length r < 2 ^ 32" using assms(3,6) by (simp_all add: maxMessage_def)
  have "readProto cq [?q] = Inr req"
    using read_frame [of "[?q]" q "[]"] small(1) assms(2,3) by (simp add: readProto_def)
  then have "proto_stream cq cr failed handle [?q] = ?r" using w(2) by (simp add: proto_stream_def)
  moreover have "concat (deliver ?r) = length_prefix (length r) @ r @ []" using assms(7) by simp
  from read_frame [OF this small(2)] have "readProto cr (deliver ?r) = Inr (handle req)"
    using assms(5,6) by (simp add: readProto_def)
  ultimately have "proto_call cq cr uuid (Some (\<lambda>bs. Some (deliver (proto_stream cq cr failed handle [bs])))) x select
      = (if \<not> RS_Success (handle req) then Inl (PeerError (snd (ProtoToError (RS_Error (handle req)))))
         else case Option.bind (RS_Response (handle req)) select of None \<Rightarrow> Inl Malformed | Some v \<Rightarrow> Inr v)"
    using w(1) assms(8) by (simp add: proto_call_def)
  then show ?thesis
    using success_replies [of req] failure_says_why [of req] by (cases "RS_Response (handle req)") (auto simp: ProtoToError_def)
qed

end

lemmas proto_handler_defs =
  handleGetCatalogProto_def handleQueryCatalogProto_def handleGetPeerInfoProto_def handleAnnounceProto_def
  handleGetDatasetInfoProto_def handleGetChunkProto_def handleGetChunksProto_def handleSyncStateProto_def
  succeed_def fail_def Let_def

interpretation discovery_service: proto_service "handleDiscoveryRequest ts now ph" for ts now ph
  by unfold_locales
    (auto simp: handleDiscoveryRequest_def proto_handler_defs
      split: discovery_request.splits option.splits sum.splits prod.splits)

interpretation data_service: proto_service "handleDataRequest ts ph" for ts ph
  by unfold_locales
    (auto simp: handleDataRequest_def proto_handler_defs split: data_request.splits option.splits sum.splits)

interpretation job_service: proto_service handleJobRequest
  by unfold_locales (simp_all add: handleJobRequest_def fail_def)

interpretation sync_service: proto_service "handleSyncRequest ph" for ph
  by unfold_locales
    (auto simp: handleSyncRequest_def proto_handler_defs split: sync_request.splits option.splits sum.splits prod.splits)

section \<open>Calls\<close>

text \<open>A stream to a node that serves these requests, and messages that survive their encoding and fit.\<close>

definition served_by ::
    "'q pb_request codec \<Rightarrow> 'r pb_response codec \<Rightarrow> (wire_error \<Rightarrow> string \<times> string) \<Rightarrow> ('q pb_request \<Rightarrow> 'r pb_response)
       \<Rightarrow> (bytes \<Rightarrow> segments) \<Rightarrow> peer_stream" where
  "served_by cq cr failed handle deliver = Some (\<lambda>bs. Some (deliver (proto_stream cq cr failed handle [bs])))"

definition faithful :: "'m codec \<Rightarrow> 'm \<Rightarrow> bool" where
  "faithful c m \<longleftrightarrow> (case marshal c m of None \<Rightarrow> False | Some b \<Rightarrow> unmarshal c b = Some m \<and> length b \<le> maxMessage)"

lemma faithfulE:
  assumes "faithful c m"
  obtains b where "marshal c m = Some b" "unmarshal c b = Some m" "length b \<le> maxMessage"
  using assms by (auto simp: faithful_def split: option.splits)

text \<open>No job is accepted by this version either.\<close>

theorem proto_jobs_refused:
  fixes x :: 'q
  assumes "faithful cq (\<lparr>RQ_RequestId = uuid, RQ_Request = x\<rparr> :: 'q pb_request)"
    and "faithful cr (handleJobRequest (\<lparr>RQ_RequestId = uuid, RQ_Request = x\<rparr> :: 'q pb_request))" and "\<And>b. concat (deliver b) = b"
  shows "proto_call cq cr uuid (served_by cq cr failed handleJobRequest deliver) x select = Inl (PeerError ''jobs not implemented'')"
proof -
  obtain q where q: "marshal cq \<lparr>RQ_RequestId = uuid, RQ_Request = x\<rparr> = Some q"
    "unmarshal cq q = Some \<lparr>RQ_RequestId = uuid, RQ_Request = x\<rparr>" "length q \<le> maxMessage"
    using assms(1) by (rule faithfulE)
  obtain r where r: "marshal cr (handleJobRequest \<lparr>RQ_RequestId = uuid, RQ_Request = x\<rparr>) = Some r"
    "unmarshal cr r = Some (handleJobRequest \<lparr>RQ_RequestId = uuid, RQ_Request = x\<rparr>)" "length r \<le> maxMessage"
    using assms(2) by (rule faithfulE)
  show ?thesis
    unfolding served_by_def job_service.called [OF q r assms(3) refl]
    by (simp add: handleJobRequest_def fail_def ErrorToProto_def)
qed

section \<open>Properties\<close>

text \<open>
  A catalog fetched from a node is the catalog it serves, up to the fields the conversion drops,
  unless the caller already has its version: then it gets the version and no entry. The network may
  split the response in any way.
\<close>

theorem catalog_fetched:
  fixes ts :: "'ts timestamps"
  assumes "\<And>t. ts_AsTime ts (ts_New ts t) = t"
    and "list_all (int32 \<circ> Entry_ChunkCount) (Catalog_Entries (served_catalog now ph))"
    and "req = \<lparr>RQ_RequestId = uuid, RQ_Request = GetCatalogRequest since\<rparr>"
    and "faithful cq req" and "faithful cr (handleDiscoveryRequest ts now ph req)" and "\<And>b. concat (deliver b) = b"
  shows "Proto_GetCatalog ts cq cr uuid (served_by cq cr failed (handleDiscoveryRequest ts now ph) deliver) since
    = Inr (let c = served_catalog now ph
           in if since > 0 \<and> Catalog_Version c \<le> since then c\<lparr>Catalog_Entries := [], Catalog_LastUpdated := 0\<rparr>
              else public_catalog c)"
proof -
  obtain q where q: "marshal cq req = Some q" "unmarshal cq q = Some req" "length q \<le> maxMessage"
    using assms(4) by (rule faithfulE)
  obtain r where r: "marshal cr (handleDiscoveryRequest ts now ph req) = Some r"
    "unmarshal cr r = Some (handleDiscoveryRequest ts now ph req)" "length r \<le> maxMessage"
    using assms(5) by (rule faithfulE)
  have none: "ProtoToCatalog ts \<lparr>PC_PeerId = Catalog_PeerID c, PC_Entries = [], PC_LastUpdated = None, PC_Version = Catalog_Version c\<rparr>
      = c\<lparr>Catalog_Entries := [], Catalog_LastUpdated := 0\<rparr>" for c
    by (simp add: ProtoToCatalog_def as_time_def)
  show ?thesis
    unfolding Proto_GetCatalog_def served_by_def discovery_service.called [OF q r assms(6,3)]
    using catalog_converted [OF assms(1,2)] none [of "served_catalog now ph"]
    by (simp add: assms(3) handleDiscoveryRequest_def handleGetCatalogProto_def succeed_def Let_def)
qed

text \<open>
  A chunk fetched from a node arrives with its data, hash, number and size, for every number of
  31 bits, and a chunk the node does not have arrives as the text of its error.
\<close>

theorem chunk_fetched:
  fixes cr :: "'ts data_reply pb_response codec"
  assumes "PP_onGetChunk ph = Some get" and "ds \<noteq> ''''" and "int32 i"
    and "\<And>c. get ds i = Inr c \<Longrightarrow> int32 (Chunk_Index c)"
    and "req = \<lparr>RQ_RequestId = uuid, RQ_Request = GetChunkRequest ds '''' (word_of_int i)\<rparr>"
    and "faithful cq req" and "faithful cr (handleDataRequest ts ph req)" and "\<And>b. concat (deliver b) = b"
  shows "Proto_GetChunk cq cr uuid (served_by cq cr failed (handleDataRequest ts ph) deliver) ds i
    = (case get ds i of Inl err \<Rightarrow> Inl (PeerError err) | Inr c \<Rightarrow> Inr (public_chunk c))"
proof -
  obtain q where q: "marshal cq req = Some q" "unmarshal cq q = Some req" "length q \<le> maxMessage"
    using assms(6) by (rule faithfulE)
  obtain r where r: "marshal cr (handleDataRequest ts ph req) = Some r"
    "unmarshal cr r = Some (handleDataRequest ts ph req)" "length r \<le> maxMessage"
    using assms(7) by (rule faithfulE)
  have h: "handleDataRequest ts ph req
      = (case get ds i of Inl err \<Rightarrow> fail uuid 404 err | Inr c \<Rightarrow> succeed uuid (GetChunkResponse (ChunkDataToProto c)))"
    using assms(1-3) by (simp add: assms(5) handleDataRequest_def handleGetChunkProto_def or_hash_def)
  show ?thesis
    unfolding Proto_GetChunk_def served_by_def data_service.called [OF q r assms(8,5)] h
    using chunk_converted [OF assms(4)]
    by (simp add: fail_def succeed_def ErrorToProto_def split: sum.splits)
qed

text \<open>
  Of several chunks asked for at once, those that exist arrive in the order they were asked for;
  when the node has a callback for many chunks, its answer is all or nothing.
\<close>

theorem chunks_fetched:
  fixes cr :: "'ts data_reply pb_response codec"
  assumes "PP_onGetChunks ph = None" and "PP_onGetChunk ph = Some get" and "ds \<noteq> ''''" and "list_all int32 is"
    and "list_all (int32 \<circ> Chunk_Index) (found_chunks get ds is)"
    and "req = \<lparr>RQ_RequestId = uuid, RQ_Request = GetChunksRequest ds '''' (map word_of_int is)\<rparr>"
    and "faithful cq req" and "faithful cr (handleDataRequest ts ph req)" and "\<And>b. concat (deliver b) = b"
  shows "Proto_GetChunks cq cr uuid (served_by cq cr failed (handleDataRequest ts ph) deliver) ds is
    = Inr (map public_chunk (found_chunks get ds is))"
proof -
  obtain q where q: "marshal cq req = Some q" "unmarshal cq q = Some req" "length q \<le> maxMessage"
    using assms(7) by (rule faithfulE)
  obtain r where r: "marshal cr (handleDataRequest ts ph req) = Some r"
    "unmarshal cr r = Some (handleDataRequest ts ph req)" "length r \<le> maxMessage"
    using assms(8) by (rule faithfulE)
  have same: "map (\<lambda>i. sint (word_of_int i :: 32 word)) is = is" using assms(4) by (simp add: list_all_iff map_idI)
  have h: "handleDataRequest ts ph req = succeed uuid (GetChunksResponse (map ChunkDataToProto (found_chunks get ds is)))"
    using assms(1-3) same by (simp add: assms(6) handleDataRequest_def handleGetChunksProto_def or_hash_def o_def)
  have conv: "map (ProtoToChunkData \<circ> ChunkDataToProto) (found_chunks get ds is) = map public_chunk (found_chunks get ds is)"
    using assms(5) by (simp add: list_all_iff chunk_converted)
  show ?thesis
    unfolding Proto_GetChunks_def served_by_def data_service.called [OF q r assms(9,6)] h
    using conv by (simp add: succeed_def)
qed

section \<open>Witnesses\<close>

definition sample_ts :: "int timestamps" where
  "sample_ts = \<lparr>ts_New = (\<lambda>t. t), ts_AsTime = (\<lambda>t. t)\<rparr>"

definition sample_proto_node :: ProtoProtocolHandler where
  "sample_proto_node =
     \<lparr>PP_id = ''peer'', PP_addrs = [], PP_nodeMode = ''full'', PP_version = ''1'',
      PP_onGetCatalog = Some (Some \<lparr>Catalog_PeerID = ''peer'', Catalog_Entries = [sample_catalog_entry ''a''],
                                   Catalog_LastUpdated = 3, Catalog_Version = 7\<rparr>),
      PP_onQueryCatalog = None, PP_onGetDataset = None, PP_onGetChunk = Some (\<lambda>ds i. if i = 2 then Inr (sample_chunk 2) else Inl ''chunk not found''),
      PP_onGetChunks = None, PP_onAnnounce = None, PP_onSyncState = None\<rparr>"

definition const_codec :: "'m \<Rightarrow> 'm codec" where
  "const_codec m = \<lparr>marshal = (\<lambda>_. Some [7]), unmarshal = (\<lambda>_. Some m)\<rparr>"

lemma const_faithful: "faithful (const_codec m) m"
  by (simp add: faithful_def const_codec_def maxMessage_def)

text \<open>The response in single bytes.\<close>

theorem catalog_fetched_witness:
  "\<exists>cq cr. Proto_GetCatalog sample_ts cq cr ''u''
       (served_by cq cr (\<lambda>_. ('''', '''')) (handleDiscoveryRequest sample_ts 9 sample_proto_node) (map (\<lambda>b. [b]))) 6
     = Inr \<lparr>Catalog_PeerID = ''peer'', Catalog_Entries = [public_entry (sample_catalog_entry ''a'')],
            Catalog_LastUpdated = 3, Catalog_Version = 7\<rparr>"
proof -
  define req :: "int discovery_request pb_request" where "req = \<lparr>RQ_RequestId = ''u'', RQ_Request = GetCatalogRequest 6\<rparr>"
  define resp where "resp = handleDiscoveryRequest sample_ts 9 sample_proto_node req"
  have c: "served_catalog 9 sample_proto_node = \<lparr>Catalog_PeerID = ''peer'', Catalog_Entries = [sample_catalog_entry ''a''],
      Catalog_LastUpdated = 3, Catalog_Version = 7\<rparr>"
    by (simp add: served_catalog_def sample_proto_node_def)
  have "list_all (int32 \<circ> Entry_ChunkCount) (Catalog_Entries (served_catalog 9 sample_proto_node))"
    by (simp add: c sample_catalog_entry_def int32_def)
  from catalog_fetched [OF _ this req_def const_faithful const_faithful [of resp, unfolded resp_def], where deliver = "map (\<lambda>b. [b])"]
  show ?thesis by (auto simp: c public_catalog_def sample_ts_def Let_def)
qed

theorem chunk_fetched_witness:
  "\<exists>cq. \<exists>cr :: int data_reply pb_response codec. Proto_GetChunk cq cr ''u''
       (served_by cq cr (\<lambda>_. ('''', '''')) (handleDataRequest sample_ts sample_proto_node) (\<lambda>b. [take 3 b, drop 3 b])) ''d'' 2
     = Inr (public_chunk (sample_chunk 2))"
proof -
  define req where "req = \<lparr>RQ_RequestId = ''u'', RQ_Request = GetChunkRequest ''d'' '''' (word_of_int 2)\<rparr>"
  define resp where "resp = handleDataRequest sample_ts sample_proto_node req"
  define get where "get = (\<lambda>(ds :: string) (i :: int). if i = 2 then Inr (sample_chunk 2) else (Inl ''chunk not found'' :: string + Chunk))"
  have g: "PP_onGetChunk sample_proto_node = Some get" by (simp add: sample_proto_node_def get_def)
  have "int32 (Chunk_Index c)" if "get ''d'' 2 = Inr c" for c
    using that by (auto simp: get_def sample_chunk_def int32_def)
  from chunk_fetched [OF g _ _ this req_def const_faithful const_faithful [of resp, unfolded resp_def], where deliver = "\<lambda>b. [take 3 b, drop 3 b]"]
  show ?thesis by (auto simp: get_def int32_def)
qed
end
