(* ===== verification/P2P_Modes.thy ===== *)
theory P2P_Modes
  imports P2P_Wire "HOL-Library.AList"
begin

text \<open>
  The three modes of a node and their manager (\<open>internal/p2p/mode.go\<close>, \<open>mode_proxy.go\<close>,
  \<open>mode_selective.go\<close>, \<open>mode_full.go\<close>). The answers of the peers, the clock, the iteration order of
  maps, the text of JSON documents and the success of file operations are arguments; a map is the
  list of its pairs, and the file of the subscriptions is part of a disk.

  Shown: a query over the peers returns each hash once, in the order of the first peer that has it;
  the cache of the proxy never holds more than the limit, and what it serves is an answer to the same
  request that has not expired; the subscriptions are distinct and survive a restart; the manager
  keeps the mode, the handler and the configuration together. An offset beyond the end returns
  everything, subscriptions of the configuration are not applied at the start, and synchronising a
  subscription does not look at its pattern.
\<close>

section \<open>Queries over peers\<close>

type_synonym PeerID = string

record mode_net =
  N_peers :: "PeerID list"
  N_connectedness :: "PeerID \<Rightarrow> int"
  N_query :: "PeerID \<Rightarrow> QueryRequest \<Rightarrow> wire_error + QueryResult"
  N_catalog :: "PeerID \<Rightarrow> wire_error + Catalog"
  N_cancelled :: "nat \<Rightarrow> bool"
  N_error_text :: "wire_error \<Rightarrow> string"

text \<open>The loop over the entries of one peer, with the set of the hashes seen.\<close>

fun add_entries :: "CatalogEntry list \<Rightarrow> string list \<Rightarrow> CatalogEntry list \<Rightarrow> string list \<times> CatalogEntry list" where
  "add_entries [] seen all = (seen, all)"
| "add_entries (e # es) seen all =
     (if Entry_Hash e \<in> set seen then add_entries es seen all
      else add_entries es (Entry_Hash e # seen) (all @ [e]))"

text \<open>The loop over the peers: \<open>None\<close> when the context is done before the last one.\<close>

fun query_loop ::
    "mode_net \<Rightarrow> QueryRequest \<Rightarrow> nat \<Rightarrow> PeerID list \<Rightarrow> string \<Rightarrow> string list \<Rightarrow> CatalogEntry list
       \<Rightarrow> (string \<times> CatalogEntry list) option" where
  "query_loop net req i [] source seen all = Some (source, all)"
| "query_loop net req i (p # ps) source seen all =
     (if N_cancelled net i then None
      else case N_query net p req of
             Inl err \<Rightarrow> query_loop net req (Suc i) ps source seen all
           | Inr r \<Rightarrow>
               (case add_entries (Res_Entries r) seen all of
                  (seen', all') \<Rightarrow>
                    query_loop net req (Suc i) ps (if source = '''' \<and> Res_Entries r \<noteq> [] then p else source) seen' all'))"

definition paginate :: "QueryRequest \<Rightarrow> CatalogEntry list \<Rightarrow> CatalogEntry list" where
  "paginate req all =
     (let xs = (if QR_Offset req > 0 \<and> QR_Offset req < int (length all) then drop (nat (QR_Offset req)) all else all)
      in if QR_Limit req > 0 \<and> QR_Limit req < int (length xs) then take (nat (QR_Limit req)) xs else xs)"

section \<open>Configuration\<close>

text \<open>Of the configuration of the peer-to-peer part the fields that the modes read.\<close>

record ProxyConfig =
  PxC_CacheTTL :: duration
  PxC_MaxCacheSize :: int
  PxC_FavoritePeers :: "string list"

record SelectiveConfig =
  SlC_Subscriptions :: "string list"
  SlC_SubscriptionStorePath :: string

record FullReplicaConfig =
  FrC_SyncInterval :: duration

record P2PConfig =
  P2P_Mode :: string
  P2P_FullReplica :: FullReplicaConfig
  P2P_Selective :: SelectiveConfig
  P2P_Proxy :: ProxyConfig

section \<open>Proxy mode\<close>

record cacheEntry =
  CE_result :: QueryResult
  CE_expiresAt :: instant

record ProxyHandler =
  Px_cfg :: P2PConfig
  Px_cache :: "(string \<times> cacheEntry) list"
  Px_favorites :: "PeerID list"

text \<open>Strings that are no peer identifier are skipped; \<open>decode\<close> is \<open>peer.Decode\<close>.\<close>

definition parseFavorites :: "(string \<Rightarrow> PeerID option) \<Rightarrow> string list \<Rightarrow> PeerID list" where
  "parseFavorites decode addrs = List.map_filter decode addrs"

definition NewProxyHandler :: "(string \<Rightarrow> PeerID option) \<Rightarrow> P2PConfig \<Rightarrow> ProxyHandler" where
  "NewProxyHandler decode cfg =
     \<lparr>Px_cfg = cfg, Px_cache = [], Px_favorites = parseFavorites decode (PxC_FavoritePeers (P2P_Proxy cfg))\<rparr>"

definition Proxy_OnConfigUpdate :: "(string \<Rightarrow> PeerID option) \<Rightarrow> P2PConfig \<Rightarrow> ProxyHandler \<Rightarrow> ProxyHandler" where
  "Proxy_OnConfigUpdate decode cfg h =
     h\<lparr>Px_cfg := cfg, Px_favorites := parseFavorites decode (PxC_FavoritePeers (P2P_Proxy cfg))\<rparr>"

definition getFromCache :: "instant \<Rightarrow> string \<Rightarrow> ProxyHandler \<Rightarrow> QueryResult option" where
  "getFromCache now key h =
     (case map_of (Px_cache h) key of
        None \<Rightarrow> None
      | Some e \<Rightarrow> if now > CE_expiresAt e then None else Some ((CE_result e)\<lparr>Res_FromCache := True\<rparr>))"

fun oldest :: "(string \<times> cacheEntry) list \<Rightarrow> string \<Rightarrow> instant \<Rightarrow> string" where
  "oldest [] oldestKey oldestTime = oldestKey"
| "oldest ((key, e) # xs) oldestKey oldestTime =
     (if oldestKey = '''' \<or> CE_expiresAt e < oldestTime then oldest xs key (CE_expiresAt e)
      else oldest xs oldestKey oldestTime)"

text \<open>\<open>ord\<close> is the order in which the map is iterated.\<close>

type_synonym cache_order = "(string \<times> cacheEntry) list \<Rightarrow> (string \<times> cacheEntry) list"

definition evictOldest :: "cache_order \<Rightarrow> ProxyHandler \<Rightarrow> ProxyHandler" where
  "evictOldest ord h =
     (let k = oldest (ord (Px_cache h)) '''' 0
      in if k \<noteq> '''' then h\<lparr>Px_cache := AList.delete k (Px_cache h)\<rparr> else h)"

definition cache_limit :: "P2PConfig \<Rightarrow> int" where
  "cache_limit cfg = (if PxC_MaxCacheSize (P2P_Proxy cfg) = 0 then 1000 else PxC_MaxCacheSize (P2P_Proxy cfg))"

definition cache_ttl :: "P2PConfig \<Rightarrow> duration" where
  "cache_ttl cfg = (if PxC_CacheTTL (P2P_Proxy cfg) = 0 then 120 * 10 ^ 9 else PxC_CacheTTL (P2P_Proxy cfg))"

definition putInCache :: "cache_order \<Rightarrow> instant \<Rightarrow> string \<Rightarrow> QueryResult \<Rightarrow> ProxyHandler \<Rightarrow> ProxyHandler" where
  "putInCache ord now key result h =
     (let h' = (if int (length (Px_cache h)) \<ge> cache_limit (Px_cfg h) then evictOldest ord h else h)
      in h'\<lparr>Px_cache := AList.update key \<lparr>CE_result = result, CE_expiresAt = now + cache_ttl (Px_cfg h)\<rparr> (Px_cache h')\<rparr>)"

definition getPeersForForwarding :: "mode_net \<Rightarrow> ProxyHandler \<Rightarrow> PeerID list" where
  "getPeersForForwarding net h =
     filter (\<lambda>fav. N_connectedness net fav = 1) (Px_favorites h)
     @ filter (\<lambda>p. p \<notin> set (Px_favorites h)) (N_peers net)"

definition forwardQuery :: "mode_net \<Rightarrow> QueryRequest \<Rightarrow> ProxyHandler \<Rightarrow> QueryResult option" where
  "forwardQuery net req h =
     (let peers = getPeersForForwarding net h
      in if peers = [] then Some (empty_result (QR_ID req))
         else map_option (\<lambda>(source, all). (empty_result (QR_ID req))\<lparr>Res_Entries := paginate req all,
                             Res_TotalCount := int (length all), Res_SourcePeer := source\<rparr>)
                (query_loop net req 0 peers '''' [] []))"

text \<open>A query looks into the cache at \<open>now\<close> and stores its answer at \<open>later\<close>.\<close>

definition Proxy_Query ::
    "(QueryRequest \<Rightarrow> string) \<Rightarrow> cache_order \<Rightarrow> mode_net \<Rightarrow> instant \<Rightarrow> instant \<Rightarrow> QueryRequest \<Rightarrow> ProxyHandler
       \<Rightarrow> QueryResult option \<times> ProxyHandler" where
  "Proxy_Query cacheKey ord net now later req h =
     (case getFromCache now (cacheKey req) h of
        Some r \<Rightarrow> (Some r, h)
      | None \<Rightarrow>
          (case forwardQuery net req h of
             None \<Rightarrow> (None, h)
           | Some r \<Rightarrow> (Some r, putInCache ord later (cacheKey req) r h)))"

definition cleanupExpired :: "instant \<Rightarrow> ProxyHandler \<Rightarrow> ProxyHandler" where
  "cleanupExpired now h = h\<lparr>Px_cache := filter (\<lambda>(k, e). \<not> now > CE_expiresAt e) (Px_cache h)\<rparr>"

definition CacheStats :: "ProxyHandler \<Rightarrow> nat \<times> int" where
  "CacheStats h = (length (Px_cache h), cache_limit (Px_cfg h))"

definition ClearCache :: "ProxyHandler \<Rightarrow> ProxyHandler" where
  "ClearCache h = h\<lparr>Px_cache := []\<rparr>"

definition AddFavorite :: "PeerID \<Rightarrow> ProxyHandler \<Rightarrow> ProxyHandler" where
  "AddFavorite p h = (if p \<in> set (Px_favorites h) then h else h\<lparr>Px_favorites := Px_favorites h @ [p]\<rparr>)"

definition RemoveFavorite :: "PeerID \<Rightarrow> ProxyHandler \<Rightarrow> ProxyHandler" where
  "RemoveFavorite p h = h\<lparr>Px_favorites := remove1 p (Px_favorites h)\<rparr>"

section \<open>Selective mode\<close>

text \<open>
  The file of the subscriptions: its path, the content written, and the subscriptions a reader of that
  content is left with (none when it is not a document). A disk maps paths to contents. The
  readings of the clock in one loop over patterns are one argument.
\<close>

record 'x store_env =
  SV_join :: "string \<Rightarrow> string \<Rightarrow> string"
  SV_enc :: "Subscription list \<Rightarrow> 'x"
  SV_dec :: "'x \<Rightarrow> Subscription list"

type_synonym 'x mode_disk = "string \<rightharpoonup> 'x"

text \<open>The outcome of writing the file: done, failed before the file was touched, or failed with some content left in it.\<close>

datatype 'x saving = Saved | Unwritten | Torn 'x

datatype mode_error = NotPersisted | ContextCancelled | InvalidMode string | UnknownMode string | StopFailed

record SelectiveHandler =
  Sl_cfg :: P2PConfig
  Sl_configDir :: string
  Sl_subscriptions :: "Subscription list"
  Sl_catalog :: "(string \<times> CatalogEntry list) list"

definition subscriptionStorePath :: "'x store_env \<Rightarrow> P2PConfig \<Rightarrow> string \<Rightarrow> string" where
  "subscriptionStorePath env cfg configDir =
     (if SlC_SubscriptionStorePath (P2P_Selective cfg) \<noteq> '''' then SlC_SubscriptionStorePath (P2P_Selective cfg)
      else SV_join env configDir ''subscriptions.json'')"

definition saveSubscriptions :: "'x store_env \<Rightarrow> 'x saving \<Rightarrow> SelectiveHandler \<Rightarrow> 'x mode_disk \<Rightarrow> mode_error option \<times> 'x mode_disk" where
  "saveSubscriptions env ok h disk =
     (let path = subscriptionStorePath env (Sl_cfg h) (Sl_configDir h)
      in case ok of
           Saved \<Rightarrow> (None, disk(path \<mapsto> SV_enc env (Sl_subscriptions h)))
         | Unwritten \<Rightarrow> (Some NotPersisted, disk)
         | Torn x \<Rightarrow> (Some NotPersisted, disk(path \<mapsto> x)))"

definition NewSelectiveHandler :: "'x store_env \<Rightarrow> bool \<Rightarrow> P2PConfig \<Rightarrow> string \<Rightarrow> 'x mode_disk \<Rightarrow> SelectiveHandler" where
  "NewSelectiveHandler env readable cfg configDir disk =
     \<lparr>Sl_cfg = cfg, Sl_configDir = configDir,
      Sl_subscriptions =
        (if readable then case disk (subscriptionStorePath env cfg configDir) of None \<Rightarrow> [] | Some s \<Rightarrow> SV_dec env s
         else []),
      Sl_catalog = []\<rparr>"

definition addSubscriptionLocked :: "instant \<Rightarrow> string \<Rightarrow> SelectiveHandler \<Rightarrow> SelectiveHandler" where
  "addSubscriptionLocked now pat h =
     (if pat \<in> Sub_TopicPattern ` set (Sl_subscriptions h) then h
      else h\<lparr>Sl_subscriptions := Sl_subscriptions h
               @ [\<lparr>Sub_TopicPattern = pat, Sub_CreatedAt = now, Sub_LastSync = 0\<rparr>]\<rparr>)"

definition Selective_OnConfigUpdate :: "instant \<Rightarrow> P2PConfig \<Rightarrow> SelectiveHandler \<Rightarrow> SelectiveHandler" where
  "Selective_OnConfigUpdate now cfg h =
     fold (addSubscriptionLocked now) (SlC_Subscriptions (P2P_Selective cfg)) (h\<lparr>Sl_cfg := cfg\<rparr>)"

definition Selective_Subscribe ::
    "'x store_env \<Rightarrow> 'x saving \<Rightarrow> instant \<Rightarrow> string \<Rightarrow> SelectiveHandler \<Rightarrow> 'x mode_disk \<Rightarrow> mode_error option \<times> SelectiveHandler \<times> 'x mode_disk" where
  "Selective_Subscribe env ok now pat h disk =
     (let h' = addSubscriptionLocked now pat h
      in case saveSubscriptions env ok h' disk of (err, disk') \<Rightarrow> (err, h', disk'))"

fun remove_subscription :: "string \<Rightarrow> Subscription list \<Rightarrow> Subscription list" where
  "remove_subscription pat [] = []"
| "remove_subscription pat (s # ss) = (if Sub_TopicPattern s = pat then ss else s # remove_subscription pat ss)"

definition Selective_Unsubscribe ::
    "'x store_env \<Rightarrow> 'x saving \<Rightarrow> string \<Rightarrow> SelectiveHandler \<Rightarrow> 'x mode_disk \<Rightarrow> mode_error option \<times> SelectiveHandler \<times> 'x mode_disk" where
  "Selective_Unsubscribe env ok pat h disk =
     (let h' = h\<lparr>Sl_subscriptions := remove_subscription pat (Sl_subscriptions h), Sl_catalog := AList.delete pat (Sl_catalog h)\<rparr>
      in case saveSubscriptions env ok h' disk of (err, disk') \<Rightarrow> (err, h', disk'))"

definition Selective_Query :: "mode_net \<Rightarrow> QueryRequest \<Rightarrow> QueryResult option" where
  "Selective_Query net req =
     map_option (\<lambda>(source, all). (empty_result (QR_ID req))\<lparr>Res_Entries := paginate req all, Res_TotalCount := int (length all)\<rparr>)
       (query_loop net req 0 (N_peers net) '''' [] [])"

definition sync_request_of :: "string \<Rightarrow> QueryRequest" where
  "sync_request_of pat =
     \<lparr>QR_ID = ''sync-'' @ pat, QR_Type = '''', QR_TopicID = '''', QR_DatasetID = '''', QR_TargetDatasets = [], QR_SQL = '''',
      QR_NamePattern = '''', QR_Expression = '''', QR_Limit = 0, QR_Offset = 0, QR_StreamResults = False, QR_Timeout = 0,
      QR_RequestedBy = '''', QR_RequestedAt = 0\<rparr>"

fun touch_subscription :: "instant \<Rightarrow> string \<Rightarrow> Subscription list \<Rightarrow> Subscription list" where
  "touch_subscription now pat [] = []"
| "touch_subscription now pat (s # ss) =
     (if Sub_TopicPattern s = pat then s\<lparr>Sub_LastSync := now\<rparr> # ss else s # touch_subscription now pat ss)"

definition SyncSubscription :: "mode_net \<Rightarrow> instant \<Rightarrow> string \<Rightarrow> SelectiveHandler \<Rightarrow> mode_error option \<times> SelectiveHandler" where
  "SyncSubscription net now pat h =
     (case Selective_Query net (sync_request_of pat) of
        None \<Rightarrow> (Some ContextCancelled, h)
      | Some r \<Rightarrow> (None, h\<lparr>Sl_catalog := AList.update pat (Res_Entries r) (Sl_catalog h),
                          Sl_subscriptions := touch_subscription now pat (Sl_subscriptions h)\<rparr>))"

definition GetCachedEntries :: "string \<Rightarrow> SelectiveHandler \<Rightarrow> CatalogEntry list option" where
  "GetCachedEntries pat h = map_of (Sl_catalog h) pat"

section \<open>Full replica mode\<close>

record FullReplicaHandler =
  Fr_cfg :: P2PConfig
  Fr_catalogs :: "(PeerID \<times> Catalog) list"
  Fr_syncStatus :: SyncStatus

definition NewFullReplicaHandler :: "P2PConfig \<Rightarrow> FullReplicaHandler" where
  "NewFullReplicaHandler cfg =
     \<lparr>Fr_cfg = cfg, Fr_catalogs = [],
      Fr_syncStatus = \<lparr>Sync_InProgress = False, Sync_LastSyncTime = 0, Sync_LastSyncError = '''',
                       Sync_PendingEntries = 0, Sync_SyncedEntries = 0\<rparr>\<rparr>"

definition Full_OnConfigUpdate :: "P2PConfig \<Rightarrow> FullReplicaHandler \<Rightarrow> FullReplicaHandler" where
  "Full_OnConfigUpdate cfg h = h\<lparr>Fr_cfg := cfg\<rparr>"

fun sync_peers :: "mode_net \<Rightarrow> nat \<Rightarrow> PeerID list \<Rightarrow> FullReplicaHandler \<Rightarrow> FullReplicaHandler" where
  "sync_peers net i [] h = h"
| "sync_peers net i (p # ps) h =
     (if N_cancelled net i then h
      else sync_peers net (Suc i) ps
             (case N_catalog net p of
                Inl err \<Rightarrow> h\<lparr>Fr_syncStatus := (Fr_syncStatus h)\<lparr>Sync_LastSyncError := N_error_text net err\<rparr>\<rparr>
              | Inr c \<Rightarrow> h\<lparr>Fr_catalogs := AList.update p c (Fr_catalogs h)\<rparr>))"

definition syncAll :: "mode_net \<Rightarrow> instant \<Rightarrow> FullReplicaHandler \<Rightarrow> FullReplicaHandler" where
  "syncAll net now h =
     (let h' = sync_peers net 0 (N_peers net) (h\<lparr>Fr_syncStatus := (Fr_syncStatus h)\<lparr>Sync_InProgress := True\<rparr>\<rparr>)
      in h'\<lparr>Fr_syncStatus := (Fr_syncStatus h')\<lparr>Sync_InProgress := False, Sync_LastSyncTime := now\<rparr>\<rparr>)"

definition GetAllEntries :: "((PeerID \<times> Catalog) list \<Rightarrow> (PeerID \<times> Catalog) list) \<Rightarrow> FullReplicaHandler \<Rightarrow> CatalogEntry list" where
  "GetAllEntries ord h = snd (add_entries (concat (map (Catalog_Entries \<circ> snd) (ord (Fr_catalogs h)))) [] [])"

section \<open>The manager\<close>

datatype mode_handler = HProxy ProxyHandler | HSelective SelectiveHandler | HFull FullReplicaHandler

definition NodeModeProxy :: string where "NodeModeProxy = ''proxy''"
definition NodeModeSelective :: string where "NodeModeSelective = ''selective''"
definition NodeModeFull :: string where "NodeModeFull = ''full''"

text \<open>The case of a mode is folded by the function \<open>lower\<close>.\<close>

definition ParseNodeMode :: "(string \<Rightarrow> string) \<Rightarrow> string \<Rightarrow> mode_error + string" where
  "ParseNodeMode lower s =
     (if lower s = ''proxy'' \<or> lower s = '''' then Inr NodeModeProxy
      else if lower s = ''selective'' then Inr NodeModeSelective
      else if lower s = ''full'' then Inr NodeModeFull
      else Inl (InvalidMode s))"

record 'x mode_env =
  ME_lower :: "string \<Rightarrow> string"
  ME_decode :: "string \<Rightarrow> PeerID option"
  ME_store :: "'x store_env"

record ModeManager =
  MM_configDir :: string
  MM_mode :: string
  MM_handler :: mode_handler
  MM_cfg :: P2PConfig
  MM_running :: bool

definition handler_mode :: "mode_handler \<Rightarrow> string" where
  "handler_mode h = (case h of HProxy _ \<Rightarrow> NodeModeProxy | HSelective _ \<Rightarrow> NodeModeSelective | HFull _ \<Rightarrow> NodeModeFull)"

definition createHandler ::
    "'x mode_env \<Rightarrow> bool \<Rightarrow> P2PConfig \<Rightarrow> string \<Rightarrow> 'x mode_disk \<Rightarrow> string \<Rightarrow> mode_error + mode_handler" where
  "createHandler env readable cfg configDir disk mode =
     (if mode = NodeModeProxy then Inr (HProxy (NewProxyHandler (ME_decode env) cfg))
      else if mode = NodeModeSelective then Inr (HSelective (NewSelectiveHandler (ME_store env) readable cfg configDir disk))
      else if mode = NodeModeFull then Inr (HFull (NewFullReplicaHandler cfg))
      else Inl (UnknownMode mode))"

definition NewModeManager ::
    "'x mode_env \<Rightarrow> bool \<Rightarrow> P2PConfig \<Rightarrow> string \<Rightarrow> 'x mode_disk \<Rightarrow> mode_error + ModeManager" where
  "NewModeManager env readable cfg configDir disk =
     (case ParseNodeMode (ME_lower env) (P2P_Mode cfg) of
        Inl e \<Rightarrow> Inl e
      | Inr mode \<Rightarrow>
          (case createHandler env readable cfg configDir disk mode of
             Inl e \<Rightarrow> Inl e
           | Inr h \<Rightarrow> Inr \<lparr>MM_configDir = configDir, MM_mode = mode, MM_handler = h, MM_cfg = cfg, MM_running = False\<rparr>))"

definition ModeManager_Start :: "ModeManager \<Rightarrow> ModeManager" where
  "ModeManager_Start mm = mm\<lparr>MM_running := True\<rparr>"

text \<open>Stopping a selective handler writes its subscriptions; the others cannot fail.\<close>

definition stop_handler :: "'x mode_env \<Rightarrow> 'x saving \<Rightarrow> mode_handler \<Rightarrow> 'x mode_disk \<Rightarrow> mode_error option \<times> 'x mode_disk" where
  "stop_handler env ok h disk = (case h of HSelective sh \<Rightarrow> saveSubscriptions (ME_store env) ok sh disk | _ \<Rightarrow> (None, disk))"

definition ModeManager_Stop :: "'x mode_env \<Rightarrow> 'x saving \<Rightarrow> ModeManager \<Rightarrow> 'x mode_disk \<Rightarrow> mode_error option \<times> ModeManager \<times> 'x mode_disk" where
  "ModeManager_Stop env ok mm disk =
     (case stop_handler env ok (MM_handler mm) disk of (err, disk') \<Rightarrow> (err, mm\<lparr>MM_running := False\<rparr>, disk'))"

definition SetMode ::
    "'x mode_env \<Rightarrow> 'x saving \<Rightarrow> bool \<Rightarrow> string \<Rightarrow> ModeManager \<Rightarrow> 'x mode_disk \<Rightarrow> mode_error option \<times> ModeManager \<times> 'x mode_disk" where
  "SetMode env ok readable mode mm disk =
     (if MM_mode mm = mode then (None, mm, disk)
      else case stop_handler env ok (MM_handler mm) disk of
             (Some e, disk') \<Rightarrow> (Some StopFailed, mm\<lparr>MM_running := False\<rparr>, disk')
           | (None, disk') \<Rightarrow>
               (case createHandler env readable (MM_cfg mm) (MM_configDir mm) disk' mode of
                  Inl e \<Rightarrow> (Some e, mm\<lparr>MM_running := False\<rparr>, disk')
                | Inr h \<Rightarrow> (None, mm\<lparr>MM_mode := mode, MM_handler := h, MM_running := True\<rparr>, disk')))"

definition handler_config :: "'x mode_env \<Rightarrow> instant \<Rightarrow> P2PConfig \<Rightarrow> mode_handler \<Rightarrow> mode_handler" where
  "handler_config env now cfg h =
     (case h of
        HProxy ph \<Rightarrow> HProxy (Proxy_OnConfigUpdate (ME_decode env) cfg ph)
      | HSelective sh \<Rightarrow> HSelective (Selective_OnConfigUpdate now cfg sh)
      | HFull fh \<Rightarrow> HFull (Full_OnConfigUpdate cfg fh))"

definition UpdateConfig ::
    "'x mode_env \<Rightarrow> 'x saving \<Rightarrow> bool \<Rightarrow> instant \<Rightarrow> P2PConfig \<Rightarrow> ModeManager \<Rightarrow> 'x mode_disk \<Rightarrow> mode_error option \<times> ModeManager \<times> 'x mode_disk" where
  "UpdateConfig env ok readable now cfg mm disk =
     (case ParseNodeMode (ME_lower env) (P2P_Mode cfg) of
        Inl e \<Rightarrow> (Some e, mm, disk)
      | Inr mode \<Rightarrow>
          let mm' = mm\<lparr>MM_cfg := cfg\<rparr>
          in if mode \<noteq> MM_mode mm then SetMode env ok readable mode mm' disk
             else (None, mm'\<lparr>MM_handler := handler_config env now cfg (MM_handler mm')\<rparr>, disk))"

section \<open>Each hash once\<close>

text \<open>The reference: of the entries with the same hash the first.\<close>

fun first_by_hash :: "CatalogEntry list \<Rightarrow> CatalogEntry list" where
  "first_by_hash [] = []"
| "first_by_hash (e # es) = e # filter (\<lambda>x. Entry_Hash x \<noteq> Entry_Hash e) (first_by_hash es)"

lemma image_filter_diff: "f ` set (filter (\<lambda>x. f x \<notin> A) xs) = f ` set xs - A"
  by auto

lemma hashes_first_by_hash [simp]: "Entry_Hash ` set (first_by_hash es) = Entry_Hash ` set es"
proof (induction es)
  case (Cons e es)
  then show ?case using image_filter_diff [of Entry_Hash "{Entry_Hash e}" "first_by_hash es"] by auto
qed simp

lemma first_by_hash_subset: "set (first_by_hash es) \<subseteq> set es"
  by (induction es) auto

lemma distinct_first_by_hash [simp]: "distinct (map Entry_Hash (first_by_hash es))"
  by (induction es) (auto simp: distinct_map_filter)

lemma first_by_hash_append:
  "first_by_hash (xs @ ys) = first_by_hash xs @ filter (\<lambda>e. Entry_Hash e \<notin> Entry_Hash ` set xs) (first_by_hash ys)"
  by (induction xs) (auto simp: filter_filter intro!: filter_cong)

lemma add_entries_exact:
  assumes "set seen = Entry_Hash ` set all"
  shows "snd (add_entries es seen all) = all @ filter (\<lambda>e. Entry_Hash e \<notin> set seen) (first_by_hash es)
    \<and> set (fst (add_entries es seen all)) = Entry_Hash ` set (snd (add_entries es seen all))"
  using assms
proof (induction es seen all rule: add_entries.induct)
  case (2 e es seen all)
  show ?case
  proof (cases "Entry_Hash e \<in> set seen")
    case True
    have "filter (\<lambda>x. Entry_Hash x \<notin> set seen) (first_by_hash (e # es)) = filter (\<lambda>x. Entry_Hash x \<notin> set seen) (first_by_hash es)"
      using True by (auto intro!: filter_cong)
    then show ?thesis using 2(1) [OF True 2(3)] True by simp
  next
    case False
    then have "set (Entry_Hash e # seen) = Entry_Hash ` set (all @ [e])" using 2(3) by auto
    from 2(2) [OF False this] show ?thesis using False by (auto simp: filter_filter intro!: filter_cong)
  qed
qed simp

definition answers :: "mode_net \<Rightarrow> QueryRequest \<Rightarrow> PeerID list \<Rightarrow> CatalogEntry list" where
  "answers net req ps = concat (map (\<lambda>p. case N_query net p req of Inl e \<Rightarrow> [] | Inr r \<Rightarrow> Res_Entries r) ps)"

lemma query_loop_exact:
  assumes "\<And>k. \<not> N_cancelled net k" and "set seen = Entry_Hash ` set all"
  shows "\<exists>source'. query_loop net req i ps source seen all
    = Some (source', all @ filter (\<lambda>e. Entry_Hash e \<notin> set seen) (first_by_hash (answers net req ps)))"
  using assms(2)
proof (induction ps arbitrary: i source seen all)
  case (Cons p ps)
  show ?case
  proof (cases "N_query net p req")
    case (Inl err)
    then show ?thesis using Cons assms(1) by (simp add: answers_def)
  next
    case (Inr r)
    obtain seen' all' where a: "add_entries (Res_Entries r) seen all = (seen', all')" by fastforce
    from add_entries_exact [OF Cons.prems, of "Res_Entries r"] a
    have s: "all' = all @ filter (\<lambda>e. Entry_Hash e \<notin> set seen) (first_by_hash (Res_Entries r))" "set seen' = Entry_Hash ` set all'" by auto
    have seen': "set seen' = set seen \<union> Entry_Hash ` set (Res_Entries r)"
      using s Cons.prems image_filter_diff [of Entry_Hash "set seen" "first_by_hash (Res_Entries r)"]
      by (simp only: set_append image_Un hashes_first_by_hash) blast
    have "first_by_hash (answers net req (p # ps))
        = first_by_hash (Res_Entries r) @ filter (\<lambda>e. Entry_Hash e \<notin> Entry_Hash ` set (Res_Entries r)) (first_by_hash (answers net req ps))"
      by (simp add: answers_def Inr first_by_hash_append)
    then have "all' @ filter (\<lambda>e. Entry_Hash e \<notin> set seen') (first_by_hash (answers net req ps))
        = all @ filter (\<lambda>e. Entry_Hash e \<notin> set seen) (first_by_hash (answers net req (p # ps)))"
      by (simp add: s(1) seen' filter_filter) (auto intro!: filter_cong)
    then show ?thesis using Cons.IH [OF s(2), of "Suc i"] a Inr assms(1) by simp
  qed
qed (simp add: answers_def)

lemma query_loop_all:
  assumes "\<And>k. \<not> N_cancelled net k"
  obtains source where "query_loop net req 0 ps '''' [] [] = Some (source, first_by_hash (answers net req ps))"
  using query_loop_exact [OF assms, of "[]" "[]" req 0 ps "''''"] by auto

lemma query_loop_cancelled:
  "k < length ps \<Longrightarrow> N_cancelled net (i + k) \<Longrightarrow> query_loop net req i ps source seen all = None"
proof (induction ps arbitrary: i k source seen all)
  case (Cons p ps)
  show ?case
  proof (cases k)
    case 0
    then show ?thesis using Cons.prems by simp
  next
    case (Suc k')
    then have "k' < length ps" "N_cancelled net (Suc i + k')" using Cons.prems by simp_all
    then show ?thesis using Cons.IH by (simp split: sum.splits prod.splits)
  qed
qed simp

text \<open>Pages: within the answer an offset and a limit select a slice; at its end and beyond the offset is ignored.\<close>

lemma paginate_slice:
  assumes "0 \<le> QR_Offset req" and "QR_Offset req < int (length all)" and "0 < QR_Limit req"
  shows "paginate req all = take (nat (QR_Limit req)) (drop (nat (QR_Offset req)) all)"
  using assms by (auto simp: paginate_def Let_def)

lemma paginate_subset: "set (paginate req all) \<subseteq> set all"
  by (auto simp: paginate_def Let_def dest: in_set_takeD in_set_dropD)

lemma paginate_distinct: "distinct (map f all) \<Longrightarrow> distinct (map f (paginate req all))"
  by (simp add: paginate_def Let_def distinct_take distinct_drop flip: take_map drop_map)

text \<open>The peers a proxy asks: the connected favourites first, every other connected peer after them.\<close>

lemma forwarding_peers:
  assumes "\<And>p. N_connectedness net p = 1 \<longleftrightarrow> p \<in> set (N_peers net)"
  shows "set (getPeersForForwarding net h) = set (N_peers net)"
  using assms by (auto simp: getPeersForForwarding_def)

lemma forwarding_distinct:
  assumes "distinct (N_peers net)" and "distinct (Px_favorites h)"
  shows "distinct (getPeersForForwarding net h)"
  using assms by (auto simp: getPeersForForwarding_def)

lemma AddFavorite_distinct: "distinct (Px_favorites h) \<Longrightarrow> distinct (Px_favorites (AddFavorite p h))"
  by (simp add: AddFavorite_def)

lemma RemoveFavorite_gone: "distinct (Px_favorites h) \<Longrightarrow> p \<notin> set (Px_favorites (RemoveFavorite p h))"
  by (simp add: RemoveFavorite_def)

section \<open>The cache of the proxy\<close>

text \<open>The cache is a map: no key twice, and no empty key, since a request is never encoded as the empty text.\<close>

definition cache_ok :: "ProxyHandler \<Rightarrow> bool" where
  "cache_ok h \<longleftrightarrow> distinct (map fst (Px_cache h)) \<and> '''' \<notin> fst ` set (Px_cache h)"

text \<open>The entry evicted: with any order of iteration, one whose expiry is the earliest.\<close>

lemma oldest_min:
  assumes "'''' \<notin> fst ` set xs" and "k \<noteq> ''''"
  shows "\<exists>t'. (oldest xs k t, t') \<in> insert (k, t) ((\<lambda>(k, e). (k, CE_expiresAt e)) ` set xs)
    \<and> t' \<le> t \<and> (\<forall>(k', e) \<in> set xs. t' \<le> CE_expiresAt e)"
  using assms
proof (induction xs arbitrary: k t)
  case (Cons x xs)
  obtain key e where x: "x = (key, e)" by fastforce
  have key: "key \<noteq> ''''" "'''' \<notin> fst ` set xs" using Cons.prems x by auto
  show ?case
  proof (cases "CE_expiresAt e < t")
    case True
    from Cons.IH [OF key(2,1), of "CE_expiresAt e"] obtain t' where
      "(oldest xs key (CE_expiresAt e), t') \<in> insert (key, CE_expiresAt e) ((\<lambda>(k, e). (k, CE_expiresAt e)) ` set xs)"
      "t' \<le> CE_expiresAt e" "\<forall>(k', e) \<in> set xs. t' \<le> CE_expiresAt e" by blast
    then show ?thesis using x True by (intro exI [of _ t']) auto
  next
    case False
    from Cons.IH [OF key(2) Cons.prems(2), of t] obtain t' where
      "(oldest xs k t, t') \<in> insert (k, t) ((\<lambda>(k, e). (k, CE_expiresAt e)) ` set xs)"
      "t' \<le> t" "\<forall>(k', e) \<in> set xs. t' \<le> CE_expiresAt e" by blast
    then show ?thesis using x False Cons.prems(2) by (intro exI [of _ t']) auto
  qed
qed auto

lemma evicted_is_oldest:
  assumes "cache_ok h" and "Px_cache h \<noteq> []" and "set (ord (Px_cache h)) = set (Px_cache h)"
  obtains k e where "(k, e) \<in> set (Px_cache h)" and "\<forall>(k', e') \<in> set (Px_cache h). CE_expiresAt e \<le> CE_expiresAt e'"
    and "Px_cache (evictOldest ord h) = AList.delete k (Px_cache h)"
proof -
  let ?xs = "ord (Px_cache h)"
  have "?xs \<noteq> []" using assms(2,3) by (metis set_empty)
  then obtain k0 e0 xs where xs: "?xs = (k0, e0) # xs" by (cases ?xs) auto
  have ne: "'''' \<notin> fst ` set ?xs" using assms(1,3) by (simp add: cache_ok_def)
  then have ne': "'''' \<notin> fst ` set xs" "k0 \<noteq> ''''" using xs by auto
  from oldest_min [OF ne', of "CE_expiresAt e0"] obtain t where
    t: "(oldest xs k0 (CE_expiresAt e0), t) \<in> insert (k0, CE_expiresAt e0) ((\<lambda>(k, e). (k, CE_expiresAt e)) ` set xs)"
      "t \<le> CE_expiresAt e0" "\<forall>(k', e) \<in> set xs. t \<le> CE_expiresAt e" by blast
  let ?k = "oldest xs k0 (CE_expiresAt e0)"
  obtain e where e: "(?k, e) \<in> set ?xs" "CE_expiresAt e = t" using t(1) xs by auto
  have min: "\<forall>(k', e') \<in> set ?xs. CE_expiresAt e \<le> CE_expiresAt e'" using t(2,3) e(2) xs by auto
  have "?k \<noteq> ''''" using e(1) ne by force
  then have "Px_cache (evictOldest ord h) = AList.delete ?k (Px_cache h)" using xs by (simp add: evictOldest_def)
  then show thesis using that e(1) min assms(3) by auto
qed

lemma length_delete_present: "distinct (map fst xs) \<Longrightarrow> (k, e) \<in> set xs \<Longrightarrow> length (AList.delete k xs) < length xs"
  by (auto simp: AList.delete_eq intro: length_filter_less)

lemma length_update_le: "length (AList.update k v xs) \<le> Suc (length xs)"
  by (induction xs) auto

lemma evictOldest_ok: "cache_ok h \<Longrightarrow> cache_ok (evictOldest ord h)"
  by (auto simp: cache_ok_def evictOldest_def Let_def AList.delete_eq distinct_map_filter)

lemma evictOldest_cfg [simp]: "Px_cfg (evictOldest ord h) = Px_cfg h" "Px_favorites (evictOldest ord h) = Px_favorites h"
  by (simp_all add: evictOldest_def Let_def)

lemma evictOldest_subset: "set (Px_cache (evictOldest ord h)) \<subseteq> set (Px_cache h)"
  by (auto simp: evictOldest_def Let_def AList.delete_eq)

lemma putInCache_ok: "cache_ok h \<Longrightarrow> key \<noteq> '''' \<Longrightarrow> cache_ok (putInCache ord now key r h)"
  using evictOldest_ok [of h ord]
  by (auto simp: cache_ok_def putInCache_def Let_def distinct_update dom_update)

lemma putInCache_length:
  assumes "cache_ok h" and "set (ord (Px_cache h)) = set (Px_cache h)" and "int (length (Px_cache h)) \<le> n"
    and "cache_limit (Px_cfg h) \<le> n" and "1 \<le> n"
  shows "int (length (Px_cache (putInCache ord now key r h))) \<le> n"
proof (cases "int (length (Px_cache h)) \<ge> cache_limit (Px_cfg h)")
  case False
  then have "Suc (length (Px_cache h)) \<le> nat n" using assms(4) by linarith
  then have "length (AList.update key e (Px_cache h)) \<le> nat n" for e by (rule order_trans [OF length_update_le])
  then show ?thesis using False assms(5) by (simp add: putInCache_def Let_def le_nat_iff)
next
  case True
  show ?thesis
  proof (cases "Px_cache h = []")
    case empty: True
    then have "Px_cache (evictOldest ord h) = []" using evictOldest_subset [of ord h] by simp
    then show ?thesis using True assms(5) by (simp add: putInCache_def Let_def)
  next
    case False
    obtain k e where k: "(k, e) \<in> set (Px_cache h)" "Px_cache (evictOldest ord h) = AList.delete k (Px_cache h)"
      using evicted_is_oldest [of h ord, OF assms(1) False assms(2)] by metis
    have "length (Px_cache (evictOldest ord h)) < length (Px_cache h)"
      using length_delete_present [OF _ k(1)] k(2) assms(1) by (simp add: cache_ok_def)
    then have "length (AList.update key e' (Px_cache (evictOldest ord h))) \<le> length (Px_cache h)" for e'
      using length_update_le [of key e' "Px_cache (evictOldest ord h)"] by linarith
    then have "length (Px_cache (putInCache ord now key r h)) \<le> length (Px_cache h)"
      using True by (simp add: putInCache_def Let_def)
    then show ?thesis using assms(3) by linarith
  qed
qed

section \<open>Runs of the proxy\<close>

datatype proxy_op =
    PO_Query mode_net instant instant QueryRequest
  | PO_Cleanup instant
  | PO_Clear
  | PO_Config P2PConfig
  | PO_AddFavorite PeerID
  | PO_RemoveFavorite PeerID

text \<open>An answer given: to which request, when it was asked for, until when it may be served again.\<close>

record served =
  Sv_request :: QueryRequest
  Sv_asked :: instant
  Sv_expires :: instant
  Sv_result :: QueryResult

definition proxy_step ::
    "(QueryRequest \<Rightarrow> string) \<Rightarrow> cache_order \<Rightarrow> (string \<Rightarrow> PeerID option) \<Rightarrow> proxy_op \<Rightarrow> ProxyHandler \<Rightarrow> served list \<times> ProxyHandler" where
  "proxy_step cacheKey ord decode op h =
     (case op of
        PO_Query net now later req \<Rightarrow>
          (case Proxy_Query cacheKey ord net now later req h of
             (None, h') \<Rightarrow> ([], h')
           | (Some r, h') \<Rightarrow>
               ([\<lparr>Sv_request = req, Sv_asked = now, Sv_expires = later + cache_ttl (Px_cfg h), Sv_result = r\<rparr>], h'))
      | PO_Cleanup now \<Rightarrow> ([], cleanupExpired now h)
      | PO_Clear \<Rightarrow> ([], ClearCache h)
      | PO_Config cfg \<Rightarrow> ([], Proxy_OnConfigUpdate decode cfg h)
      | PO_AddFavorite p \<Rightarrow> ([], AddFavorite p h)
      | PO_RemoveFavorite p \<Rightarrow> ([], RemoveFavorite p h))"

fun proxy_run ::
    "(QueryRequest \<Rightarrow> string) \<Rightarrow> cache_order \<Rightarrow> (string \<Rightarrow> PeerID option) \<Rightarrow> proxy_op list \<Rightarrow> ProxyHandler \<Rightarrow> served list \<times> ProxyHandler" where
  "proxy_run cacheKey ord decode [] h = ([], h)"
| "proxy_run cacheKey ord decode (op # ops) h =
     (case proxy_step cacheKey ord decode op h of
        (out, h1) \<Rightarrow> (case proxy_run cacheKey ord decode ops h1 of (out', h2) \<Rightarrow> (out @ out', h2)))"

definition cached_from :: "(QueryRequest \<Rightarrow> string) \<Rightarrow> served list \<Rightarrow> ProxyHandler \<Rightarrow> bool" where
  "cached_from cacheKey past h \<longleftrightarrow>
     (\<forall>(k, e) \<in> set (Px_cache h). \<exists>s \<in> set past. cacheKey (Sv_request s) = k \<and> CE_result e = Sv_result s
        \<and> CE_expiresAt e = Sv_expires s \<and> \<not> Res_FromCache (Sv_result s))"

definition honest :: "(QueryRequest \<Rightarrow> string) \<Rightarrow> served list \<Rightarrow> served \<Rightarrow> bool" where
  "honest cacheKey past s \<longleftrightarrow>
     (Res_FromCache (Sv_result s) \<longrightarrow>
        (\<exists>s0 \<in> set past. cacheKey (Sv_request s0) = cacheKey (Sv_request s) \<and> \<not> Res_FromCache (Sv_result s0)
           \<and> Sv_result s = (Sv_result s0)\<lparr>Res_FromCache := True\<rparr> \<and> Sv_asked s \<le> Sv_expires s0))"

definition cache_within :: "int \<Rightarrow> ProxyHandler \<Rightarrow> bool" where
  "cache_within n h \<longleftrightarrow> int (length (Px_cache h)) \<le> n \<and> cache_limit (Px_cfg h) \<le> n"

definition op_within :: "int \<Rightarrow> proxy_op \<Rightarrow> bool" where
  "op_within n op \<longleftrightarrow> (case op of PO_Config cfg \<Rightarrow> cache_limit cfg \<le> n | _ \<Rightarrow> True)"

lemma forwarded_fresh: "forwardQuery net req h = Some r \<Longrightarrow> \<not> Res_FromCache r"
  by (auto simp: forwardQuery_def Let_def empty_result_def split: if_splits)

lemma putInCache_entries:
  "set (Px_cache (putInCache ord later k r h))
     \<subseteq> insert (k, \<lparr>CE_result = r, CE_expiresAt = later + cache_ttl (Px_cfg h)\<rparr>) (set (Px_cache h))"
proof -
  define h1 where "h1 = (if int (length (Px_cache h)) \<ge> cache_limit (Px_cfg h) then evictOldest ord h else h)"
  have u: "set (AList.update k v xs) \<subseteq> insert (k, v) (set xs)" for v :: cacheEntry and xs by (induction xs) auto
  have "set (Px_cache h1) \<subseteq> set (Px_cache h)" using evictOldest_subset [of ord h] by (simp add: h1_def)
  then show ?thesis using u [of "\<lparr>CE_result = r, CE_expiresAt = later + cache_ttl (Px_cfg h)\<rparr>" "Px_cache h1"]
    by (auto simp: putInCache_def Let_def simp flip: h1_def)
qed

lemma query_answers:
  assumes "Proxy_Query cacheKey ord net now later req h = (Some r, h')" and "cached_from cacheKey past h"
    and "s = \<lparr>Sv_request = req, Sv_asked = now, Sv_expires = later + cache_ttl (Px_cfg h), Sv_result = r\<rparr>"
  shows "honest cacheKey past s \<and> cached_from cacheKey (past @ [s]) h'"
proof (cases "getFromCache now (cacheKey req) h")
  case None
  then have f: "forwardQuery net req h = Some r" "h' = putInCache ord later (cacheKey req) r h"
    using assms(1) by (auto simp: Proxy_Query_def split: option.splits)
  have "cached_from cacheKey (past @ [s]) h'"
    unfolding cached_from_def f(2)
    using putInCache_entries [of ord later "cacheKey req" r h] forwarded_fresh [OF f(1)] assms(2,3)
    by (fastforce simp: cached_from_def)
  then show ?thesis using forwarded_fresh [OF f(1)] assms(3) by (simp add: honest_def)
next
  case (Some r')
  then have r: "r' = r" "h' = h" using assms(1) by (simp_all add: Proxy_Query_def)
  obtain e where e: "map_of (Px_cache h) (cacheKey req) = Some e" "now \<le> CE_expiresAt e" "r = (CE_result e)\<lparr>Res_FromCache := True\<rparr>"
    using Some r(1) by (auto simp: getFromCache_def split: option.splits if_splits)
  have "(cacheKey req, e) \<in> set (Px_cache h)" using e(1) by (rule map_of_SomeD)
  then obtain s0 where "s0 \<in> set past" "cacheKey (Sv_request s0) = cacheKey req" "CE_result e = Sv_result s0"
    "CE_expiresAt e = Sv_expires s0" "\<not> Res_FromCache (Sv_result s0)"
    using assms(2) by (force simp: cached_from_def)
  then have "honest cacheKey past s" unfolding honest_def using e assms(3) by (intro impI bexI [of _ s0]) simp_all
  then show ?thesis using assms(2) r(2) by (fastforce simp: cached_from_def)
qed

lemma proxy_step_keeps:
  assumes "\<And>req. cacheKey req \<noteq> ''''" and "\<And>xs. set (ord xs) = set xs" and "1 \<le> n"
    and "cache_ok h" and "cache_within n h" and "op_within n op" and "cached_from cacheKey past h"
    and "proxy_step cacheKey ord decode op h = (out, h')"
  shows "cache_ok h' \<and> cache_within n h' \<and> cached_from cacheKey (past @ out) h' \<and> (\<forall>i < length out. honest cacheKey (past @ take i out) (out ! i))"
proof (cases op)
  case (PO_Query net now later req)
  obtain r where q: "Proxy_Query cacheKey ord net now later req h = (r, h')" and
    out: "out = (case r of None \<Rightarrow> [] | Some r \<Rightarrow>
      [\<lparr>Sv_request = req, Sv_asked = now, Sv_expires = later + cache_ttl (Px_cfg h), Sv_result = r\<rparr>])"
    using assms(8) PO_Query by (auto simp: proxy_step_def split: prod.splits option.splits)
  have h': "h' = h \<or> (\<exists>r. h' = putInCache ord later (cacheKey req) r h)"
    using q by (auto simp: Proxy_Query_def split: option.splits)
  have cfg: "Px_cfg h' = Px_cfg h" using h' by (auto simp: putInCache_def Let_def)
  have ok: "cache_ok h'" using h' putInCache_ok [OF assms(4,1)] assms(4) by auto
  have "cache_within n h'"
    using h' putInCache_length [where ord = ord, OF assms(4,2)] assms(3,5) cfg by (auto simp: cache_within_def)
  then show ?thesis
  proof (cases r)
    case None
    then have "h' = h" using q by (auto simp: Proxy_Query_def split: option.splits)
    then show ?thesis using None out assms by simp
  next
    case (Some x)
    show ?thesis using query_answers [OF q [unfolded Some] assms(7) refl] ok \<open>cache_within n h'\<close> out Some by simp
  qed
next
  case (PO_Cleanup now)
  have "int (length (filter (\<lambda>(k, e). \<not> now > CE_expiresAt e) (Px_cache h))) \<le> n"
    using length_filter_le [of "\<lambda>(k, e). \<not> now > CE_expiresAt e" "Px_cache h"] assms(5) unfolding cache_within_def by linarith
  then show ?thesis
    using assms(4,5,7,8) PO_Cleanup
    by (auto simp: proxy_step_def cleanupExpired_def cache_ok_def cache_within_def cached_from_def distinct_map_filter)
next
  case PO_Clear
  then show ?thesis using assms(3,5,8) by (auto simp: proxy_step_def ClearCache_def cache_ok_def cache_within_def cached_from_def)
next
  case (PO_Config cfg)
  then show ?thesis
    using assms(4-8) by (auto simp: proxy_step_def Proxy_OnConfigUpdate_def cache_ok_def cache_within_def op_within_def cached_from_def)
next
  case (PO_AddFavorite p)
  then show ?thesis
    using assms(4,5,7,8) by (auto simp: proxy_step_def AddFavorite_def cache_ok_def cache_within_def cached_from_def split: if_splits)
next
  case (PO_RemoveFavorite p)
  then show ?thesis
    using assms(4,5,7,8) by (auto simp: proxy_step_def RemoveFavorite_def cache_ok_def cache_within_def cached_from_def)
qed

lemma proxy_run_keeps:
  assumes "\<And>req. cacheKey req \<noteq> ''''" and "\<And>xs. set (ord xs) = set xs" and "1 \<le> n"
    and "cache_ok h" and "cache_within n h" and "list_all (op_within n) ops" and "cached_from cacheKey past h"
    and "proxy_run cacheKey ord decode ops h = (out, h')"
  shows "cache_within n h' \<and> (\<forall>i < length out. honest cacheKey (past @ take i out) (out ! i))"
  using assms(4-8)
proof (induction ops arbitrary: h past out)
  case (Cons op ops)
  obtain out1 h1 where s: "proxy_step cacheKey ord decode op h = (out1, h1)" by fastforce
  obtain out2 where r: "proxy_run cacheKey ord decode ops h1 = (out2, h')" "out = out1 @ out2"
    using Cons.prems(5) s by (auto split: prod.splits)
  have op: "op_within n op" "list_all (op_within n) ops" using Cons.prems(3) by simp_all
  note step = proxy_step_keeps [OF assms(1-3) Cons.prems(1,2) op(1) Cons.prems(4) s]
  then have "cache_within n h' \<and> (\<forall>i < length out2. honest cacheKey ((past @ out1) @ take i out2) (out2 ! i))"
    using Cons.IH [OF _ _ op(2) _ r(1), of "past @ out1"] by blast
  then show ?case using step r(2) by (auto simp: nth_append)
qed simp

section \<open>Subscriptions\<close>

abbreviation patterns :: "SelectiveHandler \<Rightarrow> string list" where
  "patterns h \<equiv> map Sub_TopicPattern (Sl_subscriptions h)"

lemma patterns_add [simp]:
  "patterns (addSubscriptionLocked now pat h) = (if pat \<in> set (patterns h) then patterns h else patterns h @ [pat])"
  by (simp add: addSubscriptionLocked_def)

lemma patterns_remove [simp]: "map Sub_TopicPattern (remove_subscription pat ss) = remove1 pat (map Sub_TopicPattern ss)"
  by (induction ss) auto

lemma patterns_touch [simp]: "map Sub_TopicPattern (touch_subscription now pat ss) = map Sub_TopicPattern ss"
  by (induction ss) auto

lemma add_cfg [simp]: "Sl_cfg (addSubscriptionLocked now pat h) = Sl_cfg h" "Sl_configDir (addSubscriptionLocked now pat h) = Sl_configDir h"
  by (simp_all add: addSubscriptionLocked_def)

lemma fold_add_cfg [simp]:
  "Sl_cfg (fold (addSubscriptionLocked now) ps h) = Sl_cfg h" "Sl_configDir (fold (addSubscriptionLocked now) ps h) = Sl_configDir h"
  by (induction ps arbitrary: h) simp_all

lemma fold_add_distinct: "distinct (patterns h) \<Longrightarrow> distinct (patterns (fold (addSubscriptionLocked now) ps h))"
proof (induction ps arbitrary: h)
  case (Cons p ps)
  then have "distinct (patterns (addSubscriptionLocked now p h))" by simp
  from Cons.IH [OF this] show ?case by simp
qed simp

lemma fold_add_set:
  "Sub_TopicPattern ` set (Sl_subscriptions (fold (addSubscriptionLocked now) ps h))
     = Sub_TopicPattern ` set (Sl_subscriptions h) \<union> set ps"
proof (induction ps arbitrary: h)
  case (Cons p ps)
  have "Sub_TopicPattern ` set (Sl_subscriptions (addSubscriptionLocked now p h)) = insert p (Sub_TopicPattern ` set (Sl_subscriptions h))"
    by (auto simp: addSubscriptionLocked_def)
  then show ?case using Cons.IH [of "addSubscriptionLocked now p h"] by simp
qed simp

lemma fold_add_known: "set ps \<subseteq> set (patterns h) \<Longrightarrow> fold (addSubscriptionLocked now) ps h = h"
  by (induction ps) (simp_all add: addSubscriptionLocked_def)

datatype 'x selective_op =
    SO_Subscribe instant string "'x saving"
  | SO_Unsubscribe string "'x saving"
  | SO_Sync mode_net instant string

definition selective_step ::
    "'x store_env \<Rightarrow> 'x selective_op \<Rightarrow> SelectiveHandler \<times> 'x mode_disk \<Rightarrow> SelectiveHandler \<times> 'x mode_disk" where
  "selective_step env op st =
     (case op of
        SO_Subscribe now pat ok \<Rightarrow> snd (Selective_Subscribe env ok now pat (fst st) (snd st))
      | SO_Unsubscribe pat ok \<Rightarrow> snd (Selective_Unsubscribe env ok pat (fst st) (snd st))
      | SO_Sync net now pat \<Rightarrow> (snd (SyncSubscription net now pat (fst st)), snd st))"

definition saved_op :: "'x selective_op \<Rightarrow> bool" where
  "saved_op op \<longleftrightarrow> (case op of SO_Subscribe _ _ ok \<Rightarrow> ok = Saved | SO_Unsubscribe _ ok \<Rightarrow> ok = Saved | SO_Sync _ _ _ \<Rightarrow> True)"

text \<open>The specification: a list of patterns without repetition.\<close>

definition subscribe_spec :: "'x selective_op \<Rightarrow> string list \<Rightarrow> string list" where
  "subscribe_spec op ps =
     (case op of
        SO_Subscribe _ pat _ \<Rightarrow> if pat \<in> set ps then ps else ps @ [pat]
      | SO_Unsubscribe pat _ \<Rightarrow> remove1 pat ps
      | SO_Sync _ _ _ \<Rightarrow> ps)"

abbreviation restarted :: "'x store_env \<Rightarrow> SelectiveHandler \<times> 'x mode_disk \<Rightarrow> SelectiveHandler" where
  "restarted env st \<equiv> NewSelectiveHandler env True (Sl_cfg (fst st)) (Sl_configDir (fst st)) (snd st)"

lemma selective_step_refines:
  fixes st :: "SelectiveHandler \<times> 'x mode_disk"
  assumes "\<And>ss. SV_dec env (SV_enc env ss) = ss"
  shows "patterns (fst (selective_step env op st)) = subscribe_spec op (patterns (fst st))
    \<and> Sl_cfg (fst (selective_step env op st)) = Sl_cfg (fst st)
    \<and> Sl_configDir (fst (selective_step env op st)) = Sl_configDir (fst st)
    \<and> (saved_op op \<longrightarrow> patterns (restarted env st) = patterns (fst st)
         \<longrightarrow> patterns (restarted env (selective_step env op st)) = patterns (fst (selective_step env op st)))"
proof (cases op)
  case (SO_Subscribe now pat ok)
  then show ?thesis
    using assms
    by (cases ok) (auto simp: selective_step_def subscribe_spec_def saved_op_def Selective_Subscribe_def saveSubscriptions_def
        NewSelectiveHandler_def Let_def image_iff)
next
  case (SO_Unsubscribe pat ok)
  then show ?thesis
    using assms
    by (cases ok) (auto simp: selective_step_def subscribe_spec_def saved_op_def Selective_Unsubscribe_def saveSubscriptions_def
        NewSelectiveHandler_def Let_def)
next
  case (SO_Sync net now pat)
  then show ?thesis
    by (auto simp: selective_step_def subscribe_spec_def SyncSubscription_def NewSelectiveHandler_def split: option.splits)
qed

lemma subscribe_spec_distinct: "distinct ps \<Longrightarrow> distinct (subscribe_spec op ps)"
  by (auto simp: subscribe_spec_def split: selective_op.splits)

lemma selective_run_refines:
  fixes st :: "SelectiveHandler \<times> 'x mode_disk"
  assumes "\<And>ss. SV_dec env (SV_enc env ss) = ss" and "list_all saved_op ops"
    and "patterns (restarted env st) = patterns (fst st)"
  shows "patterns (fst (fold (selective_step env) ops st)) = fold subscribe_spec ops (patterns (fst st))
    \<and> patterns (restarted env (fold (selective_step env) ops st)) = patterns (fst (fold (selective_step env) ops st))"
  using assms(2,3)
proof (induction ops arbitrary: st)
  case (Cons op ops)
  note step = selective_step_refines [of env op st, OF assms(1)]
  have saved: "saved_op op" "list_all saved_op ops" using Cons.prems(1) by simp_all
  have p: "patterns (restarted env (selective_step env op st)) = patterns (fst (selective_step env op st))"
    using step saved(1) Cons.prems(2) by blast
  have "patterns (fst (selective_step env op st)) = subscribe_spec op (patterns (fst st))" using step by blast
  then show ?case using Cons.IH [OF saved(2) p] by (simp only: fold_simps)
qed simp

lemma fold_spec_distinct: "distinct ps \<Longrightarrow> distinct (fold subscribe_spec ops ps)"
  by (induction ops arbitrary: ps) (simp_all add: subscribe_spec_distinct)

section \<open>Handlers and their manager\<close>

text \<open>
  The interface of a handler towards the manager: an update installs the configuration, and a
  second update with the same one changes nothing.
\<close>

locale mode_contract =
  fixes update :: "P2PConfig \<Rightarrow> 'h \<Rightarrow> 'h" and config :: "'h \<Rightarrow> P2PConfig"
  assumes installed: "config (update cfg h) = cfg"
    and idempotent: "update cfg (update cfg h) = update cfg h"
begin

lemma last_update_wins: "cfgs \<noteq> [] \<Longrightarrow> config (fold update cfgs h) = last cfgs"
  by (induction cfgs arbitrary: h) (auto simp: installed)

end

definition handler_cfg :: "mode_handler \<Rightarrow> P2PConfig" where
  "handler_cfg h = (case h of HProxy ph \<Rightarrow> Px_cfg ph | HSelective sh \<Rightarrow> Sl_cfg sh | HFull fh \<Rightarrow> Fr_cfg fh)"

interpretation proxy_mode: mode_contract "Proxy_OnConfigUpdate decode" Px_cfg for decode
  by unfold_locales (simp_all add: Proxy_OnConfigUpdate_def)

interpretation full_mode: mode_contract Full_OnConfigUpdate Fr_cfg
  by unfold_locales (simp_all add: Full_OnConfigUpdate_def)

interpretation selective_mode: mode_contract "Selective_OnConfigUpdate now" Sl_cfg for now
proof
  fix cfg :: P2PConfig and h :: SelectiveHandler
  let ?ps = "SlC_Subscriptions (P2P_Selective cfg)"
  let ?h = "fold (addSubscriptionLocked now) ?ps (h\<lparr>Sl_cfg := cfg\<rparr>)"
  show cfg: "Sl_cfg (Selective_OnConfigUpdate now cfg h) = cfg" by (simp add: Selective_OnConfigUpdate_def)
  have "set ?ps \<subseteq> set (patterns ?h)" by (simp add: fold_add_set)
  then have "fold (addSubscriptionLocked now) ?ps ?h = ?h" by (rule fold_add_known)
  moreover have "?h\<lparr>Sl_cfg := cfg\<rparr> = ?h" using cfg by (simp add: Selective_OnConfigUpdate_def)
  ultimately show "Selective_OnConfigUpdate now cfg (Selective_OnConfigUpdate now cfg h) = Selective_OnConfigUpdate now cfg h"
    by (simp only: Selective_OnConfigUpdate_def)
qed

lemma handler_config_installs:
  "handler_cfg (handler_config env now cfg h) = cfg \<and> handler_mode (handler_config env now cfg h) = handler_mode h"
  by (cases h)
    (simp_all add: handler_config_def handler_cfg_def handler_mode_def proxy_mode.installed selective_mode.installed full_mode.installed)

lemma created_handler:
  assumes "createHandler env readable cfg dir disk mode = Inr h"
  shows "handler_mode h = mode \<and> handler_cfg h = cfg"
  using assms
  by (auto simp: createHandler_def handler_mode_def handler_cfg_def NewProxyHandler_def NewSelectiveHandler_def
      NewFullReplicaHandler_def split: if_splits)

lemma parsed_mode_created:
  assumes "ParseNodeMode lower s = Inr mode"
  obtains h where "createHandler env readable cfg dir disk mode = Inr h"
proof -
  have "mode \<in> {NodeModeProxy, NodeModeSelective, NodeModeFull}" using assms by (auto simp: ParseNodeMode_def split: if_splits)
  then have "\<exists>h. createHandler env readable cfg dir disk mode = Inr h" by (auto simp: createHandler_def)
  then show thesis using that by blast
qed

lemma SetMode_outcome:
  assumes "SetMode env ok readable mode mm disk = (err, mm', disk')" and "ParseNodeMode lower s = Inr mode" and "MM_mode mm \<noteq> mode"
  shows "err = None \<and> MM_mode mm' = mode \<and> handler_mode (MM_handler mm') = mode \<and> handler_cfg (MM_handler mm') = MM_cfg mm
      \<and> MM_cfg mm' = MM_cfg mm \<and> MM_running mm'
    \<or> err = Some StopFailed \<and> ok \<noteq> Saved \<and> mm' = mm\<lparr>MM_running := False\<rparr> \<and> handler_mode (MM_handler mm) = NodeModeSelective"
proof -
  obtain e disk1 where s: "stop_handler env ok (MM_handler mm) disk = (e, disk1)" by fastforce
  show ?thesis
  proof (cases e)
    case None
    obtain h where h: "createHandler env readable (MM_cfg mm) (MM_configDir mm) disk1 mode = Inr h"
      using parsed_mode_created [OF assms(2)] by metis
    then show ?thesis using assms(1,3) s None created_handler [OF h] by (auto simp: SetMode_def)
  next
    case (Some x)
    then have "ok \<noteq> Saved \<and> handler_mode (MM_handler mm) = NodeModeSelective"
      using s by (auto simp: stop_handler_def saveSubscriptions_def handler_mode_def split: mode_handler.splits saving.splits)
    then show ?thesis using assms(1,3) s Some by (auto simp: SetMode_def)
  qed
qed

section \<open>Full replicas\<close>

lemma sync_peers_exact:
  assumes "\<And>k. \<not> N_cancelled net k" and "distinct ps"
  shows "map_of (Fr_catalogs (sync_peers net i ps h)) p
    = (if p \<in> set ps then case N_catalog net p of Inl e \<Rightarrow> map_of (Fr_catalogs h) p | Inr c \<Rightarrow> Some c
       else map_of (Fr_catalogs h) p)"
  using assms(2)
proof (induction ps arbitrary: i h)
  case (Cons q ps)
  then show ?case using assms(1) by (auto simp: update_conv' split: sum.splits)
qed simp

lemma sync_peers_error:
  assumes "\<And>q. q \<in> set ps \<Longrightarrow> \<exists>c. N_catalog net q = Inr c"
  shows "Fr_syncStatus (sync_peers net i ps h) = Fr_syncStatus h"
  using assms
proof (induction ps arbitrary: i h)
  case (Cons q ps)
  obtain c where "N_catalog net q = Inr c" using Cons.prems by auto
  then show ?case using Cons by simp
qed simp

text \<open>
  After a synchronisation with every connected peer the catalog of each is the one it serves; a peer
  that has left, or did not answer, keeps the catalog it had.
\<close>

theorem replica_catalogs:
  assumes "\<And>k. \<not> N_cancelled net k" and "distinct (N_peers net)"
  shows "map_of (Fr_catalogs (syncAll net now h)) p
    = (if p \<in> set (N_peers net) then case N_catalog net p of Inl e \<Rightarrow> map_of (Fr_catalogs h) p | Inr c \<Rightarrow> Some c
       else map_of (Fr_catalogs h) p)"
  using sync_peers_exact [OF assms] by (simp add: syncAll_def Let_def split: sum.splits)

text \<open>The error of an earlier synchronisation stays in the status when every peer answers.\<close>

theorem sync_error_sticks:
  assumes "\<And>q. q \<in> set (N_peers net) \<Longrightarrow> \<exists>c. N_catalog net q = Inr c"
  shows "Sync_LastSyncError (Fr_syncStatus (syncAll net now h)) = Sync_LastSyncError (Fr_syncStatus h)
    \<and> \<not> Sync_InProgress (Fr_syncStatus (syncAll net now h)) \<and> Sync_LastSyncTime (Fr_syncStatus (syncAll net now h)) = now"
  using sync_peers_error [OF assms] by (simp add: syncAll_def Let_def)

text \<open>The entries of all replicas, each hash once.\<close>

theorem replica_entries:
  assumes "set (ord (Fr_catalogs h)) = set (Fr_catalogs h)"
  shows "distinct (map Entry_Hash (GetAllEntries ord h))
    \<and> Entry_Hash ` set (GetAllEntries ord h) = (\<Union>(p, c) \<in> set (Fr_catalogs h). Entry_Hash ` set (Catalog_Entries c))"
proof -
  let ?es = "concat (map (Catalog_Entries \<circ> snd) (ord (Fr_catalogs h)))"
  have "GetAllEntries ord h = first_by_hash ?es" using add_entries_exact [of "[]" "[]" ?es] by (simp add: GetAllEntries_def)
  then have "distinct (map Entry_Hash (GetAllEntries ord h))" "Entry_Hash ` set (GetAllEntries ord h) = Entry_Hash ` set ?es" by simp_all
  then show ?thesis using assms by (simp add: image_UN split_beta)
qed

section \<open>What the modes do not do\<close>

text \<open>
  A limit lowered by an update does not shrink a cache that is over it: each new entry takes the
  place of one, and the size stays.
\<close>

theorem shrunk_limit_ignored:
  assumes "cache_ok h" and "set (ord (Px_cache h)) = set (Px_cache h)" and "Px_cache h \<noteq> []"
    and "cache_limit cfg \<le> int (length (Px_cache h))" and "key \<notin> fst ` set (Px_cache h)"
  shows "length (Px_cache (putInCache ord now key r (Proxy_OnConfigUpdate decode cfg h))) = length (Px_cache h)"
proof -
  let ?h = "Proxy_OnConfigUpdate decode cfg h"
  have h: "Px_cache ?h = Px_cache h" "Px_cfg ?h = cfg" "cache_ok ?h" using assms(1) by (simp_all add: Proxy_OnConfigUpdate_def cache_ok_def)
  obtain k e where k: "(k, e) \<in> set (Px_cache h)" "Px_cache (evictOldest ord ?h) = AList.delete k (Px_cache h)"
    using evicted_is_oldest [of ?h ord] assms(2,3) h by metis
  have "length (AList.delete k xs) = length xs - 1" if d: "distinct (map fst xs)" "(k, e) \<in> set xs" for xs :: "(string \<times> cacheEntry) list"
    using d
  proof (induction xs)
    case (Cons x xs)
    show ?case
    proof (cases "fst x = k")
      case True
      then have "k \<notin> fst ` set xs" using Cons.prems(1) by auto
      then have "AList.delete k xs = xs" by (induction xs) auto
      then show ?thesis using True by (cases x) simp
    next
      case False
      then have mem: "(k, e) \<in> set xs" using Cons.prems(2) by auto
      have "0 < length xs" using mem by (rule length_pos_if_in_set)
      then show ?thesis using False mem Cons by (cases x) auto
    qed
  qed simp
  then have "length (AList.delete k (Px_cache h)) = length (Px_cache h) - 1" using assms(1) k(1) by (simp add: cache_ok_def)
  moreover have "length (AList.update key v xs) = Suc (length xs)" if f: "key \<notin> fst ` set xs" for v :: cacheEntry and xs
    using f by (induction xs) auto
  moreover have "key \<notin> fst ` set (AList.delete k (Px_cache h))" using assms(5) by (auto simp: AList.delete_eq)
  moreover have "length (Px_cache h) > 0" using assms(3) by simp
  ultimately show ?thesis using h k(2) assms(4) by (simp add: putInCache_def Let_def)
qed

text \<open>
  The key of the cache is the text of the whole request, its identifier and time included: the same
  question under another identifier is forwarded again.
\<close>

theorem new_id_misses_cache:
  assumes "inj cacheKey" and "\<And>s. s \<in> set past \<Longrightarrow> QR_ID (Sv_request s) \<noteq> QR_ID req" and "cached_from cacheKey past h"
  shows "Proxy_Query cacheKey ord net now later req h
    = (case forwardQuery net req h of None \<Rightarrow> (None, h) | Some r \<Rightarrow> (Some r, putInCache ord later (cacheKey req) r h))"
proof -
  have "map_of (Px_cache h) (cacheKey req) = None"
  proof (rule ccontr)
    assume "map_of (Px_cache h) (cacheKey req) \<noteq> None"
    then obtain e where "(cacheKey req, e) \<in> set (Px_cache h)" by (auto dest: map_of_SomeD)
    then obtain s where "s \<in> set past" "cacheKey (Sv_request s) = cacheKey req" using assms(3) by (force simp: cached_from_def)
    then show False using assms(1,2) by (metis injD)
  qed
  then show ?thesis by (simp add: Proxy_Query_def getFromCache_def split: option.splits)
qed

text \<open>An offset at the end of the answer or beyond it is ignored: the page is the first one.\<close>

theorem offset_beyond_end:
  assumes "int (length all) \<le> QR_Offset req"
  shows "paginate req all = paginate (req\<lparr>QR_Offset := 0\<rparr>) all"
  using assms by (simp add: paginate_def)

text \<open>
  Synchronising a subscription stores what every peer has: when the peers do not look at the
  identifier of a request, the entries are the same for every pattern.
\<close>

theorem sync_ignores_pattern:
  assumes "\<And>p req qid. map_sum id Res_Entries (N_query net p (req\<lparr>QR_ID := qid\<rparr>)) = map_sum id Res_Entries (N_query net p req)"
    and "\<And>k. \<not> N_cancelled net k"
  shows "GetCachedEntries pat (snd (SyncSubscription net now pat h)) = GetCachedEntries pat' (snd (SyncSubscription net now pat' h))"
proof -
  have "answers net (sync_request_of a) ps = answers net (sync_request_of b) ps" for a b ps
  proof -
    have req: "sync_request_of a = (sync_request_of b)\<lparr>QR_ID := ''sync-'' @ a\<rparr>" by (simp add: sync_request_of_def)
    have "(case N_query net p (sync_request_of a) of Inl e \<Rightarrow> [] | Inr r \<Rightarrow> Res_Entries r)
        = (case N_query net p (sync_request_of b) of Inl e \<Rightarrow> [] | Inr r \<Rightarrow> Res_Entries r)" for p
      using assms(1) [where p = p and req = "sync_request_of b" and qid = "''sync-'' @ a"] unfolding req by (auto split: sum.splits)
    then show ?thesis by (simp add: answers_def)
  qed
  moreover have "GetCachedEntries q (snd (SyncSubscription net now q h)) = Some (first_by_hash (answers net (sync_request_of q) (N_peers net)))" for q
  proof -
    obtain source where "query_loop net (sync_request_of q) 0 (N_peers net) '''' [] []
        = Some (source, first_by_hash (answers net (sync_request_of q) (N_peers net)))"
      using query_loop_all [OF assms(2)] by metis
    then show ?thesis
      by (simp add: GetCachedEntries_def SyncSubscription_def Selective_Query_def update_conv' paginate_def sync_request_of_def)
  qed
  ultimately show ?thesis by metis
qed

section \<open>Properties\<close>

text \<open>
  A query, forwarded by a proxy or asked by a selective node, returns of the entries with one
  hash the first that a peer answered with, in the order of the peers asked, and counts the
  distinct hashes; peers that fail are left out, and the page is cut from that list.
\<close>

theorem query_returns_each_hash_once:
  assumes "\<And>k. \<not> N_cancelled net k"
  shows "(\<exists>r. forwardQuery net req h = Some r
      \<and> Res_Entries r = paginate req (first_by_hash (answers net req (getPeersForForwarding net h)))
      \<and> Res_TotalCount r = int (card (Entry_Hash ` set (answers net req (getPeersForForwarding net h)))))
    \<and> (\<exists>r. Selective_Query net req = Some r
      \<and> Res_Entries r = paginate req (first_by_hash (answers net req (N_peers net)))
      \<and> Res_TotalCount r = int (card (Entry_Hash ` set (answers net req (N_peers net)))))"
proof -
  have count: "int (length (first_by_hash es)) = int (card (Entry_Hash ` set es))" for es
    using distinct_card [OF distinct_first_by_hash [of es]] by simp
  have none: "answers net req [] = []" "paginate req [] = []" by (simp_all add: answers_def paginate_def)
  obtain s1 where "query_loop net req 0 (getPeersForForwarding net h) '''' [] []
      = Some (s1, first_by_hash (answers net req (getPeersForForwarding net h)))"
    using query_loop_all [OF assms] by metis
  then have "\<exists>r. forwardQuery net req h = Some r
      \<and> Res_Entries r = paginate req (first_by_hash (answers net req (getPeersForForwarding net h)))
      \<and> Res_TotalCount r = int (card (Entry_Hash ` set (answers net req (getPeersForForwarding net h))))"
    using count none by (cases "getPeersForForwarding net h = []") (simp_all add: forwardQuery_def empty_result_def Let_def)
  moreover obtain s2 where "query_loop net req 0 (N_peers net) '''' [] [] = Some (s2, first_by_hash (answers net req (N_peers net)))"
    using query_loop_all [OF assms] by metis
  then have "\<exists>r. Selective_Query net req = Some r \<and> Res_Entries r = paginate req (first_by_hash (answers net req (N_peers net)))
      \<and> Res_TotalCount r = int (card (Entry_Hash ` set (answers net req (N_peers net))))"
    using count by (simp add: Selective_Query_def)
  ultimately show ?thesis by blast
qed

text \<open>
  Over any sequence of queries, clean-ups, updates and changes of the favourites the cache of a
  proxy never holds more entries than the largest limit configured, and an answer served from it
  is an earlier answer of the peers to a request with the same key, unchanged but for its mark, at
  a time at which it had not expired.
\<close>

theorem proxy_cache_honest:
  assumes "\<And>req. cacheKey req \<noteq> ''''" and "\<And>xs. set (ord xs) = set xs" and "1 \<le> n"
    and "cache_limit cfg \<le> n" and "list_all (op_within n) ops"
    and "proxy_run cacheKey ord decode ops (NewProxyHandler decode cfg) = (out, h)"
  shows "int (fst (CacheStats h)) \<le> n
    \<and> (\<forall>i < length out. Res_FromCache (Sv_result (out ! i)) \<longrightarrow>
         (\<exists>j < i. cacheKey (Sv_request (out ! j)) = cacheKey (Sv_request (out ! i))
            \<and> Sv_result (out ! i) = (Sv_result (out ! j))\<lparr>Res_FromCache := True\<rparr> \<and> \<not> Res_FromCache (Sv_result (out ! j))
            \<and> Sv_asked (out ! i) \<le> Sv_expires (out ! j)))"
proof -
  let ?h = "NewProxyHandler decode cfg"
  have "cache_ok ?h" "cache_within n ?h" "cached_from cacheKey [] ?h"
    using assms(3,4) by (simp_all add: NewProxyHandler_def cache_ok_def cache_within_def cached_from_def)
  note kept = proxy_run_keeps [OF assms(1-3) this(1,2) assms(5) this(3) assms(6)]
  have "\<exists>j < i. cacheKey (Sv_request (out ! j)) = cacheKey (Sv_request (out ! i))
      \<and> Sv_result (out ! i) = (Sv_result (out ! j))\<lparr>Res_FromCache := True\<rparr> \<and> \<not> Res_FromCache (Sv_result (out ! j))
      \<and> Sv_asked (out ! i) \<le> Sv_expires (out ! j)" if i: "i < length out" "Res_FromCache (Sv_result (out ! i))" for i
  proof -
    from kept i obtain s0 where s0: "s0 \<in> set (take i out)" "cacheKey (Sv_request s0) = cacheKey (Sv_request (out ! i))"
      "Sv_result (out ! i) = (Sv_result s0)\<lparr>Res_FromCache := True\<rparr>" "\<not> Res_FromCache (Sv_result s0)"
      "Sv_asked (out ! i) \<le> Sv_expires s0"
      by (auto simp: honest_def)
    then obtain j where "j < i" "s0 = out ! j" using i(1) by (auto simp: in_set_conv_nth)
    then show ?thesis using s0 by blast
  qed
  then show ?thesis using kept by (simp add: cache_within_def CacheStats_def)
qed

text \<open>
  The subscriptions of a selective node behave as a list of patterns without repetition, and
  when every write succeeds a node restarted on the same disk has the same ones, in the same order.
\<close>

theorem subscriptions_survive_restart:
  fixes disk :: "'x mode_disk"
  assumes "\<And>ss. SV_dec env (SV_enc env ss) = ss" and "list_all saved_op ops"
    and "disk (subscriptionStorePath env cfg dir) = None"
    and "fold (selective_step env) ops (NewSelectiveHandler env True cfg dir disk, disk) = (h, disk')"
  shows "map Sub_TopicPattern (Sl_subscriptions h) = fold subscribe_spec ops []
    \<and> distinct (map Sub_TopicPattern (Sl_subscriptions h))
    \<and> map Sub_TopicPattern (Sl_subscriptions (NewSelectiveHandler env True (Sl_cfg h) (Sl_configDir h) disk'))
        = map Sub_TopicPattern (Sl_subscriptions h)"
proof -
  let ?h0 = "NewSelectiveHandler env True cfg dir disk"
  have empty: "Sl_subscriptions ?h0 = []" using assms(3) by (simp add: NewSelectiveHandler_def)
  have same: "restarted env (?h0, disk) = ?h0" by (simp add: NewSelectiveHandler_def)
  have "patterns (restarted env (?h0, disk)) = patterns (fst (?h0, disk))" unfolding same by simp
  from selective_run_refines [OF assms(1,2) this] have "patterns h = fold subscribe_spec ops []"
    "patterns (NewSelectiveHandler env True (Sl_cfg h) (Sl_configDir h) disk') = patterns h"
    unfolding assms(4) fst_conv snd_conv by (simp_all only: empty list.map)
  then show ?thesis using fold_spec_distinct [of "[]" ops] by simp
qed

text \<open>
  A change of the configuration: with an invalid mode nothing changes; otherwise either the
  manager ends in the mode of the configuration, with a handler of that mode that has that
  configuration, or the selective handler could not save its subscriptions when stopped, and the
  manager keeps its mode and its handler, which no longer runs.
\<close>

theorem mode_change_consistent:
  assumes "handler_mode (MM_handler mm) = MM_mode mm"
    and "UpdateConfig env ok readable now cfg mm disk = (err, mm', disk')"
  shows "handler_mode (MM_handler mm') = MM_mode mm'
    \<and> (case ParseNodeMode (ME_lower env) (P2P_Mode cfg) of
         Inl e \<Rightarrow> err = Some e \<and> mm' = mm \<and> disk' = disk
       | Inr mode \<Rightarrow>
           err = None \<and> MM_mode mm' = mode \<and> handler_cfg (MM_handler mm') = cfg \<and> MM_cfg mm' = cfg
           \<or> err = Some StopFailed \<and> ok \<noteq> Saved \<and> MM_mode mm = NodeModeSelective
             \<and> MM_mode mm' = MM_mode mm \<and> MM_handler mm' = MM_handler mm \<and> \<not> MM_running mm')"
proof (cases "ParseNodeMode (ME_lower env) (P2P_Mode cfg)")
  case (Inl e)
  then show ?thesis using assms by (simp add: UpdateConfig_def)
next
  case (Inr mode)
  show ?thesis
  proof (cases "MM_mode mm = mode")
    case True
    then have "mm' = mm\<lparr>MM_cfg := cfg, MM_handler := handler_config env now cfg (MM_handler mm)\<rparr>" "err = None"
      using assms(2) Inr by (simp_all add: UpdateConfig_def Let_def)
    then show ?thesis using Inr True assms(1) handler_config_installs [of env now cfg "MM_handler mm"] by simp
  next
    case False
    then have "SetMode env ok readable mode (mm\<lparr>MM_cfg := cfg\<rparr>) disk = (err, mm', disk')"
      using assms(2) Inr by (simp add: UpdateConfig_def Let_def)
    from SetMode_outcome [OF this Inr] False show ?thesis using Inr assms(1) by auto
  qed
qed

text \<open>
  The subscriptions listed in the configuration are not applied when a node starts in selective
  mode: it has those of its file, none when there is no file, whatever the configuration lists.
\<close>

theorem configured_subscriptions_ignored:
  fixes disk :: "'x mode_disk"
  assumes "ParseNodeMode (ME_lower env) (P2P_Mode cfg) = Inr NodeModeSelective"
    and "disk (subscriptionStorePath (ME_store env) cfg dir) = None"
  shows "\<exists>mm h. NewModeManager env True cfg dir disk = Inr mm \<and> MM_handler (ModeManager_Start mm) = HSelective h
    \<and> Sl_subscriptions h = [] \<and> SlC_Subscriptions (P2P_Selective (Sl_cfg h)) = SlC_Subscriptions (P2P_Selective cfg)"
proof -
  have "NodeModeSelective \<noteq> NodeModeProxy" by (simp add: NodeModeProxy_def NodeModeSelective_def)
  then show ?thesis
    using assms by (simp add: NewModeManager_def createHandler_def ModeManager_Start_def NewSelectiveHandler_def)
qed

section \<open>Witnesses\<close>

definition sample_net :: mode_net where
  "sample_net =
     \<lparr>N_peers = [''p'', ''q'', ''r''], N_connectedness = (\<lambda>p. 1),
      N_query = (\<lambda>p req. if p = ''q'' then Inl ReadFailed
        else Inr ((empty_result (QR_ID req))\<lparr>Res_Entries := map sample_catalog_entry (if p = ''p'' then [''a'', ''b''] else [''b'', ''c''])\<rparr>)),
      N_catalog = (\<lambda>p. Inl ReadFailed), N_cancelled = (\<lambda>k. False), N_error_text = (\<lambda>e. ''EOF'')\<rparr>"

definition sample_p2p :: "string \<Rightarrow> int \<Rightarrow> P2PConfig" where
  "sample_p2p mode n =
     \<lparr>P2P_Mode = mode, P2P_FullReplica = \<lparr>FrC_SyncInterval = 0\<rparr>,
      P2P_Selective = \<lparr>SlC_Subscriptions = [''weather/*''], SlC_SubscriptionStorePath = ''/s''\<rparr>,
      P2P_Proxy = \<lparr>PxC_CacheTTL = 10, PxC_MaxCacheSize = n, PxC_FavoritePeers = [''r'']\<rparr>\<rparr>"

text \<open>The favourite first: its entries, then those the other peers add.\<close>

theorem query_returns_each_hash_once_witness:
  "\<exists>r. forwardQuery sample_net sample_request (NewProxyHandler Some (sample_p2p ''proxy'' 2)) = Some r
     \<and> map Entry_Hash (Res_Entries r) = [''b'', ''c'', ''a''] \<and> Res_TotalCount r = 3"
proof -
  let ?h = "NewProxyHandler Some (sample_p2p ''proxy'' 2)"
  have n: "\<not> N_cancelled sample_net k" for k by (simp add: sample_net_def)
  have ps: "getPeersForForwarding sample_net ?h = [''r'', ''p'', ''q'']" by code_simp
  have as: "map Entry_Hash (first_by_hash (answers sample_net sample_request [''r'', ''p'', ''q''])) = [''b'', ''c'', ''a'']"
    "card (Entry_Hash ` set (answers sample_net sample_request [''r'', ''p'', ''q''])) = 3" by code_simp+
  have page: "paginate sample_request es = es" for es by (simp add: paginate_def sample_request_def)
  from query_returns_each_hash_once [OF n, of sample_request ?h] show ?thesis unfolding ps page using as by auto
qed

text \<open>A limit of one: the second question is answered from the cache, the third after the entry has expired.\<close>

theorem proxy_cache_honest_witness:
  "\<exists>out h. proxy_run (\<lambda>req. CHR ''k'' # QR_ID req) (\<lambda>xs. xs) Some
       [PO_Query sample_net 0 1 sample_request, PO_Query sample_net 5 6 sample_request, PO_Query sample_net 20 21 sample_request]
       (NewProxyHandler Some (sample_p2p ''proxy'' 1)) = (out, h)
     \<and> map (Res_FromCache \<circ> Sv_result) out = [False, True, False] \<and> int (fst (CacheStats h)) \<le> 1
     \<and> Sv_result (out ! 1) = (Sv_result (out ! 0))\<lparr>Res_FromCache := True\<rparr>"
proof -
  let ?key = "\<lambda>req :: QueryRequest. CHR ''k'' # QR_ID req" and ?cfg = "sample_p2p ''proxy'' 1"
  let ?ops = "[PO_Query sample_net 0 1 sample_request, PO_Query sample_net 5 6 sample_request, PO_Query sample_net 20 21 sample_request]"
  obtain out h where run: "proxy_run ?key (\<lambda>xs. xs) Some ?ops (NewProxyHandler Some ?cfg) = (out, h)" by fastforce
  have marks: "map (Res_FromCache \<circ> Sv_result) (fst (proxy_run ?key (\<lambda>xs. xs) Some ?ops (NewProxyHandler Some ?cfg))) = [False, True, False]"
    by code_simp
  then have out: "map (Res_FromCache \<circ> Sv_result) out = [False, True, False]" by (simp only: run fst_conv)
  then have len: "length out = 3" by (metis length_map length_Cons list.size(3) numeral_3_eq_3)
  have "(map (Res_FromCache \<circ> Sv_result) out) ! 1" by (simp add: out)
  then have one: "Res_FromCache (Sv_result (out ! 1))" using len by simp
  have lim: "cache_limit ?cfg \<le> 1" by (simp add: cache_limit_def sample_p2p_def)
  have ops: "list_all (op_within 1) ?ops" by (simp add: op_within_def)
  have key: "?key req \<noteq> ''''" for req by simp
  note honest = proxy_cache_honest [OF key refl order_refl lim ops run]
  obtain j where "j < 1" "Sv_result (out ! 1) = (Sv_result (out ! j))\<lparr>Res_FromCache := True\<rparr>"
    using honest [THEN conjunct2, rule_format, OF _ one] len by auto
  then show ?thesis using run out honest by auto
qed

definition sample_store :: "Subscription list store_env" where
  "sample_store = \<lparr>SV_join = (\<lambda>a b. a @ b), SV_enc = (\<lambda>s. s), SV_dec = (\<lambda>s. s)\<rparr>"

theorem subscriptions_survive_restart_witness:
  "\<exists>h disk'. fold (selective_step sample_store) [SO_Subscribe 1 ''a'' Saved, SO_Subscribe 2 ''b'' Saved, SO_Unsubscribe ''a'' Saved]
       (NewSelectiveHandler sample_store True (sample_p2p ''selective'' 1) ''/'' Map.empty, Map.empty) = (h, disk')
     \<and> map Sub_TopicPattern (Sl_subscriptions (NewSelectiveHandler sample_store True (Sl_cfg h) (Sl_configDir h) disk')) = [''b'']"
proof -
  let ?ops = "[SO_Subscribe 1 ''a'' Saved, SO_Subscribe 2 ''b'' Saved, SO_Unsubscribe ''a'' Saved] :: Subscription list selective_op list"
  obtain h disk' where run: "fold (selective_step sample_store) ?ops
      (NewSelectiveHandler sample_store True (sample_p2p ''selective'' 1) ''/'' Map.empty, Map.empty) = (h, disk')" by fastforce
  have "fold subscribe_spec ?ops [] = [''b'']" by (simp add: subscribe_spec_def)
  moreover have "list_all saved_op ?ops" by (simp add: saved_op_def)
  from subscriptions_survive_restart [OF _ this _ run]
  have "map Sub_TopicPattern (Sl_subscriptions h) = fold subscribe_spec ?ops []
    \<and> map Sub_TopicPattern (Sl_subscriptions (NewSelectiveHandler sample_store True (Sl_cfg h) (Sl_configDir h) disk'))
        = map Sub_TopicPattern (Sl_subscriptions h)" by (simp add: sample_store_def)
  ultimately show ?thesis using run by metis
qed

definition sample_mode_env :: "Subscription list mode_env" where
  "sample_mode_env = \<lparr>ME_lower = (\<lambda>s. s), ME_decode = Some, ME_store = sample_store\<rparr>"

theorem mode_change_consistent_witness:
  "\<exists>mm err mm' disk'. NewModeManager sample_mode_env True (sample_p2p ''selective'' 1) ''/'' Map.empty = Inr mm
     \<and> UpdateConfig sample_mode_env Unwritten True 9 (sample_p2p ''proxy'' 1) mm Map.empty = (err, mm', disk')
     \<and> err = Some StopFailed \<and> MM_mode mm' = NodeModeSelective \<and> handler_mode (MM_handler mm') = NodeModeSelective"
proof -
  obtain mm where mm: "NewModeManager sample_mode_env True (sample_p2p ''selective'' 1) ''/'' Map.empty = Inr mm"
    "MM_mode mm = NodeModeSelective" "handler_mode (MM_handler mm) = NodeModeSelective"
    by (auto simp: NewModeManager_def ParseNodeMode_def sample_mode_env_def sample_p2p_def createHandler_def handler_mode_def
        NodeModeProxy_def NodeModeSelective_def)
  obtain err mm' disk' where u: "UpdateConfig sample_mode_env Unwritten True 9 (sample_p2p ''proxy'' 1) mm Map.empty = (err, mm', disk')"
    by (metis prod_cases3)
  have p: "ParseNodeMode (ME_lower sample_mode_env) (P2P_Mode (sample_p2p ''proxy'' 1)) = Inr NodeModeProxy"
    by (simp add: ParseNodeMode_def sample_mode_env_def sample_p2p_def)
  have differ: "NodeModeProxy \<noteq> NodeModeSelective" "NodeModeSelective \<noteq> NodeModeProxy" by (simp_all add: NodeModeProxy_def NodeModeSelective_def)
  obtain sh where sh: "MM_handler mm = HSelective sh"
    using mm(3) by (cases "MM_handler mm") (simp_all add: handler_mode_def NodeModeProxy_def NodeModeSelective_def NodeModeFull_def)
  have "fst (UpdateConfig sample_mode_env Unwritten True 9 (sample_p2p ''proxy'' 1) mm Map.empty) = Some StopFailed"
    by (simp add: UpdateConfig_def p SetMode_def stop_handler_def saveSubscriptions_def sh mm(2) differ Let_def)
  then have err: "err = Some StopFailed" unfolding u by simp
  from mode_change_consistent [OF _ u] mm(2,3) p err show ?thesis using mm(1) u by auto
qed

theorem configured_subscriptions_ignored_witness:
  "\<exists>mm h. NewModeManager sample_mode_env True (sample_p2p ''selective'' 1) ''/'' Map.empty = Inr mm
     \<and> MM_handler (ModeManager_Start mm) = HSelective h \<and> Sl_subscriptions h = []
     \<and> SlC_Subscriptions (P2P_Selective (Sl_cfg h)) = [''weather/*'']"
proof -
  have p: "ParseNodeMode (ME_lower sample_mode_env) (P2P_Mode (sample_p2p ''selective'' 1)) = Inr NodeModeSelective"
    by (simp add: ParseNodeMode_def sample_mode_env_def sample_p2p_def)
  have s: "SlC_Subscriptions (P2P_Selective (sample_p2p ''selective'' 1)) = [''weather/*'']" by (simp add: sample_p2p_def)
  show ?thesis using configured_subscriptions_ignored [OF p, of Map.empty "''/''"] unfolding s by simp
qed
end
