(* ===== verification/Audit_Chain.thy ===== *)
theory Audit_Chain
  imports Bib_Prelude
begin

text \<open>
  The audit trail of the SQLite store (\<open>internal/storage/sqlite/audit.go\<close>, the types of
  \<open>internal/storage/repository.go\<close>, the schema of migration 3): appending entries to a hash
  chain, querying, counting, purging and verifying. The digest \<open>sha256\<close>, the rendering of
  instants \<open>fmt_time\<close> and whether the database accepts a write (\<open>db_ok\<close>) are arguments. A row
  of the table is the entry it decodes to: \<open>NULL\<close> and the empty string are the same to the
  code, and instants survive the text column. Instants count from Go's zero time.

  Shown: entries logged by one run of the store form a chain that verification accepts, and a
  later change of a hashed field is detected; the fields outside the hash can be changed
  freely; a reopened store starts a second chain, so verification fails from then on; ranges
  that do not start at the first entry are rejected; and purging never removes a row.
\<close>

section \<open>Definitions\<close>

record AuditEntryFlags =
  AF_BreakGlass :: bool
  AF_RateLimited :: bool
  AF_Suspicious :: bool
  AF_AlertTriggered :: bool

record AuditEntry =
  AE_ID :: int
  AE_Timestamp :: instant
  AE_NodeID :: string
  AE_JobID :: string
  AE_OperationID :: string
  AE_RoleUsed :: string
  AE_Action :: string
  AE_TableName :: string
  AE_Query :: string
  AE_QueryHash :: string
  AE_RowsAffected :: int
  AE_DurationMS :: int
  AE_SourceComponent :: string
  AE_Actor :: string
  AE_Metadata :: "(string \<times> string) list"
  AE_PrevHash :: string
  AE_EntryHash :: string
  AE_Flags :: AuditEntryFlags

record AuditFilter =
  Flt_NodeID :: string
  Flt_JobID :: string
  Flt_OperationID :: string
  Flt_Action :: string
  Flt_TableName :: string
  Flt_RoleUsed :: string
  Flt_Actor :: string
  Flt_After :: "instant option"
  Flt_Before :: "instant option"
  Flt_Suspicious :: "bool option"
  Flt_Limit :: int
  Flt_Offset :: int

text \<open>The repository: the table in id order, the last id handed out, and the fields of the struct.\<close>

record AuditRepository =
  AR_rows :: "AuditEntry list"
  AR_seq :: int
  AR_nodeID :: string
  AR_hashChain :: bool
  AR_lastHash :: string

datatype audit_error = LogFailed | QueryFailed | PurgeFailed

definition calculateEntryHash ::
    "(string \<Rightarrow> bytes) \<Rightarrow> (instant \<Rightarrow> string) \<Rightarrow> AuditEntry \<Rightarrow> string" where
  "calculateEntryHash sha256 fmt_time e =
     hex_EncodeToString (sha256 (strings_Join
       [fmt_time (AE_Timestamp e), AE_NodeID e, AE_OperationID e, AE_RoleUsed e, AE_Action e,
        AE_TableName e, AE_SourceComponent e, show_int (AE_RowsAffected e), show_int (AE_DurationMS e),
        AE_PrevHash e, AE_JobID e, AE_QueryHash e] ''|''))"

text \<open>The constraints of the table, and what opening a store makes of an existing one.\<close>

definition audit_actions :: "string list" where
  "audit_actions = [''SELECT'', ''INSERT'', ''UPDATE'', ''DELETE'', ''DDL'', ''AUTH'', ''ADMIN'']"

definition schema_accepts :: "AuditEntry list \<Rightarrow> AuditEntry \<Rightarrow> bool" where
  "schema_accepts rows e \<longleftrightarrow>
     AE_Action e \<in> set audit_actions \<and> 0 \<le> AE_RowsAffected e \<and> 0 \<le> AE_DurationMS e
     \<and> AE_EntryHash e \<notin> set (map AE_EntryHash rows)"

definition open_audit :: "string \<Rightarrow> AuditEntry list \<Rightarrow> int \<Rightarrow> AuditRepository" where
  "open_audit nodeID rows seqno =
     \<lparr>AR_rows = rows, AR_seq = seqno, AR_nodeID = nodeID, AR_hashChain = True, AR_lastHash = []\<rparr>"

text \<open>The entry \<open>Log\<close> completes in place before it writes it.\<close>

definition complete_entry ::
    "(string \<Rightarrow> bytes) \<Rightarrow> (instant \<Rightarrow> string) \<Rightarrow> instant \<Rightarrow> AuditRepository \<Rightarrow> AuditEntry \<Rightarrow> AuditEntry" where
  "complete_entry sha256 fmt_time now r e =
     (let e1 = (if AE_Timestamp e = 0 then e\<lparr>AE_Timestamp := now\<rparr> else e);
          e2 = (if AE_NodeID e1 = [] then e1\<lparr>AE_NodeID := AR_nodeID r\<rparr> else e1)
      in if AR_hashChain r \<and> AE_EntryHash e2 = []
         then (let e3 = e2\<lparr>AE_PrevHash := AR_lastHash r\<rparr>
               in e3\<lparr>AE_EntryHash := calculateEntryHash sha256 fmt_time e3\<rparr>)
         else e2)"

definition AuditRepository_Log ::
    "(string \<Rightarrow> bytes) \<Rightarrow> (instant \<Rightarrow> string) \<Rightarrow> instant \<Rightarrow> bool \<Rightarrow> AuditEntry \<Rightarrow> AuditRepository
       \<Rightarrow> audit_error option \<times> AuditEntry \<times> AuditRepository" where
  "AuditRepository_Log sha256 fmt_time now db_ok entry r =
     (let e = complete_entry sha256 fmt_time now r entry
      in if \<not> db_ok \<or> \<not> schema_accepts (AR_rows r) e then (Some LogFailed, e, r)
         else let e' = e\<lparr>AE_ID := AR_seq r + 1\<rparr>;
                  r' = r\<lparr>AR_rows := AR_rows r @ [e'], AR_seq := AR_seq r + 1\<rparr>
              in (None, e', if AR_hashChain r then r'\<lparr>AR_lastHash := AE_EntryHash e'\<rparr> else r'))"

text \<open>Comparison of text columns: byte by byte, a proper prefix first.\<close>

fun text_le :: "string \<Rightarrow> string \<Rightarrow> bool" where
  "text_le [] t \<longleftrightarrow> True"
| "text_le (c # s) [] \<longleftrightarrow> False"
| "text_le (c # s) (d # t) \<longleftrightarrow>
     (of_char c :: nat) < of_char d \<or> c = d \<and> text_le s t"

definition opt_eq :: "string \<Rightarrow> string \<Rightarrow> bool" where
  "opt_eq wanted v \<longleftrightarrow> wanted = [] \<or> v = wanted"

definition time_range :: "(instant \<Rightarrow> string) \<Rightarrow> AuditFilter \<Rightarrow> AuditEntry \<Rightarrow> bool" where
  "time_range fmt_time f e \<longleftrightarrow>
     (case Flt_After f of None \<Rightarrow> True | Some t \<Rightarrow> text_le (fmt_time t) (fmt_time (AE_Timestamp e)))
     \<and> (case Flt_Before f of None \<Rightarrow> True | Some t \<Rightarrow> text_le (fmt_time (AE_Timestamp e)) (fmt_time t))"

definition query_matches :: "(instant \<Rightarrow> string) \<Rightarrow> AuditFilter \<Rightarrow> AuditEntry \<Rightarrow> bool" where
  "query_matches fmt_time f e \<longleftrightarrow>
     opt_eq (Flt_NodeID f) (AE_NodeID e) \<and> opt_eq (Flt_JobID f) (AE_JobID e)
     \<and> opt_eq (Flt_OperationID f) (AE_OperationID e) \<and> opt_eq (Flt_Action f) (AE_Action e)
     \<and> opt_eq (Flt_TableName f) (AE_TableName e) \<and> opt_eq (Flt_RoleUsed f) (AE_RoleUsed e)
     \<and> opt_eq (Flt_Actor f) (AE_Actor e) \<and> time_range fmt_time f e
     \<and> (Flt_Suspicious f = Some True \<longrightarrow> AF_Suspicious (AE_Flags e))"

text \<open>SQLite has no \<open>OFFSET\<close> without \<open>LIMIT\<close>: the statement does not parse.\<close>

definition AuditRepository_Query ::
    "(instant \<Rightarrow> string) \<Rightarrow> AuditFilter \<Rightarrow> AuditRepository \<Rightarrow> audit_error + AuditEntry list" where
  "AuditRepository_Query fmt_time f r =
     (if Flt_Limit f \<le> 0 \<and> Flt_Offset f > 0 then Inl QueryFailed
      else let found = rev (filter (query_matches fmt_time f) (AR_rows r));
               skipped = (if Flt_Offset f > 0 then drop (nat (Flt_Offset f)) found else found)
           in Inr (if Flt_Limit f > 0 then take (nat (Flt_Limit f)) skipped else skipped))"

definition AuditRepository_Count :: "(instant \<Rightarrow> string) \<Rightarrow> AuditFilter \<Rightarrow> AuditRepository \<Rightarrow> nat" where
  "AuditRepository_Count fmt_time f r =
     length (filter (\<lambda>e. opt_eq (Flt_NodeID f) (AE_NodeID e) \<and> opt_eq (Flt_JobID f) (AE_JobID e)
                       \<and> opt_eq (Flt_Action f) (AE_Action e) \<and> time_range fmt_time f e) (AR_rows r))"

text \<open>\<open>DELETE\<close> meets the trigger \<open>audit_no_delete\<close> at its first row, which aborts the statement.\<close>

definition AuditRepository_Purge ::
    "(instant \<Rightarrow> string) \<Rightarrow> instant \<Rightarrow> AuditRepository \<Rightarrow> (audit_error + nat) \<times> AuditRepository" where
  "AuditRepository_Purge fmt_time before r =
     (if list_ex (\<lambda>e. \<not> text_le (fmt_time before) (fmt_time (AE_Timestamp e))) (AR_rows r)
      then (Inl PurgeFailed, r) else (Inr 0, r))"

fun verify_rows ::
    "(string \<Rightarrow> bytes) \<Rightarrow> (instant \<Rightarrow> string) \<Rightarrow> string \<Rightarrow> AuditEntry list \<Rightarrow> bool" where
  "verify_rows sha256 fmt_time prevHash [] = True"
| "verify_rows sha256 fmt_time prevHash (e # es) =
     (if AE_PrevHash e \<noteq> prevHash then False
      else if AE_EntryHash e \<noteq> calculateEntryHash sha256 fmt_time e then False
      else verify_rows sha256 fmt_time (AE_EntryHash e) es)"

definition AuditRepository_VerifyChain ::
    "(string \<Rightarrow> bytes) \<Rightarrow> (instant \<Rightarrow> string) \<Rightarrow> int \<Rightarrow> int \<Rightarrow> AuditRepository \<Rightarrow> bool" where
  "AuditRepository_VerifyChain sha256 fmt_time from_id to_id r =
     verify_rows sha256 fmt_time [] (filter (\<lambda>e. from_id \<le> AE_ID e \<and> AE_ID e \<le> to_id) (AR_rows r))"

definition AuditRepository_GetLastHash :: "AuditRepository \<Rightarrow> string" where
  "AuditRepository_GetLastHash r = (if AR_rows r = [] then [] else AE_EntryHash (last (AR_rows r)))"

text \<open>A run of the store: a sequence of calls of \<open>Log\<close>, with the clock and the database's answer.\<close>

fun log_all ::
    "(string \<Rightarrow> bytes) \<Rightarrow> (instant \<Rightarrow> string) \<Rightarrow> (instant \<times> bool \<times> AuditEntry) list
       \<Rightarrow> AuditRepository \<Rightarrow> AuditRepository" where
  "log_all sha256 fmt_time [] r = r"
| "log_all sha256 fmt_time ((now, db_ok, e) # calls) r =
     log_all sha256 fmt_time calls (snd (snd (AuditRepository_Log sha256 fmt_time now db_ok e r)))"

section \<open>Append-only chains\<close>

text \<open>
  The contract of a log that chains its entries: every call either leaves the rows and the tip
  alone or appends one row that points at the tip, carries its own digest and becomes the tip.
\<close>

locale chained_log =
  fixes append1 :: "'c \<Rightarrow> 'r \<Rightarrow> 'r"
    and rows :: "'r \<Rightarrow> 'e list"
    and tip :: "'r \<Rightarrow> 'h"
    and prev :: "'e \<Rightarrow> 'h"
    and own :: "'e \<Rightarrow> 'h"
    and digest :: "'e \<Rightarrow> 'h"
    and fresh :: "'c \<Rightarrow> bool"
  assumes append1_cases:
    "fresh c \<Longrightarrow> (rows (append1 c r) = rows r \<and> tip (append1 c r) = tip r)
       \<or> (\<exists>e. rows (append1 c r) = rows r @ [e] \<and> prev e = tip r \<and> own e = digest e
             \<and> tip (append1 c r) = own e)"
begin

lemma append1_extends: "fresh c \<Longrightarrow> \<exists>es. rows (append1 c r) = rows r @ es"
  using append1_cases [of c r] by auto

end

text \<open>The specification of a chain: every row is digested and points at the one before it.\<close>

fun linked :: "('e \<Rightarrow> 'h) \<Rightarrow> ('e \<Rightarrow> 'h) \<Rightarrow> ('e \<Rightarrow> 'h) \<Rightarrow> 'h \<Rightarrow> 'e list \<Rightarrow> bool" where
  "linked prev own digest h [] = True"
| "linked prev own digest h (e # es) \<longleftrightarrow> prev e = h \<and> own e = digest e \<and> linked prev own digest (own e) es"

definition chain_tip :: "('e \<Rightarrow> 'h) \<Rightarrow> 'h \<Rightarrow> 'e list \<Rightarrow> 'h" where
  "chain_tip own h es = (if es = [] then h else own (last es))"

lemma linked_append:
  "linked prev own digest h (xs @ ys) \<longleftrightarrow>
     linked prev own digest h xs \<and> linked prev own digest (chain_tip own h xs) ys"
  by (induction xs arbitrary: h) (auto simp: chain_tip_def)

context chained_log
begin

lemma append1_linked:
  assumes "fresh c" and "linked prev own digest h (rows r)" and "tip r = chain_tip own h (rows r)"
  shows "linked prev own digest h (rows (append1 c r))
    \<and> tip (append1 c r) = chain_tip own h (rows (append1 c r))"
  using append1_cases [OF assms(1), of r] assms(2,3) by (auto simp: linked_append chain_tip_def)

lemma run_linked:
  assumes "\<forall>c \<in> set cs. fresh c" and "linked prev own digest h (rows r)" and "tip r = chain_tip own h (rows r)"
  shows "linked prev own digest h (rows (fold append1 cs r))
    \<and> tip (fold append1 cs r) = chain_tip own h (rows (fold append1 cs r))"
  using assms
proof (induction cs arbitrary: r)
  case (Cons c cs)
  then show ?case using append1_linked [of c h r] by simp
qed simp

end

lemma verify_rows_linked:
  "verify_rows sha256 fmt_time h es \<longleftrightarrow>
     linked AE_PrevHash AE_EntryHash (calculateEntryHash sha256 fmt_time) h es"
  by (induction es arbitrary: h) auto

lemma hash_ignores_id: "calculateEntryHash sha256 fmt_time (e\<lparr>AE_ID := i\<rparr>) = calculateEntryHash sha256 fmt_time e"
  by (simp add: calculateEntryHash_def)

lemma hash_ignores_own: "calculateEntryHash sha256 fmt_time (e\<lparr>AE_EntryHash := h\<rparr>) = calculateEntryHash sha256 fmt_time e"
  by (simp add: calculateEntryHash_def)

lemma completed_entry:
  assumes "AR_hashChain r" and "AE_EntryHash e = []"
  shows "AE_PrevHash (complete_entry sha256 fmt_time now r e) = AR_lastHash r"
    and "AE_EntryHash (complete_entry sha256 fmt_time now r e)
      = calculateEntryHash sha256 fmt_time (complete_entry sha256 fmt_time now r e)"
  using assms by (simp_all add: complete_entry_def Let_def hash_ignores_own)

text \<open>One call of \<open>Log\<close> as a step of the repository.\<close>

definition log_step ::
    "(string \<Rightarrow> bytes) \<Rightarrow> (instant \<Rightarrow> string) \<Rightarrow> instant \<times> bool \<times> AuditEntry \<Rightarrow> AuditRepository \<Rightarrow> AuditRepository" where
  "log_step sha256 fmt_time c r =
     snd (snd (AuditRepository_Log sha256 fmt_time (fst c) (fst (snd c)) (snd (snd c)) r))"

lemma log_all_fold: "log_all sha256 fmt_time cs r = fold (log_step sha256 fmt_time) cs r"
  by (induction cs arbitrary: r) (auto simp: log_step_def)

lemma log_step_hashChain [simp]: "AR_hashChain (log_step sha256 fmt_time c r) = AR_hashChain r"
  by (simp add: log_step_def AuditRepository_Log_def Let_def)

lemma log_step_cases:
  assumes "AR_hashChain r"
  shows "log_step sha256 fmt_time c r = r
    \<or> (\<exists>e. AR_rows (log_step sha256 fmt_time c r) = AR_rows r @ [e] \<and> AE_ID e = AR_seq r + 1
         \<and> AR_seq (log_step sha256 fmt_time c r) = AR_seq r + 1
         \<and> AR_lastHash (log_step sha256 fmt_time c r) = AE_EntryHash e
         \<and> (AE_EntryHash (snd (snd c)) = [] \<longrightarrow>
              AE_PrevHash e = AR_lastHash r \<and> AE_EntryHash e = calculateEntryHash sha256 fmt_time e))"
  using assms completed_entry [OF assms, of "snd (snd c)" sha256 fmt_time "fst c"]
  by (auto simp: log_step_def AuditRepository_Log_def Let_def hash_ignores_id)

text \<open>The repositories of a store, all of which have the chain switched on.\<close>

definition chained_step ::
    "(string \<Rightarrow> bytes) \<Rightarrow> (instant \<Rightarrow> string) \<Rightarrow> instant \<times> bool \<times> AuditEntry \<Rightarrow> AuditRepository \<Rightarrow> AuditRepository" where
  "chained_step sha256 fmt_time c r = (if AR_hashChain r then log_step sha256 fmt_time c r else r)"

interpretation sqlite_log: chained_log
  "chained_step sha256 fmt_time" AR_rows AR_lastHash AE_PrevHash AE_EntryHash
  "calculateEntryHash sha256 fmt_time" "\<lambda>c. AE_EntryHash (snd (snd c)) = []" for sha256 fmt_time
proof
  fix c :: "instant \<times> bool \<times> AuditEntry" and r
  assume "AE_EntryHash (snd (snd c)) = []"
  then show "(AR_rows (chained_step sha256 fmt_time c r) = AR_rows r
        \<and> AR_lastHash (chained_step sha256 fmt_time c r) = AR_lastHash r)
      \<or> (\<exists>e. AR_rows (chained_step sha256 fmt_time c r) = AR_rows r @ [e] \<and> AE_PrevHash e = AR_lastHash r
            \<and> AE_EntryHash e = calculateEntryHash sha256 fmt_time e
            \<and> AR_lastHash (chained_step sha256 fmt_time c r) = AE_EntryHash e)"
    using log_step_cases [of r sha256 fmt_time c]
    by (cases "AR_hashChain r") (simp_all add: chained_step_def, metis)
qed

lemma fold_chained:
  "AR_hashChain r \<Longrightarrow> fold (chained_step sha256 fmt_time) cs r = fold (log_step sha256 fmt_time) cs r"
  by (induction cs arbitrary: r) (auto simp: chained_step_def)

lemma log_all_linked:
  assumes "AR_hashChain r" and "\<forall>c \<in> set cs. AE_EntryHash (snd (snd c)) = []"
    and "linked AE_PrevHash AE_EntryHash (calculateEntryHash sha256 fmt_time) h (AR_rows r)"
    and "AR_lastHash r = chain_tip AE_EntryHash h (AR_rows r)"
  shows "linked AE_PrevHash AE_EntryHash (calculateEntryHash sha256 fmt_time) h (AR_rows (log_all sha256 fmt_time cs r))
    \<and> AR_lastHash (log_all sha256 fmt_time cs r) = chain_tip AE_EntryHash h (AR_rows (log_all sha256 fmt_time cs r))"
  using sqlite_log.run_linked [OF assms(2-4)] by (simp add: log_all_fold fold_chained [OF assms(1)])

text \<open>Ids are handed out in order.\<close>

definition ids_ok :: "AuditRepository \<Rightarrow> bool" where
  "ids_ok r \<longleftrightarrow> sorted_wrt (<) (map AE_ID (AR_rows r)) \<and> (\<forall>e \<in> set (AR_rows r). 1 \<le> AE_ID e \<and> AE_ID e \<le> AR_seq r) \<and> 0 \<le> AR_seq r"

lemma log_step_ids: "AR_hashChain r \<Longrightarrow> ids_ok r \<Longrightarrow> ids_ok (log_step sha256 fmt_time c r)"
  using log_step_cases [of r sha256 fmt_time c] by (fastforce simp: ids_ok_def sorted_wrt_append)

lemma log_all_ids: "AR_hashChain r \<Longrightarrow> ids_ok r \<Longrightarrow> ids_ok (log_all sha256 fmt_time cs r)"
  unfolding log_all_fold by (induction cs arbitrary: r) (auto simp: log_step_ids)

lemma ids_ok_all: "ids_ok r \<Longrightarrow> filter (\<lambda>e. 1 \<le> AE_ID e \<and> AE_ID e \<le> AR_seq r) (AR_rows r) = AR_rows r"
  by (auto simp: ids_ok_def filter_id_conv)

lemma range_verify:
  assumes "\<forall>e \<in> set es. a \<le> AE_ID e \<and> AE_ID e \<le> b" and "AR_rows r = es"
  shows "AuditRepository_VerifyChain sha256 fmt_time a b r \<longleftrightarrow>
    linked AE_PrevHash AE_EntryHash (calculateEntryHash sha256 fmt_time) [] es"
proof -
  have "filter (\<lambda>e. a \<le> AE_ID e \<and> AE_ID e \<le> b) es = es" using assms(1) by (simp add: filter_id_conv)
  then show ?thesis using assms(2) by (simp add: AuditRepository_VerifyChain_def verify_rows_linked)
qed

lemma count_superset:
  "query_matches fmt_time f e \<Longrightarrow> opt_eq (Flt_NodeID f) (AE_NodeID e) \<and> opt_eq (Flt_JobID f) (AE_JobID e)
     \<and> opt_eq (Flt_Action f) (AE_Action e) \<and> time_range fmt_time f e"
  by (simp add: query_matches_def)

lemma length_filter_mono: "(\<And>x. P x \<Longrightarrow> Q x) \<Longrightarrow> length (filter P xs) \<le> length (filter Q xs)"
  by (induction xs) auto

section \<open>Properties\<close>

text \<open>
  C11. Starting from an empty log, the entries that one run of the store logs, each handed
  to \<open>Log\<close> without an entry hash (as the repositories do), and whichever of the writes fail, form a chain that
  verification of the whole log accepts, and the hash kept in memory is that of the last row. An entry
  that arrives with a hash of its own is stored with it: those of the gRPC interceptor are excluded
  here, and a row of theirs fails verification (\<open>audited_row_fails_verification\<close> of theory \<open>Grpc\<close>).
\<close>

theorem audit_chain_verifies:
  assumes "\<forall>c \<in> set calls. AE_EntryHash (snd (snd c)) = []"
    and "r = log_all sha256 fmt_time calls (open_audit nodeID [] 0)"
  shows "AuditRepository_VerifyChain sha256 fmt_time 1 (AR_seq r) r
    \<and> AR_lastHash r = AuditRepository_GetLastHash r"
proof -
  have "linked AE_PrevHash AE_EntryHash (calculateEntryHash sha256 fmt_time) [] (AR_rows r)
      \<and> AR_lastHash r = chain_tip AE_EntryHash [] (AR_rows r)"
    unfolding assms(2) by (rule log_all_linked) (simp_all add: assms(1) open_audit_def chain_tip_def)
  moreover have "ids_ok r"
    unfolding assms(2) by (rule log_all_ids) (simp_all add: open_audit_def ids_ok_def)
  ultimately show ?thesis
    using range_verify [of "AR_rows r" 1 "AR_seq r" r sha256 fmt_time]
    by (auto simp: ids_ok_def AuditRepository_GetLastHash_def chain_tip_def)
qed

definition sample_entry :: "string \<Rightarrow> AuditEntry" where
  "sample_entry action = \<lparr>AE_ID = 0, AE_Timestamp = 5, AE_NodeID = ''n'', AE_JobID = [], AE_OperationID = ''o'',
     AE_RoleUsed = ''admin'', AE_Action = action, AE_TableName = ''jobs'', AE_Query = ''q'', AE_QueryHash = [],
     AE_RowsAffected = 1, AE_DurationMS = 2, AE_SourceComponent = ''store'', AE_Actor = ''ann'', AE_Metadata = [],
     AE_PrevHash = [], AE_EntryHash = [],
     AE_Flags = \<lparr>AF_BreakGlass = False, AF_RateLimited = False, AF_Suspicious = False, AF_AlertTriggered = False\<rparr>\<rparr>"

definition sample_sha :: "string \<Rightarrow> bytes" where
  "sample_sha s = [of_nat (length s), of_nat (sum_list (map of_char s))]"

theorem audit_chain_verifies_witness:
  "AuditRepository_VerifyChain sample_sha show_int 1 2
     (log_all sample_sha show_int [(7, True, sample_entry ''INSERT''), (8, False, sample_entry ''UPDATE''),
        (9, True, sample_entry ''UPDATE'')] (open_audit ''n'' [] 0))"
proof -
  let ?r = "log_all sample_sha show_int [(7, True, sample_entry ''INSERT''), (8, False, sample_entry ''UPDATE''),
        (9, True, sample_entry ''UPDATE'')] (open_audit ''n'' [] 0)"
  have "AR_seq ?r = 2" by code_simp
  then show ?thesis
    using audit_chain_verifies [of "[(7, True, sample_entry ''INSERT''), (8, False, sample_entry ''UPDATE''),
        (9, True, sample_entry ''UPDATE'')]" ?r sample_sha show_int "''n''"]
    by (simp add: sample_entry_def)
qed

text \<open>
  C12. Tampering with a hashed field is detected: in a log that verifies, replacing any row but
  the last by one whose digest differs makes verification fail, whatever hash is stored with it.
\<close>

theorem tampering_detected:
  assumes "AR_rows r = pre @ e # nxt # post" and "AE_ID e' = AE_ID e"
    and "\<forall>x \<in> set (AR_rows r). a \<le> AE_ID x \<and> AE_ID x \<le> b"
    and "AuditRepository_VerifyChain sha256 fmt_time a b r"
    and "calculateEntryHash sha256 fmt_time e' \<noteq> calculateEntryHash sha256 fmt_time e"
  shows "\<not> AuditRepository_VerifyChain sha256 fmt_time a b (r\<lparr>AR_rows := pre @ e' # nxt # post\<rparr>)"
proof -
  let ?calc = "calculateEntryHash sha256 fmt_time"
  have "linked AE_PrevHash AE_EntryHash ?calc [] (pre @ e # nxt # post)"
    using assms(1,3,4) range_verify [of "AR_rows r" a b r sha256 fmt_time] by simp
  moreover have "AuditRepository_VerifyChain sha256 fmt_time a b (r\<lparr>AR_rows := pre @ e' # nxt # post\<rparr>)
      \<longleftrightarrow> linked AE_PrevHash AE_EntryHash ?calc [] (pre @ e' # nxt # post)"
    using assms(1-3) by (intro range_verify) auto
  ultimately show ?thesis using assms(5) by (auto simp: linked_append)
qed

definition sample_log :: AuditRepository where
  "sample_log = log_all sample_sha show_int
     [(7, True, sample_entry ''INSERT''), (9, True, sample_entry ''UPDATE'')] (open_audit ''n'' [] 0)"

theorem tampering_detected_witness:
  "\<not> AuditRepository_VerifyChain sample_sha show_int 1 2
     (sample_log\<lparr>AR_rows := [] @ (AR_rows sample_log ! 0)\<lparr>AE_Action := ''SELECT''\<rparr> # AR_rows sample_log ! 1 # []\<rparr>)"
proof (rule tampering_detected)
  show "AR_rows sample_log = [] @ AR_rows sample_log ! 0 # AR_rows sample_log ! 1 # []" by code_simp
  show "\<forall>x \<in> set (AR_rows sample_log). 1 \<le> AE_ID x \<and> AE_ID x \<le> 2" by code_simp
  show "AuditRepository_VerifyChain sample_sha show_int 1 2 sample_log" by code_simp
  show "calculateEntryHash sample_sha show_int ((AR_rows sample_log ! 0)\<lparr>AE_Action := ''SELECT''\<rparr>)
      \<noteq> calculateEntryHash sample_sha show_int (AR_rows sample_log ! 0)" by code_simp
qed simp

text \<open>
  The digest leaves out the actor, the query, the metadata and the flags: rewriting them
  in every row of the log does not change the verdict of verification.
\<close>

theorem actor_and_query_unprotected:
  "AuditRepository_VerifyChain sha256 fmt_time a b
     (r\<lparr>AR_rows := map (\<lambda>e. e\<lparr>AE_Actor := actor e, AE_Query := query e, AE_Metadata := meta e, AE_Flags := flags e\<rparr>) (AR_rows r)\<rparr>)
   = AuditRepository_VerifyChain sha256 fmt_time a b r"
proof -
  let ?f = "\<lambda>e. e\<lparr>AE_Actor := actor e, AE_Query := query e, AE_Metadata := meta e, AE_Flags := flags e\<rparr>"
  have "linked AE_PrevHash AE_EntryHash (calculateEntryHash sha256 fmt_time) h (map ?f es)
      = linked AE_PrevHash AE_EntryHash (calculateEntryHash sha256 fmt_time) h es" for h es
    by (induction es arbitrary: h) (simp_all add: calculateEntryHash_def)
  then show ?thesis
    by (simp add: AuditRepository_VerifyChain_def verify_rows_linked filter_map comp_def)
qed

text \<open>
  A store that is opened on an existing log forgets its last hash: the next entry it logs
  starts a new chain, and verification of the whole log fails from then on.
\<close>

theorem reopening_breaks_chain:
  assumes "rows \<noteq> []" and "AE_EntryHash (last rows) \<noteq> []" and "\<forall>x \<in> set rows. 1 \<le> AE_ID x \<and> AE_ID x \<le> seqno"
    and "0 \<le> seqno" and "AE_EntryHash e = []"
    and "AuditRepository_Log sha256 fmt_time now True e (open_audit nodeID rows seqno) = (None, e', r')"
  shows "\<not> AuditRepository_VerifyChain sha256 fmt_time 1 (AR_seq r') r'"
proof -
  let ?e = "complete_entry sha256 fmt_time now (open_audit nodeID rows seqno) e"
  have "AR_rows r' = rows @ [?e\<lparr>AE_ID := seqno + 1\<rparr>]" and seqno: "AR_seq r' = seqno + 1"
    using assms(6) by (auto simp: AuditRepository_Log_def Let_def open_audit_def split: if_splits)
  moreover have "AE_PrevHash ?e = []"
    using completed_entry(1) [of "open_audit nodeID rows seqno" e] assms(5) by (simp add: open_audit_def)
  ultimately show ?thesis
    using assms(1-4) by (subst range_verify) (auto simp: linked_append chain_tip_def)
qed

theorem reopening_breaks_chain_witness:
  "\<not> AuditRepository_VerifyChain sample_sha show_int 1 3
     (snd (snd (AuditRepository_Log sample_sha show_int 11 True (sample_entry ''SELECT'')
        (open_audit ''n'' (AR_rows sample_log) 2))))"
proof -
  let ?call = "AuditRepository_Log sample_sha show_int 11 True (sample_entry ''SELECT'') (open_audit ''n'' (AR_rows sample_log) 2)"
  have "fst ?call = None" and seqno: "AR_seq (snd (snd ?call)) = 3" by code_simp+
  then have call: "?call = (None, fst (snd ?call), snd (snd ?call))" by (metis prod.collapse)
  have "AR_rows sample_log \<noteq> []" "AE_EntryHash (last (AR_rows sample_log)) \<noteq> []"
    "\<forall>x \<in> set (AR_rows sample_log). 1 \<le> AE_ID x \<and> AE_ID x \<le> 2" "AE_EntryHash (sample_entry ''SELECT'') = []"
    by code_simp+
  from reopening_breaks_chain [OF this(1-3) _ this(4) call] show ?thesis by (simp only: seqno) simp
qed

text \<open>
  A query never returns more entries than \<open>Count\<close> reports for the same filter, and as many
  when no limit and no filter on operation, table, role, actor or suspicion is given; it fails
  only for an offset without a limit.
\<close>

theorem query_count_agreement:
  "case AuditRepository_Query fmt_time f r of
     Inl err \<Rightarrow> err = QueryFailed \<and> Flt_Limit f \<le> 0 \<and> 0 < Flt_Offset f
   | Inr es \<Rightarrow> length es \<le> AuditRepository_Count fmt_time f r
       \<and> set es \<subseteq> set (AR_rows r)
       \<and> (if Flt_Limit f \<le> 0 \<and> Flt_OperationID f = [] \<and> Flt_TableName f = [] \<and> Flt_RoleUsed f = [] \<and> Flt_Actor f = []
             \<and> Flt_Suspicious f \<noteq> Some True then length es = AuditRepository_Count fmt_time f r else True)"
proof (cases "Flt_Limit f \<le> 0 \<and> Flt_Offset f > 0")
  case True
  then show ?thesis by (simp add: AuditRepository_Query_def)
next
  case False
  define found where "found = filter (query_matches fmt_time f) (AR_rows r)"
  define es where "es = (let s = (if Flt_Offset f > 0 then drop (nat (Flt_Offset f)) (rev found) else rev found)
     in if Flt_Limit f > 0 then take (nat (Flt_Limit f)) s else s)"
  have q: "AuditRepository_Query fmt_time f r = Inr es"
    using False by (auto simp: AuditRepository_Query_def es_def found_def Let_def)
  have "length es \<le> length found" by (auto simp: es_def Let_def)
  moreover have "length found \<le> AuditRepository_Count fmt_time f r"
    unfolding found_def AuditRepository_Count_def by (rule length_filter_mono) (rule count_superset)
  moreover have "set es \<subseteq> set (AR_rows r)"
    by (auto simp: es_def Let_def found_def dest!: in_set_takeD in_set_dropD split: if_splits)
  moreover have "length es = AuditRepository_Count fmt_time f r"
    if "Flt_Limit f \<le> 0" "Flt_OperationID f = []" "Flt_TableName f = []" "Flt_RoleUsed f = []" "Flt_Actor f = []"
      "Flt_Suspicious f \<noteq> Some True"
  proof -
    have "query_matches fmt_time f = (\<lambda>e. opt_eq (Flt_NodeID f) (AE_NodeID e) \<and> opt_eq (Flt_JobID f) (AE_JobID e)
        \<and> opt_eq (Flt_Action f) (AE_Action e) \<and> time_range fmt_time f e)"
      using that by (intro ext) (auto simp: query_matches_def opt_eq_def)
    then show ?thesis using that False by (simp add: es_def found_def AuditRepository_Count_def)
  qed
  ultimately show ?thesis by (simp add: q)
qed

end
