(* ===== verification/Grpc.thy ===== *)
theory Grpc
  imports Users Audit_Chain
begin

text \<open>
  The gRPC server's request path (\<open>internal/grpc/middleware/rbac.go\<close>, \<open>interceptors.go\<close>,
  \<open>audit.go\<close>, and the interceptor chain of \<open>internal/grpc/server_lifecycle.go\<close>): the
  permission table and the role-based gate, request ids, panic recovery, per-user rate limiting
  and the audit interceptor over the repository of the audit trail. A handler is a function of
  the request context and the server state; an interceptor wraps one. The token bucket of
  \<open>golang.org/x/time/rate\<close>, fresh UUIDs, the clock and the texts of gRPC errors are arguments
  (\<open>env\<close>); Prometheus metrics and log output have no effect on the result.

  Shown: methods reserved for administrators are reached only by an active administrator with a
  valid token, also in bootstrap mode; declared methods missing from the table are denied to
  everyone; the server never installs the gate, so its chain hands anonymous requests to
  administrative handlers; creations leave no audit row, because the table rejects their action;
  and a row the interceptor does write spoils verification of the chain.
\<close>

section \<open>Definitions\<close>

datatype status_code = Unauthenticated | PermissionDenied | ResourceExhausted | Internal | OtherCode string

datatype 'r outcome = Reply 'r | Status status_code string | GoPanic

record grpc_ctx =
  Ctx_metadata :: "(string \<times> string list) list option"
  Ctx_user :: "User option"
  Ctx_request_id :: "string option"
  Ctx_peer :: "string option"

type_synonym ('s, 'r) handler = "grpc_ctx \<Rightarrow> 's \<Rightarrow> 'r outcome \<times> 's"

record RBACConfig =
  RBAC_Enabled :: bool
  RBAC_BootstrapMode :: bool

record MethodPermission =
  MP_RequiresAuth :: bool
  MP_RequiredRole :: string
  MP_AllowSelf :: bool
  MP_AllowBootstrap :: bool

definition WithUser :: "grpc_ctx \<Rightarrow> User \<Rightarrow> grpc_ctx" where
  "WithUser ctx user = ctx\<lparr>Ctx_user := Some user\<rparr>"

definition service :: "string \<Rightarrow> (string \<times> 'a) list \<Rightarrow> (string \<times> 'a) list" where
  "service svc ms = map (\<lambda>(m, p). (''/bib.v1.services.'' @ svc @ ''/'' @ m, p)) ms"

definition open_to_all :: MethodPermission where
  "open_to_all = \<lparr>MP_RequiresAuth = False, MP_RequiredRole = [], MP_AllowSelf = False, MP_AllowBootstrap = False\<rparr>"
definition any_user :: MethodPermission where
  "any_user = \<lparr>MP_RequiresAuth = True, MP_RequiredRole = [], MP_AllowSelf = False, MP_AllowBootstrap = False\<rparr>"
definition admin_only :: MethodPermission where
  "admin_only = \<lparr>MP_RequiresAuth = True, MP_RequiredRole = UserRoleAdmin, MP_AllowSelf = False, MP_AllowBootstrap = False\<rparr>"
definition own :: MethodPermission where
  "own = \<lparr>MP_RequiresAuth = True, MP_RequiredRole = [], MP_AllowSelf = True, MP_AllowBootstrap = False\<rparr>"
definition own_bootstrap :: MethodPermission where
  "own_bootstrap = \<lparr>MP_RequiresAuth = True, MP_RequiredRole = [], MP_AllowSelf = True, MP_AllowBootstrap = True\<rparr>"

definition methodPermissions :: "(string \<times> MethodPermission) list" where
  "methodPermissions =
     service ''HealthService'' [(''Check'', open_to_all),
       (''Watch'', open_to_all),
       (''GetStatus'', open_to_all),
       (''Ping'', open_to_all),
       (''GetNodeInfo'', open_to_all)] @
     service ''AuthService'' [(''Challenge'', open_to_all),
       (''VerifyChallenge'', open_to_all),
       (''GetAuthConfig'', open_to_all),
       (''GetPublicKeyInfo'', open_to_all),
       (''Logout'', own),
       (''GetSession'', own),
       (''RefreshSession'', own),
       (''ValidateSession'', open_to_all),
       (''ListMySessions'', own),
       (''RevokeAllSessions'', own)] @
     service ''UserService'' [(''GetUser'', admin_only),
       (''GetUserByPublicKey'', admin_only),
       (''ListUsers'', admin_only),
       (''SearchUsers'', admin_only),
       (''CreateUser'', admin_only),
       (''UpdateUser'', admin_only),
       (''DeleteUser'', admin_only),
       (''SuspendUser'', admin_only),
       (''ActivateUser'', admin_only),
       (''SetUserRole'', admin_only),
       (''GetCurrentUser'', own_bootstrap),
       (''UpdateCurrentUser'', own_bootstrap),
       (''GetUserPreferences'', own),
       (''UpdateUserPreferences'', own),
       (''ListUserSessions'', own),
       (''EndUserSession'', own),
       (''EndAllUserSessions'', admin_only)] @
     service ''NodeService'' [(''GetNode'', any_user),
       (''ListNodes'', any_user),
       (''GetSelfNode'', any_user),
       (''ConnectPeer'', admin_only),
       (''DisconnectPeer'', admin_only),
       (''GetNetworkStats'', any_user),
       (''StreamNodeEvents'', any_user),
       (''GetPeerInfo'', any_user),
       (''ListConnectedPeers'', any_user),
       (''BanPeer'', admin_only),
       (''UnbanPeer'', admin_only),
       (''ListBannedPeers'', admin_only)] @
     service ''TopicService'' [(''CreateTopic'', admin_only),
       (''GetTopic'', any_user),
       (''ListTopics'', any_user),
       (''UpdateTopic'', any_user),
       (''DeleteTopic'', any_user),
       (''Subscribe'', any_user),
       (''Unsubscribe'', any_user),
       (''ListSubscriptions'', any_user),
       (''GetSubscription'', any_user),
       (''StreamTopicUpdates'', any_user),
       (''GetTopicStats'', any_user),
       (''SearchTopics'', any_user)] @
     service ''DatasetService'' [(''CreateDataset'', any_user),
       (''GetDataset'', any_user),
       (''ListDatasets'', any_user),
       (''UpdateDataset'', any_user),
       (''DeleteDataset'', any_user),
       (''UploadDataset'', any_user),
       (''DownloadDataset'', any_user),
       (''GetDatasetVersions'', any_user),
       (''GetVersion'', any_user),
       (''GetChunk'', any_user),
       (''VerifyDataset'', any_user),
       (''SearchDatasets'', any_user),
       (''GetDatasetStats'', any_user),
       (''CopyDataset'', any_user),
       (''StreamDatasetEvents'', any_user)] @
     service ''QueryService'' [(''Execute'', any_user),
       (''ExecuteStream'', any_user),
       (''ValidateQuery'', any_user),
       (''ExplainQuery'', any_user),
       (''ListFunctions'', any_user),
       (''GetQueryHistory'', any_user),
       (''SaveQuery'', any_user),
       (''ListSavedQueries'', any_user),
       (''DeleteSavedQuery'', any_user)] @
     service ''AdminService'' [(''GetConfig'', admin_only),
       (''UpdateConfig'', admin_only),
       (''GetMetrics'', admin_only),
       (''StreamLogs'', admin_only),
       (''GetAuditLogs'', admin_only),
       (''TriggerBackup'', admin_only),
       (''ListBackups'', admin_only),
       (''RestoreBackup'', admin_only),
       (''DeleteBackup'', admin_only),
       (''GetClusterStatus'', admin_only),
       (''TriggerSnapshot'', admin_only),
       (''TransferLeadership'', admin_only),
       (''Shutdown'', admin_only),
       (''GetSystemInfo'', admin_only),
       (''RunMaintenance'', admin_only)] @
     service ''JobService'' [(''CreateJob'', any_user),
       (''GetJob'', any_user),
       (''ListJobs'', any_user),
       (''CancelJob'', any_user),
       (''RetryJob'', any_user),
       (''StreamJobUpdates'', any_user)] @
     service ''BreakGlassService'' [(''InitiateBreakGlass'', admin_only),
       (''EndBreakGlass'', admin_only),
       (''GetBreakGlassStatus'', admin_only)]"

definition hasMinimumRole :: "string \<Rightarrow> string \<Rightarrow> bool" where
  "hasMinimumRole userRole requiredRole =
     (let roleHierarchy = [(UserRoleAdmin, 3), (UserRoleUser, 2), (UserRoleReadonly, 1::int)]
      in case map_of roleHierarchy userRole of
           None \<Rightarrow> False
         | Some userLevel \<Rightarrow> (case map_of roleHierarchy requiredRole of
                               None \<Rightarrow> False
                             | Some requiredLevel \<Rightarrow> userLevel \<ge> requiredLevel))"

definition md_Get :: "(string \<times> string list) list \<Rightarrow> string \<Rightarrow> string list" where
  "md_Get md k = (case map_of md k of None \<Rightarrow> [] | Some vs \<Rightarrow> vs)"

definition lower_char :: "char \<Rightarrow> char" where
  "lower_char c = (if 65 \<le> (of_char c :: nat) \<and> (of_char c :: nat) \<le> 90
                   then char_of ((of_char c :: nat) + 32) else c)"

text \<open>
  \<open>strings.ToLower\<close> followed by a prefix test: no character outside ASCII has one of the
  letters of \<open>bearer\<close> as its lower case, so the test is on the first seven bytes.
\<close>

definition ExtractToken :: "grpc_ctx \<Rightarrow> string" where
  "ExtractToken ctx =
     (case Ctx_metadata ctx of
        None \<Rightarrow> []
      | Some md \<Rightarrow>
          (case md_Get md ''x-session-token'' of
             tok # _ \<Rightarrow> tok
           | [] \<Rightarrow> (case md_Get md ''authorization'' of
                     tok # _ \<Rightarrow> if map lower_char (take 7 tok) = ''bearer '' then drop 7 tok else tok
                   | [] \<Rightarrow> [])))"

text \<open>The user lookup: an error text, or a user (a nil pointer is \<open>None\<close>).\<close>

definition extractAndValidateUser ::
    "(grpc_ctx \<Rightarrow> string \<Rightarrow> string + User option) \<Rightarrow> grpc_ctx \<Rightarrow> (status_code \<times> string) + User option" where
  "extractAndValidateUser getUserFromToken ctx =
     (let token = ExtractToken ctx
      in if token = [] then Inl (Unauthenticated, ''missing authentication token'')
         else case getUserFromToken ctx token of
                Inl err \<Rightarrow> Inl (Unauthenticated, ''invalid token: '' @ err)
              | Inr user \<Rightarrow> Inr user)"

definition RBACInterceptor ::
    "RBACConfig \<Rightarrow> (grpc_ctx \<Rightarrow> string \<Rightarrow> string + User option) \<Rightarrow> string \<Rightarrow> ('s, 'r) handler \<Rightarrow> ('s, 'r) handler" where
  "RBACInterceptor cfg getUserFromToken fullMethod handler ctx s =
     (if \<not> RBAC_Enabled cfg then handler ctx s
      else case map_of methodPermissions fullMethod of
             None \<Rightarrow> (Status PermissionDenied (''unknown method: '' @ fullMethod), s)
           | Some perm \<Rightarrow>
               if \<not> MP_RequiresAuth perm then handler ctx s
               else if RBAC_BootstrapMode cfg \<and> MP_AllowBootstrap perm then handler ctx s
               else case extractAndValidateUser getUserFromToken ctx of
                      Inl (c, msg) \<Rightarrow> (Status c msg, s)
                    | Inr None \<Rightarrow> (GoPanic, s)
                    | Inr (Some user) \<Rightarrow>
                        if \<not> User_IsActive user then (Status PermissionDenied ''user account is not active'', s)
                        else if MP_RequiredRole perm \<noteq> [] \<and> \<not> hasMinimumRole (User_Role user) (MP_RequiredRole perm)
                          then (Status PermissionDenied
                                  (''insufficient permissions: requires '' @ MP_RequiredRole perm @ '' role''), s)
                        else handler (WithUser ctx user) s)"

text \<open>The outside world of the interceptors.\<close>

datatype clock_reading = SinceCleanup | CleanupNow | LimiterNow | AuditStart | AuditEnd | AuditStamp | OperationStamp | RepoStamp

record ('l, 'f) env =
  Env_new_limiter :: "'f \<Rightarrow> int \<Rightarrow> 'l"
  Env_limiter_allow :: "'l \<Rightarrow> instant \<Rightarrow> bool \<times> 'l"
  Env_uuid :: string
  Env_clock :: "clock_reading \<Rightarrow> instant"
  Env_sha256 :: "string \<Rightarrow> bytes"
  Env_fmt_time :: "instant \<Rightarrow> string"
  Env_db_ok :: bool
  Env_last_hash_ok :: bool
  Env_request_type :: "string option"
  Env_err_text :: "status_code \<Rightarrow> string \<Rightarrow> string"
  Env_code_name :: "status_code \<Rightarrow> string"

record ('l, 'f) RateLimiter =
  RL_limiters :: "(string \<times> 'l) list"
  RL_rps :: 'f
  RL_burst :: int
  RL_lastCleanup :: instant
  RL_cleanupAge :: duration

definition NewRateLimiter :: "instant \<Rightarrow> 'f \<Rightarrow> int \<Rightarrow> ('l, 'f) RateLimiter" where
  "NewRateLimiter now requestsPerSecond burst =
     \<lparr>RL_limiters = [], RL_rps = requestsPerSecond, RL_burst = burst, RL_lastCleanup = now,
      RL_cleanupAge = 10 * 60 * 1000000000\<rparr>"

definition RateLimiter_cleanup :: "instant \<Rightarrow> ('l, 'f) RateLimiter \<Rightarrow> ('l, 'f) RateLimiter" where
  "RateLimiter_cleanup now rl =
     (if length (RL_limiters rl) > 10000 then rl\<lparr>RL_limiters := []\<rparr> else rl)\<lparr>RL_lastCleanup := now\<rparr>"

definition RateLimiter_Allow :: "('l, 'f) env \<Rightarrow> string \<Rightarrow> ('l, 'f) RateLimiter \<Rightarrow> bool \<times> ('l, 'f) RateLimiter" where
  "RateLimiter_Allow env key rl0 =
     (let rl = (if time_Sub (Env_clock env SinceCleanup) (RL_lastCleanup rl0) > RL_cleanupAge rl0
                then RateLimiter_cleanup (Env_clock env CleanupNow) rl0 else rl0);
          limiter = (case map_of (RL_limiters rl) key of
                       Some l \<Rightarrow> l | None \<Rightarrow> Env_new_limiter env (RL_rps rl) (RL_burst rl));
          (ok, limiter') = Env_limiter_allow env limiter (Env_clock env LimiterNow)
      in (ok, rl\<lparr>RL_limiters := AList.update key limiter' (RL_limiters rl)\<rparr>))"

text \<open>The state a server keeps: its limiter, the audit repository, and the services' own state.\<close>

record ('l, 'f, 'a) Server =
  Srv_limiter :: "('l, 'f) RateLimiter"
  Srv_audit :: AuditRepository
  Srv_app :: 'a

definition getRateLimitKey :: "grpc_ctx \<Rightarrow> string" where
  "getRateLimitKey ctx =
     (case Ctx_user ctx of
        Some user \<Rightarrow> ''user:'' @ User_ID user
      | None \<Rightarrow> (case Ctx_peer ctx of Some p \<Rightarrow> ''ip:'' @ p | None \<Rightarrow> ''unknown''))"

definition RateLimitUnaryInterceptor ::
    "('l, 'f) env \<Rightarrow> (('l, 'f, 'a) Server, 'r) handler \<Rightarrow> (('l, 'f, 'a) Server, 'r) handler" where
  "RateLimitUnaryInterceptor env handler ctx s =
     (case RateLimiter_Allow env (getRateLimitKey ctx) (Srv_limiter s) of
        (ok, rl) \<Rightarrow>
          let s' = s\<lparr>Srv_limiter := rl\<rparr>
          in if \<not> ok then (Status ResourceExhausted ''rate limit exceeded'', s') else handler ctx s')"

definition RequestIDFromContext :: "grpc_ctx \<Rightarrow> string" where
  "RequestIDFromContext ctx = (case Ctx_request_id ctx of Some i \<Rightarrow> i | None \<Rightarrow> [])"

definition extractOrGenerateRequestID :: "('l, 'f) env \<Rightarrow> grpc_ctx \<Rightarrow> string" where
  "extractOrGenerateRequestID env ctx =
     (case Ctx_metadata ctx of
        Some md \<Rightarrow> (case md_Get md ''x-request-id'' of
                     i # _ \<Rightarrow> if i \<noteq> [] then i else Env_uuid env
                   | [] \<Rightarrow> Env_uuid env)
      | None \<Rightarrow> Env_uuid env)"

definition RequestIDUnaryInterceptor :: "('l, 'f) env \<Rightarrow> ('s, 'r) handler \<Rightarrow> ('s, 'r) handler" where
  "RequestIDUnaryInterceptor env handler ctx s =
     handler (ctx\<lparr>Ctx_request_id := Some (extractOrGenerateRequestID env ctx)\<rparr>) s"

definition RecoveryUnaryInterceptor :: "('s, 'r) handler \<Rightarrow> ('s, 'r) handler" where
  "RecoveryUnaryInterceptor handler ctx s =
     (case handler ctx s of
        (GoPanic, s') \<Rightarrow> (Status Internal (''internal server error (request_id: '' @ RequestIDFromContext ctx @ '')''), s')
      | (out, s') \<Rightarrow> (out, s'))"

record AuditConfig =
  AC_Enabled :: bool
  AC_LogFailedOperations :: bool
  AC_NodeID :: string

definition mutationMethods :: "(string \<times> string) list" where
  "mutationMethods =
     service ''UserService'' [(''CreateUser'', ''CREATE''),
       (''UpdateUser'', ''UPDATE''),
       (''DeleteUser'', ''DELETE''),
       (''SuspendUser'', ''UPDATE''),
       (''ActivateUser'', ''UPDATE''),
       (''SetUserRole'', ''UPDATE''),
       (''UpdateCurrentUser'', ''UPDATE''),
       (''UpdateUserPreferences'', ''UPDATE''),
       (''EndUserSession'', ''DELETE''),
       (''EndAllUserSessions'', ''DELETE'')] @
     service ''NodeService'' [(''ConnectPeer'', ''CREATE''),
       (''DisconnectPeer'', ''DELETE''),
       (''BanPeer'', ''CREATE''),
       (''UnbanPeer'', ''DELETE'')] @
     service ''TopicService'' [(''CreateTopic'', ''CREATE''),
       (''UpdateTopic'', ''UPDATE''),
       (''DeleteTopic'', ''DELETE''),
       (''Subscribe'', ''CREATE''),
       (''Unsubscribe'', ''DELETE'')] @
     service ''DatasetService'' [(''CreateDataset'', ''CREATE''),
       (''UpdateDataset'', ''UPDATE''),
       (''DeleteDataset'', ''DELETE''),
       (''UploadDataset'', ''CREATE'')] @
     service ''AdminService'' [(''UpdateConfig'', ''UPDATE''),
       (''TriggerBackup'', ''CREATE''),
       (''Shutdown'', ''DDL'')] @
     service ''JobService'' [(''CreateJob'', ''CREATE''),
       (''CancelJob'', ''UPDATE''),
       (''RetryJob'', ''UPDATE'')] @
     service ''AuthService'' [(''Logout'', ''DELETE'')] @
     service ''BreakGlassService'' [(''InitiateBreakGlass'', ''DDL''),
       (''EndBreakGlass'', ''DDL'')]"

definition grpc_calculateEntryHash :: "('l, 'f) env \<Rightarrow> AuditEntry \<Rightarrow> string" where
  "grpc_calculateEntryHash env e =
     hex_EncodeToString (Env_sha256 env (strings_Join
       [Env_fmt_time env (AE_Timestamp e), AE_NodeID e, AE_OperationID e, AE_Action e, AE_TableName e,
        AE_Actor e, AE_PrevHash e, show_int (AE_DurationMS e)] ''|''))"

definition generateOperationID :: "('l, 'f) env \<Rightarrow> string" where
  "generateOperationID env =
     hex_EncodeToString (take 8 (Env_sha256 env (show_int (Env_clock env OperationStamp))))"

definition hashString :: "('l, 'f) env \<Rightarrow> string \<Rightarrow> string" where
  "hashString env str = hex_EncodeToString (Env_sha256 env str)"

definition strings_TrimSuffix :: "string \<Rightarrow> string \<Rightarrow> string" where
  "strings_TrimSuffix t suf =
     (if length suf \<le> length t \<and> drop (length t - length suf) t = suf
      then take (length t - length suf) t else t)"

definition extractResourceFromMethod :: "string \<Rightarrow> string" where
  "extractResourceFromMethod method =
     (let parts = strings_Split CHR ''/'' method
      in if length parts < 3 then ''unknown''
         else map lower_char (strings_TrimSuffix (last (strings_Split CHR ''.'' (parts ! 1))) ''Service''))"

text \<open>\<open>Duration.Milliseconds\<close>: division towards zero.\<close>

definition milliseconds :: "duration \<Rightarrow> int" where
  "milliseconds d = (if d < 0 then - ((- d) div 1000000) else d div 1000000)"

definition grpc_audit_entry ::
    "('l, 'f) env \<Rightarrow> AuditConfig \<Rightarrow> grpc_ctx \<Rightarrow> string \<Rightarrow> string \<Rightarrow> 'r outcome \<Rightarrow> AuditRepository \<Rightarrow> AuditEntry" where
  "grpc_audit_entry env am ctx method action out repo =
     (let actor = (case Ctx_user ctx of Some u \<Rightarrow> User_ID u | None \<Rightarrow> ''anonymous'');
          clientIP = (case Ctx_peer ctx of Some p \<Rightarrow> p | None \<Rightarrow> []);
          meta = [(''method'', method), (''client_ip'', clientIP)]
                 @ (case Env_request_type env of Some t \<Rightarrow> [(''request_type'', t)] | None \<Rightarrow> [])
                 @ (case out of Status c msg \<Rightarrow> [(''error'', Env_err_text env c msg), (''error_code'', Env_code_name env c)]
                            | _ \<Rightarrow> []);
          suspicious = (case out of Status c msg \<Rightarrow> c = Unauthenticated \<or> c = PermissionDenied | _ \<Rightarrow> False);
          lastHash = (if Env_last_hash_ok env then AuditRepository_GetLastHash repo else []);
          entry = \<lparr>AE_ID = 0, AE_Timestamp = Env_clock env AuditStamp, AE_NodeID = AC_NodeID am, AE_JobID = [],
                   AE_OperationID = generateOperationID env, AE_RoleUsed = ''grpc'', AE_Action = action,
                   AE_TableName = extractResourceFromMethod method, AE_Query = method, AE_QueryHash = hashString env method,
                   AE_RowsAffected = 1,
                   AE_DurationMS = milliseconds (time_Sub (Env_clock env AuditEnd) (Env_clock env AuditStart)),
                   AE_SourceComponent = ''grpc'', AE_Actor = actor, AE_Metadata = meta, AE_PrevHash = lastHash,
                   AE_EntryHash = [],
                   AE_Flags = \<lparr>AF_BreakGlass = False, AF_RateLimited = False, AF_Suspicious = suspicious,
                               AF_AlertTriggered = False\<rparr>\<rparr>
      in entry\<lparr>AE_EntryHash := grpc_calculateEntryHash env entry\<rparr>)"

definition logAuditEntry ::
    "('l, 'f) env \<Rightarrow> AuditConfig \<Rightarrow> grpc_ctx \<Rightarrow> string \<Rightarrow> string \<Rightarrow> 'r outcome \<Rightarrow> AuditRepository \<Rightarrow> AuditRepository" where
  "logAuditEntry env am ctx method action out repo =
     snd (snd (AuditRepository_Log (Env_sha256 env) (Env_fmt_time env) (Env_clock env RepoStamp) (Env_db_ok env)
                 (grpc_audit_entry env am ctx method action out repo) repo))"

text \<open>A panicking handler unwinds past the logging: nothing is recorded.\<close>

definition AuditUnaryInterceptor ::
    "('l, 'f) env \<Rightarrow> AuditConfig option \<Rightarrow> string \<Rightarrow> (('l, 'f, 'a) Server, 'r) handler \<Rightarrow> (('l, 'f, 'a) Server, 'r) handler" where
  "AuditUnaryInterceptor env am fullMethod handler ctx s =
     (case am of
        None \<Rightarrow> handler ctx s
      | Some cfg \<Rightarrow>
          if \<not> AC_Enabled cfg then handler ctx s
          else case map_of mutationMethods fullMethod of
                 None \<Rightarrow> handler ctx s
               | Some action \<Rightarrow>
                   (case handler ctx s of
                      (GoPanic, s') \<Rightarrow> (GoPanic, s')
                    | (out, s') \<Rightarrow>
                        if (case out of Reply _ \<Rightarrow> True | _ \<Rightarrow> False) \<or> AC_LogFailedOperations cfg
                        then (out, s'\<lparr>Srv_audit := logAuditEntry env cfg ctx fullMethod action out (Srv_audit s')\<rparr>)
                        else (out, s')))"

text \<open>The chain of a server.\<close>

datatype interceptor = Metrics | Recovery | RequestID | Logging | RateLimiting | Audit | RBAC

record ServerConfig =
  Cfg_MetricsEnabled :: bool
  Cfg_RateLimitEnabled :: bool
  Cfg_AuditMiddleware :: "AuditConfig option"
  Cfg_RBACConfig :: RBACConfig

definition buildUnaryInterceptors :: "ServerConfig \<Rightarrow> interceptor list" where
  "buildUnaryInterceptors cfg =
     (if Cfg_MetricsEnabled cfg then [Metrics] else []) @ [Recovery] @ [RequestID] @ [Logging]
     @ (if Cfg_RateLimitEnabled cfg then [RateLimiting] else [])
     @ (if Cfg_AuditMiddleware cfg \<noteq> None then [Audit] else [])"

fun intercept ::
    "('l, 'f) env \<Rightarrow> ServerConfig \<Rightarrow> (grpc_ctx \<Rightarrow> string \<Rightarrow> string + User option) \<Rightarrow> string \<Rightarrow> interceptor
       \<Rightarrow> (('l, 'f, 'a) Server, 'r) handler \<Rightarrow> (('l, 'f, 'a) Server, 'r) handler" where
  "intercept env cfg getUser m Metrics h = h"
| "intercept env cfg getUser m Recovery h = RecoveryUnaryInterceptor h"
| "intercept env cfg getUser m RequestID h = RequestIDUnaryInterceptor env h"
| "intercept env cfg getUser m Logging h = h"
| "intercept env cfg getUser m RateLimiting h = RateLimitUnaryInterceptor env h"
| "intercept env cfg getUser m Audit h = AuditUnaryInterceptor env (Cfg_AuditMiddleware cfg) m h"
| "intercept env cfg getUser m RBAC h = RBACInterceptor (Cfg_RBACConfig cfg) getUser m h"

text \<open>\<open>grpc.ChainUnaryInterceptor\<close>: the first interceptor is the outermost.\<close>

definition serve_unary ::
    "('l, 'f) env \<Rightarrow> ServerConfig \<Rightarrow> (grpc_ctx \<Rightarrow> string \<Rightarrow> string + User option) \<Rightarrow> string
       \<Rightarrow> (('l, 'f, 'a) Server, 'r) handler \<Rightarrow> (('l, 'f, 'a) Server, 'r) handler" where
  "serve_unary env cfg getUser m h = foldr (intercept env cfg getUser m) (buildUnaryInterceptors cfg) h"

section \<open>Facts about the tables and the chain\<close>

lemma admin_entries_not_bootstrap:
  "list_all (\<lambda>(m, p). MP_RequiredRole p = UserRoleAdmin \<longrightarrow> MP_RequiresAuth p \<and> \<not> MP_AllowBootstrap p) methodPermissions"
  by code_simp

lemma admin_entry:
  assumes "map_of methodPermissions m = Some p" and "MP_RequiredRole p = UserRoleAdmin"
  shows "MP_RequiresAuth p \<and> \<not> MP_AllowBootstrap p"
  using admin_entries_not_bootstrap map_of_SomeD [OF assms(1)] assms(2) by (auto simp: list_all_iff)

lemma minimum_admin: "hasMinimumRole role UserRoleAdmin \<longleftrightarrow> role = UserRoleAdmin"
  by (auto simp: hasMinimumRole_def)

lemma hasMinimumRole_iff:
  "hasMinimumRole u r \<longleftrightarrow>
     (u = UserRoleAdmin \<and> UserRole_IsValid r) \<or> (u = UserRoleUser \<and> r \<in> {UserRoleUser, UserRoleReadonly})
     \<or> (u = UserRoleReadonly \<and> r = UserRoleReadonly)"
  by (auto simp: hasMinimumRole_def UserRole_IsValid_def)

text \<open>Methods the service definitions declare and the permission table lacks.\<close>

definition unlisted_methods :: "string list" where
  "unlisted_methods = map fst (service ''AuthService'' [(''RevokeSession'', ())] @
     service ''BreakGlassService'' [(''GetStatus'', ()), (''CreateChallenge'', ()), (''EnableSession'', ()),
       (''DisableSession'', ()), (''GetPendingAcknowledgments'', ()), (''AcknowledgeSession'', ()),
       (''GetSessionReport'', ()), (''ListSessions'', ())] @
     service ''JobService'' [(''StreamJobLogs'', ()), (''StreamJobStatus'', ()), (''PauseJob'', ()),
       (''ResumeJob'', ()), (''GetJobResult'', ()), (''DeleteJob'', ())])"

lemma unlisted_not_in_table:
  "list_all (\<lambda>m. m \<notin> set (map fst methodPermissions)) unlisted_methods"
proof -
  have "list_all (\<lambda>m. m \<notin> set (map (drop 17) (map fst methodPermissions))) (map (drop 17) unlisted_methods)" by code_simp
  then show ?thesis by (auto simp: list_all_iff)
qed

lemma mutation_actions:
  "list_all (\<lambda>(m, a). a \<in> set [''CREATE'', ''UPDATE'', ''DELETE'', ''DDL'']) mutationMethods"
  by code_simp

lemma create_not_accepted: "AE_Action e = ''CREATE'' \<Longrightarrow> \<not> schema_accepts rows e"
  by (simp add: schema_accepts_def audit_actions_def)

lemma complete_entry_action [simp]: "AE_Action (complete_entry sha256 fmt_time now r e) = AE_Action e"
  by (simp add: complete_entry_def Let_def)

lemma grpc_entry_action [simp]: "AE_Action (grpc_audit_entry env am ctx m action out repo) = action"
  by (simp add: grpc_audit_entry_def Let_def)

lemma create_not_logged: "logAuditEntry env am ctx m ''CREATE'' out repo = repo"
  by (simp add: logAuditEntry_def AuditRepository_Log_def Let_def create_not_accepted)

definition with_request_id :: "('l, 'f) env \<Rightarrow> grpc_ctx \<Rightarrow> grpc_ctx" where
  "with_request_id env ctx = ctx\<lparr>Ctx_request_id := Some (extractOrGenerateRequestID env ctx)\<rparr>"

lemma serve_unary_unlimited:
  assumes "\<not> Cfg_RateLimitEnabled cfg"
  shows "serve_unary env cfg getUser m h ctx s =
    RecoveryUnaryInterceptor (\<lambda>c. AuditUnaryInterceptor env (Cfg_AuditMiddleware cfg) m h (with_request_id env c)) ctx s"
  using assms
  by (cases "Cfg_AuditMiddleware cfg")
     (auto simp: serve_unary_def buildUnaryInterceptors_def RecoveryUnaryInterceptor_def
        RequestIDUnaryInterceptor_def with_request_id_def AuditUnaryInterceptor_def)

lemma recovery_state: "snd (RecoveryUnaryInterceptor h ctx s) = snd (h ctx s)"
  by (simp add: RecoveryUnaryInterceptor_def split: prod.splits outcome.splits)

lemma recovery_outcome:
  "fst (RecoveryUnaryInterceptor h ctx s) = (case fst (h ctx s) of
     GoPanic \<Rightarrow> Status Internal (''internal server error (request_id: '' @ RequestIDFromContext ctx @ '')'') | out \<Rightarrow> out)"
  by (simp add: RecoveryUnaryInterceptor_def split: prod.splits outcome.splits)

lemma audit_outcome: "fst (AuditUnaryInterceptor env am m h ctx s) = fst (h ctx s)"
  by (simp add: AuditUnaryInterceptor_def split: option.splits prod.splits outcome.splits)

lemma audit_app: "Srv_app (snd (AuditUnaryInterceptor env am m h ctx s)) = Srv_app (snd (h ctx s))"
  by (simp add: AuditUnaryInterceptor_def split: option.splits prod.splits outcome.splits)

lemma audit_create:
  assumes "map_of mutationMethods m = Some ''CREATE''"
  shows "snd (AuditUnaryInterceptor env am m h ctx s) = snd (h ctx s)"
  using assms by (simp add: AuditUnaryInterceptor_def create_not_logged split: option.splits prod.splits outcome.splits)

lemma hex_nonempty: "hex_EncodeToString bs = [] \<longleftrightarrow> bs = []"
  by (cases bs) (simp_all add: hex_EncodeToString_def hex_byte_def)

lemma grpc_entry_hash_nonempty:
  assumes "\<And>x. length (Env_sha256 env x) = 32"
  shows "AE_EntryHash (grpc_audit_entry env am ctx m action out repo) \<noteq> []"
proof -
  have "Env_sha256 env x \<noteq> []" for x using assms [of x] by auto
  then show ?thesis by (simp add: grpc_audit_entry_def Let_def grpc_calculateEntryHash_def hex_nonempty)
qed

lemma complete_entry_hashed:
  "AE_EntryHash e \<noteq> [] \<Longrightarrow> AE_EntryHash (complete_entry sha256 fmt_time now r e) = AE_EntryHash e"
  by (simp add: complete_entry_def Let_def)

lemma verify_last_wrong:
  assumes "AR_rows r = old @ [e]" and "a \<le> AE_ID e" and "AE_ID e \<le> b"
    and "AE_EntryHash e \<noteq> calculateEntryHash sha256 fmt_time e"
  shows "\<not> AuditRepository_VerifyChain sha256 fmt_time a b r"
  using assms by (simp add: AuditRepository_VerifyChain_def verify_rows_linked linked_append)

section \<open>Properties\<close>

text \<open>
  C16. The gate reserves the administrators' methods: with the gate switched on, a request for
  a method whose required role is administrator either ends in an error status (or a panic)
  without running the handler, or it carries a token of an active administrator and the handler
  runs with that user in its context; bootstrap mode makes no exception.
\<close>

theorem admin_methods_guarded:
  assumes "RBAC_Enabled cfg" and "map_of methodPermissions m = Some p" and "MP_RequiredRole p = UserRoleAdmin"
  shows "(\<exists>c msg. RBACInterceptor cfg getUser m h ctx s = (Status c msg, s)
            \<and> c \<in> {Unauthenticated, PermissionDenied})
    \<or> RBACInterceptor cfg getUser m h ctx s = (GoPanic, s)
    \<or> (\<exists>user. ExtractToken ctx \<noteq> [] \<and> getUser ctx (ExtractToken ctx) = Inr (Some user)
          \<and> User_IsActive user \<and> User_Role user = UserRoleAdmin
          \<and> RBACInterceptor cfg getUser m h ctx s = h (WithUser ctx user) s)"
proof -
  have "MP_RequiresAuth p" "\<not> MP_AllowBootstrap p" using admin_entry [OF assms(2,3)] by simp_all
  then show ?thesis
    using assms by (auto simp: RBACInterceptor_def extractAndValidateUser_def Let_def minimum_admin
        split: sum.splits option.splits)
qed

theorem admin_methods_guarded_witness:
  "RBACInterceptor \<lparr>RBAC_Enabled = True, RBAC_BootstrapMode = True\<rparr> (\<lambda>c t. Inl ''no user'')
     ''/bib.v1.services.AdminService/Shutdown'' (\<lambda>c s. (Reply (), Suc s))
     \<lparr>Ctx_metadata = Some [(''authorization'', [''Bearer x''])], Ctx_user = None, Ctx_request_id = None, Ctx_peer = None\<rparr> 0
   \<noteq> (Reply (), 1)"
proof -
  have "map_of methodPermissions ''/bib.v1.services.AdminService/Shutdown'' = Some admin_only" by code_simp
  moreover have "MP_RequiredRole admin_only = UserRoleAdmin" by (simp add: admin_only_def)
  ultimately show ?thesis
    using admin_methods_guarded [of "\<lparr>RBAC_Enabled = True, RBAC_BootstrapMode = True\<rparr>"
        "''/bib.v1.services.AdminService/Shutdown''" admin_only "\<lambda>c t. Inl ''no user''" "\<lambda>c s. (Reply (), Suc s)"
        "\<lparr>Ctx_metadata = Some [(''authorization'', [''Bearer x''])], Ctx_user = None, Ctx_request_id = None, Ctx_peer = None\<rparr>" 0]
    by auto
qed

text \<open>
  Deny by default reaches too far: fifteen methods the services declare, among them the
  whole break-glass protocol and the deletion of jobs, are missing from the table, so with the
  gate switched on nobody can call them, administrators included.
\<close>

theorem unlisted_methods_denied:
  assumes "RBAC_Enabled cfg" and "m \<in> set unlisted_methods"
  shows "RBACInterceptor cfg getUser m h ctx s = (Status PermissionDenied (''unknown method: '' @ m), s)"
proof -
  have "m \<notin> set (map fst methodPermissions)"
    using unlisted_not_in_table assms(2) unfolding list_all_iff by blast
  then have "map_of methodPermissions m = None" by (simp add: map_of_eq_None_iff)
  then show ?thesis using assms(1) by (simp add: RBACInterceptor_def)
qed

theorem unlisted_methods_denied_witness:
  "fst (RBACInterceptor \<lparr>RBAC_Enabled = True, RBAC_BootstrapMode = False\<rparr> (\<lambda>c t. Inr None)
     ''/bib.v1.services.JobService/DeleteJob'' (\<lambda>c s. (Reply (), s))
     \<lparr>Ctx_metadata = None, Ctx_user = None, Ctx_request_id = None, Ctx_peer = None\<rparr> ())
   = Status PermissionDenied (''unknown method: '' @ ''/bib.v1.services.JobService/DeleteJob'')"
proof -
  have "''/bib.v1.services.JobService/DeleteJob'' \<in> set unlisted_methods" by code_simp
  then show ?thesis
    by (simp only: unlisted_methods_denied [of "\<lparr>RBAC_Enabled = True, RBAC_BootstrapMode = False\<rparr>"] RBACConfig.simps) simp
qed

text \<open>
  The server does not install the gate: whatever the role configuration says, the role interceptor
  is not in its unary chain. With rate limiting off, which is not the default, a request with or
  without a token therefore reaches the handler of any method; the handler's effect on the
  services' state stands, its reply too unless it panics, and its context carries no user that
  was not there before.
\<close>

theorem server_without_gate:
  assumes "\<not> Cfg_RateLimitEnabled cfg"
  shows "RBAC \<notin> set (buildUnaryInterceptors cfg)
    \<and> Ctx_user (with_request_id env ctx) = Ctx_user ctx
    \<and> Srv_app (snd (serve_unary env cfg getUser m h ctx s)) = Srv_app (snd (h (with_request_id env ctx) s))
    \<and> (case fst (h (with_request_id env ctx) s) of
         GoPanic \<Rightarrow> \<exists>msg. fst (serve_unary env cfg getUser m h ctx s) = Status Internal msg
       | out \<Rightarrow> fst (serve_unary env cfg getUser m h ctx s) = out)"
  by (auto simp: serve_unary_unlimited [OF assms] recovery_state recovery_outcome audit_app audit_outcome
      buildUnaryInterceptors_def with_request_id_def split: outcome.splits)

definition sample_env :: "(nat, nat) env" where
  "sample_env = \<lparr>Env_new_limiter = (\<lambda>r b. nat b), Env_limiter_allow = (\<lambda>l t. (0 < l, l - 1)), Env_uuid = ''id'',
     Env_clock = (\<lambda>_. 5), Env_sha256 = (\<lambda>str. replicate 31 0 @ [of_nat (length str)]), Env_fmt_time = show_int,
     Env_db_ok = True, Env_last_hash_ok = True, Env_request_type = None, Env_err_text = (\<lambda>c msg. msg), Env_code_name = (\<lambda>c. [])\<rparr>"

definition sample_ctx :: grpc_ctx where
  "sample_ctx = \<lparr>Ctx_metadata = None, Ctx_user = None, Ctx_request_id = None, Ctx_peer = None\<rparr>"

definition sample_config :: ServerConfig where
  "sample_config = \<lparr>Cfg_MetricsEnabled = True, Cfg_RateLimitEnabled = False,
     Cfg_AuditMiddleware = Some \<lparr>AC_Enabled = True, AC_LogFailedOperations = True, AC_NodeID = ''n''\<rparr>,
     Cfg_RBACConfig = \<lparr>RBAC_Enabled = True, RBAC_BootstrapMode = False\<rparr>\<rparr>"

definition sample_server :: "(nat, nat, nat) Server" where
  "sample_server = \<lparr>Srv_limiter = NewRateLimiter 0 1 1, Srv_audit = open_audit ''n'' [] 0, Srv_app = 0\<rparr>"

definition sample_handler :: "((nat, nat, nat) Server, unit) handler" where
  "sample_handler ctx s = (Reply (), s\<lparr>Srv_app := Suc (Srv_app s)\<rparr>)"

theorem server_without_gate_witness:
  "Srv_app (snd (serve_unary sample_env sample_config (\<lambda>c t. Inl ''no'')
     ''/bib.v1.services.AdminService/Shutdown'' sample_handler sample_ctx sample_server)) = 1"
  using server_without_gate [of sample_config sample_env sample_ctx "\<lambda>c t. Inl ''no''"
      "''/bib.v1.services.AdminService/Shutdown''" sample_handler sample_server]
  by (simp add: sample_config_def sample_handler_def sample_server_def)

text \<open>
  Creations are not audited: for every method the audit table lists with the action
  \<open>CREATE\<close>, such as creating a user or banning a peer, the request leaves the audit repository
  as the handler left it, because the log's schema has no such action.
\<close>

theorem creations_unaudited:
  assumes "\<not> Cfg_RateLimitEnabled cfg" and "map_of mutationMethods m = Some ''CREATE''"
  shows "Srv_audit (snd (serve_unary env cfg getUser m h ctx s)) = Srv_audit (snd (h (with_request_id env ctx) s))"
  by (simp add: serve_unary_unlimited [OF assms(1)] recovery_state audit_create [OF assms(2)])

theorem creations_unaudited_witness:
  "AR_rows (Srv_audit (snd (serve_unary sample_env sample_config (\<lambda>c t. Inl ''no'')
     ''/bib.v1.services.UserService/CreateUser'' sample_handler sample_ctx sample_server))) = []"
proof -
  have "map_of mutationMethods ''/bib.v1.services.UserService/CreateUser'' = Some ''CREATE''" by code_simp
  from creations_unaudited [OF _ this, of sample_config sample_env "\<lambda>c t. Inl ''no''" sample_handler sample_ctx sample_server]
  show ?thesis by (simp add: sample_config_def sample_handler_def sample_server_def open_audit_def)
qed

text \<open>
  What the audit interceptor does record does not verify: when a mutation's row is
  written, it is the last row, names the method and the actor, and carries a digest over other
  fields than the repository's, so verification of the log fails unless the digests collide.
\<close>

theorem audited_row_fails_verification:
  assumes "repo' = logAuditEntry env am ctx m action out repo" and "repo' \<noteq> repo"
    and "\<And>x. length (Env_sha256 env x) = 32" and "0 \<le> AR_seq repo"
    and "\<And>e. e \<in> set (AR_rows repo') \<Longrightarrow> grpc_calculateEntryHash env e \<noteq> calculateEntryHash (Env_sha256 env) (Env_fmt_time env) e"
    and "AC_NodeID am \<noteq> []" and "Env_clock env AuditStamp \<noteq> 0"
  shows "\<exists>e. AR_rows repo' = AR_rows repo @ [e] \<and> AE_Query e = m \<and> AE_Action e = action
      \<and> AE_Actor e = (case Ctx_user ctx of Some u \<Rightarrow> User_ID u | None \<Rightarrow> ''anonymous'')
      \<and> \<not> AuditRepository_VerifyChain (Env_sha256 env) (Env_fmt_time env) 1 (AR_seq repo') repo'"
proof -
  define e where "e = grpc_audit_entry env am ctx m action out repo"
  have fields: "AE_Timestamp e = Env_clock env AuditStamp" "AE_NodeID e = AC_NodeID am" "AE_Query e = m" "AE_Action e = action"
    "AE_Actor e = (case Ctx_user ctx of Some u \<Rightarrow> User_ID u | None \<Rightarrow> ''anonymous'')"
    "AE_EntryHash e = grpc_calculateEntryHash env e"
    by (simp_all add: e_def grpc_audit_entry_def Let_def grpc_calculateEntryHash_def)
  have "complete_entry (Env_sha256 env) (Env_fmt_time env) (Env_clock env RepoStamp) repo e = e"
    using assms(6,7) grpc_entry_hash_nonempty [OF assms(3), of am ctx m action out repo, folded e_def]
    by (simp add: complete_entry_def Let_def fields(1,2))
  then have r: "AR_rows repo' = AR_rows repo @ [e\<lparr>AE_ID := AR_seq repo + 1\<rparr>]" "AR_seq repo' = AR_seq repo + 1"
    using assms(1,2) by (auto simp: logAuditEntry_def AuditRepository_Log_def Let_def simp flip: e_def split: if_splits)
  have "\<not> AuditRepository_VerifyChain (Env_sha256 env) (Env_fmt_time env) 1 (AR_seq repo') repo'"
  proof (rule verify_last_wrong [OF r(1)])
    show "AE_EntryHash (e\<lparr>AE_ID := AR_seq repo + 1\<rparr>)
        \<noteq> calculateEntryHash (Env_sha256 env) (Env_fmt_time env) (e\<lparr>AE_ID := AR_seq repo + 1\<rparr>)"
      using assms(5) [of "e\<lparr>AE_ID := AR_seq repo + 1\<rparr>"] r(1)
      by (simp add: fields(6)) (simp add: grpc_calculateEntryHash_def)
  qed (use assms(4) r(2) in simp_all)
  then show ?thesis using r(1) fields by simp
qed

definition sample_audit :: AuditConfig where
  "sample_audit = \<lparr>AC_Enabled = True, AC_LogFailedOperations = True, AC_NodeID = ''n''\<rparr>"

definition sample_logged :: AuditRepository where
  "sample_logged = logAuditEntry sample_env sample_audit sample_ctx ''/bib.v1.services.JobService/CancelJob'' ''UPDATE''
     (Reply ()) (open_audit ''n'' [] 0)"

theorem audited_row_fails_verification_witness:
  "\<not> AuditRepository_VerifyChain (Env_sha256 sample_env) (Env_fmt_time sample_env) 1 (AR_seq sample_logged) sample_logged"
proof -
  have "length (AR_rows sample_logged) = 1" by code_simp
  then have "AR_rows sample_logged \<noteq> AR_rows (open_audit ''n'' [] 0)"
    by (simp only: open_audit_def AuditRepository.simps) force
  then have "sample_logged \<noteq> open_audit ''n'' [] 0" by (rule contrapos_nn) (erule arg_cong)
  moreover have "list_all (\<lambda>e. grpc_calculateEntryHash sample_env e
      \<noteq> calculateEntryHash (Env_sha256 sample_env) (Env_fmt_time sample_env) e) (AR_rows sample_logged)" by code_simp
  ultimately show ?thesis
    using audited_row_fails_verification [OF sample_logged_def]
    by (auto simp: list_all_iff sample_env_def sample_audit_def open_audit_def)
qed

end
