(* ===== verification/Rate_Limit.thy ===== *)
theory Rate_Limit
  imports Audit_Chain
begin

text \<open>
  The rate limiter of the audit log (\<open>internal/storage/audit/ratelimit.go\<close>): one sliding
  window per key, a block when the window is full, manual blocks from alerts, and cleanup. The
  clock is an argument, one reading per call of \<open>checkKey\<close>. The entry is the one of the audit
  trail, whose fields are those of the package's own \<open>Entry\<close>.

  Shown: with blocks at least as long as the window, no key ever admits more than its limit in
  one window, over every interleaving of checks of all keys; and the limit of the global key is
  the one of the first entry's action, so a single schema change as the first entry caps all
  later traffic at ten operations.
\<close>

section \<open>Definitions\<close>

record RateLimitConfig =
  Cfg_Enabled :: bool
  Cfg_DefaultLimit :: int
  Cfg_DefaultWindow :: duration
  Cfg_BlockDuration :: duration
  Cfg_BypassRoles :: "string list"
  Cfg_LimitsByAction :: "(string \<times> int) list"
  Cfg_LimitsByTable :: "(string \<times> int) list"

record limiterState =
  LS_counts :: "instant list"
  LS_blockedAt :: "instant option"
  LS_blockUntil :: "instant option"
  LS_limit :: int
  LS_window :: duration
  LS_blocked :: bool

type_synonym limiters = "(string \<times> limiterState) list"

definition DefaultRateLimitConfig :: RateLimitConfig where
  "DefaultRateLimitConfig =
     \<lparr>Cfg_Enabled = True, Cfg_DefaultLimit = 1000, Cfg_DefaultWindow = 60 * 1000000000,
      Cfg_BlockDuration = 5 * 60 * 1000000000, Cfg_BypassRoles = [''bibd_admin''],
      Cfg_LimitsByAction = [(''SELECT'', 500), (''INSERT'', 200), (''UPDATE'', 100), (''DELETE'', 50), (''DDL'', 10)],
      Cfg_LimitsByTable = [(''audit_log'', 100)]\<rparr>"

definition generateKeys :: "AuditEntry \<Rightarrow> string list" where
  "generateKeys e =
     [''global''] @ (if AE_Actor e \<noteq> [] then [''actor:'' @ AE_Actor e] else [])
     @ [''action:'' @ AE_Action e] @ (if AE_TableName e \<noteq> [] then [''table:'' @ AE_TableName e] else [])"

definition determineLimit :: "RateLimitConfig \<Rightarrow> string \<Rightarrow> AuditEntry \<Rightarrow> int" where
  "determineLimit cfg key e =
     (case map_of (Cfg_LimitsByAction cfg) (AE_Action e) of
        Some limit \<Rightarrow> limit
      | None \<Rightarrow> (case map_of (Cfg_LimitsByTable cfg) (AE_TableName e) of
                  Some limit \<Rightarrow> limit | None \<Rightarrow> Cfg_DefaultLimit cfg))"

definition new_state :: "RateLimitConfig \<Rightarrow> int \<Rightarrow> limiterState" where
  "new_state cfg limit = \<lparr>LS_counts = [], LS_blockedAt = None, LS_blockUntil = None, LS_limit = limit,
     LS_window = Cfg_DefaultWindow cfg, LS_blocked = False\<rparr>"

definition lookup_state :: "RateLimitConfig \<Rightarrow> int \<Rightarrow> limiters \<Rightarrow> string \<Rightarrow> limiterState" where
  "lookup_state cfg limit r key = (case map_of r key of Some st \<Rightarrow> st | None \<Rightarrow> new_state cfg limit)"

text \<open>The reason of a refusal.\<close>

datatype refusal = BlockedUntil instant | LimitExceeded string

text \<open>
  \<open>checkKey\<close> on the state of its key: the block, the unblocking, then the window. A key whose
  block ends exactly now is neither refused nor unblocked.
\<close>

definition count_state ::
    "RateLimitConfig \<Rightarrow> instant \<Rightarrow> string \<Rightarrow> limiterState \<Rightarrow> refusal option \<times> limiterState" where
  "count_state cfg now key st =
     (let cutoff = now - LS_window st;
          st2 = st\<lparr>LS_counts := filter (\<lambda>t. cutoff < t) (LS_counts st)\<rparr>
      in if int (length (LS_counts st2)) \<ge> LS_limit st2
         then (Some (LimitExceeded key),
               st2\<lparr>LS_blocked := True, LS_blockedAt := Some now, LS_blockUntil := Some (now + Cfg_BlockDuration cfg)\<rparr>)
         else (None, st2\<lparr>LS_counts := LS_counts st2 @ [now]\<rparr>))"

definition check_state ::
    "RateLimitConfig \<Rightarrow> instant \<Rightarrow> string \<Rightarrow> limiterState \<Rightarrow> refusal option \<times> limiterState" where
  "check_state cfg now key st =
     (case (if LS_blocked st then LS_blockUntil st else None) of
        None \<Rightarrow> count_state cfg now key st
      | Some u \<Rightarrow>
          if now < u then (Some (BlockedUntil u), st)
          else if u < now
            then count_state cfg now key
                   (st\<lparr>LS_blocked := False, LS_blockUntil := None, LS_blockedAt := None, LS_counts := []\<rparr>)
          else count_state cfg now key st)"

definition checkKey ::
    "RateLimitConfig \<Rightarrow> instant \<Rightarrow> string \<Rightarrow> AuditEntry \<Rightarrow> limiters \<Rightarrow> refusal option \<times> limiters" where
  "checkKey cfg now key e r =
     (let st = lookup_state cfg (determineLimit cfg key e) r key;
          (res, st') = check_state cfg now key st
      in (res, AList.update key st' r))"

text \<open>The loop of \<open>Check\<close> over the keys, with one clock reading per key; it stops at a refusal.\<close>

fun check_keys ::
    "RateLimitConfig \<Rightarrow> (nat \<Rightarrow> instant) \<Rightarrow> AuditEntry \<Rightarrow> nat \<Rightarrow> string list \<Rightarrow> limiters \<Rightarrow> refusal option \<times> limiters" where
  "check_keys cfg clk e i [] r = (None, r)"
| "check_keys cfg clk e i (key # keys) r =
     (case checkKey cfg (clk i) key e r of
        (Some reason, r') \<Rightarrow> (Some reason, r')
      | (None, r') \<Rightarrow> check_keys cfg clk e (Suc i) keys r')"

definition RateLimiter_Check ::
    "RateLimitConfig \<Rightarrow> (nat \<Rightarrow> instant) \<Rightarrow> AuditEntry \<Rightarrow> limiters \<Rightarrow> refusal option \<times> limiters" where
  "RateLimiter_Check cfg clk e r =
     (if \<not> Cfg_Enabled cfg then (None, r)
      else if AE_RoleUsed e \<in> set (Cfg_BypassRoles cfg) then (None, r)
      else check_keys cfg clk e 0 (generateKeys e) r)"

definition TriggerBlock :: "RateLimitConfig \<Rightarrow> instant \<Rightarrow> string \<Rightarrow> duration \<Rightarrow> limiters \<Rightarrow> limiters" where
  "TriggerBlock cfg now key dur r =
     AList.update key ((lookup_state cfg (Cfg_DefaultLimit cfg) r key)
       \<lparr>LS_blocked := True, LS_blockedAt := Some now, LS_blockUntil := Some (now + dur)\<rparr>) r"

definition IsBlocked :: "instant \<Rightarrow> string \<Rightarrow> limiters \<Rightarrow> bool" where
  "IsBlocked now key r =
     (case map_of r key of
        None \<Rightarrow> False
      | Some st \<Rightarrow> if \<not> LS_blocked st then False
                   else (case LS_blockUntil st of Some u \<Rightarrow> \<not> u < now | None \<Rightarrow> True))"

definition Unblock :: "string \<Rightarrow> limiters \<Rightarrow> limiters" where
  "Unblock key r =
     (case map_of r key of
        None \<Rightarrow> r
      | Some st \<Rightarrow> AList.update key (st\<lparr>LS_blocked := False, LS_blockedAt := None, LS_blockUntil := None\<rparr>) r)"

definition blocked_keys :: "instant \<Rightarrow> limiters \<Rightarrow> string list" where
  "blocked_keys now r =
     map fst (filter (\<lambda>(k, st). LS_blocked st \<and> (case LS_blockUntil st of Some u \<Rightarrow> now < u | None \<Rightarrow> False)) r)"

definition Cleanup :: "instant \<Rightarrow> limiters \<Rightarrow> limiters" where
  "Cleanup now r =
     filter (\<lambda>(k, st).
       if LS_counts st = [] \<and> \<not> LS_blocked st then False
       else if LS_blocked st \<and> (case LS_blockUntil st of Some u \<Rightarrow> u < now | None \<Rightarrow> False)
         then list_ex (\<lambda>t. now - LS_window st < t) (LS_counts st)
       else True) r"

section \<open>Runs of a keyed limiter\<close>

fun run_calls :: "('c \<Rightarrow> 'r \<Rightarrow> bool \<times> 'r) \<Rightarrow> 'c list \<Rightarrow> 'r \<Rightarrow> ('c \<times> bool) list \<times> 'r" where
  "run_calls call [] r = ([], r)"
| "run_calls call (c # cs) r =
     (case call c r of (ok, r') \<Rightarrow> (case run_calls call cs r' of (log, r'') \<Rightarrow> ((c, ok) # log, r'')))"

definition admitted :: "('c \<Rightarrow> 'k) \<Rightarrow> ('c \<Rightarrow> instant) \<Rightarrow> 'k \<Rightarrow> ('c \<times> bool) list \<Rightarrow> instant list" where
  "admitted key_of time_of k log = map (\<lambda>(c, ok). time_of c) (filter (\<lambda>(c, ok). ok \<and> key_of c = k) log)"

text \<open>
  The contract of a limiter that keeps one state per key: a call touches only its own key, and
  an invariant that relates the state to the instants admitted so far survives the call and the
  passing of time.
\<close>

locale keyed_limiter =
  fixes get :: "'r \<Rightarrow> 'k \<Rightarrow> 's option"
    and call :: "'c \<Rightarrow> 'r \<Rightarrow> bool \<times> 'r"
    and key_of :: "'c \<Rightarrow> 'k"
    and time_of :: "'c \<Rightarrow> instant"
    and valid :: "'c \<Rightarrow> bool"
    and good :: "'s option \<Rightarrow> instant list \<Rightarrow> instant \<Rightarrow> bool"
  assumes other_keys: "k \<noteq> key_of c \<Longrightarrow> get (snd (call c r)) k = get r k"
    and own_key: "valid c \<Longrightarrow> good (get r (key_of c)) adm t0 \<Longrightarrow> t0 \<le> time_of c \<Longrightarrow>
      good (get (snd (call c r)) (key_of c)) (adm @ (if fst (call c r) then [time_of c] else [])) (time_of c)"
    and later: "good s adm t0 \<Longrightarrow> t0 \<le> t1 \<Longrightarrow> good s adm t1"
begin

lemma run_good:
  assumes "good (get r k) adm t0" and "sorted (t0 # map time_of cs)" and "run_calls call cs r = (log, r')"
    and "\<forall>t \<in> set (t0 # map time_of cs). t \<le> t1" and "\<forall>c \<in> set cs. valid c"
  shows "good (get r' k) (adm @ admitted key_of time_of k log) t1"
  using assms
proof (induction cs arbitrary: r adm t0 log)
  case Nil
  then show ?case using later by (auto simp: admitted_def)
next
  case (Cons c cs)
  obtain ok r1 where c: "call c r = (ok, r1)" by fastforce
  obtain log1 where l: "run_calls call cs r1 = (log1, r')" "log = (c, ok) # log1"
    using Cons.prems(3) c by (auto split: prod.splits)
  have t: "t0 \<le> time_of c" "sorted (time_of c # map time_of cs)" using Cons.prems(2) by auto
  show ?case
  proof (cases "key_of c = k")
    case True
    then have "good (get r1 k) (adm @ (if ok then [time_of c] else [])) (time_of c)"
      using own_key [of c r adm t0] Cons.prems(1,5) t(1) c by simp
    from Cons.IH [OF this t(2) l(1)] Cons.prems(4,5) show ?thesis
      using l(2) True by (auto simp: admitted_def split: if_splits)
  next
    case False
    then have "get r1 k = get r k" using other_keys [of k c r] c by simp
    then have "good (get r1 k) adm (time_of c)" using later [OF Cons.prems(1) t(1)] by simp
    from Cons.IH [OF this t(2) l(1)] Cons.prems(4,5) show ?thesis
      using l(2) False by (auto simp: admitted_def)
  qed
qed

end

section \<open>The sliding window\<close>

definition recent :: "instant \<Rightarrow> instant list \<Rightarrow> instant list" where
  "recent lo ts = filter (\<lambda>t. lo < t) ts"

lemma recent_recent: "lo \<le> lo' \<Longrightarrow> recent lo' (recent lo ts) = recent lo' ts"
  by (auto simp: recent_def intro!: filter_cong)

lemma length_recent: "length (recent lo ts) \<le> length ts"
  by (simp add: recent_def)

lemma recent_Nil: "recent lo [] = []"
  by (simp add: recent_def)

lemma recent_append: "recent lo (xs @ ys) = recent lo xs @ recent lo ys"
  by (simp add: recent_def)

lemma recent_none: "\<forall>t \<in> set ts. t \<le> lo \<Longrightarrow> recent lo ts = []"
  by (auto simp: recent_def filter_empty_conv)

text \<open>
  The invariant of one key, for calls at the instants \<open>T\<close>: nothing admitted lies in the future,
  the counts hold every admission the window can still see, a block ends a block duration after
  one of the calls and outlasts the window of everything admitted, and the window holds at most
  the limit.
\<close>

definition window_ok :: "RateLimitConfig \<Rightarrow> instant set \<Rightarrow> limiterState \<Rightarrow> instant list \<Rightarrow> instant \<Rightarrow> bool" where
  "window_ok cfg T st adm now \<longleftrightarrow>
     LS_window st = Cfg_DefaultWindow cfg
     \<and> (\<forall>t \<in> set adm. t \<le> now)
     \<and> (\<forall>lo \<ge> now - Cfg_DefaultWindow cfg. recent lo (LS_counts st) = recent lo adm)
     \<and> (LS_blocked st \<longrightarrow> (\<exists>t \<in> T. LS_blockUntil st = Some (t + Cfg_BlockDuration cfg)
          \<and> (\<forall>a \<in> set adm. a \<le> t + Cfg_BlockDuration cfg - Cfg_DefaultWindow cfg)))
     \<and> length (recent (now - Cfg_DefaultWindow cfg) adm) \<le> nat (LS_limit st)"

lemma window_ok_later:
  assumes "window_ok cfg T st adm t0" and "t0 \<le> t1"
  shows "window_ok cfg T st adm t1"
proof -
  let ?W = "Cfg_DefaultWindow cfg"
  have "recent (t1 - ?W) adm = recent (t1 - ?W) (recent (t0 - ?W) adm)" using assms(2) by (simp add: recent_recent)
  then have "length (recent (t1 - ?W) adm) \<le> length (recent (t0 - ?W) adm)" by (metis length_recent)
  then show ?thesis using assms by (fastforce simp: window_ok_def)
qed

text \<open>Counting on a key that is not blocked.\<close>

lemma count_state_ok:
  assumes "window_ok cfg T st adm now" and "\<not> LS_blocked st" and "now \<in> T"
    and "Cfg_DefaultWindow cfg \<le> Cfg_BlockDuration cfg" and "count_state cfg now key st = (res, st')"
  shows "window_ok cfg T st' (adm @ (if res = None then [now] else [])) now"
proof -
  let ?W = "Cfg_DefaultWindow cfg" and ?B = "Cfg_BlockDuration cfg"
  have adm: "\<forall>t \<in> set adm. t \<le> now" and W: "LS_window st = ?W"
    and counts: "\<And>lo. now - ?W \<le> lo \<Longrightarrow> recent lo (LS_counts st) = recent lo adm"
    using assms(1) by (auto simp: window_ok_def)
  have kept: "filter (\<lambda>t. now - ?W < t) (LS_counts st) = recent (now - ?W) adm"
    using counts [of "now - ?W"] by (simp add: recent_def)
  show ?thesis
  proof (cases "int (length (recent (now - ?W) adm)) \<ge> LS_limit st")
    case True
    then have res: "res \<noteq> None" and st': "st' = st\<lparr>LS_counts := recent (now - ?W) adm, LS_blocked := True,
        LS_blockedAt := Some now, LS_blockUntil := Some (now + ?B)\<rparr>"
      using assms(5) by (auto simp: count_state_def Let_def W kept)
    have "\<forall>a \<in> set adm. a \<le> now + ?B - ?W" using adm assms(4) by fastforce
    then show ?thesis
      using assms(1,3) res by (auto simp: st' window_ok_def recent_recent)
  next
    case False
    then have "res = None" and "st' = st\<lparr>LS_counts := recent (now - ?W) adm @ [now]\<rparr>"
      using assms(5) by (auto simp: count_state_def Let_def W kept)
    then show ?thesis
      using assms(1,2) False adm by (auto simp: window_ok_def recent_recent recent_append) (auto simp: recent_def)
  qed
qed

lemma check_state_ok:
  assumes "window_ok cfg T st adm t0" and "t0 \<le> now" and "now \<in> T" and "now - Cfg_BlockDuration cfg \<notin> T"
    and "Cfg_DefaultWindow cfg \<le> Cfg_BlockDuration cfg" and "check_state cfg now key st = (res, st')"
  shows "window_ok cfg T st' (adm @ (if res = None then [now] else [])) now"
proof -
  have ok: "window_ok cfg T st adm now" using window_ok_later assms(1,2) by blast
  show ?thesis
  proof (cases "LS_blocked st")
    case False
    then show ?thesis using count_state_ok [OF ok] assms(3,5,6) by (simp add: check_state_def)
  next
    case True
    then obtain t where t: "t \<in> T" "LS_blockUntil st = Some (t + Cfg_BlockDuration cfg)"
      and a: "\<forall>a \<in> set adm. a \<le> t + Cfg_BlockDuration cfg - Cfg_DefaultWindow cfg"
      using ok by (auto simp: window_ok_def)
    have ne: "now \<noteq> t + Cfg_BlockDuration cfg" using t(1) assms(4) by auto
    show ?thesis
    proof (cases "now < t + Cfg_BlockDuration cfg")
      case True
      then show ?thesis using ok t \<open>LS_blocked st\<close> assms(6) by (auto simp: check_state_def)
    next
      case False
      let ?st = "st\<lparr>LS_blocked := False, LS_blockUntil := None, LS_blockedAt := None, LS_counts := []\<rparr>"
      have old: "recent lo adm = []" if "now - Cfg_DefaultWindow cfg \<le> lo" for lo
        using a False that by (intro recent_none) force
      then have "window_ok cfg T ?st adm now"
        using ok by (auto simp: window_ok_def recent_def)
      moreover have "count_state cfg now key ?st = (res, st')"
        using False ne t(2) \<open>LS_blocked st\<close> assms(6) by (simp add: check_state_def)
      ultimately show ?thesis using count_state_ok [of cfg T ?st adm now key res st'] assms(3,5) by simp
    qed
  qed
qed

text \<open>The state a key has, present in the map or not, as the invariant sees it.\<close>

definition key_ok :: "RateLimitConfig \<Rightarrow> instant set \<Rightarrow> limiterState option \<Rightarrow> instant list \<Rightarrow> instant \<Rightarrow> bool" where
  "key_ok cfg T ost adm now \<longleftrightarrow> (case ost of Some st \<Rightarrow> window_ok cfg T st adm now | None \<Rightarrow> adm = [])"

lemma new_state_ok: "window_ok cfg T (new_state cfg limit) [] now"
  by (simp add: window_ok_def new_state_def recent_def)

definition call_key :: "RateLimitConfig \<Rightarrow> instant \<times> string \<times> AuditEntry \<Rightarrow> limiters \<Rightarrow> bool \<times> limiters" where
  "call_key cfg c r = (case checkKey cfg (fst c) (fst (snd c)) (snd (snd c)) r of (res, r') \<Rightarrow> (res = None, r'))"

definition call_times :: "RateLimitConfig \<Rightarrow> instant set \<Rightarrow> instant \<times> string \<times> AuditEntry \<Rightarrow> bool" where
  "call_times cfg T c \<longleftrightarrow> Cfg_DefaultWindow cfg \<le> Cfg_BlockDuration cfg \<and> fst c \<in> T \<and> fst c - Cfg_BlockDuration cfg \<notin> T"

lemma call_timesI:
  assumes "Cfg_DefaultWindow cfg \<le> Cfg_BlockDuration cfg" and "fst c \<in> T"
    and "\<And>u. u \<in> T \<Longrightarrow> fst c \<noteq> u + Cfg_BlockDuration cfg"
  shows "call_times cfg T c"
  using assms(1,2) assms(3) [of "fst c - Cfg_BlockDuration cfg"] by (auto simp: call_times_def)

lemma call_key_own:
  assumes "call_times cfg T c" and "key_ok cfg T (map_of r (fst (snd c))) adm t0" and "t0 \<le> fst c"
  shows "key_ok cfg T (map_of (snd (call_key cfg c r)) (fst (snd c)))
    (adm @ (if fst (call_key cfg c r) then [fst c] else [])) (fst c)"
proof -
  let ?st = "lookup_state cfg (determineLimit cfg (fst (snd c)) (snd (snd c))) r (fst (snd c))"
  obtain res st' where cs: "check_state cfg (fst c) (fst (snd c)) ?st = (res, st')" by fastforce
  have "window_ok cfg T ?st adm t0"
    using assms(2) by (auto simp: key_ok_def lookup_state_def new_state_ok split: option.splits)
  then have "window_ok cfg T st' (adm @ (if res = None then [fst c] else [])) (fst c)"
    using check_state_ok [OF _ assms(3) _ _ _ cs] assms(1) by (simp add: call_times_def)
  then show ?thesis
    using cs by (auto simp: call_key_def checkKey_def Let_def key_ok_def update_conv')
qed

lemma checkKey_own:
  assumes "call_times cfg T (now, key, e)" and "key_ok cfg T (map_of r key) adm t0" and "t0 \<le> now"
    and "checkKey cfg now key e r = (res, r')"
  shows "key_ok cfg T (map_of r' key) (adm @ (if res = None then [now] else [])) now"
  using call_key_own [of cfg T "(now, key, e)" r adm t0] assms by (cases res) (simp_all add: call_key_def)

interpretation audit_limiter: keyed_limiter
  map_of "call_key cfg" "\<lambda>c. fst (snd c)" fst "call_times cfg T" "key_ok cfg T" for cfg T
proof
  fix k and c :: "instant \<times> string \<times> AuditEntry" and r
  assume "k \<noteq> fst (snd c)"
  then show "map_of (snd (call_key cfg c r)) k = map_of r k"
    by (simp add: call_key_def checkKey_def Let_def update_conv' split: prod.splits)
next
  fix c :: "instant \<times> string \<times> AuditEntry" and r adm t0
  assume "call_times cfg T c" "key_ok cfg T (map_of r (fst (snd c))) adm t0" "t0 \<le> fst c"
  then show "key_ok cfg T (map_of (snd (call_key cfg c r)) (fst (snd c)))
      (adm @ (if fst (call_key cfg c r) then [fst c] else [])) (fst c)" by (rule call_key_own)
next
  fix s adm and t0 t1 :: instant
  assume "key_ok cfg T s adm t0" "t0 \<le> t1"
  then show "key_ok cfg T s adm t1" by (auto simp: key_ok_def window_ok_later split: option.splits)
qed

section \<open>The global key\<close>

lemma check_state_limit: "LS_limit (snd (check_state cfg now key st)) = LS_limit st"
  by (auto simp: check_state_def count_state_def Let_def split: option.splits)

lemma checkKey_other: "k \<noteq> key \<Longrightarrow> map_of (snd (checkKey cfg now key e r)) k = map_of r k"
  by (simp add: checkKey_def Let_def update_conv' split: prod.splits)

lemma checkKey_limit:
  "\<exists>st. map_of (snd (checkKey cfg now key e r)) key = Some st
     \<and> LS_limit st = LS_limit (lookup_state cfg (determineLimit cfg key e) r key)"
  using check_state_limit [of cfg now key "lookup_state cfg (determineLimit cfg key e) r key"]
  by (cases "check_state cfg now key (lookup_state cfg (determineLimit cfg key e) r key)")
     (simp add: checkKey_def Let_def update_conv')

lemma check_keys_other: "k \<notin> set keys \<Longrightarrow> map_of (snd (check_keys cfg clk e i keys r)) k = map_of r k"
proof (induction keys arbitrary: i r)
  case (Cons key keys)
  then show ?case
    using checkKey_other [of k key cfg "clk i" e r] by (auto split: prod.splits option.splits)
qed simp

definition counted :: "RateLimitConfig \<Rightarrow> AuditEntry \<Rightarrow> bool" where
  "counted cfg e \<longleftrightarrow> Cfg_Enabled cfg \<and> AE_RoleUsed e \<notin> set (Cfg_BypassRoles cfg)"

lemma Check_global:
  assumes "counted cfg e"
  shows "map_of (snd (RateLimiter_Check cfg clk e r)) ''global'' = map_of (snd (checkKey cfg (clk 0) ''global'' e r)) ''global''"
    and "fst (RateLimiter_Check cfg clk e r) = None \<Longrightarrow> fst (checkKey cfg (clk 0) ''global'' e r) = None"
proof -
  obtain rest where keys: "generateKeys e = ''global'' # rest" "''global'' \<notin> set rest"
    by (auto simp: generateKeys_def)
  obtain res r1 where c: "checkKey cfg (clk 0) ''global'' e r = (res, r1)" by fastforce
  have check: "RateLimiter_Check cfg clk e r = (case res of Some reason \<Rightarrow> (Some reason, r1) | None \<Rightarrow> check_keys cfg clk e (Suc 0) rest r1)"
    using assms by (simp add: RateLimiter_Check_def counted_def keys(1) c)
  then show "map_of (snd (RateLimiter_Check cfg clk e r)) ''global'' = map_of (snd (checkKey cfg (clk 0) ''global'' e r)) ''global''"
    using check_keys_other [OF keys(2), of cfg clk e "Suc 0" r1] c by (simp split: option.splits)
  show "fst (RateLimiter_Check cfg clk e r) = None \<Longrightarrow> fst (checkKey cfg (clk 0) ''global'' e r) = None"
    using check c by (auto split: option.splits)
qed

text \<open>One call of \<open>Check\<close>, seen from the global key.\<close>

definition call_check :: "RateLimitConfig \<Rightarrow> (nat \<Rightarrow> instant) \<times> AuditEntry \<Rightarrow> limiters \<Rightarrow> bool \<times> limiters" where
  "call_check cfg c r = (case RateLimiter_Check cfg (fst c) (snd c) r of (res, r') \<Rightarrow> (res = None, r'))"

definition global_ok :: "RateLimitConfig \<Rightarrow> instant set \<Rightarrow> int \<Rightarrow> limiterState option \<Rightarrow> instant list \<Rightarrow> instant \<Rightarrow> bool" where
  "global_ok cfg T L ost adm now \<longleftrightarrow>
     (\<exists>st full. ost = Some st \<and> LS_limit st = L \<and> window_ok cfg T st full now
        \<and> (\<forall>lo. length (recent lo adm) \<le> length (recent lo full)))"

lemma call_check_global:
  assumes "counted cfg (snd c)" and "call_times cfg T (fst c 0, ''global'', snd c)"
    and "global_ok cfg T L (map_of r ''global'') adm t0" and "t0 \<le> fst c 0"
  shows "global_ok cfg T L (map_of (snd (call_check cfg c r)) ''global'')
    (adm @ (if fst (call_check cfg c r) then [fst c 0] else [])) (fst c 0)"
proof -
  obtain st full where st: "map_of r ''global'' = Some st" "LS_limit st = L" "window_ok cfg T st full t0"
    and le: "\<forall>lo. length (recent lo adm) \<le> length (recent lo full)"
    using assms(3) by (auto simp: global_ok_def)
  obtain res r1 where ck: "checkKey cfg (fst c 0) ''global'' (snd c) r = (res, r1)" by fastforce
  obtain st1 where st1: "map_of r1 ''global'' = Some st1" "LS_limit st1 = L"
    using checkKey_limit [of cfg "fst c 0" "''global''" "snd c" r] st(1,2) ck by (auto simp: lookup_state_def)
  have "key_ok cfg T (map_of r1 ''global'') (full @ (if res = None then [fst c 0] else [])) (fst c 0)"
    by (rule checkKey_own [OF assms(2) _ assms(4) ck]) (simp add: key_ok_def st)
  then have "window_ok cfg T st1 (full @ (if res = None then [fst c 0] else [])) (fst c 0)"
    using st1(1) by (simp add: key_ok_def)
  moreover have "fst (call_check cfg c r) \<Longrightarrow> res = None"
    using Check_global(2) [OF assms(1), of "fst c" r] ck by (auto simp: call_check_def split: prod.splits)
  then have "\<forall>lo. length (recent lo (adm @ (if fst (call_check cfg c r) then [fst c 0] else [])))
      \<le> length (recent lo (full @ (if res = None then [fst c 0] else [])))"
    using le by (auto simp: recent_append recent_Nil intro: trans_le_add1 add_mono)
  moreover have "map_of (snd (call_check cfg c r)) ''global'' = Some st1"
    using Check_global(1) [OF assms(1), of "fst c" r] st1 ck
    by (cases "RateLimiter_Check cfg (fst c) (snd c) r") (simp add: call_check_def)
  ultimately show ?thesis using st1(2) by (auto simp: global_ok_def)
qed

interpretation global_limiter: keyed_limiter
  "\<lambda>r (k::unit). map_of r ''global''" "call_check cfg" "\<lambda>c. ()" "\<lambda>c. fst c 0"
  "\<lambda>c. counted cfg (snd c) \<and> call_times cfg T (fst c 0, ''global'', snd c)" "global_ok cfg T L" for cfg T L
proof
  fix c :: "(nat \<Rightarrow> instant) \<times> AuditEntry" and r adm t0
  assume "counted cfg (snd c) \<and> call_times cfg T (fst c 0, ''global'', snd c)"
    "global_ok cfg T L (map_of r ''global'') adm t0" "t0 \<le> fst c 0"
  then show "global_ok cfg T L (map_of (snd (call_check cfg c r)) ''global'')
      (adm @ (if fst (call_check cfg c r) then [fst c 0] else [])) (fst c 0)"
    using call_check_global by blast
next
  fix s adm and t0 t1 :: instant
  assume "global_ok cfg T L s adm t0" "t0 \<le> t1"
  then show "global_ok cfg T L s adm t1" using window_ok_later by (fastforce simp: global_ok_def)
qed simp

section \<open>Properties\<close>

text \<open>
  C17. The sliding window holds: when blocks last at least as long as the window, the checks come
  in the order of their times and no two of them are exactly the duration of a block apart, so that
  none falls on the very instant a block ends, then after any sequence of checks of any keys the
  number of admissions of a key in the last window is at most the limit of that key.
\<close>

theorem window_respected:
  assumes "Cfg_DefaultWindow cfg \<le> Cfg_BlockDuration cfg"
    and "sorted (map fst calls)" and "\<forall>c \<in> set calls. fst c \<le> now"
    and "\<forall>c \<in> set calls. \<forall>d \<in> set calls. fst d \<noteq> fst c + Cfg_BlockDuration cfg"
    and "run_calls (call_key cfg) calls [] = (log, r)"
  shows "length (recent (now - Cfg_DefaultWindow cfg) (admitted (\<lambda>c. fst (snd c)) fst key log))
    \<le> (case map_of r key of Some st \<Rightarrow> nat (LS_limit st) | None \<Rightarrow> 0)"
proof -
  let ?T = "fst ` set calls"
  have valid: "\<forall>c \<in> set calls. call_times cfg ?T c"
    using assms(1,4) by (auto intro!: call_timesI)
  define t0 where "t0 = Min (insert now ?T)"
  have low: "t0 \<le> now" "\<forall>t \<in> ?T. t0 \<le> t" by (simp_all add: t0_def)
  have "key_ok cfg ?T (map_of [] key) [] t0" by (simp add: key_ok_def)
  from audit_limiter.run_good [OF this _ assms(5) _ valid, of now] low assms(2,3)
  have "key_ok cfg ?T (map_of r key) (admitted (\<lambda>c. fst (snd c)) fst key log) now" by auto
  then show ?thesis by (auto simp: key_ok_def window_ok_def recent_def split: option.splits)
qed

definition sample_calls :: "(instant \<times> string \<times> AuditEntry) list" where
  "sample_calls = [(1, ''global'', sample_entry ''DDL''), (2, ''global'', sample_entry ''SELECT''), (5, ''other'', sample_entry ''SELECT'')]"

theorem window_respected_witness:
  "length (recent (6 - Cfg_DefaultWindow DefaultRateLimitConfig)
     (admitted (\<lambda>c. fst (snd c)) fst ''global'' (fst (run_calls (call_key DefaultRateLimitConfig) sample_calls [])))) \<le> 10"
proof -
  let ?run = "run_calls (call_key DefaultRateLimitConfig) sample_calls []"
  have lim: "map_option LS_limit (map_of (snd ?run) ''global'') = Some 10" by code_simp
  have "?run = (fst ?run, snd ?run)" by simp
  from window_respected [OF _ _ _ _ this, of 6 "''global''"] lim show ?thesis
    by (auto simp: DefaultRateLimitConfig_def sample_calls_def)
qed

text \<open>
  The limit of the global key is that of the first entry: \<open>determineLimit\<close> ignores the key
  and takes the limit of the action, so after a first check of an entry no window admits more
  checks, of whatever actions and actors, than that action's limit. With the default
  configuration and a schema change first, all later traffic is capped at ten operations a minute.
\<close>

theorem first_entry_caps_all_traffic:
  assumes "counted cfg e0" and "\<forall>c \<in> set calls. counted cfg (snd c)"
    and "Cfg_DefaultWindow cfg \<le> Cfg_BlockDuration cfg"
    and "sorted (map (\<lambda>c. fst c 0) ((clk0, e0) # calls))" and "\<forall>c \<in> set ((clk0, e0) # calls). fst c 0 \<le> now"
    and "\<forall>c \<in> set ((clk0, e0) # calls). \<forall>d \<in> set ((clk0, e0) # calls). fst d 0 \<noteq> fst c 0 + Cfg_BlockDuration cfg"
    and "run_calls (call_check cfg) calls (snd (RateLimiter_Check cfg clk0 e0 [])) = (log, r)"
  shows "int (length (filter (\<lambda>(c, ok). ok \<and> now - Cfg_DefaultWindow cfg < fst c 0) log))
    \<le> max 0 (determineLimit cfg ''global'' e0)"
proof -
  let ?T = "(\<lambda>c. fst c 0) ` set ((clk0, e0) # calls)"
  let ?r0 = "snd (RateLimiter_Check cfg clk0 e0 [])"
  have times: "call_times cfg ?T (fst c 0, k, e)" if "c \<in> set ((clk0, e0) # calls)" for c k e
  proof (rule call_timesI [OF assms(3)])
    show "fst (fst c 0, k, e) \<in> ?T" using that by (simp only: fst_conv) (rule imageI)
  next
    fix u assume "u \<in> ?T"
    then obtain d where "d \<in> set ((clk0, e0) # calls)" "u = fst d 0" by blast
    then show "fst (fst c 0, k, e) \<noteq> u + Cfg_BlockDuration cfg" using assms(6) that by (simp only: fst_conv) blast
  qed
  obtain res r1 where ck: "checkKey cfg (clk0 0) ''global'' e0 [] = (res, r1)" by fastforce
  obtain st where st: "map_of r1 ''global'' = Some st" "LS_limit st = determineLimit cfg ''global'' e0"
    using checkKey_limit [of cfg "clk0 0" "''global''" e0 "[]"] ck by (auto simp: lookup_state_def new_state_def)
  have "call_times cfg ?T (clk0 0, ''global'', e0)" using times [of "(clk0, e0)"] by simp
  from checkKey_own [OF this _ order_refl ck, of "[]"]
  have "window_ok cfg ?T st (if res = None then [clk0 0] else []) (clk0 0)"
    using st(1) by (simp add: key_ok_def)
  then have "global_ok cfg ?T (determineLimit cfg ''global'' e0) (map_of ?r0 ''global'') [] (clk0 0)"
    using Check_global(1) [OF assms(1), of clk0 "[]"] ck st by (force simp: global_ok_def recent_def)
  from global_limiter.run_good [OF this _ assms(7), of now] times assms(2,4,5)
  have "global_ok cfg ?T (determineLimit cfg ''global'' e0) (map_of r ''global'') (admitted (\<lambda>c. ()) (\<lambda>c. fst c 0) () log) now"
    by auto
  then have "length (recent (now - Cfg_DefaultWindow cfg) (admitted (\<lambda>c. ()) (\<lambda>c. fst c 0) () log))
      \<le> nat (determineLimit cfg ''global'' e0)"
    by (auto simp: global_ok_def window_ok_def intro: order_trans)
  moreover have "length (recent lo (admitted (\<lambda>c. ()) (\<lambda>c. fst c 0) () log))
      = length (filter (\<lambda>(c, ok). ok \<and> lo < fst c 0) log)" for lo
    by (simp add: recent_def admitted_def filter_map comp_def case_prod_unfold conj_commute)
  ultimately show ?thesis by simp
qed

theorem first_entry_caps_all_traffic_witness:
  "length (filter (\<lambda>(c, ok). ok \<and> 20 - Cfg_DefaultWindow DefaultRateLimitConfig < fst c 0)
     (fst (run_calls (call_check DefaultRateLimitConfig) (map (\<lambda>t. ((\<lambda>_. t), sample_entry ''SELECT'')) [2, 3, 4, 5, 6, 7, 8, 9, 10, 11, 12, 13])
       (snd (RateLimiter_Check DefaultRateLimitConfig (\<lambda>_. 1) (sample_entry ''DDL'') []))))) \<le> 10"
proof -
  let ?calls = "map (\<lambda>t. ((\<lambda>_::nat. t), sample_entry ''SELECT'')) [2, 3, 4, 5, 6, 7, 8, 9, 10, 11, 12, 13]"
  let ?run = "run_calls (call_check DefaultRateLimitConfig) ?calls
    (snd (RateLimiter_Check DefaultRateLimitConfig (\<lambda>_. 1) (sample_entry ''DDL'') []))"
  have run: "?run = (fst ?run, snd ?run)" by simp
  have "determineLimit DefaultRateLimitConfig ''global'' (sample_entry ''DDL'') = 10" by code_simp
  then show ?thesis
    using first_entry_caps_all_traffic [OF _ _ _ _ _ _ run, of 20]
    by (auto simp: DefaultRateLimitConfig_def counted_def sample_entry_def)
qed

end
