(* ===== verification/Break_Glass.thy ===== *)
theory Break_Glass
  imports Bib_Prelude
begin

text \<open>
  Emergency database access (\<open>internal/storage/breakglass/manager.go\<close>, \<open>types.go\<close>, and
  \<open>EnableSession\<close> of \<open>internal/grpc/services/breakglass/server.go\<close>): challenges, sessions, their
  end by hand or by the expiry monitor, reports and their acknowledgment. The database is
  modelled by the list of temporary users that exist in it; whether a statement succeeds, fresh
  UUIDs, random bytes, Ed25519 verification and the clock are arguments. The expiry monitor is
  a goroutine, so the manager with its monitors is a step relation over the atomic (locked)
  operations. Audit and notification callbacks are the list of events they receive.

  Shown: in every reachable state the session is active, expires within the configured maximum
  and owns its database user, challenges live at most five minutes and name configured users,
  and reports await acknowledgment only when it is required; a session is granted only for a
  valid signature over a stored nonce, which is used up; and a session that has expired but has
  not been ended yet can be replaced, which leaves its database user behind for good.
\<close>

section \<open>Definitions\<close>

abbreviation AccessReadOnly :: string where "AccessReadOnly \<equiv> ''readonly''"
abbreviation AccessReadWrite :: string where "AccessReadWrite \<equiv> ''readwrite''"

definition AccessLevel_IsValid :: "string \<Rightarrow> bool" where
  "AccessLevel_IsValid a \<longleftrightarrow> a \<in> set [AccessReadOnly, AccessReadWrite]"

abbreviation StateActive :: string where "StateActive \<equiv> ''active''"
abbreviation StateExpired :: string where "StateExpired \<equiv> ''expired''"
abbreviation StatePendingAck :: string where "StatePendingAck \<equiv> ''pending_acknowledgment''"

record BgUser =
  BU_Name :: string
  BU_PublicKey :: bytes
  BU_PublicKeyString :: string
  BU_AccessLevel :: string

record Session =
  S_ID :: string
  S_User :: BgUser
  S_Reason :: string
  S_AccessLevel :: string
  S_StartedAt :: instant
  S_ExpiresAt :: instant
  S_NodeID :: string
  S_RequestedBy :: string
  S_ConnectionString :: string
  S_DBUsername :: string
  S_State :: string
  S_RecordingPath :: string

record Challenge =
  C_ID :: string
  C_Nonce :: bytes
  C_CreatedAt :: instant
  C_ExpiresAt :: instant
  C_Username :: string

record SessionReport =
  SR_Session :: Session
  SR_EndedAt :: instant
  SR_Duration :: duration
  SR_QueryCount :: int
  SR_TablesAccessed :: "string list"
  SR_OperationCounts :: "(string \<times> int) list"
  SR_AcknowledgedAt :: "instant option"
  SR_AcknowledgedBy :: string
  SR_RecordingPath :: string

record BgConfig =
  BC_Enabled :: bool
  BC_MaxDuration :: duration
  BC_DefaultAccessLevel :: string
  BC_AllowedUsers :: "BgUser list"
  BC_RequireAcknowledgment :: bool
  BC_SessionRecording :: bool
  BC_RecordingPath :: string

text \<open>
  The manager: which callbacks are set, the state under its lock, and what the callbacks have
  done so far (users in the database, events sent).
\<close>

record Manager =
  M_config :: BgConfig
  M_nodeID :: string
  M_session :: "Session option"
  M_challenges :: "(string \<times> Challenge) list"
  M_pendingReports :: "SessionReport list"
  M_has_db :: bool
  M_has_audit :: bool
  M_has_notify :: bool
  M_dbusers :: "string list"
  M_events :: "(string \<times> Session) list"

datatype bg_error =
    NotEnabled | UserNotFound | NonceFailed | ChallengeNotFound | ChallengeExpired | BadSignature
  | AlreadyActive | DurationTooLong | CreateUserFailed | NoSession | ReportNotFound | BgPanic

definition NewManager :: "BgConfig \<Rightarrow> string \<Rightarrow> Manager" where
  "NewManager config nodeID = \<lparr>M_config = config, M_nodeID = nodeID, M_session = None, M_challenges = [],
     M_pendingReports = [], M_has_db = False, M_has_audit = False, M_has_notify = False, M_dbusers = [], M_events = []\<rparr>"

definition Session_IsActive :: "instant \<Rightarrow> Session \<Rightarrow> bool" where
  "Session_IsActive now s \<longleftrightarrow> S_State s = StateActive \<and> now < S_ExpiresAt s"

definition RemainingDuration :: "instant \<Rightarrow> Session \<Rightarrow> duration" where
  "RemainingDuration now s =
     (if S_State s \<noteq> StateActive then 0
      else let remaining = time_Sub (S_ExpiresAt s) now in if remaining < 0 then 0 else remaining)"

definition Challenge_IsExpired :: "instant \<Rightarrow> Challenge \<Rightarrow> bool" where
  "Challenge_IsExpired now c \<longleftrightarrow> C_ExpiresAt c < now"

definition HasActiveSession :: "instant \<Rightarrow> Manager \<Rightarrow> bool" where
  "HasActiveSession now m = (case M_session m of None \<Rightarrow> False | Some s \<Rightarrow> Session_IsActive now s)"

fun findUser_loop :: "string \<Rightarrow> BgUser list \<Rightarrow> BgUser option" where
  "findUser_loop username [] = None"
| "findUser_loop username (u # us) = (if BU_Name u = username then Some u else findUser_loop username us)"

definition findUser :: "Manager \<Rightarrow> string \<Rightarrow> BgUser option" where
  "findUser m username = findUser_loop username (BC_AllowedUsers (M_config m))"

text \<open>\<open>clk i\<close> is the clock when the cleanup looks at the challenge with id \<open>i\<close>.\<close>

definition cleanupChallenges :: "(string \<Rightarrow> instant) \<Rightarrow> Manager \<Rightarrow> Manager" where
  "cleanupChallenges clk m =
     m\<lparr>M_challenges := filter (\<lambda>(i, c). \<not> Challenge_IsExpired (clk i) c) (M_challenges m)\<rparr>"

definition CreateChallenge ::
    "bytes option \<Rightarrow> string \<Rightarrow> instant \<Rightarrow> instant \<Rightarrow> (string \<Rightarrow> instant) \<Rightarrow> string \<Rightarrow> Manager
       \<Rightarrow> (bg_error + Challenge) \<times> Manager" where
  "CreateChallenge nonce uuid now1 now2 clk username m =
     (if \<not> BC_Enabled (M_config m) then (Inl NotEnabled, m)
      else case findUser m username of
             None \<Rightarrow> (Inl UserNotFound, m)
           | Some user \<Rightarrow>
               (case nonce of
                  None \<Rightarrow> (Inl NonceFailed, m)
                | Some n \<Rightarrow>
                    let challenge = \<lparr>C_ID = uuid, C_Nonce = n, C_CreatedAt = now1,
                                     C_ExpiresAt = now2 + 5 * 60 * 1000000000, C_Username = username\<rparr>
                    in (Inr challenge,
                        cleanupChallenges clk (m\<lparr>M_challenges := AList.update uuid challenge (M_challenges m)\<rparr>))))"

text \<open>\<open>ed25519.Verify\<close> panics on a key of the wrong length; \<open>ed_verify\<close> is its answer otherwise.\<close>

definition VerifyChallenge ::
    "(bytes \<Rightarrow> bytes \<Rightarrow> bytes \<Rightarrow> bool) \<Rightarrow> instant \<Rightarrow> string \<Rightarrow> bytes \<Rightarrow> Manager \<Rightarrow> (bg_error + BgUser) \<times> Manager" where
  "VerifyChallenge ed_verify now challengeID signature m =
     (case map_of (M_challenges m) challengeID of
        None \<Rightarrow> (Inl ChallengeNotFound, m)
      | Some challenge \<Rightarrow>
          if Challenge_IsExpired now challenge
            then (Inl ChallengeExpired, m\<lparr>M_challenges := AList.delete challengeID (M_challenges m)\<rparr>)
          else case findUser m (C_Username challenge) of
                 None \<Rightarrow> (Inl UserNotFound, m)
               | Some user \<Rightarrow>
                   if length (BU_PublicKey user) \<noteq> 32 then (Inl BgPanic, m)
                   else if \<not> ed_verify (BU_PublicKey user) (C_Nonce challenge) signature then (Inl BadSignature, m)
                   else (Inr user, m\<lparr>M_challenges := AList.delete challengeID (M_challenges m)\<rparr>))"

definition emit :: "string \<Rightarrow> Session \<Rightarrow> Manager \<Rightarrow> Manager" where
  "emit ev s m =
     m\<lparr>M_events := M_events m @ (if M_has_audit m then [(''audit:'' @ ev, s)] else [])
        @ (if M_has_notify m then [(''notify:'' @ ev, s)] else [])\<rparr>"

text \<open>
  \<open>Enable\<close> with its three clock readings, the UUID, the connection string \<open>conn\<close> the database
  callback builds, and whether the database creates the user. A UUID has at least eight bytes;
  a shorter one would panic in the slice expression.
\<close>

definition Enable ::
    "instant \<Rightarrow> instant \<Rightarrow> instant \<Rightarrow> string \<Rightarrow> bool \<Rightarrow> string \<Rightarrow> BgUser \<Rightarrow> string \<Rightarrow> duration \<Rightarrow> string \<Rightarrow> Manager
       \<Rightarrow> (bg_error + Session) \<times> Manager" where
  "Enable now0 now1 now2 uuid create_ok conn user reason dur0 requestedBy m =
     (if \<not> BC_Enabled (M_config m) then (Inl NotEnabled, m)
      else if HasActiveSession now0 m then (Inl AlreadyActive, m)
      else if dur0 > BC_MaxDuration (M_config m) then (Inl DurationTooLong, m)
      else if length uuid < 8 then (Inl BgPanic, m)
      else
        let dur = (if dur0 \<le> 0 then BC_MaxDuration (M_config m) else dur0);
            accessLevel = (if AccessLevel_IsValid (BU_AccessLevel user) then BU_AccessLevel user
                           else BC_DefaultAccessLevel (M_config m));
            dbUsername = ''breakglass_'' @ filter (\<lambda>ch. ch \<noteq> CHR ''-'') (take 8 uuid);
            recording = (if BC_SessionRecording (M_config m)
                         then (if BC_RecordingPath (M_config m) = [] then ''.'' else BC_RecordingPath (M_config m))
                              @ ''/breakglass_'' @ take 8 uuid @ ''.rec''
                         else []);
            session = \<lparr>S_ID = uuid, S_User = user, S_Reason = reason, S_AccessLevel = accessLevel, S_StartedAt = now1,
                       S_ExpiresAt = now2 + dur, S_NodeID = M_nodeID m, S_RequestedBy = requestedBy,
                       S_ConnectionString = (if M_has_db m then conn else []), S_DBUsername = dbUsername,
                       S_State = StateActive, S_RecordingPath = recording\<rparr>
        in if M_has_db m \<and> \<not> create_ok then (Inl CreateUserFailed, m)
           else (Inr session,
                 emit ''session_started'' session
                   (m\<lparr>M_dbusers := (if M_has_db m then dbUsername # M_dbusers m else M_dbusers m),
                      M_session := Some session\<rparr>)))"

text \<open>
  \<open>endSession\<close>: \<open>stats\<close> is what the audit callback reports for the session, \<open>drop_ok\<close> whether the
  database dropped the user. The report and the event carry the session with its final state.
\<close>

definition endSession ::
    "instant \<Rightarrow> bool \<Rightarrow> (int \<times> string list \<times> (string \<times> int) list) option \<Rightarrow> string \<Rightarrow> bool \<Rightarrow> Manager
       \<Rightarrow> (bg_error + SessionReport) \<times> Manager" where
  "endSession now drop_ok stats endedBy expired m =
     (case M_session m of
        None \<Rightarrow> (Inl NoSession, m)
      | Some session0 \<Rightarrow>
          let session = session0\<lparr>S_State := (if BC_RequireAcknowledgment (M_config m) then StatePendingAck
                                             else if expired then StateExpired else StatePendingAck)\<rparr>;
              dbusers = (if M_has_db m \<and> S_DBUsername session \<noteq> [] \<and> drop_ok
                         then removeAll (S_DBUsername session) (M_dbusers m) else M_dbusers m);
              st = (if M_has_audit m then (case stats of Some x \<Rightarrow> x | None \<Rightarrow> (0, [], [])) else (0, [], []));
              report = \<lparr>SR_Session = session, SR_EndedAt = now, SR_Duration = time_Sub now (S_StartedAt session),
                        SR_QueryCount = fst st, SR_TablesAccessed = fst (snd st), SR_OperationCounts = snd (snd st),
                        SR_AcknowledgedAt = None, SR_AcknowledgedBy = [],
                        SR_RecordingPath = S_RecordingPath session\<rparr>
          in (Inr report,
              emit (if expired then ''session_expired'' else ''session_disabled'') session
                (m\<lparr>M_dbusers := dbusers, M_session := None,
                   M_pendingReports := M_pendingReports m @ (if BC_RequireAcknowledgment (M_config m) then [report] else [])\<rparr>)))"

definition Disable ::
    "instant \<Rightarrow> bool \<Rightarrow> (int \<times> string list \<times> (string \<times> int) list) option \<Rightarrow> string \<Rightarrow> Manager
       \<Rightarrow> (bg_error + SessionReport) \<times> Manager" where
  "Disable now drop_ok stats disabledBy m =
     (if M_session m = None then (Inl NoSession, m) else endSession now drop_ok stats disabledBy False m)"

fun find_report :: "string \<Rightarrow> SessionReport list \<Rightarrow> (SessionReport \<times> SessionReport list) option" where
  "find_report sessionID [] = None"
| "find_report sessionID (r # rs) =
     (if S_ID (SR_Session r) = sessionID then Some (r, rs)
      else map_option (\<lambda>(x, rest). (x, r # rest)) (find_report sessionID rs))"

definition Acknowledge :: "instant \<Rightarrow> string \<Rightarrow> string \<Rightarrow> Manager \<Rightarrow> (bg_error + SessionReport) \<times> Manager" where
  "Acknowledge now sessionID acknowledgedBy m =
     (case find_report sessionID (M_pendingReports m) of
        None \<Rightarrow> (Inl ReportNotFound, m)
      | Some (report, rest) \<Rightarrow>
          (Inr (report\<lparr>SR_AcknowledgedAt := Some now, SR_AcknowledgedBy := acknowledgedBy\<rparr>),
           emit ''session_acknowledged'' (SR_Session report) (m\<lparr>M_pendingReports := rest\<rparr>)))"

definition GetReport :: "string \<Rightarrow> Manager \<Rightarrow> bg_error + SessionReport" where
  "GetReport sessionID m =
     (case find_report sessionID (M_pendingReports m) of None \<Rightarrow> Inl ReportNotFound | Some (r, _) \<Rightarrow> Inr r)"

text \<open>The second half of \<open>monitorExpiry\<close>, after its timer fired.\<close>

definition expire ::
    "instant \<Rightarrow> bool \<Rightarrow> (int \<times> string list \<times> (string \<times> int) list) option \<Rightarrow> string \<Rightarrow> Manager \<Rightarrow> Manager" where
  "expire now drop_ok stats sessionID m =
     (case M_session m of
        None \<Rightarrow> m
      | Some s \<Rightarrow> if S_ID s = sessionID \<and> S_State s = StateActive
                  then snd (endSession now drop_ok stats ''system:expiry'' True m) else m)"

text \<open>\<open>EnableSession\<close> of the gRPC service: verification of the challenge, then \<open>Enable\<close>.\<close>

datatype enable_result = InvalidRequest | AuthFailed bg_error | NotGranted bg_error | Granted Session

definition EnableSession ::
    "(bytes \<Rightarrow> bytes \<Rightarrow> bytes \<Rightarrow> bool) \<Rightarrow> instant \<Rightarrow> instant \<Rightarrow> instant \<Rightarrow> instant \<Rightarrow> string \<Rightarrow> bool \<Rightarrow> string
       \<Rightarrow> string \<Rightarrow> bytes \<Rightarrow> string \<Rightarrow> duration option \<Rightarrow> string \<Rightarrow> Manager \<Rightarrow> enable_result \<times> Manager" where
  "EnableSession ed_verify nowv now0 now1 now2 uuid create_ok conn challengeID signature reason dur requestedBy m =
     (if challengeID = [] \<or> signature = [] \<or> reason = [] then (InvalidRequest, m)
      else case VerifyChallenge ed_verify nowv challengeID signature m of
             (Inl e, m1) \<Rightarrow> (AuthFailed e, m1)
           | (Inr user, m1) \<Rightarrow>
               (case Enable now0 now1 now2 uuid create_ok conn user reason (case dur of Some d \<Rightarrow> d | None \<Rightarrow> 0) requestedBy m1 of
                  (Inl e, m2) \<Rightarrow> (NotGranted e, m2)
                | (Inr session, m2) \<Rightarrow> (Granted session, m2)))"

section \<open>The manager and its monitors\<close>

text \<open>
  A monitor is first about to read the current session, then waiting for the expiry instant it
  read. Every step is one critical section of the manager; the clock never runs backwards. \<open>D\<close> is
  the set of outcomes the database may have when it is asked to drop a user.
\<close>

datatype monitor = Starting string | Waiting string instant

record bg =
  bg_now :: instant
  bg_mgr :: Manager
  bg_monitors :: "monitor list"

inductive bg_step :: "bool set \<Rightarrow> bg \<Rightarrow> bg \<Rightarrow> bool" for D where
  tick: "bg_now s \<le> t \<Longrightarrow> bg_step D s (s\<lparr>bg_now := t\<rparr>)"
| challenge: "bg_now s \<le> now1 \<Longrightarrow> now1 \<le> now2 \<Longrightarrow> now2 \<le> t \<Longrightarrow>
    CreateChallenge nonce uuid now1 now2 clk username (bg_mgr s) = (res, m) \<Longrightarrow>
    bg_step D s (s\<lparr>bg_now := t, bg_mgr := m\<rparr>)"
| verify: "bg_now s \<le> t \<Longrightarrow> VerifyChallenge ed_verify t cid sig (bg_mgr s) = (res, m) \<Longrightarrow>
    bg_step D s (s\<lparr>bg_now := t, bg_mgr := m\<rparr>)"
| enable: "bg_now s \<le> now0 \<Longrightarrow> now0 \<le> now1 \<Longrightarrow> now1 \<le> now2 \<Longrightarrow>
    Enable now0 now1 now2 uuid create_ok conn user reason dur by (bg_mgr s) = (Inr session, m) \<Longrightarrow>
    bg_step D s (s\<lparr>bg_now := now2, bg_mgr := m, bg_monitors := Starting uuid # bg_monitors s\<rparr>)"
| disable: "bg_now s \<le> t \<Longrightarrow> drop_ok \<in> D \<Longrightarrow> Disable t drop_ok stats who (bg_mgr s) = (res, m) \<Longrightarrow>
    bg_step D s (s\<lparr>bg_now := t, bg_mgr := m\<rparr>)"
| acknowledge: "bg_now s \<le> t \<Longrightarrow> Acknowledge t sid who (bg_mgr s) = (res, m) \<Longrightarrow>
    bg_step D s (s\<lparr>bg_now := t, bg_mgr := m\<rparr>)"
| monitor_reads: "Starting sid \<in> set (bg_monitors s) \<Longrightarrow> M_session (bg_mgr s) = Some ss \<Longrightarrow> S_ID ss = sid \<Longrightarrow>
    bg_step D s (s\<lparr>bg_monitors := Waiting sid (S_ExpiresAt ss) # remove1 (Starting sid) (bg_monitors s)\<rparr>)"
| monitor_quits: "Starting sid \<in> set (bg_monitors s) \<Longrightarrow>
    (case M_session (bg_mgr s) of None \<Rightarrow> True | Some ss \<Rightarrow> S_ID ss \<noteq> sid) \<Longrightarrow>
    bg_step D s (s\<lparr>bg_monitors := remove1 (Starting sid) (bg_monitors s)\<rparr>)"
| monitor_fires: "Waiting sid e \<in> set (bg_monitors s) \<Longrightarrow> e \<le> t \<Longrightarrow> bg_now s \<le> t \<Longrightarrow> drop_ok \<in> D \<Longrightarrow>
    bg_step D s (s\<lparr>bg_now := t, bg_mgr := expire t drop_ok stats sid (bg_mgr s),
                bg_monitors := remove1 (Waiting sid e) (bg_monitors s)\<rparr>)"

inductive_cases bg_stepE: "bg_step D s t"

definition bg_init :: "BgConfig \<Rightarrow> string \<Rightarrow> bool \<Rightarrow> bool \<Rightarrow> bool \<Rightarrow> instant \<Rightarrow> bg" where
  "bg_init config nodeID db audit notify now =
     \<lparr>bg_now = now, bg_mgr = (NewManager config nodeID)\<lparr>M_has_db := db, M_has_audit := audit, M_has_notify := notify\<rparr>, bg_monitors = []\<rparr>"

section \<open>What every operation keeps\<close>

definition session_ok :: "BgConfig \<Rightarrow> instant \<Rightarrow> Manager \<Rightarrow> bool" where
  "session_ok cfg now m \<longleftrightarrow> (\<forall>ss. M_session m = Some ss \<longrightarrow>
     S_State ss = StateActive \<and> S_StartedAt ss \<le> now \<and> S_ExpiresAt ss \<le> now + BC_MaxDuration cfg
     \<and> (AccessLevel_IsValid (BC_DefaultAccessLevel cfg) \<longrightarrow> AccessLevel_IsValid (S_AccessLevel ss))
     \<and> (M_has_db m \<longrightarrow> S_DBUsername ss \<in> set (M_dbusers m)))"

definition challenges_ok :: "BgConfig \<Rightarrow> instant \<Rightarrow> Manager \<Rightarrow> bool" where
  "challenges_ok cfg now m \<longleftrightarrow> (\<forall>(i, c) \<in> set (M_challenges m).
     C_ID c = i \<and> C_ExpiresAt c \<le> now + 5 * 60 * 1000000000 \<and> findUser_loop (C_Username c) (BC_AllowedUsers cfg) \<noteq> None)"

definition reports_ok :: "BgConfig \<Rightarrow> instant \<Rightarrow> Manager \<Rightarrow> bool" where
  "reports_ok cfg now m \<longleftrightarrow> (\<forall>r \<in> set (M_pendingReports m).
     BC_RequireAcknowledgment cfg \<and> S_State (SR_Session r) = StatePendingAck \<and> SR_EndedAt r \<le> now)"

definition manager_ok :: "BgConfig \<Rightarrow> instant \<Rightarrow> Manager \<Rightarrow> bool" where
  "manager_ok cfg now m \<longleftrightarrow> M_config m = cfg \<and> session_ok cfg now m \<and> challenges_ok cfg now m \<and> reports_ok cfg now m"

lemmas manager_ok_defs = manager_ok_def session_ok_def challenges_ok_def reports_ok_def

lemma emit_simps [simp]:
  "M_config (emit ev s m) = M_config m" "M_session (emit ev s m) = M_session m"
  "M_challenges (emit ev s m) = M_challenges m" "M_pendingReports (emit ev s m) = M_pendingReports m"
  "M_has_db (emit ev s m) = M_has_db m" "M_dbusers (emit ev s m) = M_dbusers m"
  by (simp_all add: emit_def)

lemma manager_ok_later: "manager_ok cfg now m \<Longrightarrow> now \<le> t \<Longrightarrow> manager_ok cfg t m"
  by (fastforce simp: manager_ok_defs)

lemma challenges_subset:
  "manager_ok cfg now m \<Longrightarrow> set cs \<subseteq> set (M_challenges m) \<Longrightarrow> manager_ok cfg now (m\<lparr>M_challenges := cs\<rparr>)"
  by (auto simp: manager_ok_defs)

lemma set_delete_subset: "set (AList.delete k xs) \<subseteq> set xs"
  by (auto simp: AList.delete_eq)

lemma set_update_subset: "set (AList.update k v xs) \<subseteq> insert (k, v) (set xs)"
  by (induction xs) auto

lemma ball_subset: "A \<subseteq> B \<Longrightarrow> \<forall>x \<in> B. P x \<Longrightarrow> \<forall>x \<in> A. P x"
  by blast

lemma challenges_update:
  assumes "manager_ok cfg now m" and "C_ID c = k" and "C_ExpiresAt c \<le> now + 5 * 60 * 1000000000"
    and "findUser_loop (C_Username c) (BC_AllowedUsers cfg) \<noteq> None"
  shows "manager_ok cfg now (m\<lparr>M_challenges := AList.update k c (M_challenges m)\<rparr>)"
proof -
  let ?P = "\<lambda>(i, c). C_ID c = i \<and> C_ExpiresAt c \<le> now + 5 * 60 * 1000000000
     \<and> findUser_loop (C_Username c) (BC_AllowedUsers cfg) \<noteq> None"
  have "\<forall>p \<in> insert (k, c) (set (M_challenges m)). ?P p"
    using assms by (simp add: manager_ok_def challenges_ok_def)
  then have "\<forall>p \<in> set (AList.update k c (M_challenges m)). ?P p"
    by (rule ball_subset [OF set_update_subset])
  then show ?thesis using assms(1) by (simp add: manager_ok_defs)
qed

lemma VerifyChallenge_ok:
  "manager_ok cfg now m \<Longrightarrow> manager_ok cfg now (snd (VerifyChallenge ed_verify t cid sig m))"
  by (auto simp: VerifyChallenge_def intro: challenges_subset [OF _ set_delete_subset] split: option.splits)

lemma CreateChallenge_ok:
  assumes "manager_ok cfg now m" and "now2 \<le> now"
  shows "manager_ok cfg now (snd (CreateChallenge nonce uuid now1 now2 clk username m))"
proof (cases "BC_Enabled (M_config m) \<and> findUser m username \<noteq> None \<and> nonce \<noteq> None")
  case True
  then obtain n where n: "nonce = Some n" by auto
  let ?c = "\<lparr>C_ID = uuid, C_Nonce = n, C_CreatedAt = now1, C_ExpiresAt = now2 + 5 * 60 * 1000000000, C_Username = username\<rparr>"
  let ?m = "m\<lparr>M_challenges := AList.update uuid ?c (M_challenges m)\<rparr>"
  have "manager_ok cfg now ?m"
    using assms True by (intro challenges_update) (auto simp: findUser_def manager_ok_def)
  then have "manager_ok cfg now (cleanupChallenges clk ?m)"
    unfolding cleanupChallenges_def by (rule challenges_subset) auto
  then show ?thesis using True n by (auto simp: CreateChallenge_def Let_def)
next
  case False
  then show ?thesis using assms(1) by (auto simp: CreateChallenge_def split: option.splits)
qed

lemma Enable_ok:
  assumes "manager_ok cfg now m" and "now1 \<le> now" and "now2 \<le> now"
  shows "manager_ok cfg now (snd (Enable now0 now1 now2 uuid create_ok conn user reason dur who m))"
  using assms by (auto simp: Enable_def Let_def manager_ok_defs)

lemma endSession_ok:
  assumes "manager_ok cfg now m" and "t \<le> now"
  shows "manager_ok cfg now (snd (endSession t drop_ok stats who expired m))"
  using assms by (auto simp: endSession_def Let_def manager_ok_defs split: option.splits)

lemma find_report_set: "find_report sid rs = Some (r, rest) \<Longrightarrow> r \<in> set rs \<and> set rest \<subseteq> set rs"
  by (induction rs arbitrary: rest) (auto split: if_splits)

lemma Acknowledge_ok:
  "manager_ok cfg now m \<Longrightarrow> manager_ok cfg now (snd (Acknowledge t sid who m))"
  by (auto simp: Acknowledge_def manager_ok_defs dest!: find_report_set split: option.splits)

definition bg_ok :: "BgConfig \<Rightarrow> bg \<Rightarrow> bool" where
  "bg_ok cfg s \<longleftrightarrow> manager_ok cfg (bg_now s) (bg_mgr s)"

lemma bg_okI:
  assumes "bg_ok cfg s" and "bg_now s \<le> t" and "manager_ok cfg t (bg_mgr s) \<Longrightarrow> manager_ok cfg t m"
  shows "bg_ok cfg (s\<lparr>bg_now := t, bg_mgr := m\<rparr>)" "bg_ok cfg (s\<lparr>bg_now := t, bg_mgr := m, bg_monitors := ms\<rparr>)"
  using assms manager_ok_later by (auto simp: bg_ok_def)

interpretation bg: preserved "bg_step D" "bg_ok cfg" for D cfg
proof
  fix s t assume "bg_step D s t" and ok: "bg_ok cfg s"
  then show "bg_ok cfg t"
  proof cases
    case (challenge now1 now2 t' nonce uuid clk username res m)
    then show ?thesis using ok bg_okI(1) [of cfg s t' m] CreateChallenge_ok
      by (metis order_trans snd_conv)
  next
    case (verify t' ed_verify cid sig res m)
    then show ?thesis using ok bg_okI(1) [of cfg s t' m] VerifyChallenge_ok by (metis snd_conv)
  next
    case (enable now0 now1 now2 uuid create_ok conn user reason dur who session m)
    then show ?thesis using ok bg_okI(2) [of cfg s now2 m] Enable_ok by (metis order_trans order_refl snd_conv)
  next
    case (disable t' drop_ok stats who res m)
    then show ?thesis using ok bg_okI(1) [of cfg s t' m] endSession_ok
      by (metis Disable_def order_refl snd_conv)
  next
    case (acknowledge t' sid who res m)
    then show ?thesis using ok bg_okI(1) [of cfg s t' m] Acknowledge_ok by (metis snd_conv)
  next
    case (monitor_fires sid e t' drop_ok stats)
    have "manager_ok cfg t' (bg_mgr s) \<Longrightarrow> manager_ok cfg t' (expire t' drop_ok stats sid (bg_mgr s))"
      by (auto simp: expire_def intro: endSession_ok split: option.splits)
    then show ?thesis using ok monitor_fires bg_okI(2) by blast
  qed (auto simp: bg_ok_def manager_ok_later)
qed

lemma bg_init_ok: "bg_ok cfg (bg_init cfg nodeID db audit notify now)"
  by (simp add: bg_ok_def bg_init_def NewManager_def manager_ok_defs)

lemma findUser_loop_Some: "findUser_loop name us = Some u \<Longrightarrow> u \<in> set us \<and> BU_Name u = name"
  by (induction us) (auto split: if_splits)

lemma findUser_loop_ex: "(\<exists>y. findUser_loop name us = Some y) \<longleftrightarrow> (\<exists>u \<in> set us. BU_Name u = name)"
  by (induction us) auto

section \<open>Properties\<close>

text \<open>
  C14. In every reachable state of the manager and its expiry monitors, whatever the database
  does: a session is active, runs out at most the configured maximum from now, has a valid
  access level if the default is one, and its database user exists; pending challenges expire
  within five minutes and belong to configured users; and reports are kept only when
  acknowledgment is required, in the state that awaits it.
\<close>

theorem break_glass_invariant:
  assumes "(bg_step D)\<^sup>*\<^sup>* (bg_init cfg nodeID db audit notify now) s"
  shows "(\<forall>ss. M_session (bg_mgr s) = Some ss \<longrightarrow>
       S_State ss = StateActive \<and> S_ExpiresAt ss \<le> bg_now s + BC_MaxDuration cfg
       \<and> (AccessLevel_IsValid (BC_DefaultAccessLevel cfg) \<longrightarrow> AccessLevel_IsValid (S_AccessLevel ss))
       \<and> (M_has_db (bg_mgr s) \<longrightarrow> S_DBUsername ss \<in> set (M_dbusers (bg_mgr s))))
    \<and> (\<forall>(i, c) \<in> set (M_challenges (bg_mgr s)). C_ID c = i \<and> C_ExpiresAt c \<le> bg_now s + 300000000000
         \<and> (\<exists>u \<in> set (BC_AllowedUsers cfg). BU_Name u = C_Username c))
    \<and> (\<forall>r \<in> set (M_pendingReports (bg_mgr s)). BC_RequireAcknowledgment cfg
         \<and> S_State (SR_Session r) = StatePendingAck \<and> SR_EndedAt r \<le> bg_now s)"
proof -
  have "bg_ok cfg s" using bg.reachable_inv [OF assms] bg_init_ok by blast
  then show ?thesis by (auto simp: bg_ok_def manager_ok_defs findUser_loop_ex)
qed

definition sample_user :: BgUser where
  "sample_user = \<lparr>BU_Name = ''ann'', BU_PublicKey = replicate 32 1, BU_PublicKeyString = ''key'', BU_AccessLevel = ''readwrite''\<rparr>"

definition sample_bg :: BgConfig where
  "sample_bg = \<lparr>BC_Enabled = True, BC_MaxDuration = 100, BC_DefaultAccessLevel = ''readonly'', BC_AllowedUsers = [sample_user],
     BC_RequireAcknowledgment = True, BC_SessionRecording = False, BC_RecordingPath = []\<rparr>"

definition enabled_at :: "instant \<Rightarrow> string \<Rightarrow> Manager \<Rightarrow> (bg_error + Session) \<times> Manager" where
  "enabled_at t uuid m = Enable t t t uuid True ''conn'' sample_user ''outage'' 50 ''root'' m"

lemma enable_step:
  assumes "bg_now s = t" and "fst (enabled_at t uuid (bg_mgr s)) = Inr ss"
  shows "bg_step D s (s\<lparr>bg_now := t, bg_mgr := snd (enabled_at t uuid (bg_mgr s)), bg_monitors := Starting uuid # bg_monitors s\<rparr>)"
  using bg_step.enable [of s t t t uuid True "''conn''" sample_user "''outage''" 50 "''root''" ss] assms
  by (metis enabled_at_def order_refl prod.collapse)

theorem break_glass_invariant_witness:
  "\<exists>ss. M_session (snd (enabled_at 0 ''aaaaaaaa'' (bg_mgr (bg_init sample_bg ''n'' True True True 0)))) = Some ss \<and>
     S_ExpiresAt ss \<le> 100 \<and> AccessLevel_IsValid (S_AccessLevel ss)"
proof -
  let ?s = "bg_init sample_bg ''n'' True True True 0"
  let ?t = "?s\<lparr>bg_now := 0, bg_mgr := snd (enabled_at 0 ''aaaaaaaa'' (bg_mgr ?s)), bg_monitors := Starting ''aaaaaaaa'' # bg_monitors ?s\<rparr>"
  obtain ss where ss: "fst (enabled_at 0 ''aaaaaaaa'' (bg_mgr ?s)) = Inr ss" "M_session (snd (enabled_at 0 ''aaaaaaaa'' (bg_mgr ?s))) = Some ss"
    by (simp add: enabled_at_def Enable_def bg_init_def NewManager_def sample_bg_def HasActiveSession_def Let_def)
  have "bg_step {True} ?s ?t" using ss(1) by (intro enable_step) (simp_all add: bg_init_def)
  then have "(bg_step {True})\<^sup>*\<^sup>* ?s ?t" by blast
  from break_glass_invariant [OF this] show ?thesis
    using ss(2) by (auto simp: sample_bg_def AccessLevel_IsValid_def bg_init_def)
qed

text \<open>
  C15. A session is granted only for a signature that verifies, under the key of the configured
  user the challenge was made for, over the stored and unexpired nonce; the granted session is
  that user's, was not granted over an active one, and lasts at most the configured maximum; and
  the challenge is used up, so no later signature for it is accepted.
\<close>

theorem grant_needs_signature:
  assumes "EnableSession ed_verify nowv now0 now1 now2 uuid create_ok conn cid sig reason dur who m = (Granted session, m')"
  shows "\<exists>c user. map_of (M_challenges m) cid = Some c \<and> nowv \<le> C_ExpiresAt c
      \<and> user \<in> set (BC_AllowedUsers (M_config m)) \<and> BU_Name user = C_Username c
      \<and> ed_verify (BU_PublicKey user) (C_Nonce c) sig \<and> S_User session = user
      \<and> \<not> HasActiveSession now0 m \<and> S_ExpiresAt session \<le> now2 + BC_MaxDuration (M_config m)
      \<and> (\<forall>ver later sig'. VerifyChallenge ver later cid sig' m' = (Inl ChallengeNotFound, m'))"
proof -
  obtain user m1 where v: "VerifyChallenge ed_verify nowv cid sig m = (Inr user, m1)"
    and e: "Enable now0 now1 now2 uuid create_ok conn user reason (case dur of Some d \<Rightarrow> d | None \<Rightarrow> 0) who m1 = (Inr session, m')"
    using assms(1) by (auto simp: EnableSession_def split: if_splits prod.splits sum.splits)
  obtain c where c: "map_of (M_challenges m) cid = Some c" "nowv \<le> C_ExpiresAt c"
      "findUser m (C_Username c) = Some user" "ed_verify (BU_PublicKey user) (C_Nonce c) sig"
    and m1: "m1 = m\<lparr>M_challenges := AList.delete cid (M_challenges m)\<rparr>"
    using v by (auto simp: VerifyChallenge_def Challenge_IsExpired_def split: option.splits if_splits)
  have s: "S_User session = user" "\<not> HasActiveSession now0 m1"
      "S_ExpiresAt session \<le> now2 + BC_MaxDuration (M_config m1)" "M_challenges m' = M_challenges m1"
    using e by (auto simp: Enable_def Let_def split: if_splits)
  have "map_of (M_challenges m') cid = None" by (simp add: s(4) m1 delete_conv')
  then have "VerifyChallenge ver later cid sig' m' = (Inl ChallengeNotFound, m')" for ver later sig'
    by (simp add: VerifyChallenge_def)
  then show ?thesis
    using c s m1 findUser_loop_Some [of "C_Username c" "BC_AllowedUsers (M_config m)" user]
    by (auto simp: findUser_def HasActiveSession_def)
qed

theorem grant_needs_signature_witness:
  "case EnableSession (\<lambda>k n g. g = n) 1 2 2 2 ''aaaaaaaa'' True ''conn'' ''ch'' [7] ''outage'' None ''root''
     ((NewManager sample_bg ''n'')\<lparr>M_challenges := [(''ch'', \<lparr>C_ID = ''ch'', C_Nonce = [7], C_CreatedAt = 0, C_ExpiresAt = 9, C_Username = ''ann''\<rparr>)]\<rparr>)
   of (Granted session, m') \<Rightarrow> S_User session = sample_user
        \<and> VerifyChallenge (\<lambda>k n g. True) 3 ''ch'' [7] m' = (Inl ChallengeNotFound, m')
    | _ \<Rightarrow> False"
proof -
  let ?m = "(NewManager sample_bg ''n'')\<lparr>M_challenges := [(''ch'', \<lparr>C_ID = ''ch'', C_Nonce = [7], C_CreatedAt = 0, C_ExpiresAt = 9, C_Username = ''ann''\<rparr>)]\<rparr>"
  obtain session m' where g: "EnableSession (\<lambda>k n g. g = n) 1 2 2 2 ''aaaaaaaa'' True ''conn'' ''ch'' [7] ''outage'' None ''root'' ?m
      = (Granted session, m')"
    by (simp add: EnableSession_def VerifyChallenge_def Enable_def NewManager_def sample_bg_def sample_user_def findUser_def
        Challenge_IsExpired_def HasActiveSession_def Let_def)
  have "BC_AllowedUsers (M_config ?m) = [sample_user]" by (simp add: NewManager_def sample_bg_def)
  with grant_needs_signature [OF g] have "S_User session = sample_user
      \<and> VerifyChallenge (\<lambda>k n g. True) 3 ''ch'' [7] m' = (Inl ChallengeNotFound, m')" by auto
  then show ?thesis by (simp only: g prod.case enable_result.case)
qed

text \<open>
  A database user can be left behind although every drop succeeds: between the expiry
  instant and the moment the monitor takes the lock, the expired session no longer counts as
  active, so a second session can replace it; the first session's monitor then finds a foreign
  session and does nothing. A state is reachable with no session and no monitor left in which
  the first session's user still exists.
\<close>

theorem expired_session_orphaned:
  "\<exists>s. (bg_step {True})\<^sup>*\<^sup>* (bg_init sample_bg ''n'' True True True 0) s
     \<and> M_session (bg_mgr s) = None \<and> bg_monitors s = [] \<and> M_dbusers (bg_mgr s) = [''breakglass_aaaaaaaa'']
     \<and> ''breakglass_aaaaaaaa'' \<notin> set (map (\<lambda>r. S_DBUsername (SR_Session r)) (M_pendingReports (bg_mgr s)))"
proof -
  let ?s0 = "bg_init sample_bg ''n'' True True True 0"
  define m1 where "m1 = snd (enabled_at 0 ''aaaaaaaa'' (bg_mgr ?s0))"
  define m2 where "m2 = snd (enabled_at 50 ''bbbbbbbb'' m1)"
  define m3 where "m3 = snd (Disable 50 True None ''root'' m2)"
  note defs = m1_def m2_def m3_def enabled_at_def Enable_def Disable_def endSession_def bg_init_def NewManager_def sample_bg_def
    HasActiveSession_def Session_IsActive_def Let_def emit_def
  obtain a where a: "fst (enabled_at 0 ''aaaaaaaa'' (bg_mgr ?s0)) = Inr a" "M_session m1 = Some a" "S_ID a = ''aaaaaaaa'' \<and> S_ExpiresAt a = 50"
    by (simp add: defs)
  obtain b where b: "fst (enabled_at 50 ''bbbbbbbb'' m1) = Inr b" "M_session m2 = Some b" "S_ID b = ''bbbbbbbb''"
    by (simp add: defs)
  let ?st = "\<lambda>t m ms. \<lparr>bg_now = t, bg_mgr = m, bg_monitors = ms\<rparr>"
  have "bg_step {True} ?s0 (?st 0 m1 [Starting ''aaaaaaaa''])"
    using enable_step [OF _ a(1), where D = "{True}"] by (simp add: bg_init_def m1_def)
  moreover have "bg_step {True} (?st 0 m1 [Starting ''aaaaaaaa'']) (?st 0 m1 [Waiting ''aaaaaaaa'' 50])"
    using bg_step.monitor_reads [of "''aaaaaaaa''" "?st 0 m1 [Starting ''aaaaaaaa'']" a "{True}"] a by simp
  moreover have "bg_step {True} (?st 0 m1 [Waiting ''aaaaaaaa'' 50]) (?st 50 m1 [Waiting ''aaaaaaaa'' 50])"
    using bg_step.tick [of "?st 0 m1 [Waiting ''aaaaaaaa'' 50]" 50 "{True}"] by simp
  moreover have "bg_step {True} (?st 50 m1 [Waiting ''aaaaaaaa'' 50]) (?st 50 m2 [Starting ''bbbbbbbb'', Waiting ''aaaaaaaa'' 50])"
    using enable_step [of "?st 50 m1 [Waiting ''aaaaaaaa'' 50]" 50 "''bbbbbbbb''" b "{True}"] b by (simp add: m2_def)
  moreover have "bg_step {True} (?st 50 m2 [Starting ''bbbbbbbb'', Waiting ''aaaaaaaa'' 50]) (?st 50 m2 [Starting ''bbbbbbbb''])"
    using bg_step.monitor_fires [of "''aaaaaaaa''" 50 "?st 50 m2 [Starting ''bbbbbbbb'', Waiting ''aaaaaaaa'' 50]" 50 True "{True}" None] b
    by (simp add: expire_def)
  moreover have "bg_step {True} (?st 50 m2 [Starting ''bbbbbbbb'']) (?st 50 m3 [Starting ''bbbbbbbb''])"
    using bg_step.disable [of "?st 50 m2 [Starting ''bbbbbbbb'']" 50 True "{True}" None "''root''" "fst (Disable 50 True None ''root'' m2)" m3]
    by (simp add: m3_def)
  moreover have "M_session m3 = None" by (simp add: defs)
  then have "bg_step {True} (?st 50 m3 [Starting ''bbbbbbbb'']) (?st 50 m3 [])"
    using bg_step.monitor_quits [of "''bbbbbbbb''" "?st 50 m3 [Starting ''bbbbbbbb'']" "{True}"] by simp
  ultimately have "(bg_step {True})\<^sup>*\<^sup>* ?s0 (?st 50 m3 [])" by (meson converse_rtranclp_into_rtranclp rtranclp.rtrancl_refl)
  moreover have "M_session m3 = None" "M_dbusers m3 = [''breakglass_aaaaaaaa'']"
    "''breakglass_aaaaaaaa'' \<notin> set (map (\<lambda>r. S_DBUsername (SR_Session r)) (M_pendingReports m3))"
    by (simp_all add: defs)
  ultimately show ?thesis by (intro exI [of _ "?st 50 m3 []"]) simp
qed

end
