(* ===== verification/Cluster_Store.thy ===== *)
theory Cluster_Store
  imports Bib_Prelude
begin

text \<open>
  The replicated state of a cluster node (\<open>internal/cluster/storage.go\<close>, \<open>fsm.go\<close>): the
  SQLite tables for the Raft log, hard state, snapshots, members, join tokens, catalog, jobs and
  configuration, and the state machine that keeps caches of the last three in memory. A table is
  an association list under its primary key, in insertion order. Whether a statement or a file
  operation succeeds is an argument, and so are the clock, the decoding of a command and of a
  snapshot (\<open>None\<close> when the JSON is malformed) and the driver's comparison of time stamps.

  Shown: every table is a keyed store; whatever the state machine caches is stored, up to the two
  job columns an update never writes; a join token is accepted at most once and never after it
  expired; and what restoring the snapshot of a state machine does to the caches and to every row:
  it gives the caches back, but leaves stale rows and columns and carries no join tokens.
\<close>

section \<open>Definitions\<close>

type_synonym uint64 = "64 word"

record LogEntry =
  LE_Index :: uint64
  LE_Term :: uint64
  LE_Type :: byte
  LE_Data :: bytes

record SnapshotMeta =
  SM_ID :: string
  SM_Index :: uint64
  SM_Term :: uint64
  SM_Configuration :: bytes
  SM_Size :: int
  SM_CreatedAt :: instant

record HardState =
  HS_Term :: uint64
  HS_Vote :: string
  HS_Commit :: uint64

record ClusterMember =
  CM_NodeID :: string
  CM_Address :: string
  CM_Role :: string
  CM_State :: string
  CM_LastContact :: instant
  CM_IsHealthy :: bool
  CM_RaftIndex :: uint64
  CM_PeerID :: string

record JoinToken =
  JT_ClusterName :: string
  JT_LeaderAddr :: string
  JT_Token :: string
  JT_ExpiresAt :: instant

record ReplicatedCatalogEntry =
  RE_TopicID :: string
  RE_DatasetID :: string
  RE_Hash :: string
  RE_Size :: int
  RE_ChunkCount :: int
  RE_OwnerPeerID :: string
  RE_UpdatedAt :: instant

record ReplicatedJob =
  RJ_JobID :: string
  RJ_JobType :: string
  RJ_AssignedNode :: string
  RJ_Status :: string
  RJ_Priority :: int
  RJ_CELExpression :: string
  RJ_Metadata :: bytes

record Storage =
  St_log :: "(uint64 \<times> LogEntry) list"
  St_state :: HardState
  St_snapshots :: "(string \<times> SnapshotMeta) list"
  St_files :: "(string \<times> bytes) list"
  St_members :: "(string \<times> ClusterMember) list"
  St_tokens :: "(string \<times> JoinToken \<times> bool) list"
  St_catalog :: "((string \<times> string) \<times> ReplicatedCatalogEntry) list"
  St_jobs :: "(string \<times> ReplicatedJob) list"
  St_config :: "(string \<times> bytes \<times> int) list"
  St_retain :: int

datatype storage_error = DbError | FileError | InvalidToken | TokenUsed | TokenExpired | DecodeError | UnknownCommand

definition empty_storage :: "int \<Rightarrow> Storage" where
  "empty_storage retain = \<lparr>St_log = [], St_state = \<lparr>HS_Term = 0, HS_Vote = [], HS_Commit = 0\<rparr>, St_snapshots = [],
     St_files = [], St_members = [], St_tokens = [], St_catalog = [], St_jobs = [], St_config = [], St_retain = retain\<rparr>"

text \<open>The driver rejects unsigned values with the high bit set.\<close>

definition driver_accepts :: "uint64 \<Rightarrow> bool" where
  "driver_accepts i \<longleftrightarrow> \<not> bit i 63"

subsection \<open>Log\<close>

definition FirstIndex :: "Storage \<Rightarrow> uint64" where
  "FirstIndex s = (if St_log s = [] then 0 else foldr min (map fst (tl (St_log s))) (fst (hd (St_log s))))"

definition LastIndex :: "Storage \<Rightarrow> uint64" where
  "LastIndex s = (if St_log s = [] then 0 else foldr max (map fst (tl (St_log s))) (fst (hd (St_log s))))"

definition GetLog :: "uint64 \<Rightarrow> Storage \<Rightarrow> LogEntry option" where
  "GetLog index s = map_of (St_log s) index"

definition log_entry_ok :: "LogEntry \<Rightarrow> bool" where
  "log_entry_ok e \<longleftrightarrow> driver_accepts (LE_Index e) \<and> driver_accepts (LE_Term e)"

definition StoreLog :: "bool \<Rightarrow> LogEntry \<Rightarrow> Storage \<Rightarrow> storage_error option \<times> Storage" where
  "StoreLog ok e s =
     (if \<not> ok \<or> \<not> log_entry_ok e then (Some DbError, s)
      else (None, s\<lparr>St_log := AList.update (LE_Index e) e (St_log s)\<rparr>))"

text \<open>\<open>StoreLogs\<close> writes in one transaction, which rolls back when an insert or the commit fails.\<close>

definition StoreLogs :: "bool \<Rightarrow> LogEntry list \<Rightarrow> Storage \<Rightarrow> storage_error option \<times> Storage" where
  "StoreLogs ok es s =
     (if \<not> ok \<or> \<not> list_all log_entry_ok es then (Some DbError, s)
      else (None, s\<lparr>St_log := fold (\<lambda>e. AList.update (LE_Index e) e) es (St_log s)\<rparr>))"

definition DeleteRange :: "bool \<Rightarrow> uint64 \<Rightarrow> uint64 \<Rightarrow> Storage \<Rightarrow> storage_error option \<times> Storage" where
  "DeleteRange ok lo hi s =
     (if \<not> ok \<or> \<not> driver_accepts lo \<or> \<not> driver_accepts hi then (Some DbError, s)
      else (None, s\<lparr>St_log := filter (\<lambda>(i, e). \<not> (lo \<le> i \<and> i \<le> hi)) (St_log s)\<rparr>))"

subsection \<open>Hard state and snapshots\<close>

definition SetHardState :: "bool \<Rightarrow> HardState \<Rightarrow> Storage \<Rightarrow> storage_error option \<times> Storage" where
  "SetHardState ok h s =
     (if \<not> ok \<or> \<not> driver_accepts (HS_Term h) \<or> \<not> driver_accepts (HS_Commit h) then (Some DbError, s)
      else (None, s\<lparr>St_state := h\<rparr>))"

text \<open>
  \<open>CreateSnapshot\<close>: when the insert fails, the file is removed and the result of the removal is
  returned in place of the error (the inner \<open>err\<close> shadows the outer one), so a failed insert
  with a successful removal returns no snapshot and no error.
\<close>

definition CreateSnapshot ::
    "bool \<Rightarrow> bool \<Rightarrow> bool \<Rightarrow> instant \<Rightarrow> instant \<Rightarrow> uint64 \<Rightarrow> uint64 \<Rightarrow> bytes \<Rightarrow> bytes \<Rightarrow> Storage
       \<Rightarrow> storage_error option \<times> SnapshotMeta option \<times> Storage" where
  "CreateSnapshot write_ok insert_ok remove_ok now1 now2 index trm configuration data s =
     (let i = show_nat (unat trm) @ ''-'' @ show_nat (unat index) @ ''-'' @ show_int now1
      in if \<not> write_ok then (Some FileError, None, s)
         else let s1 = s\<lparr>St_files := AList.update i data (St_files s)\<rparr>
              in if \<not> insert_ok \<or> \<not> driver_accepts index \<or> \<not> driver_accepts trm \<or> map_of (St_snapshots s) i \<noteq> None
                 then (if remove_ok then (None, None, s1\<lparr>St_files := AList.delete i (St_files s1)\<rparr>)
                       else (Some FileError, None, s1))
                 else let meta = \<lparr>SM_ID = i, SM_Index = index, SM_Term = trm, SM_Configuration = configuration,
                                  SM_Size = int (length data), SM_CreatedAt = now2\<rparr>
                      in (None, Some meta, s1\<lparr>St_snapshots := St_snapshots s1 @ [(i, meta)]\<rparr>))"

definition ListSnapshots :: "Storage \<Rightarrow> SnapshotMeta list" where
  "ListSnapshots s = rev (sort_key SM_Index (map snd (St_snapshots s)))"

definition GetLatestSnapshot :: "Storage \<Rightarrow> SnapshotMeta option" where
  "GetLatestSnapshot s = (case ListSnapshots s of [] \<Rightarrow> None | m # _ \<Rightarrow> Some m)"

definition ReadSnapshot :: "string \<Rightarrow> Storage \<Rightarrow> bytes option" where
  "ReadSnapshot i s = map_of (St_files s) i"

text \<open>
  The cleanup deletes beyond the retention count, stops at the first file it cannot remove, and
  drops the error of deleting a row: \<open>rm_ok\<close> and \<open>row_ok\<close> say which of these succeed.
\<close>

fun cleanup_loop :: "(string \<Rightarrow> bool) \<Rightarrow> (string \<Rightarrow> bool) \<Rightarrow> string list \<Rightarrow> Storage \<Rightarrow> Storage" where
  "cleanup_loop rm_ok row_ok [] s = s"
| "cleanup_loop rm_ok row_ok (i # is) s =
     (if \<not> rm_ok i \<or> map_of (St_files s) i = None then s
      else cleanup_loop rm_ok row_ok is
             (s\<lparr>St_files := AList.delete i (St_files s),
                St_snapshots := (if row_ok i then AList.delete i (St_snapshots s) else St_snapshots s)\<rparr>))"

definition cleanupSnapshots :: "bool \<Rightarrow> (string \<Rightarrow> bool) \<Rightarrow> (string \<Rightarrow> bool) \<Rightarrow> Storage \<Rightarrow> Storage" where
  "cleanupSnapshots rd rm_ok row_ok s =
     (let retainCount = (if St_retain s \<le> 0 then 3 else St_retain s)
      in if \<not> rd then s
         else cleanup_loop rm_ok row_ok (map SM_ID (drop (nat retainCount) (ListSnapshots s))) s)"

subsection \<open>Members and join tokens\<close>

text \<open>The stored columns of a member are its id, address, role and peer id.\<close>

definition stored_member :: "ClusterMember \<Rightarrow> ClusterMember" where
  "stored_member m = \<lparr>CM_NodeID = CM_NodeID m, CM_Address = CM_Address m, CM_Role = CM_Role m, CM_State = [],
     CM_LastContact = 0, CM_IsHealthy = False, CM_RaftIndex = 0, CM_PeerID = CM_PeerID m\<rparr>"

definition AddMember :: "bool \<Rightarrow> ClusterMember \<Rightarrow> Storage \<Rightarrow> storage_error option \<times> Storage" where
  "AddMember ok m s =
     (if \<not> ok then (Some DbError, s)
      else (None, s\<lparr>St_members := AList.update (CM_NodeID m) (stored_member m) (St_members s)\<rparr>))"

definition RemoveMember :: "bool \<Rightarrow> string \<Rightarrow> Storage \<Rightarrow> storage_error option \<times> Storage" where
  "RemoveMember ok nodeID s =
     (if \<not> ok then (Some DbError, s) else (None, s\<lparr>St_members := AList.delete nodeID (St_members s)\<rparr>))"

definition GetMembers :: "Storage \<Rightarrow> ClusterMember list" where
  "GetMembers s = map snd (St_members s)"

definition Storage_StoreJoinToken :: "bool \<Rightarrow> JoinToken \<Rightarrow> Storage \<Rightarrow> storage_error option \<times> Storage" where
  "Storage_StoreJoinToken ok t s =
     (if \<not> ok \<or> map_of (St_tokens s) (JT_Token t) \<noteq> None then (Some DbError, s)
      else (None, s\<lparr>St_tokens := St_tokens s @ [(JT_Token t, t, False)]\<rparr>))"

text \<open>\<open>rd\<close> says whether the query succeeds, \<open>ok\<close> whether the update does.\<close>

definition ValidateJoinToken :: "bool \<Rightarrow> bool \<Rightarrow> instant \<Rightarrow> string \<Rightarrow> Storage \<Rightarrow> (storage_error + JoinToken) \<times> Storage" where
  "ValidateJoinToken rd ok now token s =
     (if \<not> rd then (Inl DbError, s)
      else case map_of (St_tokens s) token of
        None \<Rightarrow> (Inl InvalidToken, s)
      | Some (jt, used) \<Rightarrow>
          if used then (Inl TokenUsed, s)
          else if JT_ExpiresAt jt < now then (Inl TokenExpired, s)
          else if \<not> ok then (Inl DbError, s)
          else (Inr jt, s\<lparr>St_tokens := AList.update token (jt, True) (St_tokens s)\<rparr>))"

definition CleanupExpiredTokens :: "(instant \<Rightarrow> instant \<Rightarrow> bool) \<Rightarrow> bool \<Rightarrow> instant \<Rightarrow> Storage \<Rightarrow> storage_error option \<times> Storage" where
  "CleanupExpiredTokens earlier ok now s =
     (if \<not> ok then (Some DbError, s)
      else (None, s\<lparr>St_tokens := filter (\<lambda>(k, jt, used). \<not> earlier (JT_ExpiresAt jt) now) (St_tokens s)\<rparr>))"

subsection \<open>Replicated catalog, jobs and configuration\<close>

definition StoreCatalogEntry :: "bool \<Rightarrow> ReplicatedCatalogEntry \<Rightarrow> Storage \<Rightarrow> storage_error option \<times> Storage" where
  "StoreCatalogEntry ok e s =
     (if \<not> ok then (Some DbError, s)
      else (None, s\<lparr>St_catalog := AList.update (RE_TopicID e, RE_DatasetID e) e (St_catalog s)\<rparr>))"

definition GetCatalogEntries :: "Storage \<Rightarrow> ReplicatedCatalogEntry list" where
  "GetCatalogEntries s = map snd (St_catalog s)"

text \<open>On a conflict the update leaves the columns \<open>job_type\<close> and \<open>cel_expression\<close> alone.\<close>

definition merge_job :: "ReplicatedJob option \<Rightarrow> ReplicatedJob \<Rightarrow> ReplicatedJob" where
  "merge_job old j =
     (case old of
        None \<Rightarrow> j
      | Some o' \<Rightarrow> o'\<lparr>RJ_AssignedNode := RJ_AssignedNode j, RJ_Status := RJ_Status j, RJ_Priority := RJ_Priority j,
                      RJ_Metadata := RJ_Metadata j\<rparr>)"

definition StoreJob :: "bool \<Rightarrow> ReplicatedJob \<Rightarrow> Storage \<Rightarrow> storage_error option \<times> Storage" where
  "StoreJob ok j s =
     (if \<not> ok then (Some DbError, s)
      else (None, s\<lparr>St_jobs := AList.update (RJ_JobID j) (merge_job (map_of (St_jobs s) (RJ_JobID j)) j) (St_jobs s)\<rparr>))"

definition GetUnassignedJobs :: "Storage \<Rightarrow> ReplicatedJob list" where
  "GetUnassignedJobs s =
     sort_key (\<lambda>j. - RJ_Priority j)
       (filter (\<lambda>j. RJ_Status j = ''pending'' \<and> RJ_AssignedNode j = []) (map snd (St_jobs s)))"

text \<open>A nil value becomes \<open>NULL\<close>, which the column rejects.\<close>

definition StoreConfig :: "bool \<Rightarrow> string \<Rightarrow> bytes option \<Rightarrow> Storage \<Rightarrow> storage_error option \<times> Storage" where
  "StoreConfig ok key val s =
     (case val of
        None \<Rightarrow> (Some DbError, s)
      | Some v \<Rightarrow>
          if \<not> ok then (Some DbError, s)
          else (None, s\<lparr>St_config := AList.update key
                 (v, (case map_of (St_config s) key of None \<Rightarrow> 1 | Some (_, version) \<Rightarrow> version + 1)) (St_config s)\<rparr>))"

definition Storage_GetConfig :: "string \<Rightarrow> Storage \<Rightarrow> bytes option" where
  "Storage_GetConfig key s = map_option fst (map_of (St_config s) key)"

subsection \<open>The state machine\<close>

datatype command =
    CatalogUpdate ReplicatedCatalogEntry
  | CatalogDelete string string
  | JobUpdate ReplicatedJob
  | JobAssign string string
  | ConfigSet string "bytes option"
  | ConfigDelete string
  | JoinTokenCreate JoinToken
  | BadPayload
  | OtherCommand nat

record FSM =
  F_storage :: Storage
  F_catalog :: "(string \<times> ReplicatedCatalogEntry) list"
  F_jobs :: "(string \<times> ReplicatedJob) list"
  F_config :: "(string \<times> bytes option) list"

definition NewFSM :: "Storage \<Rightarrow> FSM" where
  "NewFSM s = \<lparr>F_storage = s, F_catalog = [], F_jobs = [], F_config = []\<rparr>"

definition catalog_key :: "string \<Rightarrow> string \<Rightarrow> string" where
  "catalog_key topicID datasetID = topicID @ ''/'' @ datasetID"

definition applyCatalogUpdate :: "bool \<Rightarrow> ReplicatedCatalogEntry \<Rightarrow> FSM \<Rightarrow> storage_error option \<times> FSM" where
  "applyCatalogUpdate ok e f =
     (case StoreCatalogEntry ok e (F_storage f) of
        (Some err, s) \<Rightarrow> (Some err, f\<lparr>F_storage := s\<rparr>)
      | (None, s) \<Rightarrow> (None, f\<lparr>F_storage := s, F_catalog := AList.update (catalog_key (RE_TopicID e) (RE_DatasetID e)) e (F_catalog f)\<rparr>))"

definition applyCatalogDelete :: "string \<Rightarrow> string \<Rightarrow> FSM \<Rightarrow> storage_error option \<times> FSM" where
  "applyCatalogDelete t d f = (None, f\<lparr>F_catalog := AList.delete (catalog_key t d) (F_catalog f)\<rparr>)"

definition applyJobUpdate :: "bool \<Rightarrow> ReplicatedJob \<Rightarrow> FSM \<Rightarrow> storage_error option \<times> FSM" where
  "applyJobUpdate ok j f =
     (case StoreJob ok j (F_storage f) of
        (Some err, s) \<Rightarrow> (Some err, f\<lparr>F_storage := s\<rparr>)
      | (None, s) \<Rightarrow> (None, f\<lparr>F_storage := s, F_jobs := AList.update (RJ_JobID j) j (F_jobs f)\<rparr>))"

text \<open>The cached job is changed through its pointer before the write, so it stays changed when that fails.\<close>

definition applyJobAssign :: "bool \<Rightarrow> string \<Rightarrow> string \<Rightarrow> FSM \<Rightarrow> storage_error option \<times> FSM" where
  "applyJobAssign ok jobID node f =
     (case map_of (F_jobs f) jobID of
        None \<Rightarrow> (None, f)
      | Some job \<Rightarrow>
          let job' = job\<lparr>RJ_AssignedNode := node, RJ_Status := ''assigned''\<rparr>;
              (err, s) = StoreJob ok job' (F_storage f)
          in (err, f\<lparr>F_storage := s, F_jobs := AList.update jobID job' (F_jobs f)\<rparr>))"

definition applyConfigSet :: "bool \<Rightarrow> string \<Rightarrow> bytes option \<Rightarrow> FSM \<Rightarrow> storage_error option \<times> FSM" where
  "applyConfigSet ok key val f =
     (case StoreConfig ok key val (F_storage f) of
        (Some err, s) \<Rightarrow> (Some err, f\<lparr>F_storage := s\<rparr>)
      | (None, s) \<Rightarrow> (None, f\<lparr>F_storage := s, F_config := AList.update key val (F_config f)\<rparr>))"

definition applyConfigDelete :: "string \<Rightarrow> FSM \<Rightarrow> storage_error option \<times> FSM" where
  "applyConfigDelete key f = (None, f\<lparr>F_config := AList.delete key (F_config f)\<rparr>)"

definition applyJoinTokenCreate :: "bool \<Rightarrow> JoinToken \<Rightarrow> FSM \<Rightarrow> storage_error option \<times> FSM" where
  "applyJoinTokenCreate ok t f =
     (case Storage_StoreJoinToken ok t (F_storage f) of (err, s) \<Rightarrow> (err, f\<lparr>F_storage := s\<rparr>))"

definition FSM_Apply :: "(bytes \<Rightarrow> command option) \<Rightarrow> bool \<Rightarrow> bytes \<Rightarrow> FSM \<Rightarrow> storage_error option \<times> FSM" where
  "FSM_Apply decode ok data f =
     (case decode data of
        None \<Rightarrow> (Some DecodeError, f)
      | Some (CatalogUpdate e) \<Rightarrow> applyCatalogUpdate ok e f
      | Some (CatalogDelete t d) \<Rightarrow> applyCatalogDelete t d f
      | Some (JobUpdate j) \<Rightarrow> applyJobUpdate ok j f
      | Some (JobAssign jobID node) \<Rightarrow> applyJobAssign ok jobID node f
      | Some (ConfigSet key val) \<Rightarrow> applyConfigSet ok key val f
      | Some (ConfigDelete key) \<Rightarrow> applyConfigDelete key f
      | Some (JoinTokenCreate t) \<Rightarrow> applyJoinTokenCreate ok t f
      | Some BadPayload \<Rightarrow> (Some DecodeError, f)
      | Some (OtherCommand n) \<Rightarrow> (Some UnknownCommand, f))"

definition FSM_StoreJoinToken :: "(bytes \<Rightarrow> command option) \<Rightarrow> (command \<Rightarrow> bytes) \<Rightarrow> bool \<Rightarrow> JoinToken \<Rightarrow> FSM \<Rightarrow> storage_error option \<times> FSM" where
  "FSM_StoreJoinToken decode encode ok t f = FSM_Apply decode ok (encode (JoinTokenCreate t)) f"

text \<open>A snapshot holds the three caches.\<close>

record fsm_snapshot =
  FS_catalog :: "(string \<times> ReplicatedCatalogEntry) list"
  FS_jobs :: "(string \<times> ReplicatedJob) list"
  FS_config :: "(string \<times> bytes option) list"

definition FSM_Snapshot :: "(fsm_snapshot \<Rightarrow> bytes) \<Rightarrow> FSM \<Rightarrow> bytes" where
  "FSM_Snapshot encode f = encode \<lparr>FS_catalog = F_catalog f, FS_jobs = F_jobs f, FS_config = F_config f\<rparr>"

text \<open>
  A loop of writes that stops at the first error; \<open>ok i\<close> says whether write \<open>i\<close> succeeds. The
  entries of a Go map come in no fixed order; here they come in the order of the list.
\<close>

fun store_all :: "(bool \<Rightarrow> 'a \<Rightarrow> Storage \<Rightarrow> storage_error option \<times> Storage) \<Rightarrow> (nat \<Rightarrow> bool) \<Rightarrow> nat \<Rightarrow> 'a list \<Rightarrow> Storage
    \<Rightarrow> storage_error option \<times> Storage" where
  "store_all write ok n [] s = (None, s)"
| "store_all write ok n (x # xs) s =
     (case write (ok n) x s of
        (Some err, s') \<Rightarrow> (Some err, s')
      | (None, s') \<Rightarrow> store_all write ok (Suc n) xs s')"

definition FSM_Restore ::
    "(bytes \<Rightarrow> fsm_snapshot option) \<Rightarrow> (nat \<Rightarrow> bool) \<Rightarrow> bytes \<Rightarrow> FSM \<Rightarrow> storage_error option \<times> FSM" where
  "FSM_Restore decode ok data f =
     (case decode data of
        None \<Rightarrow> (Some DecodeError, f)
      | Some snap \<Rightarrow>
          let f1 = f\<lparr>F_catalog := FS_catalog snap, F_jobs := FS_jobs snap, F_config := FS_config snap\<rparr>;
              n1 = length (FS_catalog snap); n2 = n1 + length (FS_jobs snap)
          in case store_all StoreCatalogEntry ok 0 (map snd (FS_catalog snap)) (F_storage f) of
               (Some err, s) \<Rightarrow> (Some err, f1\<lparr>F_storage := s\<rparr>)
             | (None, s1) \<Rightarrow>
                 (case store_all StoreJob ok n1 (map snd (FS_jobs snap)) s1 of
                    (Some err, s) \<Rightarrow> (Some err, f1\<lparr>F_storage := s\<rparr>)
                  | (None, s2) \<Rightarrow>
                      (case store_all (\<lambda>b (k, v). StoreConfig b k v) ok n2 (FS_config snap) s2 of
                         (err, s) \<Rightarrow> (err, f1\<lparr>F_storage := s\<rparr>))))"

text \<open>A run of the state machine: commands in the order they are applied, each with whether its write succeeds.\<close>

fun fsm_run :: "(bytes \<Rightarrow> command option) \<Rightarrow> (bytes \<times> bool) list \<Rightarrow> FSM \<Rightarrow> FSM" where
  "fsm_run decode [] f = f"
| "fsm_run decode ((data, ok) # cmds) f = fsm_run decode cmds (snd (FSM_Apply decode ok data f))"

definition assign_written :: "(bytes \<Rightarrow> command option) \<Rightarrow> bytes \<times> bool \<Rightarrow> bool" where
  "assign_written decode c \<longleftrightarrow> snd c \<or> (case decode (fst c) of Some (JobAssign _ _) \<Rightarrow> False | _ \<Rightarrow> True)"

text \<open>A run of token operations, and the times at which it accepted one token.\<close>

datatype token_op = StoreToken bool JoinToken | ValidateToken bool bool instant string | CleanupTokens bool instant

fun token_accepts :: "(instant \<Rightarrow> instant \<Rightarrow> bool) \<Rightarrow> string \<Rightarrow> token_op list \<Rightarrow> Storage \<Rightarrow> instant list" where
  "token_accepts earlier token [] s = []"
| "token_accepts earlier token (StoreToken ok t # ops) s =
     token_accepts earlier token ops (snd (Storage_StoreJoinToken ok t s))"
| "token_accepts earlier token (ValidateToken rd ok now tk # ops) s =
     (case ValidateJoinToken rd ok now tk s of
        (Inl err, s') \<Rightarrow> token_accepts earlier token ops s'
      | (Inr jt, s') \<Rightarrow> (if tk = token then [now] else []) @ token_accepts earlier token ops s')"
| "token_accepts earlier token (CleanupTokens ok now # ops) s =
     token_accepts earlier token ops (snd (CleanupExpiredTokens earlier ok now s))"

section \<open>Keyed tables and their caches\<close>

text \<open>
  The contract of a table written by upserts: a written value can be read back under its key,
  up to what \<open>agrees\<close> says, and other keys are left alone.
\<close>

locale upsert_table =
  fixes look :: "'t \<Rightarrow> 'k \<Rightarrow> 'row option"
    and upsert :: "'v \<Rightarrow> 't \<Rightarrow> 't"
    and key :: "'v \<Rightarrow> 'k"
    and storable :: "'v \<Rightarrow> bool"
    and agrees :: "'v \<Rightarrow> 'row \<Rightarrow> bool"
  assumes upsert_own: "storable v \<Longrightarrow> \<exists>row. look (upsert v t) (key v) = Some row \<and> agrees v row"
    and upsert_other: "k \<noteq> key v \<Longrightarrow> look (upsert v t) k = look t k"

text \<open>A cache in front of such a table: \<open>item\<close> is the value a cache entry stands for; every entry has a row that agrees with it.\<close>

definition cached :: "('t \<Rightarrow> 'k \<Rightarrow> 'row option) \<Rightarrow> ('v \<Rightarrow> 'k) \<Rightarrow> ('v \<Rightarrow> 'row \<Rightarrow> bool) \<Rightarrow> ('k \<Rightarrow> 'ck) \<Rightarrow> ('ck \<Rightarrow> 'c \<Rightarrow> 'v)
    \<Rightarrow> ('ck \<times> 'c) list \<Rightarrow> 't \<Rightarrow> bool" where
  "cached look key agrees cache_key item cache t \<longleftrightarrow>
     (\<forall>ck c. map_of cache ck = Some c \<longrightarrow>
        ck = cache_key (key (item ck c)) \<and> (\<exists>row. look t (key (item ck c)) = Some row \<and> agrees (item ck c) row))"

locale cached_table = upsert_table look upsert key storable agrees
  for look :: "'t \<Rightarrow> 'k \<Rightarrow> 'row option" and upsert :: "'v \<Rightarrow> 't \<Rightarrow> 't" and key :: "'v \<Rightarrow> 'k"
    and storable :: "'v \<Rightarrow> bool" and agrees :: "'v \<Rightarrow> 'row \<Rightarrow> bool" +
  fixes cache_key :: "'k \<Rightarrow> 'ck" and item :: "'ck \<Rightarrow> 'c \<Rightarrow> 'v"
begin

abbreviation in_sync :: "('ck \<times> 'c) list \<Rightarrow> 't \<Rightarrow> bool" where
  "in_sync \<equiv> cached look key agrees cache_key item"

lemma sync_write:
  assumes "in_sync cache t" and "storable v" and "ck = cache_key (key v)" and "item ck c = v"
  shows "in_sync (AList.update ck c cache) (upsert v t)"
  unfolding cached_def
proof (intro allI impI)
  fix ck' c' assume look': "map_of (AList.update ck c cache) ck' = Some c'"
  show "ck' = cache_key (key (item ck' c')) \<and> (\<exists>row. look (upsert v t) (key (item ck' c')) = Some row \<and> agrees (item ck' c') row)"
  proof (cases "ck' = ck")
    case True
    then have "c' = c" using look' by (simp add: update_conv')
    then show ?thesis using True assms(2-4) upsert_own by auto
  next
    case False
    then have old: "map_of cache ck' = Some c'" using look' by (simp add: update_conv')
    then have k: "ck' = cache_key (key (item ck' c'))" using assms(1) by (simp add: cached_def)
    then have "key (item ck' c') \<noteq> key v" using False assms(3) by metis
    then show ?thesis using old k assms(1) upsert_other by (auto simp: cached_def)
  qed
qed

lemma sync_delete: "in_sync cache t \<Longrightarrow> in_sync (AList.delete ck cache) t"
  by (auto simp: cached_def delete_conv' split: if_splits)

lemma sync_empty: "in_sync [] t"
  by (simp add: cached_def)

lemma sync_same: "in_sync cache t \<Longrightarrow> (\<And>k. look t' k = look t k) \<Longrightarrow> in_sync cache t'"
  by (simp add: cached_def)

end

definition job_columns_agree :: "ReplicatedJob \<Rightarrow> ReplicatedJob \<Rightarrow> bool" where
  "job_columns_agree j row \<longleftrightarrow> RJ_AssignedNode row = RJ_AssignedNode j \<and> RJ_Status row = RJ_Status j
     \<and> RJ_Priority row = RJ_Priority j \<and> RJ_Metadata row = RJ_Metadata j"

interpretation catalog: cached_table
  "\<lambda>s. map_of (St_catalog s)" "\<lambda>e s. snd (StoreCatalogEntry True e s)" "\<lambda>e. (RE_TopicID e, RE_DatasetID e)"
  "\<lambda>e. True" "(=)" "\<lambda>(t, d). catalog_key t d" "\<lambda>ck e. e"
  by unfold_locales (auto simp: StoreCatalogEntry_def update_conv')

interpretation jobs: cached_table
  "\<lambda>s. map_of (St_jobs s)" "\<lambda>j s. snd (StoreJob True j s)" RJ_JobID "\<lambda>j. True" job_columns_agree "\<lambda>k. k" "\<lambda>ck j. j"
  by unfold_locales (auto simp: StoreJob_def update_conv' merge_job_def job_columns_agree_def split: option.splits)

interpretation config: cached_table
  "\<lambda>s. map_of (St_config s)" "\<lambda>kv s. snd (StoreConfig True (fst kv) (snd kv) s)" fst "\<lambda>kv. snd kv \<noteq> None"
  "\<lambda>kv row. snd kv = Some (fst row)" "\<lambda>k. k" "\<lambda>ck c. (ck, c)"
  by unfold_locales (auto simp: StoreConfig_def update_conv' split: option.splits)

text \<open>
  The caches follow the store: every cached item has a row that agrees with it (for a job in four
  columns). Rows without a cached item are not constrained.\<close>

definition fsm_sync :: "FSM \<Rightarrow> bool" where
  "fsm_sync f \<longleftrightarrow> catalog.in_sync (F_catalog f) (F_storage f) \<and> jobs.in_sync (F_jobs f) (F_storage f)
     \<and> config.in_sync (F_config f) (F_storage f)"

lemma stores_frame:
  "St_jobs (snd (StoreCatalogEntry ok e s)) = St_jobs s" "St_config (snd (StoreCatalogEntry ok e s)) = St_config s"
  "St_catalog (snd (StoreJob ok j s)) = St_catalog s" "St_config (snd (StoreJob ok j s)) = St_config s"
  "St_catalog (snd (StoreConfig ok k v s)) = St_catalog s" "St_jobs (snd (StoreConfig ok k v s)) = St_jobs s"
  "St_catalog (snd (Storage_StoreJoinToken ok t s)) = St_catalog s" "St_jobs (snd (Storage_StoreJoinToken ok t s)) = St_jobs s"
  "St_config (snd (Storage_StoreJoinToken ok t s)) = St_config s"
  by (simp_all add: StoreCatalogEntry_def StoreJob_def StoreConfig_def Storage_StoreJoinToken_def split: option.splits)

lemma fsm_sync_catalog:
  assumes "fsm_sync f"
  shows "fsm_sync (snd (applyCatalogUpdate True e f))"
proof -
  have "fst (StoreCatalogEntry True e (F_storage f)) = None" by (simp add: StoreCatalogEntry_def)
  then have f': "snd (applyCatalogUpdate True e f) = f\<lparr>F_storage := snd (StoreCatalogEntry True e (F_storage f)),
      F_catalog := AList.update (catalog_key (RE_TopicID e) (RE_DatasetID e)) e (F_catalog f)\<rparr>"
    by (auto simp: applyCatalogUpdate_def split: prod.splits)
  show ?thesis
    using assms catalog.sync_write [where cache="F_catalog f" and t="F_storage f" and v=e and c=e and ck="catalog_key (RE_TopicID e) (RE_DatasetID e)"]
    by (auto simp: f' fsm_sync_def stores_frame elim!: jobs.sync_same config.sync_same)
qed

lemma fsm_sync_job:
  assumes "fsm_sync f"
  shows "fsm_sync (f\<lparr>F_storage := snd (StoreJob True j (F_storage f)), F_jobs := AList.update (RJ_JobID j) j (F_jobs f)\<rparr>)"
  using assms jobs.sync_write [where cache="F_jobs f" and t="F_storage f" and v=j and c=j and ck="RJ_JobID j"]
  by (auto simp: fsm_sync_def stores_frame elim!: catalog.sync_same config.sync_same)

lemma fsm_sync_job_update: "fsm_sync f \<Longrightarrow> fsm_sync (snd (applyJobUpdate True j f))"
  using fsm_sync_job [of f j] by (simp add: applyJobUpdate_def StoreJob_def)

lemma fsm_sync_job_assign:
  assumes "fsm_sync f"
  shows "fsm_sync (snd (applyJobAssign True jobID node f))"
proof (cases "map_of (F_jobs f) jobID")
  case None
  then show ?thesis using assms by (simp add: applyJobAssign_def)
next
  case (Some j)
  then have "RJ_JobID j = jobID" using assms by (simp add: fsm_sync_def cached_def)
  then show ?thesis
    using fsm_sync_job [OF assms, of "j\<lparr>RJ_AssignedNode := node, RJ_Status := ''assigned''\<rparr>"] Some
    by (simp add: applyJobAssign_def Let_def StoreJob_def)
qed

lemma fsm_sync_config:
  assumes "fsm_sync f"
  shows "fsm_sync (snd (applyConfigSet True k v f))"
proof (cases v)
  case None
  then show ?thesis using assms by (simp add: applyConfigSet_def StoreConfig_def)
next
  case (Some b)
  then have "snd (applyConfigSet True k v f) = f\<lparr>F_storage := snd (StoreConfig True k v (F_storage f)),
      F_config := AList.update k v (F_config f)\<rparr>"
    by (simp add: applyConfigSet_def StoreConfig_def)
  then show ?thesis
    using assms Some config.sync_write [where cache="F_config f" and t="F_storage f" and v="(k, v)" and c=v and ck=k]
    by (auto simp: fsm_sync_def stores_frame elim!: catalog.sync_same jobs.sync_same)
qed

lemma fsm_sync_deletes:
  "fsm_sync f \<Longrightarrow> fsm_sync (snd (applyCatalogDelete t d f))" "fsm_sync f \<Longrightarrow> fsm_sync (snd (applyConfigDelete k f))"
  by (auto simp: fsm_sync_def applyCatalogDelete_def applyConfigDelete_def intro: catalog.sync_delete config.sync_delete)

lemma fsm_sync_token: "fsm_sync f \<Longrightarrow> fsm_sync (snd (applyJoinTokenCreate True t f))"
  by (auto simp: fsm_sync_def applyJoinTokenCreate_def Storage_StoreJoinToken_def
      elim!: catalog.sync_same jobs.sync_same config.sync_same split: prod.splits)

lemmas fsm_sync_steps = fsm_sync_catalog fsm_sync_job_update fsm_sync_job_assign fsm_sync_config fsm_sync_deletes fsm_sync_token

lemma fsm_sync_apply: "fsm_sync f \<Longrightarrow> fsm_sync (snd (FSM_Apply decode True data f))"
  by (auto simp: FSM_Apply_def intro: fsm_sync_steps split: option.splits command.splits)

lemma fsm_sync_apply_failed:
  assumes "fsm_sync f" and "assign_written decode (data, False)"
  shows "fsm_sync (snd (FSM_Apply decode False data f))"
  using assms fsm_sync_deletes
  by (auto simp: FSM_Apply_def assign_written_def applyCatalogUpdate_def applyJobUpdate_def applyConfigSet_def
      applyJoinTokenCreate_def StoreCatalogEntry_def StoreJob_def StoreConfig_def Storage_StoreJoinToken_def
      split: option.splits command.splits)

lemma fsm_sync_new: "fsm_sync (NewFSM s)"
  by (simp add: fsm_sync_def NewFSM_def catalog.sync_empty jobs.sync_empty config.sync_empty)

lemma fsm_sync_run: "fsm_sync f \<Longrightarrow> list_all (assign_written decode) cmds \<Longrightarrow> fsm_sync (fsm_run decode cmds f)"
proof (induction decode cmds f rule: fsm_run.induct)
  case (2 decode data ok cmds f)
  then show ?case using fsm_sync_apply fsm_sync_apply_failed by (cases ok) auto
qed simp

text \<open>The caches are maps: no key occurs twice.\<close>

definition caches_distinct :: "FSM \<Rightarrow> bool" where
  "caches_distinct f \<longleftrightarrow> distinct (map fst (F_catalog f)) \<and> distinct (map fst (F_jobs f)) \<and> distinct (map fst (F_config f))"

lemma caches_distinct_apply: "caches_distinct f \<Longrightarrow> caches_distinct (snd (FSM_Apply decode ok data f))"
  by (auto simp: FSM_Apply_def applyCatalogUpdate_def applyCatalogDelete_def applyJobUpdate_def applyJobAssign_def applyConfigSet_def
      applyConfigDelete_def applyJoinTokenCreate_def caches_distinct_def Let_def distinct_update distinct_delete
      split: option.splits command.splits prod.splits)

lemma caches_distinct_run: "caches_distinct f \<Longrightarrow> caches_distinct (fsm_run decode cmds f)"
  by (induction decode cmds f rule: fsm_run.induct) (simp_all add: caches_distinct_apply)

lemma store_all_fold:
  assumes "\<And>x s. x \<in> set xs \<Longrightarrow> fst (write True x s) = None"
  shows "store_all write (\<lambda>i. True) n xs s = (None, fold (\<lambda>x s. snd (write True x s)) xs s)"
  using assms
proof (induction xs arbitrary: n s)
  case (Cons x xs)
  then obtain s' where "write True x s = (None, s')" by (metis list.set_intros(1) prod.collapse)
  then show ?case using Cons by simp
qed simp

text \<open>What a restore writes.\<close>

definition restored_storage :: "FSM \<Rightarrow> Storage \<Rightarrow> Storage" where
  "restored_storage f s =
     fold (\<lambda>(k, v) s. snd (StoreConfig True k v s)) (F_config f)
       (fold (\<lambda>(k, j) s. snd (StoreJob True j s)) (F_jobs f)
         (fold (\<lambda>(k, e) s. snd (StoreCatalogEntry True e s)) (F_catalog f) s))"

lemma restore_writes:
  assumes "decode (encode \<lparr>FS_catalog = F_catalog f, FS_jobs = F_jobs f, FS_config = F_config f\<rparr>)
             = Some \<lparr>FS_catalog = F_catalog f, FS_jobs = F_jobs f, FS_config = F_config f\<rparr>"
    and "\<And>k v. (k, v) \<in> set (F_config f) \<Longrightarrow> v \<noteq> None"
  shows "FSM_Restore decode (\<lambda>i. True) (FSM_Snapshot encode f) g
           = (None, f\<lparr>F_storage := restored_storage f (F_storage g)\<rparr>)"
proof -
  have 1: "fst (StoreCatalogEntry True e s) = None" for e s by (simp add: StoreCatalogEntry_def)
  have 2: "fst (StoreJob True j s) = None" for j s by (simp add: StoreJob_def)
  have 3: "fst (StoreConfig True k v s) = None" if "(k, v) \<in> set (F_config f)" for k v s
    using assms(2) [OF that] by (auto simp: StoreConfig_def)
  have 4: "store_all (\<lambda>b (k, v). StoreConfig b k v) (\<lambda>i. True) n (F_config f) s
      = (None, fold (\<lambda>(k, v) s. snd (StoreConfig True k v s)) (F_config f) s)" for n s
    using 3 by (subst store_all_fold) (auto simp: case_prod_unfold)
  have 5: "g\<lparr>F_catalog := F_catalog f, F_jobs := F_jobs f, F_config := F_config f, F_storage := s\<rparr> = f\<lparr>F_storage := s\<rparr>" for s
    by (cases f, cases g) simp
  show ?thesis
    by (simp add: FSM_Restore_def FSM_Snapshot_def assms(1) Let_def store_all_fold 1 2 4 [unfolded case_prod_unfold] 5 restored_storage_def fold_map comp_def
        case_prod_unfold)
qed

lemma fold_frame: "(\<And>x s. g (h x s) = g s) \<Longrightarrow> g (fold h xs s) = g s"
  by (induction xs arbitrary: s) simp_all

text \<open>The rows of a table after every cached value was written to it, exactly.\<close>

lemma fold_upsert:
  assumes "\<And>x s k. x \<in> set xs \<Longrightarrow> look (up x s) k = (if k = key x then Some (merge (look s k) x) else look s k)"
    and "distinct (map key xs)"
  shows "look (fold up xs s) k = (case find (\<lambda>x. key x = k) xs of None \<Rightarrow> look s k | Some x \<Rightarrow> Some (merge (look s k) x))"
  using assms
proof (induction xs arbitrary: s)
  case (Cons x xs)
  have IH: "look (fold up xs (up x s)) k
      = (case find (\<lambda>x. key x = k) xs of None \<Rightarrow> look (up x s) k | Some y \<Rightarrow> Some (merge (look (up x s) k) y))"
    using Cons.IH [of "up x s"] Cons.prems by simp
  show ?case
  proof (cases "key x = k")
    case True
    then have "find (\<lambda>y. key y = k) xs = None" using Cons.prems(2) by (auto simp: find_None_iff image_iff)
    then show ?thesis using IH True Cons.prems(1) [of x s k] by simp
  next
    case False
    then show ?thesis using IH Cons.prems(1) [of x s k] by (simp split: option.splits)
  qed
qed simp

lemma find_keyed:
  assumes "\<And>ck c. (ck, c) \<in> set xs \<Longrightarrow> ck = f (key c)" and "distinct (map fst xs)"
  shows "find (\<lambda>(ck, c). key c = k) xs
    = (case map_of xs (f k) of None \<Rightarrow> None | Some c \<Rightarrow> if key c = k then Some (f k, c) else None)"
proof (cases "find (\<lambda>(ck, c). key c = k) xs")
  case None
  then have "\<And>ck c. (ck, c) \<in> set xs \<Longrightarrow> key c \<noteq> k" by (auto simp: find_None_iff)
  then show ?thesis using None by (auto split: option.splits dest: map_of_SomeD)
next
  case (Some x)
  then obtain ck c where x: "x = (ck, c)" "(ck, c) \<in> set xs" "key c = k" by (cases x) (auto simp: find_Some_iff dest: nth_mem)
  then have "map_of xs (f k) = Some c" "ck = f k" using assms by auto
  then show ?thesis using Some x by simp
qed

lemma distinct_keyed:
  assumes "\<And>ck c. (ck, c) \<in> set xs \<Longrightarrow> ck = f (key c)" and "distinct (map fst xs)"
  shows "distinct (map (\<lambda>(ck, c). key c) xs)"
  using assms
proof (induction xs)
  case (Cons x xs)
  obtain ck c where x: "x = (ck, c)" by (cases x)
  have "key c \<notin> set (map (\<lambda>(ck, c). key c) xs)"
  proof
    assume "key c \<in> set (map (\<lambda>(ck, c). key c) xs)"
    then obtain ck' c' where "(ck', c') \<in> set xs" "key c' = key c" by auto
    then have "ck' = ck" using Cons.prems(1) x by (metis list.set_intros)
    then show False using \<open>(ck', c') \<in> set xs\<close> Cons.prems(2) x by force
  qed
  then show ?case using Cons x by auto
qed simp

lemma restored_tables:
  assumes "fsm_sync f" and "caches_distinct f"
  shows "map_of (St_catalog (restored_storage f s)) (t, d) =
      (case map_of (F_catalog f) (catalog_key t d) of
         Some e \<Rightarrow> if (RE_TopicID e, RE_DatasetID e) = (t, d) then Some e else map_of (St_catalog s) (t, d)
       | None \<Rightarrow> map_of (St_catalog s) (t, d))"
    and "map_of (St_jobs (restored_storage f s)) k =
      (case map_of (F_jobs f) k of None \<Rightarrow> map_of (St_jobs s) k | Some j \<Rightarrow> Some (merge_job (map_of (St_jobs s) k) j))"
    and "map_of (St_config (restored_storage f s)) k =
      (case map_of (F_config f) k of
         Some (Some v) \<Rightarrow> Some (v, case map_of (St_config s) k of None \<Rightarrow> 1 | Some (_, n) \<Rightarrow> n + 1)
       | _ \<Rightarrow> map_of (St_config s) k)"
    and "\<exists>c j v. restored_storage f s = s\<lparr>St_catalog := c, St_jobs := j, St_config := v\<rparr>"
proof -
  let ?s1 = "fold (\<lambda>(k, e) s. snd (StoreCatalogEntry True e s)) (F_catalog f) s"
  let ?s2 = "fold (\<lambda>(k, j) s. snd (StoreJob True j s)) (F_jobs f) ?s1"
  let ?s3 = "fold (\<lambda>(k, v) s. snd (StoreConfig True k v s)) (F_config f) ?s2"
  have keys: "\<And>ck e. (ck, e) \<in> set (F_catalog f) \<Longrightarrow> ck = (\<lambda>(t, d). catalog_key t d) (RE_TopicID e, RE_DatasetID e)"
      "\<And>ck j. (ck, j) \<in> set (F_jobs f) \<Longrightarrow> ck = id (RJ_JobID j)" "\<And>ck v. (ck, v) \<in> set (F_config f) \<Longrightarrow> v \<noteq> None"
    and dist: "distinct (map fst (F_catalog f))" "distinct (map fst (F_jobs f))" "distinct (map fst (F_config f))"
    using assms by (fastforce simp: fsm_sync_def cached_def caches_distinct_def)+
  have dk: "distinct (map (\<lambda>(ck, e). (RE_TopicID e, RE_DatasetID e)) (F_catalog f))" "distinct (map (\<lambda>(ck, j). RJ_JobID j) (F_jobs f))"
    using distinct_keyed [of "F_catalog f" "\<lambda>(t, d). catalog_key t d" "\<lambda>e. (RE_TopicID e, RE_DatasetID e)"]
      distinct_keyed [of "F_jobs f" id RJ_JobID] keys dist by simp_all
  have fk: "find (\<lambda>(ck, e). (RE_TopicID e, RE_DatasetID e) = (t, d)) (F_catalog f)
        = (case map_of (F_catalog f) (catalog_key t d) of None \<Rightarrow> None
           | Some e \<Rightarrow> if (RE_TopicID e, RE_DatasetID e) = (t, d) then Some (catalog_key t d, e) else None)"
      "find (\<lambda>(ck, j). RJ_JobID j = k) (F_jobs f)
        = (case map_of (F_jobs f) k of None \<Rightarrow> None | Some j \<Rightarrow> if RJ_JobID j = k then Some (k, j) else None)"
    using find_keyed [of "F_catalog f" "\<lambda>(t, d). catalog_key t d" "\<lambda>e. (RE_TopicID e, RE_DatasetID e)" "(t, d)"]
      find_keyed [of "F_jobs f" id RJ_JobID k] keys dist by (simp_all split: option.split)
  have frame: "St_jobs ?s1 = St_jobs s" "St_config ?s1 = St_config s" "St_catalog ?s2 = St_catalog ?s1" "St_config ?s2 = St_config ?s1"
      "St_catalog ?s3 = St_catalog ?s2" "St_jobs ?s3 = St_jobs ?s2"
    by (auto simp: stores_frame split: prod.splits intro!: fold_frame)
  have "map_of (St_catalog ?s1) (t, d) = (case find (\<lambda>(ck, e). (RE_TopicID e, RE_DatasetID e) = (t, d)) (F_catalog f) of
      None \<Rightarrow> map_of (St_catalog s) (t, d) | Some (ck, e) \<Rightarrow> Some e)"
    using fold_upsert [where look = "\<lambda>s. map_of (St_catalog s)" and up = "\<lambda>(k, e) s. snd (StoreCatalogEntry True e s)"
        and key = "\<lambda>(k, e). (RE_TopicID e, RE_DatasetID e)" and merge = "\<lambda>old (k, e). e" and xs = "F_catalog f" and s = s and k = "(t, d)"]
      dk(1)
    by (auto simp: StoreCatalogEntry_def update_conv' case_prod_unfold split: option.splits)
  then show "map_of (St_catalog (restored_storage f s)) (t, d) =
      (case map_of (F_catalog f) (catalog_key t d) of
         Some e \<Rightarrow> if (RE_TopicID e, RE_DatasetID e) = (t, d) then Some e else map_of (St_catalog s) (t, d)
       | None \<Rightarrow> map_of (St_catalog s) (t, d))"
    using fk(1) frame(3,5)
    by (auto simp: restored_storage_def split: option.splits if_splits)
  have "map_of (St_jobs ?s2) k = (case find (\<lambda>(ck, j). RJ_JobID j = k) (F_jobs f) of
      None \<Rightarrow> map_of (St_jobs s) k | Some (ck, j) \<Rightarrow> Some (merge_job (map_of (St_jobs s) k) j))"
    using fold_upsert [where look = "\<lambda>s. map_of (St_jobs s)" and up = "\<lambda>(k, j) s. snd (StoreJob True j s)"
        and key = "\<lambda>(k, j). RJ_JobID j" and merge = "\<lambda>old (k, j). merge_job old j" and xs = "F_jobs f" and s = ?s1 and k = k]
      dk(2) frame(1)
    by (auto simp: StoreJob_def update_conv' case_prod_unfold split: option.splits)
  then show "map_of (St_jobs (restored_storage f s)) k =
      (case map_of (F_jobs f) k of None \<Rightarrow> map_of (St_jobs s) k | Some j \<Rightarrow> Some (merge_job (map_of (St_jobs s) k) j))"
    using fk(2) frame(6) keys(2)
    by (auto simp: restored_storage_def split: option.splits if_splits dest: map_of_SomeD)
  define newer :: "(bytes \<times> int) option \<Rightarrow> string \<times> bytes option \<Rightarrow> bytes \<times> int"
    where "newer = (\<lambda>old x. (the (snd x), case old of None \<Rightarrow> 1 | Some (_, n) \<Rightarrow> n + 1))"
  have up: "map_of (St_config ((\<lambda>(k, v) s. snd (StoreConfig True k v s)) x s')) i
      = (if i = fst x then Some (newer (map_of (St_config s') i) x) else map_of (St_config s') i)"
    if x: "x \<in> set (F_config f)" for x s' i
  proof -
    obtain ck v where "x = (ck, Some v)" using keys(3) x by (cases x) auto
    then show ?thesis by (auto simp: StoreConfig_def update_conv' newer_def)
  qed
  have "map_of (St_config ?s3) k = (case find (\<lambda>x. fst x = k) (F_config f) of
      None \<Rightarrow> map_of (St_config ?s2) k | Some x \<Rightarrow> Some (newer (map_of (St_config ?s2) k) x))"
    by (rule fold_upsert [OF up dist(3), where s = ?s2 and k = k]) simp
  then have "map_of (St_config ?s3) k = (case find (\<lambda>x. fst x = k) (F_config f) of
      None \<Rightarrow> map_of (St_config s) k | Some x \<Rightarrow> Some (newer (map_of (St_config s) k) x))"
    by (simp only: frame)
  moreover have "find (\<lambda>x. fst x = k) xs = map_option (Pair k) (map_of xs k)" for xs :: "(string \<times> bytes option) list"
    by (induction xs) auto
  ultimately show "map_of (St_config (restored_storage f s)) k =
      (case map_of (F_config f) k of
         Some (Some v) \<Rightarrow> Some (v, case map_of (St_config s) k of None \<Rightarrow> 1 | Some (_, n) \<Rightarrow> n + 1)
       | _ \<Rightarrow> map_of (St_config s) k)"
    using keys(3) by (auto simp: restored_storage_def newer_def split: option.splits dest: map_of_SomeD)
  show "\<exists>c j v. restored_storage f s = s\<lparr>St_catalog := c, St_jobs := j, St_config := v\<rparr>"
  proof -
    define other where "other = (\<lambda>s :: Storage. s\<lparr>St_catalog := [], St_jobs := [], St_config := []\<rparr>)"
    have "other ?s1 = other s" "other ?s2 = other ?s1" "other ?s3 = other ?s2"
      by (auto simp: other_def StoreCatalogEntry_def StoreJob_def StoreConfig_def split: prod.splits option.splits intro!: fold_frame)
    then have "other (restored_storage f s) = other s" by (simp add: restored_storage_def)
    then have "restored_storage f s = s\<lparr>St_catalog := St_catalog (restored_storage f s), St_jobs := St_jobs (restored_storage f s),
        St_config := St_config (restored_storage f s)\<rparr>"
      by (cases "restored_storage f s", cases s) (simp add: other_def)
    then show ?thesis by blast
  qed
qed

section \<open>Join tokens\<close>

definition token_spent :: "string \<Rightarrow> Storage \<Rightarrow> bool" where
  "token_spent token s \<longleftrightarrow> (\<forall>jt. map_of (St_tokens s) token \<noteq> Some (jt, False))"

lemma filtered_row:
  assumes "distinct (map fst rows)"
  shows "map_of (filter keep rows) key \<in> {None, map_of rows key}"
  using assms
proof (induction rows)
  case (Cons row rows)
  have "map_of (filter keep rows) (fst row) = None"
    using Cons.prems by (auto simp: map_of_eq_None_iff)
  then show ?case using Cons by auto
qed simp

definition stores_other :: "string \<Rightarrow> token_op \<Rightarrow> bool" where
  "stores_other token op \<longleftrightarrow> (case op of StoreToken ok t \<Rightarrow> JT_Token t \<noteq> token | _ \<Rightarrow> True)"

lemma store_token_row:
  "JT_Token t \<noteq> token \<Longrightarrow> map_of (St_tokens (snd (Storage_StoreJoinToken ok t s))) token = map_of (St_tokens s) token"
  by (auto simp: Storage_StoreJoinToken_def map_add_def split: option.splits)

lemma store_token_distinct:
  "distinct (map fst (St_tokens s)) \<Longrightarrow> distinct (map fst (St_tokens (snd (Storage_StoreJoinToken ok t s))))"
  by (auto simp: Storage_StoreJoinToken_def map_of_eq_None_iff)

lemma validate_token_row:
  "tk \<noteq> token \<Longrightarrow> map_of (St_tokens (snd (ValidateJoinToken rd ok now tk s))) token = map_of (St_tokens s) token"
  by (auto simp: ValidateJoinToken_def update_conv' split: option.splits)

lemma validate_token_distinct:
  "distinct (map fst (St_tokens s)) \<Longrightarrow> distinct (map fst (St_tokens (snd (ValidateJoinToken rd ok now tk s))))"
  by (auto simp: ValidateJoinToken_def distinct_update split: option.splits)

lemma validate_accepts:
  "fst (ValidateJoinToken rd ok now tk s) = Inr jt \<longleftrightarrow> map_of (St_tokens s) tk = Some (jt, False) \<and> now \<le> JT_ExpiresAt jt \<and> rd \<and> ok"
  by (auto simp: ValidateJoinToken_def split: option.splits)

lemma validate_spends:
  "fst (ValidateJoinToken rd ok now tk s) = Inr jt \<Longrightarrow> token_spent tk (snd (ValidateJoinToken rd ok now tk s))"
  by (auto simp: ValidateJoinToken_def token_spent_def update_conv' split: option.splits if_splits)

lemma validate_refuses: "fst (ValidateJoinToken rd ok now tk s) = Inl err \<Longrightarrow> snd (ValidateJoinToken rd ok now tk s) = s"
  by (auto simp: ValidateJoinToken_def split: option.splits)

lemma cleanup_token_row:
  "distinct (map fst (St_tokens s)) \<Longrightarrow> map_of (St_tokens (snd (CleanupExpiredTokens earlier ok now s))) token \<in> {None, map_of (St_tokens s) token}"
  using filtered_row [of "St_tokens s" "\<lambda>(k, jt, used). \<not> earlier (JT_ExpiresAt jt) now" token] by (simp add: CleanupExpiredTokens_def)

lemma cleanup_token_distinct:
  "distinct (map fst (St_tokens s)) \<Longrightarrow> distinct (map fst (St_tokens (snd (CleanupExpiredTokens earlier ok now s))))"
  by (auto simp: CleanupExpiredTokens_def distinct_map_filter)

lemmas token_rows = store_token_row validate_token_row
lemmas token_distincts = store_token_distinct validate_token_distinct cleanup_token_distinct

lemma spent_token_refused:
  assumes "distinct (map fst (St_tokens s))" and "token_spent token s" and "list_all (stores_other token) ops"
  shows "token_accepts earlier token ops s = []"
  using assms
proof (induction earlier token ops s rule: token_accepts.induct)
  case (2 earlier token ok t ops s)
  then show ?case by (simp add: token_distincts token_spent_def stores_other_def token_rows del: map_of_eq_Some_iff)
next
  case (3 earlier token rd ok now tk ops s)
  obtain r s' where v: "ValidateJoinToken rd ok now tk s = (r, s')" by fastforce
  have d: "distinct (map fst (St_tokens s'))" using validate_token_distinct [OF "3.prems"(1), of rd ok now tk] v by simp
  show ?case
  proof (cases r)
    case (Inl err)
    then show ?thesis using "3.IH"(1) [OF v [symmetric]] "3.prems" d v validate_refuses [of rd ok now tk s err] by simp
  next
    case (Inr jt)
    then have "tk \<noteq> token" using "3.prems"(2) v validate_accepts [of rd ok now tk s jt] by (auto simp: token_spent_def)
    then show ?thesis using "3.IH"(2) [OF v [symmetric] Inr] "3.prems" d v Inr token_rows(2) [of tk token rd ok now s]
      by (simp add: token_spent_def del: map_of_eq_Some_iff)
  qed
next
  case (4 earlier token ok now ops s)
  then show ?case using cleanup_token_row [of s earlier ok now token] by (auto simp: token_distincts token_spent_def simp del: map_of_eq_Some_iff)
qed simp

text \<open>
  C29. A join token is good for one use, and not after its expiry: whatever the order in which
  tokens are stored, presented and cleaned up, and whichever of the writes fail, a stored token that
  is not stored anew is accepted at most once, at a time no later than its expiry.
\<close>

theorem join_token_single_use:
  assumes "distinct (map fst (St_tokens s))" and "map_of (St_tokens s) token = Some (jt, used)"
    and "list_all (stores_other token) ops"
  shows "length (token_accepts earlier token ops s) \<le> 1
    \<and> list_all (\<lambda>now. now \<le> JT_ExpiresAt jt) (token_accepts earlier token ops s)"
  using assms
proof (induction earlier token ops s rule: token_accepts.induct)
  case (2 earlier token ok t ops s)
  then show ?case by (simp add: token_distincts stores_other_def token_rows del: map_of_eq_Some_iff)
next
  case (3 earlier token rd ok now tk ops s)
  obtain r s' where v: "ValidateJoinToken rd ok now tk s = (r, s')" by fastforce
  have d: "distinct (map fst (St_tokens s'))" using validate_token_distinct [OF "3.prems"(1), of rd ok now tk] v by simp
  show ?case
  proof (cases r)
    case (Inl err)
    then show ?thesis using "3.IH"(1) [OF v [symmetric]] "3.prems" d v validate_refuses [of rd ok now tk s err] by simp
  next
    case (Inr jt')
    show ?thesis
    proof (cases "tk = token")
      case True
      then have "token_accepts earlier token ops s' = []"
        using spent_token_refused [OF d] validate_spends [of rd ok now tk s jt'] v Inr "3.prems"(3) by simp
      then show ?thesis using True v Inr validate_accepts [of rd ok now tk s jt'] "3.prems"(2) by simp
    next
      case False
      then show ?thesis using "3.IH"(2) [OF v [symmetric] Inr] "3.prems" d v Inr token_rows(2) [of tk token rd ok now s] by simp
    qed
  qed
next
  case (4 earlier token ok now ops s)
  let ?s = "snd (CleanupExpiredTokens earlier ok now s)"
  consider "map_of (St_tokens ?s) token = None" | "map_of (St_tokens ?s) token = map_of (St_tokens s) token"
    using cleanup_token_row [of s earlier ok now token] "4.prems"(1) by auto
  then show ?case
  proof cases
    case 1
    then have "token_accepts earlier token ops ?s = []"
      using "4.prems" by (intro spent_token_refused) (simp_all add: token_distincts token_spent_def)
    then show ?thesis by simp
  next
    case 2
    then show ?thesis using 4 by (simp add: token_distincts)
  qed
qed simp

definition sample_join_token :: JoinToken where
  "sample_join_token = \<lparr>JT_ClusterName = ''c'', JT_LeaderAddr = ''a'', JT_Token = ''tok'', JT_ExpiresAt = 100\<rparr>"

definition sample_token_storage :: Storage where
  "sample_token_storage = (empty_storage 3)\<lparr>St_tokens := [(''tok'', sample_join_token, False)]\<rparr>"

theorem join_token_single_use_witness:
  "length (token_accepts (<) ''tok'' [ValidateToken True True 10 ''tok'', ValidateToken True True 20 ''tok''] sample_token_storage) \<le> 1
   \<and> token_accepts (<) ''tok'' [ValidateToken True True 10 ''tok'', ValidateToken True True 20 ''tok''] sample_token_storage = [10]"
  using join_token_single_use [of sample_token_storage "''tok''" sample_join_token False
      "[ValidateToken True True 10 ''tok'', ValidateToken True True 20 ''tok'']" "(<)"]
  by (simp add: sample_token_storage_def sample_join_token_def stores_other_def ValidateJoinToken_def empty_storage_def)

section \<open>Caches and snapshots\<close>

text \<open>
  C22. The caches of a state machine never run ahead of its store. After any sequence of commands
  on a new state machine, in which a failed write is tolerated everywhere but at a job assignment, a
  cached catalog entry is the stored row of its topic and dataset, the row of a cached job agrees
  with it on node, status, priority and metadata, and a cached setting is the stored one.
\<close>

theorem caches_follow_store:
  assumes "list_all (assign_written decode) cmds"
  shows "(\<forall>k e. map_of (F_catalog (fsm_run decode cmds (NewFSM s))) k = Some e \<longrightarrow>
              k = catalog_key (RE_TopicID e) (RE_DatasetID e)
              \<and> map_of (St_catalog (F_storage (fsm_run decode cmds (NewFSM s)))) (RE_TopicID e, RE_DatasetID e) = Some e)
    \<and> (\<forall>k j. map_of (F_jobs (fsm_run decode cmds (NewFSM s))) k = Some j \<longrightarrow>
              k = RJ_JobID j
              \<and> (\<exists>row. map_of (St_jobs (F_storage (fsm_run decode cmds (NewFSM s)))) k = Some row \<and> job_columns_agree j row))
    \<and> (\<forall>k v. map_of (F_config (fsm_run decode cmds (NewFSM s))) k = Some v \<longrightarrow>
              v \<noteq> None \<and> Storage_GetConfig k (F_storage (fsm_run decode cmds (NewFSM s))) = v)"
  using fsm_sync_run [OF fsm_sync_new assms, of s] by (fastforce simp: fsm_sync_def cached_def Storage_GetConfig_def)

definition sample_decode :: "bytes \<Rightarrow> command option" where
  "sample_decode data = (if data = [1] then Some (ConfigSet ''k'' (Some [7])) else Some (ConfigDelete ''k''))"

theorem caches_follow_store_witness:
  "Storage_GetConfig ''k'' (F_storage (fsm_run sample_decode [([1], True)] (NewFSM (empty_storage 3)))) = Some [7]"
proof -
  have "map_of (F_config (fsm_run sample_decode [([1], True)] (NewFSM (empty_storage 3)))) ''k'' = Some (Some [7])"
    by (simp add: sample_decode_def FSM_Apply_def applyConfigSet_def StoreConfig_def NewFSM_def empty_storage_def)
  then show ?thesis
    using caches_follow_store [of sample_decode "[([1], True)]" "empty_storage 3"] by (simp add: assign_written_def)
qed

text \<open>
  C21. What a restored snapshot carries to another node. Let \<open>f\<close> be a state machine that ran any
  sequence of commands from empty caches, in which the writes of job assignments succeed, let the
  serialization of its caches be read back as they are, and let every write of the restore by a node
  \<open>g\<close> succeed. Then the restore succeeds and its three caches are those of \<open>f\<close>. In the store of \<open>g\<close>,
  whatever it held, the row of every cached catalog entry is that entry; the row of every cached job
  is that job, except that a row that was there keeps its type and its CEL expression; every cached
  setting has its value, with the version of the row increased; and every other row of these tables
  and every other table, the join tokens among them, is as it was: stale rows are not removed and
  tokens that were replicated before the snapshot are not carried over.
\<close>

theorem snapshot_restore:
  assumes "list_all (assign_written decode) cmds" and "f = fsm_run decode cmds (NewFSM s)"
    and "decode_snapshot (FSM_Snapshot encode_snapshot f) = Some \<lparr>FS_catalog = F_catalog f, FS_jobs = F_jobs f, FS_config = F_config f\<rparr>"
    and "FSM_Restore decode_snapshot (\<lambda>i. True) (FSM_Snapshot encode_snapshot f) g = (err, h)"
  shows "err = None \<and> F_catalog h = F_catalog f \<and> F_jobs h = F_jobs f \<and> F_config h = F_config f
    \<and> (\<forall>t d. map_of (St_catalog (F_storage h)) (t, d) =
          (case map_of (F_catalog f) (catalog_key t d) of
             Some e \<Rightarrow> if (RE_TopicID e, RE_DatasetID e) = (t, d) then Some e else map_of (St_catalog (F_storage g)) (t, d)
           | None \<Rightarrow> map_of (St_catalog (F_storage g)) (t, d)))
    \<and> (\<forall>k. map_of (St_jobs (F_storage h)) k =
          (case (map_of (F_jobs f) k, map_of (St_jobs (F_storage g)) k) of
             (None, old) \<Rightarrow> old
           | (Some j, None) \<Rightarrow> Some j
           | (Some j, Some row) \<Rightarrow> Some (row\<lparr>RJ_AssignedNode := RJ_AssignedNode j, RJ_Status := RJ_Status j,
                                             RJ_Priority := RJ_Priority j, RJ_Metadata := RJ_Metadata j\<rparr>)))
    \<and> (\<forall>k. map_of (St_config (F_storage h)) k =
          (case map_of (F_config f) k of
             Some (Some v) \<Rightarrow> Some (v, case map_of (St_config (F_storage g)) k of None \<Rightarrow> 1 | Some (_, n) \<Rightarrow> n + 1)
           | _ \<Rightarrow> map_of (St_config (F_storage g)) k))
    \<and> (\<exists>c j v. F_storage h = (F_storage g)\<lparr>St_catalog := c, St_jobs := j, St_config := v\<rparr>)"
proof -
  have sync: "fsm_sync f" unfolding assms(2) by (rule fsm_sync_run [OF fsm_sync_new assms(1)])
  have dist: "caches_distinct f" unfolding assms(2) by (rule caches_distinct_run) (simp add: caches_distinct_def NewFSM_def)
  have "v \<noteq> None" if "(k, v) \<in> set (F_config f)" for k v
    using sync dist that by (fastforce simp: fsm_sync_def cached_def caches_distinct_def)
  then have "FSM_Restore decode_snapshot (\<lambda>i. True) (FSM_Snapshot encode_snapshot f) g
      = (None, f\<lparr>F_storage := restored_storage f (F_storage g)\<rparr>)"
    using assms(3) by (intro restore_writes) (auto simp: FSM_Snapshot_def)
  then have h: "err = None" "h = f\<lparr>F_storage := restored_storage f (F_storage g)\<rparr>" using assms(4) by simp_all
  note tables = restored_tables [OF sync dist, of "F_storage g"]
  show ?thesis
    using tables(4) by (auto simp: h tables(1-3) merge_job_def split: option.splits)
qed

definition sample_encode_snapshot :: "fsm_snapshot \<Rightarrow> bytes" where
  "sample_encode_snapshot x = (case FS_config x of [(k, Some v)] \<Rightarrow> v | _ \<Rightarrow> [])"

definition sample_decode_snapshot :: "bytes \<Rightarrow> fsm_snapshot option" where
  "sample_decode_snapshot b =
     (if b = [] then None else Some \<lparr>FS_catalog = [], FS_jobs = [], FS_config = [(''k'', Some b)]\<rparr>)"

theorem snapshot_restore_witness:
  "Storage_GetConfig ''k'' (F_storage (snd (FSM_Restore sample_decode_snapshot (\<lambda>i. True)
     (FSM_Snapshot sample_encode_snapshot (fsm_run sample_decode [([1], True)] (NewFSM (empty_storage 3))))
     (NewFSM (empty_storage 5))))) = Some [7]"
proof -
  let ?f = "fsm_run sample_decode [([1], True)] (NewFSM (empty_storage 3))"
  have run: "F_catalog ?f = []" "F_jobs ?f = []" "F_config ?f = [(''k'', Some [7])]"
    by (simp_all add: sample_decode_def FSM_Apply_def applyConfigSet_def StoreConfig_def NewFSM_def empty_storage_def)
  have a: "list_all (assign_written sample_decode) [([1], True)]" by (simp add: assign_written_def)
  have d: "sample_decode_snapshot (FSM_Snapshot sample_encode_snapshot ?f) = Some \<lparr>FS_catalog = F_catalog ?f, FS_jobs = F_jobs ?f, FS_config = F_config ?f\<rparr>"
    unfolding FSM_Snapshot_def run by (simp add: sample_encode_snapshot_def sample_decode_snapshot_def)
  obtain err h where r: "FSM_Restore sample_decode_snapshot (\<lambda>i. True) (FSM_Snapshot sample_encode_snapshot ?f) (NewFSM (empty_storage 5)) = (err, h)"
    by force
  have old: "map_of (St_config (F_storage (NewFSM (empty_storage 5)))) ''k'' = None" by (simp add: NewFSM_def empty_storage_def)
  have "map_of (St_config (F_storage h)) ''k'' = (case map_of (F_config ?f) ''k'' of
             Some (Some v) \<Rightarrow> Some (v, case map_of (St_config (F_storage (NewFSM (empty_storage 5)))) ''k'' of None \<Rightarrow> 1 | Some (_, n) \<Rightarrow> n + 1)
           | _ \<Rightarrow> map_of (St_config (F_storage (NewFSM (empty_storage 5)))) ''k'')"
    using snapshot_restore [OF a refl d r] by blast
  then have "map_of (St_config (F_storage h)) ''k'' = Some ([7], 1)" unfolding run old by simp
  then show ?thesis unfolding r by (simp add: Storage_GetConfig_def)
qed

end
