(* ===== verification/Cluster_Raft.thy ===== *)
theory Cluster_Raft
  imports Cluster_Store
begin

text \<open>
  The consensus node and the cluster manager (\<open>internal/cluster/raft.go\<close>, \<open>cluster.go\<close>). The store
  is shared by the node and its state machine; here it is the one of the state machine. A buffered
  channel is the list of its elements, a closed context a flag, and \<open>pick\<close> is the choice a
  \<open>select\<close> makes when both the send and the closed context are ready. Whether a statement or a file
  operation succeeds is an argument.

  Shown: the proposal and configuration channels are written and never read, and the commit channel
  read and never written, so no accepted proposal reaches the state machine and no accepted change
  the membership; a node restarted on the store of a bootstrapped cluster never leads; a snapshot
  whose insert fails is reported as taken and the log is compacted; and the floor of three voters is
  checked against a count that accepted removals do not change.
\<close>

section \<open>Definitions\<close>

datatype NodeState = StateFollower | StateCandidate | StateLeader

datatype cluster_error =
    ErrNotLeader | ErrNodeNotFound | ErrAlreadyMember | ErrMinimumNodes | NotVoter
  | ContextDone | ChannelFull | AlreadyBootstrapped | NoSnapshotFile | StorageErr storage_error

record confChange =
  CC_nodeID :: string
  CC_address :: string
  CC_isAdd :: bool
  CC_isVoter :: bool

record raft_commit =
  CO_index :: uint64
  CO_term :: uint64
  CO_data :: bytes

record RaftConfig =
  RC_TrailingLogs :: uint64
  RC_SnapshotInterval :: int
  RC_SnapshotThreshold :: uint64

record RaftNode =
  RN_cfg :: RaftConfig
  RN_nodeID :: string
  RN_fsm :: FSM
  RN_state :: NodeState
  RN_leader :: string
  RN_term :: uint64
  RN_commitIndex :: uint64
  RN_appliedIndex :: uint64
  RN_members :: "(string \<times> string) list"
  RN_proposeCh :: "bytes list"
  RN_confChangeCh :: "confChange list"
  RN_commitCh :: "raft_commit list"
  RN_done :: bool

definition RN_storage :: "RaftNode \<Rightarrow> Storage" where
  "RN_storage rn = F_storage (RN_fsm rn)"

definition set_storage :: "Storage \<Rightarrow> RaftNode \<Rightarrow> RaftNode" where
  "set_storage s rn = rn\<lparr>RN_fsm := (RN_fsm rn)\<lparr>F_storage := s\<rparr>\<rparr>"

definition storage_result :: "storage_error option \<times> Storage \<Rightarrow> RaftNode \<Rightarrow> cluster_error option \<times> RaftNode" where
  "storage_result r rn = (map_option StorageErr (fst r), set_storage (snd r) rn)"

subsection \<open>The consensus node\<close>

text \<open>\<open>rd1\<close> and \<open>rd2\<close>: whether the two queries of \<open>loadState\<close> succeed.\<close>

definition loadState :: "bool \<Rightarrow> bool \<Rightarrow> RaftNode \<Rightarrow> cluster_error option \<times> RaftNode" where
  "loadState rd1 rd2 rn =
     (if \<not> rd1 then (Some (StorageErr DbError), rn)
      else let rn1 = rn\<lparr>RN_term := HS_Term (St_state (RN_storage rn)), RN_commitIndex := HS_Commit (St_state (RN_storage rn))\<rparr>
           in if \<not> rd2 then (Some (StorageErr DbError), rn1)
              else (None, rn1\<lparr>RN_members :=
                     fold (\<lambda>m. AList.update (CM_NodeID m) (CM_Address m)) (GetMembers (RN_storage rn)) (RN_members rn1)\<rparr>))"

definition NewRaftNode :: "bool \<Rightarrow> bool \<Rightarrow> RaftConfig \<Rightarrow> string \<Rightarrow> FSM \<Rightarrow> cluster_error + RaftNode" where
  "NewRaftNode rd1 rd2 cfg nodeID fsm =
     (case loadState rd1 rd2
            \<lparr>RN_cfg = cfg, RN_nodeID = nodeID, RN_fsm = fsm, RN_state = StateFollower, RN_leader = [], RN_term = 0,
             RN_commitIndex = 0, RN_appliedIndex = 0, RN_members = [], RN_proposeCh = [], RN_confChangeCh = [],
             RN_commitCh = [], RN_done = False\<rparr> of
        (Some err, rn) \<Rightarrow> Inl err
      | (None, rn) \<Rightarrow> Inr rn)"

text \<open>The saved state has no vote.\<close>

definition Raft_Shutdown :: "bool \<Rightarrow> RaftNode \<Rightarrow> cluster_error option \<times> RaftNode" where
  "Raft_Shutdown ok rn =
     (let rn1 = rn\<lparr>RN_done := True\<rparr>
      in storage_result (SetHardState ok \<lparr>HS_Term = RN_term rn1, HS_Vote = [], HS_Commit = RN_commitIndex rn1\<rparr> (RN_storage rn1)) rn1)"

definition Bootstrap :: "bool \<Rightarrow> bool \<Rightarrow> string \<Rightarrow> string \<Rightarrow> RaftNode \<Rightarrow> cluster_error option \<times> RaftNode" where
  "Bootstrap ok1 ok2 nodeID address rn =
     (if RN_members rn \<noteq> [] then (Some AlreadyBootstrapped, rn)
      else let rn1 = rn\<lparr>RN_members := [(nodeID, address)], RN_state := StateLeader, RN_leader := nodeID, RN_term := 1\<rparr>;
               m = \<lparr>CM_NodeID = nodeID, CM_Address = address, CM_Role = ''voter'', CM_State = [], CM_LastContact = 0,
                    CM_IsHealthy = False, CM_RaftIndex = 0, CM_PeerID = []\<rparr>
           in case storage_result (AddMember ok1 m (RN_storage rn1)) rn1 of
                (Some err, rn2) \<Rightarrow> (Some err, rn2)
              | (None, rn2) \<Rightarrow> storage_result (SetHardState ok2 \<lparr>HS_Term = RN_term rn2, HS_Vote = nodeID, HS_Commit = 0\<rparr> (RN_storage rn2)) rn2)"

text \<open>A non-blocking send: into the buffer, or the context's error, or the error of the default case.\<close>

definition try_send :: "bool \<Rightarrow> nat \<Rightarrow> 'a list \<Rightarrow> bool \<Rightarrow> 'a \<Rightarrow> cluster_error + 'a list" where
  "try_send pick cap ch closed x =
     (if length ch < cap \<and> (\<not> closed \<or> pick) then Inr (ch @ [x])
      else if closed then Inl ContextDone else Inl ChannelFull)"

definition Raft_Apply :: "bool \<Rightarrow> bytes \<Rightarrow> RaftNode \<Rightarrow> cluster_error option \<times> RaftNode" where
  "Raft_Apply pick cmd rn =
     (if RN_state rn \<noteq> StateLeader then (Some ErrNotLeader, rn)
      else case try_send pick 256 (RN_proposeCh rn) (RN_done rn) cmd of
             Inl err \<Rightarrow> (Some err, rn)
           | Inr ch \<Rightarrow> (None, rn\<lparr>RN_proposeCh := ch\<rparr>))"

definition send_conf :: "bool \<Rightarrow> confChange \<Rightarrow> RaftNode \<Rightarrow> cluster_error option \<times> RaftNode" where
  "send_conf pick cc rn =
     (if RN_state rn \<noteq> StateLeader then (Some ErrNotLeader, rn)
      else case try_send pick 16 (RN_confChangeCh rn) (RN_done rn) cc of
             Inl err \<Rightarrow> (Some err, rn)
           | Inr ch \<Rightarrow> (None, rn\<lparr>RN_confChangeCh := ch\<rparr>))"

definition addMember :: "bool \<Rightarrow> string \<Rightarrow> string \<Rightarrow> bool \<Rightarrow> RaftNode \<Rightarrow> cluster_error option \<times> RaftNode" where
  "addMember pick nodeID address isVoter rn =
     send_conf pick \<lparr>CC_nodeID = nodeID, CC_address = address, CC_isAdd = True, CC_isVoter = isVoter\<rparr> rn"

definition Raft_RemoveNode :: "bool \<Rightarrow> string \<Rightarrow> RaftNode \<Rightarrow> cluster_error option \<times> RaftNode" where
  "Raft_RemoveNode pick nodeID rn =
     send_conf pick \<lparr>CC_nodeID = nodeID, CC_address = [], CC_isAdd = False, CC_isVoter = False\<rparr> rn"

text \<open>
  \<open>TakeSnapshot\<close>: \<open>write_ok\<close>, \<open>insert_ok\<close> and \<open>remove_ok\<close> go to \<open>CreateSnapshot\<close>, whose snapshot
  is not looked at; \<open>del_ok\<close> goes to the compaction, whose error is dropped. The subtraction wraps.
\<close>

definition TakeSnapshot ::
    "(fsm_snapshot \<Rightarrow> bytes) \<Rightarrow> ((string \<times> string) list \<Rightarrow> bytes) \<Rightarrow> bool \<Rightarrow> bool \<Rightarrow> bool \<Rightarrow> bool \<Rightarrow> instant \<Rightarrow> instant \<Rightarrow> RaftNode
       \<Rightarrow> cluster_error option \<times> RaftNode" where
  "TakeSnapshot encode encode_members write_ok insert_ok remove_ok del_ok now1 now2 rn =
     (case CreateSnapshot write_ok insert_ok remove_ok now1 now2 (RN_appliedIndex rn) (RN_term rn)
             (encode_members (RN_members rn)) (FSM_Snapshot encode (RN_fsm rn)) (RN_storage rn) of
        (Some err, _, s) \<Rightarrow> (Some (StorageErr err), set_storage s rn)
      | (None, _, s) \<Rightarrow>
          (None, set_storage (snd (DeleteRange del_ok 0 (RN_appliedIndex rn - RC_TrailingLogs (RN_cfg rn)) s)) rn))"

definition Raft_Restore :: "(bytes \<Rightarrow> fsm_snapshot option) \<Rightarrow> (nat \<Rightarrow> bool) \<Rightarrow> string \<Rightarrow> RaftNode \<Rightarrow> cluster_error option \<times> RaftNode" where
  "Raft_Restore decode ok snapshotID rn =
     (case ReadSnapshot snapshotID (RN_storage rn) of
        None \<Rightarrow> (Some NoSnapshotFile, rn)
      | Some data \<Rightarrow>
          (case FSM_Restore decode ok data (RN_fsm rn) of (err, f) \<Rightarrow> (map_option StorageErr err, rn\<lparr>RN_fsm := f\<rparr>)))"

definition Raft_TransferLeadership :: "string \<Rightarrow> RaftNode \<Rightarrow> cluster_error option \<times> RaftNode" where
  "Raft_TransferLeadership target rn =
     (if RN_state rn \<noteq> StateLeader then (Some ErrNotLeader, rn)
      else if map_of (RN_members rn) target = None then (Some ErrNodeNotFound, rn)
      else (None, rn\<lparr>RN_leader := target, RN_state := StateFollower\<rparr>))"

text \<open>One round of \<open>applyLoop\<close> that receives a commit; with an empty channel the loop waits.\<close>

definition applyLoop_round :: "(bytes \<Rightarrow> command option) \<Rightarrow> bool \<Rightarrow> RaftNode \<Rightarrow> RaftNode option" where
  "applyLoop_round decode ok rn =
     (case RN_commitCh rn of
        [] \<Rightarrow> None
      | c # ch \<Rightarrow>
          (case FSM_Apply decode ok (CO_data c) (RN_fsm rn) of
             (Some err, f) \<Rightarrow> Some (rn\<lparr>RN_commitCh := ch, RN_fsm := f\<rparr>)
           | (None, f) \<Rightarrow> Some (rn\<lparr>RN_commitCh := ch, RN_fsm := f, RN_appliedIndex := max (RN_appliedIndex rn) (CO_index c)\<rparr>)))"

text \<open>One tick of \<open>snapshotLoop\<close>, with the index of the last snapshot it took.\<close>

definition snapshotLoop_tick ::
    "(fsm_snapshot \<Rightarrow> bytes) \<Rightarrow> ((string \<times> string) list \<Rightarrow> bytes) \<Rightarrow> bool \<Rightarrow> bool \<Rightarrow> bool \<Rightarrow> bool \<Rightarrow> instant \<Rightarrow> instant
       \<Rightarrow> uint64 \<Rightarrow> RaftNode \<Rightarrow> uint64 \<times> RaftNode" where
  "snapshotLoop_tick encode encode_members write_ok insert_ok remove_ok del_ok now1 now2 lastSnapshotIndex rn =
     (if RC_SnapshotInterval (RN_cfg rn) \<le> 0 then (lastSnapshotIndex, rn)
      else if RC_SnapshotThreshold (RN_cfg rn) \<le> RN_appliedIndex rn - lastSnapshotIndex
      then (case TakeSnapshot encode encode_members write_ok insert_ok remove_ok del_ok now1 now2 rn of
              (Some err, rn') \<Rightarrow> (lastSnapshotIndex, rn')
            | (None, rn') \<Rightarrow> (RN_appliedIndex rn, rn'))
      else (lastSnapshotIndex, rn))"

subsection \<open>The cluster manager\<close>

record Cluster =
  C_ClusterName :: string
  C_AdvertiseAddr :: string
  C_state :: NodeState
  C_leader :: string
  C_term :: uint64
  C_members :: "(string \<times> ClusterMember) list"
  C_raft :: RaftNode

record ClusterStatus =
  CS_ClusterName :: string
  CS_State :: NodeState
  CS_Leader :: string
  CS_Term :: uint64
  CS_CommitIndex :: uint64
  CS_AppliedIndex :: uint64
  CS_Members :: "ClusterMember list"
  CS_VoterCount :: int
  CS_NonVoterCount :: int
  CS_HasQuorum :: bool

definition MinimumVoters :: int where
  "MinimumVoters = 3"

definition IsLeader :: "Cluster \<Rightarrow> bool" where
  "IsLeader c \<longleftrightarrow> C_state c = StateLeader"

definition countVoters :: "Cluster \<Rightarrow> int" where
  "countVoters c = int (length (filter (\<lambda>m. CM_Role m = ''voter'') (map snd (C_members c))))"

definition countHealthyVoters :: "Cluster \<Rightarrow> int" where
  "countHealthyVoters c = int (length (filter (\<lambda>m. CM_Role m = ''voter'' \<and> CM_IsHealthy m) (map snd (C_members c))))"

definition Status :: "Cluster \<Rightarrow> ClusterStatus" where
  "Status c =
     (let voterCount = countVoters c;
          nonVoterCount = int (length (filter (\<lambda>m. CM_Role m \<noteq> ''voter'') (map snd (C_members c))))
      in \<lparr>CS_ClusterName = C_ClusterName c, CS_State = C_state c, CS_Leader = C_leader c, CS_Term = C_term c,
          CS_CommitIndex = RN_commitIndex (C_raft c), CS_AppliedIndex = RN_appliedIndex (C_raft c),
          CS_Members = map snd (C_members c), CS_VoterCount = voterCount, CS_NonVoterCount = nonVoterCount,
          CS_HasQuorum = (0 < voterCount \<and> voterCount div 2 < countHealthyVoters c)\<rparr>)"

definition with_raft :: "cluster_error option \<times> RaftNode \<Rightarrow> Cluster \<Rightarrow> cluster_error option \<times> Cluster" where
  "with_raft r c = (fst r, c\<lparr>C_raft := snd r\<rparr>)"

definition Cluster_AddMember :: "bool \<Rightarrow> bool \<Rightarrow> string \<Rightarrow> string \<Rightarrow> Cluster \<Rightarrow> cluster_error option \<times> Cluster" where
  "Cluster_AddMember isVoter pick nodeID address c =
     (if \<not> IsLeader c then (Some ErrNotLeader, c)
      else if map_of (C_members c) nodeID \<noteq> None then (Some ErrAlreadyMember, c)
      else with_raft (addMember pick nodeID address isVoter (C_raft c)) c)"

definition Cluster_AddVoter :: "bool \<Rightarrow> string \<Rightarrow> string \<Rightarrow> Cluster \<Rightarrow> cluster_error option \<times> Cluster" where
  "Cluster_AddVoter = Cluster_AddMember True"

definition Cluster_AddNonVoter :: "bool \<Rightarrow> string \<Rightarrow> string \<Rightarrow> Cluster \<Rightarrow> cluster_error option \<times> Cluster" where
  "Cluster_AddNonVoter = Cluster_AddMember False"

definition Cluster_RemoveNode :: "bool \<Rightarrow> string \<Rightarrow> Cluster \<Rightarrow> cluster_error option \<times> Cluster" where
  "Cluster_RemoveNode pick nodeID c =
     (if \<not> IsLeader c then (Some ErrNotLeader, c)
      else case map_of (C_members c) nodeID of
             None \<Rightarrow> (Some ErrNodeNotFound, c)
           | Some m \<Rightarrow>
               if CM_Role m = ''voter'' \<and> countVoters c \<le> MinimumVoters then (Some ErrMinimumNodes, c)
               else with_raft (Raft_RemoveNode pick nodeID (C_raft c)) c)"

text \<open>The random token is an argument; the command is encoded and applied to the state machine directly.\<close>

definition GenerateJoinToken ::
    "(bytes \<Rightarrow> command option) \<Rightarrow> (command \<Rightarrow> bytes) \<Rightarrow> bool \<Rightarrow> string \<Rightarrow> instant \<Rightarrow> int \<Rightarrow> Cluster
       \<Rightarrow> (cluster_error + JoinToken) \<times> Cluster" where
  "GenerateJoinToken decode encode ok token now ttl c =
     (if \<not> IsLeader c then (Inl ErrNotLeader, c)
      else let t = \<lparr>JT_ClusterName = C_ClusterName c, JT_LeaderAddr = C_AdvertiseAddr c, JT_Token = token, JT_ExpiresAt = now + ttl\<rparr>
           in case FSM_StoreJoinToken decode encode ok t (RN_fsm (C_raft c)) of
                (Some err, f) \<Rightarrow> (Inl (StorageErr err), c\<lparr>C_raft := (C_raft c)\<lparr>RN_fsm := f\<rparr>\<rparr>)
              | (None, f) \<Rightarrow> (Inr t, c\<lparr>C_raft := (C_raft c)\<lparr>RN_fsm := f\<rparr>\<rparr>))"

definition Cluster_TransferLeadership :: "string \<Rightarrow> Cluster \<Rightarrow> cluster_error option \<times> Cluster" where
  "Cluster_TransferLeadership target c =
     (if \<not> IsLeader c then (Some ErrNotLeader, c)
      else case map_of (C_members c) target of
             None \<Rightarrow> (Some ErrNodeNotFound, c)
           | Some m \<Rightarrow>
               if CM_Role m \<noteq> ''voter'' then (Some NotVoter, c)
               else with_raft (Raft_TransferLeadership target (C_raft c)) c)"

definition Cluster_Apply :: "bool \<Rightarrow> bytes \<Rightarrow> Cluster \<Rightarrow> cluster_error option \<times> Cluster" where
  "Cluster_Apply pick cmd c =
     (if \<not> IsLeader c then (Some ErrNotLeader, c) else with_raft (Raft_Apply pick cmd (C_raft c)) c)"

text \<open>A member seen for the first time is entered as a healthy voter; one that is gone from the node's map stays.\<close>

definition update_member :: "instant \<Rightarrow> string \<times> string \<Rightarrow> (string \<times> ClusterMember) list \<Rightarrow> (string \<times> ClusterMember) list" where
  "update_member now ma ms =
     AList.update (fst ma)
       (case map_of ms (fst ma) of
          Some m \<Rightarrow> m\<lparr>CM_Address := snd ma, CM_LastContact := now\<rparr>
        | None \<Rightarrow> \<lparr>CM_NodeID = fst ma, CM_Address = snd ma, CM_Role = ''voter'', CM_State = ''follower'',
                   CM_LastContact = now, CM_IsHealthy = True, CM_RaftIndex = 0, CM_PeerID = []\<rparr>) ms"

definition updateState :: "instant \<Rightarrow> Cluster \<Rightarrow> Cluster" where
  "updateState now c =
     c\<lparr>C_state := RN_state (C_raft c), C_leader := RN_leader (C_raft c), C_term := RN_term (C_raft c),
       C_members := fold (update_member now) (RN_members (C_raft c)) (C_members c)\<rparr>"

subsection \<open>Everything a running node does\<close>

text \<open>
  The calls of a started cluster, its two background loops and the cleanup of snapshots. A restore
  is a step of its own kind, since it replaces the replicated state.
\<close>

inductive cluster_step :: "(bytes \<Rightarrow> command option) \<Rightarrow> Cluster \<Rightarrow> Cluster \<Rightarrow> bool" for decode where
  add: "cluster_step decode c (snd (Cluster_AddMember isVoter pick nodeID address c))"
| remove: "cluster_step decode c (snd (Cluster_RemoveNode pick nodeID c))"
| token: "decode (encode (JoinTokenCreate t)) = Some (JoinTokenCreate t) \<Longrightarrow>
    t = \<lparr>JT_ClusterName = C_ClusterName c, JT_LeaderAddr = C_AdvertiseAddr c, JT_Token = tok, JT_ExpiresAt = now + ttl\<rparr> \<Longrightarrow>
    cluster_step decode c (snd (GenerateJoinToken decode encode ok tok now ttl c))"
| transfer: "cluster_step decode c (snd (Cluster_TransferLeadership target c))"
| propose: "cluster_step decode c (snd (Cluster_Apply pick cmd c))"
| monitor: "cluster_step decode c (updateState now c)"
| snapshot: "cluster_step decode c
    (c\<lparr>C_raft := snd (TakeSnapshot enc encm write_ok insert_ok remove_ok del_ok now1 now2 (C_raft c))\<rparr>)"
| cleanup: "cluster_step decode c (c\<lparr>C_raft := set_storage (cleanupSnapshots rd rm_ok row_ok (RN_storage (C_raft c))) (C_raft c)\<rparr>)"
| applied: "applyLoop_round decode ok (C_raft c) = Some rn \<Longrightarrow> cluster_step decode c (c\<lparr>C_raft := rn\<rparr>)"

abbreviation cluster_steps :: "(bytes \<Rightarrow> command option) \<Rightarrow> Cluster \<Rightarrow> Cluster \<Rightarrow> bool" where
  "cluster_steps decode \<equiv> (cluster_step decode)\<^sup>*\<^sup>*"

section \<open>What reaches the state machine\<close>

text \<open>What a step may change of a node with no commit waiting: the store, the role and the two channels.\<close>

definition idle_frame :: "RaftNode \<Rightarrow> RaftNode \<Rightarrow> bool" where
  "idle_frame rn rn' \<longleftrightarrow>
     RN_commitCh rn' = RN_commitCh rn \<and> RN_appliedIndex rn' = RN_appliedIndex rn \<and> RN_members rn' = RN_members rn
     \<and> F_catalog (RN_fsm rn') = F_catalog (RN_fsm rn) \<and> F_jobs (RN_fsm rn') = F_jobs (RN_fsm rn)
     \<and> F_config (RN_fsm rn') = F_config (RN_fsm rn)
     \<and> prefix (RN_proposeCh rn) (RN_proposeCh rn') \<and> prefix (RN_confChangeCh rn) (RN_confChangeCh rn')
     \<and> (length (RN_proposeCh rn) \<le> 256 \<longrightarrow> length (RN_proposeCh rn') \<le> 256)
     \<and> (RN_state rn' = StateLeader \<longrightarrow> RN_state rn = StateLeader)"

lemma idle_refl [simp]: "idle_frame rn rn"
  by (simp add: idle_frame_def)

lemma idle_trans: "idle_frame a b \<Longrightarrow> idle_frame b c \<Longrightarrow> idle_frame a c"
  by (auto simp: idle_frame_def)

lemma idle_storage [simp]: "idle_frame rn (set_storage s rn)"
  by (simp add: idle_frame_def set_storage_def)

lemma idle_send_conf: "idle_frame rn (snd (send_conf pick cc rn))"
  by (simp add: send_conf_def try_send_def idle_frame_def)

lemma idle_apply: "idle_frame rn (snd (Raft_Apply pick cmd rn))"
  by (simp add: Raft_Apply_def try_send_def idle_frame_def)

lemma idle_transfer: "idle_frame rn (snd (Raft_TransferLeadership target rn))"
  by (simp add: Raft_TransferLeadership_def idle_frame_def)

lemma idle_snapshot: "idle_frame rn (snd (TakeSnapshot enc encm w i r d now1 now2 rn))"
  by (simp add: TakeSnapshot_def split: prod.splits option.splits)

lemma idle_token:
  assumes "decode (encode (JoinTokenCreate t)) = Some (JoinTokenCreate t)"
    and "t = \<lparr>JT_ClusterName = C_ClusterName c, JT_LeaderAddr = C_AdvertiseAddr c, JT_Token = tok, JT_ExpiresAt = now + ttl\<rparr>"
  shows "idle_frame (C_raft c) (C_raft (snd (GenerateJoinToken decode encode ok tok now ttl c)))"
  using assms
  by (auto simp: GenerateJoinToken_def Let_def FSM_StoreJoinToken_def FSM_Apply_def applyJoinTokenCreate_def idle_frame_def
      split: prod.splits option.splits)

lemma idle_step:
  assumes "cluster_step decode c c'" and "RN_commitCh (C_raft c) = []"
  shows "idle_frame (C_raft c) (C_raft c')"
  using assms(1)
proof (cases rule: cluster_step.cases)
  case (add isVoter pick nodeID address)
  then show ?thesis by (simp add: Cluster_AddMember_def with_raft_def addMember_def idle_send_conf)
next
  case (remove pick nodeID)
  then show ?thesis by (simp add: Cluster_RemoveNode_def with_raft_def Raft_RemoveNode_def idle_send_conf split: option.splits)
next
  case (transfer target)
  then show ?thesis by (simp add: Cluster_TransferLeadership_def with_raft_def idle_transfer split: option.splits)
next
  case (propose pick cmd)
  then show ?thesis by (simp add: Cluster_Apply_def with_raft_def idle_apply)
next
  case (applied ok rn)
  then show ?thesis using assms(2) by (simp add: applyLoop_round_def)
qed (simp_all add: idle_token idle_snapshot updateState_def)

interpretation idle: preserved "cluster_step decode" "\<lambda>c'. idle_frame rn (C_raft c') \<and> RN_commitCh rn = []" for decode rn
proof unfold_locales
  fix s t assume step: "cluster_step decode s t" and inv: "idle_frame rn (C_raft s) \<and> RN_commitCh rn = []"
  then have "RN_commitCh (C_raft s) = []" by (simp add: idle_frame_def)
  then show "idle_frame rn (C_raft t) \<and> RN_commitCh rn = []" using inv idle_step [OF step] idle_trans by blast
qed

lemma idle_steps: "cluster_steps decode c c' \<Longrightarrow> RN_commitCh (C_raft c) = [] \<Longrightarrow> idle_frame (C_raft c) (C_raft c')"
  using idle.reachable_inv [of decode c c' "C_raft c"] by simp

lemma new_node:
  assumes "NewRaftNode rd1 rd2 cfg nodeID fsm = Inr rn"
  shows "RN_commitCh rn = []" "RN_proposeCh rn = []" "RN_appliedIndex rn = 0" "RN_state rn = StateFollower" "RN_fsm rn = fsm"
    "RN_members rn = fold (\<lambda>m. AList.update (CM_NodeID m) (CM_Address m)) (GetMembers (F_storage fsm)) []"
  using assms by (auto simp: NewRaftNode_def loadState_def Let_def RN_storage_def split: if_splits)

lemma bootstrap_frame:
  "RN_commitCh (snd (Bootstrap ok1 ok2 i a rn)) = RN_commitCh rn" "RN_proposeCh (snd (Bootstrap ok1 ok2 i a rn)) = RN_proposeCh rn"
  "RN_appliedIndex (snd (Bootstrap ok1 ok2 i a rn)) = RN_appliedIndex rn"
  "F_catalog (RN_fsm (snd (Bootstrap ok1 ok2 i a rn))) = F_catalog (RN_fsm rn)"
  "F_jobs (RN_fsm (snd (Bootstrap ok1 ok2 i a rn))) = F_jobs (RN_fsm rn)"
  "F_config (RN_fsm (snd (Bootstrap ok1 ok2 i a rn))) = F_config (RN_fsm rn)"
  by (simp_all add: Bootstrap_def Let_def storage_result_def set_storage_def split: prod.splits option.splits)

text \<open>
  An accepted proposal is never applied. On a node that was started, bootstrapped or not, and
  then ran any sequence of calls and background steps other than a restore, a command the cluster
  accepted stays in the proposal channel for good; the channel holds at most 256 of them, the applied
  index stays 0, the replicated catalog, jobs and configuration stay those the node started with, and
  so does its membership.
\<close>

theorem proposals_never_applied:
  assumes "NewRaftNode rd1 rd2 cfg nodeID fsm = Inr rn"
    and "C_raft c = rn \<or> C_raft c = snd (Bootstrap ok1 ok2 nodeID address rn)"
    and "cluster_steps decode c c1" and "Cluster_Apply pick cmd c1 = (None, c2)" and "cluster_steps decode c2 c3"
  shows "cmd \<in> set (RN_proposeCh (C_raft c3)) \<and> length (RN_proposeCh (C_raft c3)) \<le> 256
    \<and> RN_appliedIndex (C_raft c3) = 0 \<and> F_catalog (RN_fsm (C_raft c3)) = F_catalog fsm
    \<and> F_jobs (RN_fsm (C_raft c3)) = F_jobs fsm \<and> F_config (RN_fsm (C_raft c3)) = F_config fsm
    \<and> RN_members (C_raft c3) = RN_members (C_raft c)"
proof -
  have start: "RN_commitCh (C_raft c) = []" "RN_proposeCh (C_raft c) = []" "RN_appliedIndex (C_raft c) = 0"
    "F_catalog (RN_fsm (C_raft c)) = F_catalog fsm" "F_jobs (RN_fsm (C_raft c)) = F_jobs fsm" "F_config (RN_fsm (C_raft c)) = F_config fsm"
    using assms(2) new_node [OF assms(1)] by (auto simp: bootstrap_frame)
  have 1: "idle_frame (C_raft c) (C_raft c1)" by (rule idle_steps [OF assms(3) start(1)])
  then have "RN_commitCh (C_raft c1) = []" using start by (simp add: idle_frame_def)
  then have 2: "idle_frame (C_raft c1) (C_raft c2)"
    using idle_step [OF cluster_step.propose [of decode c1 pick cmd]] assms(4) by simp
  then have "RN_commitCh (C_raft c2) = []" using 1 start by (simp add: idle_frame_def)
  then have 3: "idle_frame (C_raft c2) (C_raft c3)" by (rule idle_steps [OF assms(5)])
  have "cmd \<in> set (RN_proposeCh (C_raft c2))"
    using assms(4) by (auto simp: Cluster_Apply_def with_raft_def Raft_Apply_def try_send_def split: if_splits)
  then have "cmd \<in> set (RN_proposeCh (C_raft c3))" using 3 by (auto simp: idle_frame_def dest: set_mono_prefix)
  then show ?thesis using idle_trans [OF idle_trans [OF 1 2] 3] start by (simp add: idle_frame_def)
qed

definition sample_cfg :: RaftConfig where
  "sample_cfg = \<lparr>RC_TrailingLogs = 0, RC_SnapshotInterval = 0, RC_SnapshotThreshold = 10\<rparr>"

definition sample_leader :: Cluster where
  "sample_leader = updateState 0 \<lparr>C_ClusterName = ''c'', C_AdvertiseAddr = ''a'', C_state = StateFollower, C_leader = [], C_term = 0,
     C_members = [], C_raft = snd (Bootstrap True True ''n1'' ''a1''
       (projr (NewRaftNode True True sample_cfg ''n1'' (NewFSM (empty_storage 3)))))\<rparr>"

lemma sample_leader_apply: "Cluster_Apply True [1] sample_leader
    = (None, sample_leader\<lparr>C_raft := (C_raft sample_leader)\<lparr>RN_proposeCh := [[1]]\<rparr>\<rparr>)"
  by (simp add: sample_leader_def updateState_def Bootstrap_def Let_def NewRaftNode_def loadState_def storage_result_def AddMember_def
      SetHardState_def RN_storage_def set_storage_def NewFSM_def empty_storage_def GetMembers_def driver_accepts_def
      Cluster_Apply_def IsLeader_def with_raft_def Raft_Apply_def try_send_def)

theorem proposals_never_applied_witness:
  "RN_appliedIndex (C_raft (snd (Cluster_Apply True [1] sample_leader))) = 0
   \<and> RN_proposeCh (C_raft (snd (Cluster_Apply True [1] sample_leader))) = [[1]]"
  using proposals_never_applied [of True True sample_cfg "''n1''" "NewFSM (empty_storage 3)"
      "projr (NewRaftNode True True sample_cfg ''n1'' (NewFSM (empty_storage 3)))" sample_leader True True "''a1''" "\<lambda>d. None"
      sample_leader True "[1]" "snd (Cluster_Apply True [1] sample_leader)" "snd (Cluster_Apply True [1] sample_leader)",
      OF _ _ rtranclp.rtrancl_refl _ rtranclp.rtrancl_refl]
  by (simp add: sample_leader_apply) (simp add: NewRaftNode_def loadState_def sample_leader_def updateState_def)

section \<open>Restarts\<close>

lemma bootstrap_stores:
  assumes "Bootstrap ok1 ok2 nodeID address rn0 = (None, rn1)"
  shows "map_of (St_members (RN_storage rn1)) nodeID \<noteq> None"
  using assms
  by (auto simp: Bootstrap_def Let_def storage_result_def AddMember_def SetHardState_def RN_storage_def set_storage_def
      update_conv' split: if_splits)

lemma shutdown_members: "St_members (RN_storage (snd (Raft_Shutdown ok rn))) = St_members (RN_storage rn)"
  by (simp add: Raft_Shutdown_def Let_def storage_result_def SetHardState_def RN_storage_def set_storage_def)

lemma fold_update_nonempty: "xs \<noteq> [] \<or> ys \<noteq> [] \<Longrightarrow> fold (\<lambda>m. AList.update (k m) (v m)) xs ys \<noteq> []"
proof (induction xs arbitrary: ys)
  case (Cons x xs)
  have "AList.update (k x) (v x) ys \<noteq> []" by (cases ys) auto
  then show ?case using Cons.IH by simp
qed simp

text \<open>
  A restarted node never leads. After a cluster was bootstrapped and its node shut down, a node
  started on the same store is not the leader after any sequence of calls and background steps, and
  bootstrapping it is refused; there is no election that could give it the role back.
\<close>

theorem restarted_node_never_leads:
  assumes "Bootstrap ok1 ok2 nodeID address rn0 = (None, rn1)"
    and "NewRaftNode rd1 rd2 cfg nodeID (NewFSM (RN_storage (snd (Raft_Shutdown ok rn1)))) = Inr rn"
    and "C_raft c = rn" and "cluster_steps decode c c'"
  shows "RN_state (C_raft c') \<noteq> StateLeader \<and> C_state (updateState now c') \<noteq> StateLeader
    \<and> Bootstrap okm okh nodeID address (C_raft c') = (Some AlreadyBootstrapped, C_raft c')"
proof -
  note new = new_node [OF assms(2)]
  have frame: "idle_frame (C_raft c) (C_raft c')" using idle_steps [OF assms(4)] new(1) assms(3) by simp
  have "St_members (RN_storage (snd (Raft_Shutdown ok rn1))) \<noteq> []"
    using bootstrap_stores [OF assms(1)] by (auto simp: shutdown_members)
  then have "RN_members rn \<noteq> []"
    unfolding new(6) by (intro fold_update_nonempty) (simp add: GetMembers_def NewFSM_def)
  then show ?thesis using frame new(4) assms(3) by (auto simp: idle_frame_def updateState_def Bootstrap_def)
qed

definition sample_restarted :: Cluster where
  "sample_restarted = \<lparr>C_ClusterName = ''c'', C_AdvertiseAddr = ''a'', C_state = StateFollower, C_leader = [], C_term = 0,
     C_members = [], C_raft = projr (NewRaftNode True True sample_cfg ''n1''
       (NewFSM (RN_storage (snd (Raft_Shutdown True (C_raft sample_leader))))))\<rparr>"

theorem restarted_node_never_leads_witness:
  "RN_state (C_raft sample_restarted) \<noteq> StateLeader
   \<and> fst (Bootstrap True True ''n1'' ''a1'' (C_raft sample_restarted)) = Some AlreadyBootstrapped"
proof -
  let ?rn0 = "projr (NewRaftNode True True sample_cfg ''n1'' (NewFSM (empty_storage 3)))"
  have boot: "Bootstrap True True ''n1'' ''a1'' ?rn0 = (None, C_raft sample_leader)"
    by (simp add: sample_leader_def updateState_def Bootstrap_def Let_def NewRaftNode_def loadState_def storage_result_def AddMember_def
        SetHardState_def RN_storage_def set_storage_def NewFSM_def empty_storage_def GetMembers_def driver_accepts_def)
  have new: "NewRaftNode True True sample_cfg ''n1'' (NewFSM (RN_storage (snd (Raft_Shutdown True (C_raft sample_leader)))))
      = Inr (C_raft sample_restarted)"
    by (simp add: sample_restarted_def NewRaftNode_def loadState_def Let_def)
  show ?thesis
    using restarted_node_never_leads [OF boot new refl rtranclp.rtrancl_refl, where okm=True and okh=True] by simp
qed

section \<open>Snapshots\<close>

lemma driver_accepts_unat: "driver_accepts i \<longleftrightarrow> unat i < 2 ^ 63"
proof -
  have "unat i < 2 ^ 64" using unsigned_less [of i] by simp
  then have "unat i div 2 ^ 63 < 2" by (simp add: less_mult_imp_div_less)
  then have "odd (unat i div 2 ^ 63) \<longleftrightarrow> unat i div 2 ^ 63 \<noteq> 0" by (cases "unat i div 2 ^ 63") auto
  moreover have "bit i 63 \<longleftrightarrow> odd (unat i div 2 ^ 63)"
  proof -
    have "bit (unat i) 63 \<longleftrightarrow> bit i 63" by (simp add: bit_unsigned_iff)
    then show ?thesis by (simp only: bit_iff_odd [of "unat i"])
  qed
  ultimately show ?thesis by (simp add: driver_accepts_def div_eq_0_iff)
qed

lemma failed_insert:
  assumes "driver_accepts index" "driver_accepts trm"
  shows "fst (CreateSnapshot True False True now1 now2 index trm cfg data s) = None"
    and "St_snapshots (snd (snd (CreateSnapshot True False True now1 now2 index trm cfg data s))) = St_snapshots s"
    and "St_log (snd (snd (CreateSnapshot True False True now1 now2 index trm cfg data s))) = St_log s"
  by (simp_all add: CreateSnapshot_def Let_def)

text \<open>
  A failed snapshot still compacts the log. When the row of a snapshot cannot be inserted and
  its file is removed again, \<open>TakeSnapshot\<close> reports success, no snapshot is added, and every log entry
  up to the applied index less the trailing ones is deleted: no snapshot covers them.
\<close>

theorem failed_snapshot_compacts_log:
  assumes "driver_accepts (RN_appliedIndex rn)" and "driver_accepts (RN_term rn)"
    and "RC_TrailingLogs (RN_cfg rn) \<le> RN_appliedIndex rn"
  shows "fst (TakeSnapshot enc encm True False True True now1 now2 rn) = None
    \<and> ListSnapshots (RN_storage (snd (TakeSnapshot enc encm True False True True now1 now2 rn))) = ListSnapshots (RN_storage rn)
    \<and> (\<forall>i \<le> RN_appliedIndex rn - RC_TrailingLogs (RN_cfg rn).
          GetLog i (RN_storage (snd (TakeSnapshot enc encm True False True True now1 now2 rn))) = None)"
proof -
  have "RN_appliedIndex rn - RC_TrailingLogs (RN_cfg rn) \<le> RN_appliedIndex rn"
    using assms(3) by (simp add: word_le_nat_alt unat_sub)
  then have acc: "driver_accepts (RN_appliedIndex rn - RC_TrailingLogs (RN_cfg rn))"
    using assms(1) by (simp add: driver_accepts_unat word_le_nat_alt)
  let ?s = "snd (snd (CreateSnapshot True False True now1 now2 (RN_appliedIndex rn) (RN_term rn)
      (encm (RN_members rn)) (FSM_Snapshot enc (RN_fsm rn)) (RN_storage rn)))"
  have take: "TakeSnapshot enc encm True False True True now1 now2 rn
      = (None, set_storage (snd (DeleteRange True 0 (RN_appliedIndex rn - RC_TrailingLogs (RN_cfg rn)) ?s)) rn)"
    using failed_insert(1) [OF assms(1,2), of now1 now2 "encm (RN_members rn)" "FSM_Snapshot enc (RN_fsm rn)" "RN_storage rn"]
    by (auto simp: TakeSnapshot_def split: prod.splits)
  show ?thesis
    using failed_insert(2) [OF assms(1,2)] acc
    by (auto simp: take RN_storage_def set_storage_def DeleteRange_def driver_accepts_unat ListSnapshots_def GetLog_def
        map_of_eq_None_iff)
qed

theorem failed_snapshot_compacts_log_witness:
  "fst (TakeSnapshot (\<lambda>x. [1]) (\<lambda>m. []) True False True True 0 0 (C_raft sample_leader)) = None"
  using failed_snapshot_compacts_log [of "C_raft sample_leader" "\<lambda>x. [1]" "\<lambda>m. []" 0 0]
  by (simp add: sample_leader_def updateState_def Bootstrap_def Let_def NewRaftNode_def loadState_def storage_result_def AddMember_def
      SetHardState_def RN_storage_def set_storage_def NewFSM_def empty_storage_def GetMembers_def driver_accepts_def sample_cfg_def)

section \<open>Membership\<close>

lemma quorum_is_majority:
  "CS_HasQuorum (Status c) \<longleftrightarrow> countVoters c < 2 * countHealthyVoters c \<and> 0 < countVoters c"
  by (auto simp: Status_def Let_def)

lemma remove_accepted:
  assumes "Cluster_RemoveNode pick nodeID c = (None, c')"
  shows "IsLeader c \<and> (\<exists>m. map_of (C_members c) nodeID = Some m \<and> (CM_Role m = ''voter'' \<longrightarrow> MinimumVoters < countVoters c))
    \<and> C_members c' = C_members c \<and> C_state c' = C_state c \<and> RN_state (C_raft c') = RN_state (C_raft c)
    \<and> RN_done (C_raft c') = RN_done (C_raft c)
    \<and> (\<exists>cc. CC_nodeID cc = nodeID \<and> \<not> CC_isAdd cc \<and> RN_confChangeCh (C_raft c') = RN_confChangeCh (C_raft c) @ [cc])"
  using assms
  by (auto simp: Cluster_RemoveNode_def with_raft_def Raft_RemoveNode_def send_conf_def try_send_def split: if_splits option.splits)

text \<open>Removals requested one after the other, and those of them the cluster accepted.\<close>

fun accepted_removals :: "string list \<Rightarrow> Cluster \<Rightarrow> string list" where
  "accepted_removals [] c = []"
| "accepted_removals (n # ns) c =
     (case Cluster_RemoveNode False n c of
        (None, c') \<Rightarrow> n # accepted_removals ns c'
      | (Some err, c') \<Rightarrow> accepted_removals ns c')"

lemma remove_accepts:
  assumes "IsLeader c" and "RN_state (C_raft c) = StateLeader" and "\<not> RN_done (C_raft c)" and "length (RN_confChangeCh (C_raft c)) < 16"
    and "map_of (C_members c) n = Some m" and "MinimumVoters < countVoters c"
  shows "fst (Cluster_RemoveNode False n c) = None"
  using assms by (simp add: Cluster_RemoveNode_def with_raft_def Raft_RemoveNode_def send_conf_def try_send_def)

text \<open>
  The floor of three voters does not hold a sequence of removals back. Each removal is checked
  against the voters the manager lists, and an accepted removal leaves that list as it is, so on a
  leader that lists more than three voters all removals of listed nodes are accepted, up to the
  capacity of the channel, whatever number of voters they leave.
\<close>

theorem removals_ignore_earlier_ones:
  assumes "IsLeader c" and "RN_state (C_raft c) = StateLeader" and "\<not> RN_done (C_raft c)"
    and "length (RN_confChangeCh (C_raft c)) + length ns \<le> 16"
    and "\<forall>n \<in> set ns. map_of (C_members c) n \<noteq> None" and "MinimumVoters < countVoters c"
  shows "accepted_removals ns c = ns"
  using assms
proof (induction ns arbitrary: c)
  case (Cons n ns)
  obtain m where "map_of (C_members c) n = Some m" using Cons.prems(5) by auto
  then have "fst (Cluster_RemoveNode False n c) = None" using Cons.prems by (intro remove_accepts) auto
  then obtain c' where c': "Cluster_RemoveNode False n c = (None, c')" by (cases "Cluster_RemoveNode False n c") auto
  note acc = remove_accepted [OF c']
  have "accepted_removals ns c' = ns"
    using Cons.prems acc by (intro Cons.IH) (auto simp: IsLeader_def countVoters_def)
  then show ?case by (simp add: c')
qed simp

definition sample_voter :: "string \<Rightarrow> ClusterMember" where
  "sample_voter n = \<lparr>CM_NodeID = n, CM_Address = n, CM_Role = ''voter'', CM_State = ''follower'', CM_LastContact = 0,
     CM_IsHealthy = True, CM_RaftIndex = 0, CM_PeerID = []\<rparr>"

theorem removals_ignore_earlier_ones_witness:
  "accepted_removals [''n1'', ''n2'', ''n3'', ''n4'']
     (sample_leader\<lparr>C_members := map (\<lambda>n. (n, sample_voter n)) [''n1'', ''n2'', ''n3'', ''n4'']\<rparr>)
   = [''n1'', ''n2'', ''n3'', ''n4'']"
  by (rule removals_ignore_earlier_ones)
    (simp_all add: sample_leader_def updateState_def Bootstrap_def Let_def NewRaftNode_def loadState_def storage_result_def AddMember_def
      SetHardState_def RN_storage_def set_storage_def NewFSM_def empty_storage_def GetMembers_def driver_accepts_def
      IsLeader_def MinimumVoters_def countVoters_def sample_voter_def)

end
