(* ===== verification/Sql_Store.thy ===== *)
theory Sql_Store
  imports Audit_Chain Domain_Errors
begin

text \<open>
  The statement layer of the SQLite store (\<open>internal/storage/sqlite/store.go\<close>,
  \<open>internal/storage/context.go\<close>): every statement runs with the operation context of its caller
  and is then logged, without failing the operation when the log cannot be written. A statement
  is a function on the tables that gives a constraint violation or the number of rows it changed
  and the new tables. What the environment decides for one statement (the engine's answer, whether
  the pooled connection enforces foreign keys, the clock, the identifier of a default context) is
  the record \<open>stmt\<close>.

  Shown: the log of a store verifies after any sequence of statements, and a statement that fails
  leaves the tables alone.
\<close>

section \<open>Definitions\<close>

definition DBRole_IsValid :: "string \<Rightarrow> bool" where
  "DBRole_IsValid r \<longleftrightarrow> r \<in> set [''bibd_admin'', ''bibd_scrape'', ''bibd_query'', ''bibd_transform'', ''bibd_audit'', ''bibd_readonly'']"

record OperationContext =
  OC_OperationID :: string
  OC_JobID :: string
  OC_Role :: string
  OC_Source :: string
  OC_Actor :: string
  OC_StartTime :: instant
  OC_Metadata :: "(string \<times> string) list"

definition NewOperationContext :: "string \<Rightarrow> instant \<Rightarrow> string \<Rightarrow> string \<Rightarrow> OperationContext" where
  "NewOperationContext uuid now role source =
     \<lparr>OC_OperationID = uuid, OC_JobID = [], OC_Role = role, OC_Source = source, OC_Actor = [], OC_StartTime = now, OC_Metadata = []\<rparr>"

definition MustGetOperationContext :: "string \<Rightarrow> instant \<Rightarrow> OperationContext option \<Rightarrow> OperationContext" where
  "MustGetOperationContext uuid now oc = (case oc of Some c \<Rightarrow> c | None \<Rightarrow> NewOperationContext uuid now ''bibd_readonly'' ''unknown'')"

definition QueryComment :: "OperationContext \<Rightarrow> string" where
  "QueryComment oc = ''/* '' @ ''op_id:'' @ OC_OperationID oc
     @ (if OC_JobID oc \<noteq> [] then '' job_id:'' @ OC_JobID oc else [])
     @ '' role:'' @ OC_Role oc @ '' source:'' @ OC_Source oc
     @ (if OC_Actor oc \<noteq> [] then '' actor:'' @ OC_Actor oc else []) @ '' */''"

datatype sql_error = UniqueViolation | ForeignKeyViolation | CheckViolation | EngineError

definition isConstraintError :: "sql_error \<Rightarrow> bool" where
  "isConstraintError e \<longleftrightarrow> e = UniqueViolation \<or> e = ForeignKeyViolation"

datatype repo_error = ErrNotFound | ErrAlreadyExists | Rejected domain_error | SqlFailed sql_error

record stmt =
  SQ_ok :: bool
  SQ_fk :: bool
  SQ_start :: instant
  SQ_end :: instant
  SQ_log_now :: instant
  SQ_log_ok :: bool
  SQ_uuid :: string

record sql_env =
  EV_sha256 :: "string \<Rightarrow> bytes"
  EV_fmt_time :: "instant \<Rightarrow> string"
  EV_ctx :: "OperationContext option"

record 'db SqlStore =
  SS_db :: 'db
  SS_nodeID :: string
  SS_CacheTTL :: duration
  SS_audit :: AuditRepository

definition open_store :: "string \<Rightarrow> duration \<Rightarrow> 'db \<Rightarrow> 'db SqlStore" where
  "open_store nodeID ttl db = \<lparr>SS_db = db, SS_nodeID = nodeID, SS_CacheTTL = ttl, SS_audit = open_audit nodeID [] 0\<rparr>"

definition statement_entry :: "sql_env \<Rightarrow> stmt \<Rightarrow> string \<Rightarrow> string \<Rightarrow> int \<Rightarrow> 'db SqlStore \<Rightarrow> AuditEntry" where
  "statement_entry env q action table rows s =
     (let oc = MustGetOperationContext (SQ_uuid q) (SQ_start q) (EV_ctx env)
      in \<lparr>AE_ID = 0, AE_Timestamp = SQ_start q, AE_NodeID = SS_nodeID s, AE_JobID = OC_JobID oc,
          AE_OperationID = OC_OperationID oc, AE_RoleUsed = OC_Role oc, AE_Action = action, AE_TableName = table,
          AE_Query = [], AE_QueryHash = [], AE_RowsAffected = rows,
          AE_DurationMS = time_Sub (SQ_end q) (SQ_start q) div 1000000, AE_SourceComponent = OC_Source oc, AE_Actor = [],
          AE_Metadata = OC_Metadata oc, AE_PrevHash = [], AE_EntryHash = [],
          AE_Flags = \<lparr>AF_BreakGlass = False, AF_RateLimited = False, AF_Suspicious = False, AF_AlertTriggered = False\<rparr>\<rparr>)"

definition log_statement :: "sql_env \<Rightarrow> stmt \<Rightarrow> string \<Rightarrow> string \<Rightarrow> int \<Rightarrow> 'db SqlStore \<Rightarrow> 'db SqlStore" where
  "log_statement env q action table rows s =
     (if 0 < SS_CacheTTL s
      then s\<lparr>SS_audit := snd (snd (AuditRepository_Log (EV_sha256 env) (EV_fmt_time env) (SQ_log_now q) (SQ_log_ok q)
                                   (statement_entry env q action table rows s) (SS_audit s)))\<rparr>
      else s)"

text \<open>A changing statement: the tables after it, or unchanged when it fails; then the log.\<close>

definition execWithAudit ::
    "sql_env \<Rightarrow> stmt \<Rightarrow> string \<Rightarrow> string \<Rightarrow> (bool \<Rightarrow> 'db \<Rightarrow> sql_error + (int \<times> 'db)) \<Rightarrow> 'db SqlStore
       \<Rightarrow> (sql_error + int) \<times> 'db SqlStore" where
  "execWithAudit env q action table run s =
     (case (if SQ_ok q then run (SQ_fk q) (SS_db s) else Inl EngineError) of
        Inl err \<Rightarrow> (Inl err, log_statement env q action table 0 s)
      | Inr (rows, db) \<Rightarrow> (Inr rows, log_statement env q action table rows (s\<lparr>SS_db := db\<rparr>)))"

definition queryWithAudit ::
    "sql_env \<Rightarrow> stmt \<Rightarrow> string \<Rightarrow> ('db \<Rightarrow> sql_error + 'a) \<Rightarrow> 'db SqlStore \<Rightarrow> (sql_error + 'a) \<times> 'db SqlStore" where
  "queryWithAudit env q table run s =
     ((if SQ_ok q then run (SS_db s) else Inl EngineError), log_statement env q ''SELECT'' table 0 s)"

text \<open>Pattern matching of \<open>LIKE\<close>: \<open>%\<close> stands for any text, \<open>_\<close> for one character, letters match in either case.\<close>

definition sql_fold :: "char \<Rightarrow> nat" where
  "sql_fold c = (if 65 \<le> (of_char c :: nat) \<and> (of_char c :: nat) \<le> 90 then of_char c + 32 else of_char c)"

fun sql_like :: "string \<Rightarrow> string \<Rightarrow> bool" where
  "sql_like [] s \<longleftrightarrow> s = []"
| "sql_like (p # ps) s \<longleftrightarrow>
     (if p = CHR ''%'' then sql_like ps s \<or> (case s of [] \<Rightarrow> False | _ # s' \<Rightarrow> sql_like (p # ps) s')
      else case s of [] \<Rightarrow> False | c # s' \<Rightarrow> (p = CHR ''_'' \<or> sql_fold p = sql_fold c) \<and> sql_like ps s')"

section \<open>The log of a store\<close>

definition audit_chain_ok :: "sql_env \<Rightarrow> AuditRepository \<Rightarrow> bool" where
  "audit_chain_ok env r \<longleftrightarrow> AR_hashChain r \<and> ids_ok r
     \<and> linked AE_PrevHash AE_EntryHash (calculateEntryHash (EV_sha256 env) (EV_fmt_time env)) [] (AR_rows r)
     \<and> AR_lastHash r = chain_tip AE_EntryHash [] (AR_rows r)"

lemma audit_chain_open: "audit_chain_ok env (open_audit nodeID [] 0)"
  by (simp add: audit_chain_ok_def open_audit_def ids_ok_def chain_tip_def)

lemma audit_chain_log:
  assumes "audit_chain_ok env r" and "AE_EntryHash e = []"
  shows "audit_chain_ok env (snd (snd (AuditRepository_Log (EV_sha256 env) (EV_fmt_time env) now ok e r)))"
proof -
  let ?r = "log_all (EV_sha256 env) (EV_fmt_time env) [(now, ok, e)] r"
  have "AR_hashChain ?r" using assms(1) by (simp add: audit_chain_ok_def log_all_fold)
  moreover have "ids_ok ?r" using assms(1) log_all_ids unfolding audit_chain_ok_def by blast
  ultimately show ?thesis
    using assms log_all_linked [of r "[(now, ok, e)]" "EV_sha256 env" "EV_fmt_time env" "[]"] by (simp add: audit_chain_ok_def)
qed

lemma audit_chain_verify:
  "audit_chain_ok env r \<Longrightarrow> AuditRepository_VerifyChain (EV_sha256 env) (EV_fmt_time env) 1 (AR_seq r) r"
  using range_verify [of "AR_rows r" 1 "AR_seq r" r] by (auto simp: audit_chain_ok_def ids_ok_def)

lemma log_statement_db [simp]:
  "SS_db (log_statement env q action table rows s) = SS_db s"
  "SS_nodeID (log_statement env q action table rows s) = SS_nodeID s"
  "SS_CacheTTL (log_statement env q action table rows s) = SS_CacheTTL s"
  by (simp_all add: log_statement_def)

lemma log_statement_chain:
  "audit_chain_ok env (SS_audit s) \<Longrightarrow> audit_chain_ok env (SS_audit (log_statement env q action table rows s))"
  by (simp add: log_statement_def audit_chain_log statement_entry_def Let_def)

lemma exec_chain [intro]:
  "audit_chain_ok env (SS_audit s) \<Longrightarrow> audit_chain_ok env (SS_audit (snd (execWithAudit env q action table run s)))"
  by (auto simp: execWithAudit_def log_statement_chain split: sum.splits prod.splits)

lemma query_chain [intro]:
  "audit_chain_ok env (SS_audit s) \<Longrightarrow> audit_chain_ok env (SS_audit (snd (queryWithAudit env q table run s)))"
  by (simp add: queryWithAudit_def log_statement_chain)

lemma query_db [simp]: "SS_db (snd (queryWithAudit env q table run s)) = SS_db s"
  by (simp add: queryWithAudit_def)

lemma exec_result:
  "execWithAudit env q action table run s = (res, s') \<Longrightarrow>
     (case res of Inl err \<Rightarrow> SS_db s' = SS_db s
      | Inr n \<Rightarrow> SQ_ok q \<and> run (SQ_fk q) (SS_db s) = Inr (n, SS_db s'))"
  by (auto simp: execWithAudit_def split: sum.splits prod.splits if_splits)

lemma sql_like_self: "list_all (\<lambda>c. c \<noteq> CHR ''%'') s \<Longrightarrow> sql_like s s"
  by (induction s) auto

lemma sql_like_any: "sql_like [CHR ''%''] s"
  by (induction s) auto

lemma sql_like_contains:
  assumes "list_all (\<lambda>c. c \<noteq> CHR ''%'') s"
  shows "sql_like (CHR ''%'' # s @ [CHR ''%'']) (pre @ s @ post)"
proof -
  have "sql_like (s @ [CHR ''%'']) (s @ post)" using assms
    by (induction s) (auto simp: sql_like_any simp del: sql_like.simps(2) simp: sql_like.simps(2) [of _ "_ @ _"])
  then show ?thesis by (induction pre) auto
qed

end
