(* ===== verification/Dataset_Repo.thy ===== *)
theory Dataset_Repo
  imports Sql_Store Datasets
begin

text \<open>
  The data set repository of the SQLite store (\<open>internal/storage/sqlite/datasets.go\<close>) over the
  tables of migration 1: data sets, versions and chunks with their primary keys, unique and check
  constraints and foreign keys. A row of a table is the record it decodes to; the JSON columns and
  the text form of an instant survive the round trip. A constraint violation is reported in the
  order of the engine: checks, then uniqueness, then foreign keys.

  Shown: after any sequence of operations the data sets are what the successful ones left, and every
  row passes the validation of the domain; the operations keep the constraints of the tables and the
  chain of the log; what is created can be read back; and the latest version is chosen by the text of its time stamp.
\<close>

section \<open>Definitions\<close>

record dataset_db =
  DB_topics :: "TopicID list"
  DB_datasets :: "Dataset list"
  DB_versions :: "DatasetVersion list"
  DB_chunks :: "Chunk list"

type_synonym dataset_store = "dataset_db SqlStore"

record DatasetFilter =
  DF_TopicID :: "TopicID option"
  DF_Status :: string
  DF_OwnerID :: "UserID option"
  DF_HasContent :: "bool option"
  DF_HasInstructions :: "bool option"
  DF_Search :: string
  DF_Limit :: int
  DF_Offset :: int
  DF_OrderBy :: string
  DF_OrderDesc :: bool

definition no_filter :: DatasetFilter where
  "no_filter = \<lparr>DF_TopicID = None, DF_Status = [], DF_OwnerID = None, DF_HasContent = None, DF_HasInstructions = None,
     DF_Search = [], DF_Limit = 0, DF_Offset = 0, DF_OrderBy = [], DF_OrderDesc = False\<rparr>"

subsection \<open>Statements\<close>

definition dataset_checks :: "Dataset \<Rightarrow> bool" where
  "dataset_checks d \<longleftrightarrow> DatasetStatus_IsValid (Dataset_Status d) \<and> 0 \<le> Dataset_VersionCount d"

definition insert_dataset :: "Dataset \<Rightarrow> bool \<Rightarrow> dataset_db \<Rightarrow> sql_error + (int \<times> dataset_db)" where
  "insert_dataset d fk db =
     (if \<not> dataset_checks d then Inl CheckViolation
      else if Dataset_ID d \<in> set (map Dataset_ID (DB_datasets db))
           \<or> (Dataset_TopicID d, Dataset_Name d) \<in> set (map (\<lambda>x. (Dataset_TopicID x, Dataset_Name x)) (DB_datasets db))
        then Inl UniqueViolation
      else if fk \<and> Dataset_TopicID d \<notin> set (DB_topics db) then Inl ForeignKeyViolation
      else Inr (1, db\<lparr>DB_datasets := DB_datasets db @ [d]\<rparr>))"

definition updated_dataset :: "instant \<Rightarrow> Dataset \<Rightarrow> Dataset \<Rightarrow> Dataset" where
  "updated_dataset now d old = d\<lparr>Dataset_CreatedBy := Dataset_CreatedBy old, Dataset_CreatedAt := Dataset_CreatedAt old, Dataset_UpdatedAt := now\<rparr>"

definition update_dataset :: "instant \<Rightarrow> Dataset \<Rightarrow> bool \<Rightarrow> dataset_db \<Rightarrow> sql_error + (int \<times> dataset_db)" where
  "update_dataset now d fk db =
     (if Dataset_ID d \<notin> set (map Dataset_ID (DB_datasets db)) then Inr (0, db)
      else if \<not> dataset_checks d then Inl CheckViolation
      else if \<exists>x \<in> set (DB_datasets db). Dataset_ID x \<noteq> Dataset_ID d \<and> Dataset_TopicID x = Dataset_TopicID d \<and> Dataset_Name x = Dataset_Name d
        then Inl UniqueViolation
      else if fk \<and> Dataset_TopicID d \<notin> set (DB_topics db) then Inl ForeignKeyViolation
      else Inr (1, db\<lparr>DB_datasets := map (\<lambda>x. if Dataset_ID x = Dataset_ID d then updated_dataset now d x else x) (DB_datasets db)\<rparr>))"

definition mark_deleted :: "instant \<Rightarrow> DatasetID \<Rightarrow> bool \<Rightarrow> dataset_db \<Rightarrow> sql_error + (int \<times> dataset_db)" where
  "mark_deleted now i fk db =
     (if i \<notin> set (map Dataset_ID (DB_datasets db)) then Inr (0, db)
      else Inr (1, db\<lparr>DB_datasets := map (\<lambda>x. if Dataset_ID x = i then x\<lparr>Dataset_Status := ''deleted'', Dataset_UpdatedAt := now\<rparr> else x)
                                        (DB_datasets db)\<rparr>))"

definition insert_version :: "DatasetVersion \<Rightarrow> bool \<Rightarrow> dataset_db \<Rightarrow> sql_error + (int \<times> dataset_db)" where
  "insert_version v fk db =
     (if Version_ID v \<in> set (map Version_ID (DB_versions db))
         \<or> (Version_DatasetID v, Version_Version v) \<in> set (map (\<lambda>x. (Version_DatasetID x, Version_Version x)) (DB_versions db))
        then Inl UniqueViolation
      else if fk \<and> (Version_DatasetID v \<notin> set (map Dataset_ID (DB_datasets db))
                 \<or> Version_PreviousVersionID v \<noteq> [] \<and> Version_PreviousVersionID v \<noteq> Version_ID v
                    \<and> Version_PreviousVersionID v \<notin> set (map Version_ID (DB_versions db)))
        then Inl ForeignKeyViolation
      else Inr (1, db\<lparr>DB_versions := DB_versions db @ [v]\<rparr>))"

definition chunk_checks :: "Chunk \<Rightarrow> bool" where
  "chunk_checks c \<longleftrightarrow> 0 \<le> Chunk_Index c \<and> 0 \<le> Chunk_Size c \<and> ChunkStatus_IsValid (Chunk_Status c)"

definition insert_chunk :: "Chunk \<Rightarrow> bool \<Rightarrow> dataset_db \<Rightarrow> sql_error + (int \<times> dataset_db)" where
  "insert_chunk c fk db =
     (if \<not> chunk_checks c then Inl CheckViolation
      else if Chunk_ID c \<in> set (map Chunk_ID (DB_chunks db))
           \<or> (Chunk_VersionID c, Chunk_Index c) \<in> set (map (\<lambda>x. (Chunk_VersionID x, Chunk_Index x)) (DB_chunks db))
        then Inl UniqueViolation
      else if fk \<and> (Chunk_DatasetID c \<notin> set (map Dataset_ID (DB_datasets db)) \<or> Chunk_VersionID c \<notin> set (map Version_ID (DB_versions db)))
        then Inl ForeignKeyViolation
      else Inr (1, db\<lparr>DB_chunks := DB_chunks db @ [c\<lparr>Chunk_Data := []\<rparr>]\<rparr>))"

definition set_chunk_status :: "ChunkID \<Rightarrow> string \<Rightarrow> bool \<Rightarrow> dataset_db \<Rightarrow> sql_error + (int \<times> dataset_db)" where
  "set_chunk_status i status fk db =
     (if i \<notin> set (map Chunk_ID (DB_chunks db)) then Inr (0, db)
      else if \<not> ChunkStatus_IsValid status then Inl CheckViolation
      else Inr (1, db\<lparr>DB_chunks := map (\<lambda>x. if Chunk_ID x = i then x\<lparr>Chunk_Status := status\<rparr> else x) (DB_chunks db)\<rparr>))"

subsection \<open>The repository\<close>

definition insert_outcome :: "(sql_error + int) \<Rightarrow> repo_error option" where
  "insert_outcome r = (case r of Inr n \<Rightarrow> None | Inl err \<Rightarrow> Some (if isConstraintError err then ErrAlreadyExists else SqlFailed err))"

definition update_outcome :: "(sql_error + int) \<Rightarrow> repo_error option" where
  "update_outcome r = (case r of Inl err \<Rightarrow> Some (SqlFailed err) | Inr n \<Rightarrow> if n = 0 then Some ErrNotFound else None)"

definition DatasetRepository_Create :: "sql_env \<Rightarrow> stmt \<Rightarrow> Dataset \<Rightarrow> dataset_store \<Rightarrow> repo_error option \<times> dataset_store" where
  "DatasetRepository_Create env q d s =
     (case Dataset_Validate d of
        Some err \<Rightarrow> (Some (Rejected err), s)
      | None \<Rightarrow> (case execWithAudit env q ''INSERT'' ''datasets'' (insert_dataset d) s of (r, s') \<Rightarrow> (insert_outcome r, s')))"

definition found :: "(sql_error + 'a option) \<Rightarrow> repo_error + 'a" where
  "found r = (case r of Inl err \<Rightarrow> Inl (SqlFailed err) | Inr None \<Rightarrow> Inl ErrNotFound | Inr (Some x) \<Rightarrow> Inr x)"

definition listed :: "(sql_error + 'a) \<Rightarrow> repo_error + 'a" where
  "listed r = (case r of Inl err \<Rightarrow> Inl (SqlFailed err) | Inr x \<Rightarrow> Inr x)"

definition DatasetRepository_Get :: "sql_env \<Rightarrow> stmt \<Rightarrow> DatasetID \<Rightarrow> dataset_store \<Rightarrow> (repo_error + Dataset) \<times> dataset_store" where
  "DatasetRepository_Get env q i s =
     (case queryWithAudit env q ''datasets'' (\<lambda>db. Inr (find (\<lambda>d. Dataset_ID d = i) (DB_datasets db))) s of (r, s') \<Rightarrow> (found r, s'))"

definition dataset_matches :: "(UserID list \<Rightarrow> string) \<Rightarrow> DatasetFilter \<Rightarrow> Dataset \<Rightarrow> bool" where
  "dataset_matches owners_json f d \<longleftrightarrow>
     (case DF_TopicID f of None \<Rightarrow> True | Some t \<Rightarrow> Dataset_TopicID d = t)
     \<and> (DF_Status f \<noteq> [] \<longrightarrow> Dataset_Status d = DF_Status f)
     \<and> (case DF_OwnerID f of None \<Rightarrow> True | Some u \<Rightarrow> sql_like (''%'' @ u @ ''%'') (owners_json (Dataset_Owners d)))
     \<and> (case DF_HasContent f of None \<Rightarrow> True | Some b \<Rightarrow> Dataset_HasContent d = b)
     \<and> (case DF_HasInstructions f of None \<Rightarrow> True | Some b \<Rightarrow> Dataset_HasInstructions d = b)
     \<and> (DF_Search f \<noteq> [] \<longrightarrow> sql_like (''%'' @ DF_Search f @ ''%'') (Dataset_Name d)
                             \<or> sql_like (''%'' @ DF_Search f @ ''%'') (Dataset_Description d))"

text \<open>
  \<open>order_by clause descending\<close> is what the engine makes of the order clause, which is the filter's
  text (\<open>None\<close> when it does not parse). An offset without a limit is a syntax error.
\<close>

definition list_datasets ::
    "(UserID list \<Rightarrow> string) \<Rightarrow> (string \<Rightarrow> bool \<Rightarrow> Dataset list \<Rightarrow> Dataset list option) \<Rightarrow> DatasetFilter \<Rightarrow> dataset_db
       \<Rightarrow> sql_error + Dataset list" where
  "list_datasets owners_json order_by f db =
     (if DF_Limit f \<le> 0 \<and> 0 < DF_Offset f then Inl EngineError
      else case order_by (if DF_OrderBy f \<noteq> [] then DF_OrderBy f else ''name'') (DF_OrderDesc f)
                  (filter (dataset_matches owners_json f) (DB_datasets db)) of
             None \<Rightarrow> Inl EngineError
           | Some ds \<Rightarrow>
               let ds' = (if 0 < DF_Offset f then drop (nat (DF_Offset f)) ds else ds)
               in Inr (if 0 < DF_Limit f then take (nat (DF_Limit f)) ds' else ds'))"

definition DatasetRepository_List ::
    "(UserID list \<Rightarrow> string) \<Rightarrow> (string \<Rightarrow> bool \<Rightarrow> Dataset list \<Rightarrow> Dataset list option) \<Rightarrow> sql_env \<Rightarrow> stmt \<Rightarrow> DatasetFilter
       \<Rightarrow> dataset_store \<Rightarrow> (repo_error + Dataset list) \<times> dataset_store" where
  "DatasetRepository_List owners_json order_by env q f s =
     (case queryWithAudit env q ''datasets'' (list_datasets owners_json order_by f) s of (r, s') \<Rightarrow> (listed r, s'))"

definition DatasetRepository_Update :: "sql_env \<Rightarrow> stmt \<Rightarrow> instant \<Rightarrow> Dataset \<Rightarrow> dataset_store \<Rightarrow> repo_error option \<times> dataset_store" where
  "DatasetRepository_Update env q now d s =
     (case Dataset_Validate d of
        Some err \<Rightarrow> (Some (Rejected err), s)
      | None \<Rightarrow> (case execWithAudit env q ''UPDATE'' ''datasets'' (update_dataset now d) s of (r, s') \<Rightarrow> (update_outcome r, s')))"

definition DatasetRepository_Delete :: "sql_env \<Rightarrow> stmt \<Rightarrow> instant \<Rightarrow> DatasetID \<Rightarrow> dataset_store \<Rightarrow> repo_error option \<times> dataset_store" where
  "DatasetRepository_Delete env q now i s =
     (case execWithAudit env q ''UPDATE'' ''datasets'' (mark_deleted now i) s of (r, s') \<Rightarrow> (update_outcome r, s'))"

definition DatasetRepository_Count :: "sql_env \<Rightarrow> stmt \<Rightarrow> DatasetFilter \<Rightarrow> dataset_store \<Rightarrow> (repo_error + int) \<times> dataset_store" where
  "DatasetRepository_Count env q f s =
     (case queryWithAudit env q ''datasets'' (\<lambda>db. Inr (int (length (filter (\<lambda>d.
             (case DF_TopicID f of None \<Rightarrow> True | Some t \<Rightarrow> Dataset_TopicID d = t)
             \<and> (DF_Status f \<noteq> [] \<longrightarrow> Dataset_Status d = DF_Status f)) (DB_datasets db))))) s of
        (r, s') \<Rightarrow> (listed r, s'))"

definition CreateVersion :: "sql_env \<Rightarrow> stmt \<Rightarrow> DatasetVersion \<Rightarrow> dataset_store \<Rightarrow> repo_error option \<times> dataset_store" where
  "CreateVersion env q v s =
     (case DatasetVersion_Validate v of
        Some err \<Rightarrow> (Some (Rejected err), s)
      | None \<Rightarrow> (case execWithAudit env q ''INSERT'' ''dataset_versions'' (insert_version v) s of (r, s') \<Rightarrow> (insert_outcome r, s')))"

definition GetVersion :: "sql_env \<Rightarrow> stmt \<Rightarrow> DatasetID \<Rightarrow> DatasetVersionID \<Rightarrow> dataset_store \<Rightarrow> (repo_error + DatasetVersion) \<times> dataset_store" where
  "GetVersion env q d i s =
     (case queryWithAudit env q ''dataset_versions'' (\<lambda>db. Inr (find (\<lambda>v. Version_DatasetID v = d \<and> Version_ID v = i) (DB_versions db))) s of
        (r, s') \<Rightarrow> (found r, s'))"

text \<open>Descending order of a text column.\<close>

fun insert_desc :: "('a \<Rightarrow> string) \<Rightarrow> 'a \<Rightarrow> 'a list \<Rightarrow> 'a list" where
  "insert_desc key x [] = [x]"
| "insert_desc key x (y # ys) = (if text_le (key y) (key x) \<and> key y \<noteq> key x then x # y # ys else y # insert_desc key x ys)"

definition versions_desc :: "sql_env \<Rightarrow> DatasetID \<Rightarrow> dataset_db \<Rightarrow> DatasetVersion list" where
  "versions_desc env d db =
     foldl (\<lambda>vs v. insert_desc (\<lambda>v. EV_fmt_time env (Version_CreatedAt v)) v vs) [] (filter (\<lambda>v. Version_DatasetID v = d) (DB_versions db))"

definition GetLatestVersion :: "sql_env \<Rightarrow> stmt \<Rightarrow> DatasetID \<Rightarrow> dataset_store \<Rightarrow> (repo_error + DatasetVersion) \<times> dataset_store" where
  "GetLatestVersion env q d s =
     (case queryWithAudit env q ''dataset_versions'' (\<lambda>db. Inr (case versions_desc env d db of [] \<Rightarrow> None | v # _ \<Rightarrow> Some v)) s of
        (r, s') \<Rightarrow> (found r, s'))"

definition ListVersions :: "sql_env \<Rightarrow> stmt \<Rightarrow> DatasetID \<Rightarrow> dataset_store \<Rightarrow> (repo_error + DatasetVersion list) \<times> dataset_store" where
  "ListVersions env q d s =
     (case queryWithAudit env q ''dataset_versions'' (\<lambda>db. Inr (versions_desc env d db)) s of (r, s') \<Rightarrow> (listed r, s'))"

definition CreateChunk :: "sql_env \<Rightarrow> stmt \<Rightarrow> Chunk \<Rightarrow> dataset_store \<Rightarrow> repo_error option \<times> dataset_store" where
  "CreateChunk env q c s =
     (case Chunk_Validate c of
        Some err \<Rightarrow> (Some (Rejected err), s)
      | None \<Rightarrow> (case execWithAudit env q ''INSERT'' ''chunks'' (insert_chunk c) s of (r, s') \<Rightarrow> (insert_outcome r, s')))"

definition GetChunk :: "sql_env \<Rightarrow> stmt \<Rightarrow> DatasetVersionID \<Rightarrow> int \<Rightarrow> dataset_store \<Rightarrow> (repo_error + Chunk) \<times> dataset_store" where
  "GetChunk env q v i s =
     (case queryWithAudit env q ''chunks'' (\<lambda>db. Inr (find (\<lambda>c. Chunk_VersionID c = v \<and> Chunk_Index c = i) (DB_chunks db))) s of
        (r, s') \<Rightarrow> (found r, s'))"

definition ListChunks :: "sql_env \<Rightarrow> stmt \<Rightarrow> DatasetVersionID \<Rightarrow> dataset_store \<Rightarrow> (repo_error + Chunk list) \<times> dataset_store" where
  "ListChunks env q v s =
     (case queryWithAudit env q ''chunks'' (\<lambda>db. Inr (sort_key Chunk_Index (filter (\<lambda>c. Chunk_VersionID c = v) (DB_chunks db)))) s of
        (r, s') \<Rightarrow> (listed r, s'))"

definition UpdateChunkStatus :: "sql_env \<Rightarrow> stmt \<Rightarrow> ChunkID \<Rightarrow> string \<Rightarrow> dataset_store \<Rightarrow> repo_error option \<times> dataset_store" where
  "UpdateChunkStatus env q i status s =
     (case execWithAudit env q ''UPDATE'' ''chunks'' (set_chunk_status i status) s of (r, s') \<Rightarrow> (update_outcome r, s'))"

text \<open>
  The operations of the repository, and a run of them. \<open>List\<close> is left out: its order clause is a text
  of the caller that is pasted into the statement, so what it does is not fixed by the code.
\<close>

datatype repo_op =
    OpCreate Dataset | OpUpdate instant Dataset | OpDelete instant DatasetID | OpCreateVersion DatasetVersion
  | OpCreateChunk Chunk | OpUpdateChunkStatus ChunkID string
  | OpGet DatasetID | OpGetVersion DatasetID DatasetVersionID | OpGetLatest DatasetID | OpListVersions DatasetID
  | OpGetChunk DatasetVersionID int | OpListChunks DatasetVersionID | OpCount DatasetFilter

fun repo_apply :: "sql_env \<Rightarrow> stmt \<Rightarrow> repo_op \<Rightarrow> dataset_store \<Rightarrow> dataset_store" where
  "repo_apply env q (OpCreate d) s = snd (DatasetRepository_Create env q d s)"
| "repo_apply env q (OpUpdate now d) s = snd (DatasetRepository_Update env q now d s)"
| "repo_apply env q (OpDelete now i) s = snd (DatasetRepository_Delete env q now i s)"
| "repo_apply env q (OpCreateVersion v) s = snd (CreateVersion env q v s)"
| "repo_apply env q (OpCreateChunk c) s = snd (CreateChunk env q c s)"
| "repo_apply env q (OpUpdateChunkStatus i st) s = snd (UpdateChunkStatus env q i st s)"
| "repo_apply env q (OpGet i) s = snd (DatasetRepository_Get env q i s)"
| "repo_apply env q (OpGetVersion d i) s = snd (GetVersion env q d i s)"
| "repo_apply env q (OpGetLatest d) s = snd (GetLatestVersion env q d s)"
| "repo_apply env q (OpListVersions d) s = snd (ListVersions env q d s)"
| "repo_apply env q (OpGetChunk v i) s = snd (GetChunk env q v i s)"
| "repo_apply env q (OpListChunks v) s = snd (ListChunks env q v s)"
| "repo_apply env q (OpCount f) s = snd (DatasetRepository_Count env q f s)"

definition repo_run :: "sql_env \<Rightarrow> (stmt \<times> repo_op) list \<Rightarrow> dataset_store \<Rightarrow> dataset_store" where
  "repo_run env ops s = foldl (\<lambda>s (q, op). repo_apply env q op s) s ops"

section \<open>The constraints of the tables\<close>

definition db_ok :: "dataset_db \<Rightarrow> bool" where
  "db_ok db \<longleftrightarrow>
     distinct (map Dataset_ID (DB_datasets db)) \<and> distinct (map (\<lambda>d. (Dataset_TopicID d, Dataset_Name d)) (DB_datasets db))
     \<and> list_all dataset_checks (DB_datasets db)
     \<and> distinct (map Version_ID (DB_versions db)) \<and> distinct (map (\<lambda>v. (Version_DatasetID v, Version_Version v)) (DB_versions db))
     \<and> distinct (map Chunk_ID (DB_chunks db)) \<and> distinct (map (\<lambda>c. (Chunk_VersionID c, Chunk_Index c)) (DB_chunks db))
     \<and> list_all chunk_checks (DB_chunks db)"

definition refs_ok :: "dataset_db \<Rightarrow> bool" where
  "refs_ok db \<longleftrightarrow>
     list_all (\<lambda>d. Dataset_TopicID d \<in> set (DB_topics db)) (DB_datasets db)
     \<and> list_all (\<lambda>v. Version_DatasetID v \<in> set (map Dataset_ID (DB_datasets db))
                    \<and> (Version_PreviousVersionID v \<noteq> [] \<longrightarrow> Version_PreviousVersionID v \<in> set (map Version_ID (DB_versions db)))) (DB_versions db)
     \<and> list_all (\<lambda>c. Chunk_DatasetID c \<in> set (map Dataset_ID (DB_datasets db)) \<and> Chunk_VersionID c \<in> set (map Version_ID (DB_versions db)))
         (DB_chunks db)"

lemma map_if_same: "(\<And>x. P x \<Longrightarrow> f (g x) = f x) \<Longrightarrow> map f (map (\<lambda>x. if P x then g x else x) xs) = map f xs"
  by simp

lemma distinct_map_replace:
  assumes "distinct (map f xs)" and "\<And>x. x \<in> set xs \<Longrightarrow> P x \<Longrightarrow> f (g x) = k"
    and "\<And>x. x \<in> set xs \<Longrightarrow> \<not> P x \<Longrightarrow> f x \<noteq> k" and "\<And>x y. x \<in> set xs \<Longrightarrow> y \<in> set xs \<Longrightarrow> P x \<Longrightarrow> P y \<Longrightarrow> f x = f y"
  shows "distinct (map f (map (\<lambda>x. if P x then g x else x) xs))"
proof -
  have xs: "distinct xs" and inj: "inj_on f (set xs)" using assms(1) by (simp_all add: distinct_map)
  have "inj_on (\<lambda>x. f (if P x then g x else x)) (set xs)"
  proof (rule inj_onI)
    fix x y assume "x \<in> set xs" "y \<in> set xs" "f (if P x then g x else x) = f (if P y then g y else y)"
    then have "f x = f y" using assms(2) [of x] assms(2) [of y] assms(3) [of x] assms(3) [of y] assms(4) [of x y]
      by (cases "P x"; cases "P y") simp_all
    then show "x = y" using \<open>x \<in> set xs\<close> \<open>y \<in> set xs\<close> by (rule inj_onD [OF inj])
  qed
  then show ?thesis using xs by (simp add: distinct_map comp_def)
qed

lemma distinct_datasets_eq:
  "db_ok db \<Longrightarrow> x \<in> set (DB_datasets db) \<Longrightarrow> y \<in> set (DB_datasets db) \<Longrightarrow> Dataset_ID x = Dataset_ID y \<Longrightarrow> x = y"
  by (auto simp: db_ok_def distinct_map inj_on_def)

lemma insert_dataset_ok:
  assumes "insert_dataset d fk db = Inr (n, db')"
  shows "db_ok db \<Longrightarrow> db_ok db'" and "refs_ok db \<Longrightarrow> fk \<Longrightarrow> refs_ok db'"
  using assms by (auto simp: insert_dataset_def db_ok_def refs_ok_def list_all_iff split: if_splits)

lemma update_dataset_ok:
  assumes "update_dataset now d fk db = Inr (n, db')"
  shows "db_ok db \<Longrightarrow> db_ok db'" and "refs_ok db \<Longrightarrow> fk \<Longrightarrow> refs_ok db'"
proof -
  let ?u = "map (\<lambda>x. if Dataset_ID x = Dataset_ID d then updated_dataset now d x else x) (DB_datasets db)"
  have ids: "map Dataset_ID ?u = map Dataset_ID (DB_datasets db)"
    by (rule map_if_same) (simp add: updated_dataset_def)
  { assume ok: "db_ok db" and new: "db' = db\<lparr>DB_datasets := ?u\<rparr>" and checks: "dataset_checks d"
      and free: "\<not> (\<exists>x \<in> set (DB_datasets db). Dataset_ID x \<noteq> Dataset_ID d \<and> Dataset_TopicID x = Dataset_TopicID d \<and> Dataset_Name x = Dataset_Name d)"
    have "distinct (map (\<lambda>d. (Dataset_TopicID d, Dataset_Name d)) ?u)"
      using ok free by (intro distinct_map_replace [where k = "(Dataset_TopicID d, Dataset_Name d)"])
        (auto simp: db_ok_def updated_dataset_def dest: distinct_datasets_eq [OF ok])
    moreover have "list_all dataset_checks ?u"
      using ok checks by (auto simp: db_ok_def list_all_iff updated_dataset_def dataset_checks_def)
    ultimately have "db_ok db'" using ok unfolding new db_ok_def by (simp add: ids del: map_map) }
  then show "db_ok db \<Longrightarrow> db_ok db'" using assms by (auto simp: update_dataset_def split: if_splits)
  { assume ok: "refs_ok db" and new: "db' = db\<lparr>DB_datasets := ?u\<rparr>" and t: "Dataset_TopicID d \<in> set (DB_topics db)"
    have "list_all (\<lambda>d. Dataset_TopicID d \<in> set (DB_topics db)) ?u"
      using ok t by (auto simp: refs_ok_def list_all_iff updated_dataset_def)
    then have "refs_ok db'" using ok unfolding new refs_ok_def by (simp add: ids del: map_map set_map) }
  then show "refs_ok db \<Longrightarrow> fk \<Longrightarrow> refs_ok db'" using assms by (auto simp: update_dataset_def split: if_splits)
qed

lemma mark_deleted_ok:
  assumes "mark_deleted now i fk db = Inr (n, db')"
  shows "db_ok db \<Longrightarrow> db_ok db'" and "refs_ok db \<Longrightarrow> refs_ok db'"
proof -
  let ?u = "map (\<lambda>x. if Dataset_ID x = i then x\<lparr>Dataset_Status := ''deleted'', Dataset_UpdatedAt := now\<rparr> else x) (DB_datasets db)"
  have same: "map Dataset_ID ?u = map Dataset_ID (DB_datasets db)" "map Dataset_TopicID ?u = map Dataset_TopicID (DB_datasets db)"
    "map (\<lambda>d. (Dataset_TopicID d, Dataset_Name d)) ?u = map (\<lambda>d. (Dataset_TopicID d, Dataset_Name d)) (DB_datasets db)"
    by simp_all
  have db': "db' = db \<or> db' = db\<lparr>DB_datasets := ?u\<rparr>" using assms by (auto simp: mark_deleted_def split: if_splits)
  have checks: "list_all dataset_checks (DB_datasets db) \<Longrightarrow> list_all dataset_checks ?u"
    by (auto simp: list_all_iff dataset_checks_def DatasetStatus_IsValid_def)
  have topics: "list_all (\<lambda>d. Dataset_TopicID d \<in> set (DB_topics db)) (DB_datasets db)
      \<Longrightarrow> list_all (\<lambda>d. Dataset_TopicID d \<in> set (DB_topics db)) ?u"
    by (auto simp: list_all_iff)
  show "db_ok db \<Longrightarrow> db_ok db'"
    using db' checks by (elim disjE) (simp_all add: db_ok_def same del: map_map)
  show "refs_ok db \<Longrightarrow> refs_ok db'"
    using db' topics by (elim disjE) (simp_all add: refs_ok_def same del: map_map set_map)
qed

lemma insert_version_ok:
  assumes "insert_version v fk db = Inr (n, db')"
  shows "db_ok db \<Longrightarrow> db_ok db'" and "refs_ok db \<Longrightarrow> fk \<Longrightarrow> refs_ok db'"
proof -
  show "db_ok db \<Longrightarrow> db_ok db'" using assms by (auto simp: insert_version_def db_ok_def split: if_splits)
  show "refs_ok db \<Longrightarrow> fk \<Longrightarrow> refs_ok db'" using assms by (auto simp: insert_version_def refs_ok_def list_all_iff split: if_splits)
qed

lemma insert_chunk_ok:
  assumes "insert_chunk c fk db = Inr (n, db')"
  shows "db_ok db \<Longrightarrow> db_ok db'" and "refs_ok db \<Longrightarrow> fk \<Longrightarrow> refs_ok db'"
proof -
  have "chunk_checks (c\<lparr>Chunk_Data := []\<rparr>) = chunk_checks c" by (simp add: chunk_checks_def)
  then show "db_ok db \<Longrightarrow> db_ok db'" using assms by (auto simp: insert_chunk_def db_ok_def split: if_splits)
  show "refs_ok db \<Longrightarrow> fk \<Longrightarrow> refs_ok db'" using assms by (auto simp: insert_chunk_def refs_ok_def list_all_iff split: if_splits)
qed

lemma set_chunk_status_ok:
  assumes "set_chunk_status i status fk db = Inr (n, db')"
  shows "db_ok db \<Longrightarrow> db_ok db'" and "refs_ok db \<Longrightarrow> refs_ok db'"
proof -
  let ?u = "map (\<lambda>x. if Chunk_ID x = i then x\<lparr>Chunk_Status := status\<rparr> else x) (DB_chunks db)"
  have same: "map Chunk_ID ?u = map Chunk_ID (DB_chunks db)"
    "map (\<lambda>c. (Chunk_VersionID c, Chunk_Index c)) ?u = map (\<lambda>c. (Chunk_VersionID c, Chunk_Index c)) (DB_chunks db)"
    by simp_all
  have db': "db' = db \<or> db' = db\<lparr>DB_chunks := ?u\<rparr> \<and> ChunkStatus_IsValid status"
    using assms by (auto simp: set_chunk_status_def split: if_splits)
  have checks: "ChunkStatus_IsValid status \<Longrightarrow> list_all chunk_checks (DB_chunks db) \<Longrightarrow> list_all chunk_checks ?u"
    by (auto simp: list_all_iff chunk_checks_def)
  show "db_ok db \<Longrightarrow> db_ok db'"
    using db' checks by (elim disjE) (simp_all add: db_ok_def same del: map_map)
  show "refs_ok db \<Longrightarrow> refs_ok db'" using db' by (auto simp: refs_ok_def list_all_iff)
qed

lemmas statement_ok = insert_dataset_ok update_dataset_ok mark_deleted_ok insert_version_ok insert_chunk_ok set_chunk_status_ok

lemma exec_inv:
  assumes "P (SS_db s)" and "\<And>n db'. run (SQ_fk q) (SS_db s) = Inr (n, db') \<Longrightarrow> P db'"
  shows "P (SS_db (snd (execWithAudit env q action table run s)))"
proof -
  obtain res s' where "execWithAudit env q action table run s = (res, s')" by force
  then show ?thesis using exec_result [of env q action table run s res s'] assms by (auto split: sum.splits)
qed

lemmas repo_operations =
  DatasetRepository_Create_def DatasetRepository_Get_def DatasetRepository_Update_def DatasetRepository_Delete_def
  DatasetRepository_Count_def CreateVersion_def GetVersion_def GetLatestVersion_def ListVersions_def CreateChunk_def GetChunk_def
  ListChunks_def UpdateChunkStatus_def

lemma snd_case_result: "snd (case p of (r, s') \<Rightarrow> (f r, s')) = snd p"
  by (simp add: case_prod_beta)

lemma repo_apply_db_ok: "db_ok (SS_db s) \<Longrightarrow> db_ok (SS_db (repo_apply env q op s))"
  by (cases op) (auto simp: repo_operations snd_case_result split: option.splits intro: exec_inv statement_ok)

lemma repo_apply_refs_ok: "SQ_fk q \<Longrightarrow> refs_ok (SS_db s) \<Longrightarrow> refs_ok (SS_db (repo_apply env q op s))"
  by (cases op) (auto simp: repo_operations snd_case_result split: option.splits intro: exec_inv statement_ok)

lemma repo_apply_chain: "audit_chain_ok env (SS_audit s) \<Longrightarrow> audit_chain_ok env (SS_audit (repo_apply env q op s))"
  by (cases op) (auto simp: repo_operations snd_case_result split: option.splits)

lemma repo_run_snoc: "repo_run env (ops @ [(q, op)]) s = repo_apply env q op (repo_run env ops s)"
  by (simp add: repo_run_def)

lemma repo_run_ok:
  assumes "db_ok (SS_db s)" and "audit_chain_ok env (SS_audit s)"
  shows "db_ok (SS_db (repo_run env ops s)) \<and> audit_chain_ok env (SS_audit (repo_run env ops s))"
proof (induction ops rule: rev_induct)
  case (snoc x ops)
  then show ?case by (cases x) (simp add: repo_run_snoc repo_apply_db_ok repo_apply_chain)
qed (simp add: repo_run_def assms)

lemma repo_run_refs: "refs_ok (SS_db s) \<Longrightarrow> list_all (\<lambda>(q, op). SQ_fk q) ops \<Longrightarrow> refs_ok (SS_db (repo_run env ops s))"
proof (induction ops rule: rev_induct)
  case (snoc x ops)
  then show ?case by (cases x) (simp add: repo_run_snoc repo_apply_refs_ok)
qed (simp add: repo_run_def)

definition empty_db :: "TopicID list \<Rightarrow> dataset_db" where
  "empty_db topics = \<lparr>DB_topics = topics, DB_datasets = [], DB_versions = [], DB_chunks = []\<rparr>"

text \<open>
  Through any sequence of repository operations on a new store, with statements failing and clocks
  reading whatever they do, the tables keep their constraints (unique identifiers, unique names in a
  topic, unique version strings in a data set, unique chunk positions in a version, valid states, counts
  and sizes) and the log of the statements verifies. When every statement runs on a connection with
  foreign keys switched on, every data set is in an existing topic and every version and chunk belongs
  to an existing data set and version.
\<close>

theorem repository_keeps_constraints:
  fixes env :: sql_env and nodeID :: string and ttl :: duration and topics :: "TopicID list" and ops :: "(stmt \<times> repo_op) list"
  defines "s \<equiv> repo_run env ops (open_store nodeID ttl (empty_db topics))"
  shows "db_ok (SS_db s)
    \<and> AuditRepository_VerifyChain (EV_sha256 env) (EV_fmt_time env) 1 (AR_seq (SS_audit s)) (SS_audit s)
    \<and> (list_all (\<lambda>(q, op). SQ_fk q) ops \<longrightarrow> refs_ok (SS_db s))"
proof -
  have init: "db_ok (empty_db topics)" "refs_ok (empty_db topics)" by (simp_all add: empty_db_def db_ok_def refs_ok_def)
  have run: "db_ok (SS_db s) \<and> audit_chain_ok env (SS_audit s)"
    unfolding s_def by (rule repo_run_ok) (simp_all add: open_store_def init audit_chain_open)
  moreover have "list_all (\<lambda>(q, op). SQ_fk q) ops \<Longrightarrow> refs_ok (SS_db s)"
    unfolding s_def by (rule repo_run_refs) (simp_all add: open_store_def init)
  ultimately show ?thesis by (blast intro: audit_chain_verify)
qed

definition sample_stmt :: stmt where
  "sample_stmt = \<lparr>SQ_ok = True, SQ_fk = True, SQ_start = 0, SQ_end = 5000000, SQ_log_now = 6000000, SQ_log_ok = True, SQ_uuid = ''u''\<rparr>"

definition sample_env :: sql_env where
  "sample_env = \<lparr>EV_sha256 = (\<lambda>s. replicate 32 (of_nat (length s))), EV_fmt_time = (\<lambda>t. ''t''), EV_ctx = None\<rparr>"

definition sample_dataset :: Dataset where
  "sample_dataset = \<lparr>Dataset_ID = ''d1'', Dataset_TopicID = ''t1'', Dataset_Name = ''rain'', Dataset_Description = [], Dataset_Status = ''active'',
     Dataset_LatestVersionID = [], Dataset_VersionCount = 0, Dataset_HasContent = False, Dataset_HasInstructions = False, Dataset_Owners = [''u1''],
     Dataset_CreatedBy = ''u1'', Dataset_CreatedAt = 0, Dataset_UpdatedAt = 0, Dataset_Tags = [], Dataset_Metadata = (\<lambda>_. None)\<rparr>"

section \<open>The data sets follow the operations\<close>

text \<open>
  The specification: the data sets are a map from identifiers, changed by the operations that
  reported success and by nothing else.
\<close>

fun op_outcome :: "sql_env \<Rightarrow> stmt \<Rightarrow> repo_op \<Rightarrow> dataset_store \<Rightarrow> repo_error option" where
  "op_outcome env q (OpCreate d) s = fst (DatasetRepository_Create env q d s)"
| "op_outcome env q (OpUpdate now d) s = fst (DatasetRepository_Update env q now d s)"
| "op_outcome env q (OpDelete now i) s = fst (DatasetRepository_Delete env q now i s)"
| "op_outcome env q _ s = None"

fun spec_step :: "repo_op \<Rightarrow> (DatasetID \<rightharpoonup> Dataset) \<Rightarrow> (DatasetID \<rightharpoonup> Dataset)" where
  "spec_step (OpCreate d) A = A(Dataset_ID d \<mapsto> d)"
| "spec_step (OpUpdate now d) A = A(Dataset_ID d \<mapsto> updated_dataset now d (the (A (Dataset_ID d))))"
| "spec_step (OpDelete now i) A = A(i \<mapsto> (the (A i))\<lparr>Dataset_Status := ''deleted'', Dataset_UpdatedAt := now\<rparr>)"
| "spec_step _ A = A"

fun spec_run :: "sql_env \<Rightarrow> (stmt \<times> repo_op) list \<Rightarrow> dataset_store \<Rightarrow> (DatasetID \<rightharpoonup> Dataset) \<Rightarrow> (DatasetID \<rightharpoonup> Dataset)" where
  "spec_run env [] s A = A"
| "spec_run env ((q, op) # ops) s A =
     spec_run env ops (repo_apply env q op s) (if op_outcome env q op s = None then spec_step op A else A)"

text \<open>The rows against the map, with the validity the repository checks before it writes.\<close>

definition follows :: "dataset_db \<Rightarrow> (DatasetID \<rightharpoonup> Dataset) \<Rightarrow> bool" where
  "follows db A \<longleftrightarrow>
     (\<forall>i. find (\<lambda>d. Dataset_ID d = i) (DB_datasets db) = A i)
     \<and> (\<forall>d \<in> set (DB_datasets db). Dataset_Validate d = None)
     \<and> (\<forall>v \<in> set (DB_versions db). DatasetVersion_Validate v = None)
     \<and> (\<forall>c \<in> set (DB_chunks db). Chunk_Validate c = None)"

lemma find_append: "find P (xs @ ys) = (case find P xs of None \<Rightarrow> find P ys | Some x \<Rightarrow> Some x)"
  by (induction xs) auto

lemma find_replaced:
  assumes "\<And>x. Dataset_ID x = j \<Longrightarrow> Dataset_ID (g x) = j"
  shows "find (\<lambda>d. Dataset_ID d = i) (map (\<lambda>x. if Dataset_ID x = j then g x else x) xs)
    = (if i = j then map_option g (find (\<lambda>d. Dataset_ID d = i) xs) else find (\<lambda>d. Dataset_ID d = i) xs)"
  using assms by (induction xs) auto

lemma find_id_None: "find (\<lambda>d. Dataset_ID d = i) xs = None \<longleftrightarrow> i \<notin> set (map Dataset_ID xs)"
  by (auto simp: find_None_iff)

lemma updated_valid: "Dataset_Validate (updated_dataset now d x) = Dataset_Validate d"
  by (simp add: updated_dataset_def Dataset_Validate_def)

lemma deleted_valid: "Dataset_Validate x = None \<Longrightarrow> Dataset_Validate (x\<lparr>Dataset_Status := ''deleted'', Dataset_UpdatedAt := now\<rparr>) = None"
  by (auto simp: Dataset_Validate_def DatasetStatus_IsValid_def split: if_splits)

lemma insert_follows:
  assumes "follows db A" and "Dataset_Validate d = None" and "insert_dataset d fk db = Inr (n, db')"
  shows "follows db' (A(Dataset_ID d \<mapsto> d))"
proof -
  have db': "db' = db\<lparr>DB_datasets := DB_datasets db @ [d]\<rparr>" and new: "Dataset_ID d \<notin> set (map Dataset_ID (DB_datasets db))"
    using assms(3) by (auto simp: insert_dataset_def split: if_splits)
  have "find (\<lambda>x. Dataset_ID x = Dataset_ID d) (DB_datasets db) = None" using new by (simp only: find_id_None not_False_eq_True)
  then show ?thesis using assms(1,2) by (auto simp: follows_def db' find_append split: option.splits)
qed

lemma update_follows:
  assumes "follows db A" and "Dataset_Validate d = None" and "update_dataset now d fk db = Inr (n, db')" and "n \<noteq> 0"
  shows "follows db' (A(Dataset_ID d \<mapsto> updated_dataset now d (the (A (Dataset_ID d)))))"
proof -
  have db': "db' = db\<lparr>DB_datasets := map (\<lambda>x. if Dataset_ID x = Dataset_ID d then updated_dataset now d x else x) (DB_datasets db)\<rparr>"
    and old: "Dataset_ID d \<in> set (map Dataset_ID (DB_datasets db))"
    using assms(3,4) by (auto simp: update_dataset_def split: if_splits)
  have "find (\<lambda>x. Dataset_ID x = Dataset_ID d) (DB_datasets db) \<noteq> None" using old by (simp only: find_id_None not_not)
  then obtain x where "A (Dataset_ID d) = Some x" using assms(1) by (auto simp: follows_def)
  moreover have "Dataset_ID (updated_dataset now d y) = Dataset_ID d" for y by (simp add: updated_dataset_def)
  ultimately show ?thesis using assms(1,2)
    by (auto simp: follows_def db' find_replaced updated_valid)
qed

lemma delete_follows:
  assumes "follows db A" and "mark_deleted now i fk db = Inr (n, db')" and "n \<noteq> 0"
  shows "follows db' (A(i \<mapsto> (the (A i))\<lparr>Dataset_Status := ''deleted'', Dataset_UpdatedAt := now\<rparr>))"
proof -
  have db': "db' = db\<lparr>DB_datasets := map (\<lambda>x. if Dataset_ID x = i then x\<lparr>Dataset_Status := ''deleted'', Dataset_UpdatedAt := now\<rparr> else x) (DB_datasets db)\<rparr>"
    and old: "i \<in> set (map Dataset_ID (DB_datasets db))"
    using assms(2,3) by (auto simp: mark_deleted_def split: if_splits)
  have "find (\<lambda>x. Dataset_ID x = i) (DB_datasets db) \<noteq> None" using old by (simp only: find_id_None not_not)
  then obtain x where "A i = Some x" using assms(1) by (auto simp: follows_def)
  then show ?thesis using assms(1) by (auto simp: follows_def db' find_replaced deleted_valid)
qed

lemma version_follows:
  assumes "follows db A" and "DatasetVersion_Validate v = None" and "insert_version v fk db = Inr (n, db')"
  shows "follows db' A"
  using assms by (auto simp: follows_def insert_version_def split: if_splits)

lemma chunk_follows:
  assumes "follows db A" and "Chunk_Validate c = None" and "insert_chunk c fk db = Inr (n, db')"
  shows "follows db' A"
  using assms by (auto simp: follows_def insert_chunk_def Chunk_Validate_def split: if_splits)

lemma chunk_status_follows:
  assumes "follows db A" and "set_chunk_status i st fk db = Inr (n, db')"
  shows "follows db' A"
proof -
  have "Chunk_Validate (c\<lparr>Chunk_Status := st\<rparr>) = Chunk_Validate c" for c by (simp add: Chunk_Validate_def)
  then show ?thesis using assms by (auto simp: follows_def set_chunk_status_def split: if_splits)
qed

text \<open>What a statement does to the tables: nothing when it fails, the change otherwise.\<close>

lemma exec_cases:
  assumes "execWithAudit env q act tab run s = (r, s')"
  obtains (failed) err where "r = Inl err" and "SS_db s' = SS_db s"
  | (ran) n where "r = Inr n" and "run (SQ_fk q) (SS_db s) = Inr (n, SS_db s')"
  using exec_result [OF assms] by (cases r) auto

lemma apply_follows:
  assumes "follows (SS_db s) A"
  shows "follows (SS_db (repo_apply env q op s)) (if op_outcome env q op s = None then spec_step op A else A)"
proof (cases op)
  case (OpCreate d)
  show ?thesis
  proof (cases "Dataset_Validate d")
    case None
    obtain r s' where x: "execWithAudit env q ''INSERT'' ''datasets'' (insert_dataset d) s = (r, s')" by force
    then show ?thesis
      by (cases rule: exec_cases)
         (use assms OpCreate None x insert_follows [OF assms None] in \<open>auto simp: DatasetRepository_Create_def insert_outcome_def\<close>)
  qed (use assms OpCreate in \<open>simp add: DatasetRepository_Create_def\<close>)
next
  case (OpUpdate now d)
  show ?thesis
  proof (cases "Dataset_Validate d")
    case None
    obtain r s' where x: "execWithAudit env q ''UPDATE'' ''datasets'' (update_dataset now d) s = (r, s')" by force
    then show ?thesis
    proof (cases rule: exec_cases)
      case failed
      then show ?thesis using assms OpUpdate None x by (simp add: DatasetRepository_Update_def update_outcome_def)
    next
      case (ran n)
      then show ?thesis
        using assms OpUpdate None x update_follows [OF assms None ran(2)]
        by (cases "n = 0") (auto simp: DatasetRepository_Update_def update_outcome_def update_dataset_def split: if_splits)
    qed
  qed (use assms OpUpdate in \<open>simp add: DatasetRepository_Update_def\<close>)
next
  case (OpDelete now i)
  obtain r s' where x: "execWithAudit env q ''UPDATE'' ''datasets'' (mark_deleted now i) s = (r, s')" by force
  then show ?thesis
  proof (cases rule: exec_cases)
    case failed
    then show ?thesis using assms OpDelete x by (simp add: DatasetRepository_Delete_def update_outcome_def)
  next
    case (ran n)
    then show ?thesis
      using assms OpDelete x delete_follows [OF assms ran(2)]
      by (cases "n = 0") (auto simp: DatasetRepository_Delete_def update_outcome_def mark_deleted_def split: if_splits)
  qed
next
  case (OpCreateVersion v)
  obtain r s' where x: "execWithAudit env q ''INSERT'' ''dataset_versions'' (insert_version v) s = (r, s')" by force
  then show ?thesis
    by (cases rule: exec_cases)
       (use assms OpCreateVersion x version_follows [OF assms] in \<open>auto simp: CreateVersion_def split: option.splits\<close>)
next
  case (OpCreateChunk c)
  obtain r s' where x: "execWithAudit env q ''INSERT'' ''chunks'' (insert_chunk c) s = (r, s')" by force
  then show ?thesis
    by (cases rule: exec_cases)
       (use assms OpCreateChunk x chunk_follows [OF assms] in \<open>auto simp: CreateChunk_def split: option.splits\<close>)
next
  case (OpUpdateChunkStatus i st)
  obtain r s' where x: "execWithAudit env q ''UPDATE'' ''chunks'' (set_chunk_status i st) s = (r, s')" by force
  then show ?thesis
    by (cases rule: exec_cases)
       (use assms OpUpdateChunkStatus x chunk_status_follows [OF assms] in \<open>auto simp: UpdateChunkStatus_def\<close>)
qed (use assms in \<open>auto simp: repo_operations snd_case_result\<close>)

lemma run_follows:
  "follows (SS_db s) A \<Longrightarrow> follows (SS_db (repo_run env ops s)) (spec_run env ops s A)"
proof (induction ops arbitrary: s A)
  case (Cons x ops)
  obtain q op where x: "x = (q, op)" by (cases x)
  show ?case using Cons.IH [OF apply_follows [OF Cons.prems]] by (simp add: x repo_run_def)
qed (simp add: repo_run_def)



section \<open>Creating and reading\<close>

lemma insert_dataset_Inr:
  "insert_dataset d fk db = Inr p \<longleftrightarrow> dataset_checks d
     \<and> (\<forall>x \<in> set (DB_datasets db). Dataset_ID x \<noteq> Dataset_ID d \<and> (Dataset_TopicID x, Dataset_Name x) \<noteq> (Dataset_TopicID d, Dataset_Name d))
     \<and> (fk \<longrightarrow> Dataset_TopicID d \<in> set (DB_topics db)) \<and> p = (1, db\<lparr>DB_datasets := DB_datasets db @ [d]\<rparr>)"
  by (auto simp: insert_dataset_def image_iff) (metis+)?

lemma find_snoc: "(\<forall>x \<in> set xs. \<not> P x) \<Longrightarrow> P y \<Longrightarrow> find P (xs @ [y]) = Some y"
  by (induction xs) auto

text \<open>
  Creating a data set succeeds exactly when the statement runs, the record is valid, its state is
  one of the states of the table, its count is not negative, no row has its identifier or its name in
  its topic, and the topic exists where foreign keys are enforced; it can then be read back as it was
  written. Otherwise the tables stay as they are.
\<close>

theorem create_then_get:
  fixes s :: dataset_store
  assumes "DatasetRepository_Create env q d s = (err, s')"
  shows "(err = None \<longleftrightarrow> SQ_ok q \<and> Dataset_Validate d = None \<and> dataset_checks d
            \<and> (\<forall>x \<in> set (DB_datasets (SS_db s)). Dataset_ID x \<noteq> Dataset_ID d
                 \<and> (Dataset_TopicID x, Dataset_Name x) \<noteq> (Dataset_TopicID d, Dataset_Name d))
            \<and> (SQ_fk q \<longrightarrow> Dataset_TopicID d \<in> set (DB_topics (SS_db s))))
    \<and> (err = None \<longrightarrow> SQ_ok q' \<longrightarrow> fst (DatasetRepository_Get env q' (Dataset_ID d) s') = Inr d)
    \<and> (err \<noteq> None \<longrightarrow> SS_db s' = SS_db s)"
proof (cases "Dataset_Validate d")
  case None
  obtain r where r: "execWithAudit env q ''INSERT'' ''datasets'' (insert_dataset d) s = (r, s')" and err: "err = insert_outcome r"
    using assms None by (auto simp: DatasetRepository_Create_def split: prod.splits)
  have "(\<exists>n. r = Inr n) \<longleftrightarrow> SQ_ok q \<and> (\<exists>p. insert_dataset d (SQ_fk q) (SS_db s) = Inr p)"
    using r by (auto simp: execWithAudit_def split: sum.splits prod.splits if_splits)
  moreover have "err = None \<longleftrightarrow> (\<exists>n. r = Inr n)" using err by (cases r) (auto simp: insert_outcome_def)
  moreover have "r = Inr n \<Longrightarrow> DB_datasets (SS_db s') = DB_datasets (SS_db s) @ [d] \<and> (\<forall>x \<in> set (DB_datasets (SS_db s)). Dataset_ID x \<noteq> Dataset_ID d)" for n
    using exec_result [OF r] by (auto simp: insert_dataset_Inr)
  ultimately show ?thesis using exec_result [OF r] None
    by (cases r) (auto simp: insert_dataset_Inr DatasetRepository_Get_def queryWithAudit_def found_def find_snoc)
qed (use assms in \<open>auto simp: DatasetRepository_Create_def\<close>)

theorem create_then_get_witness:
  "fst (DatasetRepository_Get sample_env sample_stmt ''d1''
          (snd (DatasetRepository_Create sample_env sample_stmt sample_dataset (open_store ''n'' 1 (empty_db [''t1'']))))) = Inr sample_dataset"
proof -
  let ?s = "open_store ''n'' 1 (empty_db [''t1''])"
  obtain err s' where c: "DatasetRepository_Create sample_env sample_stmt sample_dataset ?s = (err, s')" by force
  have "err = None" using create_then_get [OF c, of sample_stmt]
    by (simp add: sample_stmt_def sample_dataset_def Dataset_Validate_def dataset_checks_def DatasetStatus_IsValid_def open_store_def empty_db_def)
  then show ?thesis using create_then_get [OF c, of sample_stmt] c by (simp add: sample_stmt_def sample_dataset_def)
qed

section \<open>The latest version\<close>

lemma text_le_refl [simp]: "text_le s s"
  by (induction s) auto

lemma text_le_append [simp]: "text_le (p @ s) (p @ t) = text_le s t"
  by (induction p) auto

text \<open>
  The versions are sorted by the text of their time stamps, in which a whole second is written
  without a fraction. A version made half a second after another one comes before it in this order,
  because the point sorts before the letter Z: the latest version that the repository reports is the older one.
\<close>

theorem latest_version_is_older:
  fixes s :: dataset_store
  assumes "SQ_ok q" and "DB_versions (SS_db s) = [v1, v2]" and "Version_DatasetID v1 = d" and "Version_DatasetID v2 = d"
    and "Version_CreatedAt v2 = Version_CreatedAt v1 + 500000000"
    and "EV_fmt_time env (Version_CreatedAt v1) = p @ ''Z''" and "EV_fmt_time env (Version_CreatedAt v2) = p @ ''.5Z''"
  shows "fst (GetLatestVersion env q d s) = Inr v1"
  using assms by (simp add: GetLatestVersion_def queryWithAudit_def versions_desc_def found_def)

definition sample_version :: "string \<Rightarrow> instant \<Rightarrow> DatasetVersion" where
  "sample_version i t = \<lparr>Version_ID = i, Version_DatasetID = ''d1'', Version_Version = i, Version_PreviousVersionID = [], Version_Content = None,
     Version_Instructions = None, Version_TableSchema = [], Version_CreatedBy = ''u1'', Version_CreatedAt = t, Version_Message = [],
     Version_Metadata = (\<lambda>_. None)\<rparr>"

theorem latest_version_is_older_witness:
  "fst (GetLatestVersion (sample_env\<lparr>EV_fmt_time := (\<lambda>t. if t = 0 then ''2026-01-01T00:00:00Z'' else ''2026-01-01T00:00:00.5Z'')\<rparr>) sample_stmt ''d1''
     (open_store ''n'' 1 (empty_db [''t1'']\<lparr>DB_versions := [sample_version ''1'' 0, sample_version ''2'' 500000000]\<rparr>))) = Inr (sample_version ''1'' 0)"
  by (rule latest_version_is_older [where p = "''2026-01-01T00:00:00''" and ?v2.0 = "sample_version ''2'' 500000000"])
    (simp_all add: sample_stmt_def open_store_def sample_version_def)

end
