(* ===== verification/Blob_Types.thy ===== *)
theory Blob_Types
  imports Bib_Prelude
begin

text \<open>
  The vocabulary of the blob store (\<open>internal/storage/blob/types.go\<close>, \<open>compression.go\<close>): metadata,
  references, listings and statistics, the processing of a blob on its way to the disk and back
  (compression, then encryption), and the interface \<open>Store\<close> as a record of operations.

  The compressors and AES-GCM are arguments, a record \<open>codec\<close>; what is relied on is
  \<open>codec_ok\<close>: reading undoes writing, and opening undoes sealing under the same key and nonce. A
  reader is what reading it to the end gives, \<open>None\<close> for a failure on the way.

  Shown here: processing and reading back a blob gives the blob. The locale \<open>blob_store\<close> is the
  contract of a backend, stated over the contents a reader can get.
\<close>

section \<open>Definitions\<close>

datatype blob_error =
    InvalidHashFormat | BlobAlreadyExists | BlobNotFound | MetadataNotFound | MetadataUnreadable | ReadFailed | IoFailed
  | UnsupportedCompression | EncryptFailed | DecryptFailed | DecompressFailed | PanicSlice | NotInTier | UnknownStrategy | BothTiersFailed

type_synonym reader = "bytes option"

record Reference =
  Ref_DatasetID :: string
  Ref_VersionID :: string
  Ref_ChunkIndex :: int

record Metadata =
  BM_Hash :: string
  BM_Size :: int
  BM_CreatedAt :: instant
  BM_LastAccessed :: instant
  BM_AccessCount :: int
  BM_References :: "Reference list"
  BM_Compression :: string
  BM_Encryption :: string
  BM_Tags :: "string list"
  BM_OriginalHash :: string

definition zero_Metadata :: Metadata where
  "zero_Metadata = \<lparr>BM_Hash = [], BM_Size = 0, BM_CreatedAt = 0, BM_LastAccessed = 0, BM_AccessCount = 0, BM_References = [],
     BM_Compression = [], BM_Encryption = [], BM_Tags = [], BM_OriginalHash = []\<rparr>"

record BlobInfo =
  BI_Hash :: string
  BI_Size :: int
  BI_CreatedAt :: instant
  BI_LastAccessed :: instant
  BI_Tags :: "string list"

record Stats =
  TotalBlobs :: int
  TotalSize :: int
  TotalSizeCompressed :: int
  OldestBlob :: "instant option"
  NewestBlob :: "instant option"
  Stats_Backend :: string

definition is_hex_char :: "char \<Rightarrow> bool" where
  "is_hex_char c = (let n = of_char c :: nat in 48 \<le> n \<and> n \<le> 57 \<or> 97 \<le> n \<and> n \<le> 102 \<or> 65 \<le> n \<and> n \<le> 70)"

definition isValidHash :: "string \<Rightarrow> bool" where
  "isValidHash hash \<longleftrightarrow> length hash = 64 \<and> list_all is_hex_char hash"

subsection \<open>Compression and encryption\<close>

datatype zstd_speed = SpeedFastest | SpeedDefault | SpeedBetterCompression | SpeedBestCompression

record codec =
  CO_gzip :: "int \<Rightarrow> bytes \<Rightarrow> bytes"
  CO_gunzip :: "bytes \<Rightarrow> reader option"
  CO_zstd :: "zstd_speed \<Rightarrow> bytes \<Rightarrow> bytes"
  CO_unzstd :: "bytes \<Rightarrow> reader"
  CO_seal :: "bytes \<Rightarrow> bytes \<Rightarrow> bytes \<Rightarrow> bytes"
  CO_open :: "bytes \<Rightarrow> bytes \<Rightarrow> bytes \<Rightarrow> bytes option"

record CompressionConfig =
  CC_Enabled :: bool
  CC_Algorithm :: string
  CC_Level :: int

definition newCompressionWriter :: "codec \<Rightarrow> string \<Rightarrow> int \<Rightarrow> bytes \<Rightarrow> blob_error + bytes" where
  "newCompressionWriter co algorithm level data =
     (if algorithm = ''gzip'' then Inr (CO_gzip co (if level < -1 \<or> 9 < level then -1 else level) data)
      else if algorithm = ''zstd'' then
        Inr (CO_zstd co (if level \<le> 3 then SpeedFastest else if level \<le> 7 then SpeedDefault
                         else if level \<le> 15 then SpeedBetterCompression else SpeedBestCompression) data)
      else if algorithm = ''none'' then Inr data
      else Inl UnsupportedCompression)"

definition newDecompressionReader :: "codec \<Rightarrow> string \<Rightarrow> bytes \<Rightarrow> blob_error + reader" where
  "newDecompressionReader co algorithm data =
     (if algorithm = ''gzip'' then (case CO_gunzip co data of None \<Rightarrow> Inl DecompressFailed | Some r \<Rightarrow> Inr r)
      else if algorithm = ''zstd'' then Inr (CO_unzstd co data)
      else if algorithm = ''none'' then Inr (Some data)
      else Inl UnsupportedCompression)"

definition nonceSize :: nat where "nonceSize = 12"

text \<open>\<open>random\<close> is what the random source delivers; too few bytes fail the read of the nonce.\<close>

definition encryptData :: "codec \<Rightarrow> bytes \<Rightarrow> bytes \<Rightarrow> bytes \<Rightarrow> blob_error + bytes" where
  "encryptData co key random plaintext =
     (if length random < nonceSize then Inl EncryptFailed
      else let nonce = take nonceSize random in Inr (nonce @ CO_seal co key nonce plaintext))"

definition decryptData :: "codec \<Rightarrow> bytes \<Rightarrow> bytes \<Rightarrow> blob_error + bytes" where
  "decryptData co key ciphertext =
     (if length ciphertext < nonceSize then Inl DecryptFailed
      else case CO_open co key (take nonceSize ciphertext) (drop nonceSize ciphertext) of
             None \<Rightarrow> Inl DecryptFailed | Some p \<Rightarrow> Inr p)"

text \<open>The steps of \<open>Put\<close> between reading the data and writing the file, and those of \<open>Get\<close> after reading it.\<close>

definition process_blob :: "codec \<Rightarrow> CompressionConfig \<Rightarrow> bool \<Rightarrow> bytes \<Rightarrow> bytes \<Rightarrow> bytes \<Rightarrow> blob_error + bytes" where
  "process_blob co cc encrypted key random data =
     (case (if CC_Enabled cc then newCompressionWriter co (CC_Algorithm cc) (CC_Level cc) data else Inr data) of
        Inl err \<Rightarrow> Inl err
      | Inr processed \<Rightarrow> if encrypted then encryptData co key random processed else Inr processed)"

definition unprocess_blob :: "codec \<Rightarrow> CompressionConfig \<Rightarrow> bool \<Rightarrow> bytes \<Rightarrow> bytes \<Rightarrow> blob_error + reader" where
  "unprocess_blob co cc encrypted key file_data =
     (case (if encrypted then decryptData co key file_data else Inr file_data) of
        Inl err \<Rightarrow> Inl err
      | Inr processed \<Rightarrow> if CC_Enabled cc then newDecompressionReader co (CC_Algorithm cc) processed else Inr (Some processed))"

text \<open>The metadata \<open>Put\<close> stores: the caller's record with the fields it sets.\<close>

definition put_metadata :: "CompressionConfig \<Rightarrow> bool \<Rightarrow> instant \<Rightarrow> string \<Rightarrow> int \<Rightarrow> Metadata option \<Rightarrow> Metadata" where
  "put_metadata cc encrypted now hash sz metadata =
     (case metadata of None \<Rightarrow> zero_Metadata | Some m \<Rightarrow> m)
       \<lparr>BM_Hash := hash, BM_Size := sz, BM_CreatedAt := now, BM_LastAccessed := now, BM_AccessCount := 0,
        BM_Compression := (if CC_Enabled cc then CC_Algorithm cc else ''none''),
        BM_Encryption := (if encrypted then ''aes256-gcm'' else ''none'')\<rparr>"

definition blob_info :: "string \<Rightarrow> Metadata \<Rightarrow> BlobInfo" where
  "blob_info hash m = \<lparr>BI_Hash = hash, BI_Size = BM_Size m, BI_CreatedAt = BM_CreatedAt m, BI_LastAccessed = BM_LastAccessed m, BI_Tags = BM_Tags m\<rparr>"

subsection \<open>The interface\<close>

record ('e, 's) Store =
  St_Put :: "'e \<Rightarrow> string \<Rightarrow> reader \<Rightarrow> Metadata option \<Rightarrow> 's \<Rightarrow> blob_error option \<times> 's"
  St_Get :: "'e \<Rightarrow> string \<Rightarrow> 's \<Rightarrow> (blob_error + reader) \<times> 's"
  St_Delete :: "'e \<Rightarrow> string \<Rightarrow> 's \<Rightarrow> blob_error option \<times> 's"
  St_Exists :: "'e \<Rightarrow> string \<Rightarrow> 's \<Rightarrow> blob_error + bool"
  St_List :: "'e \<Rightarrow> string \<Rightarrow> 's \<Rightarrow> blob_error + BlobInfo list"
  St_GetMetadata :: "'e \<Rightarrow> string \<Rightarrow> 's \<Rightarrow> blob_error + Metadata"
  St_UpdateMetadata :: "'e \<Rightarrow> string \<Rightarrow> Metadata \<Rightarrow> 's \<Rightarrow> blob_error option \<times> 's"
  St_Stats :: "'s \<Rightarrow> Stats"

definition Store_Size :: "('e, 's) Store \<Rightarrow> 'e \<Rightarrow> string \<Rightarrow> 's \<Rightarrow> blob_error + int" where
  "Store_Size st e hash s = (case St_GetMetadata st e hash s of Inl err \<Rightarrow> Inl err | Inr m \<Rightarrow> Inr (BM_Size m))"

definition Store_Touch :: "('e, 's) Store \<Rightarrow> 'e \<Rightarrow> instant \<Rightarrow> string \<Rightarrow> 's \<Rightarrow> blob_error option \<times> 's" where
  "Store_Touch st e now hash s =
     (case St_GetMetadata st e hash s of
        Inl err \<Rightarrow> (Some err, s)
      | Inr m \<Rightarrow> St_UpdateMetadata st e hash (m\<lparr>BM_LastAccessed := now, BM_AccessCount := wrap64 (BM_AccessCount m + 1)\<rparr>) s)"

definition Store_Copy ::
    "('e, 's) Store \<Rightarrow> ('f, 't) Store \<Rightarrow> 'e \<Rightarrow> 'f \<Rightarrow> string \<Rightarrow> 's \<times> 't \<Rightarrow> blob_error option \<times> ('s \<times> 't)" where
  "Store_Copy src dst e f hash st =
     (case St_Get src e hash (fst st) of
        (Inl err, s) \<Rightarrow> (Some err, s, snd st)
      | (Inr r, s) \<Rightarrow>
          (case St_GetMetadata src e hash s of
             Inl err \<Rightarrow> (Some err, s, snd st)
           | Inr m \<Rightarrow> (case St_Put dst f hash r (Some m) (snd st) of (err, t) \<Rightarrow> (err, s, t))))"

definition Store_Move ::
    "('e, 's) Store \<Rightarrow> ('f, 't) Store \<Rightarrow> 'e \<Rightarrow> 'f \<Rightarrow> string \<Rightarrow> 's \<times> 't \<Rightarrow> blob_error option \<times> ('s \<times> 't)" where
  "Store_Move src dst e f hash st =
     (case Store_Copy src dst e f hash st of
        (Some err, st') \<Rightarrow> (Some err, st')
      | (None, (s, t)) \<Rightarrow> (case St_Delete src e hash s of (err, s') \<Rightarrow> (err, s', t)))"

section \<open>Processing and reading back\<close>

definition codec_ok :: "codec \<Rightarrow> bool" where
  "codec_ok co \<longleftrightarrow> (\<forall>l d. CO_gunzip co (CO_gzip co l d) = Some (Some d)) \<and> (\<forall>l d. CO_unzstd co (CO_zstd co l d) = Some d)
     \<and> (\<forall>k n d. length n = nonceSize \<longrightarrow> CO_open co k n (CO_seal co k n d) = Some d)"

lemma decompress_compress:
  "codec_ok co \<Longrightarrow> newCompressionWriter co alg l d = Inr p \<Longrightarrow> newDecompressionReader co alg p = Inr (Some d)"
  by (auto simp: newCompressionWriter_def newDecompressionReader_def codec_ok_def split: if_splits)

lemma decrypt_encrypt:
  "codec_ok co \<Longrightarrow> encryptData co key random d = Inr p \<Longrightarrow> decryptData co key p = Inr d"
  by (auto simp: encryptData_def decryptData_def codec_ok_def Let_def split: if_splits)

lemma unprocess_process:
  assumes "codec_ok co" and "process_blob co cc enc key random d = Inr p"
  shows "unprocess_blob co cc enc key p = Inr (Some d)"
  using assms decrypt_encrypt [OF assms(1)] decompress_compress [OF assms(1)]
  by (auto simp: process_blob_def unprocess_blob_def split: sum.splits if_splits)

section \<open>The contract of a backend\<close>

text \<open>
  \<open>view s hash\<close> is what a reader of the blob gets, \<open>None\<close> when there is no blob. \<open>good hash data\<close>
  says that the data belongs under the hash. \<open>inv\<close> is the invariant of the backend: every blob can
  be read and belongs under its hash.
\<close>

locale blob_store =
  fixes st :: "('e, 's) Store"
    and view :: "'s \<Rightarrow> string \<Rightarrow> bytes option"
    and good :: "string \<Rightarrow> bytes \<Rightarrow> bool"
    and inv :: "'s \<Rightarrow> bool"
  assumes view_good: "inv s \<Longrightarrow> view s h = Some d \<Longrightarrow> good h d"
    and put_done: "inv s \<Longrightarrow> St_Put st e h r m s = (None, s') \<Longrightarrow> \<exists>d. r = Some d \<and> view s' = (view s)(h \<mapsto> d)"
    and put_failed: "inv s \<Longrightarrow> St_Put st e h r m s = (Some err, s') \<Longrightarrow> view s' = view s"
    and put_inv: "inv s \<Longrightarrow> (\<And>d. r = Some d \<Longrightarrow> good h d) \<Longrightarrow> inv (snd (St_Put st e h r m s))"
    and get_reads: "inv s \<Longrightarrow> St_Get st e h s = (Inr r, s') \<Longrightarrow> r = view s h \<and> r \<noteq> None"
    and get_view: "inv s \<Longrightarrow> view (snd (St_Get st e h s)) = view s"
    and get_inv: "inv s \<Longrightarrow> inv (snd (St_Get st e h s))"
    and delete_other: "inv s \<Longrightarrow> k \<noteq> h \<Longrightarrow> view (snd (St_Delete st e h s)) k = view s k"
    and delete_self: "inv s \<Longrightarrow> view (snd (St_Delete st e h s)) h = None \<or> view (snd (St_Delete st e h s)) h = view s h"
    and delete_failed: "inv s \<Longrightarrow> St_Delete st e h s = (Some err, s') \<Longrightarrow> view s' = view s"
    and delete_inv: "inv s \<Longrightarrow> inv (snd (St_Delete st e h s))"
    and exists_true: "inv s \<Longrightarrow> St_Exists st e h s = Inr True \<Longrightarrow> view s h \<noteq> None"
    and update_view: "inv s \<Longrightarrow> view (snd (St_UpdateMetadata st e h mt s)) = view s"
    and update_inv: "inv s \<Longrightarrow> inv (snd (St_UpdateMetadata st e h mt s))"
begin

lemma touch_view: "inv s \<Longrightarrow> view (snd (Store_Touch st e now h s)) = view s"
  by (auto simp: Store_Touch_def update_view split: sum.splits)

lemma touch_inv: "inv s \<Longrightarrow> inv (snd (Store_Touch st e now h s))"
  by (auto simp: Store_Touch_def update_inv split: sum.splits)

lemma put_other:
  assumes "inv s" and "k \<noteq> h"
  shows "view (snd (St_Put st e h r m s)) k = view s k"
proof -
  obtain err s' where p: "St_Put st e h r m s = (err, s')" by force
  then show ?thesis using put_done [OF assms(1)] put_failed [OF assms(1)] assms(2) by (cases err) fastforce+
qed

lemma delete_good: "inv s \<Longrightarrow> view (snd (St_Delete st e h s)) k = None \<or> view (snd (St_Delete st e h s)) k = view s k"
  using delete_other [of s k h e] delete_self [of s e h] by (cases "k = h") auto

lemma get_good: "inv s \<Longrightarrow> St_Get st e h s = (Inr (Some d), s') \<Longrightarrow> good h d"
  using get_reads view_good by metis

end

end
