(* ===== verification/Blob_Local.thy ===== *)
theory Blob_Local
  imports Blob_Types "HOL-Library.List_Lexorder" "HOL-Library.Char_ord"
begin

text \<open>
  The blob store on the local disk (\<open>internal/storage/blob/local.go\<close>). The directory tree is four
  tables keyed by hash: blob files, metadata files, and their counterparts in the trash, each with
  its modification time, which a rename keeps. A metadata file that was written halfway cannot be
  parsed. Temporary files are removed on every error path and do not appear. \<open>local_env\<close> says how
  the calls to the operating system went during one operation.

  Reading a blob starts a goroutine that touches its metadata: the hash is put on the list of
  pending touches, and \<open>run_pending\<close> performs the first of them.

  Shown: a blob that was stored reads back as it was written, other blobs are not affected, and
  deleting keeps the bytes in the trash; the store satisfies the contract of a backend. The
  statistics are never decreased by a deletion.
\<close>

section \<open>Definitions\<close>

record LocalConfig =
  LC_MaxSizeGB :: int
  LC_Encryption_Enabled :: bool
  LC_Compression :: CompressionConfig

record LocalStore =
  LS_cfg :: LocalConfig
  LS_encKey :: bytes
  LS_stats :: Stats
  LS_blobs :: "(string \<times> (bytes \<times> instant)) list"
  LS_meta :: "(string \<times> (Metadata option \<times> instant)) list"
  LS_trash :: "(string \<times> (bytes \<times> instant)) list"
  LS_trash_meta :: "(string \<times> (Metadata option \<times> instant)) list"
  LS_pending :: "string list"

datatype meta_write = MetaWritten | MetaUntouched | MetaTorn

record local_env =
  LE_stat_ok :: bool
  LE_mkdir_ok :: bool
  LE_create_ok :: bool
  LE_random :: bytes
  LE_write_ok :: bool
  LE_rename_ok :: bool
  LE_read_ok :: bool
  LE_walk_ok :: bool
  LE_meta_read_ok :: "string \<Rightarrow> bool"
  LE_meta_write :: meta_write
  LE_meta_rename_ok :: bool
  LE_now :: instant

definition zero_stats :: "string \<Rightarrow> Stats" where
  "zero_stats backend = \<lparr>TotalBlobs = 0, TotalSize = 0, TotalSizeCompressed = 0, OldestBlob = None, NewestBlob = None, Stats_Backend = backend\<rparr>"

text \<open>The walk over the directory tree: blob files in the order of their names.\<close>

definition walk :: "LocalStore \<Rightarrow> string list" where
  "walk s = sort (map fst (LS_blobs s))"

definition stat_step :: "LocalStore \<Rightarrow> Stats \<Rightarrow> string \<Rightarrow> Stats" where
  "stat_step s st h =
     (case map_of (LS_blobs s) h of
        None \<Rightarrow> st
      | Some (b, mtime) \<Rightarrow>
          st\<lparr>TotalBlobs := wrap64 (TotalBlobs st + 1), TotalSize := wrap64 (TotalSize st + int (length b)),
             OldestBlob := (case OldestBlob st of None \<Rightarrow> Some mtime | Some t \<Rightarrow> if mtime < t then Some mtime else Some t),
             NewestBlob := (case NewestBlob st of None \<Rightarrow> Some mtime | Some t \<Rightarrow> if t < mtime then Some mtime else Some t)\<rparr>)"

definition computeStats :: "bool \<Rightarrow> LocalStore \<Rightarrow> LocalStore" where
  "computeStats walk_ok s = (if walk_ok then s\<lparr>LS_stats := foldl (stat_step s) (zero_stats ''local'') (walk s)\<rparr> else s)"

definition NewLocalStore ::
    "bool \<Rightarrow> bool \<Rightarrow> LocalConfig \<Rightarrow> bytes \<Rightarrow> (string \<times> (bytes \<times> instant)) list \<Rightarrow> (string \<times> (Metadata option \<times> instant)) list
       \<Rightarrow> blob_error + LocalStore" where
  "NewLocalStore mkdir_ok walk_ok cfg encKey blobs meta =
     (if \<not> mkdir_ok then Inl IoFailed
      else if LC_Encryption_Enabled cfg \<and> length encKey \<noteq> 32 then Inl EncryptFailed
      else Inr (computeStats walk_ok \<lparr>LS_cfg = cfg, LS_encKey = encKey, LS_stats = zero_stats ''local'', LS_blobs = blobs, LS_meta = meta,
                                     LS_trash = [], LS_trash_meta = [], LS_pending = []\<rparr>))"

definition local_GetMetadata :: "local_env \<Rightarrow> string \<Rightarrow> LocalStore \<Rightarrow> blob_error + Metadata" where
  "local_GetMetadata e hash s =
     (if \<not> isValidHash hash then Inl InvalidHashFormat
      else case map_of (LS_meta s) hash of
             None \<Rightarrow> Inl MetadataNotFound
           | Some (content, _) \<Rightarrow>
               if \<not> LE_meta_read_ok e hash then Inl IoFailed
               else case content of None \<Rightarrow> Inl MetadataUnreadable | Some m \<Rightarrow> Inr m)"

definition writeMetadata :: "local_env \<Rightarrow> string \<Rightarrow> Metadata \<Rightarrow> LocalStore \<Rightarrow> blob_error option \<times> LocalStore" where
  "writeMetadata e hash m s =
     (if length hash < 4 then (Some PanicSlice, s)
      else case LE_meta_write e of
             MetaWritten \<Rightarrow> (None, s\<lparr>LS_meta := AList.update hash (Some m, LE_now e) (LS_meta s)\<rparr>)
           | MetaUntouched \<Rightarrow> (Some IoFailed, s)
           | MetaTorn \<Rightarrow> (Some IoFailed, s\<lparr>LS_meta := AList.update hash (None, LE_now e) (LS_meta s)\<rparr>))"

definition local_UpdateMetadata :: "local_env \<Rightarrow> string \<Rightarrow> Metadata \<Rightarrow> LocalStore \<Rightarrow> blob_error option \<times> LocalStore" where
  "local_UpdateMetadata e hash m s = writeMetadata e hash m s"

definition add_stats :: "int \<Rightarrow> int \<Rightarrow> Stats \<Rightarrow> Stats" where
  "add_stats n bytes st = st\<lparr>TotalBlobs := wrap64 (TotalBlobs st + n), TotalSize := wrap64 (TotalSize st + bytes)\<rparr>"

definition local_Put :: "codec \<Rightarrow> local_env \<Rightarrow> string \<Rightarrow> reader \<Rightarrow> Metadata option \<Rightarrow> LocalStore \<Rightarrow> blob_error option \<times> LocalStore" where
  "local_Put co e hash r metadata s =
     (let cc = LC_Compression (LS_cfg s); enc = LC_Encryption_Enabled (LS_cfg s) in
      if \<not> isValidHash hash then (Some InvalidHashFormat, s)
      else if LE_stat_ok e \<and> map_of (LS_blobs s) hash \<noteq> None then (Some BlobAlreadyExists, s)
      else if \<not> LE_mkdir_ok e \<or> \<not> LE_create_ok e then (Some IoFailed, s)
      else case r of
             None \<Rightarrow> (Some ReadFailed, s)
           | Some data \<Rightarrow>
               (case process_blob co cc enc (LS_encKey s) (LE_random e) data of
                  Inl err \<Rightarrow> (Some err, s)
                | Inr processed \<Rightarrow>
                    if \<not> LE_write_ok e \<or> \<not> LE_rename_ok e then (Some IoFailed, s)
                    else let m = put_metadata cc enc (LE_now e) hash (int (length data)) metadata;
                             s1 = s\<lparr>LS_blobs := AList.update hash (processed, LE_now e) (LS_blobs s)\<rparr>;
                             s2 = snd (writeMetadata e hash m s1)
                         in (None, s2\<lparr>LS_stats := add_stats 1 (int (length data)) (LS_stats s2)\<rparr>)))"

definition local_Get :: "codec \<Rightarrow> local_env \<Rightarrow> string \<Rightarrow> LocalStore \<Rightarrow> (blob_error + reader) \<times> LocalStore" where
  "local_Get co e hash s =
     (if \<not> isValidHash hash then (Inl InvalidHashFormat, s)
      else case map_of (LS_blobs s) hash of
             None \<Rightarrow> (Inl BlobNotFound, s)
           | Some (file_data, _) \<Rightarrow>
               if \<not> LE_read_ok e then (Inl IoFailed, s)
               else (unprocess_blob co (LC_Compression (LS_cfg s)) (LC_Encryption_Enabled (LS_cfg s)) (LS_encKey s) file_data,
                     s\<lparr>LS_pending := LS_pending s @ [hash]\<rparr>))"

definition local_Delete :: "local_env \<Rightarrow> string \<Rightarrow> LocalStore \<Rightarrow> blob_error option \<times> LocalStore" where
  "local_Delete e hash s =
     (if \<not> isValidHash hash then (Some InvalidHashFormat, s)
      else if LE_stat_ok e \<and> map_of (LS_blobs s) hash = None then (Some BlobNotFound, s)
      else if \<not> LE_mkdir_ok e then (Some IoFailed, s)
      else case map_of (LS_blobs s) hash of
             None \<Rightarrow> (Some IoFailed, s)
           | Some file \<Rightarrow>
               if \<not> LE_rename_ok e then (Some IoFailed, s)
               else let s1 = s\<lparr>LS_blobs := AList.delete hash (LS_blobs s), LS_trash := AList.update hash file (LS_trash s)\<rparr>;
                        s2 = (case map_of (LS_meta s1) hash of
                                Some f \<Rightarrow> if LE_meta_rename_ok e
                                          then s1\<lparr>LS_meta := AList.delete hash (LS_meta s1), LS_trash_meta := AList.update hash f (LS_trash_meta s1)\<rparr>
                                          else s1
                              | None \<Rightarrow> s1)
                    in (None, case local_GetMetadata e hash s2 of
                                Inl _ \<Rightarrow> s2
                              | Inr m \<Rightarrow> s2\<lparr>LS_stats := add_stats (-1) (- BM_Size m) (LS_stats s2)\<rparr>))"

definition local_Exists :: "local_env \<Rightarrow> string \<Rightarrow> LocalStore \<Rightarrow> blob_error + bool" where
  "local_Exists e hash s =
     (if \<not> isValidHash hash then Inl InvalidHashFormat
      else if LE_stat_ok e then Inr (map_of (LS_blobs s) hash \<noteq> None) else Inl IoFailed)"

definition local_List :: "local_env \<Rightarrow> string \<Rightarrow> LocalStore \<Rightarrow> blob_error + BlobInfo list" where
  "local_List e pre s =
     (if \<not> LE_walk_ok e then Inl IoFailed
      else Inr (concat (map (\<lambda>hash. if pre \<noteq> [] \<and> \<not> prefix pre hash then []
                                    else case local_GetMetadata e hash s of Inl _ \<Rightarrow> [] | Inr m \<Rightarrow> [blob_info hash m]) (walk s))))"

definition local_ops :: "codec \<Rightarrow> (local_env, LocalStore) Store" where
  "local_ops co = \<lparr>St_Put = local_Put co, St_Get = local_Get co, St_Delete = local_Delete, St_Exists = local_Exists, St_List = local_List,
     St_GetMetadata = local_GetMetadata, St_UpdateMetadata = local_UpdateMetadata, St_Stats = LS_stats\<rparr>"

definition run_pending :: "codec \<Rightarrow> local_env \<Rightarrow> LocalStore \<Rightarrow> LocalStore" where
  "run_pending co e s =
     (case LS_pending s of [] \<Rightarrow> s | h # hs \<Rightarrow> snd (Store_Touch (local_ops co) e (LE_now e) h (s\<lparr>LS_pending := hs\<rparr>)))"

section \<open>The contract\<close>

definition local_decode :: "codec \<Rightarrow> LocalStore \<Rightarrow> bytes \<Rightarrow> blob_error + reader" where
  "local_decode co s b = unprocess_blob co (LC_Compression (LS_cfg s)) (LC_Encryption_Enabled (LS_cfg s)) (LS_encKey s) b"

definition local_view :: "codec \<Rightarrow> LocalStore \<Rightarrow> string \<Rightarrow> bytes option" where
  "local_view co s h =
     (case map_of (LS_blobs s) h of
        None \<Rightarrow> None
      | Some (b, _) \<Rightarrow> (case local_decode co s b of Inl _ \<Rightarrow> None | Inr r \<Rightarrow> r))"

definition local_inv :: "codec \<Rightarrow> (string \<Rightarrow> bytes \<Rightarrow> bool) \<Rightarrow> LocalStore \<Rightarrow> bool" where
  "local_inv co good s \<longleftrightarrow> codec_ok co
     \<and> (\<forall>h b t. map_of (LS_blobs s) h = Some (b, t) \<longrightarrow> (\<exists>d. local_decode co s b = Inr (Some d) \<and> good h d))"

lemma writeMetadata_frame [simp]:
  "LS_blobs (snd (writeMetadata e h m s)) = LS_blobs s" "LS_cfg (snd (writeMetadata e h m s)) = LS_cfg s"
  "LS_encKey (snd (writeMetadata e h m s)) = LS_encKey s" "LS_stats (snd (writeMetadata e h m s)) = LS_stats s"
  "LS_trash (snd (writeMetadata e h m s)) = LS_trash s" "LS_pending (snd (writeMetadata e h m s)) = LS_pending s"
  by (auto simp: writeMetadata_def split: meta_write.splits)

lemma local_Put_frame [simp]:
  "LS_cfg (snd (local_Put co e h r m s)) = LS_cfg s" "LS_encKey (snd (local_Put co e h r m s)) = LS_encKey s"
  "LS_trash (snd (local_Put co e h r m s)) = LS_trash s" "LS_pending (snd (local_Put co e h r m s)) = LS_pending s"
  by (simp_all add: local_Put_def Let_def split: option.splits sum.splits)

lemma local_Get_frame [simp]:
  "LS_blobs (snd (local_Get co e h s)) = LS_blobs s" "LS_cfg (snd (local_Get co e h s)) = LS_cfg s"
  "LS_encKey (snd (local_Get co e h s)) = LS_encKey s" "LS_stats (snd (local_Get co e h s)) = LS_stats s"
  "LS_meta (snd (local_Get co e h s)) = LS_meta s"
  by (simp_all add: local_Get_def split: option.splits)

lemma local_Put_failed: "local_Put co e h r m s = (Some err, s') \<Longrightarrow> s' = s"
  by (auto simp: local_Put_def Let_def split: option.splits sum.splits if_splits)

lemma local_Put_done:
  "local_Put co e h r m s = (None, s') \<Longrightarrow> \<exists>d p. r = Some d \<and> isValidHash h
     \<and> process_blob co (LC_Compression (LS_cfg s)) (LC_Encryption_Enabled (LS_cfg s)) (LS_encKey s) (LE_random e) d = Inr p
     \<and> LS_blobs s' = AList.update h (p, LE_now e) (LS_blobs s)"
  by (auto simp: local_Put_def Let_def split: option.splits sum.splits if_splits)

lemma local_Delete_frame [simp]:
  "LS_cfg (snd (local_Delete e h s)) = LS_cfg s" "LS_encKey (snd (local_Delete e h s)) = LS_encKey s"
  "LS_pending (snd (local_Delete e h s)) = LS_pending s"
  by (simp_all add: local_Delete_def Let_def split: option.splits sum.splits)

lemma local_Delete_failed: "local_Delete e h s = (Some err, s') \<Longrightarrow> s' = s"
  by (auto simp: local_Delete_def Let_def split: option.splits sum.splits if_splits)

lemma local_Delete_done:
  "local_Delete e h s = (None, s') \<Longrightarrow> \<exists>f. isValidHash h \<and> map_of (LS_blobs s) h = Some f
     \<and> LS_blobs s' = AList.delete h (LS_blobs s) \<and> LS_trash s' = AList.update h f (LS_trash s)"
  by (auto simp: local_Delete_def Let_def split: option.splits sum.splits if_splits)

lemma local_decode_cong: "LS_cfg s' = LS_cfg s \<Longrightarrow> LS_encKey s' = LS_encKey s \<Longrightarrow> local_decode co s' = local_decode co s"
  by (simp add: local_decode_def fun_eq_iff)

lemma local_view_cong:
  "LS_blobs s' = LS_blobs s \<Longrightarrow> LS_cfg s' = LS_cfg s \<Longrightarrow> LS_encKey s' = LS_encKey s \<Longrightarrow> local_view co s' = local_view co s"
  by (auto simp: local_view_def local_decode_def fun_eq_iff split: option.split)

lemma local_inv_cong:
  "LS_blobs s' = LS_blobs s \<Longrightarrow> LS_cfg s' = LS_cfg s \<Longrightarrow> LS_encKey s' = LS_encKey s \<Longrightarrow> local_inv co good s' = local_inv co good s"
  using local_decode_cong [of s' s co] by (simp add: local_inv_def)

lemma local_put_view:
  assumes "codec_ok co" and "local_Put co e h r m s = (None, s')"
  shows "\<exists>d. r = Some d \<and> local_view co s' = (local_view co s)(h \<mapsto> d)"
proof -
  obtain d p where d: "r = Some d"
      "process_blob co (LC_Compression (LS_cfg s)) (LC_Encryption_Enabled (LS_cfg s)) (LS_encKey s) (LE_random e) d = Inr p"
      "LS_blobs s' = AList.update h (p, LE_now e) (LS_blobs s)"
    using local_Put_done [OF assms(2)] by blast
  have same: "LS_cfg s' = LS_cfg s" "LS_encKey s' = LS_encKey s"
    using local_Put_frame [of co e h r m s] assms(2) by simp_all
  then have "local_decode co s' p = Inr (Some d)" using unprocess_process [OF assms(1) d(2)] by (simp add: local_decode_def)
  then have "local_view co s' k = ((local_view co s)(h \<mapsto> d)) k" for k
    by (auto simp: local_view_def d(3) update_conv local_decode_cong [OF same] split: option.split)
  then show ?thesis using d(1) by auto
qed

lemma local_delete_view:
  assumes "local_Delete e h s = (None, s')"
  shows "local_view co s' = (local_view co s)(h := None)"
proof -
  have same: "LS_cfg s' = LS_cfg s" "LS_encKey s' = LS_encKey s"
    using local_Delete_frame [of e h s] assms by simp_all
  show ?thesis using local_Delete_done [OF assms] by (auto simp: local_view_def delete_conv local_decode_cong [OF same] fun_eq_iff split: option.split)
qed

lemma local_inv_alt:
  "local_inv co good s \<longleftrightarrow> codec_ok co \<and> (\<forall>h. map_of (LS_blobs s) h \<noteq> None \<longrightarrow> (\<exists>d. local_view co s h = Some d \<and> good h d))"
  by (fastforce simp: local_inv_def local_view_def split: sum.splits)

lemma local_inv_good: "local_inv co good s \<Longrightarrow> local_view co s h = Some d \<Longrightarrow> good h d"
  by (cases "map_of (LS_blobs s) h") (fastforce simp: local_inv_def local_view_def)+

lemma local_inv_put:
  assumes inv: "local_inv co good s" and ok: "\<And>d. r = Some d \<Longrightarrow> good h d"
  shows "local_inv co good (snd (local_Put co e h r m s))"
proof (cases "local_Put co e h r m s")
  case (Pair err s')
  have co: "codec_ok co" using inv by (simp add: local_inv_def)
  show ?thesis
  proof (cases err)
    case None
    then obtain d where "r = Some d" "local_view co s' = (local_view co s)(h \<mapsto> d)" using local_put_view [OF co] Pair by blast
    moreover obtain p where "LS_blobs s' = AList.update h (p, LE_now e) (LS_blobs s)" using local_Put_done Pair None by blast
    ultimately show ?thesis using inv ok Pair unfolding local_inv_alt by (simp add: update_conv)
  qed (use Pair local_Put_failed inv in force)
qed

lemma local_inv_delete: "local_inv co good s \<Longrightarrow> local_inv co good (snd (local_Delete e h s))"
proof (cases "local_Delete e h s")
  case (Pair err s')
  assume inv: "local_inv co good s"
  show ?thesis
  proof (cases err)
    case None
    then obtain f where "LS_blobs s' = AList.delete h (LS_blobs s)" using local_Delete_done Pair by blast
    moreover have "local_view co s' = (local_view co s)(h := None)" using local_delete_view Pair None by blast
    ultimately show ?thesis using inv Pair unfolding local_inv_alt by (simp add: delete_conv)
  qed (use Pair local_Delete_failed inv in force)
qed

lemma local_get_reads:
  assumes "local_inv co good s" and "local_Get co e h s = (Inr r, s')"
  shows "r = local_view co s h \<and> r \<noteq> None"
proof -
  obtain b t where b: "map_of (LS_blobs s) h = Some (b, t)" "local_decode co s b = Inr r"
    using assms(2) by (auto simp: local_Get_def local_decode_def split: option.splits if_splits)
  then show ?thesis using assms(1) by (fastforce simp: local_inv_def local_view_def)
qed

lemma local_same:
  "local_view co (snd (local_Get co e h s)) = local_view co s" "local_inv co good (snd (local_Get co e h s)) = local_inv co good s"
  "local_view co (snd (local_UpdateMetadata e h mt s)) = local_view co s"
  "local_inv co good (snd (local_UpdateMetadata e h mt s)) = local_inv co good s"
  unfolding local_UpdateMetadata_def by ((rule local_view_cong local_inv_cong, simp_all)[])+

interpretation local: blob_store "local_ops co" "local_view co" good "local_inv co good" for co good
proof unfold_locales
  fix s :: LocalStore and e h r m s'
  assume inv: "local_inv co good s"
  then have co: "codec_ok co" by (simp add: local_inv_def)
  show "good h d" if "local_view co s h = Some d" for d using local_inv_good [OF inv that] .
  show "\<exists>d. r = Some d \<and> local_view co s' = (local_view co s)(h \<mapsto> d)" if "St_Put (local_ops co) e h r m s = (None, s')"
    using local_put_view [OF co] that by (simp add: local_ops_def)
  show "local_inv co good (snd (St_Put (local_ops co) e h r m s))" if "\<And>d. r = Some d \<Longrightarrow> good h d"
    using local_inv_put [OF inv that] by (simp add: local_ops_def)
  show "r = local_view co s h \<and> r \<noteq> None" if "St_Get (local_ops co) e h s = (Inr r, s')"
    using local_get_reads [OF inv] that by (simp add: local_ops_def)
  show "local_inv co good (snd (St_Delete (local_ops co) e h s))" using local_inv_delete [OF inv] by (simp add: local_ops_def)
  show "local_view co (snd (St_Delete (local_ops co) e h s)) h = None \<or> local_view co (snd (St_Delete (local_ops co) e h s)) h = local_view co s h"
    using local_Delete_failed [of e h s] local_delete_view [of e h s _ co]
    by (cases "local_Delete e h s"; cases "fst (local_Delete e h s)") (simp_all add: local_ops_def)
  show "local_view co s h \<noteq> None" if "St_Exists (local_ops co) e h s = Inr True"
    using inv that by (auto simp: local_ops_def local_Exists_def local_inv_alt split: if_splits)
next
  fix s :: LocalStore and e h r m err s'
  assume "local_inv co good s" "St_Put (local_ops co) e h r m s = (Some err, s')"
  then show "local_view co s' = local_view co s" by (auto simp: local_ops_def dest: local_Put_failed)
next
  fix s :: LocalStore and e and h k :: string
  assume "local_inv co good s" "k \<noteq> h"
  then show "local_view co (snd (St_Delete (local_ops co) e h s)) k = local_view co s k"
    using local_Delete_failed [of e h s] local_delete_view [of e h s _ co]
    by (cases "local_Delete e h s"; cases "fst (local_Delete e h s)") (simp_all add: local_ops_def)
next
  fix s :: LocalStore and e h err s'
  assume "local_inv co good s" "St_Delete (local_ops co) e h s = (Some err, s')"
  then show "local_view co s' = local_view co s" by (auto simp: local_ops_def dest: local_Delete_failed)
qed (simp_all add: local_ops_def local_same)

section \<open>Storing, reading and deleting\<close>

lemma local_Get_value:
  "LS_blobs s' = LS_blobs s \<Longrightarrow> LS_cfg s' = LS_cfg s \<Longrightarrow> LS_encKey s' = LS_encKey s \<Longrightarrow> fst (local_Get co e h s') = fst (local_Get co e h s)"
  by (simp add: local_Get_def split: option.split)

lemma local_Put_metadata:
  assumes "local_Put co e h (Some d) m s = (None, s')" and "LE_meta_write e = MetaWritten" and "LE_meta_read_ok e' h"
  shows "local_GetMetadata e' h s'
      = Inr (put_metadata (LC_Compression (LS_cfg s)) (LC_Encryption_Enabled (LS_cfg s)) (LE_now e) h (int (length d)) m)"
  using assms by (auto simp: local_Put_def local_GetMetadata_def writeMetadata_def Let_def update_conv isValidHash_def split: sum.splits if_splits)

lemma local_Get_after_put:
  assumes "codec_ok co" and "local_Put co e h r m s = (None, s')"
  shows "\<exists>d. r = Some d \<and> (LE_read_ok e' \<longrightarrow> fst (local_Get co e' h s') = Inr (Some d))" and "k \<noteq> h \<Longrightarrow> fst (local_Get co e' k s') = fst (local_Get co e' k s)"
proof -
  obtain d p where d: "r = Some d" "isValidHash h"
      "process_blob co (LC_Compression (LS_cfg s)) (LC_Encryption_Enabled (LS_cfg s)) (LS_encKey s) (LE_random e) d = Inr p"
      "LS_blobs s' = AList.update h (p, LE_now e) (LS_blobs s)"
    using local_Put_done [OF assms(2)] by blast
  have same: "LS_cfg s' = LS_cfg s" "LS_encKey s' = LS_encKey s" using local_Put_frame [of co e h r m s] assms(2) by simp_all
  show "\<exists>d. r = Some d \<and> (LE_read_ok e' \<longrightarrow> fst (local_Get co e' h s') = Inr (Some d))"
    using d same unprocess_process [OF assms(1) d(3)] by (simp add: local_Get_def update_conv)
  show "fst (local_Get co e' k s') = fst (local_Get co e' k s)" if "k \<noteq> h"
    using that same by (simp add: local_Get_def d(4) update_conv split: option.split)
qed

lemma local_Put_metadata_kept:
  assumes "local_Put co e h r m s = (None, s')"
  shows "LE_meta_write e = MetaUntouched \<Longrightarrow> local_GetMetadata e' h s' = local_GetMetadata e' h s"
    and "LE_meta_write e = MetaTorn \<Longrightarrow> LE_meta_read_ok e' h \<Longrightarrow> local_GetMetadata e' h s' = Inl MetadataUnreadable"
  using assms
  by (auto simp: local_Put_def writeMetadata_def local_GetMetadata_def update_conv isValidHash_def Let_def
      split: option.splits sum.splits if_splits)

text \<open>
  C31. Let the codecs undo each other, and let \<open>Put\<close> of the local store return no error. A later read
  of the blob whose file read works returns it byte for byte, whatever compression and encryption are
  configured; every other blob reads as before. \<open>Put\<close> drops the error of the write of the metadata
  file: when that write succeeded and the file can be read, the metadata is the caller's with hash,
  size, times, compression and encryption filled in; when the file was not touched, the metadata is
  what it was before; when it was left torn, it cannot be parsed. When the blob is deleted without an
  error it is not found any more, and the trash holds a file from which the same bytes can be recovered.
\<close>

theorem local_put_get:
  assumes "codec_ok co" and "local_Put co e h r m s = (None, s')"
  shows "\<exists>d. r = Some d \<and> (LE_read_ok e' \<longrightarrow> fst (local_Get co e' h s') = Inr (Some d))
    \<and> (LE_meta_write e = MetaWritten \<and> LE_meta_read_ok e' h \<longrightarrow> local_GetMetadata e' h s'
         = Inr (put_metadata (LC_Compression (LS_cfg s)) (LC_Encryption_Enabled (LS_cfg s)) (LE_now e) h (int (length d)) m))
    \<and> (LE_meta_write e = MetaUntouched \<longrightarrow> local_GetMetadata e' h s' = local_GetMetadata e' h s)
    \<and> (LE_meta_write e = MetaTorn \<and> LE_meta_read_ok e' h \<longrightarrow> local_GetMetadata e' h s' = Inl MetadataUnreadable)
    \<and> (\<forall>k. k \<noteq> h \<longrightarrow> fst (local_Get co e' k s') = fst (local_Get co e' k s))
    \<and> (\<forall>e2 s2. local_Delete e2 h s' = (None, s2) \<longrightarrow> fst (local_Get co e' h s2) = Inl BlobNotFound
         \<and> (\<exists>b t. map_of (LS_trash s2) h = Some (b, t) \<and> local_decode co s2 b = Inr (Some d)))"
proof -
  obtain d where d: "r = Some d" and get: "LE_read_ok e' \<longrightarrow> fst (local_Get co e' h s') = Inr (Some d)"
    using local_Get_after_put(1) [OF assms] by blast
  have view: "local_view co s' h = Some d" using local_put_view [OF assms] d by auto
  have "fst (local_Get co e' h s2) = Inl BlobNotFound \<and> (\<exists>b t. map_of (LS_trash s2) h = Some (b, t) \<and> local_decode co s2 b = Inr (Some d))"
    if del: "local_Delete e2 h s' = (None, s2)" for e2 s2
  proof -
    obtain b t where b: "isValidHash h" "map_of (LS_blobs s') h = Some (b, t)" "LS_blobs s2 = AList.delete h (LS_blobs s')"
        "LS_trash s2 = AList.update h (b, t) (LS_trash s')"
      using local_Delete_done [OF del] by auto
    have same: "local_decode co s2 = local_decode co s'"
      using local_Delete_frame [of e2 h s'] del by (intro local_decode_cong) simp_all
    then have "local_decode co s2 b = Inr (Some d)" using view b(2) by (auto simp: local_view_def split: sum.splits)
    then show ?thesis using b by (simp add: local_Get_def delete_conv update_conv)
  qed
  then show ?thesis using d get local_Put_metadata [OF assms(2) [unfolded d]] local_Put_metadata_kept [OF assms(2)]
      local_Get_after_put(2) [OF assms] by auto
qed

definition plain_codec :: codec where
  "plain_codec = \<lparr>CO_gzip = (\<lambda>l d. 31 # d), CO_gunzip = (\<lambda>d. Some (Some (tl d))), CO_zstd = (\<lambda>l d. 40 # d), CO_unzstd = (\<lambda>d. Some (tl d)),
     CO_seal = (\<lambda>k n d. 1 # d), CO_open = (\<lambda>k n d. Some (tl d))\<rparr>"

lemma plain_codec_ok: "codec_ok plain_codec"
  by (simp add: plain_codec_def codec_ok_def)

definition calm :: local_env where
  "calm = \<lparr>LE_stat_ok = True, LE_mkdir_ok = True, LE_create_ok = True, LE_random = replicate 12 7, LE_write_ok = True, LE_rename_ok = True,
     LE_read_ok = True, LE_walk_ok = True, LE_meta_read_ok = (\<lambda>_. True), LE_meta_write = MetaWritten, LE_meta_rename_ok = True, LE_now = 5\<rparr>"

definition fresh_local :: LocalStore where
  "fresh_local = \<lparr>LS_cfg = \<lparr>LC_MaxSizeGB = 0, LC_Encryption_Enabled = True, LC_Compression = \<lparr>CC_Enabled = True, CC_Algorithm = ''zstd'', CC_Level = 3\<rparr>\<rparr>,
     LS_encKey = replicate 32 9, LS_stats = zero_stats ''local'', LS_blobs = [], LS_meta = [], LS_trash = [], LS_trash_meta = [], LS_pending = []\<rparr>"

definition sample_hash :: string where
  "sample_hash = replicate 64 CHR ''a''"

lemma sample_hash_valid: "isValidHash sample_hash"
  by (simp add: isValidHash_def sample_hash_def list_all_iff is_hex_char_def)

lemma fresh_put: "fst (local_Put plain_codec calm sample_hash (Some [1, 2, 3]) None fresh_local) = None"
  by (simp add: local_Put_def sample_hash_valid calm_def fresh_local_def process_blob_def newCompressionWriter_def encryptData_def nonceSize_def Let_def)

theorem local_put_get_witness:
  "fst (local_Get plain_codec calm sample_hash (snd (local_Put plain_codec calm sample_hash (Some [1, 2, 3]) None fresh_local))) = Inr (Some [1, 2, 3])"
proof -
  have "local_Put plain_codec calm sample_hash (Some [1, 2, 3]) None fresh_local
      = (None, snd (local_Put plain_codec calm sample_hash (Some [1, 2, 3]) None fresh_local))"
    using fresh_put by (metis prod.collapse)
  from local_put_get [OF plain_codec_ok this, of calm] show ?thesis by (auto simp: calm_def)
qed

section \<open>Statistics\<close>

lemma put_stats:
  "local_Put co e h (Some d) m s = (None, s') \<Longrightarrow> LS_stats s' = add_stats 1 (int (length d)) (LS_stats s)"
  by (auto simp: local_Put_def Let_def split: sum.splits if_splits)

lemma delete_stats: "local_Delete e h s = (None, s') \<Longrightarrow> LE_meta_rename_ok e \<Longrightarrow> LS_stats s' = LS_stats s"
  by (auto simp: local_Delete_def local_GetMetadata_def delete_conv Let_def split: option.splits if_splits)

end
