(* ===== verification/Blob_S3.thy ===== *)
theory Blob_S3
  imports Blob_Types
begin

text \<open>
  The blob store on S3-compatible object storage (\<open>internal/storage/blob/s3.go\<close>). The client is code
  outside the repository: a record of operations on a state of its own (\<open>S3Client\<close>). What is relied on
  is \<open>s3_client_ok\<close>, stated over the objects of a bucket: an upload that reports success has stored the
  body under the key and nothing else, a download returns the stored body, a deletion removes one key and
  a listing names existing keys. It also assumes that a call that reports an error has changed nothing.
  The service does not promise that (a request can take effect although its answer is lost), so what is
  shown over S3 is about runs in which the failed requests had no effect.

  \<open>SE_call e n\<close> is the environment of the n-th call of an operation. The JSON form of the metadata is
  the pair of functions in the environment.

  Shown: the keys of blobs, metadata and trash never clash, whatever the prefix; the store keeps the
  contract of a backend.
\<close>

section \<open>Definitions\<close>

subsection \<open>Keys\<close>

definition clean_step :: "bool \<Rightarrow> string list \<Rightarrow> string \<Rightarrow> string list" where
  "clean_step rooted acc c =
     (if c = [] \<or> c = ''.'' then acc
      else if c = ''..'' then (if acc = [] then (if rooted then [] else [''..'']) else if last acc = ''..'' then acc @ [''..''] else butlast acc)
      else acc @ [c])"

definition path_Clean :: "string \<Rightarrow> string" where
  "path_Clean p =
     (let rooted = (p \<noteq> [] \<and> hd p = CHR ''/''); cs = foldl (clean_step rooted) [] (strings_Split (CHR ''/'') p)
      in if rooted then CHR ''/'' # strings_Join cs ''/'' else if cs = [] then ''.'' else strings_Join cs ''/'')"

definition path_Join :: "string list \<Rightarrow> string" where
  "path_Join es = (let ne = filter (\<lambda>e. e \<noteq> []) es in if ne = [] then [] else path_Clean (strings_Join ne ''/''))"

definition blobKey :: "string \<Rightarrow> string \<Rightarrow> string" where
  "blobKey pre hash = path_Join [pre, ''chunks'', take 2 hash, take 2 (drop 2 hash), hash]"

definition metadataKey :: "string \<Rightarrow> string \<Rightarrow> string" where
  "metadataKey pre hash = blobKey pre hash @ ''.meta''"

definition trashKey :: "string \<Rightarrow> string \<Rightarrow> string" where
  "trashKey pre hash = path_Join [pre, ''.trash'', hash]"

definition path_Base :: "string \<Rightarrow> string" where
  "path_Base key =
     (if key = [] then ''.''
      else let t = rev (dropWhile (\<lambda>c. c = CHR ''/'') (rev key)) in if t = [] then ''/'' else last (strings_Split (CHR ''/'') t))"

subsection \<open>The client and the store\<close>

record S3Object =
  SO_Key :: string
  SO_Size :: int
  SO_LastModified :: instant

record ('q, 'c) S3Client =
  S3_PutObject :: "'q \<Rightarrow> string \<Rightarrow> string \<Rightarrow> reader \<Rightarrow> string \<Rightarrow> (string \<times> string) list \<Rightarrow> 'c \<Rightarrow> bool \<times> 'c"
  S3_GetObject :: "'q \<Rightarrow> string \<Rightarrow> string \<Rightarrow> 'c \<Rightarrow> reader option"
  S3_DeleteObject :: "'q \<Rightarrow> string \<Rightarrow> string \<Rightarrow> 'c \<Rightarrow> bool \<times> 'c"
  S3_ListObjects :: "'q \<Rightarrow> string \<Rightarrow> string \<Rightarrow> int \<Rightarrow> 'c \<Rightarrow> S3Object list option"

record S3Config =
  S3C_Bucket :: string
  S3C_Prefix :: string
  S3C_ClientSideEncryption :: bool
  S3C_Compression :: CompressionConfig

record 'c S3Store =
  S3_cfg :: S3Config
  S3_encKey :: bytes
  S3_stats :: Stats
  S3_objects :: 'c
  S3_pending :: "string list"

record 'q s3_env =
  SE_call :: "nat \<Rightarrow> 'q"
  SE_meta :: "string \<Rightarrow> 'q"
  SE_random :: bytes
  SE_upload_now :: instant
  SE_now :: instant
  SE_fmt_time :: "instant \<Rightarrow> string"
  SE_json :: "Metadata \<Rightarrow> bytes"
  SE_unjson :: "bytes \<Rightarrow> Metadata option"

definition NewS3Store :: "S3Config \<Rightarrow> 'c \<Rightarrow> bytes \<Rightarrow> blob_error + 'c S3Store" where
  "NewS3Store cfg client encKey =
     (if S3C_ClientSideEncryption cfg \<and> length encKey \<noteq> 32 then Inl EncryptFailed
      else Inr \<lparr>S3_cfg = cfg, S3_encKey = encKey,
                S3_stats = \<lparr>TotalBlobs = 0, TotalSize = 0, TotalSizeCompressed = 0, OldestBlob = None, NewestBlob = None, Stats_Backend = ''s3''\<rparr>,
                S3_objects = client, S3_pending = []\<rparr>)"

definition s3_Exists :: "('q, 'c) S3Client \<Rightarrow> 'q s3_env \<Rightarrow> string \<Rightarrow> 'c S3Store \<Rightarrow> blob_error + bool" where
  "s3_Exists cl e hash s =
     (if \<not> isValidHash hash then Inl InvalidHashFormat
      else let key = blobKey (S3C_Prefix (S3_cfg s)) hash
           in case S3_ListObjects cl (SE_call e 0) (S3C_Bucket (S3_cfg s)) key 1 (S3_objects s) of
                None \<Rightarrow> Inl IoFailed
              | Some objects \<Rightarrow> Inr (list_ex (\<lambda>ob. SO_Key ob = key) objects))"

definition s3_GetMetadata :: "('q, 'c) S3Client \<Rightarrow> 'q s3_env \<Rightarrow> string \<Rightarrow> 'c S3Store \<Rightarrow> blob_error + Metadata" where
  "s3_GetMetadata cl e hash s =
     (if \<not> isValidHash hash then Inl InvalidHashFormat
      else case S3_GetObject cl (SE_meta e hash) (S3C_Bucket (S3_cfg s)) (metadataKey (S3C_Prefix (S3_cfg s)) hash) (S3_objects s) of
             None \<Rightarrow> Inl MetadataNotFound
           | Some None \<Rightarrow> Inl IoFailed
           | Some (Some data) \<Rightarrow> (case SE_unjson e data of None \<Rightarrow> Inl MetadataUnreadable | Some m \<Rightarrow> Inr m))"

definition putMetadata :: "('q, 'c) S3Client \<Rightarrow> 'q s3_env \<Rightarrow> nat \<Rightarrow> string \<Rightarrow> Metadata \<Rightarrow> 'c S3Store \<Rightarrow> blob_error option \<times> 'c S3Store" where
  "putMetadata cl e n hash m s =
     (if length hash < 4 then (Some PanicSlice, s)
      else case S3_PutObject cl (SE_call e n) (S3C_Bucket (S3_cfg s)) (metadataKey (S3C_Prefix (S3_cfg s)) hash)
                  (Some (SE_json e m)) ''application/json'' [] (S3_objects s) of
             (ok, c) \<Rightarrow> (if ok then None else Some IoFailed, s\<lparr>S3_objects := c\<rparr>))"

definition s3_UpdateMetadata :: "('q, 'c) S3Client \<Rightarrow> 'q s3_env \<Rightarrow> string \<Rightarrow> Metadata \<Rightarrow> 'c S3Store \<Rightarrow> blob_error option \<times> 'c S3Store" where
  "s3_UpdateMetadata cl e hash m s = putMetadata cl e 0 hash m s"

definition s3_count :: "int \<Rightarrow> int \<Rightarrow> Stats \<Rightarrow> Stats" where
  "s3_count n bytes st = st\<lparr>TotalBlobs := wrap64 (TotalBlobs st + n), TotalSize := wrap64 (TotalSize st + bytes)\<rparr>"

definition s3_Put ::
    "codec \<Rightarrow> ('q, 'c) S3Client \<Rightarrow> 'q s3_env \<Rightarrow> string \<Rightarrow> reader \<Rightarrow> Metadata option \<Rightarrow> 'c S3Store \<Rightarrow> blob_error option \<times> 'c S3Store" where
  "s3_Put co cl e hash r metadata s =
     (let cc = S3C_Compression (S3_cfg s); enc = S3C_ClientSideEncryption (S3_cfg s) in
      if \<not> isValidHash hash then (Some InvalidHashFormat, s)
      else case s3_Exists cl e hash s of
             Inl err \<Rightarrow> (Some err, s)
           | Inr True \<Rightarrow> (Some BlobAlreadyExists, s)
           | Inr False \<Rightarrow>
               (case r of
                  None \<Rightarrow> (Some ReadFailed, s)
                | Some data \<Rightarrow>
                    (case process_blob co cc enc (S3_encKey s) (SE_random e) data of
                       Inl err \<Rightarrow> (Some err, s)
                     | Inr processed \<Rightarrow>
                         (case S3_PutObject cl (SE_call e 1) (S3C_Bucket (S3_cfg s)) (blobKey (S3C_Prefix (S3_cfg s)) hash) (Some processed)
                                 ''application/octet-stream''
                                 ([(''bib-hash'', hash), (''bib-created-at'', SE_fmt_time e (SE_upload_now e))]
                                  @ (case metadata of Some m \<Rightarrow> if BM_Tags m \<noteq> [] then [(''bib-tags'', strings_Join (BM_Tags m) '','')] else []
                                                    | None \<Rightarrow> [])) (S3_objects s) of
                            (False, c) \<Rightarrow> (Some IoFailed, s\<lparr>S3_objects := c\<rparr>)
                          | (True, c) \<Rightarrow>
                              let m = put_metadata cc enc (SE_now e) hash (int (length data)) metadata;
                                  s2 = snd (putMetadata cl e 2 hash m (s\<lparr>S3_objects := c\<rparr>))
                              in (None, s2\<lparr>S3_stats := s3_count 1 (int (length data)) (S3_stats s2)\<rparr>)))))"

definition s3_Get :: "codec \<Rightarrow> ('q, 'c) S3Client \<Rightarrow> 'q s3_env \<Rightarrow> string \<Rightarrow> 'c S3Store \<Rightarrow> (blob_error + reader) \<times> 'c S3Store" where
  "s3_Get co cl e hash s =
     (if \<not> isValidHash hash then (Inl InvalidHashFormat, s)
      else case S3_GetObject cl (SE_call e 0) (S3C_Bucket (S3_cfg s)) (blobKey (S3C_Prefix (S3_cfg s)) hash) (S3_objects s) of
             None \<Rightarrow> (Inl IoFailed, s)
           | Some content \<Rightarrow>
               (case content of
                  None \<Rightarrow> Inl IoFailed
                | Some data \<Rightarrow> unprocess_blob co (S3C_Compression (S3_cfg s)) (S3C_ClientSideEncryption (S3_cfg s)) (S3_encKey s) data,
                s\<lparr>S3_pending := S3_pending s @ [hash]\<rparr>))"

text \<open>The part of \<open>Delete\<close> that moves the metadata: every error of it is ignored.\<close>

definition trash_metadata :: "('q, 'c) S3Client \<Rightarrow> 'q s3_env \<Rightarrow> string \<Rightarrow> 'c S3Store \<Rightarrow> 'c S3Store" where
  "trash_metadata cl e hash s =
     (let b = S3C_Bucket (S3_cfg s); metaKey = metadataKey (S3C_Prefix (S3_cfg s)) hash in
      case S3_GetObject cl (SE_call e 3) b metaKey (S3_objects s) of
        None \<Rightarrow> s
      | Some content \<Rightarrow>
          let c1 = snd (S3_PutObject cl (SE_call e 4) b (trashKey (S3C_Prefix (S3_cfg s)) hash @ ''.meta'') content ''application/json'' [] (S3_objects s));
              c2 = snd (S3_DeleteObject cl (SE_call e 5) b metaKey c1)
          in s\<lparr>S3_objects := c2\<rparr>)"

definition s3_Delete :: "('q, 'c) S3Client \<Rightarrow> 'q s3_env \<Rightarrow> string \<Rightarrow> 'c S3Store \<Rightarrow> blob_error option \<times> 'c S3Store" where
  "s3_Delete cl e hash s =
     (let b = S3C_Bucket (S3_cfg s); pre = S3C_Prefix (S3_cfg s) in
      if \<not> isValidHash hash then (Some InvalidHashFormat, s)
      else case S3_GetObject cl (SE_call e 0) b (blobKey pre hash) (S3_objects s) of
             None \<Rightarrow> (Some IoFailed, s)
           | Some content \<Rightarrow>
               (case S3_PutObject cl (SE_call e 1) b (trashKey pre hash) content ''application/octet-stream'' [] (S3_objects s) of
                  (False, c) \<Rightarrow> (Some IoFailed, s\<lparr>S3_objects := c\<rparr>)
                | (True, c) \<Rightarrow>
                    (case S3_DeleteObject cl (SE_call e 2) b (blobKey pre hash) c of
                       (False, c') \<Rightarrow> (Some IoFailed, s\<lparr>S3_objects := c'\<rparr>)
                     | (True, c') \<Rightarrow>
                         let s2 = trash_metadata cl e hash (s\<lparr>S3_objects := c'\<rparr>)
                         in (None, case s3_GetMetadata cl e hash s2 of
                                     Inl _ \<Rightarrow> s2
                                   | Inr m \<Rightarrow> s2\<lparr>S3_stats := s3_count (-1) (- BM_Size m) (S3_stats s2)\<rparr>))))"

definition s3_List :: "('q, 'c) S3Client \<Rightarrow> 'q s3_env \<Rightarrow> string \<Rightarrow> 'c S3Store \<Rightarrow> blob_error + BlobInfo list" where
  "s3_List cl e pre s =
     (if pre \<noteq> [] \<and> length pre < 4 then Inl PanicSlice
      else let searchPrefix = (if pre \<noteq> [] then blobKey (S3C_Prefix (S3_cfg s)) pre else path_Join [S3C_Prefix (S3_cfg s), ''chunks''])
           in case S3_ListObjects cl (SE_call e 0) (S3C_Bucket (S3_cfg s)) searchPrefix 0 (S3_objects s) of
                None \<Rightarrow> Inl IoFailed
              | Some objects \<Rightarrow>
                  Inr (concat (map (\<lambda>ob.
                    if suffix ''.meta'' (SO_Key ob) \<or> sublist ''.trash'' (SO_Key ob) then []
                    else let hash = path_Base (SO_Key ob)
                         in if \<not> isValidHash hash then []
                            else case s3_GetMetadata cl e hash s of
                                   Inl _ \<Rightarrow> [\<lparr>BI_Hash = hash, BI_Size = SO_Size ob, BI_CreatedAt = SO_LastModified ob,
                                              BI_LastAccessed = SO_LastModified ob, BI_Tags = []\<rparr>]
                                 | Inr m \<Rightarrow> [blob_info hash m]) objects)))"

definition s3_ops :: "codec \<Rightarrow> ('q, 'c) S3Client \<Rightarrow> ('q s3_env, 'c S3Store) Store" where
  "s3_ops co cl = \<lparr>St_Put = s3_Put co cl, St_Get = s3_Get co cl, St_Delete = s3_Delete cl, St_Exists = s3_Exists cl, St_List = s3_List cl,
     St_GetMetadata = s3_GetMetadata cl, St_UpdateMetadata = s3_UpdateMetadata cl, St_Stats = S3_stats\<rparr>"

section \<open>The keys do not clash\<close>

definition plain_part :: "string \<Rightarrow> bool" where
  "plain_part c \<longleftrightarrow> c \<noteq> [] \<and> c \<noteq> ''.'' \<and> c \<noteq> ''..'' \<and> CHR ''/'' \<notin> set c"

definition prefix_parts :: "string \<Rightarrow> string list" where
  "prefix_parts pre = (if pre = [] then [] else foldl (clean_step (hd pre = CHR ''/'')) [] (strings_Split (CHR ''/'') pre))"

lemma split_at_sep: "strings_Split c (p @ c # s) = strings_Split c p @ strings_Split c s"
  by (induction p) (auto split: list.splits)

lemma clean_plain: "list_all plain_part cs \<Longrightarrow> foldl (clean_step rooted) acc cs = acc @ cs"
  by (induction cs arbitrary: acc) (simp_all add: clean_step_def plain_part_def)

lemma clean_step_sep: "x \<in> set (clean_step rooted acc c) \<Longrightarrow> x \<in> set acc \<or> x = c \<or> x = ''..''"
  by (auto simp: clean_step_def split: if_splits dest: in_set_butlastD)

lemma clean_parts: "x \<in> set (foldl (clean_step rooted) acc cs) \<Longrightarrow> x \<in> set acc \<or> x \<in> set cs \<or> x = ''..''"
proof (induction cs arbitrary: acc)
  case (Cons c cs)
  then have "x \<in> set (clean_step rooted acc c) \<or> x \<in> set cs \<or> x = ''..''" by simp
  then show ?case using clean_step_sep [of x rooted acc c] by auto
qed simp

lemma prefix_parts_no_sep: "c \<in> set (prefix_parts pre) \<Longrightarrow> CHR ''/'' \<notin> set c"
  by (auto simp: prefix_parts_def split: if_splits dest!: clean_parts strings_Split_no_sep)

lemma split_join_plain: "cs \<noteq> [] \<Longrightarrow> list_all plain_part cs \<Longrightarrow> strings_Split (CHR ''/'') (strings_Join cs ''/'') = cs"
  by (rule strings_Split_Join) (auto simp: list_all_iff plain_part_def)

lemma join_hd: "plain_part c \<Longrightarrow> strings_Join (c # cs) ''/'' \<noteq> [] \<and> hd (strings_Join (c # cs) ''/'') \<noteq> CHR ''/''"
  by (cases cs; cases c) (auto simp: plain_part_def)

lemma path_Join_plain:
  assumes "cs \<noteq> []" and "list_all plain_part cs"
  shows "path_Join (pre # cs) = (if pre \<noteq> [] \<and> hd pre = CHR ''/'' then ''/'' else []) @ strings_Join (prefix_parts pre @ cs) ''/''"
proof -
  have ne: "filter (\<lambda>e. e \<noteq> []) cs = cs" using assms(2) by (induction cs) (auto simp: plain_part_def)
  obtain c cs' where c: "cs = c # cs'" "plain_part c" using assms by (cases cs) auto
  show ?thesis
  proof (cases "pre = []")
    case True
    then show ?thesis using ne assms c join_hd [OF c(2), of cs'] split_join_plain [OF assms] clean_plain [OF assms(2), of False "[]"]
      by (simp add: path_Join_def path_Clean_def prefix_parts_def Let_def)
  next
    case False
    have "strings_Join (pre # cs) ''/'' = pre @ CHR ''/'' # strings_Join cs ''/''" using assms(1) by (simp add: strings_Join_Cons)
    moreover have "strings_Split (CHR ''/'') (pre @ CHR ''/'' # strings_Join cs ''/'') = strings_Split (CHR ''/'') pre @ cs"
      by (simp add: split_at_sep split_join_plain [OF assms])
    ultimately show ?thesis using False ne assms(1) clean_plain [OF assms(2)]
      by (simp add: path_Join_def path_Clean_def prefix_parts_def Let_def)
  qed
qed

lemma path_Join_inj:
  assumes "path_Join (pre # cs) = path_Join (pre # ds)" and "cs \<noteq> []" "list_all plain_part cs" and "ds \<noteq> []" "list_all plain_part ds"
  shows "cs = ds"
proof -
  have "strings_Join (prefix_parts pre @ cs) ''/'' = strings_Join (prefix_parts pre @ ds) ''/''"
    using assms by (simp add: path_Join_plain)
  then have "strings_Split (CHR ''/'') (strings_Join (prefix_parts pre @ cs) ''/'') = strings_Split (CHR ''/'') (strings_Join (prefix_parts pre @ ds) ''/'')"
    by simp
  then have "prefix_parts pre @ cs = prefix_parts pre @ ds"
    using assms prefix_parts_no_sep by (subst (asm) (1 2) strings_Split_Join) (auto simp: list_all_iff plain_part_def)
  then show ?thesis by simp
qed

lemma hex_chars: "isValidHash h \<Longrightarrow> c \<in> set h \<Longrightarrow> c \<noteq> CHR ''/'' \<and> c \<noteq> CHR ''.''"
  by (auto simp: isValidHash_def list_all_iff is_hex_char_def Let_def)

lemma hash_parts:
  assumes "isValidHash h"
  shows "list_all plain_part [''chunks'', take 2 h, take 2 (drop 2 h), h]" "list_all plain_part [''chunks'', take 2 h, take 2 (drop 2 h), h @ ''.meta'']"
    "list_all plain_part [''.trash'', h]" "list_all plain_part [''.trash'', h @ ''.meta'']"
proof -
  have len: "length h = 64" using assms by (simp add: isValidHash_def)
  have part: "plain_part x" if "set x \<subseteq> set h" "x \<noteq> []" for x
    using hex_chars [OF assms, of "CHR ''/''"] hex_chars [OF assms, of "CHR ''.''"] that by (auto simp: plain_part_def)
  have "plain_part (take 2 h)" "plain_part (take 2 (drop 2 h))" "plain_part h"
    by (rule part; use len in \<open>auto dest: in_set_takeD in_set_dropD\<close>)+
  moreover have "plain_part (h @ ''.meta'')" using hex_chars [OF assms] len by (auto simp: plain_part_def)
  ultimately show "list_all plain_part [''chunks'', take 2 h, take 2 (drop 2 h), h]" "list_all plain_part [''chunks'', take 2 h, take 2 (drop 2 h), h @ ''.meta'']"
    "list_all plain_part [''.trash'', h]" "list_all plain_part [''.trash'', h @ ''.meta'']"
    by (simp_all add: plain_part_def)
qed

lemma join_snoc: "strings_Join (xs @ [a]) ''/'' @ m = strings_Join (xs @ [a @ m]) ''/''"
  by (induction xs "''/''" rule: strings_Join.induct) (auto simp: strings_Join_Cons)

lemma meta_keys:
  assumes "isValidHash h"
  shows "metadataKey pre h = path_Join [pre, ''chunks'', take 2 h, take 2 (drop 2 h), h @ ''.meta'']"
    and "trashKey pre h @ ''.meta'' = path_Join [pre, ''.trash'', h @ ''.meta'']"
proof -
  note plain = path_Join_plain [OF list.distinct(2) hash_parts(1) [OF assms]] path_Join_plain [OF list.distinct(2) hash_parts(2) [OF assms]]
    path_Join_plain [OF list.distinct(2) hash_parts(3) [OF assms]] path_Join_plain [OF list.distinct(2) hash_parts(4) [OF assms]]
  show "metadataKey pre h = path_Join [pre, ''chunks'', take 2 h, take 2 (drop 2 h), h @ ''.meta'']"
    unfolding metadataKey_def blobKey_def plain
    using join_snoc [of "prefix_parts pre @ [''chunks'', take 2 h, take 2 (drop 2 h)]" h "''.meta''"] by simp
  show "trashKey pre h @ ''.meta'' = path_Join [pre, ''.trash'', h @ ''.meta'']"
    unfolding trashKey_def plain using join_snoc [of "prefix_parts pre @ [''.trash'']" h "''.meta''"] by simp
qed

lemma keys_distinct:
  assumes h: "isValidHash h" and k: "isValidHash k"
  shows "blobKey pre h = blobKey pre k \<longleftrightarrow> h = k" and "metadataKey pre h \<noteq> blobKey pre k"
    and "trashKey pre h \<noteq> blobKey pre k" and "trashKey pre h @ ''.meta'' \<noteq> blobKey pre k"
proof -
  have len: "length h = 64" "length k = 64" using h k by (simp_all add: isValidHash_def)
  note parts = hash_parts [OF h] hash_parts [OF k]
  show "blobKey pre h = blobKey pre k \<longleftrightarrow> h = k"
    using path_Join_inj [OF _ list.distinct(2) parts(1) list.distinct(2) parts(5), of pre] by (auto simp: blobKey_def)
  show "metadataKey pre h \<noteq> blobKey pre k"
    using path_Join_inj [OF _ list.distinct(2) parts(2) list.distinct(2) parts(5), of pre] len by (auto simp: blobKey_def meta_keys [OF h])
  show "trashKey pre h \<noteq> blobKey pre k"
    using path_Join_inj [OF _ list.distinct(2) parts(3) list.distinct(2) parts(5), of pre] by (auto simp: blobKey_def trashKey_def)
  show "trashKey pre h @ ''.meta'' \<noteq> blobKey pre k"
    using path_Join_inj [OF _ list.distinct(2) parts(4) list.distinct(2) parts(5), of pre] by (auto simp: blobKey_def meta_keys [OF h])
qed

lemma metadata_key_apart:
  assumes "isValidHash k"
  shows "metadataKey pre h \<noteq> blobKey pre k"
proof
  let ?xs = "prefix_parts pre @ [''chunks'', take 2 k, take 2 (drop 2 k)]"
  assume "metadataKey pre h = blobKey pre k"
  moreover have "blobKey pre k = (if pre \<noteq> [] \<and> hd pre = CHR ''/'' then ''/'' else []) @ strings_Join (?xs @ [[]]) ''/'' @ k"
    unfolding blobKey_def path_Join_plain [OF list.distinct(2) hash_parts(1) [OF assms]] using join_snoc [of ?xs "[]" k] by simp
  ultimately obtain y where "blobKey pre h @ ''.meta'' = y @ k" by (metis append.assoc metadataKey_def)
  then have "suffix ''.meta'' k \<or> suffix k ''.meta''" by (auto simp: append_eq_append_conv2 suffix_def)
  moreover have "length k = 64" using assms by (simp add: isValidHash_def)
  ultimately have "CHR ''.'' \<in> set k" by (auto simp: suffix_def dest: arg_cong [where f = length])
  then show False using hex_chars [OF assms] by blast
qed

section \<open>The contract\<close>

text \<open>
  The second and the fifth conjunct, on failed calls, are an idealisation of the service; the
  others are its documented behaviour.
\<close>

definition s3_client_ok :: "('q, 'c) S3Client \<Rightarrow> ('c \<Rightarrow> string \<Rightarrow> string \<Rightarrow> bytes option) \<Rightarrow> bool" where
  "s3_client_ok cl objs \<longleftrightarrow>
     (\<forall>q b k r ct md c c'. S3_PutObject cl q b k r ct md c = (True, c') \<longrightarrow> (\<exists>d. r = Some d \<and> objs c' = (objs c)(b := (objs c b)(k \<mapsto> d))))
     \<and> (\<forall>q b k r ct md c c'. S3_PutObject cl q b k r ct md c = (False, c') \<longrightarrow> objs c' = objs c)
     \<and> (\<forall>q b k c r. S3_GetObject cl q b k c = Some r \<longrightarrow> (\<exists>d. objs c b k = Some d \<and> (r = None \<or> r = Some d)))
     \<and> (\<forall>q b k c c'. S3_DeleteObject cl q b k c = (True, c') \<longrightarrow> objs c' = (objs c)(b := (objs c b)(k := None)))
     \<and> (\<forall>q b k c c'. S3_DeleteObject cl q b k c = (False, c') \<longrightarrow> objs c' = objs c)
     \<and> (\<forall>q b p n c xs. S3_ListObjects cl q b p n c = Some xs \<longrightarrow> (\<forall>x \<in> set xs. prefix p (SO_Key x) \<and> objs c b (SO_Key x) \<noteq> None))"

definition s3_decode :: "codec \<Rightarrow> 'c S3Store \<Rightarrow> bytes \<Rightarrow> blob_error + reader" where
  "s3_decode co s b = unprocess_blob co (S3C_Compression (S3_cfg s)) (S3C_ClientSideEncryption (S3_cfg s)) (S3_encKey s) b"

definition s3_object :: "('c \<Rightarrow> string \<Rightarrow> string \<Rightarrow> bytes option) \<Rightarrow> 'c S3Store \<Rightarrow> string \<Rightarrow> bytes option" where
  "s3_object objs s h = (if isValidHash h then objs (S3_objects s) (S3C_Bucket (S3_cfg s)) (blobKey (S3C_Prefix (S3_cfg s)) h) else None)"

definition s3_view :: "codec \<Rightarrow> ('c \<Rightarrow> string \<Rightarrow> string \<Rightarrow> bytes option) \<Rightarrow> 'c S3Store \<Rightarrow> string \<Rightarrow> bytes option" where
  "s3_view co objs s h = Option.bind (s3_object objs s h) (\<lambda>b. case s3_decode co s b of Inl _ \<Rightarrow> None | Inr r \<Rightarrow> r)"

definition s3_inv ::
    "codec \<Rightarrow> ('q, 'c) S3Client \<Rightarrow> ('c \<Rightarrow> string \<Rightarrow> string \<Rightarrow> bytes option) \<Rightarrow> (string \<Rightarrow> bytes \<Rightarrow> bool) \<Rightarrow> 'c S3Store \<Rightarrow> bool" where
  "s3_inv co cl objs good s \<longleftrightarrow> codec_ok co \<and> s3_client_ok cl objs
     \<and> (\<forall>h b. s3_object objs s h = Some b \<longrightarrow> (\<exists>d. s3_decode co s b = Inr (Some d) \<and> good h d))"

lemma client_put:
  assumes "s3_client_ok cl objs"
  shows "S3_PutObject cl q b k r ct md c = (True, c') \<Longrightarrow> \<exists>d. r = Some d \<and> objs c' = (objs c)(b := (objs c b)(k \<mapsto> d))"
  by (rule assms [unfolded s3_client_ok_def, THEN conjunct1, rule_format])

lemma client_put_failed:
  assumes "s3_client_ok cl objs"
  shows "S3_PutObject cl q b k r ct md c = (False, c') \<Longrightarrow> objs c' = objs c"
  by (rule assms [unfolded s3_client_ok_def, THEN conjunct2, THEN conjunct1, rule_format])

lemma client_get:
  assumes "s3_client_ok cl objs"
  shows "S3_GetObject cl q b k c = Some r \<Longrightarrow> \<exists>d. objs c b k = Some d \<and> (r = None \<or> r = Some d)"
  by (rule assms [unfolded s3_client_ok_def, THEN conjunct2, THEN conjunct2, THEN conjunct1, rule_format])

lemma client_delete:
  assumes "s3_client_ok cl objs"
  shows "S3_DeleteObject cl q b k c = (True, c') \<Longrightarrow> objs c' = (objs c)(b := (objs c b)(k := None))"
  by (rule assms [unfolded s3_client_ok_def, THEN conjunct2, THEN conjunct2, THEN conjunct2, THEN conjunct1, rule_format])

lemma client_delete_failed:
  assumes "s3_client_ok cl objs"
  shows "S3_DeleteObject cl q b k c = (False, c') \<Longrightarrow> objs c' = objs c"
  by (rule assms [unfolded s3_client_ok_def, THEN conjunct2, THEN conjunct2, THEN conjunct2, THEN conjunct2, THEN conjunct1, rule_format])

lemma client_list:
  assumes "s3_client_ok cl objs"
  shows "S3_ListObjects cl q b p n c = Some xs \<Longrightarrow> x \<in> set xs \<Longrightarrow> objs c b (SO_Key x) \<noteq> None"
  using assms [unfolded s3_client_ok_def, THEN conjunct2, THEN conjunct2, THEN conjunct2, THEN conjunct2, THEN conjunct2, rule_format] by blast

lemma client_put_other:
  assumes "s3_client_ok cl objs" and "k' \<noteq> k"
  shows "objs (snd (S3_PutObject cl q b k r ct md c)) b k' = objs c b k'"
proof -
  obtain ok c' where p: "S3_PutObject cl q b k r ct md c = (ok, c')" by force
  show ?thesis
  proof (cases ok)
    case True
    then show ?thesis using client_put [OF assms(1)] p assms(2) by force
  next
    case False
    then show ?thesis using client_put_failed [OF assms(1)] p by simp
  qed
qed

lemma client_delete_other:
  assumes "s3_client_ok cl objs" and "k' \<noteq> k"
  shows "objs (snd (S3_DeleteObject cl q b k c)) b k' = objs c b k'"
proof -
  obtain ok c' where p: "S3_DeleteObject cl q b k c = (ok, c')" by force
  then show ?thesis using client_delete [OF assms(1)] client_delete_failed [OF assms(1)] assms(2) by (cases ok) simp_all
qed

lemma putMetadata_frame [simp]:
  "S3_cfg (snd (putMetadata cl e n h m s)) = S3_cfg s" "S3_encKey (snd (putMetadata cl e n h m s)) = S3_encKey s"
  by (simp_all add: putMetadata_def split: prod.splits)

lemma s3_view_cong:
  "s3_object objs s' = s3_object objs s \<Longrightarrow> S3_cfg s' = S3_cfg s \<Longrightarrow> S3_encKey s' = S3_encKey s \<Longrightarrow> s3_view co objs s' = s3_view co objs s"
  by (simp add: s3_view_def s3_decode_def fun_eq_iff)

lemma s3_inv_cong:
  assumes "s3_object objs s' = s3_object objs s" and "S3_cfg s' = S3_cfg s" and "S3_encKey s' = S3_encKey s"
  shows "s3_inv co cl objs good s' = s3_inv co cl objs good s"
proof -
  have "s3_decode co s' = s3_decode co s" using assms by (simp add: s3_decode_def fun_eq_iff)
  then show ?thesis using assms(1) by (simp add: s3_inv_def)
qed

lemma putMetadata_object:
  assumes "s3_client_ok cl objs"
  shows "s3_object objs (snd (putMetadata cl e n h m s)) = s3_object objs s"
proof
  fix k
  show "s3_object objs (snd (putMetadata cl e n h m s)) k = s3_object objs s k"
  proof (cases "isValidHash k")
    case True
    then have "metadataKey (S3C_Prefix (S3_cfg s)) h \<noteq> blobKey (S3C_Prefix (S3_cfg s)) k" using metadata_key_apart by blast
    then show ?thesis using client_put_other [OF assms, of "blobKey (S3C_Prefix (S3_cfg s)) k"]
      by (auto simp: s3_object_def putMetadata_def case_prod_beta)
  qed (simp add: s3_object_def)
qed

lemma trash_metadata_frame [simp]:
  "S3_cfg (trash_metadata cl e h s) = S3_cfg s" "S3_encKey (trash_metadata cl e h s) = S3_encKey s"
  by (simp_all add: trash_metadata_def Let_def split: option.split)

lemma trash_metadata_object:
  assumes "s3_client_ok cl objs" and "isValidHash h"
  shows "s3_object objs (trash_metadata cl e h s) = s3_object objs s"
proof
  fix k
  let ?pre = "S3C_Prefix (S3_cfg s)"
  show "s3_object objs (trash_metadata cl e h s) k = s3_object objs s k"
  proof (cases "isValidHash k")
    case True
    then have "blobKey ?pre k \<noteq> metadataKey ?pre h" "blobKey ?pre k \<noteq> trashKey ?pre h @ ''.meta''" using keys_distinct [OF assms(2)] by metis+
    then show ?thesis using client_put_other [OF assms(1), of "blobKey ?pre k"] client_delete_other [OF assms(1), of "blobKey ?pre k"]
      by (simp add: s3_object_def trash_metadata_def Let_def split: option.split)
  qed (simp add: s3_object_def)
qed

lemma s3_object_update:
  assumes "isValidHash h" and "objs c = (objs (S3_objects s))(S3C_Bucket (S3_cfg s) := (objs (S3_objects s) (S3C_Bucket (S3_cfg s)))(blobKey (S3C_Prefix (S3_cfg s)) h := x))"
  shows "s3_object objs (s\<lparr>S3_objects := c\<rparr>) = (s3_object objs s)(h := x)"
proof
  fix k
  show "s3_object objs (s\<lparr>S3_objects := c\<rparr>) k = ((s3_object objs s)(h := x)) k"
    using assms keys_distinct(1) [of k h "S3C_Prefix (S3_cfg s)"] by (simp add: s3_object_def)
qed

lemma s3_object_same:
  "objs c = objs (S3_objects s) \<Longrightarrow> s3_object objs (s\<lparr>S3_objects := c\<rparr>) = s3_object objs s"
  by (simp add: s3_object_def fun_eq_iff)

lemma s3_object_frame [simp]:
  "s3_object objs (s\<lparr>S3_stats := x\<rparr>) = s3_object objs s" "s3_object objs (s\<lparr>S3_pending := y\<rparr>) = s3_object objs s"
  by (simp_all add: s3_object_def fun_eq_iff)

lemma s3_Put_frame: "S3_cfg (snd (s3_Put co cl e h r m s)) = S3_cfg s \<and> S3_encKey (snd (s3_Put co cl e h r m s)) = S3_encKey s"
  by (simp add: s3_Put_def Let_def split: sum.splits option.splits bool.splits prod.splits)

lemma s3_Put_object:
  assumes ok: "s3_client_ok cl objs" and p: "s3_Put co cl e h r m s = (err, s')"
  shows "err \<noteq> None \<Longrightarrow> s3_object objs s' = s3_object objs s"
    and "err = None \<Longrightarrow> \<exists>d p. r = Some d \<and> process_blob co (S3C_Compression (S3_cfg s)) (S3C_ClientSideEncryption (S3_cfg s)) (S3_encKey s) (SE_random e) d = Inr p
           \<and> s3_object objs s' = (s3_object objs s)(h \<mapsto> p)"
proof -
  show "s3_object objs s' = s3_object objs s" if "err \<noteq> None"
    using that p client_put_failed [OF ok, THEN s3_object_same]
    by (auto simp: s3_Put_def Let_def split: sum.splits option.splits bool.splits prod.splits if_splits)
  assume "err = None"
  then obtain d pr c md ct where d: "isValidHash h" "r = Some d"
      "process_blob co (S3C_Compression (S3_cfg s)) (S3C_ClientSideEncryption (S3_cfg s)) (S3_encKey s) (SE_random e) d = Inr pr"
      "S3_PutObject cl (SE_call e 1) (S3C_Bucket (S3_cfg s)) (blobKey (S3C_Prefix (S3_cfg s)) h) (Some pr) ct md (S3_objects s) = (True, c)"
      "s3_object objs s' = s3_object objs (snd (putMetadata cl e 2 h
         (put_metadata (S3C_Compression (S3_cfg s)) (S3C_ClientSideEncryption (S3_cfg s)) (SE_now e) h (int (length d)) m) (s\<lparr>S3_objects := c\<rparr>)))"
    using p by (fastforce simp: s3_Put_def Let_def split: sum.splits option.splits bool.splits prod.splits if_splits)
  have "s3_object objs s' = (s3_object objs s)(h \<mapsto> pr)"
    using d(5) putMetadata_object [OF ok] client_put [OF ok d(4)] by (auto intro: s3_object_update [OF d(1)])
  then show "\<exists>d p. r = Some d \<and> process_blob co (S3C_Compression (S3_cfg s)) (S3C_ClientSideEncryption (S3_cfg s)) (S3_encKey s) (SE_random e) d = Inr p
           \<and> s3_object objs s' = (s3_object objs s)(h \<mapsto> p)" using d(2,3) by blast
qed

lemma s3_Delete_frame: "S3_cfg (snd (s3_Delete cl e h s)) = S3_cfg s \<and> S3_encKey (snd (s3_Delete cl e h s)) = S3_encKey s"
  by (simp add: s3_Delete_def Let_def split: sum.splits option.splits bool.splits prod.splits)

lemma trash_object:
  assumes "s3_client_ok cl objs" and "isValidHash h"
  shows "s3_object objs (s\<lparr>S3_objects := snd (S3_PutObject cl q (S3C_Bucket (S3_cfg s)) (trashKey (S3C_Prefix (S3_cfg s)) h) r ct md (S3_objects s))\<rparr>) = s3_object objs s"
proof
  fix k
  show "s3_object objs (s\<lparr>S3_objects := snd (S3_PutObject cl q (S3C_Bucket (S3_cfg s)) (trashKey (S3C_Prefix (S3_cfg s)) h) r ct md (S3_objects s))\<rparr>) k
      = s3_object objs s k"
    using client_put_other [OF assms(1), of "blobKey (S3C_Prefix (S3_cfg s)) k" "trashKey (S3C_Prefix (S3_cfg s)) h"]
      keys_distinct(3) [OF assms(2), of k "S3C_Prefix (S3_cfg s)"] by (fastforce simp: s3_object_def)
qed

lemma s3_Delete_object:
  assumes ok: "s3_client_ok cl objs" and p: "s3_Delete cl e h s = (err, s')"
  shows "s3_object objs s' = (if err = None then (s3_object objs s)(h := None) else s3_object objs s)"
proof (cases "isValidHash h \<and> S3_GetObject cl (SE_call e 0) (S3C_Bucket (S3_cfg s)) (blobKey (S3C_Prefix (S3_cfg s)) h) (S3_objects s) \<noteq> None")
  case False
  then show ?thesis using p by (auto simp: s3_Delete_def Let_def split: option.splits if_splits)
next
  case True
  then obtain content where h: "isValidHash h"
      and g: "S3_GetObject cl (SE_call e 0) (S3C_Bucket (S3_cfg s)) (blobKey (S3C_Prefix (S3_cfg s)) h) (S3_objects s) = Some content" by blast
  obtain tok c where t: "S3_PutObject cl (SE_call e 1) (S3C_Bucket (S3_cfg s)) (trashKey (S3C_Prefix (S3_cfg s)) h) content
      ''application/octet-stream'' [] (S3_objects s) = (tok, c)" by force
  have c: "s3_object objs (s\<lparr>S3_objects := c\<rparr>) = s3_object objs s" using trash_object [OF ok h, where s = s] t by (metis snd_conv)
  obtain dok c' where d: "S3_DeleteObject cl (SE_call e 2) (S3C_Bucket (S3_cfg s)) (blobKey (S3C_Prefix (S3_cfg s)) h) c = (dok, c')" by force
  have "s3_object objs (s\<lparr>S3_objects := c'\<rparr>) = (if dok then (s3_object objs (s\<lparr>S3_objects := c\<rparr>))(h := None) else s3_object objs (s\<lparr>S3_objects := c\<rparr>))"
    using client_delete [OF ok] client_delete_failed [OF ok] d s3_object_update [OF h, of objs c' "s\<lparr>S3_objects := c\<rparr>" None]
      s3_object_same [of objs c' "s\<lparr>S3_objects := c\<rparr>"] by (cases dok) auto
  then show ?thesis using p h g t d c trash_metadata_object [OF ok h, of e "s\<lparr>S3_objects := c'\<rparr>"]
    by (cases tok; cases dok) (auto simp: s3_Delete_def Let_def split: sum.splits)
qed

lemma s3_inv_alt:
  "s3_inv co cl objs good s \<longleftrightarrow> codec_ok co \<and> s3_client_ok cl objs
     \<and> (\<forall>h. s3_object objs s h \<noteq> None \<longrightarrow> (\<exists>d. s3_view co objs s h = Some d \<and> good h d))"
  by (fastforce simp: s3_inv_def s3_view_def split: sum.splits)

lemma s3_decode_cong: "S3_cfg s' = S3_cfg s \<Longrightarrow> S3_encKey s' = S3_encKey s \<Longrightarrow> s3_decode co s' = s3_decode co s"
  by (simp add: s3_decode_def fun_eq_iff)

lemma s3_put:
  assumes inv: "s3_inv co cl objs good s" and p: "s3_Put co cl e h r m s = (err, s')"
  shows "err = None \<Longrightarrow> \<exists>d. r = Some d \<and> s3_view co objs s' = (s3_view co objs s)(h \<mapsto> d)"
    and "err \<noteq> None \<Longrightarrow> s3_view co objs s' = s3_view co objs s"
    and "(\<And>d. r = Some d \<Longrightarrow> good h d) \<Longrightarrow> s3_inv co cl objs good s'"
proof -
  have ok: "codec_ok co" "s3_client_ok cl objs" using inv by (simp_all add: s3_inv_def)
  have same: "S3_cfg s' = S3_cfg s" "S3_encKey s' = S3_encKey s" using s3_Put_frame [of co cl e h r m s] p by simp_all
  show failed: "s3_view co objs s' = s3_view co objs s" if "err \<noteq> None"
    using s3_Put_object(1) [OF ok(2) p that] same by (intro s3_view_cong) simp_all
  show stored: "\<exists>d. r = Some d \<and> s3_view co objs s' = (s3_view co objs s)(h \<mapsto> d)" if n: "err = None"
  proof -
    obtain d pr where d: "r = Some d" "s3_object objs s' = (s3_object objs s)(h \<mapsto> pr)"
        "process_blob co (S3C_Compression (S3_cfg s)) (S3C_ClientSideEncryption (S3_cfg s)) (S3_encKey s) (SE_random e) d = Inr pr"
      using s3_Put_object(2) [OF ok(2) p n] by blast
    have "s3_decode co s pr = Inr (Some d)" using unprocess_process [OF ok(1) d(3)] by (simp add: s3_decode_def)
    then have "s3_view co objs s' = (s3_view co objs s)(h \<mapsto> d)"
      by (simp add: s3_view_def d(2) s3_decode_cong [OF same] fun_eq_iff)
    then show ?thesis using d(1) by blast
  qed
  show "s3_inv co cl objs good s'" if "\<And>d. r = Some d \<Longrightarrow> good h d"
  proof (cases err)
    case None
    then show ?thesis using stored s3_Put_object(2) [OF ok(2) p] inv that unfolding s3_inv_alt by fastforce
  qed (use failed s3_Put_object(1) [OF ok(2) p] inv in \<open>simp add: s3_inv_alt\<close>)
qed

lemma s3_delete:
  assumes inv: "s3_inv co cl objs good s" and p: "s3_Delete cl e h s = (err, s')"
  shows "s3_view co objs s' = (if err = None then (s3_view co objs s)(h := None) else s3_view co objs s)" and "s3_inv co cl objs good s'"
proof -
  have ok: "s3_client_ok cl objs" using inv by (simp add: s3_inv_def)
  have same: "S3_cfg s' = S3_cfg s" "S3_encKey s' = S3_encKey s" using s3_Delete_frame [of cl e h s] p by simp_all
  show view: "s3_view co objs s' = (if err = None then (s3_view co objs s)(h := None) else s3_view co objs s)"
    using s3_Delete_object [OF ok p] s3_decode_cong [OF same, of co] by (simp add: s3_view_def fun_eq_iff)
  show "s3_inv co cl objs good s'" using inv view s3_Delete_object [OF ok p] unfolding s3_inv_alt by (simp split: if_splits)
qed

lemma s3_get:
  assumes inv: "s3_inv co cl objs good s" and g: "s3_Get co cl e h s = (Inr r, s')"
  shows "r = s3_view co objs s h \<and> r \<noteq> None"
proof -
  obtain b where b: "isValidHash h" "s3_decode co s b = Inr r"
      "S3_GetObject cl (SE_call e 0) (S3C_Bucket (S3_cfg s)) (blobKey (S3C_Prefix (S3_cfg s)) h) (S3_objects s) = Some (Some b)"
    using g by (auto simp: s3_Get_def s3_decode_def split: option.splits if_splits)
  have "s3_client_ok cl objs" using inv by (simp add: s3_inv_def)
  then have "s3_object objs s h = Some b" using client_get [OF _ b(3)] b(1) by (fastforce simp: s3_object_def)
  then show ?thesis using inv b(2) by (fastforce simp: s3_inv_def s3_view_def)
qed

lemma s3_Get_same:
  "s3_object objs (snd (s3_Get co cl e h s)) = s3_object objs s \<and> S3_cfg (snd (s3_Get co cl e h s)) = S3_cfg s
     \<and> S3_encKey (snd (s3_Get co cl e h s)) = S3_encKey s"
  by (simp add: s3_Get_def split: option.split)

lemma s3_Update_same:
  assumes "s3_client_ok cl objs"
  shows "s3_object objs (snd (s3_UpdateMetadata cl e h m s)) = s3_object objs s"
  using putMetadata_object [OF assms] by (simp add: s3_UpdateMetadata_def)

interpretation s3: blob_store "s3_ops co cl" "s3_view co objs" good "s3_inv co cl objs good" for co cl objs good
proof (unfold_locales, goal_cases)
  case (1 s h d)
  then show ?case by (cases "s3_object objs s h") (fastforce simp: s3_inv_def s3_view_def)+
next
  case 2 then show ?case using s3_put(1) by (fastforce simp: s3_ops_def)
next
  case 3 then show ?case using s3_put(2) by (fastforce simp: s3_ops_def)
next
  case (4 s r h e m) then show ?case using s3_put(3) [OF 4(1), of e h r m] by (cases "s3_Put co cl e h r m s") (simp add: s3_ops_def)
next
  case 5 then show ?case using s3_get by (fastforce simp: s3_ops_def)
next
  case (6 s e h) show ?case using s3_Get_same [of objs co cl e h s] by (intro s3_view_cong) (simp_all add: s3_ops_def)
next
  case (7 s e h)
  have "s3_inv co cl objs good (snd (s3_Get co cl e h s)) = s3_inv co cl objs good s"
    using s3_Get_same [of objs co cl e h s] by (intro s3_inv_cong) simp_all
  then show ?case using 7 by (simp add: s3_ops_def)
next
  case (8 s k h e) then show ?case using s3_delete(1) [OF 8(1), of e h] by (cases "s3_Delete cl e h s") (simp add: s3_ops_def)
next
  case (9 s e h) then show ?case using s3_delete(1) [OF 9(1), of e h] by (cases "s3_Delete cl e h s") (simp add: s3_ops_def)
next
  case (10 s e h err s') then show ?case using s3_delete(1) [OF 10(1), of e h "Some err" s'] by (simp add: s3_ops_def)
next
  case (11 s e h) then show ?case using s3_delete(2) [OF 11(1), of e h] by (cases "s3_Delete cl e h s") (simp add: s3_ops_def)
next
  case (12 s e h)
  then have "s3_object objs s h \<noteq> None"
    using client_list [of cl objs] by (fastforce simp: s3_ops_def s3_Exists_def s3_inv_def s3_object_def list_ex_iff Let_def split: option.splits if_splits)
  then show ?case using 12 by (auto simp: s3_inv_alt)
next
  case (13 s e h m)
  then show ?case using s3_Update_same [of cl objs e h m s]
    by (intro s3_view_cong) (simp_all add: s3_ops_def s3_inv_def s3_UpdateMetadata_def)
next
  case (14 s e h m)
  then have "s3_inv co cl objs good (snd (s3_UpdateMetadata cl e h m s)) = s3_inv co cl objs good s"
    using s3_Update_same [of cl objs e h m s] by (intro s3_inv_cong) (simp_all add: s3_inv_def s3_UpdateMetadata_def)
  then show ?case using 14 by (simp add: s3_ops_def)
qed

end
