(* ===== verification/Blob_Hybrid.thy ===== *)
theory Blob_Hybrid
  imports Blob_Local Blob_S3
begin

text \<open>
  The tiered blob store (\<open>internal/storage/blob/hybrid.go\<close>) over two backends of any kind: every
  operation goes through the records of operations of its tiers. A read that was served by the cold
  tier starts a goroutine that warms the blob up: the hash is put on the list of pending moves. The
  environment of an operation is the pair of environments of its tiers; a policy that visits many blobs
  has one for each hash.

  Shown: two backends that keep the contract make a tiered store that keeps it; moving blobs between
  the tiers, by hand or by policy, never changes what a reader gets; and the LRU policy, which compares
  a size that deletions do not decrease, does not come to rest.
\<close>

section \<open>Definitions\<close>

record TieringConfig =
  TC_Enabled :: bool
  TC_Strategy :: string
  TC_HotMaxSizeGB :: int
  TC_HotMaxAgeDays :: int

record ('s, 't) HybridStore =
  HS_tiering :: TieringConfig
  HS_hot :: 's
  HS_cold :: 't
  HS_pending :: "string list"

definition hybrid_Put ::
    "('e, 's) Store \<Rightarrow> 'e \<times> 'f \<Rightarrow> string \<Rightarrow> reader \<Rightarrow> Metadata option \<Rightarrow> ('s, 't) HybridStore \<Rightarrow> blob_error option \<times> ('s, 't) HybridStore" where
  "hybrid_Put hot ef hash r m s = (case St_Put hot (fst ef) hash r m (HS_hot s) of (err, h) \<Rightarrow> (err, s\<lparr>HS_hot := h\<rparr>))"

definition hybrid_Get ::
    "('e, 's) Store \<Rightarrow> ('f, 't) Store \<Rightarrow> 'e \<times> 'f \<Rightarrow> string \<Rightarrow> ('s, 't) HybridStore \<Rightarrow> (blob_error + reader) \<times> ('s, 't) HybridStore" where
  "hybrid_Get hot cold ef hash s =
     (case St_Get hot (fst ef) hash (HS_hot s) of
        (Inr r, h) \<Rightarrow> (Inr r, s\<lparr>HS_hot := h\<rparr>)
      | (Inl _, h) \<Rightarrow>
          (case St_Get cold (snd ef) hash (HS_cold s) of
             (Inl _, c) \<Rightarrow> (Inl BlobNotFound, s\<lparr>HS_hot := h, HS_cold := c\<rparr>)
           | (Inr r, c) \<Rightarrow> (Inr r, s\<lparr>HS_hot := h, HS_cold := c, HS_pending := HS_pending s @ [hash]\<rparr>)))"

definition hybrid_Delete ::
    "('e, 's) Store \<Rightarrow> ('f, 't) Store \<Rightarrow> 'e \<times> 'f \<Rightarrow> string \<Rightarrow> ('s, 't) HybridStore \<Rightarrow> blob_error option \<times> ('s, 't) HybridStore" where
  "hybrid_Delete hot cold ef hash s =
     (case St_Delete hot (fst ef) hash (HS_hot s) of
        (hotErr, h) \<Rightarrow>
          (case St_Delete cold (snd ef) hash (HS_cold s) of
             (coldErr, c) \<Rightarrow> (if hotErr \<noteq> None \<and> coldErr \<noteq> None then Some BothTiersFailed else None, s\<lparr>HS_hot := h, HS_cold := c\<rparr>)))"

definition hybrid_Exists ::
    "('e, 's) Store \<Rightarrow> ('f, 't) Store \<Rightarrow> 'e \<times> 'f \<Rightarrow> string \<Rightarrow> ('s, 't) HybridStore \<Rightarrow> blob_error + bool" where
  "hybrid_Exists hot cold ef hash s =
     (if St_Exists hot (fst ef) hash (HS_hot s) = Inr True then Inr True else St_Exists cold (snd ef) hash (HS_cold s))"

text \<open>The two loops over the listings with one set of seen hashes.\<close>

fun dedup :: "string list \<Rightarrow> BlobInfo list \<Rightarrow> BlobInfo list" where
  "dedup seen [] = []"
| "dedup seen (b # bs) = (if BI_Hash b \<in> set seen then dedup seen bs else b # dedup (BI_Hash b # seen) bs)"

definition hybrid_List ::
    "('e, 's) Store \<Rightarrow> ('f, 't) Store \<Rightarrow> 'e \<times> 'f \<Rightarrow> string \<Rightarrow> ('s, 't) HybridStore \<Rightarrow> blob_error + BlobInfo list" where
  "hybrid_List hot cold ef pre s =
     (case St_List hot (fst ef) pre (HS_hot s) of
        Inl err \<Rightarrow> Inl err
      | Inr hotBlobs \<Rightarrow>
          (case St_List cold (snd ef) pre (HS_cold s) of
             Inl err \<Rightarrow> Inl err
           | Inr coldBlobs \<Rightarrow> Inr (dedup [] (hotBlobs @ coldBlobs))))"

definition in_tier :: "('e, 's) Store \<Rightarrow> 'e \<Rightarrow> string \<Rightarrow> 's \<Rightarrow> bool" where
  "in_tier st e hash s \<longleftrightarrow> St_Exists st e hash s = Inr True"

definition hybrid_GetMetadata ::
    "('e, 's) Store \<Rightarrow> ('f, 't) Store \<Rightarrow> 'e \<times> 'f \<Rightarrow> string \<Rightarrow> ('s, 't) HybridStore \<Rightarrow> blob_error + Metadata" where
  "hybrid_GetMetadata hot cold ef hash s =
     (case St_GetMetadata hot (fst ef) hash (HS_hot s) of
        Inr m \<Rightarrow> Inr m
      | Inl _ \<Rightarrow> St_GetMetadata cold (snd ef) hash (HS_cold s))"

definition hybrid_UpdateMetadata ::
    "('e, 's) Store \<Rightarrow> ('f, 't) Store \<Rightarrow> 'e \<times> 'f \<Rightarrow> string \<Rightarrow> Metadata \<Rightarrow> ('s, 't) HybridStore \<Rightarrow> blob_error option \<times> ('s, 't) HybridStore" where
  "hybrid_UpdateMetadata hot cold ef hash m s =
     (case (if in_tier hot (fst ef) hash (HS_hot s) then St_UpdateMetadata hot (fst ef) hash m (HS_hot s) else (None, HS_hot s)) of
        (hotErr, h) \<Rightarrow>
          (case (if in_tier cold (snd ef) hash (HS_cold s) then St_UpdateMetadata cold (snd ef) hash m (HS_cold s) else (None, HS_cold s)) of
             (coldErr, c) \<Rightarrow> (if hotErr \<noteq> None \<and> coldErr \<noteq> None then Some BothTiersFailed else None, s\<lparr>HS_hot := h, HS_cold := c\<rparr>)))"

definition hybrid_Stats :: "('e, 's) Store \<Rightarrow> ('f, 't) Store \<Rightarrow> ('s, 't) HybridStore \<Rightarrow> Stats" where
  "hybrid_Stats hot cold s =
     (let hs = St_Stats hot (HS_hot s); cs = St_Stats cold (HS_cold s)
      in \<lparr>TotalBlobs = wrap64 (TotalBlobs hs + TotalBlobs cs), TotalSize = wrap64 (TotalSize hs + TotalSize cs),
          TotalSizeCompressed = wrap64 (TotalSizeCompressed hs + TotalSizeCompressed cs),
          OldestBlob = (case (OldestBlob hs, OldestBlob cs) of
                          (Some a, None) \<Rightarrow> Some a | (Some a, Some b) \<Rightarrow> (if a < b then Some a else Some b) | (None, c) \<Rightarrow> c),
          NewestBlob = (case (NewestBlob hs, NewestBlob cs) of
                          (Some a, None) \<Rightarrow> Some a | (Some a, Some b) \<Rightarrow> (if b < a then Some a else Some b) | (None, c) \<Rightarrow> c),
          Stats_Backend = ''hybrid''\<rparr>)"

definition hybrid_ops :: "('e, 's) Store \<Rightarrow> ('f, 't) Store \<Rightarrow> ('e \<times> 'f, ('s, 't) HybridStore) Store" where
  "hybrid_ops hot cold = \<lparr>St_Put = hybrid_Put hot, St_Get = hybrid_Get hot cold, St_Delete = hybrid_Delete hot cold,
     St_Exists = hybrid_Exists hot cold, St_List = hybrid_List hot cold, St_GetMetadata = hybrid_GetMetadata hot cold,
     St_UpdateMetadata = hybrid_UpdateMetadata hot cold, St_Stats = hybrid_Stats hot cold\<rparr>"

definition hybrid_Touch ::
    "('e, 's) Store \<Rightarrow> ('f, 't) Store \<Rightarrow> 'e \<times> 'f \<Rightarrow> instant \<Rightarrow> string \<Rightarrow> ('s, 't) HybridStore \<Rightarrow> blob_error option \<times> ('s, 't) HybridStore" where
  "hybrid_Touch hot cold ef now hash s =
     (if in_tier hot (fst ef) hash (HS_hot s)
        then (case Store_Touch hot (fst ef) now hash (HS_hot s) of (err, h) \<Rightarrow> (err, s\<lparr>HS_hot := h\<rparr>))
      else if in_tier cold (snd ef) hash (HS_cold s)
        then (case Store_Touch cold (snd ef) now hash (HS_cold s) of (err, c) \<Rightarrow> (err, s\<lparr>HS_cold := c\<rparr>))
      else (Some BlobNotFound, s))"

definition hybrid_Copy ::
    "('e, 's) Store \<Rightarrow> ('f, 't) Store \<Rightarrow> ('g, 'u) Store \<Rightarrow> 'e \<times> 'f \<Rightarrow> 'g \<Rightarrow> string \<Rightarrow> ('s, 't) HybridStore \<times> 'u
       \<Rightarrow> blob_error option \<times> ('s, 't) HybridStore \<times> 'u" where
  "hybrid_Copy hot cold dst ef g hash su =
     (let s = fst su in
      if in_tier hot (fst ef) hash (HS_hot s)
        then (case Store_Copy hot dst (fst ef) g hash (HS_hot s, snd su) of (err, h, u) \<Rightarrow> (err, s\<lparr>HS_hot := h\<rparr>, u))
      else if in_tier cold (snd ef) hash (HS_cold s)
        then (case Store_Copy cold dst (snd ef) g hash (HS_cold s, snd su) of (err, c, u) \<Rightarrow> (err, s\<lparr>HS_cold := c\<rparr>, u))
      else (Some BlobNotFound, s, snd su))"

definition hybrid_Move ::
    "('e, 's) Store \<Rightarrow> ('f, 't) Store \<Rightarrow> ('g, 'u) Store \<Rightarrow> 'e \<times> 'f \<Rightarrow> 'g \<Rightarrow> string \<Rightarrow> ('s, 't) HybridStore \<times> 'u
       \<Rightarrow> blob_error option \<times> ('s, 't) HybridStore \<times> 'u" where
  "hybrid_Move hot cold dst ef g hash su =
     (let s = fst su in
      if in_tier hot (fst ef) hash (HS_hot s)
        then (case Store_Move hot dst (fst ef) g hash (HS_hot s, snd su) of (err, h, u) \<Rightarrow> (err, s\<lparr>HS_hot := h\<rparr>, u))
      else if in_tier cold (snd ef) hash (HS_cold s)
        then (case Store_Move cold dst (snd ef) g hash (HS_cold s, snd su) of (err, c, u) \<Rightarrow> (err, s\<lparr>HS_cold := c\<rparr>, u))
      else (Some BlobNotFound, s, snd su))"

subsection \<open>Moving between the tiers\<close>

definition CoolDown ::
    "('e, 's) Store \<Rightarrow> ('f, 't) Store \<Rightarrow> 'e \<times> 'f \<Rightarrow> string \<Rightarrow> ('s, 't) HybridStore \<Rightarrow> blob_error option \<times> ('s, 't) HybridStore" where
  "CoolDown hot cold ef hash s =
     (if \<not> in_tier hot (fst ef) hash (HS_hot s) then (Some NotInTier, s)
      else case (if in_tier cold (snd ef) hash (HS_cold s) then (None, HS_hot s, HS_cold s)
                 else Store_Copy hot cold (fst ef) (snd ef) hash (HS_hot s, HS_cold s)) of
             (Some err, h, c) \<Rightarrow> (Some err, s\<lparr>HS_hot := h, HS_cold := c\<rparr>)
           | (None, h, c) \<Rightarrow> (case St_Delete hot (fst ef) hash h of (err, h') \<Rightarrow> (err, s\<lparr>HS_hot := h', HS_cold := c\<rparr>)))"

definition WarmUp ::
    "('e, 's) Store \<Rightarrow> ('f, 't) Store \<Rightarrow> 'e \<times> 'f \<Rightarrow> string \<Rightarrow> ('s, 't) HybridStore \<Rightarrow> blob_error option \<times> ('s, 't) HybridStore" where
  "WarmUp hot cold ef hash s =
     (if \<not> in_tier cold (snd ef) hash (HS_cold s) then (Some NotInTier, s)
      else if in_tier hot (fst ef) hash (HS_hot s) then (None, s)
      else case Store_Copy cold hot (snd ef) (fst ef) hash (HS_cold s, HS_hot s) of
             (err, c, h) \<Rightarrow> (err, s\<lparr>HS_hot := h, HS_cold := c\<rparr>))"

definition run_warmup :: "('e, 's) Store \<Rightarrow> ('f, 't) Store \<Rightarrow> 'e \<times> 'f \<Rightarrow> ('s, 't) HybridStore \<Rightarrow> ('s, 't) HybridStore" where
  "run_warmup hot cold ef s = (case HS_pending s of [] \<Rightarrow> s | h # hs \<Rightarrow> snd (WarmUp hot cold ef h (s\<lparr>HS_pending := hs\<rparr>)))"

fun lru_loop ::
    "('e, 's) Store \<Rightarrow> ('f, 't) Store \<Rightarrow> (string \<Rightarrow> 'e \<times> 'f) \<Rightarrow> int \<Rightarrow> int \<Rightarrow> BlobInfo list \<Rightarrow> ('s, 't) HybridStore \<Rightarrow> ('s, 't) HybridStore" where
  "lru_loop hot cold ef bytesToFree freed [] s = s"
| "lru_loop hot cold ef bytesToFree freed (b # bs) s =
     (if bytesToFree \<le> freed then s
      else case CoolDown hot cold (ef (BI_Hash b)) (BI_Hash b) s of
             (Some _, s') \<Rightarrow> lru_loop hot cold ef bytesToFree freed bs s'
           | (None, s') \<Rightarrow> lru_loop hot cold ef bytesToFree (wrap64 (freed + BI_Size b)) bs s')"

definition applyLRUPolicy ::
    "('e, 's) Store \<Rightarrow> ('f, 't) Store \<Rightarrow> 'e \<Rightarrow> (string \<Rightarrow> 'e \<times> 'f) \<Rightarrow> ('s, 't) HybridStore \<Rightarrow> blob_error option \<times> ('s, 't) HybridStore" where
  "applyLRUPolicy hot cold le ef s =
     (let total = TotalSize (St_Stats hot (HS_hot s)); maxSizeBytes = wrap64 (TC_HotMaxSizeGB (HS_tiering s) * 1024 * 1024 * 1024) in
      if total < maxSizeBytes then (None, s)
      else case St_List hot le [] (HS_hot s) of
             Inl err \<Rightarrow> (Some err, s)
           | Inr blobs \<Rightarrow> (None, lru_loop hot cold ef (wrap64 (total - maxSizeBytes)) 0 blobs s))"

fun age_loop ::
    "('e, 's) Store \<Rightarrow> ('f, 't) Store \<Rightarrow> (string \<Rightarrow> 'e \<times> 'f) \<Rightarrow> instant \<Rightarrow> BlobInfo list \<Rightarrow> ('s, 't) HybridStore \<Rightarrow> ('s, 't) HybridStore" where
  "age_loop hot cold ef cutoff [] s = s"
| "age_loop hot cold ef cutoff (b # bs) s =
     age_loop hot cold ef cutoff bs (if BI_CreatedAt b < cutoff then snd (CoolDown hot cold (ef (BI_Hash b)) (BI_Hash b) s) else s)"

text \<open>\<open>AddDate(0, 0, -days)\<close> on a UTC time.\<close>

definition days_before :: "instant \<Rightarrow> int \<Rightarrow> instant" where
  "days_before now days = now - days * 86400000000000"

definition applyAgePolicy ::
    "('e, 's) Store \<Rightarrow> ('f, 't) Store \<Rightarrow> 'e \<Rightarrow> (string \<Rightarrow> 'e \<times> 'f) \<Rightarrow> instant \<Rightarrow> ('s, 't) HybridStore \<Rightarrow> blob_error option \<times> ('s, 't) HybridStore" where
  "applyAgePolicy hot cold le ef now s =
     (case St_List hot le [] (HS_hot s) of
        Inl err \<Rightarrow> (Some err, s)
      | Inr blobs \<Rightarrow> (None, age_loop hot cold ef (days_before now (TC_HotMaxAgeDays (HS_tiering s))) blobs s))"

definition ApplyTieringPolicy ::
    "('e, 's) Store \<Rightarrow> ('f, 't) Store \<Rightarrow> 'e \<Rightarrow> (string \<Rightarrow> 'e \<times> 'f) \<Rightarrow> instant \<Rightarrow> ('s, 't) HybridStore \<Rightarrow> blob_error option \<times> ('s, 't) HybridStore" where
  "ApplyTieringPolicy hot cold le ef now s =
     (if \<not> TC_Enabled (HS_tiering s) then (None, s)
      else if TC_Strategy (HS_tiering s) = ''lru'' then applyLRUPolicy hot cold le ef s
      else if TC_Strategy (HS_tiering s) = ''age'' then applyAgePolicy hot cold le ef now s
      else if TC_Strategy (HS_tiering s) = ''manual'' then (None, s)
      else (Some UnknownStrategy, s))"

text \<open>The operations a user or the daemon can run between two writes.\<close>

datatype ('e, 'f) tier_op =
    TierGet "'e \<times> 'f" string | TierWarm "'e \<times> 'f" | TierCool "'e \<times> 'f" string | TierWarmUp "'e \<times> 'f" string
  | TierTouch "'e \<times> 'f" instant string | TierUpdate "'e \<times> 'f" string Metadata | TierPolicy 'e "string \<Rightarrow> 'e \<times> 'f" instant

fun tier_step :: "('e, 's) Store \<Rightarrow> ('f, 't) Store \<Rightarrow> ('e, 'f) tier_op \<Rightarrow> ('s, 't) HybridStore \<Rightarrow> ('s, 't) HybridStore" where
  "tier_step hot cold (TierGet ef h) s = snd (hybrid_Get hot cold ef h s)"
| "tier_step hot cold (TierWarm ef) s = run_warmup hot cold ef s"
| "tier_step hot cold (TierCool ef h) s = snd (CoolDown hot cold ef h s)"
| "tier_step hot cold (TierWarmUp ef h) s = snd (WarmUp hot cold ef h s)"
| "tier_step hot cold (TierTouch ef now h) s = snd (hybrid_Touch hot cold ef now h s)"
| "tier_step hot cold (TierUpdate ef h m) s = snd (hybrid_UpdateMetadata hot cold ef h m s)"
| "tier_step hot cold (TierPolicy le ef now) s = snd (ApplyTieringPolicy hot cold le ef now s)"

definition tier_run :: "('e, 's) Store \<Rightarrow> ('f, 't) Store \<Rightarrow> ('e, 'f) tier_op list \<Rightarrow> ('s, 't) HybridStore \<Rightarrow> ('s, 't) HybridStore" where
  "tier_run hot cold ops s = fold (tier_step hot cold) ops s"

section \<open>Two tiers make a store\<close>

definition hybrid_view :: "('s \<Rightarrow> string \<Rightarrow> bytes option) \<Rightarrow> ('t \<Rightarrow> string \<Rightarrow> bytes option) \<Rightarrow> ('s, 't) HybridStore \<Rightarrow> string \<Rightarrow> bytes option" where
  "hybrid_view hview cview s = cview (HS_cold s) ++ hview (HS_hot s)"

definition hybrid_inv :: "('s \<Rightarrow> bool) \<Rightarrow> ('t \<Rightarrow> bool) \<Rightarrow> ('s, 't) HybridStore \<Rightarrow> bool" where
  "hybrid_inv hinv cinv s \<longleftrightarrow> hinv (HS_hot s) \<and> cinv (HS_cold s)"

locale store_pair = src: blob_store src sview good sinv + dst: blob_store dst dview good dinv
  for src :: "('e, 's) Store" and sview good sinv and dst :: "('f, 't) Store" and dview dinv
begin

lemma copy_views:
  assumes "sinv s" and "dinv t" and "Store_Copy src dst e f h (s, t) = (err, s', t')"
  shows "sview s' = sview s" and "sinv s'" and "dinv t'"
    and "err = None \<Longrightarrow> \<exists>d. sview s h = Some d \<and> dview t' = (dview t)(h \<mapsto> d)" and "err \<noteq> None \<Longrightarrow> dview t' = dview t"
proof -
  obtain res s1 where g: "St_Get src e h s = (res, s1)" by force
  have s1: "sview s1 = sview s" "sinv s1" using src.get_view [OF assms(1), of e h] src.get_inv [OF assms(1), of e h] g by simp_all
  have "sview s' = sview s \<and> sinv s' \<and> dinv t' \<and> (err = None \<longrightarrow> (\<exists>d. sview s h = Some d \<and> dview t' = (dview t)(h \<mapsto> d)))
      \<and> (err \<noteq> None \<longrightarrow> dview t' = dview t)"
  proof (cases res)
    case (Inl e1)
    then show ?thesis using assms g s1 by (auto simp: Store_Copy_def)
  next
    case (Inr r)
    then obtain d where d: "r = Some d" "sview s h = Some d" using src.get_reads [OF assms(1)] g by blast
    show ?thesis
    proof (cases "St_GetMetadata src e h s1")
      case (Inl e1)
      then show ?thesis using Inr assms g s1 by (auto simp: Store_Copy_def)
    next
      case m: (Inr m)
      have p: "St_Put dst f h r (Some m) t = (err, t')" and "s' = s1"
        using assms(3) g Inr m by (auto simp: Store_Copy_def split: prod.splits)
      moreover have "good h d" using src.view_good [OF assms(1) d(2)] .
      then have "dinv t'" using dst.put_inv [OF assms(2), of r h f "Some m"] d(1) p by simp
      moreover have "err = None \<Longrightarrow> dview t' = (dview t)(h \<mapsto> d)" using dst.put_done [OF assms(2)] p d(1) by fastforce
      moreover have "err \<noteq> None \<Longrightarrow> dview t' = dview t" using dst.put_failed [OF assms(2)] p by fastforce
      ultimately show ?thesis using s1 d(2) by simp
    qed
  qed
  then show "sview s' = sview s" "sinv s'" "dinv t'" "err = None \<Longrightarrow> \<exists>d. sview s h = Some d \<and> dview t' = (dview t)(h \<mapsto> d)"
    "err \<noteq> None \<Longrightarrow> dview t' = dview t" by simp_all
qed

end

locale hybrid_tiers = store_pair hot hview good hinv cold cview cinv
  for hot :: "('e, 's) Store" and hview good hinv and cold :: "('f, 't) Store" and cview cinv +
  assumes good_unique: "good h d \<Longrightarrow> good h d' \<Longrightarrow> d = d'"

begin

sublocale upward: store_pair cold cview good cinv hot hview hinv
  by (intro store_pair.intro dst.blob_store_axioms src.blob_store_axioms)

lemma tiers_agree: "hinv s \<Longrightarrow> cinv t \<Longrightarrow> hview s h = Some d \<Longrightarrow> cview t h = Some d' \<Longrightarrow> d = d'"
  using src.view_good dst.view_good good_unique by blast

lemma view_parts: "hview h' = hview (HS_hot s) \<Longrightarrow> cview c' = cview (HS_cold s) \<Longrightarrow> hybrid_view hview cview (s\<lparr>HS_hot := h', HS_cold := c'\<rparr>) = hybrid_view hview cview s"
  by (simp add: hybrid_view_def)

lemma hybrid_get:
  assumes "hybrid_inv hinv cinv s" and "hybrid_Get hot cold ef h s = (res, s')"
  shows "hybrid_inv hinv cinv s'" and "res = Inr r \<Longrightarrow> r = hybrid_view hview cview s h \<and> r \<noteq> None"
proof -
  have i: "hinv (HS_hot s)" "cinv (HS_cold s)" using assms(1) by (simp_all add: hybrid_inv_def)
  obtain hr h1 where hg: "St_Get hot (fst ef) h (HS_hot s) = (hr, h1)" by force
  obtain cr c1 where cg: "St_Get cold (snd ef) h (HS_cold s) = (cr, c1)" by force
  have "hinv h1" "cinv c1" using src.get_inv [OF i(1), of "fst ef" h] dst.get_inv [OF i(2), of "snd ef" h] hg cg by simp_all
  then show "hybrid_inv hinv cinv s'" using assms i hg cg by (auto simp: hybrid_Get_def hybrid_inv_def split: sum.splits)
  show "r = hybrid_view hview cview s h \<and> r \<noteq> None" if "res = Inr r"
  proof (cases hr)
    case (Inr a)
    then show ?thesis using that assms(2) hg src.get_reads [OF i(1)] by (fastforce simp: hybrid_Get_def hybrid_view_def map_add_def)
  next
    case (Inl a)
    then have "r = cview (HS_cold s) h \<and> r \<noteq> None"
      using that assms(2) hg cg dst.get_reads [OF i(2), of "snd ef" h r c1] by (auto simp: hybrid_Get_def split: sum.splits)
    then show ?thesis using tiers_agree [OF i, of h] by (auto simp: hybrid_view_def map_add_def split: option.splits)
  qed
qed

lemma hybrid_get_view: "hybrid_inv hinv cinv s \<Longrightarrow> hybrid_view hview cview (snd (hybrid_Get hot cold ef h s)) = hybrid_view hview cview s"
proof -
  assume i: "hybrid_inv hinv cinv s"
  obtain hr h1 where hg: "St_Get hot (fst ef) h (HS_hot s) = (hr, h1)" by force
  obtain cr c1 where cg: "St_Get cold (snd ef) h (HS_cold s) = (cr, c1)" by force
  have "hview h1 = hview (HS_hot s)" "cview c1 = cview (HS_cold s)" 
    using src.get_view [of "HS_hot s" "fst ef" h] dst.get_view [of "HS_cold s" "snd ef" h] hg cg i by (simp_all add: hybrid_inv_def)
  then show ?thesis using hg cg by (auto simp: hybrid_Get_def hybrid_view_def split: sum.splits)
qed

lemma hybrid_delete:
  assumes i: "hybrid_inv hinv cinv s" and d: "hybrid_Delete hot cold ef h s = (err, s')"
  shows "k \<noteq> h \<Longrightarrow> hybrid_view hview cview s' k = hybrid_view hview cview s k"
    and "hybrid_view hview cview s' h = None \<or> hybrid_view hview cview s' h = hybrid_view hview cview s h"
    and "err \<noteq> None \<Longrightarrow> hybrid_view hview cview s' = hybrid_view hview cview s" and "hybrid_inv hinv cinv s'"
proof -
  have inv: "hinv (HS_hot s)" "cinv (HS_cold s)" using i by (simp_all add: hybrid_inv_def)
  obtain he h1 where hd: "St_Delete hot (fst ef) h (HS_hot s) = (he, h1)" by force
  obtain ce c1 where cd: "St_Delete cold (snd ef) h (HS_cold s) = (ce, c1)" by force
  have s': "s' = s\<lparr>HS_hot := h1, HS_cold := c1\<rparr>" and err: "err \<noteq> None \<longleftrightarrow> he \<noteq> None \<and> ce \<noteq> None"
    using d hd cd by (auto simp: hybrid_Delete_def split: if_splits)
  show "hybrid_view hview cview s' k = hybrid_view hview cview s k" if "k \<noteq> h"
    using src.delete_other [OF inv(1) that, of "fst ef"] dst.delete_other [OF inv(2) that, of "snd ef"] hd cd
    by (simp add: s' hybrid_view_def map_add_def split: option.split)
  show "hybrid_view hview cview s' = hybrid_view hview cview s" if "err \<noteq> None"
    unfolding s' by (rule view_parts) (use that err hd cd src.delete_failed [OF inv(1)] dst.delete_failed [OF inv(2)] in blast)+
  show "hybrid_inv hinv cinv s'" using src.delete_inv [OF inv(1), of "fst ef" h] dst.delete_inv [OF inv(2), of "snd ef" h] hd cd
    by (simp add: s' hybrid_inv_def)
  have "hview h1 h = None \<or> hview h1 h = hview (HS_hot s) h" "cview c1 h = None \<or> cview c1 h = cview (HS_cold s) h"
    using src.delete_self [OF inv(1), of "fst ef" h] dst.delete_self [OF inv(2), of "snd ef" h] hd cd by simp_all
  then show "hybrid_view hview cview s' h = None \<or> hybrid_view hview cview s' h = hybrid_view hview cview s h"
    using tiers_agree [OF inv, of h] by (cases "cview (HS_cold s) h") (auto simp: s' hybrid_view_def map_add_def split: option.splits)
qed

lemma hybrid_update:
  assumes "hybrid_inv hinv cinv s"
  shows "hybrid_view hview cview (snd (hybrid_UpdateMetadata hot cold ef h m s)) = hybrid_view hview cview s"
    and "hybrid_inv hinv cinv (snd (hybrid_UpdateMetadata hot cold ef h m s))"
proof -
  have inv: "hinv (HS_hot s)" "cinv (HS_cold s)" using assms by (simp_all add: hybrid_inv_def)
  obtain he h1 where hu: "St_UpdateMetadata hot (fst ef) h m (HS_hot s) = (he, h1)" by force
  obtain ce c1 where cu: "St_UpdateMetadata cold (snd ef) h m (HS_cold s) = (ce, c1)" by force
  have v: "hview h1 = hview (HS_hot s)" "cview c1 = cview (HS_cold s)"
    using src.update_view [OF inv(1), of "fst ef" h m] dst.update_view [OF inv(2), of "snd ef" h m] hu cu by simp_all
  have i: "hinv h1" "cinv c1"
    using src.update_inv [OF inv(1), of "fst ef" h m] dst.update_inv [OF inv(2), of "snd ef" h m] hu cu by simp_all
  show "hybrid_view hview cview (snd (hybrid_UpdateMetadata hot cold ef h m s)) = hybrid_view hview cview s"
    using hu cu v by (auto simp: hybrid_UpdateMetadata_def hybrid_view_def)
  show "hybrid_inv hinv cinv (snd (hybrid_UpdateMetadata hot cold ef h m s))"
    using hu cu i inv by (auto simp: hybrid_UpdateMetadata_def hybrid_inv_def)
qed

lemma hybrid_put:
  assumes i: "hybrid_inv hinv cinv s" and p: "hybrid_Put hot ef h r m s = (err, s')"
  shows "err = None \<Longrightarrow> \<exists>d. r = Some d \<and> hybrid_view hview cview s' = (hybrid_view hview cview s)(h \<mapsto> d)"
    and "err \<noteq> None \<Longrightarrow> hybrid_view hview cview s' = hybrid_view hview cview s"
    and "(\<And>d. r = Some d \<Longrightarrow> good h d) \<Longrightarrow> hybrid_inv hinv cinv s'"
proof -
  obtain h1 where hp: "St_Put hot (fst ef) h r m (HS_hot s) = (err, h1)" and s': "s' = s\<lparr>HS_hot := h1\<rparr>"
    using p by (auto simp: hybrid_Put_def split: prod.splits)
  show "\<exists>d. r = Some d \<and> hybrid_view hview cview s' = (hybrid_view hview cview s)(h \<mapsto> d)" if "err = None"
    using src.put_done [of "HS_hot s" "fst ef" h r m h1] hp that i by (auto simp: s' hybrid_inv_def hybrid_view_def)
  show "hybrid_view hview cview s' = hybrid_view hview cview s" if "err \<noteq> None"
    using src.put_failed [of "HS_hot s" "fst ef" h r m _ h1] hp that i by (auto simp: s' hybrid_inv_def hybrid_view_def)
  show "hybrid_inv hinv cinv s'" if "\<And>d. r = Some d \<Longrightarrow> good h d"
    using src.put_inv [of "HS_hot s" r h "fst ef" m] hp that i by (auto simp: s' hybrid_inv_def)
qed

sublocale hybrid: blob_store "hybrid_ops hot cold" "hybrid_view hview cview" good "hybrid_inv hinv cinv"
proof (unfold_locales, goal_cases)
  case 1 then show ?case using src.view_good dst.view_good by (auto simp: hybrid_inv_def hybrid_view_def map_add_def split: option.splits)
next
  case 2 then show ?case using hybrid_put(1) by (fastforce simp: hybrid_ops_def)
next
  case 3 then show ?case using hybrid_put(2) by (fastforce simp: hybrid_ops_def)
next
  case (4 s r h e m) then show ?case using hybrid_put(3) [of s e h r m] by (cases "hybrid_Put hot e h r m s") (simp add: hybrid_ops_def)
next
  case 5 then show ?case using hybrid_get(2) by (fastforce simp: hybrid_ops_def)
next
  case 6 then show ?case using hybrid_get_view by (simp add: hybrid_ops_def)
next
  case (7 s e h) then show ?case using hybrid_get(1) [of s e h] by (cases "hybrid_Get hot cold e h s") (simp add: hybrid_ops_def)
next
  case (8 s k h e) then show ?case using hybrid_delete(1) [of s e h] by (cases "hybrid_Delete hot cold e h s") (simp add: hybrid_ops_def)
next
  case (9 s e h) then show ?case using hybrid_delete(2) [of s e h] by (cases "hybrid_Delete hot cold e h s") (simp add: hybrid_ops_def)
next
  case 10 then show ?case using hybrid_delete(3) by (fastforce simp: hybrid_ops_def)
next
  case (11 s e h) then show ?case using hybrid_delete(4) [of s e h] by (cases "hybrid_Delete hot cold e h s") (simp add: hybrid_ops_def)
next
  case (12 s e h)
  then have "St_Exists hot (fst e) h (HS_hot s) = Inr True \<or> St_Exists cold (snd e) h (HS_cold s) = Inr True"
    by (auto simp: hybrid_ops_def hybrid_Exists_def split: if_splits)
  then show ?case using 12 src.exists_true [of "HS_hot s" "fst e" h] dst.exists_true [of "HS_cold s" "snd e" h]
    by (auto simp: hybrid_inv_def hybrid_view_def map_add_def split: option.split)
next
  case 13 then show ?case using hybrid_update(1) by (simp add: hybrid_ops_def)
next
  case 14 then show ?case using hybrid_update(2) by (simp add: hybrid_ops_def)
qed

subsection \<open>Moves\<close>

lemma cooled_copy:
  assumes inv: "hinv s" "cinv t" and d: "hview s h = Some d"
    and copy: "(if in_tier cold f h t then (None, s, t) else Store_Copy hot cold e f h (s, t)) = (None, s', t')"
  shows "cview t' h = Some d" and "k \<noteq> h \<Longrightarrow> cview t' k = cview t k"
proof -
  have "cview t' h = Some d \<and> (\<forall>k. k \<noteq> h \<longrightarrow> cview t' k = cview t k)"
  proof (cases "in_tier cold f h t")
    case True
    then have "cview t h \<noteq> None" using dst.exists_true [OF inv(2)] by (simp add: in_tier_def)
    then show ?thesis using tiers_agree [OF inv d] copy True by auto
  next
    case False
    then have "Store_Copy hot cold e f h (s, t) = (None, s', t')" using copy by simp
    from copy_views(4) [OF inv this] show ?thesis using d by auto
  qed
  then show "cview t' h = Some d" "k \<noteq> h \<Longrightarrow> cview t' k = cview t k" by simp_all
qed

lemma cool_down:
  assumes i: "hybrid_inv hinv cinv s" and c: "CoolDown hot cold ef h s = (err, s')"
  shows "hybrid_view hview cview s' = hybrid_view hview cview s \<and> hybrid_inv hinv cinv s'"
proof (cases "in_tier hot (fst ef) h (HS_hot s)")
  case False
  then show ?thesis using i c by (simp add: CoolDown_def)
next
  case True
  have inv: "hinv (HS_hot s)" "cinv (HS_cold s)" using i by (simp_all add: hybrid_inv_def)
  obtain e1 h1 c1 where copy: "(if in_tier cold (snd ef) h (HS_cold s) then (None, HS_hot s, HS_cold s)
      else Store_Copy hot cold (fst ef) (snd ef) h (HS_hot s, HS_cold s)) = (e1, h1, c1)" by (metis prod_cases3)
  have v: "hview h1 = hview (HS_hot s)" "hinv h1" "cinv c1"
    using copy copy_views [OF inv] inv by (auto split: if_splits)
  show ?thesis
  proof (cases e1)
    case (Some x)
    then have "cview c1 = cview (HS_cold s)" using copy copy_views(5) [OF inv] by (auto split: if_splits)
    then show ?thesis using c True copy Some v view_parts by (auto simp: CoolDown_def hybrid_inv_def)
  next
    case None
    have "hview (HS_hot s) h \<noteq> None" using True src.exists_true [OF inv(1)] by (simp add: in_tier_def)
    then obtain d where d: "hview (HS_hot s) h = Some d" by blast
    note c1 = cooled_copy [OF inv d copy [unfolded None]]
    obtain e2 h2 where del: "St_Delete hot (fst ef) h h1 = (e2, h2)" by force
    have h2: "hinv h2" "\<And>k. k \<noteq> h \<Longrightarrow> hview h2 k = hview (HS_hot s) k" "hview h2 h = None \<or> hview h2 h = Some d"
      using src.delete_inv [OF v(2), of "fst ef" h] src.delete_other [OF v(2), of _ h "fst ef"] src.delete_self [OF v(2), of "fst ef" h] del v(1) d
      by auto
    have s': "s' = s\<lparr>HS_hot := h2, HS_cold := c1\<rparr>" using c True copy None del by (simp add: CoolDown_def)
    have "hybrid_view hview cview s' k = hybrid_view hview cview s k" for k
      using h2(2) [of k] h2(3) c1(1) c1(2) [of k] d by (cases "k = h") (auto simp: s' hybrid_view_def map_add_def split: option.split)
    then show ?thesis using h2(1) v(3) by (auto simp: s' hybrid_inv_def)
  qed
qed

lemma warm_up:
  assumes i: "hybrid_inv hinv cinv s" and c: "WarmUp hot cold ef h s = (err, s')"
  shows "hybrid_view hview cview s' = hybrid_view hview cview s \<and> hybrid_inv hinv cinv s'"
proof (cases "in_tier cold (snd ef) h (HS_cold s) \<and> \<not> in_tier hot (fst ef) h (HS_hot s)")
  case False
  then show ?thesis using i c by (auto simp: WarmUp_def split: if_splits)
next
  case True
  have inv: "hinv (HS_hot s)" "cinv (HS_cold s)" using i by (simp_all add: hybrid_inv_def)
  obtain e1 c1 h1 where copy: "Store_Copy cold hot (snd ef) (fst ef) h (HS_cold s, HS_hot s) = (e1, c1, h1)" by (metis prod_cases3)
  note v = upward.copy_views [OF inv(2,1) copy]
  have s': "s' = s\<lparr>HS_hot := h1, HS_cold := c1\<rparr>" using c True copy by (simp add: WarmUp_def)
  have "hybrid_view hview cview s' = hybrid_view hview cview s"
  proof (cases e1)
    case None
    then obtain d where "cview (HS_cold s) h = Some d" "hview h1 = (hview (HS_hot s))(h \<mapsto> d)" using v(4) by blast
    then show ?thesis using tiers_agree [OF inv, of h] v(1) by (auto simp: s' hybrid_view_def map_add_def fun_eq_iff split: option.split)
  qed (use v(1,5) s' view_parts in auto)
  then show ?thesis using v(2,3) s' by (simp add: hybrid_inv_def)
qed

lemma lru_loop_keeps:
  "hybrid_inv hinv cinv s \<Longrightarrow> hybrid_view hview cview (lru_loop hot cold ef n f bs s) = hybrid_view hview cview s
     \<and> hybrid_inv hinv cinv (lru_loop hot cold ef n f bs s)"
proof (induction bs arbitrary: f s)
  case (Cons b bs)
  obtain err s' where "CoolDown hot cold (ef (BI_Hash b)) (BI_Hash b) s = (err, s')" by force
  then show ?case using cool_down [OF Cons.prems] Cons by (cases err) auto
qed simp

lemma age_loop_keeps:
  "hybrid_inv hinv cinv s \<Longrightarrow> hybrid_view hview cview (age_loop hot cold ef t0 bs s) = hybrid_view hview cview s
     \<and> hybrid_inv hinv cinv (age_loop hot cold ef t0 bs s)"
proof (induction bs arbitrary: s)
  case (Cons b bs)
  obtain err s' where "CoolDown hot cold (ef (BI_Hash b)) (BI_Hash b) s = (err, s')" by force
  then show ?case using cool_down [OF Cons.prems] Cons by auto
qed simp

lemma touch_keeps:
  assumes "hybrid_inv hinv cinv s"
  shows "hybrid_view hview cview (snd (hybrid_Touch hot cold ef now h s)) = hybrid_view hview cview s
     \<and> hybrid_inv hinv cinv (snd (hybrid_Touch hot cold ef now h s))"
proof -
  obtain he h1 where ht: "Store_Touch hot (fst ef) now h (HS_hot s) = (he, h1)" by force
  obtain ce c1 where ct: "Store_Touch cold (snd ef) now h (HS_cold s) = (ce, c1)" by force
  have "hview h1 = hview (HS_hot s)" "cview c1 = cview (HS_cold s)" "hinv h1" "cinv c1"
    using src.touch_view [of "HS_hot s" "fst ef" now h] dst.touch_view [of "HS_cold s" "snd ef" now h]
      src.touch_inv [of "HS_hot s" "fst ef" now h] dst.touch_inv [of "HS_cold s" "snd ef" now h] ht ct assms by (simp_all add: hybrid_inv_def)
  then show ?thesis using assms ht ct by (auto simp: hybrid_Touch_def hybrid_inv_def hybrid_view_def)
qed

lemma tier_step_keeps:
  assumes "hybrid_inv hinv cinv s"
  shows "hybrid_view hview cview (tier_step hot cold op s) = hybrid_view hview cview s \<and> hybrid_inv hinv cinv (tier_step hot cold op s)"
proof (cases op)
  case (TierGet ef h)
  then show ?thesis using hybrid_get_view [OF assms] hybrid_get(1) [OF assms] by (metis prod.collapse tier_step.simps(1))
next
  case (TierWarm ef)
  have "hybrid_view hview cview (s\<lparr>HS_pending := hs\<rparr>) = hybrid_view hview cview s \<and> hybrid_inv hinv cinv (s\<lparr>HS_pending := hs\<rparr>)" for hs
    using assms by (simp add: hybrid_view_def hybrid_inv_def)
  then show ?thesis using TierWarm warm_up assms by (simp add: run_warmup_def split: list.splits) (metis prod.collapse)
next
  case (TierCool ef h)
  then show ?thesis using cool_down [OF assms] by (metis prod.collapse tier_step.simps(3))
next
  case (TierWarmUp ef h)
  then show ?thesis using warm_up [OF assms] by (metis prod.collapse tier_step.simps(4))
next
  case (TierTouch ef now h)
  then show ?thesis using touch_keeps [OF assms] by simp
next
  case (TierUpdate ef h m)
  then show ?thesis using hybrid_update [OF assms] by simp
next
  case (TierPolicy le ef now)
  then show ?thesis using lru_loop_keeps [OF assms] age_loop_keeps [OF assms] assms
    by (simp add: ApplyTieringPolicy_def applyLRUPolicy_def applyAgePolicy_def Let_def split: sum.split)
qed

lemma tier_run_keeps:
  "hybrid_inv hinv cinv s \<Longrightarrow> hybrid_view hview cview (tier_run hot cold ops s) = hybrid_view hview cview s \<and> hybrid_inv hinv cinv (tier_run hot cold ops s)"
  unfolding tier_run_def by (induction ops arbitrary: s) (use tier_step_keeps in \<open>fastforce+\<close>)

end

section \<open>The local disk in front of object storage\<close>

text \<open>
  The data belongs under the hexadecimal SHA-256 hash of its bytes. \<open>U\<close> is the set of data ever
  stored; the hash has no collision on it.
\<close>

definition hash_ok :: "(bytes \<Rightarrow> bytes) \<Rightarrow> bytes set \<Rightarrow> string \<Rightarrow> bytes \<Rightarrow> bool" where
  "hash_ok sha256 U h d \<longleftrightarrow> inj_on sha256 U \<and> d \<in> U \<and> h = hex_EncodeToString (sha256 d)"

lemma hash_ok_unique: "hash_ok sha256 U h d \<Longrightarrow> hash_ok sha256 U h d' \<Longrightarrow> d = d'"
  by (auto simp: hash_ok_def dest: hex_inj inj_onD)

interpretation tiers: hybrid_tiers "local_ops co" "local_view co" "hash_ok sha256 U" "local_inv co (hash_ok sha256 U)"
    "s3_ops co cl" "s3_view co objs" "s3_inv co cl objs (hash_ok sha256 U)" for co sha256 U cl objs
  by unfold_locales (rule hash_ok_unique)

abbreviation tier_view :: "codec \<Rightarrow> ('c \<Rightarrow> string \<Rightarrow> string \<Rightarrow> bytes option) \<Rightarrow> (LocalStore, 'c S3Store) HybridStore \<Rightarrow> string \<Rightarrow> bytes option" where
  "tier_view co objs \<equiv> hybrid_view (local_view co) (s3_view co objs)"

abbreviation tier_inv where
  "tier_inv co cl objs sha256 U \<equiv> hybrid_inv (local_inv co (hash_ok sha256 U)) (s3_inv co cl objs (hash_ok sha256 U))"


text \<open>An object store that keeps its buckets in one list.\<close>

definition list_client :: "(unit, ((string \<times> string) \<times> bytes) list) S3Client" where
  "list_client = \<lparr>S3_PutObject = (\<lambda>q b k r ct md c. case r of None \<Rightarrow> (False, c) | Some d \<Rightarrow> (True, AList.update (b, k) d c)),
     S3_GetObject = (\<lambda>q b k c. map_option Some (map_of c (b, k))),
     S3_DeleteObject = (\<lambda>q b k c. (True, AList.delete (b, k) c)),
     S3_ListObjects = (\<lambda>q b p n c. Some (map (\<lambda>((b', k), d). \<lparr>SO_Key = k, SO_Size = int (length d), SO_LastModified = 0\<rparr>)
                                         (filter (\<lambda>((b', k), d). b' = b \<and> prefix p k) c)))\<rparr>"

definition list_objs :: "((string \<times> string) \<times> bytes) list \<Rightarrow> string \<Rightarrow> string \<Rightarrow> bytes option" where
  "list_objs c b k = map_of c (b, k)"

lemma list_client_ok: "s3_client_ok list_client list_objs"
  unfolding s3_client_ok_def list_client_def list_objs_def
  by (auto simp: update_conv delete_conv fun_eq_iff split: option.splits dest: weak_map_of_SomeI)

definition cold_sample :: "((string \<times> string) \<times> bytes) list S3Store" where
  "cold_sample = \<lparr>S3_cfg = \<lparr>S3C_Bucket = ''b'', S3C_Prefix = ''blobs/'', S3C_ClientSideEncryption = False,
       S3C_Compression = \<lparr>CC_Enabled = False, CC_Algorithm = [], CC_Level = 0\<rparr>\<rparr>,
     S3_encKey = [], S3_stats = zero_stats ''s3'', S3_objects = [], S3_pending = []\<rparr>"

definition tiers_sample :: "(LocalStore, ((string \<times> string) \<times> bytes) list S3Store) HybridStore" where
  "tiers_sample = \<lparr>HS_tiering = \<lparr>TC_Enabled = True, TC_Strategy = ''lru'', TC_HotMaxSizeGB = 0, TC_HotMaxAgeDays = 1\<rparr>,
     HS_hot = fresh_local\<lparr>LS_blobs := [(hex_EncodeToString (replicate 32 170), (replicate 12 7 @ [1, 40, 5], 0))]\<rparr>,
     HS_cold = cold_sample, HS_pending = []\<rparr>"

lemma tiers_sample_inv: "tier_inv plain_codec list_client list_objs (\<lambda>d. replicate 32 170) {[5]} tiers_sample"
  by (auto simp: hybrid_inv_def tiers_sample_def local_inv_def s3_inv_def codec_ok_def list_client_ok fresh_local_def cold_sample_def
      local_decode_def unprocess_blob_def decryptData_def newDecompressionReader_def nonceSize_def plain_codec_def hash_ok_def
      s3_object_def list_objs_def split: if_splits)

definition calm_s3 :: "unit s3_env" where
  "calm_s3 = \<lparr>SE_call = (\<lambda>_. ()), SE_meta = (\<lambda>_. ()), SE_random = [], SE_upload_now = 0, SE_now = 0, SE_fmt_time = (\<lambda>_. []),
     SE_json = (\<lambda>_. []), SE_unjson = (\<lambda>_. None)\<rparr>"


section \<open>The LRU policy\<close>

lemma local_Get_stats: "local_Get co e h s = (res, s') \<Longrightarrow> LS_stats s' = LS_stats s"
  using local_Get_frame(4) [of co e h s] by (simp del: local_Get_frame)

lemma cool_down_stats:
  fixes cold :: "('f, 't) Store"
  assumes "LE_meta_rename_ok (fst ef)" and "CoolDown (local_ops co) cold ef h s = (err, s')"
  shows "LS_stats (HS_hot s') = LS_stats (HS_hot s) \<and> HS_tiering s' = HS_tiering s"
proof -
  have copy: "LS_stats h1 = LS_stats h0" if "Store_Copy (local_ops co) cold e f h (h0, c0) = (er, h1, c1)" for h0 h1 c0 c1 e f er
    using that by (auto simp: Store_Copy_def local_ops_def split: sum.splits prod.splits dest: local_Get_stats)
  have del: "LS_stats h1 = LS_stats h0" if "local_Delete (fst ef) h h0 = (er, h1)" for h0 h1 er
    using that delete_stats [OF _ assms(1)] local_Delete_failed by (cases er) blast+
  show ?thesis using assms(2) copy del
    by (auto simp: CoolDown_def local_ops_def [THEN arg_cong, of St_Delete] split: if_splits prod.splits option.splits)
qed

lemma lru_loop_stats:
  fixes cold :: "('f, 't) Store"
  assumes "\<And>h. LE_meta_rename_ok (fst (ef h))"
  shows "LS_stats (HS_hot (lru_loop (local_ops co) cold ef n f bs s)) = LS_stats (HS_hot s)
     \<and> HS_tiering (lru_loop (local_ops co) cold ef n f bs s) = HS_tiering s"
proof (induction bs arbitrary: f s)
  case (Cons b bs)
  obtain err s' where "CoolDown (local_ops co) cold (ef (BI_Hash b)) (BI_Hash b) s = (err, s')" by force
  note c = this cool_down_stats [OF assms this]
  then show ?case using Cons by (cases err) auto
qed simp

definition lru_rounds ::
    "codec \<Rightarrow> ('f, 't) Store \<Rightarrow> (local_env \<times> (string \<Rightarrow> local_env \<times> 'f) \<times> instant) list \<Rightarrow> (LocalStore, 't) HybridStore \<Rightarrow> (LocalStore, 't) HybridStore" where
  "lru_rounds co cold rounds s = fold (\<lambda>(le, ef, now) s. snd (ApplyTieringPolicy (local_ops co) cold le ef now s)) rounds s"

lemma lru_rounds_stats:
  fixes cold :: "('f, 't) Store"
  assumes "TC_Strategy (HS_tiering s) = ''lru''" and "\<forall>(le, ef, now) \<in> set rounds. \<forall>h. LE_meta_rename_ok (fst (ef h))"
  shows "LS_stats (HS_hot (lru_rounds co cold rounds s)) = LS_stats (HS_hot s) \<and> HS_tiering (lru_rounds co cold rounds s) = HS_tiering s"
  using assms
proof (induction rounds arbitrary: s)
  case (Cons x rounds)
  obtain le ef now where x: "x = (le, ef, now)" by (metis prod_cases3)
  let ?s = "snd (ApplyTieringPolicy (local_ops co) cold le ef now s)"
  have "LS_stats (HS_hot ?s) = LS_stats (HS_hot s) \<and> HS_tiering ?s = HS_tiering s"
    using lru_loop_stats [of ef co cold _ 0 _ s] Cons.prems x
    by (simp add: ApplyTieringPolicy_def applyLRUPolicy_def Let_def split: sum.split)
  then show ?case using Cons.IH [of ?s] Cons.prems x by (simp add: lru_rounds_def)
qed (simp add: lru_rounds_def)

text \<open>
  Deleting from the local tier does not decrease its recorded size, because the metadata is moved
  away before its size is read. When the recorded size is over the limit of the LRU policy it stays
  there through any number of runs, whatever these moved, and the next run again moves the first blob
  of the listing to the cold tier: the policy comes to rest only when the hot tier is empty.
\<close>

theorem lru_never_rests:
  fixes cold :: "('f, 't) Store"
  assumes "TC_Enabled (HS_tiering s)" and "TC_Strategy (HS_tiering s) = ''lru''"
    and over: "wrap64 (TC_HotMaxSizeGB (HS_tiering s) * 1024 * 1024 * 1024) < TotalSize (LS_stats (HS_hot s))"
    and renames: "\<forall>(le, ef, now) \<in> set rounds. \<forall>h. LE_meta_rename_ok (fst (ef h))"
    and s': "s' = lru_rounds co cold rounds s"
    and blobs: "local_List le [] (HS_hot s') = Inr (b # bs)"
    and free: "free = wrap64 (TotalSize (LS_stats (HS_hot s)) - wrap64 (TC_HotMaxSizeGB (HS_tiering s) * 1024 * 1024 * 1024))" and "0 < free"
    and cool: "CoolDown (local_ops co) cold (ef (BI_Hash b)) (BI_Hash b) s' = (None, s2)"
  shows "LS_stats (HS_hot s') = LS_stats (HS_hot s)
    \<and> ApplyTieringPolicy (local_ops co) cold le ef now s' = (None, lru_loop (local_ops co) cold ef free (wrap64 (0 + BI_Size b)) bs s2)"
proof -
  have same: "LS_stats (HS_hot s') = LS_stats (HS_hot s)" "HS_tiering s' = HS_tiering s"
    using lru_rounds_stats [OF assms(2) renames, of co cold] s' by simp_all
  then show ?thesis using assms by (simp add: ApplyTieringPolicy_def applyLRUPolicy_def Let_def local_ops_def)
qed

definition full_metadata :: Metadata where
  "full_metadata = put_metadata \<lparr>CC_Enabled = True, CC_Algorithm = ''zstd'', CC_Level = 3\<rparr> True 5 sample_hash 3 None"

definition full_local :: LocalStore where
  "full_local = fresh_local\<lparr>LS_stats := (zero_stats ''local'')\<lparr>TotalBlobs := 1, TotalSize := 3\<rparr>,
     LS_blobs := [(sample_hash, (replicate 12 7 @ [1, 40, 1, 2, 3], 5))],
     LS_meta := [(sample_hash, (Some full_metadata, 5))]\<rparr>"

definition full_tiers :: "(LocalStore, LocalStore) HybridStore" where
  "full_tiers = \<lparr>HS_tiering = \<lparr>TC_Enabled = True, TC_Strategy = ''lru'', TC_HotMaxSizeGB = 0, TC_HotMaxAgeDays = 1\<rparr>,
     HS_hot = full_local, HS_cold = fresh_local, HS_pending = []\<rparr>"

lemma full_get: "local_Get plain_codec calm sample_hash full_local = (Inr (Some [1, 2, 3]), full_local\<lparr>LS_pending := [sample_hash]\<rparr>)"
  by (simp add: local_Get_def sample_hash_valid full_local_def fresh_local_def calm_def unprocess_blob_def decryptData_def nonceSize_def
      newDecompressionReader_def plain_codec_def)

lemma full_meta: "local_GetMetadata calm sample_hash (full_local\<lparr>LS_pending := p\<rparr>)
    = Inr full_metadata"
  by (simp add: local_GetMetadata_def sample_hash_valid full_local_def calm_def)

lemma full_cool: "fst (CoolDown (local_ops plain_codec) (local_ops plain_codec) (calm, calm) sample_hash full_tiers) = None"
proof -
  have "fst (local_Put plain_codec calm sample_hash (Some [1, 2, 3]) (Some full_metadata) fresh_local) = None"
    by (simp add: local_Put_def sample_hash_valid calm_def fresh_local_def process_blob_def newCompressionWriter_def encryptData_def nonceSize_def Let_def)
  then obtain t where t: "local_Put plain_codec calm sample_hash (Some [1, 2, 3]) (Some full_metadata) fresh_local = (None, t)" by (metis prod.collapse)
  have "fst (local_Delete calm sample_hash (full_local\<lparr>LS_pending := [sample_hash]\<rparr>)) = None"
    by (simp add: local_Delete_def sample_hash_valid calm_def full_local_def Let_def)
  then obtain u where u: "local_Delete calm sample_hash (full_local\<lparr>LS_pending := [sample_hash]\<rparr>) = (None, u)" by (metis prod.collapse)
  have "local_Exists calm sample_hash full_local = Inr True" "local_Exists calm sample_hash fresh_local = Inr False"
    by (simp_all add: local_Exists_def sample_hash_valid calm_def full_local_def fresh_local_def)
  then show ?thesis by (simp add: CoolDown_def in_tier_def local_ops_def Store_Copy_def full_tiers_def full_get full_meta t u)
qed

theorem lru_never_rests_witness:
  "ApplyTieringPolicy (local_ops plain_codec) (local_ops plain_codec) calm (\<lambda>_. (calm, calm)) 0 full_tiers
     = (None, snd (CoolDown (local_ops plain_codec) (local_ops plain_codec) (calm, calm) sample_hash full_tiers))"
proof -
  have blobs: "local_List calm [] (HS_hot full_tiers) = Inr [blob_info sample_hash full_metadata]"
    using full_meta [of "[]"] by (simp add: local_List_def walk_def calm_def full_tiers_def full_local_def fresh_local_def)
  obtain s2 where c: "CoolDown (local_ops plain_codec) (local_ops plain_codec) (calm, calm) sample_hash full_tiers = (None, s2)"
    using full_cool by (metis prod.collapse)
  have "LS_stats (HS_hot full_tiers) = LS_stats (HS_hot full_tiers)
      \<and> ApplyTieringPolicy (local_ops plain_codec) (local_ops plain_codec) calm (\<lambda>_. (calm, calm)) 0 full_tiers
        = (None, lru_loop (local_ops plain_codec) (local_ops plain_codec) (\<lambda>_. (calm, calm)) 3
                   (wrap64 (0 + BI_Size (blob_info sample_hash full_metadata))) [] s2)"
  proof (rule lru_never_rests [where rounds = "[]" and s = full_tiers])
    show "wrap64 (TC_HotMaxSizeGB (HS_tiering full_tiers) * 1024 * 1024 * 1024) < TotalSize (LS_stats (HS_hot full_tiers))"
      "3 = wrap64 (TotalSize (LS_stats (HS_hot full_tiers)) - wrap64 (TC_HotMaxSizeGB (HS_tiering full_tiers) * 1024 * 1024 * 1024))"
      by (simp_all add: full_tiers_def full_local_def wrap64_def)
  qed (use blobs c in \<open>simp_all add: lru_rounds_def full_tiers_def blob_info_def\<close>)
  then show ?thesis by (simp add: c)
qed

end
