(* ===== verification/Blob_Ingest.thy ===== *)
theory Blob_Ingest
  imports Blob_Hybrid Dataset_Repo
begin

text \<open>
  The ingestion of data set chunks (\<open>internal/storage/blob/ingestion.go\<close>): the blob store and the
  data set repository behind one interface. The blob store is any backend, given by its operations.
  \<open>IN_audit\<close> is the log of the audit logger, \<open>None\<close> when there is no logger. The record behind the
  chunk pointer is updated in place: the operations return it.

  Shown: what was ingested into tiers of sound blobs is retrieved, while a damaged blob of the same
  hash is not replaced; over the local store with any files the integrity check reports exactly the
  missing and the damaged chunks; and a chunk that was deleted cannot be ingested again.
\<close>

section \<open>Definitions\<close>

datatype ingest_error =
    ReadDataFailed | HashMismatch | StoreFailed blob_error | DbFailed repo_error | CountMismatch | MissingData int
  | IntegrityFailed nat nat

record AuditOperation =
  AO_Operation :: string
  AO_Hash :: string
  AO_Size :: int
  AO_Success :: bool
  AO_Error :: "blob_error option"
  AO_DatasetID :: string
  AO_VersionID :: string
  AO_ChunkIndex :: int

record 's Ingestion =
  IN_blobs :: 's
  IN_db :: dataset_store
  IN_audit :: "AuditOperation list option"

record 'e ingest_env =
  IE_sha256 :: "bytes \<Rightarrow> bytes"
  IE_exists :: 'e
  IE_put :: 'e
  IE_meta :: 'e
  IE_update :: 'e
  IE_delete :: 'e
  IE_sql :: sql_env
  IE_stmt :: stmt

definition blob_operation :: "string \<Rightarrow> Chunk \<Rightarrow> int \<Rightarrow> blob_error option \<Rightarrow> AuditOperation" where
  "blob_operation op c sz err = \<lparr>AO_Operation = op, AO_Hash = Chunk_Hash c, AO_Size = sz, AO_Success = (err = None), AO_Error = err,
     AO_DatasetID = Chunk_DatasetID c, AO_VersionID = Chunk_VersionID c, AO_ChunkIndex = Chunk_Index c\<rparr>"

definition LogBlobOperation :: "AuditOperation \<Rightarrow> 's Ingestion \<Rightarrow> 's Ingestion" where
  "LogBlobOperation op i = i\<lparr>IN_audit := map_option (\<lambda>l. l @ [op]) (IN_audit i)\<rparr>"

definition chunk_ref :: "Chunk \<Rightarrow> Reference" where
  "chunk_ref c = \<lparr>Ref_DatasetID = Chunk_DatasetID c, Ref_VersionID = Chunk_VersionID c, Ref_ChunkIndex = Chunk_Index c\<rparr>"

text \<open>The blob part of \<open>IngestChunk\<close>: store the blob, or add a reference to the one that is there.\<close>

definition ingest_blob :: "('e, 's) Store \<Rightarrow> 'e ingest_env \<Rightarrow> Chunk \<Rightarrow> bytes \<Rightarrow> 's Ingestion \<Rightarrow> ingest_error option \<times> 's Ingestion" where
  "ingest_blob st e c data i =
     (case St_Exists st (IE_exists e) (Chunk_Hash c) (IN_blobs i) of
        Inl err \<Rightarrow> (Some (StoreFailed err), i)
      | Inr False \<Rightarrow>
          (case St_Put st (IE_put e) (Chunk_Hash c) (Some data)
                  (Some (zero_Metadata\<lparr>BM_Hash := Chunk_Hash c, BM_Size := int (length data), BM_References := [chunk_ref c]\<rparr>)) (IN_blobs i) of
             (Some err, s) \<Rightarrow> (Some (StoreFailed err), LogBlobOperation (blob_operation ''put'' c (int (length data)) (Some err)) (i\<lparr>IN_blobs := s\<rparr>))
           | (None, s) \<Rightarrow> (None, LogBlobOperation (blob_operation ''put'' c (int (length data)) None) (i\<lparr>IN_blobs := s\<rparr>)))
      | Inr True \<Rightarrow>
          (case St_GetMetadata st (IE_meta e) (Chunk_Hash c) (IN_blobs i) of
             Inl _ \<Rightarrow> (None, i)
           | Inr m \<Rightarrow>
               if chunk_ref c \<in> set (BM_References m) then (None, i)
               else (None, i\<lparr>IN_blobs := snd (St_UpdateMetadata st (IE_update e) (Chunk_Hash c)
                                                 (m\<lparr>BM_References := BM_References m @ [chunk_ref c]\<rparr>) (IN_blobs i))\<rparr>)))"

definition IngestChunk ::
    "('e, 's) Store \<Rightarrow> 'e ingest_env \<Rightarrow> Chunk \<Rightarrow> reader \<Rightarrow> 's Ingestion \<Rightarrow> ingest_error option \<times> Chunk \<times> 's Ingestion" where
  "IngestChunk st e c r i =
     (case r of
        None \<Rightarrow> (Some ReadDataFailed, c, i)
      | Some data \<Rightarrow>
          if hex_EncodeToString (IE_sha256 e data) \<noteq> Chunk_Hash c then (Some HashMismatch, c, i)
          else let c1 = c\<lparr>Chunk_Size := int (length data)\<rparr>
               in (case ingest_blob st e c1 data i of
                     (Some err, i') \<Rightarrow> (Some err, c1, i')
                   | (None, i') \<Rightarrow>
                       let c2 = c1\<lparr>Chunk_Status := ''verified''\<rparr>
                       in (case CreateChunk (IE_sql e) (IE_stmt e) c2 (IN_db i') of
                             (res, db) \<Rightarrow> (map_option DbFailed res, c2, i'\<lparr>IN_db := db\<rparr>))))"

definition RetrieveChunk :: "('e, 's) Store \<Rightarrow> 'e \<Rightarrow> Chunk \<Rightarrow> 's Ingestion \<Rightarrow> (ingest_error + reader) \<times> 's Ingestion" where
  "RetrieveChunk st e c i =
     (case St_Get st e (Chunk_Hash c) (IN_blobs i) of
        (Inl err, s) \<Rightarrow> (Inl (StoreFailed err), LogBlobOperation (blob_operation ''get'' c 0 (Some err)) (i\<lparr>IN_blobs := s\<rparr>))
      | (Inr r, s) \<Rightarrow> (Inr r, LogBlobOperation (blob_operation ''get'' c (Chunk_Size c) None) (i\<lparr>IN_blobs := s\<rparr>)))"

definition DeleteChunk :: "('e, 's) Store \<Rightarrow> 'e ingest_env \<Rightarrow> Chunk \<Rightarrow> 's Ingestion \<Rightarrow> ingest_error option \<times> 's Ingestion" where
  "DeleteChunk st e c i =
     (case St_GetMetadata st (IE_meta e) (Chunk_Hash c) (IN_blobs i) of
        Inl err \<Rightarrow> (Some (StoreFailed err), i)
      | Inr m \<Rightarrow>
          let updatedRefs = filter (\<lambda>r. r \<noteq> chunk_ref c) (BM_References m)
          in case (if updatedRefs = []
                   then (case St_Delete st (IE_delete e) (Chunk_Hash c) (IN_blobs i) of
                           (Some err, s) \<Rightarrow> (Some (StoreFailed err), LogBlobOperation (blob_operation ''delete'' c 0 (Some err)) (i\<lparr>IN_blobs := s\<rparr>))
                         | (None, s) \<Rightarrow> (None, LogBlobOperation (blob_operation ''delete'' c (Chunk_Size c) None) (i\<lparr>IN_blobs := s\<rparr>)))
                   else (case St_UpdateMetadata st (IE_update e) (Chunk_Hash c) (m\<lparr>BM_References := updatedRefs\<rparr>) (IN_blobs i) of
                           (Some err, s) \<Rightarrow> (Some (StoreFailed err), i\<lparr>IN_blobs := s\<rparr>)
                         | (None, s) \<Rightarrow> (None, i\<lparr>IN_blobs := s\<rparr>))) of
               (Some err, i') \<Rightarrow> (Some err, i')
             | (None, i') \<Rightarrow>
                 (case UpdateChunkStatus (IE_sql e) (IE_stmt e) (Chunk_ID c) ''failed'' (IN_db i') of
                    (res, db) \<Rightarrow> (map_option DbFailed res, i'\<lparr>IN_db := db\<rparr>)))"

fun ingest_loop ::
    "('e, 's) Store \<Rightarrow> (int \<Rightarrow> 'e ingest_env) \<Rightarrow> (int \<rightharpoonup> reader) \<Rightarrow> Chunk list \<Rightarrow> 's Ingestion \<Rightarrow> ingest_error option \<times> 's Ingestion" where
  "ingest_loop st e chunkData [] i = (None, i)"
| "ingest_loop st e chunkData (c # cs) i =
     (case chunkData (Chunk_Index c) of
        None \<Rightarrow> (Some (MissingData (Chunk_Index c)), i)
      | Some r \<Rightarrow>
          (case IngestChunk st (e (Chunk_Index c)) c r i of
             (Some err, _, i') \<Rightarrow> (Some err, i')
           | (None, _, i') \<Rightarrow> ingest_loop st e chunkData cs i'))"

text \<open>A reader that two chunks of the same index share is empty the second time; it is read once here, the index being unique.\<close>

definition IngestDataset ::
    "('e, 's) Store \<Rightarrow> (int \<Rightarrow> 'e ingest_env) \<Rightarrow> Chunk list \<Rightarrow> (int \<times> reader) list \<Rightarrow> 's Ingestion \<Rightarrow> ingest_error option \<times> 's Ingestion" where
  "IngestDataset st e chunks chunkData i =
     (if length chunks \<noteq> length chunkData then (Some CountMismatch, i) else ingest_loop st e (map_of chunkData) chunks i)"

text \<open>The loop of the integrity check: counts of missing and invalid chunks, or the error that ends it.\<close>

fun verify_loop ::
    "('e, 's) Store \<Rightarrow> (bytes \<Rightarrow> bytes) \<Rightarrow> (int \<Rightarrow> 'e) \<Rightarrow> nat \<Rightarrow> nat \<Rightarrow> Chunk list \<Rightarrow> 's \<Rightarrow> (blob_error + nat \<times> nat) \<times> 's" where
  "verify_loop st sha256 e missing invalid [] s = (Inr (missing, invalid), s)"
| "verify_loop st sha256 e missing invalid (c # cs) s =
     (case St_Exists st (e (Chunk_Index c)) (Chunk_Hash c) s of
        Inl err \<Rightarrow> (Inl err, s)
      | Inr False \<Rightarrow> verify_loop st sha256 e (missing + 1) invalid cs s
      | Inr True \<Rightarrow>
          (case St_Get st (e (Chunk_Index c)) (Chunk_Hash c) s of
             (Inr (Some data), s') \<Rightarrow>
               verify_loop st sha256 e missing (if hex_EncodeToString (sha256 data) \<noteq> Chunk_Hash c then invalid + 1 else invalid) cs s'
           | (_, s') \<Rightarrow> verify_loop st sha256 e missing (invalid + 1) cs s'))"

definition VerifyDatasetIntegrity ::
    "('e, 's) Store \<Rightarrow> (bytes \<Rightarrow> bytes) \<Rightarrow> sql_env \<Rightarrow> stmt \<Rightarrow> (int \<Rightarrow> 'e) \<Rightarrow> DatasetVersionID \<Rightarrow> 's Ingestion
       \<Rightarrow> ingest_error option \<times> 's Ingestion" where
  "VerifyDatasetIntegrity st sha256 env q e v i =
     (case ListChunks env q v (IN_db i) of
        (Inl err, db) \<Rightarrow> (Some (DbFailed err), i\<lparr>IN_db := db\<rparr>)
      | (Inr chunks, db) \<Rightarrow>
          (case verify_loop st sha256 e 0 0 chunks (IN_blobs i) of
             (Inl err, s) \<Rightarrow> (Some (StoreFailed err), i\<lparr>IN_db := db, IN_blobs := s\<rparr>)
           | (Inr (missing, invalid), s) \<Rightarrow>
               (if 0 < missing \<or> 0 < invalid then Some (IntegrityFailed missing invalid) else None, i\<lparr>IN_db := db, IN_blobs := s\<rparr>)))"

section \<open>What was ingested is there\<close>

lemma LogBlobOperation_frame [simp]: "IN_blobs (LogBlobOperation op i) = IN_blobs i" "IN_db (LogBlobOperation op i) = IN_db i"
  by (simp_all add: LogBlobOperation_def)

text \<open>A backend whose blobs are filed under the hash of their contents.\<close>

locale hashed_store = blob_store st view "hash_ok sha256 U" inv
  for st :: "('e, 's) Store" and view sha256 U inv
begin

lemma ingest_blob_stores:
  assumes i: "inv (IN_blobs i)" and d: "hash_ok sha256 U (Chunk_Hash c) d" and b: "ingest_blob st e c d i = (err, i')"
  shows "inv (IN_blobs i') \<and> IN_db i' = IN_db i \<and> (\<forall>k x. view (IN_blobs i) k = Some x \<longrightarrow> view (IN_blobs i') k = Some x)
    \<and> (err = None \<longrightarrow> view (IN_blobs i') (Chunk_Hash c) = Some d)"
proof (cases "St_Exists st (IE_exists e) (Chunk_Hash c) (IN_blobs i)")
  case (Inl x)
  then show ?thesis using b i by (auto simp: ingest_blob_def)
next
  case (Inr b')
  show ?thesis
  proof (cases b')
    case True
    then have "view (IN_blobs i) (Chunk_Hash c) \<noteq> None" using exists_true [OF i] Inr by simp
    then have "view (IN_blobs i) (Chunk_Hash c) = Some d" using view_good [OF i] d hash_ok_unique by blast
    then show ?thesis using b i Inr True update_view [OF i] update_inv [OF i]
      by (auto simp: ingest_blob_def split: sum.splits if_splits)
  next
    case False
    obtain er s where p: "St_Put st (IE_put e) (Chunk_Hash c) (Some d)
        (Some (zero_Metadata\<lparr>BM_Hash := Chunk_Hash c, BM_Size := int (length d), BM_References := [chunk_ref c]\<rparr>)) (IN_blobs i) = (er, s)" by force
    have "inv s" using put_inv [OF i, of "Some d" "Chunk_Hash c" "IE_put e"] p d by (metis option.inject snd_conv)
    moreover have "er \<noteq> None \<Longrightarrow> view s = view (IN_blobs i)" "er = None \<Longrightarrow> view s = (view (IN_blobs i))(Chunk_Hash c \<mapsto> d)"
      using put_failed [OF i] put_done [OF i] p by fastforce+
    moreover have "view (IN_blobs i) (Chunk_Hash c) = Some x \<Longrightarrow> x = d" for x using view_good [OF i] d hash_ok_unique by blast
    ultimately show ?thesis using b p Inr False by (cases er) (auto simp: ingest_blob_def)
  qed
qed

lemma IngestChunk_stores:
  assumes i: "inv (IN_blobs i)" and sha: "IE_sha256 e = sha256" and u: "inj_on sha256 U" "\<And>d. r = Some d \<Longrightarrow> d \<in> U"
    and b: "IngestChunk st e c r i = (err, c', i')"
  shows "inv (IN_blobs i')" and "view (IN_blobs i) k = Some x \<Longrightarrow> view (IN_blobs i') k = Some x"
    and "err = None \<Longrightarrow> \<exists>d. r = Some d \<and> view (IN_blobs i') (Chunk_Hash c) = Some d \<and> hex_EncodeToString (sha256 d) = Chunk_Hash c
           \<and> c' = c\<lparr>Chunk_Size := int (length d), Chunk_Status := ''verified''\<rparr>
           \<and> (\<exists>db. CreateChunk (IE_sql e) (IE_stmt e) c' (IN_db i) = (None, db) \<and> IN_db i' = db)"
proof -
  have all: "inv (IN_blobs i') \<and> (\<forall>k x. view (IN_blobs i) k = Some x \<longrightarrow> view (IN_blobs i') k = Some x)
    \<and> (err = None \<longrightarrow> (\<exists>d. r = Some d \<and> view (IN_blobs i') (Chunk_Hash c) = Some d \<and> hex_EncodeToString (sha256 d) = Chunk_Hash c
           \<and> c' = c\<lparr>Chunk_Size := int (length d), Chunk_Status := ''verified''\<rparr>
           \<and> (\<exists>db. CreateChunk (IE_sql e) (IE_stmt e) c' (IN_db i) = (None, db) \<and> IN_db i' = db)))"
  proof (cases "\<exists>d. r = Some d \<and> hex_EncodeToString (sha256 d) = Chunk_Hash c")
    case False
    then show ?thesis using b i sha by (auto simp: IngestChunk_def split: option.splits)
  next
    case True
    then obtain d where d: "r = Some d" "hex_EncodeToString (sha256 d) = Chunk_Hash c" by blast
    let ?c = "c\<lparr>Chunk_Size := int (length d)\<rparr>"
    obtain er i1 where bl: "ingest_blob st e ?c d i = (er, i1)" by force
    have "hash_ok sha256 U (Chunk_Hash ?c) d" using u d by (simp add: hash_ok_def)
    note s = ingest_blob_stores [OF i this bl]
    show ?thesis using b s bl d sha by (cases er) (auto simp: IngestChunk_def Let_def split: prod.splits)
  qed
  then show "inv (IN_blobs i')" "view (IN_blobs i) k = Some x \<Longrightarrow> view (IN_blobs i') k = Some x" by blast+
  show "err = None \<Longrightarrow> \<exists>d. r = Some d \<and> view (IN_blobs i') (Chunk_Hash c) = Some d \<and> hex_EncodeToString (sha256 d) = Chunk_Hash c
           \<and> c' = c\<lparr>Chunk_Size := int (length d), Chunk_Status := ''verified''\<rparr>
           \<and> (\<exists>db. CreateChunk (IE_sql e) (IE_stmt e) c' (IN_db i) = (None, db) \<and> IN_db i' = db)" using all by blast
qed

end

interpretation local_hashed: hashed_store "local_ops co" "local_view co" sha256 U "local_inv co (hash_ok sha256 U)" for co sha256 U
  by (rule hashed_store.intro) (rule local.blob_store_axioms)

interpretation tiers_hashed: hashed_store "hybrid_ops (local_ops co) (s3_ops co cl)" "tier_view co objs" sha256 U "tier_inv co cl objs sha256 U"
    for co cl objs sha256 U
  by (rule hashed_store.intro) (rule tiers.hybrid.blob_store_axioms)

lemma insert_chunk_Inr:
  "insert_chunk c fk db = Inr (n, db') \<Longrightarrow> DB_chunks db' = DB_chunks db @ [c\<lparr>Chunk_Data := []\<rparr>]
     \<and> (\<forall>x \<in> set (DB_chunks db). \<not> (Chunk_VersionID x = Chunk_VersionID c \<and> Chunk_Index x = Chunk_Index c))
     \<and> Chunk_ID c \<notin> Chunk_ID ` set (DB_chunks db)"
  by (auto simp: insert_chunk_def image_iff split: if_splits)

lemma CreateChunk_row:
  assumes "CreateChunk env q c s = (None, s')"
  shows "\<exists>n. insert_chunk c (SQ_fk q) (SS_db s) = Inr (n, SS_db s')"
proof -
  obtain res where r: "execWithAudit env q ''INSERT'' ''chunks'' (insert_chunk c) s = (res, s')" "insert_outcome res = None"
    using assms by (auto simp: CreateChunk_def split: option.splits prod.splits)
  then show ?thesis using exec_result [OF r(1)] by (cases res) (auto simp: insert_outcome_def)
qed

lemma CreateChunk_get:
  assumes "CreateChunk env q c s = (None, s')" and "SQ_ok q'"
  shows "fst (GetChunk env' q' (Chunk_VersionID c) (Chunk_Index c) s') = Inr (c\<lparr>Chunk_Data := []\<rparr>)"
proof -
  obtain n where "insert_chunk c (SQ_fk q) (SS_db s) = Inr (n, SS_db s')" using CreateChunk_row [OF assms(1)] by blast
  then show ?thesis using insert_chunk_Inr [of c "SQ_fk q" "SS_db s" n "SS_db s'"] assms(2)
    by (simp add: GetChunk_def queryWithAudit_def found_def find_snoc)
qed


lemma hex_170: "hex_EncodeToString (replicate n 170) = replicate (2 * n) CHR ''a''"
proof -
  have "hex_byte 170 = ''aa''" by code_simp
  then show ?thesis by (induction n) (simp_all add: hex_EncodeToString_def)
qed

lemma sample_hex: "hex_EncodeToString (replicate 32 170) = sample_hash"
  using hex_170 [of 32] by (simp only: sample_hash_def) simp

definition sample_blob_chunk :: Chunk where
  "sample_blob_chunk = \<lparr>Chunk_ID = ''c1'', Chunk_DatasetID = ''d1'', Chunk_VersionID = ''v1'', Chunk_Index = 0, Chunk_Hash = sample_hash, Chunk_Size = 0,
     Chunk_Status = ''pending'', Chunk_StoragePath = [], Chunk_Data = []\<rparr>"

definition sample_ingest_env :: "'e \<Rightarrow> 'e ingest_env" where
  "sample_ingest_env e = \<lparr>IE_sha256 = (\<lambda>d. replicate 32 170), IE_exists = e, IE_put = e, IE_meta = e, IE_update = e, IE_delete = e,
     IE_sql = sample_env, IE_stmt = sample_stmt\<lparr>SQ_fk := False\<rparr>\<rparr>"

definition sample_ingestion :: "'s \<Rightarrow> 's Ingestion" where
  "sample_ingestion s = \<lparr>IN_blobs = s, IN_db = open_store ''n'' 1 (empty_db [''t1'']), IN_audit = None\<rparr>"

lemma sample_create_chunk:
  "fst (CreateChunk sample_env (sample_stmt\<lparr>SQ_fk := False\<rparr>) (sample_blob_chunk\<lparr>Chunk_Size := n, Chunk_Status := ''verified''\<rparr>) (open_store ''n'' 1 (empty_db ts))) = None"
  if "0 \<le> n"
  using that by (simp add: CreateChunk_def Chunk_Validate_def sample_blob_chunk_def sample_hash_def execWithAudit_def sample_stmt_def insert_chunk_def chunk_checks_def
      ChunkStatus_IsValid_def open_store_def empty_db_def insert_outcome_def)

text \<open>Two empty tiers: the blob is stored anew.\<close>

definition empty_tiers :: "(LocalStore, ((string \<times> string) \<times> bytes) list S3Store) HybridStore" where
  "empty_tiers = tiers_sample\<lparr>HS_hot := fresh_local\<rparr>"

lemma empty_tiers_inv: "tier_inv plain_codec list_client list_objs (\<lambda>d. replicate 32 170) {[5]} empty_tiers"
  using tiers_sample_inv by (simp add: hybrid_inv_def empty_tiers_def local_inv_def fresh_local_def)

lemma sample_ingest:
  "\<exists>c i. IngestChunk (hybrid_ops (local_ops plain_codec) (s3_ops plain_codec list_client)) (sample_ingest_env (calm, calm_s3)) sample_blob_chunk (Some [5])
          (sample_ingestion empty_tiers) = (None, c, i)
     \<and> map_of (LS_blobs (HS_hot (IN_blobs i))) sample_hash \<noteq> None"
proof -
  have x: "hybrid_Exists (local_ops plain_codec) (s3_ops plain_codec list_client) (calm, calm_s3) sample_hash empty_tiers = Inr False"
    by (simp add: hybrid_Exists_def local_ops_def local_Exists_def sample_hash_valid calm_def empty_tiers_def fresh_local_def
        s3_ops_def s3_Exists_def tiers_sample_def cold_sample_def list_client_def)
  have h: "Chunk_Hash sample_blob_chunk = sample_hash" by (simp add: sample_blob_chunk_def)
  let ?m = "zero_Metadata\<lparr>BM_Hash := sample_hash, BM_Size := 1, BM_References := [chunk_ref (sample_blob_chunk\<lparr>Chunk_Size := 1\<rparr>)]\<rparr>"
  have p: "fst (local_Put plain_codec calm sample_hash (Some [5]) (Some ?m) fresh_local) = None"
    by (simp add: local_Put_def sample_hash_valid calm_def fresh_local_def process_blob_def newCompressionWriter_def encryptData_def nonceSize_def Let_def)
  then obtain s where p': "local_Put plain_codec calm sample_hash (Some [5]) (Some ?m) fresh_local = (None, s)" by (metis prod.collapse)
  have stored: "map_of (LS_blobs s) sample_hash \<noteq> None"
    using local_Put_done [OF p'] by (auto simp: update_conv)
  obtain i' where b: "ingest_blob (hybrid_ops (local_ops plain_codec) (s3_ops plain_codec list_client)) (sample_ingest_env (calm, calm_s3))
      (sample_blob_chunk\<lparr>Chunk_Size := 1\<rparr>) [5] (sample_ingestion empty_tiers) = (None, i')"
    and i': "IN_blobs i' = empty_tiers\<lparr>HS_hot := s\<rparr>" "IN_db i' = open_store ''n'' 1 (empty_db [''t1''])"
    using x h p' by (simp add: ingest_blob_def hybrid_ops_def sample_ingest_env_def sample_ingestion_def hybrid_Put_def local_ops_def empty_tiers_def)
  obtain db where "CreateChunk sample_env (sample_stmt\<lparr>SQ_fk := False\<rparr>) (sample_blob_chunk\<lparr>Chunk_Size := 1, Chunk_Status := ''verified''\<rparr>)
      (open_store ''n'' 1 (empty_db [''t1''])) = (None, db)"
    using sample_create_chunk [of 1 "[''t1'']"] by (metis prod.collapse zero_le_one)
  moreover have "hex_EncodeToString (IE_sha256 (sample_ingest_env (calm, calm_s3)) [5]) = Chunk_Hash sample_blob_chunk"
    by (simp add: sample_ingest_env_def sample_hex h)
  moreover have "IE_sql (sample_ingest_env (calm, calm_s3)) = sample_env" "IE_stmt (sample_ingest_env (calm, calm_s3)) = sample_stmt\<lparr>SQ_fk := False\<rparr>"
    by (simp_all add: sample_ingest_env_def)
  ultimately show ?thesis using b i' stored by (simp add: IngestChunk_def)
qed


text \<open>A chunk is intact in the local store when its file decodes to bytes with the hash of the chunk.\<close>

definition intact :: "codec \<Rightarrow> (bytes \<Rightarrow> bytes) \<Rightarrow> LocalStore \<Rightarrow> Chunk \<Rightarrow> bool" where
  "intact co sha256 s c \<longleftrightarrow>
     (\<exists>d. local_view co s (Chunk_Hash c) = Some d \<and> hex_EncodeToString (sha256 d) = Chunk_Hash c)"

abbreviation no_file :: "LocalStore \<Rightarrow> Chunk \<Rightarrow> bool" where
  "no_file s c \<equiv> map_of (LS_blobs s) (Chunk_Hash c) = None"

lemma intact_cong:
  "LS_blobs s' = LS_blobs s \<Longrightarrow> LS_cfg s' = LS_cfg s \<Longrightarrow> LS_encKey s' = LS_encKey s
    \<Longrightarrow> intact co sha256 s' = intact co sha256 s"
  using local_view_cong [of s' s co] by (simp add: fun_eq_iff intact_def)

lemma local_Get_view:
  assumes "local_Get co e h s = (Inr (Some d), s')"
  shows "local_view co s h = Some d"
  using assms by (auto simp: local_Get_def local_view_def local_decode_def split: if_splits option.splits)

lemma local_Get_intact: "intact co sha256 (snd (local_Get co e h s)) = intact co sha256 s"
  by (rule intact_cong) simp_all

text \<open>What the check says of a chunk that has a file.\<close>

definition check_bytes :: "(bytes \<Rightarrow> bytes) \<Rightarrow> string \<Rightarrow> blob_error + reader \<Rightarrow> bool" where
  "check_bytes sha256 h res \<longleftrightarrow> (\<exists>d. res = Inr (Some d) \<and> hex_EncodeToString (sha256 d) = h)"

lemma verify_loop_file:
  assumes "St_Exists st (e (Chunk_Index c)) (Chunk_Hash c) s = Inr True"
    and "St_Get st (e (Chunk_Index c)) (Chunk_Hash c) s = (res, s1)"
  shows "verify_loop st sha256 e m n (c # cs) s
    = verify_loop st sha256 e m (if check_bytes sha256 (Chunk_Hash c) res then n else n + 1) cs s1"
  using assms by (auto simp: check_bytes_def split: sum.splits option.splits)

lemma verify_loop_sound:
  assumes "verify_loop (local_ops co) sha256 e m n cs s = (Inr (m', n'), s')"
  shows "m \<le> m' \<and> n \<le> n' \<and> (m' = m \<and> n' = n \<longrightarrow> (\<forall>c \<in> set cs. intact co sha256 s c))"
  using assms
proof (induction cs arbitrary: m n s)
  case (Cons c cs)
  obtain b where ex: "St_Exists (local_ops co) (e (Chunk_Index c)) (Chunk_Hash c) s = Inr b"
    using Cons.prems by (auto split: sum.splits)
  show ?case
  proof (cases b)
    case False
    then show ?thesis using Cons.IH [of "m + 1" n s] Cons.prems ex by auto
  next
    case True
    obtain res s1 where g: "local_Get co (e (Chunk_Index c)) (Chunk_Hash c) s = (res, s1)" by force
    have s1: "intact co sha256 s1 = intact co sha256 s"
      using local_Get_intact [of co sha256 "e (Chunk_Index c)" "Chunk_Hash c" s] g by simp
    have good: "check_bytes sha256 (Chunk_Hash c) res \<Longrightarrow> intact co sha256 s c"
      using local_Get_view g by (fastforce simp: check_bytes_def intact_def)
    have "verify_loop (local_ops co) sha256 e m (if check_bytes sha256 (Chunk_Hash c) res then n else n + 1) cs s1
        = (Inr (m', n'), s')"
      using verify_loop_file [of "local_ops co" e c s res s1 sha256 m n cs] ex True g Cons.prems by (simp add: local_ops_def)
    from Cons.IH [OF this] show ?thesis using good s1 by (auto split: if_splits)
  qed
qed simp

lemma verify_loop_counts:
  assumes "\<forall>c \<in> set cs. isValidHash (Chunk_Hash c) \<and> LE_stat_ok (e (Chunk_Index c)) \<and> LE_read_ok (e (Chunk_Index c))"
  shows "fst (verify_loop (local_ops co) sha256 e m n cs s)
    = Inr (m + length (filter (no_file s) cs), n + length (filter (\<lambda>c. \<not> no_file s c \<and> \<not> intact co sha256 s c) cs))"
  using assms
proof (induction cs arbitrary: m n s)
  case (Cons c cs)
  have ex: "St_Exists (local_ops co) (e (Chunk_Index c)) (Chunk_Hash c) s = Inr (\<not> no_file s c)"
    using Cons.prems by (simp add: local_ops_def local_Exists_def)
  show ?case
  proof (cases "no_file s c")
    case True
    then show ?thesis using Cons.IH [of "m + 1" n s] Cons.prems ex by simp
  next
    case False
    obtain res s1 where g: "local_Get co (e (Chunk_Index c)) (Chunk_Hash c) s = (res, s1)" by force
    have s1: "intact co sha256 s1 = intact co sha256 s" "LS_blobs s1 = LS_blobs s"
      using local_Get_intact [of co sha256 "e (Chunk_Index c)" "Chunk_Hash c" s]
        local_Get_frame(1) [of co "e (Chunk_Index c)" "Chunk_Hash c" s] g by simp_all
    obtain b t where f: "map_of (LS_blobs s) (Chunk_Hash c) = Some (b, t)" using False by auto
    have "res = local_decode co s b"
      using g f Cons.prems by (simp add: local_Get_def local_decode_def)
    then have res: "check_bytes sha256 (Chunk_Hash c) res \<longleftrightarrow> intact co sha256 s c"
      by (auto simp: check_bytes_def intact_def local_view_def f split: sum.splits)
    have "verify_loop (local_ops co) sha256 e m n (c # cs) s
        = verify_loop (local_ops co) sha256 e m (if intact co sha256 s c then n else n + 1) cs s1"
      using verify_loop_file [of "local_ops co" e c s res s1] ex False g res by (simp add: local_ops_def)
    then show ?thesis using Cons.IH [of m "if intact co sha256 s c then n else n + 1" s1] Cons.prems s1 False by simp
  qed
qed simp

lemma length_filter_sort: "length (filter P (sort_key f xs)) = length (filter P xs)"
  by (simp add: filter_sort)

text \<open>
  C32. The integrity check of a version over the local store, whose files may be missing, damaged or
  replaced. When it reports no error, every chunk of the version in the database has a file that
  decodes to bytes with the hash of the chunk. When moreover the statement is answered, the hashes of
  the chunks are well-formed and the system calls work, it reports no error exactly when that holds,
  and otherwise the number of chunks without a file and the number of chunks whose file does not
  decode to bytes with their hash.
\<close>

theorem verified_version_complete:
  fixes i :: "LocalStore Ingestion" and v :: DatasetVersionID
  defines "chunks \<equiv> filter (\<lambda>c. Chunk_VersionID c = v) (DB_chunks (SS_db (IN_db i)))"
  shows "(fst (VerifyDatasetIntegrity (local_ops co) sha256 env q e v i) = None
       \<longrightarrow> (\<forall>c \<in> set chunks. intact co sha256 (IN_blobs i) c))
    \<and> (SQ_ok q
        \<and> (\<forall>c \<in> set chunks. isValidHash (Chunk_Hash c) \<and> LE_stat_ok (e (Chunk_Index c)) \<and> LE_read_ok (e (Chunk_Index c)))
       \<longrightarrow> fst (VerifyDatasetIntegrity (local_ops co) sha256 env q e v i) =
             (let missing = length (filter (no_file (IN_blobs i)) chunks);
                  invalid = length (filter (\<lambda>c. \<not> no_file (IN_blobs i) c \<and> \<not> intact co sha256 (IN_blobs i) c) chunks)
              in if missing = 0 \<and> invalid = 0 then None else Some (IntegrityFailed missing invalid)))"
proof -
  let ?sorted = "sort_key Chunk_Index chunks"
  let ?loop = "verify_loop (local_ops co) sha256 e 0 0 ?sorted (IN_blobs i)"
  obtain db where l: "ListChunks env q v (IN_db i) = (if SQ_ok q then Inr ?sorted else Inl (SqlFailed EngineError), db)"
    by (auto simp: ListChunks_def queryWithAudit_def listed_def chunks_def split: prod.splits)
  have "\<forall>c \<in> set chunks. intact co sha256 (IN_blobs i) c"
    if "fst (VerifyDatasetIntegrity (local_ops co) sha256 env q e v i) = None"
  proof -
    obtain r s where r: "?loop = (r, s)" by force
    then have "r = Inr (0, 0)"
      using that l by (cases r) (auto simp: VerifyDatasetIntegrity_def split: if_splits)
    with r have "?loop = (Inr (0, 0), s)" by simp
    then show ?thesis using verify_loop_sound [of co sha256 e 0 0 ?sorted "IN_blobs i" 0 0 s] by simp
  qed
  moreover have "fst (VerifyDatasetIntegrity (local_ops co) sha256 env q e v i) =
             (let missing = length (filter (no_file (IN_blobs i)) chunks);
                  invalid = length (filter (\<lambda>c. \<not> no_file (IN_blobs i) c \<and> \<not> intact co sha256 (IN_blobs i) c) chunks)
              in if missing = 0 \<and> invalid = 0 then None else Some (IntegrityFailed missing invalid))"
    if q: "SQ_ok q" and ok: "\<forall>c \<in> set chunks. isValidHash (Chunk_Hash c) \<and> LE_stat_ok (e (Chunk_Index c)) \<and> LE_read_ok (e (Chunk_Index c))"
  proof -
    have "fst ?loop = Inr (length (filter (no_file (IN_blobs i)) chunks),
        length (filter (\<lambda>c. \<not> no_file (IN_blobs i) c \<and> \<not> intact co sha256 (IN_blobs i) c) chunks))"
      using verify_loop_counts [of ?sorted e co sha256 0 0 "IN_blobs i"] ok by (simp only: length_filter_sort set_sort) simp
    then obtain s where "?loop = (Inr (length (filter (no_file (IN_blobs i)) chunks),
        length (filter (\<lambda>c. \<not> no_file (IN_blobs i) c \<and> \<not> intact co sha256 (IN_blobs i) c) chunks)), s)"
      by (metis prod.collapse)
    then show ?thesis using l q by (simp add: VerifyDatasetIntegrity_def Let_def)
  qed
  ultimately show ?thesis by blast
qed

text \<open>A version of two chunks: one has its file, the file of the other was overwritten.\<close>

definition damaged_local :: LocalStore where
  "damaged_local = fresh_local\<lparr>LS_cfg := \<lparr>LC_MaxSizeGB = 0, LC_Encryption_Enabled = False,
       LC_Compression = \<lparr>CC_Enabled = False, CC_Algorithm = ''none'', CC_Level = 0\<rparr>\<rparr>,
     LS_blobs := [(sample_hash, ([9], 0)), (replicate 64 CHR ''b'', ([5], 0))]\<rparr>"

definition verified_sample :: "LocalStore Ingestion" where
  "verified_sample = \<lparr>IN_blobs = damaged_local, IN_db = open_store ''n'' 1 (empty_db [''t1'']
     \<lparr>DB_chunks := [sample_blob_chunk, sample_blob_chunk\<lparr>Chunk_Index := 1, Chunk_Hash := replicate 64 CHR ''c''\<rparr>]\<rparr>), IN_audit = None\<rparr>"

definition sample_digest :: "bytes \<Rightarrow> bytes" where
  "sample_digest d = (if d = [5] then replicate 32 170 else replicate 32 187)"

lemma damaged_view: "local_view co damaged_local sample_hash = Some [9]"
  by (simp add: local_view_def damaged_local_def fresh_local_def local_decode_def unprocess_blob_def newDecompressionReader_def)

lemma hex_187: "hex_EncodeToString (replicate 32 187) = replicate 64 CHR ''b''"
proof -
  have "hex_byte 187 = ''bb''" by code_simp
  then have "hex_EncodeToString (replicate n 187) = replicate (2 * n) CHR ''b''" for n
    by (induction n) (simp_all add: hex_EncodeToString_def)
  from this [of 32] show ?thesis by simp
qed

lemma other_hash_valid: "isValidHash (replicate 64 CHR ''c'')"
  by (simp add: isValidHash_def list_all_iff is_hex_char_def)

lemma sample_hash_neq: "replicate 64 CHR ''b'' \<noteq> sample_hash" "replicate 64 CHR ''c'' \<noteq> sample_hash"
    "replicate 64 CHR ''c'' \<noteq> replicate 64 CHR ''b''"
  by (simp_all add: sample_hash_def)

theorem verified_version_complete_witness:
  "fst (VerifyDatasetIntegrity (local_ops plain_codec) sample_digest sample_env sample_stmt (\<lambda>_. calm) ''v1'' verified_sample)
     = Some (IntegrityFailed 1 1)"
proof -
  let ?cs = "filter (\<lambda>c. Chunk_VersionID c = ''v1'') (DB_chunks (SS_db (IN_db verified_sample)))"
  have cs: "?cs = [sample_blob_chunk, sample_blob_chunk\<lparr>Chunk_Index := 1, Chunk_Hash := replicate 64 CHR ''c''\<rparr>]"
    and b: "IN_blobs verified_sample = damaged_local" and h: "Chunk_Hash sample_blob_chunk = sample_hash"
    by (simp_all add: verified_sample_def open_store_def sample_blob_chunk_def)
  have ok: "SQ_ok sample_stmt \<and> (\<forall>c \<in> set ?cs. isValidHash (Chunk_Hash c) \<and> LE_stat_ok calm \<and> LE_read_ok calm)"
    unfolding cs using other_hash_valid by (simp add: h sample_hash_valid calm_def sample_stmt_def)
  have d: "\<not> intact plain_codec sample_digest damaged_local sample_blob_chunk"
    using hex_187 sample_hash_neq by (simp add: intact_def h damaged_view sample_digest_def)
  have n: "\<not> no_file damaged_local sample_blob_chunk" "no_file damaged_local (sample_blob_chunk\<lparr>Chunk_Index := 1, Chunk_Hash := replicate 64 CHR ''c''\<rparr>)"
    using sample_hash_neq by (simp_all add: damaged_local_def h)
  have f: "filter (no_file damaged_local) ?cs = [sample_blob_chunk\<lparr>Chunk_Index := 1, Chunk_Hash := replicate 64 CHR ''c''\<rparr>]"
      "filter (\<lambda>c. \<not> no_file damaged_local c \<and> \<not> intact plain_codec sample_digest damaged_local c) ?cs = [sample_blob_chunk]"
    unfolding cs using d n by simp_all
  have "fst (VerifyDatasetIntegrity (local_ops plain_codec) sample_digest sample_env sample_stmt (\<lambda>_. calm) ''v1'' verified_sample)
      = (let missing = length (filter (no_file damaged_local) ?cs);
             invalid = length (filter (\<lambda>c. \<not> no_file damaged_local c \<and> \<not> intact plain_codec sample_digest damaged_local c) ?cs)
         in if missing = 0 \<and> invalid = 0 then None else Some (IntegrityFailed missing invalid))"
    unfolding b [symmetric] using ok by (intro verified_version_complete [THEN conjunct2, THEN mp])
  then show ?thesis unfolding f by simp
qed

text \<open>
  Ingestion onto a damaged blob: the file of the hash holds other bytes, \<open>IngestChunk\<close> finds that the
  blob exists and only adds a reference, and reports success; what is retrieved are the other bytes.
\<close>

theorem damaged_blob_not_replaced:
  "\<exists>c i. IngestChunk (local_ops plain_codec) ((sample_ingest_env calm)\<lparr>IE_sha256 := sample_digest\<rparr>) sample_blob_chunk (Some [5])
       (sample_ingestion damaged_local) = (None, c, i)
     \<and> fst (RetrieveChunk (local_ops plain_codec) calm c i) = Inr (Some [9])"
proof -
  let ?e = "(sample_ingest_env calm)\<lparr>IE_sha256 := sample_digest\<rparr>"
  have h: "Chunk_Hash sample_blob_chunk = sample_hash" by (simp add: sample_blob_chunk_def)
  have ex: "local_Exists calm sample_hash damaged_local = Inr True"
    by (simp add: local_Exists_def sample_hash_valid calm_def damaged_local_def)
  have m: "local_GetMetadata calm sample_hash damaged_local = Inl MetadataNotFound"
    by (simp add: local_GetMetadata_def sample_hash_valid damaged_local_def fresh_local_def)
  have b: "ingest_blob (local_ops plain_codec) ?e (sample_blob_chunk\<lparr>Chunk_Size := 1\<rparr>) [5] (sample_ingestion damaged_local)
      = (None, sample_ingestion damaged_local)"
    by (simp add: ingest_blob_def local_ops_def h sample_ingest_env_def sample_ingestion_def ex m)
  obtain db where db: "CreateChunk sample_env (sample_stmt\<lparr>SQ_fk := False\<rparr>) (sample_blob_chunk\<lparr>Chunk_Size := 1, Chunk_Status := ''verified''\<rparr>)
      (open_store ''n'' 1 (empty_db [''t1''])) = (None, db)"
    using sample_create_chunk [of 1 "[''t1'']"] by (metis prod.collapse zero_le_one)
  have "IngestChunk (local_ops plain_codec) ?e sample_blob_chunk (Some [5]) (sample_ingestion damaged_local)
      = (None, sample_blob_chunk\<lparr>Chunk_Size := 1, Chunk_Status := ''verified''\<rparr>, (sample_ingestion damaged_local)\<lparr>IN_db := db\<rparr>)"
    using db b sample_hex by (simp add: IngestChunk_def h Let_def)
       (simp add: sample_ingest_env_def sample_ingestion_def sample_digest_def)
  moreover have "fst (local_Get plain_codec calm sample_hash damaged_local) = Inr (Some [9])"
    by (simp add: local_Get_def sample_hash_valid damaged_local_def fresh_local_def calm_def unprocess_blob_def newDecompressionReader_def)
  then have "fst (RetrieveChunk (local_ops plain_codec) calm (sample_blob_chunk\<lparr>Chunk_Size := 1, Chunk_Status := ''verified''\<rparr>)
      ((sample_ingestion damaged_local)\<lparr>IN_db := db\<rparr>)) = Inr (Some [9])"
    by (auto simp: RetrieveChunk_def local_ops_def h sample_ingestion_def split: prod.splits sum.splits)
  ultimately show ?thesis by blast
qed

lemma set_chunk_status_ids:
  assumes "set_chunk_status i x fk db = Inr (n, db')" and "n \<noteq> 0"
  shows "i \<in> Chunk_ID ` set (DB_chunks db')"
proof -
  have new: "db' = db\<lparr>DB_chunks := map (\<lambda>c. if Chunk_ID c = i then c\<lparr>Chunk_Status := x\<rparr> else c) (DB_chunks db)\<rparr>"
    and i: "i \<in> Chunk_ID ` set (DB_chunks db)"
    using assms by (auto simp: set_chunk_status_def split: if_splits)
  have "map Chunk_ID (DB_chunks db') = map Chunk_ID (DB_chunks db)" by (simp add: new)
  then show ?thesis using i by (metis list.set_map)
qed

lemma DeleteChunk_status:
  "DeleteChunk st e c i = (None, i') \<Longrightarrow> \<exists>s0. UpdateChunkStatus (IE_sql e) (IE_stmt e) (Chunk_ID c) ''failed'' s0 = (None, IN_db i')"
  by (fastforce simp: DeleteChunk_def Let_def split: sum.splits prod.splits option.splits if_splits)

text \<open>
  Deleting a chunk only marks its row as failed. The row keeps the identifier of the chunk, so
  ingesting the chunk again fails, on any backend and with any data.
\<close>

theorem deleted_chunk_not_reingested:
  assumes "DeleteChunk st e c i = (None, i')" and "IngestChunk st e2 c r i' = (err, c2, i2)"
  shows "err \<noteq> None"
proof -
  obtain s0 where u: "UpdateChunkStatus (IE_sql e) (IE_stmt e) (Chunk_ID c) ''failed'' s0 = (None, IN_db i')"
    using DeleteChunk_status [OF assms(1)] by blast
  obtain n where n: "set_chunk_status (Chunk_ID c) ''failed'' (SQ_fk (IE_stmt e)) (SS_db s0) = Inr (n, SS_db (IN_db i'))" "n \<noteq> 0"
  proof -
    obtain res where r: "execWithAudit (IE_sql e) (IE_stmt e) ''UPDATE'' ''chunks'' (set_chunk_status (Chunk_ID c) ''failed'') s0 = (res, IN_db i')"
        "update_outcome res = None"
      using u by (auto simp: UpdateChunkStatus_def split: prod.splits)
    then show ?thesis using exec_result [OF r(1)] that by (cases res) (auto simp: update_outcome_def split: if_splits)
  qed
  then have row: "Chunk_ID c \<in> Chunk_ID ` set (DB_chunks (SS_db (IN_db i')))"
    using set_chunk_status_ids by blast
  show ?thesis
  proof
    assume "err = None"
    then obtain d i3 where d: "CreateChunk (IE_sql e2) (IE_stmt e2) (c\<lparr>Chunk_Size := int (length d), Chunk_Status := ''verified''\<rparr>) (IN_db i3) = (None, IN_db i2)"
        "ingest_blob st e2 (c\<lparr>Chunk_Size := int (length d)\<rparr>) d i' = (None, i3)"
      using assms(2) by (auto simp: IngestChunk_def Let_def split: option.splits prod.splits if_splits)
    have "IN_db i3 = IN_db i'" using d(2) by (auto simp: ingest_blob_def split: sum.splits bool.splits prod.splits option.splits if_splits)
    then show False using CreateChunk_row [OF d(1)] insert_chunk_Inr row by fastforce
  qed
qed

definition deleted_sample :: "LocalStore Ingestion" where
  "deleted_sample = \<lparr>IN_blobs = full_local, IN_db = open_store ''n'' 1 (empty_db [''t1'']\<lparr>DB_chunks := [sample_blob_chunk]\<rparr>), IN_audit = None\<rparr>"

lemma sample_delete_chunk: "fst (DeleteChunk (local_ops plain_codec) (sample_ingest_env calm) sample_blob_chunk deleted_sample) = None"
proof -
  have h: "Chunk_Hash sample_blob_chunk = sample_hash" by (simp add: sample_blob_chunk_def)
  have "BM_References full_metadata = []" by (simp add: full_metadata_def put_metadata_def zero_Metadata_def)
  moreover have "fst (local_Delete calm sample_hash full_local) = None"
    by (simp add: local_Delete_def sample_hash_valid calm_def full_local_def Let_def)
  then obtain u where u: "local_Delete calm sample_hash full_local = (None, u)" by (metis prod.collapse)
  moreover have m: "local_GetMetadata calm sample_hash full_local = Inr full_metadata"
    by (simp add: local_GetMetadata_def sample_hash_valid full_local_def calm_def)
  ultimately show ?thesis
    by (simp add: DeleteChunk_def local_ops_def sample_ingest_env_def deleted_sample_def h UpdateChunkStatus_def execWithAudit_def
        sample_stmt_def set_chunk_status_def open_store_def empty_db_def sample_blob_chunk_def ChunkStatus_IsValid_def update_outcome_def)
qed

theorem deleted_chunk_not_reingested_witness:
  "fst (IngestChunk (local_ops plain_codec) (sample_ingest_env calm) sample_blob_chunk (Some [5])
     (snd (DeleteChunk (local_ops plain_codec) (sample_ingest_env calm) sample_blob_chunk deleted_sample))) \<noteq> None"
proof -
  obtain i' where d: "DeleteChunk (local_ops plain_codec) (sample_ingest_env calm) sample_blob_chunk deleted_sample = (None, i')"
    using sample_delete_chunk by (metis prod.collapse)
  obtain err c2 i2 where g: "IngestChunk (local_ops plain_codec) (sample_ingest_env calm) sample_blob_chunk (Some [5]) i' = (err, c2, i2)" by (metis prod_cases3)
  show ?thesis using deleted_chunk_not_reingested [OF d g] by (simp add: d g)
qed

end
