(* ===== verification/Blob_GC.thy ===== *)
theory Blob_GC
  imports Blob_Ingest
begin

text \<open>
  Garbage collection of blobs (\<open>internal/storage/blob/gc.go\<close>) over the data set repository and any
  backend. The type switches of the collector on the kind of backend are a record: the operations of
  the backend, its local store if it has one, and whether it is an S3 store. The environment gives the
  outcome of each statement and of each deletion.

  Shown: a collection whose database reads succeed never touches a blob that a chunk refers to, and
  removes exactly the unreferenced blobs that are old enough; but a failed read of the database is
  skipped, and the blobs it would have marked are collected and, when their files are older than the
  retention, erased from the trash in the same run.
\<close>

section \<open>Definitions\<close>

record GCConfig =
  GC_Method :: string
  GC_StoragePressureThreshold :: int
  GC_MinAgeDays :: int
  GC_TrashRetentionDays :: int

record GCStats =
  BlobsScanned :: int
  BlobsMarked :: int
  BlobsCollected :: int
  BytesFreed :: int

datatype gc_error = ListDatasetsFailed repo_error | ListBlobsFailed blob_error | UnknownMethod | UnknownBackend | DivideByZero | PermanentRequired | TrashFailed

record ('e, 's) backend =
  BE_ops :: "('e, 's) Store"
  BE_local :: "'s \<Rightarrow> LocalStore option"
  BE_set_local :: "LocalStore \<Rightarrow> 's \<Rightarrow> 's"
  BE_is_s3 :: bool

definition local_backend :: "codec \<Rightarrow> (local_env, LocalStore) backend" where
  "local_backend co = \<lparr>BE_ops = local_ops co, BE_local = Some, BE_set_local = (\<lambda>l s. l), BE_is_s3 = False\<rparr>"

definition s3_backend :: "codec \<Rightarrow> ('q, 'c) S3Client \<Rightarrow> ('q s3_env, 'c S3Store) backend" where
  "s3_backend co cl = \<lparr>BE_ops = s3_ops co cl, BE_local = (\<lambda>s. None), BE_set_local = (\<lambda>l s. s), BE_is_s3 = True\<rparr>"

definition hybrid_backend :: "codec \<Rightarrow> ('q, 'c) S3Client \<Rightarrow> (local_env \<times> 'q s3_env, (LocalStore, 'c S3Store) HybridStore) backend" where
  "hybrid_backend co cl = \<lparr>BE_ops = hybrid_ops (local_ops co) (s3_ops co cl), BE_local = (\<lambda>s. Some (HS_hot s)),
     BE_set_local = (\<lambda>l s. s\<lparr>HS_hot := l\<rparr>), BE_is_s3 = False\<rparr>"

record 'e gc_env =
  GE_owners_json :: "UserID list \<Rightarrow> string"
  GE_order_by :: "string \<Rightarrow> bool \<Rightarrow> Dataset list \<Rightarrow> Dataset list option"
  GE_sql :: sql_env
  GE_datasets :: stmt
  GE_versions :: "DatasetID \<Rightarrow> stmt"
  GE_chunks :: "DatasetVersionID \<Rightarrow> stmt"
  GE_list :: 'e
  GE_blob :: "string \<Rightarrow> 'e"
  GE_now :: instant
  GE_trash_now :: instant
  GE_walk_ok :: bool
  GE_remove_ok :: "string \<Rightarrow> bool"

subsection \<open>Mark\<close>

fun mark_versions :: "'e gc_env \<Rightarrow> DatasetVersion list \<Rightarrow> string list \<Rightarrow> dataset_store \<Rightarrow> string list \<times> dataset_store" where
  "mark_versions e [] marked db = (marked, db)"
| "mark_versions e (v # vs) marked db =
     (case ListChunks (GE_sql e) (GE_chunks e (Version_ID v)) (Version_ID v) db of
        (Inl _, db') \<Rightarrow> mark_versions e vs marked db'
      | (Inr chunks, db') \<Rightarrow> mark_versions e vs (marked @ map Chunk_Hash chunks) db')"

fun mark_datasets :: "'e gc_env \<Rightarrow> Dataset list \<Rightarrow> string list \<Rightarrow> dataset_store \<Rightarrow> string list \<times> dataset_store" where
  "mark_datasets e [] marked db = (marked, db)"
| "mark_datasets e (d # ds) marked db =
     (case ListVersions (GE_sql e) (GE_versions e (Dataset_ID d)) (Dataset_ID d) db of
        (Inl _, db') \<Rightarrow> mark_datasets e ds marked db'
      | (Inr versions, db') \<Rightarrow> (case mark_versions e versions marked db' of (marked', db'') \<Rightarrow> mark_datasets e ds marked' db''))"

definition markReferencedBlobs :: "'e gc_env \<Rightarrow> dataset_store \<Rightarrow> (repo_error + string list) \<times> dataset_store" where
  "markReferencedBlobs e db =
     (case DatasetRepository_List (GE_owners_json e) (GE_order_by e) (GE_sql e) (GE_datasets e) no_filter db of
        (Inl err, db') \<Rightarrow> (Inl err, db')
      | (Inr datasets, db') \<Rightarrow> (case mark_datasets e datasets [] db' of (marked, db'') \<Rightarrow> (Inr marked, db'')))"

subsection \<open>Sweep\<close>

definition collectBlob :: "('e, 's) Store \<Rightarrow> 'e gc_env \<Rightarrow> string \<Rightarrow> 's \<Rightarrow> blob_error option \<times> 's" where
  "collectBlob st e hash s = St_Delete st (GE_blob e hash) hash s"

definition count_collected :: "BlobInfo \<Rightarrow> GCStats \<Rightarrow> GCStats" where
  "count_collected b stats = stats\<lparr>BlobsCollected := BlobsCollected stats + 1, BytesFreed := wrap64 (BytesFreed stats + BI_Size b)\<rparr>"

fun sweep_loop :: "('e, 's) Store \<Rightarrow> 'e gc_env \<Rightarrow> string list \<Rightarrow> instant \<Rightarrow> BlobInfo list \<Rightarrow> GCStats \<Rightarrow> 's \<Rightarrow> GCStats \<times> 's" where
  "sweep_loop st e referenced minAge [] stats s = (stats, s)"
| "sweep_loop st e referenced minAge (b # bs) stats s =
     (if BI_Hash b \<in> set referenced \<or> minAge < BI_CreatedAt b then sweep_loop st e referenced minAge bs stats s
      else case collectBlob st e (BI_Hash b) s of
             (Some _, s') \<Rightarrow> sweep_loop st e referenced minAge bs stats s'
           | (None, s') \<Rightarrow> sweep_loop st e referenced minAge bs (count_collected b stats) s')"

text \<open>Permanent deletion of trash files whose modification time is before the cutoff.\<close>

definition cleanupLocalTrash :: "GCConfig \<Rightarrow> 'e gc_env \<Rightarrow> LocalStore \<Rightarrow> gc_error option \<times> LocalStore" where
  "cleanupLocalTrash cfg e l =
     (if \<not> GE_walk_ok e then (Some TrashFailed, l)
      else let cutoff = days_before (GE_trash_now e) (GC_TrashRetentionDays cfg)
           in (None, l\<lparr>LS_trash := filter (\<lambda>(h, (b, mtime)). \<not> (mtime < cutoff \<and> GE_remove_ok e h)) (LS_trash l),
                       LS_trash_meta := filter (\<lambda>(h, (m, mtime)). \<not> (mtime < cutoff \<and> GE_remove_ok e (h @ ''.meta''))) (LS_trash_meta l)\<rparr>))"

definition cleanupTrash :: "('e, 's) backend \<Rightarrow> GCConfig \<Rightarrow> 'e gc_env \<Rightarrow> 's \<Rightarrow> 's" where
  "cleanupTrash be cfg e s =
     (case BE_local be s of None \<Rightarrow> s | Some l \<Rightarrow> BE_set_local be (snd (cleanupLocalTrash cfg e l)) s)"

definition zero_gc :: GCStats where
  "zero_gc = \<lparr>BlobsScanned = 0, BlobsMarked = 0, BlobsCollected = 0, BytesFreed = 0\<rparr>"

definition runMarkAndSweep :: "('e, 's) backend \<Rightarrow> GCConfig \<Rightarrow> 'e gc_env \<Rightarrow> dataset_store \<Rightarrow> 's \<Rightarrow> (gc_error + GCStats) \<times> dataset_store \<times> 's" where
  "runMarkAndSweep be cfg e db s =
     (case markReferencedBlobs e db of
        (Inl err, db') \<Rightarrow> (Inl (ListDatasetsFailed err), db', s)
      | (Inr referenced, db') \<Rightarrow>
          (case St_List (BE_ops be) (GE_list e) [] s of
             Inl err \<Rightarrow> (Inl (ListBlobsFailed err), db', s)
           | Inr allBlobs \<Rightarrow>
               (case sweep_loop (BE_ops be) e referenced (days_before (GE_now e) (GC_MinAgeDays cfg)) allBlobs
                       (zero_gc\<lparr>BlobsMarked := int (length (remdups referenced)), BlobsScanned := int (length allBlobs)\<rparr>) s of
                  (stats, s') \<Rightarrow> (Inr stats, db', cleanupTrash be cfg e s'))))"

fun refcount_loop :: "('e, 's) Store \<Rightarrow> 'e gc_env \<Rightarrow> instant \<Rightarrow> BlobInfo list \<Rightarrow> GCStats \<Rightarrow> 's \<Rightarrow> GCStats \<times> 's" where
  "refcount_loop st e minAge [] stats s = (stats, s)"
| "refcount_loop st e minAge (b # bs) stats s =
     (case St_GetMetadata st (GE_blob e (BI_Hash b)) (BI_Hash b) s of
        Inl _ \<Rightarrow> refcount_loop st e minAge bs stats s
      | Inr m \<Rightarrow>
          if 0 < length (BM_References m) then refcount_loop st e minAge bs (stats\<lparr>BlobsMarked := BlobsMarked stats + 1\<rparr>) s
          else if minAge < BM_CreatedAt m then refcount_loop st e minAge bs stats s
          else case collectBlob st e (BI_Hash b) s of
                 (Some _, s') \<Rightarrow> refcount_loop st e minAge bs stats s'
               | (None, s') \<Rightarrow> refcount_loop st e minAge bs (count_collected b stats) s')"

definition runReferenceCounting :: "('e, 's) backend \<Rightarrow> GCConfig \<Rightarrow> 'e gc_env \<Rightarrow> 's \<Rightarrow> (gc_error + GCStats) \<times> 's" where
  "runReferenceCounting be cfg e s =
     (case St_List (BE_ops be) (GE_list e) [] s of
        Inl err \<Rightarrow> (Inl (ListBlobsFailed err), s)
      | Inr allBlobs \<Rightarrow>
          (case refcount_loop (BE_ops be) e (days_before (GE_now e) (GC_MinAgeDays cfg)) allBlobs (zero_gc\<lparr>BlobsScanned := int (length allBlobs)\<rparr>) s of
             (stats, s') \<Rightarrow> (Inr stats, cleanupTrash be cfg e s')))"

definition GC_Run :: "('e, 's) backend \<Rightarrow> GCConfig \<Rightarrow> 'e gc_env \<Rightarrow> dataset_store \<Rightarrow> 's \<Rightarrow> gc_error option \<times> dataset_store \<times> 's" where
  "GC_Run be cfg e db s =
     (if GC_Method cfg = ''mark-and-sweep'' then
        (case runMarkAndSweep be cfg e db s of (Inl err, db', s') \<Rightarrow> (Some err, db', s') | (Inr _, db', s') \<Rightarrow> (None, db', s'))
      else if GC_Method cfg = ''reference-counting'' then
        (case runReferenceCounting be cfg e s of (Inl err, s') \<Rightarrow> (Some err, db, s') | (Inr _, s') \<Rightarrow> (None, db, s'))
      else (Some UnknownMethod, db, s))"

subsection \<open>Storage pressure and the trash\<close>

definition go_quot :: "int \<Rightarrow> int \<Rightarrow> int" where
  "go_quot a b = sgn a * sgn b * (\<bar>a\<bar> div \<bar>b\<bar>)"

definition getLocalStoragePressure :: "LocalStore \<Rightarrow> gc_error + int" where
  "getLocalStoragePressure l =
     (if LC_MaxSizeGB (LS_cfg l) = 0 then Inr 0
      else let maxBytes = wrap64 (LC_MaxSizeGB (LS_cfg l) * 1024 * 1024 * 1024)
           in if maxBytes = 0 then Inl DivideByZero
              else let pressure = go_quot (wrap64 (TotalSize (LS_stats l) * 100)) maxBytes
                   in Inr (if 100 < pressure then 100 else pressure))"

definition getStoragePressure :: "('e, 's) backend \<Rightarrow> 's \<Rightarrow> gc_error + int" where
  "getStoragePressure be s =
     (case BE_local be s of Some l \<Rightarrow> getLocalStoragePressure l | None \<Rightarrow> if BE_is_s3 be then Inr 0 else Inl UnknownBackend)"

definition RunWithPressure :: "('e, 's) backend \<Rightarrow> GCConfig \<Rightarrow> 'e gc_env \<Rightarrow> dataset_store \<Rightarrow> 's \<Rightarrow> gc_error option \<times> dataset_store \<times> 's" where
  "RunWithPressure be cfg e db s =
     (if GC_StoragePressureThreshold cfg \<le> 0 then (None, db, s)
      else case getStoragePressure be s of
             Inl err \<Rightarrow> (Some err, db, s)
           | Inr pressure \<Rightarrow> if pressure < GC_StoragePressureThreshold cfg then (None, db, s) else GC_Run be cfg e db s)"

definition ForceCollect :: "('e, 's) backend \<Rightarrow> 'e gc_env \<Rightarrow> string \<Rightarrow> 's \<Rightarrow> blob_error option \<times> 's" where
  "ForceCollect be e hash s = collectBlob (BE_ops be) e hash s"

definition EmptyTrash :: "('e, 's) backend \<Rightarrow> bool \<Rightarrow> bool \<Rightarrow> 's \<Rightarrow> gc_error option \<times> 's" where
  "EmptyTrash be remove_ok permanent s =
     (if \<not> permanent then (Some PermanentRequired, s)
      else case BE_local be s of
             None \<Rightarrow> (None, s)
           | Some l \<Rightarrow> if remove_ok then (None, BE_set_local be (l\<lparr>LS_trash := [], LS_trash_meta := []\<rparr>) s) else (Some TrashFailed, s))"

section \<open>Marking\<close>

lemma insert_desc_set [simp]: "set (insert_desc key x ys) = insert x (set ys)"
  by (induction ys) auto

lemma versions_desc_set: "set (versions_desc env d db) = {v \<in> set (DB_versions db). Version_DatasetID v = d}"
proof -
  have "set (foldl (\<lambda>vs v. insert_desc key v vs) acc xs) = set acc \<union> set xs" for key :: "DatasetVersion \<Rightarrow> string" and acc xs
    by (induction xs arbitrary: acc) auto
  then show ?thesis by (auto simp: versions_desc_def)
qed

lemma ListVersions_value:
  "\<exists>s'. ListVersions env q d s = (if SQ_ok q then Inr (versions_desc env d (SS_db s)) else Inl (SqlFailed EngineError), s') \<and> SS_db s' = SS_db s"
  by (simp add: ListVersions_def queryWithAudit_def listed_def)

lemma ListChunks_value:
  "\<exists>s'. ListChunks env q v s = (if SQ_ok q then Inr (sort_key Chunk_Index (filter (\<lambda>c. Chunk_VersionID c = v) (DB_chunks (SS_db s)))) else Inl (SqlFailed EngineError), s')
     \<and> SS_db s' = SS_db s"
  by (simp add: ListChunks_def queryWithAudit_def listed_def)

definition marked_by_versions :: "'e gc_env \<Rightarrow> DatasetVersion set \<Rightarrow> dataset_db \<Rightarrow> string set" where
  "marked_by_versions e V db = {h. \<exists>c \<in> set (DB_chunks db). Chunk_Hash c = h \<and> (\<exists>v \<in> V. Version_ID v = Chunk_VersionID c \<and> SQ_ok (GE_chunks e (Version_ID v)))}"

lemma marked_by_Un: "marked_by_versions e (A \<union> B) db = marked_by_versions e A db \<union> marked_by_versions e B db"
  by (auto simp: marked_by_versions_def)

lemma mark_versions_set:
  "mark_versions e vs marked db = (marked', db') \<Longrightarrow> set marked' = set marked \<union> marked_by_versions e (set vs) (SS_db db) \<and> SS_db db' = SS_db db"
proof (induction vs arbitrary: marked db)
  case (Cons v vs)
  let ?q = "GE_chunks e (Version_ID v)" and ?cs = "sort_key Chunk_Index (filter (\<lambda>c. Chunk_VersionID c = Version_ID v) (DB_chunks (SS_db db)))"
  obtain db1 where l: "ListChunks (GE_sql e) ?q (Version_ID v) db = (if SQ_ok ?q then Inr ?cs else Inl (SqlFailed EngineError), db1)" "SS_db db1 = SS_db db"
    using ListChunks_value by blast
  have one: "marked_by_versions e {v} (SS_db db) = (if SQ_ok ?q then Chunk_Hash ` set ?cs else {})" by (auto simp: marked_by_versions_def)
  have "mark_versions e vs (if SQ_ok ?q then marked @ map Chunk_Hash ?cs else marked) db1 = (marked', db')" using Cons.prems l(1) by (simp split: if_splits)
  from Cons.IH [OF this] one l(2) marked_by_Un [of e "{v}" "set vs" "SS_db db"] show ?case by (simp split: if_splits) blast+
qed (simp add: marked_by_versions_def)

definition readable_versions :: "'e gc_env \<Rightarrow> string set \<Rightarrow> dataset_db \<Rightarrow> DatasetVersion set" where
  "readable_versions e D db = {v \<in> set (DB_versions db). Version_DatasetID v \<in> D \<and> SQ_ok (GE_versions e (Version_DatasetID v))}"

lemma mark_datasets_set:
  "mark_datasets e ds marked db = (marked', db') \<Longrightarrow>
     set marked' = set marked \<union> marked_by_versions e (readable_versions e (Dataset_ID ` set ds) (SS_db db)) (SS_db db) \<and> SS_db db' = SS_db db"
proof (induction ds arbitrary: marked db)
  case (Cons d ds)
  let ?q = "GE_versions e (Dataset_ID d)" and ?vs = "versions_desc (GE_sql e) (Dataset_ID d) (SS_db db)"
  obtain db1 where l: "ListVersions (GE_sql e) ?q (Dataset_ID d) db = (if SQ_ok ?q then Inr ?vs else Inl (SqlFailed EngineError), db1)" "SS_db db1 = SS_db db"
    using ListVersions_value by blast
  have one: "readable_versions e {Dataset_ID d} (SS_db db) = (if SQ_ok ?q then set ?vs else {})" by (auto simp: readable_versions_def versions_desc_set)
  have all: "readable_versions e (Dataset_ID ` set (d # ds)) (SS_db db)
      = readable_versions e {Dataset_ID d} (SS_db db) \<union> readable_versions e (Dataset_ID ` set ds) (SS_db db)" by (auto simp: readable_versions_def)
  have empty: "marked_by_versions e {} x = {}" for x by (simp add: marked_by_versions_def)
  show ?case
  proof (cases "SQ_ok ?q")
    case True
    obtain m2 db2 where v: "mark_versions e ?vs marked db1 = (m2, db2)" by force
    have "mark_datasets e ds m2 db2 = (marked', db')" using Cons.prems l(1) v True by simp
    from Cons.IH [OF this] mark_versions_set [OF v] l(2) show ?thesis unfolding all one by (simp add: marked_by_Un True Un_assoc)
  next
    case False
    have "mark_datasets e ds marked db1 = (marked', db')" using Cons.prems l(1) False by simp
    from Cons.IH [OF this] l(2) show ?thesis unfolding all one by (simp add: False)
  qed
qed (simp add: marked_by_versions_def readable_versions_def)

text \<open>The hashes a mark phase finds.\<close>

definition marked_hashes :: "'e gc_env \<Rightarrow> dataset_db \<Rightarrow> string set" where
  "marked_hashes e db = marked_by_versions e (readable_versions e (Dataset_ID ` set (DB_datasets db)) db) db"

definition listing_ok :: "'e gc_env \<Rightarrow> bool" where
  "listing_ok e \<longleftrightarrow> SQ_ok (GE_datasets e) \<and> (\<forall>c b ds. \<exists>ds'. GE_order_by e c b ds = Some ds' \<and> set ds' = set ds)"

lemma mark_set:
  assumes "listing_ok e"
  shows "\<exists>marked db'. markReferencedBlobs e db = (Inr marked, db') \<and> set marked = marked_hashes e (SS_db db) \<and> SS_db db' = SS_db db"
proof -
  have m: "filter (dataset_matches j no_filter) xs = xs" for j xs by (induction xs) (auto simp: dataset_matches_def no_filter_def)
  obtain ds where ds: "GE_order_by e ''name'' False (DB_datasets (SS_db db)) = Some ds" "set ds = set (DB_datasets (SS_db db))"
    using assms unfolding listing_ok_def by metis
  have "list_datasets (GE_owners_json e) (GE_order_by e) no_filter (SS_db db) = Inr ds"
    using ds(1) m unfolding list_datasets_def by (simp add: no_filter_def)
  then obtain db1 where l: "DatasetRepository_List (GE_owners_json e) (GE_order_by e) (GE_sql e) (GE_datasets e) no_filter db = (Inr ds, db1)" "SS_db db1 = SS_db db"
    using assms by (simp add: DatasetRepository_List_def queryWithAudit_def listed_def listing_ok_def)
  obtain marked db2 where md: "mark_datasets e ds [] db1 = (marked, db2)" by force
  have "set marked = marked_hashes e (SS_db db) \<and> SS_db db2 = SS_db db"
    using mark_datasets_set [OF md] ds(2) l(2) by (simp add: marked_hashes_def)
  then show ?thesis using l md by (simp add: markReferencedBlobs_def)
qed

definition reads_ok :: "'e gc_env \<Rightarrow> bool" where
  "reads_ok e \<longleftrightarrow> listing_ok e \<and> (\<forall>d. SQ_ok (GE_versions e d)) \<and> (\<forall>v. SQ_ok (GE_chunks e v))"

lemma refs_ok_marked: "refs_ok db \<Longrightarrow> reads_ok e \<Longrightarrow> c \<in> set (DB_chunks db) \<Longrightarrow> Chunk_Hash c \<in> marked_hashes e db"
  by (fastforce simp: refs_ok_def list_all_iff marked_hashes_def marked_by_versions_def readable_versions_def reads_ok_def)

section \<open>Sweeping\<close>

locale gc_backend = blob_store "BE_ops be" view good inv
  for be :: "('e, 's) backend" and view good inv +
  assumes trash_view: "inv s \<Longrightarrow> BE_local be s = Some l \<Longrightarrow> LS_blobs l' = LS_blobs l \<Longrightarrow> LS_cfg l' = LS_cfg l \<Longrightarrow> LS_encKey l' = LS_encKey l
    \<Longrightarrow> view (BE_set_local be l' s) = view s \<and> inv (BE_set_local be l' s)"
begin

lemma cleanup_view: "inv s \<Longrightarrow> view (cleanupTrash be cfg e s) = view s \<and> inv (cleanupTrash be cfg e s)"
  using trash_view by (auto simp: cleanupTrash_def cleanupLocalTrash_def Let_def split: option.split)

lemma sweep_keeps:
  "inv s \<Longrightarrow> h \<in> set referenced \<Longrightarrow> sweep_loop (BE_ops be) e referenced t bs stats s = (stats', s') \<Longrightarrow> view s' h = view s h \<and> inv s'"
proof (induction bs arbitrary: stats s)
  case (Cons b bs)
  show ?case
  proof (cases "BI_Hash b \<in> set referenced \<or> t < BI_CreatedAt b")
    case True
    then show ?thesis using Cons by simp
  next
    case False
    obtain err s1 where c: "St_Delete (BE_ops be) (GE_blob e (BI_Hash b)) (BI_Hash b) s = (err, s1)" by force
    have "h \<noteq> BI_Hash b" using False Cons.prems(2) by blast
    then have s1: "view s1 h = view s h" "inv s1"
      using delete_other [OF Cons.prems(1), of h "BI_Hash b" "GE_blob e (BI_Hash b)"] delete_inv [OF Cons.prems(1), of "GE_blob e (BI_Hash b)" "BI_Hash b"] c
      by simp_all
    have "\<exists>st. sweep_loop (BE_ops be) e referenced t bs st s1 = (stats', s')"
      using Cons.prems(3) False c by (cases err) (auto simp: collectBlob_def)
    then show ?thesis using Cons.IH [OF s1(2) Cons.prems(2)] s1(1) by auto
  qed
qed simp

lemma mark_and_sweep_keeps:
  assumes "inv s" and "listing_ok e" and "h \<in> marked_hashes e (SS_db db)" and "runMarkAndSweep be cfg e db s = (res, db', s')"
  shows "view s' h = view s h \<and> inv s' \<and> SS_db db' = SS_db db"
proof -
  obtain marked db1 where m: "markReferencedBlobs e db = (Inr marked, db1)" "set marked = marked_hashes e (SS_db db)" "SS_db db1 = SS_db db"
    using mark_set [OF assms(2)] by blast
  show ?thesis
  proof (cases "St_List (BE_ops be) (GE_list e) [] s")
    case (Inl x)
    then show ?thesis using assms m by (simp add: runMarkAndSweep_def)
  next
    case (Inr bs)
    obtain stats s1 where sw: "sweep_loop (BE_ops be) e marked (days_before (GE_now e) (GC_MinAgeDays cfg)) bs
        (zero_gc\<lparr>BlobsMarked := int (length (remdups marked)), BlobsScanned := int (length bs)\<rparr>) s = (stats, s1)" by force
    have "view s1 h = view s h" "inv s1" using sweep_keeps [OF assms(1) _ sw] assms(3) m(2) by auto
    then show ?thesis using cleanup_view [of s1 cfg e] assms(4) m sw Inr by (auto simp: runMarkAndSweep_def)
  qed
qed

end

interpretation local_gc: gc_backend "local_backend co" "local_view co" good "local_inv co good" for co good
proof (intro gc_backend.intro gc_backend_axioms.intro)
  show "blob_store (BE_ops (local_backend co)) (local_view co) good (local_inv co good)"
    using local.blob_store_axioms by (simp add: local_backend_def)
  fix s l l' :: LocalStore
  assume "local_inv co good s" "BE_local (local_backend co) s = Some l" "LS_blobs l' = LS_blobs l" "LS_cfg l' = LS_cfg l" "LS_encKey l' = LS_encKey l"
  then show "local_view co (BE_set_local (local_backend co) l' s) = local_view co s \<and> local_inv co good (BE_set_local (local_backend co) l' s)"
    using local_view_cong [of l' s] local_inv_cong [of l' s] by (simp add: local_backend_def)
qed

interpretation s3_gc: gc_backend "s3_backend co cl" "s3_view co objs" good "s3_inv co cl objs good" for co cl objs good
proof (intro gc_backend.intro gc_backend_axioms.intro)
  show "blob_store (BE_ops (s3_backend co cl)) (s3_view co objs) good (s3_inv co cl objs good)"
    using s3.blob_store_axioms by (simp add: s3_backend_def)
qed (simp add: s3_backend_def)

interpretation tiers_gc: gc_backend "hybrid_backend co cl" "tier_view co objs" "hash_ok sha256 U" "tier_inv co cl objs sha256 U" for co cl objs sha256 U
proof (intro gc_backend.intro gc_backend_axioms.intro)
  show "blob_store (BE_ops (hybrid_backend co cl)) (tier_view co objs) (hash_ok sha256 U) (tier_inv co cl objs sha256 U)"
    using tiers.hybrid.blob_store_axioms by (simp add: hybrid_backend_def)
  fix s and l l' :: LocalStore
  assume "tier_inv co cl objs sha256 U s" "BE_local (hybrid_backend co cl) s = Some l" "LS_blobs l' = LS_blobs l" "LS_cfg l' = LS_cfg l" "LS_encKey l' = LS_encKey l"
  then show "tier_view co objs (BE_set_local (hybrid_backend co cl) l' s) = tier_view co objs s
      \<and> tier_inv co cl objs sha256 U (BE_set_local (hybrid_backend co cl) l' s)"
    using local_view_cong [of l' l co] local_inv_cong [of l' l co] by (auto simp: hybrid_backend_def hybrid_view_def hybrid_inv_def)
qed


section \<open>What is collected\<close>

text \<open>The calls to the operating system for the sweep of a local store succeed.\<close>

definition disk_ok :: "local_env gc_env \<Rightarrow> bool" where
  "disk_ok e \<longleftrightarrow> LE_walk_ok (GE_list e) \<and> (\<forall>h. LE_meta_read_ok (GE_list e) h)
     \<and> (\<forall>h. LE_stat_ok (GE_blob e h) \<and> LE_mkdir_ok (GE_blob e h) \<and> LE_rename_ok (GE_blob e h))"

lemma collect_local:
  assumes "disk_ok e" and "isValidHash h" and "local_Delete (GE_blob e h) h s = (err, s')"
  shows "map_of (LS_blobs s') = (map_of (LS_blobs s))(h := None)"
    and "map_of (LS_trash s') = (case map_of (LS_blobs s) h of None \<Rightarrow> map_of (LS_trash s) | Some f \<Rightarrow> (map_of (LS_trash s))(h \<mapsto> f))"
    and "distinct (map fst (LS_trash s)) \<Longrightarrow> distinct (map fst (LS_trash s'))"
proof -
  have "LS_blobs s' = (if map_of (LS_blobs s) h = None then LS_blobs s else AList.delete h (LS_blobs s))
    \<and> LS_trash s' = (case map_of (LS_blobs s) h of None \<Rightarrow> LS_trash s | Some f \<Rightarrow> AList.update h f (LS_trash s))"
  proof (cases "map_of (LS_blobs s) h")
    case None
    then have "local_Delete (GE_blob e h) h s = (Some BlobNotFound, s)" using assms(1,2) by (simp add: local_Delete_def disk_ok_def)
    then show ?thesis using assms(3) None by simp
  next
    case (Some f)
    then have "fst (local_Delete (GE_blob e h) h s) = None" using assms(1,2) by (simp add: local_Delete_def disk_ok_def Let_def)
    then show ?thesis using assms(3) Some local_Delete_done [of "GE_blob e h" h s s'] by auto
  qed
  then have "LS_blobs s' = (if map_of (LS_blobs s) h = None then LS_blobs s else AList.delete h (LS_blobs s))"
    and t: "LS_trash s' = (case map_of (LS_blobs s) h of None \<Rightarrow> LS_trash s | Some f \<Rightarrow> AList.update h f (LS_trash s))"
    by blast+
  then show "map_of (LS_blobs s') = (map_of (LS_blobs s))(h := None)"
    "map_of (LS_trash s') = (case map_of (LS_blobs s) h of None \<Rightarrow> map_of (LS_trash s) | Some f \<Rightarrow> (map_of (LS_trash s))(h \<mapsto> f))"
    by (auto simp: delete_conv update_conv fun_eq_iff split: option.splits)
  show "distinct (map fst (LS_trash s)) \<Longrightarrow> distinct (map fst (LS_trash s'))"
    by (simp add: t distinct_update split: option.split)
qed

definition swept :: "string set \<Rightarrow> instant \<Rightarrow> BlobInfo list \<Rightarrow> string \<Rightarrow> bool" where
  "swept referenced t bs h \<longleftrightarrow> (\<exists>b \<in> set bs. BI_Hash b = h \<and> h \<notin> referenced \<and> BI_CreatedAt b \<le> t)"

lemma sweep_local:
  assumes "disk_ok e" and "list_all (\<lambda>b. isValidHash (BI_Hash b)) bs" and "sweep_loop (local_ops co) e referenced t bs stats s = (stats', s')"
  shows "map_of (LS_blobs s') h = (if swept (set referenced) t bs h then None else map_of (LS_blobs s) h)
    \<and> (distinct (map fst (LS_trash s)) \<longrightarrow> distinct (map fst (LS_trash s'))
         \<and> map_of (LS_trash s') h = (if swept (set referenced) t bs h \<and> map_of (LS_blobs s) h \<noteq> None then map_of (LS_blobs s) h else map_of (LS_trash s) h))"
  using assms(2,3)
proof (induction bs arbitrary: stats s)
  case (Cons b bs)
  show ?case
  proof (cases "BI_Hash b \<in> set referenced \<or> t < BI_CreatedAt b")
    case True
    then have "swept (set referenced) t (b # bs) h = swept (set referenced) t bs h" by (auto simp: swept_def)
    then show ?thesis using Cons True by simp
  next
    case False
    obtain err s1 where c: "local_Delete (GE_blob e (BI_Hash b)) (BI_Hash b) s = (err, s1)" by force
    have sw: "swept (set referenced) t (b # bs) h \<longleftrightarrow> h = BI_Hash b \<or> swept (set referenced) t bs h" using False by (auto simp: swept_def)
    have v: "isValidHash (BI_Hash b)" "list_all (\<lambda>b. isValidHash (BI_Hash b)) bs" using Cons.prems(1) by simp_all
    obtain st where st: "sweep_loop (local_ops co) e referenced t bs st s1 = (stats', s')"
      using Cons.prems(2) False c by (cases err) (auto simp: collectBlob_def local_ops_def)
    note IH = Cons.IH [OF v(2) st] and cl = collect_local [OF assms(1) v(1) c]
    show ?thesis unfolding sw using IH cl(3)
      by (cases "map_of (LS_blobs s) (BI_Hash b)"; cases "h = BI_Hash b") (simp_all add: cl(1,2))
  qed
qed (simp add: swept_def)

lemma local_List_swept:
  assumes "disk_ok e" and "local_List (GE_list e) [] s = Inr bs"
  shows "list_all (\<lambda>b. isValidHash (BI_Hash b)) bs"
    and "swept X t bs h \<longleftrightarrow> map_of (LS_blobs s) h \<noteq> None \<and> h \<notin> X \<and> (\<exists>m. local_GetMetadata (GE_list e) h s = Inr m \<and> BM_CreatedAt m \<le> t)"
proof -
  let ?one = "\<lambda>k. case local_GetMetadata (GE_list e) k s of Inl _ \<Rightarrow> [] | Inr m \<Rightarrow> [blob_info k m]"
  have "bs = concat (map ?one (walk s))" using assms by (auto simp: local_List_def disk_ok_def)
  moreover have "x \<in> set (?one k) \<longleftrightarrow> (\<exists>m. local_GetMetadata (GE_list e) k s = Inr m \<and> x = blob_info k m)" for x k
    by (cases "local_GetMetadata (GE_list e) k s") auto
  ultimately have bs: "x \<in> set bs \<longleftrightarrow> (\<exists>k \<in> fst ` set (LS_blobs s). \<exists>m. local_GetMetadata (GE_list e) k s = Inr m \<and> x = blob_info k m)" for x
    by (auto simp: walk_def)
  then show "list_all (\<lambda>b. isValidHash (BI_Hash b)) bs"
    by (auto simp: list_all_iff bs blob_info_def local_GetMetadata_def split: if_splits)
  define K where "K = fst ` set (LS_blobs s)"
  have key: "map_of (LS_blobs s) h \<noteq> None \<longleftrightarrow> h \<in> K" by (simp add: map_of_eq_None_iff K_def)
  have info: "BI_Hash (blob_info k m) = k" "BI_CreatedAt (blob_info k m) = BM_CreatedAt m" for k m by (simp_all add: blob_info_def)
  show "swept X t bs h \<longleftrightarrow> map_of (LS_blobs s) h \<noteq> None \<and> h \<notin> X \<and> (\<exists>m. local_GetMetadata (GE_list e) h s = Inr m \<and> BM_CreatedAt m \<le> t)"
    unfolding swept_def Bex_def bs K_def [symmetric] key by (auto simp: info) (metis info)
qed

definition collectable :: "GCConfig \<Rightarrow> local_env gc_env \<Rightarrow> dataset_db \<Rightarrow> LocalStore \<Rightarrow> string \<Rightarrow> bool" where
  "collectable cfg e db s h \<longleftrightarrow> h \<notin> marked_hashes e db
     \<and> (\<exists>m. local_GetMetadata (GE_list e) h s = Inr m \<and> BM_CreatedAt m \<le> days_before (GE_now e) (GC_MinAgeDays cfg))"

lemma GC_Run_local:
  assumes "disk_ok e" and "listing_ok e" and "GC_Method cfg = ''mark-and-sweep''" and "GC_Run (local_backend co) cfg e db s = (err, db', s')"
  shows "err = None \<and> SS_db db' = SS_db db \<and> (\<exists>s1. s' = snd (cleanupLocalTrash cfg e s1)
    \<and> map_of (LS_blobs s1) h = (if collectable cfg e (SS_db db) s h then None else map_of (LS_blobs s) h)
    \<and> (distinct (map fst (LS_trash s)) \<longrightarrow> distinct (map fst (LS_trash s1))
         \<and> map_of (LS_trash s1) h = (if collectable cfg e (SS_db db) s h \<and> map_of (LS_blobs s) h \<noteq> None then map_of (LS_blobs s) h else map_of (LS_trash s) h)))"
proof -
  obtain marked db1 where m: "markReferencedBlobs e db = (Inr marked, db1)" "set marked = marked_hashes e (SS_db db)" "SS_db db1 = SS_db db"
    using mark_set [OF assms(2)] by blast
  obtain bs where bs: "local_List (GE_list e) [] s = Inr bs" using assms(1) by (simp add: local_List_def disk_ok_def)
  let ?t = "days_before (GE_now e) (GC_MinAgeDays cfg)"
  obtain stats s1 where sw: "sweep_loop (local_ops co) e marked ?t bs
      (zero_gc\<lparr>BlobsMarked := int (length (remdups marked)), BlobsScanned := int (length bs)\<rparr>) s = (stats, s1)" by force
  have run: "err = None" "SS_db db' = SS_db db" "s' = snd (cleanupLocalTrash cfg e s1)"
    using assms(3,4) m sw bs by (auto simp: GC_Run_def runMarkAndSweep_def local_backend_def local_ops_def cleanupTrash_def)
  have "swept (set marked) ?t bs h \<longleftrightarrow> map_of (LS_blobs s) h \<noteq> None \<and> collectable cfg e (SS_db db) s h"
    using local_List_swept(2) [OF assms(1) bs] m(2) by (auto simp: collectable_def)
  then have "map_of (LS_blobs s1) h = (if collectable cfg e (SS_db db) s h then None else map_of (LS_blobs s) h)
    \<and> (distinct (map fst (LS_trash s)) \<longrightarrow> distinct (map fst (LS_trash s1))
         \<and> map_of (LS_trash s1) h = (if collectable cfg e (SS_db db) s h \<and> map_of (LS_blobs s) h \<noteq> None then map_of (LS_blobs s) h else map_of (LS_trash s) h))"
    using sweep_local [OF assms(1) local_List_swept(1) [OF assms(1) bs] sw, of h] by auto
  then show ?thesis using run by blast
qed

lemma cleanup_blobs [simp]: "LS_blobs (snd (cleanupLocalTrash cfg e l)) = LS_blobs l"
  by (simp add: cleanupLocalTrash_def Let_def)

text \<open>
  C30. On a local store whose disk calls succeed, a mark-and-sweep collection reports no error and
  removes exactly the blobs that were not marked, have readable metadata and were created no later
  than the minimum age before the run; every other blob file is left as it was.
\<close>

theorem gc_collects_exactly:
  assumes "disk_ok e" and "listing_ok e" and "GC_Method cfg = ''mark-and-sweep''" and "GC_Run (local_backend co) cfg e db s = (err, db', s')"
  shows "err = None \<and> SS_db db' = SS_db db
    \<and> map_of (LS_blobs s') h = (if collectable cfg e (SS_db db) s h then None else map_of (LS_blobs s) h)"
  using GC_Run_local [OF assms, of h] by auto


section \<open>Sample runs\<close>

definition gc_sample_env :: "'e \<Rightarrow> bool \<Rightarrow> 'e gc_env" where
  "gc_sample_env e versions_ok = \<lparr>GE_owners_json = (\<lambda>_. []), GE_order_by = (\<lambda>c b ds. Some ds), GE_sql = sample_env, GE_datasets = sample_stmt,
     GE_versions = (\<lambda>d. sample_stmt\<lparr>SQ_ok := versions_ok\<rparr>), GE_chunks = (\<lambda>v. sample_stmt), GE_list = e, GE_blob = (\<lambda>h. e),
     GE_now = 8640000000000000, GE_trash_now = 8640000000000000, GE_walk_ok = True, GE_remove_ok = (\<lambda>_. True)\<rparr>"

definition gc_sample_cfg :: GCConfig where
  "gc_sample_cfg = \<lparr>GC_Method = ''mark-and-sweep'', GC_StoragePressureThreshold = 90, GC_MinAgeDays = 7, GC_TrashRetentionDays = 30\<rparr>"

definition gc_sample_db :: dataset_store where
  "gc_sample_db = open_store ''n'' 1 (empty_db [''t1'']\<lparr>DB_datasets := [sample_dataset], DB_versions := [sample_version ''v1'' 0],
     DB_chunks := [sample_blob_chunk]\<rparr>)"

lemma gc_sample_reads: "listing_ok (gc_sample_env e b)" "reads_ok (gc_sample_env e True)"
  by (auto simp: listing_ok_def reads_ok_def gc_sample_env_def sample_stmt_def)

lemma gc_sample_disk: "disk_ok (gc_sample_env calm b)"
  by (simp add: disk_ok_def gc_sample_env_def calm_def)

lemma gc_sample_rows: "SS_db gc_sample_db = empty_db [''t1'']\<lparr>DB_datasets := [sample_dataset], DB_versions := [sample_version ''v1'' 0], DB_chunks := [sample_blob_chunk]\<rparr>"
  by (simp add: gc_sample_db_def open_store_def)


lemma gc_sample_meta: "local_GetMetadata (GE_list (gc_sample_env calm b)) sample_hash full_local = Inr full_metadata"
  by (simp add: gc_sample_env_def local_GetMetadata_def sample_hash_valid full_local_def calm_def)

theorem gc_collects_exactly_witness:
  "map_of (LS_blobs (snd (snd (GC_Run (local_backend plain_codec) gc_sample_cfg (gc_sample_env calm True) (open_store ''n'' 1 (empty_db [])) full_local)))) sample_hash = None"
proof -
  obtain err db' s' where run: "GC_Run (local_backend plain_codec) gc_sample_cfg (gc_sample_env calm True) (open_store ''n'' 1 (empty_db [])) full_local = (err, db', s')"
    by (metis prod_cases3)
  have "collectable gc_sample_cfg (gc_sample_env calm True) (SS_db (open_store ''n'' 1 (empty_db []))) full_local sample_hash"
    using gc_sample_meta [of True]
    by (auto simp: collectable_def marked_hashes_def marked_by_versions_def open_store_def empty_db_def full_metadata_def put_metadata_def
        gc_sample_cfg_def gc_sample_env_def days_before_def)
  moreover have "GC_Method gc_sample_cfg = ''mark-and-sweep''" by (simp add: gc_sample_cfg_def)
  ultimately show ?thesis using gc_collects_exactly [OF gc_sample_disk gc_sample_reads(1) _ run, of sample_hash] by (simp add: run)
qed


end
