(* ===== verification/Grpc_Errors.thy ===== *)
theory Grpc_Errors
  imports Grpc Sql_Store
begin

text \<open>
  The errors of the gRPC services (\<open>internal/grpc/errors/errors.go\<close>): the table from domain and storage
  errors to status codes, and the constructors of status errors. The structured details that a status carries
  beside its code and message (field violations, resource names) are not part of the model.

  Shown: which errors reach a client as an internal error.
\<close>

section \<open>Definitions\<close>

abbreviation NotFound :: status_code where "NotFound \<equiv> OtherCode ''NotFound''"
abbreviation InvalidArgument :: status_code where "InvalidArgument \<equiv> OtherCode ''InvalidArgument''"
abbreviation Unavailable :: status_code where "Unavailable \<equiv> OtherCode ''Unavailable''"
abbreviation AlreadyExists :: status_code where "AlreadyExists \<equiv> OtherCode ''AlreadyExists''"
abbreviation FailedPrecondition :: status_code where "FailedPrecondition \<equiv> OtherCode ''FailedPrecondition''"
abbreviation DataLoss :: status_code where "DataLoss \<equiv> OtherCode ''DataLoss''"
abbreviation Unimplemented :: status_code where "Unimplemented \<equiv> OtherCode ''Unimplemented''"

definition domainErrorMapping :: "(domain_error \<times> status_code \<times> string) list" where
  "domainErrorMapping =
    [(ErrInvalidTopicID, InvalidArgument, ''Invalid topic ID''),
     (ErrInvalidTopicName, InvalidArgument, ''Invalid topic name''),
     (ErrInvalidTopicStatus, InvalidArgument, ''Invalid topic status''),
     (ErrTopicNotFound, NotFound, ''Topic not found''),
     (ErrTopicArchived, FailedPrecondition, ''Topic is archived''),
     (ErrCannotRemoveLastOwner, FailedPrecondition, ''Cannot remove the last owner''),
     (ErrOwnerNotFound, NotFound, ''Owner not found''),
     (ErrInvalidDatasetID, InvalidArgument, ''Invalid dataset ID''),
     (ErrInvalidDatasetName, InvalidArgument, ''Invalid dataset name''),
     (ErrInvalidDatasetStatus, InvalidArgument, ''Invalid dataset status''),
     (ErrDatasetNotFound, NotFound, ''Dataset not found''),
     (ErrInvalidHash, InvalidArgument, ''Invalid hash''),
     (ErrHashMismatch, DataLoss, ''Hash mismatch - data may be corrupted''),
     (ErrInvalidSize, InvalidArgument, ''Invalid size''),
     (ErrInvalidChunkCount, InvalidArgument, ''Invalid chunk count''),
     (ErrNoOwners, InvalidArgument, ''No owners specified''),
     (ErrInvalidVersionID, InvalidArgument, ''Invalid version ID''),
     (ErrInvalidVersionString, InvalidArgument, ''Invalid version string''),
     (ErrVersionNotFound, NotFound, ''Version not found''),
     (ErrEmptyVersion, InvalidArgument, ''Version must have content or instructions''),
     (ErrInvalidChunkIndex, InvalidArgument, ''Invalid chunk index''),
     (ErrChunkNotFound, NotFound, ''Chunk not found''),
     (ErrInvalidUserID, InvalidArgument, ''Invalid user ID''),
     (ErrInvalidUserName, InvalidArgument, ''Invalid user name''),
     (ErrInvalidPublicKey, InvalidArgument, ''Invalid public key''),
     (ErrInvalidKeyType, InvalidArgument, ''Invalid key type''),
     (ErrInvalidUserStatus, InvalidArgument, ''Invalid user status''),
     (ErrInvalidUserRole, InvalidArgument, ''Invalid user role''),
     (ErrUserNotFound, NotFound, ''User not found''),
     (ErrUserExists, AlreadyExists, ''User already exists''),
     (ErrUserSuspended, PermissionDenied, ''User account is suspended''),
     (ErrUserPending, PermissionDenied, ''User account is pending approval''),
     (ErrInvalidSignature, Unauthenticated, ''Invalid signature''),
     (ErrInvalidOperation, InvalidArgument, ''Invalid operation''),
     (ErrUnauthorized, PermissionDenied, ''Unauthorized''),
     (ErrAutoRegDisabled, PermissionDenied, ''Auto-registration is disabled''),
     (ErrSessionNotFound, NotFound, ''Session not found''),
     (ErrSessionExpired, Unauthenticated, ''Session has expired''),
     (ErrInvalidResourceType, InvalidArgument, ''Invalid resource type''),
     (ErrInvalidResourceID, InvalidArgument, ''Invalid resource ID''),
     (ErrInvalidOwnershipRole, InvalidArgument, ''Invalid ownership role''),
     (ErrOwnershipDenied, PermissionDenied, ''Ownership denied''),
     (ErrSelfTransfer, InvalidArgument, ''Cannot transfer to self''),
     (ErrNotOwner, PermissionDenied, ''Not an owner of this resource''),
     (ErrInvalidInstruction, InvalidArgument, ''Invalid instruction''),
     (ErrNoInstructions, InvalidArgument, ''No instructions provided''),
     (ErrInvalidTaskID, InvalidArgument, ''Invalid task ID''),
     (ErrInvalidTaskName, InvalidArgument, ''Invalid task name''),
     (ErrTaskNotFound, NotFound, ''Task not found''),
     (ErrEmptyTask, InvalidArgument, ''Task has no instructions''),
     (ErrInvalidScheduleType, InvalidArgument, ''Invalid schedule type''),
     (ErrInvalidCronExpr, InvalidArgument, ''Invalid cron expression''),
     (ErrInvalidRepeatCount, InvalidArgument, ''Invalid repeat count''),
     (ErrInvalidInterval, InvalidArgument, ''Invalid interval''),
     (ErrInvalidTimeRange, InvalidArgument, ''End time must be after start time''),
     (ErrInvalidJobID, InvalidArgument, ''Invalid job ID''),
     (ErrJobNotFound, NotFound, ''Job not found'')]"

text \<open>\<open>text\<close> is the text of an error.\<close>

definition MapDomainError :: "(repo_error \<Rightarrow> string) \<Rightarrow> repo_error \<Rightarrow> 'r outcome" where
  "MapDomainError text err =
     (case err of
        ErrNotFound \<Rightarrow> Status NotFound ''Resource not found''
      | ErrAlreadyExists \<Rightarrow> Status AlreadyExists ''Resource already exists''
      | Rejected d \<Rightarrow>
          (case map_of domainErrorMapping d of
             Some (code, desc) \<Rightarrow> Status code desc
           | None \<Rightarrow> Status Internal (''internal error: '' @ text err))
      | SqlFailed e \<Rightarrow> Status Internal (''internal error: '' @ text err))"

definition NewValidationError :: "string \<Rightarrow> 'r outcome" where
  "NewValidationError message = Status InvalidArgument message"

definition NewResourceNotFoundError :: "string \<Rightarrow> string \<Rightarrow> 'r outcome" where
  "NewResourceNotFoundError resourceType resourceID = Status NotFound (resourceType @ '' not found: '' @ resourceID)"

definition NewPreconditionError :: "string \<Rightarrow> 'r outcome" where
  "NewPreconditionError message = Status FailedPrecondition message"

definition NewQuotaExceededError :: "string \<Rightarrow> 'r outcome" where
  "NewQuotaExceededError resourceType = Status ResourceExhausted (resourceType @ '' quota exceeded'')"

definition NewPermissionDeniedError :: "string \<Rightarrow> string \<Rightarrow> 'r outcome" where
  "NewPermissionDeniedError action resource = Status PermissionDenied (''permission denied: cannot '' @ action @ '' '' @ resource)"

definition codeToReason :: "status_code \<Rightarrow> string" where
  "codeToReason code =
     (if code = InvalidArgument then ''INVALID_ARGUMENT'' else if code = NotFound then ''NOT_FOUND''
      else if code = AlreadyExists then ''ALREADY_EXISTS'' else if code = PermissionDenied then ''PERMISSION_DENIED''
      else if code = Unauthenticated then ''UNAUTHENTICATED'' else if code = ResourceExhausted then ''RESOURCE_EXHAUSTED''
      else if code = FailedPrecondition then ''FAILED_PRECONDITION'' else if code = OtherCode ''Aborted'' then ''ABORTED''
      else if code = Internal then ''INTERNAL'' else if code = Unavailable then ''UNAVAILABLE'' else if code = DataLoss then ''DATA_LOSS''
      else ''UNKNOWN'')"

definition MinQueryLength :: nat where "MinQueryLength = 3"

text \<open>The refusal of a search query that is too short.\<close>

definition ValidateSearchQuery :: "string \<Rightarrow> 'r outcome option" where
  "ValidateSearchQuery query =
     (if length query < MinQueryLength
      then Some (NewValidationError (''query must be at least '' @ show_int (int MinQueryLength) @ '' characters'')) else None)"

section \<open>Internal errors\<close>

definition unmapped_errors :: "domain_error list" where
  "unmapped_errors = [ErrInvalidJobType, ErrNoTaskOrInstructions, ErrInvalidExecutionMode, ErrCyclicDependency, ErrInvalidPipelineID,
     ErrInvalidPipelineName, ErrEmptyPipeline, ErrInvalidQueryID, ErrInvalidQueryType, ErrEmptySQLQuery, ErrNonSelectQuery, ErrNoTargetDatasets,
     ErrInvalidLimit, ErrInvalidOffset, ErrQueryTimeout, ErrDownloadNotFound, ErrDownloadFailed, ErrCatalogNotFound, ErrEntryNotFound,
     ErrUnsupportedProtocol, ErrInvalidMessage, ErrTimeout]"

lemma mapped_or_unmapped: "d \<in> set (map fst domainErrorMapping) \<longleftrightarrow> d \<notin> set unmapped_errors"
  unfolding domainErrorMapping_def unmapped_errors_def list.map fst_conv list.set by (cases d; simp)

lemma mapped_not_internal: "list_all (\<lambda>(d, c, msg). c \<noteq> Internal) domainErrorMapping"
  unfolding domainErrorMapping_def list.pred_inject prod.case by simp

lemma map_of_not_internal: "map_of domainErrorMapping d = Some (c, msg) \<Longrightarrow> c \<noteq> Internal"
  using mapped_not_internal by (auto simp: list_all_iff dest: map_of_SomeD)

text \<open>
  A domain error reaches the client as an internal error exactly when the table lacks it: all the errors of
  pipelines, queries, downloads and catalogs, and the validation errors of jobs beside the identifier.
\<close>

theorem internal_errors_exact:
  "(\<exists>msg. (MapDomainError text (Rejected d) :: 'r outcome) = Status Internal msg) \<longleftrightarrow> d \<in> set unmapped_errors"
  using mapped_or_unmapped [of d] map_of_eq_None_iff [of domainErrorMapping d]
  by (auto simp: MapDomainError_def split: option.splits dest: map_of_not_internal)

end
