(* ===== verification/Account_Repo.thy ===== *)
theory Account_Repo
  imports Dataset_Repo Users
begin

text \<open>
  The user and session repositories of the SQLite store (\<open>internal/storage/sqlite/users.go\<close>,
  \<open>internal/storage/sqlite/sessions.go\<close>) over the tables of migration 4. A row of a table is the
  record it decodes to: an empty email or locale is \<open>NULL\<close>, and the JSON and time columns survive
  the round trip. A domain error that an operation returns as it is (from \<open>Validate\<close>, or the not-found
  errors) is \<open>Rejected\<close>; a wrapped error of the engine is \<open>SqlFailed\<close>.

  Shown: every statement keeps the constraints of the two tables, and what each one does to the
  sessions of a user.
\<close>

section \<open>Definitions\<close>

abbreviation SessionTypeSSH :: string where "SessionTypeSSH \<equiv> ''ssh''"
abbreviation SessionTypeGRPC :: string where "SessionTypeGRPC \<equiv> ''grpc''"
abbreviation SessionTypeAPI :: string where "SessionTypeAPI \<equiv> ''api''"

record Session =
  Session_ID :: string
  Session_UserID :: UserID
  Session_Type :: string
  Session_ClientIP :: string
  Session_ClientAgent :: string
  Session_PublicKeyFingerprint :: string
  Session_NodeID :: string
  Session_StartedAt :: instant
  Session_EndedAt :: "instant option"
  Session_LastActivityAt :: instant
  Session_Metadata :: "string \<rightharpoonup> string"

record SessionFilter =
  SF_UserID :: "UserID option"
  SF_Type :: string
  SF_Active :: "bool option"
  SF_ClientIP :: string
  SF_NodeID :: string
  SF_After :: "instant option"
  SF_Before :: "instant option"
  SF_Limit :: int
  SF_Offset :: int

record UserFilter =
  UF_Status :: string
  UF_Role :: string
  UF_Search :: string
  UF_Limit :: int
  UF_Offset :: int
  UF_OrderBy :: string
  UF_OrderDesc :: bool

record account_db =
  AD_users :: "User list"
  AD_sessions :: "Session list"

type_synonym account_store = "account_db SqlStore"

subsection \<open>Statements\<close>

definition user_checks :: "User \<Rightarrow> bool" where
  "user_checks u \<longleftrightarrow> User_KeyType u \<in> set [KeyTypeEd25519, KeyTypeRSA] \<and> UserStatus_IsValid (User_Status u) \<and> UserRole_IsValid (User_Role u)"

definition insert_user :: "User \<Rightarrow> bool \<Rightarrow> account_db \<Rightarrow> sql_error + (int \<times> account_db)" where
  "insert_user u fk db =
     (if \<not> user_checks u then Inl CheckViolation
      else if \<exists>x \<in> set (AD_users db). User_ID x = User_ID u \<or> User_PublicKey x = User_PublicKey u
                \<or> User_PublicKeyFingerprint x = User_PublicKeyFingerprint u \<or> User_Email u \<noteq> [] \<and> User_Email x = User_Email u
        then Inl UniqueViolation
      else Inr (1, db\<lparr>AD_users := AD_users db @ [u]\<rparr>))"

definition updated_user :: "User \<Rightarrow> User \<Rightarrow> User" where
  "updated_user u old = u\<lparr>User_PublicKey := User_PublicKey old, User_KeyType := User_KeyType old,
     User_PublicKeyFingerprint := User_PublicKeyFingerprint old, User_CreatedAt := User_CreatedAt old\<rparr>"

definition update_user :: "User \<Rightarrow> bool \<Rightarrow> account_db \<Rightarrow> sql_error + (int \<times> account_db)" where
  "update_user u fk db =
     (if User_ID u \<notin> set (map User_ID (AD_users db)) then Inr (0, db)
      else if \<not> (UserStatus_IsValid (User_Status u) \<and> UserRole_IsValid (User_Role u)) then Inl CheckViolation
      else if \<exists>x \<in> set (AD_users db). User_ID x \<noteq> User_ID u \<and> User_Email u \<noteq> [] \<and> User_Email x = User_Email u
        then Inl UniqueViolation
      else Inr (1, db\<lparr>AD_users := map (\<lambda>x. if User_ID x = User_ID u then updated_user u x else x) (AD_users db)\<rparr>))"

definition delete_user :: "instant \<Rightarrow> UserID \<Rightarrow> bool \<Rightarrow> account_db \<Rightarrow> sql_error + (int \<times> account_db)" where
  "delete_user now i fk db =
     (if i \<notin> set (map User_ID (AD_users db)) then Inr (0, db)
      else Inr (1, db\<lparr>AD_users := map (\<lambda>x. if User_ID x = i then x\<lparr>User_Status := UserStatusDeleted, User_UpdatedAt := now\<rparr> else x)
                                     (AD_users db)\<rparr>))"

definition session_checks :: "Session \<Rightarrow> bool" where
  "session_checks x \<longleftrightarrow> Session_Type x \<in> set [SessionTypeSSH, SessionTypeGRPC, SessionTypeAPI]"

definition insert_session :: "Session \<Rightarrow> bool \<Rightarrow> account_db \<Rightarrow> sql_error + (int \<times> account_db)" where
  "insert_session x fk db =
     (if \<not> session_checks x then Inl CheckViolation
      else if Session_ID x \<in> set (map Session_ID (AD_sessions db)) then Inl UniqueViolation
      else if fk \<and> Session_UserID x \<notin> set (map User_ID (AD_users db)) then Inl ForeignKeyViolation
      else Inr (1, db\<lparr>AD_sessions := AD_sessions db @ [x]\<rparr>))"

text \<open>An update of the sessions that a condition selects, with the number of rows it changes.\<close>

definition update_sessions :: "(Session \<Rightarrow> bool) \<Rightarrow> (Session \<Rightarrow> Session) \<Rightarrow> bool \<Rightarrow> account_db \<Rightarrow> sql_error + (int \<times> account_db)" where
  "update_sessions P f fk db =
     Inr (int (length (filter P (AD_sessions db))), db\<lparr>AD_sessions := map (\<lambda>x. if P x then f x else x) (AD_sessions db)\<rparr>)"

definition ended :: "instant \<Rightarrow> Session \<Rightarrow> Session" where
  "ended now x = x\<lparr>Session_EndedAt := Some now, Session_LastActivityAt := now\<rparr>"

definition delete_sessions :: "(Session \<Rightarrow> bool) \<Rightarrow> bool \<Rightarrow> account_db \<Rightarrow> sql_error + (int \<times> account_db)" where
  "delete_sessions P fk db =
     Inr (int (length (filter P (AD_sessions db))), db\<lparr>AD_sessions := filter (\<lambda>x. \<not> P x) (AD_sessions db)\<rparr>)"

subsection \<open>Users\<close>

definition user_found :: "(sql_error + User option) \<Rightarrow> repo_error + User" where
  "user_found r = (case r of Inl err \<Rightarrow> Inl (SqlFailed err) | Inr None \<Rightarrow> Inl (Rejected ErrUserNotFound) | Inr (Some u) \<Rightarrow> Inr u)"

definition changed_or :: "domain_error \<Rightarrow> (sql_error + int) \<Rightarrow> repo_error option" where
  "changed_or missing r = (case r of Inl err \<Rightarrow> Some (SqlFailed err) | Inr n \<Rightarrow> if n = 0 then Some (Rejected missing) else None)"

definition UserRepository_Create :: "sql_env \<Rightarrow> stmt \<Rightarrow> User \<Rightarrow> account_store \<Rightarrow> repo_error option \<times> account_store" where
  "UserRepository_Create env q u s =
     (case User_Validate u of
        Some err \<Rightarrow> (Some (Rejected err), s)
      | None \<Rightarrow>
          (case execWithAudit env q ''INSERT'' ''users'' (insert_user u) s of
             (Inr n, s') \<Rightarrow> (None, s')
           | (Inl err, s') \<Rightarrow> (Some (if err = UniqueViolation then Rejected ErrUserExists else SqlFailed err), s')))"

definition select_user :: "(User \<Rightarrow> bool) \<Rightarrow> account_db \<Rightarrow> sql_error + User option" where
  "select_user P db = Inr (find (\<lambda>u. P u \<and> User_Status u \<noteq> UserStatusDeleted) (AD_users db))"

definition UserRepository_Get :: "sql_env \<Rightarrow> stmt \<Rightarrow> UserID \<Rightarrow> account_store \<Rightarrow> (repo_error + User) \<times> account_store" where
  "UserRepository_Get env q i s =
     (case queryWithAudit env q ''users'' (select_user (\<lambda>u. User_ID u = i)) s of (r, s') \<Rightarrow> (user_found r, s'))"

definition UserRepository_GetByPublicKey :: "sql_env \<Rightarrow> stmt \<Rightarrow> bytes \<Rightarrow> account_store \<Rightarrow> (repo_error + User) \<times> account_store" where
  "UserRepository_GetByPublicKey env q k s =
     (case queryWithAudit env q ''users'' (select_user (\<lambda>u. User_PublicKey u = k)) s of (r, s') \<Rightarrow> (user_found r, s'))"

text \<open>A missing email is \<open>NULL\<close>, which no text equals.\<close>

definition UserRepository_GetByEmail :: "sql_env \<Rightarrow> stmt \<Rightarrow> string \<Rightarrow> account_store \<Rightarrow> (repo_error + User) \<times> account_store" where
  "UserRepository_GetByEmail env q email s =
     (case queryWithAudit env q ''users'' (select_user (\<lambda>u. User_Email u \<noteq> [] \<and> User_Email u = email)) s of (r, s') \<Rightarrow> (user_found r, s'))"

definition user_matches :: "UserFilter \<Rightarrow> User \<Rightarrow> bool" where
  "user_matches f u \<longleftrightarrow> User_Status u \<noteq> UserStatusDeleted
     \<and> (UF_Status f \<noteq> [] \<longrightarrow> User_Status u = UF_Status f)
     \<and> (UF_Role f \<noteq> [] \<longrightarrow> User_Role u = UF_Role f)
     \<and> (UF_Search f \<noteq> [] \<longrightarrow> sql_like (''%'' @ UF_Search f @ ''%'') (User_Name u)
                             \<or> User_Email u \<noteq> [] \<and> sql_like (''%'' @ UF_Search f @ ''%'') (User_Email u))"

text \<open>The rows of a listing from the limit and offset clauses; an offset without a limit is a syntax error.\<close>

definition page :: "int \<Rightarrow> int \<Rightarrow> 'a list \<Rightarrow> sql_error + 'a list" where
  "page limit offset xs =
     (if limit \<le> 0 \<and> 0 < offset then Inl EngineError
      else let xs' = (if 0 < offset then drop (nat offset) xs else xs)
           in Inr (if 0 < limit then take (nat limit) xs' else xs'))"

definition list_users :: "(string \<Rightarrow> bool \<Rightarrow> User list \<Rightarrow> User list option) \<Rightarrow> UserFilter \<Rightarrow> account_db \<Rightarrow> sql_error + User list" where
  "list_users order_by f db =
     (case order_by (if UF_OrderBy f \<noteq> [] then UF_OrderBy f else ''name'') (UF_OrderDesc f) (filter (user_matches f) (AD_users db)) of
        None \<Rightarrow> Inl EngineError
      | Some us \<Rightarrow> page (UF_Limit f) (UF_Offset f) us)"

definition UserRepository_List ::
    "(string \<Rightarrow> bool \<Rightarrow> User list \<Rightarrow> User list option) \<Rightarrow> sql_env \<Rightarrow> stmt \<Rightarrow> UserFilter \<Rightarrow> account_store
       \<Rightarrow> (repo_error + User list) \<times> account_store" where
  "UserRepository_List order_by env q f s =
     (case queryWithAudit env q ''users'' (list_users order_by f) s of (r, s') \<Rightarrow> (listed r, s'))"

text \<open>The update stamps the caller's record before the statement runs: the record is returned with the error.\<close>

definition UserRepository_Update ::
    "sql_env \<Rightarrow> stmt \<Rightarrow> instant \<Rightarrow> User \<Rightarrow> account_store \<Rightarrow> repo_error option \<times> User \<times> account_store" where
  "UserRepository_Update env q now u s =
     (case User_Validate u of
        Some err \<Rightarrow> (Some (Rejected err), u, s)
      | None \<Rightarrow>
          (let u' = u\<lparr>User_UpdatedAt := now\<rparr>
           in case execWithAudit env q ''UPDATE'' ''users'' (update_user u') s of (r, s') \<Rightarrow> (changed_or ErrUserNotFound r, u', s')))"

definition UserRepository_Delete :: "sql_env \<Rightarrow> stmt \<Rightarrow> instant \<Rightarrow> UserID \<Rightarrow> account_store \<Rightarrow> repo_error option \<times> account_store" where
  "UserRepository_Delete env q now i s =
     (case execWithAudit env q ''UPDATE'' ''users'' (delete_user now i) s of (r, s') \<Rightarrow> (changed_or ErrUserNotFound r, s'))"

text \<open>The counts read the tables without an entry in the log; \<open>ok\<close> is the answer of the engine.\<close>

definition UserRepository_Count :: "bool \<Rightarrow> UserFilter \<Rightarrow> account_store \<Rightarrow> repo_error + int" where
  "UserRepository_Count ok f s =
     (if ok then Inr (int (length (filter (user_matches f) (AD_users (SS_db s))))) else Inl (SqlFailed EngineError))"

definition UserRepository_Exists :: "bool \<Rightarrow> bytes \<Rightarrow> account_store \<Rightarrow> repo_error + bool" where
  "UserRepository_Exists ok k s =
     (if ok then Inr (0 < length (filter (\<lambda>u. User_PublicKey u = k \<and> User_Status u \<noteq> UserStatusDeleted) (AD_users (SS_db s))))
      else Inl (SqlFailed EngineError))"

definition UserRepository_IsFirstUser :: "bool \<Rightarrow> account_store \<Rightarrow> repo_error + bool" where
  "UserRepository_IsFirstUser ok s =
     (if ok then Inr (length (filter (\<lambda>u. User_Status u \<noteq> UserStatusDeleted) (AD_users (SS_db s))) = 0)
      else Inl (SqlFailed EngineError))"

subsection \<open>Sessions\<close>

definition SessionRepository_Create :: "sql_env \<Rightarrow> stmt \<Rightarrow> Session \<Rightarrow> account_store \<Rightarrow> repo_error option \<times> account_store" where
  "SessionRepository_Create env q x s =
     (case execWithAudit env q ''INSERT'' ''sessions'' (insert_session x) s of
        (Inr n, s') \<Rightarrow> (None, s')
      | (Inl err, s') \<Rightarrow> (Some (SqlFailed err), s'))"

definition SessionRepository_Get :: "sql_env \<Rightarrow> stmt \<Rightarrow> string \<Rightarrow> account_store \<Rightarrow> (repo_error + Session) \<times> account_store" where
  "SessionRepository_Get env q i s =
     (case queryWithAudit env q ''sessions'' (\<lambda>db. Inr (find (\<lambda>x. Session_ID x = i) (AD_sessions db))) s of
        (r, s') \<Rightarrow> (case r of Inl err \<Rightarrow> Inl (SqlFailed err) | Inr None \<Rightarrow> Inl (Rejected ErrSessionNotFound) | Inr (Some x) \<Rightarrow> Inr x, s'))"

definition active_of :: "UserID \<Rightarrow> Session \<Rightarrow> bool" where
  "active_of u x \<longleftrightarrow> Session_UserID x = u \<and> Session_EndedAt x = None"

text \<open>Newest first, by the text of the time the session started.\<close>

definition newest_first :: "sql_env \<Rightarrow> Session list \<Rightarrow> Session list" where
  "newest_first env xs = foldl (\<lambda>ys x. insert_desc (\<lambda>x. EV_fmt_time env (Session_StartedAt x)) x ys) [] xs"

definition SessionRepository_GetByUser :: "sql_env \<Rightarrow> stmt \<Rightarrow> UserID \<Rightarrow> account_store \<Rightarrow> (repo_error + Session list) \<times> account_store" where
  "SessionRepository_GetByUser env q u s =
     (case queryWithAudit env q ''sessions'' (\<lambda>db. Inr (newest_first env (filter (active_of u) (AD_sessions db)))) s of
        (r, s') \<Rightarrow> (listed r, s'))"

definition SessionRepository_Update :: "sql_env \<Rightarrow> stmt \<Rightarrow> Session \<Rightarrow> account_store \<Rightarrow> repo_error option \<times> account_store" where
  "SessionRepository_Update env q x s =
     (case execWithAudit env q ''UPDATE'' ''sessions''
             (update_sessions (\<lambda>y. Session_ID y = Session_ID x)
                (\<lambda>y. y\<lparr>Session_EndedAt := Session_EndedAt x, Session_LastActivityAt := Session_LastActivityAt x, Session_Metadata := Session_Metadata x\<rparr>)) s of
        (r, s') \<Rightarrow> (changed_or ErrSessionNotFound r, s'))"

definition SessionRepository_End :: "sql_env \<Rightarrow> stmt \<Rightarrow> instant \<Rightarrow> string \<Rightarrow> account_store \<Rightarrow> repo_error option \<times> account_store" where
  "SessionRepository_End env q now i s =
     (case execWithAudit env q ''UPDATE'' ''sessions'' (update_sessions (\<lambda>x. Session_ID x = i \<and> Session_EndedAt x = None) (ended now)) s of
        (r, s') \<Rightarrow> (changed_or ErrSessionNotFound r, s'))"

definition SessionRepository_EndAllForUser :: "sql_env \<Rightarrow> stmt \<Rightarrow> instant \<Rightarrow> UserID \<Rightarrow> account_store \<Rightarrow> repo_error option \<times> account_store" where
  "SessionRepository_EndAllForUser env q now u s =
     (case execWithAudit env q ''UPDATE'' ''sessions'' (update_sessions (active_of u) (ended now)) s of
        (Inl err, s') \<Rightarrow> (Some (SqlFailed err), s')
      | (Inr n, s') \<Rightarrow> (None, s'))"

definition session_matches :: "sql_env \<Rightarrow> SessionFilter \<Rightarrow> Session \<Rightarrow> bool" where
  "session_matches env f x \<longleftrightarrow>
     (case SF_UserID f of None \<Rightarrow> True | Some u \<Rightarrow> Session_UserID x = u)
     \<and> (SF_Type f \<noteq> [] \<longrightarrow> Session_Type x = SF_Type f)
     \<and> (case SF_Active f of None \<Rightarrow> True | Some b \<Rightarrow> (Session_EndedAt x = None) = b)
     \<and> (SF_ClientIP f \<noteq> [] \<longrightarrow> Session_ClientIP x = SF_ClientIP f)
     \<and> (SF_NodeID f \<noteq> [] \<longrightarrow> Session_NodeID x = SF_NodeID f)
     \<and> (case SF_After f of None \<Rightarrow> True | Some t \<Rightarrow> text_le (EV_fmt_time env t) (EV_fmt_time env (Session_StartedAt x)))
     \<and> (case SF_Before f of None \<Rightarrow> True | Some t \<Rightarrow> text_le (EV_fmt_time env (Session_StartedAt x)) (EV_fmt_time env t))"

definition SessionRepository_List :: "sql_env \<Rightarrow> stmt \<Rightarrow> SessionFilter \<Rightarrow> account_store \<Rightarrow> (repo_error + Session list) \<times> account_store" where
  "SessionRepository_List env q f s =
     (case queryWithAudit env q ''sessions''
             (\<lambda>db. page (SF_Limit f) (SF_Offset f) (newest_first env (filter (session_matches env f) (AD_sessions db)))) s of
        (r, s') \<Rightarrow> (listed r, s'))"

definition SessionRepository_Cleanup :: "sql_env \<Rightarrow> stmt \<Rightarrow> instant \<Rightarrow> account_store \<Rightarrow> (repo_error + int) \<times> account_store" where
  "SessionRepository_Cleanup env q before s =
     (case execWithAudit env q ''DELETE'' ''sessions''
             (delete_sessions (\<lambda>x. case Session_EndedAt x of None \<Rightarrow> False
                                  | Some t \<Rightarrow> \<not> text_le (EV_fmt_time env before) (EV_fmt_time env t))) s of
        (r, s') \<Rightarrow> (listed r, s'))"

section \<open>The constraints of the tables\<close>

text \<open>\<open>tells_users key us\<close>: two rows with the same key have the same identifier.\<close>

definition tells_users :: "(User \<Rightarrow> 'k option) \<Rightarrow> User list \<Rightarrow> bool" where
  "tells_users key us \<longleftrightarrow> (\<forall>x \<in> set us. \<forall>y \<in> set us. key x \<noteq> None \<and> key x = key y \<longrightarrow> User_ID x = User_ID y)"

definition email_key :: "User \<Rightarrow> string option" where
  "email_key u = (if User_Email u = [] then None else Some (User_Email u))"

definition accounts_ok :: "account_db \<Rightarrow> bool" where
  "accounts_ok db \<longleftrightarrow>
     distinct (map User_ID (AD_users db)) \<and> tells_users (Some \<circ> User_PublicKey) (AD_users db)
     \<and> tells_users (Some \<circ> User_PublicKeyFingerprint) (AD_users db) \<and> tells_users email_key (AD_users db)
     \<and> list_all user_checks (AD_users db)
     \<and> distinct (map Session_ID (AD_sessions db)) \<and> list_all session_checks (AD_sessions db)"

definition session_users_ok :: "account_db \<Rightarrow> bool" where
  "session_users_ok db \<longleftrightarrow> list_all (\<lambda>x. Session_UserID x \<in> set (map User_ID (AD_users db))) (AD_sessions db)"

lemma user_by_id:
  "accounts_ok db \<Longrightarrow> x \<in> set (AD_users db) \<Longrightarrow> y \<in> set (AD_users db) \<Longrightarrow> User_ID x = User_ID y \<Longrightarrow> x = y"
  by (auto simp: accounts_ok_def distinct_map inj_on_def)

lemma tells_users_snoc:
  "tells_users key us \<Longrightarrow> \<forall>x \<in> set us. key u = None \<or> key x \<noteq> key u \<Longrightarrow> tells_users key (us @ [u])"
  unfolding tells_users_def by (metis Un_iff empty_iff empty_set list.simps(15) set_append insert_iff)

lemma tells_users_map:
  assumes "tells_users key us" and "\<And>x. x \<in> set us \<Longrightarrow> User_ID (f x) = User_ID x"
    and "\<And>x y. x \<in> set us \<Longrightarrow> y \<in> set us \<Longrightarrow> key (f x) \<noteq> None \<Longrightarrow> key (f x) = key (f y)
          \<Longrightarrow> User_ID x = User_ID y \<or> key x \<noteq> None \<and> key x = key y"
  shows "tells_users key (map f us)"
  using assms by (simp add: tells_users_def) metis

lemma insert_user_ok:
  assumes "insert_user u fk db = Inr (n, db')"
  shows "accounts_ok db \<Longrightarrow> accounts_ok db'" and "session_users_ok db \<Longrightarrow> session_users_ok db'"
proof -
  have db': "db' = db\<lparr>AD_users := AD_users db @ [u]\<rparr>" and c: "user_checks u"
    and new: "\<forall>x \<in> set (AD_users db). User_ID u \<noteq> User_ID x \<and> User_PublicKey x \<noteq> User_PublicKey u
        \<and> User_PublicKeyFingerprint x \<noteq> User_PublicKeyFingerprint u \<and> (User_Email u = [] \<or> User_Email x \<noteq> User_Email u)"
    using assms by (auto simp: insert_user_def split: if_splits)
  show "accounts_ok db'" if "accounts_ok db"
    using that new c unfolding db' accounts_ok_def
    by (auto intro!: tells_users_snoc simp: email_key_def split: if_splits)
  show "session_users_ok db \<Longrightarrow> session_users_ok db'" by (auto simp: db' session_users_ok_def list_all_iff)
qed

lemma update_user_ok:
  assumes "update_user u fk db = Inr (n, db')"
  shows "accounts_ok db \<Longrightarrow> accounts_ok db'" and "session_users_ok db \<Longrightarrow> session_users_ok db'"
proof -
  let ?f = "\<lambda>x. if User_ID x = User_ID u then updated_user u x else x"
  have ids: "map User_ID (map ?f (AD_users db)) = map User_ID (AD_users db)"
    by (rule map_if_same) (simp add: updated_user_def)
  { assume ok: "accounts_ok db" and new: "db' = db\<lparr>AD_users := map ?f (AD_users db)\<rparr>"
      and c: "UserStatus_IsValid (User_Status u)" "UserRole_IsValid (User_Role u)"
      and free: "\<And>x. x \<in> set (AD_users db) \<Longrightarrow> User_ID x \<noteq> User_ID u \<Longrightarrow> User_Email u \<noteq> [] \<Longrightarrow> User_Email x \<noteq> User_Email u"
    have "tells_users (Some \<circ> User_PublicKey) (map ?f (AD_users db))" "tells_users (Some \<circ> User_PublicKeyFingerprint) (map ?f (AD_users db))"
      using ok by (auto simp: accounts_ok_def updated_user_def intro!: tells_users_map split: if_splits)
    moreover have "tells_users email_key (map ?f (AD_users db))"
      using ok free by (intro tells_users_map) (auto simp: accounts_ok_def updated_user_def email_key_def split: if_splits)
    moreover have "list_all user_checks (map ?f (AD_users db))"
      using ok c by (auto simp: accounts_ok_def list_all_iff user_checks_def updated_user_def)
    ultimately have "accounts_ok db'" using ok ids unfolding new accounts_ok_def by (simp del: map_map list.map_comp) }
  then show "accounts_ok db \<Longrightarrow> accounts_ok db'" using assms by (auto simp: update_user_def split: if_splits)
  show "session_users_ok db \<Longrightarrow> session_users_ok db'"
    using assms ids by (auto simp: update_user_def session_users_ok_def simp del: set_map map_map split: if_splits)
qed

lemma delete_user_ok:
  assumes "delete_user now i fk db = Inr (n, db')"
  shows "accounts_ok db \<Longrightarrow> accounts_ok db'" and "session_users_ok db \<Longrightarrow> session_users_ok db'"
proof -
  let ?f = "\<lambda>x. if User_ID x = i then x\<lparr>User_Status := UserStatusDeleted, User_UpdatedAt := now\<rparr> else x"
  have ids: "map User_ID (map ?f (AD_users db)) = map User_ID (AD_users db)" by simp
  have db': "db' = db \<or> db' = db\<lparr>AD_users := map ?f (AD_users db)\<rparr>" using assms by (auto simp: delete_user_def split: if_splits)
  { assume ok: "accounts_ok db"
    have "tells_users (Some \<circ> User_PublicKey) (map ?f (AD_users db))" "tells_users (Some \<circ> User_PublicKeyFingerprint) (map ?f (AD_users db))"
      "tells_users email_key (map ?f (AD_users db))"
      using ok by (auto simp: accounts_ok_def email_key_def intro!: tells_users_map split: if_splits)
    moreover have "list_all user_checks (map ?f (AD_users db))"
      using ok by (auto simp: accounts_ok_def list_all_iff user_checks_def UserStatus_IsValid_def)
    ultimately have "accounts_ok (db\<lparr>AD_users := map ?f (AD_users db)\<rparr>)" using ok ids unfolding accounts_ok_def by (simp del: map_map list.map_comp) }
  then show "accounts_ok db \<Longrightarrow> accounts_ok db'" using db' by auto
  show "session_users_ok db \<Longrightarrow> session_users_ok db'"
    using db' ids by (auto simp: session_users_ok_def simp del: set_map map_map)
qed

lemma insert_session_ok:
  assumes "insert_session x fk db = Inr (n, db')"
  shows "accounts_ok db \<Longrightarrow> accounts_ok db'" and "session_users_ok db \<Longrightarrow> fk \<Longrightarrow> session_users_ok db'"
  using assms by (auto simp: insert_session_def accounts_ok_def session_users_ok_def split: if_splits)

lemma update_sessions_ok:
  assumes "update_sessions P f fk db = Inr (n, db')"
    and "\<And>x. Session_ID (f x) = Session_ID x" "\<And>x. Session_Type (f x) = Session_Type x" "\<And>x. Session_UserID (f x) = Session_UserID x"
  shows "accounts_ok db \<Longrightarrow> accounts_ok db'" and "session_users_ok db \<Longrightarrow> session_users_ok db'"
proof -
  have db': "db' = db\<lparr>AD_sessions := map (\<lambda>x. if P x then f x else x) (AD_sessions db)\<rparr>" using assms(1) by (simp add: update_sessions_def)
  have ids: "map Session_ID (map (\<lambda>x. if P x then f x else x) (AD_sessions db)) = map Session_ID (AD_sessions db)"
    by (rule map_if_same) (rule assms(2))
  show "accounts_ok db'" if "accounts_ok db"
    using that ids assms(3) unfolding db' accounts_ok_def
    by (auto simp: list_all_iff session_checks_def simp del: map_map list.map_comp)
  show "session_users_ok db \<Longrightarrow> session_users_ok db'" using assms(4) by (auto simp: db' session_users_ok_def list_all_iff)
qed

lemma delete_sessions_ok:
  assumes "delete_sessions P fk db = Inr (n, db')"
  shows "accounts_ok db \<Longrightarrow> accounts_ok db'" and "session_users_ok db \<Longrightarrow> session_users_ok db'"
  using assms by (auto simp: delete_sessions_def accounts_ok_def session_users_ok_def list_all_iff distinct_map_filter)

lemma ended_simps [simp]:
  "Session_ID (ended now x) = Session_ID x" "Session_Type (ended now x) = Session_Type x" "Session_UserID (ended now x) = Session_UserID x"
  "Session_EndedAt (ended now x) = Some now"
  by (simp_all add: ended_def)

section \<open>Operations\<close>

text \<open>What each operation leaves in the tables.\<close>

lemma reads_keep_db [simp]:
  "SS_db (snd (UserRepository_Get env q i s)) = SS_db s"
  "SS_db (snd (UserRepository_GetByPublicKey env q k s)) = SS_db s"
  "SS_db (snd (UserRepository_List order_by env q f s)) = SS_db s"
  "SS_db (snd (SessionRepository_Get env q sid s)) = SS_db s"
  "SS_db (snd (SessionRepository_GetByUser env q i s)) = SS_db s"
  "SS_db (snd (SessionRepository_List env q sf s)) = SS_db s"
  by (simp_all add: UserRepository_Get_def UserRepository_GetByPublicKey_def UserRepository_List_def SessionRepository_Get_def
      SessionRepository_GetByUser_def SessionRepository_List_def case_prod_beta)

text \<open>
  An operation runs at most one changing statement: \<open>ran q run s s'\<close> holds when the tables of \<open>s'\<close> are
  those of \<open>s\<close> or what the statement makes of them.
\<close>

definition ran :: "stmt \<Rightarrow> (bool \<Rightarrow> account_db \<Rightarrow> sql_error + (int \<times> account_db)) \<Rightarrow> account_store \<Rightarrow> account_store \<Rightarrow> bool" where
  "ran q run s s' \<longleftrightarrow> SS_db s' = SS_db s \<or> SQ_ok q \<and> (\<exists>n. run (SQ_fk q) (SS_db s) = Inr (n, SS_db s'))"

lemma exec_ran: "execWithAudit env q action table run s = (r, s') \<Longrightarrow> ran q run s s'"
  using exec_result [of env q action table run s r s'] by (auto simp: ran_def split: sum.splits)

lemma exec_done:
  "execWithAudit env q action table run s = (Inr n, s') \<longleftrightarrow>
     SQ_ok q \<and> (\<exists>db. run (SQ_fk q) (SS_db s) = Inr (n, db) \<and> s' = log_statement env q action table n (s\<lparr>SS_db := db\<rparr>))"
  by (auto simp: execWithAudit_def split: sum.splits prod.splits if_splits)

lemma user_create_ran: "UserRepository_Create env q u s = (err, s') \<Longrightarrow> ran q (insert_user u) s s'"
  by (auto simp: UserRepository_Create_def ran_def split: option.splits prod.splits sum.splits dest!: exec_result)

lemma user_create_done:
  "UserRepository_Create env q u s = (None, s') \<Longrightarrow> \<exists>n. insert_user u (SQ_fk q) (SS_db s) = Inr (n, SS_db s')"
  by (auto simp: UserRepository_Create_def split: option.splits prod.splits sum.splits dest!: exec_result)

lemma user_update_ran:
  "UserRepository_Update env q now u s = (err, u', s') \<Longrightarrow>
     (u' = u \<or> u' = u\<lparr>User_UpdatedAt := now\<rparr>) \<and> ran q (update_user u') s s'"
  by (auto simp: UserRepository_Update_def Let_def ran_def split: option.splits prod.splits sum.splits dest!: exec_result)

lemma user_update_done:
  assumes "UserRepository_Update env q now u s = (None, u', s')"
  shows "u' = u\<lparr>User_UpdatedAt := now\<rparr> \<and> User_ID u \<in> set (map User_ID (AD_users (SS_db s)))
     \<and> (\<exists>n. update_user u' (SQ_fk q) (SS_db s) = Inr (n, SS_db s'))"
proof -
  obtain r where r: "execWithAudit env q ''UPDATE'' ''users'' (update_user u') s = (r, s')" and u': "u' = u\<lparr>User_UpdatedAt := now\<rparr>"
    and ok: "changed_or ErrUserNotFound r = None"
    using assms by (auto simp: UserRepository_Update_def Let_def split: option.splits prod.splits)
  then obtain n where n: "r = Inr n" "n \<noteq> 0" by (cases r) (auto simp: changed_or_def split: if_splits)
  then have "update_user u' (SQ_fk q) (SS_db s) = Inr (n, SS_db s')" using exec_result [OF r] by simp
  moreover from this n(2) have "User_ID u' \<in> set (map User_ID (AD_users (SS_db s)))"
    by (simp add: update_user_def split: if_splits)
  ultimately show ?thesis using u' by auto
qed

lemma user_delete_ran: "UserRepository_Delete env q now i s = (err, s') \<Longrightarrow> ran q (delete_user now i) s s'"
  by (auto simp: UserRepository_Delete_def split: prod.splits dest: exec_ran)

lemma session_create_ran: "SessionRepository_Create env q x s = (err, s') \<Longrightarrow> ran q (insert_session x) s s'"
  by (auto simp: SessionRepository_Create_def split: prod.splits sum.splits dest: exec_ran)

lemma session_create_done:
  "SessionRepository_Create env q x s = (None, s') \<Longrightarrow> \<exists>n. insert_session x (SQ_fk q) (SS_db s) = Inr (n, SS_db s')"
  by (auto simp: SessionRepository_Create_def split: prod.splits sum.splits dest!: exec_result)

definition rewritten :: "Session \<Rightarrow> Session \<Rightarrow> Session" where
  "rewritten x y = y\<lparr>Session_EndedAt := Session_EndedAt x, Session_LastActivityAt := Session_LastActivityAt x, Session_Metadata := Session_Metadata x\<rparr>"

lemma session_update_ran:
  "SessionRepository_Update env q x s = (err, s') \<Longrightarrow> ran q (update_sessions (\<lambda>y. Session_ID y = Session_ID x) (rewritten x)) s s'"
  by (auto simp: SessionRepository_Update_def rewritten_def [abs_def] split: prod.splits dest: exec_ran)

text \<open>Updates of the sessions have no constraint to violate.\<close>

definition with_sessions :: "account_db \<Rightarrow> (Session \<Rightarrow> bool) \<Rightarrow> (Session \<Rightarrow> Session) \<Rightarrow> account_db" where
  "with_sessions db P f = db\<lparr>AD_sessions := map (\<lambda>x. if P x then f x else x) (AD_sessions db)\<rparr>"

lemma exec_update_sessions:
  "SS_db (snd (execWithAudit env q action table (update_sessions P f) s)) = (if SQ_ok q then with_sessions (SS_db s) P f else SS_db s)"
  by (simp add: execWithAudit_def update_sessions_def with_sessions_def)

lemma end_db:
  "SS_db (snd (SessionRepository_End env q now i s)) =
     (if SQ_ok q then with_sessions (SS_db s) (\<lambda>x. Session_ID x = i \<and> Session_EndedAt x = None) (ended now) else SS_db s)"
  by (simp add: SessionRepository_End_def case_prod_beta exec_update_sessions)

lemma end_all_db:
  "SS_db (snd (SessionRepository_EndAllForUser env q now u s)) =
     (if SQ_ok q then with_sessions (SS_db s) (active_of u) (ended now) else SS_db s)"
  using exec_update_sessions [of env q "''UPDATE''" "''sessions''" "active_of u" "ended now" s]
  by (auto simp: SessionRepository_EndAllForUser_def split: prod.split sum.split)

lemma end_all_done: "fst (SessionRepository_EndAllForUser env q now u s) = None \<longleftrightarrow> SQ_ok q"
  by (auto simp: SessionRepository_EndAllForUser_def execWithAudit_def update_sessions_def)

lemma cleanup_ran:
  "SessionRepository_Cleanup env q before s = (r, s') \<Longrightarrow>
     ran q (delete_sessions (\<lambda>x. case Session_EndedAt x of None \<Rightarrow> False | Some t \<Rightarrow> \<not> text_le (EV_fmt_time env before) (EV_fmt_time env t))) s s'"
  by (auto simp: SessionRepository_Cleanup_def split: prod.splits dest: exec_ran)

lemma newest_first_set [simp]: "set (newest_first env xs) = set xs" "length (newest_first env xs) = length xs"
proof -
  have 1: "set (insert_desc key x ys) = insert x (set ys)" "length (insert_desc key x ys) = Suc (length ys)" for key :: "Session \<Rightarrow> string" and x ys
    by (induction ys) auto
  have "set (foldl (\<lambda>ys x. insert_desc key x ys) zs xs) = set zs \<union> set xs
      \<and> length (foldl (\<lambda>ys x. insert_desc key x ys) zs xs) = length zs + length xs" for key :: "Session \<Rightarrow> string" and zs
    by (induction xs arbitrary: zs) (auto simp: 1)
  then show "set (newest_first env xs) = set xs" "length (newest_first env xs) = length xs" by (simp_all add: newest_first_def)
qed

text \<open>The active sessions of a user after an update of the sessions.\<close>

lemma get_session_value:
  "SessionRepository_Get env q i s = (Inr x, s') \<Longrightarrow> x \<in> set (AD_sessions (SS_db s)) \<and> Session_ID x = i"
  by (auto simp: SessionRepository_Get_def queryWithAudit_def find_Some_iff2 split: sum.splits option.splits if_splits prod.splits
      dest!: sym [of "Some _"] simp: find_Some_iff)

lemma get_user_value:
  "UserRepository_Get env q i s = (Inr u, s') \<Longrightarrow> u \<in> set (AD_users (SS_db s)) \<and> User_ID u = i \<and> User_Status u \<noteq> UserStatusDeleted"
  "UserRepository_GetByPublicKey env q k s = (Inr u, s') \<Longrightarrow> u \<in> set (AD_users (SS_db s)) \<and> User_PublicKey u = k \<and> User_Status u \<noteq> UserStatusDeleted"
  by (auto simp: UserRepository_Get_def UserRepository_GetByPublicKey_def queryWithAudit_def select_user_def user_found_def
      find_Some_iff split: sum.splits option.splits if_splits prod.splits)

end
