(* ===== verification/Auth.thy ===== *)
theory Auth
  imports Account_Repo Grpc
begin

text \<open>
  Authentication (\<open>internal/auth\<close>): the challenge store, public keys and signatures, and the service
  that registers users, opens, refreshes and ends sessions over the user and session repositories.
  The cryptographic and SSH libraries are the record \<open>crypto\<close>; what the environment decides during
  one call (the answers of the engine, the readings of the clock, the random bytes) is the record
  \<open>world\<close>, in which the statements and readings of a call are numbered in the order of the code.

  Shown: the session limit, what a suspension revokes, when a session is handed out, the single use of a
  challenge, and the constraints of the tables through any run of the service.
\<close>

section \<open>Definitions\<close>

subsection \<open>Public keys\<close>

text \<open>
  An SSH public key as \<open>ParseSSHPublicKey\<close> tells them apart: a key that exposes its cryptographic key,
  or one that only has a type name and a wire form.
\<close>

datatype 'rsa ssh_key = CryptoEd25519 bytes | CryptoRSA 'rsa | CryptoOther | OpaqueKey string bytes

datatype 'rsa pkix_key = PkixRSA 'rsa | PkixOther

record 'rsa crypto =
  CR_sha256 :: "bytes \<Rightarrow> bytes"
  CR_md5 :: "bytes \<Rightarrow> bytes"
  CR_ed25519_Verify :: "bytes \<Rightarrow> bytes \<Rightarrow> bytes \<Rightarrow> bool"
  CR_VerifyPKCS1v15 :: "'rsa \<Rightarrow> bytes \<Rightarrow> bytes \<Rightarrow> bool"
  CR_MarshalPKIX :: "'rsa \<Rightarrow> bytes option"
  CR_ParsePKIX :: "bytes \<Rightarrow> 'rsa pkix_key option"
  CR_BitLen :: "'rsa \<Rightarrow> int"
  CR_ParseAuthorizedKey :: "bytes \<Rightarrow> 'rsa ssh_key option"
  CR_ParsePublicKey :: "bytes \<Rightarrow> 'rsa ssh_key option"
  CR_base64_Decode :: "bytes \<Rightarrow> bytes option"
  CR_ssh_signature_Blob :: "bytes \<Rightarrow> bytes option"
  CR_AuthorizedKey_ed25519 :: "bytes \<Rightarrow> bytes option"
  CR_AuthorizedKey_rsa :: "'rsa \<Rightarrow> bytes option"
  CR_TrimSpace :: "bytes \<Rightarrow> bytes"

text \<open>The bytes of a text.\<close>

definition text_bytes :: "string \<Rightarrow> bytes" where
  "text_bytes s = map of_char s"

datatype key_error = UnsupportedKey | MarshalFailed | ParseFailed | UnrecognizedFormat | WrongKeySize | NotRSA | BadSignature

definition ParseSSHPublicKey :: "'rsa crypto \<Rightarrow> 'rsa ssh_key \<Rightarrow> key_error + bytes \<times> string" where
  "ParseSSHPublicKey cr pubKey =
     (case pubKey of
        CryptoEd25519 k \<Rightarrow> Inr (k, KeyTypeEd25519)
      | CryptoRSA k \<Rightarrow> (case CR_MarshalPKIX cr k of None \<Rightarrow> Inl MarshalFailed | Some bs \<Rightarrow> Inr (bs, KeyTypeRSA))
      | CryptoOther \<Rightarrow> Inl UnsupportedKey
      | OpaqueKey t bs \<Rightarrow>
          if t = ''ssh-ed25519'' then
            (if ed25519_PublicKeySize < length bs then Inr (drop (length bs - ed25519_PublicKeySize) bs, KeyTypeEd25519)
             else Inr (bs, KeyTypeEd25519))
          else if t = ''ssh-rsa'' then Inr (bs, KeyTypeRSA)
          else Inl UnsupportedKey)"

definition ParseAuthorizedKey :: "'rsa crypto \<Rightarrow> bytes \<Rightarrow> key_error + bytes \<times> string" where
  "ParseAuthorizedKey cr keyData =
     (case CR_ParseAuthorizedKey cr keyData of None \<Rightarrow> Inl ParseFailed | Some k \<Rightarrow> ParseSSHPublicKey cr k)"

definition MarshalPublicKeyToAuthorizedKey :: "'rsa crypto \<Rightarrow> bytes \<Rightarrow> string \<Rightarrow> key_error + bytes" where
  "MarshalPublicKeyToAuthorizedKey cr pubKey keyType =
     (if keyType = KeyTypeEd25519 then
        (if length pubKey \<noteq> ed25519_PublicKeySize then Inl WrongKeySize
         else case CR_AuthorizedKey_ed25519 cr pubKey of None \<Rightarrow> Inl MarshalFailed | Some bs \<Rightarrow> Inr bs)
      else if keyType = KeyTypeRSA then
        (case CR_ParsePKIX cr pubKey of
           None \<Rightarrow> Inl ParseFailed
         | Some PkixOther \<Rightarrow> Inl NotRSA
         | Some (PkixRSA k) \<Rightarrow> (case CR_AuthorizedKey_rsa cr k of None \<Rightarrow> Inl MarshalFailed | Some bs \<Rightarrow> Inr bs))
      else Inl UnsupportedKey)"

definition ParsePublicKeyAuto :: "'rsa crypto \<Rightarrow> bytes \<Rightarrow> key_error + bytes \<times> string" where
  "ParsePublicKeyAuto cr keyData =
     (if prefix (text_bytes ''ssh-'') keyData \<or> prefix (text_bytes ''ecdsa-'') keyData then ParseAuthorizedKey cr keyData
      else if length keyData = ed25519_PublicKeySize then Inr (keyData, KeyTypeEd25519)
      else case CR_ParsePublicKey cr keyData of
             Some k \<Rightarrow> ParseSSHPublicKey cr k
           | None \<Rightarrow>
               (case Option.bind (CR_base64_Decode cr keyData) (CR_ParsePublicKey cr) of
                  Some k \<Rightarrow> ParseSSHPublicKey cr k
                | None \<Rightarrow> Inl UnrecognizedFormat))"

record PublicKeyInfo =
  PKI_KeyType :: string
  PKI_KeyBytes :: bytes
  PKI_FingerprintSHA256 :: string
  PKI_FingerprintMD5 :: string
  PKI_KeySize :: int
  PKI_OpenSSHFormat :: bytes

definition GetPublicKeyInfo :: "'rsa crypto \<Rightarrow> bytes \<Rightarrow> key_error + PublicKeyInfo" where
  "GetPublicKeyInfo cr keyData =
     (case ParsePublicKeyAuto cr keyData of
        Inl err \<Rightarrow> Inl err
      | Inr (keyBytes, keyType) \<Rightarrow>
          Inr \<lparr>PKI_KeyType = keyType, PKI_KeyBytes = keyBytes,
               PKI_FingerprintSHA256 = hex_EncodeToString (CR_sha256 cr keyBytes),
               PKI_FingerprintMD5 = hex_EncodeToString (CR_md5 cr keyBytes),
               PKI_KeySize = (if keyType = KeyTypeEd25519 then 256
                              else if keyType = KeyTypeRSA then
                                (case CR_ParsePKIX cr keyBytes of Some (PkixRSA k) \<Rightarrow> CR_BitLen cr k | _ \<Rightarrow> 0)
                              else 0),
               PKI_OpenSSHFormat = (case MarshalPublicKeyToAuthorizedKey cr keyBytes keyType of
                                      Inl err \<Rightarrow> [] | Inr bs \<Rightarrow> CR_TrimSpace cr bs)\<rparr>)"

definition VerifySignature :: "'rsa crypto \<Rightarrow> bytes \<Rightarrow> string \<Rightarrow> bytes \<Rightarrow> bytes \<Rightarrow> key_error option" where
  "VerifySignature cr keyBytes keyType message signature =
     (if keyType = KeyTypeEd25519 then
        (if length keyBytes \<noteq> ed25519_PublicKeySize then Some WrongKeySize
         else if \<not> CR_ed25519_Verify cr keyBytes message signature then Some BadSignature
         else None)
      else if keyType = KeyTypeRSA then
        (case CR_ParsePKIX cr keyBytes of
           None \<Rightarrow> Some ParseFailed
         | Some PkixOther \<Rightarrow> Some NotRSA
         | Some (PkixRSA k) \<Rightarrow> if CR_VerifyPKCS1v15 cr k (CR_sha256 cr message) signature then None else Some BadSignature)
      else Some UnsupportedKey)"

definition VerifySSHSignature :: "'rsa crypto \<Rightarrow> bytes \<Rightarrow> string \<Rightarrow> bytes \<Rightarrow> bytes \<Rightarrow> key_error option" where
  "VerifySSHSignature cr keyBytes keyType message signature =
     (if VerifySignature cr keyBytes keyType message signature = None then None
      else case CR_ssh_signature_Blob cr signature of
             None \<Rightarrow> VerifySignature cr keyBytes keyType message signature
           | Some blob \<Rightarrow> VerifySignature cr keyBytes keyType message blob)"

subsection \<open>Challenges\<close>

record Challenge =
  Challenge_ID :: string
  Challenge_PublicKey :: bytes
  Challenge_KeyType :: string
  Challenge_Nonce :: bytes
  Challenge_CreatedAt :: instant
  Challenge_ExpiresAt :: instant
  Challenge_SignatureAlgorithm :: string

definition Challenge_IsExpired :: "instant \<Rightarrow> Challenge \<Rightarrow> bool" where
  "Challenge_IsExpired now c \<longleftrightarrow> Challenge_ExpiresAt c < now"

record ChallengeStore =
  CS_challenges :: "(string \<times> Challenge) list"
  CS_ttl :: duration

definition NewChallengeStore :: "duration \<Rightarrow> ChallengeStore" where
  "NewChallengeStore ttl = \<lparr>CS_challenges = [], CS_ttl = (if ttl \<le> 0 then 30 * 1000000000 else ttl)\<rparr>"

text \<open>The two readings of random bytes may fail.\<close>

definition ChallengeStore_Create ::
    "bytes option \<Rightarrow> bytes option \<Rightarrow> instant \<Rightarrow> bytes \<Rightarrow> string \<Rightarrow> ChallengeStore \<Rightarrow> Challenge option \<times> ChallengeStore" where
  "ChallengeStore_Create idBytes nonce now publicKey keyType cs =
     (case (idBytes, nonce) of
        (Some ib, Some n) \<Rightarrow>
          (let i = hex_EncodeToString ib;
               c = \<lparr>Challenge_ID = i, Challenge_PublicKey = publicKey, Challenge_KeyType = keyType, Challenge_Nonce = n,
                    Challenge_CreatedAt = now, Challenge_ExpiresAt = now + CS_ttl cs,
                    Challenge_SignatureAlgorithm = (if keyType = ''rsa'' then ''rsa-sha2-256'' else ''ssh-ed25519'')\<rparr>
           in (Some c, cs\<lparr>CS_challenges := AList.update i c (CS_challenges cs)\<rparr>))
      | _ \<Rightarrow> (None, cs))"

definition ChallengeStore_Get :: "instant \<Rightarrow> string \<Rightarrow> ChallengeStore \<Rightarrow> Challenge option \<times> ChallengeStore" where
  "ChallengeStore_Get now i cs =
     (case map_of (CS_challenges cs) i of
        None \<Rightarrow> (None, cs)
      | Some c \<Rightarrow> (if Challenge_IsExpired now c then None else Some c, cs\<lparr>CS_challenges := AList.delete i (CS_challenges cs)\<rparr>))"

definition ChallengeStore_Peek :: "instant \<Rightarrow> string \<Rightarrow> ChallengeStore \<Rightarrow> Challenge option" where
  "ChallengeStore_Peek now i cs =
     (case map_of (CS_challenges cs) i of None \<Rightarrow> None | Some c \<Rightarrow> if Challenge_IsExpired now c then None else Some c)"

definition ChallengeStore_Delete :: "string \<Rightarrow> ChallengeStore \<Rightarrow> ChallengeStore" where
  "ChallengeStore_Delete i cs = cs\<lparr>CS_challenges := AList.delete i (CS_challenges cs)\<rparr>"

definition ChallengeStore_Count :: "ChallengeStore \<Rightarrow> int" where
  "ChallengeStore_Count cs = int (length (CS_challenges cs))"

definition ChallengeStore_cleanup :: "instant \<Rightarrow> ChallengeStore \<Rightarrow> ChallengeStore" where
  "ChallengeStore_cleanup now cs = cs\<lparr>CS_challenges := filter (\<lambda>(i, c). \<not> Challenge_ExpiresAt c < now) (CS_challenges cs)\<rparr>"

subsection \<open>The service\<close>

record AuthConfig =
  AC_AllowAutoRegistration :: bool
  AC_RequireEmail :: bool
  AC_DefaultRole :: string
  AC_SessionTimeout :: duration
  AC_MaxSessionsPerUser :: int

record AuthenticateRequest =
  AQ_PublicKey :: bytes
  AQ_KeyType :: string
  AQ_Name :: string
  AQ_Email :: string
  AQ_Locale :: string
  AQ_SessionType :: string
  AQ_ClientIP :: string
  AQ_ClientAgent :: string
  AQ_Metadata :: "string \<rightharpoonup> string"

record AuthenticateResult =
  AR_User :: User
  AR_Session :: Session
  AR_IsNew :: bool

record world =
  W_stmt :: "nat \<Rightarrow> stmt"
  W_now :: "nat \<Rightarrow> instant"
  W_random :: "nat \<Rightarrow> bytes option"

record auth_service =
  SV_env :: sql_env
  SV_sha256 :: "bytes \<Rightarrow> bytes"
  SV_cfg :: AuthConfig
  SV_nodeID :: string

datatype auth_error =
    AuthDomain domain_error | EmailRequired | LookupFailed repo_error | FirstUserFailed repo_error
  | CreateUserFailed repo_error | CreateSessionFailed repo_error | StoreFailed repo_error

text \<open>An error of a repository that the service returns as it is.\<close>

definition store_error :: "repo_error \<Rightarrow> auth_error" where
  "store_error e = (case e of Rejected d \<Rightarrow> AuthDomain d | _ \<Rightarrow> StoreFailed e)"

definition generateSessionID :: "bytes option \<Rightarrow> instant \<Rightarrow> string" where
  "generateSessionID b now = (case b of None \<Rightarrow> ''session-'' @ show_int now | Some bs \<Rightarrow> hex_EncodeToString bs)"

definition checkUserStatus :: "User \<Rightarrow> domain_error option" where
  "checkUserStatus user =
     (if User_Status user = UserStatusActive then None
      else if User_Status user = UserStatusPending then Some ErrUserPending
      else if User_Status user = UserStatusSuspended then Some ErrUserSuspended
      else if User_Status user = UserStatusDeleted then Some ErrUserNotFound
      else Some ErrUnauthorized)"

definition new_registration :: "auth_service \<Rightarrow> instant \<Rightarrow> AuthenticateRequest \<Rightarrow> bool \<Rightarrow> User" where
  "new_registration sv now req isFirstUser =
     (let user = NewUser (SV_sha256 sv) now (AQ_PublicKey req) (AQ_KeyType req) (AQ_Name req) (AQ_Email req) isFirstUser;
          role = AC_DefaultRole (SV_cfg sv);
          user = (if \<not> isFirstUser \<and> role \<noteq> [] \<and> UserRole_IsValid role then user\<lparr>User_Role := role\<rparr> else user)
      in if AQ_Locale req \<noteq> [] then user\<lparr>User_Locale := AQ_Locale req\<rparr> else user)"

definition register_user ::
    "auth_service \<Rightarrow> world \<Rightarrow> AuthenticateRequest \<Rightarrow> account_store \<Rightarrow> (auth_error + User) \<times> account_store" where
  "register_user sv w req s =
     (if \<not> AC_AllowAutoRegistration (SV_cfg sv) then (Inl (AuthDomain ErrAutoRegDisabled), s)
      else if AC_RequireEmail (SV_cfg sv) \<and> AQ_Email req = [] then (Inl EmailRequired, s)
      else case UserRepository_IsFirstUser (SQ_ok (W_stmt w 1)) s of
             Inl err \<Rightarrow> (Inl (FirstUserFailed err), s)
           | Inr isFirstUser \<Rightarrow>
               (let user = new_registration sv (W_now w 0) req isFirstUser
                in case UserRepository_Create (SV_env sv) (W_stmt w 2) user s of
                     (Some err, s') \<Rightarrow> (Inl (CreateUserFailed err), s')
                   | (None, s') \<Rightarrow> (Inr user, s')))"

definition lookup_or_register ::
    "auth_service \<Rightarrow> world \<Rightarrow> AuthenticateRequest \<Rightarrow> account_store \<Rightarrow> (auth_error + User \<times> bool) \<times> account_store" where
  "lookup_or_register sv w req s =
     (case UserRepository_GetByPublicKey (SV_env sv) (W_stmt w 0) (AQ_PublicKey req) s of
        (Inr user, s1) \<Rightarrow> (Inr (user, False), s1)
      | (Inl err, s1) \<Rightarrow>
          if err \<noteq> Rejected ErrUserNotFound then (Inl (LookupFailed err), s1)
          else (case register_user sv w req s1 of
                  (Inl e, s2) \<Rightarrow> (Inl e, s2)
                | (Inr user, s2) \<Rightarrow> (Inr (user, True), s2)))"

text \<open>The session limit: with as many sessions as the limit allows, the last one of the listing ends.\<close>

definition make_room :: "auth_service \<Rightarrow> world \<Rightarrow> UserID \<Rightarrow> account_store \<Rightarrow> account_store" where
  "make_room sv w userID s =
     (if 0 < AC_MaxSessionsPerUser (SV_cfg sv) then
        (case SessionRepository_GetByUser (SV_env sv) (W_stmt w 4) userID s of
           (Inl err, s1) \<Rightarrow> s1
         | (Inr active, s1) \<Rightarrow>
             if AC_MaxSessionsPerUser (SV_cfg sv) \<le> int (length active) \<and> active \<noteq> []
             then snd (SessionRepository_End (SV_env sv) (W_stmt w 5) (W_now w 3) (Session_ID (last active)) s1)
             else s1)
      else s)"

definition new_session :: "auth_service \<Rightarrow> world \<Rightarrow> AuthenticateRequest \<Rightarrow> User \<Rightarrow> instant \<Rightarrow> Session" where
  "new_session sv w req user now =
     \<lparr>Session_ID = generateSessionID (W_random w 0) (W_now w 4), Session_UserID = User_ID user, Session_Type = AQ_SessionType req,
      Session_ClientIP = AQ_ClientIP req, Session_ClientAgent = AQ_ClientAgent req,
      Session_PublicKeyFingerprint = User_PublicKeyFingerprint user, Session_NodeID = SV_nodeID sv,
      Session_StartedAt = now, Session_EndedAt = None, Session_LastActivityAt = now, Session_Metadata = AQ_Metadata req\<rparr>"

definition Authenticate ::
    "auth_service \<Rightarrow> world \<Rightarrow> AuthenticateRequest \<Rightarrow> account_store \<Rightarrow> (auth_error + AuthenticateResult) \<times> account_store" where
  "Authenticate sv w req s =
     (case lookup_or_register sv w req s of
        (Inl e, s2) \<Rightarrow> (Inl e, s2)
      | (Inr (user, isNew), s2) \<Rightarrow>
          (case checkUserStatus user of
             Some err \<Rightarrow> (Inl (AuthDomain err), s2)
           | None \<Rightarrow>
               (let now = W_now w 1
                in case UserRepository_Update (SV_env sv) (W_stmt w 3) (W_now w 2) (user\<lparr>User_LastLoginAt := Some now\<rparr>) s2 of
                     (err, user', s3) \<Rightarrow>
                       (let session = new_session sv w req user' now
                        in case SessionRepository_Create (SV_env sv) (W_stmt w 6) session (make_room sv w (User_ID user') s3) of
                             (Some err, s5) \<Rightarrow> (Inl (CreateSessionFailed err), s5)
                           | (None, s5) \<Rightarrow> (Inr \<lparr>AR_User = user', AR_Session = session, AR_IsNew = isNew\<rparr>, s5)))))"

definition EndSession :: "auth_service \<Rightarrow> world \<Rightarrow> string \<Rightarrow> account_store \<Rightarrow> auth_error option \<times> account_store" where
  "EndSession sv w i s =
     (case SessionRepository_End (SV_env sv) (W_stmt w 0) (W_now w 0) i s of (err, s') \<Rightarrow> (map_option store_error err, s'))"

definition EndAllSessions :: "auth_service \<Rightarrow> world \<Rightarrow> UserID \<Rightarrow> account_store \<Rightarrow> auth_error option \<times> account_store" where
  "EndAllSessions sv w u s =
     (case SessionRepository_EndAllForUser (SV_env sv) (W_stmt w 0) (W_now w 0) u s of (err, s') \<Rightarrow> (map_option store_error err, s'))"

definition ListUserSessions :: "auth_service \<Rightarrow> world \<Rightarrow> UserID \<Rightarrow> account_store \<Rightarrow> (auth_error + Session list) \<times> account_store" where
  "ListUserSessions sv w u s =
     (case SessionRepository_GetByUser (SV_env sv) (W_stmt w 0) u s of (r, s') \<Rightarrow> (map_sum store_error id r, s'))"

definition GetSession :: "auth_service \<Rightarrow> world \<Rightarrow> string \<Rightarrow> account_store \<Rightarrow> (auth_error + Session) \<times> account_store" where
  "GetSession sv w i s =
     (case SessionRepository_Get (SV_env sv) (W_stmt w 0) i s of
        (Inl err, s1) \<Rightarrow> (Inl (store_error err), s1)
      | (Inr session, s1) \<Rightarrow>
          if Session_EndedAt session \<noteq> None then (Inl (AuthDomain ErrSessionNotFound), s1)
          else if 0 < AC_SessionTimeout (SV_cfg sv)
                  \<and> AC_SessionTimeout (SV_cfg sv) < time_Sub (W_now w 0) (Session_LastActivityAt session)
            then (Inl (AuthDomain ErrSessionExpired), snd (SessionRepository_End (SV_env sv) (W_stmt w 1) (W_now w 1) i s1))
          else (Inr session, s1))"

definition UpdateSessionActivity :: "auth_service \<Rightarrow> world \<Rightarrow> string \<Rightarrow> account_store \<Rightarrow> auth_error option \<times> account_store" where
  "UpdateSessionActivity sv w i s =
     (case SessionRepository_Get (SV_env sv) (W_stmt w 0) i s of
        (Inl err, s1) \<Rightarrow> (Some (store_error err), s1)
      | (Inr session, s1) \<Rightarrow>
          (case SessionRepository_Update (SV_env sv) (W_stmt w 1) (session\<lparr>Session_LastActivityAt := W_now w 0\<rparr>) s1 of
             (err, s2) \<Rightarrow> (map_option store_error err, s2)))"

definition GetUser :: "auth_service \<Rightarrow> world \<Rightarrow> UserID \<Rightarrow> account_store \<Rightarrow> (auth_error + User) \<times> account_store" where
  "GetUser sv w u s = (case UserRepository_Get (SV_env sv) (W_stmt w 0) u s of (r, s') \<Rightarrow> (map_sum store_error id r, s'))"

definition GetUserByPublicKey :: "auth_service \<Rightarrow> world \<Rightarrow> bytes \<Rightarrow> account_store \<Rightarrow> (auth_error + User) \<times> account_store" where
  "GetUserByPublicKey sv w k s =
     (case UserRepository_GetByPublicKey (SV_env sv) (W_stmt w 0) k s of (r, s') \<Rightarrow> (map_sum store_error id r, s'))"

definition ListUsers ::
    "(string \<Rightarrow> bool \<Rightarrow> User list \<Rightarrow> User list option) \<Rightarrow> auth_service \<Rightarrow> world \<Rightarrow> UserFilter \<Rightarrow> account_store
       \<Rightarrow> (auth_error + User list) \<times> account_store" where
  "ListUsers order_by sv w f s =
     (case UserRepository_List order_by (SV_env sv) (W_stmt w 0) f s of (r, s') \<Rightarrow> (map_sum store_error id r, s'))"

definition UpdateUser :: "auth_service \<Rightarrow> world \<Rightarrow> User \<Rightarrow> account_store \<Rightarrow> auth_error option \<times> account_store" where
  "UpdateUser sv w u s =
     (case UserRepository_Update (SV_env sv) (W_stmt w 0) (W_now w 0) u s of (err, u', s') \<Rightarrow> (map_option store_error err, s'))"

text \<open>Reading a user, changing it and writing it back.\<close>

definition change_user ::
    "auth_service \<Rightarrow> world \<Rightarrow> UserID \<Rightarrow> (User \<Rightarrow> User) \<Rightarrow> account_store \<Rightarrow> auth_error option \<times> account_store" where
  "change_user sv w u f s =
     (case UserRepository_Get (SV_env sv) (W_stmt w 0) u s of
        (Inl err, s1) \<Rightarrow> (Some (store_error err), s1)
      | (Inr user, s1) \<Rightarrow>
          (case UserRepository_Update (SV_env sv) (W_stmt w 1) (W_now w 0) (f user) s1 of
             (err, user', s2) \<Rightarrow> (map_option store_error err, s2)))"

definition SuspendUser :: "auth_service \<Rightarrow> world \<Rightarrow> UserID \<Rightarrow> account_store \<Rightarrow> auth_error option \<times> account_store" where
  "SuspendUser sv w u s =
     (case change_user sv w u (\<lambda>x. x\<lparr>User_Status := UserStatusSuspended\<rparr>) s of
        (Some err, s2) \<Rightarrow> (Some err, s2)
      | (None, s2) \<Rightarrow>
          (case SessionRepository_EndAllForUser (SV_env sv) (W_stmt w 2) (W_now w 1) u s2 of
             (err, s3) \<Rightarrow> (map_option store_error err, s3)))"

definition ActivateUser :: "auth_service \<Rightarrow> world \<Rightarrow> UserID \<Rightarrow> account_store \<Rightarrow> auth_error option \<times> account_store" where
  "ActivateUser sv w u s = change_user sv w u (\<lambda>x. x\<lparr>User_Status := UserStatusActive\<rparr>) s"

definition DeleteUser :: "auth_service \<Rightarrow> world \<Rightarrow> UserID \<Rightarrow> account_store \<Rightarrow> auth_error option \<times> account_store" where
  "DeleteUser sv w u s =
     (case SessionRepository_EndAllForUser (SV_env sv) (W_stmt w 0) (W_now w 0) u s of
        (Some err, s1) \<Rightarrow> (Some (store_error err), s1)
      | (None, s1) \<Rightarrow>
          (case UserRepository_Delete (SV_env sv) (W_stmt w 1) (W_now w 1) u s1 of (err, s2) \<Rightarrow> (map_option store_error err, s2)))"

text \<open>The zero time of Go, which a new record has in its time fields.\<close>

definition CreateUser :: "auth_service \<Rightarrow> world \<Rightarrow> instant \<Rightarrow> User \<Rightarrow> account_store \<Rightarrow> auth_error option \<times> account_store" where
  "CreateUser sv w zero user s =
     (case UserRepository_IsFirstUser (SQ_ok (W_stmt w 0)) s of
        Inl err \<Rightarrow> (Some (FirstUserFailed err), s)
      | Inr isFirstUser \<Rightarrow>
          (let user = (if isFirstUser then user\<lparr>User_Role := UserRoleAdmin\<rparr> else user);
               user = (if User_ID user = [] then user\<lparr>User_ID := UserIDFromPublicKey (SV_sha256 sv) (User_PublicKey user)\<rparr> else user);
               user = (if User_PublicKeyFingerprint user = []
                       then user\<lparr>User_PublicKeyFingerprint := PublicKeyFingerprint (SV_sha256 sv) (User_PublicKey user)\<rparr> else user);
               user = (if User_Status user = [] then user\<lparr>User_Status := UserStatusActive\<rparr> else user);
               user = (if User_Role user = [] then user\<lparr>User_Role := UserRoleUser\<rparr> else user);
               now = W_now w 0;
               user = (if User_CreatedAt user = zero then user\<lparr>User_CreatedAt := now\<rparr> else user);
               user = user\<lparr>User_UpdatedAt := now\<rparr>
           in case UserRepository_Create (SV_env sv) (W_stmt w 1) user s of (err, s') \<Rightarrow> (map_option store_error err, s')))"

definition SetUserRole :: "auth_service \<Rightarrow> world \<Rightarrow> UserID \<Rightarrow> string \<Rightarrow> account_store \<Rightarrow> auth_error option \<times> account_store" where
  "SetUserRole sv w u role s =
     (if \<not> UserRole_IsValid role then (Some (AuthDomain ErrInvalidUserRole), s)
      else change_user sv w u (\<lambda>x. x\<lparr>User_Role := role\<rparr>) s)"

definition CleanupExpiredSessions :: "auth_service \<Rightarrow> world \<Rightarrow> account_store \<Rightarrow> (auth_error + int) \<times> account_store" where
  "CleanupExpiredSessions sv w s =
     (if AC_SessionTimeout (SV_cfg sv) = 0 then (Inr 0, s)
      else case SessionRepository_Cleanup (SV_env sv) (W_stmt w 0) (W_now w 0 + wrap64 (- AC_SessionTimeout (SV_cfg sv) * 2)) s of
             (r, s') \<Rightarrow> (map_sum store_error id r, s'))"

text \<open>The operations that change the tables, and a run of them.\<close>

datatype service_op =
    SAuthenticate AuthenticateRequest | SEndSession string | SEndAllSessions UserID | SGetSession string | SUpdateActivity string
  | SUpdateUser User | SSuspend UserID | SActivate UserID | SDelete UserID | SCreateUser instant User | SSetRole UserID string
  | SCleanup | SGetUser UserID | SListSessions UserID

fun service_apply :: "auth_service \<Rightarrow> world \<Rightarrow> service_op \<Rightarrow> account_store \<Rightarrow> account_store" where
  "service_apply sv w (SAuthenticate req) s = snd (Authenticate sv w req s)"
| "service_apply sv w (SEndSession i) s = snd (EndSession sv w i s)"
| "service_apply sv w (SEndAllSessions u) s = snd (EndAllSessions sv w u s)"
| "service_apply sv w (SGetSession i) s = snd (GetSession sv w i s)"
| "service_apply sv w (SUpdateActivity i) s = snd (UpdateSessionActivity sv w i s)"
| "service_apply sv w (SUpdateUser x) s = snd (UpdateUser sv w x s)"
| "service_apply sv w (SSuspend u) s = snd (SuspendUser sv w u s)"
| "service_apply sv w (SActivate u) s = snd (ActivateUser sv w u s)"
| "service_apply sv w (SDelete u) s = snd (DeleteUser sv w u s)"
| "service_apply sv w (SCreateUser z x) s = snd (CreateUser sv w z x s)"
| "service_apply sv w (SSetRole u r) s = snd (SetUserRole sv w u r s)"
| "service_apply sv w SCleanup s = snd (CleanupExpiredSessions sv w s)"
| "service_apply sv w (SGetUser u) s = snd (GetUser sv w u s)"
| "service_apply sv w (SListSessions u) s = snd (ListUserSessions sv w u s)"

definition service_run :: "auth_service \<Rightarrow> (world \<times> service_op) list \<Rightarrow> account_store \<Rightarrow> account_store" where
  "service_run sv ops s = foldl (\<lambda>s (w, op). service_apply sv w op s) s ops"

lemma service_run_Nil [simp]: "service_run sv [] s = s"
  by (simp add: service_run_def)

lemma service_run_snoc [simp]: "service_run sv (ops @ [(w, op)]) s = service_apply sv w op (service_run sv ops s)"
  by (simp add: service_run_def)

section \<open>Constraints\<close>

text \<open>
  A predicate on the tables that every statement of the repositories keeps, under a condition \<open>Q\<close> on
  the statement: the service keeps it as well.
\<close>

locale account_invariant =
  fixes P :: "account_db \<Rightarrow> bool" and Q :: "stmt \<Rightarrow> bool"
  assumes keeps_insert_user: "insert_user u fk db = Inr (n, db') \<Longrightarrow> P db \<Longrightarrow> P db'"
    and keeps_update_user: "update_user u fk db = Inr (n, db') \<Longrightarrow> P db \<Longrightarrow> P db'"
    and keeps_delete_user: "delete_user now i fk db = Inr (n, db') \<Longrightarrow> P db \<Longrightarrow> P db'"
    and keeps_insert_session: "insert_session x (SQ_fk q) db = Inr (n, db') \<Longrightarrow> Q q \<Longrightarrow> P db \<Longrightarrow> P db'"
    and keeps_update_sessions: "(\<And>x. Session_ID (f x) = Session_ID x \<and> Session_Type (f x) = Session_Type x \<and> Session_UserID (f x) = Session_UserID x)
          \<Longrightarrow> P db \<Longrightarrow> P (with_sessions db R f)"
    and keeps_delete_sessions: "delete_sessions R fk db = Inr (n, db') \<Longrightarrow> P db \<Longrightarrow> P db'"
begin

lemma ran_keeps: "ran q run s s' \<Longrightarrow> P (SS_db s) \<Longrightarrow> (\<And>n db'. run (SQ_fk q) (SS_db s) = Inr (n, db') \<Longrightarrow> P db') \<Longrightarrow> P (SS_db s')"
  by (auto simp: ran_def)

lemma create_user_keeps: "UserRepository_Create env q u s = (err, s') \<Longrightarrow> P (SS_db s) \<Longrightarrow> P (SS_db s')"
  by (blast dest: user_create_ran intro: ran_keeps keeps_insert_user)

lemma update_user_keeps: "UserRepository_Update env q now u s = (err, u', s') \<Longrightarrow> P (SS_db s) \<Longrightarrow> P (SS_db s')"
  by (blast dest: user_update_ran intro: ran_keeps keeps_update_user)

lemma delete_user_keeps: "UserRepository_Delete env q now i s = (err, s') \<Longrightarrow> P (SS_db s) \<Longrightarrow> P (SS_db s')"
  by (blast dest: user_delete_ran intro: ran_keeps keeps_delete_user)

lemma create_session_keeps: "SessionRepository_Create env q x s = (err, s') \<Longrightarrow> Q q \<Longrightarrow> P (SS_db s) \<Longrightarrow> P (SS_db s')"
  by (blast dest: session_create_ran intro: ran_keeps keeps_insert_session)

lemma end_keeps: "P (SS_db s) \<Longrightarrow> P (SS_db (snd (SessionRepository_End env q now i s)))"
  by (simp add: end_db keeps_update_sessions)

lemma end_all_keeps: "P (SS_db s) \<Longrightarrow> P (SS_db (snd (SessionRepository_EndAllForUser env q now u s)))"
  by (simp add: end_all_db keeps_update_sessions)

lemma update_session_keeps: "SessionRepository_Update env q x s = (err, s') \<Longrightarrow> P (SS_db s) \<Longrightarrow> P (SS_db s')"
  using keeps_update_sessions [of "rewritten x" "SS_db s" "\<lambda>y. Session_ID y = Session_ID x"]
  by (auto dest!: session_update_ran simp: ran_def update_sessions_def with_sessions_def rewritten_def)

lemma cleanup_keeps: "SessionRepository_Cleanup env q before s = (r, s') \<Longrightarrow> P (SS_db s) \<Longrightarrow> P (SS_db s')"
  by (blast dest: cleanup_ran intro: ran_keeps keeps_delete_sessions)

lemma read_keeps: "f s = (r, s') \<Longrightarrow> SS_db (snd (f s)) = SS_db s \<Longrightarrow> P (SS_db s) \<Longrightarrow> P (SS_db s')"
  by auto

lemma end_keeps': "SessionRepository_End env q now i s = (r, s') \<Longrightarrow> P (SS_db s) \<Longrightarrow> P (SS_db s')"
  using end_keeps [of s env q now i] by simp

lemma end_all_keeps': "SessionRepository_EndAllForUser env q now u s = (r, s') \<Longrightarrow> P (SS_db s) \<Longrightarrow> P (SS_db s')"
  using end_all_keeps [of s env q now u] by simp

lemmas reads_keep =
  read_keeps [where f = "UserRepository_Get env q i" for env q i, OF _ reads_keep_db(1)]
  read_keeps [where f = "UserRepository_GetByPublicKey env q i" for env q i, OF _ reads_keep_db(2)]
  read_keeps [where f = "SessionRepository_Get env q i" for env q i, OF _ reads_keep_db(4)]
  read_keeps [where f = "SessionRepository_GetByUser env q i" for env q i, OF _ reads_keep_db(5)]

lemmas keeps = create_user_keeps update_user_keeps delete_user_keeps create_session_keeps end_keeps' end_all_keeps' update_session_keeps
  cleanup_keeps reads_keep end_keeps

lemma make_room_keeps: "P (SS_db s) \<Longrightarrow> P (SS_db (make_room sv w u s))"
  by (auto simp: make_room_def split: prod.split sum.split dest: keeps intro: end_keeps)

lemma lookup_keeps: "lookup_or_register sv w req s = (r, s') \<Longrightarrow> P (SS_db s) \<Longrightarrow> P (SS_db s')"
  by (auto simp: lookup_or_register_def register_user_def Let_def split: prod.splits sum.splits if_splits option.splits dest: keeps)

lemma authenticate_keeps:
  assumes "Authenticate sv w req s = (r, s')" and "Q (W_stmt w 6)" and "P (SS_db s)"
  shows "P (SS_db s')"
proof -
  obtain x s2 where l: "lookup_or_register sv w req s = (x, s2)" by force
  then have "P (SS_db s2)" using assms(3) by (rule lookup_keeps)
  then show ?thesis using assms(1,2) l
    by (auto simp: Authenticate_def Let_def split: prod.splits sum.splits option.splits
        dest!: update_user_keeps create_session_keeps intro: make_room_keeps)
qed

lemma change_user_keeps: "change_user sv w u f s = (r, s') \<Longrightarrow> P (SS_db s) \<Longrightarrow> P (SS_db s')"
  by (auto simp: change_user_def split: prod.splits sum.splits dest: keeps)

lemma create_keeps: "CreateUser sv w z u s = (r, s') \<Longrightarrow> P (SS_db s) \<Longrightarrow> P (SS_db s')"
  unfolding CreateUser_def Let_def by (auto split: prod.splits sum.splits dest: keeps)

lemma service_keeps:
  assumes "\<And>i. Q (W_stmt w i)" and "P (SS_db s)"
  shows "P (SS_db (service_apply sv w op s))"
proof (cases op)
  case (SAuthenticate req)
  then show ?thesis using assms authenticate_keeps [of sv w req s] by (metis prod.collapse service_apply.simps(1))
next
  case (SSuspend u)
  then show ?thesis using assms(2)
    by (auto simp: SuspendUser_def split: prod.split option.split dest!: change_user_keeps dest: keeps)
next
  case (SActivate u)
  then show ?thesis using assms(2) change_user_keeps by (simp add: ActivateUser_def) (metis prod.collapse)
next
  case (SSetRole u r)
  then show ?thesis using assms(2) change_user_keeps by (simp add: SetUserRole_def) (metis prod.collapse)
next
  case (SCreateUser z x)
  then show ?thesis using assms(2) create_keeps by simp (metis prod.collapse)
qed (use assms(2) in \<open>auto simp: EndSession_def EndAllSessions_def GetSession_def UpdateSessionActivity_def UpdateUser_def DeleteUser_def
      CleanupExpiredSessions_def GetUser_def ListUserSessions_def split: prod.split sum.split option.split dest: keeps intro: end_keeps\<close>)

lemma run_keeps:
  "list_all (\<lambda>(w, op). \<forall>i. Q (W_stmt w i)) ops \<Longrightarrow> P (SS_db s) \<Longrightarrow> P (SS_db (service_run sv ops s))"
proof (induction ops rule: rev_induct)
  case (snoc x ops)
  then show ?case by (cases x) (auto intro: service_keeps)
qed simp

end

interpretation accounts: account_invariant accounts_ok "\<lambda>q. True"
proof (unfold_locales, goal_cases)
  case (5 f db R)
  then show ?case using update_sessions_ok(1) [of R f True db] by (simp add: update_sessions_def with_sessions_def)
qed (blast intro: insert_user_ok update_user_ok delete_user_ok insert_session_ok delete_sessions_ok)+

interpretation session_users: account_invariant session_users_ok SQ_fk
proof (unfold_locales, goal_cases)
  case (5 f db R)
  then show ?case using update_sessions_ok(2) [of R f True db] by (simp add: update_sessions_def with_sessions_def)
qed (blast intro: insert_user_ok update_user_ok delete_user_ok insert_session_ok delete_sessions_ok)+

end
