(* ===== verification/Auth_Sessions.thy ===== *)
theory Auth_Sessions
  imports Auth
begin

text \<open>
  What the authentication service guarantees about sessions: which operations make a session active, the limit
  on the sessions of a user, what a suspension revokes for good, and two ways in which refreshing a
  session goes around its end.
\<close>

section \<open>Active sessions\<close>

lemma statement_frames:
  "insert_user u fk db = Inr (n, db') \<Longrightarrow> AD_sessions db' = AD_sessions db"
  "update_user u fk db = Inr (n, db') \<Longrightarrow> AD_sessions db' = AD_sessions db"
  "delete_user now i fk db = Inr (n, db') \<Longrightarrow> AD_sessions db' = AD_sessions db"
  "insert_session x fk db = Inr (n, db') \<Longrightarrow> AD_users db' = AD_users db"
  "update_sessions R f fk db = Inr (n, db') \<Longrightarrow> db' = with_sessions db R f"
  "delete_sessions R fk db = Inr (n, db') \<Longrightarrow> db' = db\<lparr>AD_sessions := filter (\<lambda>x. \<not> R x) (AD_sessions db)\<rparr>"
  by (auto simp: insert_user_def update_user_def delete_user_def insert_session_def update_sessions_def with_sessions_def delete_sessions_def
      split: if_splits)

lemma with_sessions_users [simp]: "AD_users (with_sessions db R f) = AD_users db"
  by (simp add: with_sessions_def)

definition active_count :: "UserID \<Rightarrow> account_db \<Rightarrow> nat" where
  "active_count u db = length (filter (active_of u) (AD_sessions db))"

definition fewer :: "account_db \<Rightarrow> account_db \<Rightarrow> bool" where
  "fewer db db' \<longleftrightarrow> (\<forall>u. active_count u db' \<le> active_count u db)"

lemma fewer_trans [trans]: "fewer a b \<Longrightarrow> fewer b c \<Longrightarrow> fewer a c"
  unfolding fewer_def by (meson le_trans)

lemma fewer_same: "AD_sessions db' = AD_sessions db \<Longrightarrow> fewer db db'"
  by (simp add: fewer_def active_count_def)

lemma count_map_le:
  "(\<And>x. x \<in> set xs \<Longrightarrow> A (g x) \<Longrightarrow> A x) \<Longrightarrow> length (filter A (map g xs)) \<le> length (filter A xs)"
  by (induction xs) (auto intro: le_SucI)

lemma fewer_with_sessions:
  assumes "\<And>x. x \<in> set (AD_sessions db) \<Longrightarrow> R x \<Longrightarrow> Session_UserID (f x) = Session_UserID x \<and> (Session_EndedAt (f x) = None \<longrightarrow> Session_EndedAt x = None)"
  shows "fewer db (with_sessions db R f)"
proof -
  have "length (filter (active_of u) (map (\<lambda>x. if R x then f x else x) (AD_sessions db))) \<le> length (filter (active_of u) (AD_sessions db))" for u
    using assms by (intro count_map_le) (auto simp: active_of_def split: if_splits)
  then show ?thesis by (simp add: fewer_def active_count_def with_sessions_def)
qed

lemma fewer_end: "fewer (SS_db s) (SS_db (snd (SessionRepository_End env q now i s)))"
  by (auto simp: end_db fewer_same intro!: fewer_with_sessions)

lemma fewer_end_all: "fewer (SS_db s) (SS_db (snd (SessionRepository_EndAllForUser env q now u s)))"
  by (auto simp: end_all_db fewer_same intro!: fewer_with_sessions)

lemma users_keep_sessions:
  "UserRepository_Create env q u s = (err, s') \<Longrightarrow> AD_sessions (SS_db s') = AD_sessions (SS_db s)"
  "UserRepository_Update env q now u s = (err, u', s') \<Longrightarrow> AD_sessions (SS_db s') = AD_sessions (SS_db s)"
  "UserRepository_Delete env q now i s = (err, s') \<Longrightarrow> AD_sessions (SS_db s') = AD_sessions (SS_db s)"
  by (auto dest!: user_create_ran user_update_ran user_delete_ran statement_frames simp: ran_def)

lemma fewer_cleanup:
  assumes "SessionRepository_Cleanup env q before s = (r, s')"
  shows "fewer (SS_db s) (SS_db s')"
proof -
  have "length (filter A (filter B xs)) \<le> length (filter A xs)" for A B and xs :: "Session list"
    by (induction xs) (auto intro: le_SucI)
  then show ?thesis using cleanup_ran [OF assms] by (auto simp: ran_def fewer_def active_count_def dest!: statement_frames(6))
qed

lemma session_by_id:
  "accounts_ok db \<Longrightarrow> x \<in> set (AD_sessions db) \<Longrightarrow> y \<in> set (AD_sessions db) \<Longrightarrow> Session_ID x = Session_ID y \<Longrightarrow> x = y"
  by (auto simp: accounts_ok_def distinct_map inj_on_def)

text \<open>Writing a session back under its identifier keeps it ended when it was.\<close>

lemma fewer_rewrite:
  assumes "accounts_ok (SS_db s)" and "x \<in> set (AD_sessions (SS_db s))" and "Session_ID x' = Session_ID x" and "Session_EndedAt x' = Session_EndedAt x"
    and "SessionRepository_Update env q x' s = (err, s')"
  shows "fewer (SS_db s) (SS_db s')"
proof -
  have "fewer (SS_db s) (with_sessions (SS_db s) (\<lambda>y. Session_ID y = Session_ID x') (rewritten x'))"
    using assms(2-4) session_by_id [OF assms(1) _ assms(2)] by (intro fewer_with_sessions) (auto simp: rewritten_def)
  then show ?thesis using session_update_ran [OF assms(5)] by (auto simp: ran_def fewer_same dest!: statement_frames(5))
qed

text \<open>The users of the tables after an operation on sessions.\<close>

lemma sessions_keep_users [simp]:
  "AD_users (SS_db (snd (SessionRepository_End env q now i s))) = AD_users (SS_db s)"
  "AD_users (SS_db (snd (SessionRepository_EndAllForUser env q now u s))) = AD_users (SS_db s)"
  by (simp_all add: end_db end_all_db with_sessions_def)

lemma sessions_keep_users':
  "SessionRepository_Update env q x s = (err, s') \<Longrightarrow> AD_users (SS_db s') = AD_users (SS_db s)"
  "SessionRepository_Create env q x s = (err, s') \<Longrightarrow> AD_users (SS_db s') = AD_users (SS_db s)"
  "SessionRepository_Cleanup env q before s = (r, s') \<Longrightarrow> AD_users (SS_db s') = AD_users (SS_db s)"
  by (auto dest!: session_update_ran session_create_ran cleanup_ran statement_frames simp: ran_def)

lemma fst_snd_eq: "f = (a, b) \<Longrightarrow> snd f = b"
  by simp

lemma change_user_sessions: "change_user sv w u f s = (r, s') \<Longrightarrow> AD_sessions (SS_db s') = AD_sessions (SS_db s)"
proof -
  assume a: "change_user sv w u f s = (r, s')"
  obtain x s1 where g: "UserRepository_Get (SV_env sv) (W_stmt w 0) u s = (x, s1)" by force
  then have "SS_db s1 = SS_db s" using reads_keep_db(1) [of "SV_env sv" "W_stmt w 0" u s] by simp
  then show ?thesis using a g by (auto simp: change_user_def split: sum.splits prod.splits dest!: users_keep_sessions(2))
qed

lemma create_user_ran: "CreateUser sv w z x s = (e, s') \<Longrightarrow> \<exists>y. ran (W_stmt w 1) (insert_user y) s s'"
  unfolding CreateUser_def Let_def by (auto split: prod.splits sum.splits dest: user_create_ran) (simp add: ran_def)

lemma create_user_sessions: "AD_sessions (SS_db (snd (CreateUser sv w z x s))) = AD_sessions (SS_db s)"
  using create_user_ran [OF prod.collapse [symmetric], where sv = sv and w = w and z = z and x = x and s = s]
  by (auto simp: ran_def dest: statement_frames(1))

lemma service_fewer:
  assumes "accounts_ok (SS_db s)" and "\<And>req. op \<noteq> SAuthenticate req"
  shows "fewer (SS_db s) (SS_db (service_apply sv w op s))"
proof (cases op)
  case (SAuthenticate req)
  then show ?thesis using assms(2) by simp
next
  case (SEndSession i)
  then show ?thesis by (simp add: EndSession_def case_prod_beta fewer_end)
next
  case (SEndAllSessions u)
  then show ?thesis by (simp add: EndAllSessions_def case_prod_beta fewer_end_all)
next
  case (SGetSession i)
  obtain x s1 where g: "SessionRepository_Get (SV_env sv) (W_stmt w 0) i s = (x, s1)" by force
  then have "SS_db s1 = SS_db s" using reads_keep_db(4) [of "SV_env sv" "W_stmt w 0" i s] by simp
  then show ?thesis using SGetSession g fewer_end [of s1] by (auto simp: GetSession_def fewer_same split: sum.split)
next
  case (SUpdateActivity i)
  obtain x s1 where g: "SessionRepository_Get (SV_env sv) (W_stmt w 0) i s = (x, s1)" by force
  then have "SS_db s1 = SS_db s" using reads_keep_db(4) [of "SV_env sv" "W_stmt w 0" i s] by simp
  moreover have "fewer (SS_db s1) (SS_db s2)"
    if "x = Inr y" "SessionRepository_Update env q (y\<lparr>Session_LastActivityAt := t\<rparr>) s1 = (err, s2)" for y env q t err s2
    using get_session_value [of "SV_env sv" "W_stmt w 0" i s y s1] that g assms(1) calculation
    by (intro fewer_rewrite [OF _ _ _ _ that(2), of y]) simp_all
  ultimately show ?thesis using SUpdateActivity g
    by (auto simp: UpdateSessionActivity_def fewer_same split: sum.split prod.split)
next
  case (SSuspend u)
  have "fewer (SS_db s) (SS_db s2)" if "change_user sv w u f s = (r, s2)" for f r s2
    using change_user_sessions [OF that] by (rule fewer_same)
  moreover have "fewer (SS_db s2) (SS_db s3)" if "SessionRepository_EndAllForUser env q now u s2 = (r, s3)" for env q now r s2 s3
    using fewer_end_all [of s2 env q now u] that by simp
  ultimately show ?thesis using SSuspend by (simp add: SuspendUser_def split: prod.split option.split) (blast intro: fewer_trans)
next
  case (SDelete u)
  have "fewer (SS_db s) (SS_db s3)" if "SessionRepository_EndAllForUser env q now u s = (r, s3)" for env q now r s3
    using fewer_end_all [of s env q now u] that by simp
  then show ?thesis using SDelete
    by (simp add: DeleteUser_def split: prod.split option.split) (blast dest: users_keep_sessions(3) intro: fewer_trans fewer_same)
next
  case SCleanup
  then show ?thesis by (auto simp: CleanupExpiredSessions_def fewer_same split: prod.split dest: fewer_cleanup)
next
  case (SActivate u)
  then show ?thesis using change_user_sessions by (simp add: ActivateUser_def) (metis fewer_same prod.collapse)
next
  case (SSetRole u r)
  then show ?thesis using change_user_sessions by (simp add: SetUserRole_def fewer_same) (metis fewer_same prod.collapse)
next
  case (SCreateUser z x)
  then show ?thesis by (simp add: fewer_same create_user_sessions)
next
  case (SUpdateUser x)
  then show ?thesis by (auto simp: UpdateUser_def intro!: fewer_same dest: users_keep_sessions(2) split: prod.split)
qed (simp_all add: GetUser_def ListUserSessions_def case_prod_beta fewer_same)

subsection \<open>Logging in\<close>

lemma lookup_sessions: "lookup_or_register sv w req s = (r, s') \<Longrightarrow> AD_sessions (SS_db s') = AD_sessions (SS_db s)"
proof -
  assume a: "lookup_or_register sv w req s = (r, s')"
  obtain x s1 where g: "UserRepository_GetByPublicKey (SV_env sv) (W_stmt w 0) (AQ_PublicKey req) s = (x, s1)" by force
  then have "SS_db s1 = SS_db s" using reads_keep_db(2) [of "SV_env sv" "W_stmt w 0" "AQ_PublicKey req" s] by simp
  then show ?thesis using a g
    by (auto simp: lookup_or_register_def register_user_def Let_def split: sum.splits prod.splits if_splits option.splits dest!: users_keep_sessions(1))
qed

lemma lookup_user:
  assumes "lookup_or_register sv w req s = (Inr (user, new), s')"
  shows "user \<in> set (AD_users (SS_db s')) \<and> (user \<in> set (AD_users (SS_db s)) \<and> SS_db s' = SS_db s
     \<or> User_ID user \<notin> set (map User_ID (AD_users (SS_db s))) \<and> AD_users (SS_db s') = AD_users (SS_db s) @ [user])"
proof -
  obtain x s1 where g: "UserRepository_GetByPublicKey (SV_env sv) (W_stmt w 0) (AQ_PublicKey req) s = (x, s1)" by force
  have s1: "SS_db s1 = SS_db s" using g reads_keep_db(2) [of "SV_env sv" "W_stmt w 0" "AQ_PublicKey req" s] by simp
  have ins: "User_ID u \<notin> set (map User_ID (AD_users db)) \<and> AD_users db' = AD_users db @ [u]" if "insert_user u fk db = Inr (n, db')" for u fk db n db'
    using that by (auto simp: insert_user_def split: if_splits)
  show ?thesis
  proof (cases x)
    case (Inr u)
    then show ?thesis using assms g get_user_value(2) [of "SV_env sv" "W_stmt w 0" "AQ_PublicKey req" s u s1] s1
      by (auto simp: lookup_or_register_def)
  next
    case (Inl e)
    then obtain q where "UserRepository_Create (SV_env sv) q user s1 = (None, s')" using assms g
      by (auto simp: lookup_or_register_def register_user_def Let_def split: sum.splits prod.splits if_splits option.splits)
    then show ?thesis using user_create_done [of "SV_env sv" q user s1 s'] s1 ins [of user _ "SS_db s"] by auto
  qed
qed

lemma make_room_users [simp]: "AD_users (SS_db (make_room sv w u s)) = AD_users (SS_db s)"
proof -
  obtain x s1 where g: "SessionRepository_GetByUser (SV_env sv) (W_stmt w 4) u s = (x, s1)" by force
  then have "SS_db s1 = SS_db s" using reads_keep_db(5) [of "SV_env sv" "W_stmt w 4" u s] by simp
  then show ?thesis using g by (auto simp: make_room_def split: sum.split)
qed

lemma make_room_fewer: "fewer (SS_db s) (SS_db (make_room sv w u s))"
proof -
  obtain x s1 where g: "SessionRepository_GetByUser (SV_env sv) (W_stmt w 4) u s = (x, s1)" by force
  then have "SS_db s1 = SS_db s" using reads_keep_db(5) [of "SV_env sv" "W_stmt w 4" u s] by simp
  then show ?thesis using g fewer_end [of s1] by (auto simp: make_room_def fewer_same split: sum.split)
qed

lemma count_map_less:
  assumes "\<And>x. x \<in> set xs \<Longrightarrow> A (g x) \<Longrightarrow> A x" and "x0 \<in> set xs" and "A x0" and "\<not> A (g x0)"
  shows "length (filter A (map g xs)) < length (filter A xs)"
  using assms
proof (induction xs)
  case (Cons x xs)
  have le: "length (filter A (map g xs)) \<le> length (filter A xs)" by (rule count_map_le) (use Cons.prems(1) in auto)
  show ?case
  proof (cases "x0 \<in> set xs")
    case True
    then show ?thesis using Cons by auto
  next
    case False
    then show ?thesis using Cons.prems le by auto
  qed
qed simp

text \<open>When the listing and the update are answered, the user is left with less sessions than the limit.\<close>

lemma make_room_below:
  assumes "0 < AC_MaxSessionsPerUser (SV_cfg sv)" and "SQ_ok (W_stmt w 4)" and "SQ_ok (W_stmt w 5)"
    and "int (active_count u (SS_db s)) \<le> AC_MaxSessionsPerUser (SV_cfg sv)"
  shows "int (active_count u (SS_db (make_room sv w u s))) < AC_MaxSessionsPerUser (SV_cfg sv)"
proof -
  let ?active = "newest_first (SV_env sv) (filter (active_of u) (AD_sessions (SS_db s)))"
  obtain s1 where g: "SessionRepository_GetByUser (SV_env sv) (W_stmt w 4) u s = (Inr ?active, s1)" and s1: "SS_db s1 = SS_db s"
    using assms(2) by (auto simp: SessionRepository_GetByUser_def queryWithAudit_def listed_def)
  have len: "length ?active = active_count u (SS_db s)" by (simp add: active_count_def)
  show ?thesis
  proof (cases "AC_MaxSessionsPerUser (SV_cfg sv) \<le> int (active_count u (SS_db s))")
    case False
    then show ?thesis using g s1 assms(1) len by (simp add: make_room_def)
  next
    case True
    then have "0 < length ?active" using assms(1) len by linarith
    then have ne: "?active \<noteq> []" by (rule length_greater_0_conv [THEN iffD1])
    obtain x where x: "x = last ?active" "x \<in> set (AD_sessions (SS_db s))" "active_of u x" using last_in_set [OF ne] by simp
    let ?g = "\<lambda>y. if Session_ID y = Session_ID x \<and> Session_EndedAt y = None then ended (W_now w 3) y else y"
    have "SS_db (make_room sv w u s) = with_sessions (SS_db s) (\<lambda>y. Session_ID y = Session_ID x \<and> Session_EndedAt y = None) (ended (W_now w 3))"
    proof -
      have "make_room sv w u s = snd (SessionRepository_End (SV_env sv) (W_stmt w 5) (W_now w 3) (Session_ID x) s1)"
        using g assms(1) True len ne unfolding x(1) make_room_def by simp
      then show ?thesis using assms(3) s1 by (simp add: end_db)
    qed
    moreover have "length (filter (active_of u) (map ?g (AD_sessions (SS_db s)))) < length (filter (active_of u) (AD_sessions (SS_db s)))"
    proof (rule count_map_less [where ?x0.0 = x])
      show "x \<in> set (AD_sessions (SS_db s))" "active_of u x" using x by simp_all
      show "active_of u (?g y) \<Longrightarrow> active_of u y" for y by (simp add: active_of_def split: if_splits)
      show "\<not> active_of u (?g x)" using x(3) by (simp add: active_of_def)
    qed
    ultimately show ?thesis using assms(4) by (simp add: active_count_def with_sessions_def)
  qed
qed

lemma insert_session_count:
  "insert_session x fk db = Inr (n, db') \<Longrightarrow> Session_EndedAt x = None \<Longrightarrow>
     active_count u db' = active_count u db + (if u = Session_UserID x then 1 else 0)"
  by (auto simp: insert_session_def active_count_def active_of_def split: if_splits)

text \<open>Where a login ends: the user it found, and the statements on the sessions.\<close>

lemma authenticate_cases:
  assumes "Authenticate sv w req s = (r, s')"
  obtains (failed) e where "r = Inl e" "lookup_or_register sv w req s = (Inl e, s')"
  | (refused) user new err where "r = Inl (AuthDomain err)" "lookup_or_register sv w req s = (Inr (user, new), s')" "checkUserStatus user = Some err"
  | (opened) user new s2 e user' s3 err where "lookup_or_register sv w req s = (Inr (user, new), s2)" "User_Status user = UserStatusActive"
      "UserRepository_Update (SV_env sv) (W_stmt w 3) (W_now w 2) (user\<lparr>User_LastLoginAt := Some (W_now w 1)\<rparr>) s2 = (e, user', s3)"
      "User_ID user' = User_ID user"
      "SessionRepository_Create (SV_env sv) (W_stmt w 6) (new_session sv w req user' (W_now w 1)) (make_room sv w (User_ID user) s3) = (err, s')"
      "\<And>x. r = Inr x \<Longrightarrow> err = None \<and> AR_User x = user' \<and> AR_Session x = new_session sv w req user' (W_now w 1) \<and> AR_IsNew x = new"
proof -
  obtain x s2 where l: "lookup_or_register sv w req s = (x, s2)" by force
  show thesis
  proof (cases x)
    case (Inl e)
    then show thesis using failed assms l by (simp add: Authenticate_def)
  next
    case (Inr y)
    obtain user new where y: "y = (user, new)" by (cases y)
    show thesis
    proof (cases "checkUserStatus user")
      case (Some err)
      then show thesis using refused [of err user new] assms l Inr y by (auto simp: Authenticate_def)
    next
      case None
      obtain e user' s3 where u: "UserRepository_Update (SV_env sv) (W_stmt w 3) (W_now w 2) (user\<lparr>User_LastLoginAt := Some (W_now w 1)\<rparr>) s2 = (e, user', s3)"
        by (metis prod_cases3)
      have i: "User_ID user' = User_ID user" using user_update_ran [OF u] by auto
      obtain err s5 where c: "SessionRepository_Create (SV_env sv) (W_stmt w 6) (new_session sv w req user' (W_now w 1)) (make_room sv w (User_ID user') s3) = (err, s5)"
        by force
      have "s' = s5" "\<And>x. r = Inr x \<Longrightarrow> err = None \<and> AR_User x = user' \<and> AR_Session x = new_session sv w req user' (W_now w 1) \<and> AR_IsNew x = new"
        using assms l Inr y None u c unfolding Authenticate_def Let_def by (cases err; simp; fastforce)+
      moreover have "User_Status user = UserStatusActive" using None by (simp add: checkUserStatus_def split: if_splits)
      moreover have "lookup_or_register sv w req s = (Inr (user, new), s2)" using l Inr y by simp
      moreover have "SessionRepository_Create (SV_env sv) (W_stmt w 6) (new_session sv w req user' (W_now w 1)) (make_room sv w (User_ID user) s3) = (err, s5)"
        using c i by simp
      ultimately show thesis using opened [OF _ _ u i] by blast
    qed
  qed
qed

definition limit_ok :: "int \<Rightarrow> account_db \<Rightarrow> bool" where
  "limit_ok m db \<longleftrightarrow> (\<forall>u. int (active_count u db) \<le> m)"

lemma fewer_limit: "fewer db db' \<Longrightarrow> limit_ok m db \<Longrightarrow> limit_ok m db'"
  unfolding fewer_def limit_ok_def by (meson of_nat_le_iff order_trans)

lemma authenticate_limit:
  assumes m: "0 < AC_MaxSessionsPerUser (SV_cfg sv)" and "SQ_ok (W_stmt w 4)" and "SQ_ok (W_stmt w 5)"
    and lim: "limit_ok (AC_MaxSessionsPerUser (SV_cfg sv)) (SS_db s)" and a: "Authenticate sv w req s = (r, s')"
  shows "limit_ok (AC_MaxSessionsPerUser (SV_cfg sv)) (SS_db s')"
  using a
proof (cases rule: authenticate_cases)
  case (opened user new s2 e user' s3 err)
  let ?m = "AC_MaxSessionsPerUser (SV_cfg sv)" and ?s4 = "make_room sv w (User_ID user) s3"
  have "AD_sessions (SS_db s3) = AD_sessions (SS_db s)"
    using lookup_sessions [OF opened(1)] users_keep_sessions(2) [OF opened(3)] by simp
  then have "limit_ok ?m (SS_db s3)" using lim by (simp add: limit_ok_def active_count_def)
  moreover from this have "int (active_count (User_ID user) (SS_db ?s4)) < ?m"
    using assms(1-3) by (intro make_room_below) (simp_all add: limit_ok_def)
  moreover have "limit_ok ?m (SS_db ?s4)" using fewer_limit [OF make_room_fewer] calculation(1) by blast
  moreover have "active_count u (SS_db s') = active_count u (SS_db ?s4) + (if u = User_ID user then 1 else 0) \<or> SS_db s' = SS_db ?s4" for u
    using session_create_ran [OF opened(5)] insert_session_count [of "new_session sv w req user' (W_now w 1)" _ "SS_db ?s4" _ "SS_db s'" u] opened(4)
    by (auto simp: ran_def new_session_def)
  ultimately show ?thesis unfolding limit_ok_def
    by (smt (verit) add.right_neutral of_nat_1 of_nat_add)
qed (use lim lookup_sessions in \<open>auto simp: limit_ok_def active_count_def\<close>)

definition no_accounts :: account_db where
  "no_accounts = \<lparr>AD_users = [], AD_sessions = []\<rparr>"

lemma no_accounts_ok: "accounts_ok no_accounts" "session_users_ok no_accounts" "0 \<le> m \<Longrightarrow> limit_ok m no_accounts"
  by (simp_all add: no_accounts_def accounts_ok_def session_users_ok_def tells_users_def limit_ok_def active_count_def)

text \<open>
  C23. The session limit holds: with a limit \<open>n\<close> in the configuration, through any run of the service on
  new tables in which the engine answers the two statements that make room for a login, no user ever has
  more than \<open>n\<close> sessions that have not ended, whatever else fails and whatever the clocks read.
\<close>

theorem session_limit:
  fixes sv :: auth_service and nodeID :: string and ttl :: duration
  assumes "0 < AC_MaxSessionsPerUser (SV_cfg sv)" and "list_all (\<lambda>(w, op). SQ_ok (W_stmt w 4) \<and> SQ_ok (W_stmt w 5)) ops"
  shows "int (length (filter (active_of u) (AD_sessions (SS_db (service_run sv ops (open_store nodeID ttl no_accounts))))))
           \<le> AC_MaxSessionsPerUser (SV_cfg sv)"
proof -
  let ?s = "open_store nodeID ttl no_accounts"
  have "accounts_ok (SS_db (service_run sv ops ?s)) \<and> limit_ok (AC_MaxSessionsPerUser (SV_cfg sv)) (SS_db (service_run sv ops ?s))"
    using assms(2)
  proof (induction ops rule: rev_induct)
    case Nil
    then show ?case using assms(1) by (simp add: open_store_def no_accounts_ok)
  next
    case (snoc x ops)
    obtain w op where x: "x = (w, op)" by (cases x)
    let ?t = "service_run sv ops ?s"
    have ih: "accounts_ok (SS_db ?t)" "limit_ok (AC_MaxSessionsPerUser (SV_cfg sv)) (SS_db ?t)" using snoc by simp_all
    have "limit_ok (AC_MaxSessionsPerUser (SV_cfg sv)) (SS_db (service_apply sv w op ?t))"
    proof (cases "\<exists>req. op = SAuthenticate req")
      case True
      then obtain req where "op = SAuthenticate req" by blast
      then show ?thesis using authenticate_limit [OF assms(1) _ _ ih(2), of w req] snoc.prems x
        by (cases "Authenticate sv w req ?t") simp
    next
      case False
      then show ?thesis using fewer_limit [OF service_fewer ih(2)] ih(1) by blast
    qed
    then show ?case using x accounts.service_keeps ih(1) by simp
  qed
  then show ?thesis by (simp add: limit_ok_def active_count_def)
qed

section \<open>Suspension\<close>

definition locked :: "UserID \<Rightarrow> account_db \<Rightarrow> bool" where
  "locked u db \<longleftrightarrow> u \<in> set (map User_ID (AD_users db)) \<and> (\<forall>x \<in> set (AD_users db). User_ID x = u \<longrightarrow> User_Status x \<noteq> UserStatusActive)
     \<and> active_count u db = 0"

lemma locked_fewer: "locked u db \<Longrightarrow> AD_users db' = AD_users db \<Longrightarrow> fewer db db' \<Longrightarrow> locked u db'"
  unfolding locked_def fewer_def by (metis le_zero_eq)

lemma locked_insert_user:
  assumes "insert_user x fk db = Inr (n, db')" and "locked u db"
  shows "locked u db'"
proof -
  have "db' = db\<lparr>AD_users := AD_users db @ [x]\<rparr>" "\<forall>y \<in> set (AD_users db). User_ID y \<noteq> User_ID x"
    using assms(1) by (auto simp: insert_user_def split: if_splits)
  moreover from this(2) have "User_ID x \<noteq> u" using assms(2) by (auto simp: locked_def)
  ultimately show ?thesis using assms(2) by (simp add: locked_def active_count_def)
qed

lemma locked_map:
  assumes "locked u db" and "\<And>x. User_ID (g x) = User_ID x"
    and "\<And>x. User_ID x = u \<Longrightarrow> User_Status x \<noteq> UserStatusActive \<Longrightarrow> User_Status (g x) \<noteq> UserStatusActive"
  shows "locked u (db\<lparr>AD_users := map g (AD_users db)\<rparr>)"
  using assms by (simp add: locked_def active_count_def image_image)

lemma locked_update_user:
  assumes "update_user x fk db = Inr (n, db')" and "locked u db" and "User_ID x = u \<Longrightarrow> User_Status x \<noteq> UserStatusActive"
  shows "locked u db'"
proof -
  have "locked u (db\<lparr>AD_users := map (\<lambda>y. if User_ID y = User_ID x then updated_user x y else y) (AD_users db)\<rparr>)"
    using assms(2) by (rule locked_map) (use assms(3) in \<open>auto simp: updated_user_def\<close>)
  then show ?thesis using assms(1,2) by (auto simp: update_user_def split: if_splits)
qed

lemma locked_delete_user:
  assumes "delete_user now i fk db = Inr (n, db')" and "locked u db"
  shows "locked u db'"
proof -
  have "locked u (db\<lparr>AD_users := map (\<lambda>x. if User_ID x = i then x\<lparr>User_Status := UserStatusDeleted, User_UpdatedAt := now\<rparr> else x) (AD_users db)\<rparr>)"
    using assms(2) by (rule locked_map) auto
  then show ?thesis using assms by (auto simp: delete_user_def split: if_splits)
qed

lemma locked_change:
  assumes "locked u (SS_db s)" and "change_user sv w v f s = (r, s')"
    and "\<And>x. User_ID (f x) = User_ID x" and "\<And>x. v = u \<Longrightarrow> User_Status x \<noteq> UserStatusActive \<Longrightarrow> User_Status (f x) \<noteq> UserStatusActive"
  shows "locked u (SS_db s')"
proof -
  obtain g s1 where g: "UserRepository_Get (SV_env sv) (W_stmt w 0) v s = (g, s1)" by force
  then have s1: "SS_db s1 = SS_db s" using reads_keep_db(1) [of "SV_env sv" "W_stmt w 0" v s] by simp
  show ?thesis
  proof (cases g)
    case (Inl e)
    then show ?thesis using assms(1,2) g s1 by (auto simp: change_user_def)
  next
    case (Inr x)
    obtain e x' where u: "UserRepository_Update (SV_env sv) (W_stmt w 1) (W_now w 0) (f x) s1 = (e, x', s')"
      using assms(2) g Inr by (auto simp: change_user_def split: prod.splits)
    have x: "x \<in> set (AD_users (SS_db s))" "User_ID x = v" using get_user_value(1) g Inr by blast+
    have "User_ID x' = v" "User_Status x' = User_Status (f x)" using user_update_ran [OF u] assms(3) [of x] x(2) by auto
    then have "User_ID x' = u \<Longrightarrow> User_Status x' \<noteq> UserStatusActive" using x assms(1) assms(4) [of x] by (auto simp: locked_def)
    then show ?thesis using user_update_ran [OF u] assms(1) s1 by (auto simp: ran_def intro: locked_update_user)
  qed
qed

lemma authenticate_other_user:
  assumes "locked u (SS_db s)" and "lookup_or_register sv w req s = (Inr (user, new), s2)" and "User_Status user = UserStatusActive"
  shows "User_ID user \<noteq> u"
  using lookup_user [OF assms(2)] assms(1,3) by (auto simp: locked_def)

lemma locked_lookup: "lookup_or_register sv w req s = (r, s') \<Longrightarrow> locked u (SS_db s) \<Longrightarrow> locked u (SS_db s')"
proof -
  assume a: "lookup_or_register sv w req s = (r, s')" and l: "locked u (SS_db s)"
  obtain x s1 where g: "UserRepository_GetByPublicKey (SV_env sv) (W_stmt w 0) (AQ_PublicKey req) s = (x, s1)" by force
  then have s1: "SS_db s1 = SS_db s" using reads_keep_db(2) [of "SV_env sv" "W_stmt w 0" "AQ_PublicKey req" s] by simp
  have "locked u (SS_db s')" if "UserRepository_Create env q y s1 = (e, s')" for env q y e
    using user_create_ran [OF that] l s1 by (auto simp: ran_def intro: locked_insert_user)
  then show ?thesis using a g s1 l
    by (auto simp: lookup_or_register_def register_user_def Let_def split: sum.splits prod.splits if_splits option.splits)
qed

lemma locked_authenticate:
  assumes "locked u (SS_db s)" and "Authenticate sv w req s = (r, s')"
  shows "locked u (SS_db s') \<and> (\<forall>x. r = Inr x \<longrightarrow> User_ID (AR_User x) \<noteq> u \<and> Session_UserID (AR_Session x) \<noteq> u)"
  using assms(2)
proof (cases rule: authenticate_cases)
  case (opened user new s2 e user' s3 err)
  have ne: "User_ID user \<noteq> u" using authenticate_other_user [OF assms(1) opened(1,2)] .
  let ?s4 = "make_room sv w (User_ID user) s3"
  have "locked u (SS_db s3)"
    using user_update_ran [OF opened(3)] locked_lookup [OF opened(1) assms(1)] ne opened(4) by (auto simp: ran_def intro: locked_update_user)
  then have "locked u (SS_db ?s4)" by (rule locked_fewer) (simp_all add: make_room_fewer)
  moreover have "active_count u (SS_db s') = active_count u (SS_db ?s4)"
    using session_create_ran [OF opened(5)] insert_session_count [of "new_session sv w req user' (W_now w 1)" _ "SS_db ?s4" _ "SS_db s'" u] opened(4) ne
    by (auto simp: ran_def new_session_def)
  ultimately show ?thesis using sessions_keep_users'(2) [OF opened(5)] opened(4,6) ne by (auto simp: locked_def new_session_def)
qed (use locked_lookup assms(1) in \<open>auto\<close>)

definition unlocks :: "UserID \<Rightarrow> service_op \<Rightarrow> bool" where
  "unlocks u op \<longleftrightarrow> (case op of SActivate v \<Rightarrow> v = u | SUpdateUser x \<Rightarrow> User_ID x = u | _ \<Rightarrow> False)"

lemma locked_service:
  assumes ok: "accounts_ok (SS_db s)" and l: "locked u (SS_db s)" and "\<not> unlocks u op"
  shows "locked u (SS_db (service_apply sv w op s))"
proof -
  let ?s' = "service_apply sv w op s"
  have change: "locked u (SS_db (snd (change_user sv w v f s)))"
    if "\<And>x. User_ID (f x) = User_ID x" "\<And>x. v = u \<Longrightarrow> User_Status x \<noteq> UserStatusActive \<Longrightarrow> User_Status (f x) \<noteq> UserStatusActive" for v f
    using locked_change [OF l _ that, of sv w v] by (metis prod.collapse)
  have same: ?thesis if "AD_users (SS_db ?s') = AD_users (SS_db s)" "\<And>req. op \<noteq> SAuthenticate req"
    using locked_fewer [OF l that(1) service_fewer [OF ok that(2)]] .
  have get: "SS_db s1 = SS_db s" if "SessionRepository_Get env q i s = (r, s1)" for env q i r s1
    using reads_keep_db(4) [of env q i s] that by simp
  show ?thesis
  proof (cases op)
    case (SAuthenticate req)
    then show ?thesis using locked_authenticate [OF l] by (metis prod.collapse service_apply.simps(1))
  next
    case (SEndSession i)
    then show ?thesis by (intro same) (simp_all add: EndSession_def case_prod_beta)
  next
    case (SEndAllSessions v)
    then show ?thesis by (intro same) (simp_all add: EndAllSessions_def case_prod_beta)
  next
    case (SGetSession i)
    then show ?thesis by (intro same) (auto simp: GetSession_def split: prod.split sum.split dest!: get)
  next
    case (SUpdateActivity i)
    then show ?thesis by (intro same) (auto simp: UpdateSessionActivity_def split: prod.split sum.split dest!: get sessions_keep_users'(1))
  next
    case (SUpdateUser x)
    then have "User_ID x \<noteq> u" using assms(3) by (simp add: unlocks_def)
    then have "locked u (SS_db s1)" if "UserRepository_Update env q now x s = (e, x', s1)" for env q now e x' s1
      using user_update_ran [OF that] l locked_update_user [of x' "SQ_fk q" "SS_db s" _ "SS_db s1" u] by (auto simp: ran_def)
    then show ?thesis using SUpdateUser by (simp add: UpdateUser_def split: prod.split)
  next
    case (SSuspend v)
    obtain e s2 where c: "change_user sv w v (\<lambda>x. x\<lparr>User_Status := UserStatusSuspended\<rparr>) s = (e, s2)" by force
    then have l2: "locked u (SS_db s2)" using change [of "\<lambda>x. x\<lparr>User_Status := UserStatusSuspended\<rparr>" v] by simp
    have "locked u (SS_db (snd (SessionRepository_EndAllForUser env q now v s2)))" for env q now
      using locked_fewer [OF l2 _ fewer_end_all] by simp
    then show ?thesis using SSuspend c l2 by (simp add: SuspendUser_def case_prod_beta split: option.split)
  next
    case (SDelete v)
    have "locked u (SS_db (snd (SessionRepository_EndAllForUser env q now v s)))" for env q now
      using locked_fewer [OF l _ fewer_end_all] by simp
    then have "locked u (SS_db s1)" if "SessionRepository_EndAllForUser env q now v s = (r, s1)" for env q now r s1
      using that by (metis snd_conv)
    moreover have "locked u (SS_db s2)" if "UserRepository_Delete env q now v s1 = (e, s2)" "locked u (SS_db s1)" for env q now e s1 s2
      using user_delete_ran [OF that(1)] that(2) by (auto simp: ran_def intro: locked_delete_user)
    ultimately show ?thesis using SDelete by (simp add: DeleteUser_def split: prod.split option.split)
  next
    case (SCreateUser z x)
    obtain y where "ran (W_stmt w 1) (insert_user y) s ?s'"
      using create_user_ran [of sv w z x s "fst (CreateUser sv w z x s)" ?s'] SCreateUser by auto
    then show ?thesis using l by (auto simp: ran_def intro: locked_insert_user)
  next
    case SCleanup
    then show ?thesis by (intro same) (auto simp: CleanupExpiredSessions_def split: prod.split dest: sessions_keep_users'(3))
  next
    case (SActivate v)
    then show ?thesis using change [of "\<lambda>x. x\<lparr>User_Status := UserStatusActive\<rparr>" v] assms(3) by (simp add: ActivateUser_def unlocks_def)
  next
    case (SSetRole v r)
    then show ?thesis using change [of "\<lambda>x. x\<lparr>User_Role := r\<rparr>" v] l by (simp add: SetUserRole_def)
  qed (intro same; simp add: GetUser_def ListUserSessions_def case_prod_beta)+
qed

lemma suspend_locks:
  assumes "accounts_ok (SS_db s)" and "SuspendUser sv w u s = (None, s')"
  shows "locked u (SS_db s')"
proof -
  let ?f = "\<lambda>x. x\<lparr>User_Status := UserStatusSuspended\<rparr>"
  obtain s2 r where c: "change_user sv w u ?f s = (None, s2)" and e: "SessionRepository_EndAllForUser (SV_env sv) (W_stmt w 2) (W_now w 1) u s2 = (r, s')"
    and r: "r = None"
    using assms(2) by (auto simp: SuspendUser_def split: prod.splits option.splits)
  have s': "SS_db s' = with_sessions (SS_db s2) (active_of u) (ended (W_now w 1))"
    using end_all_done [of "SV_env sv" "W_stmt w 2" "W_now w 1" u s2] end_all_db [of "SV_env sv" "W_stmt w 2" "W_now w 1" u s2] e r by simp
  obtain x s1 x' where g: "UserRepository_Get (SV_env sv) (W_stmt w 0) u s = (Inr x, s1)" and
    up: "UserRepository_Update (SV_env sv) (W_stmt w 1) (W_now w 0) (?f x) s1 = (None, x', s2)"
    using c by (auto simp: change_user_def split: prod.splits sum.splits)
  have s1: "SS_db s1 = SS_db s" using g reads_keep_db(1) [of "SV_env sv" "W_stmt w 0" u s] by simp
  have x: "User_ID x = u" using get_user_value(1) [OF g] by simp
  obtain n where x': "User_ID x' = u" "User_Status x' = UserStatusSuspended" "u \<in> set (map User_ID (AD_users (SS_db s)))"
    and n: "update_user x' (SQ_fk (W_stmt w 1)) (SS_db s) = Inr (n, SS_db s2)"
    using user_update_done [OF up] s1 x by auto
  have s2: "AD_users (SS_db s2) = map (\<lambda>y. if User_ID y = User_ID x' then updated_user x' y else y) (AD_users (SS_db s))"
    using n x'(1,3) by (auto simp: update_user_def simp del: set_map split: if_splits dest!: arg_cong [where f = AD_users])
  have ids: "map User_ID (AD_users (SS_db s2)) = map User_ID (AD_users (SS_db s))"
    unfolding s2 by (rule map_if_same) (simp add: updated_user_def)
  have "User_Status y \<noteq> UserStatusActive" if "y \<in> set (AD_users (SS_db s2))" "User_ID y = u" for y
    using that x' by (auto simp: s2 updated_user_def split: if_splits)
  moreover have "active_count u (SS_db s') = 0"
    by (auto simp: s' active_count_def with_sessions_def filter_empty_conv active_of_def split: if_splits)
  ultimately show ?thesis using ids x'(3) by (simp add: locked_def s' del: set_map)
qed

lemma service_run_Cons: "service_run sv ((w, op) # ops) s = service_run sv ops (service_apply sv w op s)"
  by (simp add: service_run_def)

text \<open>
  C24. A suspension holds: once \<open>SuspendUser\<close> has succeeded, then through any further run of the service
  that neither activates the user nor updates the user's record, with statements failing and clocks reading
  whatever they do, no login returns the user or a session of the user, \<open>GetSession\<close> returns none of the
  user's sessions, and the user has no session that has not ended.
\<close>

theorem suspension_locks_out:
  assumes "accounts_ok (SS_db s)" and "SuspendUser sv w u s = (None, s1)" and "list_all (\<lambda>(w, op). \<not> unlocks u op) ops"
  shows "(\<forall>w' req r. fst (Authenticate sv w' req (service_run sv ops s1)) = Inr r \<longrightarrow> User_ID (AR_User r) \<noteq> u \<and> Session_UserID (AR_Session r) \<noteq> u)
    \<and> (\<forall>w' i x. fst (GetSession sv w' i (service_run sv ops s1)) = Inr x \<longrightarrow> Session_UserID x \<noteq> u)
    \<and> filter (active_of u) (AD_sessions (SS_db (service_run sv ops s1))) = []"
proof -
  have s1: "accounts_ok (SS_db s1)" using accounts.service_keeps [where w = w and s = s and sv = sv and op = "SSuspend u"] assms(1,2) by simp
  have l: "accounts_ok (SS_db (service_run sv ops s1)) \<and> locked u (SS_db (service_run sv ops s1))" using assms(3)
  proof (induction ops rule: rev_induct)
    case Nil
    then show ?case using s1 suspend_locks [OF assms(1,2)] by simp
  next
    case (snoc x ops)
    then show ?case by (cases x) (auto intro: accounts.service_keeps locked_service)
  qed
  let ?t = "service_run sv ops s1"
  have "Session_UserID x \<noteq> u" if got: "fst (GetSession sv w' i ?t) = Inr x" for w' i x
  proof -
    obtain t1 where "SessionRepository_Get (SV_env sv) (W_stmt w' 0) i ?t = (Inr x, t1)" "Session_EndedAt x = None"
      using got by (auto simp: GetSession_def split: prod.splits sum.splits if_splits)
    then show ?thesis using get_session_value [of "SV_env sv" "W_stmt w' 0" i ?t x] l
      by (auto simp: locked_def active_count_def filter_empty_conv active_of_def)
  qed
  moreover have "User_ID (AR_User r) \<noteq> u \<and> Session_UserID (AR_Session r) \<noteq> u" if "fst (Authenticate sv w' req ?t) = Inr r" for w' req r
    using locked_authenticate [of u ?t sv w' req] that l by (metis prod.collapse)
  ultimately show ?thesis using l by (simp add: locked_def active_count_def)
qed

section \<open>Refreshing\<close>

lemma get_session_found:
  assumes "accounts_ok (SS_db s)" and "x \<in> set (AD_sessions (SS_db s))" and "SQ_ok q"
  shows "fst (SessionRepository_Get env q (Session_ID x) s) = Inr x"
proof -
  have "find (\<lambda>y. Session_ID y = Session_ID x) (AD_sessions (SS_db s)) = Some x"
    using assms(2) session_by_id [OF assms(1) _ assms(2)]
  proof (cases "find (\<lambda>y. Session_ID y = Session_ID x) (AD_sessions (SS_db s))")
    case (Some y)
    then show ?thesis using session_by_id [OF assms(1) _ assms(2), of y] by (auto simp: find_Some_iff)
  qed (auto simp: find_None_iff)
  then show ?thesis using assms(3) by (simp add: SessionRepository_Get_def queryWithAudit_def)
qed

lemma get_session_fresh:
  assumes "accounts_ok (SS_db s)" and "x \<in> set (AD_sessions (SS_db s))" and "SQ_ok (W_stmt w 0)" and "Session_EndedAt x = None"
  shows "fst (GetSession sv w (Session_ID x) s) =
     (if 0 < AC_SessionTimeout (SV_cfg sv) \<and> AC_SessionTimeout (SV_cfg sv) < time_Sub (W_now w 0) (Session_LastActivityAt x)
      then Inl (AuthDomain ErrSessionExpired) else Inr x)"
  using get_session_found [OF assms(1,2,3), of "SV_env sv"] assms(4)
  by (auto simp: GetSession_def split: prod.split sum.split)

text \<open>Writing a session back leaves it in the tables as it was written.\<close>

lemma update_session_row:
  assumes "y \<in> set (AD_sessions (SS_db s))" and "Session_ID x = Session_ID y" and "SQ_ok q"
  shows "rewritten x y \<in> set (AD_sessions (SS_db (snd (SessionRepository_Update env q x s))))"
  using assms exec_update_sessions [of env q "''UPDATE''" "''sessions''" "\<lambda>z. Session_ID z = Session_ID x" "rewritten x" s]
  by (auto simp: SessionRepository_Update_def rewritten_def [abs_def] case_prod_beta with_sessions_def)

text \<open>
  A refresh revives an expired session: for a session that has not ended but has been idle for longer
  than the timeout, \<open>GetSession\<close> answers that it has expired, but \<open>UpdateSessionActivity\<close> at the same moment
  succeeds and makes it valid again until the timeout has passed once more.
\<close>

theorem refresh_revives_expired_session:
  assumes ok: "accounts_ok (SS_db s)" and x: "x \<in> set (AD_sessions (SS_db s))" "Session_EndedAt x = None"
    and idle: "0 < AC_SessionTimeout (SV_cfg sv)" "AC_SessionTimeout (SV_cfg sv) < time_Sub (W_now w 0) (Session_LastActivityAt x)"
    and q: "SQ_ok (W_stmt w 0)" "SQ_ok (W_stmt w 1)" "SQ_ok (W_stmt w' 0)"
    and later: "time_Sub (W_now w' 0) (W_now w 0) \<le> AC_SessionTimeout (SV_cfg sv)"
    and up: "UpdateSessionActivity sv w (Session_ID x) s = (err, s')"
  shows "fst (GetSession sv w (Session_ID x) s) = Inl (AuthDomain ErrSessionExpired) \<and> err = None
    \<and> fst (GetSession sv w' (Session_ID x) s') = Inr (x\<lparr>Session_LastActivityAt := W_now w 0\<rparr>)"
proof -
  let ?x = "x\<lparr>Session_LastActivityAt := W_now w 0\<rparr>"
  obtain s1 where g: "SessionRepository_Get (SV_env sv) (W_stmt w 0) (Session_ID x) s = (Inr x, s1)"
    using get_session_found [OF ok x(1) q(1), of "SV_env sv"] by (metis prod.collapse)
  have s1: "SS_db s1 = SS_db s" using g reads_keep_db(4) [of "SV_env sv" "W_stmt w 0" "Session_ID x" s] by simp
  have s': "s' = snd (SessionRepository_Update (SV_env sv) (W_stmt w 1) ?x s1)"
    and err: "err = map_option store_error (fst (SessionRepository_Update (SV_env sv) (W_stmt w 1) ?x s1))"
    using up g by (auto simp: UpdateSessionActivity_def split: prod.splits)
  have "rewritten ?x x \<in> set (AD_sessions (SS_db s'))" unfolding s' by (rule update_session_row) (use x(1) s1 q(2) in simp_all)
  moreover have "rewritten ?x x = ?x" by (simp add: rewritten_def)
  moreover have "accounts_ok (SS_db s')" using accounts.service_keeps [where w = w and s = s and sv = sv and op = "SUpdateActivity (Session_ID x)"] ok up by simp
  ultimately have "fst (GetSession sv w' (Session_ID ?x) s') = Inr ?x"
    using get_session_fresh [of s' ?x w' sv] x(2) q(3) later by simp
  moreover have "err = None"
  proof -
    have "filter (\<lambda>y. Session_ID y = Session_ID x) (AD_sessions (SS_db s1)) \<noteq> []" using x(1) s1 by (auto simp: filter_empty_conv)
    then show ?thesis using q(2) unfolding err
      by (simp add: SessionRepository_Update_def execWithAudit_def update_sessions_def changed_or_def case_prod_beta)
  qed
  ultimately show ?thesis using get_session_fresh [OF ok x(1) q(1) x(2), of sv] idle by simp
qed

text \<open>
  A refresh that overlaps a suspension undoes it for its session: \<open>UpdateSessionActivity\<close> reads the
  session and writes all of it back, and when the user is suspended in between, the write clears the end
  of the session that the suspension had set. The session of the suspended user is valid again.
\<close>

theorem refresh_undoes_suspension:
  assumes ok: "accounts_ok (SS_db s)" and x: "x \<in> set (AD_sessions (SS_db s))" "active_of u x"
    and read: "SessionRepository_Get env q (Session_ID x) s = (Inr x, s1)"
    and suspend: "SuspendUser sv w u s1 = (None, s2)"
    and wr: "SessionRepository_Update env q' (x\<lparr>Session_LastActivityAt := now\<rparr>) s2 = (err, s3)" "SQ_ok q'"
    and "SQ_ok (W_stmt w' 0)" and "time_Sub (W_now w' 0) now \<le> AC_SessionTimeout (SV_cfg sv)"
  shows "\<exists>y. fst (GetSession sv w' (Session_ID x) s3) = Inr y \<and> Session_UserID y = u
    \<and> (\<forall>z \<in> set (AD_users (SS_db s3)). User_ID z = u \<longrightarrow> User_Status z \<noteq> UserStatusActive)"
proof -
  let ?x = "x\<lparr>Session_LastActivityAt := now\<rparr>"
  have s1: "SS_db s1 = SS_db s" using read reads_keep_db(4) [of env q "Session_ID x" s] by simp
  have ok2: "accounts_ok (SS_db s2)" using accounts.service_keeps [where w = w and s = s1 and sv = sv and op = "SSuspend u"] ok s1 suspend by simp
  have l: "locked u (SS_db s2)" using suspend_locks [of s1 sv w u s2] ok s1 suspend by simp
  obtain y where y: "y \<in> set (AD_sessions (SS_db s2))" "Session_ID y = Session_ID x" "Session_UserID y = u"
  proof -
    obtain t where t: "change_user sv w u (\<lambda>x. x\<lparr>User_Status := UserStatusSuspended\<rparr>) s1 = (None, t)"
      "s2 = snd (SessionRepository_EndAllForUser (SV_env sv) (W_stmt w 2) (W_now w 1) u t)"
      using suspend by (auto simp: SuspendUser_def split: prod.splits option.splits)
    have "x \<in> set (AD_sessions (SS_db t))" using change_user_sessions [OF t(1)] s1 x(1) by simp
    then have "(if active_of u x \<and> SQ_ok (W_stmt w 2) then ended (W_now w 1) x else x) \<in> set (AD_sessions (SS_db s2))"
      unfolding t(2) end_all_db by (auto simp: with_sessions_def)
    then show thesis using that x(2) by (auto simp: active_of_def split: if_splits)
  qed
  have row: "rewritten ?x y \<in> set (AD_sessions (SS_db s3))"
    using update_session_row [OF y(1), of ?x q' env] y(2) wr by simp
  have "accounts_ok (SS_db s3)" using accounts.update_session_keeps [OF wr(1) ok2] .
  then have "fst (GetSession sv w' (Session_ID x) s3) = Inr (rewritten ?x y)"
    using get_session_fresh [OF _ row assms(8), of sv] x(2) y(2) assms(9) by (simp add: rewritten_def active_of_def)
  moreover have "AD_users (SS_db s3) = AD_users (SS_db s2)" using sessions_keep_users'(1) [OF wr(1)] .
  ultimately show ?thesis using l y(3) by (simp add: rewritten_def locked_def)
qed

section \<open>Instances\<close>

definition sample_service :: auth_service where
  "sample_service = \<lparr>SV_env = Dataset_Repo.sample_env, SV_sha256 = (\<lambda>k. replicate 32 (k ! 0)),
     SV_cfg = \<lparr>AC_AllowAutoRegistration = True, AC_RequireEmail = False, AC_DefaultRole = ''user'', AC_SessionTimeout = 100, AC_MaxSessionsPerUser = 2\<rparr>,
     SV_nodeID = ''n''\<rparr>"

definition sample_world :: "instant \<Rightarrow> world" where
  "sample_world t = \<lparr>W_stmt = (\<lambda>i. sample_stmt), W_now = (\<lambda>i. t), W_random = (\<lambda>i. Some (replicate 32 (of_int t)))\<rparr>"

definition sample_request :: AuthenticateRequest where
  "sample_request = \<lparr>AQ_PublicKey = replicate 32 7, AQ_KeyType = KeyTypeEd25519, AQ_Name = ''ann'', AQ_Email = [], AQ_Locale = [],
     AQ_SessionType = SessionTypeGRPC, AQ_ClientIP = [], AQ_ClientAgent = [], AQ_Metadata = (\<lambda>_. None)\<rparr>"

definition sample_user :: User where
  "sample_user = \<lparr>User_ID = ''u1'', User_PublicKey = replicate 32 1, User_KeyType = KeyTypeEd25519, User_PublicKeyFingerprint = ''f1'', User_Name = ''bob'',
     User_Email = [], User_Status = UserStatusActive, User_Role = UserRoleUser, User_Locale = [], User_CreatedAt = 0, User_UpdatedAt = 0,
     User_LastLoginAt = None, User_Metadata = (\<lambda>_. None)\<rparr>"

definition sample_session :: Session where
  "sample_session = \<lparr>Session_ID = ''s1'', Session_UserID = ''u1'', Session_Type = SessionTypeGRPC, Session_ClientIP = [], Session_ClientAgent = [],
     Session_PublicKeyFingerprint = ''f1'', Session_NodeID = ''n'', Session_StartedAt = 0, Session_EndedAt = None, Session_LastActivityAt = 0,
     Session_Metadata = (\<lambda>_. None)\<rparr>"

definition sample_accounts :: account_store where
  "sample_accounts = open_store ''n'' 0 \<lparr>AD_users = [sample_user], AD_sessions = [sample_session]\<rparr>"

lemmas sample_defs = sample_service_def sample_world_def sample_user_def sample_session_def sample_accounts_def open_store_def sample_stmt_def

lemma sample_ok: "accounts_ok (SS_db sample_accounts)"
  by (simp add: sample_defs accounts_ok_def tells_users_def user_checks_def session_checks_def UserStatus_IsValid_def UserRole_IsValid_def)

lemma sample_suspends: "fst (SuspendUser sample_service (sample_world t) ''u1'' sample_accounts) = None"
  by (simp add: sample_defs SuspendUser_def change_user_def UserRepository_Get_def queryWithAudit_def select_user_def user_found_def log_statement_def
      UserRepository_Update_def User_Validate_def ed25519_PublicKeySize_def UserStatus_IsValid_def UserRole_IsValid_def execWithAudit_def update_user_def
      changed_or_def SessionRepository_EndAllForUser_def update_sessions_def Let_def)

theorem session_limit_witness:
  "int (length (filter (active_of ''u'') (AD_sessions (SS_db (service_run sample_service
      [(sample_world 1, SAuthenticate sample_request), (sample_world 2, SAuthenticate sample_request), (sample_world 3, SAuthenticate sample_request)]
      (open_store ''n'' 0 no_accounts)))))) \<le> 2"
  using session_limit [of sample_service "[(sample_world 1, SAuthenticate sample_request), (sample_world 2, SAuthenticate sample_request),
      (sample_world 3, SAuthenticate sample_request)]" "''u''" "''n''" 0]
  by (simp add: sample_service_def sample_world_def sample_stmt_def)

theorem suspension_locks_out_witness:
  "filter (active_of ''u1'') (AD_sessions (SS_db (service_run sample_service [(sample_world 9, SUpdateActivity ''s1'')]
     (snd (SuspendUser sample_service (sample_world 5) ''u1'' sample_accounts))))) = []"
proof -
  have s: "SuspendUser sample_service (sample_world 5) ''u1'' sample_accounts
      = (None, snd (SuspendUser sample_service (sample_world 5) ''u1'' sample_accounts))"
    using sample_suspends [of 5] by (metis prod.collapse)
  show ?thesis using suspension_locks_out [OF sample_ok s, of "[(sample_world 9, SUpdateActivity ''s1'')]"] by (simp add: unlocks_def)
qed

theorem refresh_revives_expired_session_witness:
  "fst (GetSession sample_service (sample_world 200) ''s1'' sample_accounts) = Inl (AuthDomain ErrSessionExpired)
   \<and> fst (GetSession sample_service (sample_world 250) ''s1'' (snd (UpdateSessionActivity sample_service (sample_world 200) ''s1'' sample_accounts)))
       = Inr (sample_session\<lparr>Session_LastActivityAt := 200\<rparr>)"
proof -
  obtain err s' where u: "UpdateSessionActivity sample_service (sample_world 200) (Session_ID sample_session) sample_accounts = (err, s')" by force
  have x: "sample_session \<in> set (AD_sessions (SS_db sample_accounts))" "Session_EndedAt sample_session = None" "Session_ID sample_session = ''s1''"
    by (simp_all add: sample_defs)
  show ?thesis
    using refresh_revives_expired_session [OF sample_ok x(1,2) _ _ _ _ _ _ u, of "sample_world 250"] u x(3)
    by (simp add: sample_service_def sample_world_def sample_stmt_def sample_session_def time_Sub_def)
qed

theorem refresh_undoes_suspension_witness:
  "\<exists>y. fst (GetSession sample_service (sample_world 50) ''s1''
          (snd (SessionRepository_Update Dataset_Repo.sample_env sample_stmt (sample_session\<lparr>Session_LastActivityAt := 40\<rparr>)
             (snd (SuspendUser sample_service (sample_world 30) ''u1'' sample_accounts))))) = Inr y \<and> Session_UserID y = ''u1''"
proof -
  have x: "sample_session \<in> set (AD_sessions (SS_db sample_accounts))" "active_of ''u1'' sample_session" "Session_ID sample_session = ''s1''"
    by (simp_all add: sample_defs active_of_def)
  have g: "SessionRepository_Get Dataset_Repo.sample_env sample_stmt (Session_ID sample_session) sample_accounts = (Inr sample_session, sample_accounts)"
    by (simp add: SessionRepository_Get_def queryWithAudit_def log_statement_def sample_defs)
  have s: "SuspendUser sample_service (sample_world 30) ''u1'' sample_accounts
      = (None, snd (SuspendUser sample_service (sample_world 30) ''u1'' sample_accounts))"
    using sample_suspends [of 30] by (metis prod.collapse)
  obtain err s3 where u: "SessionRepository_Update Dataset_Repo.sample_env sample_stmt (sample_session\<lparr>Session_LastActivityAt := 40\<rparr>)
      (snd (SuspendUser sample_service (sample_world 30) ''u1'' sample_accounts)) = (err, s3)" by force
  show ?thesis using refresh_undoes_suspension [OF sample_ok x(1,2) g s u, of "sample_world 50"] u x(3)
    by (auto simp: sample_service_def sample_world_def sample_stmt_def time_Sub_def)
qed

end
