(* ===== verification/One_Time.thy ===== *)
theory One_Time
  imports Bib_Prelude
begin

text \<open>
  Tokens that are used once: an event issues a token, another one spends it, and between the two the
  token is live. The contract is a locale over the steps of a system; the challenges of the authentication
  service and the invitations to topics are instances.
\<close>

text \<open>How often a condition holds along a run.\<close>

fun occurrences :: "('e \<Rightarrow> 's \<Rightarrow> 's) \<Rightarrow> ('e \<Rightarrow> 's \<Rightarrow> bool) \<Rightarrow> 'e list \<Rightarrow> 's \<Rightarrow> nat" where
  "occurrences step P [] s = 0"
| "occurrences step P (e # es) s = (if P e s then 1 else 0) + occurrences step P es (step e s)"

text \<open>
  A token that an event must issue before another can spend it: each use takes it away.
\<close>

locale one_time =
  fixes step :: "'e \<Rightarrow> 's \<Rightarrow> 's" and live :: "'s \<Rightarrow> bool" and issue :: "'e \<Rightarrow> 's \<Rightarrow> bool" and spend :: "'e \<Rightarrow> 's \<Rightarrow> bool"
  assumes spend_live: "spend e s \<Longrightarrow> live s \<and> \<not> live (step e s) \<and> \<not> issue e s"
    and live_issued: "live (step e s) \<Longrightarrow> live s \<or> issue e s"
begin

lemma spent_at_most_issued: "occurrences step spend es s \<le> occurrences step issue es s + (if live s then 1 else 0)"
proof (induction es arbitrary: s)
  case (Cons e es)
  show ?case using Cons [of "step e s"] spend_live [of e s] live_issued [of e s]
    by (auto split: if_splits)
qed simp

end

end
