(* ===== verification/Auth_Service.thy ===== *)
theory Auth_Service
  imports Auth_Sessions Grpc_Errors One_Time
begin

text \<open>
  The gRPC authentication service (\<open>internal/grpc/services/auth/server.go\<close>) and the public key handler of
  the SSH server (\<open>internal/ssh/server.go\<close>) over the authentication service. The state of the server is
  the challenge store and the tables; a handler gives an outcome and the new state. The texts of wrapped
  errors are arguments.

  Shown: a session token is only given for a signature over a live challenge, each challenge serves at
  most one login, no public key is ever accepted by the SSH server, and any session can be ended by
  its identifier.
\<close>

section \<open>Definitions\<close>

definition challengeTTL :: duration where "challengeTTL = 30 * 1000000000"

record auth_texts =
  TX_auth :: "auth_error \<Rightarrow> string"
  TX_key :: "key_error \<Rightarrow> string"
  TX_random :: string

record AuthServer =
  AS_auth :: "auth_service option"
  AS_challenges :: "ChallengeStore option"
  AS_cfg :: AuthConfig
  AS_nodeID :: string
  AS_nodeMode :: string
  AS_version :: string
  AS_store :: account_store

definition NewServer :: "AuthConfig \<Rightarrow> account_store \<Rightarrow> AuthServer" where
  "NewServer zero_cfg s =
     \<lparr>AS_auth = None, AS_challenges = Some (NewChallengeStore challengeTTL), AS_cfg = zero_cfg, AS_nodeID = [], AS_nodeMode = [], AS_version = [],
      AS_store = s\<rparr>"

definition NewServerWithConfig ::
    "auth_service option \<Rightarrow> AuthConfig \<Rightarrow> string \<Rightarrow> string \<Rightarrow> string \<Rightarrow> account_store \<Rightarrow> AuthServer" where
  "NewServerWithConfig sv cfg nodeID nodeMode version s =
     \<lparr>AS_auth = sv, AS_challenges = Some (NewChallengeStore challengeTTL), AS_cfg = cfg, AS_nodeID = nodeID, AS_nodeMode = nodeMode,
      AS_version = version, AS_store = s\<rparr>"

definition SetDependencies :: "auth_service \<Rightarrow> AuthConfig \<Rightarrow> string \<Rightarrow> string \<Rightarrow> string \<Rightarrow> AuthServer \<Rightarrow> AuthServer" where
  "SetDependencies sv cfg nodeID nodeMode version srv =
     srv\<lparr>AS_auth := Some sv, AS_cfg := cfg, AS_nodeID := nodeID, AS_nodeMode := nodeMode, AS_version := version\<rparr>"

definition authErrorToGRPC :: "auth_texts \<Rightarrow> auth_error \<Rightarrow> 'r outcome" where
  "authErrorToGRPC tx err =
     (case err of
        AuthDomain ErrUserNotFound \<Rightarrow> Status NotFound ''user not found''
      | AuthDomain ErrUserPending \<Rightarrow> Status PermissionDenied ''user account is pending approval''
      | AuthDomain ErrUserSuspended \<Rightarrow> Status PermissionDenied ''user account is suspended''
      | AuthDomain ErrAutoRegDisabled \<Rightarrow> Status PermissionDenied ''auto-registration is disabled''
      | AuthDomain ErrUnauthorized \<Rightarrow> Status Unauthenticated ''unauthorized''
      | AuthDomain ErrSessionExpired \<Rightarrow> Status Unauthenticated ''session expired''
      | _ \<Rightarrow> Status Internal (''authentication failed: '' @ TX_auth tx err))"

record UserInfo =
  UI_Id :: string
  UI_Name :: string
  UI_Email :: string
  UI_Role :: string
  UI_Status :: string
  UI_PublicKeyFingerprint :: string
  UI_Locale :: string

definition domainUserToProto :: "User \<Rightarrow> UserInfo" where
  "domainUserToProto user =
     \<lparr>UI_Id = User_ID user, UI_Name = User_Name user, UI_Email = User_Email user, UI_Role = User_Role user, UI_Status = User_Status user,
      UI_PublicKeyFingerprint = User_PublicKeyFingerprint user, UI_Locale = User_Locale user\<rparr>"

record SessionInfo =
  SI_Id :: string
  SI_Type :: string
  SI_ClientIp :: string
  SI_ClientAgent :: string
  SI_NodeId :: string
  SI_StartedAt :: instant
  SI_IsCurrent :: bool
  SI_LastActivityAt :: "instant option"
  SI_ExpiresAt :: "instant option"

definition storageSessionToProto :: "instant \<Rightarrow> Session \<Rightarrow> bool \<Rightarrow> SessionInfo" where
  "storageSessionToProto zero session isCurrent =
     \<lparr>SI_Id = Session_ID session, SI_Type = Session_Type session, SI_ClientIp = Session_ClientIP session,
      SI_ClientAgent = Session_ClientAgent session, SI_NodeId = Session_NodeID session, SI_StartedAt = Session_StartedAt session,
      SI_IsCurrent = isCurrent,
      SI_LastActivityAt = (if Session_LastActivityAt session \<noteq> zero then Some (Session_LastActivityAt session) else None),
      SI_ExpiresAt = Session_EndedAt session\<rparr>"

definition ExtractSessionToken :: "grpc_ctx \<Rightarrow> (status_code \<times> string) + string" where
  "ExtractSessionToken ctx =
     (case Ctx_metadata ctx of
        None \<Rightarrow> Inl (Unauthenticated, ''missing metadata'')
      | Some md \<Rightarrow>
          (case md_Get md ''x-session-token'' of
             tok # _ \<Rightarrow> Inr tok
           | [] \<Rightarrow> (case md_Get md ''authorization'' of
                     [] \<Rightarrow> Inl (Unauthenticated, ''missing session token'')
                   | tok # _ \<Rightarrow> if 7 < length tok \<and> take 7 tok = ''Bearer '' then Inr (drop 7 tok) else Inr tok)))"

record ChallengeResponse =
  CP_ChallengeId :: string
  CP_Challenge :: bytes
  CP_ExpiresAt :: instant
  CP_SignatureAlgorithm :: string

definition Challenge_handler ::
    "'rsa crypto \<Rightarrow> auth_texts \<Rightarrow> world \<Rightarrow> bytes \<Rightarrow> AuthServer \<Rightarrow> ChallengeResponse outcome \<times> AuthServer" where
  "Challenge_handler cr tx w publicKey srv =
     (case AS_challenges srv of
        None \<Rightarrow> (Status Unavailable ''auth service not initialized'', srv)
      | Some cs \<Rightarrow>
          if length publicKey = 0 then (Status InvalidArgument ''public_key is required'', srv)
          else case GetPublicKeyInfo cr publicKey of
                 Inl err \<Rightarrow> (Status InvalidArgument (''invalid public key: '' @ TX_key tx err), srv)
               | Inr keyInfo \<Rightarrow>
                   (case ChallengeStore_Create (W_random w 0) (W_random w 1) (W_now w 0) (PKI_KeyBytes keyInfo) (PKI_KeyType keyInfo) cs of
                      (None, cs') \<Rightarrow> (Status Internal (''failed to create challenge: '' @ TX_random tx), srv\<lparr>AS_challenges := Some cs'\<rparr>)
                    | (Some c, cs') \<Rightarrow>
                        (Reply \<lparr>CP_ChallengeId = Challenge_ID c, CP_Challenge = Challenge_Nonce c, CP_ExpiresAt = Challenge_ExpiresAt c,
                                CP_SignatureAlgorithm = Challenge_SignatureAlgorithm c\<rparr>,
                         srv\<lparr>AS_challenges := Some cs'\<rparr>)))"

record ClientInfo =
  CI_IpAddress :: string
  CI_UserAgent :: string
  CI_Version :: string
  CI_Metadata :: "string \<rightharpoonup> string"

record VerifyChallengeRequest =
  VC_ChallengeId :: string
  VC_Signature :: bytes
  VC_Name :: string
  VC_Email :: string
  VC_ClientInfo :: "ClientInfo option"

record VerifyChallengeResponse =
  VR_SessionToken :: string
  VR_ExpiresAt :: instant
  VR_User :: UserInfo
  VR_IsNewUser :: bool
  VR_Session :: SessionInfo

text \<open>The request that a verified challenge turns into.\<close>

definition login_request :: "VerifyChallengeRequest \<Rightarrow> Challenge \<Rightarrow> AuthenticateRequest" where
  "login_request req c =
     \<lparr>AQ_PublicKey = Challenge_PublicKey c, AQ_KeyType = Challenge_KeyType c, AQ_Name = VC_Name req, AQ_Email = VC_Email req, AQ_Locale = [],
      AQ_SessionType = SessionTypeGRPC,
      AQ_ClientIP = (case VC_ClientInfo req of None \<Rightarrow> [] | Some ci \<Rightarrow> CI_IpAddress ci),
      AQ_ClientAgent = (case VC_ClientInfo req of None \<Rightarrow> [] | Some ci \<Rightarrow> CI_UserAgent ci),
      AQ_Metadata = (case VC_ClientInfo req of
                       None \<Rightarrow> Map.empty
                     | Some ci \<Rightarrow> (if CI_Version ci \<noteq> [] then [''client_version'' \<mapsto> CI_Version ci] else Map.empty) ++ CI_Metadata ci)\<rparr>"

text \<open>The end of a session from a reading of the clock; a timeout of zero stands for a day.\<close>

definition session_expiry :: "AuthConfig \<Rightarrow> instant \<Rightarrow> instant" where
  "session_expiry cfg t = (if AC_SessionTimeout cfg = 0 then t + 24 * 3600 * 1000000000 else t + AC_SessionTimeout cfg)"

definition VerifyChallenge_handler ::
    "'rsa crypto \<Rightarrow> auth_texts \<Rightarrow> instant \<Rightarrow> instant \<Rightarrow> world \<Rightarrow> instant \<Rightarrow> VerifyChallengeRequest \<Rightarrow> AuthServer
       \<Rightarrow> VerifyChallengeResponse outcome \<times> AuthServer" where
  "VerifyChallenge_handler cr tx zero taken w answered req srv =
     (case (AS_challenges srv, AS_auth srv) of
        (Some cs, Some sv) \<Rightarrow>
          if VC_ChallengeId req = [] then (Status InvalidArgument ''challenge_id is required'', srv)
          else if length (VC_Signature req) = 0 then (Status InvalidArgument ''signature is required'', srv)
          else (case ChallengeStore_Get taken (VC_ChallengeId req) cs of
                  (None, cs') \<Rightarrow> (Status NotFound ''challenge not found or expired'', srv\<lparr>AS_challenges := Some cs'\<rparr>)
                | (Some c, cs') \<Rightarrow>
                    (case VerifySSHSignature cr (Challenge_PublicKey c) (Challenge_KeyType c) (Challenge_Nonce c) (VC_Signature req) of
                       Some err \<Rightarrow> (Status Unauthenticated (''signature verification failed: '' @ TX_key tx err), srv\<lparr>AS_challenges := Some cs'\<rparr>)
                     | None \<Rightarrow>
                         (case Authenticate sv w (login_request req c) (AS_store srv) of
                            (Inl err, s') \<Rightarrow> (authErrorToGRPC tx err, srv\<lparr>AS_challenges := Some cs', AS_store := s'\<rparr>)
                          | (Inr result, s') \<Rightarrow>
                              (Reply \<lparr>VR_SessionToken = Session_ID (AR_Session result), VR_ExpiresAt = session_expiry (AS_cfg srv) answered,
                                      VR_User = domainUserToProto (AR_User result), VR_IsNewUser = AR_IsNew result,
                                      VR_Session = storageSessionToProto zero (AR_Session result) True\<rparr>,
                               srv\<lparr>AS_challenges := Some cs', AS_store := s'\<rparr>))))
      | _ \<Rightarrow> (Status Unavailable ''auth service not initialized'', srv))"

definition with_service ::
    "AuthServer \<Rightarrow> (auth_service \<Rightarrow> 'r outcome \<times> account_store) \<Rightarrow> 'r outcome \<times> AuthServer" where
  "with_service srv body =
     (case AS_auth srv of
        None \<Rightarrow> (Status Unavailable ''auth service not initialized'', srv)
      | Some sv \<Rightarrow> (case body sv of (out, s) \<Rightarrow> (out, srv\<lparr>AS_store := s\<rparr>)))"

definition Logout_handler :: "auth_texts \<Rightarrow> world \<Rightarrow> grpc_ctx \<Rightarrow> string \<Rightarrow> AuthServer \<Rightarrow> bool outcome \<times> AuthServer" where
  "Logout_handler tx w ctx sessionId srv =
     with_service srv (\<lambda>sv.
       case (if sessionId = [] then ExtractSessionToken ctx else Inr sessionId) of
         Inl (c, msg) \<Rightarrow> (Status c msg, AS_store srv)
       | Inr i \<Rightarrow>
           (case EndSession sv w i (AS_store srv) of
              (Some err, s) \<Rightarrow> (Status Internal (''failed to end session: '' @ TX_auth tx err), s)
            | (None, s) \<Rightarrow> (Reply True, s)))"

definition RefreshSession_handler ::
    "auth_texts \<Rightarrow> world \<Rightarrow> instant \<Rightarrow> grpc_ctx \<Rightarrow> AuthServer \<Rightarrow> (string \<times> instant) outcome \<times> AuthServer" where
  "RefreshSession_handler tx w answered ctx srv =
     with_service srv (\<lambda>sv.
       case ExtractSessionToken ctx of
         Inl (c, msg) \<Rightarrow> (Status c msg, AS_store srv)
       | Inr i \<Rightarrow>
           (case UpdateSessionActivity sv w i (AS_store srv) of
              (Some err, s) \<Rightarrow> (Status Internal (''failed to refresh session: '' @ TX_auth tx err), s)
            | (None, s) \<Rightarrow> (Reply (i, session_expiry (AS_cfg srv) answered), s)))"

datatype validation = Invalid string | Valid UserInfo SessionInfo instant

definition ValidateSession_handler ::
    "world \<Rightarrow> world \<Rightarrow> instant \<Rightarrow> string \<Rightarrow> AuthServer \<Rightarrow> validation outcome \<times> AuthServer" where
  "ValidateSession_handler w w' zero sessionToken srv =
     with_service srv (\<lambda>sv.
       if sessionToken = [] then (Reply (Invalid ''session_token is required''), AS_store srv)
       else case GetSession sv w sessionToken (AS_store srv) of
              (Inl err, s1) \<Rightarrow>
                (Reply (Invalid (if err = AuthDomain ErrSessionExpired then ''session expired'' else ''session not found'')), s1)
            | (Inr session, s1) \<Rightarrow>
                (case GetUser sv w' (Session_UserID session) s1 of
                   (Inl err, s2) \<Rightarrow> (Reply (Invalid ''user not found''), s2)
                 | (Inr user, s2) \<Rightarrow>
                     if User_Status user \<noteq> UserStatusActive then (Reply (Invalid (''user status: '' @ User_Status user)), s2)
                     else (Reply (Valid (domainUserToProto user) (storageSessionToProto zero session True)
                                    (session_expiry (AS_cfg srv) (Session_LastActivityAt session))), s2)))"

record GetAuthConfigResponse =
  GC_AllowAutoRegistration :: bool
  GC_RequireEmail :: bool
  GC_DefaultRole :: string
  GC_SessionTimeoutSeconds :: int
  GC_MaxSessionLifetimeSeconds :: int
  GC_SupportedKeyTypes :: "string list"
  GC_ServerVersion :: string
  GC_NodeId :: string
  GC_NodeMode :: string

text \<open>\<open>seconds\<close> is the truncation of \<open>Duration.Seconds\<close> to an integer.\<close>

definition GetAuthConfig_handler :: "(duration \<Rightarrow> int) \<Rightarrow> AuthServer \<Rightarrow> GetAuthConfigResponse" where
  "GetAuthConfig_handler seconds srv =
     (let t = seconds (AC_SessionTimeout (AS_cfg srv));
          t = (if t = 0 then 86400 else t)
      in \<lparr>GC_AllowAutoRegistration = AC_AllowAutoRegistration (AS_cfg srv), GC_RequireEmail = AC_RequireEmail (AS_cfg srv),
          GC_DefaultRole = AC_DefaultRole (AS_cfg srv), GC_SessionTimeoutSeconds = t, GC_MaxSessionLifetimeSeconds = wrap64 (t * 7),
          GC_SupportedKeyTypes = [''ed25519'', ''rsa''], GC_ServerVersion = AS_version srv, GC_NodeId = AS_nodeID srv, GC_NodeMode = AS_nodeMode srv\<rparr>)"

record GetPublicKeyInfoResponse =
  GP_KeyType :: string
  GP_FingerprintSha256 :: string
  GP_FingerprintMd5 :: string
  GP_KeySize :: int
  GP_OpensshFormat :: bytes
  GP_HasUser :: bool
  GP_UserId :: string

definition GetPublicKeyInfo_handler ::
    "'rsa crypto \<Rightarrow> auth_texts \<Rightarrow> world \<Rightarrow> bytes \<Rightarrow> AuthServer \<Rightarrow> GetPublicKeyInfoResponse outcome \<times> AuthServer" where
  "GetPublicKeyInfo_handler cr tx w publicKey srv =
     (if length publicKey = 0 then (Status InvalidArgument ''public_key is required'', srv)
      else case GetPublicKeyInfo cr publicKey of
             Inl err \<Rightarrow> (Status InvalidArgument (''failed to parse public key: '' @ TX_key tx err), srv)
           | Inr ki \<Rightarrow>
               (let resp = (\<lambda>has i. \<lparr>GP_KeyType = PKI_KeyType ki, GP_FingerprintSha256 = PKI_FingerprintSHA256 ki,
                              GP_FingerprintMd5 = PKI_FingerprintMD5 ki, GP_KeySize = sint (word_of_int (PKI_KeySize ki) :: 32 word),
                              GP_OpensshFormat = PKI_OpenSSHFormat ki, GP_HasUser = has, GP_UserId = i\<rparr>)
                in case AS_auth srv of
                     None \<Rightarrow> (Reply (resp False []), srv)
                   | Some sv \<Rightarrow>
                       (case GetUserByPublicKey sv w (PKI_KeyBytes ki) (AS_store srv) of
                          (Inl err, s) \<Rightarrow> (Reply (resp False []), srv\<lparr>AS_store := s\<rparr>)
                        | (Inr user, s) \<Rightarrow> (Reply (resp True (User_ID user)), srv\<lparr>AS_store := s\<rparr>))))"

text \<open>The handlers that first look up the caller's own session.\<close>

definition with_session ::
    "auth_texts \<Rightarrow> world \<Rightarrow> grpc_ctx \<Rightarrow> AuthServer \<Rightarrow> (auth_service \<Rightarrow> string \<Rightarrow> Session \<Rightarrow> account_store \<Rightarrow> 'r outcome \<times> account_store)
       \<Rightarrow> 'r outcome \<times> AuthServer" where
  "with_session tx w ctx srv body =
     with_service srv (\<lambda>sv.
       case ExtractSessionToken ctx of
         Inl (c, msg) \<Rightarrow> (Status c msg, AS_store srv)
       | Inr i \<Rightarrow>
           (case GetSession sv w i (AS_store srv) of
              (Inl err, s1) \<Rightarrow> (Status Unauthenticated (''invalid session: '' @ TX_auth tx err), s1)
            | (Inr session, s1) \<Rightarrow> body sv i session s1))"

definition ListMySessions_handler ::
    "auth_texts \<Rightarrow> world \<Rightarrow> world \<Rightarrow> instant \<Rightarrow> grpc_ctx \<Rightarrow> bool \<Rightarrow> int \<Rightarrow> AuthServer \<Rightarrow> (SessionInfo list \<times> int) outcome \<times> AuthServer" where
  "ListMySessions_handler tx w w' zero ctx includeExpired limit srv =
     with_session tx w ctx srv (\<lambda>sv i session s1.
       case ListUserSessions sv w' (Session_UserID session) s1 of
         (Inl err, s2) \<Rightarrow> (Status Internal (''failed to list sessions: '' @ TX_auth tx err), s2)
       | (Inr sessions, s2) \<Rightarrow>
           (let infos = map (\<lambda>x. storageSessionToProto zero x (Session_ID x = i))
                          (filter (\<lambda>x. Session_EndedAt x = None \<or> includeExpired) sessions);
                infos = (if 0 < limit \<and> limit < int (length infos) then take (nat limit) infos else infos)
            in (Reply (infos, sint (word_of_int (int (length infos)) :: 32 word)), s2)))"

definition RevokeSession_handler ::
    "auth_texts \<Rightarrow> world \<Rightarrow> world \<Rightarrow> world \<Rightarrow> grpc_ctx \<Rightarrow> string \<Rightarrow> AuthServer \<Rightarrow> bool outcome \<times> AuthServer" where
  "RevokeSession_handler tx w w' w'' ctx sessionId srv =
     (if AS_auth srv \<noteq> None \<and> sessionId = [] then (Status InvalidArgument ''session_id is required'', srv)
      else with_session tx w ctx srv (\<lambda>sv i session s1.
        case GetSession sv w' sessionId s1 of
          (Inl err, s2) \<Rightarrow> (Status NotFound (''session not found: '' @ TX_auth tx err), s2)
        | (Inr target, s2) \<Rightarrow>
            if Session_UserID target \<noteq> Session_UserID session
            then (Status PermissionDenied ''cannot revoke another user's session'', s2)
            else (case EndSession sv w'' sessionId s2 of
                    (Some err, s3) \<Rightarrow> (Status Internal (''failed to revoke session: '' @ TX_auth tx err), s3)
                  | (None, s3) \<Rightarrow> (Reply True, s3))))"

text \<open>Ending the listed sessions one by one; the worlds of the calls are numbered.\<close>

fun revoke_loop :: "auth_service \<Rightarrow> (nat \<Rightarrow> world) \<Rightarrow> (Session \<Rightarrow> bool) \<Rightarrow> nat \<Rightarrow> Session list \<Rightarrow> int \<Rightarrow> account_store \<Rightarrow> int \<times> account_store" where
  "revoke_loop sv ws skip k [] n s = (n, s)"
| "revoke_loop sv ws skip k (x # xs) n s =
     (if skip x then revoke_loop sv ws skip k xs n s
      else case EndSession sv (ws k) (Session_ID x) s of
             (Some err, s') \<Rightarrow> revoke_loop sv ws skip (Suc k) xs n s'
           | (None, s') \<Rightarrow> revoke_loop sv ws skip (Suc k) xs (sint (word_of_int (n + 1) :: 32 word)) s')"

definition RevokeAllSessions_handler ::
    "auth_texts \<Rightarrow> world \<Rightarrow> world \<Rightarrow> (nat \<Rightarrow> world) \<Rightarrow> grpc_ctx \<Rightarrow> bool \<Rightarrow> AuthServer \<Rightarrow> int outcome \<times> AuthServer" where
  "RevokeAllSessions_handler tx w w' ws ctx includeCurrent srv =
     with_session tx w ctx srv (\<lambda>sv i session s1.
       case ListUserSessions sv w' (Session_UserID session) s1 of
         (Inl err, s2) \<Rightarrow> (Status Internal (''failed to list sessions: '' @ TX_auth tx err), s2)
       | (Inr sessions, s2) \<Rightarrow>
           (case revoke_loop sv ws (\<lambda>x. Session_EndedAt x \<noteq> None \<or> Session_ID x = i \<and> \<not> includeCurrent) 0 sessions 0 s2 of
              (n, s3) \<Rightarrow> (Reply n, s3)))"

text \<open>The public key handler of the SSH server, which gives the outcome and the user and session of the connection.\<close>

definition publicKeyHandler ::
    "'rsa crypto \<Rightarrow> auth_service option \<Rightarrow> world \<Rightarrow> 'rsa ssh_key \<Rightarrow> account_store \<Rightarrow> bool \<times> AuthenticateResult option \<times> account_store" where
  "publicKeyHandler cr authSvc w key s =
     (case ParseSSHPublicKey cr key of
        Inl err \<Rightarrow> (False, None, s)
      | Inr (pubKeyBytes, keyType) \<Rightarrow>
          (case authSvc of
             None \<Rightarrow> (True, None, s)
           | Some sv \<Rightarrow>
               (case Authenticate sv w \<lparr>AQ_PublicKey = pubKeyBytes, AQ_KeyType = keyType, AQ_Name = [], AQ_Email = [], AQ_Locale = [],
                                       AQ_SessionType = [], AQ_ClientIP = [], AQ_ClientAgent = [], AQ_Metadata = Map.empty\<rparr> s of
                  (Inl err, s') \<Rightarrow> (False, None, s')
                | (Inr result, s') \<Rightarrow> (True, Some result, s'))))"

text \<open>
  The requests that issue, use or prune challenges, with the logout and the refresh of a session,
  and a run of them with the challenges issued and the logins granted. The other handlers, among
  them \<open>ValidateSession\<close>, \<open>ListMySessions\<close> and \<open>RevokeSession\<close>, do not touch the challenges and are
  not steps of a run.
\<close>

datatype 'rsa auth_event =
    EChallenge world bytes | EVerify instant instant world instant VerifyChallengeRequest | ECleanup instant
  | ELogout world grpc_ctx string | ERefresh world instant grpc_ctx

fun event_step :: "'rsa crypto \<Rightarrow> auth_texts \<Rightarrow> 'rsa auth_event \<Rightarrow> AuthServer \<Rightarrow> AuthServer" where
  "event_step cr tx (EChallenge w k) srv = snd (Challenge_handler cr tx w k srv)"
| "event_step cr tx (EVerify zero t w t' req) srv = snd (VerifyChallenge_handler cr tx zero t w t' req srv)"
| "event_step cr tx (ECleanup t) srv = srv\<lparr>AS_challenges := map_option (ChallengeStore_cleanup t) (AS_challenges srv)\<rparr>"
| "event_step cr tx (ELogout w ctx i) srv = snd (Logout_handler tx w ctx i srv)"
| "event_step cr tx (ERefresh w t ctx) srv = snd (RefreshSession_handler tx w t ctx srv)"

definition issues :: "'rsa crypto \<Rightarrow> auth_texts \<Rightarrow> string \<Rightarrow> 'rsa auth_event \<Rightarrow> AuthServer \<Rightarrow> bool" where
  "issues cr tx i e srv \<longleftrightarrow>
     (case e of EChallenge w k \<Rightarrow> (case fst (Challenge_handler cr tx w k srv) of Reply r \<Rightarrow> CP_ChallengeId r = i | _ \<Rightarrow> False) | _ \<Rightarrow> False)"

definition logs_in :: "'rsa crypto \<Rightarrow> auth_texts \<Rightarrow> string \<Rightarrow> 'rsa auth_event \<Rightarrow> AuthServer \<Rightarrow> bool" where
  "logs_in cr tx i e srv \<longleftrightarrow>
     (case e of EVerify zero t w t' req \<Rightarrow>
          VC_ChallengeId req = i \<and> (case fst (VerifyChallenge_handler cr tx zero t w t' req srv) of Reply r \<Rightarrow> True | _ \<Rightarrow> False)
      | _ \<Rightarrow> False)"

section \<open>Single use\<close>

definition challenge_live :: "string \<Rightarrow> AuthServer \<Rightarrow> bool" where
  "challenge_live i srv \<longleftrightarrow> (case AS_challenges srv of None \<Rightarrow> False | Some cs \<Rightarrow> map_of (CS_challenges cs) i \<noteq> None)"

lemma auth_error_no_reply [simp]: "authErrorToGRPC tx err \<noteq> Reply r"
  by (simp add: authErrorToGRPC_def split: auth_error.split domain_error.split)

lemma verify_reply:
  assumes "VerifyChallenge_handler cr tx zero t w t' req srv = (Reply resp, srv')"
  obtains cs sv c result s' where "AS_challenges srv = Some cs" "AS_auth srv = Some sv" "map_of (CS_challenges cs) (VC_ChallengeId req) = Some c"
    "\<not> Challenge_IsExpired t c" "VerifySSHSignature cr (Challenge_PublicKey c) (Challenge_KeyType c) (Challenge_Nonce c) (VC_Signature req) = None"
    "Authenticate sv w (login_request req c) (AS_store srv) = (Inr result, s')" "VR_SessionToken resp = Session_ID (AR_Session result)"
    "VR_User resp = domainUserToProto (AR_User result)"
    "srv' = srv\<lparr>AS_challenges := Some (cs\<lparr>CS_challenges := AList.delete (VC_ChallengeId req) (CS_challenges cs)\<rparr>), AS_store := s'\<rparr>"
  using assms
  by (auto simp: VerifyChallenge_handler_def ChallengeStore_Get_def split: option.splits if_splits prod.splits sum.splits)

lemma with_service_challenges: "AS_challenges (snd (with_service srv body)) = AS_challenges srv"
  by (auto simp: with_service_def split: option.split prod.split)

lemma verify_challenges:
  "AS_challenges (snd (VerifyChallenge_handler cr tx zero t w t' req srv)) = AS_challenges srv
   \<or> (\<exists>cs. AS_challenges srv = Some cs \<and> AS_challenges (snd (VerifyChallenge_handler cr tx zero t w t' req srv))
          = Some (cs\<lparr>CS_challenges := AList.delete (VC_ChallengeId req) (CS_challenges cs)\<rparr>))"
  by (simp add: VerifyChallenge_handler_def ChallengeStore_Get_def authErrorToGRPC_def split: option.split prod.split sum.split)

lemma challenge_challenges:
  "AS_challenges (snd (Challenge_handler cr tx w k srv)) = AS_challenges srv
   \<or> (\<exists>cs c r. AS_challenges srv = Some cs \<and> fst (Challenge_handler cr tx w k srv) = Reply r
        \<and> AS_challenges (snd (Challenge_handler cr tx w k srv)) = Some (cs\<lparr>CS_challenges := AList.update (CP_ChallengeId r) c (CS_challenges cs)\<rparr>))"
  by (auto simp: Challenge_handler_def ChallengeStore_Create_def Let_def split: option.split prod.split sum.split)

interpretation challenge: one_time "event_step cr tx" "challenge_live i" "issues cr tx i" "logs_in cr tx i" for cr :: "'rsa crypto" and tx i
proof
  fix e :: "'rsa auth_event" and s
  show "challenge_live i s \<and> \<not> challenge_live i (event_step cr tx e s) \<and> \<not> issues cr tx i e s" if l: "logs_in cr tx i e s"
  proof -
    obtain zero t w t' req where e: "e = EVerify zero t w t' req" "VC_ChallengeId req = i"
      and "\<exists>r. fst (VerifyChallenge_handler cr tx zero t w t' req s) = Reply r"
      using l by (auto simp: logs_in_def split: auth_event.splits outcome.splits)
    then obtain r s' where v: "VerifyChallenge_handler cr tx zero t w t' req s = (Reply r, s')" by (metis prod.collapse)
    then show ?thesis by (rule verify_reply) (simp add: e v challenge_live_def issues_def delete_conv')
  qed
  show "challenge_live i s \<or> issues cr tx i e s" if l: "challenge_live i (event_step cr tx e s)"
  proof (cases e)
    case (EChallenge w k)
    then show ?thesis using l challenge_challenges [of cr tx w k s]
      by (auto simp: challenge_live_def issues_def update_conv' split: if_splits)
  next
    case (EVerify zero t w t' req)
    then show ?thesis using l verify_challenges [of cr tx zero t w t' req s]
      by (auto simp: challenge_live_def delete_conv' split: if_splits option.splits)
  next
    case (ECleanup t)
    then show ?thesis using l
      by (auto simp: challenge_live_def ChallengeStore_cleanup_def map_of_eq_None_iff split: option.splits)
  qed (use l in \<open>simp_all add: Logout_handler_def RefreshSession_handler_def challenge_live_def with_service_challenges\<close>)
qed

text \<open>
  C10. Each challenge serves at most one login: through any sequence of requests to a new server, however they
  are answered and whatever the clocks read, the logins granted for a challenge identifier are never more
  than the challenges issued with that identifier.
\<close>

theorem challenge_single_use:
  fixes cr :: "'rsa crypto"
  shows "occurrences (event_step cr tx) (logs_in cr tx i) es (NewServerWithConfig sv cfg nodeID mode version s)
       \<le> occurrences (event_step cr tx) (issues cr tx i) es (NewServerWithConfig sv cfg nodeID mode version s)"
  using challenge.spent_at_most_issued [of cr tx i es "NewServerWithConfig sv cfg nodeID mode version s"]
  by (simp add: challenge_live_def NewServerWithConfig_def NewChallengeStore_def)

section \<open>Logging in\<close>

text \<open>The user a login finds has the key of the request.\<close>

lemma new_registration_key: "User_PublicKey (new_registration sv now req b) = AQ_PublicKey req"
  by (simp add: new_registration_def NewUser_def Let_def)

lemma lookup_key:
  assumes "lookup_or_register sv w req s = (Inr (user, new), s')"
  shows "User_PublicKey user = AQ_PublicKey req"
  using assms get_user_value(2)
  by (fastforce simp: lookup_or_register_def register_user_def Let_def new_registration_key
      split: prod.splits sum.splits if_splits option.splits)

lemma insert_session_row: "insert_session x fk db = Inr (n, db') \<Longrightarrow> x \<in> set (AD_sessions db') \<and> session_checks x"
  by (auto simp: insert_session_def split: if_splits)

lemma update_user_row:
  "update_user u fk db = Inr (n, db') \<Longrightarrow> y \<in> set (AD_users db) \<Longrightarrow> y \<in> set (AD_users db') \<or> updated_user u y \<in> set (AD_users db')"
  by (auto simp: update_user_def image_iff split: if_splits)

lemma login_session:
  assumes "Authenticate sv w req s = (Inr r, s')"
  shows "AR_Session r \<in> set (AD_sessions (SS_db s'))" and "Session_EndedAt (AR_Session r) = None" and "session_checks (AR_Session r)"
    and "Session_UserID (AR_Session r) = User_ID (AR_User r)"
    and "\<exists>u \<in> set (AD_users (SS_db s')). User_ID u = User_ID (AR_User r) \<and> User_PublicKey u = AQ_PublicKey req \<and> User_Status u = UserStatusActive"
proof -
  have all: "AR_Session r \<in> set (AD_sessions (SS_db s')) \<and> Session_EndedAt (AR_Session r) = None \<and> session_checks (AR_Session r)
     \<and> Session_UserID (AR_Session r) = User_ID (AR_User r)
     \<and> (\<exists>u \<in> set (AD_users (SS_db s')). User_ID u = User_ID (AR_User r) \<and> User_PublicKey u = AQ_PublicKey req \<and> User_Status u = UserStatusActive)"
    using assms
  proof (cases rule: authenticate_cases)
    case (opened user new s2 e user' s3 err)
    have r: "err = None" "AR_User r = user'" "AR_Session r = new_session sv w req user' (W_now w 1)" using opened(6) by auto
    have ins: "\<exists>n. insert_session (AR_Session r) (SQ_fk (W_stmt w 6)) (SS_db (make_room sv w (User_ID user) s3)) = Inr (n, SS_db s')"
      using session_create_done opened(5) r by auto
    let ?u = "user\<lparr>User_LastLoginAt := Some (W_now w 1)\<rparr>"
    have "user \<in> set (AD_users (SS_db s2))" using lookup_user [OF opened(1)] by blast
    moreover have u': "user' = ?u \<or> user' = ?u\<lparr>User_UpdatedAt := W_now w 2\<rparr>" and up: "ran (W_stmt w 3) (update_user user') s2 s3"
      using user_update_ran [OF opened(3)] by blast+
    ultimately have "user \<in> set (AD_users (SS_db s3)) \<or> updated_user user' user \<in> set (AD_users (SS_db s3))"
      using update_user_row [of user' "SQ_fk (W_stmt w 3)" "SS_db s2" _ "SS_db s3" user] by (auto simp: ran_def)
    then have "\<exists>u \<in> set (AD_users (SS_db s3)). User_ID u = User_ID user \<and> User_PublicKey u = User_PublicKey user \<and> User_Status u = UserStatusActive"
    proof (rule disjE)
      assume "updated_user user' user \<in> set (AD_users (SS_db s3))"
      then show ?thesis using opened(2) u' by (intro bexI [of _ "updated_user user' user"]) (auto simp: updated_user_def)
    qed (use opened(2) in blast)
    moreover have "AD_users (SS_db s') = AD_users (SS_db s3)" using sessions_keep_users'(2) [OF opened(5)] by simp
    ultimately have "\<exists>u \<in> set (AD_users (SS_db s')). User_ID u = User_ID (AR_User r) \<and> User_PublicKey u = AQ_PublicKey req \<and> User_Status u = UserStatusActive"
      using r(2) lookup_key [OF opened(1)] opened(4) by simp
    then show ?thesis using ins insert_session_row [of "AR_Session r"] r by (auto simp: new_session_def)
  qed simp_all
  then show "AR_Session r \<in> set (AD_sessions (SS_db s'))" "Session_EndedAt (AR_Session r) = None" "session_checks (AR_Session r)"
    "Session_UserID (AR_Session r) = User_ID (AR_User r)"
    "\<exists>u \<in> set (AD_users (SS_db s')). User_ID u = User_ID (AR_User r) \<and> User_PublicKey u = AQ_PublicKey req \<and> User_Status u = UserStatusActive"
    by blast+
qed

text \<open>
  C9. A session token needs a signature: when \<open>VerifyChallenge\<close> answers with a token, the server held a
  challenge with the identifier of the request that had not expired, the signature of the request is
  accepted for the nonce and the key of that challenge, the challenge is gone, and the token is the
  identifier of a session in the tables that has not ended and belongs to an active user with that key.
\<close>

theorem login_needs_signature:
  assumes "VerifyChallenge_handler cr tx zero t w t' req srv = (Reply resp, srv')"
  shows "\<exists>cs c. AS_challenges srv = Some cs \<and> map_of (CS_challenges cs) (VC_ChallengeId req) = Some c
    \<and> t \<le> Challenge_ExpiresAt c
    \<and> VerifySSHSignature cr (Challenge_PublicKey c) (Challenge_KeyType c) (Challenge_Nonce c) (VC_Signature req) = None
    \<and> \<not> challenge_live (VC_ChallengeId req) srv'
    \<and> (\<exists>x \<in> set (AD_sessions (SS_db (AS_store srv'))). Session_ID x = VR_SessionToken resp \<and> Session_EndedAt x = None
         \<and> (\<exists>u \<in> set (AD_users (SS_db (AS_store srv'))). User_ID u = Session_UserID x \<and> User_PublicKey u = Challenge_PublicKey c
              \<and> User_Status u = UserStatusActive))"
  using assms
proof (rule verify_reply)
  fix cs sv c result s'
  assume a: "AS_challenges srv = Some cs" "map_of (CS_challenges cs) (VC_ChallengeId req) = Some c" "\<not> Challenge_IsExpired t c"
    "VerifySSHSignature cr (Challenge_PublicKey c) (Challenge_KeyType c) (Challenge_Nonce c) (VC_Signature req) = None"
    and l: "Authenticate sv w (login_request req c) (AS_store srv) = (Inr result, s')" "VR_SessionToken resp = Session_ID (AR_Session result)"
    and s': "srv' = srv\<lparr>AS_challenges := Some (cs\<lparr>CS_challenges := AList.delete (VC_ChallengeId req) (CS_challenges cs)\<rparr>), AS_store := s'\<rparr>"
  have "\<exists>x \<in> set (AD_sessions (SS_db (AS_store srv'))). Session_ID x = VR_SessionToken resp \<and> Session_EndedAt x = None
         \<and> (\<exists>u \<in> set (AD_users (SS_db (AS_store srv'))). User_ID u = Session_UserID x \<and> User_PublicKey u = Challenge_PublicKey c
              \<and> User_Status u = UserStatusActive)"
    using login_session [OF l(1)] l(2) by (intro bexI [of _ "AR_Session result"]) (simp_all add: s' login_request_def)
  moreover have "\<not> challenge_live (VC_ChallengeId req) srv'" by (simp add: s' challenge_live_def delete_conv')
  ultimately show ?thesis using a by (auto simp: Challenge_IsExpired_def)
qed

text \<open>
  No public key opens an SSH session: with an authentication service, the handler refuses every key of
  every user, because it asks for a session without a type and the sessions table only takes the types
  ssh, grpc and api. The tables keep the sessions they had, less the one that a full session limit ends.
\<close>

theorem ssh_never_accepts:
  assumes "publicKeyHandler cr (Some sv) w key s = (accepted, result, s')"
  shows "\<not> accepted \<and> result = None \<and> fewer (SS_db s) (SS_db s')"
proof -
  have "\<exists>e. r = Inl e \<and> fewer (SS_db s) (SS_db s2)"
    if "Authenticate sv w req s = (r, s2)" "AQ_SessionType req = []" for req r s2
    using that(1)
  proof (cases rule: authenticate_cases)
    case (opened user new s3 e user' s4 err)
    have "\<not> session_checks (new_session sv w req user' (W_now w 1))" using that(2) by (simp add: session_checks_def new_session_def)
    then have no: "insert_session (new_session sv w req user' (W_now w 1)) fk db \<noteq> Inr p" for fk db p
      using insert_session_row by (cases p) blast
    then have "SS_db s2 = SS_db (make_room sv w (User_ID user) s4)" using session_create_ran [OF opened(5)] by (auto simp: ran_def)
    moreover have "err \<noteq> None"
    proof
      assume "err = None"
      then show False using session_create_done [of "SV_env sv" "W_stmt w 6" "new_session sv w req user' (W_now w 1)"] opened(5) no by simp
    qed
    moreover have "AD_sessions (SS_db s4) = AD_sessions (SS_db s)" using lookup_sessions [OF opened(1)] users_keep_sessions(2) [OF opened(3)] by simp
    ultimately show ?thesis using opened(6) make_room_fewer [of s4 sv w "User_ID user"] fewer_same [of "SS_db s4" "SS_db s"] fewer_trans
      by (metis sum.exhaust)
  qed (use lookup_sessions fewer_same in blast)+
  then show ?thesis using assms
    by (fastforce simp: publicKeyHandler_def fewer_same split: sum.splits prod.splits)
qed

lemma get_session_db: "SessionRepository_Get env q i s = (r, s') \<Longrightarrow> SS_db s' = SS_db s"
  using reads_keep_db(4) [of env q i s] by simp

text \<open>
  Anyone can end any session: \<open>Logout\<close> with the identifier of a session ends it whoever asks, with a token of
  another user or with no token at all, while \<open>RevokeSession\<close> refuses to end the session of another user.
\<close>

theorem logout_ends_any_session:
  assumes ok: "accounts_ok (SS_db (AS_store srv))" and sv: "AS_auth srv = Some sv"
    and x: "x \<in> set (AD_sessions (SS_db (AS_store srv)))" "Session_EndedAt x = None" "Session_ID x \<noteq> []"
    and q: "SQ_ok (W_stmt w 0)" and out: "Logout_handler tx w ctx (Session_ID x) srv = (out, srv')"
  shows "out = Reply True \<and> ended (W_now w 0) x \<in> set (AD_sessions (SS_db (AS_store srv')))
    \<and> (RevokeSession_handler tx w1 w2 w3 ctx (Session_ID x) srv = (Reply True, srv'') \<longrightarrow>
         (\<exists>i y s1. ExtractSessionToken ctx = Inr i \<and> GetSession sv w1 i (AS_store srv) = (Inr y, s1) \<and> Session_UserID y = Session_UserID x))"
proof -
  let ?s = "AS_store srv"
  have "filter (\<lambda>y. Session_ID y = Session_ID x \<and> Session_EndedAt y = None) (AD_sessions (SS_db ?s)) \<noteq> []" using x by (auto simp: filter_empty_conv)
  then have e: "EndSession sv w (Session_ID x) ?s = (None, snd (EndSession sv w (Session_ID x) ?s))"
    using q by (simp add: EndSession_def SessionRepository_End_def execWithAudit_def update_sessions_def changed_or_def case_prod_beta)
  have "ended (W_now w 0) x \<in> set (AD_sessions (SS_db (snd (EndSession sv w (Session_ID x) ?s))))"
    using x q by (auto simp: EndSession_def case_prod_beta end_db with_sessions_def)
  then have "out = Reply True \<and> ended (W_now w 0) x \<in> set (AD_sessions (SS_db (AS_store srv')))"
    using out e sv x(3) by (auto simp: Logout_handler_def with_service_def split: prod.splits)
  moreover have "\<exists>i y s1. ExtractSessionToken ctx = Inr i \<and> GetSession sv w1 i ?s = (Inr y, s1) \<and> Session_UserID y = Session_UserID x"
    if r: "RevokeSession_handler tx w1 w2 w3 ctx (Session_ID x) srv = (Reply True, srv'')"
  proof -
    obtain i y s1 z s2 where g: "ExtractSessionToken ctx = Inr i" "GetSession sv w1 i ?s = (Inr y, s1)"
      "GetSession sv w2 (Session_ID x) s1 = (Inr z, s2)" "Session_UserID z = Session_UserID y"
      using r sv x(3) by (auto simp: RevokeSession_handler_def with_session_def with_service_def split: sum.splits prod.splits if_splits)
    have ok1: "accounts_ok (SS_db s1)"
      using accounts.service_keeps [where w = w1 and s = ?s and sv = sv and op = "SGetSession i"] ok g(2) by simp
    have "SS_db s1 = SS_db ?s" using g(2)
      by (auto simp: GetSession_def split: prod.splits sum.splits if_splits dest!: get_session_db)
    moreover have "z \<in> set (AD_sessions (SS_db s1)) \<and> Session_ID z = Session_ID x"
      using g(3) get_session_value [of "SV_env sv" "W_stmt w2 0" "Session_ID x" s1]
      by (auto simp: GetSession_def split: prod.splits sum.splits if_splits)
    ultimately have "z = x" using session_by_id [OF ok1, of z x] x(1) by simp
    then show ?thesis using g by auto
  qed
  ultimately show ?thesis by blast
qed

section \<open>Instances\<close>

definition sample_crypto :: "unit crypto" where
  "sample_crypto = \<lparr>CR_sha256 = (\<lambda>k. replicate 32 (k ! 0)), CR_md5 = (\<lambda>k. []), CR_ed25519_Verify = (\<lambda>k m sig. sig = k @ m), CR_VerifyPKCS1v15 = (\<lambda>k h sig. False),
     CR_MarshalPKIX = (\<lambda>k. None), CR_ParsePKIX = (\<lambda>k. None), CR_BitLen = (\<lambda>k. 0), CR_ParseAuthorizedKey = (\<lambda>k. None), CR_ParsePublicKey = (\<lambda>k. None),
     CR_base64_Decode = (\<lambda>k. None), CR_ssh_signature_Blob = (\<lambda>sig. None), CR_AuthorizedKey_ed25519 = (\<lambda>k. None), CR_AuthorizedKey_rsa = (\<lambda>k. None),
     CR_TrimSpace = (\<lambda>k. k)\<rparr>"

definition sample_texts :: auth_texts where
  "sample_texts = \<lparr>TX_auth = (\<lambda>e. ''e''), TX_key = (\<lambda>e. ''k''), TX_random = ''r''\<rparr>"

definition sample_challenge :: Challenge where
  "sample_challenge = \<lparr>Challenge_ID = ''c1'', Challenge_PublicKey = replicate 32 1, Challenge_KeyType = KeyTypeEd25519, Challenge_Nonce = [5],
     Challenge_CreatedAt = 0, Challenge_ExpiresAt = 100, Challenge_SignatureAlgorithm = ''ssh-ed25519''\<rparr>"

definition sample_server :: AuthServer where
  "sample_server = (NewServerWithConfig (Some sample_service) (SV_cfg sample_service) ''n'' [] [] sample_accounts)
     \<lparr>AS_challenges := Some \<lparr>CS_challenges = [(''c1'', sample_challenge)], CS_ttl = 100\<rparr>\<rparr>"

definition sample_verify :: VerifyChallengeRequest where
  "sample_verify = \<lparr>VC_ChallengeId = ''c1'', VC_Signature = replicate 32 1 @ [5], VC_Name = [], VC_Email = [], VC_ClientInfo = None\<rparr>"

lemma sample_token: "generateSessionID (Some (replicate 32 b)) t \<noteq> ''s1''"
proof -
  have "length (generateSessionID (Some (replicate 32 b)) t) = 64" by (simp add: generateSessionID_def length_hex)
  then show ?thesis by auto
qed

lemma sample_login:
  "\<exists>r. fst (Authenticate sample_service (sample_world 7) (login_request sample_verify sample_challenge) sample_accounts) = Inr r"
  by (simp add: sample_defs sample_verify_def sample_challenge_def login_request_def Authenticate_def lookup_or_register_def UserRepository_GetByPublicKey_def
      queryWithAudit_def select_user_def user_found_def log_statement_def checkUserStatus_def UserRepository_Update_def User_Validate_def
      ed25519_PublicKeySize_def UserStatus_IsValid_def UserRole_IsValid_def execWithAudit_def update_user_def changed_or_def Let_def make_room_def
      SessionRepository_GetByUser_def listed_def newest_first_def active_of_def updated_user_def SessionRepository_Create_def insert_session_def
      session_checks_def new_session_def sample_token)

theorem login_needs_signature_witness:
  "\<exists>x \<in> set (AD_sessions (SS_db (AS_store (snd (VerifyChallenge_handler sample_crypto sample_texts 0 50 (sample_world 7) 60 sample_verify sample_server))))).
     Session_EndedAt x = None"
proof -
  obtain r s' where l: "Authenticate sample_service (sample_world 7) (login_request sample_verify sample_challenge) sample_accounts = (Inr r, s')"
    using sample_login by (metis prod.collapse)
  have "\<exists>resp srv'. VerifyChallenge_handler sample_crypto sample_texts 0 50 (sample_world 7) 60 sample_verify sample_server = (Reply resp, srv')"
    using l by (simp add: VerifyChallenge_handler_def sample_server_def NewServerWithConfig_def ChallengeStore_Get_def Challenge_IsExpired_def VerifySSHSignature_def
        VerifySignature_def sample_crypto_def ed25519_PublicKeySize_def sample_verify_def sample_challenge_def)
  then obtain resp srv' where v: "VerifyChallenge_handler sample_crypto sample_texts 0 50 (sample_world 7) 60 sample_verify sample_server = (Reply resp, srv')" by blast
  show ?thesis using login_needs_signature [OF v] v by auto
qed

theorem ssh_never_accepts_witness:
  "\<not> fst (publicKeyHandler sample_crypto (Some sample_service) (sample_world 7) (CryptoEd25519 (replicate 32 1)) sample_accounts)"
  using ssh_never_accepts [of sample_crypto sample_service "sample_world 7" "CryptoEd25519 (replicate 32 1)" sample_accounts]
  by (cases "publicKeyHandler sample_crypto (Some sample_service) (sample_world 7) (CryptoEd25519 (replicate 32 1)) sample_accounts") simp

theorem logout_ends_any_session_witness:
  "fst (Logout_handler sample_texts (sample_world 9) \<lparr>Ctx_metadata = None, Ctx_user = None, Ctx_request_id = None, Ctx_peer = None\<rparr> ''s1'' sample_server) = Reply True"
proof -
  let ?ctx = "\<lparr>Ctx_metadata = None, Ctx_user = None, Ctx_request_id = None, Ctx_peer = None\<rparr>"
  obtain out srv' where o: "Logout_handler sample_texts (sample_world 9) ?ctx (Session_ID sample_session) sample_server = (out, srv')" by force
  have "out = Reply True"
    using logout_ends_any_session [of sample_server sample_service sample_session "sample_world 9", OF _ _ _ _ _ _ o] sample_ok
    by (simp add: sample_server_def NewServerWithConfig_def sample_accounts_def open_store_def sample_session_def sample_world_def sample_stmt_def)
  then show ?thesis using o by (simp add: sample_session_def)
qed

end
