(* ===== verification/Topic_Repo.thy ===== *)
theory Topic_Repo
  imports Account_Repo Topics
begin

text \<open>
  The repositories of topics, members and invitations of the SQLite store
  (\<open>internal/storage/sqlite/topics.go\<close>, \<open>topic_members.go\<close>, \<open>topic_invitations.go\<close>) over the tables of
  migrations 1 and 5. The topics go through the logged statements of the store; the members and
  invitations use the database directly. A row is the record it decodes to; the times of members
  and invitations are written without a fraction of a second.

  \<open>TopicRepository.List\<close> splices the field to sort by, a text of the client, into its \<open>ORDER BY\<close>
  clause (\<open>topics.go:157\<close>). The model hands that text to an argument, \<open>order_by\<close>, that rearranges the
  selected rows, the same way for every page. This is what SQLite does for the name of a column; a
  text with SQL of its own can return other rows or write, and such requests are outside the model.

  Shown: every statement keeps the constraints of the three tables.
\<close>

section \<open>Definitions\<close>

abbreviation TopicMemberRoleOwner :: string where "TopicMemberRoleOwner \<equiv> ''owner''"
abbreviation TopicMemberRoleEditor :: string where "TopicMemberRoleEditor \<equiv> ''editor''"
abbreviation TopicMemberRoleViewer :: string where "TopicMemberRoleViewer \<equiv> ''viewer''"

definition TopicMemberRole_IsValid :: "string \<Rightarrow> bool" where
  "TopicMemberRole_IsValid r \<longleftrightarrow> r \<in> set [TopicMemberRoleOwner, TopicMemberRoleEditor, TopicMemberRoleViewer]"

definition TopicMemberRole_CanEdit :: "string \<Rightarrow> bool" where
  "TopicMemberRole_CanEdit r \<longleftrightarrow> r = TopicMemberRoleOwner \<or> r = TopicMemberRoleEditor"

record TopicMember =
  TM_ID :: string
  TM_TopicID :: TopicID
  TM_UserID :: UserID
  TM_Role :: string
  TM_InvitedBy :: UserID
  TM_InvitedAt :: instant
  TM_AcceptedAt :: "instant option"
  TM_CreatedAt :: instant
  TM_UpdatedAt :: instant

abbreviation InvitationStatusPending :: string where "InvitationStatusPending \<equiv> ''pending''"
abbreviation InvitationStatusAccepted :: string where "InvitationStatusAccepted \<equiv> ''accepted''"
abbreviation InvitationStatusDeclined :: string where "InvitationStatusDeclined \<equiv> ''declined''"
abbreviation InvitationStatusExpired :: string where "InvitationStatusExpired \<equiv> ''expired''"
abbreviation InvitationStatusCancelled :: string where "InvitationStatusCancelled \<equiv> ''cancelled''"

record TopicInvitation =
  TI_ID :: string
  TI_TopicID :: TopicID
  TI_InviterID :: UserID
  TI_InviteeEmail :: string
  TI_InviteeUserID :: UserID
  TI_Role :: string
  TI_Token :: string
  TI_Message :: string
  TI_Status :: string
  TI_ExpiresAt :: instant
  TI_CreatedAt :: instant
  TI_RespondedAt :: "instant option"

record TopicFilter =
  TF_Status :: string
  TF_ParentID :: "TopicID option"
  TF_OwnerID :: "UserID option"
  TF_Tags :: "string list"
  TF_Search :: string
  TF_Limit :: int
  TF_Offset :: int
  TF_OrderBy :: string
  TF_OrderDesc :: bool

text \<open>The tables; \<open>TD_users\<close> are the identifiers that the foreign keys refer to.\<close>

record topic_db =
  TD_users :: "UserID list"
  TD_topics :: "Topic list"
  TD_members :: "TopicMember list"
  TD_invitations :: "TopicInvitation list"

type_synonym topic_store = "topic_db SqlStore"

text \<open>An instant after a round trip through a text of whole seconds.\<close>

definition whole_second :: "instant \<Rightarrow> instant" where
  "whole_second t = t - t mod 1000000000"

text \<open>A statement that does not go through the log.\<close>

definition execDirect :: "stmt \<Rightarrow> (bool \<Rightarrow> 'db \<Rightarrow> sql_error + (int \<times> 'db)) \<Rightarrow> 'db SqlStore \<Rightarrow> (sql_error + int) \<times> 'db SqlStore" where
  "execDirect q run s =
     (case (if SQ_ok q then run (SQ_fk q) (SS_db s) else Inl EngineError) of
        Inl err \<Rightarrow> (Inl err, s)
      | Inr (n, db) \<Rightarrow> (Inr n, s\<lparr>SS_db := db\<rparr>))"

definition queryDirect :: "stmt \<Rightarrow> ('db \<Rightarrow> sql_error + 'a) \<Rightarrow> 'db SqlStore \<Rightarrow> sql_error + 'a" where
  "queryDirect q run s = (if SQ_ok q then run (SS_db s) else Inl EngineError)"

subsection \<open>Topics\<close>

definition topic_checks :: "Topic \<Rightarrow> bool" where
  "topic_checks t \<longleftrightarrow> TopicStatus_IsValid (Topic_Status t) \<and> 0 \<le> Topic_DatasetCount t"

definition insert_topic :: "Topic \<Rightarrow> bool \<Rightarrow> topic_db \<Rightarrow> sql_error + (int \<times> topic_db)" where
  "insert_topic t fk db =
     (if \<not> topic_checks t then Inl CheckViolation
      else if Topic_ID t \<in> set (map Topic_ID (TD_topics db)) \<or> Topic_Name t \<in> set (map Topic_Name (TD_topics db)) then Inl UniqueViolation
      else if fk \<and> Topic_ParentID t \<noteq> [] \<and> Topic_ParentID t \<noteq> Topic_ID t \<and> Topic_ParentID t \<notin> set (map Topic_ID (TD_topics db))
        then Inl ForeignKeyViolation
      else Inr (1, db\<lparr>TD_topics := TD_topics db @ [t]\<rparr>))"

definition updated_topic :: "instant \<Rightarrow> Topic \<Rightarrow> Topic \<Rightarrow> Topic" where
  "updated_topic now t old = t\<lparr>Topic_CreatedBy := Topic_CreatedBy old, Topic_CreatedAt := Topic_CreatedAt old, Topic_UpdatedAt := now\<rparr>"

definition update_topic :: "instant \<Rightarrow> Topic \<Rightarrow> bool \<Rightarrow> topic_db \<Rightarrow> sql_error + (int \<times> topic_db)" where
  "update_topic now t fk db =
     (if Topic_ID t \<notin> set (map Topic_ID (TD_topics db)) then Inr (0, db)
      else if \<not> topic_checks t then Inl CheckViolation
      else if \<exists>x \<in> set (TD_topics db). Topic_ID x \<noteq> Topic_ID t \<and> Topic_Name x = Topic_Name t then Inl UniqueViolation
      else if fk \<and> Topic_ParentID t \<noteq> [] \<and> Topic_ParentID t \<notin> set (map Topic_ID (TD_topics db)) then Inl ForeignKeyViolation
      else Inr (1, db\<lparr>TD_topics := map (\<lambda>x. if Topic_ID x = Topic_ID t then updated_topic now t x else x) (TD_topics db)\<rparr>))"

definition delete_topic :: "instant \<Rightarrow> TopicID \<Rightarrow> bool \<Rightarrow> topic_db \<Rightarrow> sql_error + (int \<times> topic_db)" where
  "delete_topic now i fk db =
     (if i \<notin> set (map Topic_ID (TD_topics db)) then Inr (0, db)
      else Inr (1, db\<lparr>TD_topics := map (\<lambda>x. if Topic_ID x = i then x\<lparr>Topic_Status := TopicStatusDeleted, Topic_UpdatedAt := now\<rparr> else x)
                                     (TD_topics db)\<rparr>))"

definition TopicRepository_Create :: "sql_env \<Rightarrow> stmt \<Rightarrow> Topic \<Rightarrow> topic_store \<Rightarrow> repo_error option \<times> topic_store" where
  "TopicRepository_Create env q t s =
     (case Topic_Validate t of
        Some err \<Rightarrow> (Some (Rejected err), s)
      | None \<Rightarrow>
          (case execWithAudit env q ''INSERT'' ''topics'' (insert_topic t) s of
             (Inr n, s') \<Rightarrow> (None, s')
           | (Inl err, s') \<Rightarrow> (Some (if err = UniqueViolation then ErrAlreadyExists else SqlFailed err), s')))"

definition TopicRepository_Get :: "sql_env \<Rightarrow> stmt \<Rightarrow> TopicID \<Rightarrow> topic_store \<Rightarrow> (repo_error + Topic) \<times> topic_store" where
  "TopicRepository_Get env q i s =
     (case queryWithAudit env q ''topics'' (\<lambda>db. Inr (find (\<lambda>t. Topic_ID t = i) (TD_topics db))) s of (r, s') \<Rightarrow> (found r, s'))"

definition TopicRepository_GetByName :: "sql_env \<Rightarrow> stmt \<Rightarrow> string \<Rightarrow> topic_store \<Rightarrow> (repo_error + Topic) \<times> topic_store" where
  "TopicRepository_GetByName env q name s =
     (case queryWithAudit env q ''topics'' (\<lambda>db. Inr (find (\<lambda>t. Topic_Name t = name) (TD_topics db))) s of (r, s') \<Rightarrow> (found r, s'))"

text \<open>The conditions of a listing, and the two of them that a count uses.\<close>

definition topic_counted :: "TopicFilter \<Rightarrow> Topic \<Rightarrow> bool" where
  "topic_counted f t \<longleftrightarrow>
     (TF_Status f \<noteq> [] \<longrightarrow> Topic_Status t = TF_Status f)
     \<and> (case TF_ParentID f of None \<Rightarrow> True | Some p \<Rightarrow> Topic_ParentID t = p)"

record topic_texts =
  TT_owners :: "UserID list \<Rightarrow> string"
  TT_tags :: "string list \<Rightarrow> string"

definition topic_matches :: "topic_texts \<Rightarrow> TopicFilter \<Rightarrow> Topic \<Rightarrow> bool" where
  "topic_matches tt f t \<longleftrightarrow> topic_counted f t
     \<and> (case TF_OwnerID f of None \<Rightarrow> True | Some u \<Rightarrow> sql_like (''%'' @ u @ ''%'') (TT_owners tt (Topic_Owners t)))
     \<and> (TF_Search f \<noteq> [] \<longrightarrow> sql_like (''%'' @ TF_Search f @ ''%'') (Topic_Name t)
                             \<or> sql_like (''%'' @ TF_Search f @ ''%'') (Topic_Description t))
     \<and> (\<forall>tag \<in> set (TF_Tags f). sql_like (''%'' @ [CHR 34] @ tag @ [CHR 34] @ ''%'') (TT_tags tt (Topic_Tags t)))"

definition list_topics ::
    "topic_texts \<Rightarrow> (string \<Rightarrow> bool \<Rightarrow> Topic list \<Rightarrow> Topic list option) \<Rightarrow> TopicFilter \<Rightarrow> topic_db \<Rightarrow> sql_error + Topic list" where
  "list_topics tt order_by f db =
     (case order_by (if TF_OrderBy f \<noteq> [] then TF_OrderBy f else ''name'') (TF_OrderDesc f) (filter (topic_matches tt f) (TD_topics db)) of
        None \<Rightarrow> Inl EngineError
      | Some ts \<Rightarrow> page (TF_Limit f) (TF_Offset f) ts)"

definition TopicRepository_List ::
    "topic_texts \<Rightarrow> (string \<Rightarrow> bool \<Rightarrow> Topic list \<Rightarrow> Topic list option) \<Rightarrow> sql_env \<Rightarrow> stmt \<Rightarrow> TopicFilter \<Rightarrow> topic_store
       \<Rightarrow> (repo_error + Topic list) \<times> topic_store" where
  "TopicRepository_List tt order_by env q f s =
     (case queryWithAudit env q ''topics'' (list_topics tt order_by f) s of (r, s') \<Rightarrow> (listed r, s'))"

definition TopicRepository_Update :: "sql_env \<Rightarrow> stmt \<Rightarrow> instant \<Rightarrow> Topic \<Rightarrow> topic_store \<Rightarrow> repo_error option \<times> topic_store" where
  "TopicRepository_Update env q now t s =
     (case Topic_Validate t of
        Some err \<Rightarrow> (Some (Rejected err), s)
      | None \<Rightarrow> (case execWithAudit env q ''UPDATE'' ''topics'' (update_topic now t) s of (r, s') \<Rightarrow> (update_outcome r, s')))"

definition TopicRepository_Delete :: "sql_env \<Rightarrow> stmt \<Rightarrow> instant \<Rightarrow> TopicID \<Rightarrow> topic_store \<Rightarrow> repo_error option \<times> topic_store" where
  "TopicRepository_Delete env q now i s =
     (case execWithAudit env q ''UPDATE'' ''topics'' (delete_topic now i) s of (r, s') \<Rightarrow> (update_outcome r, s'))"

definition TopicRepository_Count :: "sql_env \<Rightarrow> stmt \<Rightarrow> TopicFilter \<Rightarrow> topic_store \<Rightarrow> (repo_error + int) \<times> topic_store" where
  "TopicRepository_Count env q f s =
     (case queryWithAudit env q ''topics'' (\<lambda>db. Inr (int (length (filter (topic_counted f) (TD_topics db))))) s of (r, s') \<Rightarrow> (listed r, s'))"

subsection \<open>Members\<close>

definition insert_member :: "TopicMember \<Rightarrow> bool \<Rightarrow> topic_db \<Rightarrow> sql_error + (int \<times> topic_db)" where
  "insert_member m fk db =
     (if \<not> TopicMemberRole_IsValid (TM_Role m) then Inl CheckViolation
      else if TM_ID m \<in> set (map TM_ID (TD_members db))
           \<or> (TM_TopicID m, TM_UserID m) \<in> set (map (\<lambda>x. (TM_TopicID x, TM_UserID x)) (TD_members db)) then Inl UniqueViolation
      else if fk \<and> (TM_TopicID m \<notin> set (map Topic_ID (TD_topics db)) \<or> TM_UserID m \<notin> set (TD_users db) \<or> TM_InvitedBy m \<notin> set (TD_users db))
        then Inl ForeignKeyViolation
      else Inr (1, db\<lparr>TD_members := TD_members db @
        [m\<lparr>TM_InvitedAt := whole_second (TM_InvitedAt m), TM_AcceptedAt := map_option whole_second (TM_AcceptedAt m),
           TM_CreatedAt := whole_second (TM_CreatedAt m), TM_UpdatedAt := whole_second (TM_UpdatedAt m)\<rparr>]\<rparr>))"

definition update_member :: "instant \<Rightarrow> TopicMember \<Rightarrow> bool \<Rightarrow> topic_db \<Rightarrow> sql_error + (int \<times> topic_db)" where
  "update_member now m fk db =
     (if TM_ID m \<notin> set (map TM_ID (TD_members db)) then Inr (0, db)
      else if \<not> TopicMemberRole_IsValid (TM_Role m) then Inl CheckViolation
      else Inr (1, db\<lparr>TD_members := map (\<lambda>x. if TM_ID x = TM_ID m
          then x\<lparr>TM_Role := TM_Role m, TM_AcceptedAt := map_option whole_second (TM_AcceptedAt m), TM_UpdatedAt := whole_second now\<rparr>
          else x) (TD_members db)\<rparr>))"

definition delete_member :: "TopicID \<Rightarrow> UserID \<Rightarrow> bool \<Rightarrow> topic_db \<Rightarrow> sql_error + (int \<times> topic_db)" where
  "delete_member t u fk db =
     Inr (int (length (filter (\<lambda>x. TM_TopicID x = t \<and> TM_UserID x = u) (TD_members db))),
          db\<lparr>TD_members := filter (\<lambda>x. \<not> (TM_TopicID x = t \<and> TM_UserID x = u)) (TD_members db)\<rparr>)"

text \<open>The repository returns the errors of the engine as they are.\<close>

definition plain :: "(sql_error + int) \<Rightarrow> repo_error option" where
  "plain r = (case r of Inl err \<Rightarrow> Some (SqlFailed err) | Inr n \<Rightarrow> None)"

definition row_or :: "domain_error \<Rightarrow> (sql_error + 'a option) \<Rightarrow> repo_error + 'a" where
  "row_or missing r = (case r of Inl err \<Rightarrow> Inl (SqlFailed err) | Inr None \<Rightarrow> Inl (Rejected missing) | Inr (Some x) \<Rightarrow> Inr x)"

definition TopicMemberRepository_Create :: "stmt \<Rightarrow> TopicMember \<Rightarrow> topic_store \<Rightarrow> repo_error option \<times> topic_store" where
  "TopicMemberRepository_Create q m s = (case execDirect q (insert_member m) s of (r, s') \<Rightarrow> (plain r, s'))"

definition member_of :: "TopicID \<Rightarrow> UserID \<Rightarrow> TopicMember \<Rightarrow> bool" where
  "member_of t u m \<longleftrightarrow> TM_TopicID m = t \<and> TM_UserID m = u"

definition TopicMemberRepository_Get :: "stmt \<Rightarrow> TopicID \<Rightarrow> UserID \<Rightarrow> topic_store \<Rightarrow> repo_error + TopicMember" where
  "TopicMemberRepository_Get q t u s = row_or ErrNotOwner (queryDirect q (\<lambda>db. Inr (find (member_of t u) (TD_members db))) s)"

definition TopicMemberRepository_GetByID :: "stmt \<Rightarrow> string \<Rightarrow> topic_store \<Rightarrow> repo_error + TopicMember" where
  "TopicMemberRepository_GetByID q i s = row_or ErrNotOwner (queryDirect q (\<lambda>db. Inr (find (\<lambda>m. TM_ID m = i) (TD_members db))) s)"

definition TopicMemberRepository_ListByTopic ::
    "stmt \<Rightarrow> TopicID \<Rightarrow> string \<Rightarrow> int \<Rightarrow> int \<Rightarrow> topic_store \<Rightarrow> repo_error + TopicMember list" where
  "TopicMemberRepository_ListByTopic q t role limit offset s =
     listed (queryDirect q (\<lambda>db. page limit offset (filter (\<lambda>m. TM_TopicID m = t \<and> (role \<noteq> [] \<longrightarrow> TM_Role m = role)) (TD_members db))) s)"

definition TopicMemberRepository_ListByUser :: "stmt \<Rightarrow> UserID \<Rightarrow> topic_store \<Rightarrow> repo_error + TopicMember list" where
  "TopicMemberRepository_ListByUser q u s = listed (queryDirect q (\<lambda>db. Inr (filter (\<lambda>m. TM_UserID m = u) (TD_members db))) s)"

definition TopicMemberRepository_Update :: "stmt \<Rightarrow> instant \<Rightarrow> TopicMember \<Rightarrow> topic_store \<Rightarrow> repo_error option \<times> topic_store" where
  "TopicMemberRepository_Update q now m s = (case execDirect q (update_member now m) s of (r, s') \<Rightarrow> (plain r, s'))"

definition TopicMemberRepository_Delete :: "stmt \<Rightarrow> TopicID \<Rightarrow> UserID \<Rightarrow> topic_store \<Rightarrow> repo_error option \<times> topic_store" where
  "TopicMemberRepository_Delete q t u s = (case execDirect q (delete_member t u) s of (r, s') \<Rightarrow> (plain r, s'))"

definition TopicMemberRepository_CountOwners :: "stmt \<Rightarrow> TopicID \<Rightarrow> topic_store \<Rightarrow> repo_error + int" where
  "TopicMemberRepository_CountOwners q t s =
     listed (queryDirect q (\<lambda>db. Inr (int (length (filter (\<lambda>m. TM_TopicID m = t \<and> TM_Role m = TopicMemberRoleOwner) (TD_members db))))) s)"

definition TopicMemberRepository_HasAccess :: "stmt \<Rightarrow> TopicID \<Rightarrow> UserID \<Rightarrow> topic_store \<Rightarrow> repo_error + bool" where
  "TopicMemberRepository_HasAccess q t u s =
     listed (queryDirect q (\<lambda>db. Inr (0 < length (filter (member_of t u) (TD_members db)))) s)"

definition TopicMemberRepository_GetRole :: "stmt \<Rightarrow> TopicID \<Rightarrow> UserID \<Rightarrow> topic_store \<Rightarrow> repo_error + string" where
  "TopicMemberRepository_GetRole q t u s =
     map_sum id TM_Role (row_or ErrNotOwner (queryDirect q (\<lambda>db. Inr (find (member_of t u) (TD_members db))) s))"

subsection \<open>Invitations\<close>

definition InvitationStatus_ok :: "string \<Rightarrow> bool" where
  "InvitationStatus_ok st \<longleftrightarrow> st \<in> set [InvitationStatusPending, InvitationStatusAccepted, InvitationStatusDeclined, InvitationStatusExpired,
     InvitationStatusCancelled]"

definition insert_invitation :: "TopicInvitation \<Rightarrow> bool \<Rightarrow> topic_db \<Rightarrow> sql_error + (int \<times> topic_db)" where
  "insert_invitation v fk db =
     (if \<not> (TopicMemberRole_IsValid (TI_Role v) \<and> InvitationStatus_ok (TI_Status v)) then Inl CheckViolation
      else if TI_ID v \<in> set (map TI_ID (TD_invitations db)) \<or> TI_Token v \<in> set (map TI_Token (TD_invitations db)) then Inl UniqueViolation
      else if fk \<and> (TI_TopicID v \<notin> set (map Topic_ID (TD_topics db)) \<or> TI_InviterID v \<notin> set (TD_users db)
                 \<or> TI_InviteeUserID v \<noteq> [] \<and> TI_InviteeUserID v \<notin> set (TD_users db)) then Inl ForeignKeyViolation
      else Inr (1, db\<lparr>TD_invitations := TD_invitations db @
        [v\<lparr>TI_ExpiresAt := whole_second (TI_ExpiresAt v), TI_CreatedAt := whole_second (TI_CreatedAt v),
           TI_RespondedAt := map_option whole_second (TI_RespondedAt v)\<rparr>]\<rparr>))"

definition update_invitation :: "TopicInvitation \<Rightarrow> bool \<Rightarrow> topic_db \<Rightarrow> sql_error + (int \<times> topic_db)" where
  "update_invitation v fk db =
     (if TI_ID v \<notin> set (map TI_ID (TD_invitations db)) then Inr (0, db)
      else if \<not> InvitationStatus_ok (TI_Status v) then Inl CheckViolation
      else Inr (1, db\<lparr>TD_invitations := map (\<lambda>x. if TI_ID x = TI_ID v
          then x\<lparr>TI_Status := TI_Status v, TI_RespondedAt := map_option whole_second (TI_RespondedAt v)\<rparr> else x) (TD_invitations db)\<rparr>))"

definition delete_invitation :: "string \<Rightarrow> bool \<Rightarrow> topic_db \<Rightarrow> sql_error + (int \<times> topic_db)" where
  "delete_invitation i fk db =
     Inr (int (length (filter (\<lambda>x. TI_ID x = i) (TD_invitations db))), db\<lparr>TD_invitations := filter (\<lambda>x. TI_ID x \<noteq> i) (TD_invitations db)\<rparr>)"

text \<open>\<open>fmt\<close> is the text of an instant in whole seconds, which the comparison is on.\<close>

definition expire_pending :: "(instant \<Rightarrow> string) \<Rightarrow> instant \<Rightarrow> bool \<Rightarrow> topic_db \<Rightarrow> sql_error + (int \<times> topic_db)" where
  "expire_pending fmt now fk db =
     (let due = (\<lambda>x. TI_Status x = InvitationStatusPending \<and> \<not> text_le (fmt now) (fmt (TI_ExpiresAt x)))
      in Inr (int (length (filter due (TD_invitations db))),
              db\<lparr>TD_invitations := map (\<lambda>x. if due x then x\<lparr>TI_Status := InvitationStatusExpired\<rparr> else x) (TD_invitations db)\<rparr>))"

definition TopicInvitationRepository_Create :: "stmt \<Rightarrow> TopicInvitation \<Rightarrow> topic_store \<Rightarrow> repo_error option \<times> topic_store" where
  "TopicInvitationRepository_Create q v s = (case execDirect q (insert_invitation v) s of (r, s') \<Rightarrow> (plain r, s'))"

definition TopicInvitationRepository_Get :: "stmt \<Rightarrow> string \<Rightarrow> topic_store \<Rightarrow> repo_error + TopicInvitation" where
  "TopicInvitationRepository_Get q i s = row_or ErrOwnerNotFound (queryDirect q (\<lambda>db. Inr (find (\<lambda>v. TI_ID v = i) (TD_invitations db))) s)"

definition TopicInvitationRepository_GetByToken :: "stmt \<Rightarrow> string \<Rightarrow> topic_store \<Rightarrow> repo_error + TopicInvitation" where
  "TopicInvitationRepository_GetByToken q token s =
     row_or ErrOwnerNotFound (queryDirect q (\<lambda>db. Inr (find (\<lambda>v. TI_Token v = token) (TD_invitations db))) s)"

text \<open>Newest first, by the text of the time an invitation was made.\<close>

definition invitations_desc :: "(instant \<Rightarrow> string) \<Rightarrow> TopicInvitation list \<Rightarrow> TopicInvitation list" where
  "invitations_desc fmt vs = foldl (\<lambda>ys v. insert_desc (\<lambda>v. fmt (TI_CreatedAt v)) v ys) [] vs"

definition TopicInvitationRepository_ListByTopic ::
    "(instant \<Rightarrow> string) \<Rightarrow> stmt \<Rightarrow> TopicID \<Rightarrow> string \<Rightarrow> int \<Rightarrow> int \<Rightarrow> topic_store \<Rightarrow> repo_error + TopicInvitation list" where
  "TopicInvitationRepository_ListByTopic fmt q t status limit offset s =
     listed (queryDirect q (\<lambda>db. page limit offset (invitations_desc fmt
       (filter (\<lambda>v. TI_TopicID v = t \<and> (status \<noteq> [] \<longrightarrow> TI_Status v = status)) (TD_invitations db)))) s)"

definition TopicInvitationRepository_ListByUser :: "(instant \<Rightarrow> string) \<Rightarrow> stmt \<Rightarrow> UserID \<Rightarrow> topic_store \<Rightarrow> repo_error + TopicInvitation list" where
  "TopicInvitationRepository_ListByUser fmt q u s =
     listed (queryDirect q (\<lambda>db. Inr (invitations_desc fmt (filter (\<lambda>v. TI_InviteeUserID v \<noteq> [] \<and> TI_InviteeUserID v = u) (TD_invitations db)))) s)"

definition TopicInvitationRepository_ListByEmail :: "(instant \<Rightarrow> string) \<Rightarrow> stmt \<Rightarrow> string \<Rightarrow> topic_store \<Rightarrow> repo_error + TopicInvitation list" where
  "TopicInvitationRepository_ListByEmail fmt q email s =
     listed (queryDirect q (\<lambda>db. Inr (invitations_desc fmt (filter (\<lambda>v. TI_InviteeEmail v \<noteq> [] \<and> TI_InviteeEmail v = email) (TD_invitations db)))) s)"

definition TopicInvitationRepository_Update :: "stmt \<Rightarrow> TopicInvitation \<Rightarrow> topic_store \<Rightarrow> repo_error option \<times> topic_store" where
  "TopicInvitationRepository_Update q v s = (case execDirect q (update_invitation v) s of (r, s') \<Rightarrow> (plain r, s'))"

definition TopicInvitationRepository_Delete :: "stmt \<Rightarrow> string \<Rightarrow> topic_store \<Rightarrow> repo_error option \<times> topic_store" where
  "TopicInvitationRepository_Delete q i s = (case execDirect q (delete_invitation i) s of (r, s') \<Rightarrow> (plain r, s'))"

definition TopicInvitationRepository_ExpirePending ::
    "(instant \<Rightarrow> string) \<Rightarrow> stmt \<Rightarrow> instant \<Rightarrow> topic_store \<Rightarrow> (repo_error + int) \<times> topic_store" where
  "TopicInvitationRepository_ExpirePending fmt q now s = (case execDirect q (expire_pending fmt now) s of (r, s') \<Rightarrow> (listed r, s'))"

section \<open>The constraints of the tables\<close>

definition topics_ok :: "topic_db \<Rightarrow> bool" where
  "topics_ok db \<longleftrightarrow>
     distinct (map Topic_ID (TD_topics db)) \<and> distinct (map Topic_Name (TD_topics db)) \<and> list_all topic_checks (TD_topics db)
     \<and> distinct (map TM_ID (TD_members db)) \<and> distinct (map (\<lambda>m. (TM_TopicID m, TM_UserID m)) (TD_members db))
     \<and> list_all (\<lambda>m. TopicMemberRole_IsValid (TM_Role m)) (TD_members db)
     \<and> distinct (map TI_ID (TD_invitations db)) \<and> distinct (map TI_Token (TD_invitations db))
     \<and> list_all (\<lambda>v. TopicMemberRole_IsValid (TI_Role v) \<and> InvitationStatus_ok (TI_Status v)) (TD_invitations db)"

lemma insert_topic_ok: "insert_topic t fk db = Inr (n, db') \<Longrightarrow> topics_ok db \<Longrightarrow> topics_ok db'"
  by (auto simp: insert_topic_def topics_ok_def split: if_splits)

lemma update_topic_ok:
  assumes "update_topic now t fk db = Inr (n, db')" and ok: "topics_ok db"
  shows "topics_ok db'"
proof -
  let ?u = "map (\<lambda>x. if Topic_ID x = Topic_ID t then updated_topic now t x else x) (TD_topics db)"
  have ids: "map Topic_ID ?u = map Topic_ID (TD_topics db)" by (rule map_if_same) (simp add: updated_topic_def)
  have inj: "x = y" if "x \<in> set (TD_topics db)" "y \<in> set (TD_topics db)" "Topic_ID x = Topic_ID y" for x y
    using ok that by (auto simp: topics_ok_def distinct_map inj_on_def)
  have "topics_ok (db\<lparr>TD_topics := ?u\<rparr>)" if "topic_checks t"
    and free: "\<not> (\<exists>x \<in> set (TD_topics db). Topic_ID x \<noteq> Topic_ID t \<and> Topic_Name x = Topic_Name t)"
  proof -
    have "distinct (map Topic_Name ?u)" using ok free
      by (intro distinct_map_replace [where k = "Topic_Name t"]) (auto simp: topics_ok_def updated_topic_def dest: inj)
    moreover have "list_all topic_checks ?u" using ok that(1) by (auto simp: topics_ok_def list_all_iff topic_checks_def updated_topic_def)
    ultimately show ?thesis using ok unfolding topics_ok_def by (simp add: ids del: map_map)
  qed
  then show ?thesis using assms by (auto simp: update_topic_def split: if_splits)
qed

lemma delete_topic_ok:
  assumes "delete_topic now i fk db = Inr (n, db')" and ok: "topics_ok db"
  shows "topics_ok db'"
proof -
  let ?u = "map (\<lambda>x. if Topic_ID x = i then x\<lparr>Topic_Status := TopicStatusDeleted, Topic_UpdatedAt := now\<rparr> else x) (TD_topics db)"
  have "map Topic_ID ?u = map Topic_ID (TD_topics db)" "map Topic_Name ?u = map Topic_Name (TD_topics db)" by simp_all
  moreover have "list_all topic_checks ?u" using ok by (auto simp: topics_ok_def list_all_iff topic_checks_def TopicStatus_IsValid_def)
  ultimately have "topics_ok (db\<lparr>TD_topics := ?u\<rparr>)" using ok unfolding topics_ok_def by (simp del: map_map list.map_comp)
  then show ?thesis using assms by (auto simp: delete_topic_def split: if_splits)
qed

lemma insert_member_ok: "insert_member m fk db = Inr (n, db') \<Longrightarrow> topics_ok db \<Longrightarrow> topics_ok db'"
  by (auto simp: insert_member_def topics_ok_def split: if_splits)

lemma update_member_ok:
  assumes "update_member now m fk db = Inr (n, db')" and ok: "topics_ok db"
  shows "topics_ok db'"
proof -
  let ?u = "map (\<lambda>x. if TM_ID x = TM_ID m then x\<lparr>TM_Role := TM_Role m, TM_AcceptedAt := map_option whole_second (TM_AcceptedAt m),
      TM_UpdatedAt := whole_second now\<rparr> else x) (TD_members db)"
  have "map TM_ID ?u = map TM_ID (TD_members db)"
    "map (\<lambda>m. (TM_TopicID m, TM_UserID m)) ?u = map (\<lambda>m. (TM_TopicID m, TM_UserID m)) (TD_members db)" by simp_all
  moreover have "TopicMemberRole_IsValid (TM_Role m) \<Longrightarrow> list_all (\<lambda>m. TopicMemberRole_IsValid (TM_Role m)) ?u"
    using ok by (auto simp: topics_ok_def list_all_iff)
  ultimately have "TopicMemberRole_IsValid (TM_Role m) \<Longrightarrow> topics_ok (db\<lparr>TD_members := ?u\<rparr>)"
    using ok unfolding topics_ok_def by (simp del: map_map list.map_comp)
  then show ?thesis using assms by (auto simp: update_member_def split: if_splits)
qed

lemma delete_member_ok: "delete_member t u fk db = Inr (n, db') \<Longrightarrow> topics_ok db \<Longrightarrow> topics_ok db'"
  by (auto simp: delete_member_def topics_ok_def distinct_map_filter list_all_iff)

lemma insert_invitation_ok: "insert_invitation v fk db = Inr (n, db') \<Longrightarrow> topics_ok db \<Longrightarrow> topics_ok db'"
  by (auto simp: insert_invitation_def topics_ok_def split: if_splits)

lemma update_invitation_ok:
  assumes "update_invitation v fk db = Inr (n, db')" and ok: "topics_ok db"
  shows "topics_ok db'"
proof -
  let ?u = "map (\<lambda>x. if TI_ID x = TI_ID v then x\<lparr>TI_Status := TI_Status v, TI_RespondedAt := map_option whole_second (TI_RespondedAt v)\<rparr> else x)
      (TD_invitations db)"
  have "map TI_ID ?u = map TI_ID (TD_invitations db)" "map TI_Token ?u = map TI_Token (TD_invitations db)" by simp_all
  moreover have "InvitationStatus_ok (TI_Status v) \<Longrightarrow> list_all (\<lambda>v. TopicMemberRole_IsValid (TI_Role v) \<and> InvitationStatus_ok (TI_Status v)) ?u"
    using ok by (auto simp: topics_ok_def list_all_iff)
  ultimately have "InvitationStatus_ok (TI_Status v) \<Longrightarrow> topics_ok (db\<lparr>TD_invitations := ?u\<rparr>)"
    using ok unfolding topics_ok_def by (simp del: map_map list.map_comp)
  then show ?thesis using assms by (auto simp: update_invitation_def split: if_splits)
qed

lemmas topic_statements_ok = insert_topic_ok update_topic_ok delete_topic_ok insert_member_ok update_member_ok delete_member_ok insert_invitation_ok
  update_invitation_ok

text \<open>What an operation leaves in the tables: either nothing changed, or the statement ran.\<close>

definition changed_by :: "stmt \<Rightarrow> (bool \<Rightarrow> topic_db \<Rightarrow> sql_error + (int \<times> topic_db)) \<Rightarrow> topic_store \<Rightarrow> topic_store \<Rightarrow> bool" where
  "changed_by q run s s' \<longleftrightarrow> SS_db s' = SS_db s \<or> SQ_ok q \<and> (\<exists>n. run (SQ_fk q) (SS_db s) = Inr (n, SS_db s'))"

lemma direct_changed: "execDirect q run s = (r, s') \<Longrightarrow> changed_by q run s s'"
  by (auto simp: execDirect_def changed_by_def split: sum.splits prod.splits if_splits)

lemma direct_done: "execDirect q run s = (Inr n, s') \<Longrightarrow> run (SQ_fk q) (SS_db s) = Inr (n, SS_db s')"
  by (auto simp: execDirect_def split: sum.splits prod.splits if_splits)

lemma topic_reads [simp]:
  "SS_db (snd (TopicRepository_Get env q i s)) = SS_db s"
  "SS_db (snd (TopicRepository_GetByName env q name s)) = SS_db s"
  "SS_db (snd (TopicRepository_List tt order_by env q f s)) = SS_db s"
  "SS_db (snd (TopicRepository_Count env q f s)) = SS_db s"
  by (simp_all add: TopicRepository_Get_def TopicRepository_GetByName_def TopicRepository_List_def TopicRepository_Count_def case_prod_beta)

lemma topic_changes:
  "TopicRepository_Create env q t s = (e, s') \<Longrightarrow> changed_by q (insert_topic t) s s'"
  "TopicRepository_Update env q now t s = (e, s') \<Longrightarrow> changed_by q (update_topic now t) s s'"
  "TopicRepository_Delete env q now i s = (e, s') \<Longrightarrow> changed_by q (delete_topic now i) s s'"
  by (auto simp: TopicRepository_Create_def TopicRepository_Update_def TopicRepository_Delete_def changed_by_def
      split: option.splits prod.splits sum.splits dest!: exec_result)

lemma member_changes:
  "TopicMemberRepository_Create q m s = (e, s') \<Longrightarrow> changed_by q (insert_member m) s s'"
  "TopicMemberRepository_Update q now m s = (e, s') \<Longrightarrow> changed_by q (update_member now m) s s'"
  "TopicMemberRepository_Delete q t u s = (e, s') \<Longrightarrow> changed_by q (delete_member t u) s s'"
  "TopicInvitationRepository_Create q v s = (e, s') \<Longrightarrow> changed_by q (insert_invitation v) s s'"
  "TopicInvitationRepository_Update q v s = (e, s') \<Longrightarrow> changed_by q (update_invitation v) s s'"
  by (auto simp: TopicMemberRepository_Create_def TopicMemberRepository_Update_def TopicMemberRepository_Delete_def
      TopicInvitationRepository_Create_def TopicInvitationRepository_Update_def split: prod.splits dest: direct_changed)

end
