(* ===== verification/Topic_Members.thy ===== *)
theory Topic_Members
  imports Topic_Repo Auth One_Time
begin

text \<open>
  The membership manager of the topic service (\<open>internal/grpc/services/topic/membership.go\<close>): invitations,
  roles, ownership and the restoring of a deleted topic, over the repositories of topics, members and
  invitations. The calls of one operation are numbered in the order of the code: \<open>W_stmt w n\<close> decides the
  \<open>n\<close>th statement, \<open>W_now w n\<close> is the \<open>n\<close>th reading of the clock. The audit logger is the list
  of the calls it got, \<open>None\<close> when there is none.

  Shown: no operation of the manager takes the last owner of a topic away.
\<close>

section \<open>Definitions\<close>

record topic_world = world +
  W_uuid :: "nat \<Rightarrow> string"

type_synonym service_call = "string \<times> string \<times> string \<times> (string \<times> string) list"

record MembershipManager =
  MM_store :: topic_store
  MM_auditLogger :: "service_call list option"

definition NewMembershipManager :: "topic_store \<Rightarrow> service_call list option \<Rightarrow> MembershipManager" where
  "NewMembershipManager s logger = \<lparr>MM_store = s, MM_auditLogger = logger\<rparr>"

definition LogServiceAction :: "service_call \<Rightarrow> service_call list option \<Rightarrow> service_call list option" where
  "LogServiceAction c logger = map_option (\<lambda>cs. cs @ [c]) logger"

definition generateSecureToken :: "bytes option \<Rightarrow> string" where
  "generateSecureToken r = hex_EncodeToString (case r of Some b \<Rightarrow> b | None \<Rightarrow> replicate 32 0)"

record InviteMemberRequest =
  IQ_TopicID :: TopicID
  IQ_InviterID :: UserID
  IQ_InviteeEmail :: string
  IQ_InviteeID :: UserID
  IQ_Role :: string
  IQ_Message :: string
  IQ_ExpiresIn :: duration

definition new_invitation :: "topic_world \<Rightarrow> InviteMemberRequest \<Rightarrow> TopicInvitation" where
  "new_invitation w req =
     \<lparr>TI_ID = W_uuid w 0, TI_TopicID = IQ_TopicID req, TI_InviterID = IQ_InviterID req, TI_InviteeEmail = IQ_InviteeEmail req,
      TI_InviteeUserID = IQ_InviteeID req, TI_Role = IQ_Role req, TI_Token = generateSecureToken (W_random w 0), TI_Message = IQ_Message req,
      TI_Status = InvitationStatusPending,
      TI_ExpiresAt = (if IQ_ExpiresIn req = 0 then W_now w 1 + 7 * 24 * 3600 * 1000000000 else W_now w 0 + IQ_ExpiresIn req),
      TI_CreatedAt = W_now w 2, TI_RespondedAt = None\<rparr>"

definition InviteMember ::
    "topic_world \<Rightarrow> InviteMemberRequest \<Rightarrow> MembershipManager \<Rightarrow> (repo_error + TopicInvitation \<times> string) \<times> MembershipManager" where
  "InviteMember w req m =
     (if TopicMemberRepository_GetRole (W_stmt w 0) (IQ_TopicID req) (IQ_InviterID req) (MM_store m) \<noteq> Inr TopicMemberRoleOwner
        then (Inl (Rejected ErrNotOwner), m)
      else if IQ_InviteeEmail req = [] \<and> IQ_InviteeID req = [] then (Inl (Rejected ErrInvalidOperation), m)
      else if IQ_InviteeID req \<noteq> [] \<and> \<not> isl (TopicMemberRepository_Get (W_stmt w 1) (IQ_TopicID req) (IQ_InviteeID req) (MM_store m))
        then (Inl (Rejected ErrUserExists), m)
      else let v = new_invitation w req
           in case TopicInvitationRepository_Create (W_stmt w 2) v (MM_store m) of
                (Some err, s) \<Rightarrow> (Inl err, m\<lparr>MM_store := s\<rparr>)
              | (None, s) \<Rightarrow>
                  (Inr (v, TI_Token v),
                   m\<lparr>MM_store := s, MM_auditLogger := LogServiceAction (''CREATE'', ''topic_invitation'', TI_ID v, [(''topic_id'', IQ_TopicID req)])
                                                       (MM_auditLogger m)\<rparr>))"

definition responded :: "string \<Rightarrow> instant \<Rightarrow> TopicInvitation \<Rightarrow> TopicInvitation" where
  "responded st now v = v\<lparr>TI_Status := st, TI_RespondedAt := Some now\<rparr>"

definition accepted_member :: "topic_world \<Rightarrow> TopicInvitation \<Rightarrow> UserID \<Rightarrow> TopicMember" where
  "accepted_member w v userID =
     \<lparr>TM_ID = W_uuid w 0, TM_TopicID = TI_TopicID v, TM_UserID = userID, TM_Role = TI_Role v, TM_InvitedBy = TI_InviterID v,
      TM_InvitedAt = TI_CreatedAt v, TM_AcceptedAt = Some (W_now w 1), TM_CreatedAt = W_now w 1, TM_UpdatedAt = W_now w 1\<rparr>"

definition AcceptInvitation :: "topic_world \<Rightarrow> string \<Rightarrow> UserID \<Rightarrow> MembershipManager \<Rightarrow> (repo_error + TopicMember) \<times> MembershipManager" where
  "AcceptInvitation w token userID m =
     (case TopicInvitationRepository_GetByToken (W_stmt w 0) token (MM_store m) of
        Inl err \<Rightarrow> (Inl err, m)
      | Inr v \<Rightarrow>
          if TI_Status v \<noteq> InvitationStatusPending then (Inl (Rejected ErrInvalidOperation), m)
          else if TI_ExpiresAt v < W_now w 0
            then (Inl (Rejected ErrSessionExpired),
                  m\<lparr>MM_store := snd (TopicInvitationRepository_Update (W_stmt w 1) (responded InvitationStatusExpired (W_now w 1) v) (MM_store m))\<rparr>)
          else if TI_InviteeUserID v \<noteq> [] \<and> TI_InviteeUserID v \<noteq> userID then (Inl (Rejected ErrUnauthorized), m)
          else let x = accepted_member w v userID
               in case TopicMemberRepository_Create (W_stmt w 1) x (MM_store m) of
                    (Some err, s) \<Rightarrow> (Inl err, m\<lparr>MM_store := s\<rparr>)
                  | (None, s) \<Rightarrow>
                      (Inr x,
                       m\<lparr>MM_store := snd (TopicInvitationRepository_Update (W_stmt w 2) (responded InvitationStatusAccepted (W_now w 1) v) s),
                         MM_auditLogger := LogServiceAction (''CREATE'', ''topic_member'', TM_ID x, [(''topic_id'', TI_TopicID v)]) (MM_auditLogger m)\<rparr>))"

definition DeclineInvitation :: "topic_world \<Rightarrow> string \<Rightarrow> UserID \<Rightarrow> MembershipManager \<Rightarrow> repo_error option \<times> MembershipManager" where
  "DeclineInvitation w token userID m =
     (case TopicInvitationRepository_GetByToken (W_stmt w 0) token (MM_store m) of
        Inl err \<Rightarrow> (Some err, m)
      | Inr v \<Rightarrow>
          if TI_Status v \<noteq> InvitationStatusPending then (Some (Rejected ErrInvalidOperation), m)
          else if TI_InviteeUserID v \<noteq> [] \<and> TI_InviteeUserID v \<noteq> userID then (Some (Rejected ErrUnauthorized), m)
          else case TopicInvitationRepository_Update (W_stmt w 1) (responded InvitationStatusDeclined (W_now w 0) v) (MM_store m) of
                 (err, s) \<Rightarrow> (err, m\<lparr>MM_store := s\<rparr>))"

definition CancelInvitation :: "topic_world \<Rightarrow> string \<Rightarrow> UserID \<Rightarrow> MembershipManager \<Rightarrow> repo_error option \<times> MembershipManager" where
  "CancelInvitation w invitationID cancellerID m =
     (case TopicInvitationRepository_Get (W_stmt w 0) invitationID (MM_store m) of
        Inl err \<Rightarrow> (Some err, m)
      | Inr v \<Rightarrow>
          if TI_InviterID v \<noteq> cancellerID
             \<and> TopicMemberRepository_GetRole (W_stmt w 1) (TI_TopicID v) cancellerID (MM_store m) \<noteq> Inr TopicMemberRoleOwner
            then (Some (Rejected ErrNotOwner), m)
          else if TI_Status v \<noteq> InvitationStatusPending then (Some (Rejected ErrInvalidOperation), m)
          else case TopicInvitationRepository_Update (W_stmt w 2) (responded InvitationStatusCancelled (W_now w 0) v) (MM_store m) of
                 (err, s) \<Rightarrow> (err, m\<lparr>MM_store := s\<rparr>))"

text \<open>The refusal to change the last owner, when there is one.\<close>

definition last_owner_check :: "stmt \<Rightarrow> TopicID \<Rightarrow> topic_store \<Rightarrow> repo_error option" where
  "last_owner_check q t s =
     (case TopicMemberRepository_CountOwners q t s of
        Inl err \<Rightarrow> Some err
      | Inr n \<Rightarrow> if n \<le> 1 then Some (Rejected ErrCannotRemoveLastOwner) else None)"

definition UpdateMemberRole ::
    "topic_world \<Rightarrow> TopicID \<Rightarrow> UserID \<Rightarrow> UserID \<Rightarrow> string \<Rightarrow> MembershipManager \<Rightarrow> repo_error option \<times> MembershipManager" where
  "UpdateMemberRole w t updaterID memberID newRole m =
     (if TopicMemberRepository_GetRole (W_stmt w 0) t updaterID (MM_store m) \<noteq> Inr TopicMemberRoleOwner then (Some (Rejected ErrNotOwner), m)
      else case TopicMemberRepository_Get (W_stmt w 1) t memberID (MM_store m) of
             Inl err \<Rightarrow> (Some err, m)
           | Inr x \<Rightarrow>
               (case (if TM_Role x = TopicMemberRoleOwner \<and> newRole \<noteq> TopicMemberRoleOwner then last_owner_check (W_stmt w 2) t (MM_store m) else None) of
                  Some err \<Rightarrow> (Some err, m)
                | None \<Rightarrow>
                    (case TopicMemberRepository_Update (W_stmt w 3) (W_now w 1) (x\<lparr>TM_Role := newRole, TM_UpdatedAt := W_now w 0\<rparr>) (MM_store m) of
                       (Some err, s) \<Rightarrow> (Some err, m\<lparr>MM_store := s\<rparr>)
                     | (None, s) \<Rightarrow>
                         (None, m\<lparr>MM_store := s, MM_auditLogger :=
                            LogServiceAction (''UPDATE'', ''topic_member'', TM_ID x, [(''new_role'', newRole)]) (MM_auditLogger m)\<rparr>))))"

definition RemoveMember ::
    "topic_world \<Rightarrow> TopicID \<Rightarrow> UserID \<Rightarrow> UserID \<Rightarrow> MembershipManager \<Rightarrow> repo_error option \<times> MembershipManager" where
  "RemoveMember w t removerID memberID m =
     (if TopicMemberRepository_GetRole (W_stmt w 0) t removerID (MM_store m) \<noteq> Inr TopicMemberRoleOwner then (Some (Rejected ErrNotOwner), m)
      else case TopicMemberRepository_Get (W_stmt w 1) t memberID (MM_store m) of
             Inl err \<Rightarrow> (Some err, m)
           | Inr x \<Rightarrow>
               (case (if TM_Role x = TopicMemberRoleOwner then last_owner_check (W_stmt w 2) t (MM_store m) else None) of
                  Some err \<Rightarrow> (Some err, m)
                | None \<Rightarrow>
                    (case TopicMemberRepository_Delete (W_stmt w 3) t memberID (MM_store m) of
                       (Some err, s) \<Rightarrow> (Some err, m\<lparr>MM_store := s\<rparr>)
                     | (None, s) \<Rightarrow>
                         (None, m\<lparr>MM_store := s, MM_auditLogger :=
                            LogServiceAction (''DELETE'', ''topic_member'', TM_ID x, [(''topic_id'', t)]) (MM_auditLogger m)\<rparr>))))"

definition ListMembers :: "topic_world \<Rightarrow> TopicID \<Rightarrow> UserID \<Rightarrow> MembershipManager \<Rightarrow> repo_error + TopicMember list" where
  "ListMembers w t requesterID m =
     (if TopicMemberRepository_HasAccess (W_stmt w 0) t requesterID (MM_store m) \<noteq> Inr True then Inl (Rejected ErrUnauthorized)
      else TopicMemberRepository_ListByTopic (W_stmt w 1) t [] 0 0 (MM_store m))"

text \<open>\<open>fmt\<close> is the text of a time in whole seconds, which the listings order by.\<close>

definition ListPendingInvitations ::
    "(instant \<Rightarrow> string) \<Rightarrow> topic_world \<Rightarrow> TopicID \<Rightarrow> UserID \<Rightarrow> MembershipManager \<Rightarrow> repo_error + TopicInvitation list" where
  "ListPendingInvitations fmt w t requesterID m =
     (if TopicMemberRepository_GetRole (W_stmt w 0) t requesterID (MM_store m) \<noteq> Inr TopicMemberRoleOwner then Inl (Rejected ErrNotOwner)
      else TopicInvitationRepository_ListByTopic fmt (W_stmt w 1) t InvitationStatusPending 0 0 (MM_store m))"

definition ListMyInvitations :: "(instant \<Rightarrow> string) \<Rightarrow> topic_world \<Rightarrow> UserID \<Rightarrow> MembershipManager \<Rightarrow> repo_error + TopicInvitation list" where
  "ListMyInvitations fmt w userID m = TopicInvitationRepository_ListByUser fmt (W_stmt w 0) userID (MM_store m)"

definition TransferOwnership ::
    "topic_world \<Rightarrow> TopicID \<Rightarrow> UserID \<Rightarrow> UserID \<Rightarrow> MembershipManager \<Rightarrow> repo_error option \<times> MembershipManager" where
  "TransferOwnership w t fromID toID m =
     (if TopicMemberRepository_GetRole (W_stmt w 0) t fromID (MM_store m) \<noteq> Inr TopicMemberRoleOwner then (Some (Rejected ErrNotOwner), m)
      else case TopicMemberRepository_Get (W_stmt w 1) t toID (MM_store m) of
             Inl err \<Rightarrow> (Some (Rejected ErrOwnerNotFound), m)
           | Inr x \<Rightarrow>
               (case TopicMemberRepository_Update (W_stmt w 2) (W_now w 1) (x\<lparr>TM_Role := TopicMemberRoleOwner, TM_UpdatedAt := W_now w 0\<rparr>)
                       (MM_store m) of
                  (Some err, s) \<Rightarrow> (Some err, m\<lparr>MM_store := s\<rparr>)
                | (None, s) \<Rightarrow>
                    (None, m\<lparr>MM_store := s, MM_auditLogger := LogServiceAction (''UPDATE'', ''topic_member'', TM_ID x,
                       [(''action'', ''transfer_ownership''), (''from'', fromID), (''to'', toID)]) (MM_auditLogger m)\<rparr>)))"

text \<open>The members that are not owners leave, one statement each; a statement that fails is passed over.\<close>

fun remove_members :: "(nat \<Rightarrow> stmt) \<Rightarrow> nat \<Rightarrow> TopicID \<Rightarrow> TopicMember list \<Rightarrow> topic_store \<Rightarrow> topic_store" where
  "remove_members q n t [] s = s"
| "remove_members q n t (x # xs) s =
     (if TM_Role x \<noteq> TopicMemberRoleOwner then remove_members q (n + 1) t xs (snd (TopicMemberRepository_Delete (q n) t (TM_UserID x) s))
      else remove_members q n t xs s)"

definition RestoreTopic :: "sql_env \<Rightarrow> topic_world \<Rightarrow> TopicID \<Rightarrow> UserID \<Rightarrow> MembershipManager \<Rightarrow> repo_error option \<times> MembershipManager" where
  "RestoreTopic env w t ownerID m =
     (if TopicMemberRepository_GetRole (W_stmt w 0) t ownerID (MM_store m) \<noteq> Inr TopicMemberRoleOwner then (Some (Rejected ErrNotOwner), m)
      else case TopicRepository_Get env (W_stmt w 1) t (MM_store m) of
             (Inl err, s) \<Rightarrow> (Some err, m\<lparr>MM_store := s\<rparr>)
           | (Inr topic, s) \<Rightarrow>
               if Topic_Status topic \<noteq> TopicStatusDeleted then (Some (Rejected ErrInvalidOperation), m\<lparr>MM_store := s\<rparr>)
               else (case TopicRepository_Update env (W_stmt w 2) (W_now w 1)
                            (topic\<lparr>Topic_Status := TopicStatusActive, Topic_UpdatedAt := W_now w 0\<rparr>) s of
                       (Some err, s1) \<Rightarrow> (Some err, m\<lparr>MM_store := s1\<rparr>)
                     | (None, s1) \<Rightarrow>
                         (case TopicMemberRepository_ListByTopic (W_stmt w 3) t [] 0 0 s1 of
                            Inl err \<Rightarrow> (Some err, m\<lparr>MM_store := s1\<rparr>)
                          | Inr xs \<Rightarrow>
                              (None, m\<lparr>MM_store := remove_members (W_stmt w) 4 t xs s1, MM_auditLogger :=
                                 LogServiceAction (''UPDATE'', ''topic'', t, [(''action'', ''restore'')]) (MM_auditLogger m)\<rparr>))))"

text \<open>The operations that change the tables.\<close>

datatype membership_op =
    MInvite InviteMemberRequest | MAccept string UserID | MDecline string UserID | MCancel string UserID
  | MSetRole TopicID UserID UserID string | MRemove TopicID UserID UserID | MTransfer TopicID UserID UserID | MRestore TopicID UserID

fun membership_apply :: "sql_env \<Rightarrow> topic_world \<Rightarrow> membership_op \<Rightarrow> MembershipManager \<Rightarrow> MembershipManager" where
  "membership_apply env w (MInvite req) m = snd (InviteMember w req m)"
| "membership_apply env w (MAccept token u) m = snd (AcceptInvitation w token u m)"
| "membership_apply env w (MDecline token u) m = snd (DeclineInvitation w token u m)"
| "membership_apply env w (MCancel i u) m = snd (CancelInvitation w i u m)"
| "membership_apply env w (MSetRole t a b r) m = snd (UpdateMemberRole w t a b r m)"
| "membership_apply env w (MRemove t a b) m = snd (RemoveMember w t a b m)"
| "membership_apply env w (MTransfer t a b) m = snd (TransferOwnership w t a b m)"
| "membership_apply env w (MRestore t u) m = snd (RestoreTopic env w t u m)"

section \<open>Invariants of the tables\<close>

definition is_topic_owner :: "TopicID \<Rightarrow> TopicMember \<Rightarrow> bool" where
  "is_topic_owner t m \<longleftrightarrow> TM_TopicID m = t \<and> TM_Role m = TopicMemberRoleOwner"

definition owner_count :: "TopicID \<Rightarrow> topic_db \<Rightarrow> nat" where
  "owner_count t db = length (filter (is_topic_owner t) (TD_members db))"

lemma member_found: "TopicMemberRepository_Get q t u s = Inr x \<Longrightarrow> x \<in> set (TD_members (SS_db s)) \<and> member_of t u x"
  by (auto simp: TopicMemberRepository_Get_def row_or_def queryDirect_def find_Some_iff split: sum.splits option.splits if_splits)

lemma more_owners: "last_owner_check q t s = None \<Longrightarrow> 1 < owner_count t (SS_db s)"
  by (auto simp: last_owner_check_def TopicMemberRepository_CountOwners_def listed_def queryDirect_def owner_count_def
      is_topic_owner_def [abs_def] split: sum.splits if_splits)

lemma only_member: "topics_ok db \<Longrightarrow> x \<in> set (TD_members db) \<Longrightarrow> y \<in> set (TD_members db) \<Longrightarrow> member_of t u x \<Longrightarrow> member_of t u y \<Longrightarrow> x = y"
  by (auto simp: topics_ok_def member_of_def distinct_map inj_on_def)

lemma delete_subset: "set (TD_members (SS_db (snd (TopicMemberRepository_Delete q t i s)))) \<subseteq> set (TD_members (SS_db s))"
  by (auto simp: TopicMemberRepository_Delete_def execDirect_def delete_member_def split: if_splits)

lemma listed_members: "TopicMemberRepository_ListByTopic q t [] 0 0 s = Inr xs \<Longrightarrow> xs = filter (\<lambda>m. TM_TopicID m = t) (TD_members (SS_db s))"
  by (auto simp: TopicMemberRepository_ListByTopic_def listed_def queryDirect_def page_def split: sum.splits if_splits)

text \<open>
  The contract between the operations on members and a predicate on the tables: every statement keeps it, the
  ones that end an ownership when another owner of the topic is left.
\<close>

locale membership_invariant =
  fixes P :: "topic_db \<Rightarrow> bool"
  assumes constraints: "P db \<Longrightarrow> topics_ok db"
    and keeps_insert_topic: "insert_topic topic fk db = Inr (n, db') \<Longrightarrow> P db \<Longrightarrow> P db'"
    and keeps_update_topic: "update_topic now topic fk db = Inr (n, db') \<Longrightarrow> P db \<Longrightarrow> P db'"
    and keeps_delete_topic: "delete_topic now i fk db = Inr (n, db') \<Longrightarrow> P db \<Longrightarrow> P db'"
    and keeps_insert_member: "insert_member m fk db = Inr (n, db') \<Longrightarrow> P db \<Longrightarrow> P db'"
    and keeps_insert_invitation: "insert_invitation v fk db = Inr (n, db') \<Longrightarrow> P db \<Longrightarrow> P db'"
    and keeps_update_invitation: "update_invitation v fk db = Inr (n, db') \<Longrightarrow> P db \<Longrightarrow> P db'"
    and keeps_role: "update_member now (x\<lparr>TM_Role := r, TM_UpdatedAt := u\<rparr>) fk db = Inr (n, db') \<Longrightarrow> x \<in> set (TD_members db)
          \<Longrightarrow> (TM_Role x = TopicMemberRoleOwner \<and> r \<noteq> TopicMemberRoleOwner \<longrightarrow> 1 < owner_count (TM_TopicID x) db) \<Longrightarrow> P db \<Longrightarrow> P db'"
    and keeps_delete: "delete_member t i fk db = Inr (n, db')
          \<Longrightarrow> (\<forall>x \<in> set (TD_members db). member_of t i x \<and> TM_Role x = TopicMemberRoleOwner \<longrightarrow> 1 < owner_count t db) \<Longrightarrow> P db \<Longrightarrow> P db'"
begin

lemma changed_keeps: "changed_by q run s s' \<Longrightarrow> P (SS_db s) \<Longrightarrow> (\<And>n db'. run (SQ_fk q) (SS_db s) = Inr (n, db') \<Longrightarrow> P db') \<Longrightarrow> P (SS_db s')"
  by (auto simp: changed_by_def)

lemma create_topic_keeps: "TopicRepository_Create env q x s = (e, s') \<Longrightarrow> P (SS_db s) \<Longrightarrow> P (SS_db s')"
  by (blast dest: topic_changes intro: changed_keeps keeps_insert_topic)

lemma update_topic_keeps: "TopicRepository_Update env q now x s = (e, s') \<Longrightarrow> P (SS_db s) \<Longrightarrow> P (SS_db s')"
  by (blast dest: topic_changes intro: changed_keeps keeps_update_topic)

lemma delete_topic_keeps: "TopicRepository_Delete env q now i s = (e, s') \<Longrightarrow> P (SS_db s) \<Longrightarrow> P (SS_db s')"
  by (blast dest: topic_changes intro: changed_keeps keeps_delete_topic)

lemma create_member_keeps: "TopicMemberRepository_Create q m s = (e, s') \<Longrightarrow> P (SS_db s) \<Longrightarrow> P (SS_db s')"
  by (blast dest: member_changes intro: changed_keeps keeps_insert_member)

lemma create_invitation_keeps: "TopicInvitationRepository_Create q v s = (e, s') \<Longrightarrow> P (SS_db s) \<Longrightarrow> P (SS_db s')"
  by (blast dest: member_changes intro: changed_keeps keeps_insert_invitation)

lemma update_invitation_keeps: "TopicInvitationRepository_Update q v s = (e, s') \<Longrightarrow> P (SS_db s) \<Longrightarrow> P (SS_db s')"
  by (blast dest: member_changes intro: changed_keeps keeps_update_invitation)

lemma get_topic_keeps: "TopicRepository_Get env q i s = (r, s') \<Longrightarrow> P (SS_db s) \<Longrightarrow> P (SS_db s')"
  using topic_reads(1) [of env q i s] by simp

lemma get_by_name_keeps: "TopicRepository_GetByName env q i s = (r, s') \<Longrightarrow> P (SS_db s) \<Longrightarrow> P (SS_db s')"
  using topic_reads(2) [of env q i s] by simp

lemmas keeps = create_topic_keeps update_topic_keeps delete_topic_keeps create_member_keeps create_invitation_keeps update_invitation_keeps
  get_topic_keeps get_by_name_keeps

lemma update_invitation_keeps': "P (SS_db s) \<Longrightarrow> P (SS_db (snd (TopicInvitationRepository_Update q v s)))"
  by (rule update_invitation_keeps [OF prod.collapse [symmetric]])

lemma role_keeps:
  assumes "TopicMemberRepository_Update q now (x\<lparr>TM_Role := r, TM_UpdatedAt := u\<rparr>) s = (e, s')" and "x \<in> set (TD_members (SS_db s))"
    and "TM_Role x = TopicMemberRoleOwner \<and> r \<noteq> TopicMemberRoleOwner \<longrightarrow> 1 < owner_count (TM_TopicID x) (SS_db s)" and "P (SS_db s)"
  shows "P (SS_db s')"
  by (rule changed_keeps [OF member_changes(2) [OF assms(1)] assms(4)]) (rule keeps_role [OF _ assms(2-4)])

lemma delete_keeps:
  assumes "TopicMemberRepository_Delete q t i s = (e, s')"
    and "\<forall>x \<in> set (TD_members (SS_db s)). member_of t i x \<and> TM_Role x = TopicMemberRoleOwner \<longrightarrow> 1 < owner_count t (SS_db s)" and "P (SS_db s)"
  shows "P (SS_db s')"
  by (rule changed_keeps [OF member_changes(3) [OF assms(1)] assms(3)]) (rule keeps_delete [OF _ assms(2-3)])

lemma delete_others_keeps:
  assumes "P (SS_db s)" and "\<forall>x \<in> set (TD_members (SS_db s)). member_of t i x \<longrightarrow> TM_Role x \<noteq> TopicMemberRoleOwner"
  shows "P (SS_db (snd (TopicMemberRepository_Delete q t i s)))"
  by (rule delete_keeps [where e = "fst (TopicMemberRepository_Delete q t i s)"]) (use assms in auto)

lemma remove_members_keeps:
  "P (SS_db s) \<Longrightarrow> set xs \<subseteq> M \<Longrightarrow> set (TD_members (SS_db s)) \<subseteq> M \<Longrightarrow> inj_on (\<lambda>x. (TM_TopicID x, TM_UserID x)) M \<Longrightarrow> \<forall>x \<in> set xs. TM_TopicID x = t
     \<Longrightarrow> P (SS_db (remove_members q n t xs s))"
proof (induction q n t xs s rule: remove_members.induct)
  case (2 q n t x xs s)
  let ?s = "snd (TopicMemberRepository_Delete (q n) t (TM_UserID x) s)"
  show ?case
  proof (cases "TM_Role x = TopicMemberRoleOwner")
    case False
    have "TM_Role y \<noteq> TopicMemberRoleOwner" if "y \<in> set (TD_members (SS_db s))" "member_of t (TM_UserID x) y" for y
    proof -
      have "y = x" by (rule inj_onD [OF "2.prems"(4)]) (use 2 that in \<open>auto simp: member_of_def\<close>)
      then show ?thesis using False by simp
    qed
    then have "P (SS_db ?s)" using 2 by (intro delete_others_keeps) simp_all
    moreover have "set (TD_members (SS_db ?s)) \<subseteq> M" using delete_subset 2(5) by (rule subset_trans)
    ultimately show ?thesis using 2 False by simp
  qed (use 2 in simp)
qed simp

lemma invite_keeps: "P (SS_db (MM_store m)) \<Longrightarrow> P (SS_db (MM_store (snd (InviteMember w req m))))"
  by (auto simp: InviteMember_def Let_def split: prod.split option.split dest: keeps)

lemma accept_keeps: "P (SS_db (MM_store m)) \<Longrightarrow> P (SS_db (MM_store (snd (AcceptInvitation w token u m))))"
  by (auto simp: AcceptInvitation_def Let_def update_invitation_keeps' split: sum.split prod.split option.split dest: keeps)

lemma decline_keeps: "P (SS_db (MM_store m)) \<Longrightarrow> P (SS_db (MM_store (snd (DeclineInvitation w token u m))))"
  by (auto simp: DeclineInvitation_def split: sum.split prod.split dest: keeps)

lemma cancel_keeps: "P (SS_db (MM_store m)) \<Longrightarrow> P (SS_db (MM_store (snd (CancelInvitation w i u m))))"
  by (auto simp: CancelInvitation_def split: sum.split prod.split dest: keeps)

lemma transfer_keeps: "P (SS_db (MM_store m)) \<Longrightarrow> P (SS_db (MM_store (snd (TransferOwnership w t a b m))))"
  by (auto simp: TransferOwnership_def split: sum.split prod.split option.split dest!: member_found elim: role_keeps)

lemma set_role_keeps: "P (SS_db (MM_store m)) \<Longrightarrow> P (SS_db (MM_store (snd (UpdateMemberRole w t a b r m))))"
  by (auto simp: UpdateMemberRole_def member_of_def split: sum.split prod.split option.split
      dest!: member_found more_owners elim!: role_keeps)

lemma remove_keeps: "P (SS_db (MM_store m)) \<Longrightarrow> P (SS_db (MM_store (snd (RemoveMember w t a b m))))"
  by (auto simp: RemoveMember_def split: sum.split prod.split option.split
      dest!: member_found more_owners elim!: delete_keeps dest: only_member [OF constraints])

lemma restore_keeps: "P (SS_db (MM_store m)) \<Longrightarrow> P (SS_db (MM_store (snd (RestoreTopic env w t u m))))"
proof -
  have "P (SS_db (remove_members q n t xs s))" if "P (SS_db s)" "TopicMemberRepository_ListByTopic q' t [] 0 0 s = Inr xs" for q n xs s q'
    using constraints [OF that(1)] listed_members [OF that(2)] that(1)
    by (intro remove_members_keeps [where M = "set (TD_members (SS_db s))"]) (auto simp: topics_ok_def distinct_map)
  then show "P (SS_db (MM_store m)) \<Longrightarrow> ?thesis"
    by (auto simp: RestoreTopic_def split: sum.split prod.split option.split dest: keeps)
qed

theorem membership_keeps: "P (SS_db (MM_store m)) \<Longrightarrow> P (SS_db (MM_store (membership_apply env w op m)))"
  by (cases op) (simp_all add: invite_keeps accept_keeps decline_keeps cancel_keeps transfer_keeps set_role_keeps remove_keeps restore_keeps)

end

interpretation rows: membership_invariant topics_ok
  by unfold_locales (blast intro: topic_statements_ok)+

subsection \<open>Owners\<close>

lemma another_element: "distinct xs \<Longrightarrow> 1 < length xs \<Longrightarrow> \<exists>y \<in> set xs. y \<noteq> x"
  by (cases xs; cases "tl xs") auto

lemma owner_count_pos: "0 < owner_count t db \<longleftrightarrow> (\<exists>m \<in> set (TD_members db). is_topic_owner t m)"
  by (auto simp: owner_count_def filter_empty_conv)

lemma another_owner:
  assumes "topics_ok db" and "1 < owner_count t db"
  shows "\<exists>y \<in> set (TD_members db). y \<noteq> x \<and> is_topic_owner t y"
  using another_element [of "filter (is_topic_owner t) (TD_members db)" x] assms by (auto simp: owner_count_def topics_ok_def distinct_map)

lemma same_member_id: "topics_ok db \<Longrightarrow> x \<in> set (TD_members db) \<Longrightarrow> y \<in> set (TD_members db) \<Longrightarrow> TM_ID x = TM_ID y \<Longrightarrow> x = y"
  by (auto simp: topics_ok_def distinct_map inj_on_def)

lemma role_owner:
  assumes u: "update_member now (x\<lparr>TM_Role := r, TM_UpdatedAt := v\<rparr>) fk db = Inr (n, db')" and x: "x \<in> set (TD_members db)"
    and others: "TM_Role x = TopicMemberRoleOwner \<and> r \<noteq> TopicMemberRoleOwner \<longrightarrow> 1 < owner_count (TM_TopicID x) db"
    and ok: "topics_ok db" and own: "0 < owner_count t db"
  shows "0 < owner_count t db'"
proof -
  obtain y where y: "y \<in> set (TD_members db)" "is_topic_owner t y" using own by (auto simp: owner_count_pos)
  have "\<exists>z \<in> set (TD_members db). is_topic_owner t z \<and> (z = x \<longrightarrow> r = TopicMemberRoleOwner)"
    using y others another_owner [OF ok, of t x] by (cases "y = x") (auto simp: is_topic_owner_def)
  then obtain z where z: "z \<in> set (TD_members db)" "is_topic_owner t z" "z = x \<longrightarrow> r = TopicMemberRoleOwner" by blast
  let ?f = "\<lambda>y. if TM_ID y = TM_ID x then y\<lparr>TM_Role := r, TM_AcceptedAt := map_option whole_second (TM_AcceptedAt x), TM_UpdatedAt := whole_second now\<rparr> else y"
  have "is_topic_owner t (?f z)" using z same_member_id [OF ok x z(1)] by (auto simp: is_topic_owner_def)
  moreover have "db' = db \<or> ?f z \<in> set (TD_members db')" using u z(1) by (auto simp: update_member_def split: if_splits)
  ultimately show ?thesis using own by (auto simp: owner_count_pos)
qed

lemma delete_owner:
  assumes d: "delete_member a i fk db = Inr (n, db')"
    and others: "\<forall>x \<in> set (TD_members db). member_of a i x \<and> TM_Role x = TopicMemberRoleOwner \<longrightarrow> 1 < owner_count a db"
    and ok: "topics_ok db" and own: "0 < owner_count t db"
  shows "0 < owner_count t db'"
proof -
  obtain y where y: "y \<in> set (TD_members db)" "is_topic_owner t y" using own by (auto simp: owner_count_pos)
  have "\<exists>z \<in> set (TD_members db). is_topic_owner t z \<and> \<not> member_of a i z"
  proof (cases "member_of a i y")
    case True
    then have "a = t" "1 < owner_count t db" using y others by (auto simp: member_of_def is_topic_owner_def)
    then show ?thesis using another_owner [OF ok, of t y] True only_member [OF ok y(1)] by blast
  qed (use y in blast)
  then show ?thesis using d by (auto simp: owner_count_pos delete_member_def member_of_def)
qed

lemma other_owner:
  "insert_topic topic fk db = Inr (n, db') \<Longrightarrow> 0 < owner_count t db \<Longrightarrow> 0 < owner_count t db'"
  "update_topic now topic fk db = Inr (n, db') \<Longrightarrow> 0 < owner_count t db \<Longrightarrow> 0 < owner_count t db'"
  "delete_topic now i fk db = Inr (n, db') \<Longrightarrow> 0 < owner_count t db \<Longrightarrow> 0 < owner_count t db'"
  "insert_member m fk db = Inr (n, db') \<Longrightarrow> 0 < owner_count t db \<Longrightarrow> 0 < owner_count t db'"
  "insert_invitation v fk db = Inr (n, db') \<Longrightarrow> 0 < owner_count t db \<Longrightarrow> 0 < owner_count t db'"
  "update_invitation v fk db = Inr (n, db') \<Longrightarrow> 0 < owner_count t db \<Longrightarrow> 0 < owner_count t db'"
  by (auto simp: insert_topic_def update_topic_def delete_topic_def insert_member_def insert_invitation_def update_invitation_def owner_count_def
      split: if_splits)

interpretation owners: membership_invariant "\<lambda>db. topics_ok db \<and> 0 < owner_count t db" for t
proof
  fix db assume "topics_ok db \<and> 0 < owner_count t db"
  then show "topics_ok db" by blast
qed (blast intro: topic_statements_ok role_owner delete_owner other_owner)+

section \<open>Invitations\<close>

type_synonym membership_event = "topic_world \<times> membership_op"

definition membership_step :: "sql_env \<Rightarrow> membership_event \<Rightarrow> MembershipManager \<Rightarrow> MembershipManager" where
  "membership_step env e m = membership_apply env (fst e) (snd e) m"

definition invited :: "string \<Rightarrow> topic_db \<Rightarrow> TopicInvitation option" where
  "invited token db = find (\<lambda>v. TI_Token v = token) (TD_invitations db)"

definition pending :: "string \<Rightarrow> topic_db \<Rightarrow> bool" where
  "pending token db \<longleftrightarrow> (case invited token db of None \<Rightarrow> False | Some v \<Rightarrow> TI_Status v = InvitationStatusPending)"

definition invites :: "string \<Rightarrow> membership_event \<Rightarrow> MembershipManager \<Rightarrow> bool" where
  "invites token e m \<longleftrightarrow> (case snd e of
     MInvite req \<Rightarrow> (case fst (InviteMember (fst e) req m) of Inr (v, tok) \<Rightarrow> tok = token | Inl _ \<Rightarrow> False) | _ \<Rightarrow> False)"

text \<open>An acceptance whose last statement, the new status of the invitation, is executed.\<close>

definition accepts :: "string \<Rightarrow> membership_event \<Rightarrow> MembershipManager \<Rightarrow> bool" where
  "accepts token e m \<longleftrightarrow> (case snd e of
     MAccept tok u \<Rightarrow> tok = token \<and> \<not> isl (fst (AcceptInvitation (fst e) tok u m)) \<and> SQ_ok (W_stmt (fst e) 2) | _ \<Rightarrow> False)"

lemma invited_Some: "invited token db = Some v \<Longrightarrow> v \<in> set (TD_invitations db) \<and> TI_Token v = token"
  by (auto simp: invited_def find_Some_iff)

lemma find_map_if:
  "(\<And>x. P (g x) = P x) \<Longrightarrow> find P (map (\<lambda>x. if Q x then g x else x) xs) = map_option (\<lambda>x. if Q x then g x else x) (find P xs)"
  by (induction xs) auto

lemma update_invitation_invited:
  assumes "update_invitation (responded st now v) fk db = Inr (n, db')"
  shows "invited token db' = map_option (\<lambda>x. if TI_ID x = TI_ID v \<and> TI_ID v \<in> set (map TI_ID (TD_invitations db))
      then x\<lparr>TI_Status := st, TI_RespondedAt := Some (whole_second now)\<rparr> else x) (invited token db)"
proof (cases "TI_ID v \<in> set (map TI_ID (TD_invitations db))")
  case True
  then have "db' = db\<lparr>TD_invitations := map (\<lambda>x. if TI_ID x = TI_ID v then x\<lparr>TI_Status := st, TI_RespondedAt := Some (whole_second now)\<rparr> else x)
      (TD_invitations db)\<rparr>" using assms by (auto simp: update_invitation_def responded_def split: if_splits)
  then show ?thesis using True by (simp add: invited_def find_map_if)
next
  case False
  then have "db' = db" using assms by (auto simp: update_invitation_def responded_def split: if_splits)
  then show ?thesis using False by (cases "invited token db") auto
qed

lemma respond_pending:
  assumes "TopicInvitationRepository_Update q (responded st now v) s = (e, s')" and "st \<noteq> InvitationStatusPending"
  shows "pending token (SS_db s') \<Longrightarrow> pending token (SS_db s)"
    and "SQ_ok q \<Longrightarrow> InvitationStatus_ok st \<Longrightarrow> invited token (SS_db s) = Some v \<Longrightarrow> \<not> pending token (SS_db s')"
proof -
  show "pending token (SS_db s') \<Longrightarrow> pending token (SS_db s)"
    using member_changes(5) [OF assms(1)] assms(2)
    by (auto simp: changed_by_def pending_def dest!: update_invitation_invited [where token = token] split: option.splits if_splits)
  assume q: "SQ_ok q" and st: "InvitationStatus_ok st" and v: "invited token (SS_db s) = Some v"
  have "TI_ID v \<in> set (map TI_ID (TD_invitations (SS_db s)))" using invited_Some [OF v] by simp
  then have "\<exists>n. update_invitation (responded st now v) (SQ_fk q) (SS_db s) = Inr (n, SS_db s')" using assms(1) q st
    by (auto simp: TopicInvitationRepository_Update_def execDirect_def update_invitation_def responded_def split: if_splits)
  then show "\<not> pending token (SS_db s')"
    using assms(2) v invited_Some [OF v] by (auto simp: pending_def dest!: update_invitation_invited [where token = token])
qed

lemma statements_invitations:
  "insert_member m fk db = Inr (n, db') \<Longrightarrow> TD_invitations db' = TD_invitations db"
  "update_member now m fk db = Inr (n, db') \<Longrightarrow> TD_invitations db' = TD_invitations db"
  "delete_member t i fk db = Inr (n, db') \<Longrightarrow> TD_invitations db' = TD_invitations db"
  "update_topic now topic fk db = Inr (n, db') \<Longrightarrow> TD_invitations db' = TD_invitations db"
  by (auto simp: insert_member_def update_member_def delete_member_def update_topic_def split: if_splits)

lemma repos_invitations:
  "TopicMemberRepository_Create q m s = (e, s') \<Longrightarrow> TD_invitations (SS_db s') = TD_invitations (SS_db s)"
  "TopicMemberRepository_Update q now m s = (e, s') \<Longrightarrow> TD_invitations (SS_db s') = TD_invitations (SS_db s)"
  "TopicMemberRepository_Delete q t i s = (e, s') \<Longrightarrow> TD_invitations (SS_db s') = TD_invitations (SS_db s)"
  "TopicRepository_Update env q now topic s = (e, s') \<Longrightarrow> TD_invitations (SS_db s') = TD_invitations (SS_db s)"
  "TopicRepository_Get env q t s = (r, s') \<Longrightarrow> TD_invitations (SS_db s') = TD_invitations (SS_db s)"
  using topic_reads(1) [of env q t s] by (auto dest!: member_changes topic_changes simp: changed_by_def dest: statements_invitations)

lemma same_invited:
  assumes "TD_invitations (SS_db s') = TD_invitations (SS_db s)"
  shows "invited token (SS_db s') = invited token (SS_db s)" and "pending token (SS_db s') = pending token (SS_db s)"
  using assms by (simp_all add: pending_def invited_def)

lemmas same_invitations = repos_invitations [THEN same_invited(2)]

lemma remove_members_pending: "pending token (SS_db (remove_members q n t xs s)) = pending token (SS_db s)"
proof (induction q n t xs s rule: remove_members.induct)
  case (2 q n t x xs s)
  have "pending token (SS_db (snd (TopicMemberRepository_Delete (q n) t (TM_UserID x) s))) = pending token (SS_db s)"
    by (rule same_invitations(3) [OF prod.collapse [symmetric]])
  then show ?case using 2 by auto
qed simp

lemma respond_pending': "st \<noteq> InvitationStatusPending \<Longrightarrow> pending token (SS_db (snd (TopicInvitationRepository_Update q (responded st now v) s)))
    \<Longrightarrow> pending token (SS_db s)"
  by (rule respond_pending(1) [OF prod.collapse [symmetric]])

lemma by_token: "TopicInvitationRepository_GetByToken q token s = Inr v \<Longrightarrow> invited token (SS_db s) = Some v"
  by (auto simp: TopicInvitationRepository_GetByToken_def row_or_def queryDirect_def invited_def split: sum.splits option.splits if_splits)

lemma find_append_one: "find P (xs @ [x]) = (case find P xs of Some y \<Rightarrow> Some y | None \<Rightarrow> if P x then Some x else None)"
  by (induction xs) auto

lemma invite_pending:
  assumes "TopicInvitationRepository_Create q v s = (e, s')" and "pending token (SS_db s')"
  shows "pending token (SS_db s) \<or> (e = None \<and> TI_Token v = token)"
proof -
  have "SS_db s' = SS_db s \<or> e = None \<and> (\<exists>x. TI_Token x = TI_Token v \<and> TD_invitations (SS_db s') = TD_invitations (SS_db s) @ [x])"
    using assms(1) by (auto simp: TopicInvitationRepository_Create_def execDirect_def insert_invitation_def plain_def split: if_splits)
  then show ?thesis using assms(2) by (auto simp: pending_def invited_def find_append_one split: option.splits if_splits)
qed

lemma accept_spends:
  assumes "\<not> isl (fst (AcceptInvitation w token u m))" and "SQ_ok (W_stmt w 2)"
  shows "pending token (SS_db (MM_store m)) \<and> \<not> pending token (SS_db (MM_store (snd (AcceptInvitation w token u m))))"
proof -
  obtain v x s where v: "invited token (SS_db (MM_store m)) = Some v" "TI_Status v = InvitationStatusPending"
    and s: "TopicMemberRepository_Create (W_stmt w 1) (accepted_member w v u) (MM_store m) = (None, s)"
    and a: "MM_store (snd (AcceptInvitation w token u m))
      = snd (TopicInvitationRepository_Update (W_stmt w 2) (responded InvitationStatusAccepted (W_now w 1) v) s)"
    using assms(1) by (auto simp: AcceptInvitation_def Let_def split: sum.splits if_splits prod.splits option.splits dest!: by_token)
  have "invited token (SS_db s) = Some v" using same_invited(1) [OF repos_invitations(1) [OF s]] v by simp
  then show ?thesis using respond_pending(2) [OF prod.collapse [symmetric], where s = s and token = token] assms(2) v a
    by (simp add: InvitationStatus_ok_def pending_def)
qed

interpretation invitation: one_time "membership_step env" "\<lambda>m. pending token (SS_db (MM_store m))" "invites token" "accepts token" for env token
proof
  fix e :: membership_event and m
  obtain w op where e: "e = (w, op)" by fastforce
  show "pending token (SS_db (MM_store m)) \<and> \<not> pending token (SS_db (MM_store (membership_step env e m))) \<and> \<not> invites token e m"
    if "accepts token e m"
    using that accept_spends [of w token _ m] by (auto simp: e accepts_def invites_def membership_step_def split: membership_op.splits)
  show "pending token (SS_db (MM_store m)) \<or> invites token e m" if l: "pending token (SS_db (MM_store (membership_step env e m)))"
  proof (cases op)
    case (MInvite req)
    then show ?thesis using l invite_pending [of "W_stmt w 2" "new_invitation w req" "MM_store m" _ _ token]
      by (auto simp: e membership_step_def invites_def InviteMember_def Let_def split: if_splits prod.splits option.splits)
  next
    case (MAccept tok u)
    then show ?thesis using l
      by (auto simp: e membership_step_def AcceptInvitation_def Let_def split: if_splits prod.splits option.splits sum.splits
          dest: respond_pending' [rotated] dest!: same_invitations(1) [where token = token])
  qed (use l in \<open>auto simp: e membership_step_def DeclineInvitation_def CancelInvitation_def UpdateMemberRole_def RemoveMember_def
      TransferOwnership_def RestoreTopic_def remove_members_pending split: if_splits prod.splits option.splits sum.splits
      dest: respond_pending(1) [rotated 2] same_invitations(2-) [where token = token]\<close>)
qed

text \<open>
  C28. Along any sequence of membership operations, an invitation is accepted at most as often as it was issued, an
  acceptance being one whose change of the invitation's status is executed.
\<close>

theorem invitation_single_use:
  "occurrences (membership_step env) (accepts token) es m
   \<le> occurrences (membership_step env) (invites token) es m + (if pending token (SS_db (MM_store m)) then 1 else 0)"
  by (rule invitation.spent_at_most_issued)

text \<open>
  When that last statement fails the caller is a member all the same, and the invitation stays open for the next one.
\<close>

theorem accept_leaves_pending:
  assumes "AcceptInvitation w token u m = (Inr x, m')" and "\<not> SQ_ok (W_stmt w 2)"
  shows "pending token (SS_db (MM_store m'))"
proof -
  obtain v s where v: "invited token (SS_db (MM_store m)) = Some v" "TI_Status v = InvitationStatusPending"
    and s: "TopicMemberRepository_Create (W_stmt w 1) (accepted_member w v u) (MM_store m) = (None, s)"
    and a: "MM_store m' = snd (TopicInvitationRepository_Update (W_stmt w 2) (responded InvitationStatusAccepted (W_now w 1) v) s)"
    using assms(1) by (auto simp: AcceptInvitation_def Let_def split: sum.splits if_splits prod.splits option.splits dest!: by_token)
  have "MM_store m' = s" using assms(2) by (simp add: a TopicInvitationRepository_Update_def execDirect_def)
  then show ?thesis using v same_invited(1) [OF repos_invitations(1) [OF s]] by (simp add: pending_def)
qed

end
