(* ===== verification/Topic_Service.thy ===== *)
theory Topic_Service
  imports Topic_Members Grpc_Errors
begin

text \<open>
  The gRPC topic service (\<open>internal/grpc/services/topic/server.go\<close>) over the repositories of topics and members. A
  handler gives an outcome and the new state of the server; the statements of one request are numbered by
  \<open>W_stmt w\<close>, the ones of a loop from a fixed number on. What the model leaves open (the texts of errors,
  the JSON texts that a listing matches, the order that SQLite gives a listing) is in \<open>topic_env\<close>.
  \<open>ListTopics\<close> passes the sort field of the request unchecked into SQL text; the model covers the
  requests in which it is plain (\<open>plain_sort\<close>), where a listing only reads and reorders.

  Shown: who sees a topic and who can change it, that no sequence of requests and membership operations
  takes the last owner of a topic away while the reads of the members are answered, and when paging through a listing ends.
\<close>

section \<open>Definitions\<close>

record topic_env =
  TE_sql :: sql_env
  TE_texts :: topic_texts
  TE_order :: "string \<Rightarrow> bool \<Rightarrow> Topic list \<Rightarrow> Topic list option"
  TE_error :: "repo_error \<Rightarrow> string"

record TopicServer =
  TS_store :: "topic_store option"
  TS_auditLogger :: "service_call list option"
  TS_nodeMode :: string

definition NewTopicServer :: TopicServer where
  "NewTopicServer = \<lparr>TS_store = None, TS_auditLogger = None, TS_nodeMode = []\<rparr>"

definition NewTopicServerWithConfig :: "topic_store option \<Rightarrow> service_call list option \<Rightarrow> string \<Rightarrow> TopicServer" where
  "NewTopicServerWithConfig s logger mode = \<lparr>TS_store = s, TS_auditLogger = logger, TS_nodeMode = mode\<rparr>"

text \<open>A request on the store of the server; the third result is the call of the audit logger.\<close>

definition with_topics ::
    "TopicServer \<Rightarrow> (topic_store \<Rightarrow> 'r outcome \<times> topic_store \<times> service_call option) \<Rightarrow> 'r outcome \<times> TopicServer" where
  "with_topics srv body =
     (case TS_store srv of
        None \<Rightarrow> (Status Unavailable ''service not initialized'', srv)
      | Some s \<Rightarrow>
          (case body s of
             (out, s', c) \<Rightarrow>
               (out, srv\<lparr>TS_store := Some s',
                         TS_auditLogger := (case c of None \<Rightarrow> TS_auditLogger srv | Some call \<Rightarrow> LogServiceAction call (TS_auditLogger srv))\<rparr>)))"

definition isPublicTopic :: "Topic \<Rightarrow> bool" where
  "isPublicTopic t =
     (case Topic_Metadata t ''is_public'' of
        Some val \<Rightarrow> val = ''true''
      | None \<Rightarrow> (case Topic_Metadata t ''public'' of Some val \<Rightarrow> val = ''true'' | None \<Rightarrow> True))"

definition canAccessTopic :: "stmt \<Rightarrow> Topic \<Rightarrow> User option \<Rightarrow> topic_store \<Rightarrow> bool" where
  "canAccessTopic q t user s \<longleftrightarrow>
     isPublicTopic t
     \<or> (case user of
          None \<Rightarrow> False
        | Some u \<Rightarrow> User_Role u = UserRoleAdmin \<or> TopicMemberRepository_HasAccess q (Topic_ID t) (User_ID u) s = Inr True)"

record ServiceTopic =
  ST_Id :: string
  ST_Name :: string
  ST_Description :: string
  ST_Schema :: string
  ST_DatasetCount :: int
  ST_Status :: string
  ST_OwnerId :: string
  ST_IsPublic :: bool
  ST_CreatedAt :: instant
  ST_UpdatedAt :: instant
  ST_Tags :: "string list"
  ST_Metadata :: "string \<rightharpoonup> string"

definition topicToProto :: "Topic \<Rightarrow> ServiceTopic" where
  "topicToProto t =
     \<lparr>ST_Id = Topic_ID t, ST_Name = Topic_Name t, ST_Description = Topic_Description t, ST_Schema = Topic_TableSchema t,
      ST_DatasetCount = Topic_DatasetCount t, ST_Status = Topic_Status t,
      ST_OwnerId = (case Topic_Owners t of [] \<Rightarrow> Topic_CreatedBy t | u # _ \<Rightarrow> u),
      ST_IsPublic = (case Topic_Metadata t ''is_public'' of
                       Some val \<Rightarrow> val = ''true''
                     | None \<Rightarrow> (case Topic_Metadata t ''public'' of Some val \<Rightarrow> val = ''true'' | None \<Rightarrow> True)),
      ST_CreatedAt = Topic_CreatedAt t, ST_UpdatedAt = Topic_UpdatedAt t, ST_Tags = Topic_Tags t, ST_Metadata = Topic_Metadata t\<rparr>"

record Subscription =
  SU_TopicId :: string
  SU_TopicName :: string
  SU_SubscribedAt :: instant
  SU_SyncStatus :: string
  SU_AutoSync :: bool
  SU_LastSyncAt :: "instant option"
  SU_TotalDatasets :: int
  SU_SyncedDatasets :: int

definition memberToSubscription :: "TopicMember \<Rightarrow> Topic \<Rightarrow> Subscription" where
  "memberToSubscription m t =
     \<lparr>SU_TopicId = TM_TopicID m, SU_TopicName = Topic_Name t, SU_SubscribedAt = TM_InvitedAt m, SU_SyncStatus = ''synced'', SU_AutoSync = True,
      SU_LastSyncAt = TM_AcceptedAt m, SU_TotalDatasets = Topic_DatasetCount t, SU_SyncedDatasets = Topic_DatasetCount t\<rparr>"

definition own_member :: "topic_world \<Rightarrow> nat \<Rightarrow> nat \<Rightarrow> TopicID \<Rightarrow> UserID \<Rightarrow> string \<Rightarrow> TopicMember" where
  "own_member w i n t u role =
     \<lparr>TM_ID = W_uuid w i, TM_TopicID = t, TM_UserID = u, TM_Role = role, TM_InvitedBy = u, TM_InvitedAt = W_now w n,
      TM_AcceptedAt = Some (W_now w (n + 3)), TM_CreatedAt = W_now w (n + 1), TM_UpdatedAt = W_now w (n + 2)\<rparr>"

record CreateTopicRequest =
  CT_Name :: string
  CT_Description :: string
  CT_Schema :: string
  CT_Tags :: "string list"
  CT_Metadata :: "string \<rightharpoonup> string"

definition CreateTopic_handler :: "topic_env \<Rightarrow> topic_world \<Rightarrow> grpc_ctx \<Rightarrow> CreateTopicRequest \<Rightarrow> TopicServer \<Rightarrow> ServiceTopic outcome \<times> TopicServer" where
  "CreateTopic_handler env w ctx req srv =
     with_topics srv (\<lambda>s.
       if CT_Name req = [] then (NewValidationError ''name is required'', s, None)
       else case Ctx_user ctx of
              None \<Rightarrow> (Status Unauthenticated ''not authenticated'', s, None)
            | Some user \<Rightarrow>
                (case TopicRepository_GetByName (TE_sql env) (W_stmt w 0) (CT_Name req) s of
                   (Inr existing, s1) \<Rightarrow> (NewValidationError ''topic already exists'', s1, None)
                 | (Inl _, s1) \<Rightarrow>
                     (let topic = \<lparr>Topic_ID = W_uuid w 0, Topic_ParentID = [], Topic_Name = CT_Name req, Topic_Description = CT_Description req,
                                   Topic_TableSchema = CT_Schema req, Topic_Status = TopicStatusActive, Topic_Owners = [User_ID user],
                                   Topic_CreatedBy = User_ID user, Topic_CreatedAt = W_now w 0, Topic_UpdatedAt = W_now w 1,
                                   Topic_DatasetCount = 0, Topic_Tags = CT_Tags req, Topic_Metadata = CT_Metadata req\<rparr>
                      in case TopicRepository_Create (TE_sql env) (W_stmt w 1) topic s1 of
                           (Some err, s2) \<Rightarrow> (MapDomainError (TE_error env) err, s2, None)
                         | (None, s2) \<Rightarrow>
                             (Reply (topicToProto topic),
                              snd (TopicMemberRepository_Create (W_stmt w 2) (own_member w 1 2 (Topic_ID topic) (User_ID user) TopicMemberRoleOwner) s2),
                              Some (''CREATE'', ''topic'', Topic_ID topic, [(''name'', Topic_Name topic)])))))"

text \<open>A topic by its identifier, else by its name.\<close>

definition find_topic :: "topic_env \<Rightarrow> stmt \<Rightarrow> string \<Rightarrow> string \<Rightarrow> string \<Rightarrow> topic_store \<Rightarrow> ('r outcome + Topic) \<times> topic_store" where
  "find_topic env q missing i name s =
     (if i \<noteq> [] then (case TopicRepository_Get (TE_sql env) q i s of (r, s1) \<Rightarrow> (map_sum (MapDomainError (TE_error env)) id r, s1))
      else if name \<noteq> [] then (case TopicRepository_GetByName (TE_sql env) q name s of (r, s1) \<Rightarrow> (map_sum (MapDomainError (TE_error env)) id r, s1))
      else (Inl (NewValidationError missing), s))"

definition GetTopic_handler ::
    "topic_env \<Rightarrow> topic_world \<Rightarrow> grpc_ctx \<Rightarrow> string \<Rightarrow> string \<Rightarrow> TopicServer \<Rightarrow> (ServiceTopic \<times> Subscription option) outcome \<times> TopicServer" where
  "GetTopic_handler env w ctx i name srv =
     with_topics srv (\<lambda>s.
       case find_topic env (W_stmt w 0) ''id or name is required'' i name s of
         (Inl out, s1) \<Rightarrow> (out, s1, None)
       | (Inr topic, s1) \<Rightarrow>
           if \<not> canAccessTopic (W_stmt w 1) topic (Ctx_user ctx) s1 then (NewPermissionDeniedError ''view'' ''topic'', s1, None)
           else (Reply (topicToProto topic,
                        case Ctx_user ctx of
                          None \<Rightarrow> None
                        | Some user \<Rightarrow> (case TopicMemberRepository_Get (W_stmt w 2) (Topic_ID topic) (User_ID user) s1 of
                                          Inl _ \<Rightarrow> None | Inr m \<Rightarrow> Some (memberToSubscription m topic))), s1, None))"

fun visible_topics :: "(nat \<Rightarrow> stmt) \<Rightarrow> nat \<Rightarrow> (stmt \<Rightarrow> stmt \<Rightarrow> Topic \<Rightarrow> bool) \<Rightarrow> Topic list \<Rightarrow> Topic list" where
  "visible_topics q n shown [] = []"
| "visible_topics q n shown (t # ts) = (if shown (q n) (q (n + 1)) t then [t] else []) @ visible_topics q (n + 2) shown ts"

record ListTopicsRequest =
  LT_Status :: string
  LT_Tags :: "string list"
  LT_OwnerId :: string
  LT_Page :: "(int \<times> int) option"
  LT_Sort :: "(string \<times> bool) option"
  LT_PublicOnly :: bool
  LT_SubscribedOnly :: bool

record PageInfo =
  PI_TotalCount :: int
  PI_HasMore :: bool
  PI_PageSize :: int

definition list_filter :: "ListTopicsRequest \<Rightarrow> TopicFilter" where
  "list_filter req =
     (let limit = (case LT_Page req of Some (l, _) \<Rightarrow> l | None \<Rightarrow> 0);
          limit = (if limit \<le> 0 then 50 else limit);
          limit = (if 1000 < limit then 1000 else limit)
      in \<lparr>TF_Status = LT_Status req, TF_ParentID = None, TF_OwnerID = (if LT_OwnerId req \<noteq> [] then Some (LT_OwnerId req) else None),
          TF_Tags = LT_Tags req, TF_Search = [], TF_Limit = limit, TF_Offset = (case LT_Page req of Some (_, off) \<Rightarrow> off | None \<Rightarrow> 0),
          TF_OrderBy = (case LT_Sort req of Some (f, _) \<Rightarrow> f | None \<Rightarrow> []), TF_OrderDesc = (case LT_Sort req of Some (_, d) \<Rightarrow> d | None \<Rightarrow> False)\<rparr>)"

text \<open>A page of topics: the rows that the filter gives, the ones of them shown, and the count that the filter gives.\<close>

definition topic_page ::
    "topic_env \<Rightarrow> topic_world \<Rightarrow> TopicFilter \<Rightarrow> (topic_store \<Rightarrow> stmt \<Rightarrow> stmt \<Rightarrow> Topic \<Rightarrow> bool) \<Rightarrow> topic_store
       \<Rightarrow> (ServiceTopic list \<times> PageInfo) outcome \<times> topic_store \<times> service_call option" where
  "topic_page env w f shown s =
     (case TopicRepository_List (TE_texts env) (TE_order env) (TE_sql env) (W_stmt w 0) f s of
        (Inl err, s1) \<Rightarrow> (MapDomainError (TE_error env) err, s1, None)
      | (Inr topics, s1) \<Rightarrow>
          (let vis = visible_topics (W_stmt w) 2 (shown s1) topics
           in case TopicRepository_Count (TE_sql env) (W_stmt w 1) f s1 of
                (r, s2) \<Rightarrow>
                  (let total = (case r of Inl _ \<Rightarrow> 0 | Inr n \<Rightarrow> n)
                   in (Reply (map topicToProto vis,
                              \<lparr>PI_TotalCount = total, PI_HasMore = (TF_Offset f + int (length vis) < total), PI_PageSize = int (length vis)\<rparr>),
                       s2, None))))"

definition listed_for :: "ListTopicsRequest \<Rightarrow> User option \<Rightarrow> topic_store \<Rightarrow> stmt \<Rightarrow> stmt \<Rightarrow> Topic \<Rightarrow> bool" where
  "listed_for req user s q q' t \<longleftrightarrow>
     \<not> (LT_PublicOnly req \<and> \<not> isPublicTopic t)
     \<and> (LT_SubscribedOnly req \<longrightarrow>
          (case user of None \<Rightarrow> False | Some u \<Rightarrow> \<not> isl (TopicMemberRepository_Get q (Topic_ID t) (User_ID u) s)))
     \<and> canAccessTopic q' t user s"

definition ListTopics_handler ::
    "topic_env \<Rightarrow> topic_world \<Rightarrow> grpc_ctx \<Rightarrow> ListTopicsRequest \<Rightarrow> TopicServer \<Rightarrow> (ServiceTopic list \<times> PageInfo) outcome \<times> TopicServer" where
  "ListTopics_handler env w ctx req srv = with_topics srv (topic_page env w (list_filter req) (listed_for req (Ctx_user ctx)))"

record UpdateTopicRequest =
  UT_Id :: string
  UT_Name :: "string option"
  UT_Description :: "string option"
  UT_Schema :: "string option"
  UT_UpdateTags :: bool
  UT_Tags :: "string list"
  UT_UpdateMetadata :: bool
  UT_Metadata :: "string \<rightharpoonup> string"

definition edited_topic :: "instant \<Rightarrow> UpdateTopicRequest \<Rightarrow> Topic \<Rightarrow> Topic" where
  "edited_topic now req t =
     t\<lparr>Topic_Name := (case UT_Name req of Some x \<Rightarrow> x | None \<Rightarrow> Topic_Name t),
       Topic_Description := (case UT_Description req of Some x \<Rightarrow> x | None \<Rightarrow> Topic_Description t),
       Topic_TableSchema := (case UT_Schema req of Some x \<Rightarrow> x | None \<Rightarrow> Topic_TableSchema t),
       Topic_Tags := (if UT_UpdateTags req then UT_Tags req else Topic_Tags t),
       Topic_Metadata := (if UT_UpdateMetadata req then UT_Metadata req else Topic_Metadata t),
       Topic_UpdatedAt := now\<rparr>"

text \<open>The part that changing and deleting a topic share: the topic, the caller and the caller's role.\<close>

definition as_owner ::
    "topic_env \<Rightarrow> topic_world \<Rightarrow> grpc_ctx \<Rightarrow> string \<Rightarrow> string \<Rightarrow> (Topic \<Rightarrow> topic_store \<Rightarrow> 'r outcome \<times> topic_store \<times> service_call option)
       \<Rightarrow> topic_store \<Rightarrow> 'r outcome \<times> topic_store \<times> service_call option" where
  "as_owner env w ctx action i body s =
     (if i = [] then (NewValidationError ''id is required'', s, None)
      else case TopicRepository_Get (TE_sql env) (W_stmt w 0) i s of
             (Inl err, s1) \<Rightarrow> (MapDomainError (TE_error env) err, s1, None)
           | (Inr topic, s1) \<Rightarrow>
               (case Ctx_user ctx of
                  None \<Rightarrow> (Status Unauthenticated ''not authenticated'', s1, None)
                | Some user \<Rightarrow>
                    if TopicMemberRepository_GetRole (W_stmt w 1) (Topic_ID topic) (User_ID user) s1 \<noteq> Inr TopicMemberRoleOwner
                    then (NewPermissionDeniedError action ''topic'', s1, None)
                    else body topic s1))"

definition UpdateTopic_handler :: "topic_env \<Rightarrow> topic_world \<Rightarrow> grpc_ctx \<Rightarrow> UpdateTopicRequest \<Rightarrow> TopicServer \<Rightarrow> ServiceTopic outcome \<times> TopicServer" where
  "UpdateTopic_handler env w ctx req srv =
     with_topics srv (as_owner env w ctx ''update'' (UT_Id req) (\<lambda>topic s.
       let topic = edited_topic (W_now w 0) req topic
       in case Topic_Validate topic of
            Some err \<Rightarrow> (MapDomainError (TE_error env) (Rejected err), s, None)
          | None \<Rightarrow>
              (case TopicRepository_Update (TE_sql env) (W_stmt w 2) (W_now w 1) topic s of
                 (Some err, s1) \<Rightarrow> (MapDomainError (TE_error env) err, s1, None)
               | (None, s1) \<Rightarrow> (Reply (topicToProto topic), s1, Some (''UPDATE'', ''topic'', Topic_ID topic, [])))))"

definition DeleteTopic_handler :: "topic_env \<Rightarrow> topic_world \<Rightarrow> grpc_ctx \<Rightarrow> string \<Rightarrow> bool \<Rightarrow> TopicServer \<Rightarrow> int outcome \<times> TopicServer" where
  "DeleteTopic_handler env w ctx i force srv =
     with_topics srv (as_owner env w ctx ''delete'' i (\<lambda>topic s.
       if 0 < Topic_DatasetCount topic \<and> \<not> force then (NewPreconditionError ''topic has datasets'', s, None)
       else case TopicRepository_Delete (TE_sql env) (W_stmt w 2) (W_now w 0) (Topic_ID topic) s of
              (Some err, s1) \<Rightarrow> (MapDomainError (TE_error env) err, s1, None)
            | (None, s1) \<Rightarrow> (Reply (Topic_DatasetCount topic), s1, Some (''DELETE'', ''topic'', Topic_ID topic, []))))"

definition Subscribe_handler ::
    "topic_env \<Rightarrow> topic_world \<Rightarrow> grpc_ctx \<Rightarrow> string \<Rightarrow> string \<Rightarrow> bool \<Rightarrow> TopicServer \<Rightarrow> Subscription outcome \<times> TopicServer" where
  "Subscribe_handler env w ctx i name syncNow srv =
     with_topics srv (\<lambda>s.
       case Ctx_user ctx of
         None \<Rightarrow> (Status Unauthenticated ''not authenticated'', s, None)
       | Some user \<Rightarrow>
           (case find_topic env (W_stmt w 0) ''topic_id or topic_name is required'' i name s of
              (Inl out, s1) \<Rightarrow> (out, s1, None)
            | (Inr topic, s1) \<Rightarrow>
                if \<not> canAccessTopic (W_stmt w 1) topic (Some user) s1 then (NewPermissionDeniedError ''subscribe'' ''topic'', s1, None)
                else case TopicMemberRepository_Get (W_stmt w 2) (Topic_ID topic) (User_ID user) s1 of
                       Inr existing \<Rightarrow> (Reply (memberToSubscription existing topic), s1, None)
                     | Inl _ \<Rightarrow>
                         (let m = own_member w 0 0 (Topic_ID topic) (User_ID user) TopicMemberRoleViewer
                          in case TopicMemberRepository_Create (W_stmt w 3) m s1 of
                               (Some err, s2) \<Rightarrow> (MapDomainError (TE_error env) err, s2, None)
                             | (None, s2) \<Rightarrow>
                                 (Reply (if syncNow then (memberToSubscription m topic)\<lparr>SU_SyncStatus := ''syncing''\<rparr> else memberToSubscription m topic),
                                  s2, None))))"

text \<open>What \<open>Unsubscribe\<close> reads before it deletes: a read that fails counts as no role, a count that fails as none.\<close>

definition leaving_refused :: "topic_world \<Rightarrow> TopicID \<Rightarrow> UserID \<Rightarrow> topic_store \<Rightarrow> bool" where
  "leaving_refused w t u s \<longleftrightarrow>
     TopicMemberRepository_GetRole (W_stmt w 0) t u s = Inr TopicMemberRoleOwner
     \<and> (case TopicMemberRepository_CountOwners (W_stmt w 1) t s of Inl _ \<Rightarrow> 0 | Inr n \<Rightarrow> n) \<le> 1"

definition Unsubscribe_handler :: "topic_env \<Rightarrow> topic_world \<Rightarrow> grpc_ctx \<Rightarrow> string \<Rightarrow> TopicServer \<Rightarrow> unit outcome \<times> TopicServer" where
  "Unsubscribe_handler env w ctx i srv =
     with_topics srv (\<lambda>s.
       case Ctx_user ctx of
         None \<Rightarrow> (Status Unauthenticated ''not authenticated'', s, None)
       | Some user \<Rightarrow>
           if i = [] then (NewValidationError ''topic_id is required'', s, None)
           else if leaving_refused w i (User_ID user) s then (NewPreconditionError ''cannot unsubscribe as last owner'', s, None)
           else case TopicMemberRepository_Delete (W_stmt w 2) i (User_ID user) s of
                  (Some err, s1) \<Rightarrow> (MapDomainError (TE_error env) err, s1, None)
                | (None, s1) \<Rightarrow> (Reply (), s1, None))"

fun subscriptions_of :: "topic_env \<Rightarrow> (nat \<Rightarrow> stmt) \<Rightarrow> nat \<Rightarrow> string \<Rightarrow> TopicMember list \<Rightarrow> topic_store \<Rightarrow> Subscription list \<times> topic_store" where
  "subscriptions_of env q n status [] s = ([], s)"
| "subscriptions_of env q n status (m # ms) s =
     (case TopicRepository_Get (TE_sql env) (q n) (TM_TopicID m) s of
        (r, s1) \<Rightarrow>
          (case subscriptions_of env q (n + 1) status ms s1 of
             (subs, s2) \<Rightarrow>
               ((case r of
                   Inl _ \<Rightarrow> []
                 | Inr t \<Rightarrow> (let sub = memberToSubscription m t in if status \<noteq> [] \<and> SU_SyncStatus sub \<noteq> status then [] else [sub])) @ subs, s2)))"

definition ListSubscriptions_handler ::
    "topic_env \<Rightarrow> topic_world \<Rightarrow> grpc_ctx \<Rightarrow> string \<Rightarrow> TopicServer \<Rightarrow> (Subscription list \<times> PageInfo) outcome \<times> TopicServer" where
  "ListSubscriptions_handler env w ctx status srv =
     with_topics srv (\<lambda>s.
       case Ctx_user ctx of
         None \<Rightarrow> (Status Unauthenticated ''not authenticated'', s, None)
       | Some user \<Rightarrow>
           (case TopicMemberRepository_ListByUser (W_stmt w 0) (User_ID user) s of
              Inl err \<Rightarrow> (MapDomainError (TE_error env) err, s, None)
            | Inr ms \<Rightarrow>
                (case subscriptions_of env (W_stmt w) 1 status ms s of
                   (subs, s1) \<Rightarrow>
                     (Reply (subs, \<lparr>PI_TotalCount = int (length subs), PI_HasMore = False, PI_PageSize = int (length subs)\<rparr>), s1, None))))"

definition GetSubscription_handler :: "topic_env \<Rightarrow> topic_world \<Rightarrow> grpc_ctx \<Rightarrow> string \<Rightarrow> TopicServer \<Rightarrow> Subscription outcome \<times> TopicServer" where
  "GetSubscription_handler env w ctx i srv =
     with_topics srv (\<lambda>s.
       case Ctx_user ctx of
         None \<Rightarrow> (Status Unauthenticated ''not authenticated'', s, None)
       | Some user \<Rightarrow>
           if i = [] then (NewValidationError ''topic_id is required'', s, None)
           else case TopicMemberRepository_Get (W_stmt w 0) i (User_ID user) s of
                  Inl _ \<Rightarrow> (NewResourceNotFoundError ''subscription'' i, s, None)
                | Inr m \<Rightarrow>
                    (case TopicRepository_Get (TE_sql env) (W_stmt w 1) i s of
                       (Inl err, s1) \<Rightarrow> (MapDomainError (TE_error env) err, s1, None)
                     | (Inr topic, s1) \<Rightarrow> (Reply (memberToSubscription m topic), s1, None)))"

definition StreamTopicUpdates_handler :: "unit outcome" where
  "StreamTopicUpdates_handler = Status Unimplemented ''streaming topic updates not yet implemented''"

record TopicStats =
  GS_TopicId :: string
  GS_DatasetCount :: int
  GS_SubscriberCount :: int
  GS_LastActivity :: instant

definition GetTopicStats_handler :: "topic_env \<Rightarrow> topic_world \<Rightarrow> grpc_ctx \<Rightarrow> string \<Rightarrow> TopicServer \<Rightarrow> TopicStats outcome \<times> TopicServer" where
  "GetTopicStats_handler env w ctx i srv =
     with_topics srv (\<lambda>s.
       if i = [] then (NewValidationError ''topic_id is required'', s, None)
       else case TopicRepository_Get (TE_sql env) (W_stmt w 0) i s of
              (Inl err, s1) \<Rightarrow> (MapDomainError (TE_error env) err, s1, None)
            | (Inr topic, s1) \<Rightarrow>
                if \<not> canAccessTopic (W_stmt w 1) topic (Ctx_user ctx) s1 then (NewPermissionDeniedError ''view'' ''topic'', s1, None)
                else (Reply \<lparr>GS_TopicId = Topic_ID topic, GS_DatasetCount = Topic_DatasetCount topic,
                             GS_SubscriberCount = (case TopicMemberRepository_ListByTopic (W_stmt w 2) (Topic_ID topic) [] 0 0 s1 of
                                                     Inl _ \<Rightarrow> 0 | Inr ms \<Rightarrow> int (length ms)),
                             GS_LastActivity = Topic_UpdatedAt topic\<rparr>, s1, None))"

record SearchTopicsRequest =
  SE_Query :: string
  SE_Tags :: "string list"
  SE_Page :: "(int \<times> int) option"
  SE_PublicOnly :: bool

definition search_filter :: "SearchTopicsRequest \<Rightarrow> TopicFilter" where
  "search_filter req =
     (let limit = (case SE_Page req of Some (l, _) \<Rightarrow> l | None \<Rightarrow> 0)
      in \<lparr>TF_Status = [], TF_ParentID = None, TF_OwnerID = None, TF_Tags = SE_Tags req, TF_Search = SE_Query req,
          TF_Limit = (if limit \<le> 0 then 50 else limit), TF_Offset = (case SE_Page req of Some (_, off) \<Rightarrow> off | None \<Rightarrow> 0),
          TF_OrderBy = [], TF_OrderDesc = False\<rparr>)"

definition SearchTopics_handler ::
    "topic_env \<Rightarrow> topic_world \<Rightarrow> grpc_ctx \<Rightarrow> SearchTopicsRequest \<Rightarrow> TopicServer \<Rightarrow> (ServiceTopic list \<times> PageInfo) outcome \<times> TopicServer" where
  "SearchTopics_handler env w ctx req srv =
     with_topics srv (\<lambda>s.
       case ValidateSearchQuery (SE_Query req) of
         Some out \<Rightarrow> (out, s, None)
       | None \<Rightarrow> topic_page env w (search_filter req)
           (\<lambda>s1 q q' t. \<not> (SE_PublicOnly req \<and> \<not> isPublicTopic t) \<and> canAccessTopic q' t (Ctx_user ctx) s1) s)"

section \<open>Requests and membership operations\<close>

datatype topic_event =
    TCreate CreateTopicRequest | TGet string string | TList ListTopicsRequest | TUpdate UpdateTopicRequest | TDelete string bool
  | TSubscribe string string bool | TUnsubscribe string | TSubscriptions string | TSubscription string | TStats string
  | TSearch SearchTopicsRequest | TMembership membership_op

definition on_members :: "topic_env \<Rightarrow> topic_world \<Rightarrow> membership_op \<Rightarrow> TopicServer \<Rightarrow> TopicServer" where
  "on_members env w op srv =
     (case TS_store srv of
        None \<Rightarrow> srv
      | Some s \<Rightarrow>
          (let m = membership_apply (TE_sql env) w op (NewMembershipManager s (TS_auditLogger srv))
           in srv\<lparr>TS_store := Some (MM_store m), TS_auditLogger := MM_auditLogger m\<rparr>))"

fun topic_step :: "topic_env \<Rightarrow> topic_world \<Rightarrow> grpc_ctx \<Rightarrow> topic_event \<Rightarrow> TopicServer \<Rightarrow> TopicServer" where
  "topic_step env w ctx (TCreate req) srv = snd (CreateTopic_handler env w ctx req srv)"
| "topic_step env w ctx (TGet i name) srv = snd (GetTopic_handler env w ctx i name srv)"
| "topic_step env w ctx (TList req) srv = snd (ListTopics_handler env w ctx req srv)"
| "topic_step env w ctx (TUpdate req) srv = snd (UpdateTopic_handler env w ctx req srv)"
| "topic_step env w ctx (TDelete i force) srv = snd (DeleteTopic_handler env w ctx i force srv)"
| "topic_step env w ctx (TSubscribe i name sync) srv = snd (Subscribe_handler env w ctx i name sync srv)"
| "topic_step env w ctx (TUnsubscribe i) srv = snd (Unsubscribe_handler env w ctx i srv)"
| "topic_step env w ctx (TSubscriptions status) srv = snd (ListSubscriptions_handler env w ctx status srv)"
| "topic_step env w ctx (TSubscription i) srv = snd (GetSubscription_handler env w ctx i srv)"
| "topic_step env w ctx (TStats i) srv = snd (GetTopicStats_handler env w ctx i srv)"
| "topic_step env w ctx (TSearch req) srv = snd (SearchTopics_handler env w ctx req srv)"
| "topic_step env w ctx (TMembership op) srv = on_members env w op srv"

definition topic_run :: "topic_env \<Rightarrow> (topic_world \<times> grpc_ctx \<times> topic_event) list \<Rightarrow> TopicServer \<Rightarrow> TopicServer" where
  "topic_run env es srv = foldl (\<lambda>srv (w, ctx, e). topic_step env w ctx e srv) srv es"

section \<open>Invariants of the service\<close>

definition server_db :: "(topic_db \<Rightarrow> bool) \<Rightarrow> TopicServer \<Rightarrow> bool" where
  "server_db P srv \<longleftrightarrow> (case TS_store srv of None \<Rightarrow> True | Some s \<Rightarrow> P (SS_db s))"

lemma with_topics_keeps:
  "(\<And>s. TS_store srv = Some s \<Longrightarrow> P (SS_db s) \<Longrightarrow> P (SS_db (fst (snd (body s))))) \<Longrightarrow> server_db P srv \<Longrightarrow> server_db P (snd (with_topics srv body))"
  by (auto simp: with_topics_def server_db_def split: option.splits prod.splits)

lemma find_topic_db [simp]: "SS_db (snd (find_topic env q msg i name s)) = SS_db s"
  by (simp add: find_topic_def case_prod_beta)

lemma subscriptions_db [simp]: "SS_db (snd (subscriptions_of env q n status ms s)) = SS_db s"
  by (induction ms arbitrary: n s) (simp_all add: case_prod_beta)

lemma topic_page_db [simp]: "SS_db (fst (snd (topic_page env w f shown s))) = SS_db s"
  using topic_reads(3) [of "TE_texts env" "TE_order env" "TE_sql env" "W_stmt w 0" f s]
  by (auto simp: topic_page_def Let_def case_prod_beta split: sum.split)

lemma role_found:
  assumes "SQ_ok q" and "TopicMemberRepository_GetRole q t u s \<noteq> Inr r" and "topics_ok (SS_db s)"
    and x: "x \<in> set (TD_members (SS_db s))" "member_of t u x"
  shows "TM_Role x \<noteq> r"
proof -
  obtain y where y: "find (member_of t u) (TD_members (SS_db s)) = Some y" using x by (cases "find (member_of t u) (TD_members (SS_db s))") (auto simp: find_None_iff)
  then have "y \<in> set (TD_members (SS_db s))" "member_of t u y" by (auto simp: find_Some_iff)
  then have "x = y" using only_member [OF assms(3) x(1)] x(2) by blast
  then show ?thesis using assms(1,2) y by (auto simp: TopicMemberRepository_GetRole_def row_or_def queryDirect_def)
qed

lemma leaving_allowed:
  assumes "\<not> leaving_refused w t u s" and "SQ_ok (W_stmt w 0)" and "topics_ok (SS_db s)"
  shows "\<forall>x \<in> set (TD_members (SS_db s)). member_of t u x \<and> TM_Role x = TopicMemberRoleOwner \<longrightarrow> 1 < owner_count t (SS_db s)"
proof (cases "TopicMemberRepository_GetRole (W_stmt w 0) t u s = Inr TopicMemberRoleOwner")
  case True
  then show ?thesis using assms(1)
    by (auto simp: leaving_refused_def TopicMemberRepository_CountOwners_def listed_def queryDirect_def owner_count_def is_topic_owner_def [abs_def]
        split: if_splits)
next
  case False
  then show ?thesis using role_found [OF assms(2) False assms(3)] by blast
qed

context membership_invariant
begin

lemma create_topic_request: "server_db P srv \<Longrightarrow> server_db P (snd (CreateTopic_handler env w ctx req srv))"
  unfolding CreateTopic_handler_def
  by (erule with_topics_keeps [rotated])
    (auto simp: Let_def split: option.split prod.split sum.split dest: keeps intro: create_member_keeps [OF prod.collapse [symmetric]])

lemma as_owner_keeps:
  "(\<And>topic s. P (SS_db s) \<Longrightarrow> P (SS_db (fst (snd (body topic s))))) \<Longrightarrow> P (SS_db s) \<Longrightarrow> P (SS_db (fst (snd (as_owner env w ctx action i body s))))"
  by (auto simp: as_owner_def split: option.split prod.split sum.split dest: keeps)

lemma update_topic_request: "server_db P srv \<Longrightarrow> server_db P (snd (UpdateTopic_handler env w ctx req srv))"
  unfolding UpdateTopic_handler_def
  by (erule with_topics_keeps [rotated], erule as_owner_keeps [rotated]) (auto simp: Let_def split: option.split prod.split dest: keeps)

lemma delete_topic_request: "server_db P srv \<Longrightarrow> server_db P (snd (DeleteTopic_handler env w ctx i force srv))"
  unfolding DeleteTopic_handler_def
  by (erule with_topics_keeps [rotated], erule as_owner_keeps [rotated]) (auto split: option.split prod.split dest: keeps)

lemma find_topic_keeps: "find_topic env q msg i name s = (r, s') \<Longrightarrow> P (SS_db s) \<Longrightarrow> P (SS_db s')"
  by (metis find_topic_db snd_conv)

lemma subscribe_request: "server_db P srv \<Longrightarrow> server_db P (snd (Subscribe_handler env w ctx i name sync srv))"
  unfolding Subscribe_handler_def
  by (erule with_topics_keeps [rotated]) (auto simp: Let_def split: option.split prod.split sum.split dest: keeps find_topic_keeps)

lemma unsubscribe_request:
  "SQ_ok (W_stmt w 0) \<Longrightarrow> server_db P srv \<Longrightarrow> server_db P (snd (Unsubscribe_handler env w ctx i srv))"
  unfolding Unsubscribe_handler_def
  by (erule with_topics_keeps [rotated]) (auto split: option.split prod.split dest: delete_keeps leaving_allowed [OF _ _ constraints])

lemma get_topic_request: "server_db P srv \<Longrightarrow> server_db P (snd (GetTopic_handler env w ctx i name srv))"
  unfolding GetTopic_handler_def by (erule with_topics_keeps [rotated]) (auto split: prod.split sum.split dest: find_topic_keeps)

lemma subscriptions_keeps: "subscriptions_of env q n status ms s = (r, s') \<Longrightarrow> P (SS_db s) \<Longrightarrow> P (SS_db s')"
  using subscriptions_db [of env q n status ms s] by simp

lemma read_requests:
  "server_db P srv \<Longrightarrow> server_db P (snd (ListTopics_handler env w ctx lreq srv))"
  "server_db P srv \<Longrightarrow> server_db P (snd (ListSubscriptions_handler env w ctx status srv))"
  "server_db P srv \<Longrightarrow> server_db P (snd (GetSubscription_handler env w ctx i srv))"
  "server_db P srv \<Longrightarrow> server_db P (snd (GetTopicStats_handler env w ctx i srv))"
  "server_db P srv \<Longrightarrow> server_db P (snd (SearchTopics_handler env w ctx sreq srv))"
  unfolding ListTopics_handler_def ListSubscriptions_handler_def GetSubscription_handler_def GetTopicStats_handler_def SearchTopics_handler_def
  by (erule with_topics_keeps [rotated], auto split: option.split prod.split sum.split dest: keeps subscriptions_keeps)+

lemma membership_request: "server_db P srv \<Longrightarrow> server_db P (on_members env w op srv)"
  using membership_keeps [of "NewMembershipManager s (TS_auditLogger srv)" for s]
  by (auto simp: server_db_def on_members_def Let_def NewMembershipManager_def split: option.splits)

lemma step_keeps: "(\<forall>i. e = TUnsubscribe i \<longrightarrow> SQ_ok (W_stmt w 0)) \<Longrightarrow> server_db P srv \<Longrightarrow> server_db P (topic_step env w ctx e srv)"
  by (cases e) (simp_all add: create_topic_request update_topic_request delete_topic_request subscribe_request unsubscribe_request get_topic_request
      read_requests membership_request)

lemma run_keeps:
  "(\<forall>(w, ctx, e) \<in> set es. \<forall>i. e = TUnsubscribe i \<longrightarrow> SQ_ok (W_stmt w 0)) \<Longrightarrow> server_db P srv \<Longrightarrow> server_db P (topic_run env es srv)"
proof (induction es arbitrary: srv)
  case (Cons e es)
  obtain w ctx ev where e: "e = (w, ctx, ev)" by (cases e)
  have "server_db P (topic_step env w ctx ev srv)" using Cons.prems e by (intro step_keeps) auto
  then show ?case using Cons e by (auto simp: topic_run_def)
qed (simp add: topic_run_def)

end

section \<open>The last owner\<close>

text \<open>
  C8. Requests to the topic service and membership operations, in any order and with any failures of the engine other than
  of the read of a role in \<open>Unsubscribe\<close>, leave every topic that has an owner with one, and keep the constraints of the tables.
  Requests run one after the other, and a listing is a read, as it is for a plain sort field.
\<close>

theorem topic_keeps_an_owner:
  assumes "TS_store srv = Some s" and "topics_ok (SS_db s)" and "0 < owner_count t (SS_db s)"
    and "\<forall>(w, ctx, e) \<in> set es. \<forall>i. e = TUnsubscribe i \<longrightarrow> SQ_ok (W_stmt w 0)"
    and "TS_store (topic_run env es srv) = Some s'"
  shows "topics_ok (SS_db s') \<and> 0 < owner_count t (SS_db s')"
  using owners.run_keeps [OF assms(4), where srv = srv and t = t and env = env] assms(1-3,5) by (simp add: server_db_def)

lemma only_owners: "filter (is_topic_owner t) (TD_members db) = ms \<Longrightarrow> x \<in> set (TD_members db) \<Longrightarrow> is_topic_owner t x \<Longrightarrow> x \<in> set ms"
  by auto

text \<open>
  A failed read of the role lets the last owner of a topic leave it: the topic stays, without anyone who could change,
  delete or restore it.
\<close>

theorem failed_read_orphans_topic:
  assumes "TS_store srv = Some s" and "Ctx_user ctx = Some user" and "i \<noteq> []"
    and "filter (is_topic_owner i) (TD_members (SS_db s)) = [m]" and "TM_UserID m = User_ID user"
    and "\<not> SQ_ok (W_stmt w 0)" and "SQ_ok (W_stmt w 2)"
  shows "\<exists>srv' s'. Unsubscribe_handler env w ctx i srv = (Reply (), srv') \<and> TS_store srv' = Some s'
     \<and> TD_topics (SS_db s') = TD_topics (SS_db s) \<and> owner_count i (SS_db s') = 0"
proof -
  have "\<not> leaving_refused w i (User_ID user) s" using assms(6)
    by (simp add: leaving_refused_def TopicMemberRepository_GetRole_def row_or_def queryDirect_def)
  moreover have "filter (is_topic_owner i) (filter (\<lambda>x. \<not> (TM_TopicID x = i \<and> TM_UserID x = User_ID user)) (TD_members (SS_db s))) = []"
    using only_owners [OF assms(4)] assms(5) by (auto simp: filter_empty_conv is_topic_owner_def)
  ultimately show ?thesis using assms(1-3,7)
    by (simp add: Unsubscribe_handler_def with_topics_def TopicMemberRepository_Delete_def execDirect_def delete_member_def plain_def owner_count_def)
qed

text \<open>
  C40. Two owners who leave at the same time can both pass the check before either is deleted: the topic is left without
  an owner although every statement is answered.
\<close>

theorem concurrent_leave_orphans_topic:
  assumes "filter (is_topic_owner t) (TD_members (SS_db s)) = [a, b]"
    and "\<forall>n. SQ_ok (W_stmt w n) \<and> SQ_ok (W_stmt w' n)"
    and "TopicMemberRepository_Delete (W_stmt w 2) t (TM_UserID a) s = (e, s1)"
    and "TopicMemberRepository_Delete (W_stmt w' 2) t (TM_UserID b) s1 = (e', s2)"
  shows "\<not> leaving_refused w t (TM_UserID a) s \<and> \<not> leaving_refused w' t (TM_UserID b) s \<and> e = None \<and> e' = None \<and> owner_count t (SS_db s2) = 0"
proof -
  have two: "(\<lambda>m. TM_TopicID m = t \<and> TM_Role m = TopicMemberRoleOwner) = is_topic_owner t" by (auto simp: is_topic_owner_def)
  have n: "TopicMemberRepository_CountOwners q t s = Inr 2" if "SQ_ok q" for q
    using that assms(1) by (simp add: TopicMemberRepository_CountOwners_def listed_def queryDirect_def two)
  have "owner_count t (SS_db s2) = 0"
  proof -
    have "x = a \<or> x = b" if "x \<in> set (TD_members (SS_db s))" "is_topic_owner t x" for x using only_owners [OF assms(1)] that by simp
    moreover have "TD_members (SS_db s2) = filter (\<lambda>x. \<not> (TM_TopicID x = t \<and> TM_UserID x = TM_UserID b))
        (filter (\<lambda>x. \<not> (TM_TopicID x = t \<and> TM_UserID x = TM_UserID a)) (TD_members (SS_db s)))"
      using assms(2-4) by (auto simp: TopicMemberRepository_Delete_def execDirect_def delete_member_def)
    ultimately show ?thesis by (fastforce simp: owner_count_def filter_empty_conv is_topic_owner_def)
  qed
  then show ?thesis using assms(2-4) n [of "W_stmt w 1"] n [of "W_stmt w' 1"]
    by (auto simp: leaving_refused_def TopicMemberRepository_Delete_def execDirect_def delete_member_def plain_def)
qed

section \<open>Who sees a topic\<close>

lemma error_no_reply [simp]:
  "MapDomainError text err \<noteq> Reply r" "NewValidationError msg \<noteq> Reply r" "NewPermissionDeniedError a b \<noteq> Reply r"
  "NewPreconditionError msg \<noteq> Reply r" "NewResourceNotFoundError a b \<noteq> Reply r" "ValidateSearchQuery query \<noteq> Some (Reply r)"
  by (auto simp: MapDomainError_def NewValidationError_def NewPermissionDeniedError_def NewPreconditionError_def NewResourceNotFoundError_def
      ValidateSearchQuery_def split: repo_error.splits option.splits)

lemma find_topic_no_reply [simp]: "find_topic env q msg i name s \<noteq> (Inl (Reply r), s')"
  by (auto simp: find_topic_def map_sum_def split: prod.splits sum.splits)

definition may_see :: "User option \<Rightarrow> topic_db \<Rightarrow> Topic \<Rightarrow> bool" where
  "may_see user db t \<longleftrightarrow> isPublicTopic t
     \<or> (\<exists>u. user = Some u \<and> (User_Role u = UserRoleAdmin \<or> (\<exists>m \<in> set (TD_members db). member_of (Topic_ID t) (User_ID u) m)))"

lemma access_may_see: "canAccessTopic q t user s \<Longrightarrow> may_see user (SS_db s) t"
  by (auto simp: canAccessTopic_def may_see_def TopicMemberRepository_HasAccess_def listed_def queryDirect_def filter_empty_conv
      split: option.splits if_splits)

lemma access_answered: "SQ_ok q \<Longrightarrow> canAccessTopic q t user s = may_see user (SS_db s) t"
  by (auto simp: canAccessTopic_def may_see_def TopicMemberRepository_HasAccess_def listed_def queryDirect_def filter_empty_conv
      split: option.splits)

lemma visible_shown: "t \<in> set (visible_topics q n shown ts) \<Longrightarrow> t \<in> set ts \<and> (\<exists>a b. shown a b t)"
  by (induction q n shown ts rule: visible_topics.induct) (auto split: if_splits)

text \<open>
  What \<open>ORDER BY\<close> does with a text: the rows it gives are the rows it gets. The engine promises this
  for the name of a column. The sort field of a listing is pasted into the statement without a check,
  so a text like \<open>name LIMIT 0; SELECT ...\<close> ends the statement and runs another one; nothing is assumed of
  such texts.
\<close>

definition orders_by :: "topic_env \<Rightarrow> string \<Rightarrow> bool" where
  "orders_by env f \<longleftrightarrow> (\<forall>d ts ts'. TE_order env f d ts = Some ts' \<longrightarrow> set ts' = set ts \<and> length ts' = length ts)"

definition topic_columns :: "string list" where
  "topic_columns = [''id'', ''parent_id'', ''name'', ''description'', ''table_schema'', ''status'', ''owners'', ''created_by'',
     ''created_at'', ''updated_at'', ''dataset_count'', ''tags'', ''metadata'', ''cached_at'']"

definition orders_columns :: "topic_env \<Rightarrow> bool" where
  "orders_columns env \<longleftrightarrow> (\<forall>c \<in> set topic_columns. orders_by env c)"

text \<open>A request whose sort field, if it has one, is the name of a column.\<close>

definition plain_sort :: "topic_event \<Rightarrow> bool" where
  "plain_sort e \<longleftrightarrow>
     (case e of
        TList req \<Rightarrow> (case LT_Sort req of None \<Rightarrow> True | Some (f, d) \<Rightarrow> f = [] \<or> f \<in> set topic_columns)
      | _ \<Rightarrow> True)"

lemma listed_topics:
  assumes "TopicRepository_List (TE_texts env) (TE_order env) (TE_sql env) q f s = (Inr topics, s1)"
    and "orders_by env (if TF_OrderBy f \<noteq> [] then TF_OrderBy f else ''name'')"
  shows "set topics \<subseteq> set (TD_topics (SS_db s)) \<and> SS_db s1 = SS_db s"
proof -
  have "SS_db s1 = SS_db s" using topic_reads(3) [of "TE_texts env" "TE_order env" "TE_sql env" q f s] assms(1) by simp
  moreover obtain ts where "TE_order env (if TF_OrderBy f \<noteq> [] then TF_OrderBy f else ''name'') (TF_OrderDesc f)
      (filter (topic_matches (TE_texts env) f) (TD_topics (SS_db s))) = Some ts" "set topics \<subseteq> set ts"
    using assms(1) by (auto simp: TopicRepository_List_def queryWithAudit_def list_topics_def listed_def page_def Let_def
        split: sum.splits option.splits if_splits dest: in_set_takeD in_set_dropD)
  ultimately show ?thesis using assms(2) unfolding orders_by_def by fastforce
qed

lemma page_shown:
  assumes "topic_page env w f shown s = (Reply (ps, info), s', c)" and "p \<in> set ps"
    and "orders_by env (if TF_OrderBy f \<noteq> [] then TF_OrderBy f else ''name'')"
  shows "\<exists>t \<in> set (TD_topics (SS_db s)). \<exists>s1 a b. p = topicToProto t \<and> SS_db s1 = SS_db s \<and> shown s1 a b t"
proof -
  obtain topics s1 where l: "TopicRepository_List (TE_texts env) (TE_order env) (TE_sql env) (W_stmt w 0) f s = (Inr topics, s1)"
    and ps: "ps = map topicToProto (visible_topics (W_stmt w) 2 (shown s1) topics)"
    using assms(1) by (auto simp: topic_page_def Let_def split: prod.splits sum.splits)
  then obtain t where "p = topicToProto t" "t \<in> set (visible_topics (W_stmt w) 2 (shown s1) topics)" using assms(2) by auto
  then show ?thesis using listed_topics [OF l assms(3)] visible_shown [of t] by blast
qed

lemma with_topics_reply:
  "with_topics srv body = (Reply r, srv') \<Longrightarrow> \<exists>s s' c. TS_store srv = Some s \<and> body s = (Reply r, s', c)"
  by (auto simp: with_topics_def split: option.splits prod.splits)

text \<open>The topics in the answer to a request.\<close>

definition topics_shown :: "topic_env \<Rightarrow> topic_world \<Rightarrow> grpc_ctx \<Rightarrow> topic_event \<Rightarrow> TopicServer \<Rightarrow> ServiceTopic list" where
  "topics_shown env w ctx e srv =
     (case e of
        TGet i name \<Rightarrow> (case fst (GetTopic_handler env w ctx i name srv) of Reply (p, sub) \<Rightarrow> [p] | _ \<Rightarrow> [])
      | TList req \<Rightarrow> (case fst (ListTopics_handler env w ctx req srv) of Reply (ps, info) \<Rightarrow> ps | _ \<Rightarrow> [])
      | TSearch req \<Rightarrow> (case fst (SearchTopics_handler env w ctx req srv) of Reply (ps, info) \<Rightarrow> ps | _ \<Rightarrow> [])
      | _ \<Rightarrow> [])"

lemma found_topic: "find_topic env q msg i name s = (Inr t, s') \<Longrightarrow> t \<in> set (TD_topics (SS_db s)) \<and> SS_db s' = SS_db s"
  using find_topic_db [of env q msg i name s]
  by (auto simp: find_topic_def TopicRepository_Get_def TopicRepository_GetByName_def queryWithAudit_def found_def find_Some_iff
      split: if_splits sum.splits option.splits)

lemma get_topic_shows:
  assumes "GetTopic_handler env w ctx i name srv = (Reply (p, sub), srv')" and "TS_store srv = Some s"
  shows "\<exists>t \<in> set (TD_topics (SS_db s)). p = topicToProto t \<and> may_see (Ctx_user ctx) (SS_db s) t"
proof -
  obtain t s1 where "find_topic env (W_stmt w 0) ''id or name is required'' i name s = (Inr t :: (ServiceTopic \<times> Subscription option) outcome + Topic, s1)"
    "canAccessTopic (W_stmt w 1) t (Ctx_user ctx) s1" "p = topicToProto t"
    using assms by (auto simp: GetTopic_handler_def with_topics_def split: prod.splits sum.splits if_splits)
  then show ?thesis using found_topic [of env "W_stmt w 0" "''id or name is required''" i name s t s1] access_may_see by fastforce
qed

text \<open>
  C25. When the sort field of a listing is left out, empty or the name of a column of the table, and
  ordering by a column gives the rows it gets, then a topic that the service shows, alone, in a listing
  or as the result of a search, is a row of the table that is public, or the caller is an administrator
  or one of its members. For another sort field nothing is claimed: it is pasted into the statement,
  which can then return rows that look public.
\<close>

theorem private_topics_hidden:
  assumes "TS_store srv = Some s" and "orders_columns env" and "plain_sort e" and "p \<in> set (topics_shown env w ctx e srv)"
  shows "\<exists>t \<in> set (TD_topics (SS_db s)). p = topicToProto t \<and> may_see (Ctx_user ctx) (SS_db s) t"
proof -
  have page: "\<exists>t \<in> set (TD_topics (SS_db s)). p = topicToProto t \<and> may_see (Ctx_user ctx) (SS_db s) t"
    if l: "topic_page env w f shown s = (Reply (ps, info), s', c)" "p \<in> set ps" and v: "\<And>s1 a b t. shown s1 a b t \<Longrightarrow> may_see (Ctx_user ctx) (SS_db s1) t"
      and o: "orders_by env (if TF_OrderBy f \<noteq> [] then TF_OrderBy f else ''name'')"
    for f shown ps info s' c
    using page_shown [OF l o] v by metis
  have name: "orders_by env ''name''" using assms(2) by (simp add: orders_columns_def topic_columns_def)
  show ?thesis using assms(4)
  proof (cases e)
    case (TGet i name)
    then show ?thesis using assms(4) get_topic_shows [OF _ assms(1)]
      by (cases "GetTopic_handler env w ctx i name srv") (auto simp: topics_shown_def split: outcome.splits)
  next
    case (TList req)
    have "orders_by env (if TF_OrderBy (list_filter req) \<noteq> [] then TF_OrderBy (list_filter req) else ''name'')"
      using assms(2,3) name TList by (auto simp: plain_sort_def orders_columns_def list_filter_def Let_def split: option.splits)
    then show ?thesis using assms(1,4) TList
      by (auto simp: topics_shown_def ListTopics_handler_def with_topics_def listed_for_def dest: access_may_see
          split: outcome.splits prod.splits intro!: page)
  next
    case (TSearch req)
    have "orders_by env (if TF_OrderBy (search_filter req) \<noteq> [] then TF_OrderBy (search_filter req) else ''name'')"
      using name by (simp add: search_filter_def Let_def)
    then show ?thesis using assms(1,4) TSearch
      by (auto simp: topics_shown_def SearchTopics_handler_def with_topics_def dest: access_may_see
          split: outcome.splits prod.splits option.splits intro!: page)
  qed (simp_all add: topics_shown_def)
qed

section \<open>Who changes a topic\<close>

lemma role_member: "TopicMemberRepository_GetRole q t u s = Inr TopicMemberRoleOwner \<Longrightarrow> \<exists>m \<in> set (TD_members (SS_db s)). is_topic_owner t m \<and> TM_UserID m = u"
  by (auto simp: TopicMemberRepository_GetRole_def row_or_def queryDirect_def is_topic_owner_def member_of_def find_Some_iff
      split: sum.splits option.splits if_splits)

lemma statements_topics:
  "insert_member m fk db = Inr (n, db') \<Longrightarrow> TD_topics db' = TD_topics db"
  "update_member now m fk db = Inr (n, db') \<Longrightarrow> TD_topics db' = TD_topics db"
  "delete_member t i fk db = Inr (n, db') \<Longrightarrow> TD_topics db' = TD_topics db"
  "insert_invitation v fk db = Inr (n, db') \<Longrightarrow> TD_topics db' = TD_topics db"
  "update_invitation v fk db = Inr (n, db') \<Longrightarrow> TD_topics db' = TD_topics db"
  by (auto simp: insert_member_def update_member_def delete_member_def insert_invitation_def update_invitation_def split: if_splits)

lemma repos_topics:
  "TopicMemberRepository_Create q m s = (e, s') \<Longrightarrow> TD_topics (SS_db s') = TD_topics (SS_db s)"
  "TopicMemberRepository_Update q now m s = (e, s') \<Longrightarrow> TD_topics (SS_db s') = TD_topics (SS_db s)"
  "TopicMemberRepository_Delete q t i s = (e, s') \<Longrightarrow> TD_topics (SS_db s') = TD_topics (SS_db s)"
  "TopicInvitationRepository_Create q v s = (e, s') \<Longrightarrow> TD_topics (SS_db s') = TD_topics (SS_db s)"
  "TopicInvitationRepository_Update q v s = (e, s') \<Longrightarrow> TD_topics (SS_db s') = TD_topics (SS_db s)"
  by (auto dest!: member_changes simp: changed_by_def dest: statements_topics)

lemmas repos_topics' [simp] = repos_topics [OF prod.collapse [symmetric]]

lemma remove_members_topics [simp]: "TD_topics (SS_db (remove_members q n t xs s)) = TD_topics (SS_db s)"
  by (induction q n t xs s rule: remove_members.induct) auto

lemma statements_other_topics:
  "insert_topic t fk db = Inr (n, db') \<Longrightarrow> x \<in> set (TD_topics db) \<Longrightarrow> x \<in> set (TD_topics db')"
  "update_topic now t fk db = Inr (n, db') \<Longrightarrow> x \<in> set (TD_topics db) \<Longrightarrow> Topic_ID x \<noteq> Topic_ID t \<Longrightarrow> x \<in> set (TD_topics db')"
  "delete_topic now i fk db = Inr (n, db') \<Longrightarrow> x \<in> set (TD_topics db) \<Longrightarrow> Topic_ID x \<noteq> i \<Longrightarrow> x \<in> set (TD_topics db')"
  by (force simp: insert_topic_def update_topic_def delete_topic_def split: if_splits)+

lemma repos_other_topics:
  "TopicRepository_Create env q t s = (e, s') \<Longrightarrow> x \<in> set (TD_topics (SS_db s)) \<Longrightarrow> x \<in> set (TD_topics (SS_db s'))"
  "TopicRepository_Update env q now t s = (e, s') \<Longrightarrow> x \<in> set (TD_topics (SS_db s)) \<Longrightarrow> Topic_ID x \<noteq> Topic_ID t \<Longrightarrow> x \<in> set (TD_topics (SS_db s'))"
  "TopicRepository_Delete env q now i s = (e, s') \<Longrightarrow> x \<in> set (TD_topics (SS_db s)) \<Longrightarrow> Topic_ID x \<noteq> i \<Longrightarrow> x \<in> set (TD_topics (SS_db s'))"
  by (auto dest!: topic_changes simp: changed_by_def dest: statements_other_topics)

lemma get_topic_db: "TopicRepository_Get env q i s = (r, s') \<Longrightarrow> SS_db s' = SS_db s"
  using topic_reads(1) [of env q i s] by simp

lemma get_by_name_db: "TopicRepository_GetByName env q i s = (r, s') \<Longrightarrow> SS_db s' = SS_db s"
  using topic_reads(2) [of env q i s] by simp

lemma find_topic_db': "find_topic env q msg i name s = (r, s') \<Longrightarrow> SS_db s' = SS_db s"
  by (metis find_topic_db snd_conv)

lemma as_owner_changes:
  assumes "x \<in> set (TD_topics (SS_db s))" and "x \<notin> set (TD_topics (SS_db (fst (snd (as_owner env w ctx action i body s)))))"
    and "\<And>topic s. x \<in> set (TD_topics (SS_db s)) \<Longrightarrow> Topic_ID x \<noteq> Topic_ID topic \<Longrightarrow> x \<in> set (TD_topics (SS_db (fst (snd (body topic s)))))"
  shows "\<exists>user. Ctx_user ctx = Some user \<and> (\<exists>m \<in> set (TD_members (SS_db s)). is_topic_owner (Topic_ID x) m \<and> TM_UserID m = User_ID user)"
proof -
  obtain topic s1 user where g: "TopicRepository_Get (TE_sql env) (W_stmt w 0) i s = (Inr topic, s1)" and u: "Ctx_user ctx = Some user"
    and r: "TopicMemberRepository_GetRole (W_stmt w 1) (Topic_ID topic) (User_ID user) s1 = Inr TopicMemberRoleOwner"
    and b: "x \<notin> set (TD_topics (SS_db (fst (snd (body topic s1)))))"
    using assms(1,2) by (auto simp: as_owner_def split: if_splits prod.splits sum.splits option.splits dest: get_topic_db)
  have s1: "SS_db s1 = SS_db s" by (rule get_topic_db [OF g])
  then have "Topic_ID x = Topic_ID topic" using assms(1,3) b by metis
  then show ?thesis using role_member [OF r] u s1 by auto
qed

lemma with_topics_store: "TS_store srv = Some s \<Longrightarrow> TS_store (snd (with_topics srv body)) = Some (fst (snd (body s)))"
  by (simp add: with_topics_def case_prod_beta)

text \<open>The user in whose name a step is taken.\<close>

definition acting_user :: "grpc_ctx \<Rightarrow> topic_event \<Rightarrow> UserID option" where
  "acting_user ctx e = (case e of TMembership (MRestore t u) \<Rightarrow> Some u | _ \<Rightarrow> map_option User_ID (Ctx_user ctx))"

lemma restore_changes:
  assumes "x \<in> set (TD_topics (SS_db (MM_store m)))" and "x \<notin> set (TD_topics (SS_db (MM_store (snd (RestoreTopic env w t u m)))))"
  shows "\<exists>y \<in> set (TD_members (SS_db (MM_store m))). is_topic_owner (Topic_ID x) y \<and> TM_UserID y = u"
proof -
  obtain topic s1 e s2 where g: "TopicRepository_Get env (W_stmt w 1) t (MM_store m) = (Inr topic, s1)"
    and r: "TopicMemberRepository_GetRole (W_stmt w 0) t u (MM_store m) = Inr TopicMemberRoleOwner"
    and up: "TopicRepository_Update env (W_stmt w 2) (W_now w 1) (topic\<lparr>Topic_Status := TopicStatusActive, Topic_UpdatedAt := W_now w 0\<rparr>) s1 = (e, s2)"
    and x: "x \<notin> set (TD_topics (SS_db s2))"
    using assms(1,2) by (auto simp: RestoreTopic_def split: if_splits prod.splits sum.splits option.splits dest: get_topic_db)
  have "Topic_ID topic = t" using g
    by (auto simp: TopicRepository_Get_def queryWithAudit_def found_def find_Some_iff split: sum.splits option.splits if_splits)
  moreover have "Topic_ID x = Topic_ID topic" using repos_other_topics(2) [OF up, of x] assms(1) x get_topic_db [OF g] by auto
  ultimately show ?thesis using role_member [OF r] by simp
qed

lemma membership_topics:
  "(\<forall>t u. op \<noteq> MRestore t u) \<Longrightarrow> TD_topics (SS_db (MM_store (membership_apply env w op m))) = TD_topics (SS_db (MM_store m))"
  by (cases op)
    (auto simp: InviteMember_def AcceptInvitation_def DeclineInvitation_def CancelInvitation_def UpdateMemberRole_def RemoveMember_def TransferOwnership_def
      Let_def split: sum.split prod.split option.split dest: repos_topics)

lemma owner_request_changes:
  assumes "TS_store srv = Some s" and "TS_store (snd (with_topics srv (as_owner env w ctx action i body))) = Some s'"
    and "x \<in> set (TD_topics (SS_db s))" "x \<notin> set (TD_topics (SS_db s'))"
    and "\<And>topic s. x \<in> set (TD_topics (SS_db s)) \<Longrightarrow> Topic_ID x \<noteq> Topic_ID topic \<Longrightarrow> x \<in> set (TD_topics (SS_db (fst (snd (body topic s)))))"
  shows "\<exists>user. Ctx_user ctx = Some user \<and> (\<exists>m \<in> set (TD_members (SS_db s)). is_topic_owner (Topic_ID x) m \<and> TM_UserID m = User_ID user)"
  by (rule as_owner_changes [where env = env and w = w and action = action and i = i and body = body, OF assms(3) _ assms(5)])
    (use assms(1,2,4) in \<open>simp_all add: with_topics_store\<close>)

lemma edited_topic_id [simp]: "Topic_ID (edited_topic now req t) = Topic_ID t"
  by (simp add: edited_topic_def)

lemma update_request_changes:
  assumes "TS_store srv = Some s" and "TS_store (snd (UpdateTopic_handler env w ctx req srv)) = Some s'"
    and "x \<in> set (TD_topics (SS_db s))" "x \<notin> set (TD_topics (SS_db s'))"
  shows "\<exists>user. Ctx_user ctx = Some user \<and> (\<exists>m \<in> set (TD_members (SS_db s)). is_topic_owner (Topic_ID x) m \<and> TM_UserID m = User_ID user)"
  using assms unfolding UpdateTopic_handler_def
  by (rule owner_request_changes) (auto simp: Let_def split: option.split prod.split dest: repos_other_topics(2))

lemma delete_request_changes:
  assumes "TS_store srv = Some s" and "TS_store (snd (DeleteTopic_handler env w ctx i force srv)) = Some s'"
    and "x \<in> set (TD_topics (SS_db s))" "x \<notin> set (TD_topics (SS_db s'))"
  shows "\<exists>user. Ctx_user ctx = Some user \<and> (\<exists>m \<in> set (TD_members (SS_db s)). is_topic_owner (Topic_ID x) m \<and> TM_UserID m = User_ID user)"
  using assms unfolding DeleteTopic_handler_def
  by (rule owner_request_changes) (auto split: option.split prod.split dest: repos_other_topics(3))

lemma list_page_db: "topic_page env w f shown s = (r, s', c) \<Longrightarrow> SS_db s' = SS_db s"
  using topic_page_db [of env w f shown s] by simp

lemma subscriptions_db': "subscriptions_of env q n status ms s = (r, s') \<Longrightarrow> SS_db s' = SS_db s"
  using subscriptions_db [of env q n status ms s] by simp

lemma other_request_topics:
  assumes "TS_store srv = Some s" and "TS_store (topic_step env w ctx e srv) = Some s'"
    and "\<forall>req. e \<noteq> TCreate req" "\<forall>req. e \<noteq> TUpdate req" "\<forall>i f. e \<noteq> TDelete i f" "\<forall>op. e \<noteq> TMembership op"
  shows "TD_topics (SS_db s') = TD_topics (SS_db s)"
proof (cases e)
  case (TSubscribe i name sync)
  then show ?thesis using assms(1,2)
    by (auto simp: Subscribe_handler_def with_topics_store Let_def split: option.splits prod.splits sum.splits if_splits
        dest!: find_topic_db' dest: repos_topics)
qed (use assms in \<open>auto simp: GetTopic_handler_def ListTopics_handler_def Unsubscribe_handler_def ListSubscriptions_handler_def
      GetSubscription_handler_def GetTopicStats_handler_def SearchTopics_handler_def with_topics_store Let_def
      split: option.splits prod.splits sum.splits if_splits
      dest!: find_topic_db' get_topic_db list_page_db subscriptions_db' dest: repos_topics\<close>)

text \<open>
  C26. Whatever step is taken, a row of the topics is only changed in the name of an owner of that topic; the creation of
  other topics leaves it alone. A listing is a read, as it is for a plain sort field.
\<close>

theorem topic_changed_by_owner:
  assumes s: "TS_store srv = Some s" and s': "TS_store (topic_step env w ctx e srv) = Some s'"
    and x: "x \<in> set (TD_topics (SS_db s))" "x \<notin> set (TD_topics (SS_db s'))"
  shows "\<exists>m \<in> set (TD_members (SS_db s)). is_topic_owner (Topic_ID x) m \<and> acting_user ctx e = Some (TM_UserID m)"
proof (cases e)
  case (TCreate req)
  then have "x \<in> set (TD_topics (SS_db s'))" using s s' x(1)
    by (auto simp: CreateTopic_handler_def with_topics_store Let_def split: option.splits prod.splits sum.splits
        dest!: repos_other_topics(1) [where x = x] get_by_name_db)
  then show ?thesis using x(2) by simp
next
  case (TUpdate req)
  then show ?thesis using update_request_changes [OF s _ x, of env w ctx req] s' by (fastforce simp: acting_user_def)
next
  case (TDelete i force)
  then show ?thesis using delete_request_changes [OF s _ x, of env w ctx i force] s' by (fastforce simp: acting_user_def)
next
  case (TMembership op)
  let ?m = "NewMembershipManager s (TS_auditLogger srv)"
  have st: "s' = MM_store (membership_apply (TE_sql env) w op ?m)" using s s' TMembership by (simp add: on_members_def Let_def)
  have "\<exists>t u. op = MRestore t u"
  proof (rule ccontr)
    assume "\<nexists>t u. op = MRestore t u"
    then show False using membership_topics [of op "TE_sql env" w ?m] x by (simp add: st NewMembershipManager_def)
  qed
  then obtain t u where "op = MRestore t u" by blast
  then show ?thesis using restore_changes [of x ?m "TE_sql env" w t u] x TMembership st
    by (fastforce simp: acting_user_def NewMembershipManager_def)
qed (use other_request_topics [OF s s'] x in auto)

section \<open>Witnesses\<close>

definition sample_topic_world :: "bool \<Rightarrow> topic_world" where
  "sample_topic_world ok =
     \<lparr>W_stmt = (\<lambda>n. sample_stmt\<lparr>SQ_ok := ok \<or> n \<noteq> 0\<rparr>), W_now = (\<lambda>n. 5), W_random = (\<lambda>n. Some [1]), W_uuid = (\<lambda>n. show_nat n)\<rparr>"

definition sample_topic_env :: topic_env where
  "sample_topic_env = \<lparr>TE_sql = Dataset_Repo.sample_env, TE_texts = \<lparr>TT_owners = concat, TT_tags = concat\<rparr>, TE_order = (\<lambda>f d ts. Some ts), TE_error = (\<lambda>e. [])\<rparr>"

definition sample_member :: "string \<Rightarrow> TopicMember" where
  "sample_member u = \<lparr>TM_ID = u, TM_TopicID = ''weather'', TM_UserID = u, TM_Role = ''owner'', TM_InvitedBy = u, TM_InvitedAt = 0, TM_AcceptedAt = None,
     TM_CreatedAt = 0, TM_UpdatedAt = 0\<rparr>"

definition sample_topics :: "string list \<Rightarrow> topic_store" where
  "sample_topics us = open_store ''n'' 0 \<lparr>TD_users = us, TD_topics = [sample_topic], TD_members = map sample_member us, TD_invitations = []\<rparr>"

definition sample_topic_server :: "string list \<Rightarrow> TopicServer" where
  "sample_topic_server us = NewTopicServerWithConfig (Some (sample_topics us)) None []"

definition sample_topic_user :: "string \<Rightarrow> string \<Rightarrow> User" where
  "sample_topic_user u role = \<lparr>User_ID = u, User_PublicKey = replicate 32 1, User_KeyType = KeyTypeEd25519, User_PublicKeyFingerprint = [], User_Name = u,
     User_Email = [], User_Status = UserStatusActive, User_Role = role, User_Locale = [], User_CreatedAt = 0, User_UpdatedAt = 0,
     User_LastLoginAt = None, User_Metadata = Map.empty\<rparr>"

definition sample_caller :: "string \<Rightarrow> string \<Rightarrow> grpc_ctx" where
  "sample_caller u role = \<lparr>Ctx_metadata = None, Ctx_user = Some (sample_topic_user u role), Ctx_request_id = None, Ctx_peer = None\<rparr>"

lemmas sample_topic_defs = sample_topic_world_def sample_topic_env_def sample_member_def sample_topics_def sample_topic_server_def sample_caller_def
  sample_topic_user_def NewTopicServerWithConfig_def sample_topic_def sample_stmt_def open_store_def

theorem topic_keeps_an_owner_witness:
  "\<exists>s'. TS_store (topic_run sample_topic_env [(sample_topic_world True, sample_caller ''alice'' ''user'', TUnsubscribe ''weather'')]
       (sample_topic_server [''alice'', ''bob''])) = Some s' \<and> 0 < owner_count ''weather'' (SS_db s')"
proof -
  let ?es = "[(sample_topic_world True, sample_caller ''alice'' ''user'', TUnsubscribe ''weather'')]"
  have st: "TS_store (sample_topic_server [''alice'', ''bob'']) = Some (sample_topics [''alice'', ''bob''])"
    by (simp add: sample_topic_server_def NewTopicServerWithConfig_def)
  have "topics_ok (SS_db (sample_topics [''alice'', ''bob'']))" "0 < owner_count ''weather'' (SS_db (sample_topics [''alice'', ''bob'']))"
    by (simp_all add: sample_topic_defs topics_ok_def topic_checks_def TopicStatus_IsValid_def TopicMemberRole_IsValid_def owner_count_def is_topic_owner_def)
  moreover obtain s' where "TS_store (topic_run sample_topic_env ?es (sample_topic_server [''alice'', ''bob''])) = Some s'"
    by (simp add: topic_run_def Unsubscribe_handler_def with_topics_store [OF st])
  ultimately show ?thesis using topic_keeps_an_owner [OF st, of "''weather''" ?es sample_topic_env] by (simp add: sample_topic_world_def sample_stmt_def)
qed

theorem failed_read_orphans_topic_witness:
  "\<exists>srv' s'. Unsubscribe_handler sample_topic_env (sample_topic_world False) (sample_caller ''alice'' ''user'') ''weather'' (sample_topic_server [''alice''])
       = (Reply (), srv') \<and> TS_store srv' = Some s' \<and> owner_count ''weather'' (SS_db s') = 0"
  using failed_read_orphans_topic [of "sample_topic_server [''alice'']" "sample_topics [''alice'']" "sample_caller ''alice'' ''user''"
      "sample_topic_user ''alice'' ''user''" "''weather''" "sample_member ''alice''" "sample_topic_world False" sample_topic_env]
  by (auto simp: sample_topic_defs is_topic_owner_def)

theorem concurrent_leave_orphans_topic_witness:
  "\<exists>s1 s2 e e'. TopicMemberRepository_Delete sample_stmt ''weather'' ''alice'' (sample_topics [''alice'', ''bob'']) = (e, s1)
     \<and> TopicMemberRepository_Delete sample_stmt ''weather'' ''bob'' s1 = (e', s2) \<and> owner_count ''weather'' (SS_db s2) = 0"
proof -
  let ?s = "sample_topics [''alice'', ''bob'']"
  have w: "W_stmt (sample_topic_world True) n = sample_stmt" for n by (simp add: sample_topic_world_def sample_stmt_def)
  obtain e s1 where a: "TopicMemberRepository_Delete sample_stmt ''weather'' ''alice'' ?s = (e, s1)" by fastforce
  obtain e' s2 where b: "TopicMemberRepository_Delete sample_stmt ''weather'' ''bob'' s1 = (e', s2)" by fastforce
  have "owner_count ''weather'' (SS_db s2) = 0"
    using concurrent_leave_orphans_topic [of "''weather''" ?s "sample_member ''alice''" "sample_member ''bob''" "sample_topic_world True" "sample_topic_world True"
        e s1 e' s2] a b by (simp add: w sample_member_def sample_topics_def open_store_def is_topic_owner_def, simp add: sample_stmt_def)
  then show ?thesis using a b by blast
qed

lemma sample_orders: "orders_by sample_topic_env f"
  by (simp add: orders_by_def sample_topic_env_def)

definition sample_sorted :: ListTopicsRequest where
  "sample_sorted = \<lparr>LT_Status = [], LT_Tags = [], LT_OwnerId = [], LT_Page = None, LT_Sort = Some (''name'', False),
     LT_PublicOnly = False, LT_SubscribedOnly = False\<rparr>"

theorem private_topics_hidden_witness:
  "\<exists>t \<in> set (TD_topics (SS_db (sample_topics []))). topicToProto sample_topic = topicToProto t
     \<and> may_see (Ctx_user (sample_caller ''eve'' ''user'')) (SS_db (sample_topics [])) t"
proof (rule private_topics_hidden [where e = "TList sample_sorted" and w = "sample_topic_world True"])
  show "TS_store (sample_topic_server []) = Some (sample_topics [])" by (simp add: sample_topic_server_def NewTopicServerWithConfig_def)
  show "orders_columns sample_topic_env" by (simp add: orders_columns_def sample_orders)
  show "plain_sort (TList sample_sorted)" by (simp add: plain_sort_def sample_sorted_def topic_columns_def)
  show "topicToProto sample_topic \<in> set (topics_shown sample_topic_env (sample_topic_world True) (sample_caller ''eve'' ''user'') (TList sample_sorted) (sample_topic_server []))"
    by (simp add: topics_shown_def ListTopics_handler_def with_topics_def topic_page_def TopicRepository_List_def TopicRepository_Count_def
        list_filter_def list_topics_def topic_matches_def topic_counted_def page_def listed_def listed_for_def sample_sorted_def
        sample_topic_defs queryWithAudit_def log_statement_def canAccessTopic_def isPublicTopic_def Let_def)
qed

theorem topic_changed_by_owner_witness:
  "\<exists>m \<in> set (TD_members (SS_db (sample_topics [''alice'']))). is_topic_owner ''weather'' m
     \<and> acting_user (sample_caller ''alice'' ''user'') (TDelete ''weather'' False) = Some (TM_UserID m)"
proof -
  let ?srv = "sample_topic_server [''alice'']" and ?w = "sample_topic_world True" and ?ctx = "sample_caller ''alice'' ''user''"
  have st: "TS_store ?srv = Some (sample_topics [''alice''])" by (simp add: sample_topic_server_def NewTopicServerWithConfig_def)
  obtain s' where s': "TS_store (topic_step sample_topic_env ?w ?ctx (TDelete ''weather'' False) ?srv) = Some s'"
    by (simp add: DeleteTopic_handler_def with_topics_store [OF st])
  have "sample_topic \<notin> set (TD_topics (SS_db s'))" using s'
    by (auto simp: DeleteTopic_handler_def with_topics_def as_owner_def sample_topic_defs TopicRepository_Get_def queryWithAudit_def found_def
        log_statement_def TopicMemberRepository_GetRole_def row_or_def queryDirect_def member_of_def TopicRepository_Delete_def execWithAudit_def
        delete_topic_def update_outcome_def)
  then show ?thesis using topic_changed_by_owner [OF st s', of sample_topic]
    by (simp add: sample_topics_def sample_topic_def open_store_def)
qed

end
