(* ===== verification/Topic_Paging.thy ===== *)
theory Topic_Paging
  imports Topic_Service
begin

text \<open>
  Paging through the listing of topics (\<open>ListTopics\<close> of \<open>internal/grpc/services/topic/server.go\<close>): a client asks for
  the next page, from the end of the last one, for as long as the answer says that there are more.

  Shown: an administrator who lists without further conditions gets every topic once and stops;
  a client for whom a page comes back empty before the count is reached asks for that page forever.
\<close>

text \<open>The client; \<open>None\<close> when the fuel runs out or a request fails.\<close>

fun page_through :: "topic_env \<Rightarrow> (nat \<Rightarrow> topic_world) \<Rightarrow> grpc_ctx \<Rightarrow> ListTopicsRequest \<Rightarrow> int \<Rightarrow> nat \<Rightarrow> int \<Rightarrow> TopicServer \<Rightarrow> ServiceTopic list option" where
  "page_through env w ctx req limit 0 offset srv = None"
| "page_through env w ctx req limit (Suc n) offset srv =
     (case ListTopics_handler env (w n) ctx (req\<lparr>LT_Page := Some (limit, offset)\<rparr>) srv of
        (Reply (ps, info), srv') \<Rightarrow>
          if PI_HasMore info
          then map_option (\<lambda>qs. ps @ qs) (page_through env w ctx req limit n (offset + PI_PageSize info) srv')
          else Some ps
      | _ \<Rightarrow> None)"

definition answered :: "(nat \<Rightarrow> topic_world) \<Rightarrow> bool" where
  "answered w \<longleftrightarrow> (\<forall>n k. SQ_ok (W_stmt (w n) k))"

definition sort_text :: "ListTopicsRequest \<Rightarrow> string" where
  "sort_text req = (if TF_OrderBy (list_filter req) \<noteq> [] then TF_OrderBy (list_filter req) else ''name'')"

definition server_rows :: "topic_env \<Rightarrow> ListTopicsRequest \<Rightarrow> topic_db \<Rightarrow> Topic list option" where
  "server_rows env req db =
     (let f = list_filter req
      in TE_order env (if TF_OrderBy f \<noteq> [] then TF_OrderBy f else ''name'') (TF_OrderDesc f) (filter (topic_matches (TE_texts env) f) (TD_topics db)))"

lemma visible_all: "\<forall>t \<in> set ts. \<forall>a b. shown a b t \<Longrightarrow> visible_topics q n shown ts = ts"
  by (induction q n shown ts rule: visible_topics.induct) auto

lemma visible_none: "\<forall>t \<in> set ts. \<forall>a b. SQ_ok b \<longrightarrow> \<not> shown a b t \<Longrightarrow> \<forall>k. SQ_ok (q k) \<Longrightarrow> visible_topics q n shown ts = []"
  by (induction q n shown ts rule: visible_topics.induct) auto

lemma filter_page [simp]:
  "TF_OrderBy (list_filter (req\<lparr>LT_Page := p\<rparr>)) = TF_OrderBy (list_filter req)"
  "TF_OrderDesc (list_filter (req\<lparr>LT_Page := p\<rparr>)) = TF_OrderDesc (list_filter req)"
  "topic_matches tt (list_filter (req\<lparr>LT_Page := p\<rparr>)) = topic_matches tt (list_filter req)"
  "topic_counted (list_filter (req\<lparr>LT_Page := p\<rparr>)) = topic_counted (list_filter req)"
  "TF_Offset (list_filter (req\<lparr>LT_Page := Some (l, off)\<rparr>)) = off"
  "0 < l \<Longrightarrow> l \<le> 1000 \<Longrightarrow> TF_Limit (list_filter (req\<lparr>LT_Page := Some (l, off)\<rparr>)) = l"
  by (auto simp: list_filter_def Let_def topic_matches_def topic_counted_def fun_eq_iff)

lemma page_take: "0 < l \<Longrightarrow> 0 \<le> off \<Longrightarrow> page l off xs = Inr (take (nat l) (drop (nat off) xs))"
  by (simp add: page_def)

lemma listed_for_db: "SS_db s1 = SS_db s \<Longrightarrow> listed_for req user s1 = listed_for req user s"
  by (auto simp: listed_for_def canAccessTopic_def TopicMemberRepository_Get_def TopicMemberRepository_HasAccess_def queryDirect_def fun_eq_iff
      split: option.splits)

definition shown_page :: "topic_world \<Rightarrow> grpc_ctx \<Rightarrow> ListTopicsRequest \<Rightarrow> int \<Rightarrow> int \<Rightarrow> Topic list \<Rightarrow> topic_store \<Rightarrow> Topic list" where
  "shown_page w ctx req l off ts s =
     visible_topics (W_stmt w) 2 (listed_for (req\<lparr>LT_Page := Some (l, off)\<rparr>) (Ctx_user ctx) s) (take (nat l) (drop (nat off) ts))"

definition counted :: "ListTopicsRequest \<Rightarrow> topic_db \<Rightarrow> int" where
  "counted req db = int (length (filter (topic_counted (list_filter req)) (TD_topics db)))"

lemma list_answer:
  assumes s: "TS_store srv = Some s" and w: "\<forall>k. SQ_ok (W_stmt w k)" and rows: "server_rows env req (SS_db s) = Some ts"
    and l: "0 < l" "l \<le> 1000" and off: "0 \<le> off"
  shows "\<exists>srv' s'. TS_store srv' = Some s' \<and> SS_db s' = SS_db s
     \<and> ListTopics_handler env w ctx (req\<lparr>LT_Page := Some (l, off)\<rparr>) srv
       = (Reply (map topicToProto (shown_page w ctx req l off ts s),
                 \<lparr>PI_TotalCount = counted req (SS_db s), PI_HasMore = (off + int (length (shown_page w ctx req l off ts s)) < counted req (SS_db s)),
                  PI_PageSize = int (length (shown_page w ctx req l off ts s))\<rparr>), srv')"
proof -
  let ?s1 = "log_statement (TE_sql env) (W_stmt w 0) ''SELECT'' ''topics'' 0 s"
  have "listed_for r u ?s1 = listed_for r u s" for r u by (rule listed_for_db) simp
  then show ?thesis using s w rows
    by (auto simp: ListTopics_handler_def with_topics_def topic_page_def TopicRepository_List_def TopicRepository_Count_def queryWithAudit_def listed_def
        list_topics_def server_rows_def Let_def page_take [OF l(1) off] l shown_page_def counted_def)
qed

text \<open>A listing that hides nothing from the caller: by an administrator, with no condition that the count leaves out.\<close>

definition plain_listing :: "grpc_ctx \<Rightarrow> ListTopicsRequest \<Rightarrow> bool" where
  "plain_listing ctx req \<longleftrightarrow> (case Ctx_user ctx of None \<Rightarrow> False | Some u \<Rightarrow> User_Role u = UserRoleAdmin)
     \<and> LT_OwnerId req = [] \<and> LT_Tags req = [] \<and> \<not> LT_PublicOnly req \<and> \<not> LT_SubscribedOnly req"

lemma plain_shown: "plain_listing ctx req \<Longrightarrow> shown_page w ctx req l off ts s = take (nat l) (drop (nat off) ts)"
  unfolding shown_page_def by (rule visible_all) (auto simp: plain_listing_def listed_for_def canAccessTopic_def split: option.splits)

lemma plain_counted:
  assumes "plain_listing ctx req" and "orders_by env (sort_text req)" and "server_rows env req db = Some ts"
  shows "counted req db = int (length ts)"
proof -
  have "topic_matches tt (list_filter req) = topic_counted (list_filter req)" for tt
    using assms(1) by (auto simp: topic_matches_def plain_listing_def list_filter_def Let_def fun_eq_iff)
  then show ?thesis using assms(2,3) by (force simp: counted_def server_rows_def Let_def orders_by_def sort_text_def split: if_splits)
qed

lemma pages_from:
  "TS_store srv = Some s \<Longrightarrow> answered w \<Longrightarrow> plain_listing ctx req \<Longrightarrow> orders_by env (sort_text req) \<Longrightarrow> server_rows env req (SS_db s) = Some ts \<Longrightarrow> 0 < l \<Longrightarrow> l \<le> 1000
   \<Longrightarrow> off \<le> length ts \<Longrightarrow> length ts - off < n \<Longrightarrow> page_through env w ctx req l n (int off) srv = Some (map topicToProto (drop off ts))"
proof (induction n arbitrary: off srv s)
  case (Suc n)
  define p where "p = take (nat l) (drop off ts)"
  have ok: "\<forall>k. SQ_ok (W_stmt (w n) k)" using Suc.prems(2) by (simp add: answered_def)
  obtain srv' s' where s': "TS_store srv' = Some s'" "SS_db s' = SS_db s"
    and a: "ListTopics_handler env (w n) ctx (req\<lparr>LT_Page := Some (l, int off)\<rparr>) srv
      = (Reply (map topicToProto p, \<lparr>PI_TotalCount = int (length ts), PI_HasMore = (int off + int (length p) < int (length ts)),
          PI_PageSize = int (length p)\<rparr>), srv')"
    using list_answer [OF Suc.prems(1) ok Suc.prems(5) Suc.prems(6,7), of "int off" ctx] plain_shown [OF Suc.prems(3)]
      plain_counted [OF Suc.prems(3-5)] by (auto simp: p_def)
  show ?case
  proof (cases "off + length p < length ts")
    case True
    then have "length p = nat l" by (auto simp: p_def)
    then have d: "drop off ts = p @ drop (off + length p) ts" using append_take_drop_id [of "nat l" "drop off ts"] by (simp add: p_def add.commute)
    have "page_through env w ctx req l n (int (off + length p)) srv' = Some (map topicToProto (drop (off + length p) ts))"
      using True Suc.prems s' \<open>length p = nat l\<close> by (intro Suc.IH [OF s'(1)]) auto
    then show ?thesis using a True by (subst d) simp
  next
    case False
    then have "p = drop off ts" by (auto simp: p_def)
    then show ?thesis using a False by simp
  qed
qed simp

text \<open>
  C27. Paging ends: when every statement is answered, and ordering by the sort field of the request gives the rows it gets, in the
  same order for every page, then an administrator who lists the topics without conditions beside the status, and asks for the
  next page as long as there are more, gets every topic of the listing once and in order, for any page length that the service
  accepts, after at most one request more than there are topics.
\<close>

theorem paging_ends:
  assumes "TS_store srv = Some s" and "answered w" and "plain_listing ctx req" and "orders_by env (sort_text req)" and "server_rows env req (SS_db s) = Some ts"
    and "0 < l" and "l \<le> 1000" and "length ts < n"
  shows "page_through env w ctx req l n 0 srv = Some (map topicToProto ts)"
  using pages_from [OF assms(1-7), of 0 n] assms(8) by simp

text \<open>
  Paging does not end for a client from whom the rest of the listing is hidden: when no topic from an offset below the
  count on may be seen by the caller, the page is empty, says that there are more, and the next request is the same.
\<close>

theorem paging_stuck:
  assumes "TS_store srv = Some s" and "answered w" and "server_rows env req (SS_db s) = Some ts" and "0 < l" and "l \<le> 1000"
    and "0 \<le> off" and "off < counted req (SS_db s)" and "\<forall>t \<in> set (drop (nat off) ts). \<not> may_see (Ctx_user ctx) (SS_db s) t"
  shows "page_through env w ctx req l n off srv = None"
proof -
  have empty: "shown_page (w k) ctx req l off ts s = []" for k unfolding shown_page_def
    using assms(2,8) by (intro visible_none) (auto simp: answered_def listed_for_def access_answered dest: in_set_takeD)
  have "page_through env w ctx req l n off srv' = None" if "TS_store srv' = Some s'" "SS_db s' = SS_db s" for srv' s'
    using that
  proof (induction n arbitrary: srv' s')
    case (Suc n)
    have "shown_page (w n) ctx req l off ts s' = []" using empty [of n] by (simp add: shown_page_def listed_for_db [OF Suc.prems(2)])
    then obtain srv2 s2 where "TS_store srv2 = Some s2" "SS_db s2 = SS_db s" "ListTopics_handler env (w n) ctx (req\<lparr>LT_Page := Some (l, off)\<rparr>) srv'
        = (Reply ([], \<lparr>PI_TotalCount = counted req (SS_db s), PI_HasMore = True, PI_PageSize = 0\<rparr>), srv2)"
      using list_answer [OF Suc.prems(1) _ _ assms(4,5,6), of "w n" env req ts ctx] assms(2,3,7) Suc.prems(2) by (auto simp: answered_def)
    then show ?case using Suc.IH by simp
  qed simp
  then show ?thesis using assms(1) by blast
qed

section \<open>Witnesses\<close>

definition sample_listing :: ListTopicsRequest where
  "sample_listing = \<lparr>LT_Status = [], LT_Tags = [], LT_OwnerId = [], LT_Page = None, LT_Sort = None, LT_PublicOnly = False, LT_SubscribedOnly = False\<rparr>"

theorem paging_ends_witness:
  "page_through sample_topic_env (\<lambda>n. sample_topic_world True) (sample_caller ''root'' ''admin'') sample_listing 10 2 0 (sample_topic_server [])
   = Some [topicToProto sample_topic]"
  using paging_ends [of "sample_topic_server []" "sample_topics []" "\<lambda>n. sample_topic_world True" "sample_caller ''root'' ''admin''" sample_listing
      sample_topic_env "[sample_topic]" 10 2] sample_orders [of "sort_text sample_listing"]
  by (simp add: sample_topic_defs sample_listing_def answered_def plain_listing_def server_rows_def list_filter_def topic_matches_def topic_counted_def)

definition sample_private :: TopicServer where
  "sample_private = NewTopicServerWithConfig (Some (open_store ''n'' 0 \<lparr>TD_users = [], TD_topics = [sample_topic\<lparr>Topic_Metadata := [''public'' \<mapsto> ''no'']\<rparr>],
     TD_members = [], TD_invitations = []\<rparr>)) None []"

theorem paging_stuck_witness:
  "page_through sample_topic_env (\<lambda>n. sample_topic_world True) (sample_caller ''eve'' ''user'') sample_listing 10 100 0 sample_private = None"
proof -
  obtain s where s: "TS_store sample_private = Some s" and d: "SS_db s = \<lparr>TD_users = [], TD_topics = [sample_topic\<lparr>Topic_Metadata := [''public'' \<mapsto> ''no'']\<rparr>],
     TD_members = [], TD_invitations = []\<rparr>" by (simp add: sample_private_def NewTopicServerWithConfig_def open_store_def)
  show ?thesis
    using paging_stuck [OF s, of "\<lambda>n. sample_topic_world True" sample_topic_env sample_listing "[sample_topic\<lparr>Topic_Metadata := [''public'' \<mapsto> ''no'']\<rparr>]" 10 0
        "sample_caller ''eve'' ''user''" 100]
    by (simp add: d sample_topic_defs sample_listing_def answered_def server_rows_def list_filter_def topic_matches_def topic_counted_def counted_def may_see_def
        isPublicTopic_def)
qed

end
