(* ===== verification/Audit_Redact.thy ===== *)
theory Audit_Redact
  imports Queries Audit_Chain
begin

text \<open>
  Redaction and classification of audited statements (\<open>internal/storage/audit/redact.go\<close> and the
  parsers of \<open>types.go\<close>). Regular expressions are matchers: functions from the text at a
  position to the captured groups and the text after the match. Every pattern of the code is
  deterministic, so that a matcher needs no backtracking, apart from the optional group of
  \<open>IF NOT EXISTS\<close>. What Go does beyond ASCII (case folding of two letters, Unicode spaces) is
  an argument, as are the compiled patterns of the configuration and the digest.

  Shown: redaction of metadata hides exactly what lies under a sensitive key, at any depth of
  nested maps; the argument of a \<open>?\<close> placeholder is redacted exactly when the placeholder is
  preceded by an assignment to a sensitive field, whatever else the statement contains; an
  \<open>INSERT\<close> with \<open>?\<close> placeholders is never redacted, nor is an argument whose placeholder
  carries a cast; and \<open>$n\<close> is read back as the position it names.
\<close>

section \<open>Text and patterns\<close>

record unicode_text = unicode_strings +
  unicode_ToLower :: "string \<Rightarrow> string"
  unicode_replace :: "string \<Rightarrow> string \<Rightarrow> string \<Rightarrow> string"
  unicode_positions :: "(string \<Rightarrow> bool) \<Rightarrow> string \<Rightarrow> int list"
  unicode_table :: "string \<Rightarrow> string"
  unicode_normalized :: "string \<Rightarrow> string"

definition ascii_paths :: "'a unicode_text_scheme \<Rightarrow> unicode_strings" where
  "ascii_paths u = unicode_strings.truncate u"

definition lower_char :: "char \<Rightarrow> char" where
  "lower_char c = (if 65 \<le> (of_char c :: nat) \<and> (of_char c :: nat) \<le> 90
                   then char_of ((of_char c :: nat) + 32) else c)"

definition strings_ToLower :: "unicode_text \<Rightarrow> string \<Rightarrow> string" where
  "strings_ToLower u s = (if list_all ascii_char s then map lower_char s else unicode_ToLower u s)"

definition strings_Contains :: "string \<Rightarrow> string \<Rightarrow> bool" where
  "strings_Contains s p \<longleftrightarrow> list_ex (\<lambda>i. take (length p) (drop i s) = p) [0..<length s + 1]"

definition trim_quotes :: "string \<Rightarrow> string" where
  "trim_quotes s = (let q = (\<lambda>c. c = CHR 0x22 \<or> c = CHR 0x27) in rev (dropWhile q (rev (dropWhile q s))))"

text \<open>The classes \<open>\s\<close> and \<open>\d\<close> of RE2; the class \<open>\w\<close> is the one of the query checks.\<close>

definition re_space :: "char \<Rightarrow> bool" where
  "re_space c \<longleftrightarrow> (of_char c :: nat) \<in> {9, 10, 12, 13, 32}"

definition re_digit :: "char \<Rightarrow> bool" where
  "re_digit c \<longleftrightarrow> 48 \<le> (of_char c :: nat) \<and> (of_char c :: nat) \<le> 57"

type_synonym 'a matcher = "string \<Rightarrow> ('a \<times> string) option"

text \<open>
  \<open>FindStringSubmatch\<close> and \<open>FindAllStringSubmatch\<close>: the leftmost match with the text before
  it, and all matches from left to right with the text between them.
\<close>

fun find_first :: "'a matcher \<Rightarrow> string \<Rightarrow> (string \<times> 'a \<times> string) option" where
  "find_first m [] = (case m [] of None \<Rightarrow> None | Some (a, r) \<Rightarrow> Some ([], a, r))"
| "find_first m (c # s) =
     (case m (c # s) of
        Some (a, r) \<Rightarrow> Some ([], a, r)
      | None \<Rightarrow> (case find_first m s of None \<Rightarrow> None | Some (b, a, r) \<Rightarrow> Some (c # b, a, r)))"

function find_all :: "'a matcher \<Rightarrow> string \<Rightarrow> (string \<times> 'a) list" where
  "find_all m s =
     (case find_first m s of
        None \<Rightarrow> []
      | Some (b, a, r) \<Rightarrow> (b, a) # (if length r < length s then find_all m r else []))"
  by pat_completeness auto
termination by (relation "measure (\<lambda>(m, s). length s)") auto

declare find_all.simps [simp del]

definition spaces1 :: "string \<Rightarrow> string option" where
  "spaces1 s = (if s \<noteq> [] \<and> re_space (hd s) then Some (dropWhile re_space s) else None)"

text \<open>A literal under \<open>(?i)\<close>, given in upper case.\<close>

definition literal :: "string \<Rightarrow> string \<Rightarrow> string option" where
  "literal kw s = (if map upper_char (take (length kw) s) = kw then Some (drop (length kw) s) else None)"

definition one_char :: "char \<Rightarrow> string \<Rightarrow> string option" where
  "one_char c s = (case s of [] \<Rightarrow> None | d # t \<Rightarrow> if d = c then Some t else None)"

definition run1 :: "(char \<Rightarrow> bool) \<Rightarrow> string matcher" where
  "run1 p s = (if takeWhile p s = [] then None else Some (takeWhile p s, dropWhile p s))"

section \<open>Definitions\<close>

record RedactorConfig =
  RC_SensitiveFields :: "string list"
  RC_AdditionalPatterns :: "string list"
  RC_ParameterPlaceholder :: string

record Redactor =
  Rd_sensitiveFields :: "string list"
  Rd_sensitivePatterns :: "(string \<Rightarrow> bool) list"
  Rd_parameterPlaceholder :: string

definition DefaultRedactorConfig :: RedactorConfig where
  "DefaultRedactorConfig =
     \<lparr>RC_SensitiveFields = [''password'', ''token'', ''key'', ''secret'', ''credential'', ''auth'', ''api_key'', ''apikey'',
        ''access_token'', ''refresh_token'', ''private_key'', ''encryption_key'', ''session'', ''cookie'', ''bearer''],
      RC_AdditionalPatterns = [''(?i)_key$'', ''(?i)_token$'', ''(?i)_secret$'', ''(?i)_password$'', ''(?i)_credential$''],
      RC_ParameterPlaceholder = ''[REDACTED]''\<rparr>"

text \<open>\<open>regexp.Compile\<close> of a configured pattern is the argument \<open>compile\<close>.\<close>

definition NewRedactor :: "unicode_text \<Rightarrow> (string \<Rightarrow> (string \<Rightarrow> bool) option) \<Rightarrow> RedactorConfig \<Rightarrow> Redactor" where
  "NewRedactor u compile cfg =
     \<lparr>Rd_sensitiveFields = remdups (map (strings_ToLower u) (RC_SensitiveFields cfg)),
      Rd_sensitivePatterns = List.map_filter compile (RC_AdditionalPatterns cfg),
      Rd_parameterPlaceholder =
        (if RC_ParameterPlaceholder cfg = [] then ''[REDACTED]'' else RC_ParameterPlaceholder cfg)\<rparr>"

definition IsSensitiveField :: "unicode_text \<Rightarrow> Redactor \<Rightarrow> string \<Rightarrow> bool" where
  "IsSensitiveField u r fieldName =
     (let lower = strings_ToLower u fieldName
      in if lower \<in> set (Rd_sensitiveFields r) then True
         else if list_ex (\<lambda>field. strings_Contains lower field) (Rd_sensitiveFields r) then True
         else list_ex (\<lambda>pattern. pattern fieldName) (Rd_sensitivePatterns r))"

text \<open>
  \<open>field = 'literal'\<close> in the text of a statement: the matched assignment up to the literal, and
  the text behind the literal.
\<close>

definition match_literal :: "string \<Rightarrow> string option" where
  "match_literal s =
     (case s of
        [] \<Rightarrow> None
      | q # t \<Rightarrow> if q = CHR 0x27 \<or> q = CHR 0x22
                 then one_char q (dropWhile (\<lambda>c. c \<noteq> q) t) else None)"

definition match_field :: "string \<Rightarrow> string matcher" where
  "match_field field s =
     (case literal (map upper_char field) s of
        None \<Rightarrow> None
      | Some s1 \<Rightarrow>
          (case one_char (CHR ''='') (dropWhile re_space s1) of
             None \<Rightarrow> None
           | Some s2 \<Rightarrow>
               let s3 = dropWhile re_space s2
               in (case match_literal s3 of
                     None \<Rightarrow> None
                   | Some rest \<Rightarrow> Some (take (length s - length s3) s, rest))))"

text \<open>\<open>ReplaceAllString\<close>; the flag says whether the previous byte is a word character.\<close>

function replace_assign :: "string \<Rightarrow> string \<Rightarrow> bool \<Rightarrow> string \<Rightarrow> string" where
  "replace_assign field ph prev s =
     (case s of
        [] \<Rightarrow> []
      | c # t \<Rightarrow>
          (case (if prev \<noteq> word_char c then match_field field s else None) of
             Some (g, rest) \<Rightarrow>
               g @ CHR 0x27 # ph @ CHR 0x27 # (if length rest < length s then replace_assign field ph False rest else [])
           | None \<Rightarrow> c # replace_assign field ph (word_char c) t))"
  by pat_completeness auto
termination by (relation "measure (\<lambda>(f, p, b, s). length s)") auto

declare replace_assign.simps [simp del]

definition redact_field :: "unicode_text \<Rightarrow> string \<Rightarrow> string \<Rightarrow> string \<Rightarrow> string" where
  "redact_field u ph field s =
     (if list_all ascii_char s \<and> list_all ascii_char field \<and> CHR ''$'' \<notin> set ph then replace_assign field ph False s
      else unicode_replace u field ph s)"

definition redactQueryText :: "unicode_text \<Rightarrow> Redactor \<Rightarrow> string \<Rightarrow> string" where
  "redactQueryText u r query = fold (redact_field u (Rd_parameterPlaceholder r)) (Rd_sensitiveFields r) query"

text \<open>
  \<open>parsePositiveInt\<close> never reports an error; a text that is not a number leaves the result at
  zero. The loop wraps around like Go's \<open>int\<close>.
\<close>

fun parse_loop :: "int \<Rightarrow> string \<Rightarrow> int option" where
  "parse_loop n [] = Some n"
| "parse_loop n (c # s) =
     (if \<not> re_digit c then None else parse_loop (wrap64 (n * 10 + (int (of_char c) - 48))) s)"

definition parsePositiveInt :: "string \<Rightarrow> int \<Rightarrow> int" where
  "parsePositiveInt s result = (case parse_loop 0 s of None \<Rightarrow> result | Some n \<Rightarrow> n)"

definition parseColumnList :: "unicode_text \<Rightarrow> string \<Rightarrow> string list" where
  "parseColumnList u s =
     filter (\<lambda>col. col \<noteq> []) (map (\<lambda>p. trim_quotes (strings_TrimSpace (ascii_paths u) p)) (strings_Split (CHR '','') s))"

definition parseValueList :: "unicode_text \<Rightarrow> string \<Rightarrow> string list" where
  "parseValueList u s =
     filter (\<lambda>val. val \<noteq> []) (map (strings_TrimSpace (ascii_paths u)) (strings_Split (CHR '','') s))"

definition extractParamPosition :: "unicode_text \<Rightarrow> string \<Rightarrow> int" where
  "extractParamPosition u s0 =
     (let s = strings_TrimSpace (ascii_paths u) s0
      in if strings_HasPrefix s ''$'' then wrap64 (parsePositiveInt (drop 1 s) 0 - 1) else -1)"

text \<open>The pattern \<open>(\w+)\s*=\s*\<close>, and what follows it in the two patterns that start with it.\<close>

definition match_assign :: "string matcher" where
  "match_assign s =
     (case run1 word_char s of
        None \<Rightarrow> None
      | Some (w, s1) \<Rightarrow>
          map_option (\<lambda>s2. (w, dropWhile re_space s2)) (one_char (CHR ''='') (dropWhile re_space s1)))"

definition match_question :: "string matcher" where
  "match_question s =
     (case match_assign s of None \<Rightarrow> None | Some (w, t) \<Rightarrow> map_option (\<lambda>r. (w, r)) (one_char (CHR ''?'') t))"

definition match_dollar :: "(string \<times> string) matcher" where
  "match_dollar s =
     (case match_assign s of
        None \<Rightarrow> None
      | Some (w, t) \<Rightarrow>
          (case one_char (CHR ''$'') t of
             None \<Rightarrow> None
           | Some t1 \<Rightarrow> map_option (\<lambda>(d, r). ((w, d), r)) (run1 re_digit t1)))"

text \<open>A parenthesised list \<open>\(([^)]+)\)\<close>, and the whole pattern of an \<open>INSERT\<close>.\<close>

definition match_parens :: "string matcher" where
  "match_parens s =
     (case one_char (CHR ''('') s of
        None \<Rightarrow> None
      | Some t \<Rightarrow>
          (case run1 (\<lambda>c. c \<noteq> CHR '')'') t of
             None \<Rightarrow> None
           | Some (g, t1) \<Rightarrow> map_option (\<lambda>r. (g, r)) (one_char (CHR '')'') t1)))"

definition match_insert :: "(string \<times> string) matcher" where
  "match_insert s =
     (case Option.bind (literal ''INSERT'' s) spaces1 of
        None \<Rightarrow> None
      | Some s1 \<Rightarrow>
          (case Option.bind (Option.bind (literal ''INTO'' s1) spaces1) (run1 word_char) of
             None \<Rightarrow> None
           | Some (tbl, s2) \<Rightarrow>
               (case match_parens (dropWhile re_space s2) of
                  None \<Rightarrow> None
                | Some (cols, s3) \<Rightarrow>
                    (case literal ''VALUES'' (dropWhile re_space s3) of
                       None \<Rightarrow> None
                     | Some s4 \<Rightarrow>
                         map_option (\<lambda>(vals, r). ((cols, vals), r)) (match_parens (dropWhile re_space s4))))))"

text \<open>The number of \<open>?\<close> in a text; the positions found by walking over the matches.\<close>

definition marks :: "string \<Rightarrow> int" where
  "marks s = int (length (filter (\<lambda>c. c = CHR ''?'') s))"

fun question_positions :: "(string \<Rightarrow> bool) \<Rightarrow> int \<Rightarrow> (string \<times> string) list \<Rightarrow> int list" where
  "question_positions sens pos [] = []"
| "question_positions sens pos ((beforeMatch, fieldName) # matches) =
     (let pos1 = pos + marks beforeMatch
      in (if sens fieldName then [pos1] else []) @ question_positions sens (pos1 + 1) matches)"

definition findQuestionMarkPositions :: "(string \<Rightarrow> bool) \<Rightarrow> string \<Rightarrow> int list" where
  "findQuestionMarkPositions sens query = question_positions sens 0 (find_all match_question query)"

definition dollar_positions :: "(string \<Rightarrow> bool) \<Rightarrow> string \<Rightarrow> int list" where
  "dollar_positions sens query =
     map (\<lambda>(b, w, d). wrap64 (parsePositiveInt d 0 - 1)) (filter (\<lambda>(b, w, d). sens w) (find_all match_dollar query))"

definition insert_positions :: "unicode_text \<Rightarrow> (string \<Rightarrow> bool) \<Rightarrow> string \<Rightarrow> int list" where
  "insert_positions u sens query =
     (case find_first match_insert query of
        None \<Rightarrow> []
      | Some (b, (cols, vals), r) \<Rightarrow>
          filter (\<lambda>p. 0 \<le> p)
            (map (\<lambda>(col, val). extractParamPosition u val)
              (filter (\<lambda>(col, val). sens col) (zip (parseColumnList u cols) (parseValueList u vals)))))"

definition findSensitivePositions :: "unicode_text \<Rightarrow> Redactor \<Rightarrow> string \<Rightarrow> int list" where
  "findSensitivePositions u r query =
     (let sens = IsSensitiveField u r
      in if \<not> list_all ascii_char query then unicode_positions u sens query
         else dollar_positions sens query @ insert_positions u sens query
              @ (if CHR ''$'' \<notin> set query \<and> CHR ''?'' \<in> set query then findQuestionMarkPositions sens query else []))"

text \<open>Values of type \<open>any\<close>: strings, nested maps, lists, the alerts of an entry, and others by a rendering.\<close>

datatype go_any = VStr string | VMap "(string \<times> go_any) list" | VList "go_any list" | VAlerts nat | VOther string

definition redactArgs :: "unicode_text \<Rightarrow> Redactor \<Rightarrow> string \<Rightarrow> go_any list \<Rightarrow> go_any list" where
  "redactArgs u r query args =
     (if args = [] then args
      else fold (\<lambda>pos redacted. if 0 \<le> pos \<and> pos < int (length redacted)
                                then redacted[nat pos := VStr (Rd_parameterPlaceholder r)] else redacted)
             (findSensitivePositions u r query) args)"

definition RedactQuery :: "unicode_text \<Rightarrow> Redactor \<Rightarrow> string \<Rightarrow> go_any list \<Rightarrow> string \<times> go_any list" where
  "RedactQuery u r query args = (redactQueryText u r query, redactArgs u r query args)"

fun redact_value :: "(string \<Rightarrow> bool) \<Rightarrow> string \<Rightarrow> go_any \<Rightarrow> go_any" where
  "redact_value sens ph (VMap m) = VMap (map (\<lambda>(k, v). (k, if sens k then VStr ph else redact_value sens ph v)) m)"
| "redact_value sens ph v = v"

definition RedactMetadata :: "unicode_text \<Rightarrow> Redactor \<Rightarrow> (string \<times> go_any) list \<Rightarrow> (string \<times> go_any) list" where
  "RedactMetadata u r metadata =
     map (\<lambda>(k, v). (k, if IsSensitiveField u r k then VStr (Rd_parameterPlaceholder r)
                       else redact_value (IsSensitiveField u r) (Rd_parameterPlaceholder r) v)) metadata"

text \<open>\<open>HashQuery\<close>: white space collapsed, then literals, numbers and parameters masked.\<close>

fun collapse_spaces :: "bool \<Rightarrow> string \<Rightarrow> string" where
  "collapse_spaces prev [] = []"
| "collapse_spaces prev (c # s) =
     (if re_space c then (if prev then collapse_spaces True s else CHR '' '' # collapse_spaces True s)
      else c # collapse_spaces False s)"

function mask_quoted :: "char \<Rightarrow> string \<Rightarrow> string" where
  "mask_quoted q s =
     (case s of
        [] \<Rightarrow> []
      | c # t \<Rightarrow>
          (case (if c = q then one_char q (dropWhile (\<lambda>d. d \<noteq> q) t) else None) of
             Some rest \<Rightarrow> [q, CHR ''?'', q] @ (if length rest < length s then mask_quoted q rest else [])
           | None \<Rightarrow> c # mask_quoted q t))"
  by pat_completeness auto
termination by (relation "measure (\<lambda>(q, s). length s)") auto

declare mask_quoted.simps [simp del]

text \<open>\<open>\b\d+\b\<close>: a run of digits between two boundaries.\<close>

function mask_numbers :: "bool \<Rightarrow> string \<Rightarrow> string" where
  "mask_numbers prev s =
     (case s of
        [] \<Rightarrow> []
      | c # t \<Rightarrow>
          (let rest = dropWhile re_digit s
           in if \<not> prev \<and> re_digit c \<and> (rest = [] \<or> \<not> word_char (hd rest)) \<and> length rest < length s
              then CHR ''?'' # mask_numbers True rest
              else c # mask_numbers (word_char c) t))"
  by pat_completeness auto
termination by (relation "measure (\<lambda>(b, s). length s)") auto

declare mask_numbers.simps [simp del]

function mask_params :: "string \<Rightarrow> string" where
  "mask_params s =
     (case s of
        [] \<Rightarrow> []
      | c # t \<Rightarrow>
          if c = CHR ''$'' \<and> takeWhile re_digit t \<noteq> [] then ''$?'' @ mask_params (dropWhile re_digit t)
          else c # mask_params t)"
  by pat_completeness auto
termination by (relation "measure length") (auto simp: le_imp_less_Suc length_dropWhile_le)

declare mask_params.simps [simp del]

definition normalized_query :: "unicode_text \<Rightarrow> string \<Rightarrow> string" where
  "normalized_query u query =
     (if \<not> list_all ascii_char query then unicode_normalized u query
      else mask_params (mask_numbers False (mask_quoted (CHR 0x22) (mask_quoted (CHR 0x27)
             (strings_ToUpper (ascii_paths u) (strings_TrimSpace (ascii_paths u) (collapse_spaces False query)))))))"

definition HashQuery :: "(string \<Rightarrow> bytes) \<Rightarrow> unicode_text \<Rightarrow> string \<Rightarrow> string" where
  "HashQuery sha256 u query = hex_EncodeToString (take 8 (sha256 (normalized_query u query)))"

text \<open>The parsers of \<open>types.go\<close>.\<close>

definition ParseAction :: "unicode_text \<Rightarrow> string \<Rightarrow> string" where
  "ParseAction u query =
     (let normalized = strings_ToUpper (ascii_paths u) (strings_TrimSpace (ascii_paths u) query)
      in if strings_HasPrefix normalized ''SELECT'' then ''SELECT''
         else if strings_HasPrefix normalized ''INSERT'' then ''INSERT''
         else if strings_HasPrefix normalized ''UPDATE'' then ''UPDATE''
         else if strings_HasPrefix normalized ''DELETE'' then ''DELETE''
         else if list_ex (strings_HasPrefix normalized) [''CREATE'', ''ALTER'', ''DROP'', ''TRUNCATE''] then ''DDL''
         else ''OTHER'')"

text \<open>
  A keyword, white space, words that may follow it, and the name. When the name cannot follow the
  optional words, the pattern is tried without them.
\<close>

fun words1 :: "string list \<Rightarrow> string \<Rightarrow> string option" where
  "words1 [] s = Some s"
| "words1 (w # ws) s = Option.bind (Option.bind (literal w s) spaces1) (words1 ws)"

definition match_name :: "string \<Rightarrow> string list \<Rightarrow> (char \<Rightarrow> bool) \<Rightarrow> string matcher" where
  "match_name kw optional stop s =
     (case Option.bind (literal kw s) spaces1 of
        None \<Rightarrow> None
      | Some s1 \<Rightarrow>
          (let name = run1 (\<lambda>c. \<not> re_space c \<and> \<not> stop c)
           in case (if optional = [] then None else Option.bind (words1 optional s1) name) of
                Some res \<Rightarrow> Some res
              | None \<Rightarrow> name s1))"

definition table_patterns :: "(string \<times> string matcher) list" where
  "table_patterns =
     [(''SELECT'', match_name ''FROM'' [] (\<lambda>c. c \<in> set '',()'')),
      (''INSERT'', match_name ''INTO'' [] (\<lambda>c. c = CHR ''('')),
      (''UPDATE'', match_name ''UPDATE'' [] (\<lambda>c. False)),
      (''DELETE'', match_name ''FROM'' [] (\<lambda>c. False)),
      (''CREATE'', match_name ''TABLE'' [''IF'', ''NOT'', ''EXISTS''] (\<lambda>c. c = CHR ''('')),
      (''ALTER'', match_name ''TABLE'' [] (\<lambda>c. False)),
      (''DROP'', match_name ''TABLE'' [''IF'', ''EXISTS''] (\<lambda>c. False)),
      (''TRUNCATE'', match_name ''TABLE'' [] (\<lambda>c. False))]"

definition ExtractTableName :: "unicode_text \<Rightarrow> string \<Rightarrow> string" where
  "ExtractTableName u query =
     (if \<not> list_all ascii_char query then unicode_table u query
      else let normalized = strings_ToUpper (ascii_paths u) (strings_TrimSpace (ascii_paths u) query);
               found = (\<lambda>(p, m). if strings_HasPrefix normalized p then find_first m query else None)
           in case first_some found table_patterns of
                None \<Rightarrow> []
              | Some (b, name, r) \<Rightarrow> trim_quotes name)"

section \<open>Leftmost matches\<close>

lemma find_first_None: "find_first m s = None \<longleftrightarrow> (\<forall>b t. s = b @ t \<longrightarrow> m t = None)"
proof (induction s)
  case (Cons c s)
  have split: "(\<forall>b t. c # s = b @ t \<longrightarrow> m t = None) \<longleftrightarrow> m (c # s) = None \<and> (\<forall>b t. s = b @ t \<longrightarrow> m t = None)"
    by (auto simp: Cons_eq_append_conv)
  show ?case unfolding split Cons.IH [symmetric] by (auto split: option.splits)
qed (auto split: option.splits)

lemma find_first_Some:
  assumes "find_first m s = Some (b, a, r)"
  shows "\<exists>t. s = b @ t \<and> m t = Some (a, r) \<and> (\<forall>b1 b2. b = b1 @ b2 \<longrightarrow> b2 \<noteq> [] \<longrightarrow> m (b2 @ t) = None)"
  using assms
proof (induction s arbitrary: b)
  case Nil
  then show ?case by (auto split: option.splits)
next
  case (Cons c s)
  show ?case
  proof (cases "m (c # s)")
    case None
    then obtain b' where b: "b = c # b'" "find_first m s = Some (b', a, r)"
      using Cons.prems by (auto split: option.splits)
    from Cons.IH [OF b(2)] obtain t where t: "s = b' @ t" "m t = Some (a, r)"
      and early: "\<forall>b1 b2. b' = b1 @ b2 \<longrightarrow> b2 \<noteq> [] \<longrightarrow> m (b2 @ t) = None" by blast
    have "\<forall>b1 b2. b = b1 @ b2 \<longrightarrow> b2 \<noteq> [] \<longrightarrow> m (b2 @ t) = None"
      using early None t(1) b(1) by (auto simp: Cons_eq_append_conv)
    then show ?thesis using t b(1) by (intro exI [of _ t]) simp
  next
    case (Some ar)
    then show ?thesis using Cons.prems by (auto split: option.splits)
  qed
qed

section \<open>Placeholders and the fields before them\<close>

text \<open>
  The reference: read backwards from a placeholder, over white space, the equals sign and white
  space, to the word that is assigned.
\<close>

definition field_before :: "string \<Rightarrow> string option" where
  "field_before pre =
     (case dropWhile re_space (rev pre) of
        [] \<Rightarrow> None
      | c # t \<Rightarrow> let w = takeWhile word_char (dropWhile re_space t)
                 in if c = CHR ''='' \<and> w \<noteq> [] then Some (rev w) else None)"

definition sensitive_mark :: "(string \<Rightarrow> bool) \<Rightarrow> string \<Rightarrow> bool" where
  "sensitive_mark sens pre \<longleftrightarrow> (case field_before pre of None \<Rightarrow> False | Some f \<Rightarrow> sens f)"

lemma redact_char_classes [simp]:
  "\<not> re_space (CHR ''?'')" "\<not> word_char (CHR ''?'')" "\<not> re_space (CHR ''='')" "\<not> word_char (CHR ''='')"
  by (simp_all add: re_space_def word_char_def)

lemma space_not_word: "re_space c \<Longrightarrow> \<not> word_char c"
  by (auto simp: re_space_def word_char_def)

lemma one_char_Some: "one_char c s = Some t \<longleftrightarrow> s = c # t"
  by (cases s) (auto simp: one_char_def)

lemma dropWhile_split: "dropWhile P (xs @ ys) = (if \<forall>x \<in> set xs. P x then dropWhile P ys else dropWhile P xs @ ys)"
  by (induction xs) auto

lemma takeWhile_split: "takeWhile P (xs @ ys) = (if \<forall>x \<in> set xs. P x then xs @ takeWhile P ys else takeWhile P xs)"
  by (induction xs) auto

text \<open>The shape of an assignment.\<close>

lemma match_question_intro:
  assumes "w \<noteq> []" and "\<forall>c \<in> set w. word_char c" and "\<forall>c \<in> set sp1. re_space c" and "\<forall>c \<in> set sp2. re_space c"
  shows "match_question (w @ sp1 @ CHR ''='' # sp2 @ CHR ''?'' # r) = Some (w, r)"
proof -
  have sp1: "takeWhile word_char (sp1 @ CHR ''='' # t) = []" "dropWhile word_char (sp1 @ CHR ''='' # t) = sp1 @ CHR ''='' # t" for t
    using assms(3) space_not_word by (cases sp1; auto)+
  have "run1 word_char (w @ sp1 @ CHR ''='' # sp2 @ CHR ''?'' # r) = Some (w, sp1 @ CHR ''='' # sp2 @ CHR ''?'' # r)"
    using assms(1,2) sp1 by (simp add: run1_def takeWhile_split dropWhile_split)
  then show ?thesis
    using assms(3,4) by (simp add: match_question_def match_assign_def dropWhile_split one_char_def)
qed

lemma match_question_shape:
  assumes "match_question t = Some (w, r)"
  obtains sp1 sp2 where "t = w @ sp1 @ CHR ''='' # sp2 @ CHR ''?'' # r" and "w \<noteq> []" and "\<forall>c \<in> set w. word_char c"
    and "\<forall>c \<in> set sp1. re_space c" and "\<forall>c \<in> set sp2. re_space c"
proof -
  obtain s1 s2 where w: "run1 word_char t = Some (w, s1)" and e: "dropWhile re_space s1 = CHR ''='' # s2"
    and q: "dropWhile re_space s2 = CHR ''?'' # r"
    using assms by (auto simp: match_question_def match_assign_def one_char_Some split: option.splits)
  have "t = w @ s1" "w \<noteq> []" "\<forall>c \<in> set w. word_char c"
    using w by (auto simp: run1_def split: if_splits dest: set_takeWhileD)
  moreover have "s1 = takeWhile re_space s1 @ CHR ''='' # s2" by (metis e takeWhile_dropWhile_id)
  moreover have "s2 = takeWhile re_space s2 @ CHR ''?'' # r" by (metis q takeWhile_dropWhile_id)
  ultimately show ?thesis
    using that [of "takeWhile re_space s1" "takeWhile re_space s2"] by (auto dest: set_takeWhileD)
qed

lemma match_question_shrinks: "match_question t = Some (w, r) \<Longrightarrow> length r < length t"
  by (erule match_question_shape) simp

lemma field_before_shape:
  assumes "field_before pre = Some f"
  obtains b sp1 sp2 where "pre = b @ f @ sp1 @ CHR ''='' # sp2" and "f \<noteq> []" and "\<forall>c \<in> set f. word_char c"
    and "\<forall>c \<in> set sp1. re_space c" and "\<forall>c \<in> set sp2. re_space c"
proof -
  obtain t where t: "dropWhile re_space (rev pre) = CHR ''='' # t" and f: "f = rev (takeWhile word_char (dropWhile re_space t))"
    and ne: "f \<noteq> []"
    using assms by (auto simp: field_before_def Let_def split: list.splits if_splits)
  have "rev pre = takeWhile re_space (rev pre) @ CHR ''='' # t" by (metis t takeWhile_dropWhile_id)
  then have "pre = rev t @ CHR ''='' # rev (takeWhile re_space (rev pre))"
    by (metis append.assoc append_Cons append_Nil rev.simps(2) rev_append rev_rev_ident)
  moreover have "rev t = rev (dropWhile word_char (dropWhile re_space t)) @ f @ rev (takeWhile re_space t)"
    unfolding f by (metis append.assoc rev_append takeWhile_dropWhile_id)
  ultimately have "pre = rev (dropWhile word_char (dropWhile re_space t)) @ f @ rev (takeWhile re_space t) @ CHR ''='' # rev (takeWhile re_space (rev pre))"
    by simp
  moreover have "\<forall>c \<in> set f. word_char c" by (auto simp: f dest: set_takeWhileD)
  ultimately show ?thesis using that ne by (metis set_rev set_takeWhileD)
qed

lemma field_before_intro:
  assumes "w \<noteq> []" and "\<forall>c \<in> set w. word_char c" and "\<forall>c \<in> set sp1. re_space c" and "\<forall>c \<in> set sp2. re_space c"
    and "b = [] \<or> \<not> word_char (last b)"
  shows "field_before (b @ w @ sp1 @ CHR ''='' # sp2) = Some w"
proof -
  have nw: "\<not> re_space (last w)" using assms(1,2) space_not_word by fastforce
  have "takeWhile word_char (rev b) = []" using assms(5) by (cases b rule: rev_cases) auto
  moreover have "dropWhile re_space (rev w @ rev b) = rev w @ rev b"
    using nw assms(1) by (cases w rule: rev_cases) auto
  ultimately show ?thesis
    using assms(1-4) by (simp add: field_before_def dropWhile_split takeWhile_split)
qed

text \<open>A placeholder cuts the text: what is before it does not matter behind it.\<close>

lemma field_before_cut: "field_before (x @ CHR ''?'' # pre) = field_before pre"
proof -
  have step: "dropWhile re_space (rev pre @ CHR ''?'' # rev x)
      = (case dropWhile re_space (rev pre) of [] \<Rightarrow> CHR ''?'' # rev x | c # t \<Rightarrow> c # t @ CHR ''?'' # rev x)"
  proof (cases "\<forall>c \<in> set (rev pre). re_space c")
    case True
    then have d: "dropWhile re_space (rev pre) = []" by (simp add: dropWhile_eq_Nil_conv)
    show ?thesis using True by (simp only: d dropWhile_split) simp
  next
    case False
    then have "dropWhile re_space (rev pre) \<noteq> []" by (simp add: dropWhile_eq_Nil_conv)
    then obtain c t where ct: "dropWhile re_space (rev pre) = c # t" by (meson neq_Nil_conv)
    show ?thesis using False ct by (simp only: dropWhile_split ct) simp
  qed
  have word: "takeWhile word_char (dropWhile re_space (t @ CHR ''?'' # rev x)) = takeWhile word_char (dropWhile re_space t)" for t
  proof -
    have "takeWhile word_char (dropWhile re_space t @ CHR ''?'' # rev x) = takeWhile word_char (dropWhile re_space t)"
      by (auto simp: takeWhile_split) (metis append.right_neutral takeWhile_eq_all_conv)
    moreover have "(\<forall>c \<in> set t. re_space c) \<Longrightarrow> dropWhile re_space t = []" by (simp add: dropWhile_eq_Nil_conv)
    ultimately show ?thesis by (simp add: dropWhile_split del: dropWhile_eq_Nil_conv)
  qed
  show ?thesis
    by (cases "dropWhile re_space (rev pre)") (simp_all add: field_before_def step word del: dropWhile_eq_Nil_conv)
qed

lemma split_before:
  assumes "xs @ ys = pre @ c # post" and "\<forall>d \<in> set ys. d \<noteq> c"
  shows "\<exists>zs. xs = pre @ c # zs"
  using assms(1)
proof (induction pre arbitrary: xs)
  case Nil
  then show ?case using assms(2) by (cases xs) auto
next
  case (Cons d pre)
  then show ?case using assms(2) by (cases xs) auto
qed

lemma split_twice:
  "x @ c # r = pre @ c # post \<Longrightarrow>
     pre = x \<or> (\<exists>zs. pre = x @ c # zs \<and> r = zs @ c # post) \<or> (\<exists>zs. x = pre @ c # zs)"
proof (induction pre arbitrary: x)
  case Nil
  then show ?case by (cases x) auto
next
  case (Cons d pre)
  then show ?case by (cases x) auto
qed

lemma sensitive_markE:
  assumes "sensitive_mark sens pre"
  obtains b f sp1 sp2 where "pre = b @ f @ sp1 @ CHR ''='' # sp2" and "\<forall>post. match_question (f @ sp1 @ CHR ''='' # sp2 @ CHR ''?'' # post) = Some (f, post)"
proof -
  obtain f where f: "field_before pre = Some f" "sens f"
    using assms by (auto simp: sensitive_mark_def split: option.splits)
  from field_before_shape [OF f(1)] show ?thesis using that f match_question_intro by metis
qed

lemma marks_append [simp]: "marks (s @ t) = marks s + marks t"
  by (simp add: marks_def)

lemma marks_none: "\<forall>c \<in> set s. c \<noteq> CHR ''?'' \<Longrightarrow> marks s = 0"
  by (simp add: marks_def filter_empty_conv)

lemma marks_Cons: "marks (c # s) = (if c = CHR ''?'' then 1 else 0) + marks s"
  by (simp add: marks_def)

text \<open>The text up to the placeholder of the first match: its field, and no sensitive placeholder earlier.\<close>

lemma first_question:
  assumes "find_first match_question s = Some (b, w, r)"
  obtains x where "s = x @ CHR ''?'' # r" and "field_before x = Some w" and "marks x = marks b"
    and "\<And>pre post. x = pre @ CHR ''?'' # post \<Longrightarrow> \<not> sensitive_mark sens pre"
proof -
  obtain t where t: "s = b @ t" "match_question t = Some (w, r)"
    and early: "\<And>b1 b2. b = b1 @ b2 \<Longrightarrow> b2 \<noteq> [] \<Longrightarrow> match_question (b2 @ t) = None"
    using find_first_Some [OF assms] by blast
  obtain sp1 sp2 where sh: "t = w @ sp1 @ CHR ''='' # sp2 @ CHR ''?'' # r" "w \<noteq> []" "\<forall>c \<in> set w. word_char c"
    "\<forall>c \<in> set sp1. re_space c" "\<forall>c \<in> set sp2. re_space c" using match_question_shape [OF t(2)] by blast
  let ?m = "w @ sp1 @ CHR ''='' # sp2"
  have last: "b = [] \<or> \<not> word_char (last b)"
  proof (rule ccontr)
    assume *: "\<not> ?thesis"
    then have "match_question ([last b] @ t) = Some (last b # w, r)"
      using match_question_intro [of "last b # w" sp1 sp2 r] sh by simp
    then show False using early [of "butlast b" "[last b]"] * by simp
  qed
  have clean: "\<forall>c \<in> set ?m. c \<noteq> CHR ''?''" using sh by auto
  show ?thesis
  proof (rule that [of "b @ ?m"])
    show "s = (b @ ?m) @ CHR ''?'' # r" using t(1) sh(1) by simp
    show "field_before (b @ ?m) = Some w" using field_before_intro [OF sh(2-5) last] by simp
    show "marks (b @ ?m) = marks b" using marks_none [OF clean] by (simp del: append_assoc)
    fix pre post
    assume "b @ ?m = pre @ CHR ''?'' # post"
    then obtain b2 where b2: "b = pre @ CHR ''?'' # b2" using split_before [OF _ clean] by blast
    show "\<not> sensitive_mark sens pre"
    proof
      assume "sensitive_mark sens pre"
      then obtain b0 f s1 s2 where pre: "pre = b0 @ f @ s1 @ CHR ''='' # s2"
        and m: "\<forall>post. match_question (f @ s1 @ CHR ''='' # s2 @ CHR ''?'' # post) = Some (f, post)"
        by (rule sensitive_markE)
      show False using early [of b0 "f @ s1 @ CHR ''='' # s2 @ CHR ''?'' # b2"] m b2 pre by simp
    qed
  qed
qed

lemma question_positions_exact:
  "p \<in> set (question_positions sens n (find_all match_question s)) \<longleftrightarrow>
     (\<exists>pre post. s = pre @ CHR ''?'' # post \<and> sensitive_mark sens pre \<and> p = n + marks pre)"
proof (induction s arbitrary: n rule: measure_induct_rule [where f = length])
  case (less s)
  show ?case
  proof (cases "find_first match_question s")
    case None
    then have none: "match_question t = None" if "s = b @ t" for b t using that by (auto simp: find_first_None)
    have "\<not> sensitive_mark sens pre" if "s = pre @ CHR ''?'' # post" for pre post
    proof
      assume "sensitive_mark sens pre"
      then obtain b0 f s1 s2 where pre: "pre = b0 @ f @ s1 @ CHR ''='' # s2"
        and m: "\<forall>post. match_question (f @ s1 @ CHR ''='' # s2 @ CHR ''?'' # post) = Some (f, post)"
        by (rule sensitive_markE)
      show False using none [of b0 "f @ s1 @ CHR ''='' # s2 @ CHR ''?'' # post"] m that pre by simp
    qed
    then show ?thesis using None by (auto simp: find_all.simps)
  next
    case (Some bar)
    obtain b w r where bwr: "bar = (b, w, r)" by (cases bar)
    obtain x where x: "s = x @ CHR ''?'' # r" "field_before x = Some w" "marks x = marks b"
      "\<And>pre post. x = pre @ CHR ''?'' # post \<Longrightarrow> \<not> sensitive_mark sens pre"
      using first_question [of s b w r sens] Some bwr by blast
    have IH: "p \<in> set (question_positions sens (n + marks b + 1) (find_all match_question r)) \<longleftrightarrow>
        (\<exists>pre post. r = pre @ CHR ''?'' # post \<and> sensitive_mark sens pre \<and> p = n + marks b + 1 + marks pre)"
      by (rule less.IH) (simp add: x(1))
    have behind: "sensitive_mark sens (x @ CHR ''?'' # pre) = sensitive_mark sens pre" for pre
      by (simp add: sensitive_mark_def field_before_cut)
    have split: "(\<exists>pre post. s = pre @ CHR ''?'' # post \<and> sensitive_mark sens pre \<and> p = n + marks pre)
      \<longleftrightarrow> (sens w \<and> p = n + marks b)
        \<or> (\<exists>pre post. r = pre @ CHR ''?'' # post \<and> sensitive_mark sens pre \<and> p = n + marks b + 1 + marks pre)"
      (is "?L \<longleftrightarrow> ?own \<or> ?R")
    proof
      assume ?L
      then obtain pre post where pre: "x @ CHR ''?'' # r = pre @ CHR ''?'' # post" "sensitive_mark sens pre" "p = n + marks pre"
        using x(1) by auto
      then consider "pre = x" | pre2 where "pre = x @ CHR ''?'' # pre2" "r = pre2 @ CHR ''?'' # post"
        using x(4) split_twice [OF pre(1)] by blast
      then show "?own \<or> ?R"
      proof cases
        case 1
        then show ?thesis using pre x(2,3) by (auto simp: sensitive_mark_def)
      next
        case 2
        then show ?thesis using pre x(3) behind by (auto simp: marks_Cons)
      qed
    next
      assume "?own \<or> ?R"
      then show ?L
      proof
        assume ?own
        then show ?L using x by (intro exI [of _ x] exI [of _ r]) (auto simp: sensitive_mark_def)
      next
        assume ?R
        then obtain pre post where "r = pre @ CHR ''?'' # post" "sensitive_mark sens pre" "p = n + marks b + 1 + marks pre" by blast
        then show ?L using x(1,3) behind
          by (intro exI [of _ "x @ CHR ''?'' # pre"] exI [of _ post]) (auto simp: marks_Cons)
      qed
    qed
    have "length r < length s" by (simp add: x(1))
    then have "find_all match_question s = (b, w) # find_all match_question r"
      using Some bwr by (subst find_all.simps) simp
    then have "p \<in> set (question_positions sens n (find_all match_question s))
        \<longleftrightarrow> (sens w \<and> p = n + marks b) \<or> p \<in> set (question_positions sens (n + marks b + 1) (find_all match_question r))"
      by (auto simp: Let_def)
    then show ?thesis unfolding split IH .
  qed
qed

section \<open>Statements without assignments, and numbered placeholders\<close>

text \<open>What a matcher captures comes from the text it reads.\<close>

lemma run1_set: "run1 p s = Some (g, r) \<Longrightarrow> set g \<subseteq> set s \<and> set r \<subseteq> set s"
  by (auto simp: run1_def split: if_splits dest: set_takeWhileD set_dropWhileD)

lemma one_char_set: "one_char c s = Some r \<Longrightarrow> set r \<subseteq> set s"
  by (auto simp: one_char_Some)

lemma literal_set: "literal kw s = Some r \<Longrightarrow> set r \<subseteq> set s"
  by (auto simp: literal_def split: if_splits dest: in_set_dropD)

lemma spaces1_set: "spaces1 s = Some r \<Longrightarrow> set r \<subseteq> set s"
  by (auto simp: spaces1_def split: if_splits dest: set_dropWhileD)

lemma dropWhile_set: "set (dropWhile p s) \<subseteq> set s"
  by (auto dest: set_dropWhileD)

lemma match_assign_needs_eq:
  assumes "CHR ''='' \<notin> set s"
  shows "match_assign s = None"
proof (rule ccontr)
  assume "match_assign s \<noteq> None"
  then obtain w s1 s2 where "run1 word_char s = Some (w, s1)" and "dropWhile re_space s1 = CHR ''='' # s2"
    by (auto simp: match_assign_def one_char_Some split: option.splits)
  then have "CHR ''='' \<in> set s1" "set s1 \<subseteq> set s"
    using dropWhile_set [of re_space s1] run1_set by (simp, blast)
  then show False using assms by blast
qed

lemma find_all_none: "find_first m s = None \<Longrightarrow> find_all m s = []"
  by (subst find_all.simps) simp

lemma no_assignment:
  assumes "CHR ''='' \<notin> set s"
  shows "find_all match_question s = []" and "find_all match_dollar s = []"
proof -
  have "match_assign t = None" if "s = b @ t" for b t using assms that by (intro match_assign_needs_eq) auto
  then have "find_first match_question s = None" "find_first match_dollar s = None"
    by (auto simp: find_first_None match_question_def match_dollar_def)
  then show "find_all match_question s = []" "find_all match_dollar s = []" by (simp_all add: find_all_none)
qed

lemma match_parens_set: "match_parens s = Some (g, r) \<Longrightarrow> set g \<subseteq> set s \<and> set r \<subseteq> set s"
  by (auto simp: match_parens_def map_option_case split: option.splits dest!: run1_set one_char_set) blast+

lemma match_insert_values:
  assumes "match_insert s = Some ((cols, vals), r)"
  shows "set vals \<subseteq> set s"
proof -
  obtain a1 s1 a2 a3 tbl s2 s3 s4 r' where
    ch: "literal ''INSERT'' s = Some a1" "spaces1 a1 = Some s1" "literal ''INTO'' s1 = Some a2" "spaces1 a2 = Some a3"
      "run1 word_char a3 = Some (tbl, s2)" "match_parens (dropWhile re_space s2) = Some (cols, s3)"
      "literal ''VALUES'' (dropWhile re_space s3) = Some s4" "match_parens (dropWhile re_space s4) = Some (vals, r')"
    using assms by (auto simp: match_insert_def bind_eq_Some_conv split: option.splits)
  have "set vals \<subseteq> set s4" using match_parens_set [OF ch(8)] dropWhile_set by fastforce
  also have "set s4 \<subseteq> set s3" using literal_set [OF ch(7)] dropWhile_set by fastforce
  also have "set s3 \<subseteq> set s2" using match_parens_set [OF ch(6)] dropWhile_set by fastforce
  also have "set s2 \<subseteq> set a3" using run1_set [OF ch(5)] by blast
  also have "set a3 \<subseteq> set s1" using spaces1_set [OF ch(4)] literal_set [OF ch(3)] by blast
  also have "set s1 \<subseteq> set s" using spaces1_set [OF ch(2)] literal_set [OF ch(1)] by blast
  finally show ?thesis .
qed

lemma trimmed_ascii:
  assumes "list_all ascii_char s"
  shows "set (strings_TrimSpace u s) \<subseteq> set s"
proof -
  let ?t = "dropWhile space_char s"
  have ascii: "\<forall>c \<in> set s. ascii_char c" using assms by (simp add: list_all_iff)
  have t: "set ?t \<subseteq> set s" by (rule dropWhile_set)
  have r: "set (dropWhile space_char (rev ?t)) \<subseteq> set s" using dropWhile_set [of space_char "rev ?t"] t by simp
  have "?t \<noteq> [] \<Longrightarrow> ascii_char (hd ?t)" using t ascii by (meson hd_in_set subsetD)
  moreover have "ascii_char (hd (dropWhile space_char (rev ?t)))" if "?t \<noteq> []"
  proof -
    have "\<not> space_char (hd ?t)" using that by (rule hd_dropWhile)
    then have "dropWhile space_char (rev ?t) \<noteq> []" using that by (metis dropWhile_eq_Nil_conv hd_in_set set_rev)
    then show ?thesis using r ascii by (meson hd_in_set subsetD)
  qed
  ultimately show ?thesis using r by (auto simp: strings_TrimSpace_def Let_def)
qed

lemma split_set: "p \<in> set (strings_Split c s) \<Longrightarrow> set p \<subseteq> set s"
  by (induction s arbitrary: p) (fastforce split: if_splits list.splits)+

lemma no_parameter:
  assumes "list_all ascii_char val" and "CHR ''$'' \<notin> set val"
  shows "extractParamPosition u val = -1"
proof -
  have "CHR ''$'' \<notin> set (strings_TrimSpace (ascii_paths u) val)"
    using trimmed_ascii [OF assms(1), of "ascii_paths u"] assms(2) by blast
  then show ?thesis
    by (cases "strings_TrimSpace (ascii_paths u) val") (auto simp: extractParamPosition_def Let_def strings_HasPrefix_def)
qed

lemma insert_without_dollar:
  assumes "list_all ascii_char query" and "CHR ''$'' \<notin> set query"
  shows "insert_positions u sens query = []"
proof (cases "find_first match_insert query")
  case (Some res)
  obtain b cols vals r where res: "res = (b, (cols, vals), r)" by (cases res) auto
  obtain t where t: "query = b @ t" "match_insert t = Some ((cols, vals), r)"
    using find_first_Some [of match_insert query b "(cols, vals)" r] Some res by blast
  then have vs: "set vals \<subseteq> set query" using match_insert_values [OF t(2)] by auto
  have "extractParamPosition u val = -1" if v: "val \<in> set (parseValueList u vals)" for val
  proof -
    obtain part where part: "part \<in> set (strings_Split (CHR '','') vals)" "val = strings_TrimSpace (ascii_paths u) part"
      using v by (auto simp: parseValueList_def)
    have "set part \<subseteq> set query" using split_set [OF part(1)] vs by blast
    then have "set val \<subseteq> set query"
      using trimmed_ascii [of part "ascii_paths u"] assms(1) part(2) by (auto simp: list_all_iff subset_iff)
    then show ?thesis using assms no_parameter [of val u] by (auto simp: list_all_iff)
  qed
  then have "\<forall>cv \<in> set (zip (parseColumnList u cols) (parseValueList u vals)). extractParamPosition u (snd cv) = -1"
    by (auto dest: set_zip_rightD)
  then show ?thesis using Some res by (auto simp: insert_positions_def filter_empty_conv)
qed (simp add: insert_positions_def)

text \<open>Reading back a printed number.\<close>

lemma parse_loop_append:
  "parse_loop n (s @ t) = (case parse_loop n s of None \<Rightarrow> None | Some m \<Rightarrow> parse_loop m t)"
  by (induction n s rule: parse_loop.induct) auto

lemma digit_char: "d < 10 \<Longrightarrow> re_digit (char_of (48 + d)) \<and> (of_char (char_of (48 + d) :: char) :: nat) = 48 + d"
  by (auto simp: re_digit_def)

lemma parse_show: "int k < 2 ^ 63 \<Longrightarrow> parse_loop 0 (show_nat k) = Some (int k)"
proof (induction k rule: show_nat.induct)
  case (1 k)
  show ?case
  proof (cases "k < 10")
    case True
    then show ?thesis using digit_char [of k] by (subst show_nat.simps) (simp add: wrap64_id)
  next
    case False
    have "parse_loop 0 (show_nat (k div 10)) = Some (int (k div 10))" using 1 False by simp
    moreover have "int (k div 10) * 10 + int (k mod 10) = int k" by presburger
    ultimately show ?thesis
      using False 1(2) digit_char [of "k mod 10"] by (subst show_nat.simps) (simp add: parse_loop_append wrap64_id)
  qed
qed

section \<open>Nested metadata\<close>

text \<open>The value at the end of a path of keys through nested maps.\<close>

fun reach :: "string list \<Rightarrow> go_any \<Rightarrow> go_any option" where
  "reach [] v = Some v"
| "reach (k # ks) (VMap m) = (case map_of m k of None \<Rightarrow> None | Some v \<Rightarrow> reach ks v)"
| "reach (k # ks) v = None"

lemma map_of_redacted:
  "map_of (map (\<lambda>(k, v). (k, if sens k then VStr ph else f v)) m) k
     = map_option (\<lambda>v. if sens k then VStr ph else f v) (map_of m k)"
  by (induction m) auto

text \<open>
  The reference: a path is followed up to its first sensitive key, where the placeholder stands;
  a path without one leads to the original value, redacted further below.
\<close>

fun redacted_at :: "(string \<Rightarrow> bool) \<Rightarrow> string \<Rightarrow> string list \<Rightarrow> go_any \<Rightarrow> go_any option" where
  "redacted_at sens ph [] v = Some (redact_value sens ph v)"
| "redacted_at sens ph (k # ks) v =
     (case reach [k] v of
        None \<Rightarrow> None
      | Some w \<Rightarrow> if sens k then reach ks (VStr ph) else redacted_at sens ph ks w)"

lemma reach_redacted: "reach path (redact_value sens ph v) = redacted_at sens ph path v"
proof (induction path arbitrary: v)
  case (Cons k ks)
  then show ?case by (cases v) (auto simp: map_of_redacted split: option.splits)
qed simp

section \<open>Properties\<close>

definition plain_text :: unicode_text where
  "plain_text = \<lparr>unicode_ToUpper = (\<lambda>s. s), unicode_TrimSpace = (\<lambda>s. s), unicode_ToLower = (\<lambda>s. s),
     unicode_replace = (\<lambda>f p s. s), unicode_positions = (\<lambda>f s. []), unicode_table = (\<lambda>s. []), unicode_normalized = (\<lambda>s. s)\<rparr>"

definition default_redactor :: Redactor where
  "default_redactor = NewRedactor plain_text (\<lambda>p. None) DefaultRedactorConfig"

text \<open>
  C34. In an ASCII statement with \<open>?\<close> placeholders and no dollar sign anywhere, the argument in a
  position is redacted exactly when the placeholder of that position is directly preceded by an
  assignment to a sensitive field, read backwards from the placeholder; all other arguments are
  kept as they are. The two conditions are part of the claim: text outside ASCII goes to the
  library's Unicode case folding, and one dollar sign, even inside a literal, switches the
  treatment of \<open>?\<close> off (\<open>dollar_in_literal_leaks\<close> below).
\<close>

theorem placeholders_redacted_exactly:
  assumes "list_all ascii_char query" and "CHR ''$'' \<notin> set query" and "i < length args"
  shows "redactArgs u r query args ! i =
    (if \<exists>pre post. query = pre @ CHR ''?'' # post \<and> marks pre = int i
          \<and> sensitive_mark (IsSensitiveField u r) pre
     then VStr (Rd_parameterPlaceholder r) else args ! i)"
proof -
  let ?ph = "VStr (Rd_parameterPlaceholder r)" and ?sens = "IsSensitiveField u r"
  let ?upd = "\<lambda>pos redacted. if 0 \<le> pos \<and> pos < int (length redacted) then redacted[nat pos := ?ph] else redacted"
  have fold: "i < length xs \<Longrightarrow> fold ?upd ps xs ! i = (if int i \<in> set ps then ?ph else xs ! i)" for ps and xs :: "go_any list"
  proof (induction ps arbitrary: xs)
    case (Cons p ps)
    then show ?case by (auto simp: nth_list_update)
  qed simp
  have "dollar_positions ?sens query = []"
  proof -
    have "match_dollar t = None" if "query = b @ t" for b t
    proof (cases "match_assign t")
      case (Some wt)
      obtain w t1 where wt: "wt = (w, t1)" by (cases wt)
      have "set t1 \<subseteq> set t"
        using Some wt dropWhile_set by (fastforce simp: match_assign_def dest: run1_set one_char_set split: option.splits)
      then have "one_char (CHR ''$'') t1 = None"
        using assms(2) that by (cases t1) (auto simp: one_char_def)
      then show ?thesis using Some wt by (simp add: match_dollar_def)
    qed (simp add: match_dollar_def)
    then have "find_first match_dollar query = None" by (auto simp: find_first_None)
    then show ?thesis by (simp add: dollar_positions_def find_all_none)
  qed
  moreover have "findQuestionMarkPositions ?sens query = []" if q: "CHR ''?'' \<notin> set query"
  proof -
    have "p \<notin> set (findQuestionMarkPositions ?sens query)" for p
      using q by (auto simp: findQuestionMarkPositions_def question_positions_exact)
    then show ?thesis by (metis hd_in_set)
  qed
  ultimately have "set (findSensitivePositions u r query) = set (findQuestionMarkPositions ?sens query)"
    using assms(1,2) by (cases "CHR ''?'' \<in> set query") (simp_all add: findSensitivePositions_def Let_def insert_without_dollar)
  then have "int i \<in> set (findSensitivePositions u r query) \<longleftrightarrow>
      (\<exists>pre post. query = pre @ CHR ''?'' # post \<and> marks pre = int i \<and> sensitive_mark ?sens pre)"
    by (auto simp: findQuestionMarkPositions_def question_positions_exact)
  then show ?thesis using assms(3) fold [of args] by (auto simp: redactArgs_def)
qed

theorem placeholders_redacted_exactly_witness:
  "redactArgs plain_text default_redactor ''UPDATE t SET a = ?, token =? WHERE b > ?''
     [VStr ''x'', VStr ''y'', VStr ''z''] ! 1 = VStr ''[REDACTED]''"
proof -
  let ?q = "''UPDATE t SET a = ?, token =? WHERE b > ?''"
  let ?pre = "''UPDATE t SET a = ?, token =''"
  have "?q = ?pre @ CHR ''?'' # '' WHERE b > ?''" by simp
  moreover have "marks ?pre = int 1" by code_simp
  moreover have "sensitive_mark (IsSensitiveField plain_text default_redactor) ?pre" by code_simp
  ultimately have ex: "\<exists>pre post. ?q = pre @ CHR ''?'' # post \<and> marks pre = int 1
      \<and> sensitive_mark (IsSensitiveField plain_text default_redactor) pre" by blast
  have ph: "Rd_parameterPlaceholder default_redactor = ''[REDACTED]''" by code_simp
  have hyps: "list_all ascii_char ?q" "CHR ''$'' \<notin> set ?q" by code_simp+
  show ?thesis
    using placeholders_redacted_exactly [OF hyps, of 1 "[VStr ''x'', VStr ''y'', VStr ''z'']" plain_text default_redactor] ex ph
    by (simp del: append.simps)
qed

text \<open>
  Redaction of metadata: the value at the end of a path of keys is the placeholder as soon
  as a key of the path is sensitive, and otherwise what was there, redacted further below.
  Nothing but nested maps is entered, so a sensitive key inside a list of maps survives.
\<close>

theorem metadata_redacted_exactly:
  "reach path (VMap (RedactMetadata u r metadata))
     = redacted_at (IsSensitiveField u r) (Rd_parameterPlaceholder r) path (VMap metadata)"
proof -
  have "VMap (RedactMetadata u r metadata) = redact_value (IsSensitiveField u r) (Rd_parameterPlaceholder r) (VMap metadata)"
    by (simp add: RedactMetadata_def)
  then show ?thesis by (simp only: reach_redacted)
qed

text \<open>
  An \<open>INSERT\<close> with \<open>?\<close> placeholders is never redacted: in a statement without an equals
  sign and without \<open>$\<close> every argument is kept, whatever the columns are called.
\<close>

theorem question_mark_insert_unredacted:
  assumes "list_all ascii_char query" and "CHR ''$'' \<notin> set query" and "CHR ''='' \<notin> set query"
  shows "redactArgs u r query args = args"
  using no_assignment [OF assms(3)] insert_without_dollar [OF assms(1,2)] assms(1)
  by (simp add: redactArgs_def findSensitivePositions_def findQuestionMarkPositions_def dollar_positions_def Let_def)

theorem question_mark_insert_unredacted_witness:
  "redactArgs plain_text default_redactor ''INSERT INTO users (id, password) VALUES (?, ?)'' [VStr ''1'', VStr ''hunter2'']
     = [VStr ''1'', VStr ''hunter2'']"
proof -
  let ?q = "''INSERT INTO users (id, password) VALUES (?, ?)''"
  have "list_all ascii_char ?q" "CHR ''$'' \<notin> set ?q" "CHR ''='' \<notin> set ?q" by code_simp+
  from question_mark_insert_unredacted [OF this] show ?thesis .
qed

text \<open>
  A numbered placeholder is read back as the position it names, but one that carries a cast is
  taken for no placeholder at all.
\<close>

theorem numbered_placeholder:
  assumes "0 < n" and "int n < 2 ^ 63"
  shows "extractParamPosition u (CHR ''$'' # show_nat n) = int n - 1"
    and "extractParamPosition u (CHR ''$'' # show_nat n @ ''::text'') = -1"
proof -
  have digits: "\<forall>c \<in> set (show_nat k). re_digit c" for k
  proof (induction k rule: show_nat.induct)
    case (1 k)
    then show ?case using digit_char [of k] digit_char [of "k mod 10"] by (subst show_nat.simps) auto
  qed
  have trim: "strings_TrimSpace v (CHR ''$'' # s @ [c]) = CHR ''$'' # s @ [c]" if "ascii_char c" "\<not> space_char c" for v s c
    using that by (simp add: strings_TrimSpace_def Let_def) (simp add: space_char_def ascii_char_def)
  have ne: "show_nat n \<noteq> []" by (subst show_nat.simps) simp
  have last: "ascii_char (last (show_nat n))" "\<not> space_char (last (show_nat n))"
    using digits [of n] ne last_in_set by (fastforce simp: re_digit_def ascii_char_def space_char_def)+
  have t1: "strings_TrimSpace v (CHR ''$'' # show_nat n) = CHR ''$'' # show_nat n" for v
    using trim [OF last, of v "butlast (show_nat n)"] ne by simp
  have t2: "strings_TrimSpace v (CHR ''$'' # show_nat n @ ''::text'') = CHR ''$'' # show_nat n @ ''::text''" for v
    using trim [of "CHR ''t''" v "show_nat n @ ''::tex''"] by (simp add: ascii_char_def space_char_def)
  show "extractParamPosition u (CHR ''$'' # show_nat n) = int n - 1"
    using assms by (simp add: extractParamPosition_def Let_def t1 strings_HasPrefix_def parsePositiveInt_def parse_show wrap64_id)
  show "extractParamPosition u (CHR ''$'' # show_nat n @ ''::text'') = -1"
    using assms by (simp add: extractParamPosition_def Let_def t2 strings_HasPrefix_def parsePositiveInt_def parse_loop_append
        parse_show re_digit_def wrap64_def)
qed

text \<open>
  In the text of a statement a literal ends at the first quote, so what follows a doubled quote
  stays readable; and a field that is sensitive only by a suffix keeps its literal.
\<close>

definition quoted :: "string \<Rightarrow> string" where
  "quoted s = CHR 0x27 # s @ [CHR 0x27]"

definition key_redactor :: Redactor where
  "key_redactor = \<lparr>Rd_sensitiveFields = [''key''], Rd_sensitivePatterns = [], Rd_parameterPlaceholder = ''#''\<rparr>"

theorem doubled_quote_leaks:
  "redactQueryText plain_text key_redactor (''key='' @ quoted ''a'' @ quoted ''b'') = ''key='' @ quoted ''#'' @ quoted ''b''"
  "IsSensitiveField plain_text key_redactor ''x_key''"
  "redactQueryText plain_text key_redactor (''x_key='' @ quoted ''a'') = ''x_key='' @ quoted ''a''"
  by code_simp+

text \<open>
  One dollar sign in a literal switches the search for \<open>?\<close> placeholders off: the password of
  such an update is kept in the clear, while without the literal it is redacted.
\<close>

theorem dollar_in_literal_leaks:
  "redactArgs plain_text default_redactor (''UPDATE t SET password = ? WHERE note = '' @ quoted ''$5'') [VStr pw] = [VStr pw]"
  "redactArgs plain_text default_redactor (''UPDATE t SET password = ? WHERE note = '' @ quoted ''5'') [VStr pw]
     = [VStr ''[REDACTED]'']"
proof -
  have "findSensitivePositions plain_text default_redactor (''UPDATE t SET password = ? WHERE note = '' @ quoted ''$5'') = []"
    and "findSensitivePositions plain_text default_redactor (''UPDATE t SET password = ? WHERE note = '' @ quoted ''5'') = [0]"
    and "Rd_parameterPlaceholder default_redactor = ''[REDACTED]''"
    by code_simp+
  then show "redactArgs plain_text default_redactor (''UPDATE t SET password = ? WHERE note = '' @ quoted ''$5'') [VStr pw] = [VStr pw]"
    and "redactArgs plain_text default_redactor (''UPDATE t SET password = ? WHERE note = '' @ quoted ''5'') [VStr pw]
      = [VStr ''[REDACTED]'']"
    unfolding redactArgs_def by simp_all
qed

end
