(* ===== verification/Audit_Alerts.thy ===== *)
theory Audit_Alerts
  imports Rate_Limit
begin

text \<open>
  The alert detector of the audit log (\<open>internal/storage/audit/alerts.go\<close>): threshold rules with
  one sliding window per rule and group, rules written as CEL expressions, and callbacks. The
  clock readings and ids of a check are an argument (\<open>reading\<close>, one per rule), as are the CEL
  library (\<open>cel_compile\<close>: a compiled program or an error) and the printing of a duration. The
  alert keeps a pointer to its entry; here it keeps the entry as it was when the alert was made.

  Shown: over any interleaving of checks and cleanups, a check raises exactly the alerts of a
  reference that counts, in the history of all earlier checks, the matching entries of the same
  group within the rule's window; and a rule with a negative threshold panics on its first match.
\<close>

section \<open>Definitions\<close>

record ThresholdRule =
  TR_Name :: string
  TR_Description :: string
  TR_Enabled :: bool
  TR_Action :: string
  TR_Table :: string
  TR_Role :: string
  TR_Threshold :: int
  TR_Window :: duration
  TR_GroupBy :: string
  TR_Severity :: string
  TR_TriggerRateLimit :: bool

record CELRuleConfig =
  CR_Name :: string
  CR_Description :: string
  CR_Enabled :: bool
  CR_Expression :: string
  CR_Severity :: string
  CR_TriggerRateLimit :: bool

record AlertConfig =
  AC_Enabled :: bool
  AC_ThresholdRules :: "ThresholdRule list"
  AC_CELRules :: "CELRuleConfig list"
  AC_WindowDuration :: duration
  AC_CleanupInterval :: duration

record Alert =
  Al_ID :: string
  Al_RuleName :: string
  Al_Description :: string
  Al_Severity :: string
  Al_Timestamp :: instant
  Al_Entry :: AuditEntry
  Al_Count :: int
  Al_Threshold :: int
  Al_TriggerRateLimit :: bool
  Al_Metadata :: "(string \<times> string) list"

record alertCounter =
  AK_counts :: "instant list"
  AK_threshold :: int
  AK_window :: duration

type_synonym counters = "(string \<times> alertCounter) list"

datatype cel_value = CelStr string | CelInt int | CelBool bool
datatype cel_result = CelError | CelResult cel_value
type_synonym cel_program = "(string \<times> cel_value) list \<Rightarrow> cel_result"

record alert_env =
  fmt_duration :: "duration \<Rightarrow> string"
  cel_compile :: "string \<Rightarrow> cel_program option"

text \<open>What one rule reads of the outside during a check.\<close>

record reading =
  Rd_now :: instant
  Rd_alert :: instant
  Rd_id :: string

record AlertDetector =
  AD_config :: AlertConfig
  AD_thresholdRules :: "ThresholdRule list"
  AD_celRules :: "(CELRuleConfig \<times> cel_program) list"
  AD_counters :: counters

definition DefaultAlertConfig :: AlertConfig where
  "DefaultAlertConfig =
     \<lparr>AC_Enabled = True,
      AC_ThresholdRules =
        [\<lparr>TR_Name = ''bulk_select'', TR_Description = ''Large number of SELECT queries in short time'', TR_Enabled = True,
          TR_Action = ''SELECT'', TR_Table = [], TR_Role = [], TR_Threshold = 100, TR_Window = 5 * 60 * 1000000000,
          TR_GroupBy = ''actor'', TR_Severity = ''medium'', TR_TriggerRateLimit = True\<rparr>,
         \<lparr>TR_Name = ''bulk_delete'', TR_Description = ''Large number of DELETE queries in short time'', TR_Enabled = True,
          TR_Action = ''DELETE'', TR_Table = [], TR_Role = [], TR_Threshold = 50, TR_Window = 5 * 60 * 1000000000,
          TR_GroupBy = ''actor'', TR_Severity = ''high'', TR_TriggerRateLimit = True\<rparr>,
         \<lparr>TR_Name = ''ddl_operations'', TR_Description = ''Schema modification attempts'', TR_Enabled = True,
          TR_Action = ''DDL'', TR_Table = [], TR_Role = [], TR_Threshold = 5, TR_Window = 60 * 1000000000,
          TR_GroupBy = ''role'', TR_Severity = ''critical'', TR_TriggerRateLimit = True\<rparr>,
         \<lparr>TR_Name = ''auth_failures'', TR_Description = ''Multiple failed authentication attempts'', TR_Enabled = True,
          TR_Action = [], TR_Table = ''audit_log'', TR_Role = [], TR_Threshold = 10, TR_Window = 5 * 60 * 1000000000,
          TR_GroupBy = ''actor'', TR_Severity = ''high'', TR_TriggerRateLimit = True\<rparr>],
      AC_CELRules =
        [\<lparr>CR_Name = ''unusual_role_access'', CR_Description = ''Admin role used for normal operations'', CR_Enabled = True,
          CR_Expression = ''entry.role_used == '' @ [CHR 0x22] @ ''bibd_admin'' @ [CHR 0x22] @ '' && entry.action == ''
            @ [CHR 0x22] @ ''SELECT'' @ [CHR 0x22], CR_Severity = ''medium'', CR_TriggerRateLimit = False\<rparr>,
         \<lparr>CR_Name = ''large_result_set'', CR_Description = ''Query returned unusually large number of rows'', CR_Enabled = True,
          CR_Expression = ''entry.rows_affected > 10000'', CR_Severity = ''medium'', CR_TriggerRateLimit = True\<rparr>,
         \<lparr>CR_Name = ''slow_query'', CR_Description = ''Query took unusually long to execute'', CR_Enabled = True,
          CR_Expression = ''entry.duration_ms > 30000'', CR_Severity = ''low'', CR_TriggerRateLimit = False\<rparr>],
      AC_WindowDuration = 5 * 60 * 1000000000, AC_CleanupInterval = 60 * 1000000000\<rparr>"

text \<open>The enabled CEL rules are compiled in order; the first that does not compile is the error.\<close>

fun compile_rules :: "alert_env \<Rightarrow> CELRuleConfig list \<Rightarrow> string + (CELRuleConfig \<times> cel_program) list" where
  "compile_rules env [] = Inr []"
| "compile_rules env (r # rs) =
     (if \<not> CR_Enabled r then compile_rules env rs
      else case cel_compile env (CR_Expression r) of
             None \<Rightarrow> Inl (CR_Name r)
           | Some prog \<Rightarrow> map_sum id (\<lambda>ps. (r, prog) # ps) (compile_rules env rs))"

definition NewAlertDetector :: "alert_env \<Rightarrow> AlertConfig \<Rightarrow> string + AlertDetector" where
  "NewAlertDetector env cfg =
     map_sum id (\<lambda>ps. \<lparr>AD_config = cfg, AD_thresholdRules = AC_ThresholdRules cfg, AD_celRules = ps, AD_counters = []\<rparr>)
       (compile_rules env (AC_CELRules cfg))"

definition getGroupValue :: "AuditEntry \<Rightarrow> string \<Rightarrow> string" where
  "getGroupValue e groupBy =
     (if groupBy = ''actor'' then AE_Actor e
      else if groupBy = ''node_id'' then AE_NodeID e
      else if groupBy = ''role'' then AE_RoleUsed e
      else if groupBy = ''table'' then AE_TableName e
      else if groupBy = ''action'' then AE_Action e
      else if groupBy = ''source'' then AE_SourceComponent e
      else ''global'')"

text \<open>
  \<open>make([]time.Time, 0, threshold*2)\<close> panics when the capacity is negative or exceeds the
  address space (24 bytes an element, 48 bits).
\<close>

definition make_ok :: "int \<Rightarrow> bool" where
  "make_ok threshold \<longleftrightarrow> 0 \<le> wrap64 (threshold * 2) \<and> wrap64 (threshold * 2) * 24 \<le> 2 ^ 48"

definition incrementCounter :: "instant \<Rightarrow> string \<Rightarrow> int \<Rightarrow> duration \<Rightarrow> counters \<Rightarrow> (int \<times> counters) option" where
  "incrementCounter now key threshold window c =
     (case (case map_of c key of
              Some counter \<Rightarrow> Some counter
            | None \<Rightarrow> if make_ok threshold
                      then Some \<lparr>AK_counts = [], AK_threshold = threshold, AK_window = window\<rparr> else None) of
        None \<Rightarrow> None
      | Some counter \<Rightarrow>
          (let validCounts = filter (\<lambda>t. now - window < t) (AK_counts counter) @ [now]
           in Some (int (length validCounts), AList.update key (counter\<lparr>AK_counts := validCounts\<rparr>) c)))"

definition rule_matches :: "ThresholdRule \<Rightarrow> AuditEntry \<Rightarrow> bool" where
  "rule_matches rule e \<longleftrightarrow>
     (TR_Action rule = [] \<or> TR_Action rule = AE_Action e) \<and> (TR_Table rule = [] \<or> TR_Table rule = AE_TableName e)
     \<and> (TR_Role rule = [] \<or> TR_Role rule = AE_RoleUsed e)"

definition counterKey :: "ThresholdRule \<Rightarrow> string \<Rightarrow> string" where
  "counterKey rule groupValue = TR_Name rule @ '':'' @ TR_GroupBy rule @ '':'' @ groupValue"

definition threshold_alert :: "alert_env \<Rightarrow> reading \<Rightarrow> AuditEntry \<Rightarrow> ThresholdRule \<Rightarrow> int \<Rightarrow> Alert" where
  "threshold_alert env rd e rule count =
     \<lparr>Al_ID = Rd_id rd, Al_RuleName = TR_Name rule, Al_Description = TR_Description rule, Al_Severity = TR_Severity rule,
      Al_Timestamp = Rd_alert rd, Al_Entry = e, Al_Count = count, Al_Threshold = TR_Threshold rule,
      Al_TriggerRateLimit = TR_TriggerRateLimit rule,
      Al_Metadata = [(''group_by'', TR_GroupBy rule), (''group_value'', getGroupValue e (TR_GroupBy rule)),
        (''window'', fmt_duration env (TR_Window rule))]\<rparr>"

definition checkThresholdRule ::
    "alert_env \<Rightarrow> reading \<Rightarrow> AuditEntry \<Rightarrow> ThresholdRule \<Rightarrow> counters \<Rightarrow> (Alert option \<times> counters) option" where
  "checkThresholdRule env rd e rule c =
     (if \<not> rule_matches rule e then Some (None, c)
      else case incrementCounter (Rd_now rd) (counterKey rule (getGroupValue e (TR_GroupBy rule)))
                  (TR_Threshold rule) (TR_Window rule) c of
             None \<Rightarrow> None
           | Some (count, c') \<Rightarrow>
               Some (if count \<ge> TR_Threshold rule then Some (threshold_alert env rd e rule count) else None, c'))"

text \<open>The loop over the threshold rules; the number of the rule selects its readings.\<close>

fun check_thresholds ::
    "alert_env \<Rightarrow> (nat \<Rightarrow> reading) \<Rightarrow> AuditEntry \<Rightarrow> nat \<Rightarrow> ThresholdRule list \<Rightarrow> counters \<Rightarrow> (Alert list \<times> counters) option" where
  "check_thresholds env rds e i [] c = Some ([], c)"
| "check_thresholds env rds e i (rule # rules) c =
     (case (if TR_Enabled rule then checkThresholdRule env (rds i) e rule c else Some (None, c)) of
        None \<Rightarrow> None
      | Some (alert, c') \<Rightarrow>
          map_option (\<lambda>(alerts, c''). (case alert of None \<Rightarrow> alerts | Some a \<Rightarrow> a # alerts, c''))
            (check_thresholds env rds e (Suc i) rules c'))"

definition entryMap :: "AuditEntry \<Rightarrow> (string \<times> cel_value) list" where
  "entryMap e =
     [(''node_id'', CelStr (AE_NodeID e)), (''job_id'', CelStr (AE_JobID e)), (''operation_id'', CelStr (AE_OperationID e)),
      (''role_used'', CelStr (AE_RoleUsed e)), (''action'', CelStr (AE_Action e)), (''table_name'', CelStr (AE_TableName e)),
      (''rows_affected'', CelInt (AE_RowsAffected e)), (''duration_ms'', CelInt (AE_DurationMS e)),
      (''source_component'', CelStr (AE_SourceComponent e)), (''actor'', CelStr (AE_Actor e)),
      (''suspicious'', CelBool (AF_Suspicious (AE_Flags e))), (''break_glass'', CelBool (AF_BreakGlass (AE_Flags e)))]"

definition checkCELRule :: "reading \<Rightarrow> AuditEntry \<Rightarrow> CELRuleConfig \<times> cel_program \<Rightarrow> Alert option" where
  "checkCELRule rd e rule =
     (if snd rule (entryMap e) = CelResult (CelBool True)
      then Some \<lparr>Al_ID = Rd_id rd, Al_RuleName = CR_Name (fst rule), Al_Description = CR_Description (fst rule),
                 Al_Severity = CR_Severity (fst rule), Al_Timestamp = Rd_alert rd, Al_Entry = e, Al_Count = 0, Al_Threshold = 0,
                 Al_TriggerRateLimit = CR_TriggerRateLimit (fst rule),
                 Al_Metadata = [(''expression'', CR_Expression (fst rule))]\<rparr>
      else None)"

fun check_cel :: "(nat \<Rightarrow> reading) \<Rightarrow> AuditEntry \<Rightarrow> nat \<Rightarrow> (CELRuleConfig \<times> cel_program) list \<Rightarrow> Alert list" where
  "check_cel rds e i [] = []"
| "check_cel rds e i (rule # rules) =
     (case checkCELRule (rds i) e rule of None \<Rightarrow> [] | Some a \<Rightarrow> [a]) @ check_cel rds e (Suc i) rules"

text \<open>The callbacks act on a state of their own, one alert after the other.\<close>

definition triggerCallbacks :: "(Alert \<Rightarrow> 's \<Rightarrow> 's) list \<Rightarrow> Alert \<Rightarrow> 's \<Rightarrow> 's" where
  "triggerCallbacks callbacks alert s = fold (\<lambda>callback. callback alert) callbacks s"

definition AlertDetector_Check ::
    "alert_env \<Rightarrow> (nat \<Rightarrow> reading) \<Rightarrow> AuditEntry \<Rightarrow> (Alert \<Rightarrow> 's \<Rightarrow> 's) list \<Rightarrow> AlertDetector \<Rightarrow> 's
       \<Rightarrow> (Alert list \<times> AlertDetector \<times> 's) option" where
  "AlertDetector_Check env rds e callbacks d s =
     (if \<not> AC_Enabled (AD_config d) then Some ([], d, s)
      else case check_thresholds env rds e 0 (AD_thresholdRules d) (AD_counters d) of
             None \<Rightarrow> None
           | Some (found, c) \<Rightarrow>
               (let alerts = found @ check_cel rds e (length (AD_thresholdRules d)) (AD_celRules d)
                in Some (alerts, d\<lparr>AD_counters := c\<rparr>, fold (triggerCallbacks callbacks) alerts s)))"

definition alerts_cleanup :: "instant \<Rightarrow> counters \<Rightarrow> counters" where
  "alerts_cleanup now c =
     filter (\<lambda>(key, counter). list_ex (\<lambda>t. now - AK_window counter < t) (AK_counts counter)) c"

record AlertStats =
  AS_ThresholdRulesCount :: nat
  AS_CELRulesCount :: nat
  AS_ActiveCounters :: nat

definition alerts_GetStats :: "AlertDetector \<Rightarrow> AlertStats" where
  "alerts_GetStats d =
     \<lparr>AS_ThresholdRulesCount = length (AD_thresholdRules d), AS_CELRulesCount = length (AD_celRules d),
      AS_ActiveCounters = length (AD_counters d)\<rparr>"

text \<open>A run of the detector: checks and cleanups in some order.\<close>

datatype alert_op = Op_Check "nat \<Rightarrow> reading" AuditEntry | Op_Cleanup instant

fun run_ops :: "alert_env \<Rightarrow> alert_op list \<Rightarrow> AlertDetector \<Rightarrow> AlertDetector option" where
  "run_ops env [] d = Some d"
| "run_ops env (Op_Check rds e # ops) d =
     (case AlertDetector_Check env rds e [] d () of None \<Rightarrow> None | Some (alerts, d', u) \<Rightarrow> run_ops env ops d')"
| "run_ops env (Op_Cleanup now # ops) d = run_ops env ops (d\<lparr>AD_counters := alerts_cleanup now (AD_counters d)\<rparr>)"

section \<open>The reference\<close>

text \<open>
  The instants at which earlier checks of a history counted for a rule and a group, and the
  alerts a check has to raise, computed from the instants counted for each rule.
\<close>

definition counted_at :: "nat \<Rightarrow> ThresholdRule \<Rightarrow> string \<Rightarrow> alert_op \<Rightarrow> instant list" where
  "counted_at i rule v op =
     (case op of
        Op_Check rds e \<Rightarrow> if rule_matches rule e \<and> getGroupValue e (TR_GroupBy rule) = v then [Rd_now (rds i)] else []
      | Op_Cleanup now \<Rightarrow> [])"

definition earlier :: "nat \<Rightarrow> ThresholdRule \<Rightarrow> string \<Rightarrow> alert_op list \<Rightarrow> instant list" where
  "earlier i rule v ops = concat (map (counted_at i rule v) ops)"

definition rule_alert :: "alert_env \<Rightarrow> reading \<Rightarrow> AuditEntry \<Rightarrow> ThresholdRule \<Rightarrow> instant list \<Rightarrow> Alert list" where
  "rule_alert env rd e rule seen =
     (let count = int (length (recent (Rd_now rd - TR_Window rule) seen)) + 1
      in if TR_Enabled rule \<and> rule_matches rule e \<and> TR_Threshold rule \<le> count
         then [threshold_alert env rd e rule count] else [])"

fun expected_alerts ::
    "alert_env \<Rightarrow> (nat \<Rightarrow> reading) \<Rightarrow> AuditEntry \<Rightarrow> (nat \<Rightarrow> ThresholdRule \<Rightarrow> instant list) \<Rightarrow> nat \<Rightarrow> ThresholdRule list \<Rightarrow> Alert list" where
  "expected_alerts env rds e seen i [] = []"
| "expected_alerts env rds e seen i (rule # rules) =
     rule_alert env (rds i) e rule (seen i rule) @ expected_alerts env rds e seen (Suc i) rules"

text \<open>The instants of one operation as a rule sees them.\<close>

definition op_time :: "nat \<Rightarrow> alert_op \<Rightarrow> instant" where
  "op_time i op = (case op of Op_Check rds e \<Rightarrow> Rd_now (rds i) | Op_Cleanup now \<Rightarrow> now)"

text \<open>Rules whose counters cannot be confused and whose thresholds can be allocated.\<close>

definition rules_ok :: "ThresholdRule list \<Rightarrow> bool" where
  "rules_ok rules \<longleftrightarrow>
     distinct (map TR_Name rules) \<and> list_all (\<lambda>r. CHR '':'' \<notin> set (TR_Name r) \<and> make_ok (TR_Threshold r)) rules"

section \<open>One check\<close>

definition rule_key :: "AuditEntry \<Rightarrow> ThresholdRule \<Rightarrow> string" where
  "rule_key e rule = counterKey rule (getGroupValue e (TR_GroupBy rule))"

definition counts_at :: "counters \<Rightarrow> string \<Rightarrow> instant list" where
  "counts_at c key = (case map_of c key of None \<Rightarrow> [] | Some counter \<Rightarrow> AK_counts counter)"

definition bump :: "instant \<Rightarrow> ThresholdRule \<Rightarrow> alertCounter option \<Rightarrow> alertCounter" where
  "bump now rule oc =
     (case oc of
        None \<Rightarrow> \<lparr>AK_counts = [now], AK_threshold = TR_Threshold rule, AK_window = TR_Window rule\<rparr>
      | Some counter \<Rightarrow> counter\<lparr>AK_counts := recent (now - TR_Window rule) (AK_counts counter) @ [now]\<rparr>)"

lemma increment_bump:
  assumes "make_ok (TR_Threshold rule)"
  shows "incrementCounter now key (TR_Threshold rule) (TR_Window rule) c
    = Some (int (length (recent (now - TR_Window rule) (counts_at c key))) + 1, AList.update key (bump now rule (map_of c key)) c)"
  using assms by (simp add: incrementCounter_def counts_at_def bump_def recent_def Let_def split: option.splits)

lemma name_of_key: "CHR '':'' \<notin> set (TR_Name r) \<Longrightarrow> takeWhile (\<lambda>x. x \<noteq> CHR '':'') (counterKey r v) = TR_Name r"
  unfolding counterKey_def by (subst takeWhile_append2) auto

lemma counterKey_name:
  assumes "CHR '':'' \<notin> set (TR_Name r)" and "CHR '':'' \<notin> set (TR_Name r')" and "counterKey r v = counterKey r' v'"
  shows "TR_Name r = TR_Name r'"
  using name_of_key [OF assms(1), of v] name_of_key [OF assms(2), of v'] assms(3) by simp

lemma counterKey_group: "counterKey r v = counterKey r v' \<longleftrightarrow> v = v'"
  by (simp add: counterKey_def)

lemma rule_key_head:
  assumes "rules_ok (rule # rules)" and "r \<in> set rules"
  shows "counterKey r v \<noteq> counterKey rule w"
proof
  assume "counterKey r v = counterKey rule w"
  then have "TR_Name r = TR_Name rule"
    using assms counterKey_name [of r rule] by (auto simp: rules_ok_def list_all_iff)
  then have "TR_Name rule \<in> TR_Name ` set rules" using assms(2) by (metis imageI)
  then show False using assms(1) by (simp add: rules_ok_def)
qed

lemma expected_cong:
  "(\<And>j r. r \<in> set rules \<Longrightarrow> seen j r = seen' j r) \<Longrightarrow>
     expected_alerts env rds e seen i rules = expected_alerts env rds e seen' i rules"
  by (induction rules arbitrary: i) auto

text \<open>
  The loop raises the alerts the counters ask for, counts every matching rule once, at its own
  key, and leaves the other counters alone.
\<close>

lemma check_thresholds_ok:
  assumes "rules_ok rules"
  shows "\<exists>c'. check_thresholds env rds e i rules c
      = Some (expected_alerts env rds e (\<lambda>j r. counts_at c (rule_key e r)) i rules, c')
    \<and> (\<forall>k. k \<notin> rule_key e ` {r \<in> set rules. TR_Enabled r \<and> rule_matches r e} \<longrightarrow> map_of c' k = map_of c k)
    \<and> (\<forall>j < length rules. TR_Enabled (rules ! j) \<and> rule_matches (rules ! j) e \<longrightarrow>
         map_of c' (rule_key e (rules ! j)) = Some (bump (Rd_now (rds (i + j))) (rules ! j) (map_of c (rule_key e (rules ! j)))))
    \<and> (distinct (map fst c) \<longrightarrow> distinct (map fst c'))"
  using assms
proof (induction rules arbitrary: i c)
  case Nil
  then show ?case by simp
next
  case (Cons rule rules)
  let ?hit = "TR_Enabled rule \<and> rule_matches rule e"
  define c1 where "c1 = (if ?hit then AList.update (rule_key e rule) (bump (Rd_now (rds i)) rule (map_of c (rule_key e rule))) c else c)"
  have ok: "rules_ok rules" "make_ok (TR_Threshold rule)" using Cons.prems by (auto simp: rules_ok_def)
  have head: "(if TR_Enabled rule then checkThresholdRule env (rds i) e rule c else Some (None, c))
      = Some (case rule_alert env (rds i) e rule (counts_at c (rule_key e rule)) of [] \<Rightarrow> None | a # as \<Rightarrow> Some a, c1)"
    using ok(2) by (auto simp: checkThresholdRule_def increment_bump rule_key_def [symmetric] rule_alert_def c1_def Let_def)
  have other: "rule_key e r \<noteq> rule_key e rule" if "r \<in> set rules" for r
    using rule_key_head [OF Cons.prems that] by (simp add: rule_key_def)
  have c1: "map_of c1 k = map_of c k" if "k \<noteq> rule_key e rule" for k
    using that by (simp add: c1_def update_conv')
  have tail: "expected_alerts env rds e (\<lambda>j r. counts_at c1 (rule_key e r)) (Suc i) rules
      = expected_alerts env rds e (\<lambda>j r. counts_at c (rule_key e r)) (Suc i) rules"
    by (intro expected_cong) (simp add: counts_at_def c1 other)
  from Cons.IH [OF ok(1), of "Suc i" c1] obtain c' where
    run: "check_thresholds env rds e (Suc i) rules c1
        = Some (expected_alerts env rds e (\<lambda>j r. counts_at c (rule_key e r)) (Suc i) rules, c')"
    and same: "\<forall>k. k \<notin> rule_key e ` {r \<in> set rules. TR_Enabled r \<and> rule_matches r e} \<longrightarrow> map_of c' k = map_of c1 k"
    and hits: "\<forall>j < length rules. TR_Enabled (rules ! j) \<and> rule_matches (rules ! j) e \<longrightarrow>
         map_of c' (rule_key e (rules ! j)) = Some (bump (Rd_now (rds (Suc i + j))) (rules ! j) (map_of c1 (rule_key e (rules ! j))))"
    and dist: "distinct (map fst c1) \<longrightarrow> distinct (map fst c')" unfolding tail by blast
  have "check_thresholds env rds e i (rule # rules) c
      = Some (expected_alerts env rds e (\<lambda>j r. counts_at c (rule_key e r)) i (rule # rules), c')"
    using head run by (simp add: rule_alert_def Let_def)
  moreover have "map_of c' (rule_key e rule) = map_of c1 (rule_key e rule)"
    using same other by force
  then have "map_of c' (rule_key e rule) = Some (bump (Rd_now (rds i)) rule (map_of c (rule_key e rule)))" if ?hit
    using that by (simp add: c1_def update_conv')
  then have "\<forall>j < length (rule # rules). TR_Enabled ((rule # rules) ! j) \<and> rule_matches ((rule # rules) ! j) e \<longrightarrow>
      map_of c' (rule_key e ((rule # rules) ! j))
        = Some (bump (Rd_now (rds (i + j))) ((rule # rules) ! j) (map_of c (rule_key e ((rule # rules) ! j))))"
    using hits other c1 by (auto simp: less_Suc_eq_0_disj)
  moreover have "map_of c' k = map_of c k" if k: "k \<notin> rule_key e ` {r \<in> set (rule # rules). TR_Enabled r \<and> rule_matches r e}" for k
  proof -
    have "map_of c' k = map_of c1 k" using same k by auto
    also have "\<dots> = map_of c k" using k c1 by (cases ?hit) (auto simp: c1_def)
    finally show ?thesis .
  qed
  moreover have "distinct (map fst c) \<longrightarrow> distinct (map fst c')"
    using dist by (auto simp: c1_def distinct_update)
  ultimately show ?case by blast
qed

section \<open>Runs\<close>

lemma run_ops_append:
  "run_ops env (ops @ ops') d = Option.bind (run_ops env ops d) (run_ops env ops')"
proof (induction ops arbitrary: d)
  case (Cons op ops)
  then show ?case by (cases op) (auto split: option.splits)
qed simp

lemma map_of_cleanup:
  assumes "distinct (map fst c)"
  shows "map_of (alerts_cleanup now c) k =
    (case map_of c k of None \<Rightarrow> None
     | Some counter \<Rightarrow> if list_ex (\<lambda>t. now - AK_window counter < t) (AK_counts counter) then Some counter else None)"
  using assms unfolding alerts_cleanup_def
proof (induction c)
  case (Cons kv c)
  have "map_of c (fst kv) = None" using Cons.prems by (auto simp: map_of_eq_None_iff)
  then show ?case using Cons by (cases kv) (auto split: option.splits)
qed simp

lemma cleanup_distinct: "distinct (map fst c) \<Longrightarrow> distinct (map fst (alerts_cleanup now c))"
  by (simp add: alerts_cleanup_def distinct_map_filter)

text \<open>
  The invariant: at an instant no earlier than the history, every counter holds what the window
  of its rule can still see of the history.
\<close>

definition counter_ok :: "instant \<Rightarrow> nat \<Rightarrow> ThresholdRule \<Rightarrow> string \<Rightarrow> alert_op list \<Rightarrow> counters \<Rightarrow> bool" where
  "counter_ok t i rule v ops c \<longleftrightarrow>
     (\<forall>lo \<ge> t - TR_Window rule. recent lo (counts_at c (counterKey rule v)) = recent lo (earlier i rule v ops))
     \<and> (\<forall>counter. map_of c (counterKey rule v) = Some counter \<longrightarrow> AK_window counter = TR_Window rule)"

definition detector_ok :: "ThresholdRule list \<Rightarrow> alert_op list \<Rightarrow> counters \<Rightarrow> bool" where
  "detector_ok rules ops c \<longleftrightarrow>
     distinct (map fst c)
     \<and> (\<forall>i < length rules. TR_Enabled (rules ! i) \<longrightarrow>
          (\<forall>v t. (\<forall>op \<in> set ops. op_time i op \<le> t) \<longrightarrow> counter_ok t i (rules ! i) v ops c))"

lemma detector_okD:
  "detector_ok rules ops c \<Longrightarrow> i < length rules \<Longrightarrow> TR_Enabled (rules ! i) \<Longrightarrow> \<forall>op \<in> set ops. op_time i op \<le> t
     \<Longrightarrow> counter_ok t i (rules ! i) v ops c"
  by (auto simp: detector_ok_def)

lemma earlier_snoc: "earlier i rule v (ops @ [op]) = earlier i rule v ops @ counted_at i rule v op"
  by (simp add: earlier_def)

lemma cleanup_keeps_ok:
  assumes "detector_ok rules ops c"
  shows "detector_ok rules (ops @ [Op_Cleanup now]) (alerts_cleanup now c)"
proof -
  have dist: "distinct (map fst c)" using assms by (simp add: detector_ok_def)
  have "counter_ok t i (rules ! i) v (ops @ [Op_Cleanup now]) (alerts_cleanup now c)"
    if i: "i < length rules" "TR_Enabled (rules ! i)" and t: "\<forall>op \<in> set (ops @ [Op_Cleanup now]). op_time i op \<le> t" for i v t
  proof -
    let ?k = "counterKey (rules ! i) v" and ?W = "TR_Window (rules ! i)"
    have old: "counter_ok t i (rules ! i) v ops c" using detector_okD [OF assms i] t by simp
    have now: "now \<le> t" using t by (simp add: op_time_def)
    have "recent lo (counts_at (alerts_cleanup now c) ?k) = recent lo (counts_at c ?k)" if lo: "t - ?W \<le> lo" for lo
    proof (cases "map_of c ?k")
      case (Some counter)
      then have w: "AK_window counter = ?W" using old by (simp add: counter_ok_def)
      show ?thesis
      proof (cases "list_ex (\<lambda>t. now - AK_window counter < t) (AK_counts counter)")
        case False
        then have "\<forall>u \<in> set (AK_counts counter). u \<le> lo" using w lo now by (force simp: list_ex_iff)
        then show ?thesis using Some False by (simp add: counts_at_def map_of_cleanup [OF dist] recent_none recent_Nil)
      qed (simp add: Some counts_at_def map_of_cleanup [OF dist])
    qed (simp add: counts_at_def map_of_cleanup [OF dist])
    then show ?thesis
      using old by (auto simp: counter_ok_def earlier_snoc counted_at_def map_of_cleanup [OF dist] split: option.splits if_splits)
  qed
  then show ?thesis by (simp add: detector_ok_def cleanup_distinct dist)
qed

lemma bump_fields [simp]:
  "AK_counts (bump now rule oc) = recent (now - TR_Window rule) (case oc of None \<Rightarrow> [] | Some counter \<Rightarrow> AK_counts counter) @ [now]"
  "AK_window (bump now rule oc) = (case oc of None \<Rightarrow> TR_Window rule | Some counter \<Rightarrow> AK_window counter)"
  by (simp_all add: bump_def recent_Nil split: option.splits)

lemma check_keeps_ok:
  assumes "detector_ok rules ops c" and "rules_ok rules" and "check_thresholds env rds e 0 rules c = Some (as, c')"
  shows "detector_ok rules (ops @ [Op_Check rds e]) c'"
proof -
  note facts = check_thresholds_ok [OF assms(2), of env rds e 0 c]
  have same: "map_of c' k = map_of c k" if "k \<notin> rule_key e ` {r \<in> set rules. TR_Enabled r \<and> rule_matches r e}" for k
    using facts assms(3) that by auto
  have hit: "map_of c' (rule_key e (rules ! j)) = Some (bump (Rd_now (rds j)) (rules ! j) (map_of c (rule_key e (rules ! j))))"
    if "j < length rules" "TR_Enabled (rules ! j)" "rule_matches (rules ! j) e" for j
    using facts assms(3) that by auto
  have dist: "distinct (map fst c) \<Longrightarrow> distinct (map fst c')"
    using facts assms(3) by auto
  have "counter_ok t i (rules ! i) v (ops @ [Op_Check rds e]) c'"
    if i: "i < length rules" "TR_Enabled (rules ! i)" and t: "\<forall>op \<in> set (ops @ [Op_Check rds e]). op_time i op \<le> t" for i v t
  proof -
    let ?r = "rules ! i" and ?now = "Rd_now (rds i)"
    let ?k = "counterKey ?r v" and ?W = "TR_Window ?r"
    have old: "counter_ok t i ?r v ops c" using detector_okD [OF assms(1) i] t by simp
    have now: "?now \<le> t" using t by (simp add: op_time_def)
    show ?thesis
    proof (cases "rule_matches ?r e \<and> getGroupValue e (TR_GroupBy ?r) = v")
      case True
      then have k: "map_of c' ?k = Some (bump ?now ?r (map_of c ?k))" using hit [OF i] by (simp add: rule_key_def)
      have "counts_at c' ?k = recent (?now - ?W) (counts_at c ?k) @ [?now]" by (simp add: counts_at_def k)
      then have "recent lo (counts_at c' ?k) = recent lo (earlier i ?r v (ops @ [Op_Check rds e]))" if lo: "t - ?W \<le> lo" for lo
        using old lo now True by (simp add: counter_ok_def recent_append recent_recent earlier_snoc counted_at_def)
      then show ?thesis using old k by (auto simp: counter_ok_def split: option.splits)
    next
      case False
      have "?k \<notin> rule_key e ` {r \<in> set rules. TR_Enabled r \<and> rule_matches r e}"
      proof
        assume "?k \<in> rule_key e ` {r \<in> set rules. TR_Enabled r \<and> rule_matches r e}"
        then obtain j where j: "j < length rules" "rule_matches (rules ! j) e" "?k = rule_key e (rules ! j)"
          by (auto simp: in_set_conv_nth)
        then have "TR_Name ?r = TR_Name (rules ! j)"
          using counterKey_name [of ?r "rules ! j"] assms(2) i(1) by (auto simp: rule_key_def rules_ok_def list_all_length)
        then have "i = j" using assms(2) i(1) j(1) by (simp add: rules_ok_def distinct_conv_nth) metis
        then show False using False j by (simp add: rule_key_def counterKey_group)
      qed
      then have "map_of c' ?k = map_of c ?k" by (rule same)
      moreover have "counted_at i ?r v (Op_Check rds e) = []" using False by (simp add: counted_at_def)
      ultimately show ?thesis using old by (simp add: counter_ok_def counts_at_def earlier_snoc)
    qed
  qed
  then show ?thesis using assms(1) dist by (simp add: detector_ok_def)
qed

lemma run_ops_ok:
  assumes "rules_ok (AD_thresholdRules d)" and "AC_Enabled (AD_config d)" and "AD_counters d = []"
  shows "\<exists>c. run_ops env ops d = Some (d\<lparr>AD_counters := c\<rparr>) \<and> detector_ok (AD_thresholdRules d) ops c"
proof (induction ops rule: rev_induct)
  case Nil
  have "detector_ok (AD_thresholdRules d) [] []" by (simp add: detector_ok_def counter_ok_def counts_at_def earlier_def)
  then show ?case using assms(3) by (intro exI [of _ "[]"]) (cases d, simp)
next
  case (snoc op ops)
  then obtain c where c: "run_ops env ops d = Some (d\<lparr>AD_counters := c\<rparr>)" "detector_ok (AD_thresholdRules d) ops c" by blast
  show ?case
  proof (cases op)
    case (Op_Check rds e)
    obtain as c' where ct: "check_thresholds env rds e 0 (AD_thresholdRules d) c = Some (as, c')"
      using check_thresholds_ok [OF assms(1), of env rds e 0 c] by auto
    then show ?thesis
      using c assms(1,2) check_keeps_ok [OF c(2) assms(1) ct] Op_Check
      by (intro exI [of _ c']) (simp add: run_ops_append AlertDetector_Check_def Let_def)
  next
    case (Op_Cleanup now)
    then show ?thesis
      using c cleanup_keeps_ok [OF c(2), of now] by (intro exI [of _ "alerts_cleanup now c"]) (simp add: run_ops_append)
  qed
qed

section \<open>Properties\<close>

text \<open>
  C18. The detector raises exactly the alerts its rules describe. Let the threshold rules have
  distinct names without a colon and thresholds that can be allocated. After any sequence of
  checks and cleanups, none of them later than this check, a check succeeds and returns, for each
  enabled rule that matches the entry, an alert if and only if the number of matching entries of
  the same group in the rule's window before now, plus this one, reaches the threshold, with that
  number as its count; then the alerts of the CEL rules; and runs the callbacks on them in order.
\<close>

theorem alerts_exact:
  assumes "NewAlertDetector env cfg = Inr d0" and "AC_Enabled cfg" and "rules_ok (AC_ThresholdRules cfg)"
    and "\<forall>i < length (AC_ThresholdRules cfg). \<forall>op \<in> set ops. op_time i op \<le> Rd_now (rds i)"
    and "alerts = expected_alerts env rds e (\<lambda>i rule. earlier i rule (getGroupValue e (TR_GroupBy rule)) ops) 0 (AC_ThresholdRules cfg)
      @ check_cel rds e (length (AC_ThresholdRules cfg)) (AD_celRules d0)"
  shows "\<exists>d d'. run_ops env ops d0 = Some d
    \<and> AlertDetector_Check env rds e callbacks d s = Some (alerts, d', fold (triggerCallbacks callbacks) alerts s)"
proof -
  let ?rules = "AC_ThresholdRules cfg"
  have d0: "AD_thresholdRules d0 = ?rules" "AD_config d0 = cfg" "AD_counters d0 = []"
    using assms(1) by (auto simp: NewAlertDetector_def map_sum_def split: sum.splits)
  obtain c where c: "run_ops env ops d0 = Some (d0\<lparr>AD_counters := c\<rparr>)" "detector_ok ?rules ops c"
    using run_ops_ok [of d0 env ops] assms(2,3) d0 by auto
  obtain c' where ct: "check_thresholds env rds e 0 ?rules c
      = Some (expected_alerts env rds e (\<lambda>j r. counts_at c (rule_key e r)) 0 ?rules, c')"
    using check_thresholds_ok [OF assms(3), of env rds e 0 c] by auto
  have window: "rule_alert env (rds i) e r (counts_at c (rule_key e r)) = rule_alert env (rds i) e r (earlier i r (getGroupValue e (TR_GroupBy r)) ops)"
    if i: "i < length ?rules" "r = ?rules ! i" for i r
  proof (cases "TR_Enabled r")
    case True
    then have "counter_ok (Rd_now (rds i)) i r (getGroupValue e (TR_GroupBy r)) ops c"
      using detector_okD [OF c(2), of i "Rd_now (rds i)"] assms(4) i by blast
    then show ?thesis by (simp add: counter_ok_def rule_alert_def rule_key_def Let_def)
  qed (simp add: rule_alert_def)
  have "expected_alerts env rds e (\<lambda>j r. counts_at c (rule_key e r)) i rs
      = expected_alerts env rds e (\<lambda>i rule. earlier i rule (getGroupValue e (TR_GroupBy rule)) ops) i rs"
    if "?rules = pre @ rs" "i = length pre" for pre rs i
    using that
  proof (induction rs arbitrary: pre i)
    case (Cons r rs)
    have "i < length ?rules \<and> r = ?rules ! i" unfolding Cons.prems by simp
    then have "rule_alert env (rds i) e r (counts_at c (rule_key e r)) = rule_alert env (rds i) e r (earlier i r (getGroupValue e (TR_GroupBy r)) ops)"
      using window by blast
    moreover have "?rules = (pre @ [r]) @ rs" "Suc i = length (pre @ [r])" using Cons.prems by simp_all
    note Cons.IH [OF this]
    ultimately show ?case by (simp only: expected_alerts.simps)
  qed simp
  from this [of "[]" ?rules 0] show ?thesis
    using c(1) ct assms(2,5) d0 by (simp add: AlertDetector_Check_def Let_def)
qed

definition sample_rules :: AlertConfig where
  "sample_rules = DefaultAlertConfig\<lparr>AC_ThresholdRules := [(AC_ThresholdRules DefaultAlertConfig ! 2)\<lparr>TR_Threshold := 2\<rparr>], AC_CELRules := []\<rparr>"

definition sample_alert_env :: alert_env where
  "sample_alert_env = \<lparr>fmt_duration = (\<lambda>d. ''1m0s''), cel_compile = (\<lambda>s. None)\<rparr>"

definition at_time :: "instant \<Rightarrow> nat \<Rightarrow> reading" where
  "at_time t i = \<lparr>Rd_now = t, Rd_alert = t, Rd_id = ''id''\<rparr>"

theorem alerts_exact_witness:
  "\<exists>d0 d d'. NewAlertDetector sample_alert_env sample_rules = Inr d0
    \<and> run_ops sample_alert_env [Op_Check (at_time 5) (sample_entry ''DDL''), Op_Cleanup 6] d0 = Some d
    \<and> map_option (map Al_Count \<circ> fst) (AlertDetector_Check sample_alert_env (at_time 7) (sample_entry ''DDL'') [] d ()) = Some [2]"
proof -
  let ?ops = "[Op_Check (at_time 5) (sample_entry ''DDL''), Op_Cleanup 6]"
  let ?as = "expected_alerts sample_alert_env (at_time 7) (sample_entry ''DDL'')
      (\<lambda>i rule. earlier i rule (getGroupValue (sample_entry ''DDL'') (TR_GroupBy rule)) ?ops) 0 (AC_ThresholdRules sample_rules)"
  obtain d0 where d0: "NewAlertDetector sample_alert_env sample_rules = Inr d0" "AD_celRules d0 = []"
    by (simp add: NewAlertDetector_def sample_rules_def)
  have on: "AC_Enabled sample_rules" and ok: "rules_ok (AC_ThresholdRules sample_rules)" by code_simp+
  have past: "\<forall>i < length (AC_ThresholdRules sample_rules). \<forall>op \<in> set ?ops. op_time i op \<le> Rd_now (at_time 7 i)"
    by (simp add: at_time_def op_time_def)
  have count: "map Al_Count ?as = [2]" by code_simp
  obtain d d' where "run_ops sample_alert_env ?ops d0 = Some d"
    and "AlertDetector_Check sample_alert_env (at_time 7) (sample_entry ''DDL'') [] d ()
      = Some (?as @ check_cel (at_time 7) (sample_entry ''DDL'') (length (AC_ThresholdRules sample_rules)) (AD_celRules d0), d', ())"
    using alerts_exact [OF d0(1) on ok past refl, of "sample_entry ''DDL''" "[]" "()"] by auto
  then have "run_ops sample_alert_env ?ops d0 = Some d
      \<and> map_option (map Al_Count \<circ> fst) (AlertDetector_Check sample_alert_env (at_time 7) (sample_entry ''DDL'') [] d ()) = Some [2]"
    by (simp only: d0(2) check_cel.simps append_Nil2 option.map comp_def fst_conv count simp_thms)
  then show ?thesis using d0(1) by blast
qed

text \<open>
  A rule with a negative threshold panics on the first entry that matches it: the capacity of its
  list of instants is negative.
\<close>

theorem negative_threshold_panics:
  assumes "TR_Enabled rule" and "rule_matches rule e" and "TR_Threshold rule < 0" and "- (2 ^ 62) \<le> TR_Threshold rule"
    and "map_of c (rule_key e rule) = None"
  shows "check_thresholds env rds e i (rule # rules) c = None"
proof -
  have "\<not> make_ok (TR_Threshold rule)" using assms(3,4) by (simp add: make_ok_def wrap64_id)
  then show ?thesis using assms(1,2,5) by (simp add: checkThresholdRule_def incrementCounter_def rule_key_def)
qed

end
