(* ===== verification/Audit_Sinks.thy ===== *)
theory Audit_Sinks
  imports Audit_Redact "HOL-Library.Sublist"
begin

text \<open>
  The sinks of the audit log: the in-memory stream with its subscribers and the batching consumer
  (\<open>internal/storage/audit/stream.go\<close>), the JSON-lines files (\<open>file.go\<close>), the object store
  (\<open>s3.go\<close>) and syslog (\<open>syslog.go\<close>). A file is the list of lines a reader finds in it after
  it is closed; buffering and compression do not change it. Answers of the disk, the object
  store and the network are arguments, as are the rendering of instants and the text of a JSON
  document; whether a document can be rendered at all is computed from the value.

  Shown: the stream keeps exactly the last entries and never panics, a subscriber receives a
  subsequence of what was published since it subscribed; the batching consumer loses nothing;
  a file stays within its limit unless a single line exceeds it; the object store loses nothing as
  long as every entry can be rendered, and a whole batch when one cannot; syslog values are read
  back by a reader of RFC 5424.
\<close>

section \<open>Entries and JSON\<close>

text \<open>The entry of the package: the row of the audit trail, and metadata of any type.\<close>

record Entry =
  En_row :: AuditEntry
  En_Metadata :: "(string \<times> go_any) list"

record json_env =
  json_other :: "string \<Rightarrow> bool"
  json_text :: "Entry \<Rightarrow> string"

text \<open>
  An alert points back at its entry, whose metadata holds the alert: \<open>encoding/json\<close> reports
  such a cycle as an error.
\<close>

fun json_ok :: "json_env \<Rightarrow> go_any \<Rightarrow> bool" where
  "json_ok js (VStr s) = True"
| "json_ok js (VMap m) = list_all (\<lambda>kv. json_ok js (snd kv)) m"
| "json_ok js (VList vs) = list_all (json_ok js) vs"
| "json_ok js (VAlerts n) = False"
| "json_ok js (VOther s) = json_other js s"

definition json_Marshal :: "json_env \<Rightarrow> Entry \<Rightarrow> string option" where
  "json_Marshal js e = (if json_ok js (VMap (En_Metadata e)) then Some (json_text js e) else None)"

section \<open>The stream\<close>

record 'e channel =
  Ch_cap :: nat
  Ch_queue :: "'e list"
  Ch_closed :: bool

text \<open>Channels are numbered in the order of their creation; a subscriber's name leads to a number.\<close>

record 'e Streamer =
  St_subscribers :: "(string \<times> nat) list"
  St_channels :: "'e channel list"
  St_buffer :: "'e list"
  St_bufferSize :: int
  St_closed :: bool

definition NewStreamer :: "int \<Rightarrow> 'e Streamer" where
  "NewStreamer bufferSize =
     \<lparr>St_subscribers = [], St_channels = [], St_buffer = [],
      St_bufferSize = (if bufferSize \<le> 0 then 1000 else bufferSize), St_closed = False\<rparr>"

text \<open>A non-blocking send: a full channel drops the value, a closed one panics (\<open>None\<close>).\<close>

definition chan_send :: "'e \<Rightarrow> nat \<Rightarrow> 'e channel list \<Rightarrow> 'e channel list option" where
  "chan_send e n chs =
     (let ch = chs ! n
      in if Ch_closed ch then None
         else if length (Ch_queue ch) < Ch_cap ch then Some (chs[n := ch\<lparr>Ch_queue := Ch_queue ch @ [e]\<rparr>])
         else Some chs)"

fun send_all :: "'e \<Rightarrow> nat list \<Rightarrow> 'e channel list \<Rightarrow> 'e channel list option" where
  "send_all e [] chs = Some chs"
| "send_all e (n # ns) chs = Option.bind (chan_send e n chs) (send_all e ns)"

definition Publish :: "'e \<Rightarrow> 'e Streamer \<Rightarrow> 'e Streamer option" where
  "Publish e s =
     (if St_closed s then Some s
      else let kept = (if int (length (St_buffer s)) \<ge> St_bufferSize s then tl (St_buffer s) else St_buffer s)
           in map_option (\<lambda>chs. s\<lparr>St_buffer := kept @ [e], St_channels := chs\<rparr>)
                (send_all e (map snd (St_subscribers s)) (St_channels s)))"

definition chan_close :: "nat \<Rightarrow> 'e channel list \<Rightarrow> 'e channel list option" where
  "chan_close n chs = (if Ch_closed (chs ! n) then None else Some (chs[n := (chs ! n)\<lparr>Ch_closed := True\<rparr>]))"

text \<open>
  A subscription makes a channel of the size asked for. The sizes are those the allocator can
  serve: \<open>make\<close> panics for absurd ones, which is not modelled.
\<close>

definition Subscribe :: "string \<Rightarrow> int \<Rightarrow> 'e Streamer \<Rightarrow> nat \<times> 'e Streamer" where
  "Subscribe sid channelSize s =
     (let cap = (if channelSize \<le> 0 then 100 else nat channelSize); n = length (St_channels s)
      in (n, s\<lparr>St_channels := St_channels s @ [\<lparr>Ch_cap = cap, Ch_queue = [], Ch_closed = False\<rparr>],
               St_subscribers := AList.update sid n (St_subscribers s)\<rparr>))"

definition unsubscribe :: "string \<Rightarrow> 'e Streamer \<Rightarrow> 'e Streamer option" where
  "unsubscribe sid s =
     (case map_of (St_subscribers s) sid of
        None \<Rightarrow> Some s
      | Some n \<Rightarrow> map_option (\<lambda>chs. s\<lparr>St_channels := chs, St_subscribers := AList.delete sid (St_subscribers s)\<rparr>)
                   (chan_close n (St_channels s)))"

definition SubscriberCount :: "'e Streamer \<Rightarrow> nat" where
  "SubscriberCount s = length (St_subscribers s)"

definition RecentEntries :: "int \<Rightarrow> 'e Streamer \<Rightarrow> 'e list" where
  "RecentEntries limit s =
     (let n = (if limit \<le> 0 \<or> limit > int (length (St_buffer s)) then length (St_buffer s) else nat limit)
      in drop (length (St_buffer s) - n) (St_buffer s))"

fun close_all :: "nat list \<Rightarrow> 'e channel list \<Rightarrow> 'e channel list option" where
  "close_all [] chs = Some chs"
| "close_all (n # ns) chs = Option.bind (chan_close n chs) (close_all ns)"

definition Streamer_Close :: "'e Streamer \<Rightarrow> 'e Streamer option" where
  "Streamer_Close s =
     (if St_closed s then Some s
      else map_option (\<lambda>chs. s\<lparr>St_closed := True, St_channels := chs, St_subscribers := []\<rparr>)
             (close_all (map snd (St_subscribers s)) (St_channels s)))"

text \<open>The consumer's end of a channel.\<close>

definition chan_recv :: "nat \<Rightarrow> 'e Streamer \<Rightarrow> 'e option \<times> 'e Streamer" where
  "chan_recv n s =
     (case Ch_queue (St_channels s ! n) of
        [] \<Rightarrow> (None, s)
      | e # q \<Rightarrow> (Some e, s\<lparr>St_channels := (St_channels s)[n := (St_channels s ! n)\<lparr>Ch_queue := q\<rparr>]\<rparr>))"

section \<open>The batching consumer\<close>

record 'e BatchedStreamer =
  BS_batchSize :: int
  BS_batch :: "'e list"
  BS_handled :: "'e list list"

definition NewBatchedStreamer :: "int \<Rightarrow> 'e BatchedStreamer" where
  "NewBatchedStreamer batchSize =
     \<lparr>BS_batchSize = (if batchSize \<le> 0 then 100 else batchSize), BS_batch = [], BS_handled = []\<rparr>"

definition batch_flush :: "'e BatchedStreamer \<Rightarrow> 'e BatchedStreamer" where
  "batch_flush b = (if BS_batch b = [] then b else b\<lparr>BS_batch := [], BS_handled := BS_handled b @ [BS_batch b]\<rparr>)"

definition addToBatch :: "'e \<Rightarrow> 'e BatchedStreamer \<Rightarrow> 'e BatchedStreamer" where
  "addToBatch e b =
     (let b' = b\<lparr>BS_batch := BS_batch b @ [e]\<rparr>
      in if int (length (BS_batch b')) \<ge> BS_batchSize b' then batch_flush b' else b')"

text \<open>What the loop of \<open>Start\<close> can select: an entry, the timer, or an end (context, stop, closed channel).\<close>

datatype 'e batch_event = BE_Entry 'e | BE_Timer | BE_End

fun batch_loop :: "'e batch_event list \<Rightarrow> 'e BatchedStreamer \<Rightarrow> 'e BatchedStreamer" where
  "batch_loop [] b = b"
| "batch_loop (BE_Entry e # evs) b = batch_loop evs (addToBatch e b)"
| "batch_loop (BE_Timer # evs) b = batch_loop evs (batch_flush b)"
| "batch_loop (BE_End # evs) b = batch_flush b"

section \<open>Files\<close>

record FileExportConfig =
  FC_Enabled :: bool
  FC_Directory :: string
  FC_FilePrefix :: string
  FC_MaxFileSize :: int
  FC_MaxAge :: duration
  FC_Compress :: bool

record FileExporter =
  FE_config :: FileExportConfig
  FE_file :: string
  FE_open :: bool
  FE_closed :: bool
  FE_count :: int
  FE_size :: int

text \<open>The directory: the lines of each file by its path.\<close>

type_synonym disk = "(string \<times> string list) list"

datatype sink_error = MarshalFailed | RotateFailed | WriteFailed | OpenFailed | UploadFailed | SendFailed | ReadDirFailed

definition file_name :: "(instant \<Rightarrow> string) \<Rightarrow> FileExportConfig \<Rightarrow> instant \<Rightarrow> string" where
  "file_name fmt_file cfg now =
     FC_Directory cfg @ ''/'' @ FC_FilePrefix cfg @ ''-'' @ fmt_file now @ (if FC_Compress cfg then ''.jsonl.gz'' else ''.jsonl'')"

definition file_lines :: "disk \<Rightarrow> string \<Rightarrow> string list" where
  "file_lines d path = (case map_of d path of None \<Rightarrow> [] | Some ls \<Rightarrow> ls)"

text \<open>\<open>openNewFile\<close>: the file is created, or continued when one of that name exists.\<close>

definition openNewFile ::
    "(instant \<Rightarrow> string) \<Rightarrow> instant \<Rightarrow> bool \<Rightarrow> FileExporter \<Rightarrow> disk \<Rightarrow> sink_error option \<times> FileExporter \<times> disk" where
  "openNewFile fmt_file now open_ok fe d =
     (let path = file_name fmt_file (FE_config fe) now
      in if \<not> open_ok then (Some OpenFailed, fe, d)
         else (None, fe\<lparr>FE_file := path, FE_open := True, FE_size := 0, FE_count := 0\<rparr>, AList.update path (file_lines d path) d))"

definition NewFileExporter ::
    "(instant \<Rightarrow> string) \<Rightarrow> instant \<Rightarrow> bool \<Rightarrow> FileExportConfig \<Rightarrow> disk \<Rightarrow> sink_error + (FileExporter option \<times> disk)" where
  "NewFileExporter fmt_file now open_ok cfg d =
     (if \<not> FC_Enabled cfg then Inr (None, d)
      else case openNewFile fmt_file now open_ok \<lparr>FE_config = cfg, FE_file = [], FE_open = False, FE_closed = False, FE_count = 0, FE_size = 0\<rparr> d of
             (Some err, fe, d') \<Rightarrow> Inl err
           | (None, fe, d') \<Rightarrow> Inr (Some fe, d'))"

text \<open>
  What the disk answers during an export: closing the old file, opening the next, writing. A file
  that is closed already cannot be closed again, and what is written to it is lost in the buffer.
\<close>

record disk_answers =
  DA_close :: bool
  DA_open :: bool
  DA_write :: bool

definition rotate ::
    "(instant \<Rightarrow> string) \<Rightarrow> instant \<Rightarrow> disk_answers \<Rightarrow> FileExporter \<Rightarrow> disk \<Rightarrow> sink_error option \<times> FileExporter \<times> disk" where
  "rotate fmt_file now da fe d =
     (if \<not> FE_open fe \<or> \<not> DA_close da then (Some WriteFailed, fe, d)
      else openNewFile fmt_file now (DA_open da) (fe\<lparr>FE_open := False\<rparr>) d)"

definition FileExporter_Export ::
    "json_env \<Rightarrow> (instant \<Rightarrow> string) \<Rightarrow> instant \<Rightarrow> disk_answers \<Rightarrow> Entry \<Rightarrow> FileExporter \<Rightarrow> disk
       \<Rightarrow> sink_error option \<times> FileExporter \<times> disk" where
  "FileExporter_Export js fmt_file now da entry fe d =
     (if FE_closed fe then (None, fe, d)
      else case json_Marshal js entry of
             None \<Rightarrow> (Some MarshalFailed, fe, d)
           | Some data \<Rightarrow>
               (case (if FE_size fe + int (length data + 1) > FC_MaxFileSize (FE_config fe)
                      then rotate fmt_file now da fe d else (None, fe, d)) of
                  (Some err, fe1, d1) \<Rightarrow> (Some RotateFailed, fe1, d1)
                | (None, fe1, d1) \<Rightarrow>
                    if \<not> DA_write da then (Some WriteFailed, fe1, d1)
                    else (None, fe1\<lparr>FE_size := FE_size fe1 + int (length data) + 1, FE_count := FE_count fe1 + 1\<rparr>,
                          if FE_open fe1 then AList.update (FE_file fe1) (file_lines d1 (FE_file fe1) @ [data]) d1 else d1)))"

fun FileExporter_ExportBatch ::
    "json_env \<Rightarrow> (instant \<Rightarrow> string) \<Rightarrow> (instant \<times> disk_answers \<times> Entry) list \<Rightarrow> FileExporter \<Rightarrow> disk
       \<Rightarrow> sink_error option \<times> FileExporter \<times> disk" where
  "FileExporter_ExportBatch js fmt_file [] fe d = (None, fe, d)"
| "FileExporter_ExportBatch js fmt_file ((now, da, e) # es) fe d =
     (case FileExporter_Export js fmt_file now da e fe d of
        (Some err, fe', d') \<Rightarrow> (Some err, fe', d')
      | (None, fe', d') \<Rightarrow> FileExporter_ExportBatch js fmt_file es fe' d')"

definition FileExporter_Close :: "bool \<Rightarrow> FileExporter \<Rightarrow> sink_error option \<times> FileExporter" where
  "FileExporter_Close close_ok fe =
     (if FE_closed fe then (None, fe)
      else (if close_ok then None else Some WriteFailed, fe\<lparr>FE_closed := True\<rparr>))"

text \<open>\<open>Cleanup\<close> removes every old file of the directory, given the modification times it reads.\<close>

definition FileExporter_Cleanup ::
    "instant \<Rightarrow> (string \<Rightarrow> instant option) \<Rightarrow> (string \<Rightarrow> bool) \<Rightarrow> bool \<Rightarrow> FileExporter \<Rightarrow> disk \<Rightarrow> sink_error option \<times> disk" where
  "FileExporter_Cleanup now mod_time remove_ok dir_ok fe d =
     (if FC_MaxAge (FE_config fe) \<le> 0 then (None, d)
      else if \<not> dir_ok then (Some ReadDirFailed, d)
      else (None, filter (\<lambda>(path, ls).
              \<not> (case mod_time path of None \<Rightarrow> False | Some t \<Rightarrow> t < now - FC_MaxAge (FE_config fe) \<and> remove_ok path)) d))"

section \<open>The object store\<close>

record S3ExportConfig =
  S3_Prefix :: string
  S3_BatchSize :: int
  S3_Compress :: bool
  S3_PartitionBy :: string

record S3Exporter =
  SX_config :: S3ExportConfig
  SX_buffer :: "Entry list"
  SX_closed :: bool
  SX_lastSync :: instant

text \<open>\<open>Time.Format\<close> with a layout, and \<open>path.Join\<close>, are arguments; objects are kept in upload order.\<close>

record s3_env =
  fmt_layout :: "string \<Rightarrow> instant \<Rightarrow> string"
  path_Join :: "string list \<Rightarrow> string"
  s3_json :: json_env

type_synonym objects = "(string \<times> Entry list) list"

definition NewS3Exporter :: "instant \<Rightarrow> S3ExportConfig \<Rightarrow> S3Exporter" where
  "NewS3Exporter now cfg = \<lparr>SX_config = cfg, SX_buffer = [], SX_closed = False, SX_lastSync = now\<rparr>"

definition generateKey :: "s3_env \<Rightarrow> S3ExportConfig \<Rightarrow> instant \<Rightarrow> string" where
  "generateKey env cfg t =
     (let partition = (if S3_PartitionBy cfg = ''hour'' then fmt_layout env ''2006/01/02/15'' t
                       else if S3_PartitionBy cfg = ''day'' then fmt_layout env ''2006/01/02'' t
                       else if S3_PartitionBy cfg = ''month'' then fmt_layout env ''2006/01'' t
                       else fmt_layout env ''2006/01/02/15'' t)
      in path_Join env [S3_Prefix cfg, partition,
           ''audit-'' @ fmt_layout env ''20060102T150405Z'' t @ (if S3_Compress cfg then ''.jsonl.gz'' else ''.jsonl'')])"

definition flushLocked :: "s3_env \<Rightarrow> instant \<Rightarrow> bool \<Rightarrow> S3Exporter \<Rightarrow> objects \<Rightarrow> sink_error option \<times> S3Exporter \<times> objects" where
  "flushLocked env now put_ok x objs =
     (if SX_buffer x = [] then (None, x, objs)
      else let entries = SX_buffer x; x1 = x\<lparr>SX_buffer := [], SX_lastSync := now\<rparr>;
               key = generateKey env (SX_config x) (AE_Timestamp (En_row (hd entries)))
           in if list_ex (\<lambda>e. json_Marshal (s3_json env) e = None) entries then (Some MarshalFailed, x1, objs)
              else if \<not> put_ok then (Some UploadFailed, x1\<lparr>SX_buffer := entries @ SX_buffer x1\<rparr>, objs)
              else (None, x1, objs @ [(key, entries)]))"

definition S3Exporter_Export ::
    "s3_env \<Rightarrow> instant \<Rightarrow> bool \<Rightarrow> Entry \<Rightarrow> S3Exporter \<Rightarrow> objects \<Rightarrow> sink_error option \<times> S3Exporter \<times> objects" where
  "S3Exporter_Export env now put_ok entry x objs =
     (if SX_closed x then (None, x, objs)
      else let x1 = x\<lparr>SX_buffer := SX_buffer x @ [entry]\<rparr>
           in if int (length (SX_buffer x1)) \<ge> S3_BatchSize (SX_config x1) then flushLocked env now put_ok x1 objs
              else (None, x1, objs))"

definition S3Exporter_Flush :: "s3_env \<Rightarrow> instant \<Rightarrow> bool \<Rightarrow> S3Exporter \<Rightarrow> objects \<Rightarrow> sink_error option \<times> S3Exporter \<times> objects" where
  "S3Exporter_Flush env now put_ok x objs = (if SX_closed x then (None, x, objs) else flushLocked env now put_ok x objs)"

text \<open>\<open>Close\<close> marks the exporter closed and then flushes it.\<close>

definition S3Exporter_Close :: "s3_env \<Rightarrow> instant \<Rightarrow> bool \<Rightarrow> S3Exporter \<Rightarrow> objects \<Rightarrow> sink_error option \<times> S3Exporter \<times> objects" where
  "S3Exporter_Close env now put_ok x objs =
     (if SX_closed x then (None, x, objs) else S3Exporter_Flush env now put_ok (x\<lparr>SX_closed := True\<rparr>) objs)"

section \<open>Syslog\<close>

record SyslogConfig =
  SC_Network :: string
  SC_Facility :: int
  SC_Tag :: string
  SC_Hostname :: string
  SC_MaxRetries :: int

record SyslogExporter =
  SE_config :: SyslogConfig
  SE_conn :: bool
  SE_closed :: bool

text \<open>\<open>string(s[i])\<close> turns the byte into a code point and encodes that in UTF-8.\<close>

definition byte_string :: "char \<Rightarrow> string" where
  "byte_string c = (let n = (of_char c :: nat) in if n < 128 then [c] else [char_of (192 + n div 64), char_of (128 + n mod 64)])"

text \<open>\<open>replaceAll\<close> is only called with one byte to replace.\<close>

fun replaceAll :: "string \<Rightarrow> char \<Rightarrow> string \<Rightarrow> string" where
  "replaceAll [] old new = []"
| "replaceAll (c # s) old new = (if c = old then new else byte_string c) @ replaceAll s old new"

definition escapeSDValue :: "string \<Rightarrow> string" where
  "escapeSDValue s =
     (let s1 = replaceAll s (CHR 0x5C) [CHR 0x5C, CHR 0x5C];
          s2 = replaceAll s1 (CHR 0x22) [CHR 0x5C, CHR 0x22]
      in replaceAll s2 (CHR '']'') [CHR 0x5C, CHR '']''])"

definition determineSeverity :: "AuditEntry \<Rightarrow> int" where
  "determineSeverity e =
     (if AF_Suspicious (AE_Flags e) \<or> AF_AlertTriggered (AE_Flags e) then 4
      else if AF_BreakGlass (AE_Flags e) then 5
      else if AE_Action e = ''DDL'' then 5
      else 6)"

definition sd_param :: "string \<Rightarrow> string \<Rightarrow> string" where
  "sd_param name v = '' '' @ name @ [CHR ''='', CHR 0x22] @ escapeSDValue v @ [CHR 0x22]"

definition sd_flag :: "string \<Rightarrow> bool \<Rightarrow> string" where
  "sd_flag name b = (if b then '' '' @ name @ [CHR ''='', CHR 0x22] @ ''true'' @ [CHR 0x22] else [])"

definition formatStructuredData :: "AuditEntry \<Rightarrow> string" where
  "formatStructuredData e =
     ''[bibd@0'' @ sd_param ''node_id'' (AE_NodeID e) @ sd_param ''op_id'' (AE_OperationID e)
     @ sd_param ''action'' (AE_Action e) @ sd_param ''role'' (AE_RoleUsed e)
     @ (if AE_JobID e \<noteq> [] then sd_param ''job_id'' (AE_JobID e) else [])
     @ (if AE_TableName e \<noteq> [] then sd_param ''table'' (AE_TableName e) else [])
     @ (if AE_Actor e \<noteq> [] then sd_param ''actor'' (AE_Actor e) else [])
     @ sd_flag ''suspicious'' (AF_Suspicious (AE_Flags e)) @ sd_flag ''rate_limited'' (AF_RateLimited (AE_Flags e))
     @ sd_flag ''break_glass'' (AF_BreakGlass (AE_Flags e)) @ '']''"

definition formatMessage :: "(instant \<Rightarrow> string) \<Rightarrow> SyslogExporter \<Rightarrow> AuditEntry \<Rightarrow> string" where
  "formatMessage fmt_time se e =
     ''<'' @ show_int (SC_Facility (SE_config se) * 8 + determineSeverity e) @ ''>1 ''
     @ strings_Join
         [fmt_time (AE_Timestamp e), if SC_Hostname (SE_config se) = [] then ''-'' else SC_Hostname (SE_config se),
          SC_Tag (SE_config se), ''-'', AE_OperationID e, formatStructuredData e,
          ''action='' @ AE_Action e, ''table='' @ AE_TableName e, ''role='' @ AE_RoleUsed e,
          ''rows='' @ show_int (AE_RowsAffected e), ''duration='' @ show_int (AE_DurationMS e) @ ''ms''] '' ''
     @ [CHR 0x0A]"

text \<open>Attempt \<open>i\<close> dials when there is no connection, then writes; both answers are arguments.\<close>

definition connectLocked :: "bool \<Rightarrow> SyslogConfig \<Rightarrow> bool" where
  "connectLocked dial_ok cfg \<longleftrightarrow> SC_Network cfg \<in> {''tcp'', ''udp'', ''unix''} \<and> dial_ok"

fun send_loop ::
    "(nat \<Rightarrow> bool) \<Rightarrow> (nat \<Rightarrow> bool) \<Rightarrow> SyslogConfig \<Rightarrow> string \<Rightarrow> nat \<Rightarrow> nat \<Rightarrow> bool \<Rightarrow> string list
       \<Rightarrow> sink_error option \<times> bool \<times> string list" where
  "send_loop dial write_ok cfg msg i 0 conn sent = (Some SendFailed, conn, sent)"
| "send_loop dial write_ok cfg msg i (Suc left) conn sent =
     (if \<not> conn \<and> \<not> connectLocked (dial i) cfg then send_loop dial write_ok cfg msg (Suc i) left False sent
      else if write_ok i then (None, True, sent @ [msg])
      else send_loop dial write_ok cfg msg (Suc i) left False sent)"

definition syslog_send ::
    "(nat \<Rightarrow> bool) \<Rightarrow> (nat \<Rightarrow> bool) \<Rightarrow> string \<Rightarrow> SyslogExporter \<Rightarrow> string list \<Rightarrow> sink_error option \<times> SyslogExporter \<times> string list" where
  "syslog_send dial write_ok msg se sent =
     (if SE_closed se then (Some SendFailed, se, sent)
      else case send_loop dial write_ok (SE_config se) msg 0 (nat (SC_MaxRetries (SE_config se) + 1)) (SE_conn se) sent of
             (err, conn, sent') \<Rightarrow> (err, se\<lparr>SE_conn := conn\<rparr>, sent'))"

definition SyslogExporter_Export ::
    "(instant \<Rightarrow> string) \<Rightarrow> (nat \<Rightarrow> bool) \<Rightarrow> (nat \<Rightarrow> bool) \<Rightarrow> AuditEntry \<Rightarrow> SyslogExporter \<Rightarrow> string list
       \<Rightarrow> sink_error option \<times> SyslogExporter \<times> string list" where
  "SyslogExporter_Export fmt_time dial write_ok e se sent =
     (if SE_closed se then (None, se, sent) else syslog_send dial write_ok (formatMessage fmt_time se e) se sent)"

definition SyslogExporter_Close :: "SyslogExporter \<Rightarrow> SyslogExporter" where
  "SyslogExporter_Close se = se\<lparr>SE_closed := True\<rparr>"

section \<open>The stream keeps the last entries and never panics\<close>

text \<open>Subscribers have names and channels of their own, and their channels are open.\<close>

definition stream_ok :: "'e Streamer \<Rightarrow> bool" where
  "stream_ok s \<longleftrightarrow>
     distinct (map fst (St_subscribers s)) \<and> distinct (map snd (St_subscribers s))
     \<and> (\<forall>n \<in> snd ` set (St_subscribers s). n < length (St_channels s) \<and> \<not> Ch_closed (St_channels s ! n))
     \<and> 0 < St_bufferSize s \<and> int (length (St_buffer s)) \<le> St_bufferSize s"

text \<open>What one send does to each channel.\<close>

definition offered :: "'e \<Rightarrow> 'e channel \<Rightarrow> 'e channel" where
  "offered e ch = (if length (Ch_queue ch) < Ch_cap ch then ch\<lparr>Ch_queue := Ch_queue ch @ [e]\<rparr> else ch)"

lemma send_all_ok:
  assumes "distinct ns" and "\<forall>n \<in> set ns. n < length chs \<and> \<not> Ch_closed (chs ! n)"
  shows "\<exists>chs'. send_all e ns chs = Some chs' \<and> length chs' = length chs
    \<and> (\<forall>m < length chs. chs' ! m = (if m \<in> set ns then offered e (chs ! m) else chs ! m))"
  using assms
proof (induction ns arbitrary: chs)
  case (Cons n ns)
  let ?chs = "chs[n := offered e (chs ! n)]"
  have send: "chan_send e n chs = Some ?chs"
    using Cons.prems by (simp add: chan_send_def offered_def Let_def)
  have "\<forall>m \<in> set ns. m < length ?chs \<and> \<not> Ch_closed (?chs ! m)"
    using Cons.prems by (auto simp: nth_list_update)
  from Cons.IH [OF _ this] Cons.prems(1) obtain chs' where "send_all e ns ?chs = Some chs'" "length chs' = length chs"
    "\<forall>m < length chs. chs' ! m = (if m \<in> set ns then offered e (?chs ! m) else ?chs ! m)" by auto
  then show ?case using send Cons.prems by (auto simp: nth_list_update)
qed simp

lemma Publish_ok:
  assumes "stream_ok s"
  shows "\<exists>s'. Publish e s = Some s' \<and> stream_ok s' \<and> St_subscribers s' = St_subscribers s \<and> St_closed s' = St_closed s
    \<and> St_bufferSize s' = St_bufferSize s \<and> length (St_channels s') = length (St_channels s)
    \<and> St_buffer s' = (if St_closed s then St_buffer s
         else drop (length (St_buffer s) + 1 - nat (St_bufferSize s)) (St_buffer s @ [e]))
    \<and> (\<forall>m < length (St_channels s). St_channels s' ! m
         = (if \<not> St_closed s \<and> m \<in> snd ` set (St_subscribers s) then offered e (St_channels s ! m) else St_channels s ! m))"
proof (cases "St_closed s")
  case False
  have "distinct (map snd (St_subscribers s))"
    and "\<forall>n \<in> set (map snd (St_subscribers s)). n < length (St_channels s) \<and> \<not> Ch_closed (St_channels s ! n)"
    using assms by (auto simp: stream_ok_def)
  from send_all_ok [OF this, of e] obtain chs where
    chs: "send_all e (map snd (St_subscribers s)) (St_channels s) = Some chs" "length chs = length (St_channels s)"
    "\<forall>m < length (St_channels s). chs ! m = (if m \<in> set (map snd (St_subscribers s)) then offered e (St_channels s ! m) else St_channels s ! m)"
    by blast
  let ?kept = "if int (length (St_buffer s)) \<ge> St_bufferSize s then tl (St_buffer s) else St_buffer s"
  have len: "int (length (St_buffer s)) \<le> St_bufferSize s" "0 < St_bufferSize s" using assms by (auto simp: stream_ok_def)
  have kept: "?kept @ [e] = drop (length (St_buffer s) + 1 - nat (St_bufferSize s)) (St_buffer s @ [e])"
  proof (cases "int (length (St_buffer s)) = St_bufferSize s")
    case True
    then have "length (St_buffer s) + 1 - nat (St_bufferSize s) = 1" "St_buffer s \<noteq> []" using len(2) by auto
    then show ?thesis using True by (cases "St_buffer s") simp_all
  next
    case False
    then have "length (St_buffer s) + 1 - nat (St_bufferSize s) = 0" "length (St_buffer s) < nat (St_bufferSize s)" using len by linarith+
    then show ?thesis using False len by simp
  qed
  have "Publish e s = Some (s\<lparr>St_buffer := ?kept @ [e], St_channels := chs\<rparr>)" using False chs(1) by (simp add: Publish_def Let_def)
  moreover have "stream_ok (s\<lparr>St_buffer := ?kept @ [e], St_channels := chs\<rparr>)"
    using assms chs len by (auto simp: stream_ok_def offered_def)
  ultimately show ?thesis using chs kept False by auto
qed (use assms in \<open>simp add: Publish_def\<close>)

lemma update_values: "snd ` set (AList.update k v xs) \<subseteq> insert v (snd ` set xs)"
  by (induction xs) auto

lemma distinct_update_values:
  "distinct (map snd xs) \<Longrightarrow> v \<notin> snd ` set xs \<Longrightarrow> distinct (map snd (AList.update k v xs))"
proof (induction xs)
  case (Cons kv xs)
  then show ?case using update_values [of k v xs] by (cases kv) force
qed simp

lemma Subscribe_ok:
  assumes "stream_ok s"
  shows "stream_ok (snd (Subscribe sid k s))"
proof -
  let ?n = "length (St_channels s)" and ?subs = "St_subscribers s"
  have ok: "distinct (map fst ?subs)" "distinct (map snd ?subs)" "\<forall>n \<in> snd ` set ?subs. n < ?n \<and> \<not> Ch_closed (St_channels s ! n)"
    using assms by (auto simp: stream_ok_def)
  have "?n \<notin> snd ` set ?subs" using ok(3) by fast
  then have "distinct (map snd (AList.update sid ?n ?subs))" by (rule distinct_update_values [OF ok(2)])
  moreover have "\<forall>n \<in> snd ` set (AList.update sid ?n ?subs). n < Suc ?n
      \<and> \<not> Ch_closed ((St_channels s @ [\<lparr>Ch_cap = c, Ch_queue = [], Ch_closed = False\<rparr>]) ! n)" for c
    using update_values [of sid ?n ?subs] ok(3) by (force simp: nth_append)
  ultimately show ?thesis
    using assms ok(1) by (simp add: stream_ok_def Subscribe_def Let_def distinct_update)
qed

lemma unsubscribe_ok:
  assumes "stream_ok s"
  shows "\<exists>s'. unsubscribe sid s = Some s' \<and> stream_ok s' \<and> St_buffer s' = St_buffer s \<and> St_closed s' = St_closed s
    \<and> St_bufferSize s' = St_bufferSize s \<and> length (St_channels s') = length (St_channels s)
    \<and> (\<forall>m < length (St_channels s). Ch_queue (St_channels s' ! m) = Ch_queue (St_channels s ! m))"
proof (cases "map_of (St_subscribers s) sid")
  case (Some n)
  let ?subs = "St_subscribers s"
  have ok: "distinct (map fst ?subs)" "distinct (map snd ?subs)"
    "\<forall>n \<in> snd ` set ?subs. n < length (St_channels s) \<and> \<not> Ch_closed (St_channels s ! n)"
    using assms by (auto simp: stream_ok_def)
  have mem: "(sid, n) \<in> set ?subs" using Some by (rule map_of_SomeD)
  then have n: "n < length (St_channels s)" "\<not> Ch_closed (St_channels s ! n)" using ok(3) by force+
  have rest: "m \<in> snd ` set ?subs" "m \<noteq> n" if m: "m \<in> snd ` set (AList.delete sid ?subs)" for m
  proof -
    obtain k where k: "(k, m) \<in> set ?subs" "k \<noteq> sid" using m by (auto simp: AList.delete_eq)
    then show "m \<in> snd ` set ?subs" by force
    show "m \<noteq> n"
    proof
      assume "m = n"
      then have "(k, n) = (sid, n)" using k mem ok(2) by (metis distinct_map inj_onD snd_conv)
      then show False using k by simp
    qed
  qed
  let ?chs = "(St_channels s)[n := (St_channels s ! n)\<lparr>Ch_closed := True\<rparr>]"
  let ?s = "s\<lparr>St_channels := ?chs, St_subscribers := AList.delete sid ?subs\<rparr>"
  have "distinct (map snd (AList.delete sid ?subs))" using ok(2) by (simp add: AList.delete_eq distinct_map_filter)
  moreover have "\<forall>m \<in> snd ` set (AList.delete sid ?subs). m < length ?chs \<and> \<not> Ch_closed (?chs ! m)"
  proof
    fix m
    assume m: "m \<in> snd ` set (AList.delete sid ?subs)"
    show "m < length ?chs \<and> \<not> Ch_closed (?chs ! m)" using rest [OF m] ok(3) by (simp del: ball_simps)
  qed
  ultimately have "stream_ok ?s" using assms by (simp add: stream_ok_def distinct_delete)
  moreover have "unsubscribe sid s = Some ?s" using Some n by (simp add: unsubscribe_def chan_close_def)
  ultimately show ?thesis using n by (auto simp: nth_list_update)
qed (use assms in \<open>simp add: unsubscribe_def\<close>)

lemma close_all_ok:
  assumes "distinct ns" and "\<forall>n \<in> set ns. n < length chs \<and> \<not> Ch_closed (chs ! n)"
  shows "\<exists>chs'. close_all ns chs = Some chs' \<and> length chs' = length chs
    \<and> (\<forall>m < length chs. Ch_queue (chs' ! m) = Ch_queue (chs ! m))"
  using assms
proof (induction ns arbitrary: chs)
  case (Cons n ns)
  let ?chs = "chs[n := (chs ! n)\<lparr>Ch_closed := True\<rparr>]"
  have c: "chan_close n chs = Some ?chs" using Cons.prems by (simp add: chan_close_def)
  have "\<forall>m \<in> set ns. m < length ?chs \<and> \<not> Ch_closed (?chs ! m)" using Cons.prems by (auto simp: nth_list_update)
  from Cons.IH [OF _ this] Cons.prems(1) show ?case using c Cons.prems(2) by (auto simp: nth_list_update)
qed simp

lemma Streamer_Close_ok:
  assumes "stream_ok s"
  shows "\<exists>s'. Streamer_Close s = Some s' \<and> stream_ok s' \<and> St_buffer s' = St_buffer s \<and> St_closed s'
    \<and> St_bufferSize s' = St_bufferSize s \<and> length (St_channels s') = length (St_channels s)
    \<and> (\<forall>m < length (St_channels s). Ch_queue (St_channels s' ! m) = Ch_queue (St_channels s ! m))"
proof (cases "St_closed s")
  case False
  have "distinct (map snd (St_subscribers s))"
    and "\<forall>n \<in> set (map snd (St_subscribers s)). n < length (St_channels s) \<and> \<not> Ch_closed (St_channels s ! n)"
    using assms by (auto simp: stream_ok_def)
  from close_all_ok [OF this] show ?thesis using False assms by (auto simp: Streamer_Close_def stream_ok_def)
qed (use assms in \<open>simp add: Streamer_Close_def\<close>)

section \<open>Histories of a stream\<close>

datatype 'e stream_op = SO_Publish 'e | SO_Subscribe string int | SO_Unsubscribe string | SO_Recv nat | SO_Close

text \<open>
  A stream with what was published while it was open and, for each channel, how much had been
  published when it was created and what its consumer has received.
\<close>

record 'e history =
  H_stream :: "'e Streamer"
  H_published :: "'e list"
  H_start :: "nat list"
  H_received :: "'e list list"

definition stream_step :: "'e stream_op \<Rightarrow> 'e history \<Rightarrow> 'e history option" where
  "stream_step op h =
     (case op of
        SO_Publish e \<Rightarrow>
          map_option (\<lambda>s. h\<lparr>H_stream := s, H_published := H_published h @ (if St_closed (H_stream h) then [] else [e])\<rparr>)
            (Publish e (H_stream h))
      | SO_Subscribe sid k \<Rightarrow>
          Some (h\<lparr>H_stream := snd (Subscribe sid k (H_stream h)), H_start := H_start h @ [length (H_published h)],
                  H_received := H_received h @ [[]]\<rparr>)
      | SO_Unsubscribe sid \<Rightarrow> map_option (\<lambda>s. h\<lparr>H_stream := s\<rparr>) (unsubscribe sid (H_stream h))
      | SO_Recv n \<Rightarrow>
          Some (if n < length (St_channels (H_stream h))
                then case chan_recv n (H_stream h) of
                       (None, s) \<Rightarrow> h
                     | (Some e, s) \<Rightarrow> h\<lparr>H_stream := s, H_received := (H_received h)[n := H_received h ! n @ [e]]\<rparr>
                else h)
      | SO_Close \<Rightarrow> map_option (\<lambda>s. h\<lparr>H_stream := s\<rparr>) (Streamer_Close (H_stream h)))"

fun run_stream :: "'e stream_op list \<Rightarrow> 'e history \<Rightarrow> 'e history option" where
  "run_stream [] h = Some h"
| "run_stream (op # ops) h = Option.bind (stream_step op h) (run_stream ops)"

definition new_history :: "int \<Rightarrow> 'e history" where
  "new_history n = \<lparr>H_stream = NewStreamer n, H_published = [], H_start = [], H_received = []\<rparr>"

definition delivered_ok :: "'e history \<Rightarrow> bool" where
  "delivered_ok h \<longleftrightarrow>
     length (H_start h) = length (St_channels (H_stream h)) \<and> length (H_received h) = length (St_channels (H_stream h))
     \<and> (\<forall>m < length (H_start h). H_start h ! m \<le> length (H_published h)
          \<and> subseq (H_received h ! m @ Ch_queue (St_channels (H_stream h) ! m)) (drop (H_start h ! m) (H_published h)))"

definition history_ok :: "'e history \<Rightarrow> bool" where
  "history_ok h \<longleftrightarrow>
     stream_ok (H_stream h) \<and> delivered_ok h
     \<and> St_buffer (H_stream h) = drop (length (H_published h) - nat (St_bufferSize (H_stream h))) (H_published h)"

lemma last_entries_snoc:
  assumes "0 < n"
  shows "drop (length (drop (length xs - n) xs) + 1 - n) (drop (length xs - n) xs @ [e]) = drop (length xs + 1 - n) (xs @ [e])"
proof (cases "n \<le> length xs")
  case True
  then show ?thesis using assms by (simp add: Suc_diff_le)
next
  case False
  then show ?thesis by simp
qed

lemma publish_history:
  assumes "history_ok h"
  shows "\<exists>h'. stream_step (SO_Publish e) h = Some h' \<and> history_ok h'"
proof -
  let ?s = "H_stream h" and ?pub = "H_published h"
  have ok: "stream_ok ?s" and del: "delivered_ok h"
    and buf: "St_buffer ?s = drop (length ?pub - nat (St_bufferSize ?s)) ?pub" using assms by (auto simp: history_ok_def)
  have pos: "0 < nat (St_bufferSize ?s)" using ok by (simp add: stream_ok_def)
  obtain s' where s': "Publish e ?s = Some s'" "stream_ok s'" "St_bufferSize s' = St_bufferSize ?s"
    "length (St_channels s') = length (St_channels ?s)"
    "St_buffer s' = (if St_closed ?s then St_buffer ?s else drop (length (St_buffer ?s) + 1 - nat (St_bufferSize ?s)) (St_buffer ?s @ [e]))"
    "\<forall>m < length (St_channels ?s). St_channels s' ! m
       = (if \<not> St_closed ?s \<and> m \<in> snd ` set (St_subscribers ?s) then offered e (St_channels ?s ! m) else St_channels ?s ! m)"
    using Publish_ok [OF ok, of e] by blast
  let ?new = "if St_closed ?s then [] else [e]"
  let ?h = "h\<lparr>H_stream := s', H_published := ?pub @ ?new\<rparr>"
  have "subseq (H_received h ! m @ Ch_queue (St_channels s' ! m)) (drop (H_start h ! m) (?pub @ ?new))
      \<and> H_start h ! m \<le> length (?pub @ ?new)" if m: "m < length (H_start h)" for m
  proof -
    have old: "subseq (H_received h ! m @ Ch_queue (St_channels ?s ! m)) (drop (H_start h ! m) ?pub)"
      and start: "H_start h ! m \<le> length ?pub" and ch: "m < length (St_channels ?s)" using del m by (auto simp: delivered_ok_def)
    have "subseq (H_received h ! m @ Ch_queue (St_channels s' ! m)) (drop (H_start h ! m) ?pub @ ?new)"
    proof (cases "Ch_queue (St_channels s' ! m) = Ch_queue (St_channels ?s ! m)")
      case True
      then show ?thesis using old by (simp add: list_emb_prefix)
    next
      case False
      then have "\<not> St_closed ?s" "Ch_queue (St_channels s' ! m) = Ch_queue (St_channels ?s ! m) @ [e]"
        using s'(6) ch by (auto simp: offered_def split: if_splits)
      then show ?thesis using list_emb_append_mono [OF old, of "[e]" "[e]"] by simp
    qed
    then show ?thesis using start by simp
  qed
  then have "delivered_ok ?h" using del s'(4) by (simp add: delivered_ok_def)
  moreover have "St_buffer s' = drop (length (?pub @ ?new) - nat (St_bufferSize ?s)) (?pub @ ?new)"
    using last_entries_snoc [OF pos, of ?pub e] s'(5) buf by simp
  ultimately have "history_ok ?h" using s'(2,3) by (simp add: history_ok_def)
  then show ?thesis using s'(1) by (intro exI [of _ ?h]) (simp add: stream_step_def)
qed

lemma quiet_history:
  assumes "history_ok h" and "stream_ok s'" and "St_buffer s' = St_buffer (H_stream h)" and "St_bufferSize s' = St_bufferSize (H_stream h)"
    and "length (St_channels s') = length (St_channels (H_stream h))"
    and "\<forall>m < length (St_channels (H_stream h)). Ch_queue (St_channels s' ! m) = Ch_queue (St_channels (H_stream h) ! m)"
  shows "history_ok (h\<lparr>H_stream := s'\<rparr>)"
  using assms by (simp add: history_ok_def delivered_ok_def)

lemma subscribe_history:
  assumes "history_ok h"
  shows "history_ok (h\<lparr>H_stream := snd (Subscribe sid k (H_stream h)), H_start := H_start h @ [length (H_published h)],
    H_received := H_received h @ [[]]\<rparr>)"
  using assms Subscribe_ok [of "H_stream h" sid k]
  by (auto simp: history_ok_def delivered_ok_def Subscribe_def Let_def nth_append less_Suc_eq)

lemma recv_history:
  assumes "history_ok h" and "n < length (St_channels (H_stream h))" and "Ch_queue (St_channels (H_stream h) ! n) = e # q"
  shows "history_ok (h\<lparr>H_stream := (H_stream h)\<lparr>St_channels := (St_channels (H_stream h))[n := (St_channels (H_stream h) ! n)\<lparr>Ch_queue := q\<rparr>]\<rparr>,
    H_received := (H_received h)[n := H_received h ! n @ [e]]\<rparr>)"
proof -
  let ?s = "H_stream h"
  let ?chs = "(St_channels ?s)[n := (St_channels ?s ! n)\<lparr>Ch_queue := q\<rparr>]"
  have "stream_ok (?s\<lparr>St_channels := ?chs\<rparr>)"
    using assms(1,2) by (auto simp: history_ok_def stream_ok_def nth_list_update)
  moreover have "(H_received h)[n := H_received h ! n @ [e]] ! m @ Ch_queue (?chs ! m) = H_received h ! m @ Ch_queue (St_channels ?s ! m)"
    if "m < length (St_channels ?s)" for m
    using assms that by (auto simp: nth_list_update history_ok_def delivered_ok_def)
  ultimately show ?thesis using assms(1) by (simp add: history_ok_def delivered_ok_def)
qed

lemma step_history: "history_ok h \<Longrightarrow> \<exists>h'. stream_step op h = Some h' \<and> history_ok h'"
proof (cases op)
  case (SO_Recv n)
  assume "history_ok h"
  then show ?thesis using SO_Recv recv_history [of h n]
    by (auto simp: stream_step_def chan_recv_def split: list.splits)
next
  case (SO_Unsubscribe sid)
  assume h: "history_ok h"
  then obtain s' where "unsubscribe sid (H_stream h) = Some s'" "history_ok (h\<lparr>H_stream := s'\<rparr>)"
    using unsubscribe_ok [of "H_stream h" sid] quiet_history [OF h] by (auto simp: history_ok_def)
  then show ?thesis using SO_Unsubscribe by (simp add: stream_step_def)
next
  case SO_Close
  assume h: "history_ok h"
  then obtain s' where "Streamer_Close (H_stream h) = Some s'" "history_ok (h\<lparr>H_stream := s'\<rparr>)"
    using Streamer_Close_ok [of "H_stream h"] quiet_history [OF h] by (auto simp: history_ok_def)
  then show ?thesis using SO_Close by (simp add: stream_step_def)
next
  case (SO_Subscribe sid k)
  assume "history_ok h"
  then show ?thesis using SO_Subscribe subscribe_history [of h sid k] by (simp add: stream_step_def)
qed (simp add: publish_history)

lemma run_history: "history_ok h \<Longrightarrow> \<exists>h'. run_stream ops h = Some h' \<and> history_ok h'"
proof (induction ops arbitrary: h)
  case (Cons op ops)
  obtain h1 where "stream_step op h = Some h1" "history_ok h1" using step_history [OF Cons.prems, of op] by blast
  then show ?case using Cons.IH [of h1] by simp
qed simp

lemma new_history_ok: "history_ok (new_history n)"
  by (simp add: history_ok_def stream_ok_def delivered_ok_def new_history_def NewStreamer_def)

section \<open>Batches\<close>

fun batch_entries :: "'e batch_event list \<Rightarrow> 'e list" where
  "batch_entries [] = []"
| "batch_entries (BE_Entry e # evs) = e # batch_entries evs"
| "batch_entries (BE_Timer # evs) = batch_entries evs"
| "batch_entries (BE_End # evs) = []"

definition batch_ok :: "'e BatchedStreamer \<Rightarrow> bool" where
  "batch_ok b \<longleftrightarrow>
     int (length (BS_batch b)) < BS_batchSize b
     \<and> (\<forall>xs \<in> set (BS_handled b). xs \<noteq> [] \<and> int (length xs) \<le> BS_batchSize b)"

lemma add_ok: "batch_ok b \<Longrightarrow> batch_ok (addToBatch e b)"
  by (auto simp: batch_ok_def addToBatch_def batch_flush_def Let_def)

lemma flush_concat: "concat (BS_handled (batch_flush b)) @ BS_batch (batch_flush b) = concat (BS_handled b) @ BS_batch b"
  by (simp add: batch_flush_def)

lemma add_concat: "concat (BS_handled (addToBatch e b)) @ BS_batch (addToBatch e b) = concat (BS_handled b) @ BS_batch b @ [e]"
  by (simp add: addToBatch_def batch_flush_def Let_def)

lemma sizes [simp]: "BS_batchSize (batch_flush b) = BS_batchSize b" "BS_batchSize (addToBatch e b) = BS_batchSize b"
  by (simp_all add: batch_flush_def addToBatch_def Let_def)

lemma batch_loop_exact:
  assumes "batch_ok b" and "0 < BS_batchSize b"
  shows "batch_ok (batch_loop evs b)
    \<and> concat (BS_handled (batch_loop evs b)) @ BS_batch (batch_loop evs b) = concat (BS_handled b) @ BS_batch b @ batch_entries evs
    \<and> (BE_End \<in> set evs \<longrightarrow> BS_batch (batch_loop evs b) = [])"
  using assms
proof (induction evs b rule: batch_loop.induct)
  case (2 e evs b)
  have "concat (BS_handled (addToBatch e b)) @ BS_batch (addToBatch e b) @ batch_entries evs
      = concat (BS_handled b) @ BS_batch b @ e # batch_entries evs"
    using add_concat [of e b] by (metis (no_types) append.assoc append.left_neutral append_Cons)
  note step = this
  have "0 < BS_batchSize (addToBatch e b)" using 2(3) by simp
  note IH = 2(1) [OF add_ok [OF 2(2)] this]
  show ?case using IH unfolding step by simp
next
  case (3 evs b)
  have ok: "batch_ok (batch_flush b)" using 3(2,3) by (auto simp: batch_ok_def batch_flush_def)
  have step: "concat (BS_handled (batch_flush b)) @ BS_batch (batch_flush b) @ batch_entries evs
      = concat (BS_handled b) @ BS_batch b @ batch_entries evs" by (metis append.assoc flush_concat)
  have "0 < BS_batchSize (batch_flush b)" using 3(3) by simp
  note IH = 3(1) [OF ok this]
  show ?case using IH unfolding step by simp
next
  case (4 evs b)
  then show ?case using flush_concat [of b] by (auto simp: batch_ok_def batch_flush_def)
qed simp

section \<open>Escaped values\<close>

text \<open>
  A reader of quoted values of RFC 5424: the value and the text behind the closing quote. It is
  strict about the bracket: one that is not escaped is not a value.
\<close>

fun read_value :: "string \<Rightarrow> (string \<times> string) option" where
  "read_value [] = None"
| "read_value (c # s) =
     (if c = CHR 0x22 then Some ([], s)
      else if c = CHR 0x5C \<and> s \<noteq> [] \<and> hd s \<in> {CHR 0x22, CHR 0x5C, CHR '']''}
        then map_option (\<lambda>(v, r). (hd s # v, r)) (read_value (tl s))
      else if c = CHR '']'' then None
      else map_option (\<lambda>(v, r). (c # v, r)) (read_value s))"

definition escaped :: "char \<Rightarrow> string" where
  "escaped c = (if c \<in> {CHR 0x22, CHR 0x5C, CHR '']''} then [CHR 0x5C, c] else [c])"

lemma replaceAll_append: "replaceAll (s @ t) old new = replaceAll s old new @ replaceAll t old new"
  by (induction s) auto

lemma escape_Cons: "ascii_char c \<Longrightarrow> escapeSDValue (c # s) = escaped c @ escapeSDValue s"
  by (simp add: escapeSDValue_def Let_def replaceAll_append escaped_def byte_string_def ascii_char_def)

lemma read_escaped: "read_value (escaped c @ s) = map_option (\<lambda>(v, r). (c # v, r)) (read_value s)"
  by (auto simp: escaped_def)

lemma read_escape:
  assumes "list_all ascii_char s"
  shows "read_value (escapeSDValue s @ CHR 0x22 # rest) = Some (s, rest)"
  using assms
proof (induction s)
  case Nil
  then show ?case by (simp add: escapeSDValue_def)
next
  case (Cons c s)
  then show ?case by (simp add: escape_Cons read_escaped)
qed

lemma send_loop_once:
  "send_loop dial write_ok cfg msg i k conn sent = (err, conn', sent') \<Longrightarrow>
     (err = None \<and> sent' = sent @ [msg]) \<or> (err = Some SendFailed \<and> sent' = sent)"
  by (induction k arbitrary: i conn) (auto split: if_splits)

lemma send_loop_succeeds:
  assumes "j < k" and "\<forall>m \<le> j. connectLocked (dial (i + m)) cfg" and "write_ok (i + j)"
  shows "fst (send_loop dial write_ok cfg msg i k conn sent) = None"
  using assms
proof (induction k arbitrary: i j conn)
  case (Suc k)
  show ?case
  proof (cases "write_ok i")
    case True
    then show ?thesis using Suc.prems(2) by (auto dest: spec [of _ 0])
  next
    case False
    then obtain j' where j: "j = Suc j'" using Suc.prems(3) by (cases j) auto
    have "\<forall>m \<le> j'. connectLocked (dial (Suc i + m)) cfg"
      using Suc.prems(2) j by (metis Suc_le_mono add_Suc add_Suc_right)
    then have "fst (send_loop dial write_ok cfg msg (Suc i) k c sent) = None" for c
      using Suc.IH [of j' "Suc i"] Suc.prems j by simp
    then show ?thesis using False by simp
  qed
qed simp

section \<open>The object store\<close>

datatype s3_op = S3_Export instant bool Entry | S3_FlushOp instant bool

definition s3_step :: "s3_env \<Rightarrow> s3_op \<Rightarrow> S3Exporter \<times> objects \<Rightarrow> S3Exporter \<times> objects" where
  "s3_step env op st =
     (case op of
        S3_Export now put_ok e \<Rightarrow> snd (S3Exporter_Export env now put_ok e (fst st) (snd st))
      | S3_FlushOp now put_ok \<Rightarrow> snd (S3Exporter_Flush env now put_ok (fst st) (snd st)))"

definition op_entries :: "s3_op \<Rightarrow> Entry list" where
  "op_entries op = (case op of S3_Export now put_ok e \<Rightarrow> [e] | S3_FlushOp now put_ok \<Rightarrow> [])"

text \<open>What the exporter holds: the uploaded objects in order, then its buffer.\<close>

definition s3_held :: "S3Exporter \<times> objects \<Rightarrow> Entry list" where
  "s3_held st = concat (map snd (snd st)) @ SX_buffer (fst st)"

lemma flushLocked_held:
  assumes "\<forall>e \<in> set (SX_buffer x). json_Marshal (s3_json env) e \<noteq> None"
  shows "s3_held (snd (flushLocked env now put_ok x objs)) = s3_held (x, objs)
    \<and> SX_closed (fst (snd (flushLocked env now put_ok x objs))) = SX_closed x
    \<and> set (SX_buffer (fst (snd (flushLocked env now put_ok x objs)))) \<subseteq> set (SX_buffer x)"
  using assms by (auto simp: flushLocked_def s3_held_def Let_def list_ex_iff)

lemma s3_step_held:
  assumes "\<not> SX_closed (fst st)" and "\<forall>e \<in> set (SX_buffer (fst st)) \<union> set (op_entries op). json_Marshal (s3_json env) e \<noteq> None"
  shows "s3_held (s3_step env op st) = s3_held st @ op_entries op \<and> \<not> SX_closed (fst (s3_step env op st))
    \<and> set (SX_buffer (fst (s3_step env op st))) \<subseteq> set (SX_buffer (fst st)) \<union> set (op_entries op)"
proof (cases op)
  case (S3_Export now put_ok e)
  let ?x = "(fst st)\<lparr>SX_buffer := SX_buffer (fst st) @ [e]\<rparr>"
  have f: "s3_held (snd (flushLocked env now put_ok ?x (snd st))) = s3_held (?x, snd st)
    \<and> SX_closed (fst (snd (flushLocked env now put_ok ?x (snd st)))) = SX_closed ?x
    \<and> set (SX_buffer (fst (snd (flushLocked env now put_ok ?x (snd st))))) \<subseteq> set (SX_buffer ?x)"
    using assms(2) S3_Export by (intro flushLocked_held) (auto simp: op_entries_def)
  then show ?thesis
    using assms(1) S3_Export by (auto simp: s3_step_def S3Exporter_Export_def op_entries_def Let_def s3_held_def)
next
  case (S3_FlushOp now put_ok)
  then show ?thesis
    using assms flushLocked_held [of "fst st" env now put_ok "snd st"]
    by (auto simp: s3_step_def S3Exporter_Flush_def op_entries_def)
qed

section \<open>Properties\<close>

text \<open>
  C35. Over any sequence of publications, subscriptions, cancellations, receptions and closings
  the stream never panics; its buffer holds exactly the last entries published, as many as its
  size; and what the consumer of a channel has received, followed by what waits for it, is a
  subsequence of what was published after its subscription: nothing is reordered, duplicated or
  made up.
\<close>

theorem stream_delivers:
  "\<exists>h. run_stream ops (new_history n) = Some h
    \<and> St_buffer (H_stream h) = drop (length (H_published h) - nat (St_bufferSize (H_stream h))) (H_published h)
    \<and> (\<forall>m < length (St_channels (H_stream h)).
         subseq (H_received h ! m @ Ch_queue (St_channels (H_stream h) ! m)) (drop (H_start h ! m) (H_published h)))"
  using run_history [OF new_history_ok, of ops n] by (auto simp: history_ok_def delivered_ok_def)

text \<open>
  At a buffer of two and a channel of one: of three entries published after the subscription the
  consumer gets the first and the third, the second came while its channel was full.
\<close>

theorem stream_delivers_witness:
  "\<exists>h. run_stream [SO_Publish 0, SO_Subscribe ''s'' 1, SO_Publish (1 :: int), SO_Publish 2, SO_Recv 0, SO_Publish 3]
         (new_history 2) = Some h
     \<and> St_buffer (H_stream h) = [2, 3] \<and> H_received h ! 0 @ Ch_queue (St_channels (H_stream h) ! 0) = [1, 3]
     \<and> subseq [1, 3] (drop (H_start h ! 0) (H_published h))"
proof -
  let ?ops = "[SO_Publish 0, SO_Subscribe ''s'' 1, SO_Publish (1 :: int), SO_Publish 2, SO_Recv 0, SO_Publish 3]"
  let ?h = "the (run_stream ?ops (new_history 2))"
  obtain h where h: "run_stream ?ops (new_history 2) = Some h"
    "St_buffer (H_stream h) = drop (length (H_published h) - nat (St_bufferSize (H_stream h))) (H_published h)"
    "\<forall>m < length (St_channels (H_stream h)).
       subseq (H_received h ! m @ Ch_queue (St_channels (H_stream h) ! m)) (drop (H_start h ! m) (H_published h))"
    using stream_delivers [of ?ops 2] by blast
  have "h = ?h" by (simp only: h(1) option.sel)
  moreover have "length (St_channels (H_stream ?h)) = 1" "H_published ?h = [0, 1, 2, 3]" "St_bufferSize (H_stream ?h) = 2"
    "H_received ?h ! 0 @ Ch_queue (St_channels (H_stream ?h) ! 0) = [1, 3]" by code_simp+
  ultimately show ?thesis using h by (auto simp: numeral_2_eq_2)
qed

text \<open>
  The batching consumer hands every entry to its handler, in order and once: the batches handled
  and the pending one together are the entries taken from the channel, no batch is empty or larger
  than the batch size, and nothing is pending after the loop has ended.
\<close>

theorem batches_lose_nothing:
  fixes b :: "'e BatchedStreamer"
  assumes "b = batch_loop evs (NewBatchedStreamer n)"
  shows "concat (BS_handled b) @ BS_batch b = batch_entries evs"
    and "\<forall>xs \<in> set (BS_handled b). xs \<noteq> [] \<and> int (length xs) \<le> BS_batchSize (NewBatchedStreamer n :: 'e BatchedStreamer)"
    and "BE_End \<in> set evs \<Longrightarrow> BS_batch b = []"
proof -
  have size: "BS_batchSize (batch_loop evs c) = BS_batchSize c" for c :: "'e BatchedStreamer"
    by (induction evs c rule: batch_loop.induct) auto
  have "batch_ok (NewBatchedStreamer n :: 'e BatchedStreamer)" "0 < BS_batchSize (NewBatchedStreamer n :: 'e BatchedStreamer)"
    by (auto simp: batch_ok_def NewBatchedStreamer_def)
  note exact = batch_loop_exact [OF this, of evs]
  show "concat (BS_handled b) @ BS_batch b = batch_entries evs" using exact assms by (simp add: NewBatchedStreamer_def)
  show "\<forall>xs \<in> set (BS_handled b). xs \<noteq> [] \<and> int (length xs) \<le> BS_batchSize (NewBatchedStreamer n :: 'e BatchedStreamer)"
    using exact assms size by (simp add: batch_ok_def)
  show "BE_End \<in> set evs \<Longrightarrow> BS_batch b = []" using exact assms by simp
qed

text \<open>
  A successful export to an open file appends exactly the rendered entry to the current file, leaves
  every other file alone, and keeps the size within the limit, unless the line alone exceeds it.
\<close>

theorem file_export_exact:
  assumes "\<not> FE_closed fe" and "FE_open fe" and "FileExporter_Export js fmt_file now da entry fe d = (None, fe', d')"
  shows "\<exists>data. json_Marshal js entry = Some data \<and> FE_open fe'
    \<and> file_lines d' (FE_file fe') = file_lines d (FE_file fe') @ [data]
    \<and> (\<forall>p. p \<noteq> FE_file fe' \<longrightarrow> file_lines d' p = file_lines d p)
    \<and> FE_size fe' \<le> max (FC_MaxFileSize (FE_config fe)) (int (length data) + 1)"
proof -
  obtain data where data: "json_Marshal js entry = Some data"
    using assms by (auto simp: FileExporter_Export_def split: option.splits)
  obtain fe1 d1 where r: "(if FE_size fe + int (length data + 1) > FC_MaxFileSize (FE_config fe)
      then rotate fmt_file now da fe d else (None, fe, d)) = (None, fe1, d1)"
    and out: "fe' = fe1\<lparr>FE_size := FE_size fe1 + int (length data) + 1, FE_count := FE_count fe1 + 1\<rparr>"
      "d' = (if FE_open fe1 then AList.update (FE_file fe1) (file_lines d1 (FE_file fe1) @ [data]) d1 else d1)"
    using assms data by (auto simp: FileExporter_Export_def split: prod.splits option.splits if_splits)
  have "file_lines d1 p = file_lines d p" for p
    using r by (auto simp: rotate_def openNewFile_def file_lines_def Let_def update_conv' split: if_splits option.splits)
  moreover have "FE_open fe1" "FE_size fe1 + int (length data) + 1 \<le> max (FC_MaxFileSize (FE_config fe)) (int (length data) + 1)"
    using r assms(2) by (auto simp: rotate_def openNewFile_def Let_def split: if_splits)
  moreover have "file_lines (AList.update (FE_file fe1) ls d1) p = (if p = FE_file fe1 then ls else file_lines d1 p)" for ls p
    by (simp add: file_lines_def update_conv')
  ultimately show ?thesis using data out by auto
qed

text \<open>
  The object store loses nothing while every entry can be rendered: after any sequence of exports
  and flushes, with uploads failing or not, the uploaded objects in order followed by the
  buffer are the exported entries in order.
\<close>

theorem uploads_lose_nothing:
  assumes "\<forall>op \<in> set ops. \<forall>e \<in> set (op_entries op). json_Marshal (s3_json env) e \<noteq> None"
  shows "s3_held (fold (s3_step env) ops (NewS3Exporter now cfg, [])) = concat (map op_entries ops)"
proof -
  have "s3_held (fold (s3_step env) ops st) = s3_held st @ concat (map op_entries ops)"
    if "\<not> SX_closed (fst st)" "\<forall>e \<in> set (SX_buffer (fst st)). json_Marshal (s3_json env) e \<noteq> None" for st
    using assms that
  proof (induction ops arbitrary: st)
    case (Cons op ops)
    have "s3_held (s3_step env op st) = s3_held st @ op_entries op \<and> \<not> SX_closed (fst (s3_step env op st))
        \<and> set (SX_buffer (fst (s3_step env op st))) \<subseteq> set (SX_buffer (fst st)) \<union> set (op_entries op)"
      using Cons.prems by (intro s3_step_held) auto
    moreover from this have "\<forall>e \<in> set (SX_buffer (fst (s3_step env op st))). json_Marshal (s3_json env) e \<noteq> None"
      using Cons.prems by fastforce
    ultimately show ?case using Cons.IH [of "s3_step env op st"] Cons.prems by simp
  qed simp
  then show ?thesis by (simp add: NewS3Exporter_def s3_held_def)
qed

text \<open>
  One entry that carries alerts destroys the batch it is in: it cannot be rendered, the buffer has
  been emptied already, and nothing is uploaded.
\<close>

theorem alert_entry_loses_batch:
  assumes "\<not> SX_closed x" and "S3_BatchSize (SX_config x) \<le> int (length (SX_buffer x)) + 1"
    and "(k, VAlerts n) \<in> set (En_Metadata a)" and "a \<in> set (SX_buffer x) \<union> {e}"
  shows "S3Exporter_Export env now put_ok e x objs = (Some MarshalFailed, x\<lparr>SX_buffer := [], SX_lastSync := now\<rparr>, objs)"
proof -
  have "json_Marshal (s3_json env) a = None" using assms(3) by (force simp: json_Marshal_def list_all_iff)
  then have "list_ex (\<lambda>e. json_Marshal (s3_json env) e = None) (SX_buffer x @ [e])" using assms(4) by (auto simp: list_ex_iff)
  then show ?thesis using assms(1,2) by (simp add: S3Exporter_Export_def flushLocked_def Let_def)
qed

text \<open>Closing the exporter never uploads what it still holds.\<close>

theorem close_drops_buffer:
  "S3Exporter_Close env now put_ok x objs = (None, x\<lparr>SX_closed := True\<rparr>, objs)"
  by (cases "SX_closed x") (auto simp: S3Exporter_Close_def S3Exporter_Flush_def)

text \<open>
  C36. A value in the structured data of a syslog message is read back: a reader of quoted values
  that starts behind the opening quote and refuses an unescaped bracket finds the value and stops
  at the closing quote, for every ASCII value and every text behind it.
\<close>

theorem syslog_values_readable:
  assumes "list_all ascii_char v"
  shows "\<exists>start. sd_param name v @ rest = '' '' @ name @ ''='' @ CHR 0x22 # start \<and> read_value start = Some (v, rest)"
  using read_escape [OF assms, of rest] by (simp add: sd_param_def)

theorem syslog_values_readable_witness:
  "\<exists>start. sd_param ''actor'' [CHR ''a'', CHR 0x22, CHR '']'', CHR 0x5C] @ '']''
     = '' actor='' @ CHR 0x22 # start \<and> read_value start = Some ([CHR ''a'', CHR 0x22, CHR '']'', CHR 0x5C], '']'')"
proof -
  have "list_all ascii_char [CHR ''a'', CHR 0x22, CHR '']'', CHR 0x5C]" by code_simp
  from syslog_values_readable [OF this, of "''actor''" "'']''"] show ?thesis by simp
qed

text \<open>Outside ASCII every byte is taken for a code point and encoded again, three times over.\<close>

theorem syslog_garbles_utf8: "escapeSDValue [CHR 0xE9] \<noteq> [CHR 0xE9] \<and> length (escapeSDValue [CHR 0xE9]) = 8"
  by code_simp

text \<open>
  A message is sent at most once, and it is sent when one of the attempts allowed by the retry
  limit can connect and write.
\<close>

theorem syslog_sends_once:
  assumes "\<not> SE_closed se" and "syslog_send dial write_ok msg se sent = (err, se', sent')"
  shows "sent' = sent @ (if err = None then [msg] else [])"
    and "int j \<le> SC_MaxRetries (SE_config se) \<Longrightarrow> \<forall>m \<le> j. connectLocked (dial m) (SE_config se) \<Longrightarrow> write_ok j \<Longrightarrow> err = None"
proof -
  obtain conn where run: "send_loop dial write_ok (SE_config se) msg 0 (nat (SC_MaxRetries (SE_config se) + 1)) (SE_conn se) sent = (err, conn, sent')"
    using assms by (auto simp: syslog_send_def split: prod.splits)
  show "sent' = sent @ (if err = None then [msg] else [])" using send_loop_once [OF run] by auto
  assume "int j \<le> SC_MaxRetries (SE_config se)" "\<forall>m \<le> j. connectLocked (dial m) (SE_config se)" "write_ok j"
  then show "err = None"
    using send_loop_succeeds [of j "nat (SC_MaxRetries (SE_config se) + 1)" dial 0 "SE_config se" write_ok msg "SE_conn se" sent] run by auto
qed

end
