(* ===== verification/Audit_Logger.thy ===== *)
theory Audit_Logger
  imports Audit_Alerts Audit_Sinks
begin

text \<open>
  The audit logger (\<open>internal/storage/audit/logger.go\<close>), which composes the redactor, the rate
  limiter, the alert detector, the hash chain, the repository, the stream and the exporters. The
  repository is an interface; its \<open>Log\<close> is the argument \<open>persist\<close>, with the clock and the
  database's answer of the call. \<open>None\<close> is a panic. Flags and hashes are set on the entry in the
  order of the code; errors of the exporters are dropped.

  Shown: an alert that asks for it blocks its actor at the rate limiter for the whole block
  duration, whatever is logged in between; the entries handed to the repository form one chain,
  whatever the repository does with them; one entry it refuses breaks the chain of the accepted
  ones, and every statement of no known kind has an action the table of the audit log rejects.
\<close>

section \<open>Definitions\<close>

record QueryInfo =
  QI_Query :: string
  QI_Args :: "go_any list"
  QI_StartTime :: instant
  QI_Duration :: duration
  QI_RowsAffected :: int
  QI_Error :: "string option"

record LoggerConfig =
  LC_Enabled :: bool
  LC_HashChain :: bool
  LC_Redact :: RedactorConfig
  LC_StreamBuffer :: int
  LC_Alerts :: AlertConfig
  LC_RateLimit :: RateLimitConfig

text \<open>The exporters that are configured, with the world they write to.\<close>

record sinks =
  Sk_syslog :: "SyslogExporter option"
  Sk_sent :: "string list"
  Sk_file :: "FileExporter option"
  Sk_disk :: disk
  Sk_s3 :: "S3Exporter option"
  Sk_objects :: objects

record 'r Logger =
  Lg_config :: LoggerConfig
  Lg_nodeID :: string
  Lg_redactor :: Redactor
  Lg_streamer :: "Entry Streamer"
  Lg_detector :: "AlertDetector option"
  Lg_limiter :: "limiters option"
  Lg_sinks :: sinks
  Lg_repository :: "'r option"
  Lg_hashChain :: bool
  Lg_lastHash :: string
  Lg_closed :: bool
  Lg_entryCount :: int

datatype logger_error = PersistFailed | DetectorFailed string | SinkFailed sink_error

record 'r log_env =
  LE_text :: unicode_text
  LE_compile :: "string \<Rightarrow> (string \<Rightarrow> bool) option"
  LE_sha256 :: "string \<Rightarrow> bytes"
  LE_fmt_time :: "instant \<Rightarrow> string"
  LE_fmt_file :: "instant \<Rightarrow> string"
  LE_alerts :: alert_env
  LE_s3 :: s3_env
  LE_refusal :: "refusal \<Rightarrow> string"
  LE_persist :: "instant \<Rightarrow> bool \<Rightarrow> AuditEntry \<Rightarrow> 'r \<Rightarrow> bool \<times> 'r"

text \<open>
  What one call reads of the outside: a fresh operation id, the clock of the limiter's keys, the
  readings of the rules, the clock of the callback for an alert, and the answers of the
  repository and the exporters.
\<close>

record outside =
  O_opID :: string
  O_limiter :: "nat \<Rightarrow> instant"
  O_rules :: "nat \<Rightarrow> reading"
  O_block :: "Alert \<Rightarrow> instant"
  O_now :: instant
  O_db_ok :: bool
  O_dial :: "nat \<Rightarrow> bool"
  O_write :: "nat \<Rightarrow> bool"
  O_disk :: disk_answers
  O_put_ok :: bool

definition no_sinks :: sinks where
  "no_sinks = \<lparr>Sk_syslog = None, Sk_sent = [], Sk_file = None, Sk_disk = [], Sk_s3 = None, Sk_objects = []\<rparr>"

text \<open>
  \<open>NewLogger\<close>; the exporters as their constructors made them, and the last hash the repository
  returns, are arguments. The limiter exists only when alerts are enabled.
\<close>

definition NewLogger ::
    "'r log_env \<Rightarrow> LoggerConfig \<Rightarrow> string \<Rightarrow> 'r option \<Rightarrow> string option \<Rightarrow> sink_error + sinks \<Rightarrow> logger_error + 'r Logger" where
  "NewLogger env cfg nodeID repo repo_last exporters =
     (let base = \<lparr>Lg_config = cfg, Lg_nodeID = nodeID, Lg_redactor = NewRedactor (LE_text env) (LE_compile env) (LC_Redact cfg),
                  Lg_streamer = NewStreamer (LC_StreamBuffer cfg), Lg_detector = None, Lg_limiter = None, Lg_sinks = no_sinks,
                  Lg_repository = repo, Lg_hashChain = LC_HashChain cfg, Lg_lastHash = [], Lg_closed = False, Lg_entryCount = 0\<rparr>
      in if \<not> LC_Enabled cfg then Inr (base\<lparr>Lg_closed := True, Lg_repository := None, Lg_hashChain := False\<rparr>)
         else case (if AC_Enabled (LC_Alerts cfg) then map_sum id Some (NewAlertDetector (LE_alerts env) (LC_Alerts cfg)) else Inr None) of
                Inl name \<Rightarrow> Inl (DetectorFailed name)
              | Inr det \<Rightarrow>
                  (case exporters of
                     Inl err \<Rightarrow> Inl (SinkFailed err)
                   | Inr sk \<Rightarrow>
                       Inr (base\<lparr>Lg_detector := det,
                                 Lg_limiter := (if det \<noteq> None \<and> Cfg_Enabled (LC_RateLimit cfg) then Some [] else None),
                                 Lg_sinks := sk,
                                 Lg_lastHash := (if LC_HashChain cfg \<and> repo \<noteq> None
                                                 then (case repo_last of Some h \<Rightarrow> h | None \<Rightarrow> []) else [])\<rparr>)))"

definition milliseconds :: "duration \<Rightarrow> int" where
  "milliseconds d = sgn d * (\<bar>d\<bar> div 1000000)"

definition no_flags :: AuditEntryFlags where
  "no_flags = \<lparr>AF_BreakGlass = False, AF_RateLimited = False, AF_Suspicious = False, AF_AlertTriggered = False\<rparr>"

definition createEntry :: "'r log_env \<Rightarrow> string \<Rightarrow> QueryInfo \<Rightarrow> string \<Rightarrow> string \<Rightarrow> string \<Rightarrow> 'r Logger \<Rightarrow> Entry" where
  "createEntry env opID info role source actor lg =
     (let u = LE_text env; (redactedQuery, redactedArgs) = RedactQuery u (Lg_redactor lg) (QI_Query info) (QI_Args info)
      in \<lparr>En_row = \<lparr>AE_ID = 0, AE_Timestamp = QI_StartTime info, AE_NodeID = Lg_nodeID lg, AE_JobID = [], AE_OperationID = opID,
            AE_RoleUsed = role, AE_Action = ParseAction u (QI_Query info), AE_TableName = ExtractTableName u (QI_Query info),
            AE_Query = redactedQuery, AE_QueryHash = HashQuery (LE_sha256 env) u (QI_Query info),
            AE_RowsAffected = QI_RowsAffected info, AE_DurationMS = milliseconds (QI_Duration info),
            AE_SourceComponent = source, AE_Actor = actor, AE_Metadata = [], AE_PrevHash = [], AE_EntryHash = [], AE_Flags = no_flags\<rparr>,
          En_Metadata = (if redactedArgs \<noteq> [] then [(''args'', VList redactedArgs)] else [])
            @ (case QI_Error info of None \<Rightarrow> [] | Some msg \<Rightarrow> [(''error'', VStr msg)])\<rparr>)"

definition CalculateHash :: "'r log_env \<Rightarrow> AuditEntry \<Rightarrow> string" where
  "CalculateHash env e = calculateEntryHash (LE_sha256 env) (LE_fmt_time env) e"

definition SetHashChain :: "'r log_env \<Rightarrow> string \<Rightarrow> AuditEntry \<Rightarrow> AuditEntry" where
  "SetHashChain env prevHash e =
     (let e1 = e\<lparr>AE_PrevHash := prevHash\<rparr> in e1\<lparr>AE_EntryHash := CalculateHash env e1\<rparr>)"

text \<open>The flags of an entry that the limiter refuses, and of one that raises alerts.\<close>

definition limited :: "'r log_env \<Rightarrow> refusal option \<Rightarrow> Entry \<Rightarrow> Entry" where
  "limited env res e =
     (case res of
        None \<Rightarrow> e
      | Some reason \<Rightarrow>
          e\<lparr>En_row := (En_row e)\<lparr>AE_Flags := (AE_Flags (En_row e))\<lparr>AF_RateLimited := True\<rparr>\<rparr>,
            En_Metadata := AList.update ''rate_limit_reason'' (VStr (LE_refusal env reason)) (En_Metadata e)\<rparr>)"

definition alerted :: "Alert list \<Rightarrow> Entry \<Rightarrow> Entry" where
  "alerted alerts e =
     (if alerts = [] then e
      else e\<lparr>En_row := (En_row e)\<lparr>AE_Flags := (AE_Flags (En_row e))\<lparr>AF_AlertTriggered := True, AF_Suspicious := True\<rparr>\<rparr>,
             En_Metadata := AList.update ''alerts'' (VAlerts (length alerts)) (En_Metadata e)\<rparr>)"

text \<open>The callback \<open>NewLogger\<close> registers when there is a limiter.\<close>

definition block_actor :: "RateLimitConfig \<Rightarrow> (Alert \<Rightarrow> instant) \<Rightarrow> Alert \<Rightarrow> limiters \<Rightarrow> limiters" where
  "block_actor cfg block_now alert lm =
     (if Al_TriggerRateLimit alert
      then TriggerBlock cfg (block_now alert) (''actor:'' @ AE_Actor (Al_Entry alert)) (Cfg_BlockDuration cfg) lm else lm)"

text \<open>The first half of \<open>Log\<close>: the entry with its flags, the alerts, and the state of limiter and detector.\<close>

definition check_entry :: "'r log_env \<Rightarrow> outside \<Rightarrow> Entry \<Rightarrow> 'r Logger \<Rightarrow> (Entry \<times> Alert list \<times> 'r Logger) option" where
  "check_entry env out e lg =
     (let rl = LC_RateLimit (Lg_config lg);
          (e1, lg1) = (case Lg_limiter lg of
                         None \<Rightarrow> (e, lg)
                       | Some lm \<Rightarrow> (case RateLimiter_Check rl (O_limiter out) (En_row e) lm of
                                       (res, lm') \<Rightarrow> (limited env res e, lg\<lparr>Lg_limiter := Some lm'\<rparr>)))
      in case Lg_detector lg1 of
           None \<Rightarrow> Some (e1, [], lg1)
         | Some d \<Rightarrow>
             (case Lg_limiter lg1 of
                None \<Rightarrow>
                  map_option (\<lambda>(alerts, d', u). (alerted alerts e1, alerts, lg1\<lparr>Lg_detector := Some d'\<rparr>))
                    (AlertDetector_Check (LE_alerts env) (O_rules out) (En_row e1) [] d ())
              | Some lm \<Rightarrow>
                  map_option (\<lambda>(alerts, d', lm'). (alerted alerts e1, alerts, lg1\<lparr>Lg_detector := Some d', Lg_limiter := Some lm'\<rparr>))
                    (AlertDetector_Check (LE_alerts env) (O_rules out) (En_row e1) [block_actor rl (O_block out)] d lm)))"

definition export_all :: "'r log_env \<Rightarrow> outside \<Rightarrow> Entry \<Rightarrow> sinks \<Rightarrow> sinks" where
  "export_all env out e sk =
     (let sk1 = (case Sk_syslog sk of
                   None \<Rightarrow> sk
                 | Some se \<Rightarrow> (case SyslogExporter_Export (LE_fmt_time env) (O_dial out) (O_write out) (En_row e) se (Sk_sent sk) of
                                (err, se', sent) \<Rightarrow> sk\<lparr>Sk_syslog := Some se', Sk_sent := sent\<rparr>));
          sk2 = (case Sk_file sk1 of
                   None \<Rightarrow> sk1
                 | Some fe \<Rightarrow> (case FileExporter_Export (s3_json (LE_s3 env)) (LE_fmt_file env) (O_now out) (O_disk out) e fe (Sk_disk sk1) of
                                (err, fe', d) \<Rightarrow> sk1\<lparr>Sk_file := Some fe', Sk_disk := d\<rparr>))
      in case Sk_s3 sk2 of
           None \<Rightarrow> sk2
         | Some x \<Rightarrow> (case S3Exporter_Export (LE_s3 env) (O_now out) (O_put_ok out) e x (Sk_objects sk2) of
                       (err, x', objs) \<Rightarrow> sk2\<lparr>Sk_s3 := Some x', Sk_objects := objs\<rparr>))"

text \<open>The second half, common to \<open>Log\<close> and \<open>LogEntry\<close>: chain, repository, stream, exporters.\<close>

definition seal :: "'r log_env \<Rightarrow> Entry \<Rightarrow> 'r Logger \<Rightarrow> Entry \<times> 'r Logger" where
  "seal env e lg =
     (let row = (if Lg_hashChain lg then SetHashChain env (Lg_lastHash lg) (En_row e)
                 else (En_row e)\<lparr>AE_EntryHash := CalculateHash env (En_row e)\<rparr>);
          lg1 = (if Lg_hashChain lg then lg\<lparr>Lg_lastHash := AE_EntryHash row\<rparr> else lg)
      in (e\<lparr>En_row := row\<rparr>, lg1\<lparr>Lg_entryCount := Lg_entryCount lg1 + 1\<rparr>))"

definition commit_entry :: "'r log_env \<Rightarrow> outside \<Rightarrow> Entry \<Rightarrow> 'r Logger \<Rightarrow> (logger_error option \<times> 'r Logger) option" where
  "commit_entry env out e0 lg0 =
     (let (e, lg) = seal env e0 lg0;
          (ok, lg1) = (case Lg_repository lg of
                         None \<Rightarrow> (True, lg)
                       | Some r \<Rightarrow> (case LE_persist env (O_now out) (O_db_ok out) (En_row e) r of
                                     (ok, r') \<Rightarrow> (ok, lg\<lparr>Lg_repository := Some r'\<rparr>)))
      in if \<not> ok then Some (Some PersistFailed, lg1)
         else case Publish e (Lg_streamer lg1) of
                None \<Rightarrow> None
              | Some st \<Rightarrow> Some (None, lg1\<lparr>Lg_streamer := st, Lg_sinks := export_all env out e (Lg_sinks lg1)\<rparr>))"

definition Logger_Log ::
    "'r log_env \<Rightarrow> outside \<Rightarrow> QueryInfo \<Rightarrow> string \<Rightarrow> string \<Rightarrow> string \<Rightarrow> 'r Logger \<Rightarrow> (logger_error option \<times> 'r Logger) option" where
  "Logger_Log env out info role source actor lg =
     (if Lg_closed lg \<or> \<not> LC_Enabled (Lg_config lg) then Some (None, lg)
      else case check_entry env out (createEntry env (O_opID out) info role source actor lg) lg of
             None \<Rightarrow> None
           | Some (e, alerts, lg1) \<Rightarrow> commit_entry env out e lg1)"

definition fill_entry :: "'r log_env \<Rightarrow> outside \<Rightarrow> Entry \<Rightarrow> 'r Logger \<Rightarrow> Entry" where
  "fill_entry env out entry lg =
     (let row = En_row entry;
          row1 = (if AE_Timestamp row = 0 then row\<lparr>AE_Timestamp := O_now out\<rparr> else row);
          row2 = (if AE_NodeID row1 = [] then row1\<lparr>AE_NodeID := Lg_nodeID lg\<rparr> else row1);
          row3 = (if AE_OperationID row2 = [] then row2\<lparr>AE_OperationID := O_opID out\<rparr> else row2)
      in entry\<lparr>En_row := row3, En_Metadata := RedactMetadata (LE_text env) (Lg_redactor lg) (En_Metadata entry)\<rparr>)"

definition Logger_LogEntry :: "'r log_env \<Rightarrow> outside \<Rightarrow> Entry \<Rightarrow> 'r Logger \<Rightarrow> (logger_error option \<times> 'r Logger) option" where
  "Logger_LogEntry env out entry lg =
     (if Lg_closed lg \<or> \<not> LC_Enabled (Lg_config lg) then Some (None, lg)
      else commit_entry env out (fill_entry env out entry lg) lg)"

text \<open>\<open>Close\<close>: an exporter that cannot be flushed leaves the stream and the exporters open.\<close>

definition Logger_Flush :: "'r log_env \<Rightarrow> outside \<Rightarrow> 'r Logger \<Rightarrow> logger_error option \<times> 'r Logger" where
  "Logger_Flush env out lg =
     (let sk = Lg_sinks lg
      in if (case Sk_file sk of None \<Rightarrow> False | Some fe \<Rightarrow> \<not> FE_closed fe \<and> \<not> DA_write (O_disk out)) then (Some (SinkFailed WriteFailed), lg)
         else case Sk_s3 sk of
                None \<Rightarrow> (None, lg)
              | Some x \<Rightarrow> (case S3Exporter_Flush (LE_s3 env) (O_now out) (O_put_ok out) x (Sk_objects sk) of
                            (err, x', objs) \<Rightarrow> (map_option SinkFailed err, lg\<lparr>Lg_sinks := sk\<lparr>Sk_s3 := Some x', Sk_objects := objs\<rparr>\<rparr>)))"

definition Logger_Close :: "'r log_env \<Rightarrow> outside \<Rightarrow> 'r Logger \<Rightarrow> (logger_error option \<times> 'r Logger) option" where
  "Logger_Close env out lg =
     (if Lg_closed lg then Some (None, lg)
      else case Logger_Flush env out (lg\<lparr>Lg_closed := True\<rparr>) of
             (Some err, lg1) \<Rightarrow> Some (Some err, lg1)
           | (None, lg1) \<Rightarrow>
               map_option (\<lambda>st.
                 let sk = Lg_sinks lg1;
                     sk1 = sk\<lparr>Sk_syslog := map_option SyslogExporter_Close (Sk_syslog sk),
                              Sk_file := map_option (\<lambda>fe. snd (FileExporter_Close (DA_close (O_disk out)) fe)) (Sk_file sk)\<rparr>;
                     sk2 = (case Sk_s3 sk1 of
                              None \<Rightarrow> sk1
                            | Some x \<Rightarrow> (case S3Exporter_Close (LE_s3 env) (O_now out) (O_put_ok out) x (Sk_objects sk1) of
                                          (err, x', objs) \<Rightarrow> sk1\<lparr>Sk_s3 := Some x', Sk_objects := objs\<rparr>))
                 in (None, lg1\<lparr>Lg_streamer := st, Lg_sinks := sk2\<rparr>))
                 (Streamer_Close (Lg_streamer lg1)))"

text \<open>Calls of the logger and their runs: the results in order, or a panic.\<close>

datatype logger_call = Call_Log outside QueryInfo string string string | Call_LogEntry outside Entry

definition log_call :: "'r log_env \<Rightarrow> logger_call \<Rightarrow> 'r Logger \<Rightarrow> (logger_error option \<times> 'r Logger) option" where
  "log_call env c lg =
     (case c of
        Call_Log out info role source actor \<Rightarrow> Logger_Log env out info role source actor lg
      | Call_LogEntry out e \<Rightarrow> Logger_LogEntry env out e lg)"

fun run_calls_log :: "'r log_env \<Rightarrow> logger_call list \<Rightarrow> 'r Logger \<Rightarrow> (logger_error option list \<times> 'r Logger) option" where
  "run_calls_log env [] lg = Some ([], lg)"
| "run_calls_log env (c # cs) lg =
     (case log_call env c lg of
        None \<Rightarrow> None
      | Some (res, lg1) \<Rightarrow> map_option (\<lambda>(rs, lg2). (res # rs, lg2)) (run_calls_log env cs lg1))"

section \<open>Blocks at the limiter\<close>

definition blocked_until :: "instant \<Rightarrow> string \<Rightarrow> limiters \<Rightarrow> bool" where
  "blocked_until u key lm \<longleftrightarrow>
     (\<exists>st v. map_of lm key = Some st \<and> LS_blocked st \<and> LS_blockUntil st = Some v \<and> u \<le> v)"

lemma checkKey_blocked:
  assumes "blocked_until u key lm" and "now < u"
  shows "fst (checkKey cfg now key e lm) \<noteq> None"
proof -
  obtain st v where "map_of lm key = Some st" "LS_blocked st" "LS_blockUntil st = Some v" "now < v"
    using assms by (force simp: blocked_until_def)
  then show ?thesis by (simp add: checkKey_def lookup_state_def check_state_def Let_def)
qed

lemma checkKey_keeps:
  assumes "blocked_until u k lm" and "now < u"
  shows "blocked_until u k (snd (checkKey cfg now key e lm))"
proof (cases "k = key")
  case True
  obtain st v where "map_of lm key = Some st" "LS_blocked st" "LS_blockUntil st = Some v" "now < v" "u \<le> v"
    using assms True by (force simp: blocked_until_def)
  then show ?thesis using True by (simp add: blocked_until_def checkKey_def lookup_state_def check_state_def Let_def update_conv')
next
  case False
  then show ?thesis using assms(1) checkKey_other [of k key cfg now e lm] by (simp add: blocked_until_def)
qed

lemma check_keys_blocked:
  assumes "blocked_until u k lm" and "\<forall>i. clk i < u"
  shows "blocked_until u k (snd (check_keys cfg clk e i keys lm)) \<and> (k \<in> set keys \<longrightarrow> fst (check_keys cfg clk e i keys lm) \<noteq> None)"
  using assms(1)
proof (induction keys arbitrary: i lm)
  case (Cons key keys)
  obtain res lm1 where c: "checkKey cfg (clk i) key e lm = (res, lm1)" by fastforce
  have now: "clk i < u" using assms(2) by simp
  have keep: "blocked_until u k lm1" using checkKey_keeps [OF Cons.prems now, of cfg key e] c by simp
  have own: "res \<noteq> None" if "k = key" using checkKey_blocked [OF _ now, of key lm cfg e] Cons.prems that c by simp
  show ?case
  proof (cases res)
    case None
    then show ?thesis using c Cons.IH [OF keep, of "Suc i"] own by auto
  next
    case (Some reason)
    then show ?thesis using c keep by simp
  qed
qed simp

lemma Check_blocked:
  assumes "blocked_until u (''actor:'' @ actor) lm" and "\<forall>i. clk i < u"
  shows "blocked_until u (''actor:'' @ actor) (snd (RateLimiter_Check cfg clk e lm))"
    and "counted cfg e \<Longrightarrow> AE_Actor e = actor \<Longrightarrow> actor \<noteq> [] \<Longrightarrow> fst (RateLimiter_Check cfg clk e lm) \<noteq> None"
proof -
  note b = check_keys_blocked [OF assms, of cfg e 0 "generateKeys e"]
  show "blocked_until u (''actor:'' @ actor) (snd (RateLimiter_Check cfg clk e lm))"
    using assms(1) b by (simp add: RateLimiter_Check_def)
  assume "counted cfg e" "AE_Actor e = actor" "actor \<noteq> []"
  then have "fst (check_keys cfg clk e 0 (generateKeys e) lm) \<noteq> None" using b by (simp add: generateKeys_def)
  then show "fst (RateLimiter_Check cfg clk e lm) \<noteq> None"
    using \<open>counted cfg e\<close> by (simp add: RateLimiter_Check_def counted_def)
qed

lemma TriggerBlock_blocks:
  "u \<le> now + dur \<Longrightarrow> blocked_until u key (TriggerBlock cfg now key dur lm)"
  "blocked_until u k lm \<Longrightarrow> u \<le> now + dur \<Longrightarrow> blocked_until u k (TriggerBlock cfg now key dur lm)"
  by (auto simp: blocked_until_def TriggerBlock_def update_conv')

lemma callbacks_keep:
  assumes "\<forall>a. u \<le> bn a + Cfg_BlockDuration cfg" and "blocked_until u k lm"
  shows "blocked_until u k (fold (triggerCallbacks [block_actor cfg bn]) alerts lm)"
  using assms(2)
proof (induction alerts arbitrary: lm)
  case (Cons a alerts)
  then show ?case using assms(1) by (auto simp: triggerCallbacks_def block_actor_def intro: TriggerBlock_blocks(2))
qed simp

lemma callbacks_block:
  assumes "\<forall>a. u \<le> bn a + Cfg_BlockDuration cfg" and "a \<in> set alerts" and "Al_TriggerRateLimit a"
  shows "blocked_until u (''actor:'' @ AE_Actor (Al_Entry a)) (fold (triggerCallbacks [block_actor cfg bn]) alerts lm)"
proof -
  obtain xs ys where split: "alerts = xs @ a # ys" using assms(2) by (meson split_list)
  let ?lm = "fold (triggerCallbacks [block_actor cfg bn]) xs lm"
  have "blocked_until u (''actor:'' @ AE_Actor (Al_Entry a)) (triggerCallbacks [block_actor cfg bn] a ?lm)"
    using assms(1,3) by (auto simp: triggerCallbacks_def block_actor_def intro: TriggerBlock_blocks(1))
  then show ?thesis using callbacks_keep [OF assms(1)] by (simp add: split)
qed

section \<open>Alerts of a check belong to its entry\<close>

lemma thresholds_entry: "check_thresholds env rds e i rules c = Some (as, c') \<Longrightarrow> \<forall>a \<in> set as. Al_Entry a = e"
proof (induction rules arbitrary: i c as)
  case (Cons rule rules)
  then obtain al c1 as1 where h: "(if TR_Enabled rule then checkThresholdRule env (rds i) e rule c else Some (None, c)) = Some (al, c1)"
    and t: "check_thresholds env rds e (Suc i) rules c1 = Some (as1, c')" and as: "as = (case al of None \<Rightarrow> as1 | Some a \<Rightarrow> a # as1)"
    by (auto split: option.splits)
  have "\<forall>a. al = Some a \<longrightarrow> Al_Entry a = e"
    using h by (auto simp: checkThresholdRule_def threshold_alert_def split: if_splits option.splits)
  then show ?case using Cons.IH [OF t] as by (auto split: option.splits)
qed simp

lemma cel_entry: "\<forall>a \<in> set (check_cel rds e i rules). Al_Entry a = e"
  by (induction rules arbitrary: i) (auto simp: checkCELRule_def split: option.splits if_splits)

lemma check_alerts:
  assumes "AlertDetector_Check env rds e cbs d s = Some (alerts, d', s')"
  shows "\<forall>a \<in> set alerts. Al_Entry a = e" and "s' = fold (triggerCallbacks cbs) alerts s"
proof -
  have "(\<forall>a \<in> set alerts. Al_Entry a = e) \<and> s' = fold (triggerCallbacks cbs) alerts s"
  proof (cases "AC_Enabled (AD_config d)")
    case True
    obtain found c where t: "check_thresholds env rds e 0 (AD_thresholdRules d) (AD_counters d) = Some (found, c)"
      using assms True by (cases "check_thresholds env rds e 0 (AD_thresholdRules d) (AD_counters d)") (auto simp: AlertDetector_Check_def)
    have "alerts = found @ check_cel rds e (length (AD_thresholdRules d)) (AD_celRules d)"
      and "s' = fold (triggerCallbacks cbs) (found @ check_cel rds e (length (AD_thresholdRules d)) (AD_celRules d)) s"
      using assms True t by (auto simp: AlertDetector_Check_def Let_def)
    then show ?thesis using thresholds_entry [OF t] cel_entry by (auto simp del: fold_append)
  next
    case False
    then show ?thesis using assms by (simp add: AlertDetector_Check_def)
  qed
  then show "\<forall>a \<in> set alerts. Al_Entry a = e" "s' = fold (triggerCallbacks cbs) alerts s" by blast+
qed

section \<open>One call\<close>

lemma limited_row: "AE_Actor (En_row (limited env res e)) = AE_Actor (En_row e)"
  by (simp add: limited_def split: option.splits)

lemma limited_flag: "res \<noteq> None \<Longrightarrow> AF_RateLimited (AE_Flags (En_row (limited env res e)))"
  by (auto simp: limited_def)

lemma alerted_flag: "AF_RateLimited (AE_Flags (En_row (alerted alerts e))) = AF_RateLimited (AE_Flags (En_row e))"
  by (simp add: alerted_def)

text \<open>The first half of a call on a logger with a limiter.\<close>

lemma check_entry_limiter:
  assumes "check_entry env out e lg = Some (e', alerts, lg')" and "Lg_limiter lg = Some lm"
  obtains lm' where "Lg_limiter lg' = Some (fold (triggerCallbacks [block_actor (LC_RateLimit (Lg_config lg)) (O_block out)]) alerts lm')"
    and "lm' = snd (RateLimiter_Check (LC_RateLimit (Lg_config lg)) (O_limiter out) (En_row e) lm)"
    and "fst (RateLimiter_Check (LC_RateLimit (Lg_config lg)) (O_limiter out) (En_row e) lm) \<noteq> None \<Longrightarrow> AF_RateLimited (AE_Flags (En_row e'))"
    and "\<forall>a \<in> set alerts. AE_Actor (Al_Entry a) = AE_Actor (En_row e)"
    and "Lg_config lg' = Lg_config lg"
proof -
  obtain res lm1 where c: "RateLimiter_Check (LC_RateLimit (Lg_config lg)) (O_limiter out) (En_row e) lm = (res, lm1)" by fastforce
  let ?e1 = "limited env res e" and ?cbs = "[block_actor (LC_RateLimit (Lg_config lg)) (O_block out)]"
  show ?thesis
  proof (cases "Lg_detector lg")
    case None
    then have out: "e' = ?e1" "alerts = []" "lg' = lg\<lparr>Lg_limiter := Some lm1\<rparr>"
      using assms c by (auto simp: check_entry_def Let_def)
    show ?thesis by (rule that [of lm1]) (simp_all add: out c limited_flag)
  next
    case (Some d)
    have step: "check_entry env out e lg =
        map_option (\<lambda>(alerts, d', lm'). (alerted alerts ?e1, alerts, lg\<lparr>Lg_detector := Some d', Lg_limiter := Some lm'\<rparr>))
          (AlertDetector_Check (LE_alerts env) (O_rules out) (En_row ?e1) ?cbs d lm1)"
      by (simp add: check_entry_def Let_def assms(2) c Some)
    obtain d' lm2 where k: "AlertDetector_Check (LE_alerts env) (O_rules out) (En_row ?e1) ?cbs d lm1 = Some (alerts, d', lm2)"
      and out: "e' = alerted alerts ?e1" "lg' = lg\<lparr>Lg_detector := Some d', Lg_limiter := Some lm2\<rparr>"
      using assms(1) unfolding step by (cases "AlertDetector_Check (LE_alerts env) (O_rules out) (En_row ?e1) ?cbs d lm1") auto
    show ?thesis
      using check_alerts [OF k] by (intro that [of lm1]) (simp_all add: out c limited_flag limited_row alerted_flag)
  qed
qed

lemma seal_frame [simp]:
  "Lg_limiter (snd (seal env e lg)) = Lg_limiter lg" "Lg_config (snd (seal env e lg)) = Lg_config lg"
  "Lg_repository (snd (seal env e lg)) = Lg_repository lg" "Lg_hashChain (snd (seal env e lg)) = Lg_hashChain lg"
  "Lg_closed (snd (seal env e lg)) = Lg_closed lg" "Lg_nodeID (snd (seal env e lg)) = Lg_nodeID lg"
  by (simp_all add: seal_def Let_def)

lemma commit_frame:
  assumes "commit_entry env out e lg = Some (res, lg')"
  shows "Lg_limiter lg' = Lg_limiter lg" and "Lg_config lg' = Lg_config lg" and "Lg_hashChain lg' = Lg_hashChain lg"
    and "Lg_closed lg' = Lg_closed lg" and "Lg_nodeID lg' = Lg_nodeID lg" and "Lg_lastHash lg' = Lg_lastHash (snd (seal env e lg))"
proof -
  obtain e1 lg1 where s: "seal env e lg = (e1, lg1)" by fastforce
  have f: "Lg_limiter lg1 = Lg_limiter lg" "Lg_config lg1 = Lg_config lg" "Lg_hashChain lg1 = Lg_hashChain lg"
    "Lg_closed lg1 = Lg_closed lg" "Lg_nodeID lg1 = Lg_nodeID lg" using seal_frame [of env e lg] s by simp_all
  have "Lg_limiter lg' = Lg_limiter lg1 \<and> Lg_config lg' = Lg_config lg1 \<and> Lg_hashChain lg' = Lg_hashChain lg1
      \<and> Lg_closed lg' = Lg_closed lg1 \<and> Lg_nodeID lg' = Lg_nodeID lg1 \<and> Lg_lastHash lg' = Lg_lastHash lg1"
    using assms by (auto simp: commit_entry_def Let_def s split: option.splits prod.splits if_splits)
  then show "Lg_limiter lg' = Lg_limiter lg" "Lg_config lg' = Lg_config lg" "Lg_hashChain lg' = Lg_hashChain lg"
    "Lg_closed lg' = Lg_closed lg" "Lg_nodeID lg' = Lg_nodeID lg" "Lg_lastHash lg' = Lg_lastHash (snd (seal env e lg))"
    using f s by simp_all
qed

section \<open>Runs keep a block\<close>

text \<open>The clock readings of a call while a block set at \<open>b\<close> lasts until \<open>u\<close>.\<close>

definition within_block :: "instant \<Rightarrow> instant \<Rightarrow> logger_call \<Rightarrow> bool" where
  "within_block b u c \<longleftrightarrow>
     (case c of
        Call_Log out info role source actor \<Rightarrow> (\<forall>i. O_limiter out i < u) \<and> (\<forall>a. b \<le> O_block out a)
      | Call_LogEntry out e \<Rightarrow> True)"

definition actor_blocked :: "instant \<Rightarrow> string \<Rightarrow> 'r Logger \<Rightarrow> bool" where
  "actor_blocked u actor lg \<longleftrightarrow> (\<exists>lm. Lg_limiter lg = Some lm \<and> blocked_until u (''actor:'' @ actor) lm)"

lemma check_entry_keeps:
  assumes "check_entry env out e lg = Some (e', alerts, lg')" and "actor_blocked u actor lg"
    and "\<forall>i. O_limiter out i < u" and "\<forall>a. u \<le> O_block out a + Cfg_BlockDuration (LC_RateLimit (Lg_config lg))"
  shows "actor_blocked u actor lg' \<and> Lg_config lg' = Lg_config lg"
    and "counted (LC_RateLimit (Lg_config lg)) (En_row e) \<Longrightarrow> AE_Actor (En_row e) = actor \<Longrightarrow> actor \<noteq> []
      \<Longrightarrow> AF_RateLimited (AE_Flags (En_row e'))"
proof -
  obtain lm where lm: "Lg_limiter lg = Some lm" "blocked_until u (''actor:'' @ actor) lm" using assms(2) by (auto simp: actor_blocked_def)
  obtain lm' where out: "Lg_limiter lg' = Some (fold (triggerCallbacks [block_actor (LC_RateLimit (Lg_config lg)) (O_block out)]) alerts lm')"
    "lm' = snd (RateLimiter_Check (LC_RateLimit (Lg_config lg)) (O_limiter out) (En_row e) lm)"
    "fst (RateLimiter_Check (LC_RateLimit (Lg_config lg)) (O_limiter out) (En_row e) lm) \<noteq> None \<Longrightarrow> AF_RateLimited (AE_Flags (En_row e'))"
    "Lg_config lg' = Lg_config lg"
    using check_entry_limiter [OF assms(1) lm(1)] by metis
  have "blocked_until u (''actor:'' @ actor) lm'" unfolding out(2) by (rule Check_blocked(1) [OF lm(2) assms(3)])
  from callbacks_keep [OF assms(4) this] show "actor_blocked u actor lg' \<and> Lg_config lg' = Lg_config lg"
    using out(1,4) by (simp add: actor_blocked_def)
  assume "counted (LC_RateLimit (Lg_config lg)) (En_row e)" "AE_Actor (En_row e) = actor" "actor \<noteq> []"
  then show "AF_RateLimited (AE_Flags (En_row e'))" using out(3) Check_blocked(2) [OF lm(2) assms(3)] by blast
qed

lemma log_call_keeps:
  assumes "log_call env c lg = Some (res, lg')" and "actor_blocked u actor lg"
    and "within_block b u c" and "u \<le> b + Cfg_BlockDuration (LC_RateLimit (Lg_config lg))"
  shows "actor_blocked u actor lg' \<and> Lg_config lg' = Lg_config lg"
proof (cases c)
  case (Call_Log out info role source a)
  let ?e = "createEntry env (O_opID out) info role source a lg"
  show ?thesis
  proof (cases "Lg_closed lg \<or> \<not> LC_Enabled (Lg_config lg)")
    case True
    then show ?thesis using assms(1,2) Call_Log by (auto simp: log_call_def Logger_Log_def)
  next
    case False
    then obtain e' alerts lg1 where ck: "check_entry env out ?e lg = Some (e', alerts, lg1)" "commit_entry env out e' lg1 = Some (res, lg')"
      using assms(1) Call_Log by (cases "check_entry env out ?e lg") (auto simp: log_call_def Logger_Log_def)
    have clocks: "\<forall>i. O_limiter out i < u" "\<forall>a. u \<le> O_block out a + Cfg_BlockDuration (LC_RateLimit (Lg_config lg))"
      using assms(3,4) Call_Log by (auto simp: within_block_def) (meson add_right_mono order_trans)
    show ?thesis
      using check_entry_keeps(1) [OF ck(1) assms(2) clocks] commit_frame(1,2) [OF ck(2)] by (simp add: actor_blocked_def)
  qed
next
  case (Call_LogEntry out e)
  show ?thesis
  proof (cases "Lg_closed lg \<or> \<not> LC_Enabled (Lg_config lg)")
    case True
    then show ?thesis using assms(1,2) Call_LogEntry by (auto simp: log_call_def Logger_LogEntry_def)
  next
    case False
    then obtain e' where cm: "commit_entry env out e' lg = Some (res, lg')"
      using assms(1) Call_LogEntry by (auto simp: log_call_def Logger_LogEntry_def Let_def)
    show ?thesis using assms(2) commit_frame(1,2) [OF cm] by (simp add: actor_blocked_def)
  qed
qed

lemma sql_run_keeps:
  assumes "run_calls_log env cs lg = Some (rs, lg')" and "actor_blocked u actor lg"
    and "\<forall>c \<in> set cs. within_block b u c" and "u \<le> b + Cfg_BlockDuration (LC_RateLimit (Lg_config lg))"
  shows "actor_blocked u actor lg' \<and> Lg_config lg' = Lg_config lg"
  using assms
proof (induction cs arbitrary: lg rs)
  case (Cons c cs)
  obtain res lg1 rs1 where c: "log_call env c lg = Some (res, lg1)" "run_calls_log env cs lg1 = Some (rs1, lg')"
    using Cons.prems(1) by (auto split: option.splits)
  have "actor_blocked u actor lg1 \<and> Lg_config lg1 = Lg_config lg"
    using log_call_keeps [OF c(1) Cons.prems(2) _ Cons.prems(4)] Cons.prems(3) by simp
  then show ?case using Cons.IH [OF c(2)] Cons.prems(3,4) by simp
qed simp

section \<open>The chain of the entries handed to the repository\<close>

text \<open>
  No code of the program connects the logger to a repository: \<open>Repository\<close> is an interface, and the
  statements here hold for every \<open>Log\<close> behind it. \<open>recorded\<close> notes beside the repository which
  entries it was handed and which of them it accepted.
\<close>

definition recorded ::
    "(instant \<Rightarrow> bool \<Rightarrow> AuditEntry \<Rightarrow> 'r \<Rightarrow> bool \<times> 'r)
     \<Rightarrow> instant \<Rightarrow> bool \<Rightarrow> AuditEntry \<Rightarrow> 'r \<times> (AuditEntry \<times> bool) list \<Rightarrow> bool \<times> 'r \<times> (AuditEntry \<times> bool) list" where
  "recorded persist now ok e rl =
     (case persist now ok e (fst rl) of (b, r') \<Rightarrow> (b, r', snd rl @ [(e, b)]))"

definition handed :: "('r \<times> (AuditEntry \<times> bool) list) Logger \<Rightarrow> AuditEntry list" where
  "handed lg = (case Lg_repository lg of None \<Rightarrow> [] | Some rl \<Rightarrow> map fst (snd rl))"

definition accepted :: "('r \<times> (AuditEntry \<times> bool) list) Logger \<Rightarrow> AuditEntry list" where
  "accepted lg = (case Lg_repository lg of None \<Rightarrow> [] | Some rl \<Rightarrow> map fst (filter snd (snd rl)))"

definition in_chain :: "('r \<times> (AuditEntry \<times> bool) list) log_env \<Rightarrow> string \<Rightarrow> ('r \<times> (AuditEntry \<times> bool) list) Logger \<Rightarrow> bool" where
  "in_chain env h lg \<longleftrightarrow> Lg_repository lg \<noteq> None
     \<and> linked AE_PrevHash AE_EntryHash (CalculateHash env) h (handed lg)
     \<and> Lg_lastHash lg = chain_tip AE_EntryHash h (handed lg)"

lemma commit_recorded:
  assumes "LE_persist env = recorded persist" and "Lg_hashChain lg" and "Lg_repository lg \<noteq> None"
    and "commit_entry env out e lg = Some (res, lg')" and "row = En_row (fst (seal env e lg))"
  shows "Lg_repository lg' \<noteq> None" and "handed lg' = handed lg @ [row]"
    and "accepted lg' = accepted lg @ (if res = None then [row] else [])"
    and "AE_PrevHash row = Lg_lastHash lg" and "AE_EntryHash row = CalculateHash env row" and "Lg_lastHash lg' = AE_EntryHash row"
proof -
  obtain rl where rl: "Lg_repository lg = Some rl" using assms(3) by blast
  obtain b r' where p: "persist (O_now out) (O_db_ok out) row (fst rl) = (b, r')" by fastforce
  obtain e1 lg1 where s: "seal env e lg = (e1, lg1)" by fastforce
  have lg1: "Lg_repository lg1 = Some rl" "row = En_row e1" using seal_frame(3) [of env e lg] rl s assms(5) by simp_all
  have "Lg_repository lg' = Some (r', snd rl @ [(row, b)]) \<and> (res = None \<longleftrightarrow> b)"
    using assms(1,4) p lg1 by (auto simp: commit_entry_def s Let_def recorded_def split: option.splits if_splits)
  then show "Lg_repository lg' \<noteq> None" "handed lg' = handed lg @ [row]"
      "accepted lg' = accepted lg @ (if res = None then [row] else [])"
    by (auto simp: handed_def accepted_def rl)
  show "AE_PrevHash row = Lg_lastHash lg" "AE_EntryHash row = CalculateHash env row" "Lg_lastHash lg' = AE_EntryHash row"
    using assms(2) commit_frame(6) [OF assms(4)]
    by (simp_all add: assms(5) seal_def SetHashChain_def Let_def CalculateHash_def hash_ignores_own)
qed

lemma check_entry_frame:
  assumes "check_entry env out e lg = Some (e', alerts, lg')"
  shows "AE_Action (En_row e') = AE_Action (En_row e)"
    and "Lg_repository lg' = Lg_repository lg" and "Lg_lastHash lg' = Lg_lastHash lg" and "Lg_hashChain lg' = Lg_hashChain lg"
proof -
  have keep: "AE_Action (En_row (alerted as x)) = AE_Action (En_row x)" "AE_Action (En_row (limited env res x)) = AE_Action (En_row x)"
    for as res x by (auto simp: alerted_def limited_def split: option.splits)
  have "AE_Action (En_row e') = AE_Action (En_row e)
      \<and> Lg_repository lg' = Lg_repository lg \<and> Lg_lastHash lg' = Lg_lastHash lg \<and> Lg_hashChain lg' = Lg_hashChain lg"
    using assms by (auto simp: check_entry_def Let_def keep split: option.splits prod.splits)
  then show "AE_Action (En_row e') = AE_Action (En_row e)"
    "Lg_repository lg' = Lg_repository lg" "Lg_lastHash lg' = Lg_lastHash lg" "Lg_hashChain lg' = Lg_hashChain lg" by blast+
qed

text \<open>A call does nothing, or seals and commits one entry.\<close>

lemma log_call_parts:
  assumes "log_call env c lg = Some (res, lg')"
  obtains "lg' = lg" and "res = None"
  | out e lg1 where "commit_entry env out e lg1 = Some (res, lg')" and "Lg_repository lg1 = Lg_repository lg"
      and "Lg_lastHash lg1 = Lg_lastHash lg" and "Lg_hashChain lg1 = Lg_hashChain lg"
proof (cases "Lg_closed lg \<or> \<not> LC_Enabled (Lg_config lg)")
  case True
  then show ?thesis using assms that(1) by (cases c) (auto simp: log_call_def Logger_Log_def Logger_LogEntry_def)
next
  case False
  show ?thesis
  proof (cases c)
    case (Call_Log out info role source a)
    let ?e = "createEntry env (O_opID out) info role source a lg"
    obtain e' alerts lg1 where ck: "check_entry env out ?e lg = Some (e', alerts, lg1)" "commit_entry env out e' lg1 = Some (res, lg')"
      using assms False Call_Log by (cases "check_entry env out ?e lg") (auto simp: log_call_def Logger_Log_def)
    show ?thesis using that(2) [OF ck(2)] check_entry_frame [OF ck(1)] by simp
  next
    case (Call_LogEntry out e)
    have "commit_entry env out (fill_entry env out e lg) lg = Some (res, lg')"
      using assms False Call_LogEntry by (simp add: log_call_def Logger_LogEntry_def)
    then show ?thesis using that(2) by blast
  qed
qed

lemma commit_chain:
  assumes "LE_persist env = recorded persist" and "Lg_hashChain lg" and "in_chain env h lg"
    and "commit_entry env out e lg = Some (res, lg')"
  shows "in_chain env h lg'"
  using assms(3) commit_recorded [OF assms(1,2) _ assms(4) refl]
  by (simp add: in_chain_def linked_append chain_tip_def)

lemma call_chain:
  assumes "LE_persist env = recorded persist" and "log_call env c lg = Some (res, lg')"
    and "Lg_hashChain lg" and "in_chain env h lg"
  shows "Lg_hashChain lg' \<and> in_chain env h lg' \<and> (res = None \<and> accepted lg = handed lg \<longrightarrow> accepted lg' = handed lg')"
  using assms(2)
proof (rule log_call_parts)
  assume "lg' = lg"
  then show ?thesis using assms by simp
next
  fix out e lg1
  assume cm: "commit_entry env out e lg1 = Some (res, lg')"
    and same: "Lg_repository lg1 = Lg_repository lg" "Lg_lastHash lg1 = Lg_lastHash lg" "Lg_hashChain lg1 = Lg_hashChain lg"
  have h: "handed lg1 = handed lg" "accepted lg1 = accepted lg" using same by (simp_all add: handed_def accepted_def)
  have lg1: "in_chain env h lg1" "Lg_hashChain lg1" using assms(3,4) same h by (simp_all add: in_chain_def)
  show ?thesis
    using commit_chain [OF assms(1) lg1(2,1) cm] commit_frame(3) [OF cm] lg1 h
      commit_recorded(2,3) [OF assms(1) lg1(2) _ cm refl]
    by (auto simp: in_chain_def)
qed

lemma run_chain:
  assumes "LE_persist env = recorded persist" and "run_calls_log env cs lg = Some (rs, lg')"
    and "Lg_hashChain lg" and "in_chain env h lg"
  shows "in_chain env h lg' \<and> (set rs \<subseteq> {None} \<and> accepted lg = handed lg \<longrightarrow> accepted lg' = handed lg')"
  using assms(2-4)
proof (induction cs arbitrary: lg rs)
  case (Cons c cs)
  obtain res lg1 rs1 where c: "log_call env c lg = Some (res, lg1)" "run_calls_log env cs lg1 = Some (rs1, lg')" "rs = res # rs1"
    using Cons.prems(1) by (auto split: option.splits)
  then show ?case using call_chain [OF assms(1) c(1) Cons.prems(2,3)] Cons.IH [OF c(2)] by auto
qed simp

section \<open>A sample logger\<close>

definition length_digest :: "string \<Rightarrow> bytes" where
  "length_digest s = [of_int (int (length s))]"

text \<open>A repository that accepts an entry when the database answers.\<close>

definition sample_log_env :: "(unit \<times> (AuditEntry \<times> bool) list) log_env" where
  "sample_log_env =
     \<lparr>LE_text = plain_text, LE_compile = (\<lambda>p. None), LE_sha256 = length_digest, LE_fmt_time = show_int, LE_fmt_file = (\<lambda>t. ''f''),
      LE_alerts = sample_alert_env,
      LE_s3 = \<lparr>fmt_layout = (\<lambda>l t. ''t''), path_Join = concat, s3_json = \<lparr>json_other = (\<lambda>s. True), json_text = (\<lambda>e. ''{}'')\<rparr>\<rparr>,
      LE_refusal = (\<lambda>r. ''limit''), LE_persist = recorded (\<lambda>now ok e r. (ok, r))\<rparr>"

definition sample_log_config :: LoggerConfig where
  "sample_log_config =
     \<lparr>LC_Enabled = True, LC_HashChain = True, LC_Redact = \<lparr>RC_SensitiveFields = [''key''], RC_AdditionalPatterns = [], RC_ParameterPlaceholder = ''#''\<rparr>,
      LC_StreamBuffer = 10,
      LC_Alerts = sample_rules\<lparr>AC_ThresholdRules := map (\<lambda>r. r\<lparr>TR_Threshold := 1\<rparr>) (AC_ThresholdRules sample_rules)\<rparr>,
      LC_RateLimit = DefaultRateLimitConfig\<rparr>"

definition sample_logger :: "logger_error + (unit \<times> (AuditEntry \<times> bool) list) Logger" where
  "sample_logger = NewLogger sample_log_env sample_log_config ''n'' (Some ((), [])) (Some ''h0'') (Inr no_sinks)"

definition sample_outside :: "instant \<Rightarrow> outside" where
  "sample_outside t =
     \<lparr>O_opID = ''op'', O_limiter = (\<lambda>i. t), O_rules = at_time t, O_block = (\<lambda>a. t), O_now = t, O_db_ok = True,
      O_dial = (\<lambda>i. True), O_write = (\<lambda>i. True), O_disk = \<lparr>DA_close = True, DA_open = True, DA_write = True\<rparr>, O_put_ok = True\<rparr>"

definition sample_query :: "string \<Rightarrow> instant \<Rightarrow> QueryInfo" where
  "sample_query q t = \<lparr>QI_Query = q, QI_Args = [], QI_StartTime = t, QI_Duration = 0, QI_RowsAffected = 1, QI_Error = None\<rparr>"

definition sample_created :: "instant \<Rightarrow> (unit \<times> (AuditEntry \<times> bool) list) Logger \<Rightarrow> Entry" where
  "sample_created t lg = createEntry sample_log_env ''op'' (sample_query ''DROP'' t) ''w'' ''s'' ''eve'' lg"

section \<open>Properties\<close>

text \<open>
  C19. An alert takes effect: when logging a statement raises an alert that asks for rate
  limiting, then for the block duration, counted from the earliest clock reading of a callback,
  every further statement of the same actor is flagged as rate limited, whatever was logged in
  between, by whom, and with whatever further alerts, as long as the actor has a name and the role
  is not exempt.
\<close>

theorem alert_blocks_actor:
  assumes "check_entry env out e lg = Some (e', alerts, lg1)" and "commit_entry env out e' lg1 = Some (res, lg2)"
    and "Lg_limiter lg \<noteq> None" and "a \<in> set alerts" and "Al_TriggerRateLimit a" and "AE_Actor (En_row e) = actor" and "actor \<noteq> []"
    and "\<forall>x. b \<le> O_block out x" and "u = b + Cfg_BlockDuration (LC_RateLimit (Lg_config lg))"
    and "run_calls_log env cs lg2 = Some (rs, lg3)" and "\<forall>c \<in> set cs. within_block b u c"
    and "within_block b u (Call_Log out' info role source actor)"
    and "counted (LC_RateLimit (Lg_config lg)) (En_row (createEntry env (O_opID out') info role source actor lg3))"
    and "check_entry env out' (createEntry env (O_opID out') info role source actor lg3) lg3 = Some (e'', alerts'', lg4)"
  shows "AF_RateLimited (AE_Flags (En_row e''))"
proof -
  let ?cfg = "LC_RateLimit (Lg_config lg)"
  obtain lm where lm: "Lg_limiter lg = Some lm" using assms(3) by blast
  obtain lm' where out: "Lg_limiter lg1 = Some (fold (triggerCallbacks [block_actor ?cfg (O_block out)]) alerts lm')"
    "\<forall>a \<in> set alerts. AE_Actor (Al_Entry a) = AE_Actor (En_row e)" "Lg_config lg1 = Lg_config lg"
    using check_entry_limiter [OF assms(1) lm] by metis
  have later: "\<forall>x. u \<le> O_block out x + Cfg_BlockDuration ?cfg" using assms(8,9) by simp
  have "actor_blocked u actor lg1"
    using callbacks_block [OF later assms(4,5), of lm'] out assms(4,6) by (simp add: actor_blocked_def)
  then have "actor_blocked u actor lg2" "Lg_config lg2 = Lg_config lg"
    using commit_frame(1,2) [OF assms(2)] out(3) by (simp_all add: actor_blocked_def)
  then have lg3: "actor_blocked u actor lg3 \<and> Lg_config lg3 = Lg_config lg"
    using sql_run_keeps [OF assms(10) _ assms(11)] assms(9) by simp
  have clocks: "\<forall>i. O_limiter out' i < u" "\<forall>x. u \<le> O_block out' x + Cfg_BlockDuration (LC_RateLimit (Lg_config lg3))"
    using assms(9,12) lg3 by (simp_all add: within_block_def)
  have "AE_Actor (En_row (createEntry env (O_opID out') info role source actor lg3)) = actor"
    by (simp add: createEntry_def Let_def split: prod.splits)
  then show ?thesis using check_entry_keeps(2) [OF assms(14) conjunct1 [OF lg3] clocks] lg3 assms(7,13) by simp
qed

theorem alert_blocks_actor_witness:
  "\<exists>lg e' alerts lg1 res lg2 e'' alerts'' lg4. sample_logger = Inr lg
    \<and> check_entry sample_log_env (sample_outside 5) (sample_created 5 lg) lg = Some (e', alerts, lg1)
    \<and> commit_entry sample_log_env (sample_outside 5) e' lg1 = Some (res, lg2)
    \<and> check_entry sample_log_env (sample_outside 9) (sample_created 9 lg2) lg2 = Some (e'', alerts'', lg4)
    \<and> AF_RateLimited (AE_Flags (En_row e''))"
proof -
  have ran: "(case sample_logger of Inl err \<Rightarrow> False | Inr lg \<Rightarrow>
      (case check_entry sample_log_env (sample_outside 5) (sample_created 5 lg) lg of None \<Rightarrow> False | Some (e', alerts, lg1) \<Rightarrow>
         Lg_limiter lg \<noteq> None \<and> list_ex Al_TriggerRateLimit alerts
         \<and> (case commit_entry sample_log_env (sample_outside 5) e' lg1 of None \<Rightarrow> False | Some (res, lg2) \<Rightarrow>
              check_entry sample_log_env (sample_outside 9) (sample_created 9 lg2) lg2 \<noteq> None)))" by code_simp
  then obtain lg e' alerts lg1 res lg2 e'' alerts'' lg4 a where lg: "sample_logger = Inr lg"
    and c1: "check_entry sample_log_env (sample_outside 5) (sample_created 5 lg) lg = Some (e', alerts, lg1)"
    and cm: "commit_entry sample_log_env (sample_outside 5) e' lg1 = Some (res, lg2)"
    and c2: "check_entry sample_log_env (sample_outside 9) (sample_created 9 lg2) lg2 = Some (e'', alerts'', lg4)"
    and a: "a \<in> set alerts" "Al_TriggerRateLimit a" and lim: "Lg_limiter lg \<noteq> None"
    by (auto split: sum.splits option.splits simp: list_ex_iff)
  have cfg: "Lg_config lg = sample_log_config"
    using lg by (auto simp: sample_logger_def NewLogger_def Let_def split: sum.splits if_splits)
  have "AE_Actor (En_row (sample_created t l)) = ''eve''" "AE_RoleUsed (En_row (sample_created t l)) = ''w''" for t l
    by (simp_all add: sample_created_def createEntry_def Let_def split: prod.splits)
  then have "AF_RateLimited (AE_Flags (En_row e''))"
    using alert_blocks_actor [OF c1 cm lim a, of "''eve''" 5 "5 + Cfg_BlockDuration (LC_RateLimit (Lg_config lg))" "[]" "[]" lg2
        "sample_outside 9" "sample_query ''DROP'' 9" "''w''" "''s''" e'' alerts'' lg4] lg c1 cm c2
    by (simp add: cfg sample_outside_def within_block_def sample_created_def sample_log_config_def counted_def
        DefaultRateLimitConfig_def)
  then show ?thesis using lg c1 cm c2 by blast
qed

text \<open>
  C20. The entries the logger hands to its repository form one chain. For an enabled logger with the
  hash chain on, over any repository whose \<open>GetLastHash\<close> returned \<open>h\<close> at the start, and after any run
  of calls that does not panic: every entry that was handed to \<open>Log\<close>, whether it came from a
  statement or was logged directly, was limited, raised alerts, or was refused by the repository,
  carries the hash of the entry handed before it (\<open>h\<close> for the first) and the digest of its own fields;
  and when every call succeeded these are the entries the repository accepted.
\<close>

theorem handed_entries_linked:
  assumes "LE_persist env = recorded persist" and "LC_Enabled cfg" and "LC_HashChain cfg"
    and "NewLogger env cfg nodeID (Some (r, [])) (Some h) exporters = Inr lg"
    and "run_calls_log env cs lg = Some (rs, lg')"
  shows "linked AE_PrevHash AE_EntryHash (CalculateHash env) h (handed lg')
    \<and> (set rs \<subseteq> {None} \<longrightarrow> accepted lg' = handed lg')"
proof -
  have lg: "Lg_repository lg = Some (r, [])" "Lg_hashChain lg" "Lg_lastHash lg = h"
    using assms(2-4) by (auto simp: NewLogger_def Let_def split: sum.splits if_splits)
  then have "in_chain env h lg" "accepted lg = handed lg"
    by (simp_all add: in_chain_def handed_def accepted_def chain_tip_def)
  then show ?thesis using run_chain [OF assms(1,5) lg(2), of h] by (simp add: in_chain_def)
qed

theorem handed_entries_linked_witness:
  "\<exists>lg rs lg'. sample_logger = Inr lg
    \<and> run_calls_log sample_log_env [Call_Log (sample_outside 5) (sample_query ''DROP'' 5) ''w'' ''s'' ''eve'',
         Call_Log (sample_outside 17) (sample_query ''UPDATE'' 17) ''w'' ''s'' ''bob''] lg = Some (rs, lg')
    \<and> length (handed lg') = 2 \<and> linked AE_PrevHash AE_EntryHash (CalculateHash sample_log_env) ''h0'' (accepted lg')"
proof -
  let ?cs = "[Call_Log (sample_outside 5) (sample_query ''DROP'' 5) ''w'' ''s'' ''eve'',
         Call_Log (sample_outside 17) (sample_query ''UPDATE'' 17) ''w'' ''s'' ''bob'']"
  have "(case sample_logger of Inl err \<Rightarrow> False | Inr lg \<Rightarrow>
      (case run_calls_log sample_log_env ?cs lg of None \<Rightarrow> False | Some (rs, lg') \<Rightarrow> list_all (\<lambda>r. r = None) rs \<and> length (handed lg') = 2))" by code_simp
  then obtain lg rs lg' where lg: "sample_logger = Inr lg" and run: "run_calls_log sample_log_env ?cs lg = Some (rs, lg')"
    and rs: "set rs \<subseteq> {None}" and n: "length (handed lg') = 2"
    by (auto split: sum.splits option.splits simp: list_all_iff)
  have rec: "LE_persist sample_log_env = recorded (\<lambda>now ok e r. (ok, r))" by (simp add: sample_log_env_def)
  have on: "LC_Enabled sample_log_config" "LC_HashChain sample_log_config" by (simp_all add: sample_log_config_def)
  show ?thesis
    using handed_entries_linked [OF rec on lg [unfolded sample_logger_def] run] rs lg run n by auto
qed

text \<open>
  One refused entry breaks the chain of the accepted ones: the logger has already advanced its last
  hash to the refused entry, so the next entry that is accepted points at an entry that is not stored.
\<close>

theorem refused_entry_breaks_chain:
  assumes "LE_persist env = recorded persist" and "Lg_hashChain lg" and "Lg_repository lg \<noteq> None"
    and "commit_entry env out1 e1 lg = Some (Some err, lg1)" and "commit_entry env out2 e2 lg1 = Some (None, lg2)"
    and "AE_EntryHash (En_row (fst (seal env e1 lg))) \<noteq> chain_tip AE_EntryHash h (accepted lg)"
  shows "\<not> linked AE_PrevHash AE_EntryHash (CalculateHash env) h (accepted lg2)"
proof -
  note c1 = commit_recorded [OF assms(1-4) refl]
  have "Lg_hashChain lg1" using commit_frame(3) [OF assms(4)] assms(2) by simp
  note c2 = commit_recorded [OF assms(1) this c1(1) assms(5) refl]
  show ?thesis using c1(3,6) c2(3,4) assms(6) by (auto simp: linked_append chain_tip_def)
qed

text \<open>
  Every statement of no known kind is handed over with the action \<open>OTHER\<close>, which the check of the
  table of the audit log does not list.
\<close>

theorem unclassified_statement_refused:
  assumes "LE_persist env = recorded persist" and "Lg_hashChain lg" and "Lg_repository lg \<noteq> None"
    and "Lg_closed lg = False" and "LC_Enabled (Lg_config lg)"
    and "ParseAction (LE_text env) (QI_Query info) = ''OTHER''" and "Logger_Log env out info role source actor lg = Some (res, lg')"
  shows "\<exists>row. handed lg' = handed lg @ [row] \<and> \<not> schema_accepts rows row"
proof -
  let ?e = "createEntry env (O_opID out) info role source actor lg"
  obtain e' alerts lg1 where ck: "check_entry env out ?e lg = Some (e', alerts, lg1)" "commit_entry env out e' lg1 = Some (res, lg')"
    using assms(4,5,7) by (cases "check_entry env out ?e lg") (auto simp: Logger_Log_def)
  have "AE_Action (En_row ?e) = ''OTHER''" using assms(6) by (simp add: createEntry_def Let_def split: prod.splits)
  then have act: "AE_Action (En_row (fst (seal env e' lg1))) = ''OTHER''"
    using check_entry_frame(1) [OF ck(1)] by (simp add: seal_def SetHashChain_def Let_def)
  have lg1: "Lg_hashChain lg1" "Lg_repository lg1 \<noteq> None" "handed lg1 = handed lg"
    using check_entry_frame(2,4) [OF ck(1)] assms(2,3) by (simp_all add: handed_def)
  have "handed lg' = handed lg @ [En_row (fst (seal env e' lg1))]"
    using commit_recorded(2) [OF assms(1) lg1(1,2) ck(2) refl] lg1(3) by simp
  moreover have "\<not> schema_accepts rows (En_row (fst (seal env e' lg1)))"
    by (simp add: schema_accepts_def audit_actions_def act)
  ultimately show ?thesis by blast
qed

end
