(* ===== verification/Spec2Isabelle.thy ===== *)
theory Spec2Isabelle
  imports
    Topics Schedules Instructions Datasets Users Jobs Downloads Transfers Shamir Queries
    P2P_Wire P2P_Proto P2P_Modes
    Audit_Chain Grpc Rate_Limit Break_Glass Cluster_Store Cluster_Raft
    Sql_Store Dataset_Repo Blob_Types Blob_Local Blob_S3 Blob_Hybrid Blob_Ingest Blob_GC
    Grpc_Errors Account_Repo Auth Auth_Sessions Auth_Service One_Time Topic_Repo Topic_Members Topic_Service Topic_Paging
    Audit_Redact Audit_Alerts Audit_Sinks Audit_Logger
begin

text \<open>
  A verification development for bib, a peer-to-peer data platform written in Go: a daemon
  (\<open>cmd/bibd\<close>) that stores topics and data sets, exchanges their chunks with peers, runs jobs over
  them, answers gRPC requests and, in a cluster, replicates its catalog; and a command line client.
  Paths below are relative to \<open>src/\<close>.

  \<^bold>\<open>How the model relates to the code.\<close> Definitions carry the names of the Go functions, prefixed
  with the receiver where a name is used twice (\<open>Topic_Validate\<close> for \<open>Topic.Validate\<close>). A struct is a
  record with one field per field, prefixed; a pointer that may be nil is an option; a map is an
  association list under its key; a method that changes its receiver returns the changed value.
  Errors are values: the sentinel errors of the domain package are the datatype of theory
  Domain_Errors, other packages have a datatype of their own, and every early return is a branch.
  Instants and durations are integers of nanoseconds; a byte is an 8-bit word and an unsigned 64-bit
  integer a 64-bit word, with their wrap-around; \<open>int\<close> is an integer, with the wrap-around written out
  where the code can reach it. What the code does not compute itself is an argument: every reading of the clock (one per
  call of \<open>time.Now\<close>), random bytes, the success of a statement, of a file operation or of a network
  request, SHA-256 and Ed25519, the JSON encodings, and the Unicode tables. Loops are structural
  recursion or come with a measure, so no definition of the code needs fuel; a client that pages through a listing is given fuel, shown to be enough where paging ends. The depth-first search over a
  pipeline's dependencies is a mutual recursion that terminates because every call marks a job.

  \<^bold>\<open>The domain\<close> (\<open>internal/domain\<close>).
  \<^item> Bib_Prelude, Domain_Errors: shared Go vocabulary, chains of guarded early returns, and errors.
  \<^item> Topics (\<open>topic.go\<close>): topics, their tree and owners. A topic that validates never loses its last
    owner and never lists one twice, over any sequence of owner changes.
  \<^item> Schedules (\<open>schedule.go\<close>): a counting schedule fires exactly as often as it should, and runs of an
    interval schedule keep their distance.
  \<^item> Instructions, Datasets (\<open>instruction.go\<close>, \<open>dataset.go\<close>, \<open>catalog.go\<close>): the closed list of
    operations a task may use; versions, contents, chunks and catalogs with their validation.
  \<^item> Users (\<open>user.go\<close>, \<open>ownership.go\<close>): keys, identities, roles and ownership.
  \<^item> Jobs (\<open>job.go\<close>): the cycle search of a pipeline is sound for every pipeline whose jobs have
    distinct identifiers, exact for those whose dependencies are all present, and an accepted one never
    deadlocks; a job with the identifier of an earlier one hides a cycle, and a dependency outside the
    pipeline that two jobs share is taken for one.
  \<^item> Downloads (\<open>sync.go\<close>): the chunk bitmap refines a set of chunk numbers, and the counter and the
    missing list agree with it. Queries (\<open>query.go\<close>): the filter for read-only SQL is a test on the
    start and the words of the text as the client sent it, which a second statement passes.

  \<^bold>\<open>Transfers\<close> (\<open>internal/p2p/transfer.go\<close>, \<open>protocol_client.go\<close>). Theory Transfers uses Downloads
  through the locale it states for a chunk set. A worker is a small state machine whose turns are the
  points where it shares state with the others; a run is a schedule of turns, an argument, and marking
  a chunk is a read and a later write, since the code does not lock it. For any number of workers and
  any schedule only verified chunks are marked; for one worker the outcome of a run is exact; two
  workers can lose a mark. With the JSON client the data of a chunk never arrives, so no download
  completes, and a run with nothing to do leaves its entry in the map of active downloads.

  \<^bold>\<open>Nodes among each other\<close> (\<open>internal/p2p\<close>). P2P_Wire (\<open>protocol.go\<close>, \<open>protocol_client.go\<close>) and P2P_Proto
  (\<open>protocol_proto.go\<close>, \<open>proto_convert.go\<close>): messages framed by their length over streams that arrive in segments, the
  handlers of the serving node and the methods of the calling node; a frame is read back however it is
  split, a fetched catalog or chunk is what the other node serves, up to the fields the conversions drop,
  and the JSON client loses a response that is split. P2P_Modes (\<open>mode.go\<close>, \<open>mode_proxy.go\<close>, \<open>mode_selective.go\<close>,
  \<open>mode_full.go\<close>): queries over peers return each hash once, the cache of a proxy serves only answers
  that have not expired, subscriptions survive a restart when they are saved, and a change of the
  configuration keeps mode, handler and configuration together; the locale \<open>mode_contract\<close> is
  interpreted on the three handlers.

  \<^bold>\<open>Secrets\<close> (\<open>internal/storage/postgres/encryption\<close>). Theory Shamir: the bitwise product of the field of 256
  elements is the multiplication of a commutative ring; splitting and recovery agree on their
  formats. The log and exp tables are built on an element of order 51, division drops its
  denominator, and recovery returns another key; share 256 is the key.

  \<^bold>\<open>Audit and access.\<close> Audit_Chain (\<open>internal/storage/sqlite/audit.go\<close> and the schema of the log):
  what one run of the store logs verifies when the entries come without a hash of their own, changing a
  hashed field is detected; some fields are not hashed, and a reopened store starts a new chain. Rate_Limit (\<open>internal/storage/audit/ratelimit.go\<close>):
  a locale for limiters under a key, interpreted on the check of one key and on the check of an entry;
  no window admits more than the limit. Grpc (\<open>internal/grpc/middleware\<close>, \<open>server_lifecycle.go\<close>): the
  chain of interceptors around a handler; what the role gate guarantees when it is installed, that
  the server does not install it, and what its audit interceptor leaves out. Break_Glass
  (\<open>internal/storage/breakglass\<close>): the manager of emergency sessions and its expiry monitors as a step
  relation over their critical sections, with an invariant of every reachable state.

  \<^bold>\<open>The audit logger\<close> (\<open>internal/storage/audit\<close>). Audit_Redact (\<open>redact.go\<close>, the parsers of \<open>types.go\<close>):
  regular expressions as matchers of the text at a position, with a leftmost scanner; which arguments
  and metadata are redacted, against references that read backwards from a placeholder and follow
  paths of keys. Audit_Alerts (\<open>alerts.go\<close>): threshold and CEL rules; a check raises exactly the alerts that
  the history of all earlier checks asks for. Audit_Sinks (\<open>stream.go\<close>, \<open>file.go\<close>, \<open>s3.go\<close>, \<open>syslog.go\<close>): the stream
  with its channels and the exporters; what is delivered, kept within limits, escaped, and what is
  lost. Audit_Logger (\<open>logger.go\<close>): the composition of limiter, detector, chain, repository, stream and
  exporters. The repository is an argument, any function that accepts or refuses an entry: no code of
  the program connects this logger to a store. An alert blocks its actor at the limiter, the entries
  handed to the repository are linked, and a refused entry breaks the chain of the stored ones.

  \<^bold>\<open>The SQLite store\<close> (\<open>internal/storage/sqlite\<close>). Sql_Store: statements run under an operation context and
  are logged through Audit_Chain; a statement is a function on the tables that gives a constraint
  violation or the changed tables. Dataset_Repo (\<open>datasets.go\<close> over the first migration): every operation
  keeps the keys, checks and references of the tables and the chain of the log, and the data sets
  refine a map from identifiers that only the validated operations change; creation succeeds exactly
  when the constraints allow it and is then read back; the latest version is chosen by the text of a
  time stamp.

  Account_Repo (\<open>users.go\<close>, \<open>sessions.go\<close>) and Topic_Repo (\<open>topics.go\<close>, \<open>topic_members.go\<close>,
  \<open>topic_invitations.go\<close>): the same for users and sessions and for topics, members and invitations.

  \<^bold>\<open>Authentication\<close> (\<open>internal/auth\<close>, \<open>internal/grpc/services/auth\<close>, \<open>internal/ssh\<close>). Auth: keys and signatures over the
  cryptographic primitives, the challenges and the service; the locale \<open>account_invariant\<close> carries a
  predicate on the tables through every operation. Auth_Sessions: no user has more active sessions than the limit, and a
  suspension locks a user out until an activation; a refresh revives an expired session. Auth_Service: the
  handlers; a token needs a signature over a live challenge, which the locale of One_Time shows to serve once; the SSH
  server accepts nobody, and anyone can log anyone out. Grpc_Errors: the status of a domain error.

  \<^bold>\<open>Topics as a service\<close> (\<open>internal/grpc/services/topic\<close>). Topic_Members: invitations, roles and ownership; its
  locale \<open>membership_invariant\<close> is interpreted on the constraints of the tables and on the owners of a topic, and its
  invitations are tokens of One_Time. Topic_Service extends the locale to every handler: a topic keeps an
  owner through any sequence of requests, a private topic is only shown to its members by requests whose sort field is the
  name of a column, and only an owner changes one (another sort field is SQL text and outside the model); two owners
  who leave at once, or one failed read, leave a topic without an owner. Topic_Paging: a plain listing ends with every topic;
  one that hides topics need not end.

  \<^bold>\<open>The blob store\<close> (\<open>internal/storage/blob\<close>). Blob_Types holds the interface \<open>Store\<close> as a record of operations
  and its contract as the locale \<open>blob_store\<close>, stated over the contents a reader gets and an invariant.
  Blob_Local (\<open>local.go\<close>, the directory tree as tables) and Blob_S3 (\<open>s3.go\<close>, over a client with named
  laws) interpret it; Blob_Hybrid (\<open>hybrid.go\<close>) shows that two backends with the contract make a tiered
  store with it, that moving blobs never changes what is read, and that the LRU policy does not come to
  rest. Blob_Ingest (\<open>ingestion.go\<close>) joins the blob store and Dataset_Repo: what is ingested into sound
  tiers is retrieved, a damaged blob is not replaced by a later ingestion, and the integrity check over
  a directory with any files reports exactly the chunks that are missing or damaged. Blob_GC (\<open>gc.go\<close>) collects exactly the
  unmarked old blobs and never one that a chunk refers to while the database answers; a failed read
  loses live data.

  \<^bold>\<open>The cluster\<close> (\<open>internal/cluster\<close>). Cluster_Store: the SQLite tables and the replicated state machine.
  A locale for a cache in front of a table of upserts, interpreted on the catalog, the jobs and the
  configuration, carries the invariant that what is cached is stored. A restore replaces the caches and
  upserts their rows: which columns it writes, which it keeps and which rows it leaves is stated row by
  row; a join token is accepted at most once. Cluster_Raft: the consensus node
  and the cluster manager, with a step relation over everything a running node does; proposals are
  accepted and never applied, a restarted node never leads, and a failed snapshot compacts the log.

  \<^bold>\<open>Not modelled.\<close> The libp2p host, discovery, peer store, gossip and gRPC streams of \<open>internal/p2p\<close> and
  \<open>internal/discovery\<close> (calls into libp2p and the network); the gRPC services other than
  authentication, topics and the break-glass grant (conversion between generated messages and the stores); the SQLite
  repositories of jobs, nodes, queries and preferences, and the PostgreSQL repositories, their connection pools,
  credentials and life cycle; the scheduler of the blob collector and the wiring of the blob manager;
  backups, certificates; the readers of exported audit files and the wrappers of \<open>middleware.go\<close>;
  the TCP transport of the cluster; deployment, setup, configuration loading, logging, the terminal
  interface and the command line. The generated code under \<open>api/gen\<close> is not part of the program's logic.
  Later work extends the development towards the other services, the
  credential rotation, the peer store and the discovery caches.
\<close>

end
